(* ===== verification/TCP_Prelude.thy ===== *)
theory TCP_Prelude
  imports "HOL-Library.Word"
begin

text \<open>
  What the components of the development share: the machine integers of the code, the error
  values that stand for the exceptions it throws, the sequencing of fallible steps, and generic
  facts on words and on the recursion patterns of the list loops.

  The integer widths are those of the platform the repository records (the
  \<^verbatim>\<open>hs_err_pid*.log\<close> files: linux-x86, i686), where \<^verbatim>\<open>unsigned int\<close>,
  \<^verbatim>\<open>unsigned long\<close> and \<^verbatim>\<open>uint32\<close> are 32 bits and \<^verbatim>\<open>unsigned short\<close>
  is 16 bits wide.
\<close>

section \<open>Types\<close>

type_synonym u8 = "8 word"
type_synonym u16 = "16 word"
type_synonym u32 = "32 word"

text \<open>Simulation time is an integer number of picoseconds.\<close>

type_synonym simtime = int

definition seconds :: "int \<Rightarrow> simtime" where
  "seconds s = s * 1000000000000"

text \<open>
  \<^verbatim>\<open>ASSERT(c)\<close> of the OMNeT++ kernel throws when the condition is false, and
  \<^verbatim>\<open>throw cRuntimeError(...)\<close> (also through \<^verbatim>\<open>error(...)\<close>) ends the event with an
  error that carries a text. Dereferencing a null pointer or reading the front of an empty
  list has no defined behaviour, and is an error value of its own. A loop that does not end is one
  too: such loops are \<^theory_text>\<open>partial_function\<close>s into an option, and \<open>of_loop\<close> turns the
  absence of a result into the error.
\<close>

datatype tcp_error =
    Assertion_failed
  | Runtime_error string
  | Undefined_behaviour
  | Non_termination

type_synonym 'a res = "tcp_error + 'a"

definition bind_res :: "'a res \<Rightarrow> ('a \<Rightarrow> 'b res) \<Rightarrow> 'b res" where
  "bind_res m f = (case m of Inl e \<Rightarrow> Inl e | Inr x \<Rightarrow> f x)"

definition ASSERT :: "bool \<Rightarrow> 'a res \<Rightarrow> 'a res" where
  "ASSERT c k = (if c then k else Inl Assertion_failed)"

text \<open>Reading through a pointer that may be null.\<close>

definition deref :: "'a option \<Rightarrow> 'a res" where
  "deref p = (case p of None \<Rightarrow> Inl Undefined_behaviour | Some x \<Rightarrow> Inr x)"

definition of_loop :: "'a res option \<Rightarrow> 'a res" where
  "of_loop r = (case r of None \<Rightarrow> Inl Non_termination | Some m \<Rightarrow> m)"

fun fold_res :: "('a \<Rightarrow> 's \<Rightarrow> 's res) \<Rightarrow> 'a list \<Rightarrow> 's \<Rightarrow> 's res" where
  "fold_res f [] s = Inr s"
| "fold_res f (x # xs) s = bind_res (f x s) (fold_res f xs)"

text \<open>
  A self-message: the pointer may be null, the message idle, or scheduled to arrive at a time.
\<close>

datatype timer = Timer_null | Timer_idle | Timer_at simtime

definition pending :: "timer \<Rightarrow> bool" where
  "pending t = (case t of Timer_at _ \<Rightarrow> True | _ \<Rightarrow> False)"

lemma pending_simps [simp]: "pending (Timer_at t)" "\<not> pending Timer_idle" "\<not> pending Timer_null"
  by (simp_all add: pending_def)

section \<open>Collections and rules\<close>

named_theorems res_intro \<open>an operation returns a result\<close>
named_theorems seq_offset \<open>comparisons of sequence numbers as comparisons of offsets\<close>

lemma bind_res_Inr [simp]: "bind_res (Inr x) f = f x"
  by (simp add: bind_res_def)

lemma bind_res_Inl [simp]: "bind_res (Inl e) f = Inl e"
  by (simp add: bind_res_def)

lemma bind_res_eq_Inr [simp]:
  "bind_res m f = Inr y \<longleftrightarrow> (\<exists>x. m = Inr x \<and> f x = Inr y)"
  by (cases m) auto

lemma bind_res_eq_Inl:
  "bind_res m f = Inl e \<longleftrightarrow> m = Inl e \<or> (\<exists>x. m = Inr x \<and> f x = Inl e)"
  by (cases m) auto

lemma bind_res_assoc: "bind_res (bind_res m f) g = bind_res m (\<lambda>x. bind_res (f x) g)"
  by (cases m) auto

lemma ASSERT_True [simp]: "c \<Longrightarrow> ASSERT c k = k"
  by (simp add: ASSERT_def)

lemma ASSERT_False [simp]: "\<not> c \<Longrightarrow> ASSERT c k = Inl Assertion_failed"
  by (simp add: ASSERT_def)

lemma ASSERT_eq_Inr: "ASSERT c k = Inr y \<longleftrightarrow> c \<and> k = Inr y"
  by (simp add: ASSERT_def)

lemma deref_eq_Inr [simp]: "deref p = Inr x \<longleftrightarrow> p = Some x"
  by (auto simp: deref_def split: option.splits)

lemma deref_Some [simp]: "deref (Some x) = Inr x"
  by simp

lemma deref_None [simp]: "deref None = Inl Undefined_behaviour"
  by (simp add: deref_def)

lemma of_loop_simps [simp]:
  "of_loop (Some m) = m" "of_loop None = Inl Non_termination"
  by (simp_all add: of_loop_def)

lemma of_loop_eq_Inr: "of_loop r = Inr y \<longleftrightarrow> r = Some (Inr y)"
  by (simp add: of_loop_def split: option.splits)

lemma fold_res_append:
  "fold_res f (xs @ ys) s = bind_res (fold_res f xs s) (fold_res f ys)"
proof (induction xs arbitrary: s)
  case (Cons x xs)
  have "fold_res f (xs @ ys) = (\<lambda>s. bind_res (fold_res f xs s) (fold_res f ys))"
    by (rule ext) (rule Cons.IH)
  then show ?case by (simp add: bind_res_assoc)
qed simp

lemma fold_res_invariant:
  assumes "\<And>x s s'. x \<in> set xs \<Longrightarrow> P s \<Longrightarrow> f x s = Inr s' \<Longrightarrow> P s'"
    and "P s" "fold_res f xs s = Inr s'"
  shows "P s'"
  using assms
proof (induction xs arbitrary: s)
  case (Cons x xs)
  then obtain t where t: "f x s = Inr t" "fold_res f xs t = Inr s'"
    by auto
  have "P t" using Cons.prems(1)[of x s t] Cons.prems(2) t(1) by simp
  moreover have "\<And>y s s'. y \<in> set xs \<Longrightarrow> P s \<Longrightarrow> f y s = Inr s' \<Longrightarrow> P s'"
    using Cons.prems(1) by (meson list.set_intros(2))
  ultimately show ?case using Cons.IH t(2) by blast
qed simp

text \<open>A result, if there is one, has a property.\<close>

definition res_all :: "('a \<Rightarrow> bool) \<Rightarrow> 'a res \<Rightarrow> bool" where
  "res_all P m \<longleftrightarrow> (\<forall>t. m = Inr t \<longrightarrow> P t)"

lemma res_all_bind: "(\<And>x. m = Inr x \<Longrightarrow> res_all P (f x)) \<Longrightarrow> res_all P (bind_res m f)"
  by (auto simp: res_all_def)

lemma res_all_if: "(c \<Longrightarrow> res_all P m) \<Longrightarrow> (\<not> c \<Longrightarrow> res_all P n) \<Longrightarrow> res_all P (if c then m else n)"
  by simp

lemma res_all_Inl [simp]: "res_all P (Inl e)"
  by (simp add: res_all_def)

lemma res_all_Inr [simp]: "res_all P (Inr x) \<longleftrightarrow> P x"
  by (simp add: res_all_def)

lemma res_all_ASSERT: "(c \<Longrightarrow> res_all P m) \<Longrightarrow> res_all P (ASSERT c m)"
  by (simp add: ASSERT_def)

lemma res_all_option:
  "(x = None \<Longrightarrow> res_all P m) \<Longrightarrow> (\<And>y. x = Some y \<Longrightarrow> res_all P (f y)) \<Longrightarrow>
   res_all P (case x of None \<Rightarrow> m | Some y \<Rightarrow> f y)"
  by (cases x) simp_all

lemma res_all_prod: "(\<And>a b. x = (a, b) \<Longrightarrow> res_all P (f a b)) \<Longrightarrow> res_all P (case x of (a, b) \<Rightarrow> f a b)"
  by (cases x) simp

lemma res_allD: "res_all P m \<Longrightarrow> m = Inr x \<Longrightarrow> P x"
  by (simp add: res_all_def)

lemma bind_resE: "bind_res m f = Inr t \<Longrightarrow> (\<And>x. m = Inr x \<Longrightarrow> f x = Inr t \<Longrightarrow> P) \<Longrightarrow> P"
  by auto

section \<open>Words\<close>

lemma unat_u32_bound [simp]: "unat (a::u32) < 4294967296"
  using unsigned_less[of a, where 'a = nat] by simp

lemma unat_sub_u32:
  "unat ((a::u32) - b) =
     (if unat b \<le> unat a then unat a - unat b else unat a + 4294967296 - unat b)"
  by (simp add: unat_sub_if')

lemma unat_add_mod_u32: "unat ((a::u32) + b) = (unat a + unat b) mod 4294967296"
  by (simp add: unat_word_ariths)

lemma unat_add_u32:
  "unat (a::u32) + unat b < 4294967296 \<Longrightarrow> unat (a + b) = unat a + unat b"
  by (simp add: unat_add_mod_u32)

lemma unat_of_nat_u32: "n < 4294967296 \<Longrightarrow> unat (of_nat n :: u32) = n"
  by (simp add: unsigned_of_nat take_bit_eq_mod)

end
