(* ===== verification/TCP_Seq.thy ===== *)
theory TCP_Seq
  imports TCP_Prelude
begin

text \<open>
  Sequence number comparison (\<^verbatim>\<open>tcp_common/TCPSegment.h\<close>) and the selective
  acknowledgement block \<^verbatim>\<open>Sack\<close> (\<^verbatim>\<open>tcp_common/TCPSegment.cc\<close>). Comparisons are
  circular: one number is before another when the distance is less than half the number space.
  The lemmas turn comparisons of numbers that lie within half the space above a base into
  comparisons of their natural-number offsets from the base; all proofs about queues go through
  them.
\<close>

section \<open>Comparisons\<close>

definition seqLess :: "u32 \<Rightarrow> u32 \<Rightarrow> bool" where
  "seqLess a b \<longleftrightarrow> a \<noteq> b \<and> (b - a) < 0x80000000"

definition seqLE :: "u32 \<Rightarrow> u32 \<Rightarrow> bool" where
  "seqLE a b \<longleftrightarrow> (b - a) < 0x80000000"

definition seqGreater :: "u32 \<Rightarrow> u32 \<Rightarrow> bool" where
  "seqGreater a b \<longleftrightarrow> a \<noteq> b \<and> (a - b) < 0x80000000"

definition seqGE :: "u32 \<Rightarrow> u32 \<Rightarrow> bool" where
  "seqGE a b \<longleftrightarrow> (a - b) < 0x80000000"

definition seqMin :: "u32 \<Rightarrow> u32 \<Rightarrow> u32" where
  "seqMin a b = (if (b - a) < 0x80000000 then a else b)"

definition seqMax :: "u32 \<Rightarrow> u32 \<Rightarrow> u32" where
  "seqMax a b = (if (a - b) < 0x80000000 then a else b)"

section \<open>Offsets from a base\<close>

text \<open>The distance of a sequence number above a base, and the half space above it.\<close>

definition off :: "u32 \<Rightarrow> u32 \<Rightarrow> nat" where
  "off x a = unat (a - x)"

definition in_half :: "u32 \<Rightarrow> u32 \<Rightarrow> bool" where
  "in_half x a \<longleftrightarrow> off x a < 2147483648"

lemma off_self [simp]: "off x x = 0"
  by (simp add: off_def)

lemma off_bound: "off x a < 4294967296"
  by (simp add: off_def)

lemma off_inj [simp]: "off x a = off x b \<longleftrightarrow> a = b"
  by (simp add: off_def word_unat_eq_iff [symmetric])

lemma off_zero_iff [simp]: "off x a = 0 \<longleftrightarrow> a = x"
  using off_inj[of x a x] by simp

lemma off_add: "n < 4294967296 \<Longrightarrow> off x (x + of_nat n) = n"
  by (simp add: off_def unat_of_nat_u32)

lemma unat_diff_base: "unat (b - a) = unat ((b - x) - (a - x))" for a b x :: u32
  by simp

lemma off_cases:
  "off a b = (if off x a \<le> off x b then off x b - off x a
    else off x b + 4294967296 - off x a)"
proof -
  have "off a b = unat ((b - x) - (a - x))" by (simp add: off_def)
  also have "\<dots> = (if unat (a - x) \<le> unat (b - x) then unat (b - x) - unat (a - x)
    else unat (b - x) + 4294967296 - unat (a - x))"
    by (rule unat_sub_u32)
  finally show ?thesis by (simp only: off_def)
qed

lemma off_shift: "off x a \<le> off x b \<Longrightarrow> off a b = off x b - off x a"
  using off_cases[of a b x] by simp

lemma off_trans: "off x a + off a b < 4294967296 \<Longrightarrow> off x b = off x a + off a b"
  using off_cases[of a b x] off_bound[of x a] off_bound[of x b] by (auto split: if_splits)

lemma off_plus: "off x a + unat n < 4294967296 \<Longrightarrow> off x (a + n) = off x a + unat n"
  using off_trans[of x a "a + n"] by (simp add: off_def)

lemma seqLE_off_self: "seqLE a b \<longleftrightarrow> off a b < 2147483648"
  by (simp add: seqLE_def off_def word_less_nat_alt)

lemma in_half_self [simp]: "in_half x x"
  by (simp add: in_half_def)

lemma seqLE_iff [seq_offset]:
  assumes "in_half x a" "in_half x b"
  shows "seqLE a b \<longleftrightarrow> off x a \<le> off x b"
  using assms off_cases[of a b x] by (auto simp: seqLE_off_self in_half_def)

lemma seqLess_seqLE: "seqLess a b \<longleftrightarrow> a \<noteq> b \<and> seqLE a b"
  by (simp add: seqLess_def seqLE_def)

lemma seqGE_seqLE: "seqGE a b \<longleftrightarrow> seqLE b a"
  by (simp add: seqGE_def seqLE_def)

lemma seqGreater_seqLess: "seqGreater a b \<longleftrightarrow> seqLess b a"
  by (auto simp: seqGreater_def seqLess_def)

lemma seqLess_iff [seq_offset]:
  assumes "in_half x a" "in_half x b"
  shows "seqLess a b \<longleftrightarrow> off x a < off x b"
  using assms by (auto simp: seqLess_seqLE seqLE_iff[of x] le_less)

lemma seqGE_iff [seq_offset]:
  assumes "in_half x a" "in_half x b"
  shows "seqGE a b \<longleftrightarrow> off x b \<le> off x a"
  using assms by (simp add: seqGE_seqLE seqLE_iff[of x])

lemma seqGreater_iff [seq_offset]:
  assumes "in_half x a" "in_half x b"
  shows "seqGreater a b \<longleftrightarrow> off x b < off x a"
  using assms by (simp add: seqGreater_seqLess seqLess_iff[of x])

lemma seqMin_iff [seq_offset]:
  assumes "in_half x a" "in_half x b"
  shows "seqMin a b = (if off x a \<le> off x b then a else b)"
  using seqLE_iff[OF assms] by (simp add: seqMin_def seqLE_def)

lemma seqMax_iff [seq_offset]:
  assumes "in_half x a" "in_half x b"
  shows "seqMax a b = (if off x b \<le> off x a then a else b)"
  using seqLE_iff[OF assms(2,1)] by (simp add: seqMax_def seqLE_def)

text \<open>
  On numbers within half the space above a base the comparisons form a strict total order.
\<close>

lemma seqLE_refl [simp]: "seqLE a a"
  by (simp add: seqLE_def)

lemma seqGE_refl [simp]: "seqGE a a"
  by (simp add: seqGE_def)

lemma seqLess_irrefl [simp]: "\<not> seqLess a a"
  by (simp add: seqLess_def)

lemma seqLess_window_trichotomy:
  assumes "in_half x a" "in_half x b"
  shows "(seqLess a b \<and> a \<noteq> b \<and> \<not> seqLess b a) \<or> (a = b \<and> \<not> seqLess a b)
    \<or> (seqLess b a \<and> a \<noteq> b \<and> \<not> seqLess a b)"
  using assms off_inj[of x a b] by (simp add: seqLess_iff[of x] del: off_inj) linarith

text \<open>Without a common window the order is not transitive.\<close>

lemma seqLess_not_transitive:
  "seqLess 0 0x60000000 \<and> seqLess 0x60000000 0xC0000000 \<and> \<not> seqLess 0 0xC0000000"
  by (simp add: seqLess_def)

section \<open>SACK blocks\<close>

record Sack =
  sack_start :: u32
  sack_end :: u32

definition sack_empty :: "Sack \<Rightarrow> bool" where
  "sack_empty s \<longleftrightarrow> sack_start s = 0 \<and> sack_end s = 0"

definition sack_contains :: "Sack \<Rightarrow> Sack \<Rightarrow> bool" where
  "sack_contains s other \<longleftrightarrow>
     seqLE (sack_start s) (sack_start other) \<and> seqLE (sack_end other) (sack_end s)"

definition sack_clear :: "Sack \<Rightarrow> Sack" where
  "sack_clear s = s\<lparr>sack_start := 0, sack_end := 0\<rparr>"

definition sack_setSegment :: "u32 \<Rightarrow> u32 \<Rightarrow> Sack \<Rightarrow> Sack" where
  "sack_setSegment st en s = s\<lparr>sack_start := st, sack_end := en\<rparr>"

lemma sack_contains_refl [simp]: "sack_contains s s"
  by (simp add: sack_contains_def)

text \<open>Within a half space, containment of blocks is inclusion of their bytes.\<close>

lemma sack_contains_bytes:
  assumes "in_half x (sack_start s)" "in_half x (sack_end s)"
    and "in_half x (sack_start t)" "in_half x (sack_end t)"
    and "sack_contains s t" "off x (sack_start t) \<le> d" "d < off x (sack_end t)"
  shows "off x (sack_start s) \<le> d \<and> d < off x (sack_end s)"
  using assms by (simp add: sack_contains_def seqLE_iff[of x])

end
