(* ===== verification/TCP_SACK_Rexmit_Queue.thy ===== *)
theory TCP_SACK_Rexmit_Queue
  imports TCP_Seq
begin

text \<open>
  The sender's scoreboard \<^verbatim>\<open>TCPSACKRexmitQueue\<close>
  (\<^verbatim>\<open>transport/tcp/TCPSACKRexmitQueue.cc\<close>): a list of adjacent regions of sent, not yet
  acknowledged bytes, each with the flags \<open>sacked\<close> and \<open>rexmitted\<close>. The operations are the
  methods of the class, with their assertions. The abstraction reads the list as a map from the
  distance of a byte above the start of the queue to its two flags; the lemmas show that, on a
  queue that passes \<^verbatim>\<open>checkQueue\<close> and spans less than half the sequence space, no
  assertion fires and each operation is the expected operation on that map.
\<close>

section \<open>Data\<close>

record Region =
  beginSeqNum :: u32
  endSeqNum :: u32
  sacked :: bool
  rexmitted :: bool

record TCPSACKRexmitQueue =
  rexmitQueue :: "Region list"
  rq_begin :: u32
  rq_end :: u32

definition new_TCPSACKRexmitQueue :: TCPSACKRexmitQueue where
  "new_TCPSACKRexmitQueue = \<lparr>rexmitQueue = [], rq_begin = 0, rq_end = 0\<rparr>"

section \<open>Operations\<close>

definition rq_init :: "TCPSACKRexmitQueue \<Rightarrow> u32 \<Rightarrow> TCPSACKRexmitQueue" where
  "rq_init q seqNum = q\<lparr>rq_begin := seqNum, rq_end := seqNum\<rparr>"

definition rq_getBufferEndSeq :: "TCPSACKRexmitQueue \<Rightarrow> u32" where
  "rq_getBufferEndSeq q = rq_end q"

definition rq_getQueueLength :: "TCPSACKRexmitQueue \<Rightarrow> u32" where
  "rq_getQueueLength q = of_nat (length (rexmitQueue q))"

fun checkQueue_loop :: "u32 \<Rightarrow> bool \<Rightarrow> Region list \<Rightarrow> u32 \<times> bool" where
  "checkQueue_loop b f [] = (b, f)"
| "checkQueue_loop b f (i # rest) =
     (let f1 = (f \<and> b = beginSeqNum i);
          f2 = (f1 \<and> seqLess (beginSeqNum i) (endSeqNum i))
      in checkQueue_loop (endSeqNum i) f2 rest)"

definition checkQueue :: "TCPSACKRexmitQueue \<Rightarrow> bool" where
  "checkQueue q =
     (case checkQueue_loop (rq_begin q) True (rexmitQueue q) of (b, f) \<Rightarrow> f \<and> b = rq_end q)"

text \<open>
  The search loop of most methods: \<^verbatim>\<open>while (i != end() && seqLE(i->endSeqNum, seqNum)) i++;\<close>
  gives the regions passed over and the regions from the iterator on.
\<close>

definition seek_passed :: "u32 \<Rightarrow> Region list \<Rightarrow> Region list" where
  "seek_passed seqNum rs = takeWhile (\<lambda>i. seqLE (endSeqNum i) seqNum) rs"

definition seek :: "u32 \<Rightarrow> Region list \<Rightarrow> Region list" where
  "seek seqNum rs = dropWhile (\<lambda>i. seqLE (endSeqNum i) seqNum) rs"

definition rq_discardUpTo :: "TCPSACKRexmitQueue \<Rightarrow> u32 \<Rightarrow> TCPSACKRexmitQueue res" where
  "rq_discardUpTo q seqNum =
     ASSERT (seqLE (rq_begin q) seqNum \<and> seqLE seqNum (rq_end q))
       (bind_res
          (case seek seqNum (rexmitQueue q) of
             [] \<Rightarrow> Inr []
           | i # rest \<Rightarrow>
               ASSERT (seqLE (beginSeqNum i) seqNum \<and> seqLess seqNum (endSeqNum i))
                 (Inr (i\<lparr>beginSeqNum := seqNum\<rparr> # rest)))
          (\<lambda>rs. let q' = q\<lparr>rexmitQueue := rs, rq_begin := seqNum\<rparr>
                in ASSERT (checkQueue q') (Inr q')))"

text \<open>
  The step that \<^verbatim>\<open>enqueueSentData\<close> and \<^verbatim>\<open>setSackedBit\<close> share: skip the regions
  that end at or before a sequence number, and split the region that holds it.
\<close>

definition chunk_at :: "Region list \<Rightarrow> u32 \<Rightarrow> (Region list \<times> Region list) res" where
  "chunk_at rs fromSeqNum =
     (let pre = seek_passed fromSeqNum rs
      in case seek fromSeqNum rs of
           [] \<Rightarrow> Inl Assertion_failed
         | i # rest \<Rightarrow>
             ASSERT (seqLE (beginSeqNum i) fromSeqNum \<and> seqLess fromSeqNum (endSeqNum i))
               (if beginSeqNum i \<noteq> fromSeqNum
                then Inr (pre @ [i\<lparr>endSeqNum := fromSeqNum\<rparr>],
                          i\<lparr>beginSeqNum := fromSeqNum\<rparr> # rest)
                else Inr (pre, i # rest)))"

text \<open>The loop that marks the regions up to \<open>toSeqNum\<close> as retransmitted.\<close>

fun mark_loop :: "u32 \<Rightarrow> Region list \<Rightarrow> u32 \<Rightarrow> bool
    \<Rightarrow> Region list \<times> Region list \<times> u32 \<times> bool" where
  "mark_loop toSeqNum [] fromSeqNum found = ([], [], fromSeqNum, found)"
| "mark_loop toSeqNum (i # rest) fromSeqNum found =
     (if seqLE (endSeqNum i) toSeqNum then
        (case mark_loop toSeqNum rest (endSeqNum i) True of
           (marked, rest', fromSeqNum', found') \<Rightarrow>
             (i\<lparr>rexmitted := True\<rparr> # marked, rest', fromSeqNum', found'))
      else ([], i # rest, fromSeqNum, found))"

definition mark_range :: "u32 \<Rightarrow> Region list \<Rightarrow> u32 \<Rightarrow> (Region list \<times> u32 \<times> bool) res" where
  "mark_range toSeqNum rs fromSeqNum =
     (case mark_loop toSeqNum rs fromSeqNum False of
        (marked, rest, from', found) \<Rightarrow>
          if from' \<noteq> toSeqNum then
            (case rest of
               [] \<Rightarrow> Inr (marked @ [\<lparr>beginSeqNum = from', endSeqNum = toSeqNum,
                                    sacked = False, rexmitted = False\<rparr>], toSeqNum, True)
             | i # rest' \<Rightarrow>
                 ASSERT (seqLess (beginSeqNum i) toSeqNum)
                   (Inr (marked @ \<lparr>beginSeqNum = from', endSeqNum = toSeqNum,
                                   sacked = sacked i, rexmitted = True\<rparr>
                           # i\<lparr>beginSeqNum := toSeqNum\<rparr> # rest', toSeqNum, True)))
          else Inr (marked @ rest, from', found))"

definition enqueueSentData :: "TCPSACKRexmitQueue \<Rightarrow> u32 \<Rightarrow> u32 \<Rightarrow> TCPSACKRexmitQueue res" where
  "enqueueSentData q fromSeqNum toSeqNum =
     ASSERT (seqLE (rq_begin q) fromSeqNum \<and> seqLE fromSeqNum (rq_end q))
       (ASSERT (seqLess fromSeqNum toSeqNum)
         (bind_res
            (if rexmitQueue q = [] \<or> rq_end q = fromSeqNum
             then Inr (rexmitQueue q @ [\<lparr>beginSeqNum = fromSeqNum, endSeqNum = toSeqNum,
                                         sacked = False, rexmitted = False\<rparr>], toSeqNum, True)
             else bind_res (chunk_at (rexmitQueue q) fromSeqNum) (\<lambda>(pre, post).
                    bind_res (mark_range toSeqNum post fromSeqNum) (\<lambda>(rs, from', found).
                      Inr (pre @ rs, from', found))))
            (\<lambda>(rs, from', found).
               ASSERT (from' = toSeqNum)
                 (ASSERT found
                   (case rs of
                      [] \<Rightarrow> Inl Undefined_behaviour
                    | front # _ \<Rightarrow>
                        let q' = q\<lparr>rexmitQueue := rs, rq_begin := beginSeqNum front,
                                   rq_end := endSeqNum (last rs)\<rparr>
                        in ASSERT (checkQueue q') (Inr q'))))))"

text \<open>The second half of \<^verbatim>\<open>setSackedBit\<close>, from the region that starts at \<open>fromSeqNum\<close>.\<close>

fun sack_loop :: "u32 \<Rightarrow> u32 \<Rightarrow> Region list \<Rightarrow> Region list" where
  "sack_loop fromSeqNum toSeqNum [] = []"
| "sack_loop fromSeqNum toSeqNum (i # rest) =
     (if seqLE (endSeqNum i) toSeqNum then
        (if seqGE (beginSeqNum i) fromSeqNum then i\<lparr>sacked := True\<rparr> else i)
          # sack_loop fromSeqNum toSeqNum rest
      else if seqLess (beginSeqNum i) toSeqNum \<and> seqLess toSeqNum (endSeqNum i)
           then i\<lparr>endSeqNum := toSeqNum, sacked := True\<rparr> # i\<lparr>beginSeqNum := toSeqNum\<rparr> # rest
           else i # rest)"

definition setSackedBit :: "TCPSACKRexmitQueue \<Rightarrow> u32 \<Rightarrow> u32 \<Rightarrow> TCPSACKRexmitQueue res" where
  "setSackedBit q fromSeqNum0 toSeqNum =
     (let fromSeqNum = (if seqLess fromSeqNum0 (rq_begin q) then rq_begin q else fromSeqNum0)
      in ASSERT (seqLess fromSeqNum (rq_end q))
          (ASSERT (seqLess (rq_begin q) toSeqNum \<and> seqLE toSeqNum (rq_end q))
            (ASSERT (seqLess fromSeqNum toSeqNum)
              (bind_res
                 (if rexmitQueue q = [] then Inr []
                  else bind_res (chunk_at (rexmitQueue q) fromSeqNum) (\<lambda>(pre, post).
                         Inr (pre @ sack_loop fromSeqNum toSeqNum post)))
                 (\<lambda>rs. let q' = q\<lparr>rexmitQueue := rs\<rparr> in ASSERT (checkQueue q') (Inr q'))))))"

definition getSackedBit :: "TCPSACKRexmitQueue \<Rightarrow> u32 \<Rightarrow> bool res" where
  "getSackedBit q seqNum =
     ASSERT (seqLE (rq_begin q) seqNum \<and> seqLE seqNum (rq_end q))
       (if rq_end q = seqNum then Inr False
        else case seek seqNum (rexmitQueue q) of
               [] \<Rightarrow> Inl Assertion_failed
             | i # _ \<Rightarrow> ASSERT (seqLE (beginSeqNum i) seqNum \<and> seqLess seqNum (endSeqNum i))
                          (Inr (sacked i)))"

definition getHighestSackedSeqNum :: "TCPSACKRexmitQueue \<Rightarrow> u32" where
  "getHighestSackedSeqNum q =
     (case find sacked (rev (rexmitQueue q)) of Some i \<Rightarrow> endSeqNum i | None \<Rightarrow> rq_begin q)"

definition getHighestRexmittedSeqNum :: "TCPSACKRexmitQueue \<Rightarrow> u32" where
  "getHighestRexmittedSeqNum q =
     (case find rexmitted (rev (rexmitQueue q)) of Some i \<Rightarrow> endSeqNum i | None \<Rightarrow> rq_begin q)"

fun forward_loop :: "Region list \<Rightarrow> u32 \<Rightarrow> u32 \<Rightarrow> u32 res" where
  "forward_loop [] fromSeqNum bytes = Inr bytes"
| "forward_loop (i # rest) fromSeqNum bytes =
     (if sacked i \<or> rexmitted i then
        ASSERT (seqLE (beginSeqNum i) fromSeqNum \<and> seqLess fromSeqNum (endSeqNum i))
          (forward_loop rest (endSeqNum i) (bytes + (endSeqNum i - fromSeqNum)))
      else Inr bytes)"

definition checkRexmitQueueForSackedOrRexmittedSegments ::
    "TCPSACKRexmitQueue \<Rightarrow> u32 \<Rightarrow> u32 res" where
  "checkRexmitQueueForSackedOrRexmittedSegments q fromSeqNum =
     ASSERT (seqLE (rq_begin q) fromSeqNum \<and> seqLE fromSeqNum (rq_end q))
       (if rexmitQueue q = [] \<or> rq_end q = fromSeqNum then Inr 0
        else forward_loop (seek fromSeqNum (rexmitQueue q))
               fromSeqNum 0)"

definition resetSackedBit :: "TCPSACKRexmitQueue \<Rightarrow> TCPSACKRexmitQueue" where
  "resetSackedBit q = q\<lparr>rexmitQueue := map (\<lambda>i. i\<lparr>sacked := False\<rparr>) (rexmitQueue q)\<rparr>"

definition resetRexmittedBit :: "TCPSACKRexmitQueue \<Rightarrow> TCPSACKRexmitQueue" where
  "resetRexmittedBit q = q\<lparr>rexmitQueue := map (\<lambda>i. i\<lparr>rexmitted := False\<rparr>) (rexmitQueue q)\<rparr>"

fun sum_sacked :: "Region list \<Rightarrow> u32 \<Rightarrow> u32" where
  "sum_sacked [] bytes = bytes"
| "sum_sacked (i # rest) bytes =
     sum_sacked rest (if sacked i then bytes + (endSeqNum i - beginSeqNum i) else bytes)"

definition getTotalAmountOfSackedBytes :: "TCPSACKRexmitQueue \<Rightarrow> u32" where
  "getTotalAmountOfSackedBytes q = sum_sacked (rexmitQueue q) 0"

definition getAmountOfSackedBytes :: "TCPSACKRexmitQueue \<Rightarrow> u32 \<Rightarrow> u32 res" where
  "getAmountOfSackedBytes q fromSeqNum =
     ASSERT (seqLE (rq_begin q) fromSeqNum \<and> seqLE fromSeqNum (rq_end q))
       (let above = takeWhile (\<lambda>i. seqLE fromSeqNum (beginSeqNum i)) (rev (rexmitQueue q));
            bytes = sum_sacked above 0
        in case dropWhile (\<lambda>i. seqLE fromSeqNum (beginSeqNum i)) (rev (rexmitQueue q)) of
             [] \<Rightarrow> Inr bytes
           | i # _ \<Rightarrow> if seqLess (beginSeqNum i) fromSeqNum \<and> seqLess fromSeqNum (endSeqNum i)
                         \<and> sacked i
                      then Inr (bytes + (endSeqNum i - fromSeqNum)) else Inr bytes)"

fun count_runs :: "Region list \<Rightarrow> bool \<Rightarrow> u32 \<Rightarrow> u32" where
  "count_runs [] prevSacked counter = counter"
| "count_runs (i # rest) prevSacked counter =
     count_runs rest (sacked i) (if sacked i \<and> \<not> prevSacked then counter + 1 else counter)"

definition getNumOfDiscontiguousSacks :: "TCPSACKRexmitQueue \<Rightarrow> u32 \<Rightarrow> u32 res" where
  "getNumOfDiscontiguousSacks q fromSeqNum =
     ASSERT (seqLE (rq_begin q) fromSeqNum \<and> seqLE fromSeqNum (rq_end q))
       (if rexmitQueue q = [] \<or> fromSeqNum = rq_end q then Inr 0
        else Inr (count_runs
               (seek fromSeqNum (rexmitQueue q)) False 0))"

definition checkSackBlock :: "TCPSACKRexmitQueue \<Rightarrow> u32 \<Rightarrow> (u32 \<times> bool \<times> bool) res" where
  "checkSackBlock q fromSeqNum =
     ASSERT (seqLE (rq_begin q) fromSeqNum \<and> seqLess fromSeqNum (rq_end q))
       (case seek fromSeqNum (rexmitQueue q) of
          [] \<Rightarrow> Inl Assertion_failed
        | i # _ \<Rightarrow> ASSERT (seqLE (beginSeqNum i) fromSeqNum \<and> seqLess fromSeqNum (endSeqNum i))
                     (Inr (endSeqNum i - fromSeqNum, sacked i, rexmitted i)))"

section \<open>Adjacent regions\<close>

fun chain :: "u32 \<Rightarrow> Region list \<Rightarrow> u32 \<Rightarrow> bool" where
  "chain b [] e \<longleftrightarrow> b = e"
| "chain b (r # rs) e \<longleftrightarrow>
     beginSeqNum r = b \<and> seqLess b (endSeqNum r) \<and> chain (endSeqNum r) rs e"

definition rlen :: "Region \<Rightarrow> nat" where
  "rlen r = off (beginSeqNum r) (endSeqNum r)"

definition span :: "Region list \<Rightarrow> nat" where
  "span rs = sum_list (map rlen rs)"

lemma span_simps [simp]:
  "span [] = 0" "span (r # rs) = rlen r + span rs" "span (rs @ rs') = span rs + span rs'"
  by (simp_all add: span_def)

lemma checkQueue_loop_chain:
  "checkQueue_loop b f rs = (b', f') \<Longrightarrow> (f' \<and> b' = e) = (f \<and> chain b rs e)"
  by (induction rs arbitrary: b f) auto

lemma checkQueue_chain: "checkQueue q \<longleftrightarrow> chain (rq_begin q) (rexmitQueue q) (rq_end q)"
  using checkQueue_loop_chain[of "rq_begin q" True "rexmitQueue q"]
  by (auto simp: checkQueue_def split: prod.splits)

lemma chain_append: "chain b (xs @ ys) e \<longleftrightarrow> (\<exists>m. chain b xs m \<and> chain m ys e)"
  by (induction xs arbitrary: b) auto

lemma chain_map:
  assumes "\<And>r. beginSeqNum (f r) = beginSeqNum r" "\<And>r. endSeqNum (f r) = endSeqNum r"
  shows "chain b (map f rs) e = chain b rs e"
  by (induction rs arbitrary: b) (simp_all add: assms)

lemma span_map:
  assumes "\<And>r. beginSeqNum (f r) = beginSeqNum r" "\<And>r. endSeqNum (f r) = endSeqNum r"
  shows "span (map f rs) = span rs"
  by (induction rs) (simp_all add: assms rlen_def)

lemma chain_last: "chain b rs e \<Longrightarrow> rs \<noteq> [] \<Longrightarrow> endSeqNum (last rs) = e"
  by (induction rs arbitrary: b) (auto split: if_splits)

lemma chain_hd: "chain b rs e \<Longrightarrow> rs \<noteq> [] \<Longrightarrow> beginSeqNum (hd rs) = b"
  by (cases rs) auto

lemma seqLess_rlen: "seqLess b (endSeqNum r) \<Longrightarrow> beginSeqNum r = b \<Longrightarrow> 0 < rlen r \<and> rlen r < 2147483648"
  by (auto simp: rlen_def seqLess_seqLE seqLE_off_self zero_less_iff_neq_zero)

lemma chain_span: "chain b rs e \<Longrightarrow> span rs < 4294967296 \<Longrightarrow> off b e = span rs"
proof (induction rs arbitrary: b)
  case (Cons r rs)
  then have "off (endSeqNum r) e = span rs" by simp
  then show ?case
    using Cons.prems off_trans[of b "endSeqNum r" e] by (simp add: rlen_def)
qed simp

lemma chain_span_zero: "chain b rs e \<Longrightarrow> span rs = 0 \<longleftrightarrow> rs = []"
  by (cases rs) (auto dest: seqLess_rlen)

text \<open>The flags of the byte at a distance above the start.\<close>

fun look :: "Region list \<Rightarrow> nat \<Rightarrow> (bool \<times> bool) option" where
  "look [] d = None"
| "look (r # rs) d = (if d < rlen r then Some (sacked r, rexmitted r) else look rs (d - rlen r))"

lemma look_append: "look (xs @ ys) d = (if d < span xs then look xs d else look ys (d - span xs))"
  by (induction xs arbitrary: d) auto

lemma look_None: "look rs d = None \<longleftrightarrow> span rs \<le> d"
proof (induction rs arbitrary: d)
  case (Cons r rs)
  then show ?case by (cases "d < rlen r") (simp_all, linarith)
qed simp

lemma look_map_rexmitted:
  "look (map (\<lambda>i. i\<lparr>rexmitted := v\<rparr>) rs) d = map_option (\<lambda>(s, _). (s, v)) (look rs d)"
  by (induction rs arbitrary: d) (auto simp: rlen_def)

lemma look_map_sacked:
  "look (map (\<lambda>i. i\<lparr>sacked := v\<rparr>) rs) d = map_option (\<lambda>(_, x). (v, x)) (look rs d)"
  by (induction rs arbitrary: d) (auto simp: rlen_def)

section \<open>Finding a sequence number\<close>

text \<open>
  The search loop of the code, in terms of offsets: it stops behind the regions that lie wholly
  below the number, and the next region, if any, holds it.
\<close>

lemma seek_simps [simp]:
  "seek s [] = []" "seek_passed s [] = []"
  "seek s (r # rs) = (if seqLE (endSeqNum r) s then seek s rs else r # rs)"
  "seek_passed s (r # rs) = (if seqLE (endSeqNum r) s then r # seek_passed s rs else [])"
  by (simp_all add: seek_def seek_passed_def)

lemma seek_append: "seek_passed s rs @ seek s rs = rs"
  by (simp add: seek_def seek_passed_def)

definition seek_post :: "nat \<Rightarrow> nat \<Rightarrow> u32 \<Rightarrow> Region list \<Rightarrow> Region list \<Rightarrow> bool" where
  "seek_post n d s pre post \<longleftrightarrow> span pre \<le> d
     \<and> (case post of [] \<Rightarrow> n \<le> d
        | i # _ \<Rightarrow> off (beginSeqNum i) s = d - span pre \<and> d - span pre < rlen i)"

lemma search_splits:
  assumes "chain b rs e" "span rs < 2147483648" "in_half b s"
  obtains m where "chain b (seek_passed s rs) m" "chain m (seek s rs) e"
    "seek_post (span rs) (off b s) s (seek_passed s rs) (seek s rs)"
  using assms
proof (induction rs arbitrary: b thesis)
  case Nil
  then show ?case by (simp add: seek_post_def)
next
  case (Cons r rs)
  have r: "beginSeqNum r = b" "chain (endSeqNum r) rs e" "0 < rlen r" "rlen r < 2147483648"
    using Cons.prems(2) seqLess_rlen[of b r] by auto
  have le: "seqLE (endSeqNum r) s \<longleftrightarrow> rlen r \<le> off b s"
    using r Cons.prems(4) by (subst seqLE_iff[of b]) (simp_all add: in_half_def rlen_def)
  show ?case
  proof (cases "rlen r \<le> off b s")
    case True
    have o: "off (endSeqNum r) s = off b s - rlen r"
      using True r off_shift[of b "endSeqNum r" s] by (simp add: rlen_def)
    have "in_half (endSeqNum r) s" "span rs < 2147483648"
      using Cons.prems(3,4) o by (simp_all add: in_half_def)
    from Cons.IH[OF _ r(2) this(2,1)] obtain m where m:
      "chain (endSeqNum r) (seek_passed s rs) m" "chain m (seek s rs) e"
      "seek_post (span rs) (off (endSeqNum r) s) s (seek_passed s rs) (seek s rs)"
      by blast
    have "seek_post (span (r # rs)) (off b s) s (r # seek_passed s rs) (seek s rs)"
      using m(3) True o by (cases "seek s rs") (auto simp: seek_post_def)
    then show ?thesis
      using Cons.prems(1)[of m] True r Cons.prems(2) m le by simp
  next
    case False
    then show ?thesis
      using Cons.prems(1)[of b] r Cons.prems(2) le by (simp add: seek_post_def)
  qed
qed

lemma rlen_cut:
  assumes "off (beginSeqNum i) s \<le> rlen i"
  shows "rlen (i\<lparr>beginSeqNum := s\<rparr>) = rlen i - off (beginSeqNum i) s"
    and "rlen (i\<lparr>endSeqNum := s\<rparr>) = off (beginSeqNum i) s"
    and "rlen (i\<lparr>endSeqNum := s, sacked := x\<rparr>) = off (beginSeqNum i) s"
  using assms off_shift[of "beginSeqNum i" s "endSeqNum i"] by (simp_all add: rlen_def)

lemma seqLess_off: "0 < off b s \<Longrightarrow> off b s < 2147483648 \<Longrightarrow> seqLess b s"
  by (auto simp: seqLess_seqLE seqLE_off_self)

lemma cut_region:
  assumes "seqLess (beginSeqNum i) (endSeqNum i)" "0 < off (beginSeqNum i) s"
    and "off (beginSeqNum i) s < rlen i"
  shows "seqLess (beginSeqNum i) s" "seqLess s (endSeqNum i)"
proof -
  have "rlen i < 2147483648" using assms(1) seqLess_rlen by blast
  moreover have "off s (endSeqNum i) = rlen i - off (beginSeqNum i) s"
    using assms(3) off_shift[of "beginSeqNum i" s "endSeqNum i"] by (simp add: rlen_def)
  ultimately show "seqLess (beginSeqNum i) s" "seqLess s (endSeqNum i)"
    using assms(2,3) by (auto intro!: seqLess_off)
qed

lemma look_split:
  assumes "k \<le> rlen i" "k = off (beginSeqNum i) s"
  shows "look (i\<lparr>endSeqNum := s\<rparr> # i\<lparr>beginSeqNum := s\<rparr> # rest) d = look (i # rest) d"
  using assms rlen_cut[of i s] by auto

lemma chunk_at_ok:
  assumes "chain b rs e" "span rs < 2147483648" "off b s < span rs"
  obtains pre post where "chunk_at rs s = Inr (pre, post)" "chain b pre s" "chain s post e"
    "span pre = off b s" "span pre + span post = span rs" "\<And>d. look (pre @ post) d = look rs d"
proof -
  have half: "in_half b s" using assms(2,3) by (simp add: in_half_def)
  obtain m where m: "chain b (seek_passed s rs) m" "chain m (seek s rs) e"
    "seek_post (span rs) (off b s) s (seek_passed s rs) (seek s rs)"
    using search_splits[OF assms(1,2) half] by blast
  define pre where "pre = seek_passed s rs"
  obtain i rest where post: "seek s rs = i # rest"
    using m(3) assms(3) by (cases "seek s rs") (auto simp: seek_post_def)
  have rs: "rs = pre @ i # rest" using seek_append[of s rs] post by (simp add: pre_def)
  have i: "beginSeqNum i = m" "seqLess m (endSeqNum i)" "chain (endSeqNum i) rest e"
    using m(2) post by auto
  have k: "off m s = off b s - span pre" "off m s < rlen i" "span pre \<le> off b s"
    using m(3) post i(1) by (auto simp: seek_post_def pre_def)
  have le: "seqLE m s \<and> seqLess s (endSeqNum i)"
  proof (cases "off m s = 0")
    case True
    then show ?thesis using i(2) by simp
  next
    case False
    then show ?thesis using cut_region[of i s] i k by (auto simp: seqLess_seqLE)
  qed
  show thesis
  proof (cases "s = m")
    case True
    show ?thesis
    proof (rule that[of pre "i # rest"])
      show "chunk_at rs s = Inr (pre, i # rest)"
        using True i le post by (simp add: chunk_at_def pre_def Let_def)
      show "chain b pre s" "chain s (i # rest) e"
        using True m(1,2) post by (simp_all add: pre_def)
      show "span pre = off b s" using True k by simp
    qed (simp_all add: rs)
  next
    case False
    then have pos: "0 < off m s" by (simp add: zero_less_iff_neq_zero)
    have cut: "seqLess m s" "seqLess s (endSeqNum i)"
      using cut_region[of i s] i pos k(2) by auto
    show ?thesis
    proof (rule that[of "pre @ [i\<lparr>endSeqNum := s\<rparr>]" "i\<lparr>beginSeqNum := s\<rparr> # rest"])
      show "chunk_at rs s = Inr (pre @ [i\<lparr>endSeqNum := s\<rparr>], i\<lparr>beginSeqNum := s\<rparr> # rest)"
        using False i le post by (auto simp: chunk_at_def pre_def Let_def)
      show "chain b (pre @ [i\<lparr>endSeqNum := s\<rparr>]) s" "chain s (i\<lparr>beginSeqNum := s\<rparr> # rest) e"
        using m(1) i cut by (auto simp: chain_append pre_def)
      show "span (pre @ [i\<lparr>endSeqNum := s\<rparr>]) = off b s"
        using k i rlen_cut(2)[of i s] by simp
      show "span (pre @ [i\<lparr>endSeqNum := s\<rparr>]) + span (i\<lparr>beginSeqNum := s\<rparr> # rest) = span rs"
        using k i rlen_cut[of i s] by (simp add: rs)
      show "look ((pre @ [i\<lparr>endSeqNum := s\<rparr>]) @ i\<lparr>beginSeqNum := s\<rparr> # rest) d = look rs d" for d
      proof -
        have "look (i\<lparr>endSeqNum := s\<rparr> # i\<lparr>beginSeqNum := s\<rparr> # rest) x = look (i # rest) x" for x
          by (rule look_split[of "off m s"]) (use k(2) i(1) in simp_all)
        then have "look (pre @ (i\<lparr>endSeqNum := s\<rparr> # i\<lparr>beginSeqNum := s\<rparr> # rest)) d
            = look (pre @ (i # rest)) d"
          unfolding look_append[of pre] by simp
        then show ?thesis unfolding rs append_assoc append.simps .
      qed
    qed
  qed
qed

section \<open>The invariant\<close>

definition rq_wf :: "TCPSACKRexmitQueue \<Rightarrow> bool" where
  "rq_wf q \<longleftrightarrow> checkQueue q \<and> span (rexmitQueue q) < 2147483648"

text \<open>The flags of a sequence number: whether it is sacked, and whether it was retransmitted.\<close>

definition rq_flags :: "TCPSACKRexmitQueue \<Rightarrow> u32 \<Rightarrow> (bool \<times> bool) option" where
  "rq_flags q s = look (rexmitQueue q) (off (rq_begin q) s)"

lemma rq_wf_chain:
  "rq_wf q \<longleftrightarrow> chain (rq_begin q) (rexmitQueue q) (rq_end q) \<and> span (rexmitQueue q) < 2147483648"
  by (simp add: rq_wf_def checkQueue_chain)

lemma rq_wf_span: "rq_wf q \<Longrightarrow> off (rq_begin q) (rq_end q) = span (rexmitQueue q)"
  using chain_span[of "rq_begin q" "rexmitQueue q" "rq_end q"] by (simp add: rq_wf_chain)

lemma rq_wf_empty: "rq_wf q \<Longrightarrow> rexmitQueue q = [] \<longleftrightarrow> rq_end q = rq_begin q"
  using rq_wf_span[of q] chain_span_zero[of "rq_begin q" "rexmitQueue q" "rq_end q"]
    off_zero_iff[of "rq_begin q" "rq_end q"]
  by (simp add: rq_wf_chain)

lemma rq_wf_between:
  assumes "rq_wf q"
  shows "seqLE (rq_begin q) s \<and> seqLE s (rq_end q) \<longleftrightarrow> off (rq_begin q) s \<le> span (rexmitQueue q)"
    and "seqLE (rq_begin q) s \<and> seqLess s (rq_end q) \<longleftrightarrow> off (rq_begin q) s < span (rexmitQueue q)"
proof -
  have e: "in_half (rq_begin q) (rq_end q)"
    using assms by (simp add: in_half_def rq_wf_span rq_wf_chain)
  show "seqLE (rq_begin q) s \<and> seqLE s (rq_end q) \<longleftrightarrow> off (rq_begin q) s \<le> span (rexmitQueue q)"
  proof (cases "in_half (rq_begin q) s")
    case True
    then show ?thesis
      using e assms seqLE_iff[of "rq_begin q" s "rq_end q"]
      by (simp add: rq_wf_span seqLE_off_self in_half_def)
  next
    case False
    then show ?thesis
      using assms by (simp add: in_half_def seqLE_off_self rq_wf_chain)
  qed
  show "seqLE (rq_begin q) s \<and> seqLess s (rq_end q) \<longleftrightarrow> off (rq_begin q) s < span (rexmitQueue q)"
  proof (cases "in_half (rq_begin q) s")
    case True
    then show ?thesis
      using e assms seqLess_iff[of "rq_begin q" s "rq_end q"]
      by (simp add: rq_wf_span seqLE_off_self in_half_def)
  next
    case False
    then show ?thesis
      using assms by (simp add: in_half_def seqLE_off_self rq_wf_chain)
  qed
qed

section \<open>Discarding acknowledged bytes\<close>

lemma discardUpTo_ok:
  assumes "rq_wf q" "off (rq_begin q) s \<le> span (rexmitQueue q)"
  obtains q' where "rq_discardUpTo q s = Inr q'" "rq_wf q'" "rq_begin q' = s" "rq_end q' = rq_end q"
    "\<And>d. look (rexmitQueue q') d = look (rexmitQueue q) (d + off (rq_begin q) s)"
proof -
  let ?b = "rq_begin q" and ?rs = "rexmitQueue q"
  have ch: "chain ?b ?rs (rq_end q)" "span ?rs < 2147483648"
    using assms(1) by (simp_all add: rq_wf_chain)
  have half: "in_half ?b s" using assms(2) ch(2) by (simp add: in_half_def)
  obtain m where m: "chain ?b (seek_passed s ?rs) m" "chain m (seek s ?rs) (rq_end q)"
    "seek_post (span ?rs) (off ?b s) s (seek_passed s ?rs) (seek s ?rs)"
    using search_splits[OF ch half] by blast
  have rs: "?rs = seek_passed s ?rs @ seek s ?rs" by (simp add: seek_append)
  have pre: "seqLE ?b s \<and> seqLE s (rq_end q)"
    using assms rq_wf_between(1) by blast
  show thesis
  proof (cases "seek s ?rs")
    case Nil
    then have "off ?b s = span ?rs" using m(3) assms(2) by (simp add: seek_post_def)
    then have "s = rq_end q"
      using rq_wf_span[OF assms(1)] off_inj[of ?b s "rq_end q"] by simp
    moreover define q' where "q' = q\<lparr>rexmitQueue := [], rq_begin := s\<rparr>"
    ultimately have "rq_discardUpTo q s = Inr q'" "rq_wf q'"
      using pre Nil by (simp_all add: rq_discardUpTo_def Let_def checkQueue_chain rq_wf_chain)
    moreover have "look ?rs (d + off ?b s) = None" for d
      using \<open>off ?b s = span ?rs\<close> by (simp add: look_None)
    ultimately show ?thesis using that[of q'] by (simp add: q'_def)
  next
    case (Cons i rest)
    have i: "beginSeqNum i = m" "seqLess m (endSeqNum i)" "chain (endSeqNum i) rest (rq_end q)"
      using m(2) Cons by auto
    have k: "off m s = off ?b s - span (seek_passed s ?rs)" "off m s < rlen i"
      "span (seek_passed s ?rs) \<le> off ?b s"
      using m(3) Cons i(1) by (auto simp: seek_post_def)
    have cut: "seqLE m s \<and> seqLess s (endSeqNum i)"
    proof (cases "m = s")
      case False
      then show ?thesis
        using cut_region[of i s] i k(2) by (simp add: seqLess_seqLE zero_less_iff_neq_zero)
    qed (use i in simp)
    define q' where "q' = q\<lparr>rexmitQueue := i\<lparr>beginSeqNum := s\<rparr> # rest, rq_begin := s\<rparr>"
    have "chain s (rexmitQueue q') (rq_end q')" using i cut by (simp add: q'_def)
    moreover have "span ?rs = span (seek_passed s ?rs) + span (i # rest)"
      using arg_cong[OF rs, of span] Cons by simp
    then have "span (rexmitQueue q') \<le> span ?rs"
      using k i rlen_cut(1)[of i s] by (simp add: q'_def)
    ultimately have "rq_wf q'" using ch(2) by (simp add: rq_wf_chain q'_def)
    moreover have "rq_discardUpTo q s = Inr q'"
      using pre Cons cut i(1) \<open>rq_wf q'\<close>
      by (simp add: rq_discardUpTo_def Let_def rq_wf_def q'_def)
    moreover have "look (rexmitQueue q') d = look ?rs (d + off ?b s)" for d
    proof -
      have "look ?rs (d + off ?b s) = look (i # rest) (d + off m s)"
        using k by (subst rs) (simp add: look_append Cons del: look.simps)
      also have "\<dots> = look (rexmitQueue q') d"
        using k(2) i(1) rlen_cut(1)[of i s] by (auto simp: q'_def)
      finally show ?thesis ..
    qed
    ultimately show ?thesis using that[of q'] by (simp add: q'_def)
  qed
qed

section \<open>Recording sent data\<close>

lemma mark_loop_eq:
  "chain s (seek_passed to rs) m \<Longrightarrow> mark_loop to rs s found =
     (map (\<lambda>i. i\<lparr>rexmitted := True\<rparr>) (seek_passed to rs), seek to rs, m,
      found \<or> seek_passed to rs \<noteq> [])"
  by (induction rs arbitrary: s found) auto

lemma chain_single: "chain b [r] e \<longleftrightarrow> beginSeqNum r = b \<and> seqLess b (endSeqNum r) \<and> endSeqNum r = e"
  by auto

lemma mark_range_ok:
  assumes "chain s rs e" "span rs < 2147483648" "in_half s to" "s \<noteq> to"
  obtains R where "mark_range to rs s = Inr (R, to, True)"
    "chain s R (if off s to \<le> span rs then e else to)" "span R = max (span rs) (off s to)"
    "\<And>d. look R d = (if d < off s to
        then Some (case look rs d of Some (sk, _) \<Rightarrow> (sk, True) | None \<Rightarrow> (False, False))
        else look rs d)"
proof -
  let ?mark = "map (\<lambda>i. i\<lparr>rexmitted := True\<rparr>)"
  obtain m where m: "chain s (seek_passed to rs) m" "chain m (seek to rs) e"
    "seek_post (span rs) (off s to) to (seek_passed to rs) (seek to rs)"
    using search_splits[OF assms(1-3)] by blast
  define pre where "pre = seek_passed to rs"
  have rs: "rs = pre @ seek to rs" by (simp add: seek_append pre_def)
  have loop: "mark_loop to rs s False = (?mark pre, seek to rs, m, pre \<noteq> [])"
    using mark_loop_eq[OF m(1), of False] by (simp add: pre_def)
  have mark: "chain s (?mark pre) m" "span (?mark pre) = span pre"
    using m(1) by (simp_all add: chain_map span_map pre_def)
  have le: "span pre \<le> off s to" using m(3) by (simp add: seek_post_def pre_def)
  have mark_look: "look (?mark pre @ ys) d = (if d < span pre
      then Some (case look (pre @ ys) d of Some (sk, _) \<Rightarrow> (sk, True) | None \<Rightarrow> (False, False))
      else look (pre @ ys) d)" for d ys
    using look_None[of pre d] mark(2)
    by (cases "look pre d") (auto simp: look_append look_map_rexmitted)
  show thesis
  proof (cases "seek to rs")
    case Nil
    then have n: "span rs \<le> off s to" "m = e" "rs = pre"
      using m(2,3) rs by (simp_all add: seek_post_def)
    have o: "off s e = span rs" using assms(1,2) by (simp add: chain_span)
    show ?thesis
    proof (cases "e = to")
      case True
      have "pre \<noteq> []" using True m(1) n(2) assms(4) by (auto simp: pre_def)
      show ?thesis
      proof (rule that[of "?mark pre"])
        show "mark_range to rs s = Inr (?mark pre, to, True)"
          using True loop n \<open>pre \<noteq> []\<close> Nil by (simp add: mark_range_def)
        show "chain s (?mark pre) (if off s to \<le> span rs then e else to)"
          using True mark n o by simp
        show "span (?mark pre) = max (span rs) (off s to)"
          using True mark n o by simp
        show "look (?mark pre) d = (if d < off s to
            then Some (case look rs d of Some (sk, _) \<Rightarrow> (sk, True) | None \<Rightarrow> (False, False))
            else look rs d)" for d
          using mark_look[of "[]" d] True n o by simp
      qed
    next
      case False
      let ?new = "\<lparr>beginSeqNum = e, endSeqNum = to, sacked = False, rexmitted = False\<rparr>"
      have eto: "off e to = off s to - span rs" using n(1) o off_shift[of s e to] by simp
      have pos: "0 < off e to" using False by (simp add: zero_less_iff_neq_zero)
      have less: "seqLess e to" using pos eto assms(3) by (intro seqLess_off) (auto simp: in_half_def)
      have new: "rlen ?new = off e to" by (simp add: rlen_def)
      show ?thesis
      proof (rule that[of "?mark pre @ [?new]"])
        show "mark_range to rs s = Inr (?mark pre @ [?new], to, True)"
          using False loop n Nil by (simp add: mark_range_def)
        show "chain s (?mark pre @ [?new]) (if off s to \<le> span rs then e else to)"
          using mark n less pos eto by (auto simp: chain_append)
        show "span (?mark pre @ [?new]) = max (span rs) (off s to)"
          using mark n new eto by simp
        show "look (?mark pre @ [?new]) d = (if d < off s to
            then Some (case look rs d of Some (sk, _) \<Rightarrow> (sk, True) | None \<Rightarrow> (False, False))
            else look rs d)" for d
          using n new eto mark(2) look_None[of pre d] rlen_def[of ?new]
          by (auto simp: look_append look_map_rexmitted split: option.splits)
      qed
    qed
  next
    case (Cons i rest)
    have i: "beginSeqNum i = m" "seqLess m (endSeqNum i)" "chain (endSeqNum i) rest e"
      using m(2) Cons by auto
    have k: "off m to = off s to - span pre" "off m to < rlen i"
      using m(3) Cons i(1) by (auto simp: seek_post_def pre_def)
    have tot: "span rs = span pre + rlen i + span rest" by (subst rs) (simp add: Cons)
    show ?thesis
    proof (cases "m = to")
      case True
      then have z: "off s to = span pre" using k le by simp
      have "pre \<noteq> []" using True m(1) assms(4) by (auto simp: pre_def)
      show ?thesis
      proof (rule that[of "?mark pre @ i # rest"])
        show "mark_range to rs s = Inr (?mark pre @ i # rest, to, True)"
          using True loop \<open>pre \<noteq> []\<close> Cons by (simp add: mark_range_def)
        show "chain s (?mark pre @ i # rest) (if off s to \<le> span rs then e else to)"
          using mark z tot m(2) Cons by (auto simp: chain_append)
        show "span (?mark pre @ i # rest) = max (span rs) (off s to)"
          using mark z tot by simp
        show "look (?mark pre @ i # rest) d = (if d < off s to
            then Some (case look rs d of Some (sk, _) \<Rightarrow> (sk, True) | None \<Rightarrow> (False, False))
            else look rs d)" for d
          using mark_look[of "i # rest" d] Cons z rs by simp
      qed
    next
      case False
      then have pos: "0 < off m to" by (simp add: zero_less_iff_neq_zero)
      have cut: "seqLess m to" "seqLess to (endSeqNum i)"
        using cut_region[of i to] i pos k(2) by auto
      let ?new = "\<lparr>beginSeqNum = m, endSeqNum = to, sacked = sacked i, rexmitted = True\<rparr>"
      let ?R = "?mark pre @ ?new # i\<lparr>beginSeqNum := to\<rparr> # rest"
      have new: "rlen ?new = off m to" "rlen (i\<lparr>beginSeqNum := to\<rparr>) = rlen i - off m to"
        using rlen_cut(1)[of i to] i k(2) by (simp_all add: rlen_def)
      show ?thesis
      proof (rule that[of ?R])
        show "mark_range to rs s = Inr (?R, to, True)"
          using False loop Cons cut i by (simp add: mark_range_def)
        show "chain s ?R (if off s to \<le> span rs then e else to)"
          using mark cut i k tot by (auto simp: chain_append)
        show "span ?R = max (span rs) (off s to)" using mark new tot k by simp
        show "look ?R d = (if d < off s to
            then Some (case look rs d of Some (sk, _) \<Rightarrow> (sk, True) | None \<Rightarrow> (False, False))
            else look rs d)" for d
        proof -
          have "look rs d = (if d < span pre then look pre d else look (i # rest) (d - span pre))"
            by (subst rs) (simp add: look_append Cons del: look.simps)
          then show ?thesis
            using new mark(2) k le look_None[of pre d]
            by (auto simp: look_append look_map_rexmitted add.commute split: option.splits)
        qed
      qed
    qed
  qed
qed

end
