(* ===== verification/TCP_SACK_Scoreboard.thy ===== *)
theory TCP_SACK_Scoreboard
  imports TCP_SACK_Rexmit_Queue
begin

text \<open>
  What the scoreboard promises to the sender, on the map from sequence numbers to flags
  (\<open>rq_flags\<close>): each operation of \<^verbatim>\<open>TCPSACKRexmitQueue\<close> keeps the invariant
  \<open>rq_wf\<close>, raises no assertion inside its documented range, and has the effect on the
  flags that its name says. The counting operations are the cardinalities of the sets of
  sequence numbers they are about.
\<close>

section \<open>Recording sent data\<close>

definition flag_sent :: "(bool \<times> bool) option \<Rightarrow> (bool \<times> bool) option" where
  "flag_sent f = Some (case f of Some (sk, _) \<Rightarrow> (sk, True) | None \<Rightarrow> (False, False))"

definition flag_sacked :: "(bool \<times> bool) option \<Rightarrow> (bool \<times> bool) option" where
  "flag_sacked f = map_option (\<lambda>(_, r). (True, r)) f"

lemma enqueueSentData_ok:
  assumes "rq_wf q" "off (rq_begin q) from \<le> span (rexmitQueue q)"
    and "off (rq_begin q) from < off (rq_begin q) to" "in_half (rq_begin q) to"
  obtains (ok) q' where "enqueueSentData q from to = Inr q'" "rq_wf q'" "rq_begin q' = rq_begin q"
    "rq_end q' = (if off (rq_begin q) to \<le> span (rexmitQueue q) then rq_end q else to)"
    "\<And>d. look (rexmitQueue q') d =
       (if off (rq_begin q) from \<le> d \<and> d < off (rq_begin q) to
        then flag_sent (look (rexmitQueue q) d) else look (rexmitQueue q) d)"
proof -
  let ?b = "rq_begin q" and ?rs = "rexmitQueue q" and ?e = "rq_end q"
  have ch: "chain ?b ?rs ?e" "span ?rs < 2147483648"
    using assms(1) by (simp_all add: rq_wf_chain)
  have hf: "in_half ?b from" using assms(2) ch(2) by (simp add: in_half_def)
  have fe: "off ?b ?e = span ?rs" by (rule rq_wf_span[OF assms(1)])
  have ft: "off from to = off ?b to - off ?b from" using assms(3) by (simp add: off_shift[of ?b "from" to])
  have less: "seqLess from to" using assms(3,4) hf by (simp add: seqLess_iff[of ?b])
  have pre: "seqLE ?b from \<and> seqLE from ?e" using rq_wf_between(1)[OF assms(1)] assms(2) by simp
  have ne: "from \<noteq> to" using assms(3) by auto
  let ?end' = "if off ?b to \<le> span ?rs then ?e else to"
  have *: thesis
    if R: "(if ?rs = [] \<or> ?e = from
             then Inr (?rs @ [\<lparr>beginSeqNum = from, endSeqNum = to,
                                         sacked = False, rexmitted = False\<rparr>], to, True)
             else bind_res (chunk_at ?rs from) (\<lambda>(pre, post).
                    bind_res (mark_range to post from) (\<lambda>(rs, from', found).
                      Inr (pre @ rs, from', found)))) = Inr (R, to, True)"
      and C: "chain ?b R ?end'" "span R < 2147483648" "R \<noteq> []"
      and L: "\<And>d. look R d = (if off ?b from \<le> d \<and> d < off ?b to
        then flag_sent (look ?rs d) else look ?rs d)" for R
  proof -
    obtain front R' where fr: "R = front # R'" using C(3) by (cases R) auto
    define q' where "q' = q\<lparr>rexmitQueue := R, rq_begin := beginSeqNum front,
                                   rq_end := endSeqNum (last R)\<rparr>"
    have q': "rexmitQueue q' = R" "rq_begin q' = ?b" "rq_end q' = ?end'"
      using chain_last[OF C(1)] C fr by (simp_all add: q'_def)
    have wf: "rq_wf q'" using q' C by (simp add: rq_wf_chain)
    have "enqueueSentData q from to = Inr q'"
      unfolding enqueueSentData_def R using wf fr less pre by (simp add: rq_wf_def q'_def)
    then show thesis using ok[of q'] wf q' L by simp
  qed
  show thesis
  proof (cases "?rs = [] \<or> ?e = from")
    case True
    let ?new = "\<lparr>beginSeqNum = from, endSeqNum = to, sacked = False, rexmitted = False\<rparr>"
    have ef: "?e = from"
      using True assms(2) rq_wf_empty[OF assms(1)] by auto
    then have sf: "off ?b from = span ?rs" using fe by simp
    have new: "rlen ?new = off ?b to - span ?rs" using ft sf by (simp add: rlen_def)
    show thesis
    proof (rule *)
      show "chain ?b (?rs @ [?new]) ?end'"
        using ch(1) ef less sf assms(3) by (auto simp: chain_append)
      show "span (?rs @ [?new]) < 2147483648"
        using new assms(3,4) sf by (simp add: in_half_def)
      show "look (?rs @ [?new]) d = (if off ?b from \<le> d \<and> d < off ?b to
        then flag_sent (look ?rs d) else look ?rs d)" for d
        using new sf assms(3) look_None[of ?rs d] by (auto simp: look_append flag_sent_def)
    qed (use True in simp_all)
  next
    case False
    have "off ?b from \<noteq> span ?rs" using False fe off_inj[of ?b ?e "from"] by auto
    then have lt: "off ?b from < span ?rs" using assms(2) by simp
    obtain pr po where c: "chunk_at ?rs from = Inr (pr, po)" "chain ?b pr from" "chain from po ?e"
      "span pr = off ?b from" "span pr + span po = span ?rs" "\<And>d. look (pr @ po) d = look ?rs d"
      using chunk_at_ok[OF ch lt] by metis
    have half: "in_half from to" using ft assms(4) by (simp add: in_half_def)
    have spo: "span po < 2147483648" using c(5) ch(2) by linarith
    obtain R where m: "mark_range to po from = Inr (R, to, True)"
      "chain from R (if off from to \<le> span po then ?e else to)" "span R = max (span po) (off from to)"
      "\<And>d. look R d = (if d < off from to
        then Some (case look po d of Some (sk, _) \<Rightarrow> (sk, True) | None \<Rightarrow> (False, False))
        else look po d)"
      using mark_range_ok[OF c(3) spo half ne] by metis
    have iff: "off from to \<le> span po \<longleftrightarrow> off ?b to \<le> span ?rs"
      using ft c(4,5) assms(3) by linarith
    show thesis
    proof (rule *)
      show "chain ?b (pr @ R) ?end'"
        using c(2) m(2) iff by (auto simp: chain_append)
      show "span (pr @ R) < 2147483648"
        using m(3) c(4,5) ft ch(2) assms(3,4) by (simp add: in_half_def max_def)
      show "look (pr @ R) d = (if off ?b from \<le> d \<and> d < off ?b to
        then flag_sent (look ?rs d) else look ?rs d)" for d
        using c(6)[of d, symmetric] c(4) m(4)[of "d - span pr"] ft assms(3)
        by (auto simp: look_append flag_sent_def)
      show "pr @ R \<noteq> []" using m(3) ne by auto
    qed (use False c(1) m(1) in simp)
  qed
qed

section \<open>Marking selectively acknowledged data\<close>

lemma sack_loop_ok:
  assumes "chain m rs e" "off s m + span rs < 2147483648" "off s to \<le> off s m + span rs"
  shows "chain m (sack_loop s to rs) e \<and> span (sack_loop s to rs) = span rs \<and>
    look (sack_loop s to rs) d =
      (if off s m + d < off s to then flag_sacked (look rs d) else look rs d)"
  using assms
proof (induction rs arbitrary: m d)
  case Nil
  then show ?case by (simp add: flag_sacked_def)
next
  case (Cons r rs)
  have r: "beginSeqNum r = m" "seqLess m (endSeqNum r)" "chain (endSeqNum r) rs e"
    using Cons.prems by auto
  have hm: "in_half s m" "in_half s to" using Cons.prems by (simp_all add: in_half_def)
  have o: "off s (endSeqNum r) = off s m + rlen r"
    using Cons.prems r(1) off_trans[of s m "endSeqNum r"] by (simp add: rlen_def)
  have he: "in_half s (endSeqNum r)" using o Cons.prems by (simp add: in_half_def)
  have ge: "seqGE m s" using hm(1) by (simp add: seqGE_iff[of s])
  show ?case
  proof (cases "seqLE (endSeqNum r) to")
    case True
    have le: "off s m + rlen r \<le> off s to" using True he hm o by (simp add: seqLE_iff[of s])
    have IH: "chain (endSeqNum r) (sack_loop s to rs) e \<and> span (sack_loop s to rs) = span rs \<and>
      look (sack_loop s to rs) d' =
      (if off s (endSeqNum r) + d' < off s to then flag_sacked (look rs d') else look rs d')" for d'
      using Cons.IH[OF r(3)] Cons.prems o by simp
    have rl: "rlen (r\<lparr>sacked := True\<rparr>) = rlen r" by (simp add: rlen_def)
    show ?thesis
      using True ge r IH[of "d - rlen r"] o rl le by (auto simp: flag_sacked_def)
  next
    case False
    have gt: "off s to < off s m + rlen r" using False he hm o by (simp add: seqLE_iff[of s])
    show ?thesis
    proof (cases "seqLess m to")
      case True
      have lt: "off s m < off s to" using True hm by (simp add: seqLess_iff[of s])
      have mt: "off m to = off s to - off s m" using lt by (simp add: off_shift[of s m to])
      have sl: "seqLess to (endSeqNum r)" using gt he hm o by (simp add: seqLess_iff[of s])
      have rl: "rlen (r\<lparr>endSeqNum := to, sacked := True\<rparr>) = off m to"
        "rlen (r\<lparr>beginSeqNum := to\<rparr>) = rlen r - off m to"
        using rlen_cut[of r to] r(1) mt gt by simp_all
      have a: "chain m (sack_loop s to (r # rs)) e"
        using True False sl r by simp
      have b: "span (sack_loop s to (r # rs)) = span (r # rs)"
        using True False sl r rl mt gt by simp
      have c: "look (sack_loop s to (r # rs)) d =
        (if off s m + d < off s to then flag_sacked (look (r # rs) d) else look (r # rs) d)"
        using True False sl r rl mt gt lt by (auto simp: flag_sacked_def add.commute)
      show ?thesis using a b c by simp
    next
      case F: False
      then have "off s to \<le> off s m" using hm by (simp add: seqLess_iff[of s])
      then show ?thesis using F False r by simp
    qed
  qed
qed

lemma setSackedBit_ok:
  assumes "rq_wf q" "from = (if seqLess from0 (rq_begin q) then rq_begin q else from0)"
    and "off (rq_begin q) from < off (rq_begin q) to"
    and "off (rq_begin q) to \<le> span (rexmitQueue q)"
  obtains q' where "setSackedBit q from0 to = Inr q'" "rq_wf q'" "rq_begin q' = rq_begin q"
    "rq_end q' = rq_end q"
    "\<And>d. look (rexmitQueue q') d =
       (if off (rq_begin q) from \<le> d \<and> d < off (rq_begin q) to
        then flag_sacked (look (rexmitQueue q) d) else look (rexmitQueue q) d)"
proof -
  let ?b = "rq_begin q" and ?rs = "rexmitQueue q" and ?e = "rq_end q"
  have ch: "chain ?b ?rs ?e" "span ?rs < 2147483648"
    using assms(1) by (simp_all add: rq_wf_chain)
  have fe: "off ?b ?e = span ?rs" by (rule rq_wf_span[OF assms(1)])
  have h: "in_half ?b from" "in_half ?b to" "in_half ?b ?e"
    using assms(3,4) ch(2) fe by (simp_all add: in_half_def)
  have sl: "seqLess from to" "seqLess from ?e" "seqLess ?b to \<and> seqLE to ?e"
    using h assms(3,4) fe by (simp_all add: seqLess_iff[of ?b] seqLE_iff[of ?b])
  have lt: "off ?b from < span ?rs" using assms(3,4) by simp
  obtain pr po where c: "chunk_at ?rs from = Inr (pr, po)" "chain ?b pr from" "chain from po ?e"
      "span pr = off ?b from" "span pr + span po = span ?rs" "\<And>d. look (pr @ po) d = look ?rs d"
    using chunk_at_ok[OF ch lt] by metis
  have ft: "off from to = off ?b to - off ?b from" using assms(3) by (simp add: off_shift[of ?b "from" to])
  have so: "chain from (sack_loop from to po) ?e" "span (sack_loop from to po) = span po"
    "look (sack_loop from to po) d =
      (if d < off from to then flag_sacked (look po d) else look po d)" for d
    using sack_loop_ok[OF c(3), of "from" to d] c(4,5) ch(2) ft assms(4) by simp_all
  define q' where "q' = q\<lparr>rexmitQueue := pr @ sack_loop from to po\<rparr>"
  have wf: "rq_wf q'"
    using c(2,5) so(1,2) ch(2) by (auto simp: q'_def rq_wf_chain chain_append)
  have nonempty: "?rs \<noteq> []" using lt by auto
  have "setSackedBit q from0 to = Inr q'"
    using sl c(1) nonempty wf
    by (simp add: setSackedBit_def Let_def assms(2)[symmetric] rq_wf_def q'_def)
  moreover have "look (rexmitQueue q') d =
       (if off (rq_begin q) from \<le> d \<and> d < off (rq_begin q) to
        then flag_sacked (look (rexmitQueue q) d) else look (rexmitQueue q) d)" for d
    using c(6)[of d, symmetric] c(4) so(3)[of "d - span pr"] ft assms(3)
    by (auto simp: look_append q'_def)
  ultimately show thesis using that[of q'] wf by (simp add: q'_def)
qed

section \<open>Counting sacked bytes\<close>

definition sk :: "Region list \<Rightarrow> nat \<Rightarrow> bool" where
  "sk rs d \<longleftrightarrow> (\<exists>x. look rs d = Some (True, x))"

lemma sk_simps [simp]:
  "sk [] d = False"
  "sk (r # rs) d = (if d < rlen r then sacked r else sk rs (d - rlen r))"
  by (simp_all add: sk_def)

lemma sk_append: "sk (xs @ ys) d = (if d < span xs then sk xs d else sk ys (d - span xs))"
  by (simp add: sk_def look_append)

lemma sk_bound: "sk rs d \<Longrightarrow> d < span rs"
  using look_None[of rs d] by (auto simp: sk_def not_le[symmetric])

lemma sk_finite [simp]: "finite {d. sk rs d}"
  by (rule finite_subset[of _ "{..<span rs}"]) (auto dest: sk_bound)

lemma sk_Cons_set: "{d. sk (r # rs) d} =
  (if sacked r then {..<rlen r} else {}) \<union> (\<lambda>d. d + rlen r) ` {d. sk rs d}"
proof (rule set_eqI)
  fix d
  show "d \<in> {d. sk (r # rs) d} \<longleftrightarrow>
    d \<in> (if sacked r then {..<rlen r} else {}) \<union> (\<lambda>d. d + rlen r) ` {d. sk rs d}"
  proof (cases "d < rlen r")
    case False
    then have "d = (d - rlen r) + rlen r" by simp
    then have "sk rs (d - rlen r) \<longleftrightarrow> d \<in> (\<lambda>d. d + rlen r) ` {d. sk rs d}"
      by (metis (mono_tags, lifting) add_right_cancel image_iff mem_Collect_eq)
    then show ?thesis using False by simp
  qed auto
qed

text \<open>The number of sacked bytes of a list of regions.\<close>

definition nsk :: "Region list \<Rightarrow> nat" where
  "nsk rs = card {d. sk rs d}"

lemma nsk_simps [simp]:
  "nsk [] = 0" "nsk (r # rs) = (if sacked r then rlen r else 0) + nsk rs"
proof -
  have "card ((\<lambda>d. d + rlen r) ` {d. sk rs d}) = card {d. sk rs d}"
    by (rule card_image) (simp add: inj_on_def)
  moreover have "{..<rlen r} \<inter> (\<lambda>d. d + rlen r) ` {d. sk rs d} = {}" by auto
  ultimately show "nsk (r # rs) = (if sacked r then rlen r else 0) + nsk rs"
    unfolding nsk_def sk_Cons_set by (auto simp: card_Un_disjoint)
qed (simp add: nsk_def)

lemma nsk_append [simp]: "nsk (xs @ ys) = nsk xs + nsk ys"
  by (induction xs) simp_all

lemma nsk_rev [simp]: "nsk (rev rs) = nsk rs"
  by (induction rs) simp_all

lemma nsk_span: "nsk rs \<le> span rs"
  by (induction rs) auto

lemma sum_sacked_eq: "sum_sacked rs n = n + of_nat (nsk rs)"
  by (induction rs arbitrary: n) (simp_all add: rlen_def off_def)

text \<open>The reverse search of \<^verbatim>\<open>getAmountOfSackedBytes\<close>.\<close>

lemma chain_above:
  assumes "chain m rs e" "off b m + span rs < 2147483648" "r \<in> set rs"
  shows "off b m \<le> off b (beginSeqNum r) \<and> off b (beginSeqNum r) < off b m + span rs
    \<and> off b (endSeqNum r) = off b (beginSeqNum r) + rlen r
    \<and> off b (endSeqNum r) \<le> off b m + span rs"
  using assms
proof (induction rs arbitrary: m)
  case (Cons i rs)
  have i: "beginSeqNum i = m" "0 < rlen i" "chain (endSeqNum i) rs e"
    using Cons.prems seqLess_rlen[of m i] by auto
  have "off b (endSeqNum i) = off b m + rlen i"
    using i Cons.prems(2) off_trans[of b m "endSeqNum i"] by (simp add: rlen_def)
  then show ?case using Cons.IH[OF i(3)] i Cons.prems(2,3) by auto
qed simp

lemma chain_rlen: "chain m rs e \<Longrightarrow> r \<in> set rs \<Longrightarrow> 0 < rlen r"
  by (induction rs arbitrary: m) (auto dest: seqLess_rlen)

lemma shift_set:
  assumes "n = span pre"
  shows "{d. n \<le> d \<and> sk (pre @ post) d} = (\<lambda>d. d + span pre) ` {d. sk post d}"
proof (rule set_eqI)
  fix d
  have "d \<in> (\<lambda>d. d + span pre) ` {d. sk post d} \<longleftrightarrow> span pre \<le> d \<and> sk post (d - span pre)"
    by (auto simp: image_iff intro!: exI[of _ "d - span pre"])
  then show "d \<in> {d. n \<le> d \<and> sk (pre @ post) d} \<longleftrightarrow> d \<in> (\<lambda>d. d + span pre) ` {d. sk post d}"
    using assms by (simp add: sk_append)
qed

lemma take_drop_rev:
  assumes "\<forall>i\<in>set post. P i" "\<forall>i\<in>set pre. \<not> P i"
  shows "takeWhile P (rev (pre @ post)) = rev post" "dropWhile P (rev (pre @ post)) = rev pre"
proof -
  have p: "\<And>x. x \<in> set (rev post) \<Longrightarrow> P x" using assms(1) by simp
  have n: "takeWhile P (rev pre) = [] \<and> dropWhile P (rev pre) = rev pre"
    using assms(2) by (cases "rev pre") (auto simp flip: set_rev[of pre])
  show "takeWhile P (rev (pre @ post)) = rev post" "dropWhile P (rev (pre @ post)) = rev pre"
    unfolding rev_append using n takeWhile_append2[of "rev post" P "rev pre", OF p]
      dropWhile_append2[of "rev post" P "rev pre", OF p] by simp_all
qed

lemma getAmountOfSackedBytes_ok:
  assumes "rq_wf q" "off (rq_begin q) from \<le> span (rexmitQueue q)"
  shows "\<exists>n. getAmountOfSackedBytes q from = Inr n \<and>
    unat n = card {d. off (rq_begin q) from \<le> d \<and> sk (rexmitQueue q) d}"
proof -
  let ?b = "rq_begin q" and ?rs = "rexmitQueue q" and ?P = "\<lambda>i. seqLE from (beginSeqNum i)"
  have ch: "chain ?b ?rs (rq_end q)" "span ?rs < 2147483648"
    using assms(1) by (simp_all add: rq_wf_chain)
  have half: "in_half ?b from" using assms(2) ch(2) by (simp add: in_half_def)
  have pre: "seqLE ?b from \<and> seqLE from (rq_end q)" using rq_wf_between(1) assms by simp
  define pr where "pr = seek_passed from ?rs"
  define po where "po = seek from ?rs"
  obtain m where m: "chain ?b pr m" "chain m po (rq_end q)" "seek_post (span ?rs) (off ?b from) from pr po"
    using search_splits[OF ch half] unfolding pr_def po_def by blast
  have rs: "?rs = pr @ po" by (simp add: seek_append pr_def po_def)
  have sp: "span ?rs = span pr + span po" by (simp add: rs)
  have bm: "off ?b m = span pr" using chain_span[OF m(1)] sp ch(2) by simp
  have below: "\<not> ?P i \<and> \<not> seqLess from (endSeqNum i)" if "i \<in> set pr" for i
  proof -
    have "off ?b (endSeqNum i) \<le> span pr" "0 < rlen i"
      "off ?b (endSeqNum i) = off ?b (beginSeqNum i) + rlen i"
      using chain_above[OF m(1), of ?b i] that ch(2) sp chain_rlen[OF m(1) that] by simp_all
    then show ?thesis
      using m(3) half seqLE_iff[of ?b "from" "beginSeqNum i"] seqLess_iff[of ?b "from" "endSeqNum i"]
        ch(2) sp by (simp add: seek_post_def in_half_def)
  qed
  have *: ?thesis
    if "n = sum_sacked (rev above) 0 + (if p then endSeqNum i - from else 0)"
      "getAmountOfSackedBytes q from = Inr n"
      "?rs = pr' @ above" "card {d. off ?b from \<le> d \<and> sk ?rs d} =
        nsk above + (if p then off from (endSeqNum i) else 0)" for n above p i pr'
  proof -
    have "card {d. off ?b from \<le> d \<and> sk ?rs d} \<le> card {d. sk ?rs d}"
      by (rule card_mono) auto
    also have "\<dots> < 4294967296" using nsk_span[of ?rs] ch(2) by (simp add: nsk_def)
    finally have "card {d. off ?b from \<le> d \<and> sk ?rs d} < 4294967296" .
    then show ?thesis
      using that by (auto simp: sum_sacked_eq off_def unat_add_u32 unat_of_nat_u32)
  qed
  show ?thesis
  proof (cases "\<exists>i rest. po = i # rest \<and> beginSeqNum i \<noteq> from")
    case False
    have ge: "?P i" if "i \<in> set po" for i
    proof -
      obtain r rest where r: "po = r # rest" "beginSeqNum r = from"
        using False \<open>i \<in> set po\<close> by (cases po) auto
      then have "m = from" using m(2) by simp
      then show ?thesis using chain_above[OF m(2), of ?b i] that sp ch(2) bm half
        seqLE_iff[of ?b "from" "beginSeqNum i"] by (simp add: in_half_def)
    qed
    have fr: "span pr = off ?b from"
      using m(3) assms(2) False sp by (cases po) (auto simp: seek_post_def)
    have td: "takeWhile ?P (rev ?rs) = rev po" "dropWhile ?P (rev ?rs) = rev pr"
      unfolding rs using take_drop_rev[of po ?P pr] ge below by auto
    have "getAmountOfSackedBytes q from = Inr (sum_sacked (rev po) 0)"
    proof (cases "rev pr")
      case Nil
      show ?thesis
        unfolding getAmountOfSackedBytes_def Let_def td Nil using pre by simp
    next
      case (Cons x xs)
      then have "x \<in> set pr" by (metis list.set_intros(1) set_rev)
      then have "\<not> seqLess from (endSeqNum x)" using below by blast
      then show ?thesis
        unfolding getAmountOfSackedBytes_def Let_def td Cons using pre by simp
    qed
    moreover have "{d. off ?b from \<le> d \<and> sk ?rs d} = (\<lambda>d. d + span pr) ` {d. sk po d}"
      using shift_set[of "off ?b from" pr po] fr rs by simp
    ultimately show ?thesis
      by (intro *[of _ po False _ pr]) (simp_all add: rs nsk_def card_image inj_on_def)
  next
    case True
    then obtain i rest where i: "po = i # rest" "beginSeqNum i \<noteq> from" by blast
    have im: "beginSeqNum i = m" "chain (endSeqNum i) rest (rq_end q)" using m(2) i by auto
    have k: "off m from = off ?b from - span pr" "off ?b from - span pr < rlen i" "span pr \<le> off ?b from"
      using m(3) i im by (auto simp: seek_post_def)
    have e: "off ?b (endSeqNum i) = span pr + rlen i"
      using chain_above[OF m(2), of ?b i] i(1) im bm sp ch(2) by simp
    have fe: "off from (endSeqNum i) = span pr + rlen i - off ?b from"
      using off_shift[of ?b "from" "endSeqNum i"] e k by simp
    have hi: "in_half ?b (endSeqNum i)" "in_half ?b m"
      using e sp i ch(2) bm by (simp_all add: in_half_def)
    have ne: "off ?b from \<noteq> off ?b m" using i(2) im(1) by simp
    have iP: "\<not> ?P i" "seqLess (beginSeqNum i) from \<and> seqLess from (endSeqNum i)"
      using im(1) hi half bm e k ne by (auto simp: seqLE_iff[of ?b] seqLess_iff[of ?b])
    have ge: "?P r" if "r \<in> set rest" for r
    proof -
      have a: "off ?b (endSeqNum i) \<le> off ?b (beginSeqNum r)"
        "off ?b (beginSeqNum r) < 2147483648"
        using chain_above[OF im(2), of ?b r] that sp ch(2) e i by simp_all
      have "off ?b from \<le> off ?b (beginSeqNum r)" using a(1) e k by linarith
      then show ?thesis using a(2) half by (simp add: seqLE_iff[of ?b] in_half_def)
    qed
    have td: "takeWhile ?P (rev ?rs) = rev rest" "dropWhile ?P (rev ?rs) = rev (pr @ [i])"
      using take_drop_rev[of rest ?P "pr @ [i]"] ge below iP(1) rs i(1) by auto
    have g: "getAmountOfSackedBytes q from = Inr (sum_sacked (rev rest) 0 +
        (if sacked i then endSeqNum i - from else 0))"
      unfolding getAmountOfSackedBytes_def Let_def td using pre iP(2) by simp
    have "{d. off ?b from \<le> d \<and> sk ?rs d} =
      (if sacked i then {off ?b from..<span pr + rlen i} else {})
        \<union> (\<lambda>d. d + (span pr + rlen i)) ` {d. sk rest d}"
    proof (rule set_eqI)
      fix d
      have s: "sk ?rs d = (if d < span pr then sk pr d else if d < span pr + rlen i then sacked i
          else sk rest (d - (span pr + rlen i)))"
        by (simp add: rs i(1) sk_append less_diff_conv2 not_less add.commute)
      have "d \<in> (\<lambda>d. d + (span pr + rlen i)) ` {d. sk rest d} \<longleftrightarrow>
          span pr + rlen i \<le> d \<and> sk rest (d - (span pr + rlen i))"
        by (auto simp: image_iff intro!: exI[of _ "d - (span pr + rlen i)"])
      then show "d \<in> {d. off ?b from \<le> d \<and> sk ?rs d} \<longleftrightarrow>
        d \<in> (if sacked i then {off ?b from..<span pr + rlen i} else {})
          \<union> (\<lambda>d. d + (span pr + rlen i)) ` {d. sk rest d}"
        using s k(2,3) by auto
    qed
    then have "card {d. off ?b from \<le> d \<and> sk ?rs d} =
        nsk rest + (if sacked i then off from (endSeqNum i) else 0)"
    proof -
      have "{off ?b from..<span pr + rlen i} \<inter> (\<lambda>d. d + (span pr + rlen i)) ` {d. sk rest d} = {}"
        by auto
      moreover have "card ((\<lambda>d. d + (span pr + rlen i)) ` {d. sk rest d}) = nsk rest"
        unfolding nsk_def by (rule card_image) (simp add: inj_on_def)
      moreover assume "{d. off ?b from \<le> d \<and> sk ?rs d} =
        (if sacked i then {off ?b from..<span pr + rlen i} else {})
          \<union> (\<lambda>d. d + (span pr + rlen i)) ` {d. sk rest d}"
      ultimately show ?thesis using fe by (simp add: card_Un_disjoint)
    qed
    then show ?thesis
      using g by (intro *[of _ rest "sacked i" i "pr @ [i]"]) (simp_all add: rs i(1))
  qed
qed

section \<open>Runs of flags\<close>

lemma seek_holds:
  assumes "rq_wf q" "off (rq_begin q) from < span (rexmitQueue q)"
  obtains pr i rest where "rexmitQueue q = pr @ i # rest" "seek from (rexmitQueue q) = i # rest"
    "chain (beginSeqNum i) (i # rest) (rq_end q)"
    "off (beginSeqNum i) from = off (rq_begin q) from - span pr" "span pr \<le> off (rq_begin q) from"
    "off (rq_begin q) from - span pr < rlen i"
    "seqLE (beginSeqNum i) from \<and> seqLess from (endSeqNum i)"
    "off (rq_begin q) (beginSeqNum i) = span pr"
proof -
  let ?b = "rq_begin q" and ?rs = "rexmitQueue q"
  have ch: "chain ?b ?rs (rq_end q)" "span ?rs < 2147483648"
    using assms(1) by (simp_all add: rq_wf_chain)
  have half: "in_half ?b from" using assms(2) ch(2) by (simp add: in_half_def)
  obtain m where m: "chain ?b (seek_passed from ?rs) m" "chain m (seek from ?rs) (rq_end q)"
    "seek_post (span ?rs) (off ?b from) from (seek_passed from ?rs) (seek from ?rs)"
    using search_splits[OF ch half] by blast
  obtain i rest where s: "seek from ?rs = i # rest"
    using m(3) assms(2) by (cases "seek from ?rs") (auto simp: seek_post_def)
  have rs: "?rs = seek_passed from ?rs @ i # rest" using seek_append[of "from" ?rs] s by simp
  have i: "beginSeqNum i = m" "seqLess m (endSeqNum i)" using m(2) s by auto
  have k: "off m from = off ?b from - span (seek_passed from ?rs)"
    "off ?b from - span (seek_passed from ?rs) < rlen i" "span (seek_passed from ?rs) \<le> off ?b from"
    using m(3) s i by (auto simp: seek_post_def)
  have "span ?rs = span (seek_passed from ?rs) + span (i # rest)"
    using arg_cong[OF rs, of span] by simp
  then have bm: "off ?b m = span (seek_passed from ?rs)" using chain_span[OF m(1)] ch(2) by simp
  have cut: "seqLE (beginSeqNum i) from \<and> seqLess from (endSeqNum i)"
  proof (cases "m = from")
    case False
    then have "0 < off m from" by (simp add: zero_less_iff_neq_zero)
    then show ?thesis
      using cut_region[of i "from"] i k(1,2) seqLess_seqLE[of m "from"] by metis
  qed (use i in simp)
  show thesis using that[OF rs s] m(2) s i k cut bm by simp
qed

lemma getSackedBit_ok:
  assumes "rq_wf q" "off (rq_begin q) s \<le> span (rexmitQueue q)"
  shows "getSackedBit q s = Inr (sk (rexmitQueue q) (off (rq_begin q) s))"
proof -
  have pre: "seqLE (rq_begin q) s \<and> seqLE s (rq_end q)" using rq_wf_between(1) assms by simp
  have fe: "off (rq_begin q) (rq_end q) = span (rexmitQueue q)" by (rule rq_wf_span[OF assms(1)])
  show ?thesis
  proof (cases "rq_end q = s")
    case True
    then show ?thesis using pre fe sk_bound[of "rexmitQueue q" "span (rexmitQueue q)"]
      by (auto simp: getSackedBit_def)
  next
    case False
    then have "off (rq_begin q) s < span (rexmitQueue q)"
      using assms(2) fe by (metis le_neq_implies_less off_inj)
    from seek_holds[OF assms(1) this] obtain pr i rest where
      "rexmitQueue q = pr @ i # rest" "seek s (rexmitQueue q) = i # rest"
      "span pr \<le> off (rq_begin q) s" "off (rq_begin q) s - span pr < rlen i"
      "seqLE (beginSeqNum i) s \<and> seqLess s (endSeqNum i)" by metis
    then show ?thesis using pre False by (simp add: getSackedBit_def sk_append)
  qed
qed

text \<open>Bytes that are sacked or retransmitted.\<close>

definition fl :: "Region list \<Rightarrow> nat \<Rightarrow> bool" where
  "fl rs d \<longleftrightarrow> (\<exists>s x. look rs d = Some (s, x) \<and> (s \<or> x))"

lemma fl_simps [simp]:
  "fl [] d = False"
  "fl (r # rs) d = (if d < rlen r then sacked r \<or> rexmitted r else fl rs (d - rlen r))"
  by (auto simp: fl_def)

lemma fl_append: "fl (xs @ ys) d = (if d < span xs then fl xs d else fl ys (d - span xs))"
  by (simp add: fl_def look_append)

lemma forward_loop_ok:
  assumes "chain m rs e" "off b m + span rs < 2147483648" "unat n + span rs < 4294967296"
  shows "\<exists>k. forward_loop rs m n = Inr (n + of_nat k) \<and> k \<le> span rs \<and> (\<forall>d<k. fl rs d)
    \<and> (k < span rs \<longrightarrow> \<not> fl rs k)"
  using assms
proof (induction rs arbitrary: m n)
  case Nil
  then show ?case by simp
next
  case (Cons r rs)
  have r: "beginSeqNum r = m" "seqLess m (endSeqNum r)" "chain (endSeqNum r) rs e" "0 < rlen r"
    using Cons.prems seqLess_rlen[of m r] by auto
  show ?case
  proof (cases "sacked r \<or> rexmitted r")
    case True
    have o: "off b (endSeqNum r) = off b m + rlen r"
      using r Cons.prems(2) off_trans[of b m "endSeqNum r"] by (simp add: rlen_def)
    have u: "unat (endSeqNum r - m) = rlen r" using r by (simp add: rlen_def off_def)
    have "unat (n + (endSeqNum r - m)) = unat n + rlen r"
      using Cons.prems(3) u by (subst unat_add_u32) simp_all
    then obtain k where k: "forward_loop rs (endSeqNum r) (n + (endSeqNum r - m)) =
        Inr (n + (endSeqNum r - m) + of_nat k)" "k \<le> span rs" "\<forall>d<k. fl rs d"
      "k < span rs \<longrightarrow> \<not> fl rs k"
      using Cons.IH[OF r(3), of "n + (endSeqNum r - m)"] Cons.prems o by auto
    have w: "of_nat (rlen r) = endSeqNum r - m" using u by (metis word_unat_eq_iff unat_of_nat_u32 unat_u32_bound)
    show ?thesis
    proof (intro exI[of _ "rlen r + k"] conjI)
      show "forward_loop (r # rs) m n = Inr (n + of_nat (rlen r + k))"
        using True r k(1) w by (simp add: add.assoc)
      show "\<forall>d<rlen r + k. fl (r # rs) d"
        using True k(3) by auto
    qed (use k in auto)
  next
    case False
    then show ?thesis using r(4) by (intro exI[of _ 0]) simp
  qed
qed

lemma forward_ok:
  assumes "rq_wf q" "off (rq_begin q) from \<le> span (rexmitQueue q)"
  obtains n where "checkRexmitQueueForSackedOrRexmittedSegments q from = Inr n"
    "off (rq_begin q) from + unat n \<le> span (rexmitQueue q)"
    "\<And>d. off (rq_begin q) from \<le> d \<Longrightarrow> d < off (rq_begin q) from + unat n \<Longrightarrow> fl (rexmitQueue q) d"
    "\<not> fl (rexmitQueue q) (off (rq_begin q) from + unat n)"
proof -
  let ?b = "rq_begin q" and ?rs = "rexmitQueue q"
  have ch: "chain ?b ?rs (rq_end q)" "span ?rs < 2147483648"
    using assms(1) by (simp_all add: rq_wf_chain)
  have pre: "seqLE ?b from \<and> seqLE from (rq_end q)" using rq_wf_between(1) assms by simp
  have fe: "off ?b (rq_end q) = span ?rs" by (rule rq_wf_span[OF assms(1)])
  have over: "\<not> fl ?rs (span ?rs)" using look_None[of ?rs "span ?rs"] by (auto simp: fl_def)
  show thesis
  proof (cases "off ?b from = span ?rs")
    case True
    then have "rq_end q = from" using fe by (metis off_inj)
    then show thesis using pre True over
      by (intro that[of 0]) (simp_all add: checkRexmitQueueForSackedOrRexmittedSegments_def)
  next
    case False
    then have lt: "off ?b from < span ?rs" using assms(2) by simp
    obtain pr i rest where i: "?rs = pr @ i # rest" "seek from ?rs = i # rest"
      "chain (beginSeqNum i) (i # rest) (rq_end q)" "off (beginSeqNum i) from = off ?b from - span pr"
      "span pr \<le> off ?b from" "off ?b from - span pr < rlen i"
      "seqLE (beginSeqNum i) from \<and> seqLess from (endSeqNum i)" "off ?b (beginSeqNum i) = span pr"
      using seek_holds[OF assms(1) lt] by metis
    let ?i = "i\<lparr>beginSeqNum := from\<rparr>"
    have ne: "\<not> (?rs = [] \<or> rq_end q = from)" using i(1) fe lt by auto
    have eq: "checkRexmitQueueForSackedOrRexmittedSegments q from = forward_loop (?i # rest) from 0"
      using pre ne i(2,7) by (simp add: checkRexmitQueueForSackedOrRexmittedSegments_def)
    have c: "chain from (?i # rest) (rq_end q)" using i(3,7) by simp
    have rl: "rlen ?i = rlen i - (off ?b from - span pr)"
      using rlen_cut(1)[of i "from"] i(4,6) by simp
    have sp: "span (?i # rest) = span ?rs - off ?b from" using rl i(1,5,6) by simp
    have at: "fl ?rs (off ?b from + d) = fl (?i # rest) d" for d
      using rl i(5,6) by (auto simp: i(1) fl_append add.commute)
    have b: "off from from + span (?i # rest) < 2147483648"
      "unat (0::u32) + span (?i # rest) < 4294967296"
      using sp ch(2) by simp_all
    obtain k where k: "forward_loop (?i # rest) from 0 = Inr (0 + of_nat k)" "k \<le> span (?i # rest)"
        "\<forall>d<k. fl (?i # rest) d" "k < span (?i # rest) \<longrightarrow> \<not> fl (?i # rest) k"
      using forward_loop_ok[OF c b] by blast
    have "k < 4294967296" using k(2) sp ch(2) by linarith
    then have u: "unat (of_nat k :: u32) = k" by (rule unat_of_nat_u32)
    show thesis
    proof (rule that[of "of_nat k"])
      show "checkRexmitQueueForSackedOrRexmittedSegments q from = Inr (of_nat k)"
        using eq k(1) by simp
      show "off ?b from + unat (of_nat k :: u32) \<le> span ?rs" using u k(2) sp lt by simp
      show "fl ?rs d" if "off ?b from \<le> d" "d < off ?b from + unat (of_nat k :: u32)" for d
      proof -
        have "fl (?i # rest) (d - off ?b from)" using k(3) that u by (simp del: fl_simps)
        then show ?thesis using at[of "d - off ?b from"] that(1) by (simp del: fl_simps)
      qed
      show "\<not> fl ?rs (off ?b from + unat (of_nat k :: u32))"
      proof (cases "k < span (?i # rest)")
        case False
        then have "off ?b from + k = span ?rs" using k(2) sp lt by simp
        then show ?thesis using over u by simp
      qed (use k(4) at u in simp)
    qed
  qed
qed

text \<open>Runs of sacked bytes: the distances at which one starts.\<close>

definition starts :: "Region list \<Rightarrow> bool \<Rightarrow> nat set" where
  "starts rs p = {d. sk rs d \<and> (if d = 0 then \<not> p else \<not> sk rs (d - 1))}"

lemma starts_Cons:
  assumes "0 < rlen r"
  shows "starts (r # rs) p =
    (if sacked r \<and> \<not> p then {0} else {}) \<union> (\<lambda>d. d + rlen r) ` starts rs (sacked r)"
proof (rule set_eqI)
  fix d
  have "d \<in> (\<lambda>d. d + rlen r) ` starts rs (sacked r) \<longleftrightarrow>
      rlen r \<le> d \<and> d - rlen r \<in> starts rs (sacked r)"
    by (auto simp: image_iff intro!: bexI[of _ "d - rlen r"])
  moreover have "d - Suc 0 - rlen r = d - rlen r - Suc 0" by simp
  ultimately show "d \<in> starts (r # rs) p \<longleftrightarrow>
    d \<in> (if sacked r \<and> \<not> p then {0} else {}) \<union> (\<lambda>d. d + rlen r) ` starts rs (sacked r)"
    using assms by (auto simp: starts_def split: if_splits)
qed

lemma count_runs_eq:
  "chain m rs e \<Longrightarrow> count_runs rs p n = n + of_nat (card (starts rs p))"
proof (induction rs arbitrary: m p n)
  case (Cons r rs)
  have pos: "0 < rlen r" using Cons.prems seqLess_rlen by auto
  have fin: "finite (starts rs (sacked r))"
    by (rule finite_subset[of _ "{d. sk rs d}"]) (auto simp: starts_def)
  have img: "card ((\<lambda>d. d + rlen r) ` starts rs (sacked r)) = card (starts rs (sacked r))"
    by (rule card_image) (simp add: inj_on_def)
  have "{0} \<inter> (\<lambda>d. d + rlen r) ` starts rs (sacked r) = {}" using pos by auto
  then have "card (starts (r # rs) p) =
    (if sacked r \<and> \<not> p then 1 else 0) + card (starts rs (sacked r))"
    unfolding starts_Cons[OF pos] using fin img by auto
  then show ?case using Cons.IH[of "endSeqNum r"] Cons.prems by auto
qed (simp add: starts_def)

section \<open>The scoreboard's contract\<close>

text \<open>
  From distances back to sequence numbers. A sequence number is in the queue when its distance
  is below the length of the queue; a set of them has as many elements as the set of their
  distances.
\<close>

lemma card_off:
  assumes "\<And>d. P d \<Longrightarrow> d < 4294967296"
  shows "card {s. P (off b s)} = card {d. P d}"
proof (rule bij_betw_same_card[of "off b"], rule bij_betw_imageI)
  show "inj_on (off b) {s. P (off b s)}" by (simp add: inj_on_def)
  show "off b ` {s. P (off b s)} = {d. P d}"
  proof (rule set_eqI)
    fix d
    have "P d \<Longrightarrow> d = off b (b + of_nat d)" using assms off_add by simp
    then show "d \<in> off b ` {s. P (off b s)} \<longleftrightarrow> d \<in> {d. P d}"
      by (auto intro!: image_eqI[of d "off b" "b + of_nat d"])
  qed
qed

definition is_sacked :: "TCPSACKRexmitQueue \<Rightarrow> u32 \<Rightarrow> bool" where
  "is_sacked q s \<longleftrightarrow> (\<exists>r. rq_flags q s = Some (True, r))"

definition is_flagged :: "TCPSACKRexmitQueue \<Rightarrow> u32 \<Rightarrow> bool" where
  "is_flagged q s \<longleftrightarrow> (\<exists>k r. rq_flags q s = Some (k, r) \<and> (k \<or> r))"

lemma is_sacked_sk: "is_sacked q s = sk (rexmitQueue q) (off (rq_begin q) s)"
  by (simp add: is_sacked_def rq_flags_def sk_def)

lemma is_flagged_fl: "is_flagged q s = fl (rexmitQueue q) (off (rq_begin q) s)"
  by (simp add: is_flagged_def rq_flags_def fl_def)

lemma rq_flags_bound:
  "rq_wf q \<Longrightarrow> rq_flags q s = None \<longleftrightarrow> \<not> off (rq_begin q) s < off (rq_begin q) (rq_end q)"
  by (simp add: rq_flags_def look_None rq_wf_span not_less)

text \<open>A queue of two regions over the wrap-around of the sequence space, for the witnesses.\<close>

definition scoreboard_example :: TCPSACKRexmitQueue where
  "scoreboard_example = \<lparr>rexmitQueue =
     [\<lparr>beginSeqNum = 0xFFFFFF00, endSeqNum = 0x100, sacked = False, rexmitted = True\<rparr>,
      \<lparr>beginSeqNum = 0x100, endSeqNum = 0x300, sacked = True, rexmitted = False\<rparr>],
     rq_begin = 0xFFFFFF00, rq_end = 0x300\<rparr>"

lemma scoreboard_example_wf: "rq_wf scoreboard_example"
  by (simp add: scoreboard_example_def rq_wf_def checkQueue_def seqLess_def rlen_def off_def)

lemmas scoreboard_eval = scoreboard_example_def seqLE_def seqLess_def in_half_def off_def

text \<open>C17: Recording sent data keeps the queue well formed and marks exactly the sent range.\<close>

theorem enqueueSentData_flags:
  assumes "rq_wf q" "seqLE (rq_begin q) from" "seqLE from (rq_end q)"
    and "seqLess from to" "in_half (rq_begin q) to"
  shows "\<exists>q'. enqueueSentData q from to = Inr q' \<and> rq_wf q' \<and> rq_begin q' = rq_begin q
    \<and> rq_end q' = seqMax to (rq_end q)
    \<and> (\<forall>s. rq_flags q' s =
          (if seqLE from s \<and> off (rq_begin q) s < off (rq_begin q) to
           then flag_sent (rq_flags q s) else rq_flags q s))"
proof -
  let ?b = "rq_begin q"
  have fe: "off ?b (rq_end q) = span (rexmitQueue q)" by (rule rq_wf_span[OF assms(1)])
  have h: "in_half ?b from" "in_half ?b (rq_end q)"
    using assms(1,2) fe by (simp_all add: in_half_def seqLE_off_self rq_wf_chain)
  have le: "off ?b from \<le> span (rexmitQueue q)" "off ?b from < off ?b to"
    using assms h fe by (simp_all add: seqLE_iff[of ?b] seqLess_iff[of ?b])
  obtain q' where q': "enqueueSentData q from to = Inr q'" "rq_wf q'" "rq_begin q' = ?b"
    "rq_end q' = (if off ?b to \<le> span (rexmitQueue q) then rq_end q else to)"
    "\<And>d. look (rexmitQueue q') d = (if off ?b from \<le> d \<and> d < off ?b to
        then flag_sent (look (rexmitQueue q) d) else look (rexmitQueue q) d)"
    using enqueueSentData_ok[OF assms(1) le assms(5)] by metis
  have "rq_end q' = seqMax to (rq_end q)"
    using q'(4) h assms(5) fe off_inj[of ?b to "rq_end q"] by (simp add: seqMax_iff[of ?b])
  moreover have "off ?b s < off ?b to \<Longrightarrow> seqLE from s = (off ?b from \<le> off ?b s)" for s
    using assms(5) h(1) by (intro seqLE_iff) (auto simp: in_half_def)
  ultimately show ?thesis using q' by (auto simp: rq_flags_def)
qed

theorem enqueueSentData_flags_witness:
  "\<exists>q'. enqueueSentData scoreboard_example 0x80 0x500 = Inr q' \<and> rq_end q' = 0x500"
  using enqueueSentData_flags[OF scoreboard_example_wf, of "0x80" "0x500"]
  by (auto simp: scoreboard_eval seqMax_def)

text \<open>Marking sacked data.\<close>

theorem setSackedBit_flags:
  assumes "rq_wf q" "from = (if seqLess from0 (rq_begin q) then rq_begin q else from0)"
    and "seqLE (rq_begin q) from" "seqLess from to" "seqLE to (rq_end q)" "in_half (rq_begin q) to"
  shows "\<exists>q'. setSackedBit q from0 to = Inr q' \<and> rq_wf q' \<and> rq_begin q' = rq_begin q
    \<and> rq_end q' = rq_end q
    \<and> (\<forall>s. rq_flags q' s =
          (if seqLE from s \<and> off (rq_begin q) s < off (rq_begin q) to
           then flag_sacked (rq_flags q s) else rq_flags q s))"
proof -
  let ?b = "rq_begin q"
  have fe: "off ?b (rq_end q) = span (rexmitQueue q)" by (rule rq_wf_span[OF assms(1)])
  have h: "in_half ?b from" "in_half ?b (rq_end q)"
    using assms(1,3) fe by (simp_all add: in_half_def seqLE_off_self rq_wf_chain)
  have le: "off ?b from < off ?b to" "off ?b to \<le> span (rexmitQueue q)"
    using assms(4-6) h fe by (simp_all add: seqLE_iff[of ?b] seqLess_iff[of ?b])
  obtain q' where q': "setSackedBit q from0 to = Inr q'" "rq_wf q'" "rq_begin q' = ?b"
    "rq_end q' = rq_end q"
    "\<And>d. look (rexmitQueue q') d = (if off ?b from \<le> d \<and> d < off ?b to
        then flag_sacked (look (rexmitQueue q) d) else look (rexmitQueue q) d)"
    using setSackedBit_ok[OF assms(1,2) le] by metis
  moreover have "off ?b s < off ?b to \<Longrightarrow> seqLE from s = (off ?b from \<le> off ?b s)" for s
    using assms(6) h(1) by (intro seqLE_iff) (auto simp: in_half_def)
  ultimately show ?thesis by (auto simp: rq_flags_def)
qed

theorem setSackedBit_flags_witness:
  "\<exists>q'. setSackedBit scoreboard_example 0xFFFFFE00 0x80 = Inr q' \<and> rq_wf q'"
  using setSackedBit_flags[OF scoreboard_example_wf, of "0xFFFFFF00" "0xFFFFFE00" "0x80"]
  by (auto simp: scoreboard_eval)

text \<open>Discarding acknowledged data.\<close>

theorem discardUpTo_flags:
  assumes "rq_wf q" "seqLE (rq_begin q) s0" "seqLE s0 (rq_end q)"
  shows "\<exists>q'. rq_discardUpTo q s0 = Inr q' \<and> rq_wf q' \<and> rq_begin q' = s0
    \<and> rq_end q' = rq_end q
    \<and> (\<forall>s. rq_flags q' s =
          (if off (rq_begin q) s < off (rq_begin q) s0 then None else rq_flags q s))"
proof -
  let ?b = "rq_begin q"
  have le: "off ?b s0 \<le> span (rexmitQueue q)" using rq_wf_between(1) assms by blast
  obtain q' where q': "rq_discardUpTo q s0 = Inr q'" "rq_wf q'" "rq_begin q' = s0"
    "rq_end q' = rq_end q"
    "\<And>d. look (rexmitQueue q') d = look (rexmitQueue q) (d + off ?b s0)"
    using discardUpTo_ok[OF assms(1) le] by metis
  have "look (rexmitQueue q) (off s0 s + off ?b s0) =
      (if off ?b s < off ?b s0 then None else look (rexmitQueue q) (off ?b s))" for s
  proof (cases "off ?b s < off ?b s0")
    case True
    then have "4294967296 \<le> off s0 s + off ?b s0" using off_cases[of s0 s ?b] by simp
    then have "span (rexmitQueue q) \<le> off s0 s + off ?b s0" using assms(1) by (simp add: rq_wf_chain)
    then show ?thesis using True by (simp add: look_None)
  next
    case False
    then show ?thesis using off_cases[of s0 s ?b] by simp
  qed
  then show ?thesis using q' by (auto simp: rq_flags_def)
qed

theorem discardUpTo_flags_witness:
  "\<exists>q'. rq_discardUpTo scoreboard_example 0x80 = Inr q' \<and> rq_begin q' = 0x80"
  using discardUpTo_flags[OF scoreboard_example_wf, of "0x80"]
  by (auto simp: scoreboard_eval)

text \<open>The amount of sacked data above a sequence number is the number of its sacked bytes.\<close>

theorem getAmountOfSackedBytes_card:
  assumes "rq_wf q" "seqLE (rq_begin q) from" "seqLE from (rq_end q)"
  shows "\<exists>n. getAmountOfSackedBytes q from = Inr n \<and>
    unat n = card {s. off (rq_begin q) from \<le> off (rq_begin q) s \<and> is_sacked q s}"
proof -
  have le: "off (rq_begin q) from \<le> span (rexmitQueue q)" using rq_wf_between(1) assms by blast
  have "card {s. off (rq_begin q) from \<le> off (rq_begin q) s \<and> sk (rexmitQueue q) (off (rq_begin q) s)}
      = card {d. off (rq_begin q) from \<le> d \<and> sk (rexmitQueue q) d}"
    using assms(1) by (intro card_off) (auto dest!: sk_bound simp: rq_wf_chain)
  then show ?thesis using getAmountOfSackedBytes_ok[OF assms(1) le] by (simp add: is_sacked_sk)
qed

theorem getAmountOfSackedBytes_card_witness:
  "\<exists>n. getAmountOfSackedBytes scoreboard_example 0x200 = Inr n
     \<and> unat n = card {s. 0x300 \<le> off 0xFFFFFF00 s \<and> is_sacked scoreboard_example s}"
  using getAmountOfSackedBytes_card[OF scoreboard_example_wf, of "0x200"]
  by (auto simp: scoreboard_eval)

text \<open>
  The total amount of sacked data is the number of sacked bytes.
\<close>

theorem getTotalAmountOfSackedBytes_card:
  assumes "rq_wf q"
  shows "unat (getTotalAmountOfSackedBytes q) = card {s. is_sacked q s}"
proof -
  have "card {s. sk (rexmitQueue q) (off (rq_begin q) s)} = nsk (rexmitQueue q)"
    unfolding nsk_def using assms by (intro card_off) (auto dest!: sk_bound simp: rq_wf_chain)
  moreover have "nsk (rexmitQueue q) < 4294967296"
    using nsk_span[of "rexmitQueue q"] assms by (simp add: rq_wf_chain)
  ultimately show ?thesis
    by (simp add: getTotalAmountOfSackedBytes_def sum_sacked_eq is_sacked_sk unat_of_nat_u32)
qed

theorem getTotalAmountOfSackedBytes_card_witness:
  "unat (getTotalAmountOfSackedBytes scoreboard_example) = card {s. is_sacked scoreboard_example s}"
  by (rule getTotalAmountOfSackedBytes_card[OF scoreboard_example_wf])

text \<open>The retransmission scan.\<close>

theorem checkRexmitQueue_maximal_run:
  assumes "rq_wf q" "seqLE (rq_begin q) from" "seqLE from (rq_end q)"
  shows "\<exists>n. checkRexmitQueueForSackedOrRexmittedSegments q from = Inr n
    \<and> seqLE (from + n) (rq_end q)
    \<and> (\<forall>k. unat k < unat n \<longrightarrow> is_flagged q (from + k)) \<and> \<not> is_flagged q (from + n)"
proof -
  let ?b = "rq_begin q"
  have le: "off ?b from \<le> span (rexmitQueue q)" using rq_wf_between(1) assms by blast
  have sp: "span (rexmitQueue q) < 2147483648" using assms(1) by (simp add: rq_wf_chain)
  obtain n where n: "checkRexmitQueueForSackedOrRexmittedSegments q from = Inr n"
    "off ?b from + unat n \<le> span (rexmitQueue q)"
    "\<And>d. off ?b from \<le> d \<Longrightarrow> d < off ?b from + unat n \<Longrightarrow> fl (rexmitQueue q) d"
    "\<not> fl (rexmitQueue q) (off ?b from + unat n)"
    using forward_ok[OF assms(1) le] by metis
  have o: "off ?b (from + k) = off ?b from + unat k" if "unat k \<le> unat n" for k
    using that n(2) sp by (intro off_plus) simp
  have "seqLE ?b (from + n) \<and> seqLE (from + n) (rq_end q)"
    using rq_wf_between(1)[OF assms(1), of "from + n"] o[of n] n(2) by simp
  then show ?thesis using n o by (auto simp: is_flagged_fl)
qed

theorem checkRexmitQueue_maximal_run_witness:
  "\<exists>n. checkRexmitQueueForSackedOrRexmittedSegments scoreboard_example 0 = Inr n
     \<and> \<not> is_flagged scoreboard_example n"
  using checkRexmitQueue_maximal_run[OF scoreboard_example_wf, of 0]
  by (auto simp: scoreboard_eval)

text \<open>Discontiguous runs.\<close>

theorem getNumOfDiscontiguousSacks_card:
  assumes "rq_wf q"
  shows "\<exists>n. getNumOfDiscontiguousSacks q (rq_begin q) = Inr n \<and>
    unat n = card {s. is_sacked q s \<and> (s = rq_begin q \<or> \<not> is_sacked q (s - 1))}"
proof -
  let ?b = "rq_begin q" and ?rs = "rexmitQueue q"
  have ch: "chain ?b ?rs (rq_end q)" "span ?rs < 2147483648"
    using assms by (simp_all add: rq_wf_chain)
  have sk0: "seek ?b ?rs = ?rs"
  proof (cases ?rs)
    case (Cons r rs)
    then have "beginSeqNum r = ?b" "seqLess ?b (endSeqNum r)" using ch(1) by auto
    then have "\<not> seqLE (endSeqNum r) ?b"
      using seqLess_rlen[of ?b r] seqLess_window_trichotomy[of ?b ?b "endSeqNum r"]
      by (auto simp: rlen_def in_half_def seqLess_seqLE)
    then show ?thesis using Cons by simp
  qed simp
  have eq: "getNumOfDiscontiguousSacks q ?b = Inr (of_nat (card (starts ?rs False)))"
  proof (cases "?rs = []")
    case True
    then show ?thesis using rq_wf_empty[OF assms]
      by (simp add: getNumOfDiscontiguousSacks_def starts_def)
  next
    case False
    have "seqLE ?b ?b \<and> seqLE ?b (rq_end q)" using rq_wf_between(1)[OF assms, of ?b] by simp
    moreover have "?b \<noteq> rq_end q" using False rq_wf_empty[OF assms] by metis
    ultimately show ?thesis
      unfolding getNumOfDiscontiguousSacks_def sk0 count_runs_eq[OF ch(1)] using False by simp
  qed
  have step: "off ?b (s - 1) = off ?b s - 1" if "s \<noteq> ?b" for s
  proof -
    have "0 < off ?b s" using that by (simp add: zero_less_iff_neq_zero)
    then have "unat (1::u32) \<le> unat (s - ?b)" by (simp add: off_def)
    moreover have "s - 1 - ?b = s - ?b - 1" by simp
    ultimately show ?thesis by (simp only: off_def unat_sub_u32) simp
  qed
  have P: "is_sacked q s \<and> (s = ?b \<or> \<not> is_sacked q (s - 1)) \<longleftrightarrow> off ?b s \<in> starts ?rs False" for s
    using step[of s] by (cases "s = ?b") (auto simp: is_sacked_sk starts_def)
  have bound: "d < 2147483648" if "d \<in> starts ?rs False" for d
    using that ch(2) by (auto simp: starts_def dest: sk_bound)
  have "card (starts ?rs False) \<le> card {..<span ?rs}"
    by (rule card_mono) (auto simp: starts_def dest: sk_bound)
  then have "card (starts ?rs False) < 4294967296" using ch(2) by simp
  moreover have "card {s. off ?b s \<in> starts ?rs False} = card (starts ?rs False)"
    using card_off[of "\<lambda>d. d \<in> starts ?rs False" ?b] bound by force
  ultimately show ?thesis using eq by (simp add: P unat_of_nat_u32)
qed

theorem getNumOfDiscontiguousSacks_card_witness:
  "\<exists>n. getNumOfDiscontiguousSacks scoreboard_example 0xFFFFFF00 = Inr n"
  using getNumOfDiscontiguousSacks_card[OF scoreboard_example_wf]
  by (auto simp: scoreboard_example_def)

end
