(* ===== verification/IPv4_Address.thy ===== *)
theory IPv4_Address
  imports TCP_Prelude
begin

text \<open>
  IPv4 addresses (\<^verbatim>\<open>networklayer/contract/IPv4Address.h\<close>,
  \<^verbatim>\<open>IPv4Address.cc\<close>): a 32-bit number, its dotted form, classes and categories, netmasks and
  prefixes. The lemmas show that an address is read back from its dotted form, that the netmasks
  are what \<open>isValidNetmask\<close> accepts, and that the ways of comparing prefixes agree.
\<close>

unbundle bit_operations_syntax

type_synonym IPv4Address = u32

section \<open>Construction\<close>

definition UNSPECIFIED_ADDRESS :: IPv4Address where "UNSPECIFIED_ADDRESS = 0"

definition ip_set4 :: "int \<Rightarrow> int \<Rightarrow> int \<Rightarrow> int \<Rightarrow> IPv4Address" where
  "ip_set4 i0 i1 i2 i3 = push_bit 24 (word_of_int i0) OR push_bit 16 (word_of_int i1)
     OR push_bit 8 (word_of_int i2) OR word_of_int i3"

definition LOOPBACK_ADDRESS :: IPv4Address where "LOOPBACK_ADDRESS = ip_set4 127 0 0 1"
definition LOOPBACK_NETMASK :: IPv4Address where "LOOPBACK_NETMASK = ip_set4 255 0 0 0"
definition ALLONES_ADDRESS :: IPv4Address where "ALLONES_ADDRESS = ip_set4 255 255 255 255"
definition ALL_HOSTS_MCAST :: IPv4Address where "ALL_HOSTS_MCAST = ip_set4 224 0 0 1"
definition ALL_ROUTERS_MCAST :: IPv4Address where "ALL_ROUTERS_MCAST = ip_set4 224 0 0 2"

definition ip_isUnspecified :: "IPv4Address \<Rightarrow> bool" where
  "ip_isUnspecified a \<longleftrightarrow> a = 0"

definition getDByte :: "nat \<Rightarrow> IPv4Address \<Rightarrow> int" where
  "getDByte i a = uint (drop_bit ((3 - i) * 8) a AND 0xFF)"

section \<open>Dotted form\<close>

lemma bind_res_cong [fundef_cong]:
  "m = m' \<Longrightarrow> (\<And>x. m' = Inr x \<Longrightarrow> f x = g x) \<Longrightarrow> bind_res m f = bind_res m' g"
  by (cases m') auto

text \<open>A character of the string, or the terminating zero.\<close>

definition at_char :: "string \<Rightarrow> char" where
  "at_char s = (case s of [] \<Rightarrow> CHR 0x00 | c # _ \<Rightarrow> c)"

definition is_digit :: "char \<Rightarrow> bool" where
  "is_digit c \<longleftrightarrow> of_char c \<ge> (48 :: nat) \<and> of_char c \<le> (57 :: nat)"

text \<open>Reading digits; a number that does not fit into an \<^verbatim>\<open>int\<close> overflows.\<close>

fun read_number :: "string \<Rightarrow> int \<Rightarrow> (int \<times> string) res" where
  "read_number [] num = Inr (num, [])"
| "read_number (c # s) num =
     (if is_digit c then
        (let num' = 10 * num + (of_char c - 48)
         in if num' > 0x7FFFFFFF then Inl Undefined_behaviour else read_number s num')
      else Inr (num, c # s))"

lemma read_number_length: "read_number s num = Inr (n, s') \<Longrightarrow> length s' \<le> length s"
  by (induction s num rule: read_number.induct) (fastforce simp: Let_def split: if_splits)+

lemma read_number_shorter:
  "is_digit (at_char s) \<Longrightarrow> read_number s num = Inr (n, s') \<Longrightarrow> length s' < length s"
  by (cases s) (auto simp: at_char_def is_digit_def Let_def dest!: read_number_length split: if_splits)

text \<open>
  The loop over the numbers: \<open>bs\<close> are the bytes already read. A fifth byte is never stored: after
  the fourth the string has to end.
\<close>

function parse_bytes :: "string \<Rightarrow> int list \<Rightarrow> int list option res" where
  "parse_bytes s bs =
     (if \<not> is_digit (at_char s) then Inr None
      else
        bind_res (read_number s 0) (\<lambda>(num, s').
          if num > 255 then Inr None
          else
            let bs' = bs @ [num]
            in if s' = [] then Inr (if length bs' = 4 then Some bs' else None)
               else if at_char s' \<noteq> CHR ''.'' then Inr None
               else if length bs' = 4 then Inr None
               else parse_bytes (tl s') bs'))"
  by pat_completeness auto
termination
  by (relation "measure (\<lambda>(s, bs). length s)") (auto dest!: read_number_shorter)

declare parse_bytes.simps [simp del]

definition parseIPAddress :: "string option \<Rightarrow> int list option res" where
  "parseIPAddress text =
     (case text of
        None \<Rightarrow> Inr None
      | Some s \<Rightarrow> if s = ''<unspec>'' then Inr (Some [0, 0, 0, 0]) else parse_bytes s [])"

definition ip_set_string :: "string option \<Rightarrow> IPv4Address res" where
  "ip_set_string text =
     (if text = None then Inl (Runtime_error ''IPv4 address string is NULL'')
      else
        bind_res (parseIPAddress text) (\<lambda>r.
          case r of
            Some [b0, b1, b2, b3] \<Rightarrow> Inr (ip_set4 b0 b1 b2 b3)
          | _ \<Rightarrow> Inl (Runtime_error ''Invalid IPv4 address string'')))"

definition ip_isWellFormed :: "string option \<Rightarrow> bool res" where
  "ip_isWellFormed text = bind_res (parseIPAddress text) (\<lambda>r. Inr (r \<noteq> None))"

text \<open>The decimal form that \<^verbatim>\<open>sprintf\<close> gives for \<^verbatim>\<open>%u\<close>.\<close>

fun dec :: "nat \<Rightarrow> string" where
  "dec n = (if n < 10 then [char_of (48 + n)] else dec (n div 10) @ [char_of (48 + n mod 10)])"

declare dec.simps [simp del]

definition ip_str :: "bool \<Rightarrow> IPv4Address \<Rightarrow> string" where
  "ip_str printUnspec a =
     (if printUnspec \<and> ip_isUnspecified a then ''<unspec>''
      else dec (unat (drop_bit 24 a AND 255)) @ ''.'' @ dec (unat (drop_bit 16 a AND 255)) @ ''.''
        @ dec (unat (drop_bit 8 a AND 255)) @ ''.'' @ dec (unat (a AND 255)))"

section \<open>Classes and categories\<close>

definition getIPClass :: "IPv4Address \<Rightarrow> char" where
  "getIPClass a =
     (let buf = word_of_int (getDByte 0 a) :: u8
      in if buf AND 0x80 = 0x00 then CHR ''A''
         else if buf AND 0xC0 = 0x80 then CHR ''B''
         else if buf AND 0xE0 = 0xC0 then CHR ''C''
         else if buf AND 0xF0 = 0xE0 then CHR ''D''
         else if buf AND 0xF8 = 0xF0 then CHR ''E''
         else CHR ''?'')"

datatype AddressCategory =
    UNSPECIFIED | THIS_NETWORK | LOOPBACK | MULTICAST | BROADCAST | IETF | TEST_NET
  | IPv6_TO_IPv4_RELAY | BENCHMARK | RESERVED | LINKLOCAL | PRIVATE_NETWORK | GLOBAL

definition isLimitedBroadcastAddress :: "IPv4Address \<Rightarrow> bool" where
  "isLimitedBroadcastAddress a \<longleftrightarrow> a = 0xFFFFFFFF"

definition ip_isMulticast :: "IPv4Address \<Rightarrow> bool" where
  "ip_isMulticast a \<longleftrightarrow> a AND 0xF0000000 = 0xE0000000"

definition isUnicast :: "IPv4Address \<Rightarrow> bool" where
  "isUnicast a \<longleftrightarrow> \<not> ip_isMulticast a \<and> \<not> isLimitedBroadcastAddress a"

definition isLinkLocalMulticast :: "IPv4Address \<Rightarrow> bool" where
  "isLinkLocalMulticast a \<longleftrightarrow> a AND 0xFFFFFF00 = 0xE0000000"

definition getAddressCategory :: "IPv4Address \<Rightarrow> AddressCategory" where
  "getAddressCategory a =
     (if ip_isUnspecified a then UNSPECIFIED
      else if a AND 0xFF000000 = 0 then THIS_NETWORK
      else if a AND 0xFF000000 = 0x7F000000 then LOOPBACK
      else if ip_isMulticast a then MULTICAST
      else if a = 0xFFFFFFFF then BROADCAST
      else
        let addr24 = a AND 0xFFFFFF00
        in if addr24 = 0xC0000000 then IETF
           else if addr24 = 0xC0000200 \<or> addr24 = 0xC6336400 \<or> addr24 = 0xCB007100 then TEST_NET
           else if addr24 = 0xC0586300 then IPv6_TO_IPv4_RELAY
           else if a AND 0xFFFE0000 = 0xC6120000 then BENCHMARK
           else if a AND 0xF0000000 = 0xF0000000 then RESERVED
           else if a AND 0xFFFF0000 = 0xA9FE0000 then LINKLOCAL
           else if a AND 0xFF000000 = 0x0A000000 \<or> a AND 0xFFF00000 = 0xAC100000
                   \<or> a AND 0xFFFF0000 = 0xC0A80000 then PRIVATE_NETWORK
           else GLOBAL)"

definition getNetwork :: "IPv4Address \<Rightarrow> IPv4Address" where
  "getNetwork a =
     (let cl = getIPClass a
      in if cl = CHR ''A'' then ip_set4 (getDByte 0 a) 0 0 0
         else if cl = CHR ''B'' then ip_set4 (getDByte 0 a) (getDByte 1 a) 0 0
         else if cl = CHR ''C'' then ip_set4 (getDByte 0 a) (getDByte 1 a) (getDByte 2 a) 0
         else 0)"

definition getNetworkMask :: "IPv4Address \<Rightarrow> IPv4Address" where
  "getNetworkMask a =
     (let cl = getIPClass a
      in if cl = CHR ''A'' then ip_set4 255 0 0 0
         else if cl = CHR ''B'' then ip_set4 255 255 0 0
         else if cl = CHR ''C'' then ip_set4 255 255 255 0
         else 0)"

section \<open>Netmasks and prefixes\<close>

definition maskedAddrAreEqual :: "IPv4Address \<Rightarrow> IPv4Address \<Rightarrow> IPv4Address \<Rightarrow> bool" where
  "maskedAddrAreEqual a1 a2 netmask \<longleftrightarrow> (a1 XOR a2) AND netmask = 0"

definition isNetwork :: "IPv4Address \<Rightarrow> IPv4Address \<Rightarrow> bool" where
  "isNetwork a toCmp =
     (let netmask = getNetworkMask a
      in if ip_isUnspecified netmask then False else maskedAddrAreEqual a toCmp netmask)"

definition raw_makeNetmask :: "int \<Rightarrow> IPv4Address" where
  "raw_makeNetmask len = (if len \<ge> 32 then 0xFFFFFFFF else NOT (drop_bit (nat len) 0xFFFFFFFF))"

definition makeNetmask :: "int \<Rightarrow> IPv4Address res" where
  "makeNetmask len =
     (if len < 0 \<or> len > 32 then Inl (Runtime_error ''IPv4Address: wrong netmask length'')
      else Inr (raw_makeNetmask len))"

definition prefixMatches :: "IPv4Address \<Rightarrow> IPv4Address \<Rightarrow> int \<Rightarrow> bool" where
  "prefixMatches a other len =
     (if len < 1 then True
      else if len > 31 then a = other
      else let mask = raw_makeNetmask len in a AND mask = other AND mask)"

text \<open>The loop \<^verbatim>\<open>for (int i = 31; i >= 0; i--)\<close> over the highest \<open>n\<close> bits still to see.\<close>

fun matching_bits :: "IPv4Address \<Rightarrow> nat \<Rightarrow> int" where
  "matching_bits r 0 = 32"
| "matching_bits r (Suc i) = (if bit r i then 31 - int i else matching_bits r i)"

definition getNumMatchingPrefixBits :: "IPv4Address \<Rightarrow> IPv4Address \<Rightarrow> int" where
  "getNumMatchingPrefixBits a to_cmp = matching_bits (a XOR to_cmp) 32"

text \<open>The loop \<^verbatim>\<open>for (int i=0; i<32; i++)\<close> with \<open>n\<close> rounds left.\<close>

fun netmask_length :: "IPv4Address \<Rightarrow> nat \<Rightarrow> int" where
  "netmask_length a 0 = 0"
| "netmask_length a (Suc n) = (if bit a (31 - n) then 32 - int (31 - n) else netmask_length a n)"

definition getNetmaskLength :: "IPv4Address \<Rightarrow> int" where
  "getNetmaskLength a = netmask_length a 32"

definition isValidNetmask :: "IPv4Address \<Rightarrow> bool" where
  "isValidNetmask a \<longleftrightarrow> a = raw_makeNetmask (getNetmaskLength a)"

definition makeBroadcastAddress :: "IPv4Address \<Rightarrow> IPv4Address \<Rightarrow> IPv4Address" where
  "makeBroadcastAddress a netmask = a OR NOT netmask"

section \<open>The dotted form is read back\<close>

lemma read_number_dec:
  "n \<le> 0x7FFFFFFF \<Longrightarrow> read_number (dec n @ s) 0 = read_number s (int n)"
proof (induction n arbitrary: s rule: dec.induct)
  case (1 n)
  have c: "is_digit (char_of (48 + m))" "(of_char (char_of (48 + m)) :: int) = 48 + int m" if "m < 10" for m
    using that by (simp_all add: is_digit_def of_char_of of_nat_of_char [symmetric, where 'a = int])
  show ?case
  proof (cases "n < 10")
    case True
    then show ?thesis using c[of n] by (simp add: dec.simps[of n])
  next
    case False
    have "n div 10 * 10 + n mod 10 = n" by simp
    then have "10 * int (n div 10) + int (n mod 10) = int n" by linarith
    then show ?thesis
      using False 1 c[of "n mod 10"] by (simp add: dec.simps[of n])
  qed
qed

lemma dec_digit: "is_digit (at_char (dec n @ s))"
proof (induction n arbitrary: s rule: dec.induct)
  case (1 n)
  then show ?case
    by (cases "n < 10") (auto simp: dec.simps[of n] at_char_def is_digit_def)
qed

lemma parse_bytes_dec:
  assumes "n < 256" "length bs < 3"
  shows "parse_bytes (dec n @ CHR ''.'' # s) bs = parse_bytes s (bs @ [int n])"
  using assms dec_digit[of n "CHR ''.'' # s"] read_number_dec[of n "CHR ''.'' # s"]
  by (subst parse_bytes.simps) (simp add: is_digit_def at_char_def Let_def)

lemma parse_bytes_last:
  assumes "n < 256" "length bs = 3"
  shows "parse_bytes (dec n) bs = Inr (Some (bs @ [int n]))"
  using assms dec_digit[of n "[]"] read_number_dec[of n "[]"]
  by (subst parse_bytes.simps) (simp add: Let_def)

lemma and_255: "x AND 255 = take_bit 8 (x :: u32)"
  by (simp add: take_bit_eq_mask mask_eq_exp_minus_1)

lemma word_of_bytes:
  "ip_set4 (int (unat (drop_bit 24 a AND 255))) (int (unat (drop_bit 16 a AND 255)))
     (int (unat (drop_bit 8 a AND 255))) (int (unat (a AND 255))) = a"
proof -
  have w: "word_of_int (int (unat w)) = (w :: u32)" for w by simp
  show ?thesis
    unfolding ip_set4_def and_255 w
  proof (rule bit_word_eqI)
    fix n assume n: "n < LENGTH(32)"
    consider "n < 8" | "8 \<le> n" "n < 16" | "16 \<le> n" "n < 24" | "24 \<le> n" by linarith
    then show "bit (push_bit 24 (take_bit 8 (drop_bit 24 a)) OR push_bit 16 (take_bit 8 (drop_bit 16 a))
        OR push_bit 8 (take_bit 8 (drop_bit 8 a)) OR take_bit 8 a) n = bit a n"
      by cases (use n in \<open>auto simp: bit_simps\<close>)
  qed
qed

lemma byte_bound: "unat (x AND 255 :: u32) < 256"
  using take_bit_nat_less_exp [of 8 "unat x"] by (simp add: and_255 unsigned_take_bit_eq)

text \<open>Whatever the address: its dotted form, also the special one of 0, is read back as it.\<close>

theorem str_roundtrip: "ip_set_string (Some (ip_str printUnspec a)) = Inr a"
proof (cases "printUnspec \<and> ip_isUnspecified a")
  case True
  then show ?thesis
    by (simp add: ip_str_def ip_set_string_def parseIPAddress_def ip_isUnspecified_def ip_set4_def)
next
  case False
  let ?s = "ip_str printUnspec a"
  have d: "is_digit (at_char ?s)" unfolding ip_str_def if_not_P[OF False] by (rule dec_digit)
  then have "?s \<noteq> ''<unspec>''" by (auto simp: at_char_def is_digit_def)
  moreover have "parse_bytes ?s [] = Inr (Some [int (unat (drop_bit 24 a AND 255)),
      int (unat (drop_bit 16 a AND 255)), int (unat (drop_bit 8 a AND 255)), int (unat (a AND 255))])"
    unfolding ip_str_def if_not_P[OF False] by (simp add: parse_bytes_dec parse_bytes_last byte_bound)
  ultimately show ?thesis
    using word_of_bytes[of a] by (simp add: ip_set_string_def parseIPAddress_def)
qed

section \<open>Netmasks and prefixes agree\<close>

lemma bit_raw_makeNetmask:
  assumes "0 \<le> len" "len \<le> 32"
  shows "bit (raw_makeNetmask len) i \<longleftrightarrow> i < 32 \<and> 32 - nat len \<le> i"
proof -
  have m: "(0xFFFFFFFF :: u32) = -1" by simp
  show ?thesis using assms unfolding raw_makeNetmask_def m by (auto simp: bit_simps)
qed

lemma matching_bits_ge:
  "n \<le> 32 \<Longrightarrow> len \<le> 32 \<Longrightarrow> len \<le> matching_bits r n \<longleftrightarrow> (\<forall>i < n. 32 - len \<le> int i \<longrightarrow> \<not> bit r i)"
  by (induction n) (auto simp: less_Suc_eq)

lemma netmask_length_makeNetmask:
  assumes "0 \<le> len" "len \<le> 32" "n \<le> 32"
  shows "netmask_length (raw_makeNetmask len) n = min (int n) len"
  using assms(3) by (induction n) (use assms(1,2) in \<open>auto simp: bit_raw_makeNetmask\<close>)

lemma netmask_length_bounds: "n \<le> 32 \<Longrightarrow> 0 \<le> netmask_length a n \<and> netmask_length a n \<le> int n"
  by (induction n) auto

lemma makeNetmask_iff: "makeNetmask len = Inr m \<longleftrightarrow> isValidNetmask m \<and> getNetmaskLength m = len"
proof -
  have "getNetmaskLength (raw_makeNetmask len) = len" if "0 \<le> len" "len \<le> 32"
    using netmask_length_makeNetmask[OF that, of 32] that by (simp add: getNetmaskLength_def)
  moreover have "0 \<le> getNetmaskLength m" "getNetmaskLength m \<le> 32"
    using netmask_length_bounds[of 32 m] by (simp_all add: getNetmaskLength_def)
  ultimately show ?thesis by (auto simp: makeNetmask_def isValidNetmask_def)
qed

lemma valid_mask: "0 \<le> len \<Longrightarrow> len \<le> 32 \<Longrightarrow> raw_makeNetmask len = m \<Longrightarrow> isValidNetmask m"
  using makeNetmask_iff[of len m] by (simp add: makeNetmask_def)

text \<open>
  \<open>isValidNetmask\<close> accepts exactly the masks that \<open>makeNetmask\<close> makes, and \<open>getNetmaskLength\<close> gives
  the length back.
\<close>

theorem netmask_roundtrip:
  "makeNetmask len = Inr m \<longleftrightarrow> isValidNetmask m \<and> getNetmaskLength m = len"
  by (rule makeNetmask_iff)

text \<open>A greater netmask is a longer one.\<close>

lemma raw_makeNetmask_mono:
  assumes "0 \<le> k" "k \<le> l" "l \<le> 32"
  shows "raw_makeNetmask k \<le> raw_makeNetmask l"
proof -
  have "raw_makeNetmask k AND raw_makeNetmask l = raw_makeNetmask k"
    by (rule bit_word_eqI) (use assms in \<open>auto simp: bit_simps bit_raw_makeNetmask\<close>)
  then show ?thesis by (metis word_and_le1)
qed

lemma netmask_less_length:
  assumes "isValidNetmask m" "isValidNetmask n" "m < n"
  shows "getNetmaskLength m < getNetmaskLength n"
proof (rule ccontr)
  assume "\<not> getNetmaskLength m < getNetmaskLength n"
  moreover have "0 \<le> getNetmaskLength n" "getNetmaskLength m \<le> 32"
    using netmask_length_bounds[of 32] by (simp_all add: getNetmaskLength_def)
  ultimately have "raw_makeNetmask (getNetmaskLength n) \<le> raw_makeNetmask (getNetmaskLength m)"
    by (intro raw_makeNetmask_mono) auto
  then show False using assms by (simp add: isValidNetmask_def)
qed

lemma masked_equal_bits:
  assumes "0 \<le> len" "len \<le> 32"
  shows "maskedAddrAreEqual a b (raw_makeNetmask len) \<longleftrightarrow>
    (\<forall>i < 32. 32 - len \<le> int i \<longrightarrow> \<not> bit (a XOR b) i)"
proof -
  have "32 - nat len \<le> i \<longleftrightarrow> 32 - len \<le> int i" for i using assms by auto
  then show ?thesis
    using assms by (auto simp: maskedAddrAreEqual_def bit_eq_iff bit_simps bit_raw_makeNetmask)
qed

lemma and_eq_iff_xor: "a AND m = b AND m \<longleftrightarrow> (a XOR b) AND m = (0 :: 'a :: len word)"
  by (auto simp: bit_eq_iff bit_simps)

text \<open>
  The three ways the code has to compare the leading bits of two addresses agree: by the length of
  the prefix, by its netmask, and by counting the leading bits in common.
\<close>

theorem prefix_comparisons_agree:
  assumes "makeNetmask len = Inr m"
  shows "prefixMatches a b len = maskedAddrAreEqual a b m
    \<and> (prefixMatches a b len \<longleftrightarrow> len \<le> getNumMatchingPrefixBits a b)"
proof
  have len: "0 \<le> len" "len \<le> 32" and m: "m = raw_makeNetmask len"
    using assms by (auto simp: makeNetmask_def split: if_splits)
  show e: "prefixMatches a b len = maskedAddrAreEqual a b m"
  proof -
    consider "len < 1" | "len > 31" | "1 \<le> len" "len \<le> 31" by linarith
    then show ?thesis
    proof cases
      case 1
      then show ?thesis using len by (simp add: prefixMatches_def m masked_equal_bits)
    next
      case 2
      then have "len = 32" using len by simp
      moreover have "a XOR b = 0 \<longleftrightarrow> a = b" by (auto simp: bit_eq_iff bit_simps)
      moreover have "m = - 1" using \<open>len = 32\<close> by (simp add: m raw_makeNetmask_def)
      ultimately show ?thesis by (simp add: prefixMatches_def maskedAddrAreEqual_def)
    next
      case 3
      then show ?thesis by (simp add: prefixMatches_def m maskedAddrAreEqual_def Let_def and_eq_iff_xor)
    qed
  qed
  show "prefixMatches a b len \<longleftrightarrow> len \<le> getNumMatchingPrefixBits a b"
    unfolding e m masked_equal_bits[OF len] getNumMatchingPrefixBits_def
    using matching_bits_ge[of 32 len "a XOR b"] len by simp
qed

theorem prefix_comparisons_agree_witness:
  "prefixMatches 0x0A000105 0x0A0001FF 24 = maskedAddrAreEqual 0x0A000105 0x0A0001FF 0xFFFFFF00
    \<and> (prefixMatches 0x0A000105 0x0A0001FF 24 \<longleftrightarrow> 24 \<le> getNumMatchingPrefixBits 0x0A000105 0x0A0001FF)"
  by (rule prefix_comparisons_agree) (simp add: makeNetmask_def raw_makeNetmask_def)

end
