(* ===== verification/IPvX_Address.thy ===== *)
theory IPvX_Address
  imports IPv4_Address "HOL-Library.Multiset"
begin

text \<open>
  Addresses of either version (\<^verbatim>\<open>networklayer/contract/IPvXAddress.h\<close>), with the
  order that maps keyed by an address use. The lemmas show that the order is linear and that its
  equivalence is equality, which is what a \<^verbatim>\<open>std::map\<close> relies on.
\<close>

section \<open>The type\<close>

text \<open>The null address is always IPv4.\<close>

datatype IPvXAddress = IPv4 u32 | IPv6 u32 u32 u32 u32

type_synonym IPv6Address = "u32 \<times> u32 \<times> u32 \<times> u32"

definition unspecified_addr :: IPvXAddress where
  "unspecified_addr = IPv4 0"

fun isIPv6 :: "IPvXAddress \<Rightarrow> bool" where
  "isIPv6 (IPv4 _) = False"
| "isIPv6 (IPv6 _ _ _ _) = True"

fun isUnspecified :: "IPvXAddress \<Rightarrow> bool" where
  "isUnspecified (IPv4 d) \<longleftrightarrow> d = 0"
| "isUnspecified (IPv6 _ _ _ _) = False"

lemma isUnspecified_iff: "isUnspecified a \<longleftrightarrow> a = unspecified_addr"
  by (cases a) (simp_all add: unspecified_addr_def)

lemma isUnspecified_null [simp]: "isUnspecified unspecified_addr"
  by (simp add: isUnspecified_iff)

fun of_IPv6 :: "IPv6Address \<Rightarrow> IPvXAddress" where
  "of_IPv6 (a, b, c, d) = (if a OR b OR c OR d = 0 then IPv4 0 else IPv6 a b c d)"

fun get4 :: "IPvXAddress \<Rightarrow> IPv4Address res" where
  "get4 (IPv4 d) = Inr d"
| "get4 (IPv6 _ _ _ _) = Inl (Runtime_error ''IPvXAddress: cannot return IPv6 address as IPv4'')"

fun get6 :: "IPvXAddress \<Rightarrow> IPv6Address res" where
  "get6 (IPv4 d) =
     (if d = 0 then Inr (0, 0, 0, 0)
      else Inl (Runtime_error ''IPvXAddress: cannot return IPv4 address as IPv6''))"
| "get6 (IPv6 a b c d) = Inr (a, b, c, d)"

text \<open>The scope of an IPv6 address is multicast when neither mask that is tried before applies.\<close>

fun ip6_isMulticast :: "IPv6Address \<Rightarrow> bool" where
  "ip6_isMulticast (a, b, c, d) \<longleftrightarrow>
     a AND 0xFFC00000 \<noteq> 0xFE800000 \<and> a AND 0xFFC00000 \<noteq> 0xFEC00000 \<and> a AND 0xFF000000 = 0xFF000000"

fun ipx_isMulticast :: "IPvXAddress \<Rightarrow> bool" where
  "ipx_isMulticast (IPv4 d) = ip_isMulticast d"
| "ipx_isMulticast (IPv6 a b c d) = ip6_isMulticast (a, b, c, d)"

section \<open>The order\<close>

text \<open>\<^verbatim>\<open>memcmp(..) < 0\<close> on arrays of the same length, of words stored with the low byte first.\<close>

fun memcmp_less :: "u8 list \<Rightarrow> u8 list \<Rightarrow> bool" where
  "memcmp_less (x # xs) (y # ys) \<longleftrightarrow> x < y \<or> x = y \<and> memcmp_less xs ys"
| "memcmp_less _ _ \<longleftrightarrow> False"

definition le_bytes :: "u32 \<Rightarrow> u8 list" where
  "le_bytes w = [ucast w, ucast (drop_bit 8 w), ucast (drop_bit 16 w), ucast (drop_bit 24 w)]"

lemma memcmp_irrefl: "\<not> memcmp_less xs xs"
  by (induction xs) auto

lemma memcmp_trans: "memcmp_less xs ys \<Longrightarrow> memcmp_less ys zs \<Longrightarrow> memcmp_less xs zs"
proof (induction xs ys arbitrary: zs rule: memcmp_less.induct)
  case (1 x xs y ys)
  then show ?case by (cases zs) auto
qed auto

lemma memcmp_total: "length xs = length ys \<Longrightarrow> memcmp_less xs ys \<or> xs = ys \<or> memcmp_less ys xs"
  by (induction xs ys rule: list_induct2) auto

lemma le_bytes_inj: "le_bytes v = le_bytes w \<longleftrightarrow> v = w"
proof
  assume "le_bytes v = le_bytes w"
  then have e: "(ucast v :: u8) = ucast w" "(ucast (drop_bit 8 v) :: u8) = ucast (drop_bit 8 w)"
    "(ucast (drop_bit 16 v) :: u8) = ucast (drop_bit 16 w)" "(ucast (drop_bit 24 v) :: u8) = ucast (drop_bit 24 w)"
    by (simp_all add: le_bytes_def)
  have byte: "bit v (k + n) = bit w (k + n)"
    if "(ucast (drop_bit k v) :: u8) = ucast (drop_bit k w)" "n < 8" for k n
    using arg_cong[OF that(1), of "\<lambda>b. bit b n"] that(2) by (simp add: bit_simps)
  show "v = w"
  proof (rule bit_word_eqI)
    fix n assume "n < LENGTH(32)"
    then consider "n < 8" | "8 \<le> n" "n < 16" | "16 \<le> n" "n < 24" | "24 \<le> n" "n < 32" by force
    then show "bit v n = bit w n"
    proof cases
      case 1 then show ?thesis using byte[of 0 n] e(1) by simp
    next
      case 2 then show ?thesis using byte[of 8 "n - 8"] e(2) by simp
    next
      case 3 then show ?thesis using byte[of 16 "n - 16"] e(3) by simp
    next
      case 4 then show ?thesis using byte[of 24 "n - 24"] e(4) by simp
    qed
  qed
qed simp

fun ipx_bytes :: "IPvXAddress \<Rightarrow> u8 list" where
  "ipx_bytes (IPv4 d) = []"
| "ipx_bytes (IPv6 a b c d) = le_bytes a @ le_bytes b @ le_bytes c @ le_bytes d"

fun ipx_less :: "IPvXAddress \<Rightarrow> IPvXAddress \<Rightarrow> bool" where
  "ipx_less (IPv4 d) (IPv4 d') = (d < d')"
| "ipx_less (IPv4 d) (IPv6 a' b' c' d') = True"
| "ipx_less (IPv6 a b c d) (IPv4 d') = False"
| "ipx_less (IPv6 a b c d) (IPv6 a' b' c' d') =
     memcmp_less (ipx_bytes (IPv6 a b c d)) (ipx_bytes (IPv6 a' b' c' d'))"

instantiation IPvXAddress :: linorder
begin

definition less_IPvXAddress :: "IPvXAddress \<Rightarrow> IPvXAddress \<Rightarrow> bool" where
  "less_IPvXAddress = ipx_less"

definition less_eq_IPvXAddress :: "IPvXAddress \<Rightarrow> IPvXAddress \<Rightarrow> bool" where
  "less_eq_IPvXAddress a b \<longleftrightarrow> a = b \<or> a < b"

instance
proof
  fix x y z :: IPvXAddress
  have irrefl: "\<not> x < x" for x :: IPvXAddress
    by (cases x) (simp_all add: less_IPvXAddress_def memcmp_irrefl del: ipx_bytes.simps)
  have trans: "x < z" if "x < y" "y < z" for x y z :: IPvXAddress
    using that by (cases x; cases y; cases z) (auto simp: less_IPvXAddress_def intro: memcmp_trans simp del: ipx_bytes.simps)
  have total: "x < y \<or> x = y \<or> y < x" for x y :: IPvXAddress
  proof (cases x; cases y)
    fix a b c d a' b' c' d'
    assume "x = IPv6 a b c d" "y = IPv6 a' b' c' d'"
    moreover have "length (ipx_bytes (IPv6 a b c d)) = length (ipx_bytes (IPv6 a' b' c' d'))"
      by (simp add: le_bytes_def)
    moreover have "(ipx_bytes (IPv6 a b c d) = ipx_bytes (IPv6 a' b' c' d')) =
        (a = a' \<and> b = b' \<and> c = c' \<and> d = d')"
      using le_bytes_inj by (auto simp: append_eq_append_conv le_bytes_def)
    ultimately show ?thesis using memcmp_total by (fastforce simp: less_IPvXAddress_def)
  qed (auto simp: less_IPvXAddress_def)
  show "x < y \<longleftrightarrow> x \<le> y \<and> \<not> y \<le> x"
    using irrefl trans by (auto simp: less_eq_IPvXAddress_def)
  show "x \<le> x" by (simp add: less_eq_IPvXAddress_def)
  show "x \<le> y \<Longrightarrow> y \<le> z \<Longrightarrow> x \<le> z" using trans by (auto simp: less_eq_IPvXAddress_def)
  show "x \<le> y \<Longrightarrow> y \<le> x \<Longrightarrow> x = y" using irrefl trans by (auto simp: less_eq_IPvXAddress_def)
  show "x \<le> y \<or> y \<le> x" using total by (auto simp: less_eq_IPvXAddress_def)
qed

end

end
