(* ===== verification/Ephemeral_Ports.thy ===== *)
theory Ephemeral_Ports
  imports TCP_Prelude
begin

text \<open>
  The search for a free ephemeral port, which \<^verbatim>\<open>TCP.cc\<close> and \<^verbatim>\<open>UDP.cc\<close> write out in the same
  way: it starts behind the port that was given out last, wraps around at the end of the range, and
  gives up when it is back at the start. The locale \<open>port_allocator\<close> is what both modules promise of
  their \<^verbatim>\<open>getEphemeralPort\<close>: the search ends, finds a port that is not in use when there is one,
  and fails otherwise.
\<close>

definition EPHEMERAL_PORTRANGE_START :: nat where "EPHEMERAL_PORTRANGE_START = 1024"
definition EPHEMERAL_PORTRANGE_END :: nat where "EPHEMERAL_PORTRANGE_END = 5000"

definition next_ephemeral :: "u16 \<Rightarrow> u16" where
  "next_ephemeral p =
     (let p' = p + 1
      in if p' = of_nat EPHEMERAL_PORTRANGE_END then of_nat EPHEMERAL_PORTRANGE_START else p')"

text \<open>The loop; it may not end when the start lies outside the port range.\<close>

partial_function (option) ephemeral_loop :: "(u16 \<Rightarrow> bool) \<Rightarrow> u16 \<Rightarrow> u16 \<Rightarrow> u16 res option" where
  "ephemeral_loop used searchUntil p =
     (if used p then
        if p = searchUntil
        then Some (Inl (Runtime_error ''Ephemeral port range exhausted, all ports occupied''))
        else ephemeral_loop used searchUntil (next_ephemeral p)
      else Some (Inr p))"

text \<open>The ports of the range, in the order in which the search visits them.\<close>

definition eport :: "nat \<Rightarrow> u16" where
  "eport k = of_nat (1024 + k mod 3976)"

lemma unat_eport: "unat (eport k) = 1024 + k mod 3976"
proof -
  have "k mod 3976 < 3976" by simp
  then show ?thesis unfolding eport_def unsigned_of_nat take_bit_eq_mod by simp
qed

lemma eport_eq_iff: "eport i = eport j \<longleftrightarrow> i mod 3976 = j mod 3976"
  using unat_eport[of i] unat_eport[of j] by (metis add_left_cancel word_unat_eq_iff)

lemma eport_range: "1024 \<le> unat (eport k) \<and> unat (eport k) < 5000"
  by (simp add: unat_eport)

lemma eport_surj: "1024 \<le> unat p \<Longrightarrow> unat p < 5000 \<Longrightarrow> p = eport (unat p - 1024)"
  using unat_eport[of "unat p - 1024"] by (simp add: word_unat_eq_iff)

lemma next_eport: "next_ephemeral (eport k) = eport (Suc k)"
proof (rule word_unat_eq_iff[THEN iffD2])
  have u: "unat (eport k + 1) = unat (eport k) + 1"
    using eport_range[of k] by (subst unat_word_ariths(1)) simp
  show "unat (next_ephemeral (eport k)) = unat (eport (Suc k))"
  proof (cases "k mod 3976 = 3975")
    case True
    then have "eport k + 1 = 5000" using u unat_eport[of k] by (simp add: word_unat_eq_iff)
    then show ?thesis
      using True unat_eport[of "Suc k"] mod_Suc[of k 3976]
      by (simp add: next_ephemeral_def EPHEMERAL_PORTRANGE_END_def EPHEMERAL_PORTRANGE_START_def)
  next
    case False
    then have "eport k + 1 \<noteq> 5000" using u unat_eport[of k] by (simp add: word_unat_eq_iff)
    then show ?thesis
      using False u unat_eport[of "Suc k"] unat_eport[of k] mod_Suc[of k 3976]
      by (simp add: next_ephemeral_def EPHEMERAL_PORTRANGE_END_def)
  qed
qed

text \<open>From any port of the range, going on for as many steps as are needed reaches every other one.\<close>

lemma eport_reaches: "\<exists>j \<le> 3975. eport (k + j) = eport m"
proof (intro exI conjI)
  define j where "j = (m + (3976 - k mod 3976)) mod 3976"
  show "j \<le> 3975" by (simp add: j_def less_Suc_eq_le[symmetric])
  have "(k + j) mod 3976 = (k mod 3976 + (m + (3976 - k mod 3976))) mod 3976"
    unfolding j_def by (metis mod_add_left_eq mod_add_right_eq)
  also have "k mod 3976 + (m + (3976 - k mod 3976)) = m + 3976"
    using mod_less_divisor[of 3976 k] by linarith
  finally show "eport (k + j) = eport m" by (simp add: eport_eq_iff)
qed

lemma ephemeral_loop_ok:
  assumes "d < 3976"
  shows "\<exists>r. ephemeral_loop used (eport (k + d)) (eport k) = Some r \<and>
    (case r of
       Inr p \<Rightarrow> \<not> used p \<and> (\<exists>j\<le>d. p = eport (k + j))
     | Inl e \<Rightarrow> e = Runtime_error ''Ephemeral port range exhausted, all ports occupied''
         \<and> (\<forall>j\<le>d. used (eport (k + j))))"
  using assms
proof (induction d arbitrary: k)
  case 0
  show ?case by (subst ephemeral_loop.simps) auto
next
  case (Suc d)
  show ?case
  proof (cases "used (eport k)")
    case False
    then show ?thesis by (subst ephemeral_loop.simps) (auto intro: exI[of _ 0])
  next
    case True
    have "\<not> 3976 dvd Suc d" using Suc.prems by (auto dest: dvd_imp_le)
    then have "eport k \<noteq> eport (k + Suc d)"
      by (metis eport_eq_iff add_diff_cancel_left' le_add1 mod_eq_dvd_iff_nat)
    then have step: "ephemeral_loop used (eport (k + Suc d)) (eport k) =
        ephemeral_loop used (eport (Suc k + d)) (eport (Suc k))"
      using True next_eport[of k] by (subst ephemeral_loop.simps) simp
    obtain r where r: "ephemeral_loop used (eport (Suc k + d)) (eport (Suc k)) = Some r"
      "case r of
         Inr p \<Rightarrow> \<not> used p \<and> (\<exists>j\<le>d. p = eport (Suc k + j))
       | Inl e \<Rightarrow> e = Runtime_error ''Ephemeral port range exhausted, all ports occupied''
           \<and> (\<forall>j\<le>d. used (eport (Suc k + j)))"
      using Suc.IH[of "Suc k"] Suc.prems by auto
    have shift: "(\<exists>j\<le>Suc d. p = eport (k + j))" if "\<exists>j\<le>d. p = eport (Suc k + j)" for p
      using that by (metis Suc_le_mono add_Suc add_Suc_right)
    have all: "used (eport (k + j))" if "\<forall>j\<le>d. used (eport (Suc k + j))" "j \<le> Suc d" for j
      using that True by (cases j) auto
    show ?thesis using step r shift all by (auto split: sum.splits)
  qed
qed

locale port_allocator =
  fixes last_port :: "'s \<Rightarrow> u16" and in_use :: "'s \<Rightarrow> u16 \<Rightarrow> bool"
    and set_last :: "u16 \<Rightarrow> 's \<Rightarrow> 's" and getPort :: "'s \<Rightarrow> ('s \<times> u16) res option"
  assumes getPort_eq:
    "getPort s = map_option (\<lambda>r. bind_res r (\<lambda>q. Inr (set_last q s, q)))
       (ephemeral_loop (in_use s) (last_port s) (next_ephemeral (last_port s)))"
begin

lemma getPort_total:
  assumes "1024 \<le> unat (last_port s)" "unat (last_port s) < 5000"
  shows "\<exists>r. getPort s = Some r \<and>
    (case r of
       Inr (s', p) \<Rightarrow> s' = set_last p s \<and> \<not> in_use s p \<and> 1024 \<le> unat p \<and> unat p < 5000
     | Inl e \<Rightarrow> \<forall>p. 1024 \<le> unat p \<and> unat p < 5000 \<longrightarrow> in_use s p)"
proof -
  define k where "k = unat (last_port s) - 1024"
  have last: "last_port s = eport k" using eport_surj[OF assms] by (simp add: k_def)
  have until: "eport k = eport (Suc k + 3975)" by (simp add: eport_eq_iff)
  obtain r where r: "ephemeral_loop (in_use s) (eport k) (eport (Suc k)) = Some r"
    "case r of
       Inr p \<Rightarrow> \<not> in_use s p \<and> (\<exists>j\<le>3975. p = eport (Suc k + j))
     | Inl e \<Rightarrow> e = Runtime_error ''Ephemeral port range exhausted, all ports occupied''
         \<and> (\<forall>j\<le>3975. in_use s (eport (Suc k + j)))"
    using ephemeral_loop_ok[of 3975 "in_use s" "Suc k"] until by auto
  have get: "getPort s = Some (bind_res r (\<lambda>q. Inr (set_last q s, q)))"
    using r(1) by (simp add: getPort_eq last next_eport)
  show ?thesis
  proof (cases r)
    case (Inr p)
    then show ?thesis using get r(2) eport_range by auto
  next
    case (Inl e)
    have "in_use s p" if q: "1024 \<le> unat p" "unat p < 5000" for p
      using r(2) Inl eport_reaches[of "Suc k" "unat p - 1024"] eport_surj[OF q] by auto
    then show ?thesis using get Inl by simp
  qed
qed

lemma getPort_free:
  assumes "getPort s = Some (Inr (s', p))" "1024 \<le> unat (last_port s)" "unat (last_port s) < 5000"
  shows "s' = set_last p s \<and> \<not> in_use s p \<and> 1024 \<le> unat p \<and> unat p < 5000"
  using getPort_total[OF assms(2,3)] assms(1) by auto

lemma getPort_error:
  assumes "getPort s = Some (Inl e)" "1024 \<le> unat (last_port s)" "unat (last_port s) < 5000"
  shows "1024 \<le> unat p \<Longrightarrow> unat p < 5000 \<Longrightarrow> in_use s p"
  using getPort_total[OF assms(2,3)] assms(1) by auto

end

end
