(* ===== verification/TCP_Main.thy ===== *)
theory TCP_Main
  imports IPvX_Address Ephemeral_Ports
begin

text \<open>
  The TCP module (\<^verbatim>\<open>transport/tcp/TCP.cc\<close>, \<^verbatim>\<open>TCP.h\<close>): the tables that map an
  application's connection identifier and a socket pair to a connection, the bookkeeping of
  ephemeral ports, and the operations on them. Connections are objects on a heap, and the tables
  hold pointers to them; the record \<open>ConnId\<close> has the public members of a connection that the
  module reads and writes, and the record of a whole connection extends it.

  The lemmas show that the tables, the heap and the multiset of used ports stay consistent under
  every operation, that demultiplexing prefers the more specific entry, and that the search for
  a free ephemeral port ends, finds a free port when there is one, and fails otherwise.
\<close>

section \<open>The module's state\<close>

record AppConnKey =
  ack_appGateIndex :: int
  ack_connId :: int

record SockPair =
  sp_localAddr :: IPvXAddress
  sp_remoteAddr :: IPvXAddress
  sp_localPort :: int
  sp_remotePort :: int

text \<open>The identification members of \<^verbatim>\<open>TCPConnection\<close>; a port is -1 when unspecified.\<close>

record ConnId =
  appGateIndex :: int
  connId :: int
  localAddr :: IPvXAddress
  remoteAddr :: IPvXAddress
  localPort :: int
  remotePort :: int

type_synonym conn_ptr = nat

record 'c TCP =
  tcpAppConnMap :: "AppConnKey \<Rightarrow> conn_ptr option"
  tcpConnMap :: "SockPair \<Rightarrow> conn_ptr option"
  lastEphemeralPort :: u16
  usedEphemeralPorts :: "u16 multiset"
  conns :: "conn_ptr \<Rightarrow> 'c option"

definition sock_pair :: "'a ConnId_scheme \<Rightarrow> SockPair" where
  "sock_pair c = \<lparr>sp_localAddr = localAddr c, sp_remoteAddr = remoteAddr c,
                  sp_localPort = localPort c, sp_remotePort = remotePort c\<rparr>"

definition app_key :: "'a ConnId_scheme \<Rightarrow> AppConnKey" where
  "app_key c = \<lparr>ack_appGateIndex = appGateIndex c, ack_connId = connId c\<rparr>"

section \<open>Demultiplexing\<close>

definition findConnForSegment :: "'c TCP \<Rightarrow> u16 \<Rightarrow> u16 \<Rightarrow> IPvXAddress \<Rightarrow> IPvXAddress \<Rightarrow> conn_ptr option" where
  "findConnForSegment t srcPort destPort srcAddr destAddr =
     (let key = \<lparr>sp_localAddr = destAddr, sp_remoteAddr = srcAddr,
                 sp_localPort = uint destPort, sp_remotePort = uint srcPort\<rparr>
      in case tcpConnMap t key of
           Some c \<Rightarrow> Some c
         | None \<Rightarrow>
             (case tcpConnMap t (key\<lparr>sp_localAddr := unspecified_addr\<rparr>) of
                Some c \<Rightarrow> Some c
              | None \<Rightarrow>
                  let key2 = key\<lparr>sp_remoteAddr := unspecified_addr, sp_remotePort := -1\<rparr>
                  in case tcpConnMap t key2 of
                       Some c \<Rightarrow> Some c
                     | None \<Rightarrow> tcpConnMap t (key2\<lparr>sp_localAddr := unspecified_addr\<rparr>)))"

definition findConnForApp :: "'c TCP \<Rightarrow> int \<Rightarrow> int \<Rightarrow> conn_ptr option" where
  "findConnForApp t gate cid = tcpAppConnMap t \<lparr>ack_appGateIndex = gate, ack_connId = cid\<rparr>"

section \<open>Ephemeral ports\<close>

definition getEphemeralPort :: "'c TCP \<Rightarrow> ('c TCP \<times> u16) res option" where
  "getEphemeralPort t =
     (let searchUntil = lastEphemeralPort t;
          p = next_ephemeral (lastEphemeralPort t)
      in map_option (\<lambda>r. bind_res r (\<lambda>q. Inr (t\<lparr>lastEphemeralPort := q\<rparr>, q)))
           (ephemeral_loop (\<lambda>q. q \<in># usedEphemeralPorts t) searchUntil p))"

section \<open>Registering connections\<close>

definition set_sock_pair :: "IPvXAddress \<Rightarrow> IPvXAddress \<Rightarrow> int \<Rightarrow> int
    \<Rightarrow> 'a ConnId_scheme \<Rightarrow> 'a ConnId_scheme" where
  "set_sock_pair la ra lp rp c = c\<lparr>localAddr := la, remoteAddr := ra, localPort := lp, remotePort := rp\<rparr>"

definition in_ephemeral_range :: "int \<Rightarrow> bool" where
  "in_ephemeral_range p \<longleftrightarrow>
     int EPHEMERAL_PORTRANGE_START \<le> p \<and> p < int EPHEMERAL_PORTRANGE_END"

definition addSockPair :: "('a ConnId_scheme) TCP \<Rightarrow> conn_ptr \<Rightarrow> IPvXAddress \<Rightarrow> IPvXAddress
    \<Rightarrow> int \<Rightarrow> int \<Rightarrow> ('a ConnId_scheme) TCP res" where
  "addSockPair t conn la ra lp rp =
     bind_res (deref (conns t conn)) (\<lambda>c.
       let c' = set_sock_pair la ra lp rp c;
           key = sock_pair c'
       in case tcpConnMap t key of
            Some _ \<Rightarrow> Inl (Runtime_error ''Address already in use'')
          | None \<Rightarrow>
              Inr (t\<lparr>conns := (conns t)(conn \<mapsto> c'),
                     tcpConnMap := (tcpConnMap t)(key \<mapsto> conn),
                     usedEphemeralPorts :=
                       (if in_ephemeral_range lp
                        then add_mset (of_int lp) (usedEphemeralPorts t) else usedEphemeralPorts t)\<rparr>))"

definition updateSockPair :: "('a ConnId_scheme) TCP \<Rightarrow> conn_ptr \<Rightarrow> IPvXAddress \<Rightarrow> IPvXAddress
    \<Rightarrow> int \<Rightarrow> int \<Rightarrow> ('a ConnId_scheme) TCP res" where
  "updateSockPair t conn la ra lp rp =
     bind_res (deref (conns t conn)) (\<lambda>c.
       ASSERT (tcpConnMap t (sock_pair c) = Some conn)
         (let m = (tcpConnMap t)(sock_pair c := None)
          in ASSERT (localPort c = lp)
               (let c' = c\<lparr>localAddr := la, remoteAddr := ra, remotePort := rp\<rparr>
                in Inr (t\<lparr>conns := (conns t)(conn \<mapsto> c'),
                          tcpConnMap := m(sock_pair c' \<mapsto> conn)\<rparr>))))"

text \<open>\<open>unique\<close> is the number that \<^verbatim>\<open>ev.getUniqueNumber()\<close> of the simulation kernel returns.\<close>

definition addForkedConnection :: "int \<Rightarrow> ('a ConnId_scheme) TCP \<Rightarrow> conn_ptr \<Rightarrow> conn_ptr
    \<Rightarrow> IPvXAddress \<Rightarrow> IPvXAddress \<Rightarrow> int \<Rightarrow> int \<Rightarrow> ('a ConnId_scheme) TCP res" where
  "addForkedConnection unique t conn newConn la ra lp rp =
     bind_res (updateSockPair t conn la ra lp rp) (\<lambda>t.
     bind_res (deref (conns t newConn)) (\<lambda>n.
     bind_res (addSockPair t newConn (localAddr n) (remoteAddr n) (localPort n) (remotePort n)) (\<lambda>t.
     bind_res (deref (conns t conn)) (\<lambda>c.
     let t = t\<lparr>tcpAppConnMap := (tcpAppConnMap t)(app_key c := None)\<rparr>;
         c' = c\<lparr>connId := unique\<rparr>;
         t = t\<lparr>conns := (conns t)(conn \<mapsto> c'),
               tcpAppConnMap := (tcpAppConnMap t)(app_key c' \<mapsto> conn)\<rparr>
     in bind_res (deref (conns t newConn)) (\<lambda>n.
          Inr (t\<lparr>tcpAppConnMap := (tcpAppConnMap t)(app_key n \<mapsto> newConn)\<rparr>))))))"

definition removeConnection :: "('a ConnId_scheme) TCP \<Rightarrow> conn_ptr \<Rightarrow> ('a ConnId_scheme) TCP res" where
  "removeConnection t conn =
     bind_res (deref (conns t conn)) (\<lambda>c.
       Inr (t\<lparr>tcpAppConnMap := (tcpAppConnMap t)(app_key c := None),
              tcpConnMap := (tcpConnMap t)(sock_pair c := None),
              usedEphemeralPorts := usedEphemeralPorts t - {#of_int (localPort c)#},
              conns := (conns t)(conn := None)\<rparr>))"

definition tcp_reset :: "'c TCP \<Rightarrow> 'c TCP" where
  "tcp_reset t = t\<lparr>conns := (\<lambda>p. if p \<in> ran (tcpAppConnMap t) then None else conns t p),
     tcpAppConnMap := (\<lambda>_. None), tcpConnMap := (\<lambda>_. None),
     usedEphemeralPorts := {#}, lastEphemeralPort := of_nat EPHEMERAL_PORTRANGE_START\<rparr>"

section \<open>The search for a free port\<close>

interpretation tcp_ports: port_allocator lastEphemeralPort "\<lambda>t p. p \<in># usedEphemeralPorts t"
  "\<lambda>p t. t\<lparr>lastEphemeralPort := p\<rparr>" getEphemeralPort
  by unfold_locales (simp add: getEphemeralPort_def Let_def)

text \<open>C27: The search for an ephemeral port ends; it fails only when every port of the range is used.\<close>

theorem getEphemeralPort_total:
  assumes "1024 \<le> unat (lastEphemeralPort t)" "unat (lastEphemeralPort t) < 5000"
  shows "\<exists>r. getEphemeralPort t = Some r \<and>
    (case r of
       Inr (t', p) \<Rightarrow> t' = t\<lparr>lastEphemeralPort := p\<rparr> \<and> p \<notin># usedEphemeralPorts t
         \<and> 1024 \<le> unat p \<and> unat p < 5000
     | Inl e \<Rightarrow> \<forall>p. 1024 \<le> unat p \<and> unat p < 5000 \<longrightarrow> p \<in># usedEphemeralPorts t)"
  using tcp_ports.getPort_total[OF assms] .

definition tcp_example :: "ConnId TCP" where
  "tcp_example = \<lparr>tcpAppConnMap = (\<lambda>_. None), tcpConnMap = (\<lambda>_. None), lastEphemeralPort = 4999,
     usedEphemeralPorts = {#1024#}, conns = (\<lambda>_. None)\<rparr>"

theorem getEphemeralPort_total_witness: "\<exists>r. getEphemeralPort tcp_example = Some r"
proof -
  have "1024 \<le> unat (lastEphemeralPort tcp_example)" "unat (lastEphemeralPort tcp_example) < 5000"
    by (simp_all add: tcp_example_def)
  from getEphemeralPort_total[OF this] show ?thesis by (elim exE conjE) (rule exI)
qed

section \<open>Consistency of the tables\<close>

definition registered_ports :: "(SockPair \<Rightarrow> conn_ptr option) \<Rightarrow> u16 multiset" where
  "registered_ports m = image_mset (\<lambda>k. of_int (sp_localPort k))
     (mset_set {k \<in> dom m. in_ephemeral_range (sp_localPort k)})"

text \<open>
  Every entry of a table points to a connection that has the entry's key; the used ephemeral
  ports are those of the registered socket pairs, with multiplicity.
\<close>

definition tcp_inv :: "('a ConnId_scheme) TCP \<Rightarrow> bool" where
  "tcp_inv t \<longleftrightarrow> finite (dom (tcpConnMap t))
     \<and> (\<forall>k p. tcpConnMap t k = Some p \<longrightarrow> (\<exists>c. conns t p = Some c \<and> sock_pair c = k))
     \<and> (\<forall>k p. tcpAppConnMap t k = Some p \<longrightarrow> (\<exists>c. conns t p = Some c \<and> app_key c = k))
     \<and> (\<forall>k p. tcpConnMap t k = Some p \<longrightarrow> -1 \<le> sp_localPort k \<and> sp_localPort k < 65536)
     \<and> usedEphemeralPorts t = registered_ports (tcpConnMap t)"

lemma sock_pair_set: "sock_pair (set_sock_pair la ra lp rp c) =
    \<lparr>sp_localAddr = la, sp_remoteAddr = ra, sp_localPort = lp, sp_remotePort = rp\<rparr>"
  by (simp add: sock_pair_def set_sock_pair_def)

lemma app_key_set: "app_key (set_sock_pair la ra lp rp c) = app_key c"
  by (simp add: app_key_def set_sock_pair_def)

lemma registered_ports_upd:
  assumes "finite (dom m)" "m k = None"
  shows "registered_ports (m(k \<mapsto> p)) = (if in_ephemeral_range (sp_localPort k)
    then add_mset (of_int (sp_localPort k)) (registered_ports m) else registered_ports m)"
proof -
  let ?S = "{j \<in> dom m. in_ephemeral_range (sp_localPort j)}"
  have "{j \<in> dom (m(k \<mapsto> p)). in_ephemeral_range (sp_localPort j)} =
      (if in_ephemeral_range (sp_localPort k) then insert k ?S else ?S)"
    by auto
  moreover have "mset_set (insert k ?S) = add_mset k (mset_set ?S)"
    using assms by (intro mset_set.insert) auto
  ultimately show ?thesis by (simp only: registered_ports_def) simp
qed

lemma registered_ports_del:
  assumes "finite (dom m)" "m k = Some p"
  shows "registered_ports (m(k := None)) = (if in_ephemeral_range (sp_localPort k)
    then registered_ports m - {#of_int (sp_localPort k)#} else registered_ports m)"
proof -
  have "m = (m(k := None))(k \<mapsto> p)" using assms(2) by auto
  then show ?thesis
    using registered_ports_upd[of "m(k := None)" k p] assms(1) by (auto split: if_splits)
qed

lemma mset_set_sub: "set_mset (mset_set S) \<subseteq> S"
  by (cases "finite S") auto

lemma registered_ports_range:
  assumes "x \<in># registered_ports m"
  shows "1024 \<le> unat x \<and> unat x < 5000"
proof -
  obtain k :: SockPair where k: "x = of_int (sp_localPort k)" "in_ephemeral_range (sp_localPort k)"
  proof -
    obtain k :: SockPair where "k \<in># mset_set {k \<in> dom m. in_ephemeral_range (sp_localPort k)}"
      "x = of_int (sp_localPort k)"
      using assms unfolding registered_ports_def by auto
    then show thesis
      using that[of k] mset_set_sub[of "{k \<in> dom m. in_ephemeral_range (sp_localPort k)}"]
      by auto
  qed
  then have "uint x = sp_localPort k"
    by (simp add: in_ephemeral_range_def EPHEMERAL_PORTRANGE_START_def EPHEMERAL_PORTRANGE_END_def
        uint_word_of_int_eq take_bit_eq_mod)
  then show ?thesis
    using k(2) unfolding in_ephemeral_range_def EPHEMERAL_PORTRANGE_START_def
        EPHEMERAL_PORTRANGE_END_def unat_eq_nat_uint by linarith
qed

text \<open>A server listening on port 80, and its clone that is not yet registered, for the witnesses.\<close>

definition listener :: ConnId where
  "listener = \<lparr>appGateIndex = 0, connId = 7, localAddr = IPv4 10, remoteAddr = unspecified_addr,
     localPort = 80, remotePort = -1\<rparr>"

definition server_example :: "ConnId TCP" where
  "server_example = \<lparr>tcpAppConnMap = [app_key listener \<mapsto> 1], tcpConnMap = [sock_pair listener \<mapsto> 1],
     lastEphemeralPort = 1024, usedEphemeralPorts = {#}, conns = [1 \<mapsto> listener, 2 \<mapsto> listener]\<rparr>"

lemma server_example_inv: "tcp_inv server_example"
proof -
  have "{k \<in> dom (tcpConnMap server_example). in_ephemeral_range (sp_localPort k)} = {}"
    by (auto simp: server_example_def sock_pair_def listener_def in_ephemeral_range_def
        EPHEMERAL_PORTRANGE_START_def split: if_splits)
  then have "registered_ports (tcpConnMap server_example) = {#}"
    unfolding registered_ports_def by (simp only:) simp
  moreover have "usedEphemeralPorts server_example = {#}" by (simp add: server_example_def)
  ultimately show ?thesis
    unfolding tcp_inv_def
    by (simp only:) (auto simp: server_example_def sock_pair_def listener_def split: if_splits)
qed

lemmas server_example_eval = server_example_def sock_pair_def listener_def app_key_def

text \<open>Registering a connection keeps the tables consistent and makes it findable.\<close>

theorem addSockPair_inv:
  assumes "tcp_inv t" "conns t p = Some c" "\<forall>k. tcpConnMap t k \<noteq> Some p" "-1 \<le> lp" "lp < 65536"
    and "addSockPair t p la ra lp rp = Inr t'"
  shows "tcp_inv t' \<and> (\<exists>c'. conns t' p = Some c' \<and> sock_pair c' =
      \<lparr>sp_localAddr = la, sp_remoteAddr = ra, sp_localPort = lp, sp_remotePort = rp\<rparr>
      \<and> tcpConnMap t' (sock_pair c') = Some p)"
proof -
  let ?c = "set_sock_pair la ra lp rp c"
  let ?k = "\<lparr>sp_localAddr = la, sp_remoteAddr = ra, sp_localPort = lp, sp_remotePort = rp\<rparr>"
  have inv: "finite (dom (tcpConnMap t))"
    "\<And>k p. tcpConnMap t k = Some p \<Longrightarrow> \<exists>c. conns t p = Some c \<and> sock_pair c = k"
    "\<And>k p. tcpAppConnMap t k = Some p \<Longrightarrow> \<exists>c. conns t p = Some c \<and> app_key c = k"
    "\<And>k p. tcpConnMap t k = Some p \<Longrightarrow> -1 \<le> sp_localPort k \<and> sp_localPort k < 65536"
    "usedEphemeralPorts t = registered_ports (tcpConnMap t)"
    using assms(1) by (auto simp: tcp_inv_def)
  have n: "tcpConnMap t ?k = None" and t': "t' = t\<lparr>conns := (conns t)(p \<mapsto> ?c),
      tcpConnMap := (tcpConnMap t)(?k \<mapsto> p),
      usedEphemeralPorts := (if in_ephemeral_range lp
        then add_mset (of_int lp) (usedEphemeralPorts t) else usedEphemeralPorts t)\<rparr>"
    using assms(2,6) by (auto simp: addSockPair_def Let_def sock_pair_set split: option.splits)
  have "usedEphemeralPorts t' = registered_ports (tcpConnMap t')"
    using registered_ports_upd[OF inv(1) n, of p] inv(5) by (simp add: t')
  moreover have "\<exists>c. conns t' q = Some c \<and> sock_pair c = k" if "tcpConnMap t' k = Some q" for k q
    using that inv(2)[of k q] assms(3) by (auto simp: t' sock_pair_set split: if_splits)
  moreover have "\<exists>c. conns t' q = Some c \<and> app_key c = k" if "tcpAppConnMap t' k = Some q" for k q
    using that inv(3)[of k q] assms(2) by (auto simp: t' app_key_set)
  moreover have "-1 \<le> sp_localPort k \<and> sp_localPort k < 65536" if "tcpConnMap t' k = Some q" for k q
    using that inv(4)[of k q] assms(4,5) by (auto simp: t' split: if_splits)
  moreover have "finite (dom (tcpConnMap t'))" using inv(1) by (simp add: t')
  ultimately have "tcp_inv t'" by (simp add: tcp_inv_def)
  then show ?thesis by (simp add: t' sock_pair_set)
qed

theorem addSockPair_inv_witness:
  "\<exists>t'. addSockPair server_example 2 (IPv4 10) (IPv4 11) 80 4711 = Inr t' \<and> tcp_inv t'"
proof -
  have c: "conns server_example 2 = Some listener" by (simp add: server_example_eval)
  have n: "\<forall>k. tcpConnMap server_example k \<noteq> Some 2" by (auto simp: server_example_eval split: if_splits)
  obtain t' where t': "addSockPair server_example 2 (IPv4 10) (IPv4 11) 80 4711 = Inr t'"
    by (simp add: addSockPair_def c Let_def sock_pair_set)
       (simp add: server_example_eval)
  then show ?thesis using addSockPair_inv[OF server_example_inv c n, of 80 "IPv4 10" "IPv4 11" 4711 t'] by auto
qed

text \<open>C26: Removing a connection frees its entries and its port, once.\<close>

theorem removeConnection_inv:
  assumes "tcp_inv t" "conns t p = Some c" "tcpConnMap t (sock_pair c) = Some p"
  shows "\<exists>t'. removeConnection t p = Inr t' \<and> tcp_inv t' \<and> conns t' p = None
    \<and> (\<forall>k. tcpConnMap t' k \<noteq> Some p) \<and> (\<forall>k. tcpAppConnMap t' k \<noteq> Some p)"
proof -
  let ?m = "(tcpConnMap t)(sock_pair c := None)"
  define t' where "t' = t\<lparr>tcpAppConnMap := (tcpAppConnMap t)(app_key c := None), tcpConnMap := ?m,
              usedEphemeralPorts := usedEphemeralPorts t - {#of_int (localPort c)#},
              conns := (conns t)(p := None)\<rparr>"
  have inv: "finite (dom (tcpConnMap t))"
    "\<And>k p. tcpConnMap t k = Some p \<Longrightarrow> \<exists>c. conns t p = Some c \<and> sock_pair c = k"
    "\<And>k p. tcpAppConnMap t k = Some p \<Longrightarrow> \<exists>c. conns t p = Some c \<and> app_key c = k"
    "\<And>k p. tcpConnMap t k = Some p \<Longrightarrow> -1 \<le> sp_localPort k \<and> sp_localPort k < 65536"
    "usedEphemeralPorts t = registered_ports (tcpConnMap t)"
    using assms(1) by (auto simp: tcp_inv_def)
  have lp: "sp_localPort (sock_pair c) = localPort c" by (simp add: sock_pair_def)
  have range: "-1 \<le> localPort c \<and> localPort c < 65536" using inv(4)[OF assms(3)] lp by simp
  have "usedEphemeralPorts t - {#of_int (localPort c)#} = registered_ports ?m"
  proof (cases "in_ephemeral_range (localPort c)")
    case True
    then show ?thesis using registered_ports_del[OF inv(1) assms(3)] inv(5) lp by simp
  next
    case False
    have "(of_int (localPort c) :: u16) \<notin># registered_ports (tcpConnMap t)"
    proof
      assume "(of_int (localPort c) :: u16) \<in># registered_ports (tcpConnMap t)"
      then have r: "1024 \<le> uint (of_int (localPort c) :: u16)" "uint (of_int (localPort c) :: u16) < 5000"
        using registered_ports_range[of "of_int (localPort c)" "tcpConnMap t"]
        unfolding unat_eq_nat_uint by linarith+
      moreover have "uint (of_int (localPort c) :: u16) = localPort c mod 65536"
        by (simp add: uint_word_of_int_eq take_bit_eq_mod)
      moreover have "localPort c = -1 \<or> localPort c mod 65536 = localPort c"
        using range by (cases "localPort c = -1") (simp_all add: mod_pos_pos_trivial)
      ultimately show False using False
        by (auto simp: in_ephemeral_range_def EPHEMERAL_PORTRANGE_START_def EPHEMERAL_PORTRANGE_END_def)
    qed
    then show ?thesis
      using registered_ports_del[OF inv(1) assms(3)] inv(5) lp False by (simp add: diff_single_trivial)
  qed
  moreover have "\<exists>c. conns t' q = Some c \<and> sock_pair c = k" if "tcpConnMap t' k = Some q" for k q
    using that inv(2)[of k q] assms(2) by (auto simp: t'_def split: if_splits)
  moreover have "\<exists>c. conns t' q = Some c \<and> app_key c = k" if "tcpAppConnMap t' k = Some q" for k q
    using that inv(3)[of k q] assms(2) by (auto simp: t'_def split: if_splits)
  moreover have "-1 \<le> sp_localPort k \<and> sp_localPort k < 65536" if "tcpConnMap t' k = Some q" for k q
    using that inv(4)[of k q] by (auto simp: t'_def split: if_splits)
  moreover have "finite (dom ?m)" using inv(1) by simp
  ultimately have "tcp_inv t'" by (simp add: tcp_inv_def t'_def)
  moreover have "removeConnection t p = Inr t'" using assms(2) by (simp add: removeConnection_def t'_def)
  moreover have "tcpConnMap t' k \<noteq> Some p" "tcpAppConnMap t' l \<noteq> Some p" for k l
    using inv(2)[of k p] inv(3)[of l p] assms(2) by (auto simp: t'_def)
  ultimately show ?thesis by (auto simp: t'_def)
qed

theorem removeConnection_inv_witness:
  "\<exists>t'. removeConnection server_example 1 = Inr t' \<and> tcp_inv t'"
proof -
  have "conns server_example 1 = Some listener"
    "tcpConnMap server_example (sock_pair listener) = Some 1"
    by (simp_all add: server_example_eval)
  from removeConnection_inv[OF server_example_inv this] show ?thesis by blast
qed

lemma updateSockPair_inv:
  assumes "tcp_inv t" "conns t p = Some c" "tcpConnMap t (sock_pair c) = Some p"
    and "k = \<lparr>sp_localAddr = la, sp_remoteAddr = ra, sp_localPort = localPort c, sp_remotePort = rp\<rparr>"
    and "tcpConnMap t k = None"
  obtains t' where "updateSockPair t p la ra (localPort c) rp = Inr t'" "tcp_inv t'"
    "conns t' = (conns t)(p \<mapsto> c\<lparr>localAddr := la, remoteAddr := ra, remotePort := rp\<rparr>)"
    "tcpConnMap t' = (tcpConnMap t)(sock_pair c := None, k \<mapsto> p)"
    "tcpAppConnMap t' = tcpAppConnMap t"
proof -
  let ?c = "c\<lparr>localAddr := la, remoteAddr := ra, remotePort := rp\<rparr>"
  let ?m = "(tcpConnMap t)(sock_pair c := None)"
  have inv: "finite (dom (tcpConnMap t))"
    "\<And>k p. tcpConnMap t k = Some p \<Longrightarrow> \<exists>c. conns t p = Some c \<and> sock_pair c = k"
    "\<And>k p. tcpAppConnMap t k = Some p \<Longrightarrow> \<exists>c. conns t p = Some c \<and> app_key c = k"
    "\<And>k p. tcpConnMap t k = Some p \<Longrightarrow> -1 \<le> sp_localPort k \<and> sp_localPort k < 65536"
    "usedEphemeralPorts t = registered_ports (tcpConnMap t)"
    using assms(1) by (auto simp: tcp_inv_def)
  have sp: "sock_pair ?c = k" "app_key ?c = app_key c" "sp_localPort k = localPort c"
    "sp_localPort (sock_pair c) = localPort c"
    by (simp_all add: assms(4) sock_pair_def app_key_def)
  have none: "?m k = None" using assms(5) by simp
  have ports: "registered_ports (?m(k \<mapsto> p)) = registered_ports (tcpConnMap t)"
  proof -
    have m: "tcpConnMap t = ?m(sock_pair c \<mapsto> p)" using assms(3) by auto
    have "registered_ports (tcpConnMap t) = (if in_ephemeral_range (localPort c)
        then add_mset (of_int (localPort c)) (registered_ports ?m) else registered_ports ?m)"
      by (subst m) (use registered_ports_upd[of ?m "sock_pair c" p] inv(1) sp in simp)
    then show ?thesis using registered_ports_upd[of ?m k p] inv(1) none sp by simp
  qed
  define t' where "t' = t\<lparr>conns := (conns t)(p \<mapsto> ?c), tcpConnMap := ?m(k \<mapsto> p)\<rparr>"
  have "\<exists>c. conns t' q = Some c \<and> sock_pair c = j" if "tcpConnMap t' j = Some q" for j q
    using that inv(2)[of j q] assms(2) sp by (auto simp: t'_def split: if_splits)
  moreover have "\<exists>c. conns t' q = Some c \<and> app_key c = j" if "tcpAppConnMap t' j = Some q" for j q
    using that inv(3)[of j q] assms(2) sp by (auto simp: t'_def)
  moreover have "-1 \<le> sp_localPort j \<and> sp_localPort j < 65536" if "tcpConnMap t' j = Some q" for j q
    using that inv(4)[of j q] inv(4)[OF assms(3)] sp by (auto simp: t'_def split: if_splits)
  moreover have "finite (dom (tcpConnMap t'))" using inv(1) by (simp add: t'_def)
  moreover have "usedEphemeralPorts t' = registered_ports (tcpConnMap t')"
    using ports inv(5) by (simp add: t'_def)
  ultimately have "tcp_inv t'" by (simp add: tcp_inv_def)
  moreover have "updateSockPair t p la ra (localPort c) rp = Inr t'"
    using assms(2,3) sp by (simp add: updateSockPair_def t'_def Let_def)
  ultimately show thesis by (intro that[of t']) (simp_all add: t'_def)
qed

text \<open>
  C25: When a listening connection forks, the tables stay consistent: the connection takes the full
  socket pair and a new identifier, and its clone takes over the listening entry and the old
  identifier.
\<close>

theorem addForkedConnection_inv:
  assumes "tcp_inv t" "p \<noteq> n" "conns t p = Some c" "conns t n = Some d"
    and "tcpConnMap t (sock_pair c) = Some p" "tcpAppConnMap t (app_key c) = Some p"
    and "\<forall>k. tcpConnMap t k \<noteq> Some n" "\<forall>k. tcpAppConnMap t k \<noteq> Some n"
    and "sock_pair d = sock_pair c" "app_key d = app_key c" "unique \<noteq> connId c"
    and "tcpAppConnMap t \<lparr>ack_appGateIndex = appGateIndex c, ack_connId = unique\<rparr> = None"
    and "k = \<lparr>sp_localAddr = la, sp_remoteAddr = ra, sp_localPort = localPort c, sp_remotePort = rp\<rparr>"
    and "tcpConnMap t k = None"
  shows "\<exists>t'. addForkedConnection unique t p n la ra (localPort c) rp = Inr t' \<and> tcp_inv t'
    \<and> tcpConnMap t' k = Some p \<and> tcpConnMap t' (sock_pair c) = Some n
    \<and> tcpAppConnMap t' (app_key c) = Some n
    \<and> tcpAppConnMap t' \<lparr>ack_appGateIndex = appGateIndex c, ack_connId = unique\<rparr> = Some p"
proof -
  let ?c = "c\<lparr>localAddr := la, remoteAddr := ra, remotePort := rp\<rparr>"
  let ?c' = "?c\<lparr>connId := unique\<rparr>"
  obtain t1 where t1: "updateSockPair t p la ra (localPort c) rp = Inr t1" "tcp_inv t1"
    "conns t1 = (conns t)(p \<mapsto> ?c)" "tcpConnMap t1 = (tcpConnMap t)(sock_pair c := None, k \<mapsto> p)"
    "tcpAppConnMap t1 = tcpAppConnMap t"
    using updateSockPair_inv[OF assms(1,3,5,13,14)] by metis
  have neq: "k \<noteq> sock_pair c" using assms(5,14) by auto
  have d1: "conns t1 n = Some d" "\<forall>k. tcpConnMap t1 k \<noteq> Some n"
    using t1(3,4) assms(2,4,7) by auto
  have free: "tcpConnMap t1 (sock_pair d) = None" using t1(4) assms(9) neq by simp
  have sd: "set_sock_pair (localAddr d) (remoteAddr d) (localPort d) (remotePort d) d = d"
    by (simp add: set_sock_pair_def)
  obtain t2 where t2: "addSockPair t1 n (localAddr d) (remoteAddr d) (localPort d) (remotePort d) = Inr t2"
    "conns t2 = (conns t1)(n \<mapsto> d)" "tcpConnMap t2 = (tcpConnMap t1)(sock_pair d \<mapsto> n)"
    "tcpAppConnMap t2 = tcpAppConnMap t"
    using d1 free t1(5) sd by (simp add: addSockPair_def Let_def)
  have lpd: "-1 \<le> localPort d" "localPort d < 65536"
  proof -
    have "sp_localPort (sock_pair d) = localPort d" by (simp add: sock_pair_def)
    moreover have "-1 \<le> sp_localPort (sock_pair c) \<and> sp_localPort (sock_pair c) < 65536"
      using assms(1,5) by (auto simp: tcp_inv_def)
    ultimately show "-1 \<le> localPort d" "localPort d < 65536" using assms(9) by simp_all
  qed
  have inv2: "tcp_inv t2" using addSockPair_inv[OF t1(2) d1 lpd t2(1)] by blast
  have cp: "conns t2 p = Some ?c" "conns t2 n = Some d" using t2(2) t1(3) assms(2) by simp_all
  have keys: "app_key ?c = app_key c" "sock_pair ?c' = k"
    "app_key ?c' = \<lparr>ack_appGateIndex = appGateIndex c, ack_connId = unique\<rparr>"
    using assms(13) by (simp_all add: app_key_def sock_pair_def)
  have kne: "app_key ?c' \<noteq> app_key c" using assms(11) keys by (simp add: app_key_def)
  define t' where "t' = t2\<lparr>conns := (conns t2)(p \<mapsto> ?c'),
     tcpAppConnMap := (tcpAppConnMap t2)(app_key c := None, app_key ?c' \<mapsto> p, app_key d \<mapsto> n)\<rparr>"
  have run: "addForkedConnection unique t p n la ra (localPort c) rp = Inr t'"
    using t1(1) d1(1) t2(1) cp assms(2) keys(1)
    by (simp add: addForkedConnection_def t'_def Let_def)
  have i2: "\<And>k q. tcpConnMap t2 k = Some q \<Longrightarrow> \<exists>c. conns t2 q = Some c \<and> sock_pair c = k"
    "\<And>k q. tcpAppConnMap t2 k = Some q \<Longrightarrow> \<exists>c. conns t2 q = Some c \<and> app_key c = k"
    using inv2 by (auto simp: tcp_inv_def)
  have "\<exists>c. conns t' q = Some c \<and> sock_pair c = j" if "tcpConnMap t' j = Some q" for j q
  proof -
    have "tcpConnMap t2 j = Some q" using that by (simp add: t'_def)
    then show ?thesis using i2(1)[of j q] cp(1) by (auto simp: t'_def sock_pair_def)
  qed
  moreover have "\<exists>c. conns t' q = Some c \<and> app_key c = j" if "tcpAppConnMap t' j = Some q" for j q
  proof (cases "j = app_key d \<or> j = app_key ?c'")
    case True
    then show ?thesis using that assms(2,10) cp kne by (auto simp: t'_def split: if_splits)
  next
    case False
    then have j: "tcpAppConnMap t2 j = Some q" "j \<noteq> app_key c"
      using that assms(10) by (auto simp: t'_def split: if_splits)
    then have "q \<noteq> p" using i2(2)[of j q] cp(1) keys(1) by auto
    then show ?thesis using i2(2)[OF j(1)] by (simp add: t'_def)
  qed
  ultimately have "tcp_inv t'" using inv2 by (simp add: tcp_inv_def t'_def)
  moreover have "tcpConnMap t' k = Some p \<and> tcpConnMap t' (sock_pair c) = Some n
    \<and> tcpAppConnMap t' (app_key c) = Some n \<and> tcpAppConnMap t' (app_key ?c') = Some p"
    using t2(3) t1(4) neq assms(9,10) kne by (simp add: t'_def)
  ultimately show ?thesis using run keys(3) by auto
qed

theorem addForkedConnection_inv_witness:
  "\<exists>t'. addForkedConnection 8 server_example 1 2 (IPv4 10) (IPv4 11) 80 4711 = Inr t' \<and> tcp_inv t'"
proof -
  have c: "conns server_example 1 = Some listener" "conns server_example 2 = Some listener"
    "tcpConnMap server_example (sock_pair listener) = Some 1"
    "tcpAppConnMap server_example (app_key listener) = Some 1"
    "\<forall>k. tcpConnMap server_example k \<noteq> Some 2" "\<forall>k. tcpAppConnMap server_example k \<noteq> Some 2"
    "localPort listener = 80" "8 \<noteq> connId listener"
    "tcpAppConnMap server_example \<lparr>ack_appGateIndex = appGateIndex listener, ack_connId = 8\<rparr> = None"
    "tcpConnMap server_example \<lparr>sp_localAddr = IPv4 10, sp_remoteAddr = IPv4 11,
       sp_localPort = localPort listener, sp_remotePort = 4711\<rparr> = None"
    by (auto simp: server_example_eval unspecified_addr_def split: if_splits)
  have "(1::nat) \<noteq> 2" by simp
  from addForkedConnection_inv[OF server_example_inv this c(1-6) refl refl c(8,9) refl c(10)] c(7)
  show ?thesis by auto
qed

text \<open>
  A segment is handed to the connection with the most specific matching socket pair.
\<close>

text \<open>How specific a socket pair matches a segment; 0 is no match.\<close>

definition match_rank :: "u16 \<Rightarrow> u16 \<Rightarrow> IPvXAddress \<Rightarrow> IPvXAddress \<Rightarrow> SockPair \<Rightarrow> nat" where
  "match_rank srcPort destPort srcAddr destAddr k =
     (if sp_localPort k \<noteq> uint destPort then 0
      else if sp_remoteAddr k = srcAddr \<and> sp_remotePort k = uint srcPort then
        (if sp_localAddr k = destAddr then 4 else if sp_localAddr k = unspecified_addr then 3 else 0)
      else if sp_remoteAddr k = unspecified_addr \<and> sp_remotePort k = -1 then
        (if sp_localAddr k = destAddr then 2 else if sp_localAddr k = unspecified_addr then 1 else 0)
      else 0)"

text \<open>
  C24: A segment is handed to the connection with the most specific matching socket pair.
\<close>

theorem findConnForSegment_most_specific:
  assumes "findConnForSegment t srcPort destPort srcAddr destAddr = r"
  shows "case r of
      Some p \<Rightarrow> \<exists>k. tcpConnMap t k = Some p \<and> 0 < match_rank srcPort destPort srcAddr destAddr k
        \<and> (\<forall>j. tcpConnMap t j \<noteq> None \<longrightarrow>
              match_rank srcPort destPort srcAddr destAddr j \<le> match_rank srcPort destPort srcAddr destAddr k)
    | None \<Rightarrow> \<forall>k. tcpConnMap t k \<noteq> None \<longrightarrow> match_rank srcPort destPort srcAddr destAddr k = 0"
proof -
  let ?rank = "match_rank srcPort destPort srcAddr destAddr"
  let ?k4 = "\<lparr>sp_localAddr = destAddr, sp_remoteAddr = srcAddr,
      sp_localPort = uint destPort, sp_remotePort = uint srcPort\<rparr>"
  let ?k3 = "?k4\<lparr>sp_localAddr := unspecified_addr\<rparr>"
  let ?k2 = "?k4\<lparr>sp_remoteAddr := unspecified_addr, sp_remotePort := -1\<rparr>"
  let ?k1 = "?k2\<lparr>sp_localAddr := unspecified_addr\<rparr>"
  have pos: "uint srcPort \<noteq> -1" by (metis uint_nonnegative not_one_le_zero neg_0_le_iff_le)
  have ranks: "?rank ?k4 = 4" "3 \<le> ?rank ?k3" "?rank ?k2 = 2" "1 \<le> ?rank ?k1" "?rank ?k1 \<le> 2"
    using pos by (auto simp: match_rank_def)
  have le: "?rank j \<le> 4" for j by (simp add: match_rank_def)
  have r4: "?rank j = 4 \<Longrightarrow> j = ?k4" and r3: "?rank j = 3 \<Longrightarrow> j = ?k3"
    and r2: "?rank j = 2 \<Longrightarrow> j = ?k2" and r1: "?rank j = 1 \<Longrightarrow> j = ?k1" for j
    by (auto simp: match_rank_def split: if_splits intro: SockPair.equality)
  consider (4) p where "tcpConnMap t ?k4 = Some p" "r = Some p"
    | (3) p where "tcpConnMap t ?k4 = None" "tcpConnMap t ?k3 = Some p" "r = Some p"
    | (2) p where "tcpConnMap t ?k4 = None" "tcpConnMap t ?k3 = None" "tcpConnMap t ?k2 = Some p" "r = Some p"
    | (1) "tcpConnMap t ?k4 = None" "tcpConnMap t ?k3 = None" "tcpConnMap t ?k2 = None" "r = tcpConnMap t ?k1"
  proof -
    have "r = (case tcpConnMap t ?k4 of Some c \<Rightarrow> Some c | None \<Rightarrow>
        (case tcpConnMap t ?k3 of Some c \<Rightarrow> Some c | None \<Rightarrow>
          (case tcpConnMap t ?k2 of Some c \<Rightarrow> Some c | None \<Rightarrow> tcpConnMap t ?k1)))"
      using assms unfolding findConnForSegment_def Let_def by (rule sym)
    then show thesis
      using that
      by (cases "tcpConnMap t ?k4"; cases "tcpConnMap t ?k3"; cases "tcpConnMap t ?k2") simp_all
  qed
  then show ?thesis
  proof cases
    case 4
    then show ?thesis using ranks(1) le by (auto intro!: exI[of _ ?k4])
  next
    case 3
    have "?rank j \<le> ?rank ?k3" if "tcpConnMap t j \<noteq> None" for j
      using that 3(1) r4[of j] le[of j] ranks(2) by (cases "?rank j = 4") auto
    then show ?thesis using 3 ranks(2) by (auto intro!: exI[of _ ?k3])
  next
    case 2
    have "?rank j \<le> 2" if "tcpConnMap t j \<noteq> None" for j
      using that 2(1,2) r4[of j] r3[of j] le[of j] by (cases "?rank j = 4"; cases "?rank j = 3") auto
    then show ?thesis using 2 ranks(3) by (auto intro!: exI[of _ ?k2])
  next
    case 1
    have all: "?rank j = 0 \<or> j = ?k1" if "tcpConnMap t j \<noteq> None" for j
    proof -
      have "?rank j \<noteq> 4" "?rank j \<noteq> 3" "?rank j \<noteq> 2" using that 1(1-3) r4 r3 r2 by metis+
      then have "?rank j = 0 \<or> ?rank j = 1" using le[of j] by linarith
      then show ?thesis using r1 by blast
    qed
    show ?thesis
    proof (cases "tcpConnMap t ?k1")
      case None
      have "?rank j = 0" if "tcpConnMap t j \<noteq> None" for j
        using all[OF that] that None by auto
      moreover have "r = None" using 1(4) None by (rule trans)
      ultimately show ?thesis by simp
    next
      case (Some p)
      have "?rank j \<le> ?rank ?k1" if "tcpConnMap t j \<noteq> None" for j
        using all[OF that] by auto
      moreover have r: "r = Some p" using 1(4) Some by (rule trans)
      ultimately show ?thesis
        unfolding r option.case using Some ranks(4) by (intro exI[of _ ?k1] conjI) simp_all
    qed
  qed
qed

theorem findConnForSegment_most_specific_witness:
  "findConnForSegment server_example 4711 80 (IPv4 11) (IPv4 10) = Some 1
   \<and> (\<exists>k. tcpConnMap server_example k = Some 1 \<and> 0 < match_rank 4711 80 (IPv4 11) (IPv4 10) k)"
proof -
  have f: "findConnForSegment server_example 4711 80 (IPv4 11) (IPv4 10) = Some 1"
    by (simp add: findConnForSegment_def Let_def server_example_eval unspecified_addr_def)
  from findConnForSegment_most_specific[OF f] show ?thesis using f by auto
qed

end
