(* ===== verification/Byte_Array.thy ===== *)
theory Byte_Array
  imports TCP_Prelude
begin

text \<open>
  Raw byte containers: \<^verbatim>\<open>ByteArray\<close> (\<^verbatim>\<open>base/ByteArray.cc\<close>), a heap
  buffer with its size, is the list of its bytes, and \<^verbatim>\<open>ByteArrayBuffer\<close>
  (\<^verbatim>\<open>base/ByteArrayBuffer.cc\<close>), a list of such arrays with a running length, is a
  record. The lemmas show that the buffer behaves as the concatenation of its slices: reading
  at an offset, dropping a prefix and popping are \<open>take\<close> and \<open>drop\<close> on the whole content.
\<close>

section \<open>ByteArray\<close>

type_synonym ByteArray = "u8 list"

definition getDataArraySize :: "ByteArray \<Rightarrow> u32" where
  "getDataArraySize d = of_nat (length d)"

definition setDataFromByteArray :: "ByteArray \<Rightarrow> u32 \<Rightarrow> u32 \<Rightarrow> ByteArray res" where
  "setDataFromByteArray other srcOffs len =
     ASSERT (srcOffs + len \<le> getDataArraySize other)
       (Inr (take (unat len) (drop (unat srcOffs) other)))"

definition addDataFromBuffer :: "ByteArray \<Rightarrow> u8 list \<Rightarrow> ByteArray" where
  "addDataFromBuffer d bytes = (if length bytes = 0 then d else d @ bytes)"

text \<open>The bytes written to the target buffer; the C++ function returns how many they are.\<close>

definition copyDataToBuffer :: "ByteArray \<Rightarrow> u32 \<Rightarrow> u32 \<Rightarrow> u8 list" where
  "copyDataToBuffer d len srcOffs =
     (if srcOffs \<ge> getDataArraySize d then []
      else let len' = (if srcOffs + len > getDataArraySize d
                       then getDataArraySize d - srcOffs else len)
           in take (unat len') (drop (unat srcOffs) d))"

definition array_truncateData :: "ByteArray \<Rightarrow> u32 \<Rightarrow> u32 \<Rightarrow> ByteArray res" where
  "array_truncateData d truncleft truncright =
     ASSERT (getDataArraySize d \<ge> truncleft + truncright)
       (if truncleft \<noteq> 0 \<or> truncright \<noteq> 0
        then let nlength = getDataArraySize d - (truncleft + truncright)
             in Inr (take (unat nlength) (drop (unat truncleft) d))
        else Inr d)"

text \<open>An array fits the 32-bit size field.\<close>

abbreviation fits32 :: "'a list \<Rightarrow> bool" where
  "fits32 xs \<equiv> length xs < 4294967296"

lemma unat_getDataArraySize [simp]: "fits32 d \<Longrightarrow> unat (getDataArraySize d) = length d"
  by (simp add: getDataArraySize_def unat_of_nat_u32)

lemma copyDataToBuffer_eq:
  assumes "fits32 d" "unat srcOffs + unat len < 4294967296"
  shows "copyDataToBuffer d len srcOffs = take (unat len) (drop (unat srcOffs) d)"
proof (cases "unat srcOffs < length d")
  case True
  then have "\<not> getDataArraySize d \<le> srcOffs"
    using assms(1) by (simp add: word_le_nat_alt)
  moreover have "getDataArraySize d < srcOffs + len \<longleftrightarrow> length d < unat srcOffs + unat len"
    using assms by (simp add: word_less_nat_alt unat_add_u32)
  moreover have "unat (getDataArraySize d - srcOffs) = length d - unat srcOffs"
    using assms(1) True by (simp add: unat_sub_u32)
  ultimately show ?thesis
    by (auto simp: copyDataToBuffer_def Let_def)
next
  case False
  then show ?thesis
    using assms(1) by (simp add: copyDataToBuffer_def word_le_nat_alt)
qed

lemma array_truncateData_eq:
  assumes "fits32 d" "unat l + unat r \<le> length d"
  shows "array_truncateData d l r = Inr (take (length d - unat l - unat r) (drop (unat l) d))"
proof -
  have lr: "unat (l + r) = unat l + unat r"
    using assms by (simp add: unat_add_u32)
  have "getDataArraySize d \<ge> l + r"
    using assms lr by (simp add: word_le_nat_alt)
  moreover have "unat (getDataArraySize d - (l + r)) = length d - unat l - unat r"
    using assms lr by (simp add: unat_sub_u32)
  ultimately show ?thesis
    by (auto simp: array_truncateData_def Let_def)
qed

lemma setDataFromByteArray_eq:
  assumes "fits32 d" "unat srcOffs + unat len \<le> length d"
  shows "setDataFromByteArray d srcOffs len = Inr (take (unat len) (drop (unat srcOffs) d))"
  using assms by (simp add: setDataFromByteArray_def word_le_nat_alt unat_add_u32)

section \<open>ByteArrayBuffer\<close>

record ByteArrayBuffer =
  dataListM :: "ByteArray list"
  dataLengthM :: u32

definition buffer_clear :: "ByteArrayBuffer \<Rightarrow> ByteArrayBuffer" where
  "buffer_clear b = b\<lparr>dataLengthM := 0, dataListM := []\<rparr>"

definition buffer_push :: "ByteArrayBuffer \<Rightarrow> ByteArray \<Rightarrow> ByteArrayBuffer" where
  "buffer_push b a =
     b\<lparr>dataListM := dataListM b @ [a], dataLengthM := dataLengthM b + getDataArraySize a\<rparr>"

fun getBytes_loop :: "ByteArray list \<Rightarrow> u32 \<Rightarrow> u32 \<Rightarrow> u8 list \<Rightarrow> u8 list" where
  "getBytes_loop [] bufferLength srcOffs copied = copied"
| "getBytes_loop (d # ds) bufferLength srcOffs copied =
     (if of_nat (length copied) < bufferLength then
        let c = copyDataToBuffer d (bufferLength - of_nat (length copied)) srcOffs
        in if c \<noteq> [] then getBytes_loop ds bufferLength 0 (copied @ c)
           else getBytes_loop ds bufferLength (srcOffs - getDataArraySize d) copied
      else copied)"

definition getBytesToBuffer :: "ByteArrayBuffer \<Rightarrow> u32 \<Rightarrow> u32 \<Rightarrow> u8 list" where
  "getBytesToBuffer b bufferLength srcOffs = getBytes_loop (dataListM b) bufferLength srcOffs []"

fun drop_loop :: "ByteArray list \<Rightarrow> u32 \<Rightarrow> u32 \<Rightarrow> (ByteArray list \<times> u32) res" where
  "drop_loop [] dataLength len =
     (if len > 0 then Inl Undefined_behaviour else Inr ([], dataLength))"
| "drop_loop (d # ds) dataLength len =
     (if len > 0 then
        let sliceLength = getDataArraySize d
        in if sliceLength \<le> len then drop_loop ds (dataLength - sliceLength) (len - sliceLength)
           else bind_res (array_truncateData d len 0)
                  (\<lambda>d'. Inr (d' # ds, dataLength - len))
      else Inr (d # ds, dataLength))"

definition buffer_drop :: "ByteArrayBuffer \<Rightarrow> u32 \<Rightarrow> ByteArrayBuffer res" where
  "buffer_drop b len =
     ASSERT (len \<le> dataLengthM b)
       (bind_res (drop_loop (dataListM b) (dataLengthM b) len)
          (\<lambda>(ds, n). Inr (b\<lparr>dataListM := ds, dataLengthM := n\<rparr>)))"

definition popBytesToBuffer :: "ByteArrayBuffer \<Rightarrow> u32 \<Rightarrow> (u8 list \<times> ByteArrayBuffer) res" where
  "popBytesToBuffer b bufferLength =
     (let bytes = getBytesToBuffer b bufferLength 0
      in bind_res (buffer_drop b (of_nat (length bytes))) (\<lambda>b'. Inr (bytes, b')))"

text \<open>The content of a buffer, and the invariant that ties its running length to it.\<close>

definition buffer_bytes :: "ByteArrayBuffer \<Rightarrow> u8 list" where
  "buffer_bytes b = concat (dataListM b)"

definition buffer_inv :: "ByteArrayBuffer \<Rightarrow> bool" where
  "buffer_inv b \<longleftrightarrow> fits32 (buffer_bytes b) \<and> unat (dataLengthM b) = length (buffer_bytes b)"

lemma buffer_inv_clear [simp]: "buffer_inv (buffer_clear b)"
  by (simp add: buffer_inv_def buffer_bytes_def buffer_clear_def)

lemma buffer_bytes_clear [simp]: "buffer_bytes (buffer_clear b) = []"
  by (simp add: buffer_bytes_def buffer_clear_def)

lemma buffer_bytes_push [simp]: "buffer_bytes (buffer_push b a) = buffer_bytes b @ a"
  by (simp add: buffer_bytes_def buffer_push_def)

lemma buffer_inv_push:
  assumes "buffer_inv b" "fits32 (buffer_bytes b @ a)"
  shows "buffer_inv (buffer_push b a)"
proof -
  have "unat (dataLengthM b + getDataArraySize a) = length (buffer_bytes b) + length a"
    using assms by (simp add: buffer_inv_def unat_add_u32)
  then show ?thesis
    using assms by (simp add: buffer_inv_def buffer_push_def buffer_bytes_def)
qed

lemma getBytes_loop_eq:
  assumes "fits32 (concat ds)" "length copied \<le> unat n"
    and "unat offs + unat n < 4294967296" "copied \<noteq> [] \<longrightarrow> offs = 0"
  shows "getBytes_loop ds n offs copied
    = copied @ take (unat n - length copied) (drop (unat offs) (concat ds))"
  using assms
proof (induction ds arbitrary: offs copied)
  case (Cons d ds)
  have fits: "fits32 d" "fits32 (concat ds)" using Cons.prems(1) by simp_all
  have lc: "unat (of_nat (length copied) :: u32) = length copied"
    using Cons.prems(2) unat_u32_bound[of n] by (simp add: unat_of_nat_u32 del: unat_u32_bound)
  show ?case
  proof (cases "length copied < unat n")
    case False
    then show ?thesis using Cons.prems(2) lc by (simp add: word_less_nat_alt)
  next
    case True
    define k where "k = unat n - length copied"
    have k: "unat (n - of_nat (length copied)) = k"
      using True lc by (simp add: unat_sub_u32 k_def)
    have copy: "copyDataToBuffer d (n - of_nat (length copied)) offs
        = take k (drop (unat offs) d)" (is "?c = _")
      using fits k Cons.prems(3) by (subst copyDataToBuffer_eq) (auto simp: k_def)
    show ?thesis
    proof (cases "unat offs < length d")
      case True1: True
      then have ne: "?c \<noteq> []" using copy True by (simp add: k_def)
      have "getBytes_loop (d # ds) n offs copied = getBytes_loop ds n 0 (copied @ ?c)"
        using True lc ne by (simp add: word_less_nat_alt)
      also have "\<dots> = (copied @ ?c)
          @ take (unat n - length (copied @ ?c)) (drop (unat (0::u32)) (concat ds))"
        using Cons.prems(3) True by (intro Cons.IH fits) (auto simp: copy k_def)
      also have "\<dots> = copied @ take k (drop (unat offs) (concat (d # ds)))"
        using True1 by (simp add: copy k_def min_def)
      finally show ?thesis by (simp add: k_def)
    next
      case False
      then have e: "?c = []" using copy by simp
      have offs: "unat (offs - getDataArraySize d) = unat offs - length d"
        using False fits by (simp add: unat_sub_u32)
      have "getBytes_loop (d # ds) n offs copied
          = getBytes_loop ds n (offs - getDataArraySize d) copied"
        using True lc e by (simp add: word_less_nat_alt)
      also have "\<dots> = copied @ take (unat n - length copied)
          (drop (unat (offs - getDataArraySize d)) (concat ds))"
      proof (rule Cons.IH[OF fits(2) Cons.prems(2)])
        show "unat (offs - getDataArraySize d) + unat n < 4294967296"
          using offs Cons.prems(3) by simp
        show "copied \<noteq> [] \<longrightarrow> offs - getDataArraySize d = 0"
          using False Cons.prems(4) by (auto simp: getDataArraySize_def)
      qed
      also have "\<dots> = copied @ take k (drop (unat offs) (concat (d # ds)))"
        using False offs by (simp add: k_def)
      finally show ?thesis by (simp add: k_def)
    qed
  qed
qed simp

lemma getBytesToBuffer_eq:
  assumes "buffer_inv b" "unat offs + unat n < 4294967296"
  shows "getBytesToBuffer b n offs = take (unat n) (drop (unat offs) (buffer_bytes b))"
  using assms by (simp add: getBytesToBuffer_def buffer_bytes_def buffer_inv_def getBytes_loop_eq)

lemma drop_loop_eq:
  assumes "fits32 (concat ds)" "unat n = length (concat ds)" "unat len \<le> length (concat ds)"
  shows "\<exists>ds' n'. drop_loop ds n len = Inr (ds', n') \<and> concat ds' = drop (unat len) (concat ds)
    \<and> unat n' = length (concat ds')"
  using assms
proof (induction ds arbitrary: n len)
  case Nil
  then show ?case by (simp add: unat_eq_zero)
next
  case (Cons d ds)
  have fits: "fits32 d" "fits32 (concat ds)" using Cons.prems(1) by simp_all
  consider "len = 0" | "len \<noteq> 0" "length d \<le> unat len" | "len \<noteq> 0" "unat len < length d"
    by linarith
  then show ?case
  proof cases
    case 1
    then show ?thesis using Cons.prems by simp
  next
    case 2
    have n': "unat (n - getDataArraySize d) = length (concat ds)"
      using Cons.prems(2) fits by (simp add: unat_sub_u32)
    have l': "unat (len - getDataArraySize d) = unat len - length d"
      using 2 fits by (simp add: unat_sub_u32)
    have "drop_loop (d # ds) n len
        = drop_loop ds (n - getDataArraySize d) (len - getDataArraySize d)"
      using 2 fits by (simp add: word_le_nat_alt word_neq_0_conv Let_def)
    moreover have "\<exists>ds' n'. drop_loop ds (n - getDataArraySize d) (len - getDataArraySize d)
          = Inr (ds', n') \<and> concat ds' = drop (unat len - length d) (concat ds)
          \<and> unat n' = length (concat ds')"
      using Cons.IH[OF fits(2) n', of "len - getDataArraySize d"] l' Cons.prems(3) by simp
    ultimately show ?thesis using 2 by auto
  next
    case 3
    have "array_truncateData d len 0 = Inr (take (length d - unat len) (drop (unat len) d))"
      using array_truncateData_eq[of d len 0] fits 3 by simp
    moreover have "unat (n - len) = length (concat (d # ds)) - unat len"
      using Cons.prems by (simp add: unat_sub_u32)
    ultimately show ?thesis
      using 3 fits by (auto simp: word_le_nat_alt word_neq_0_conv)
  qed
qed

lemma buffer_drop_eq:
  assumes "buffer_inv b" "unat len \<le> length (buffer_bytes b)"
  shows "\<exists>b'. buffer_drop b len = Inr b' \<and> buffer_bytes b' = drop (unat len) (buffer_bytes b)
    \<and> buffer_inv b'"
proof -
  obtain ds n where "drop_loop (dataListM b) (dataLengthM b) len = Inr (ds, n)"
    "concat ds = drop (unat len) (concat (dataListM b))" "unat n = length (concat ds)"
    using drop_loop_eq[of "dataListM b" "dataLengthM b" len] assms
    by (auto simp: buffer_inv_def buffer_bytes_def)
  then show ?thesis
    using assms by (auto simp: buffer_drop_def buffer_bytes_def buffer_inv_def word_le_nat_alt)
qed

text \<open>
  Dropping more than the buffer holds is refused by the assertion, and popping returns exactly
  the prefix it removes.
\<close>

lemma buffer_drop_too_much:
  assumes "buffer_inv b" "length (buffer_bytes b) < unat len"
  shows "buffer_drop b len = Inl Assertion_failed"
  using assms by (simp add: buffer_drop_def buffer_inv_def word_le_nat_alt)

text \<open>popping bytes returns the longest available prefix and leaves the rest.\<close>

theorem popBytesToBuffer_splits:
  assumes "buffer_inv b"
  shows "\<exists>bytes b'. popBytesToBuffer b n = Inr (bytes, b') \<and> buffer_inv b'
    \<and> bytes = take (unat n) (buffer_bytes b) \<and> bytes @ buffer_bytes b' = buffer_bytes b"
proof -
  define bytes where "bytes = getBytesToBuffer b n 0"
  have bytes: "bytes = take (unat n) (buffer_bytes b)"
    using getBytesToBuffer_eq[OF assms, of 0 n] by (simp add: bytes_def)
  have len: "unat (of_nat (length bytes) :: u32) = length bytes"
    using assms by (intro unat_of_nat_u32) (auto simp: bytes buffer_inv_def min_def)
  obtain b' where "buffer_drop b (of_nat (length bytes)) = Inr b'" "buffer_inv b'"
    "buffer_bytes b' = drop (length bytes) (buffer_bytes b)"
    using buffer_drop_eq[OF assms, of "of_nat (length bytes)"] len
    by (auto simp: bytes)
  moreover have "bytes @ drop (length bytes) (buffer_bytes b) = buffer_bytes b"
    by (simp add: bytes min_def)
  ultimately show ?thesis
    by (auto simp: popBytesToBuffer_def Let_def bytes_def [symmetric] bytes [symmetric])
qed

theorem popBytesToBuffer_splits_witness:
  "\<exists>bytes b'. popBytesToBuffer \<lparr>dataListM = [[1, 2, 3], [4, 5]], dataLengthM = 5\<rparr> 4 = Inr (bytes, b')
     \<and> bytes = [1, 2, 3, 4]"
proof -
  have "buffer_inv \<lparr>dataListM = [[1, 2, 3], [4, 5]], dataLengthM = 5\<rparr>"
    by (simp add: buffer_inv_def buffer_bytes_def)
  from popBytesToBuffer_splits[OF this, of 4] show ?thesis by (auto simp: buffer_bytes_def)
qed

end
