(* ===== verification/TCP_Segment.thy ===== *)
theory TCP_Segment
  imports TCP_Seq Byte_Array
begin

text \<open>
  The TCP segment as the simulator carries it (\<^verbatim>\<open>tcp_common/TCPSegment.msg\<close>,
  \<^verbatim>\<open>TCPSegment.h\<close>, \<^verbatim>\<open>TCPSegment.cc\<close>): its header fields and options, the
  payload length, the message objects that travel in it, and the raw bytes. The operations are
  \<^verbatim>\<open>getSegLen\<close>, the payload list operations, \<^verbatim>\<open>getOptionsArrayLength\<close> and the
  truncation to a receive window. The lemmas show what truncation keeps.
\<close>

section \<open>Data\<close>

text \<open>
  A packet of the application: its identity, its length in bytes, and the bytes it carries when
  it is a \<^verbatim>\<open>ByteArrayMessage\<close>.
\<close>

record cPacket =
  pk_id :: nat
  pk_byteLength :: int
  pk_byteArray :: "ByteArray option"

record TCPPayloadMessage =
  pm_endSequenceNo :: u32
  pm_msg :: cPacket

text \<open>Option kinds are the numbers of the header; the code compares them with constants.\<close>

definition TCPOPTION_END_OF_OPTION_LIST :: u16 where "TCPOPTION_END_OF_OPTION_LIST = 0"
definition TCPOPTION_NO_OPERATION :: u16 where "TCPOPTION_NO_OPERATION = 1"
definition TCPOPTION_MAXIMUM_SEGMENT_SIZE :: u16 where "TCPOPTION_MAXIMUM_SEGMENT_SIZE = 2"
definition TCPOPTION_WINDOW_SCALE :: u16 where "TCPOPTION_WINDOW_SCALE = 3"
definition TCPOPTION_SACK_PERMITTED :: u16 where "TCPOPTION_SACK_PERMITTED = 4"
definition TCPOPTION_SACK :: u16 where "TCPOPTION_SACK = 5"
definition TCPOPTION_TIMESTAMP :: u16 where "TCPOPTION_TIMESTAMP = 8"

lemmas option_kind_defs =
  TCPOPTION_END_OF_OPTION_LIST_def TCPOPTION_NO_OPERATION_def
  TCPOPTION_MAXIMUM_SEGMENT_SIZE_def TCPOPTION_WINDOW_SCALE_def
  TCPOPTION_SACK_PERMITTED_def TCPOPTION_SACK_def TCPOPTION_TIMESTAMP_def

definition TCP_HEADER_OCTETS :: u16 where "TCP_HEADER_OCTETS = 20"
definition TCP_MAX_HEADER_OCTETS :: u16 where "TCP_MAX_HEADER_OCTETS = 60"

record TCPOption =
  opt_kind :: u16
  opt_length :: u16
  opt_values :: "u32 list"

record TCPSegment =
  srcPort :: u16
  destPort :: u16
  sequenceNo :: u32
  ackNo :: u32
  headerLength :: u16
  urgBit :: bool
  ackBit :: bool
  pshBit :: bool
  rstBit :: bool
  synBit :: bool
  finBit :: bool
  window :: u16
  urgentPointer :: u16
  options :: "TCPOption list"
  payloadLength :: u32
  payloadList :: "TCPPayloadMessage list"
  byteArray :: ByteArray

text \<open>A segment as the constructor leaves it (\<^verbatim>\<open>headerLength = TCP_HEADER_OCTETS\<close>).\<close>

definition new_TCPSegment :: TCPSegment where
  "new_TCPSegment = \<lparr>srcPort = 0, destPort = 0, sequenceNo = 0, ackNo = 0,
     headerLength = TCP_HEADER_OCTETS, urgBit = False, ackBit = False, pshBit = False,
     rstBit = False, synBit = False, finBit = False, window = 0, urgentPointer = 0,
     options = [], payloadLength = 0, payloadList = [], byteArray = []\<rparr>"

section \<open>Operations\<close>

definition getSegLen :: "TCPSegment \<Rightarrow> u32" where
  "getSegLen seg =
     payloadLength seg + (if finBit seg then 1 else 0) + (if synBit seg then 1 else 0)"

text \<open>The two loops over the payload list of \<^verbatim>\<open>truncateData\<close>.\<close>

definition drop_payload_left :: "u32 \<Rightarrow> u32 \<Rightarrow> TCPPayloadMessage list \<Rightarrow> TCPPayloadMessage list" where
  "drop_payload_left seqNo truncleft ps =
     dropWhile (\<lambda>p. pm_endSequenceNo p - seqNo \<le> truncleft) ps"

definition drop_payload_right :: "u32 \<Rightarrow> u32 \<Rightarrow> TCPPayloadMessage list \<Rightarrow> TCPPayloadMessage list" where
  "drop_payload_right seqNo plen ps =
     rev (dropWhile (\<lambda>p. pm_endSequenceNo p - seqNo > plen) (rev ps))"

definition truncateData :: "TCPSegment \<Rightarrow> u32 \<Rightarrow> u32 \<Rightarrow> TCPSegment res" where
  "truncateData seg truncleft truncright =
     ASSERT (payloadLength seg \<ge> truncleft + truncright)
       (bind_res
          (if byteArray seg \<noteq> [] then array_truncateData (byteArray seg) truncleft truncright
           else Inr (byteArray seg))
          (\<lambda>bytes.
             let ps = drop_payload_left (sequenceNo seg) truncleft (payloadList seg);
                 seqNo = sequenceNo seg + truncleft;
                 plen = payloadLength seg - (truncleft + truncright)
             in Inr (seg\<lparr>byteArray := bytes, sequenceNo := seqNo, payloadLength := plen,
                         payloadList := drop_payload_right seqNo plen ps\<rparr>)))"

definition truncateSegment :: "TCPSegment \<Rightarrow> u32 \<Rightarrow> u32 \<Rightarrow> TCPSegment res" where
  "truncateSegment seg firstSeqNo endSeqNo =
     ASSERT (payloadLength seg > 0)
       (if \<not> (seqLess (sequenceNo seg) endSeqNo
              \<and> seqLess firstSeqNo (sequenceNo seg + payloadLength seg))
        then Inl (Runtime_error ''truncateSegment() called on a segment outside the range'')
        else
          let truncleft = (if seqLess (sequenceNo seg) firstSeqNo
                           then firstSeqNo - sequenceNo seg else 0);
              truncright = (if seqGreater (sequenceNo seg + payloadLength seg) endSeqNo
                            then sequenceNo seg + payloadLength seg - endSeqNo else 0)
          in truncateData seg truncleft truncright)"

definition getOptionsArrayLength :: "TCPSegment \<Rightarrow> u16" where
  "getOptionsArrayLength seg = fold (\<lambda>opt n. n + opt_length opt) (options seg) 0"

definition getPayloadArraySize :: "TCPSegment \<Rightarrow> u32" where
  "getPayloadArraySize seg = of_nat (length (payloadList seg))"

definition addPayloadMessage :: "TCPSegment \<Rightarrow> cPacket \<Rightarrow> u32 \<Rightarrow> TCPSegment" where
  "addPayloadMessage seg msg endSeq =
     seg\<lparr>payloadList := payloadList seg @ [\<lparr>pm_endSequenceNo = endSeq, pm_msg = msg\<rparr>]\<rparr>"

definition removeFirstPayloadMessage :: "TCPSegment \<Rightarrow> (cPacket \<times> u32) option \<times> TCPSegment" where
  "removeFirstPayloadMessage seg =
     (case payloadList seg of
        [] \<Rightarrow> (None, seg)
      | p # ps \<Rightarrow> (Some (pm_msg p, pm_endSequenceNo p), seg\<lparr>payloadList := ps\<rparr>))"

section \<open>Truncation\<close>

text \<open>The byte array, when there is one, has the length the segment announces.\<close>

definition seg_bytes_ok :: "TCPSegment \<Rightarrow> bool" where
  "seg_bytes_ok seg \<longleftrightarrow> byteArray seg = [] \<or> length (byteArray seg) = unat (payloadLength seg)"

lemma seg_bytes_fits: "seg_bytes_ok seg \<Longrightarrow> fits32 (byteArray seg)"
  by (auto simp: seg_bytes_ok_def)

lemma truncateData_eq:
  assumes "unat l + unat r \<le> unat (payloadLength seg)" "seg_bytes_ok seg"
  shows "\<exists>seg'. truncateData seg l r = Inr seg'
    \<and> sequenceNo seg' = sequenceNo seg + l
    \<and> unat (payloadLength seg') = unat (payloadLength seg) - unat l - unat r
    \<and> byteArray seg'
      = take (unat (payloadLength seg) - unat l - unat r) (drop (unat l) (byteArray seg))
    \<and> seg_bytes_ok seg' \<and> finBit seg' = finBit seg \<and> synBit seg' = synBit seg
    \<and> options seg' = options seg \<and> ackNo seg' = ackNo seg \<and> window seg' = window seg"
proof -
  have lr: "unat (l + r) = unat l + unat r"
    using assms(1) unat_u32_bound[of "payloadLength seg"]
    by (intro unat_add_u32) (simp del: unat_u32_bound)
  have pl: "unat (payloadLength seg - (l + r)) = unat (payloadLength seg) - unat l - unat r"
    using assms(1) lr by (simp add: unat_sub_u32)
  have "array_truncateData (byteArray seg) l r = Inr (take (length (byteArray seg) - unat l - unat r)
      (drop (unat l) (byteArray seg)))" if "byteArray seg \<noteq> []"
    using that assms by (intro array_truncateData_eq seg_bytes_fits) (auto simp: seg_bytes_ok_def)
  then show ?thesis
    using assms lr pl by (auto simp: truncateData_def Let_def word_le_nat_alt seg_bytes_ok_def)
qed

text \<open>
  The range of a segment and of a window, as offsets from a common base. A segment that
  overlaps the window is cut to the intersection.
\<close>

lemma truncateSegment_eq:
  assumes "in_half x (sequenceNo seg)" "in_half x (sequenceNo seg + payloadLength seg)"
    and "in_half x first" "in_half x lst"
    and "off x (sequenceNo seg) + unat (payloadLength seg)
      = off x (sequenceNo seg + payloadLength seg)"
    and "seg_bytes_ok seg" "payloadLength seg > 0"
    and "off x (sequenceNo seg) < off x lst"
    and "off x first < off x (sequenceNo seg + payloadLength seg)"
    and "off x first < off x lst"
  shows "\<exists>seg'. truncateSegment seg first lst = Inr seg'
    \<and> off x (sequenceNo seg') = max (off x first) (off x (sequenceNo seg))
    \<and> off x (sequenceNo seg') + unat (payloadLength seg')
      = min (off x lst) (off x (sequenceNo seg) + unat (payloadLength seg))
    \<and> byteArray seg' = take (unat (payloadLength seg'))
        (drop (off x (sequenceNo seg') - off x (sequenceNo seg)) (byteArray seg))
    \<and> seg_bytes_ok seg' \<and> finBit seg' = finBit seg"
proof -
  let ?s = "sequenceNo seg" and ?e = "sequenceNo seg + payloadLength seg"
  let ?l = "if seqLess ?s first then first - ?s else 0"
  let ?r = "if seqGreater ?e lst then ?e - lst else 0"
  note cmp = seqLess_iff[of x] seqGreater_iff[of x]
  have l: "unat ?l = off x first - off x ?s"
    using assms(1,3) off_shift[of x ?s first] by (auto simp: cmp off_def[of ?s, symmetric])
  have r: "unat ?r = off x ?e - off x lst"
    using assms(2,4) off_shift[of x lst ?e] by (auto simp: cmp off_def[of lst, symmetric])
  have le: "unat ?l + unat ?r \<le> unat (payloadLength seg)"
    using assms(5,8,9,10) unfolding l r by linarith
  obtain seg' where seg': "truncateData seg ?l ?r = Inr seg'"
    "sequenceNo seg' = ?s + ?l"
    "unat (payloadLength seg') = unat (payloadLength seg) - unat ?l - unat ?r"
    "byteArray seg'
      = take (unat (payloadLength seg) - unat ?l - unat ?r) (drop (unat ?l) (byteArray seg))"
    "seg_bytes_ok seg'" "finBit seg' = finBit seg"
    using truncateData_eq[OF le assms(6)] by blast
  have "truncateSegment seg first lst = Inr seg'"
    using assms(1-4,7-9) seg'(1) by (simp add: truncateSegment_def cmp)
  moreover have s: "off x (?s + ?l) = max (off x first) (off x ?s)"
    using assms(1,3) l off_bound[of x first] by (subst off_plus) (auto simp: in_half_def)
  moreover have "max (off x first) (off x ?s) + unat (payloadLength seg')
      = min (off x lst) (off x ?s + unat (payloadLength seg))"
    using assms(5,8,9,10) seg'(3) unfolding l r by linarith
  moreover have "max (off x first) (off x ?s) - off x ?s = off x first - off x ?s" by simp
  ultimately show ?thesis
    using seg' l r by (intro exI[of _ seg']) simp
qed

text \<open>
  The FIN flag survives a cut on the right: the segment then announces a FIN right behind its
  truncated text, at a sequence number that belongs to data the sender has sent.
\<close>

lemma truncateSegment_keeps_fin:
  assumes "truncateSegment seg first lst = Inr seg'"
  shows "finBit seg' = finBit seg"
  using assms
  by (auto simp: truncateSegment_def truncateData_def Let_def ASSERT_eq_Inr split: if_splits)

end
