(* ===== verification/TCP_Rcv_Queue.thy ===== *)
theory TCP_Rcv_Queue
  imports TCP_Segment
begin

text \<open>
  The receive queues (\<^verbatim>\<open>transport/tcp/queues\<close>): \<^verbatim>\<open>TCPVirtualDataRcvQueue\<close>,
  which only counts bytes, and its two subclasses \<^verbatim>\<open>TCPMsgBasedRcvQueue\<close> and
  \<^verbatim>\<open>TCPByteStreamRcvQueue\<close>. A queue is the next sequence number expected and a list of
  disjoint regions of received bytes. Inheritance is modelled by record extension: a byte-stream
  region extends a region with its bytes, a message-based queue extends a queue with its list of
  messages; the virtual methods \<^verbatim>\<open>merge\<close> and \<^verbatim>\<open>split\<close> of a region are
  arguments of the queue operations.

  The lemmas read the list as the set of distances of its bytes above a base and show that
  inserting a segment adds exactly its bytes, keeps the regions sorted and apart, and moves
  \<open>rcv_nxt\<close> over the bytes that became contiguous.
\<close>

section \<open>Regions\<close>

record RcvRegion =
  rbegin :: u32
  rend :: u32

datatype CompareStatus = BEFORE | BEFORE_TOUCH | OVERLAP | AFTER_TOUCH | AFTER

definition region_getLength :: "'a RcvRegion_scheme \<Rightarrow> u32" where
  "region_getLength r = rend r - rbegin r"

definition region_merge :: "'a RcvRegion_scheme \<Rightarrow> 'b RcvRegion_scheme \<Rightarrow> 'a RcvRegion_scheme option" where
  "region_merge r other =
     (if seqLess (rend r) (rbegin other) \<or> seqLess (rend other) (rbegin r) then None
      else let r1 = (if seqLess (rbegin other) (rbegin r) then r\<lparr>rbegin := rbegin other\<rparr> else r);
               r2 = (if seqLess (rend r1) (rend other) then r1\<lparr>rend := rend other\<rparr> else r1)
           in Some r2)"

text \<open>The part split off in front, and the rest.\<close>

definition region_split :: "RcvRegion \<Rightarrow> u32 \<Rightarrow> (RcvRegion \<times> RcvRegion) res" where
  "region_split r seq =
     ASSERT (seqGreater seq (rbegin r) \<and> seqLess seq (rend r))
       (Inr (\<lparr>rbegin = rbegin r, rend = seq\<rparr>, r\<lparr>rbegin := seq\<rparr>))"

definition region_compare :: "'a RcvRegion_scheme \<Rightarrow> 'a RcvRegion_scheme \<Rightarrow> CompareStatus" where
  "region_compare r other =
     (if rend r = rbegin other then BEFORE_TOUCH
      else if rbegin r = rend other then AFTER_TOUCH
      else if seqLess (rend r) (rbegin other) then BEFORE
      else if seqLess (rend other) (rbegin r) then AFTER
      else OVERLAP)"

definition getLengthTo :: "'a RcvRegion_scheme \<Rightarrow> u32 \<Rightarrow> u32" where
  "getLengthTo r seq =
     (if seqLE seq (rbegin r) then 0
      else if seqLess seq (rend r) then seq - rbegin r
      else rend r - rbegin r)"

section \<open>The queue of regions\<close>

text \<open>The virtual methods of a region class; \<^verbatim>\<open>merge\<close> is \<open>None\<close> when it returns false.\<close>

record 'r region_class =
  rc_merge :: "'r \<Rightarrow> 'r \<Rightarrow> 'r option"
  rc_split :: "'r \<Rightarrow> u32 \<Rightarrow> ('r \<times> 'r) res"

record 'r TCPVirtualDataRcvQueue =
  rq_rcv_nxt :: u32
  regionList :: "'r list"

definition vrq_init :: "('r, 'z) TCPVirtualDataRcvQueue_scheme \<Rightarrow> u32 \<Rightarrow> ('r, 'z) TCPVirtualDataRcvQueue_scheme" where
  "vrq_init q startSeq = q\<lparr>rq_rcv_nxt := startSeq, regionList := []\<rparr>"

definition createRegionFromSegment :: "TCPSegment \<Rightarrow> RcvRegion" where
  "createRegionFromSegment seg =
     \<lparr>rbegin = sequenceNo seg, rend = sequenceNo seg + payloadLength seg\<rparr>"

text \<open>The loop of \<^verbatim>\<open>merge\<close> runs from the back; its argument is the reversed list.\<close>

fun merge_loop :: "('a RcvRegion_scheme) region_class \<Rightarrow> 'a RcvRegion_scheme list
    \<Rightarrow> 'a RcvRegion_scheme \<Rightarrow> 'a RcvRegion_scheme list res" where
  "merge_loop cl [] seg = Inr [seg]"
| "merge_loop cl (i # rest) seg =
     (let cmp = region_compare i seg
      in if cmp = BEFORE then Inr (seg # i # rest)
         else if cmp \<noteq> AFTER then
           (case rc_merge cl seg i of
              Some seg' \<Rightarrow> merge_loop cl rest seg'
            | None \<Rightarrow> Inl (Runtime_error ''Model error: merge of region unsuccessful''))
         else bind_res (merge_loop cl rest seg) (\<lambda>rs. Inr (i # rs)))"

definition vrq_merge where
  "vrq_merge cl q seg =
     bind_res (merge_loop cl (rev (regionList q)) seg)
       (\<lambda>rs. Inr (q\<lparr>regionList := rev rs\<rparr>))"

text \<open>The range check of the debug build.\<close>

definition insert_check where
  "insert_check q region \<longleftrightarrow>
     regionList q = [] \<or>
     (let ob = rbegin (hd (regionList q)); oe = rend (last (regionList q));
          nb = rbegin region; ne = rend region;
          minb = seqMin ob nb; maxe = seqMax oe ne
      in \<not> (seqGE minb oe \<or> seqGE minb ne \<or> seqGE ob maxe \<or> seqGE nb maxe))"

definition vrq_insertBytesFromSegment where
  "vrq_insertBytesFromSegment cl q region =
     (if \<not> insert_check q region
      then Inl (Runtime_error ''The new segment is out of the acceptable range at the queue'')
      else bind_res (vrq_merge cl q region) (\<lambda>q'.
             case regionList q' of
               [] \<Rightarrow> Inl Undefined_behaviour
             | front # _ \<Rightarrow>
                 Inr (if seqGE (rq_rcv_nxt q') (rbegin front)
                      then q'\<lparr>rq_rcv_nxt := rend front\<rparr> else q')))"

definition extractTo where
  "extractTo cl q seq =
     ASSERT (seqLE seq (rq_rcv_nxt q))
       (case regionList q of
          [] \<Rightarrow> Inr (q, None)
        | reg # rest \<Rightarrow>
            if seqLE seq (rbegin reg) then Inr (q, None)
            else if seqGE seq (rend reg) then Inr (q\<lparr>regionList := rest\<rparr>, Some reg)
            else bind_res (rc_split cl reg seq)
                   (\<lambda>(part, reg'). Inr (q\<lparr>regionList := reg' # rest\<rparr>, Some part)))"

definition vrq_getAmountOfBufferedBytes where
  "vrq_getAmountOfBufferedBytes q = fold (\<lambda>r bytes. bytes + region_getLength r) (regionList q) 0"

definition vrq_getAmountOfFreeBytes where
  "vrq_getAmountOfFreeBytes q maxRcvBuffer =
     (let usedRcvBuffer = vrq_getAmountOfBufferedBytes q;
          freeRcvBuffer = maxRcvBuffer - usedRcvBuffer
      in if maxRcvBuffer > usedRcvBuffer then freeRcvBuffer else 0)"

definition vrq_getQueueLength :: "('r, 'z) TCPVirtualDataRcvQueue_scheme \<Rightarrow> u32" where
  "vrq_getQueueLength q = of_nat (length (regionList q))"

definition vrq_getLE where
  "vrq_getLE q fromSeqNum =
     (case find (\<lambda>i. seqLE (rbegin i) fromSeqNum \<and> seqLess fromSeqNum (rend i)) (regionList q) of
        Some i \<Rightarrow> rbegin i | None \<Rightarrow> fromSeqNum)"

definition vrq_getRE where
  "vrq_getRE q toSeqNum =
     (case find (\<lambda>i. seqLess (rbegin i) toSeqNum \<and> seqLE toSeqNum (rend i)) (regionList q) of
        Some i \<Rightarrow> rend i | None \<Rightarrow> toSeqNum)"

definition vrq_getFirstSeqNo where
  "vrq_getFirstSeqNo q =
     (case regionList q of [] \<Rightarrow> rq_rcv_nxt q | front # _ \<Rightarrow> seqMin (rbegin front) (rq_rcv_nxt q))"

text \<open>The base class: regions without content, and packets of the extracted length.\<close>

definition virtual_class :: "RcvRegion region_class" where
  "virtual_class = \<lparr>rc_merge = region_merge, rc_split = region_split\<rparr>"

type_synonym VirtualRcvQueue = "RcvRegion TCPVirtualDataRcvQueue"

definition virtual_insert :: "VirtualRcvQueue \<Rightarrow> TCPSegment \<Rightarrow> (VirtualRcvQueue \<times> TCPSegment \<times> u32) res" where
  "virtual_insert q seg =
     bind_res (vrq_insertBytesFromSegment virtual_class q (createRegionFromSegment seg))
       (\<lambda>q'. Inr (q', seg, rq_rcv_nxt q'))"

definition virtual_extract :: "VirtualRcvQueue \<Rightarrow> u32 \<Rightarrow> (VirtualRcvQueue \<times> cPacket option) res" where
  "virtual_extract q seq =
     bind_res (extractTo virtual_class q seq) (\<lambda>(q', reg).
       Inr (q', map_option (\<lambda>r. \<lparr>pk_id = 0, pk_byteLength = uint (region_getLength r),
                                 pk_byteArray = None\<rparr>) reg))"

section \<open>Messages\<close>

record PayloadItem =
  pi_seqNo :: u32
  pi_packet :: cPacket

record TCPMsgBasedRcvQueue = "RcvRegion TCPVirtualDataRcvQueue" +
  msgList :: "PayloadItem list"

text \<open>
  The insertion loop of the message list. The iterator only moves forward; the part of the list
  it passed is kept reversed.
\<close>

primrec msg_insert_loop :: "TCPPayloadMessage list \<Rightarrow> PayloadItem list \<Rightarrow> PayloadItem list
    \<Rightarrow> PayloadItem list res" where
  "msg_insert_loop [] passed rest = Inr (rev passed @ rest)"
| "msg_insert_loop (m # ms) passed rest =
     (let endSeqNo = pm_endSequenceNo m;
          passed' = rev (takeWhile (\<lambda>i. seqLess (pi_seqNo i) endSeqNo) rest) @ passed;
          rest' = dropWhile (\<lambda>i. seqLess (pi_seqNo i) endSeqNo) rest
      in if rest' \<noteq> [] \<and> pi_seqNo (hd rest') = endSeqNo
         then msg_insert_loop ms passed' rest'
         else let rest'' = \<lparr>pi_seqNo = endSeqNo, pi_packet = pm_msg m\<rparr> # rest';
                  whole = rev passed' @ rest''
              in ASSERT (seqLE (pi_seqNo (hd whole)) (pi_seqNo (last whole)))
                   (msg_insert_loop ms passed' rest''))"

definition msg_rcv_insert :: "TCPMsgBasedRcvQueue \<Rightarrow> TCPSegment
    \<Rightarrow> (TCPMsgBasedRcvQueue \<times> TCPSegment \<times> u32) res" where
  "msg_rcv_insert q seg =
     bind_res (vrq_insertBytesFromSegment virtual_class q (createRegionFromSegment seg))
       (\<lambda>q'. bind_res (msg_insert_loop (payloadList seg) [] (msgList q'))
         (\<lambda>ms. Inr (q'\<lparr>msgList := ms\<rparr>, seg\<lparr>payloadList := []\<rparr>, rq_rcv_nxt q')))"

definition msg_rcv_extract :: "TCPMsgBasedRcvQueue \<Rightarrow> u32 \<Rightarrow> (TCPMsgBasedRcvQueue \<times> cPacket option) res" where
  "msg_rcv_extract q seq0 =
     (let seq = (case msgList q of
                   p # _ \<Rightarrow> if seqLess (pi_seqNo p) seq0 then pi_seqNo p else seq0
                 | [] \<Rightarrow> seq0)
      in bind_res (extractTo virtual_class q seq) (\<lambda>(q', reg).
           Inr (case reg of
                  None \<Rightarrow> (q', None)
                | Some r \<Rightarrow>
                    (case msgList q' of
                       p # ps \<Rightarrow> if pi_seqNo p = rend r then (q'\<lparr>msgList := ps\<rparr>, Some (pi_packet p))
                                  else (q', None)
                     | [] \<Rightarrow> (q', None)))))"

section \<open>Byte streams\<close>

record ByteRegion = RcvRegion +
  rdata :: ByteArray

text \<open>
  \<^verbatim>\<open>merge\<close> allocates a buffer over the union of the two ranges and copies into it. Memory
  from \<^verbatim>\<open>new char[]\<close> that is not written afterwards is unspecified; \<open>junk\<close> stands for it.
\<close>

definition overwrite :: "u8 list \<Rightarrow> nat \<Rightarrow> u8 list \<Rightarrow> u8 list" where
  "overwrite buff offs bytes = take offs buff @ bytes @ drop (offs + length bytes) buff"

definition byte_region_merge :: "u8 list \<Rightarrow> ByteRegion \<Rightarrow> ByteRegion \<Rightarrow> ByteRegion option" where
  "byte_region_merge junk r other =
     (if seqLess (rend r) (rbegin other) \<or> seqLess (rend other) (rbegin r) then None
      else let nbegin = seqMin (rbegin r) (rbegin other);
               nend = seqMax (rend r) (rend other)
           in if nbegin \<noteq> rbegin r \<or> nend \<noteq> rend r then
                let buff0 = take (unat (nend - nbegin)) (junk @ replicate (unat (nend - nbegin)) 0);
                    buff1 = (if nbegin \<noteq> rbegin r
                             then overwrite buff0 0
                                    (copyDataToBuffer (rdata other) (rbegin r - nbegin) 0)
                             else buff0);
                    buff2 = overwrite buff1 (unat (rbegin r - nbegin))
                              (copyDataToBuffer (rdata r) (rend r - rbegin r) 0);
                    buff3 = (if nend \<noteq> rend r
                             then overwrite buff2 (unat (rend r - nbegin))
                                    (copyDataToBuffer (rdata other) (nend - rend r) 0)
                             else buff2)
                in Some (r\<lparr>rbegin := nbegin, rend := nend, rdata := buff3\<rparr>)
              else Some r)"

definition byte_region_split :: "ByteRegion \<Rightarrow> u32 \<Rightarrow> (ByteRegion \<times> ByteRegion) res" where
  "byte_region_split r seq =
     ASSERT (seqGreater seq (rbegin r) \<and> seqLess seq (rend r))
       (bind_res (setDataFromByteArray (rdata r) 0 (seq - rbegin r)) (\<lambda>front.
         bind_res (array_truncateData (rdata r) (seq - rbegin r) 0) (\<lambda>rest.
           Inr (\<lparr>rbegin = rbegin r, rend = seq, rdata = front\<rparr>,
                r\<lparr>rdata := rest, rbegin := seq\<rparr>))))"

definition byte_class :: "u8 list \<Rightarrow> ByteRegion region_class" where
  "byte_class junk = \<lparr>rc_merge = byte_region_merge junk, rc_split = byte_region_split\<rparr>"

type_synonym ByteStreamRcvQueue = "ByteRegion TCPVirtualDataRcvQueue"

definition byte_createRegionFromSegment :: "TCPSegment \<Rightarrow> ByteRegion res" where
  "byte_createRegionFromSegment seg =
     ASSERT (payloadLength seg = getDataArraySize (byteArray seg))
       (Inr \<lparr>rbegin = sequenceNo seg, rend = sequenceNo seg + payloadLength seg,
             rdata = byteArray seg\<rparr>)"

definition byte_copyTo :: "ByteRegion \<Rightarrow> cPacket res" where
  "byte_copyTo r =
     ASSERT (region_getLength r = getDataArraySize (rdata r))
       (Inr \<lparr>pk_id = 0, pk_byteLength = uint (region_getLength r), pk_byteArray = Some (rdata r)\<rparr>)"

definition byte_insert :: "u8 list \<Rightarrow> ByteStreamRcvQueue \<Rightarrow> TCPSegment
    \<Rightarrow> (ByteStreamRcvQueue \<times> TCPSegment \<times> u32) res" where
  "byte_insert junk q seg =
     bind_res (byte_createRegionFromSegment seg) (\<lambda>r.
       bind_res (vrq_insertBytesFromSegment (byte_class junk) q r)
         (\<lambda>q'. Inr (q', seg, rq_rcv_nxt q')))"

definition byte_extract :: "u8 list \<Rightarrow> ByteStreamRcvQueue \<Rightarrow> u32
    \<Rightarrow> (ByteStreamRcvQueue \<times> cPacket option) res" where
  "byte_extract junk q seq =
     bind_res (extractTo (byte_class junk) q seq) (\<lambda>(q', reg).
       (case reg of
          None \<Rightarrow> Inr (q', None)
        | Some r \<Rightarrow> bind_res (byte_copyTo r) (\<lambda>m. Inr (q', Some m))))"

section \<open>Regions as sets of bytes\<close>

definition rgood :: "u32 \<Rightarrow> 'a RcvRegion_scheme \<Rightarrow> bool" where
  "rgood x r \<longleftrightarrow> in_half x (rbegin r) \<and> in_half x (rend r) \<and> off x (rbegin r) < off x (rend r)"

definition rbytes :: "u32 \<Rightarrow> 'a RcvRegion_scheme \<Rightarrow> nat set" where
  "rbytes x r = {off x (rbegin r)..<off x (rend r)}"

definition rset :: "u32 \<Rightarrow> 'a RcvRegion_scheme list \<Rightarrow> nat set" where
  "rset x rs = (\<Union>r\<in>set rs. rbytes x r)"

definition below :: "u32 \<Rightarrow> 'a RcvRegion_scheme \<Rightarrow> 'a RcvRegion_scheme \<Rightarrow> bool" where
  "below x i r \<longleftrightarrow> off x (rend i) < off x (rbegin r)"

definition apart :: "u32 \<Rightarrow> 'a RcvRegion_scheme list \<Rightarrow> bool" where
  "apart x rs \<longleftrightarrow> sorted_wrt (below x) rs \<and> (\<forall>r\<in>set rs. rgood x r)"

lemma rset_simps [simp]:
  "rset x [] = {}" "rset x (r # rs) = rbytes x r \<union> rset x rs" "rset x (rev rs) = rset x rs"
  by (simp_all add: rset_def)

lemma rgood_last_byte: "rgood x r \<Longrightarrow> off x (rend r) - 1 \<in> rbytes x r"
  by (auto simp: rgood_def rbytes_def)

lemma rgood_first_byte: "rgood x r \<Longrightarrow> off x (rbegin r) \<in> rbytes x r"
  by (auto simp: rgood_def rbytes_def)

lemma apart_end_free:
  assumes "apart x rs" "r \<in> set rs"
  shows "off x (rend r) \<notin> rset x rs"
proof
  assume "off x (rend r) \<in> rset x rs"
  then obtain i where i: "i \<in> set rs" "off x (rbegin i) \<le> off x (rend r)" "off x (rend r) < off x (rend i)"
    by (auto simp: rset_def rbytes_def)
  obtain m n where mn: "m < length rs" "rs ! m = r" "n < length rs" "rs ! n = i"
    using assms(2) i(1) by (metis in_set_conv_nth)
  have g: "off x (rbegin r) < off x (rend r)" "off x (rbegin i) < off x (rend i)"
    using assms i(1) by (auto simp: apart_def rgood_def)
  consider "m = n" | "m < n" | "n < m" by linarith
  then show False
  proof cases
    case 2
    then have "below x r i" using assms(1) mn by (metis apart_def sorted_wrt_nth_less)
    then show False using i(2) by (simp add: below_def)
  next
    case 3
    then have "below x i r" using assms(1) mn by (metis apart_def sorted_wrt_nth_less)
    then show False using i(3) g by (simp add: below_def)
  qed (use mn i in auto)
qed

lemma apart_front_least:
  assumes "apart x (r # rs)" "d \<in> rset x (r # rs)"
  shows "off x (rbegin r) \<le> d"
  using assms by (force simp: apart_def below_def rset_def rbytes_def rgood_def)

text \<open>How a region compares with a segment, in distances.\<close>

lemma region_compare_cases:
  assumes "rgood x i" "rgood x s"
  shows "region_compare i s = BEFORE \<longleftrightarrow> below x i s"
    and "region_compare i s = AFTER \<longleftrightarrow> below x s i"
proof -
  have e: "off x (rend i) = off x (rbegin s) \<longleftrightarrow> rend i = rbegin s"
    "off x (rbegin i) = off x (rend s) \<longleftrightarrow> rbegin i = rend s"
    by simp_all
  show "region_compare i s = BEFORE \<longleftrightarrow> below x i s"
    "region_compare i s = AFTER \<longleftrightarrow> below x s i"
    using assms e unfolding rgood_def below_def region_compare_def
    by (auto simp: seqLess_iff[of x] simp del: off_inj)
qed

section \<open>What a region class owes the queue\<close>

text \<open>
  The queue works for every class of regions whose \<^verbatim>\<open>merge\<close> of two regions that touch or
  overlap covers both, and whose \<^verbatim>\<open>split\<close> cuts at the given number; \<open>ok\<close> is what the class
  needs of a region's content, and is kept by both.
\<close>

locale region_methods =
  fixes cl :: "('a RcvRegion_scheme) region_class" and ok :: "'a RcvRegion_scheme \<Rightarrow> bool"
  assumes merge_range: "\<lbrakk>rgood x r; rgood x i; ok r; ok i; \<not> below x r i; \<not> below x i r\<rbrakk>
      \<Longrightarrow> \<exists>r'. rc_merge cl r i = Some r' \<and> ok r'
        \<and> off x (rbegin r') = min (off x (rbegin r)) (off x (rbegin i))
        \<and> off x (rend r') = max (off x (rend r)) (off x (rend i))"
    and split_range: "\<lbrakk>rgood x r; ok r; off x (rbegin r) < off x s; off x s < off x (rend r)\<rbrakk>
      \<Longrightarrow> \<exists>f t. rc_split cl r s = Inr (f, t) \<and> ok f \<and> ok t \<and> rbegin f = rbegin r \<and> rend f = s
        \<and> rbegin t = s \<and> rend t = rend r"
begin

lemma merge_loop_ok:
  assumes "apart x (rev rs)" "\<forall>r\<in>set rs. ok r" "rgood x seg" "ok seg"
  shows "\<exists>rs'. merge_loop cl rs seg = Inr rs' \<and> apart x (rev rs') \<and> (\<forall>r\<in>set rs'. ok r)
    \<and> rs' \<noteq> [] \<and> rset x rs' = rbytes x seg \<union> rset x rs"
  using assms
proof (induction rs arbitrary: seg)
  case Nil
  then show ?case by (simp add: apart_def)
next
  case (Cons i rs)
  have i: "rgood x i" "ok i" "\<forall>r\<in>set rs. below x r i" "apart x (rev rs)" "\<forall>r\<in>set rs. ok r"
    "\<forall>r\<in>set rs. rgood x r"
    using Cons.prems(1,2) by (auto simp: apart_def sorted_wrt_append)
  note cmp = region_compare_cases[OF i(1) Cons.prems(3)]
  consider (before) "below x i seg" | (after) "below x seg i" | (touch) "\<not> below x i seg" "\<not> below x seg i"
    by blast
  then show ?case
  proof cases
    case before
    then have "\<forall>r\<in>set (i # rs). below x r seg"
      using i(1,3) by (auto simp: below_def rgood_def)
    then show ?thesis
      using before cmp Cons.prems by (auto simp: apart_def sorted_wrt_append)
  next
    case after
    then have "region_compare i seg = AFTER" using cmp by simp
    moreover obtain rs' where rs': "merge_loop cl rs seg = Inr rs'" "apart x (rev rs')"
      "\<forall>r\<in>set rs'. ok r" "rs' \<noteq> []" "rset x rs' = rbytes x seg \<union> rset x rs"
      using Cons.IH[OF i(4,5) Cons.prems(3,4)] by blast
    have "below x r i" if "r \<in> set rs'" for r
    proof -
      have g: "rgood x r" using rs'(2) that by (simp add: apart_def)
      then have "off x (rend r) - 1 \<in> rset x rs'"
        using that rgood_last_byte by (auto simp: rset_def)
      then obtain j where "j = seg \<or> j \<in> set rs" "off x (rend r) - 1 \<in> rbytes x j"
        using rs'(5) by (auto simp: rset_def)
      then have "off x (rend r) \<le> off x (rend j)" "below x j i"
        using g after i(3) by (auto simp: rbytes_def rgood_def)
      then show ?thesis by (simp add: below_def)
    qed
    then have "apart x (rev (i # rs'))" using rs'(2) i(1) by (simp add: apart_def sorted_wrt_append)
    ultimately show ?thesis using rs' i(2) by auto
  next
    case touch
    obtain s' where s': "rc_merge cl seg i = Some s'" "ok s'"
      "off x (rbegin s') = min (off x (rbegin seg)) (off x (rbegin i))"
      "off x (rend s') = max (off x (rend seg)) (off x (rend i))"
      using merge_range[OF Cons.prems(3) i(1) Cons.prems(4) i(2)] touch by blast
    have g: "rgood x s'" using s'(3,4) i(1) Cons.prems(3) by (auto simp: rgood_def in_half_def)
    have "rbytes x s' = rbytes x seg \<union> rbytes x i"
      using touch s'(3,4) i(1) Cons.prems(3) by (auto simp: rbytes_def below_def rgood_def)
    then show ?thesis
      using Cons.IH[OF i(4,5) g s'(2)] s'(1) cmp touch by (auto simp: Let_def Un_assoc)
  qed
qed

text \<open>
  The invariant of a queue over a base below all its numbers: the regions are sorted and apart,
  and a region at or below \<open>rcv_nxt\<close> ends there.
\<close>

definition rcv_inv where
  "rcv_inv x q \<longleftrightarrow> apart x (regionList q) \<and> in_half x (rq_rcv_nxt q) \<and> (\<forall>r\<in>set (regionList q). ok r)
    \<and> (\<forall>r\<in>set (regionList q). off x (rbegin r) \<le> off x (rq_rcv_nxt q) \<longrightarrow> rend r = rq_rcv_nxt q)"

lemma insert_check_ok:
  assumes "apart x (regionList q)" "rgood x seg"
  shows "insert_check q seg"
proof (cases "regionList q")
  case (Cons f rest)
  have g: "rgood x f" "rgood x (last (regionList q))"
    using assms(1) Cons by (auto simp: apart_def)
  have fl: "off x (rbegin f) < off x (rend (last (regionList q)))"
  proof (cases "rest = []")
    case False
    then have "below x f (last rest)" using assms(1) Cons by (auto simp: apart_def)
    then show ?thesis using g False Cons by (auto simp: below_def rgood_def)
  qed (use g Cons in \<open>simp add: rgood_def\<close>)
  let ?oe = "rend (last (regionList q))"
  have h: "in_half x (rbegin f)" "in_half x (rend f)" "in_half x ?oe"
    "in_half x (rbegin seg)" "in_half x (rend seg)" "off x (rbegin seg) < off x (rend seg)"
    using g assms(2) by (simp_all add: rgood_def)
  show ?thesis
    using h fl Cons
    by (simp add: insert_check_def Let_def seqMin_iff[of x] seqMax_iff[of x] seqGE_iff[of x])
qed (simp add: insert_check_def)

lemma insert_ok:
  assumes "rcv_inv x q" "rgood x seg" "ok seg"
    and "off x (vrq_getFirstSeqNo q) \<le> off x (rbegin seg)"
  obtains q' rs n where "vrq_insertBytesFromSegment cl q seg = Inr q'" "rcv_inv x q'"
    "q' = q\<lparr>regionList := rs, rq_rcv_nxt := n\<rparr>"
    "rset x rs = rbytes x seg \<union> rset x (regionList q)"
    "off x (rq_rcv_nxt q) \<le> off x n" "{off x (rq_rcv_nxt q)..<off x n} \<subseteq> rset x rs"
    "off x n \<notin> rset x rs"
proof -
  let ?nxt = "rq_rcv_nxt q"
  have inv: "apart x (regionList q)" "in_half x ?nxt" "\<forall>r\<in>set (regionList q). ok r"
    "\<forall>r\<in>set (regionList q). off x (rbegin r) \<le> off x ?nxt \<longrightarrow> rend r = ?nxt"
    using assms(1) by (auto simp: rcv_inv_def)
  obtain rs0 where rs0: "merge_loop cl (rev (regionList q)) seg = Inr rs0" "apart x (rev rs0)"
      "\<forall>r\<in>set rs0. ok r" "rs0 \<noteq> []" "rset x rs0 = rbytes x seg \<union> rset x (regionList q)"
    using merge_loop_ok[of x "rev (regionList q)" seg] inv(1,3) assms(2,3) by auto
  obtain f rest where rs: "rev rs0 = f # rest" using rs0(4) by (cases "rev rs0") auto
  have ap: "apart x (f # rest)" using rs0(2) rs by simp
  have bs: "rset x (f # rest) = rbytes x seg \<union> rset x (regionList q)"
    using rs0(5) rs by (metis rset_simps(3))
  have g: "rgood x f" using ap by (simp add: apart_def)
  have okr: "\<forall>r\<in>set (f # rest). ok r" using rs0(3) rs by (metis set_rev)
  have rest: "off x (rend f) < off x (rbegin r)" if "r \<in> set rest" for r
    using ap that by (auto simp: apart_def below_def)
  have fend: "off x (rend f) \<notin> rset x (f # rest)" using apart_end_free[OF ap] by simp
  define n where "n = (if seqGE ?nxt (rbegin f) then rend f else ?nxt)"
  have ge: "seqGE ?nxt (rbegin f) \<longleftrightarrow> off x (rbegin f) \<le> off x ?nxt"
    using inv(2) g by (simp add: rgood_def seqGE_iff[of x])
  have upd: "vrq_insertBytesFromSegment cl q seg = Inr (q\<lparr>regionList := f # rest, rq_rcv_nxt := n\<rparr>)"
    using rs0(1) rs insert_check_ok[OF inv(1) assms(2)]
    by (simp add: vrq_insertBytesFromSegment_def vrq_merge_def n_def)
  have key: "off x ?nxt \<le> off x n \<and> {off x ?nxt..<off x n} \<subseteq> rset x (f # rest) \<and> off x n \<notin> rset x (f # rest)"
  proof (cases "off x (rbegin f) \<le> off x ?nxt")
    case True
    then have n: "n = rend f" using ge by (simp add: n_def)
    have sub: "rbytes x f \<subseteq> rset x (f # rest)" by simp
    have "off x ?nxt \<le> off x (rend f)"
    proof (rule ccontr)
      assume "\<not> off x ?nxt \<le> off x (rend f)"
      then have lt: "off x (rend f) < off x ?nxt" by simp
      have fb: "off x (rbegin f) \<in> rbytes x seg \<union> rset x (regionList q)"
        using rgood_first_byte[OF g] bs sub by auto
      then have "off x (rbegin seg) \<le> off x (rbegin f) \<or>
          (\<exists>p\<in>set (regionList q). off x (rbegin p) \<le> off x (rbegin f))"
        by (auto simp: rbytes_def rset_def)
      then have "\<exists>p rest'. regionList q = p # rest' \<and> off x (rbegin p) \<le> off x (rbegin f)"
      proof (cases "regionList q")
        case Nil
        then show ?thesis
          using assms(4) fb lt g by (auto simp: vrq_getFirstSeqNo_def rbytes_def rgood_def)
      next
        case (Cons p rest')
        have go: "rgood x p" using inv(1) Cons by (simp add: apart_def)
        then have "off x (vrq_getFirstSeqNo q) = min (off x (rbegin p)) (off x ?nxt)"
          using inv(2) Cons by (simp add: vrq_getFirstSeqNo_def seqMin_iff[of x] rgood_def)
        moreover have "d \<in> rset x (regionList q) \<Longrightarrow> off x (rbegin p) \<le> d" for d
          using apart_front_least inv(1) Cons by metis
        ultimately show ?thesis using fb assms(4) lt g Cons
          by (fastforce simp: rbytes_def rgood_def)
      qed
      then obtain p where p: "p \<in> set (regionList q)" "off x (rbegin p) \<le> off x (rbegin f)"
        by (metis list.set_intros(1))
      then have "rend p = ?nxt" using inv(4) lt g by (force simp: rgood_def)
      then have "off x (rend f) \<in> rbytes x p" using p lt g by (simp add: rbytes_def rgood_def)
      then show False using fend bs p by (auto simp: rset_def)
    qed
    then show ?thesis using n True fend by (auto simp: rbytes_def)
  next
    case False
    then have "off x ?nxt \<notin> rset x (f # rest)" using apart_front_least[OF ap] by fastforce
    then show ?thesis using False ge by (simp add: n_def)
  qed
  have "rcv_inv x (q\<lparr>regionList := f # rest, rq_rcv_nxt := n\<rparr>)"
    using ap okr inv(2) g rest ge by (auto simp: rcv_inv_def n_def rgood_def) fastforce+
  then show thesis using that[OF upd] bs key by simp
qed

text \<open>Extracting returns the prefix of the first region that lies below the given number.\<close>

lemma extract_ok:
  assumes "rcv_inv x q" "in_half x seq" "off x seq \<le> off x (rq_rcv_nxt q)"
  obtains (none) "extractTo cl q seq = Inr (q, None)" "\<And>d. d \<in> rset x (regionList q) \<Longrightarrow> off x seq \<le> d"
  | (some) reg rs where "extractTo cl q seq = Inr (q\<lparr>regionList := rs\<rparr>, Some reg)" "ok reg"
    "rcv_inv x (q\<lparr>regionList := rs\<rparr>)" "rgood x reg" "rend reg = seq"
    "rset x (regionList q) = rbytes x reg \<union> rset x rs" "rbytes x reg \<inter> rset x rs = {}"
    "\<And>d. d \<in> rset x rs \<Longrightarrow> off x seq \<le> d"
proof -
  have inv: "apart x (regionList q)" "in_half x (rq_rcv_nxt q)" "\<forall>r\<in>set (regionList q). ok r"
    "\<forall>r\<in>set (regionList q). off x (rbegin r) \<le> off x (rq_rcv_nxt q) \<longrightarrow> rend r = rq_rcv_nxt q"
    using assms(1) by (auto simp: rcv_inv_def)
  have le: "seqLE seq (rq_rcv_nxt q)" using assms inv(2) by (simp add: seqLE_iff[of x])
  show thesis
  proof (cases "regionList q")
    case Nil
    then show thesis using none le by (simp add: extractTo_def)
  next
    case (Cons r rest)
    have g: "rgood x r" "ok r" "apart x rest" using inv(1,3) Cons by (auto simp: apart_def)
    have ab: "off x (rend r) < off x (rbegin i)" if "i \<in> set rest" for i
      using inv(1) Cons that by (auto simp: apart_def below_def)
    have abd: "off x (rend r) < d" if "d \<in> rset x rest" for d
      using that ab by (fastforce simp: rset_def rbytes_def)
    show thesis
    proof (cases "off x seq \<le> off x (rbegin r)")
      case True
      then have "seqLE seq (rbegin r)" using assms(2) g by (simp add: seqLE_iff[of x] rgood_def)
      then show thesis
        using none le Cons True apart_front_least[of x r rest] inv(1)
        by (simp add: extractTo_def) force
    next
      case False
      then have nle: "\<not> seqLE seq (rbegin r)" using assms(2) g by (simp add: seqLE_iff[of x] rgood_def)
      have e: "rend r = rq_rcv_nxt q" using inv(4) Cons False assms(3) by simp
      show thesis
      proof (cases "seq = rend r")
        case True
        have ge: "seqGE seq (rend r)" using True by simp
        show thesis
        proof (rule some[of rest r])
          show "extractTo cl q seq = Inr (q\<lparr>regionList := rest\<rparr>, Some r)"
            using le nle ge Cons by (simp add: extractTo_def)
          show "rcv_inv x (q\<lparr>regionList := rest\<rparr>)"
            using inv g Cons by (simp add: rcv_inv_def)
          show "rbytes x r \<inter> rset x rest = {}" using abd by (fastforce simp: rbytes_def)
          show "off x seq \<le> d" if "d \<in> rset x rest" for d using abd[OF that] True by simp
        qed (use True g Cons in simp_all)
      next
        case F: False
        then have lt: "off x seq < off x (rend r)"
          using assms(3) e by (metis le_neq_implies_less off_inj)
        then have nge: "\<not> seqGE seq (rend r)" using assms(2) g by (simp add: seqGE_iff[of x] rgood_def)
        obtain f t where ft: "rc_split cl r seq = Inr (f, t)" "ok f" "ok t" "rbegin f = rbegin r"
            "rend f = seq" "rbegin t = seq" "rend t = rend r"
          using split_range[of x r seq] g lt False by auto
        have gf: "rgood x f" "rgood x t"
          using ft assms(2) g lt False by (auto simp: rgood_def)
        have ap: "apart x (t # rest)"
          using gf g ab ft by (auto simp: apart_def below_def)
        show thesis
        proof (rule some[of "t # rest" f])
          show "extractTo cl q seq = Inr (q\<lparr>regionList := t # rest\<rparr>, Some f)"
            using le nle nge Cons ft by (simp add: extractTo_def)
          show "rcv_inv x (q\<lparr>regionList := t # rest\<rparr>)"
            using ap inv ft e Cons by (auto simp: rcv_inv_def)
          show "rset x (regionList q) = rbytes x f \<union> rset x (t # rest)"
            using ft lt False by (auto simp: Cons rbytes_def)
          show "rbytes x f \<inter> rset x (t # rest) = {}"
            using ft abd lt by (fastforce simp: rbytes_def)
          show "off x seq \<le> d" if "d \<in> rset x (t # rest)" for d
            using apart_front_least[OF ap that] ft by simp
        qed (use ft gf in auto)
      qed
    qed
  qed
qed

end

section \<open>The base class as a region class\<close>

lemma region_merge_range:
  assumes "rgood x r" "rgood x i" "\<not> below x r i" "\<not> below x i r"
  shows "\<exists>r'. region_merge r i = Some r'
      \<and> off x (rbegin r') = min (off x (rbegin r)) (off x (rbegin i))
      \<and> off x (rend r') = max (off x (rend r)) (off x (rend i))"
proof -
  have h: "in_half x (rbegin r)" "in_half x (rend r)" "in_half x (rbegin i)" "in_half x (rend i)"
    using assms by (simp_all add: rgood_def)
  then show ?thesis
    using assms(3,4) by (auto simp: region_merge_def Let_def below_def seqLess_iff[of x])
qed

lemma split_guard:
  assumes "rgood x r" "off x (rbegin r) < off x s" "off x s < off x (rend r)"
  shows "seqGreater s (rbegin r) \<and> seqLess s (rend r)"
proof -
  have "in_half x s" using assms by (simp add: rgood_def in_half_def)
  then show ?thesis using assms by (simp add: rgood_def seqLess_iff[of x] seqGreater_iff[of x])
qed

interpretation virtual_regions: region_methods virtual_class "\<lambda>_. True"
proof
  fix x and r i :: RcvRegion
  assume a: "rgood x r" "rgood x i" "\<not> below x r i" "\<not> below x i r"
  show "\<exists>r'. rc_merge virtual_class r i = Some r' \<and> True
        \<and> off x (rbegin r') = min (off x (rbegin r)) (off x (rbegin i))
        \<and> off x (rend r') = max (off x (rend r)) (off x (rend i))"
    using region_merge_range[OF a] by (simp add: virtual_class_def)
next
  fix x s and r :: RcvRegion
  assume a: "rgood x r" "off x (rbegin r) < off x s" "off x s < off x (rend r)"
  show "\<exists>f t. rc_split virtual_class r s = Inr (f, t) \<and> True \<and> True \<and> rbegin f = rbegin r
      \<and> rend f = s \<and> rbegin t = s \<and> rend t = rend r"
    using split_guard[OF a] by (simp add: virtual_class_def region_split_def)
qed

section \<open>The byte-stream regions as a region class\<close>

definition region_sized :: "ByteRegion \<Rightarrow> bool" where
  "region_sized r \<longleftrightarrow> length (rdata r) = unat (rend r - rbegin r)"

lemma region_sized_len: "rgood x r \<Longrightarrow> region_sized r \<Longrightarrow>
    length (rdata r) = off x (rend r) - off x (rbegin r)"
  using off_shift[of x "rbegin r" "rend r"] by (simp add: region_sized_def rgood_def off_def)

lemma region_sized_fits: "region_sized r \<Longrightarrow> fits32 (rdata r)"
  by (simp add: region_sized_def)

lemma overwrite_append:
  assumes "length a = offs" "length bytes = length b"
  shows "overwrite (a @ b @ c) offs bytes = a @ bytes @ c"
  using assms by (simp add: overwrite_def)

lemma split_at:
  assumes "m + k \<le> length xs"
  shows "xs = take m xs @ take k (drop m xs) @ drop (m + k) xs"
  by (metis append.assoc append_take_drop_id take_add)

text \<open>
  The merged content is a prefix of the other region, the region itself, and again a prefix of
  the other region: every byte of the new buffer is written.
\<close>

lemma byte_region_merge_eq:
  assumes "rgood x r" "rgood x i" "region_sized r" "region_sized i" "\<not> below x r i" "\<not> below x i r"
  shows "byte_region_merge junk r i = Some (r\<lparr>rbegin := seqMin (rbegin r) (rbegin i),
    rend := seqMax (rend r) (rend i),
    rdata := take (off x (rbegin r) - off x (rbegin i)) (rdata i) @ rdata r
      @ take (off x (rend i) - off x (rend r)) (rdata i)\<rparr>)"
proof -
  let ?b = "off x (rbegin r)" and ?e = "off x (rend r)" and ?b' = "off x (rbegin i)" and ?e' = "off x (rend i)"
  let ?nb = "seqMin (rbegin r) (rbegin i)" and ?ne = "seqMax (rend r) (rend i)"
  have h: "in_half x (rbegin r)" "in_half x (rend r)" "in_half x (rbegin i)" "in_half x (rend i)"
    and lt: "?b < ?e" "?b' < ?e'" and ov: "?b' \<le> ?e" "?b \<le> ?e'"
    using assms by (simp_all add: rgood_def below_def)
  have nb: "off x ?nb = min ?b ?b'" and ne: "off x ?ne = max ?e ?e'"
    using h by (auto simp: seqMin_iff[of x] seqMax_iff[of x])
  have len: "length (rdata r) = ?e - ?b" "length (rdata i) = ?e' - ?b'"
    using assms region_sized_len by blast+
  have d: "unat (?ne - ?nb) = max ?e ?e' - min ?b ?b'" "unat (rbegin r - ?nb) = ?b - ?b'"
    "unat (rend r - rbegin r) = ?e - ?b" "unat (rend r - ?nb) = ?e - min ?b ?b'"
    "unat (?ne - rend r) = ?e' - ?e"
    using off_shift[of x ?nb ?ne] off_shift[of x ?nb "rbegin r"] off_shift[of x "rbegin r" "rend r"]
      off_shift[of x ?nb "rend r"] off_shift[of x "rend r" ?ne] nb ne lt ov
    unfolding off_def[symmetric] by (auto simp: min_def max_def)
  have neq: "?nb \<noteq> rbegin r \<longleftrightarrow> ?b' < ?b" "?ne \<noteq> rend r \<longleftrightarrow> ?e < ?e'"
    using nb ne by (metis min.absorb_iff1 min.commute not_le off_inj min_def,
      metis max.absorb_iff1 not_le off_inj max_def)
  have guard: "\<not> (seqLess (rend r) (rbegin i) \<or> seqLess (rend i) (rbegin r))"
    using h ov by (simp add: seqLess_iff[of x])
  have cp: "copyDataToBuffer (rdata q) n 0 = take (unat n) (rdata q)" if "region_sized q" for q n
    using that by (simp add: copyDataToBuffer_eq region_sized_fits)
  define buff0 where "buff0 = take (unat (?ne - ?nb)) (junk @ replicate (unat (?ne - ?nb)) (0::u8))"
  define A where "A = take (?b - ?b') buff0"
  define B where "B = take (?e - ?b) (drop (?b - ?b') buff0)"
  define C where "C = drop (?b - ?b' + (?e - ?b)) buff0"
  have "length (take n (junk @ replicate n (0::u8))) = n" for n by (simp add: min_def)
  then have l0: "length buff0 = max ?e ?e' - min ?b ?b'" unfolding buff0_def d by blast
  have buff0: "buff0 = A @ B @ C"
    unfolding A_def B_def C_def using l0 lt ov by (intro split_at) linarith
  have lA: "length A = ?b - ?b'" using l0 lt ov by (auto simp: A_def max_def min_def)
  have lB: "length B = ?e - ?b" using l0 lt ov by (auto simp: B_def max_def min_def)
  have lC: "length C = ?e' - ?e" using l0 lt ov by (auto simp: C_def max_def min_def)
  let ?left = "take (?b - ?b') (rdata i)" and ?right = "take (?e' - ?e) (rdata i)"
  define buff1 where "buff1 = (if ?nb \<noteq> rbegin r
      then overwrite buff0 0 (copyDataToBuffer (rdata i) (rbegin r - ?nb) 0) else buff0)"
  have ll: "length ?left = ?b - ?b'" "length ?right = ?e' - ?e" using len ov by auto
  have b1: "buff1 = (if ?b' < ?b then ?left else A) @ B @ C"
    using overwrite_append[of "[]" 0 ?left A "B @ C"] ll lA neq(1)
    by (simp add: buff1_def cp assms(4) d buff0)
  define buff2 where "buff2 = overwrite buff1 (unat (rbegin r - ?nb))
                              (copyDataToBuffer (rdata r) (rend r - rbegin r) 0)"
  have b2: "buff2 = (if ?b' < ?b then ?left else A) @ rdata r @ C"
    unfolding buff2_def b1 d cp[OF assms(3)]
    by (subst overwrite_append) (use ll lA lB len in auto)
  define buff3 where "buff3 = (if ?ne \<noteq> rend r
      then overwrite buff2 (unat (rend r - ?nb)) (copyDataToBuffer (rdata i) (?ne - rend r) 0) else buff2)"
  have "overwrite (((if ?b' < ?b then ?left else A) @ rdata r) @ C @ []) (?e - min ?b ?b') ?right
      = ((if ?b' < ?b then ?left else A) @ rdata r) @ ?right @ []"
    by (rule overwrite_append) (use ll lA lC len lt in \<open>auto simp: min_def\<close>)
  then have b3: "buff3 = ?left @ rdata r @ ?right"
    using neq(2) lA lC unfolding buff3_def b2 d cp[OF assms(4)] by auto
  show ?thesis
  proof (cases "?nb \<noteq> rbegin r \<or> ?ne \<noteq> rend r")
    case True
    then have "byte_region_merge junk r i = Some (r\<lparr>rbegin := ?nb, rend := ?ne, rdata := buff3\<rparr>)"
      unfolding byte_region_merge_def Let_def buff0_def[symmetric] buff1_def[symmetric]
        buff2_def[symmetric] buff3_def[symmetric] using guard by simp
    then show ?thesis using b3 by simp
  next
    case False
    then show ?thesis using guard neq by (simp add: byte_region_merge_def Let_def not_less)
  qed
qed

lemma byte_region_split_eq:
  assumes "rgood x r" "region_sized r" "off x (rbegin r) < off x s" "off x s < off x (rend r)"
  shows "byte_region_split r s = Inr
    (\<lparr>rbegin = rbegin r, rend = s, rdata = take (off x s - off x (rbegin r)) (rdata r)\<rparr>,
     r\<lparr>rdata := drop (off x s - off x (rbegin r)) (rdata r), rbegin := s\<rparr>)"
proof -
  have u: "unat (s - rbegin r) = off x s - off x (rbegin r)"
    using assms(3) off_shift[of x "rbegin r" s] by (simp add: off_def)
  have l: "length (rdata r) = off x (rend r) - off x (rbegin r)"
    using assms region_sized_len by blast
  have fits: "fits32 (rdata r)" using assms(2) by (rule region_sized_fits)
  have "setDataFromByteArray (rdata r) 0 (s - rbegin r) =
      Inr (take (off x s - off x (rbegin r)) (rdata r))"
    using fits assms l u by (subst setDataFromByteArray_eq) simp_all
  moreover have "array_truncateData (rdata r) (s - rbegin r) 0 =
      Inr (drop (off x s - off x (rbegin r)) (rdata r))"
    using fits assms l u by (subst array_truncateData_eq) simp_all
  ultimately show ?thesis
    using split_guard[OF assms(1,3,4)] by (simp add: byte_region_split_def)
qed

interpretation byte_regions: region_methods "byte_class junk" region_sized
proof
  fix x r i
  assume a: "rgood x r" "rgood x i" "region_sized r" "region_sized i" "\<not> below x r i" "\<not> below x i r"
  let ?nb = "seqMin (rbegin r) (rbegin i)" and ?ne = "seqMax (rend r) (rend i)"
  have h: "in_half x (rbegin r)" "in_half x (rend r)" "in_half x (rbegin i)" "in_half x (rend i)"
    "off x (rbegin r) < off x (rend r)" "off x (rbegin i) < off x (rend i)"
    "off x (rbegin i) \<le> off x (rend r)" "off x (rbegin r) \<le> off x (rend i)"
    using a by (simp_all add: rgood_def below_def)
  have nb: "off x ?nb = min (off x (rbegin r)) (off x (rbegin i))"
    and ne: "off x ?ne = max (off x (rend r)) (off x (rend i))"
    using h by (auto simp: seqMin_iff[of x] seqMax_iff[of x])
  have "unat (?ne - ?nb) = off x ?ne - off x ?nb"
    using off_shift[of x ?nb ?ne] nb ne h by (simp add: off_def)
  then have "region_sized (r\<lparr>rbegin := ?nb, rend := ?ne,
    rdata := take (off x (rbegin r) - off x (rbegin i)) (rdata i) @ rdata r
      @ take (off x (rend i) - off x (rend r)) (rdata i)\<rparr>)"
    using a region_sized_len[of x r] region_sized_len[of x i] h nb ne
    by (auto simp: region_sized_def min_def max_def)
  then show "\<exists>r'. rc_merge (byte_class junk) r i = Some r' \<and> region_sized r'
        \<and> off x (rbegin r') = min (off x (rbegin r)) (off x (rbegin i))
        \<and> off x (rend r') = max (off x (rend r)) (off x (rend i))"
    using byte_region_merge_eq[OF a] nb ne by (simp add: byte_class_def)
next
  fix x r s
  assume a: "rgood x r" "region_sized r" "off x (rbegin r) < off x s" "off x s < off x (rend r)"
  have "off (rbegin r) s = off x s - off x (rbegin r)" "off s (rend r) = off x (rend r) - off x s"
    using a off_shift[of x "rbegin r" s] off_shift[of x s "rend r"] by simp_all
  then show "\<exists>f t. rc_split (byte_class junk) r s = Inr (f, t) \<and> region_sized f \<and> region_sized t
      \<and> rbegin f = rbegin r \<and> rend f = s \<and> rbegin t = s \<and> rend t = rend r"
    using byte_region_split_eq[OF a] region_sized_len[of x r] a
    by (simp add: byte_class_def region_sized_def flip: off_def)
qed

section \<open>The content of byte-stream regions\<close>

text \<open>A region carries the bytes of a stream, given by distance above the base.\<close>

definition carries :: "u32 \<Rightarrow> (nat \<Rightarrow> u8) \<Rightarrow> ByteRegion \<Rightarrow> bool" where
  "carries x str r \<longleftrightarrow> rdata r = map str [off x (rbegin r)..<off x (rend r)]"

lemma take_upt_diff: "take n (map f [a..<b]) = map f [a..<min b (a + n)]"
  by (simp add: take_map min_def)

lemma upt_glue: "a \<le> b \<Longrightarrow> b \<le> c \<Longrightarrow> map f [a..<b] @ map f [b..<c] = map f [a..<c]"
  by (metis map_append upt_add_eq_append le_add_diff_inverse)

lemma carries_sized:
  assumes "rgood x r" "carries x str r"
  shows "region_sized r"
  using assms off_shift[of x "rbegin r" "rend r"]
  by (simp add: carries_def region_sized_def rgood_def off_def)

text \<open>
  Merging keeps the stream when the older region does not overlap the end of the new one:
  it ends inside it, or starts exactly where it ends.
\<close>

theorem byte_merge_keeps_stream:
  assumes "rgood x r" "rgood x i" "carries x str r" "carries x str i"
    and "\<not> below x r i" "\<not> below x i r"
    and "off x (rend i) \<le> off x (rend r) \<or> rbegin i = rend r"
  shows "\<exists>r'. byte_region_merge junk r i = Some r' \<and> carries x str r'"
proof -
  let ?b = "off x (rbegin r)" and ?e = "off x (rend r)" and ?b' = "off x (rbegin i)" and ?e' = "off x (rend i)"
  let ?nb = "seqMin (rbegin r) (rbegin i)" and ?ne = "seqMax (rend r) (rend i)"
  have h: "in_half x (rbegin r)" "in_half x (rend r)" "in_half x (rbegin i)" "in_half x (rend i)"
    and lt: "?b < ?e" "?b' < ?e'" and ov: "?b' \<le> ?e" "?b \<le> ?e'"
    using assms by (simp_all add: rgood_def below_def)
  have nb: "off x ?nb = min ?b ?b'" and ne: "off x ?ne = max ?e ?e'"
    using h by (auto simp: seqMin_iff[of x] seqMax_iff[of x])
  have left: "take (?b - ?b') (rdata i) @ rdata r = map str [min ?b ?b'..<?e]"
    using assms(3,4) lt ov upt_glue[of ?b' ?b ?e str]
    by (auto simp: carries_def take_upt_diff min_def)
  have right: "map str [min ?b ?b'..<?e] @ take (?e' - ?e) (rdata i) = map str [min ?b ?b'..<max ?e ?e']"
  proof (cases "?e' \<le> ?e")
    case False
    then have e: "?b' = ?e" using assms(7) by auto
    then show ?thesis using assms(4) lt upt_glue[of ?b ?e ?e' str]
      by (auto simp: carries_def min_def max_def)
  qed (simp add: max_def)
  have "carries x str (r\<lparr>rbegin := ?nb, rend := ?ne,
    rdata := take (?b - ?b') (rdata i) @ rdata r @ take (?e' - ?e) (rdata i)\<rparr>)"
    using left right nb ne by (simp add: carries_def flip: append_assoc)
  then show ?thesis
    using byte_region_merge_eq[OF assms(1,2) _ _ assms(5,6)] assms carries_sized by metis
qed

theorem byte_merge_keeps_stream_witness:
  "\<exists>r'. byte_region_merge [] \<lparr>rbegin = 0, rend = 2, rdata = [0, 0]\<rparr>
      \<lparr>rbegin = 2, rend = 3, rdata = [0]\<rparr> = Some r' \<and> carries 0 (\<lambda>_. 0) r'"
  by (rule byte_merge_keeps_stream)
     (simp_all add: rgood_def in_half_def off_def carries_def below_def upt_rec)


section \<open>The interface to the connection\<close>

text \<open>
  A connection holds a pointer to the abstract class \<^verbatim>\<open>TCPReceiveQueue\<close>; a queue is a value
  of one of the three subclasses, and a virtual call is a case distinction. By
  \<open>byte_region_merge_eq\<close> the initial content of the allocated buffer is immaterial.
\<close>

datatype TCPReceiveQueue =
    VirtualRcv VirtualRcvQueue
  | MsgRcv TCPMsgBasedRcvQueue
  | ByteRcv ByteStreamRcvQueue

definition rcvq_init :: "TCPReceiveQueue \<Rightarrow> u32 \<Rightarrow> TCPReceiveQueue" where
  "rcvq_init q s = (case q of
       VirtualRcv v \<Rightarrow> VirtualRcv (vrq_init v s)
     | MsgRcv m \<Rightarrow> MsgRcv (vrq_init m s)
     | ByteRcv b \<Rightarrow> ByteRcv (vrq_init b s))"

definition rcvq_insertBytesFromSegment ::
    "TCPReceiveQueue \<Rightarrow> TCPSegment \<Rightarrow> (TCPReceiveQueue \<times> TCPSegment \<times> u32) res" where
  "rcvq_insertBytesFromSegment q seg = (case q of
       VirtualRcv v \<Rightarrow> bind_res (virtual_insert v seg) (\<lambda>(q', r). Inr (VirtualRcv q', r))
     | MsgRcv m \<Rightarrow> bind_res (msg_rcv_insert m seg) (\<lambda>(q', r). Inr (MsgRcv q', r))
     | ByteRcv b \<Rightarrow> bind_res (byte_insert [] b seg) (\<lambda>(q', r). Inr (ByteRcv q', r)))"

definition rcvq_extractBytesUpTo ::
    "TCPReceiveQueue \<Rightarrow> u32 \<Rightarrow> (TCPReceiveQueue \<times> cPacket option) res" where
  "rcvq_extractBytesUpTo q s = (case q of
       VirtualRcv v \<Rightarrow> bind_res (virtual_extract v s) (\<lambda>(q', r). Inr (VirtualRcv q', r))
     | MsgRcv m \<Rightarrow> bind_res (msg_rcv_extract m s) (\<lambda>(q', r). Inr (MsgRcv q', r))
     | ByteRcv b \<Rightarrow> bind_res (byte_extract [] b s) (\<lambda>(q', r). Inr (ByteRcv q', r)))"

definition rcvq_getAmountOfBufferedBytes :: "TCPReceiveQueue \<Rightarrow> u32" where
  "rcvq_getAmountOfBufferedBytes q = (case q of
       VirtualRcv v \<Rightarrow> vrq_getAmountOfBufferedBytes v
     | MsgRcv m \<Rightarrow> vrq_getAmountOfBufferedBytes m
     | ByteRcv b \<Rightarrow> vrq_getAmountOfBufferedBytes b)"

definition rcvq_getAmountOfFreeBytes :: "TCPReceiveQueue \<Rightarrow> u32 \<Rightarrow> u32" where
  "rcvq_getAmountOfFreeBytes q n = (case q of
       VirtualRcv v \<Rightarrow> vrq_getAmountOfFreeBytes v n
     | MsgRcv m \<Rightarrow> vrq_getAmountOfFreeBytes m n
     | ByteRcv b \<Rightarrow> vrq_getAmountOfFreeBytes b n)"

definition rcvq_getQueueLength :: "TCPReceiveQueue \<Rightarrow> u32" where
  "rcvq_getQueueLength q = (case q of
       VirtualRcv v \<Rightarrow> vrq_getQueueLength v
     | MsgRcv m \<Rightarrow> vrq_getQueueLength m
     | ByteRcv b \<Rightarrow> vrq_getQueueLength b)"

definition rcvq_getLE :: "TCPReceiveQueue \<Rightarrow> u32 \<Rightarrow> u32" where
  "rcvq_getLE q s = (case q of
       VirtualRcv v \<Rightarrow> vrq_getLE v s | MsgRcv m \<Rightarrow> vrq_getLE m s | ByteRcv b \<Rightarrow> vrq_getLE b s)"

definition rcvq_getRE :: "TCPReceiveQueue \<Rightarrow> u32 \<Rightarrow> u32" where
  "rcvq_getRE q s = (case q of
       VirtualRcv v \<Rightarrow> vrq_getRE v s | MsgRcv m \<Rightarrow> vrq_getRE m s | ByteRcv b \<Rightarrow> vrq_getRE b s)"

definition rcvq_getFirstSeqNo :: "TCPReceiveQueue \<Rightarrow> u32" where
  "rcvq_getFirstSeqNo q = (case q of
       VirtualRcv v \<Rightarrow> vrq_getFirstSeqNo v
     | MsgRcv m \<Rightarrow> vrq_getFirstSeqNo m
     | ByteRcv b \<Rightarrow> vrq_getFirstSeqNo b)"

text \<open>
  The loop of the connection that passes data up:
  \<^verbatim>\<open>while ((msg = receiveQueue->extractBytesUpTo(state->rcv_nxt)) != NULL)\<close>.
\<close>

partial_function (option) drain :: "('q \<Rightarrow> u32 \<Rightarrow> ('q \<times> cPacket option) res) \<Rightarrow> 'q \<Rightarrow> u32
    \<Rightarrow> cPacket list \<Rightarrow> ('q \<times> cPacket list) res option" where
  "drain get q n acc =
     (case get q n of
        Inl e \<Rightarrow> Some (Inl e)
      | Inr (q', None) \<Rightarrow> Some (Inr (q', acc))
      | Inr (q', Some m) \<Rightarrow> drain get q' n (acc @ [m]))"

declare drain.simps [code]

text \<open>
  What a receive queue promises its connection. \<open>held\<close> are the distances of the bytes it holds;
  \<open>seg_ok\<close> is what a queue needs of the payload of a segment.
\<close>

locale receive_queue =
  fixes nxt :: "'q \<Rightarrow> u32"
    and first :: "'q \<Rightarrow> u32"
    and insert :: "'q \<Rightarrow> TCPSegment \<Rightarrow> ('q \<times> TCPSegment \<times> u32) res"
    and get :: "'q \<Rightarrow> u32 \<Rightarrow> ('q \<times> cPacket option) res"
    and inv :: "u32 \<Rightarrow> 'q \<Rightarrow> bool"
    and held :: "u32 \<Rightarrow> 'q \<Rightarrow> nat set"
    and seg_ok :: "u32 \<Rightarrow> TCPSegment \<Rightarrow> bool"
  assumes held_finite: "inv x q \<Longrightarrow> finite (held x q)"
    and insert_law: "\<lbrakk>inv x q; rgood x (createRegionFromSegment seg); seg_ok x seg;
        off x (first q) \<le> off x (sequenceNo seg)\<rbrakk>
      \<Longrightarrow> \<exists>q' seg' n. insert q seg = Inr (q', seg', n) \<and> inv x q' \<and> n = nxt q'
        \<and> held x q' = rbytes x (createRegionFromSegment seg) \<union> held x q
        \<and> off x (nxt q) \<le> off x n \<and> {off x (nxt q)..<off x n} \<subseteq> held x q'
        \<and> off x n \<notin> held x q'"
    and extract_law: "inv x q \<Longrightarrow> \<exists>q' m. get q (nxt q) = Inr (q', m) \<and> inv x q'
        \<and> nxt q' = nxt q \<and> held x q' \<subseteq> held x q
        \<and> (\<forall>d\<in>held x q - held x q'. d < off x (nxt q))
        \<and> (m \<noteq> None \<longrightarrow> held x q' \<noteq> held x q)"
begin

text \<open>Draining ends, and keeps every byte that is not yet in sequence.\<close>

lemma drain_ends:
  assumes "inv x q"
  shows "\<exists>q' ms. drain get q (nxt q) acc = Some (Inr (q', ms)) \<and> inv x q' \<and> nxt q' = nxt q
    \<and> held x q' \<subseteq> held x q \<and> (\<forall>d\<in>held x q - held x q'. d < off x (nxt q))"
  using assms
proof (induction "card (held x q)" arbitrary: q acc rule: less_induct)
  case less
  obtain q' m where e: "get q (nxt q) = Inr (q', m)" "inv x q'" "nxt q' = nxt q"
      "held x q' \<subseteq> held x q" "\<forall>d\<in>held x q - held x q'. d < off x (nxt q)"
      "m \<noteq> None \<longrightarrow> held x q' \<noteq> held x q"
    using extract_law[OF less.prems] by metis
  show ?case
  proof (cases m)
    case None
    then show ?thesis using e by (subst drain.simps) auto
  next
    case (Some p)
    then have "card (held x q') < card (held x q)"
      using e held_finite[OF less.prems] by (intro psubset_card_mono) auto
    then obtain q'' ms where d: "drain get q' (nxt q') (acc @ [p]) = Some (Inr (q'', ms))"
        "inv x q''" "nxt q'' = nxt q'" "held x q'' \<subseteq> held x q'"
        "\<forall>d\<in>held x q' - held x q''. d < off x (nxt q')"
      using less.hyps e(2) by blast
    have "drain get q (nxt q) acc = Some (Inr (q'', ms))"
      using e Some d(1) by (subst drain.simps) simp
    moreover have "held x q'' \<subseteq> held x q" using d(4) e(4) by blast
    moreover have "\<forall>d\<in>held x q - held x q''. d < off x (nxt q)" using d(5) e(3,5) by auto
    ultimately show ?thesis using d(2,3) e(3) by auto
  qed
qed

text \<open>Receiving a segment and passing the data up: the bytes above the new \<open>nxt\<close> stay.\<close>

lemma receive_and_drain:
  assumes "inv x q" "rgood x (createRegionFromSegment seg)" "seg_ok x seg"
    and "off x (first q) \<le> off x (sequenceNo seg)"
  obtains q1 seg' q2 ms where "insert q seg = Inr (q1, seg', nxt q1)"
    "drain get q1 (nxt q1) [] = Some (Inr (q2, ms))" "inv x q2" "nxt q2 = nxt q1"
    "off x (nxt q) \<le> off x (nxt q1)"
    "\<And>d. off x (nxt q) \<le> d \<Longrightarrow> d < off x (nxt q1) \<Longrightarrow>
        d \<in> rbytes x (createRegionFromSegment seg) \<union> held x q"
    "\<And>d. off x (nxt q1) \<le> d \<Longrightarrow>
        d \<in> held x q2 \<longleftrightarrow> d \<in> rbytes x (createRegionFromSegment seg) \<union> held x q"
    "off x (nxt q1) \<notin> rbytes x (createRegionFromSegment seg) \<union> held x q"
proof -
  obtain q1 seg' where i: "insert q seg = Inr (q1, seg', nxt q1)" "inv x q1"
      "held x q1 = rbytes x (createRegionFromSegment seg) \<union> held x q"
      "off x (nxt q) \<le> off x (nxt q1)" "{off x (nxt q)..<off x (nxt q1)} \<subseteq> held x q1"
      "off x (nxt q1) \<notin> held x q1"
    using insert_law[OF assms] by metis
  obtain q2 ms where d: "drain get q1 (nxt q1) [] = Some (Inr (q2, ms))" "inv x q2"
      "nxt q2 = nxt q1" "held x q2 \<subseteq> held x q1" "\<forall>d\<in>held x q1 - held x q2. d < off x (nxt q1)"
    using drain_ends[OF i(2)] by metis
  show thesis
  proof (rule that[OF i(1) d(1-3) i(4)])
    show "d \<in> rbytes x (createRegionFromSegment seg) \<union> held x q"
      if "off x (nxt q) \<le> d" "d < off x (nxt q1)" for d
      using i(3,5) that by auto
    show "d \<in> held x q2 \<longleftrightarrow> d \<in> rbytes x (createRegionFromSegment seg) \<union> held x q"
      if "off x (nxt q1) \<le> d" for d
      using d(4,5) i(3) that by (auto simp: not_le[symmetric])
    show "off x (nxt q1) \<notin> rbytes x (createRegionFromSegment seg) \<union> held x q"
      using i(3,6) by simp
  qed
qed

end

lemma rset_finite [simp]: "finite (rset x rs)"
  by (simp add: rset_def rbytes_def)

lemma rbytes_nonempty: "rgood x r \<Longrightarrow> rbytes x r \<noteq> {}"
  using rgood_first_byte by blast

lemma rbytes_below: "d \<in> rbytes x r \<Longrightarrow> d < off x (rend r)"
  by (simp add: rbytes_def)

interpretation virtual_queue: receive_queue rq_rcv_nxt vrq_getFirstSeqNo virtual_insert virtual_extract
  "virtual_regions.rcv_inv" "\<lambda>x q. rset x (regionList q)" "\<lambda>x seg. True"
proof
  fix x and q :: VirtualRcvQueue and seg :: TCPSegment
  assume a: "virtual_regions.rcv_inv x q" "rgood x (createRegionFromSegment seg)"
    "off x (vrq_getFirstSeqNo q) \<le> off x (sequenceNo seg)"
  show "\<exists>q' seg' n. virtual_insert q seg = Inr (q', seg', n) \<and> virtual_regions.rcv_inv x q'
      \<and> n = rq_rcv_nxt q'
      \<and> rset x (regionList q') = rbytes x (createRegionFromSegment seg) \<union> rset x (regionList q)
      \<and> off x (rq_rcv_nxt q) \<le> off x n \<and> {off x (rq_rcv_nxt q)..<off x n} \<subseteq> rset x (regionList q')
      \<and> off x n \<notin> rset x (regionList q')"
    by (rule virtual_regions.insert_ok[OF a(1,2)])
       (use a(3) in \<open>auto simp: virtual_insert_def createRegionFromSegment_def\<close>)
next
  fix x and q :: VirtualRcvQueue
  assume a: "virtual_regions.rcv_inv x q"
  then have h: "in_half x (rq_rcv_nxt q)" by (simp add: virtual_regions.rcv_inv_def)
  show "\<exists>q' m. virtual_extract q (rq_rcv_nxt q) = Inr (q', m) \<and> virtual_regions.rcv_inv x q'
      \<and> rq_rcv_nxt q' = rq_rcv_nxt q \<and> rset x (regionList q') \<subseteq> rset x (regionList q)
      \<and> (\<forall>d\<in>rset x (regionList q) - rset x (regionList q'). d < off x (rq_rcv_nxt q))
      \<and> (m \<noteq> None \<longrightarrow> rset x (regionList q') \<noteq> rset x (regionList q))"
  proof (rule virtual_regions.extract_ok[OF a h order_refl], goal_cases)
    case 1
    then show ?case using a by (simp add: virtual_extract_def)
  next
    case (2 reg rs)
    then show ?case using rbytes_nonempty[of x reg] by (auto simp: virtual_extract_def dest: rbytes_below)
  qed
qed simp

text \<open>The byte-stream queue: a segment announces the length of the bytes it carries.\<close>

interpretation byte_queue: receive_queue rq_rcv_nxt vrq_getFirstSeqNo "byte_insert junk" "byte_extract junk"
  "byte_regions.rcv_inv" "\<lambda>x q. rset x (regionList q)"
  "\<lambda>x seg. payloadLength seg = getDataArraySize (byteArray seg) \<and> fits32 (byteArray seg)"
proof
  fix x and q :: ByteStreamRcvQueue and seg :: TCPSegment
  let ?r = "\<lparr>rbegin = sequenceNo seg, rend = sequenceNo seg + payloadLength seg, rdata = byteArray seg\<rparr>"
  assume a: "byte_regions.rcv_inv x q" "rgood x (createRegionFromSegment seg)"
    "payloadLength seg = getDataArraySize (byteArray seg) \<and> fits32 (byteArray seg)"
    "off x (vrq_getFirstSeqNo q) \<le> off x (sequenceNo seg)"
  have r: "rgood x ?r" "rbytes x ?r = rbytes x (createRegionFromSegment seg)"
    using a(2) by (simp_all add: rgood_def rbytes_def createRegionFromSegment_def)
  have ok: "region_sized ?r" using a(3) by (simp add: region_sized_def)
  show "\<exists>q' seg' n. byte_insert junk q seg = Inr (q', seg', n) \<and> byte_regions.rcv_inv x q'
      \<and> n = rq_rcv_nxt q'
      \<and> rset x (regionList q') = rbytes x (createRegionFromSegment seg) \<union> rset x (regionList q)
      \<and> off x (rq_rcv_nxt q) \<le> off x n \<and> {off x (rq_rcv_nxt q)..<off x n} \<subseteq> rset x (regionList q')
      \<and> off x n \<notin> rset x (regionList q')"
    by (rule byte_regions.insert_ok[OF a(1) r(1) ok, of junk])
       (use a(3,4) r(2) in \<open>auto simp: byte_insert_def byte_createRegionFromSegment_def\<close>)
next
  fix x and q :: ByteStreamRcvQueue
  assume a: "byte_regions.rcv_inv x q"
  then have h: "in_half x (rq_rcv_nxt q)" by (simp add: byte_regions.rcv_inv_def)
  show "\<exists>q' m. byte_extract junk q (rq_rcv_nxt q) = Inr (q', m) \<and> byte_regions.rcv_inv x q'
      \<and> rq_rcv_nxt q' = rq_rcv_nxt q \<and> rset x (regionList q') \<subseteq> rset x (regionList q)
      \<and> (\<forall>d\<in>rset x (regionList q) - rset x (regionList q'). d < off x (rq_rcv_nxt q))
      \<and> (m \<noteq> None \<longrightarrow> rset x (regionList q') \<noteq> rset x (regionList q))"
  proof (rule byte_regions.extract_ok[OF a h order_refl, of junk], goal_cases)
    case 1
    then show ?case using a by (simp add: byte_extract_def)
  next
    case (2 reg rs)
    have "byte_copyTo reg = Inr \<lparr>pk_id = 0, pk_byteLength = uint (region_getLength reg),
        pk_byteArray = Some (rdata reg)\<rparr>"
      using 2 by (simp add: byte_copyTo_def region_sized_def region_getLength_def getDataArraySize_def)
    then show ?case using 2 rbytes_nonempty[of x reg] by (auto simp: byte_extract_def dest: rbytes_below)
  qed
qed simp

text \<open>The message list is sorted by the sequence numbers behind the messages.\<close>

definition msgs_sorted :: "u32 \<Rightarrow> u32 list \<Rightarrow> bool" where
  "msgs_sorted x ss \<longleftrightarrow> sorted_wrt (\<lambda>a b. off x a < off x b) ss \<and> (\<forall>a\<in>set ss. in_half x a)"

lemma msgs_sorted_append: "msgs_sorted x (as @ bs) \<longleftrightarrow>
    msgs_sorted x as \<and> msgs_sorted x bs \<and> (\<forall>a\<in>set as. \<forall>b\<in>set bs. off x a < off x b)"
  by (auto simp: msgs_sorted_def sorted_wrt_append)

lemma msgs_sorted_ends:
  assumes "msgs_sorted x ss" "ss \<noteq> []"
  shows "seqLE (hd ss) (last ss)"
proof (cases ss)
  case (Cons a rest)
  then have "in_half x a" "in_half x (last ss)" "off x a \<le> off x (last ss)"
    using assms by (auto simp: msgs_sorted_def less_imp_le)
  then show ?thesis using Cons by (simp add: seqLE_iff[of x])
qed (use assms in simp)

lemma msgs_sorted_map_ends:
  "msgs_sorted x (map f xs) \<Longrightarrow> xs \<noteq> [] \<Longrightarrow> seqLE (f (hd xs)) (f (last xs))"
  using msgs_sorted_ends[of x "map f xs"] by (simp add: hd_map last_map)

lemma msg_insert_loop_ok:
  assumes "msgs_sorted x (map pi_seqNo (rev passed @ rest))" "msgs_sorted x (map pm_endSequenceNo ms)"
    and "\<forall>p\<in>set passed. \<forall>m\<in>set ms. off x (pi_seqNo p) < off x (pm_endSequenceNo m)"
  shows "\<exists>out. msg_insert_loop ms passed rest = Inr out \<and> msgs_sorted x (map pi_seqNo out)"
  using assms
proof (induction ms arbitrary: passed rest)
  case (Cons m ms)
  let ?e = "pm_endSequenceNo m"
  define tk where "tk = takeWhile (\<lambda>i. seqLess (pi_seqNo i) ?e) rest"
  define dr where "dr = dropWhile (\<lambda>i. seqLess (pi_seqNo i) ?e) rest"
  have rest: "rest = tk @ dr" by (simp add: tk_def dr_def)
  have he: "in_half x ?e" using Cons.prems(2) by (simp add: msgs_sorted_def)
  have hr: "in_half x (pi_seqNo i)" if "i \<in> set rest" for i
    using Cons.prems(1) that by (simp add: msgs_sorted_def)
  have tkl: "off x (pi_seqNo i) < off x ?e" if "i \<in> set tk" for i
  proof -
    have "i \<in> set rest" "seqLess (pi_seqNo i) ?e"
      using that set_takeWhileD by (fastforce simp: tk_def)+
    then show ?thesis using he hr by (simp add: seqLess_iff[of x])
  qed
  have lt: "off x (pi_seqNo p) < off x (pm_endSequenceNo m')"
    if "p \<in> set (rev tk @ passed)" "m' \<in> set ms" for p m'
    using that Cons.prems(2,3) tkl by (fastforce simp: msgs_sorted_def)
  have srt: "msgs_sorted x (map pi_seqNo (rev (rev tk @ passed) @ dr))"
    using Cons.prems(1) rest by simp
  have ms: "msgs_sorted x (map pm_endSequenceNo ms)"
    using Cons.prems(2) by (simp add: msgs_sorted_def)
  let ?new = "\<lparr>pi_seqNo = ?e, pi_packet = pm_msg m\<rparr> # dr"
  have step: "msg_insert_loop (m # ms) passed rest =
    (if dr \<noteq> [] \<and> pi_seqNo (hd dr) = ?e then msg_insert_loop ms (rev tk @ passed) dr
     else ASSERT (seqLE (pi_seqNo (hd (rev (rev tk @ passed) @ ?new)))
                        (pi_seqNo (last (rev (rev tk @ passed) @ ?new))))
            (msg_insert_loop ms (rev tk @ passed) ?new))"
    by (simp only: msg_insert_loop.simps Let_def tk_def dr_def)
  show ?case
  proof (cases "dr \<noteq> [] \<and> pi_seqNo (hd dr) = ?e")
    case True
    then show ?thesis
      unfolding step using Cons.IH[OF srt ms] lt by simp
  next
    case False
    let ?i = "\<lparr>pi_seqNo = ?e, pi_packet = pm_msg m\<rparr>"
    have drl: "off x ?e < off x (pi_seqNo i)" if i: "i \<in> set dr" for i
    proof -
      obtain j dr' where j: "dr = j # dr'" using i by (cases dr) auto
      have "\<not> seqLess (pi_seqNo j) ?e" using j hd_dropWhile[of "\<lambda>i. seqLess (pi_seqNo i) ?e" rest]
        by (simp add: dr_def)
      moreover have "j \<in> set rest" using j rest by simp
      ultimately have "off x ?e < off x (pi_seqNo j)"
        using False j he hr[of j] off_inj[of x ?e "pi_seqNo j"]
        by (simp add: seqLess_iff[of x] del: off_inj)
      then show ?thesis using srt i j by (fastforce simp: msgs_sorted_def sorted_wrt_append)
    qed
    have srt': "msgs_sorted x (map pi_seqNo (rev (rev tk @ passed) @ ?i # dr))"
      using srt drl tkl Cons.prems(3) he by (auto simp: msgs_sorted_def sorted_wrt_append)
    have "seqLE (pi_seqNo (hd (rev (rev tk @ passed) @ ?i # dr)))
        (pi_seqNo (last (rev (rev tk @ passed) @ ?i # dr)))"
      by (rule msgs_sorted_map_ends[OF srt']) simp
    moreover have "\<exists>out. msg_insert_loop ms (rev tk @ passed) ?new = Inr out
        \<and> msgs_sorted x (map pi_seqNo out)"
      by (rule Cons.IH[OF srt' ms]) (use lt in blast)
    ultimately show ?thesis unfolding step if_not_P[OF False] ASSERT_def by simp
  qed
qed simp

definition msg_inv :: "u32 \<Rightarrow> TCPMsgBasedRcvQueue \<Rightarrow> bool" where
  "msg_inv x q \<longleftrightarrow> virtual_regions.rcv_inv x q \<and> msgs_sorted x (map pi_seqNo (msgList q))"

lemma virtual_rcv_inv_ext:
  "virtual_regions.rcv_inv x q \<Longrightarrow> regionList q' = regionList q \<Longrightarrow> rq_rcv_nxt q' = rq_rcv_nxt q
    \<Longrightarrow> virtual_regions.rcv_inv x q'"
  by (simp add: virtual_regions.rcv_inv_def)

interpretation msg_queue: receive_queue rq_rcv_nxt vrq_getFirstSeqNo msg_rcv_insert msg_rcv_extract
  msg_inv "\<lambda>x q. rset x (regionList q)"
  "\<lambda>x seg. msgs_sorted x (map pm_endSequenceNo (payloadList seg))"
proof
  fix x and q :: TCPMsgBasedRcvQueue and seg :: TCPSegment
  assume a: "msg_inv x q" "rgood x (createRegionFromSegment seg)"
    "msgs_sorted x (map pm_endSequenceNo (payloadList seg))"
    "off x (vrq_getFirstSeqNo q) \<le> off x (sequenceNo seg)"
  have m: "virtual_regions.rcv_inv x q" "msgs_sorted x (map pi_seqNo (rev [] @ msgList q))"
    using a(1) by (simp_all add: msg_inv_def)
  obtain out where out: "msg_insert_loop (payloadList seg) [] (msgList q) = Inr out"
      "msgs_sorted x (map pi_seqNo out)"
    using msg_insert_loop_ok[OF m(2) a(3)] by auto
  have first: "off x (vrq_getFirstSeqNo q) \<le> off x (rbegin (createRegionFromSegment seg))"
    using a(4) by (simp add: createRegionFromSegment_def)
  show "\<exists>q' seg' n. msg_rcv_insert q seg = Inr (q', seg', n) \<and> msg_inv x q' \<and> n = rq_rcv_nxt q'
      \<and> rset x (regionList q') = rbytes x (createRegionFromSegment seg) \<union> rset x (regionList q)
      \<and> off x (rq_rcv_nxt q) \<le> off x n \<and> {off x (rq_rcv_nxt q)..<off x n} \<subseteq> rset x (regionList q')
      \<and> off x n \<notin> rset x (regionList q')"
  proof (rule virtual_regions.insert_ok[OF m(1) a(2) TrueI first], goal_cases)
    case (1 q' rs n)
    have "msgList q' = msgList q" using 1(3) by simp
    moreover have "msg_inv x (q'\<lparr>msgList := out\<rparr>)"
      using virtual_rcv_inv_ext[OF 1(2), of "q'\<lparr>msgList := out\<rparr>"] out(2) by (simp add: msg_inv_def)
    ultimately show ?case using 1 out(1) by (auto simp: msg_rcv_insert_def)
  qed
next
  fix x and q :: TCPMsgBasedRcvQueue
  assume a: "msg_inv x q"
  let ?n = "rq_rcv_nxt q"
  let ?s = "case msgList q of p # _ \<Rightarrow> if seqLess (pi_seqNo p) ?n then pi_seqNo p else ?n | [] \<Rightarrow> ?n"
  have v: "virtual_regions.rcv_inv x q" "in_half x ?n"
    using a by (auto simp: msg_inv_def virtual_regions.rcv_inv_def)
  have s: "in_half x ?s" "off x ?s \<le> off x ?n"
    using v(2) a by (auto simp: msg_inv_def msgs_sorted_def seqLess_iff[of x] split: list.splits)
  show "\<exists>q' m. msg_rcv_extract q ?n = Inr (q', m) \<and> msg_inv x q' \<and> rq_rcv_nxt q' = ?n
      \<and> rset x (regionList q') \<subseteq> rset x (regionList q)
      \<and> (\<forall>d\<in>rset x (regionList q) - rset x (regionList q'). d < off x ?n)
      \<and> (m \<noteq> None \<longrightarrow> rset x (regionList q') \<noteq> rset x (regionList q))"
  proof (rule virtual_regions.extract_ok[OF v(1) s], goal_cases)
    case 1
    then show ?case using a by (simp add: msg_rcv_extract_def Let_def)
  next
    case (2 reg rs)
    let ?q = "q\<lparr>regionList := rs\<rparr>"
    have inv: "msg_inv x ?q" "\<And>ps p. msgList q = p # ps \<Longrightarrow> msg_inv x (?q\<lparr>msgList := ps\<rparr>)"
      using 2(3) a virtual_rcv_inv_ext[OF 2(3), of "?q\<lparr>msgList := ps\<rparr>" for ps]
      by (auto simp: msg_inv_def msgs_sorted_def)
    have un: "rset x (regionList q) = rbytes x reg \<union> rset x rs" "rbytes x reg \<inter> rset x rs = {}"
      "rbytes x reg \<noteq> {}" "off x (rend reg) \<le> off x ?n"
      using 2(4,6,7) rbytes_nonempty[of x reg] s(2) unfolding 2(5) by simp_all
    have sub: "rset x rs \<subseteq> rset x (regionList q)" "rset x rs \<noteq> rset x (regionList q)"
      "\<forall>d\<in>rset x (regionList q) - rset x rs. d < off x ?n"
    proof -
      show "rset x rs \<subseteq> rset x (regionList q)" "rset x rs \<noteq> rset x (regionList q)"
        using un(1-3) by blast+
      show "\<forall>d\<in>rset x (regionList q) - rset x rs. d < off x ?n"
        using un(1,4) rbytes_below[of _ x reg] by (auto intro: less_le_trans)
    qed
    show ?case
    proof (cases "msgList q")
      case Nil
      then show ?thesis using 2(1) inv(1) sub by (simp add: msg_rcv_extract_def)
    next
      case (Cons p ps)
      then show ?thesis using 2(1) inv sub by (auto simp: msg_rcv_extract_def Let_def)
    qed
  qed
qed simp

text \<open>The contract of the abstract class, for whichever subclass the connection has.\<close>

definition rcvq_nxt :: "TCPReceiveQueue \<Rightarrow> u32" where
  "rcvq_nxt q = (case q of VirtualRcv v \<Rightarrow> rq_rcv_nxt v | MsgRcv m \<Rightarrow> rq_rcv_nxt m
     | ByteRcv b \<Rightarrow> rq_rcv_nxt b)"

definition rcvq_held :: "u32 \<Rightarrow> TCPReceiveQueue \<Rightarrow> nat set" where
  "rcvq_held x q = (case q of VirtualRcv v \<Rightarrow> rset x (regionList v) | MsgRcv m \<Rightarrow> rset x (regionList m)
     | ByteRcv b \<Rightarrow> rset x (regionList b))"

definition rcvq_inv :: "u32 \<Rightarrow> TCPReceiveQueue \<Rightarrow> bool" where
  "rcvq_inv x q = (case q of VirtualRcv v \<Rightarrow> virtual_regions.rcv_inv x v | MsgRcv m \<Rightarrow> msg_inv x m
     | ByteRcv b \<Rightarrow> byte_regions.rcv_inv x b)"

definition rcv_segment_ok :: "u32 \<Rightarrow> TCPSegment \<Rightarrow> bool" where
  "rcv_segment_ok x seg \<longleftrightarrow> payloadLength seg = getDataArraySize (byteArray seg)
     \<and> fits32 (byteArray seg) \<and> msgs_sorted x (map pm_endSequenceNo (payloadList seg))"

lemmas rcvq_cases = rcvq_nxt_def rcvq_held_def rcvq_inv_def rcvq_getFirstSeqNo_def
  rcvq_insertBytesFromSegment_def rcvq_extractBytesUpTo_def

interpretation any_queue: receive_queue rcvq_nxt rcvq_getFirstSeqNo rcvq_insertBytesFromSegment
  rcvq_extractBytesUpTo rcvq_inv rcvq_held rcv_segment_ok
proof
  fix x q
  show "rcvq_inv x q \<Longrightarrow> finite (rcvq_held x q)"
    by (simp add: rcvq_held_def split: TCPReceiveQueue.splits)
next
  fix x q seg
  assume a: "rcvq_inv x q" "rgood x (createRegionFromSegment seg)" "rcv_segment_ok x seg"
    "off x (rcvq_getFirstSeqNo q) \<le> off x (sequenceNo seg)"
  show "\<exists>q' seg' n. rcvq_insertBytesFromSegment q seg = Inr (q', seg', n) \<and> rcvq_inv x q'
      \<and> n = rcvq_nxt q'
      \<and> rcvq_held x q' = rbytes x (createRegionFromSegment seg) \<union> rcvq_held x q
      \<and> off x (rcvq_nxt q) \<le> off x n \<and> {off x (rcvq_nxt q)..<off x n} \<subseteq> rcvq_held x q'
      \<and> off x n \<notin> rcvq_held x q'"
  proof (cases q)
    case (VirtualRcv v)
    then obtain q' seg' n where "virtual_insert v seg = Inr (q', seg', n) \<and> virtual_regions.rcv_inv x q'
        \<and> n = rq_rcv_nxt q'
        \<and> rset x (regionList q') = rbytes x (createRegionFromSegment seg) \<union> rset x (regionList v)
        \<and> off x (rq_rcv_nxt v) \<le> off x n \<and> {off x (rq_rcv_nxt v)..<off x n} \<subseteq> rset x (regionList q')
        \<and> off x n \<notin> rset x (regionList q')"
      using virtual_queue.insert_law[of x v seg] a by (auto simp: rcvq_cases)
    then show ?thesis using VirtualRcv by (intro exI[of _ "VirtualRcv q'"]) (auto simp: rcvq_cases)
  next
    case (MsgRcv m)
    then obtain q' seg' n where "msg_rcv_insert m seg = Inr (q', seg', n) \<and> msg_inv x q'
        \<and> n = rq_rcv_nxt q'
        \<and> rset x (regionList q') = rbytes x (createRegionFromSegment seg) \<union> rset x (regionList m)
        \<and> off x (rq_rcv_nxt m) \<le> off x n \<and> {off x (rq_rcv_nxt m)..<off x n} \<subseteq> rset x (regionList q')
        \<and> off x n \<notin> rset x (regionList q')"
      using msg_queue.insert_law[of x m seg] a by (auto simp: rcvq_cases rcv_segment_ok_def)
    then show ?thesis using MsgRcv by (intro exI[of _ "MsgRcv q'"]) (auto simp: rcvq_cases)
  next
    case (ByteRcv b)
    then obtain q' seg' n where "byte_insert [] b seg = Inr (q', seg', n) \<and> byte_regions.rcv_inv x q'
        \<and> n = rq_rcv_nxt q'
        \<and> rset x (regionList q') = rbytes x (createRegionFromSegment seg) \<union> rset x (regionList b)
        \<and> off x (rq_rcv_nxt b) \<le> off x n \<and> {off x (rq_rcv_nxt b)..<off x n} \<subseteq> rset x (regionList q')
        \<and> off x n \<notin> rset x (regionList q')"
      using byte_queue.insert_law[of x b seg "[]"] a by (auto simp: rcvq_cases rcv_segment_ok_def)
    then show ?thesis using ByteRcv by (intro exI[of _ "ByteRcv q'"]) (auto simp: rcvq_cases)
  qed
next
  fix x q
  assume a: "rcvq_inv x q"
  show "\<exists>q' m. rcvq_extractBytesUpTo q (rcvq_nxt q) = Inr (q', m) \<and> rcvq_inv x q'
      \<and> rcvq_nxt q' = rcvq_nxt q \<and> rcvq_held x q' \<subseteq> rcvq_held x q
      \<and> (\<forall>d\<in>rcvq_held x q - rcvq_held x q'. d < off x (rcvq_nxt q))
      \<and> (m \<noteq> None \<longrightarrow> rcvq_held x q' \<noteq> rcvq_held x q)"
  proof (cases q)
    case (VirtualRcv v)
    then obtain q' m where "virtual_extract v (rq_rcv_nxt v) = Inr (q', m)" "virtual_regions.rcv_inv x q'"
      "rq_rcv_nxt q' = rq_rcv_nxt v" "rset x (regionList q') \<subseteq> rset x (regionList v)"
      "\<forall>d\<in>rset x (regionList v) - rset x (regionList q'). d < off x (rq_rcv_nxt v)"
      "m \<noteq> None \<longrightarrow> rset x (regionList q') \<noteq> rset x (regionList v)"
      using virtual_queue.extract_law[of x v] a by (auto simp: rcvq_cases)
    then show ?thesis using VirtualRcv by (intro exI[of _ "VirtualRcv q'"]) (auto simp: rcvq_cases)
  next
    case (MsgRcv v)
    then obtain q' m where "msg_rcv_extract v (rq_rcv_nxt v) = Inr (q', m)" "msg_inv x q'"
      "rq_rcv_nxt q' = rq_rcv_nxt v" "rset x (regionList q') \<subseteq> rset x (regionList v)"
      "\<forall>d\<in>rset x (regionList v) - rset x (regionList q'). d < off x (rq_rcv_nxt v)"
      "m \<noteq> None \<longrightarrow> rset x (regionList q') \<noteq> rset x (regionList v)"
      using msg_queue.extract_law[of x v] a by (auto simp: rcvq_cases)
    then show ?thesis using MsgRcv by (intro exI[of _ "MsgRcv q'"]) (auto simp: rcvq_cases)
  next
    case (ByteRcv v)
    then obtain q' m where "byte_extract [] v (rq_rcv_nxt v) = Inr (q', m)" "byte_regions.rcv_inv x q'"
      "rq_rcv_nxt q' = rq_rcv_nxt v" "rset x (regionList q') \<subseteq> rset x (regionList v)"
      "\<forall>d\<in>rset x (regionList v) - rset x (regionList q'). d < off x (rq_rcv_nxt v)"
      "m \<noteq> None \<longrightarrow> rset x (regionList q') \<noteq> rset x (regionList v)"
      using byte_queue.extract_law[of x v "[]"] a by (auto simp: rcvq_cases)
    then show ?thesis using ByteRcv by (intro exI[of _ "ByteRcv q'"]) (auto simp: rcvq_cases)
  qed
qed

section \<open>The receiver's properties\<close>


text \<open>A queue that waits for 1000 and holds the bytes 1500 to 1999, and the segment that fills the gap.\<close>

definition rcv_example :: TCPReceiveQueue where
  "rcv_example = VirtualRcv \<lparr>rq_rcv_nxt = 1000, regionList = [\<lparr>rbegin = 1500, rend = 2000\<rparr>]\<rparr>"

definition seg_example :: TCPSegment where
  "seg_example = new_TCPSegment\<lparr>sequenceNo := 1000, payloadLength := 4, byteArray := [1, 2, 3, 4]\<rparr>"

lemmas rcv_example_eval = rcv_example_def seg_example_def new_TCPSegment_def rcvq_inv_def
  virtual_regions.rcv_inv_def apart_def rgood_def in_half_def off_def createRegionFromSegment_def
  rcv_segment_ok_def getDataArraySize_def msgs_sorted_def rcvq_getFirstSeqNo_def
  vrq_getFirstSeqNo_def seqMin_def


text \<open>The number of buffered bytes is the number of bytes held.\<close>

lemma buffered_fold:
  "\<forall>r\<in>set rs. rgood x r \<Longrightarrow> fold (\<lambda>r n. n + region_getLength r) rs n
    = n + of_nat (sum_list (map (\<lambda>r. off x (rend r) - off x (rbegin r)) rs))"
proof (induction rs arbitrary: n)
  case (Cons r rs)
  have "off x (rend r) - off x (rbegin r) = unat (rend r - rbegin r)"
    using Cons.prems off_shift[of x "rbegin r" "rend r"] by (simp add: rgood_def off_def)
  then show ?case using Cons by (simp add: region_getLength_def)
qed simp

lemma apart_card:
  "apart x rs \<Longrightarrow> card (rset x rs) = sum_list (map (\<lambda>r. off x (rend r) - off x (rbegin r)) rs)"
proof (induction rs)
  case (Cons r rs)
  have "rbytes x r \<inter> rset x rs = {}"
    using Cons.prems by (fastforce simp: apart_def below_def rset_def rbytes_def rgood_def)
  moreover have "apart x rs" using Cons.prems by (simp add: apart_def)
  moreover have "finite (rbytes x r)" "card (rbytes x r) = off x (rend r) - off x (rbegin r)"
    by (simp_all add: rbytes_def)
  ultimately show ?case using Cons.IH by (simp add: card_Un_disjoint)
qed simp

text \<open>
  The number of buffered bytes that a receive queue reports is the number of bytes it
  holds.
\<close>

theorem buffered_bytes_card:
  assumes "apart x (regionList q)"
  shows "unat (vrq_getAmountOfBufferedBytes q) = card (rset x (regionList q))"
proof -
  have "rset x (regionList q) \<subseteq> {..<2147483648}"
    using assms by (fastforce simp: rset_def rbytes_def apart_def rgood_def in_half_def)
  then have "card (rset x (regionList q)) \<le> card {..<2147483648::nat}" by (intro card_mono) auto
  then show ?thesis
    using buffered_fold[of "regionList q" x 0] assms apart_card[OF assms]
    by (simp add: vrq_getAmountOfBufferedBytes_def apart_def unat_of_nat_u32)
qed

theorem buffered_bytes_card_witness:
  "unat (vrq_getAmountOfBufferedBytes
      \<lparr>rq_rcv_nxt = 5, regionList = [\<lparr>rbegin = 7, rend = 9\<rparr>, \<lparr>rbegin = 20, rend = 30\<rparr>]\<rparr>)
    = card (rset 0 [\<lparr>rbegin = 7, rend = 9\<rparr>, \<lparr>rbegin = 20, rend = 30\<rparr>])"
  using buffered_bytes_card[of 0 "\<lparr>rq_rcv_nxt = 5,
      regionList = [\<lparr>rbegin = 7, rend = 9\<rparr>, \<lparr>rbegin = 20, rend = 30\<rparr>]\<rparr>"]
  by (simp add: apart_def rgood_def in_half_def off_def below_def)

text \<open>The byte-stream queue passes up the bytes of the stream, in order.\<close>

theorem byte_extract_stream:
  assumes "byte_regions.rcv_inv x q" "\<forall>r\<in>set (regionList q). carries x str r"
    and "byte_extract junk q (rq_rcv_nxt q) = Inr (q', Some p)"
  shows "pk_byteArray p = Some (map str [off x (vrq_getFirstSeqNo q)..<off x (rq_rcv_nxt q)])
    \<and> pk_byteLength p = int (off x (rq_rcv_nxt q) - off x (vrq_getFirstSeqNo q))
    \<and> (\<forall>r\<in>set (regionList q'). carries x str r)"
proof -
  let ?n = "rq_rcv_nxt q"
  obtain r rest where q: "regionList q = r # rest"
    using assms(3) by (cases "regionList q") (auto simp: byte_extract_def extractTo_def ASSERT_eq_Inr)
  have g: "rgood x r" "carries x str r" "in_half x ?n" "region_sized r"
    and e: "off x (rbegin r) \<le> off x ?n \<longrightarrow> rend r = ?n"
    using assms(1,2) q by (auto simp: byte_regions.rcv_inv_def apart_def)
  have le: "\<not> seqLE ?n (rbegin r)"
    using assms(3) q by (auto simp: byte_extract_def extractTo_def ASSERT_eq_Inr)
  then have lt: "off x (rbegin r) < off x ?n" using g by (simp add: seqLE_iff[of x] rgood_def)
  then have en: "rend r = ?n" using e by simp
  have first: "vrq_getFirstSeqNo q = rbegin r"
    using q g lt by (simp add: vrq_getFirstSeqNo_def seqMin_iff[of x] rgood_def)
  have r: "byte_copyTo r = Inr p" "q' = q\<lparr>regionList := rest\<rparr>"
    using assms(3) q le en by (auto simp: byte_extract_def extractTo_def ASSERT_eq_Inr)
  have "unat (rend r - rbegin r) = off x ?n - off x (rbegin r)"
    using off_shift[of x "rbegin r" "rend r"] lt en by (simp add: off_def)
  then have "uint (rend r - rbegin r) = int (off x ?n - off x (rbegin r))"
    by (simp only: uint_nat)
  then show ?thesis
    using r first g(2) en assms(2) q
    by (auto simp: byte_copyTo_def ASSERT_eq_Inr carries_def region_getLength_def)
qed

theorem byte_extract_stream_witness:
  "\<exists>q' p. byte_extract [] \<lparr>rq_rcv_nxt = 2, regionList = [\<lparr>rbegin = 0, rend = 2, rdata = [7, 8]\<rparr>]\<rparr> 2
      = Inr (q', Some p) \<and> pk_byteArray p = Some [7, 8]"
proof -
  let ?q = "\<lparr>rq_rcv_nxt = 2, regionList = [\<lparr>rbegin = 0, rend = 2, rdata = [7, 8]\<rparr>]\<rparr>"
  let ?str = "\<lambda>d. if d = 0 then 7 else 8 :: u8"
  have inv: "byte_regions.rcv_inv 0 ?q" "\<forall>r\<in>set (regionList ?q). carries 0 ?str r"
    by (simp_all add: byte_regions.rcv_inv_def apart_def rgood_def in_half_def off_def
        region_sized_def carries_def upt_rec)
  obtain q' p where e: "byte_extract [] ?q 2 = Inr (q', Some p)"
    by (simp add: byte_extract_def extractTo_def seqLE_def seqGE_def byte_copyTo_def
        region_getLength_def getDataArraySize_def)
  then have "pk_byteArray p = Some (map ?str [0..<2])"
    using byte_extract_stream[OF inv, of "[]" q' p]
    by (simp add: vrq_getFirstSeqNo_def seqMin_def off_def)
  then show ?thesis using e by (simp add: upt_rec)
qed

end
