(* ===== verification/TCP_Send_Queue.thy ===== *)
theory TCP_Send_Queue
  imports TCP_Segment
begin

text \<open>
  The send queues (\<^verbatim>\<open>transport/tcp/queues\<close>): \<^verbatim>\<open>TCPVirtualDataSendQueue\<close> counts
  bytes, \<^verbatim>\<open>TCPByteStreamSendQueue\<close> keeps them in a \<open>ByteArrayBuffer\<close>, and
  \<^verbatim>\<open>TCPMsgBasedSendQueue\<close> keeps the message objects with the sequence numbers behind them.
  The locale \<open>send_queue\<close> states what the abstract class \<^verbatim>\<open>TCPSendQueue\<close> promises its
  connection; each class interprets it, and so does the sum of the three.
\<close>

section \<open>Byte counts only\<close>

record TCPVirtualDataSendQueue =
  sq_begin :: u32
  sq_end :: u32

definition vsq_init :: "'a TCPVirtualDataSendQueue_scheme \<Rightarrow> u32 \<Rightarrow> 'a TCPVirtualDataSendQueue_scheme" where
  "vsq_init q startSeq = q\<lparr>sq_begin := startSeq, sq_end := startSeq\<rparr>"

definition vsq_enqueueAppData :: "TCPVirtualDataSendQueue \<Rightarrow> cPacket \<Rightarrow> TCPVirtualDataSendQueue res" where
  "vsq_enqueueAppData q msg =
     (let q' = q\<lparr>sq_end := sq_end q + of_int (pk_byteLength msg)\<rparr>
      in if seqLess (sq_end q') (sq_begin q') then Inl (Runtime_error ''Send queue is full'')
         else Inr q')"

definition vsq_createSegmentWithBytes :: "TCPVirtualDataSendQueue \<Rightarrow> u32 \<Rightarrow> u32 \<Rightarrow> TCPSegment res" where
  "vsq_createSegmentWithBytes q fromSeq numBytes =
     ASSERT (seqLE (sq_begin q) fromSeq \<and> seqLE (fromSeq + numBytes) (sq_end q))
       (Inr (new_TCPSegment\<lparr>sequenceNo := fromSeq, payloadLength := numBytes\<rparr>))"

definition vsq_discardUpTo :: "TCPVirtualDataSendQueue \<Rightarrow> u32 \<Rightarrow> TCPVirtualDataSendQueue res" where
  "vsq_discardUpTo q seqNum =
     ASSERT (seqLE (sq_begin q) seqNum \<and> seqLE seqNum (sq_end q))
       (Inr (q\<lparr>sq_begin := seqNum\<rparr>))"

text \<open>\<^verbatim>\<open>getBytesAvailable\<close> of the abstract class, from the end of the buffer.\<close>

definition getBytesAvailable :: "u32 \<Rightarrow> u32 \<Rightarrow> u32" where
  "getBytesAvailable bufEndSeq fromSeq = (if seqLess fromSeq bufEndSeq then bufEndSeq - fromSeq else 0)"

section \<open>Message objects\<close>

record Payload =
  pq_endSequenceNo :: u32
  pq_msg :: cPacket

record TCPMsgBasedSendQueue = TCPVirtualDataSendQueue +
  payloadQueue :: "Payload list"

definition msq_enqueueAppData :: "TCPMsgBasedSendQueue \<Rightarrow> cPacket \<Rightarrow> TCPMsgBasedSendQueue res" where
  "msq_enqueueAppData q msg =
     (let q' = q\<lparr>sq_end := sq_end q + of_int (pk_byteLength msg)\<rparr>
      in if seqLess (sq_end q') (sq_begin q') then Inl (Runtime_error ''Send queue is full'')
         else Inr (q'\<lparr>payloadQueue := payloadQueue q'
                       @ [\<lparr>pq_endSequenceNo = sq_end q', pq_msg = msg\<rparr>]\<rparr>))"

definition msq_createSegmentWithBytes :: "TCPMsgBasedSendQueue \<Rightarrow> u32 \<Rightarrow> u32 \<Rightarrow> TCPSegment res" where
  "msq_createSegmentWithBytes q fromSeq numBytes =
     ASSERT (seqLE (sq_begin q) fromSeq \<and> seqLE (fromSeq + numBytes) (sq_end q))
       (let seg = new_TCPSegment\<lparr>sequenceNo := fromSeq, payloadLength := numBytes\<rparr>;
            i = dropWhile (\<lambda>p. seqLE (pq_endSequenceNo p) fromSeq) (payloadQueue q);
            toSeq = fromSeq + numBytes
        in Inr (fold (\<lambda>p s. addPayloadMessage s (pq_msg p) (pq_endSequenceNo p))
                  (takeWhile (\<lambda>p. seqLE (pq_endSequenceNo p) toSeq) i) seg))"

definition msq_discardUpTo :: "TCPMsgBasedSendQueue \<Rightarrow> u32 \<Rightarrow> TCPMsgBasedSendQueue res" where
  "msq_discardUpTo q seqNum =
     ASSERT (seqLE (sq_begin q) seqNum \<and> seqLE seqNum (sq_end q))
       (Inr (q\<lparr>sq_begin := seqNum,
               payloadQueue := dropWhile (\<lambda>p. seqLE (pq_endSequenceNo p) seqNum) (payloadQueue q)\<rparr>))"

section \<open>Byte streams\<close>

record TCPByteStreamSendQueue = TCPVirtualDataSendQueue +
  dataBuffer :: ByteArrayBuffer

definition bsq_init :: "TCPByteStreamSendQueue \<Rightarrow> u32 \<Rightarrow> TCPByteStreamSendQueue" where
  "bsq_init q startSeq =
     q\<lparr>sq_begin := startSeq, sq_end := startSeq, dataBuffer := buffer_clear (dataBuffer q)\<rparr>"

definition bsq_enqueueAppData :: "TCPByteStreamSendQueue \<Rightarrow> cPacket \<Rightarrow> TCPByteStreamSendQueue res" where
  "bsq_enqueueAppData q msg =
     (case pk_byteArray msg of
        None \<Rightarrow> Inl (Runtime_error ''check_and_cast(): cannot cast to ByteArrayMessage'')
      | Some d \<Rightarrow>
          ASSERT (pk_byteLength msg = uint (getDataArraySize d))
            (Inr (q\<lparr>dataBuffer := buffer_push (dataBuffer q) d,
                    sq_end := sq_end q + of_int (pk_byteLength msg)\<rparr>)))"

definition bsq_createSegmentWithBytes :: "TCPByteStreamSendQueue \<Rightarrow> u32 \<Rightarrow> u32 \<Rightarrow> TCPSegment res" where
  "bsq_createSegmentWithBytes q fromSeq numBytes =
     ASSERT (seqLE (sq_begin q) fromSeq \<and> seqLE (fromSeq + numBytes) (sq_end q))
       (let seg = new_TCPSegment\<lparr>sequenceNo := fromSeq, payloadLength := numBytes\<rparr>;
            fromOffs = fromSeq - sq_begin q;
            buffer = getBytesToBuffer (dataBuffer q) numBytes fromOffs
        in ASSERT (of_nat (length buffer) = numBytes) (Inr (seg\<lparr>byteArray := buffer\<rparr>)))"

definition bsq_discardUpTo :: "TCPByteStreamSendQueue \<Rightarrow> u32 \<Rightarrow> TCPByteStreamSendQueue res" where
  "bsq_discardUpTo q seqNum =
     ASSERT (seqLE (sq_begin q) seqNum \<and> seqLE seqNum (sq_end q))
       (bind_res (buffer_drop (dataBuffer q) (seqNum - sq_begin q))
         (\<lambda>b. Inr (q\<lparr>dataBuffer := b, sq_begin := seqNum\<rparr>)))"

section \<open>The pointer of the connection\<close>

datatype TCPSendQueue =
    VirtualSend TCPVirtualDataSendQueue
  | MsgSend TCPMsgBasedSendQueue
  | ByteSend TCPByteStreamSendQueue

definition sendq_init :: "TCPSendQueue \<Rightarrow> u32 \<Rightarrow> TCPSendQueue" where
  "sendq_init q s = (case q of
       VirtualSend v \<Rightarrow> VirtualSend (vsq_init v s)
     | MsgSend m \<Rightarrow> MsgSend (vsq_init m s)
     | ByteSend b \<Rightarrow> ByteSend (bsq_init b s))"

definition sendq_enqueueAppData :: "TCPSendQueue \<Rightarrow> cPacket \<Rightarrow> TCPSendQueue res" where
  "sendq_enqueueAppData q msg = (case q of
       VirtualSend v \<Rightarrow> bind_res (vsq_enqueueAppData v msg) (\<lambda>q'. Inr (VirtualSend q'))
     | MsgSend m \<Rightarrow> bind_res (msq_enqueueAppData m msg) (\<lambda>q'. Inr (MsgSend q'))
     | ByteSend b \<Rightarrow> bind_res (bsq_enqueueAppData b msg) (\<lambda>q'. Inr (ByteSend q')))"

definition sendq_getBufferStartSeq :: "TCPSendQueue \<Rightarrow> u32" where
  "sendq_getBufferStartSeq q =
     (case q of VirtualSend v \<Rightarrow> sq_begin v | MsgSend m \<Rightarrow> sq_begin m | ByteSend b \<Rightarrow> sq_begin b)"

definition sendq_getBufferEndSeq :: "TCPSendQueue \<Rightarrow> u32" where
  "sendq_getBufferEndSeq q =
     (case q of VirtualSend v \<Rightarrow> sq_end v | MsgSend m \<Rightarrow> sq_end m | ByteSend b \<Rightarrow> sq_end b)"

definition sendq_getBytesAvailable :: "TCPSendQueue \<Rightarrow> u32 \<Rightarrow> u32" where
  "sendq_getBytesAvailable q fromSeq = getBytesAvailable (sendq_getBufferEndSeq q) fromSeq"

definition sendq_createSegmentWithBytes :: "TCPSendQueue \<Rightarrow> u32 \<Rightarrow> u32 \<Rightarrow> TCPSegment res" where
  "sendq_createSegmentWithBytes q fromSeq n = (case q of
       VirtualSend v \<Rightarrow> vsq_createSegmentWithBytes v fromSeq n
     | MsgSend m \<Rightarrow> msq_createSegmentWithBytes m fromSeq n
     | ByteSend b \<Rightarrow> bsq_createSegmentWithBytes b fromSeq n)"

definition sendq_discardUpTo :: "TCPSendQueue \<Rightarrow> u32 \<Rightarrow> TCPSendQueue res" where
  "sendq_discardUpTo q s = (case q of
       VirtualSend v \<Rightarrow> bind_res (vsq_discardUpTo v s) (\<lambda>q'. Inr (VirtualSend q'))
     | MsgSend m \<Rightarrow> bind_res (msq_discardUpTo m s) (\<lambda>q'. Inr (MsgSend q'))
     | ByteSend b \<Rightarrow> bind_res (bsq_discardUpTo b s) (\<lambda>q'. Inr (ByteSend q')))"

section \<open>The contract\<close>

text \<open>
  What a connection relies on. The length of the queue stays below half the sequence space; a
  message is accepted while it does; a segment can be made of every range inside the queue, and
  every prefix can be discarded.
\<close>

locale send_queue =
  fixes start :: "'q \<Rightarrow> u32"
    and stop :: "'q \<Rightarrow> u32"
    and enqueue :: "'q \<Rightarrow> cPacket \<Rightarrow> 'q res"
    and create :: "'q \<Rightarrow> u32 \<Rightarrow> u32 \<Rightarrow> TCPSegment res"
    and discard :: "'q \<Rightarrow> u32 \<Rightarrow> 'q res"
    and inv :: "'q \<Rightarrow> bool"
    and msg_ok :: "cPacket \<Rightarrow> bool"
  assumes inv_half: "inv q \<Longrightarrow> in_half (start q) (stop q)"
    and enqueue_law: "\<lbrakk>inv q; msg_ok m; 0 \<le> pk_byteLength m;
        int (off (start q) (stop q)) + pk_byteLength m < 2147483648\<rbrakk>
      \<Longrightarrow> \<exists>q'. enqueue q m = Inr q' \<and> inv q' \<and> start q' = start q
        \<and> off (start q) (stop q') = off (start q) (stop q) + nat (pk_byteLength m)"
    and create_law: "\<lbrakk>inv q; off (start q) s + unat n \<le> off (start q) (stop q)\<rbrakk>
      \<Longrightarrow> \<exists>seg. create q s n = Inr seg \<and> sequenceNo seg = s \<and> payloadLength seg = n
        \<and> \<not> synBit seg \<and> \<not> finBit seg"
    and discard_law: "\<lbrakk>inv q; off (start q) s \<le> off (start q) (stop q)\<rbrakk>
      \<Longrightarrow> \<exists>q'. discard q s = Inr q' \<and> inv q' \<and> start q' = s \<and> stop q' = stop q"
begin

lemma available:
  assumes "inv q" "off (start q) s \<le> off (start q) (stop q)"
  shows "off (start q) s + unat (getBytesAvailable (stop q) s) = off (start q) (stop q)"
proof -
  have h: "in_half (start q) s" "in_half (start q) (stop q)"
    using assms(2) inv_half[OF assms(1)] by (auto simp: in_half_def)
  then have "unat (stop q - s) = off (start q) (stop q) - off (start q) s"
    using assms(2) off_shift[of "start q" s "stop q"] by (simp add: off_def)
  then show ?thesis
    using assms(2) h by (auto simp: getBytesAvailable_def seqLess_iff[of "start q"])
qed

text \<open>As many bytes as are available can be sent, and all of them can be acknowledged.\<close>

lemma send_available:
  assumes "inv q" "off (start q) s \<le> off (start q) (stop q)" "n \<le> getBytesAvailable (stop q) s"
  shows "\<exists>seg. create q s n = Inr seg \<and> sequenceNo seg = s \<and> payloadLength seg = n
    \<and> off (start q) (s + n) \<le> off (start q) (stop q) \<and> getSegLen seg = n"
proof -
  have n: "off (start q) s + unat n \<le> off (start q) (stop q)"
    using available[OF assms(1,2)] assms(3) by (simp add: word_le_nat_alt)
  obtain seg where "create q s n = Inr seg" "sequenceNo seg = s" "payloadLength seg = n"
      "\<not> synBit seg" "\<not> finBit seg"
    using create_law[OF assms(1) n] by blast
  moreover have "off (start q) (s + n) = off (start q) s + unat n"
    using n off_bound[of "start q" "stop q"] by (intro off_plus) linarith
  ultimately show ?thesis using n by (simp add: getSegLen_def)
qed

lemma discard_acked:
  assumes "inv q" "off (start q) s \<le> off (start q) (stop q)"
  shows "\<exists>q'. discard q s = Inr q' \<and> inv q' \<and> start q' = s
    \<and> unat (getBytesAvailable (stop q') s) = off (start q) (stop q) - off (start q) s"
proof -
  obtain q' where "discard q s = Inr q'" "inv q'" "start q' = s" "stop q' = stop q"
    using discard_law[OF assms] by blast
  moreover have "unat (getBytesAvailable (stop q) s) = off (start q) (stop q) - off (start q) s"
    using available[OF assms] by simp
  ultimately show ?thesis by auto
qed

end

section \<open>The three classes keep the contract\<close>

definition send_half :: "'a TCPVirtualDataSendQueue_scheme \<Rightarrow> bool" where
  "send_half q \<longleftrightarrow> in_half (sq_begin q) (sq_end q)"

lemma unat_of_int: "0 \<le> n \<Longrightarrow> n < 4294967296 \<Longrightarrow> unat (of_int n :: u32) = nat n"
  using unat_of_nat_u32[of "nat n"] by simp

lemma off_enqueue:
  assumes "in_half b e" "0 \<le> n" "int (off b e) + n < 2147483648"
  shows "off b (e + of_int n) = off b e + nat n"
    and "\<not> seqLess (e + of_int n) b"
proof -
  show o: "off b (e + of_int n) = off b e + nat n"
    using assms by (subst off_plus) (simp_all add: unat_of_int)
  have "in_half b (e + of_int n)" using o assms(2,3) by (simp add: in_half_def)
  then show "\<not> seqLess (e + of_int n) b" by (simp add: seqLess_iff[of b])
qed

lemma create_guard:
  assumes "in_half b e" "off b s + unat n \<le> off b e"
  shows "seqLE b s \<and> seqLE (s + n) e"
proof -
  have "off b (s + n) = off b s + unat n" using assms off_bound[of b e] by (intro off_plus) linarith
  then have "in_half b s" "in_half b (s + n)" using assms by (simp_all add: in_half_def)
  then show ?thesis
    using assms \<open>off b (s + n) = _\<close> by (simp add: seqLE_iff[of b])
qed

lemma discard_guard:
  assumes "in_half b e" "off b s \<le> off b e"
  shows "seqLE b s \<and> seqLE s e \<and> in_half s e"
proof -
  have "in_half b s" using assms by (simp add: in_half_def)
  then show ?thesis
    using assms off_shift[of b s e] by (simp add: seqLE_iff[of b] in_half_def)
qed

interpretation virtual_send: send_queue sq_begin sq_end vsq_enqueueAppData vsq_createSegmentWithBytes
  vsq_discardUpTo send_half "\<lambda>_. True"
proof
  fix q :: TCPVirtualDataSendQueue and m :: cPacket
  assume "send_half q" "0 \<le> pk_byteLength m"
    "int (off (sq_begin q) (sq_end q)) + pk_byteLength m < 2147483648"
  then show "\<exists>q'. vsq_enqueueAppData q m = Inr q' \<and> send_half q' \<and> sq_begin q' = sq_begin q
      \<and> off (sq_begin q) (sq_end q') = off (sq_begin q) (sq_end q) + nat (pk_byteLength m)"
    using off_enqueue[of "sq_begin q" "sq_end q" "pk_byteLength m"]
    by (simp add: vsq_enqueueAppData_def send_half_def in_half_def)
next
  fix q :: TCPVirtualDataSendQueue and s n :: u32
  assume "send_half q" "off (sq_begin q) s + unat n \<le> off (sq_begin q) (sq_end q)"
  then show "\<exists>seg. vsq_createSegmentWithBytes q s n = Inr seg \<and> sequenceNo seg = s
      \<and> payloadLength seg = n \<and> \<not> synBit seg \<and> \<not> finBit seg"
    using create_guard[of "sq_begin q" "sq_end q" s n]
    by (simp add: vsq_createSegmentWithBytes_def send_half_def new_TCPSegment_def)
next
  fix q :: TCPVirtualDataSendQueue and s
  assume "send_half q" "off (sq_begin q) s \<le> off (sq_begin q) (sq_end q)"
  then show "\<exists>q'. vsq_discardUpTo q s = Inr q' \<and> send_half q' \<and> sq_begin q' = s \<and> sq_end q' = sq_end q"
    using discard_guard[of "sq_begin q" "sq_end q" s] by (simp add: vsq_discardUpTo_def send_half_def)
qed (simp add: send_half_def)

text \<open>Adding payload messages only appends to the payload list.\<close>

lemma addPayloadMessages:
  "fold (\<lambda>p s. addPayloadMessage s (pq_msg p) (pq_endSequenceNo p)) ps seg =
    seg\<lparr>payloadList := payloadList seg
      @ map (\<lambda>p. \<lparr>pm_endSequenceNo = pq_endSequenceNo p, pm_msg = pq_msg p\<rparr>) ps\<rparr>"
  by (induction ps arbitrary: seg) (simp_all add: addPayloadMessage_def)

interpretation msg_send: send_queue sq_begin sq_end msq_enqueueAppData msq_createSegmentWithBytes
  msq_discardUpTo send_half "\<lambda>_. True"
proof
  fix q :: TCPMsgBasedSendQueue and m :: cPacket
  assume "send_half q" "0 \<le> pk_byteLength m"
    "int (off (sq_begin q) (sq_end q)) + pk_byteLength m < 2147483648"
  then show "\<exists>q'. msq_enqueueAppData q m = Inr q' \<and> send_half q' \<and> sq_begin q' = sq_begin q
      \<and> off (sq_begin q) (sq_end q') = off (sq_begin q) (sq_end q) + nat (pk_byteLength m)"
    using off_enqueue[of "sq_begin q" "sq_end q" "pk_byteLength m"]
    by (simp add: msq_enqueueAppData_def send_half_def in_half_def)
next
  fix q :: TCPMsgBasedSendQueue and s n :: u32
  assume "send_half q" "off (sq_begin q) s + unat n \<le> off (sq_begin q) (sq_end q)"
  then show "\<exists>seg. msq_createSegmentWithBytes q s n = Inr seg \<and> sequenceNo seg = s
      \<and> payloadLength seg = n \<and> \<not> synBit seg \<and> \<not> finBit seg"
    using create_guard[of "sq_begin q" "sq_end q" s n]
    by (simp add: msq_createSegmentWithBytes_def send_half_def new_TCPSegment_def Let_def
        addPayloadMessages)
next
  fix q :: TCPMsgBasedSendQueue and s
  assume "send_half q" "off (sq_begin q) s \<le> off (sq_begin q) (sq_end q)"
  then show "\<exists>q'. msq_discardUpTo q s = Inr q' \<and> send_half q' \<and> sq_begin q' = s \<and> sq_end q' = sq_end q"
    using discard_guard[of "sq_begin q" "sq_end q" s] by (simp add: msq_discardUpTo_def send_half_def)
qed (simp add: send_half_def)

text \<open>The buffer of the byte-stream queue holds the bytes from \<open>sq_begin\<close> to \<open>sq_end\<close>.\<close>

definition byte_send_inv :: "TCPByteStreamSendQueue \<Rightarrow> bool" where
  "byte_send_inv q \<longleftrightarrow> send_half q \<and> buffer_inv (dataBuffer q)
     \<and> length (buffer_bytes (dataBuffer q)) = off (sq_begin q) (sq_end q)"

definition byte_msg_ok :: "cPacket \<Rightarrow> bool" where
  "byte_msg_ok m \<longleftrightarrow> (case pk_byteArray m of None \<Rightarrow> False
     | Some d \<Rightarrow> fits32 d \<and> pk_byteLength m = int (length d))"

lemma byte_create_eq:
  assumes "byte_send_inv q" "off (sq_begin q) s + unat n \<le> off (sq_begin q) (sq_end q)"
  shows "bsq_createSegmentWithBytes q s n = Inr (new_TCPSegment\<lparr>sequenceNo := s, payloadLength := n,
    byteArray := take (unat n) (drop (off (sq_begin q) s) (buffer_bytes (dataBuffer q)))\<rparr>)"
proof -
  have h: "in_half (sq_begin q) (sq_end q)" using assms(1) by (simp add: byte_send_inv_def send_half_def)
  have g: "getBytesToBuffer (dataBuffer q) n (s - sq_begin q) =
      take (unat n) (drop (off (sq_begin q) s) (buffer_bytes (dataBuffer q)))"
  proof -
    have "unat (s - sq_begin q) + unat n < 4294967296"
      using assms(2) off_bound[of "sq_begin q" "sq_end q"] unfolding off_def by linarith
    then show ?thesis
      using assms(1) by (simp add: getBytesToBuffer_eq byte_send_inv_def off_def)
  qed
  have "length (take (unat n) (drop (off (sq_begin q) s) (buffer_bytes (dataBuffer q)))) = unat n"
    using assms by (simp add: byte_send_inv_def)
  then show ?thesis
    using create_guard[OF h assms(2)] unfolding bsq_createSegmentWithBytes_def Let_def g by simp
qed

interpretation byte_send: send_queue sq_begin sq_end bsq_enqueueAppData bsq_createSegmentWithBytes
  bsq_discardUpTo byte_send_inv byte_msg_ok
proof
  fix q and m :: cPacket
  assume a: "byte_send_inv q" "byte_msg_ok m" "0 \<le> pk_byteLength m"
    "int (off (sq_begin q) (sq_end q)) + pk_byteLength m < 2147483648"
  obtain d where d: "pk_byteArray m = Some d" "fits32 d" "pk_byteLength m = int (length d)"
    using a(2) by (auto simp: byte_msg_ok_def split: option.splits)
  have "buffer_inv (buffer_push (dataBuffer q) d)"
    using a d by (intro buffer_inv_push) (auto simp: byte_send_inv_def)
  moreover have "uint (getDataArraySize d) = int (length d)"
    using d(2) unat_getDataArraySize[of d] by (simp only: uint_nat)
  ultimately show "\<exists>q'. bsq_enqueueAppData q m = Inr q' \<and> byte_send_inv q' \<and> sq_begin q' = sq_begin q
      \<and> off (sq_begin q) (sq_end q') = off (sq_begin q) (sq_end q) + nat (pk_byteLength m)"
    using off_enqueue[of "sq_begin q" "sq_end q" "pk_byteLength m"] a d
    by (auto simp: bsq_enqueueAppData_def byte_send_inv_def send_half_def in_half_def)
next
  fix q and s n :: u32
  assume "byte_send_inv q" "off (sq_begin q) s + unat n \<le> off (sq_begin q) (sq_end q)"
  then show "\<exists>seg. bsq_createSegmentWithBytes q s n = Inr seg \<and> sequenceNo seg = s
      \<and> payloadLength seg = n \<and> \<not> synBit seg \<and> \<not> finBit seg"
    using byte_create_eq by (auto simp: new_TCPSegment_def)
next
  fix q and s :: u32
  assume a: "byte_send_inv q" "off (sq_begin q) s \<le> off (sq_begin q) (sq_end q)"
  obtain b where b: "buffer_drop (dataBuffer q) (s - sq_begin q) = Inr b" "buffer_inv b"
    "buffer_bytes b = drop (off (sq_begin q) s) (buffer_bytes (dataBuffer q))"
    using buffer_drop_eq[of "dataBuffer q" "s - sq_begin q"] a by (auto simp: byte_send_inv_def off_def)
  then show "\<exists>q'. bsq_discardUpTo q s = Inr q' \<and> byte_send_inv q' \<and> sq_begin q' = s \<and> sq_end q' = sq_end q"
    using a discard_guard[of "sq_begin q" "sq_end q" s] off_shift[of "sq_begin q" s "sq_end q"]
    by (simp add: bsq_discardUpTo_def byte_send_inv_def send_half_def)
qed (simp add: byte_send_inv_def send_half_def)

text \<open>The sum of the three.\<close>

definition sendq_inv :: "TCPSendQueue \<Rightarrow> bool" where
  "sendq_inv q = (case q of VirtualSend v \<Rightarrow> send_half v | MsgSend m \<Rightarrow> send_half m
     | ByteSend b \<Rightarrow> byte_send_inv b)"

lemmas sendq_cases = sendq_inv_def sendq_getBufferStartSeq_def sendq_getBufferEndSeq_def
  sendq_enqueueAppData_def sendq_createSegmentWithBytes_def sendq_discardUpTo_def

interpretation any_send: send_queue sendq_getBufferStartSeq sendq_getBufferEndSeq sendq_enqueueAppData
  sendq_createSegmentWithBytes sendq_discardUpTo sendq_inv byte_msg_ok
proof
  fix q
  show "sendq_inv q \<Longrightarrow> in_half (sendq_getBufferStartSeq q) (sendq_getBufferEndSeq q)"
    by (cases q) (simp_all add: sendq_cases send_half_def byte_send_inv_def)
next
  fix q m
  assume a: "sendq_inv q" "byte_msg_ok m" "0 \<le> pk_byteLength m"
    "int (off (sendq_getBufferStartSeq q) (sendq_getBufferEndSeq q)) + pk_byteLength m < 2147483648"
  show "\<exists>q'. sendq_enqueueAppData q m = Inr q' \<and> sendq_inv q'
      \<and> sendq_getBufferStartSeq q' = sendq_getBufferStartSeq q
      \<and> off (sendq_getBufferStartSeq q) (sendq_getBufferEndSeq q')
        = off (sendq_getBufferStartSeq q) (sendq_getBufferEndSeq q) + nat (pk_byteLength m)"
  proof (cases q)
    case (VirtualSend v)
    then show ?thesis
      using virtual_send.enqueue_law[of v m] a by (auto simp: sendq_cases)
  next
    case (MsgSend v)
    then show ?thesis
      using msg_send.enqueue_law[of v m] a by (auto simp: sendq_cases)
  next
    case (ByteSend v)
    then show ?thesis
      using byte_send.enqueue_law[of v m] a by (auto simp: sendq_cases)
  qed
next
  fix q and s n :: u32
  assume "sendq_inv q" "off (sendq_getBufferStartSeq q) s + unat n
      \<le> off (sendq_getBufferStartSeq q) (sendq_getBufferEndSeq q)"
  then show "\<exists>seg. sendq_createSegmentWithBytes q s n = Inr seg \<and> sequenceNo seg = s
      \<and> payloadLength seg = n \<and> \<not> synBit seg \<and> \<not> finBit seg"
    using virtual_send.create_law msg_send.create_law byte_send.create_law
    by (cases q) (simp_all add: sendq_cases)
next
  fix q and s :: u32
  assume a: "sendq_inv q"
    "off (sendq_getBufferStartSeq q) s \<le> off (sendq_getBufferStartSeq q) (sendq_getBufferEndSeq q)"
  show "\<exists>q'. sendq_discardUpTo q s = Inr q' \<and> sendq_inv q' \<and> sendq_getBufferStartSeq q' = s
      \<and> sendq_getBufferEndSeq q' = sendq_getBufferEndSeq q"
  proof (cases q)
    case (VirtualSend v)
    then show ?thesis
      using virtual_send.discard_law[of v s] a by (auto simp: sendq_cases)
  next
    case (MsgSend v)
    then show ?thesis
      using msg_send.discard_law[of v s] a by (auto simp: sendq_cases)
  next
    case (ByteSend v)
    then show ?thesis
      using byte_send.discard_law[of v s] a by (auto simp: sendq_cases)
  qed
qed

section \<open>The sender's properties\<close>

definition send_example :: TCPSendQueue where
  "send_example = ByteSend \<lparr>sq_begin = 0xFFFFFFFE, sq_end = 2,
     dataBuffer = \<lparr>dataListM = [[1, 2], [3, 4]], dataLengthM = 4\<rparr>\<rparr>"

lemma send_example_inv: "sendq_inv send_example"
  by (simp add: send_example_def sendq_inv_def byte_send_inv_def send_half_def in_half_def off_def
      buffer_inv_def buffer_bytes_def)

text \<open>
  Whatever part of the available bytes a connection asks for, every kind of queue makes a
  segment with exactly that range, which lies inside the queue.
\<close>

theorem sendq_create_available:
  assumes "sendq_inv q"
    and "off (sendq_getBufferStartSeq q) s \<le> off (sendq_getBufferStartSeq q) (sendq_getBufferEndSeq q)"
    and "n \<le> sendq_getBytesAvailable q s"
  shows "\<exists>seg. sendq_createSegmentWithBytes q s n = Inr seg \<and> sequenceNo seg = s
    \<and> payloadLength seg = n \<and> getSegLen seg = n
    \<and> off (sendq_getBufferStartSeq q) (s + n) \<le> off (sendq_getBufferStartSeq q) (sendq_getBufferEndSeq q)"
  using any_send.send_available[OF assms(1,2)] assms(3) by (auto simp: sendq_getBytesAvailable_def)

theorem sendq_create_available_witness:
  "\<exists>seg. sendq_createSegmentWithBytes send_example 0xFFFFFFFF 3 = Inr seg \<and> getSegLen seg = 3"
  using sendq_create_available[OF send_example_inv, of "0xFFFFFFFF" 3]
  by (auto simp: send_example_def sendq_getBufferStartSeq_def sendq_getBufferEndSeq_def off_def
      sendq_getBytesAvailable_def getBytesAvailable_def seqLess_def)



text \<open>
  A segment of the message-based queue carries the messages that end inside its range, each
  with the sequence number behind it, in order.
\<close>

definition msgs_in_order :: "TCPMsgBasedSendQueue \<Rightarrow> bool" where
  "msgs_in_order q \<longleftrightarrow>
     sorted_wrt (\<lambda>a b. off (sq_begin q) a \<le> off (sq_begin q) b) (map pq_endSequenceNo (payloadQueue q))
     \<and> (\<forall>p\<in>set (payloadQueue q). off (sq_begin q) (pq_endSequenceNo p) \<le> off (sq_begin q) (sq_end q))"

lemma sorted_take_drop:
  assumes "sorted_wrt (\<lambda>a b. (f a::nat) \<le> f b) ps"
  shows "takeWhile (\<lambda>p. f p \<le> hi) (dropWhile (\<lambda>p. f p \<le> lo) ps) = filter (\<lambda>p. lo < f p \<and> f p \<le> hi) ps"
  using assms
proof (induction ps)
  case (Cons p ps)
  have *: "takeWhile (\<lambda>p. f p \<le> hi) qs = filter (\<lambda>p. f p \<le> hi) qs"
    if "sorted_wrt (\<lambda>a b. f a \<le> f b) qs" for qs
    using that by (induction qs) (auto simp: filter_empty_conv eq_commute[of "[]"])
  have "filter (\<lambda>p. f p \<le> hi) ps = filter (\<lambda>p. lo < f p \<and> f p \<le> hi) ps" if "lo < f p"
    using Cons.prems that by (intro filter_cong) (auto intro: less_le_trans)
  then show ?case using Cons *[of "p # ps"] by auto
qed simp

text \<open>
  A segment of the message-based queue carries exactly the messages that end inside its
  range, each with its end sequence number.
\<close>

theorem msg_segment_carries_messages:
  assumes "send_half q" "msgs_in_order q"
    and "off (sq_begin q) s + unat n \<le> off (sq_begin q) (sq_end q)"
  shows "\<exists>seg. msq_createSegmentWithBytes q s n = Inr seg \<and>
    payloadList seg = map (\<lambda>p. \<lparr>pm_endSequenceNo = pq_endSequenceNo p, pm_msg = pq_msg p\<rparr>)
      (filter (\<lambda>p. off (sq_begin q) s < off (sq_begin q) (pq_endSequenceNo p) \<and>
                   off (sq_begin q) (pq_endSequenceNo p) \<le> off (sq_begin q) (s + n)) (payloadQueue q))"
proof -
  let ?b = "sq_begin q" and ?f = "\<lambda>p. off (sq_begin q) (pq_endSequenceNo p)"
  have h: "in_half ?b (sq_end q)" using assms(1) by (simp add: send_half_def)
  have o: "off ?b (s + n) = off ?b s + unat n"
    using assms(3) off_bound[of ?b "sq_end q"] by (intro off_plus) linarith
  have hs: "in_half ?b s" "in_half ?b (s + n)" using h o assms(3) by (simp_all add: in_half_def)
  have hp: "in_half ?b (pq_endSequenceNo p)" if "p \<in> set (payloadQueue q)" for p
    using assms(2) that h by (force simp: msgs_in_order_def in_half_def)
  have le: "seqLE (pq_endSequenceNo p) t \<longleftrightarrow> ?f p \<le> off ?b t"
    if "p \<in> set (payloadQueue q)" "in_half ?b t" for p t
    using hp[OF that(1)] that(2) by (simp add: seqLE_iff[of ?b])
  have d: "dropWhile (\<lambda>p. seqLE (pq_endSequenceNo p) s) (payloadQueue q) =
      dropWhile (\<lambda>p. ?f p \<le> off ?b s) (payloadQueue q)"
    using le hs(1) by (intro dropWhile_cong) auto
  have "takeWhile (\<lambda>p. seqLE (pq_endSequenceNo p) (s + n)) (dropWhile (\<lambda>p. ?f p \<le> off ?b s) (payloadQueue q)) =
      takeWhile (\<lambda>p. ?f p \<le> off ?b (s + n)) (dropWhile (\<lambda>p. ?f p \<le> off ?b s) (payloadQueue q))"
    using le hs(2) by (intro takeWhile_cong) (auto dest: set_dropWhileD)
  also have "\<dots> = filter (\<lambda>p. off ?b s < ?f p \<and> ?f p \<le> off ?b (s + n)) (payloadQueue q)"
    using assms(2) by (intro sorted_take_drop) (simp add: msgs_in_order_def sorted_wrt_map)
  finally show ?thesis
    using create_guard[OF h assms(3)] d
    by (simp add: msq_createSegmentWithBytes_def Let_def addPayloadMessages new_TCPSegment_def)
qed

theorem msg_segment_carries_messages_witness:
  "\<exists>seg. msq_createSegmentWithBytes \<lparr>sq_begin = 0, sq_end = 30, payloadQueue =
      [\<lparr>pq_endSequenceNo = 10, pq_msg = \<lparr>pk_id = 1, pk_byteLength = 10, pk_byteArray = None\<rparr>\<rparr>,
       \<lparr>pq_endSequenceNo = 30, pq_msg = \<lparr>pk_id = 2, pk_byteLength = 20, pk_byteArray = None\<rparr>\<rparr>]\<rparr> 0 12
      = Inr seg \<and> map pm_endSequenceNo (payloadList seg) = [10]"
  using msg_segment_carries_messages[of "\<lparr>sq_begin = 0, sq_end = 30, payloadQueue =
      [\<lparr>pq_endSequenceNo = 10, pq_msg = \<lparr>pk_id = 1, pk_byteLength = 10, pk_byteArray = None\<rparr>\<rparr>,
       \<lparr>pq_endSequenceNo = 30, pq_msg = \<lparr>pk_id = 2, pk_byteLength = 20, pk_byteArray = None\<rparr>\<rparr>]\<rparr>" 0 12]
  by (auto simp: send_half_def in_half_def off_def msgs_in_order_def)

end
