(* ===== verification/TCP_State.thy ===== *)
theory TCP_State
  imports TCP_Main TCP_Rcv_Queue TCP_Send_Queue TCP_SACK_Rexmit_Queue
begin

text \<open>
  The state of a connection (\<^verbatim>\<open>transport/tcp/TCPConnection.h\<close>,
  \<^verbatim>\<open>TCPConnectionBase.cc\<close>): the states and events of the state machine, the variables of
  the TCB with the values its constructor gives them, the connection object with its queues and
  timers, and the virtual methods of \<^verbatim>\<open>TCPAlgorithm\<close>.

  A subclass of \<^verbatim>\<open>TCPStateVariables\<close> and the members of an algorithm object are the last
  field \<open>alg\<close> of the TCB, of any type. Messages that leave the connection, to IP or to the
  application, are appended to the list \<open>sent\<close>. The TCB is allocated together with the queues when the connection is opened; no
  operation reads it before.
\<close>

section \<open>States, events and messages\<close>

datatype TCPState =
    TCP_S_INIT | TCP_S_CLOSED | TCP_S_LISTEN | TCP_S_SYN_SENT | TCP_S_SYN_RCVD
  | TCP_S_ESTABLISHED | TCP_S_CLOSE_WAIT | TCP_S_LAST_ACK | TCP_S_FIN_WAIT_1
  | TCP_S_FIN_WAIT_2 | TCP_S_CLOSING | TCP_S_TIME_WAIT

datatype TCPEventCode =
    TCP_E_IGNORE
  | TCP_E_OPEN_ACTIVE | TCP_E_OPEN_PASSIVE | TCP_E_SEND | TCP_E_CLOSE | TCP_E_ABORT
  | TCP_E_STATUS | TCP_E_QUEUE_BYTES_LIMIT
  | TCP_E_RCV_DATA | TCP_E_RCV_ACK | TCP_E_RCV_SYN | TCP_E_RCV_SYN_ACK
  | TCP_E_RCV_FIN | TCP_E_RCV_FIN_ACK | TCP_E_RCV_RST | TCP_E_RCV_UNEXP_SYN
  | TCP_E_TIMEOUT_2MSL | TCP_E_TIMEOUT_CONN_ESTAB | TCP_E_TIMEOUT_FIN_WAIT_2

text \<open>Timeouts in seconds, and the other constants of the header.\<close>

definition TCP_TIMEOUT_CONN_ESTAB :: int where "TCP_TIMEOUT_CONN_ESTAB = 75"
definition TCP_TIMEOUT_FIN_WAIT_2 :: int where "TCP_TIMEOUT_FIN_WAIT_2 = 600"
definition TCP_TIMEOUT_2MSL :: int where "TCP_TIMEOUT_2MSL = 240"
definition TCP_TIMEOUT_SYN_REXMIT :: int where "TCP_TIMEOUT_SYN_REXMIT = 3"
definition TCP_TIMEOUT_SYN_REXMIT_MAX :: int where "TCP_TIMEOUT_SYN_REXMIT_MAX = 240"
definition MAX_SYN_REXMIT_COUNT :: int where "MAX_SYN_REXMIT_COUNT = 12"
definition TCP_MAX_WIN :: u32 where "TCP_MAX_WIN = 65535"
definition DUPTHRESH :: u32 where "DUPTHRESH = 3"
definition MAX_SACK_BLOCKS :: u32 where "MAX_SACK_BLOCKS = 60"
definition TCP_OPTIONS_MAX_SIZE :: u32 where "TCP_OPTIONS_MAX_SIZE = 40"
definition TCP_OPTION_SACK_MIN_SIZE :: u32 where "TCP_OPTION_SACK_MIN_SIZE = 10"
definition TCP_OPTION_TS_SIZE :: u32 where "TCP_OPTION_TS_SIZE = 12"
definition PAWS_IDLE_TIME_THRESH :: int where "PAWS_IDLE_TIME_THRESH = 24 * 24 * 3600"

lemmas tcp_constants = TCP_TIMEOUT_CONN_ESTAB_def TCP_TIMEOUT_FIN_WAIT_2_def
  TCP_TIMEOUT_2MSL_def TCP_TIMEOUT_SYN_REXMIT_def TCP_TIMEOUT_SYN_REXMIT_MAX_def
  MAX_SYN_REXMIT_COUNT_def TCP_MAX_WIN_def DUPTHRESH_def MAX_SACK_BLOCKS_def
  TCP_OPTIONS_MAX_SIZE_def TCP_OPTION_SACK_MIN_SIZE_def TCP_OPTION_TS_SIZE_def
  PAWS_IDLE_TIME_THRESH_def

text \<open>Indications to the application (\<^verbatim>\<open>transport/contract/TCPCommand.msg\<close>).\<close>

datatype TcpStatusInd =
    TCP_I_DATA | TCP_I_URGENT_DATA | TCP_I_ESTABLISHED | TCP_I_PEER_CLOSED | TCP_I_CLOSED
  | TCP_I_CONNECTION_REFUSED | TCP_I_CONNECTION_RESET | TCP_I_TIMED_OUT | TCP_I_STATUS
  | TCP_I_SEND_MSG

datatype TCPDataTransferMode =
    TCP_TRANSFER_UNDEFINED | TCP_TRANSFER_BYTECOUNT | TCP_TRANSFER_OBJECT | TCP_TRANSFER_BYTESTREAM

record TCPOpenCommand =
  oc_localAddr :: IPvXAddress
  oc_remoteAddr :: IPvXAddress
  oc_localPort :: int
  oc_remotePort :: int
  oc_fork :: bool
  oc_dataTransferMode :: TCPDataTransferMode
  oc_tcpAlgorithmClass :: string

record TCPStatusInfo =
  si_state :: TCPState
  si_ids :: "IPvXAddress \<times> IPvXAddress \<times> int \<times> int"
  si_snd :: "u32 list"
  si_rcv :: "u32 list"
  si_fin_ack_rcvd :: bool

datatype out_msg =
    Out_segment TCPSegment IPvXAddress IPvXAddress
  | Out_indication TcpStatusInd int int
  | Out_established ConnId
  | Out_data cPacket int
  | Out_status TCPStatusInfo

section \<open>The TCB\<close>

record 'alg TCPStateVariables =
  active :: bool
  fork :: bool
  snd_mss :: u32
  snd_una :: u32
  snd_nxt :: u32
  snd_max :: u32
  snd_wnd :: u32
  snd_up :: u32
  snd_wl1 :: u32
  snd_wl2 :: u32
  iss :: u32
  rcv_nxt :: u32
  rcv_wnd :: u32
  rcv_up :: u32
  irs :: u32
  rcv_adv :: u32
  syn_rexmit_count :: int
  syn_rexmit_timeout :: simtime
  fin_ack_rcvd :: bool
  send_fin :: bool
  snd_fin_seq :: u32
  fin_rcvd :: bool
  rcv_fin_seq :: u32
  sentBytes :: u32
  nagle_enabled :: bool
  delayed_acks_enabled :: bool
  limited_transmit_enabled :: bool
  increased_IW_enabled :: bool
  full_sized_segment_counter :: u32
  ack_now :: bool
  afterRto :: bool
  ws_support :: bool
  ws_enabled :: bool
  snd_ws :: bool
  rcv_ws :: bool
  rcv_wnd_scale :: u32
  snd_wnd_scale :: u32
  ts_support :: bool
  ts_enabled :: bool
  snd_initial_ts :: bool
  rcv_initial_ts :: bool
  ts_recent :: u32
  last_ack_sent :: u32
  time_last_data_sent :: simtime
  sack_support :: bool
  sack_enabled :: bool
  snd_sack_perm :: bool
  rcv_sack_perm :: bool
  start_seqno :: u32
  end_seqno :: u32
  snd_sack :: bool
  snd_dsack :: bool
  sacks_array :: "Sack list"
  highRxt :: u32
  pipe :: u32
  recoveryPoint :: u32
  sackedBytes :: u32
  sackedBytes_old :: u32
  lossRecovery :: bool
  sendQueueLimit :: u32
  queueUpdate :: bool
  dupacks :: u32
  snd_sacks :: u32
  rcv_sacks :: u32
  rcv_oooseg :: u32
  rcv_naseg :: u32
  maxRcvBuffer :: u32
  usedRcvBuffer :: u32
  freeRcvBuffer :: u32
  tcpRcvQueueDrops :: u32
  alg :: 'alg

definition new_TCPStateVariables :: "'alg \<Rightarrow> 'alg TCPStateVariables" where
  "new_TCPStateVariables a = \<lparr>
     active = False, fork = False, snd_mss = 0, snd_una = 0, snd_nxt = 0, snd_max = 0, 
     snd_wnd = 0, snd_up = 0, snd_wl1 = 0, snd_wl2 = 0, iss = 0, rcv_nxt = 0, rcv_wnd = 0, 
     rcv_up = 0, irs = 0, rcv_adv = 0, syn_rexmit_count = 0, syn_rexmit_timeout = 0, 
     fin_ack_rcvd = False, send_fin = False, snd_fin_seq = 0, fin_rcvd = False, rcv_fin_seq = 0, 
     sentBytes = 0, nagle_enabled = False, delayed_acks_enabled = False, 
     limited_transmit_enabled = False, increased_IW_enabled = False, 
     full_sized_segment_counter = 0, ack_now = False, afterRto = False, ws_support = False, 
     ws_enabled = False, snd_ws = False, rcv_ws = False, rcv_wnd_scale = 0, snd_wnd_scale = 0, 
     ts_support = False, ts_enabled = False, snd_initial_ts = False, rcv_initial_ts = False, 
     ts_recent = 0, last_ack_sent = 0, time_last_data_sent = 0, sack_support = False, 
     sack_enabled = False, snd_sack_perm = False, rcv_sack_perm = False, start_seqno = 0, 
     end_seqno = 0, snd_sack = False, snd_dsack = False, sacks_array = [], highRxt = 0, pipe = 0, 
     recoveryPoint = 0, sackedBytes = 0, sackedBytes_old = 0, lossRecovery = False, 
     sendQueueLimit = 0, queueUpdate = True, dupacks = 0, snd_sacks = 0, rcv_sacks = 0, 
     rcv_oooseg = 0, rcv_naseg = 0, maxRcvBuffer = 0, usedRcvBuffer = 0, freeRcvBuffer = 0, 
     tcpRcvQueueDrops = 0, alg = a\<rparr>"

section \<open>The connection\<close>

text \<open>The module parameters that a connection reads.\<close>

record TCP_par =
  par_advertisedWindow :: int
  par_windowScalingSupport :: bool
  par_delayedAcksEnabled :: bool
  par_nagleEnabled :: bool
  par_limitedTransmitEnabled :: bool
  par_increasedIWEnabled :: bool
  par_mss :: int
  par_timestampSupport :: bool
  par_sackSupport :: bool
  par_tcpAlgorithmClass :: string

record 'alg TCPConnection = ConnId +
  fsm :: TCPState
  transferMode :: TCPDataTransferMode
  sendQueue :: "TCPSendQueue option"
  receiveQueue :: "TCPReceiveQueue option"
  rexmitQueue :: "TCPSACKRexmitQueue option"
  tcpAlgorithm :: bool
  state :: "'alg TCPStateVariables"
  the2MSLTimer :: timer
  connEstabTimer :: timer
  finWait2Timer :: timer
  synRexmitTimer :: timer
  par :: TCP_par
  simTime :: simtime
  sent :: "out_msg list"

text \<open>The constructor; \<open>a\<close> is the state that the algorithm object will have.\<close>

definition new_TCPConnection :: "'alg \<Rightarrow> TCP_par \<Rightarrow> simtime \<Rightarrow> int \<Rightarrow> int \<Rightarrow> 'alg TCPConnection" where
  "new_TCPConnection a p now gate cid =
     \<lparr>appGateIndex = gate, connId = cid, localAddr = unspecified_addr, remoteAddr = unspecified_addr,
      localPort = -1, remotePort = -1, fsm = TCP_S_INIT, transferMode = TCP_TRANSFER_UNDEFINED,
      sendQueue = None, receiveQueue = None, rexmitQueue = None, tcpAlgorithm = False,
      state = new_TCPStateVariables a, the2MSLTimer = Timer_idle, connEstabTimer = Timer_idle,
      finWait2Timer = Timer_idle, synRexmitTimer = Timer_idle, par = p, simTime = now, sent = []\<rparr>"

text \<open>
  The virtual methods of \<^verbatim>\<open>TCPAlgorithm\<close>. They read and change the connection they
  belong to. The methods by which the connection tells its algorithm what it has done (they only
  keep the algorithm's books and timers) are a record of their own, because the sending
  functions of the connection call them, and the other methods call the sending functions.
\<close>

datatype alg_timer = REXMIT | PERSIST | DELAYEDACK | KEEPALIVE

record 'alg TCPAlgNotify =
  na_ackSent :: "'alg TCPConnection \<Rightarrow> 'alg TCPConnection res"
  na_dataSent :: "u32 \<Rightarrow> 'alg TCPConnection \<Rightarrow> 'alg TCPConnection res"
  na_segmentRetransmitted :: "u32 \<Rightarrow> u32 \<Rightarrow> 'alg TCPConnection \<Rightarrow> 'alg TCPConnection res"
  na_restartRexmitTimer :: "'alg TCPConnection \<Rightarrow> 'alg TCPConnection res"
  na_connectionClosed :: "'alg TCPConnection \<Rightarrow> 'alg TCPConnection res"

record 'alg TCPAlgorithm =
  ta_notify :: "'alg TCPAlgNotify"
  ta_createStateVariables :: 'alg
  ta_initialize :: "'alg TCPConnection \<Rightarrow> 'alg TCPConnection res"
  ta_established :: "bool \<Rightarrow> 'alg TCPConnection \<Rightarrow> 'alg TCPConnection res"
  ta_processTimer :: "alg_timer \<Rightarrow> 'alg TCPConnection \<Rightarrow> (TCPEventCode \<times> 'alg TCPConnection) res"
  ta_sendCommandInvoked :: "'alg TCPConnection \<Rightarrow> 'alg TCPConnection res"
  ta_receivedOutOfOrderSegment :: "'alg TCPConnection \<Rightarrow> 'alg TCPConnection res"
  ta_receiveSeqChanged :: "'alg TCPConnection \<Rightarrow> 'alg TCPConnection res"
  ta_receivedDataAck :: "u32 \<Rightarrow> 'alg TCPConnection \<Rightarrow> 'alg TCPConnection res"
  ta_receivedDuplicateAck :: "'alg TCPConnection \<Rightarrow> 'alg TCPConnection res"
  ta_receivedAckForDataNotYetSent :: "u32 \<Rightarrow> 'alg TCPConnection \<Rightarrow> 'alg TCPConnection res"
  ta_rttMeasurementCompleteUsingTS :: "u32 \<Rightarrow> 'alg TCPConnection \<Rightarrow> 'alg TCPConnection res"

text \<open>A call through the algorithm pointer.\<close>

definition alg_call :: "('alg TCPConnection \<Rightarrow> 'b res) \<Rightarrow> 'alg TCPConnection \<Rightarrow> 'b res" where
  "alg_call f c = (if tcpAlgorithm c then f c else Inl Undefined_behaviour)"

definition upd :: "('alg TCPStateVariables \<Rightarrow> 'alg TCPStateVariables) \<Rightarrow> 'alg TCPConnection
    \<Rightarrow> 'alg TCPConnection" where
  "upd f c = c\<lparr>state := f (state c)\<rparr>"

definition emit :: "out_msg \<Rightarrow> 'alg TCPConnection \<Rightarrow> 'alg TCPConnection" where
  "emit m c = c\<lparr>sent := sent c @ [m]\<rparr>"

section \<open>Timers and notifications\<close>

definition cancelEvent :: "timer \<Rightarrow> timer res" where
  "cancelEvent t = (case t of Timer_null \<Rightarrow> Inl (Runtime_error ''cancelEvent(): message pointer is NULL'')
     | _ \<Rightarrow> Inr Timer_idle)"

definition cancel_if :: "timer \<Rightarrow> timer" where
  "cancel_if t = (case t of Timer_null \<Rightarrow> Timer_null | _ \<Rightarrow> Timer_idle)"

text \<open>\<^verbatim>\<open>scheduleAt\<close> refuses a message that is already scheduled.\<close>

definition scheduleTimeout :: "simtime \<Rightarrow> simtime \<Rightarrow> timer \<Rightarrow> timer res" where
  "scheduleTimeout now timeout t =
     (case t of
        Timer_null \<Rightarrow> Inl (Runtime_error ''scheduleAt(): message pointer is NULL'')
      | Timer_idle \<Rightarrow> Inr (Timer_at (now + timeout))
      | Timer_at _ \<Rightarrow> Inl (Runtime_error ''scheduleAt(): message is already scheduled''))"

definition sendIndicationToApp :: "TcpStatusInd \<Rightarrow> int \<Rightarrow> 'alg TCPConnection \<Rightarrow> 'alg TCPConnection" where
  "sendIndicationToApp code uid c = emit (Out_indication code (connId c) uid) c"

definition sendEstabIndicationToApp :: "'alg TCPConnection \<Rightarrow> 'alg TCPConnection" where
  "sendEstabIndicationToApp c =
     emit (Out_established \<lparr>appGateIndex = appGateIndex c, connId = connId c, localAddr = localAddr c,
             remoteAddr = remoteAddr c, localPort = localPort c, remotePort = remotePort c\<rparr>) c"

definition signalConnectionTimeout :: "'alg TCPConnection \<Rightarrow> 'alg TCPConnection" where
  "signalConnectionTimeout c = sendIndicationToApp TCP_I_TIMED_OUT 0 c"

lemma upd_simps [simp]:
  "state (upd f c) = f (state c)" "fsm (upd f c) = fsm c" "sent (upd f c) = sent c"
  "sendQueue (upd f c) = sendQueue c" "receiveQueue (upd f c) = receiveQueue c"
  "rexmitQueue (upd f c) = rexmitQueue c" "tcpAlgorithm (upd f c) = tcpAlgorithm c"
  "simTime (upd f c) = simTime c" "par (upd f c) = par c" "transferMode (upd f c) = transferMode c"
  "the2MSLTimer (upd f c) = the2MSLTimer c" "connEstabTimer (upd f c) = connEstabTimer c"
  "finWait2Timer (upd f c) = finWait2Timer c" "synRexmitTimer (upd f c) = synRexmitTimer c"
  "localAddr (upd f c) = localAddr c" "remoteAddr (upd f c) = remoteAddr c"
  "localPort (upd f c) = localPort c" "remotePort (upd f c) = remotePort c"
  "connId (upd f c) = connId c" "appGateIndex (upd f c) = appGateIndex c"
  by (simp_all add: upd_def)

lemma emit_simps [simp]:
  "state (emit m c) = state c" "fsm (emit m c) = fsm c" "sent (emit m c) = sent c @ [m]"
  "sendQueue (emit m c) = sendQueue c" "receiveQueue (emit m c) = receiveQueue c"
  "rexmitQueue (emit m c) = rexmitQueue c" "tcpAlgorithm (emit m c) = tcpAlgorithm c"
  "simTime (emit m c) = simTime c" "par (emit m c) = par c" "transferMode (emit m c) = transferMode c"
  "the2MSLTimer (emit m c) = the2MSLTimer c" "connEstabTimer (emit m c) = connEstabTimer c"
  "finWait2Timer (emit m c) = finWait2Timer c" "synRexmitTimer (emit m c) = synRexmitTimer c"
  "localAddr (emit m c) = localAddr c" "remoteAddr (emit m c) = remoteAddr c"
  "localPort (emit m c) = localPort c" "remotePort (emit m c) = remotePort c"
  "connId (emit m c) = connId c" "appGateIndex (emit m c) = appGateIndex c"
  by (simp_all add: emit_def)

end
