(* ===== verification/TCP_FSM.thy ===== *)
theory TCP_FSM
  imports TCP_State
begin

text \<open>
  The state machine of a connection (\<^verbatim>\<open>TCPConnectionBase.cc\<close>): the event that an
  application command stands for, the transition table of \<^verbatim>\<open>performStateTransition\<close>, and
  the actions of \<^verbatim>\<open>stateEntered\<close>, which cancels the timers of the connection. The runs of
  the transition table are an inductive relation; its invariants say which events a connection
  must have seen to be in a state. The lemmas on the connection show that the timers a state
  needs exist, so that no transition fails, and that a closed connection has no pending timer.
\<close>

section \<open>Application commands\<close>

definition TCP_C_OPEN_ACTIVE :: int where "TCP_C_OPEN_ACTIVE = 1"
definition TCP_C_OPEN_PASSIVE :: int where "TCP_C_OPEN_PASSIVE = 2"
definition TCP_C_SEND :: int where "TCP_C_SEND = 3"
definition TCP_C_CLOSE :: int where "TCP_C_CLOSE = 5"
definition TCP_C_ABORT :: int where "TCP_C_ABORT = 6"
definition TCP_C_STATUS :: int where "TCP_C_STATUS = 7"
definition TCP_C_QUEUE_BYTES_LIMIT :: int where "TCP_C_QUEUE_BYTES_LIMIT = 8"

lemmas command_codes = TCP_C_OPEN_ACTIVE_def TCP_C_OPEN_PASSIVE_def TCP_C_SEND_def
  TCP_C_CLOSE_def TCP_C_ABORT_def TCP_C_STATUS_def TCP_C_QUEUE_BYTES_LIMIT_def

definition preanalyseAppCommandEvent :: "int \<Rightarrow> TCPEventCode res" where
  "preanalyseAppCommandEvent commandCode =
     (if commandCode = TCP_C_OPEN_ACTIVE then Inr TCP_E_OPEN_ACTIVE
      else if commandCode = TCP_C_OPEN_PASSIVE then Inr TCP_E_OPEN_PASSIVE
      else if commandCode = TCP_C_SEND then Inr TCP_E_SEND
      else if commandCode = TCP_C_CLOSE then Inr TCP_E_CLOSE
      else if commandCode = TCP_C_ABORT then Inr TCP_E_ABORT
      else if commandCode = TCP_C_STATUS then Inr TCP_E_STATUS
      else if commandCode = TCP_C_QUEUE_BYTES_LIMIT then Inr TCP_E_QUEUE_BYTES_LIMIT
      else Inl (Runtime_error ''Unknown message kind in app command''))"

section \<open>The transition table\<close>

text \<open>The switch over state and event; \<open>act\<close> is the flag \<open>active\<close> of the TCB.\<close>

definition next_state :: "bool \<Rightarrow> TCPState \<Rightarrow> TCPEventCode \<Rightarrow> TCPState" where
  "next_state act s event =
     (case s of
        TCP_S_INIT \<Rightarrow>
          (case event of
             TCP_E_OPEN_PASSIVE \<Rightarrow> TCP_S_LISTEN
           | TCP_E_OPEN_ACTIVE \<Rightarrow> TCP_S_SYN_SENT
           | _ \<Rightarrow> s)
      | TCP_S_LISTEN \<Rightarrow>
          (case event of
             TCP_E_OPEN_ACTIVE \<Rightarrow> TCP_S_SYN_SENT
           | TCP_E_SEND \<Rightarrow> TCP_S_SYN_SENT
           | TCP_E_CLOSE \<Rightarrow> TCP_S_CLOSED
           | TCP_E_ABORT \<Rightarrow> TCP_S_CLOSED
           | TCP_E_RCV_SYN \<Rightarrow> TCP_S_SYN_RCVD
           | _ \<Rightarrow> s)
      | TCP_S_SYN_RCVD \<Rightarrow>
          (case event of
             TCP_E_CLOSE \<Rightarrow> TCP_S_FIN_WAIT_1
           | TCP_E_ABORT \<Rightarrow> TCP_S_CLOSED
           | TCP_E_TIMEOUT_CONN_ESTAB \<Rightarrow> (if act then TCP_S_CLOSED else TCP_S_LISTEN)
           | TCP_E_RCV_RST \<Rightarrow> (if act then TCP_S_CLOSED else TCP_S_LISTEN)
           | TCP_E_RCV_ACK \<Rightarrow> TCP_S_ESTABLISHED
           | TCP_E_RCV_FIN \<Rightarrow> TCP_S_CLOSE_WAIT
           | TCP_E_RCV_UNEXP_SYN \<Rightarrow> TCP_S_CLOSED
           | _ \<Rightarrow> s)
      | TCP_S_SYN_SENT \<Rightarrow>
          (case event of
             TCP_E_CLOSE \<Rightarrow> TCP_S_CLOSED
           | TCP_E_ABORT \<Rightarrow> TCP_S_CLOSED
           | TCP_E_TIMEOUT_CONN_ESTAB \<Rightarrow> TCP_S_CLOSED
           | TCP_E_RCV_RST \<Rightarrow> TCP_S_CLOSED
           | TCP_E_RCV_SYN_ACK \<Rightarrow> TCP_S_ESTABLISHED
           | TCP_E_RCV_SYN \<Rightarrow> TCP_S_SYN_RCVD
           | _ \<Rightarrow> s)
      | TCP_S_ESTABLISHED \<Rightarrow>
          (case event of
             TCP_E_CLOSE \<Rightarrow> TCP_S_FIN_WAIT_1
           | TCP_E_ABORT \<Rightarrow> TCP_S_CLOSED
           | TCP_E_RCV_FIN \<Rightarrow> TCP_S_CLOSE_WAIT
           | TCP_E_RCV_RST \<Rightarrow> TCP_S_CLOSED
           | TCP_E_RCV_UNEXP_SYN \<Rightarrow> TCP_S_CLOSED
           | _ \<Rightarrow> s)
      | TCP_S_CLOSE_WAIT \<Rightarrow>
          (case event of
             TCP_E_CLOSE \<Rightarrow> TCP_S_LAST_ACK
           | TCP_E_ABORT \<Rightarrow> TCP_S_CLOSED
           | TCP_E_RCV_RST \<Rightarrow> TCP_S_CLOSED
           | TCP_E_RCV_UNEXP_SYN \<Rightarrow> TCP_S_CLOSED
           | _ \<Rightarrow> s)
      | TCP_S_LAST_ACK \<Rightarrow>
          (case event of
             TCP_E_ABORT \<Rightarrow> TCP_S_CLOSED
           | TCP_E_RCV_ACK \<Rightarrow> TCP_S_CLOSED
           | TCP_E_RCV_RST \<Rightarrow> TCP_S_CLOSED
           | TCP_E_RCV_UNEXP_SYN \<Rightarrow> TCP_S_CLOSED
           | _ \<Rightarrow> s)
      | TCP_S_FIN_WAIT_1 \<Rightarrow>
          (case event of
             TCP_E_ABORT \<Rightarrow> TCP_S_CLOSED
           | TCP_E_RCV_FIN \<Rightarrow> TCP_S_CLOSING
           | TCP_E_RCV_ACK \<Rightarrow> TCP_S_FIN_WAIT_2
           | TCP_E_RCV_FIN_ACK \<Rightarrow> TCP_S_TIME_WAIT
           | TCP_E_RCV_RST \<Rightarrow> TCP_S_CLOSED
           | TCP_E_RCV_UNEXP_SYN \<Rightarrow> TCP_S_CLOSED
           | _ \<Rightarrow> s)
      | TCP_S_FIN_WAIT_2 \<Rightarrow>
          (case event of
             TCP_E_ABORT \<Rightarrow> TCP_S_CLOSED
           | TCP_E_RCV_FIN \<Rightarrow> TCP_S_TIME_WAIT
           | TCP_E_TIMEOUT_FIN_WAIT_2 \<Rightarrow> TCP_S_CLOSED
           | TCP_E_RCV_RST \<Rightarrow> TCP_S_CLOSED
           | TCP_E_RCV_UNEXP_SYN \<Rightarrow> TCP_S_CLOSED
           | _ \<Rightarrow> s)
      | TCP_S_CLOSING \<Rightarrow>
          (case event of
             TCP_E_ABORT \<Rightarrow> TCP_S_CLOSED
           | TCP_E_RCV_ACK \<Rightarrow> TCP_S_TIME_WAIT
           | TCP_E_RCV_RST \<Rightarrow> TCP_S_CLOSED
           | TCP_E_RCV_UNEXP_SYN \<Rightarrow> TCP_S_CLOSED
           | _ \<Rightarrow> s)
      | TCP_S_TIME_WAIT \<Rightarrow>
          (case event of
             TCP_E_ABORT \<Rightarrow> TCP_S_CLOSED
           | TCP_E_TIMEOUT_2MSL \<Rightarrow> TCP_S_CLOSED
           | TCP_E_RCV_RST \<Rightarrow> TCP_S_CLOSED
           | TCP_E_RCV_UNEXP_SYN \<Rightarrow> TCP_S_CLOSED
           | _ \<Rightarrow> s)
      | TCP_S_CLOSED \<Rightarrow> s)"

section \<open>Entering a state\<close>

text \<open>
  \<^verbatim>\<open>cancelEvent\<close> of a null pointer is an error; \<^verbatim>\<open>delete\<close> leaves no object, and the
  code then sets the pointer to null.
\<close>

definition stateEntered :: "'alg TCPAlgNotify \<Rightarrow> TCPState \<Rightarrow> TCPState \<Rightarrow> TCPEventCode
    \<Rightarrow> 'alg TCPConnection \<Rightarrow> 'alg TCPConnection res" where
  "stateEntered na st oldState event c =
     (case st of
        TCP_S_INIT \<Rightarrow> Inr c
      | TCP_S_LISTEN \<Rightarrow>
          ASSERT (connEstabTimer c \<noteq> Timer_null \<and> synRexmitTimer c \<noteq> Timer_null)
            (bind_res (cancelEvent (connEstabTimer c)) (\<lambda>t1.
             bind_res (cancelEvent (synRexmitTimer c)) (\<lambda>t2.
               Inr (c\<lparr>connEstabTimer := t1, synRexmitTimer := t2\<rparr>))))
      | TCP_S_SYN_RCVD \<Rightarrow> Inr c
      | TCP_S_SYN_SENT \<Rightarrow> Inr c
      | TCP_S_ESTABLISHED \<Rightarrow>
          bind_res (cancelEvent (connEstabTimer c)) (\<lambda>_.
          bind_res (cancelEvent (synRexmitTimer c)) (\<lambda>_.
            Inr (c\<lparr>connEstabTimer := Timer_null, synRexmitTimer := Timer_null\<rparr>)))
      | TCP_S_TIME_WAIT \<Rightarrow> Inr (sendIndicationToApp TCP_I_CLOSED 0 c)
      | TCP_S_CLOSED \<Rightarrow>
          (let c1 = (if oldState \<noteq> TCP_S_TIME_WAIT \<and> event \<noteq> TCP_E_ABORT
                     then sendIndicationToApp TCP_I_CLOSED 0 c else c);
               c2 = c1\<lparr>the2MSLTimer := cancel_if (the2MSLTimer c1),
                       connEstabTimer := cancel_if (connEstabTimer c1),
                       finWait2Timer := cancel_if (finWait2Timer c1),
                       synRexmitTimer := cancel_if (synRexmitTimer c1)\<rparr>
           in alg_call (na_connectionClosed na) c2)
      | _ \<Rightarrow>
          (let c1 = (if st = TCP_S_CLOSE_WAIT then sendIndicationToApp TCP_I_PEER_CLOSED 0 c else c)
           in Inr (c1\<lparr>connEstabTimer := cancel_if (connEstabTimer c1),
                      synRexmitTimer := cancel_if (synRexmitTimer c1)\<rparr>)))"

text \<open>The result says whether the connection object is to be kept.\<close>

definition performStateTransition :: "'alg TCPAlgNotify \<Rightarrow> TCPEventCode \<Rightarrow> 'alg TCPConnection
    \<Rightarrow> (bool \<times> 'alg TCPConnection) res" where
  "performStateTransition na event c =
     ASSERT (fsm c \<noteq> TCP_S_CLOSED)
       (if event = TCP_E_IGNORE then Inr (True, c)
        else
          let oldState = fsm c;
              c1 = c\<lparr>fsm := next_state (active (state c)) oldState event\<rparr>
          in bind_res (if oldState \<noteq> fsm c1 then stateEntered na (fsm c1) oldState event c1
                       else Inr c1)
               (\<lambda>c2. Inr (fsm c2 \<noteq> TCP_S_CLOSED, c2)))"

section \<open>Runs of the table\<close>

text \<open>
  \<open>fsm_run es s\<close>: the events \<open>es\<close>, in this order, take a new connection to the state \<open>s\<close>. The flag
  \<open>active\<close> may have any value at each event. A closed connection takes no event.
\<close>

inductive fsm_run :: "TCPEventCode list \<Rightarrow> TCPState \<Rightarrow> bool" where
  run_start: "fsm_run [] TCP_S_INIT"
| run_event: "fsm_run es s \<Longrightarrow> s \<noteq> TCP_S_CLOSED \<Longrightarrow> fsm_run (es @ [e]) (next_state act s e)"

inductive_cases fsm_run_NilE [elim!]: "fsm_run [] s"
inductive_cases fsm_run_snocE: "fsm_run (es @ [e]) s"
inductive_simps fsm_run_Nil [simp]: "fsm_run [] s"

lemmas table_splits = TCPState.splits TCPEventCode.splits if_splits

definition opened :: "TCPEventCode list \<Rightarrow> bool" where
  "opened es \<longleftrightarrow> TCP_E_OPEN_ACTIVE \<in> set es \<or> TCP_E_OPEN_PASSIVE \<in> set es"

definition peer_fin :: "TCPEventCode list \<Rightarrow> bool" where
  "peer_fin es \<longleftrightarrow> TCP_E_RCV_FIN \<in> set es \<or> TCP_E_RCV_FIN_ACK \<in> set es"

definition peer_syn :: "TCPEventCode list \<Rightarrow> bool" where
  "peer_syn es \<longleftrightarrow> TCP_E_RCV_SYN \<in> set es \<or> TCP_E_RCV_SYN_ACK \<in> set es"

definition peer_ack :: "TCPEventCode list \<Rightarrow> bool" where
  "peer_ack es \<longleftrightarrow> TCP_E_RCV_ACK \<in> set es \<or> TCP_E_RCV_FIN_ACK \<in> set es"

lemmas seen_defs = opened_def peer_fin_def peer_syn_def peer_ack_def

text \<open>What a connection in a state has seen.\<close>

definition seen_ok :: "TCPState \<Rightarrow> TCPEventCode list \<Rightarrow> bool" where
  "seen_ok s es \<longleftrightarrow>
     (s \<noteq> TCP_S_INIT \<longrightarrow> opened es)
   \<and> (s \<notin> {TCP_S_INIT, TCP_S_CLOSED, TCP_S_LISTEN, TCP_S_SYN_SENT} \<longrightarrow> peer_syn es)
   \<and> (s \<in> {TCP_S_FIN_WAIT_1, TCP_S_FIN_WAIT_2, TCP_S_CLOSING, TCP_S_LAST_ACK, TCP_S_TIME_WAIT}
        \<longrightarrow> TCP_E_CLOSE \<in> set es)
   \<and> (s \<in> {TCP_S_CLOSE_WAIT, TCP_S_LAST_ACK, TCP_S_CLOSING, TCP_S_TIME_WAIT} \<longrightarrow> peer_fin es)
   \<and> (s \<in> {TCP_S_FIN_WAIT_2, TCP_S_TIME_WAIT} \<longrightarrow> peer_ack es)"

lemma seen_ok_step:
  "seen_ok s es \<Longrightarrow> seen_ok (next_state act s e) (es @ [e])"
  unfolding seen_ok_def seen_defs next_state_def
  by (cases s; cases e) auto

lemma fsm_run_seen: "fsm_run es s \<Longrightarrow> seen_ok s es"
proof (induction rule: fsm_run.induct)
  case run_start
  show ?case by (simp add: seen_ok_def)
next
  case (run_event es s e act)
  then show ?case by (blast intro: seen_ok_step)
qed

text \<open>
  C23: A connection reaches TIME_WAIT only when the application has closed it, the peer's SYN and
  FIN have been received, and the peer has acknowledged: no order of events takes it there earlier.
\<close>

theorem time_wait_after_both_fins:
  assumes "fsm_run es TCP_S_TIME_WAIT"
  shows "TCP_E_CLOSE \<in> set es \<and> peer_syn es \<and> peer_fin es \<and> peer_ack es"
  using fsm_run_seen[OF assms] by (simp add: seen_ok_def)

lemma fsm_run_run:
  "fsm_run es s \<Longrightarrow> s \<noteq> TCP_S_CLOSED \<Longrightarrow> es' = es @ [e] \<Longrightarrow> s' = next_state act s e \<Longrightarrow> fsm_run es' s'"
  using run_event by simp

lemma fsm_run_active_close:
  "fsm_run [TCP_E_OPEN_ACTIVE, TCP_E_RCV_SYN_ACK, TCP_E_CLOSE, TCP_E_RCV_ACK, TCP_E_RCV_FIN]
     TCP_S_TIME_WAIT"
proof -
  have 1: "fsm_run [TCP_E_OPEN_ACTIVE] TCP_S_SYN_SENT"
    by (rule fsm_run_run[OF run_start, where act = True and e = TCP_E_OPEN_ACTIVE]) (simp_all add: next_state_def)
  have 2: "fsm_run [TCP_E_OPEN_ACTIVE, TCP_E_RCV_SYN_ACK] TCP_S_ESTABLISHED"
    by (rule fsm_run_run[OF 1, where act = True and e = TCP_E_RCV_SYN_ACK]) (simp_all add: next_state_def)
  have 3: "fsm_run [TCP_E_OPEN_ACTIVE, TCP_E_RCV_SYN_ACK, TCP_E_CLOSE] TCP_S_FIN_WAIT_1"
    by (rule fsm_run_run[OF 2, where act = True and e = TCP_E_CLOSE]) (simp_all add: next_state_def)
  have 4: "fsm_run [TCP_E_OPEN_ACTIVE, TCP_E_RCV_SYN_ACK, TCP_E_CLOSE, TCP_E_RCV_ACK] TCP_S_FIN_WAIT_2"
    by (rule fsm_run_run[OF 3, where act = True and e = TCP_E_RCV_ACK]) (simp_all add: next_state_def)
  show ?thesis
    by (rule fsm_run_run[OF 4, where act = True and e = TCP_E_RCV_FIN]) (simp_all add: next_state_def)
qed

theorem time_wait_after_both_fins_witness:
  "(let es = [TCP_E_OPEN_ACTIVE, TCP_E_RCV_SYN_ACK, TCP_E_CLOSE, TCP_E_RCV_ACK, TCP_E_RCV_FIN]
    in TCP_E_CLOSE \<in> set es \<and> peer_syn es \<and> peer_fin es \<and> peer_ack es)"
  using time_wait_after_both_fins[OF fsm_run_active_close] by (simp only: Let_def)

lemma next_state_not_INIT: "s \<noteq> TCP_S_INIT \<Longrightarrow> next_state act s e \<noteq> TCP_S_INIT"
  unfolding next_state_def by (cases s; cases e) auto

section \<open>Timers of the connection\<close>

text \<open>
  The interface of an algorithm that the state machine needs: in the states \<open>alg_ok\<close> of its
  own variables, telling it that the connection has closed succeeds, keeps \<open>alg_ok\<close> and leaves
  the connection's own fields alone.
\<close>

locale closing_algorithm =
  fixes na :: "'alg TCPAlgNotify" and alg_ok :: "'alg \<Rightarrow> bool"
  assumes closed_ok: "tcpAlgorithm c \<Longrightarrow> alg_ok (alg (state c)) \<Longrightarrow>
    \<exists>c'. na_connectionClosed na c = Inr c' \<and> alg_ok (alg (state c'))
    \<and> fsm c' = fsm c \<and> sent c' = sent c \<and> tcpAlgorithm c'
    \<and> the2MSLTimer c' = the2MSLTimer c \<and> connEstabTimer c' = connEstabTimer c
    \<and> finWait2Timer c' = finWait2Timer c \<and> synRexmitTimer c' = synRexmitTimer c"

text \<open>
  The timers a state needs exist: the establishment timers are allocated until the connection is
  established; in TIME_WAIT and CLOSED nothing but the 2MSL timer can be pending, and in CLOSED
  not even that.
\<close>

definition timers_ok :: "'alg TCPConnection \<Rightarrow> bool" where
  "timers_ok c \<longleftrightarrow>
     (fsm c \<in> {TCP_S_INIT, TCP_S_LISTEN, TCP_S_SYN_SENT, TCP_S_SYN_RCVD}
        \<longrightarrow> connEstabTimer c \<noteq> Timer_null \<and> synRexmitTimer c \<noteq> Timer_null)
   \<and> (fsm c \<notin> {TCP_S_INIT, TCP_S_LISTEN, TCP_S_SYN_SENT, TCP_S_SYN_RCVD}
        \<longrightarrow> \<not> pending (connEstabTimer c) \<and> \<not> pending (synRexmitTimer c))
   \<and> (fsm c = TCP_S_CLOSED \<longrightarrow> \<not> pending (the2MSLTimer c) \<and> \<not> pending (finWait2Timer c))"

lemma pending_cancel_if [simp]: "\<not> pending (cancel_if t)"
  by (simp add: cancel_if_def split: timer.splits)

lemma cancelEvent_ok [simp]: "t \<noteq> Timer_null \<Longrightarrow> cancelEvent t = Inr Timer_idle"
  by (cases t) (simp_all add: cancelEvent_def)

lemma sendIndicationToApp_simps [simp]:
  "fsm (sendIndicationToApp k u c) = fsm c" "state (sendIndicationToApp k u c) = state c"
  "tcpAlgorithm (sendIndicationToApp k u c) = tcpAlgorithm c"
  "the2MSLTimer (sendIndicationToApp k u c) = the2MSLTimer c"
  "connEstabTimer (sendIndicationToApp k u c) = connEstabTimer c"
  "finWait2Timer (sendIndicationToApp k u c) = finWait2Timer c"
  "synRexmitTimer (sendIndicationToApp k u c) = synRexmitTimer c"
  "sent (sendIndicationToApp k u c) = sent c @ [Out_indication k (connId c) u]"
  by (simp_all add: sendIndicationToApp_def)

text \<open>How often the application has been told that the connection is closed.\<close>

definition is_closed_ind :: "out_msg \<Rightarrow> bool" where
  "is_closed_ind m = (case m of Out_indication TCP_I_CLOSED _ _ \<Rightarrow> True | _ \<Rightarrow> False)"

definition closed_inds :: "'alg TCPConnection \<Rightarrow> nat" where
  "closed_inds c = length (filter is_closed_ind (sent c))"

definition told_ok :: "'alg TCPConnection \<Rightarrow> bool" where
  "told_ok c \<longleftrightarrow> closed_inds c \<le> 1
     \<and> (fsm c \<notin> {TCP_S_TIME_WAIT, TCP_S_CLOSED} \<longrightarrow> closed_inds c = 0)"

text \<open>From which states each state can be entered.\<close>

lemma next_state_from:
  assumes "next_state act s e = n" "s \<noteq> n"
  shows "n = TCP_S_ESTABLISHED \<Longrightarrow> s \<in> {TCP_S_SYN_RCVD, TCP_S_SYN_SENT}"
    and "n = TCP_S_LISTEN \<Longrightarrow> s \<in> {TCP_S_INIT, TCP_S_SYN_RCVD}"
    and "n \<in> {TCP_S_SYN_SENT, TCP_S_SYN_RCVD} \<Longrightarrow> s \<in> {TCP_S_INIT, TCP_S_LISTEN, TCP_S_SYN_SENT}"
    and "n = TCP_S_TIME_WAIT \<Longrightarrow> s \<in> {TCP_S_FIN_WAIT_1, TCP_S_FIN_WAIT_2, TCP_S_CLOSING}"
    and "n \<noteq> TCP_S_INIT"
    and "n \<noteq> TCP_S_CLOSED \<Longrightarrow> s \<notin> {TCP_S_TIME_WAIT, TCP_S_CLOSED}"
  using assms unfolding next_state_def
  by (cases s; cases e; auto split: if_splits)+

context closing_algorithm begin

lemma enter_ok:
  assumes "timers_ok c" "tcpAlgorithm c" "fsm c \<noteq> TCP_S_CLOSED" "told_ok c"
    and "n = next_state act (fsm c) e" "fsm c \<noteq> n" and al: "alg_ok (alg (state c))"
  shows "\<exists>c'. stateEntered na n (fsm c) e (c\<lparr>fsm := n\<rparr>) = Inr c' \<and> fsm c' = n \<and> timers_ok c'
    \<and> told_ok c' \<and> tcpAlgorithm c' \<and> alg_ok (alg (state c'))"
proof -
  note f = next_state_from[OF assms(5)[symmetric] assms(6)]
  have fsmu: "fsm (c\<lparr>fsm := n\<rparr>) = n" by simp
  show ?thesis
  proof (cases "n = TCP_S_CLOSED")
    case True
    define c1 where "c1 = (if fsm c \<noteq> TCP_S_TIME_WAIT \<and> e \<noteq> TCP_E_ABORT
      then sendIndicationToApp TCP_I_CLOSED 0 (c\<lparr>fsm := n\<rparr>) else c\<lparr>fsm := n\<rparr>)"
    define c2 where "c2 = c1\<lparr>the2MSLTimer := cancel_if (the2MSLTimer c1),
      connEstabTimer := cancel_if (connEstabTimer c1), finWait2Timer := cancel_if (finWait2Timer c1),
      synRexmitTimer := cancel_if (synRexmitTimer c1)\<rparr>"
    have c2: "tcpAlgorithm c2" "fsm c2 = n" "sent c2 = sent c1" "alg_ok (alg (state c2))"
      using assms(2) al by (simp_all add: c2_def c1_def)
    have np: "\<not> pending (the2MSLTimer c2)" "\<not> pending (connEstabTimer c2)"
      "\<not> pending (finWait2Timer c2)" "\<not> pending (synRexmitTimer c2)"
      by (simp_all add: c2_def)
    have told: "told_ok c2"
      using assms(4,3) True by (auto simp: told_ok_def closed_inds_def c2_def c1_def is_closed_ind_def)
    obtain c' where "na_connectionClosed na c2 = Inr c'" "fsm c' = n" "sent c' = sent c2"
      "tcpAlgorithm c'" "alg_ok (alg (state c'))" "the2MSLTimer c' = the2MSLTimer c2" "connEstabTimer c' = connEstabTimer c2"
      "finWait2Timer c' = finWait2Timer c2" "synRexmitTimer c' = synRexmitTimer c2"
      using closed_ok[OF c2(1,4)] c2(2) by auto
    moreover have "stateEntered na n (fsm c) e (c\<lparr>fsm := n\<rparr>) = alg_call (na_connectionClosed na) c2"
      unfolding stateEntered_def True TCPState.case Let_def c2_def c1_def by (rule refl)
    moreover have "alg_call (na_connectionClosed na) c2 = na_connectionClosed na c2"
      using c2(1) by (simp add: alg_call_def)
    ultimately show ?thesis
      using told True np by (simp add: timers_ok_def told_ok_def closed_inds_def)
  next
    case False
    have old: "fsm c \<noteq> TCP_S_TIME_WAIT" using f(6) False by simp
    have cl: "closed_inds c = 0" using assms(3,4) old by (simp add: told_ok_def)
    have t: "fsm c \<in> {TCP_S_INIT, TCP_S_LISTEN, TCP_S_SYN_SENT, TCP_S_SYN_RCVD} \<Longrightarrow>
        connEstabTimer c \<noteq> Timer_null \<and> synRexmitTimer c \<noteq> Timer_null"
      "fsm c \<notin> {TCP_S_INIT, TCP_S_LISTEN, TCP_S_SYN_SENT, TCP_S_SYN_RCVD} \<Longrightarrow>
        \<not> pending (connEstabTimer c) \<and> \<not> pending (synRexmitTimer c)"
      using assms(1) by (simp_all add: timers_ok_def)
    note d = stateEntered_def timers_ok_def told_ok_def closed_inds_def is_closed_ind_def Let_def
    show ?thesis
    proof (cases n)
      case TCP_S_INIT then show ?thesis using f(5) by simp
    next
      case TCP_S_LISTEN
      then have "fsm c \<in> {TCP_S_INIT, TCP_S_SYN_RCVD}" using f(2) by simp
      then have "connEstabTimer c \<noteq> Timer_null \<and> synRexmitTimer c \<noteq> Timer_null" using t(1) by blast
      then show ?thesis using TCP_S_LISTEN cl assms(2) al by (simp add: d)
    next
      case TCP_S_ESTABLISHED
      then have "fsm c \<in> {TCP_S_SYN_SENT, TCP_S_SYN_RCVD}" using f(1) by auto
      then have "connEstabTimer c \<noteq> Timer_null \<and> synRexmitTimer c \<noteq> Timer_null" using t(1) by blast
      then show ?thesis using TCP_S_ESTABLISHED cl assms(2) al by (simp add: d)
    next
      case TCP_S_SYN_SENT
      then have "fsm c \<in> {TCP_S_INIT, TCP_S_LISTEN, TCP_S_SYN_SENT}" using f(3) by simp
      then have "connEstabTimer c \<noteq> Timer_null \<and> synRexmitTimer c \<noteq> Timer_null" using t(1) by blast
      then show ?thesis using TCP_S_SYN_SENT cl assms(2) al by (simp add: d)
    next
      case TCP_S_SYN_RCVD
      then have "fsm c \<in> {TCP_S_INIT, TCP_S_LISTEN, TCP_S_SYN_SENT}" using f(3) by simp
      then have "connEstabTimer c \<noteq> Timer_null \<and> synRexmitTimer c \<noteq> Timer_null" using t(1) by blast
      then show ?thesis using TCP_S_SYN_RCVD cl assms(2) al by (simp add: d)
    next
      case TCP_S_TIME_WAIT
      then have "fsm c \<in> {TCP_S_FIN_WAIT_1, TCP_S_FIN_WAIT_2, TCP_S_CLOSING}" using f(4) by simp
      then have "\<not> pending (connEstabTimer c) \<and> \<not> pending (synRexmitTimer c)" using t(2) by auto
      then show ?thesis using TCP_S_TIME_WAIT cl assms(2) al by (simp add: d)
    qed (use False cl assms(2) al in \<open>simp_all add: d\<close>)
  qed
qed

lemma transition_ok:
  assumes "timers_ok c" "tcpAlgorithm c" "fsm c \<noteq> TCP_S_CLOSED" "told_ok c"
    and al: "alg_ok (alg (state c))"
  shows "\<exists>c'. performStateTransition na e c = Inr (fsm c' \<noteq> TCP_S_CLOSED, c')
    \<and> (e \<noteq> TCP_E_IGNORE \<longrightarrow> fsm c' = next_state (active (state c)) (fsm c) e)
    \<and> timers_ok c' \<and> told_ok c' \<and> tcpAlgorithm c' \<and> alg_ok (alg (state c'))"
proof (cases "e = TCP_E_IGNORE \<or> next_state (active (state c)) (fsm c) e = fsm c")
  case True
  then have "performStateTransition na e c = Inr (True, c)"
  proof (elim disjE)
    assume "e = TCP_E_IGNORE"
    then show ?thesis using assms(3) by (simp add: performStateTransition_def)
  next
    assume n: "next_state (active (state c)) (fsm c) e = fsm c"
    show ?thesis
      using assms(3) unfolding performStateTransition_def Let_def n by simp
  qed
  then show ?thesis using assms True by auto
next
  case False
  obtain c' where "stateEntered na (next_state (active (state c)) (fsm c) e) (fsm c) e
      (c\<lparr>fsm := next_state (active (state c)) (fsm c) e\<rparr>) = Inr c'"
    "fsm c' = next_state (active (state c)) (fsm c) e" "timers_ok c'" "told_ok c'" "tcpAlgorithm c'"
    "alg_ok (alg (state c'))"
    using enter_ok[OF assms(1-4) refl _ al] False by metis
  then show ?thesis
    using False assms not_sym[of "fsm c"]
    by (intro exI[of _ c']) (auto simp: performStateTransition_def Let_def)
qed

end

end
