(* ===== verification/TCP_Conn_Options.thy ===== *)
theory TCP_Conn_Options
  imports TCP_FSM "HOL-Library.While_Combinator"
begin

text \<open>
  Header options and windows of a connection (\<^verbatim>\<open>TCPConnectionUtil.cc\<close> and, for SACK,
  \<^verbatim>\<open>TCPConnectionSackUtil.cc\<close>): the reading of the options of a received segment, the
  writing of the options of a segment to be sent, the receive window that is advertised, the send
  window that is learnt, the acceptability test, and the choice of the initial sequence number.

  Conversions between simulation time and the integers of the protocol go through
  \<^verbatim>\<open>double\<close> in the code; here they are exact.
\<close>

unbundle bit_operations_syntax

section \<open>Reading options\<close>

definition convertSimtimeToTS :: "simtime \<Rightarrow> u32" where
  "convertSimtimeToTS t = word_of_int (t div 1000000000)"

definition convertTSToSimtime :: "u32 \<Rightarrow> simtime" where
  "convertTSToSimtime timestamp = uint timestamp * 1000000000"

text \<open>The functions return whether the option was in order, and the connection.\<close>

definition processMSSOption :: "TCPOption \<Rightarrow> 'alg TCPConnection \<Rightarrow> (bool \<times> 'alg TCPConnection) res" where
  "processMSSOption option c =
     (if opt_length option \<noteq> 4 then Inr (False, c)
      else if fsm c \<noteq> TCP_S_LISTEN \<and> fsm c \<noteq> TCP_S_SYN_SENT then Inr (False, c)
      else if opt_values option = [] then
        Inl (Runtime_error ''TCPOption for MSS does not contain the data its getLength() promises'')
      else
        let m = min (snd_mss (state c)) (opt_values option ! 0)
        in Inr (True, upd (\<lambda>s. s\<lparr>snd_mss := (if m = 0 then 536 else m)\<rparr>) c))"

definition processWSOption :: "TCPOption \<Rightarrow> 'alg TCPConnection \<Rightarrow> (bool \<times> 'alg TCPConnection) res" where
  "processWSOption option c =
     (if opt_length option \<noteq> 3 then Inr (False, c)
      else if fsm c \<noteq> TCP_S_LISTEN \<and> fsm c \<noteq> TCP_S_SYN_SENT then Inr (False, c)
      else if opt_values option = [] then
        Inl (Runtime_error ''TCPOption for WS does not contain the data its getLength() promises'')
      else
        let sc = opt_values option ! 0
        in Inr (True, upd (\<lambda>s. s\<lparr>rcv_ws := True, ws_enabled := ws_support s \<and> snd_ws s,
                                 snd_wnd_scale := (if sc > 14 then 14 else sc)\<rparr>) c))"

definition processTSOption :: "TCPSegment \<Rightarrow> TCPOption \<Rightarrow> 'alg TCPConnection
    \<Rightarrow> (bool \<times> 'alg TCPConnection) res" where
  "processTSOption seg option c =
     (if opt_length option \<noteq> 10 then Inr (False, c)
      else if (\<not> ts_enabled (state c) \<and> fsm c \<noteq> TCP_S_LISTEN \<and> fsm c \<noteq> TCP_S_SYN_SENT)
            \<or> (ts_enabled (state c) \<and> fsm c \<noteq> TCP_S_SYN_RCVD \<and> fsm c \<noteq> TCP_S_ESTABLISHED
                \<and> fsm c \<noteq> TCP_S_FIN_WAIT_1 \<and> fsm c \<noteq> TCP_S_FIN_WAIT_2) then Inr (False, c)
      else if length (opt_values option) \<noteq> 2 then
        Inl (Runtime_error ''TCPOption for TS does not contain the data its getLength() promises'')
      else
        let c1 = (if \<not> ts_enabled (state c)
                  then upd (\<lambda>s. s\<lparr>rcv_initial_ts := True,
                                  ts_enabled := ts_support s \<and> snd_initial_ts s\<rparr>) c
                  else c);
            tsval = opt_values option ! 0
        in if ts_enabled (state c1) then
             (if seqLess tsval (ts_recent (state c1)) then
                (if simTime c1 - time_last_data_sent (state c1) > seconds PAWS_IDLE_TIME_THRESH
                 then Inr (False, c1) else Inr (True, c1))
              else if seqLE (sequenceNo seg) (last_ack_sent (state c1))
              then Inr (True, upd (\<lambda>s. s\<lparr>ts_recent := tsval\<rparr>) c1)
              else Inr (True, c1))
           else Inr (True, c1))"

definition processSACKPermittedOption :: "TCPOption \<Rightarrow> 'alg TCPConnection
    \<Rightarrow> (bool \<times> 'alg TCPConnection) res" where
  "processSACKPermittedOption option c =
     (if opt_length option \<noteq> 2 then Inr (False, c)
      else if fsm c \<noteq> TCP_S_LISTEN \<and> fsm c \<noteq> TCP_S_SYN_SENT then Inr (False, c)
      else Inr (True, upd (\<lambda>s. s\<lparr>rcv_sack_perm := True,
                                 sack_enabled := sack_support s \<and> snd_sack_perm s\<rparr>) c))"

text \<open>The loop over the blocks of a SACK option; \<open>vals\<close> are the remaining values.\<close>

fun sack_blocks :: "u32 \<Rightarrow> u32 \<Rightarrow> u32 list \<Rightarrow> TCPSACKRexmitQueue \<Rightarrow> TCPSACKRexmitQueue res" where
  "sack_blocks ack una (st # en # vals) q =
     bind_res (if seqGreater en ack \<and> seqGreater en una then setSackedBit q st en else Inr q)
       (sack_blocks ack una vals)"
| "sack_blocks ack una _ q = Inr q"

definition processSACKOption :: "TCPSegment \<Rightarrow> TCPOption \<Rightarrow> 'alg TCPConnection
    \<Rightarrow> (bool \<times> 'alg TCPConnection) res" where
  "processSACKOption seg option c =
     (let n = length (opt_values option) div 2
      in if opt_length option mod 8 \<noteq> 2 then Inr (False, c)
         else if \<not> sack_enabled (state c) then Inr (False, c)
         else if fsm c \<noteq> TCP_S_SYN_RCVD \<and> fsm c \<noteq> TCP_S_ESTABLISHED
               \<and> fsm c \<noteq> TCP_S_FIN_WAIT_1 \<and> fsm c \<noteq> TCP_S_FIN_WAIT_2 then Inr (False, c)
         else if n > 0 then
           bind_res (deref (rexmitQueue c)) (\<lambda>q.
           bind_res (sack_blocks (ackNo seg) (snd_una (state c)) (opt_values option) q) (\<lambda>q'.
             Inr (True, upd (\<lambda>s. s\<lparr>rcv_sacks := rcv_sacks s + of_nat n,
                                   sackedBytes_old := sackedBytes s,
                                   sackedBytes := getTotalAmountOfSackedBytes q'\<rparr>)
                          (c\<lparr>rexmitQueue := Some q'\<rparr>))))
         else Inr (True, c))"

text \<open>
  One round of \<^verbatim>\<open>readHeaderOptions\<close>; the verdict \<open>ok\<close> of the option functions is not
  used.
\<close>

definition readOption :: "TCPSegment \<Rightarrow> TCPOption \<Rightarrow> 'alg TCPConnection \<Rightarrow> 'alg TCPConnection res" where
  "readOption seg option c =
     bind_res
       (if opt_kind option = TCPOPTION_END_OF_OPTION_LIST
           \<or> opt_kind option = TCPOPTION_NO_OPERATION then Inr (opt_length option = 1, c)
        else if opt_kind option = TCPOPTION_MAXIMUM_SEGMENT_SIZE then processMSSOption option c
        else if opt_kind option = TCPOPTION_WINDOW_SCALE then processWSOption option c
        else if opt_kind option = TCPOPTION_SACK_PERMITTED then processSACKPermittedOption option c
        else if opt_kind option = TCPOPTION_SACK then processSACKOption seg option c
        else if opt_kind option = TCPOPTION_TIMESTAMP then processTSOption seg option c
        else Inr (True, c))
       (\<lambda>(ok, c'). Inr c')"

definition readHeaderOptions :: "TCPSegment \<Rightarrow> 'alg TCPConnection \<Rightarrow> 'alg TCPConnection res" where
  "readHeaderOptions seg c = fold_res (readOption seg) (options seg) c"

text \<open>Reading a value out of the bounds of the array of an option is an error.\<close>

definition opt_value :: "nat \<Rightarrow> TCPOption \<Rightarrow> u32 res" where
  "opt_value k option =
     (if k < length (opt_values option) then Inr (opt_values option ! k)
      else Inl (Runtime_error ''Array of values indexed out of bounds''))"

definition getTSval :: "TCPSegment \<Rightarrow> u32 res" where
  "getTSval seg = (case find (\<lambda>opt. opt_kind opt = TCPOPTION_TIMESTAMP) (options seg) of
     None \<Rightarrow> Inr 0 | Some opt \<Rightarrow> opt_value 0 opt)"

definition getTSecr :: "TCPSegment \<Rightarrow> u32 res" where
  "getTSecr seg = (case find (\<lambda>opt. opt_kind opt = TCPOPTION_TIMESTAMP) (options seg) of
     None \<Rightarrow> Inr 0 | Some opt \<Rightarrow> opt_value 1 opt)"

section \<open>Windows\<close>

definition updateRcvQueueVars :: "'alg TCPConnection \<Rightarrow> 'alg TCPConnection res" where
  "updateRcvQueueVars c =
     bind_res (deref (receiveQueue c)) (\<lambda>rq.
       let free = rcvq_getAmountOfFreeBytes rq (maxRcvBuffer (state c))
       in Inr (upd (\<lambda>s. s\<lparr>freeRcvBuffer := free, usedRcvBuffer := maxRcvBuffer s - free\<rparr>) c))"

text \<open>The loop that finds the window scale: the scaled window and the shift count.\<close>

function scale_window :: "u32 \<Rightarrow> u32 \<Rightarrow> u32 \<times> u32" where
  "scale_window w sc =
     (if w > TCP_MAX_WIN \<and> sc < 14 then scale_window (drop_bit 1 w) (sc + 1) else (w, sc))"
  by pat_completeness auto
termination
  by (relation "measure (\<lambda>(w, sc). 14 - unat sc)")
    (auto simp: word_less_nat_alt unat_word_ariths)

declare scale_window.simps [simp del]

definition updateRcvWnd :: "'alg TCPConnection \<Rightarrow> (u16 \<times> 'alg TCPConnection) res" where
  "updateRcvWnd c0 =
     bind_res (updateRcvQueueVars c0) (\<lambda>c.
       let s = state c;
           win0 = freeRcvBuffer s;
           win1 = (if win0 < maxRcvBuffer s div 4 \<and> win0 < snd_mss s then 0 else win0);
           win2 = (if win1 < rcv_adv s - rcv_nxt s then rcv_adv s - rcv_nxt s else win1);
           win = (if win2 > TCP_MAX_WIN \<and> \<not> ws_enabled s then TCP_MAX_WIN else win2);
           s1 = (if win > 0 \<and> seqGE (rcv_nxt s + win) (rcv_adv s)
                 then s\<lparr>rcv_adv := rcv_nxt s + win\<rparr> else s);
           (scaled, sc) = (if ws_enabled s1 then scale_window win 0 else (win, 0));
           s2 = s1\<lparr>rcv_wnd := win, rcv_wnd_scale := sc\<rparr>
       in ASSERT (scaled = ucast (ucast scaled :: u16))
            (Inr (ucast scaled, c\<lparr>state := s2\<rparr>)))"

definition updateWndInfo :: "TCPSegment \<Rightarrow> bool \<Rightarrow> 'alg TCPConnection \<Rightarrow> 'alg TCPConnection" where
  "updateWndInfo seg doAlways c =
     (let s = state c;
          true_window = (if ws_enabled s \<and> \<not> synBit seg
                         then push_bit (unat (snd_wnd_scale s)) (ucast (window seg) :: u32)
                         else ucast (window seg))
      in if doAlways
            \<or> (ackBit seg
               \<and> (seqLess (snd_wl1 s) (sequenceNo seg)
                  \<or> (snd_wl1 s = sequenceNo seg \<and> seqLE (snd_wl2 s) (ackNo seg))
                  \<or> (snd_wl2 s = ackNo seg \<and> true_window > snd_wnd s)))
         then c\<lparr>state := s\<lparr>snd_wnd := true_window, snd_wl1 := sequenceNo seg, snd_wl2 := ackNo seg\<rparr>\<rparr>
         else c)"

definition isSegmentAcceptable :: "'alg TCPStateVariables \<Rightarrow> TCPSegment \<Rightarrow> bool" where
  "isSegmentAcceptable s seg =
     (let len = payloadLength seg;
          seqNo = sequenceNo seg;
          rcvWndEnd = rcv_nxt s + rcv_wnd s;
          ret = (if len = 0 then
                   (if rcv_wnd s = 0 then seqNo = rcv_nxt s
                    else seqLE (rcv_nxt s) seqNo \<and> seqLE seqNo rcvWndEnd)
                 else
                   (if rcv_wnd s = 0 then False
                    else (seqLE (rcv_nxt s) seqNo \<and> seqLess seqNo rcvWndEnd)
                       \<or> (seqLess (rcv_nxt s) (seqNo + len) \<and> seqLE (seqNo + len) rcvWndEnd)))
      in if \<not> ret \<and> len = 0 then
           (if \<not> afterRto s then seqLess (snd_una s) (ackNo seg) \<and> seqLE (ackNo seg) (snd_nxt s)
            else seqLess (snd_una s) (ackNo seg) \<and> seqLE (ackNo seg) (snd_max s))
         else ret)"

section \<open>SACK blocks for the peer\<close>

text \<open>
  The parts of \<^verbatim>\<open>addSacks\<close>: blocks below \<open>rcv_nxt\<close> and empty blocks are deleted;
  blocks that an earlier block contains are deleted; the option is padded with NOPs.
\<close>

fun delete_old_sacks :: "u32 \<Rightarrow> Sack list \<Rightarrow> Sack list res" where
  "delete_old_sacks nxt [] = Inr []"
| "delete_old_sacks nxt (it # rest) =
     (if seqLE (sack_end it) nxt \<or> sack_empty it then delete_old_sacks nxt rest
      else ASSERT (seqGE (sack_start it) nxt)
             (bind_res (delete_old_sacks nxt rest) (\<lambda>r. Inr (it # r))))"

function delete_contained :: "Sack list \<Rightarrow> Sack list res" where
  "delete_contained [] = Inr []"
| "delete_contained (it # rest) =
     ASSERT (\<not> sack_empty it)
       (bind_res (delete_contained (filter (\<lambda>it2. \<not> sack_contains it it2) rest))
          (\<lambda>r. Inr (it # r)))"
  by pat_completeness auto
termination
  by (relation "measure length") (auto simp: le_imp_less_Suc length_filter_le)

definition align_options :: "u32 \<Rightarrow> u32 \<times> nat" where
  "align_options used =
     while (\<lambda>(u, k). u mod 4 \<noteq> 2) (\<lambda>(u, k). (u + 1, k + 1)) (used, 0)"

definition NOP_option :: TCPOption where
  "NOP_option = \<lparr>opt_kind = TCPOPTION_NO_OPERATION, opt_length = 1, opt_values = []\<rparr>"

definition reset_sack_flags :: "'alg TCPConnection \<Rightarrow> 'alg TCPConnection" where
  "reset_sack_flags c =
     upd (\<lambda>s. s\<lparr>snd_sack := False, snd_dsack := False, start_seqno := 0, end_seqno := 0\<rparr>) c"

text \<open>The new first block: the reported duplicate, or the region that contains the segment.\<close>

definition insert_sack :: "TCPReceiveQueue option \<Rightarrow> 'alg TCPStateVariables \<Rightarrow> Sack list
    \<Rightarrow> (bool \<times> Sack list) res" where
  "insert_sack rqp s sacks =
     (let st = start_seqno s; en = end_seqno s
      in if st = en then Inr (False, sacks)
         else if snd_dsack s then
           (let en' = (if seqLess st (rcv_nxt s) \<and> seqLess (rcv_nxt s) en then rcv_nxt s else en);
                nSack = \<lparr>sack_start = st, sack_end = en'\<rparr>
            in bind_res (delete_contained sacks) (\<lambda>r. Inr (True, nSack # r)))
         else
           bind_res (deref rqp) (\<lambda>rq.
           bind_res (delete_contained
               (\<lparr>sack_start = rcvq_getLE rq st, sack_end = rcvq_getRE rq en\<rparr> # sacks))
             (\<lambda>r. Inr (False, r))))"

definition sack_values :: "Sack list \<Rightarrow> u32 list" where
  "sack_values sacks = concat (map (\<lambda>k. [sack_start k, sack_end k]) sacks)"

definition addSacks :: "TCPSegment \<Rightarrow> 'alg TCPConnection \<Rightarrow> (TCPSegment \<times> 'alg TCPConnection) res" where
  "addSacks seg c0 =
     bind_res (delete_old_sacks (rcv_nxt (state c0)) (sacks_array (state c0))) (\<lambda>sacks0.
       let c = upd (\<lambda>s. s\<lparr>sacks_array := sacks0\<rparr>) c0;
           used = ucast (getOptionsArrayLength seg) :: u32
       in if used > TCP_OPTIONS_MAX_SIZE - TCP_OPTION_SACK_MIN_SIZE then
            Inr (seg, reset_sack_flags c)
          else
            bind_res (insert_sack (receiveQueue c) (state c) sacks0) (\<lambda>(dsack_inserted, sacks).
              let maxnode = ((TCP_OPTIONS_MAX_SIZE - used) - 2) div 8;
                  n = min (of_nat (length sacks)) maxnode;
                  left = (if dsack_inserted then tl sacks else sacks);
                  c1 = reset_sack_flags (upd (\<lambda>s. s\<lparr>sacks_array := left\<rparr>) c)
              in if n = 0 then Inr (seg, c1)
                 else
                   case align_options used of (used', nops) \<Rightarrow>
                     let written = take (unat n) sacks;
                         option = \<lparr>opt_kind = TCPOPTION_SACK, opt_length = ucast (8 * n + 2),
                                   opt_values = sack_values written\<rparr>
                     in ASSERT (used' mod 4 = 2)
                          (ASSERT (\<forall>k\<in>set written. sack_start k \<noteq> sack_end k)
                            (ASSERT (used' + 8 * n + 2 \<le> TCP_OPTIONS_MAX_SIZE)
                              (Inr (seg\<lparr>options := options seg @ replicate nops NOP_option @ [option]\<rparr>,
                                    upd (\<lambda>s. s\<lparr>snd_sacks := snd_sacks s + n\<rparr>) c1))))))"

section \<open>Writing options\<close>

text \<open>
  The options are stored at consecutive places of the array of the segment, which grows by one
  for each; \<open>t\<close> is the next place.
\<close>

type_synonym 'alg writer = "TCPSegment \<times> nat \<times> 'alg TCPConnection"

definition blank_option :: TCPOption where
  "blank_option = \<lparr>opt_kind = TCPOPTION_END_OF_OPTION_LIST, opt_length = 1, opt_values = []\<rparr>"

definition put_option :: "TCPOption \<Rightarrow> 'alg writer \<Rightarrow> 'alg writer" where
  "put_option option w = (case w of (seg, t, c) \<Rightarrow>
     (seg\<lparr>options := (options seg @ [blank_option])[t := option]\<rparr>, t + 1, c))"

text \<open>The conditions on the state under which an option belongs into the segment.\<close>

definition syn_options_state :: "'alg TCPConnection \<Rightarrow> bool" where
  "syn_options_state c \<longleftrightarrow> fsm c = TCP_S_INIT \<or> fsm c = TCP_S_LISTEN
     \<or> ((fsm c = TCP_S_SYN_SENT \<or> fsm c = TCP_S_SYN_RCVD) \<and> syn_rexmit_count (state c) > 0)"

definition first_syn_state :: "'alg TCPConnection \<Rightarrow> bool" where
  "first_syn_state c \<longleftrightarrow> fsm c = TCP_S_INIT
     \<or> (fsm c = TCP_S_SYN_SENT \<and> syn_rexmit_count (state c) > 0)"

definition write_MSS :: "'alg writer \<Rightarrow> 'alg writer res" where
  "write_MSS w = (case w of (seg, t, c) \<Rightarrow>
     Inr (if snd_mss (state c) > 0
          then put_option \<lparr>opt_kind = TCPOPTION_MAXIMUM_SEGMENT_SIZE, opt_length = 4,
                           opt_values = [snd_mss (state c)]\<rparr> w
          else w))"

definition write_WS :: "'alg writer \<Rightarrow> 'alg writer res" where
  "write_WS w = (case w of (seg, t, c) \<Rightarrow>
     if ws_support (state c) \<and> (rcv_ws (state c) \<or> first_syn_state c) then
       bind_res (deref (receiveQueue c)) (\<lambda>rq.
         let s = state c;
             sc = snd (scale_window (rcvq_getFirstSeqNo rq + maxRcvBuffer s - rcv_nxt s) 0);
             c' = upd (\<lambda>s. s\<lparr>rcv_wnd_scale := sc, snd_ws := True,
                             ws_enabled := ws_support s \<and> rcv_ws s\<rparr>) c
         in case put_option NOP_option w of (seg1, t1, _) \<Rightarrow>
              Inr (put_option \<lparr>opt_kind = TCPOPTION_WINDOW_SCALE, opt_length = 3,
                               opt_values = [sc]\<rparr> (seg1, t1, c')))
     else Inr w)"

definition write_SACK_PERMITTED :: "'alg writer \<Rightarrow> 'alg writer res" where
  "write_SACK_PERMITTED w = (case w of (seg, t, c) \<Rightarrow>
     Inr (if sack_support (state c) \<and> (rcv_sack_perm (state c) \<or> first_syn_state c) then
            let c' = upd (\<lambda>s. s\<lparr>snd_sack_perm := True,
                                sack_enabled := sack_support s \<and> rcv_sack_perm s\<rparr>) c;
                w1 = (if \<not> ts_support (state c) then put_option NOP_option (put_option NOP_option w)
                      else w)
            in case w1 of (seg1, t1, _) \<Rightarrow>
                 put_option \<lparr>opt_kind = TCPOPTION_SACK_PERMITTED, opt_length = 2, opt_values = []\<rparr>
                   (seg1, t1, c')
          else w))"

definition TS_option :: "TCPSegment \<Rightarrow> 'alg TCPConnection \<Rightarrow> TCPOption" where
  "TS_option seg c =
     \<lparr>opt_kind = TCPOPTION_TIMESTAMP, opt_length = 10,
      opt_values = [convertSimtimeToTS (simTime c), if ackBit seg then ts_recent (state c) else 0]\<rparr>"

definition write_TS_syn :: "'alg writer \<Rightarrow> 'alg writer res" where
  "write_TS_syn w = (case w of (seg, t, c) \<Rightarrow>
     Inr (if ts_support (state c) \<and> (rcv_initial_ts (state c) \<or> first_syn_state c) then
            let c' = upd (\<lambda>s. s\<lparr>snd_initial_ts := True,
                                ts_enabled := ts_support s \<and> rcv_initial_ts s\<rparr>) c;
                w1 = (if \<not> sack_support (state c) then put_option NOP_option (put_option NOP_option w)
                      else w)
            in case w1 of (seg1, t1, _) \<Rightarrow> put_option (TS_option seg c) (seg1, t1, c')
          else w))"

definition write_TS :: "'alg writer \<Rightarrow> 'alg writer res" where
  "write_TS w = (case w of (seg, t, c) \<Rightarrow>
     Inr (if ts_enabled (state c) then
            let w1 = (if \<not> (sack_enabled (state c) \<and> (snd_sack (state c) \<or> snd_dsack (state c)))
                      then put_option NOP_option (put_option NOP_option w) else w)
            in put_option (TS_option seg c) w1
          else w))"

definition write_SACK :: "'alg writer \<Rightarrow> 'alg writer res" where
  "write_SACK w = (case w of (seg, t, c) \<Rightarrow>
     if sack_enabled (state c) \<and> (snd_sack (state c) \<or> snd_dsack (state c)) then
       bind_res (addSacks seg c) (\<lambda>(seg', c'). Inr (seg', length (options seg'), c'))
     else Inr w)"

text \<open>The header length, or no options at all when they are too long.\<close>

definition close_options :: "TCPSegment \<Rightarrow> TCPSegment" where
  "close_options seg =
     (if options seg \<noteq> [] then
        (let options_len = getOptionsArrayLength seg
         in if (ucast options_len :: u32) \<le> TCP_OPTIONS_MAX_SIZE
            then seg\<lparr>headerLength := TCP_HEADER_OCTETS + options_len\<rparr>
            else seg\<lparr>headerLength := TCP_HEADER_OCTETS, options := []\<rparr>)
      else seg)"

definition writeHeaderOptions :: "TCPSegment \<Rightarrow> 'alg TCPConnection
    \<Rightarrow> (TCPSegment \<times> 'alg TCPConnection) res" where
  "writeHeaderOptions seg c =
     bind_res
       (if synBit seg \<and> syn_options_state c then
          bind_res (write_MSS (seg, 0, c)) (\<lambda>w1.
          bind_res (write_WS w1) (\<lambda>w2.
          bind_res (write_SACK_PERMITTED w2) write_TS_syn))
        else if fsm c = TCP_S_SYN_SENT \<or> fsm c = TCP_S_SYN_RCVD \<or> fsm c = TCP_S_ESTABLISHED
              \<or> fsm c = TCP_S_FIN_WAIT_1 \<or> fsm c = TCP_S_FIN_WAIT_2 then
          bind_res (write_TS (seg, 0, c)) write_SACK
        else Inr (seg, 0, c))
       (\<lambda>(seg', t, c'). Inr (close_options seg', c'))"

end
