(* ===== verification/TCP_Conn_Send.thy ===== *)
theory TCP_Conn_Send
  imports TCP_Conn_Options
begin

text \<open>
  Setting up a connection object and sending segments (\<^verbatim>\<open>TCPConnectionUtil.cc\<close>): the
  creation of queues and TCB, the control segments, \<open>sendSegment\<close>, which takes data from the send
  queue and keeps the SACK scoreboard, and the functions that decide how much to send or to send
  again: \<open>sendData\<close>, \<open>sendProbe\<close>, \<open>retransmitOneSegment\<close>, \<open>retransmitData\<close>, \<open>sendOneNewSegment\<close>.

  The parameter \<open>na\<close> holds the methods by which the connection notifies its algorithm. The loops of
  \<open>sendData\<close> and \<open>retransmitData\<close> need not end, and are partial functions.
\<close>

section \<open>Opening\<close>

definition new_ByteArrayBuffer :: ByteArrayBuffer where
  "new_ByteArrayBuffer = \<lparr>dataListM = [], dataLengthM = 0\<rparr>"

definition createSendQueue :: "TCPDataTransferMode \<Rightarrow> TCPSendQueue res" where
  "createSendQueue m =
     (case m of
        TCP_TRANSFER_BYTECOUNT \<Rightarrow> Inr (VirtualSend \<lparr>sq_begin = 0, sq_end = 0\<rparr>)
      | TCP_TRANSFER_OBJECT \<Rightarrow> Inr (MsgSend \<lparr>sq_begin = 0, sq_end = 0, payloadQueue = []\<rparr>)
      | TCP_TRANSFER_BYTESTREAM \<Rightarrow>
          Inr (ByteSend \<lparr>sq_begin = 0, sq_end = 0, dataBuffer = new_ByteArrayBuffer\<rparr>)
      | TCP_TRANSFER_UNDEFINED \<Rightarrow> Inl (Runtime_error ''Invalid TCP data transfer mode''))"

definition createReceiveQueue :: "TCPDataTransferMode \<Rightarrow> TCPReceiveQueue res" where
  "createReceiveQueue m =
     (case m of
        TCP_TRANSFER_BYTECOUNT \<Rightarrow> Inr (VirtualRcv \<lparr>rq_rcv_nxt = 0, regionList = []\<rparr>)
      | TCP_TRANSFER_OBJECT \<Rightarrow> Inr (MsgRcv \<lparr>rq_rcv_nxt = 0, regionList = [], msgList = []\<rparr>)
      | TCP_TRANSFER_BYTESTREAM \<Rightarrow> Inr (ByteRcv \<lparr>rq_rcv_nxt = 0, regionList = []\<rparr>)
      | TCP_TRANSFER_UNDEFINED \<Rightarrow> Inl (Runtime_error ''Invalid TCP data transfer mode''))"

definition configureStateVariables :: "'alg TCPConnection \<Rightarrow> 'alg TCPConnection res" where
  "configureStateVariables c =
     (let p = par c;
          aw = par_advertisedWindow p;
          big = par_windowScalingSupport p \<and> aw > uint TCP_MAX_WIN
      in if \<not> par_windowScalingSupport p \<and> (aw > uint TCP_MAX_WIN \<or> aw \<le> 0) then
           Inl (Runtime_error ''Invalid advertisedWindow parameter'')
         else
           ASSERT (par_sackSupport p \<longrightarrow> par_tcpAlgorithmClass p = ''TCPReno'')
             (Inr (upd (\<lambda>s. s\<lparr>ws_support := par_windowScalingSupport p,
                 rcv_wnd := (if big then TCP_MAX_WIN else word_of_int aw),
                 rcv_adv := (if big then TCP_MAX_WIN else word_of_int aw),
                 maxRcvBuffer := word_of_int aw,
                 delayed_acks_enabled := par_delayedAcksEnabled p,
                 nagle_enabled := par_nagleEnabled p,
                 limited_transmit_enabled := par_limitedTransmitEnabled p,
                 increased_IW_enabled := par_increasedIWEnabled p,
                 snd_mss := word_of_int (par_mss p),
                 ts_support := par_timestampSupport p,
                 sack_support := par_sackSupport p\<rparr>) c)))"

text \<open>
  \<open>ta\<close> is the algorithm that the class name of the command, or of the module parameter when the
  command names none, stands for.
\<close>

definition initConnection :: "'alg TCPAlgorithm \<Rightarrow> TCPOpenCommand \<Rightarrow> 'alg TCPConnection
    \<Rightarrow> 'alg TCPConnection res" where
  "initConnection ta openCmd c =
     bind_res (createSendQueue (oc_dataTransferMode openCmd)) (\<lambda>sq.
     bind_res (createReceiveQueue (oc_dataTransferMode openCmd)) (\<lambda>rq.
     bind_res (configureStateVariables
       (c\<lparr>transferMode := oc_dataTransferMode openCmd, sendQueue := Some sq, receiveQueue := Some rq,
          rexmitQueue := Some new_TCPSACKRexmitQueue, tcpAlgorithm := True,
          state := new_TCPStateVariables (ta_createStateVariables ta)\<rparr>)) (\<lambda>c1.
     alg_call (ta_initialize ta) c1)))"

text \<open>The initial value of a queue of the same class.\<close>

definition same_send_class :: "TCPSendQueue \<Rightarrow> TCPSendQueue" where
  "same_send_class q =
     (case q of
        VirtualSend _ \<Rightarrow> VirtualSend \<lparr>sq_begin = 0, sq_end = 0\<rparr>
      | MsgSend _ \<Rightarrow> MsgSend \<lparr>sq_begin = 0, sq_end = 0, payloadQueue = []\<rparr>
      | ByteSend _ \<Rightarrow> ByteSend \<lparr>sq_begin = 0, sq_end = 0, dataBuffer = new_ByteArrayBuffer\<rparr>)"

definition same_rcv_class :: "TCPReceiveQueue \<Rightarrow> TCPReceiveQueue" where
  "same_rcv_class q =
     (case q of
        VirtualRcv _ \<Rightarrow> VirtualRcv \<lparr>rq_rcv_nxt = 0, regionList = []\<rparr>
      | MsgRcv _ \<Rightarrow> MsgRcv \<lparr>rq_rcv_nxt = 0, regionList = [], msgList = []\<rparr>
      | ByteRcv _ \<Rightarrow> ByteRcv \<lparr>rq_rcv_nxt = 0, regionList = []\<rparr>)"

text \<open>
  The connection itself and the clone. The SACK queue and the configuration go to the connection
  itself (\<^verbatim>\<open>rexmitQueue\<close> and \<^verbatim>\<open>configureStateVariables()\<close> without
  \<^verbatim>\<open>conn->\<close>).
\<close>

definition cloneListeningConnection :: "'alg TCPAlgorithm \<Rightarrow> 'alg TCPConnection
    \<Rightarrow> ('alg TCPConnection \<times> 'alg TCPConnection) res" where
  "cloneListeningConnection ta c =
     bind_res (deref (sendQueue c)) (\<lambda>sq.
     bind_res (deref (receiveQueue c)) (\<lambda>rq.
     (if \<not> tcpAlgorithm c then Inl Undefined_behaviour
      else
        bind_res (configureStateVariables (c\<lparr>rexmitQueue := Some new_TCPSACKRexmitQueue\<rparr>)) (\<lambda>c'.
        let conn = (new_TCPConnection (ta_createStateVariables ta) (par c) (simTime c)
                      (appGateIndex c) (connId c))
                   \<lparr>transferMode := transferMode c, sendQueue := Some (same_send_class sq),
                    receiveQueue := Some (same_rcv_class rq), tcpAlgorithm := True\<rparr>
        in bind_res (ta_initialize ta conn) (\<lambda>conn1.
             Inr (c', (upd (\<lambda>s. s\<lparr>active := False, fork := True\<rparr>) conn1)
                        \<lparr>localAddr := localAddr c, localPort := localPort c,
                         fsm := TCP_S_LISTEN\<rparr>))))))"

definition selectInitialSeqNum :: "'alg TCPConnection \<Rightarrow> 'alg TCPConnection res" where
  "selectInitialSeqNum c =
     (let i = word_of_int (simTime c div 4000000) :: u32
      in bind_res (deref (sendQueue c)) (\<lambda>sq.
         bind_res (deref (rexmitQueue c)) (\<lambda>q.
           Inr (upd (\<lambda>s. s\<lparr>iss := i, snd_una := i, snd_nxt := i, snd_max := i\<rparr>)
             (c\<lparr>sendQueue := Some (sendq_init sq (i + 1)), rexmitQueue := Some (rq_init q (i + 1))\<rparr>)))))"

section \<open>Control segments\<close>

definition sendToIP :: "TCPSegment \<Rightarrow> 'alg TCPConnection \<Rightarrow> 'alg TCPConnection res" where
  "sendToIP seg c =
     ASSERT (headerLength seg \<ge> TCP_HEADER_OCTETS)
       (ASSERT (headerLength seg \<le> TCP_MAX_HEADER_OCTETS)
         (Inr (emit (Out_segment (seg\<lparr>srcPort := word_of_int (localPort c),
                                      destPort := word_of_int (remotePort c)\<rparr>)
                       (localAddr c) (remoteAddr c))
                (upd (\<lambda>s. s\<lparr>sentBytes := payloadLength seg\<rparr>) c))))"

definition sendSyn :: "'alg TCPConnection \<Rightarrow> 'alg TCPConnection res" where
  "sendSyn c =
     (if remoteAddr c = unspecified_addr \<or> remotePort c = -1 then
        Inl (Runtime_error ''Error processing command OPEN_ACTIVE: foreign socket unspecified'')
      else if localPort c = -1 then
        Inl (Runtime_error ''Error processing command OPEN_ACTIVE: local port unspecified'')
      else
        bind_res (updateRcvWnd c) (\<lambda>(_, c1).
        let seg = new_TCPSegment\<lparr>sequenceNo := iss (state c), synBit := True,
                                 window := ucast (rcv_wnd (state c1))\<rparr>;
            c2 = upd (\<lambda>s. s\<lparr>snd_max := iss s + 1, snd_nxt := iss s + 1\<rparr>) c1
        in bind_res (writeHeaderOptions seg c2) (\<lambda>(seg', c3). sendToIP seg' c3)))"

definition sendSynAck :: "'alg TCPAlgNotify \<Rightarrow> 'alg TCPConnection \<Rightarrow> 'alg TCPConnection res" where
  "sendSynAck na c =
     bind_res (updateRcvWnd c) (\<lambda>(_, c1).
     let seg = new_TCPSegment\<lparr>sequenceNo := iss (state c), ackNo := rcv_nxt (state c),
                              synBit := True, ackBit := True, window := ucast (rcv_wnd (state c1))\<rparr>;
         c2 = upd (\<lambda>s. s\<lparr>snd_max := iss s + 1, snd_nxt := iss s + 1\<rparr>) c1
     in bind_res (writeHeaderOptions seg c2) (\<lambda>(seg', c3).
        bind_res (sendToIP seg' c3) (alg_call (na_ackSent na))))"

definition sendRst :: "u32 \<Rightarrow> IPvXAddress \<Rightarrow> IPvXAddress \<Rightarrow> int \<Rightarrow> int
    \<Rightarrow> 'alg TCPConnection \<Rightarrow> 'alg TCPConnection" where
  "sendRst sq src dest srcP destP c =
     emit (Out_segment (new_TCPSegment\<lparr>srcPort := word_of_int srcP, destPort := word_of_int destP,
                                       rstBit := True, sequenceNo := sq\<rparr>) src dest) c"

text \<open>\<^verbatim>\<open>sendRst(seqNo)\<close>: to the peer of the connection.\<close>

definition sendRst_peer :: "u32 \<Rightarrow> 'alg TCPConnection \<Rightarrow> 'alg TCPConnection" where
  "sendRst_peer sq c = sendRst sq (localAddr c) (remoteAddr c) (localPort c) (remotePort c) c"

definition sendRstAck :: "'alg TCPAlgNotify \<Rightarrow> u32 \<Rightarrow> u32 \<Rightarrow> IPvXAddress \<Rightarrow> IPvXAddress \<Rightarrow> int \<Rightarrow> int
    \<Rightarrow> 'alg TCPConnection \<Rightarrow> 'alg TCPConnection res" where
  "sendRstAck na sq ack src dest srcP destP c =
     (let c1 = emit (Out_segment (new_TCPSegment\<lparr>srcPort := word_of_int srcP,
                 destPort := word_of_int destP, rstBit := True, ackBit := True, sequenceNo := sq,
                 ackNo := ack\<rparr>) src dest) c
      in if tcpAlgorithm c1 then na_ackSent na c1 else Inr c1)"

definition sendAck :: "'alg TCPAlgNotify \<Rightarrow> 'alg TCPConnection \<Rightarrow> 'alg TCPConnection res" where
  "sendAck na c =
     bind_res (updateRcvWnd c) (\<lambda>(win, c1).
     let seg = new_TCPSegment\<lparr>ackBit := True, sequenceNo := snd_nxt (state c),
                              ackNo := rcv_nxt (state c), window := win\<rparr>
     in bind_res (writeHeaderOptions seg c1) (\<lambda>(seg', c2).
        bind_res (sendToIP seg' c2) (alg_call (na_ackSent na))))"

definition sendFin :: "'alg TCPAlgNotify \<Rightarrow> 'alg TCPConnection \<Rightarrow> 'alg TCPConnection res" where
  "sendFin na c =
     bind_res (updateRcvWnd c) (\<lambda>(win, c1).
     let seg = new_TCPSegment\<lparr>finBit := True, ackBit := True, ackNo := rcv_nxt (state c),
                              sequenceNo := snd_nxt (state c), window := win\<rparr>
     in bind_res (sendToIP seg c1) (alg_call (na_ackSent na)))"

section \<open>Data segments\<close>

text \<open>
  \<open>sendSegment\<close> in three parts: advancing \<open>snd_nxt\<close> over data that the scoreboard knows to be
  sacked or retransmitted; the segment itself; and asking the application for more data when
  there is room for a segment in the send queue.
\<close>

definition forward_snd_nxt :: "'alg TCPConnection \<Rightarrow> 'alg TCPConnection res" where
  "forward_snd_nxt c =
     (if sack_enabled (state c) \<and> afterRto (state c) then
        bind_res (deref (rexmitQueue c)) (\<lambda>q.
        bind_res (checkRexmitQueueForSackedOrRexmittedSegments q (snd_nxt (state c))) (\<lambda>forward.
          Inr (if forward > 0 then upd (\<lambda>s. s\<lparr>snd_nxt := snd_nxt s + forward\<rparr>) c else c)))
      else Inr c)"

definition set_fin :: "TCPSegment \<Rightarrow> 'alg TCPConnection \<Rightarrow> TCPSegment \<times> 'alg TCPConnection" where
  "set_fin seg c =
     (if send_fin (state c) \<and> snd_nxt (state c) = snd_fin_seq (state c)
      then (seg\<lparr>finBit := True\<rparr>, upd (\<lambda>s. s\<lparr>snd_nxt := snd_fin_seq s + 1\<rparr>) c)
      else (seg, c))"

definition build_segment :: "u32 \<Rightarrow> 'alg TCPConnection \<Rightarrow> (TCPSegment \<times> 'alg TCPConnection) res" where
  "build_segment bytes0 c =
     bind_res (deref (sendQueue c)) (\<lambda>sq.
     let buffered = sendq_getBytesAvailable sq (snd_nxt (state c));
         bytes1 = (if bytes0 > buffered then buffered else bytes0)
     in bind_res (writeHeaderOptions (new_TCPSegment\<lparr>ackBit := True\<rparr>) c) (\<lambda>(temp, c1).
        let options_len = ucast (headerLength temp) - ucast TCP_HEADER_OCTETS :: u32
        in ASSERT (options_len < snd_mss (state c1))
          (let bytes = (if bytes1 + options_len > snd_mss (state c1)
                        then snd_mss (state c1) - options_len else bytes1);
               c2 = upd (\<lambda>s. s\<lparr>sentBytes := bytes\<rparr>) c1
           in bind_res (sendq_createSegmentWithBytes sq (snd_nxt (state c2)) bytes) (\<lambda>seg.
              bind_res (if sack_enabled (state c2) then
                          bind_res (deref (rexmitQueue c2)) (\<lambda>q.
                          bind_res (enqueueSentData q (snd_nxt (state c2)) (snd_nxt (state c2) + bytes))
                            (\<lambda>q'. Inr (c2\<lparr>rexmitQueue := Some q'\<rparr>)))
                        else Inr c2) (\<lambda>c3.
              bind_res (updateRcvWnd c3) (\<lambda>(win, c4).
              let seg1 = seg\<lparr>ackNo := rcv_nxt (state c3), ackBit := True, window := win\<rparr>
              in ASSERT (bytes = payloadLength seg1)
                (let c5 = upd (\<lambda>s. s\<lparr>snd_nxt := snd_nxt s + bytes\<rparr>) c4;
                     c6 = upd (\<lambda>s. s\<lparr>afterRto := afterRto s \<and> \<not> seqGE (snd_nxt s) (snd_max s)\<rparr>) c5;
                     (seg2, c7) = set_fin seg1 c6
                 in Inr (seg2\<lparr>options := options temp, headerLength := headerLength temp\<rparr>, c7))))))))"

definition request_data :: "'alg TCPConnection \<Rightarrow> 'alg TCPConnection res" where
  "request_data c =
     bind_res (deref (sendQueue c)) (\<lambda>sq.
     let alreadyQueued = sendq_getBytesAvailable sq (sendq_getBufferStartSeq sq);
         limit = sendQueueLimit (state c);
         abated = (if limit > alreadyQueued then limit - alreadyQueued else 0)
     in Inr (if limit > 0 \<and> \<not> queueUpdate (state c) \<and> abated \<ge> snd_mss (state c)
             then upd (\<lambda>s. s\<lparr>queueUpdate := True\<rparr>)
                    (sendIndicationToApp TCP_I_SEND_MSG (sint abated) c)
             else c))"

definition sendSegment :: "u32 \<Rightarrow> 'alg TCPConnection \<Rightarrow> 'alg TCPConnection res" where
  "sendSegment bytes c =
     bind_res (forward_snd_nxt c) (\<lambda>c1.
     bind_res (build_segment bytes c1) (\<lambda>(seg, c2).
     bind_res (sendToIP seg c2) request_data))"

definition bytes_from :: "u32 \<Rightarrow> 'alg TCPConnection \<Rightarrow> u32 res" where
  "bytes_from sn c = bind_res (deref (sendQueue c)) (\<lambda>sq. Inr (sendq_getBytesAvailable sq sn))"

definition isSendQueueEmpty :: "'alg TCPConnection \<Rightarrow> bool res" where
  "isSendQueueEmpty c = bind_res (bytes_from (snd_nxt (state c)) c) (\<lambda>b. Inr (b = 0))"

definition raise_snd_max :: "'alg TCPConnection \<Rightarrow> 'alg TCPConnection" where
  "raise_snd_max c =
     upd (\<lambda>s. s\<lparr>snd_max := (if seqGreater (snd_nxt s) (snd_max s) then snd_nxt s else snd_max s)\<rparr>) c"

text \<open>\<^verbatim>\<open>while (bytesToSend >= effectiveMaxBytesSend)\<close>: whole segments.\<close>

partial_function (option) send_full_segments :: "u32 \<Rightarrow> u32 \<Rightarrow> 'alg TCPConnection
    \<Rightarrow> (u32 \<times> 'alg TCPConnection) res option" where
  "send_full_segments eff bytesToSend c =
     (if bytesToSend \<ge> eff then
        (case sendSegment (snd_mss (state c)) c of
           Inl e \<Rightarrow> Some (Inl e)
         | Inr c' \<Rightarrow> send_full_segments eff (bytesToSend - sentBytes (state c')) c')
      else Some (Inr (bytesToSend, c)))"

text \<open>Sending \<open>bytesToSend\<close> bytes, and a last short segment when it empties the queue.\<close>

definition send_bytes :: "u32 \<Rightarrow> u32 \<Rightarrow> 'alg TCPConnection \<Rightarrow> 'alg TCPConnection res" where
  "send_bytes eff bytesToSend c =
     bind_res
       (if bytesToSend \<le> snd_mss (state c) then
          bind_res (sendSegment bytesToSend c) (\<lambda>c'. Inr (bytesToSend - sentBytes (state c'), c'))
        else of_loop (send_full_segments eff bytesToSend c)) (\<lambda>(left, c1).
     bind_res (bytes_from (snd_nxt (state c1)) c1) (\<lambda>buffered.
       if left = buffered \<and> buffered \<noteq> 0 then sendSegment left c1 else Inr c1))"

definition sendData :: "'alg TCPAlgNotify \<Rightarrow> bool \<Rightarrow> u32 \<Rightarrow> 'alg TCPConnection
    \<Rightarrow> (bool \<times> 'alg TCPConnection) res" where
  "sendData na fullSegmentsOnly congestionWindow c0 =
     (let c = (if \<not> afterRto (state c0) then upd (\<lambda>s. s\<lparr>snd_nxt := snd_max s\<rparr>) c0 else c0)
      in bind_res (if sack_enabled (state c)
                   then bind_res (deref (rexmitQueue c)) (\<lambda>q. Inr (getHighestRexmittedSeqNum q))
                   else Inr 0) (\<lambda>old_highRxt.
         bind_res (bytes_from (snd_nxt (state c)) c) (\<lambda>buffered.
         if buffered = 0 then Inr (False, c)
         else
           let s = state c;
               maxWindow = min (snd_wnd s) congestionWindow;
               effectiveWin = maxWindow - (snd_nxt s - snd_una s)
           in if sint effectiveWin \<le> 0 then Inr (False, c)
              else
                let bytesToSend = min effectiveWin buffered;
                    eff = (if ts_enabled s then snd_mss s - TCP_OPTION_TS_SIZE else snd_mss s)
                in if fullSegmentsOnly \<and> bytesToSend < eff then Inr (False, c)
                   else
                     ASSERT (bytesToSend > 0)
                       (bind_res (send_bytes eff bytesToSend c) (\<lambda>c1.
                        bind_res (alg_call (na_ackSent na) (raise_snd_max c1)) (\<lambda>c2.
                        bind_res
                          (if sack_enabled (state c2) \<and> lossRecovery (state c2)
                              \<and> old_highRxt \<noteq> highRxt (state c2)
                           then alg_call (na_restartRexmitTimer na) c2
                           else alg_call (na_dataSent na (snd_nxt s)) c2)
                          (\<lambda>c3. Inr (True, c3))))))))"

definition sendProbe :: "'alg TCPAlgNotify \<Rightarrow> 'alg TCPConnection \<Rightarrow> (bool \<times> 'alg TCPConnection) res" where
  "sendProbe na c0 =
     (let c = upd (\<lambda>s. s\<lparr>snd_nxt := snd_max s\<rparr>) c0
      in bind_res (bytes_from (snd_nxt (state c)) c) (\<lambda>avail.
         if avail = 0 then Inr (False, c)
         else
           bind_res (sendSegment 1 c) (\<lambda>c1.
           bind_res (alg_call (na_ackSent na) (upd (\<lambda>s. s\<lparr>snd_max := snd_nxt s\<rparr>) c1)) (\<lambda>c2.
           bind_res (alg_call (na_dataSent na (snd_nxt (state c))) c2) (\<lambda>c3.
             Inr (True, c3))))))"

text \<open>
  Sending the FIN again: \<open>snd_nxt\<close> and \<open>snd_max\<close> go to the end of the data, and over the FIN after
  \<open>after\<close> has been told.
\<close>

definition resend_fin :: "'alg TCPAlgNotify \<Rightarrow> ('alg TCPConnection \<Rightarrow> 'alg TCPConnection res)
    \<Rightarrow> 'alg TCPConnection \<Rightarrow> 'alg TCPConnection res" where
  "resend_fin na after c =
     bind_res (deref (sendQueue c)) (\<lambda>sq.
     bind_res (sendFin na (upd (\<lambda>s. s\<lparr>snd_max := sendq_getBufferEndSeq sq,
                                       snd_nxt := sendq_getBufferEndSeq sq\<rparr>) c)) (\<lambda>c1.
     bind_res (after c1) (\<lambda>c2.
       Inr (upd (\<lambda>s. s\<lparr>snd_nxt := snd_nxt s + 1, snd_max := snd_nxt s + 1\<rparr>) c2))))"

definition fin_only :: "u32 \<Rightarrow> 'alg TCPConnection \<Rightarrow> bool res" where
  "fin_only bytes c =
     bind_res (deref (sendQueue c)) (\<lambda>sq.
       Inr (bytes = 0 \<and> send_fin (state c) \<and> snd_fin_seq (state c) = sendq_getBufferEndSeq sq))"

definition retransmitOneSegment :: "'alg TCPAlgNotify \<Rightarrow> bool \<Rightarrow> 'alg TCPConnection
    \<Rightarrow> 'alg TCPConnection res" where
  "retransmitOneSegment na called_at_rto c0 =
     (let old_snd_nxt = snd_nxt (state c0);
          c = upd (\<lambda>s. s\<lparr>snd_nxt := snd_una s\<rparr>) c0
      in bind_res (bytes_from (snd_nxt (state c)) c) (\<lambda>avail.
         let bytes = min (min (snd_mss (state c)) (snd_max (state c) - snd_nxt (state c))) avail
         in bind_res (fin_only bytes c) (\<lambda>fin.
            if fin then
              resend_fin na
                (\<lambda>c1. alg_call (na_segmentRetransmitted na (snd_nxt (state c1))
                                  (snd_nxt (state c1) + 1)) c1) c
            else
              ASSERT (bytes \<noteq> 0)
                (bind_res (sendSegment bytes c) (\<lambda>c1.
                 bind_res (alg_call (na_segmentRetransmitted na (snd_una (state c1))
                                       (snd_nxt (state c1))) c1) (\<lambda>c2.
                 let c3 = (if \<not> called_at_rto \<and> seqGreater old_snd_nxt (snd_nxt (state c2))
                           then upd (\<lambda>s. s\<lparr>snd_nxt := old_snd_nxt\<rparr>) c2 else c2)
                 in bind_res (alg_call (na_ackSent na) c3) (\<lambda>c4.
                    if sack_enabled (state c4) then
                      bind_res (deref (rexmitQueue c4)) (\<lambda>q.
                        Inr (upd (\<lambda>s. s\<lparr>highRxt := getHighestRexmittedSeqNum q\<rparr>) c4))
                    else Inr c4)))))))"

partial_function (option) retransmit_loop :: "u32 \<Rightarrow> 'alg TCPConnection \<Rightarrow> 'alg TCPConnection res option" where
  "retransmit_loop bytesToSend c =
     (if bytesToSend > 0 then
        (case bytes_from (snd_nxt (state c)) c of
           Inl e \<Rightarrow> Some (Inl e)
         | Inr avail \<Rightarrow>
             (case sendSegment (min (min bytesToSend (snd_mss (state c))) avail) c of
                Inl e \<Rightarrow> Some (Inl e)
              | Inr c' \<Rightarrow>
                  if send_fin (state c') \<and> snd_nxt (state c') = snd_fin_seq (state c') + 1
                  then Some (Inr c')
                  else retransmit_loop (bytesToSend - sentBytes (state c')) c'))
      else Some (Inr c))"

definition retransmitData :: "'alg TCPAlgNotify \<Rightarrow> 'alg TCPConnection \<Rightarrow> 'alg TCPConnection res" where
  "retransmitData na c0 =
     (let c = upd (\<lambda>s. s\<lparr>snd_nxt := snd_una s\<rparr>) c0;
          bytesToSend = snd_max (state c) - snd_nxt (state c)
      in bind_res (fin_only bytesToSend c) (\<lambda>fin.
         if fin then resend_fin na Inr c
         else
           ASSERT (bytesToSend \<noteq> 0)
             (bind_res (of_loop (retransmit_loop bytesToSend c)) (\<lambda>c1.
              alg_call (na_segmentRetransmitted na (snd_una (state c1)) (snd_nxt (state c1))) c1))))"

text \<open>Limited Transmit (RFC 3042).\<close>

definition sendOneNewSegment :: "'alg TCPAlgNotify \<Rightarrow> bool \<Rightarrow> u32 \<Rightarrow> 'alg TCPConnection
    \<Rightarrow> 'alg TCPConnection res" where
  "sendOneNewSegment na fullSegmentsOnly congestionWindow c =
     ASSERT (limited_transmit_enabled (state c))
       (if \<not> sack_enabled (state c) \<or> sackedBytes_old (state c) \<noteq> sackedBytes (state c) then
          bind_res (bytes_from (snd_max (state c)) c) (\<lambda>buffered.
          let s = state c;
              outstandingData = snd_max s - snd_una s;
              effectiveWin = min (snd_wnd s) congestionWindow - outstandingData + 2 * snd_mss s;
              bytes = min effectiveWin (snd_mss s)
          in if (buffered \<ge> snd_mss s \<or> (\<not> fullSegmentsOnly \<and> buffered > 0))
                \<and> outstandingData + snd_mss s \<le> snd_wnd s
                \<and> outstandingData + snd_mss s \<le> congestionWindow + 2 * snd_mss s
                \<and> (bytes \<ge> snd_mss s \<or> (\<not> fullSegmentsOnly \<and> bytes > 0)) then
               let old_snd_nxt = snd_nxt s
               in bind_res (sendSegment bytes (upd (\<lambda>s. s\<lparr>snd_nxt := snd_max s\<rparr>) c)) (\<lambda>c1.
                  let c2 = raise_snd_max c1;
                      c3 = (if afterRto (state c2)
                            then upd (\<lambda>s. s\<lparr>snd_nxt := old_snd_nxt + sentBytes s\<rparr>) c2 else c2)
                  in bind_res (alg_call (na_ackSent na) c3) (alg_call (na_dataSent na old_snd_nxt)))
             else Inr c)
        else Inr c)"

end
