(* ===== verification/TCP_Conn_Sack.thy ===== *)
theory TCP_Conn_Sack
  imports TCP_Conn_Send TCP_SACK_Scoreboard
begin

text \<open>
  Loss recovery with selective acknowledgements at the sender
  (\<^verbatim>\<open>TCPConnectionSackUtil.cc\<close>, after RFC 3517): \<open>isLost\<close>, \<open>setPipe\<close>, \<open>nextSeg\<close> and the sending
  of segments during recovery.
\<close>

section \<open>The scoreboard functions of RFC 3517\<close>

definition isLost :: "u32 \<Rightarrow> 'alg TCPConnection \<Rightarrow> bool res" where
  "isLost seqNum c =
     ASSERT (sack_enabled (state c))
       (ASSERT (seqGE seqNum (snd_una (state c)))
         (bind_res (deref (rexmitQueue c)) (\<lambda>q.
          bind_res (getNumOfDiscontiguousSacks q seqNum) (\<lambda>n.
            if n \<ge> DUPTHRESH then Inr True
            else bind_res (getAmountOfSackedBytes q seqNum) (\<lambda>b.
                   Inr (b \<ge> DUPTHRESH * snd_mss (state c)))))))"

partial_function (option) pipe_loop :: "u32 \<Rightarrow> 'alg TCPConnection \<Rightarrow> 'alg TCPConnection res option" where
  "pipe_loop s1 c =
     (if seqLess s1 (snd_max (state c)) then
        (case bind_res (deref (rexmitQueue c)) (\<lambda>q. checkSackBlock q s1) of
           Inl e \<Rightarrow> Some (Inl e)
         | Inr (len, sckd, _) \<Rightarrow>
             (case (if sckd then Inr c
                    else bind_res (isLost s1 c) (\<lambda>lost.
                      let c1 = (if lost then c else upd (\<lambda>s. s\<lparr>pipe := pipe s + len\<rparr>) c)
                      in Inr (if seqLess s1 (highRxt (state c1))
                              then upd (\<lambda>s. s\<lparr>pipe := pipe s + len\<rparr>) c1 else c1))) of
                Inl e \<Rightarrow> Some (Inl e)
              | Inr c' \<Rightarrow> pipe_loop (s1 + len) c'))
      else Some (Inr c))"

definition setPipe :: "'alg TCPConnection \<Rightarrow> 'alg TCPConnection res" where
  "setPipe c =
     ASSERT (sack_enabled (state c))
       (bind_res (deref (rexmitQueue c)) (\<lambda>q.
          of_loop (pipe_loop (snd_una (state c))
            (upd (\<lambda>s. s\<lparr>highRxt := getHighestRexmittedSeqNum q, pipe := 0\<rparr>) c))))"

text \<open>
  The search loops of rules (1) and (3) of \<open>nextSeg\<close>. \<^verbatim>\<open>checkSackBlock\<close> stores the length
  of the block in \<open>shift\<close>, so the loop goes from block to block. The result is the first block that
  is not sacked, if any, and the last \<open>shift\<close>.
\<close>

partial_function (option) unsacked_loop :: "TCPSACKRexmitQueue \<Rightarrow> u32 \<Rightarrow> u32 \<Rightarrow> u32 \<Rightarrow> u32 option res option" where
  "unsacked_loop q highest_sacked smax s2 =
     (if seqLess s2 smax \<and> seqLess s2 highest_sacked then
        (case checkSackBlock q s2 of
           Inl e \<Rightarrow> Some (Inl e)
         | Inr (shift, sckd, _) \<Rightarrow>
             if sckd then unsacked_loop q highest_sacked smax (s2 + shift)
             else Some (Inr (Some s2)))
      else Some (Inr None))"

text \<open>\<open>nextSeg\<close> returns the sequence number, or None for failure.\<close>

definition nextSeg_rule2 :: "'alg TCPConnection \<Rightarrow> u32 option res" where
  "nextSeg_rule2 c =
     bind_res (bytes_from (snd_max (state c)) c) (\<lambda>buffered.
     let effectiveWin = snd_wnd (state c) - pipe (state c)
     in Inr (if buffered > 0 \<and> effectiveWin \<ge> snd_mss (state c) then Some (snd_max (state c)) else None))"

definition nextSeg :: "'alg TCPConnection \<Rightarrow> (u32 option \<times> 'alg TCPConnection) res" where
  "nextSeg c0 =
     ASSERT (sack_enabled (state c0))
       (bind_res (deref (rexmitQueue c0)) (\<lambda>q.
        let c = upd (\<lambda>s. s\<lparr>highRxt := getHighestRexmittedSeqNum q\<rparr>) c0;
            highest_sacked = getHighestSackedSeqNum q;
            search = of_loop (unsacked_loop q highest_sacked (snd_max (state c)) (highRxt (state c)))
        in bind_res search (\<lambda>r1.
           bind_res (case r1 of Some s2 \<Rightarrow> isLost s2 c | None \<Rightarrow> Inr False) (\<lambda>lost.
           if lost then Inr (r1, c)
           else bind_res (nextSeg_rule2 c) (\<lambda>r2.
                case r2 of Some s2 \<Rightarrow> Inr (Some s2, c)
                | None \<Rightarrow> bind_res search (\<lambda>r3. Inr (r3, c)))))))"

section \<open>Sending during recovery\<close>

definition sendSegmentDuringLossRecoveryPhase :: "'alg TCPAlgNotify \<Rightarrow> u32 \<Rightarrow> 'alg TCPConnection
    \<Rightarrow> 'alg TCPConnection res" where
  "sendSegmentDuringLossRecoveryPhase na seqNum c0 =
     ASSERT (sack_enabled (state c0) \<and> lossRecovery (state c0))
       (let c = upd (\<lambda>s. s\<lparr>snd_nxt := seqNum\<rparr>) c0
        in bind_res (deref (rexmitQueue c)) (\<lambda>q0.
           bind_res (sendSegment (snd_mss (state c)) c) (\<lambda>c1.
           let old_highRxt = getHighestRexmittedSeqNum q0;
               sentSeqNum = seqNum + sentBytes (state c1)
           in ASSERT (seqLE (snd_nxt (state c1)) (sentSeqNum + 1))
             (bind_res (deref (rexmitQueue c1)) (\<lambda>q1.
              let c2 = (if seqLess seqNum (snd_max (state c1))
                        then upd (\<lambda>s. s\<lparr>highRxt := getHighestRexmittedSeqNum q1\<rparr>) c1 else c1);
                  c3 = (if seqGreater sentSeqNum (snd_max (state c2))
                        then upd (\<lambda>s. s\<lparr>snd_max := sentSeqNum\<rparr>) c2 else c2)
              in bind_res (alg_call (na_ackSent na) c3) (\<lambda>c4.
                 if old_highRxt \<noteq> highRxt (state c4) then alg_call (na_restartRexmitTimer na) c4
                 else alg_call (na_dataSent na seqNum) c4))))))"

partial_function (option) recovery_loop :: "'alg TCPAlgNotify \<Rightarrow> u32 \<Rightarrow> 'alg TCPConnection
    \<Rightarrow> 'alg TCPConnection res option" where
  "recovery_loop na congestionWindow c =
     (if sint congestionWindow - sint (pipe (state c)) \<ge> sint (snd_mss (state c)) then
        (case nextSeg c of
           Inl e \<Rightarrow> Some (Inl e)
         | Inr (None, c1) \<Rightarrow> Some (Inr c1)
         | Inr (Some seqNum, c1) \<Rightarrow>
             (case sendSegmentDuringLossRecoveryPhase na seqNum c1 of
                Inl e \<Rightarrow> Some (Inl e)
              | Inr c2 \<Rightarrow>
                  recovery_loop na congestionWindow (upd (\<lambda>s. s\<lparr>pipe := pipe s + sentBytes s\<rparr>) c2)))
      else Some (Inr c))"

definition sendDataDuringLossRecoveryPhase :: "'alg TCPAlgNotify \<Rightarrow> u32 \<Rightarrow> 'alg TCPConnection
    \<Rightarrow> 'alg TCPConnection res" where
  "sendDataDuringLossRecoveryPhase na congestionWindow c =
     ASSERT (sack_enabled (state c) \<and> lossRecovery (state c))
       (of_loop (recovery_loop na congestionWindow c))"

end
