(* ===== verification/TCP_Conn_Rcv.thy ===== *)
theory TCP_Conn_Rcv
  imports TCP_Conn_Sack
begin

text \<open>
  The arrival of a segment (\<^verbatim>\<open>TCPConnectionRcvSegment.cc\<close>), organised as in RFC 793, 3.9:
  \<open>processSegment1stThru8th\<close> checks the sequence number, RST, SYN and ACK, processes the text and
  the FIN, and returns the event for the state machine. \<open>processAckInEstabEtc\<close> processes an
  acknowledgement. The handlers of the timers of the connection are here too.

  The parts of the long function are steps that either return an event early or go on with what
  the next step needs.
\<close>

section \<open>Early returns\<close>

datatype ('x, 'c) flow = Returned TCPEventCode 'c | Going 'x

definition bind_flow :: "('x, 'c) flow res \<Rightarrow> ('x \<Rightarrow> ('y, 'c) flow res) \<Rightarrow> ('y, 'c) flow res" where
  "bind_flow m f = bind_res m (\<lambda>r. case r of Returned e c \<Rightarrow> Inr (Returned e c) | Going x \<Rightarrow> f x)"

definition end_flow :: "(TCPEventCode \<times> 'c, 'c) flow res \<Rightarrow> (TCPEventCode \<times> 'c) res" where
  "end_flow m = bind_res m (\<lambda>r. case r of Returned e c \<Rightarrow> Inr (e, c) | Going x \<Rightarrow> Inr x)"

lemma bind_flow_simps [simp]:
  "bind_flow (Inr (Returned e c)) f = Inr (Returned e c)"
  "bind_flow (Inr (Going x)) f = f x" "bind_flow (Inl err) f = Inl err"
  by (simp_all add: bind_flow_def)

lemma end_flow_simps [simp]:
  "end_flow (Inr (Returned e c)) = Inr (e, c)"
  "end_flow (Inr (Going x)) = Inr x" "end_flow (Inl err) = Inl err"
  by (simp_all add: end_flow_def)

section \<open>No connection\<close>

text \<open>The temporary connection object that answers has neither TCB nor algorithm.\<close>

definition segmentArrivalWhileClosed :: "'alg TCPAlgNotify \<Rightarrow> TCPSegment \<Rightarrow> IPvXAddress \<Rightarrow> IPvXAddress
    \<Rightarrow> 'alg TCPConnection \<Rightarrow> 'alg TCPConnection res" where
  "segmentArrivalWhileClosed na seg srcAddr destAddr c =
     (if rstBit seg then Inr c
      else if \<not> ackBit seg then
        sendRstAck na 0 (sequenceNo seg + getSegLen seg) destAddr srcAddr
          (uint (destPort seg)) (uint (srcPort seg)) c
      else Inr (sendRst (ackNo seg) destAddr srcAddr (uint (destPort seg)) (uint (srcPort seg)) c))"

section \<open>Sequence number, RST and SYN\<close>

definition hasEnoughSpaceForSegmentInReceiveQueue :: "TCPReceiveQueue \<Rightarrow> 'alg TCPStateVariables
    \<Rightarrow> TCPSegment \<Rightarrow> bool" where
  "hasEnoughSpaceForSegmentInReceiveQueue rq s seg =
     (let firstSeq = rcvq_getFirstSeqNo rq
      in seqLE firstSeq (sequenceNo seg)
         \<and> seqLE (sequenceNo seg + payloadLength seg) (firstSeq + maxRcvBuffer s))"

text \<open>Whether PAWS lets the segment pass.\<close>

definition paws_ok :: "u32 \<Rightarrow> 'alg TCPConnection \<Rightarrow> bool" where
  "paws_ok tsval c \<longleftrightarrow>
     \<not> (tsval \<noteq> 0 \<and> seqLess tsval (ts_recent (state c))
        \<and> simTime c - time_last_data_sent (state c) > seconds PAWS_IDLE_TIME_THRESH)"

definition check_options :: "TCPSegment \<Rightarrow> 'alg TCPConnection \<Rightarrow> (bool \<times> 'alg TCPConnection) res" where
  "check_options seg c =
     (if headerLength seg > TCP_HEADER_OCTETS then
        bind_res (if ts_enabled (state c)
                  then bind_res (getTSval seg) (\<lambda>tsval. Inr (paws_ok tsval c))
                  else Inr True) (\<lambda>ok.
        bind_res (readHeaderOptions seg c) (\<lambda>c'. Inr (ok, c')))
      else Inr (True, c))"

definition reject_segment :: "'alg TCPAlgNotify \<Rightarrow> TCPSegment \<Rightarrow> 'alg TCPConnection
    \<Rightarrow> 'alg TCPConnection res" where
  "reject_segment na seg c =
     bind_res
       (if rstBit seg then Inr c
        else
          let segEnd = sequenceNo seg + payloadLength seg;
              c1 = (if \<not> synBit seg \<and> payloadLength seg > 0 \<and> sack_enabled (state c)
                       \<and> seqLess segEnd (rcv_nxt (state c))
                    then upd (\<lambda>s. s\<lparr>start_seqno := sequenceNo seg, end_seqno := segEnd,
                                    snd_dsack := True\<rparr>) c
                    else c)
          in sendAck na c1)
       (\<lambda>c2. Inr (upd (\<lambda>s. s\<lparr>rcv_naseg := rcv_naseg s + 1\<rparr>) c2))"

definition step_sequence :: "'alg TCPAlgNotify \<Rightarrow> TCPSegment \<Rightarrow> 'alg TCPConnection
    \<Rightarrow> ('alg TCPConnection, 'alg TCPConnection) flow res" where
  "step_sequence na seg c =
     bind_res (check_options seg c) (\<lambda>(ok, c1).
       if ok \<and> isSegmentAcceptable (state c1) seg then Inr (Going c1)
       else bind_res (reject_segment na seg c1) (\<lambda>c2. Inr (Returned TCP_E_IGNORE c2)))"

definition processRstInSynReceived :: "'alg TCPConnection \<Rightarrow> (TCPEventCode \<times> 'alg TCPConnection) res" where
  "processRstInSynReceived c =
     bind_res (deref (sendQueue c)) (\<lambda>sq.
     bind_res (sendq_discardUpTo sq (sendq_getBufferEndSeq sq)) (\<lambda>sq'.
     bind_res (if sack_enabled (state c) then
                 bind_res (deref (rexmitQueue c)) (\<lambda>q.
                 bind_res (rq_discardUpTo q (rq_getBufferEndSeq q)) (\<lambda>q'.
                   Inr (c\<lparr>sendQueue := Some sq', rexmitQueue := Some q'\<rparr>)))
               else Inr (c\<lparr>sendQueue := Some sq'\<rparr>)) (\<lambda>c1.
       Inr (TCP_E_RCV_RST,
            if active (state c1) then sendIndicationToApp TCP_I_CONNECTION_REFUSED 0 c1 else c1))))"

definition step_rst :: "TCPSegment \<Rightarrow> 'alg TCPConnection
    \<Rightarrow> ('alg TCPConnection, 'alg TCPConnection) flow res" where
  "step_rst seg c =
     (if rstBit seg then
        (if fsm c = TCP_S_SYN_RCVD then
           bind_res (processRstInSynReceived c) (\<lambda>(e, c'). Inr (Returned e c'))
         else if fsm c \<in> {TCP_S_ESTABLISHED, TCP_S_FIN_WAIT_1, TCP_S_FIN_WAIT_2, TCP_S_CLOSE_WAIT} then
           Inr (Returned TCP_E_RCV_RST (sendIndicationToApp TCP_I_CONNECTION_RESET 0 c))
         else if fsm c \<in> {TCP_S_CLOSING, TCP_S_LAST_ACK, TCP_S_TIME_WAIT} then
           Inr (Returned TCP_E_RCV_RST c)
         else Inl Assertion_failed)
      else Inr (Going c))"

definition step_syn :: "TCPSegment \<Rightarrow> 'alg TCPConnection
    \<Rightarrow> ('alg TCPConnection, 'alg TCPConnection) flow res" where
  "step_syn seg c =
     (if synBit seg then
        ASSERT (isSegmentAcceptable (state c) seg)
          (Inr (Returned TCP_E_RCV_UNEXP_SYN (sendIndicationToApp TCP_I_CONNECTION_RESET 0 c)))
      else Inr (Going c))"

section \<open>Acknowledgements\<close>

text \<open>The part of \<open>processAckInEstabEtc\<close> for an acknowledgement of new data.\<close>

definition ack_new_data :: "'alg TCPAlgorithm \<Rightarrow> TCPSegment \<Rightarrow> 'alg TCPConnection
    \<Rightarrow> 'alg TCPConnection res" where
  "ack_new_data ta seg c0 =
     (let old_snd_una = snd_una (state c0);
          c1 = upd (\<lambda>s. s\<lparr>snd_una := ackNo seg,
                          snd_nxt := (if seqLess (snd_nxt s) (ackNo seg) then ackNo seg else snd_nxt s)\<rparr>) c0
      in bind_res (if ts_enabled (state c1) then
                     bind_res (getTSecr seg)
                       (\<lambda>ecr. alg_call (ta_rttMeasurementCompleteUsingTS ta ecr) c1)
                   else Inr c1) (\<lambda>c2.
         let fin_acked = send_fin (state c2) \<and> ackNo seg = snd_fin_seq (state c2) + 1;
             c3 = (if fin_acked then upd (\<lambda>s. s\<lparr>fin_ack_rcvd := True\<rparr>) c2 else c2);
             upTo = (if fin_acked then snd_una (state c2) - 1 else snd_una (state c2))
         in bind_res (deref (sendQueue c3)) (\<lambda>sq.
            bind_res (sendq_discardUpTo sq upTo) (\<lambda>sq'.
            bind_res (if sack_enabled (state c3) then
                        bind_res (deref (rexmitQueue c3)) (\<lambda>q.
                        bind_res (rq_discardUpTo q upTo) (\<lambda>q'.
                          Inr (c3\<lparr>sendQueue := Some sq', rexmitQueue := Some q'\<rparr>)))
                      else Inr (c3\<lparr>sendQueue := Some sq'\<rparr>)) (\<lambda>c4.
            let c5 = updateWndInfo seg False c4
            in if payloadLength seg = 0 \<and> fsm c5 \<noteq> TCP_S_SYN_RCVD then
                 bind_res (alg_call (ta_receivedDataAck ta old_snd_una) c5)
                   (\<lambda>c6. Inr (upd (\<lambda>s. s\<lparr>dupacks := 0\<rparr>) c6))
               else Inr c5)))))"

text \<open>False means that the segment is to be dropped.\<close>

definition processAckInEstabEtc :: "'alg TCPAlgorithm \<Rightarrow> TCPSegment \<Rightarrow> 'alg TCPConnection
    \<Rightarrow> (bool \<times> 'alg TCPConnection) res" where
  "processAckInEstabEtc ta seg c =
     (let s = state c
      in if seqGE (snd_una s) (ackNo seg) then
           (if snd_una s = ackNo seg \<and> payloadLength seg = 0 \<and> snd_una s \<noteq> snd_max s then
              bind_res (alg_call (ta_receivedDuplicateAck ta)
                         (updateWndInfo seg False (upd (\<lambda>s. s\<lparr>dupacks := dupacks s + 1\<rparr>) c)))
                (\<lambda>c'. Inr (True, c'))
            else Inr (True, upd (\<lambda>s. s\<lparr>dupacks := 0\<rparr>) c))
         else if seqLE (ackNo seg) (snd_max s) then
           bind_res (ack_new_data ta seg c) (\<lambda>c'. Inr (True, c'))
         else
           ASSERT (seqGreater (ackNo seg) (snd_max s))
             (bind_res (alg_call (ta_receivedAckForDataNotYetSent ta (ackNo seg)) c)
               (\<lambda>c'. Inr (False, upd (\<lambda>s. s\<lparr>dupacks := 0\<rparr>) c'))))"

text \<open>No ACK bit; in SYN_RCVD, the acknowledgement of our SYN.\<close>

definition step_ack_syn :: "'alg TCPAlgorithm \<Rightarrow> TCPSegment \<Rightarrow> 'alg TCPConnection
    \<Rightarrow> (TCPEventCode \<times> 'alg TCPConnection, 'alg TCPConnection) flow res" where
  "step_ack_syn ta seg c =
     (if \<not> ackBit seg then Inr (Returned TCP_E_IGNORE c)
      else if fsm c = TCP_S_SYN_RCVD then
        (if \<not> seqLE (snd_una (state c)) (ackNo seg) \<or> \<not> seqLE (ackNo seg) (snd_nxt (state c))
         then Inr (Returned TCP_E_IGNORE (sendRst_peer (ackNo seg) c))
         else bind_res (alg_call (ta_established ta False) c)
                (\<lambda>c'. Inr (Going (TCP_E_RCV_ACK, sendEstabIndicationToApp c'))))
      else Inr (Going (TCP_E_IGNORE, c)))"

definition restart_2MSL :: "'alg TCPConnection \<Rightarrow> 'alg TCPConnection res" where
  "restart_2MSL c =
     bind_res (cancelEvent (the2MSLTimer c)) (\<lambda>t1.
     bind_res (scheduleTimeout (simTime c) (seconds TCP_TIMEOUT_2MSL) t1) (\<lambda>t2.
       Inr (c\<lparr>the2MSLTimer := t2\<rparr>)))"

definition start_2MSL :: "'alg TCPConnection \<Rightarrow> 'alg TCPConnection res" where
  "start_2MSL c =
     bind_res (scheduleTimeout (simTime c) (seconds TCP_TIMEOUT_2MSL) (the2MSLTimer c)) (\<lambda>t.
       Inr (c\<lparr>the2MSLTimer := t\<rparr>))"

text \<open>Processing the acknowledgement in the other states.\<close>

definition step_ack :: "'alg TCPAlgorithm \<Rightarrow> TCPSegment \<Rightarrow> TCPEventCode \<Rightarrow> 'alg TCPConnection
    \<Rightarrow> (TCPEventCode \<times> 'alg TCPConnection, 'alg TCPConnection) flow res" where
  "step_ack ta seg event c =
     bind_flow
       (if fsm c \<in> {TCP_S_SYN_RCVD, TCP_S_ESTABLISHED, TCP_S_FIN_WAIT_1, TCP_S_FIN_WAIT_2,
                    TCP_S_CLOSE_WAIT, TCP_S_CLOSING, TCP_S_LAST_ACK} then
          bind_res (processAckInEstabEtc ta seg c) (\<lambda>(ok, c1).
            Inr (if ok then Going c1 else Returned TCP_E_IGNORE c1))
        else Inr (Going c)) (\<lambda>c1.
     let event1 = (if fsm c1 = TCP_S_FIN_WAIT_1 \<and> fin_ack_rcvd (state c1) then TCP_E_RCV_ACK else event)
     in bind_res (if fsm c1 = TCP_S_CLOSING \<and> fin_ack_rcvd (state c1) then
                    bind_res (start_2MSL c1) (\<lambda>c2. Inr (TCP_E_RCV_ACK, c2))
                  else Inr (event1, c1)) (\<lambda>(event2, c2).
        if fsm c2 = TCP_S_LAST_ACK \<and> send_fin (state c2) \<and> ackNo seg = snd_fin_seq (state c2) + 1 then
          Inr (Returned TCP_E_RCV_ACK c2)
        else if fsm c2 = TCP_S_TIME_WAIT then
          bind_res (sendAck (ta_notify ta) c2) (\<lambda>c3.
          bind_res (restart_2MSL c3) (\<lambda>c4. Inr (Going (event2, c4))))
        else Inr (Going (event2, c2))))"

section \<open>Text and FIN\<close>

text \<open>The change of timers and event when \<open>rcv_nxt\<close> passes the FIN of the peer.\<close>

definition fin_passed :: "'alg TCPConnection \<Rightarrow> (TCPEventCode \<times> 'alg TCPConnection) res" where
  "fin_passed c =
     (case fsm c of
        TCP_S_FIN_WAIT_1 \<Rightarrow>
          (if fin_ack_rcvd (state c) then
             bind_res (cancelEvent (finWait2Timer c)) (\<lambda>t.
             bind_res (start_2MSL (c\<lparr>finWait2Timer := t\<rparr>)) (\<lambda>c'. Inr (TCP_E_RCV_FIN_ACK, c')))
           else Inr (TCP_E_RCV_FIN, c))
      | TCP_S_FIN_WAIT_2 \<Rightarrow>
          bind_res (cancelEvent (finWait2Timer c)) (\<lambda>t.
          bind_res (start_2MSL (c\<lparr>finWait2Timer := t\<rparr>)) (\<lambda>c'. Inr (TCP_E_RCV_FIN, c')))
      | TCP_S_TIME_WAIT \<Rightarrow> bind_res (restart_2MSL c) (\<lambda>c'. Inr (TCP_E_RCV_FIN, c'))
      | _ \<Rightarrow> Inr (TCP_E_RCV_FIN, c))"

text \<open>Passing the data that is in order to the application.\<close>

definition deliver_data :: "'alg TCPConnection \<Rightarrow> 'alg TCPConnection res" where
  "deliver_data c =
     bind_res (deref (receiveQueue c)) (\<lambda>rq.
     bind_res (of_loop (drain rcvq_extractBytesUpTo rq (rcv_nxt (state c)) [])) (\<lambda>(rq', msgs).
       Inr (fold (\<lambda>m. emit (Out_data m (connId c))) msgs (c\<lparr>receiveQueue := Some rq'\<rparr>))))"

definition text_in_order :: "TCPEventCode \<Rightarrow> 'alg TCPConnection \<Rightarrow> (TCPEventCode \<times> 'alg TCPConnection) res" where
  "text_in_order event c =
     bind_res (deliver_data c) (\<lambda>c1.
       if fin_rcvd (state c1) \<and> rcv_nxt (state c1) = rcv_fin_seq (state c1) then
         fin_passed (upd (\<lambda>s. s\<lparr>ack_now := True, rcv_nxt := rcv_fin_seq s + 1\<rparr>) c1)
       else Inr (event, c1))"

definition text_out_of_order :: "'alg TCPAlgorithm \<Rightarrow> TCPSegment \<Rightarrow> u32 \<Rightarrow> 'alg TCPConnection
    \<Rightarrow> 'alg TCPConnection res" where
  "text_out_of_order ta seg old_used c =
     bind_res (deref (receiveQueue c)) (\<lambda>rq.
     let dup = (old_used = rcvq_getAmountOfBufferedBytes rq);
         c1 = upd (\<lambda>s. s\<lparr>rcv_oooseg := rcv_oooseg s + 1\<rparr>) c;
         c2 = (if sack_enabled (state c1) then
                 upd (\<lambda>s. s\<lparr>start_seqno := sequenceNo seg,
                            end_seqno := sequenceNo seg + payloadLength seg,
                            snd_dsack := (dup \<or> snd_dsack s), snd_sack := (\<not> dup \<or> snd_sack s)\<rparr>) c1
               else c1)
     in alg_call (ta_receivedOutOfOrderSegment ta) c2)"

text \<open>
  The text of a segment that has some, in a data transfer state: the segment is cut to the
  window, inserted into the receive queue, and what is in order is delivered.
\<close>

definition process_text :: "'alg TCPAlgorithm \<Rightarrow> u32 \<Rightarrow> TCPSegment \<Rightarrow> TCPEventCode \<Rightarrow> 'alg TCPConnection
    \<Rightarrow> (TCPSegment \<times> TCPEventCode \<times> 'alg TCPConnection, 'alg TCPConnection) flow res" where
  "process_text ta old_snd_una seg event c0 =
     (let s = state c0;
          full = payloadLength seg = snd_mss s
                 \<or> payloadLength seg + ucast (headerLength seg) - ucast TCP_HEADER_OCTETS = snd_mss s;
          old_rcv_nxt = rcv_nxt s;
          c1 = upd (\<lambda>s. s\<lparr>full_sized_segment_counter :=
                            (if full then full_sized_segment_counter s + 1 else full_sized_segment_counter s),
                          ack_now := (payloadLength seg = 1 \<or> ack_now s)\<rparr>) c0
      in bind_res (truncateSegment seg (rcv_nxt s) (rcv_nxt s + rcv_wnd s)) (\<lambda>seg1.
         bind_res (updateRcvQueueVars c1) (\<lambda>c2.
         bind_res (deref (receiveQueue c2)) (\<lambda>rq.
         if \<not> hasEnoughSpaceForSegmentInReceiveQueue rq (state c2) seg1 then
           Inr (Returned TCP_E_IGNORE
             (upd (\<lambda>s. s\<lparr>tcpRcvQueueDrops := tcpRcvQueueDrops s + 1\<rparr>) c2))
         else
           let old_used = usedRcvBuffer (state c2)
           in bind_res (rcvq_insertBytesFromSegment rq seg1) (\<lambda>(rq', seg2, nxt).
              let c3 = upd (\<lambda>s. s\<lparr>rcv_nxt := nxt\<rparr>) (c2\<lparr>receiveQueue := Some rq'\<rparr>)
              in bind_res (if seqGreater (snd_una (state c3)) old_snd_una then
                             bind_res (alg_call (ta_receivedDataAck ta old_snd_una) c3)
                               (\<lambda>c4. Inr (upd (\<lambda>s. s\<lparr>dupacks := 0\<rparr>) c4))
                           else Inr c3) (\<lambda>c4.
                 if old_rcv_nxt = rcv_nxt (state c4) then
                   bind_res (text_out_of_order ta seg2 old_used c4) (\<lambda>c5. Inr (Going (seg2, event, c5)))
                 else
                   bind_res (text_in_order event c4) (\<lambda>(event', c5). Inr (Going (seg2, event', c5)))))))))"

definition step_text :: "'alg TCPAlgorithm \<Rightarrow> u32 \<Rightarrow> TCPSegment \<Rightarrow> TCPEventCode \<Rightarrow> 'alg TCPConnection
    \<Rightarrow> (TCPSegment \<times> TCPEventCode \<times> 'alg TCPConnection, 'alg TCPConnection) flow res" where
  "step_text ta old_snd_una seg event c =
     (if fsm c \<in> {TCP_S_SYN_RCVD, TCP_S_ESTABLISHED, TCP_S_FIN_WAIT_1, TCP_S_FIN_WAIT_2}
         \<and> payloadLength seg > 0
      then process_text ta old_snd_una seg event c
      else Inr (Going (seg, event, c)))"

definition step_fin :: "TCPSegment \<Rightarrow> TCPEventCode \<Rightarrow> 'alg TCPConnection
    \<Rightarrow> (TCPEventCode \<times> 'alg TCPConnection) res" where
  "step_fin seg event c =
     (if finBit seg then
        let fin_seq = sequenceNo seg + payloadLength seg;
            c1 = upd (\<lambda>s. s\<lparr>ack_now := True\<rparr>) c
        in if rcv_nxt (state c1) = fin_seq then
             fin_passed (upd (\<lambda>s. s\<lparr>rcv_nxt := rcv_nxt s + 1\<rparr>) c1)
           else Inr (event, upd (\<lambda>s. s\<lparr>fin_rcvd := True, rcv_fin_seq := fin_seq\<rparr>) c1)
      else Inr (event, c))"

text \<open>Telling the algorithm that \<open>rcv_nxt\<close> has moved.\<close>

definition step_seq_changed :: "'alg TCPAlgorithm \<Rightarrow> u32 \<Rightarrow> TCPSegment \<Rightarrow> 'alg TCPConnection
    \<Rightarrow> 'alg TCPConnection res" where
  "step_seq_changed ta old_rcv_nxt seg c =
     (if old_rcv_nxt \<noteq> rcv_nxt (state c) then
        bind_res (if sack_enabled (state c) then
                    bind_res (deref (receiveQueue c)) (\<lambda>rq.
                      Inr (if rcvq_getQueueLength rq \<noteq> 0 then
                             upd (\<lambda>s. s\<lparr>start_seqno := sequenceNo seg,
                                        end_seqno := sequenceNo seg + payloadLength seg,
                                        snd_sack := True, ack_now := True\<rparr>) c
                           else c))
                  else Inr c) (alg_call (ta_receiveSeqChanged ta))
      else Inr c)"

text \<open>A CLOSE that was deferred because data was still to be sent.\<close>

definition deferred_close :: "u32 \<Rightarrow> TCPEventCode \<Rightarrow> 'alg TCPConnection \<Rightarrow> TCPEventCode" where
  "deferred_close old_snd_nxt event c =
     (let s = state c;
          event1 = (if (fsm c = TCP_S_ESTABLISHED \<or> fsm c = TCP_S_SYN_RCVD)
                       \<and> send_fin s \<and> snd_nxt s = snd_fin_seq s + 1 then TCP_E_CLOSE else event)
      in if fsm c = TCP_S_CLOSE_WAIT \<and> send_fin s \<and> snd_nxt s = snd_fin_seq s + 1
            \<and> old_snd_nxt \<noteq> snd_nxt s then TCP_E_CLOSE else event1)"

definition processSegment1stThru8th :: "'alg TCPAlgorithm \<Rightarrow> TCPSegment \<Rightarrow> 'alg TCPConnection
    \<Rightarrow> (TCPEventCode \<times> 'alg TCPConnection) res" where
  "processSegment1stThru8th ta seg c =
     end_flow
       (bind_flow (step_sequence (ta_notify ta) seg c) (\<lambda>c1.
        bind_flow (step_rst seg c1) (\<lambda>c2.
        bind_flow (step_syn seg c2) (\<lambda>c3.
        let old_snd_una = snd_una (state c3)
        in bind_flow (step_ack_syn ta seg c3) (\<lambda>(event1, c4).
           let old_snd_nxt = snd_nxt (state c4)
           in bind_flow (step_ack ta seg event1 c4) (\<lambda>(event2, c5).
              let old_rcv_nxt = rcv_nxt (state c5)
              in bind_flow (step_text ta old_snd_una seg event2 c5) (\<lambda>(seg1, event3, c6).
                 bind_res (step_fin seg1 event3 c6) (\<lambda>(event4, c7).
                 bind_res (step_seq_changed ta old_rcv_nxt seg1 c7) (\<lambda>c8.
                   Inr (Going (deferred_close old_snd_nxt event4 c8, c8)))))))))))"

section \<open>Opening handshake\<close>

definition startSynRexmitTimer :: "'alg TCPConnection \<Rightarrow> 'alg TCPConnection res" where
  "startSynRexmitTimer c =
     bind_res (case synRexmitTimer c of Timer_null \<Rightarrow> Inl Undefined_behaviour
               | Timer_at _ \<Rightarrow> cancelEvent (synRexmitTimer c)
               | Timer_idle \<Rightarrow> Inr Timer_idle) (\<lambda>t0.
     bind_res (scheduleTimeout (simTime c) (seconds TCP_TIMEOUT_SYN_REXMIT) t0) (\<lambda>t1.
       Inr (upd (\<lambda>s. s\<lparr>syn_rexmit_count := 0,
                       syn_rexmit_timeout := seconds TCP_TIMEOUT_SYN_REXMIT\<rparr>)
              (c\<lparr>synRexmitTimer := t1\<rparr>))))"

text \<open>
  Data that comes with a SYN: inserted into the receive queue when there is space. False means
  that the segment is dropped.
\<close>

definition take_syn_data :: "TCPSegment \<Rightarrow> 'alg TCPConnection \<Rightarrow> (bool \<times> 'alg TCPConnection) res" where
  "take_syn_data seg c =
     (if payloadLength seg > 0 then
        bind_res (updateRcvQueueVars c) (\<lambda>c1.
        bind_res (deref (receiveQueue c1)) (\<lambda>rq.
          if hasEnoughSpaceForSegmentInReceiveQueue rq (state c1) seg then
            bind_res (rcvq_insertBytesFromSegment rq seg) (\<lambda>(rq', _, _).
              Inr (True, c1\<lparr>receiveQueue := Some rq'\<rparr>))
          else Inr (False, upd (\<lambda>s. s\<lparr>tcpRcvQueueDrops := tcpRcvQueueDrops s + 1\<rparr>) c1)))
      else Inr (True, c))"

text \<open>
  A segment in LISTEN: the checks; and what is done with a SYN when the connection (or its fork)
  has been registered for the socket pair.
\<close>

definition listen_checks :: "TCPSegment \<Rightarrow> IPvXAddress \<Rightarrow> IPvXAddress \<Rightarrow> 'alg TCPConnection
    \<Rightarrow> ('alg TCPConnection, 'alg TCPConnection) flow" where
  "listen_checks seg srcAddr destAddr c =
     (if rstBit seg then Returned TCP_E_IGNORE c
      else if ackBit seg then
        Returned TCP_E_IGNORE
          (sendRst (ackNo seg) destAddr srcAddr (uint (destPort seg)) (uint (srcPort seg)) c)
      else if synBit seg then Going c
      else Returned TCP_E_IGNORE c)"

definition set_irs :: "TCPSegment \<Rightarrow> 'alg TCPConnection \<Rightarrow> 'alg TCPConnection res" where
  "set_irs seg c =
     (let nxt = sequenceNo seg + 1
      in bind_res (deref (receiveQueue c)) (\<lambda>rq.
           Inr (upd (\<lambda>s. s\<lparr>rcv_nxt := nxt, rcv_adv := nxt + rcv_wnd s, irs := sequenceNo seg\<rparr>)
                  (c\<lparr>receiveQueue := Some (rcvq_init rq nxt)\<rparr>))))"

definition read_syn_options :: "TCPSegment \<Rightarrow> 'alg TCPConnection \<Rightarrow> 'alg TCPConnection res" where
  "read_syn_options seg c =
     (if headerLength seg > TCP_HEADER_OCTETS then readHeaderOptions seg c else Inr c)"

definition listen_syn :: "'alg TCPAlgNotify \<Rightarrow> TCPSegment \<Rightarrow> 'alg TCPConnection
    \<Rightarrow> (TCPEventCode \<times> 'alg TCPConnection) res" where
  "listen_syn na seg c =
     bind_res (set_irs seg c) (\<lambda>c1.
     bind_res (selectInitialSeqNum c1) (\<lambda>c2.
     bind_res (read_syn_options seg (updateWndInfo seg True c2)) (\<lambda>c3.
     bind_res (sendSynAck na (upd (\<lambda>s. s\<lparr>ack_now := True\<rparr>) c3)) (\<lambda>c4.
     bind_res (startSynRexmitTimer c4) (\<lambda>c5.
     bind_res (case connEstabTimer c5 of
                 Timer_null \<Rightarrow> Inl Undefined_behaviour
               | Timer_at _ \<Rightarrow> Inr c5
               | Timer_idle \<Rightarrow>
                   bind_res (scheduleTimeout (simTime c5) (seconds TCP_TIMEOUT_CONN_ESTAB) (connEstabTimer c5))
                     (\<lambda>t. Inr (c5\<lparr>connEstabTimer := t\<rparr>))) (\<lambda>c6.
     bind_res (take_syn_data seg c6) (\<lambda>(ok, c7).
       Inr (if ok then TCP_E_RCV_SYN else TCP_E_IGNORE, c7))))))))"

text \<open>
  A segment in SYN_SENT: the checks; what a SYN does before the socket pair is updated; and after.
\<close>

definition synsent_checks :: "TCPSegment \<Rightarrow> IPvXAddress \<Rightarrow> IPvXAddress \<Rightarrow> 'alg TCPConnection
    \<Rightarrow> ('alg TCPConnection, 'alg TCPConnection) flow" where
  "synsent_checks seg srcAddr destAddr c =
     (if ackBit seg \<and> (seqLE (ackNo seg) (iss (state c)) \<or> seqGreater (ackNo seg) (snd_nxt (state c))) then
        Returned TCP_E_IGNORE
          (if rstBit seg then c
           else sendRst (ackNo seg) destAddr srcAddr (uint (destPort seg)) (uint (srcPort seg)) c)
      else if rstBit seg then
        (if ackBit seg then Returned TCP_E_RCV_RST (sendIndicationToApp TCP_I_CONNECTION_RESET 0 c)
         else Returned TCP_E_IGNORE c)
      else if synBit seg then Going c
      else Returned TCP_E_IGNORE c)"

definition synsent_syn :: "TCPSegment \<Rightarrow> 'alg TCPConnection \<Rightarrow> 'alg TCPConnection res" where
  "synsent_syn seg c =
     bind_res (set_irs seg c) (\<lambda>c1.
       if ackBit seg then
         bind_res (deref (sendQueue c1)) (\<lambda>sq.
         bind_res (sendq_discardUpTo sq (ackNo seg)) (\<lambda>sq'.
         let c2 = upd (\<lambda>s. s\<lparr>snd_una := ackNo seg\<rparr>) (c1\<lparr>sendQueue := Some sq'\<rparr>)
         in bind_res (if sack_enabled (state c2) then
                        bind_res (deref (rexmitQueue c2)) (\<lambda>q.
                        bind_res (rq_discardUpTo q (ackNo seg)) (\<lambda>q'. Inr (c2\<lparr>rexmitQueue := Some q'\<rparr>)))
                      else Inr c2) (\<lambda>c3.
              Inr (updateWndInfo seg True c3))))
       else Inr c1)"

definition synsent_answer :: "'alg TCPAlgorithm \<Rightarrow> TCPSegment \<Rightarrow> 'alg TCPConnection
    \<Rightarrow> (TCPEventCode \<times> 'alg TCPConnection) res" where
  "synsent_answer ta seg c =
     (if seqGreater (snd_una (state c)) (iss (state c)) then
        bind_res (take_syn_data seg c) (\<lambda>(ok, c1).
          if \<not> ok then Inr (TCP_E_IGNORE, c1)
          else
            bind_res (read_syn_options seg c1) (\<lambda>c2.
            bind_res (alg_call (ta_established ta True) (upd (\<lambda>s. s\<lparr>ack_now := True\<rparr>) c2)) (\<lambda>c3.
              Inr (TCP_E_RCV_SYN_ACK, sendEstabIndicationToApp c3))))
      else
        bind_res (sendSynAck (ta_notify ta) (upd (\<lambda>s. s\<lparr>snd_nxt := iss s, snd_max := iss s\<rparr>) c)) (\<lambda>c1.
        bind_res (startSynRexmitTimer c1) (\<lambda>c2.
        bind_res (take_syn_data seg c2) (\<lambda>(ok, c3).
          Inr (if ok then TCP_E_RCV_SYN else TCP_E_IGNORE, c3)))))"

section \<open>Timers\<close>

definition process_TIMEOUT_CONN_ESTAB :: "'alg TCPConnection \<Rightarrow> 'alg TCPConnection res" where
  "process_TIMEOUT_CONN_ESTAB c =
     (if fsm c = TCP_S_SYN_RCVD \<or> fsm c = TCP_S_SYN_SENT then
        Inr (if active (state c) then sendIndicationToApp TCP_I_TIMED_OUT 0 c else c)
      else Inl (Runtime_error ''Internal error: received CONN_ESTAB timeout''))"

definition process_TIMEOUT_2MSL :: "'alg TCPConnection \<Rightarrow> 'alg TCPConnection res" where
  "process_TIMEOUT_2MSL c =
     (if fsm c = TCP_S_TIME_WAIT then Inr c
      else Inl (Runtime_error ''Internal error: received time-wait (2MSL) timeout''))"

definition process_TIMEOUT_FIN_WAIT_2 :: "'alg TCPConnection \<Rightarrow> 'alg TCPConnection res" where
  "process_TIMEOUT_FIN_WAIT_2 c =
     (if fsm c = TCP_S_FIN_WAIT_2 then Inr c
      else Inl (Runtime_error ''Internal error: received FIN_WAIT_2 timeout''))"

definition process_TIMEOUT_SYN_REXMIT :: "'alg TCPAlgNotify \<Rightarrow> 'alg TCPConnection
    \<Rightarrow> (TCPEventCode \<times> 'alg TCPConnection) res" where
  "process_TIMEOUT_SYN_REXMIT na c0 =
     (let c = upd (\<lambda>s. s\<lparr>syn_rexmit_count := syn_rexmit_count s + 1\<rparr>) c0
      in if syn_rexmit_count (state c) > MAX_SYN_REXMIT_COUNT then Inr (TCP_E_ABORT, c)
         else
           bind_res (if fsm c = TCP_S_SYN_SENT then sendSyn c
                     else if fsm c = TCP_S_SYN_RCVD then sendSynAck na c
                     else Inl (Runtime_error ''Internal error: SYN-REXMIT timer expired'')) (\<lambda>c1.
           let t = syn_rexmit_timeout (state c1) * 2;
               t' = (if t > seconds TCP_TIMEOUT_SYN_REXMIT_MAX
                     then seconds TCP_TIMEOUT_SYN_REXMIT_MAX else t)
           in bind_res (scheduleTimeout (simTime c1) t' (synRexmitTimer c1)) (\<lambda>tm.
                Inr (TCP_E_IGNORE,
                     upd (\<lambda>s. s\<lparr>syn_rexmit_timeout := t'\<rparr>) (c1\<lparr>synRexmitTimer := tm\<rparr>)))))"

end
