(* ===== verification/TCP_Module.thy ===== *)
theory TCP_Module
  imports TCP_Conn_Rcv
begin

text \<open>
  Events of a connection and of the module: the commands of the application
  (\<^verbatim>\<open>TCPConnectionEventProc.cc\<close>), \<open>processTimer\<close>, \<open>processTCPSegment\<close> and
  \<open>processAppCommand\<close> (\<^verbatim>\<open>TCPConnectionBase.cc\<close>), and the dispatch of
  \<^verbatim>\<open>TCP::handleMessage\<close> (\<^verbatim>\<open>TCP.cc\<close>) with the removal of closed
  connections. Connections live in the heap of the module, because opening and forking one changes
  the tables of the module.
\<close>

section \<open>Working on a connection of the module\<close>

type_synonym 'alg module = "'alg TCPConnection TCP"

definition on_conn :: "conn_ptr \<Rightarrow> ('alg TCPConnection \<Rightarrow> ('x \<times> 'alg TCPConnection) res)
    \<Rightarrow> 'alg module \<Rightarrow> ('x \<times> 'alg module) res" where
  "on_conn p f t =
     bind_res (deref (conns t p)) (\<lambda>c.
     bind_res (f c) (\<lambda>(x, c'). Inr (x, t\<lparr>conns := (conns t)(p \<mapsto> c')\<rparr>)))"

definition unit_op :: "('alg TCPConnection \<Rightarrow> 'alg TCPConnection res) \<Rightarrow> 'alg TCPConnection
    \<Rightarrow> (unit \<times> 'alg TCPConnection) res" where
  "unit_op f c = bind_res (f c) (\<lambda>c'. Inr ((), c'))"

section \<open>Commands of the application\<close>

definition start_connEstab :: "'alg TCPConnection \<Rightarrow> 'alg TCPConnection res" where
  "start_connEstab c =
     bind_res (scheduleTimeout (simTime c) (seconds TCP_TIMEOUT_CONN_ESTAB) (connEstabTimer c))
       (\<lambda>t. Inr (c\<lparr>connEstabTimer := t\<rparr>))"

definition open_syn :: "'alg TCPConnection \<Rightarrow> 'alg TCPConnection res" where
  "open_syn c =
     bind_res (selectInitialSeqNum c) (\<lambda>c1.
     bind_res (sendSyn c1) (\<lambda>c2.
     bind_res (startSynRexmitTimer c2) start_connEstab))"

definition process_OPEN_ACTIVE :: "'alg TCPAlgorithm \<Rightarrow> TCPOpenCommand \<Rightarrow> conn_ptr
    \<Rightarrow> 'alg module \<Rightarrow> 'alg module res" where
  "process_OPEN_ACTIVE ta openCmd p t =
     bind_res (on_conn p (\<lambda>c.
       if fsm c = TCP_S_INIT then
         bind_res (initConnection ta openCmd c) (\<lambda>c1. Inr ((), upd (\<lambda>s. s\<lparr>active := True\<rparr>) c1))
       else Inl (Runtime_error ''Error processing command OPEN_ACTIVE: connection already exists'')) t)
       (\<lambda>(_, t1).
     if oc_remoteAddr openCmd = unspecified_addr \<or> oc_remotePort openCmd = -1 then
       Inl (Runtime_error ''Error processing command OPEN_ACTIVE: remote address and port must be specified'')
     else
       bind_res (if oc_localPort openCmd = -1
                 then bind_res (of_loop (getEphemeralPort t1)) (\<lambda>(t2, port). Inr (t2, uint port))
                 else Inr (t1, oc_localPort openCmd)) (\<lambda>(t2, port).
       bind_res (addSockPair t2 p (oc_localAddr openCmd) (oc_remoteAddr openCmd) port
                   (oc_remotePort openCmd)) (\<lambda>t3.
       bind_res (on_conn p (unit_op open_syn) t3) (\<lambda>(_, t4). Inr t4))))"

definition process_OPEN_PASSIVE :: "'alg TCPAlgorithm \<Rightarrow> TCPOpenCommand \<Rightarrow> conn_ptr
    \<Rightarrow> 'alg module \<Rightarrow> 'alg module res" where
  "process_OPEN_PASSIVE ta openCmd p t =
     bind_res (on_conn p (\<lambda>c.
       if fsm c = TCP_S_INIT then
         bind_res (initConnection ta openCmd c)
           (\<lambda>c1. Inr ((), upd (\<lambda>s. s\<lparr>active := False, fork := oc_fork openCmd\<rparr>) c1))
       else Inl (Runtime_error ''Error processing command OPEN_PASSIVE: connection already exists'')) t)
       (\<lambda>(_, t1).
     if oc_localPort openCmd = -1 then
       Inl (Runtime_error ''Error processing command OPEN_PASSIVE: local port must be specified'')
     else addSockPair t1 p (oc_localAddr openCmd) unspecified_addr (oc_localPort openCmd) (-1))"

definition enqueue_data :: "cPacket \<Rightarrow> 'alg TCPConnection \<Rightarrow> 'alg TCPConnection res" where
  "enqueue_data msg c =
     bind_res (deref (sendQueue c)) (\<lambda>sq.
     bind_res (sendq_enqueueAppData sq msg) (\<lambda>sq'. Inr (c\<lparr>sendQueue := Some sq'\<rparr>)))"

definition limit_queue :: "'alg TCPConnection \<Rightarrow> 'alg TCPConnection res" where
  "limit_queue c =
     bind_res (bytes_from (snd_una (state c)) c) (\<lambda>queued.
       Inr (if sendQueueLimit (state c) > 0 \<and> queued > sendQueueLimit (state c)
            then upd (\<lambda>s. s\<lparr>queueUpdate := False\<rparr>) c else c))"

definition process_SEND :: "'alg TCPAlgorithm \<Rightarrow> cPacket \<Rightarrow> 'alg TCPConnection
    \<Rightarrow> 'alg TCPConnection res" where
  "process_SEND ta msg c =
     bind_res
       (case fsm c of
          TCP_S_INIT \<Rightarrow> Inl (Runtime_error ''Error processing command SEND: connection not open'')
        | TCP_S_LISTEN \<Rightarrow>
            bind_res (open_syn (upd (\<lambda>s. s\<lparr>active := True\<rparr>) c)) (enqueue_data msg)
        | TCP_S_SYN_RCVD \<Rightarrow> enqueue_data msg c
        | TCP_S_SYN_SENT \<Rightarrow> enqueue_data msg c
        | TCP_S_ESTABLISHED \<Rightarrow>
            bind_res (enqueue_data msg c) (alg_call (ta_sendCommandInvoked ta))
        | TCP_S_CLOSE_WAIT \<Rightarrow>
            bind_res (enqueue_data msg c) (alg_call (ta_sendCommandInvoked ta))
        | TCP_S_CLOSED \<Rightarrow> Inr c
        | _ \<Rightarrow> Inl (Runtime_error ''Error processing command SEND: connection closing''))
       limit_queue"

text \<open>The result says whether the FIN went out at once, or the close is deferred.\<close>

definition process_CLOSE :: "'alg TCPAlgNotify \<Rightarrow> 'alg TCPConnection
    \<Rightarrow> (TCPEventCode \<times> 'alg TCPConnection) res" where
  "process_CLOSE na c =
     (case fsm c of
        TCP_S_INIT \<Rightarrow> Inl (Runtime_error ''Error processing command CLOSE: connection not open'')
      | TCP_S_LISTEN \<Rightarrow> Inr (TCP_E_CLOSE, c)
      | TCP_S_SYN_SENT \<Rightarrow> Inr (TCP_E_CLOSE, c)
      | TCP_S_CLOSED \<Rightarrow> Inr (TCP_E_CLOSE, c)
      | st \<Rightarrow>
          if st = TCP_S_SYN_RCVD \<or> st = TCP_S_ESTABLISHED \<or> st = TCP_S_CLOSE_WAIT then
            bind_res (deref (sendQueue c)) (\<lambda>sq.
            let endSeq = sendq_getBufferEndSeq sq
            in bind_res
                 (if snd_max (state c) = endSeq then
                    bind_res (sendFin na (upd (\<lambda>s. s\<lparr>snd_nxt := snd_max s\<rparr>) c)) (\<lambda>c1.
                    bind_res (alg_call (na_restartRexmitTimer na) c1) (\<lambda>c2.
                      Inr (TCP_E_CLOSE,
                           upd (\<lambda>s. s\<lparr>snd_nxt := snd_nxt s + 1, snd_max := snd_nxt s + 1\<rparr>) c2)))
                  else Inr (TCP_E_IGNORE, c)) (\<lambda>(e, c3).
                 Inr (e, upd (\<lambda>s. s\<lparr>send_fin := True, snd_fin_seq := endSeq\<rparr>) c3)))
          else Inl (Runtime_error ''Duplicate CLOSE command: connection already closing''))"

definition process_ABORT :: "'alg TCPConnection \<Rightarrow> 'alg TCPConnection res" where
  "process_ABORT c =
     (if fsm c = TCP_S_INIT then
        Inl (Runtime_error ''Error processing command ABORT: connection not open'')
      else if fsm c \<in> {TCP_S_SYN_RCVD, TCP_S_ESTABLISHED, TCP_S_FIN_WAIT_1, TCP_S_FIN_WAIT_2,
                       TCP_S_CLOSE_WAIT} then
        Inr (sendRst_peer (snd_nxt (state c)) c)
      else Inr c)"

definition process_STATUS :: "'alg TCPConnection \<Rightarrow> 'alg TCPConnection res" where
  "process_STATUS c =
     (if fsm c = TCP_S_INIT then
        Inl (Runtime_error ''Error processing command STATUS: connection not open'')
      else
        let s = state c
        in Inr (emit (Out_status \<lparr>si_state = fsm c,
                  si_ids = (localAddr c, remoteAddr c, localPort c, remotePort c),
                  si_snd = [snd_mss s, snd_una s, snd_nxt s, snd_max s, snd_wnd s, snd_up s,
                            snd_wl1 s, snd_wl2 s, iss s],
                  si_rcv = [rcv_nxt s, rcv_wnd s, rcv_up s, irs s],
                  si_fin_ack_rcvd = fin_ack_rcvd s\<rparr>) c))"

definition process_QUEUE_BYTES_LIMIT :: "int \<Rightarrow> 'alg TCPConnection \<Rightarrow> 'alg TCPConnection res" where
  "process_QUEUE_BYTES_LIMIT userId c =
     (if fsm c = TCP_S_INIT then
        Inl (Runtime_error ''Called process_QUEUE_BYTES_LIMIT on uninitialized TCPConnection!'')
      else Inr (upd (\<lambda>s. s\<lparr>sendQueueLimit := word_of_int userId\<rparr>) c))"

section \<open>Events of a connection\<close>

text \<open>What comes with a command.\<close>

datatype command = Open_command TCPOpenCommand | Data_command cPacket | Plain_command int

text \<open>
  \<open>alg_of\<close> is the algorithm that an open command selects, and the algorithm of the connection for
  the other commands.
\<close>

definition finish_event :: "'alg TCPAlgNotify \<Rightarrow> conn_ptr \<Rightarrow> TCPEventCode \<Rightarrow> 'alg module
    \<Rightarrow> (bool \<times> 'alg module) res" where
  "finish_event na p event t = on_conn p (performStateTransition na event) t"

definition processAppCommand :: "'alg TCPAlgorithm \<Rightarrow> int \<Rightarrow> command \<Rightarrow> conn_ptr \<Rightarrow> 'alg module
    \<Rightarrow> (bool \<times> 'alg module) res" where
  "processAppCommand ta kind cmd p t =
     bind_res (preanalyseAppCommandEvent kind) (\<lambda>event.
     bind_res
       (case (event, cmd) of
          (TCP_E_OPEN_ACTIVE, Open_command oc) \<Rightarrow>
            bind_res (process_OPEN_ACTIVE ta oc p t) (\<lambda>t1. Inr (event, t1))
        | (TCP_E_OPEN_PASSIVE, Open_command oc) \<Rightarrow>
            bind_res (process_OPEN_PASSIVE ta oc p t) (\<lambda>t1. Inr (event, t1))
        | (TCP_E_SEND, Data_command msg) \<Rightarrow>
            on_conn p (\<lambda>c. bind_res (process_SEND ta msg c) (\<lambda>c1. Inr (event, c1))) t
        | (TCP_E_CLOSE, _) \<Rightarrow> on_conn p (process_CLOSE (ta_notify ta)) t
        | (TCP_E_ABORT, _) \<Rightarrow> on_conn p (\<lambda>c. bind_res (process_ABORT c) (\<lambda>c1. Inr (event, c1))) t
        | (TCP_E_STATUS, _) \<Rightarrow> on_conn p (\<lambda>c. bind_res (process_STATUS c) (\<lambda>c1. Inr (event, c1))) t
        | (TCP_E_QUEUE_BYTES_LIMIT, Plain_command n) \<Rightarrow>
            on_conn p (\<lambda>c. bind_res (process_QUEUE_BYTES_LIMIT n c) (\<lambda>c1. Inr (event, c1))) t
        | _ \<Rightarrow> Inl (Runtime_error ''check_and_cast(): wrong command object'')) (\<lambda>(event', t').
     finish_event (ta_notify ta) p event' t'))"

datatype tcp_timer = The2MSL | ConnEstab | FinWait2 | SynRexmit | Alg_timer alg_timer

text \<open>A self-message that has arrived is no longer scheduled.\<close>

definition expired :: "tcp_timer \<Rightarrow> 'alg TCPConnection \<Rightarrow> 'alg TCPConnection" where
  "expired tm c =
     (case tm of
        The2MSL \<Rightarrow> c\<lparr>the2MSLTimer := Timer_idle\<rparr>
      | ConnEstab \<Rightarrow> c\<lparr>connEstabTimer := Timer_idle\<rparr>
      | FinWait2 \<Rightarrow> c\<lparr>finWait2Timer := Timer_idle\<rparr>
      | SynRexmit \<Rightarrow> c\<lparr>synRexmitTimer := Timer_idle\<rparr>
      | Alg_timer _ \<Rightarrow> c)"

definition timer_event :: "'alg TCPAlgorithm \<Rightarrow> tcp_timer \<Rightarrow> 'alg TCPConnection
    \<Rightarrow> (TCPEventCode \<times> 'alg TCPConnection) res" where
  "timer_event ta tm c =
     (case tm of
        The2MSL \<Rightarrow> bind_res (process_TIMEOUT_2MSL c) (\<lambda>c1. Inr (TCP_E_TIMEOUT_2MSL, c1))
      | ConnEstab \<Rightarrow> bind_res (process_TIMEOUT_CONN_ESTAB c) (\<lambda>c1. Inr (TCP_E_TIMEOUT_CONN_ESTAB, c1))
      | FinWait2 \<Rightarrow> bind_res (process_TIMEOUT_FIN_WAIT_2 c) (\<lambda>c1. Inr (TCP_E_TIMEOUT_FIN_WAIT_2, c1))
      | SynRexmit \<Rightarrow> process_TIMEOUT_SYN_REXMIT (ta_notify ta) c
      | Alg_timer a \<Rightarrow> alg_call (ta_processTimer ta a) c)"

definition processTimer :: "'alg TCPAlgorithm \<Rightarrow> tcp_timer \<Rightarrow> conn_ptr \<Rightarrow> 'alg module
    \<Rightarrow> (bool \<times> 'alg module) res" where
  "processTimer ta tm p t =
     bind_res (on_conn p (\<lambda>c. timer_event ta tm (expired tm c)) t) (\<lambda>(event, t1).
     finish_event (ta_notify ta) p event t1)"

section \<open>Segments\<close>

text \<open>
  In LISTEN a fork leaves the clone listening: \<open>newp\<close> is the address of the clone and \<open>unique\<close> the
  connection id that this connection gets.
\<close>

definition processSegmentInListen :: "'alg TCPAlgorithm \<Rightarrow> conn_ptr \<Rightarrow> int \<Rightarrow> TCPSegment
    \<Rightarrow> IPvXAddress \<Rightarrow> IPvXAddress \<Rightarrow> conn_ptr \<Rightarrow> 'alg module \<Rightarrow> (TCPEventCode \<times> 'alg module) res" where
  "processSegmentInListen ta newp unique seg srcAddr destAddr p t =
     bind_res (deref (conns t p)) (\<lambda>c.
     case listen_checks seg srcAddr destAddr c of
       Returned e c1 \<Rightarrow> Inr (e, t\<lparr>conns := (conns t)(p \<mapsto> c1)\<rparr>)
     | Going c1 \<Rightarrow>
         bind_res
           (if fork (state c1) then
              bind_res (cloneListeningConnection ta c1) (\<lambda>(c2, clone).
                addForkedConnection unique (t\<lparr>conns := (conns t)(p \<mapsto> c2, newp \<mapsto> clone)\<rparr>) p newp
                  destAddr srcAddr (uint (destPort seg)) (uint (srcPort seg)))
            else updateSockPair t p destAddr srcAddr (uint (destPort seg)) (uint (srcPort seg)))
           (on_conn p (listen_syn (ta_notify ta) seg)))"

definition processSegmentInSynSent :: "'alg TCPAlgorithm \<Rightarrow> TCPSegment
    \<Rightarrow> IPvXAddress \<Rightarrow> IPvXAddress \<Rightarrow> conn_ptr \<Rightarrow> 'alg module \<Rightarrow> (TCPEventCode \<times> 'alg module) res" where
  "processSegmentInSynSent ta seg srcAddr destAddr p t =
     bind_res (deref (conns t p)) (\<lambda>c.
     case synsent_checks seg srcAddr destAddr c of
       Returned e c1 \<Rightarrow> Inr (e, t\<lparr>conns := (conns t)(p \<mapsto> c1)\<rparr>)
     | Going c1 \<Rightarrow>
         bind_res (on_conn p (unit_op (synsent_syn seg)) t) (\<lambda>(_, t1).
         bind_res (updateSockPair t1 p destAddr srcAddr (uint (destPort seg)) (uint (srcPort seg)))
           (on_conn p (synsent_answer ta seg))))"

definition process_RCV_SEGMENT :: "'alg TCPAlgorithm \<Rightarrow> conn_ptr \<Rightarrow> int \<Rightarrow> TCPSegment
    \<Rightarrow> IPvXAddress \<Rightarrow> IPvXAddress \<Rightarrow> conn_ptr \<Rightarrow> 'alg module \<Rightarrow> (TCPEventCode \<times> 'alg module) res" where
  "process_RCV_SEGMENT ta newp unique seg srcAddr destAddr p t =
     bind_res (deref (conns t p)) (\<lambda>c.
       if fsm c = TCP_S_LISTEN then processSegmentInListen ta newp unique seg srcAddr destAddr p t
       else if fsm c = TCP_S_SYN_SENT then processSegmentInSynSent ta seg srcAddr destAddr p t
       else on_conn p (processSegment1stThru8th ta seg) t)"

definition addressed_ok :: "TCPSegment \<Rightarrow> IPvXAddress \<Rightarrow> IPvXAddress \<Rightarrow> 'alg TCPConnection \<Rightarrow> bool" where
  "addressed_ok seg srcAddr destAddr c \<longleftrightarrow>
     (localAddr c \<noteq> unspecified_addr \<longrightarrow> localAddr c = destAddr \<and> localPort c = uint (destPort seg))
   \<and> (remoteAddr c \<noteq> unspecified_addr \<longrightarrow> remoteAddr c = srcAddr \<and> remotePort c = uint (srcPort seg))"

definition processTCPSegment :: "'alg TCPAlgorithm \<Rightarrow> conn_ptr \<Rightarrow> int \<Rightarrow> TCPSegment
    \<Rightarrow> IPvXAddress \<Rightarrow> IPvXAddress \<Rightarrow> conn_ptr \<Rightarrow> 'alg module \<Rightarrow> (bool \<times> 'alg module) res" where
  "processTCPSegment ta newp unique seg srcAddr destAddr p t =
     bind_res (deref (conns t p)) (\<lambda>c.
     ASSERT (addressed_ok seg srcAddr destAddr c)
       (bind_res (process_RCV_SEGMENT ta newp unique seg srcAddr destAddr p t) (\<lambda>(event, t1).
        finish_event (ta_notify ta) p event t1)))"

section \<open>The module\<close>

text \<open>
  \<^verbatim>\<open>TCP::handleMessage\<close> when the module is operational. Addresses of new objects
  (\<open>newp\<close>) and unique numbers are inputs; the answer to a segment that belongs to no connection is
  the list of messages that the temporary connection \<open>tmp\<close> sends.
\<close>

datatype module_event =
    Ev_timer conn_ptr tcp_timer
  | Ev_segment TCPSegment IPvXAddress IPvXAddress
  | Ev_command int int int command

definition remove_closed :: "conn_ptr \<Rightarrow> bool \<times> 'alg module \<Rightarrow> 'alg module res" where
  "remove_closed p r = (case r of (keep, t) \<Rightarrow> if keep then Inr t else removeConnection t p)"

definition handleMessage :: "'alg TCPAlgorithm \<Rightarrow> 'alg TCPConnection \<Rightarrow> conn_ptr \<Rightarrow> int
    \<Rightarrow> module_event \<Rightarrow> 'alg module \<Rightarrow> (out_msg list \<times> 'alg module) res" where
  "handleMessage ta tmp newp unique ev t =
     (case ev of
        Ev_timer p tm \<Rightarrow>
          bind_res (processTimer ta tm p t) (\<lambda>r. bind_res (remove_closed p r) (\<lambda>t1. Inr ([], t1)))
      | Ev_segment seg srcAddr destAddr \<Rightarrow>
          (case findConnForSegment t (srcPort seg) (destPort seg) srcAddr destAddr of
             Some p \<Rightarrow>
               bind_res (processTCPSegment ta newp unique seg srcAddr destAddr p t) (\<lambda>r.
               bind_res (remove_closed p r) (\<lambda>t1. Inr ([], t1)))
           | None \<Rightarrow>
               bind_res (segmentArrivalWhileClosed (ta_notify ta) seg srcAddr destAddr tmp)
                 (\<lambda>tmp'. Inr (sent tmp', t)))
      | Ev_command gate cid kind cmd \<Rightarrow>
          let (p, t0) =
            (case findConnForApp t gate cid of
               Some p \<Rightarrow> (p, t)
             | None \<Rightarrow>
                 (newp, t\<lparr>conns := (conns t)(newp \<mapsto>
                            new_TCPConnection (ta_createStateVariables ta) (par tmp) (simTime tmp) gate cid),
                          tcpAppConnMap := (tcpAppConnMap t)
                            (\<lparr>ack_appGateIndex = gate, ack_connId = cid\<rparr> \<mapsto> newp)\<rparr>))
          in bind_res (processAppCommand ta kind cmd p t0) (\<lambda>r.
             bind_res (remove_closed p r) (\<lambda>t1. Inr ([], t1))))"

end
