(* ===== verification/TCP_Base_Alg.thy ===== *)
theory TCP_Base_Alg
  imports TCP_Module
begin

text \<open>
  The algorithms that decide when to send, to acknowledge and to send again:
  \<^verbatim>\<open>flavours/DumbTCP.cc\<close>, with one fixed retransmission timeout, and
  \<^verbatim>\<open>flavours/TCPBaseAlg.cc\<close>, the common part of the others, with its four timers, the
  retransmission timeout from measured round-trip times, delayed acknowledgements, Nagle's
  algorithm and the persist timer. Both are providers of the interface \<open>algorithm\<close>.

  Products of times with 1/8 are cut towards zero, as the conversion from
  \<^verbatim>\<open>double\<close> does.
\<close>

section \<open>Timers of an algorithm\<close>

definition isScheduled :: "timer \<Rightarrow> bool res" where
  "isScheduled t = (case t of Timer_null \<Rightarrow> Inl Undefined_behaviour
     | Timer_idle \<Rightarrow> Inr False | Timer_at _ \<Rightarrow> Inr True)"

definition upd_alg :: "('alg \<Rightarrow> 'alg) \<Rightarrow> 'alg TCPConnection \<Rightarrow> 'alg TCPConnection" where
  "upd_alg f c = upd (\<lambda>s. s\<lparr>alg := f (alg s)\<rparr>) c"

definition alg_of :: "'alg TCPConnection \<Rightarrow> 'alg" where
  "alg_of c = alg (state c)"

section \<open>DumbTCP\<close>

record DumbTCP =
  dumb_rexmitTimer :: timer

definition REXMIT_TIMEOUT :: simtime where "REXMIT_TIMEOUT = seconds 2"

definition set_dumb_timer :: "timer \<Rightarrow> DumbTCP TCPConnection \<Rightarrow> DumbTCP TCPConnection" where
  "set_dumb_timer t c = upd_alg (\<lambda>a. a\<lparr>dumb_rexmitTimer := t\<rparr>) c"

definition dumb_schedule :: "DumbTCP TCPConnection \<Rightarrow> DumbTCP TCPConnection res" where
  "dumb_schedule c =
     bind_res (scheduleTimeout (simTime c) REXMIT_TIMEOUT (dumb_rexmitTimer (alg_of c)))
       (\<lambda>t. Inr (set_dumb_timer t c))"

definition dumb_connectionClosed :: "DumbTCP TCPConnection \<Rightarrow> DumbTCP TCPConnection res" where
  "dumb_connectionClosed c =
     bind_res (cancelEvent (dumb_rexmitTimer (alg_of c))) (\<lambda>t. Inr (set_dumb_timer t c))"

definition dumb_dataSent :: "u32 \<Rightarrow> DumbTCP TCPConnection \<Rightarrow> DumbTCP TCPConnection res" where
  "dumb_dataSent fromseq c =
     bind_res (isScheduled (dumb_rexmitTimer (alg_of c))) (\<lambda>b.
     bind_res (if b then cancelEvent (dumb_rexmitTimer (alg_of c))
               else Inr (dumb_rexmitTimer (alg_of c))) (\<lambda>t.
       dumb_schedule (set_dumb_timer t c)))"

definition dumb_notify :: "DumbTCP TCPAlgNotify" where
  "dumb_notify = \<lparr>na_ackSent = Inr, na_dataSent = dumb_dataSent,
     na_segmentRetransmitted = (\<lambda>_ _. Inr), na_restartRexmitTimer = Inr,
     na_connectionClosed = dumb_connectionClosed\<rparr>"

definition dumb_established :: "bool \<Rightarrow> DumbTCP TCPConnection \<Rightarrow> DumbTCP TCPConnection res" where
  "dumb_established act c =
     (if act then
        bind_res (sendData dumb_notify False 65535 c) (\<lambda>(ok, c1).
          if ok then Inr c1 else sendAck dumb_notify c1)
      else Inr c)"

definition dumb_send :: "DumbTCP TCPConnection \<Rightarrow> DumbTCP TCPConnection res" where
  "dumb_send c = bind_res (sendData dumb_notify False 65535 c) (\<lambda>(_, c1). Inr c1)"

definition dumb_processTimer :: "alg_timer \<Rightarrow> DumbTCP TCPConnection
    \<Rightarrow> (TCPEventCode \<times> DumbTCP TCPConnection) res" where
  "dumb_processTimer tm c =
     (if tm \<noteq> REXMIT then Inl (Runtime_error ''unrecognized timer'')
      else
        bind_res (retransmitData dumb_notify (set_dumb_timer Timer_idle c)) (\<lambda>c1.
        bind_res (dumb_schedule c1) (\<lambda>c2. Inr (TCP_E_IGNORE, c2))))"

definition dumbTCP :: "DumbTCP TCPAlgorithm" where
  "dumbTCP = \<lparr>ta_notify = dumb_notify,
     ta_createStateVariables = \<lparr>dumb_rexmitTimer = Timer_null\<rparr>,
     ta_initialize = (\<lambda>c. Inr (set_dumb_timer Timer_idle c)),
     ta_established = dumb_established, ta_processTimer = dumb_processTimer,
     ta_sendCommandInvoked = dumb_send,
     ta_receivedOutOfOrderSegment = sendAck dumb_notify,
     ta_receiveSeqChanged = sendAck dumb_notify,
     ta_receivedDataAck = (\<lambda>_. dumb_send), ta_receivedDuplicateAck = Inr,
     ta_receivedAckForDataNotYetSent = (\<lambda>_. sendAck dumb_notify),
     ta_rttMeasurementCompleteUsingTS = (\<lambda>_. Inr)\<rparr>"

section \<open>TCPBaseAlg: state\<close>

definition DELAYED_ACK_TIMEOUT :: simtime where "DELAYED_ACK_TIMEOUT = 200000000000"
definition MAX_REXMIT_COUNT :: int where "MAX_REXMIT_COUNT = 12"
definition MIN_REXMIT_TIMEOUT :: simtime where "MIN_REXMIT_TIMEOUT = seconds 1"
definition MAX_REXMIT_TIMEOUT :: simtime where "MAX_REXMIT_TIMEOUT = seconds 240"
definition MIN_PERSIST_TIMEOUT :: simtime where "MIN_PERSIST_TIMEOUT = seconds 5"
definition MAX_PERSIST_TIMEOUT :: simtime where "MAX_PERSIST_TIMEOUT = seconds 60"

lemmas alg_constants = DELAYED_ACK_TIMEOUT_def MAX_REXMIT_COUNT_def MIN_REXMIT_TIMEOUT_def
  MAX_REXMIT_TIMEOUT_def MIN_PERSIST_TIMEOUT_def MAX_PERSIST_TIMEOUT_def seconds_def

record BaseAlg =
  rexmitTimer :: timer
  persistTimer :: timer
  delayedAckTimer :: timer
  keepAliveTimer :: timer
  rexmit_count :: int
  rexmit_timeout :: simtime
  persist_factor :: u32
  persist_timeout :: simtime
  snd_cwnd :: u32
  rtseq :: u32
  rtseq_sendtime :: simtime
  srtt :: simtime
  rttvar :: simtime
  numRtos :: u32
  recover :: u32
  firstPartialACK :: bool

definition new_BaseAlg :: BaseAlg where
  "new_BaseAlg = \<lparr>rexmitTimer = Timer_null, persistTimer = Timer_null, delayedAckTimer = Timer_null,
     keepAliveTimer = Timer_null, rexmit_count = 0, rexmit_timeout = seconds 3, persist_factor = 0,
     persist_timeout = seconds 5, snd_cwnd = 0, rtseq = 0, rtseq_sendtime = 0, srtt = 0,
     rttvar = 750000000000, numRtos = 0, recover = 0, firstPartialACK = False\<rparr>"

type_synonym 'z base_conn = "('z BaseAlg_scheme) TCPConnection"

definition base_initialize :: "'z base_conn \<Rightarrow> 'z base_conn res" where
  "base_initialize c = Inr (upd_alg (\<lambda>a. a\<lparr>rexmitTimer := Timer_idle, persistTimer := Timer_idle,
     delayedAckTimer := Timer_idle, keepAliveTimer := Timer_idle\<rparr>) c)"

section \<open>TCPBaseAlg: notifications\<close>

definition startRexmitTimer :: "'z base_conn \<Rightarrow> 'z base_conn res" where
  "startRexmitTimer c =
     bind_res (scheduleTimeout (simTime c) (rexmit_timeout (alg_of c)) (rexmitTimer (alg_of c)))
       (\<lambda>t. Inr (upd_alg (\<lambda>a. a\<lparr>rexmit_count := 0, rexmitTimer := t\<rparr>) c))"

definition base_restartRexmitTimer :: "'z base_conn \<Rightarrow> 'z base_conn res" where
  "base_restartRexmitTimer c =
     bind_res (isScheduled (rexmitTimer (alg_of c))) (\<lambda>b.
     bind_res (if b then cancelEvent (rexmitTimer (alg_of c)) else Inr (rexmitTimer (alg_of c))) (\<lambda>t.
       startRexmitTimer (upd_alg (\<lambda>a. a\<lparr>rexmitTimer := t\<rparr>) c)))"

definition base_ackSent :: "'z base_conn \<Rightarrow> 'z base_conn res" where
  "base_ackSent c =
     (let c1 = upd (\<lambda>s. s\<lparr>full_sized_segment_counter := 0, ack_now := False,
                          last_ack_sent := rcv_nxt s\<rparr>) c
      in bind_res (isScheduled (delayedAckTimer (alg_of c1))) (\<lambda>b.
         if b then
           bind_res (cancelEvent (delayedAckTimer (alg_of c1)))
             (\<lambda>t. Inr (upd_alg (\<lambda>a. a\<lparr>delayedAckTimer := t\<rparr>) c1))
         else Inr c1))"

definition base_dataSent :: "u32 \<Rightarrow> 'z base_conn \<Rightarrow> 'z base_conn res" where
  "base_dataSent fromseq c =
     bind_res (isScheduled (rexmitTimer (alg_of c))) (\<lambda>b.
     bind_res (if \<not> b then startRexmitTimer c else Inr c) (\<lambda>c1.
     let c2 = (if \<not> ts_enabled (state c1) \<and> rtseq_sendtime (alg_of c1) = 0
               then upd_alg (\<lambda>a. a\<lparr>rtseq := fromseq, rtseq_sendtime := simTime c1\<rparr>) c1 else c1)
     in Inr (upd (\<lambda>s. s\<lparr>time_last_data_sent := simTime c2\<rparr>) c2)))"

definition base_connectionClosed :: "'z base_conn \<Rightarrow> 'z base_conn res" where
  "base_connectionClosed c =
     (let a = alg_of c
      in bind_res (cancelEvent (rexmitTimer a)) (\<lambda>t1.
         bind_res (cancelEvent (persistTimer a)) (\<lambda>t2.
         bind_res (cancelEvent (delayedAckTimer a)) (\<lambda>t3.
         bind_res (cancelEvent (keepAliveTimer a)) (\<lambda>t4.
           Inr (upd_alg (\<lambda>a. a\<lparr>rexmitTimer := t1, persistTimer := t2, delayedAckTimer := t3,
                               keepAliveTimer := t4\<rparr>) c))))))"

definition base_notify :: "('z BaseAlg_scheme) TCPAlgNotify" where
  "base_notify = \<lparr>na_ackSent = base_ackSent, na_dataSent = base_dataSent,
     na_segmentRetransmitted = (\<lambda>_ _. Inr), na_restartRexmitTimer = base_restartRexmitTimer,
     na_connectionClosed = base_connectionClosed\<rparr>"

section \<open>TCPBaseAlg: sending and acknowledging\<close>

text \<open>The initial window of RFC 3390.\<close>

definition increased_IW :: "u32 \<Rightarrow> u32" where
  "increased_IW mss = min (4 * mss) (max (2 * mss) 4380)"

definition base_sendData :: "('z BaseAlg_scheme) TCPAlgNotify \<Rightarrow> bool \<Rightarrow> 'z base_conn
    \<Rightarrow> (bool \<times> 'z base_conn) res" where
  "base_sendData na sendCommandInvoked c =
     (let s = state c;
          fullSegmentsOnly = sendCommandInvoked \<and> nagle_enabled s \<and> snd_una s \<noteq> snd_max s
      in bind_res (isSendQueueEmpty c) (\<lambda>empty.
         let c1 = (if \<not> empty \<and> simTime c - time_last_data_sent s > rexmit_timeout (alg_of c)
                   then upd_alg (\<lambda>a. a\<lparr>snd_cwnd :=
                          (if increased_IW_enabled s then min (increased_IW (snd_mss s)) (snd_cwnd a)
                           else snd_mss s)\<rparr>) c
                   else c)
         in sendData na fullSegmentsOnly (snd_cwnd (alg_of c1)) c1))"

definition base_send :: "('z BaseAlg_scheme) TCPAlgNotify \<Rightarrow> bool \<Rightarrow> 'z base_conn \<Rightarrow> 'z base_conn res" where
  "base_send na b c = bind_res (base_sendData na b c) (\<lambda>(_, c1). Inr c1)"

definition base_established :: "('z BaseAlg_scheme) TCPAlgNotify \<Rightarrow> bool \<Rightarrow> 'z base_conn
    \<Rightarrow> 'z base_conn res" where
  "base_established na act c =
     (let s = state c;
          cw = (if increased_IW_enabled s \<and> syn_rexmit_count s = 0 then increased_IW (snd_mss s)
                else snd_mss s);
          c1 = upd_alg (\<lambda>a. a\<lparr>snd_cwnd := cw\<rparr>) c
      in if act then
           bind_res (base_sendData na False c1) (\<lambda>(ok, c2).
             if ok then Inr c2 else sendAck na c2)
         else Inr c1)"

definition base_receivedOutOfOrderSegment :: "('z BaseAlg_scheme) TCPAlgNotify \<Rightarrow> 'z base_conn
    \<Rightarrow> 'z base_conn res" where
  "base_receivedOutOfOrderSegment na c = sendAck na (upd (\<lambda>s. s\<lparr>ack_now := True\<rparr>) c)"

definition base_receiveSeqChanged :: "('z BaseAlg_scheme) TCPAlgNotify \<Rightarrow> 'z base_conn
    \<Rightarrow> 'z base_conn res" where
  "base_receiveSeqChanged na c =
     bind_res (isScheduled (delayedAckTimer (alg_of c))) (\<lambda>running.
     let s = state c
     in if full_sized_segment_counter s = 0 \<and> \<not> ack_now s \<and> last_ack_sent s = rcv_nxt s \<and> \<not> running
        then Inr c
        else
          let c1 = (if lossRecovery s then upd (\<lambda>s. s\<lparr>ack_now := True\<rparr>) c else c)
          in if \<not> delayed_acks_enabled (state c1) then sendAck na c1
             else if ack_now (state c1) then sendAck na c1
             else if full_sized_segment_counter (state c1) \<ge> 2 then sendAck na c1
             else if \<not> running then
               bind_res (scheduleTimeout (simTime c1) DELAYED_ACK_TIMEOUT (delayedAckTimer (alg_of c1)))
                 (\<lambda>t. Inr (upd_alg (\<lambda>a. a\<lparr>delayedAckTimer := t\<rparr>) c1))
             else Inr c1)"

section \<open>TCPBaseAlg: round-trip times\<close>

definition eighth :: "simtime \<Rightarrow> simtime" where
  "eighth t = (if t \<ge> 0 then t div 8 else - ((- t) div 8))"

definition rttMeasurementComplete :: "simtime \<Rightarrow> simtime \<Rightarrow> 'z BaseAlg_scheme \<Rightarrow> 'z BaseAlg_scheme" where
  "rttMeasurementComplete tSent tAcked a =
     (let newRTT = tAcked - tSent;
          err = newRTT - srtt a;
          srtt' = srtt a + eighth err;
          rttvar' = rttvar a + eighth (\<bar>err\<bar> - rttvar a);
          rto = srtt' + 4 * rttvar';
          rto' = (if rto > MAX_REXMIT_TIMEOUT then MAX_REXMIT_TIMEOUT
                  else if rto < MIN_REXMIT_TIMEOUT then MIN_REXMIT_TIMEOUT else rto)
      in a\<lparr>srtt := srtt', rttvar := rttvar', rexmit_timeout := rto'\<rparr>)"

definition base_rttUsingTS :: "u32 \<Rightarrow> 'z base_conn \<Rightarrow> 'z base_conn res" where
  "base_rttUsingTS echoedTS c =
     ASSERT (ts_enabled (state c))
       (let now = convertSimtimeToTS (simTime c)
        in Inr (upd_alg (rttMeasurementComplete (convertTSToSimtime echoedTS) (convertTSToSimtime now)) c))"

section \<open>TCPBaseAlg: acknowledgements received\<close>

definition ack_rtt :: "'z base_conn \<Rightarrow> 'z base_conn" where
  "ack_rtt c =
     (let s = state c; a = alg s
      in if \<not> ts_enabled s \<and> rtseq_sendtime a \<noteq> 0 \<and> seqLess (rtseq a) (snd_una s)
         then upd_alg (\<lambda>a. (rttMeasurementComplete (rtseq_sendtime a) (simTime c) a)\<lparr>rtseq_sendtime := 0\<rparr>) c
         else c)"

definition ack_rexmit_timer :: "'z base_conn \<Rightarrow> 'z base_conn res" where
  "ack_rexmit_timer c =
     (if snd_una (state c) = snd_max (state c) then
        bind_res (isScheduled (rexmitTimer (alg_of c))) (\<lambda>b.
          if b then
            bind_res (cancelEvent (rexmitTimer (alg_of c)))
              (\<lambda>t. Inr (upd_alg (\<lambda>a. a\<lparr>rexmitTimer := t\<rparr>) c))
          else Inr c)
      else
        bind_res (cancelEvent (rexmitTimer (alg_of c))) (\<lambda>t.
          startRexmitTimer (upd_alg (\<lambda>a. a\<lparr>rexmitTimer := t\<rparr>) c)))"

definition cancel_persist :: "'z base_conn \<Rightarrow> 'z base_conn res" where
  "cancel_persist c =
     bind_res (isScheduled (persistTimer (alg_of c))) (\<lambda>b.
       if b then
         bind_res (cancelEvent (persistTimer (alg_of c)))
           (\<lambda>t. Inr (upd_alg (\<lambda>a. a\<lparr>persistTimer := t, persist_factor := 0\<rparr>) c))
       else Inr c)"

definition ack_persist_timer :: "'z base_conn \<Rightarrow> 'z base_conn res" where
  "ack_persist_timer c =
     (if snd_wnd (state c) = 0 then
        bind_res (isScheduled (rexmitTimer (alg_of c))) (\<lambda>running.
          if running then cancel_persist c
          else
            bind_res (isScheduled (persistTimer (alg_of c))) (\<lambda>b.
              if \<not> b then
                bind_res (scheduleTimeout (simTime c) (persist_timeout (alg_of c)) (persistTimer (alg_of c)))
                  (\<lambda>t. Inr (upd_alg (\<lambda>a. a\<lparr>persistTimer := t\<rparr>) c))
              else Inr c))
      else cancel_persist c)"

definition base_receivedDataAck :: "u32 \<Rightarrow> 'z base_conn \<Rightarrow> 'z base_conn res" where
  "base_receivedDataAck firstSeqAcked c =
     bind_res (ack_rexmit_timer (ack_rtt c)) ack_persist_timer"

definition base_receivedDuplicateAck :: "('z BaseAlg_scheme) TCPAlgNotify \<Rightarrow> 'z base_conn
    \<Rightarrow> 'z base_conn res" where
  "base_receivedDuplicateAck na c =
     (let s = state c; fullSegmentsOnly = nagle_enabled s \<and> snd_una s \<noteq> snd_max s
      in if dupacks s < DUPTHRESH \<and> limited_transmit_enabled s
         then sendOneNewSegment na fullSegmentsOnly (snd_cwnd (alg_of c)) c
         else Inr c)"

section \<open>TCPBaseAlg: timers\<close>

text \<open>
  The event is ABORT when the retransmissions are exhausted. At RTO the scoreboard is reset and
  loss recovery ends.
\<close>

definition rto_reset_sack :: "'z base_conn \<Rightarrow> 'z base_conn res" where
  "rto_reset_sack c =
     (if sack_enabled (state c) then
        bind_res (deref (rexmitQueue c)) (\<lambda>q.
        let c1 = c\<lparr>rexmitQueue := Some (resetRexmittedBit (resetSackedBit q))\<rparr>
        in Inr (if lossRecovery (state c1)
                then upd (\<lambda>s. s\<lparr>recoveryPoint := snd_max s, lossRecovery := False\<rparr>) c1 else c1))
      else Inr c)"

definition base_processRexmitTimer :: "'z base_conn \<Rightarrow> (TCPEventCode \<times> 'z base_conn) res" where
  "base_processRexmitTimer c0 =
     (let c = upd_alg (\<lambda>a. a\<lparr>rexmit_count := rexmit_count a + 1\<rparr>) c0
      in if rexmit_count (alg_of c) > MAX_REXMIT_COUNT then
           Inr (TCP_E_ABORT, signalConnectionTimeout c)
         else
           let rto = rexmit_timeout (alg_of c) + rexmit_timeout (alg_of c);
               rto' = (if rto > MAX_REXMIT_TIMEOUT then MAX_REXMIT_TIMEOUT else rto)
           in bind_res (scheduleTimeout (simTime c) rto' (rexmitTimer (alg_of c))) (\<lambda>t.
              bind_res (rto_reset_sack
                (upd_alg (\<lambda>a. a\<lparr>rexmit_timeout := rto', rexmitTimer := t, rtseq_sendtime := 0,
                                numRtos := numRtos a + 1\<rparr>) c)) (\<lambda>c1.
                Inr (TCP_E_IGNORE, upd (\<lambda>s. s\<lparr>time_last_data_sent := simTime c1\<rparr>) c1))))"

definition next_persist :: "'z BaseAlg_scheme \<Rightarrow> 'z BaseAlg_scheme" where
  "next_persist a =
     (let f = (if persist_factor a = 0 then persist_factor a + 1
               else if persist_factor a < 64 then persist_factor a * 2 else persist_factor a);
          pt = uint f * 1500000000000;
          r1 = (if pt < MIN_PERSIST_TIMEOUT then MIN_PERSIST_TIMEOUT else rexmit_timeout a);
          r2 = (if pt > MAX_PERSIST_TIMEOUT then MAX_PERSIST_TIMEOUT else r1)
      in a\<lparr>persist_factor := f, persist_timeout := pt, rexmit_timeout := r2\<rparr>)"

definition base_processPersistTimer :: "('z BaseAlg_scheme) TCPAlgNotify \<Rightarrow> 'z base_conn
    \<Rightarrow> (TCPEventCode \<times> 'z base_conn) res" where
  "base_processPersistTimer na c =
     (let c1 = upd_alg next_persist c
      in bind_res (scheduleTimeout (simTime c1) (persist_timeout (alg_of c1)) (persistTimer (alg_of c1))) (\<lambda>t.
         bind_res (sendProbe na (upd_alg (\<lambda>a. a\<lparr>persistTimer := t\<rparr>) c1)) (\<lambda>(_, c2).
           Inr (TCP_E_IGNORE, c2))))"

definition base_processDelayedAckTimer :: "('z BaseAlg_scheme) TCPAlgNotify \<Rightarrow> 'z base_conn
    \<Rightarrow> (TCPEventCode \<times> 'z base_conn) res" where
  "base_processDelayedAckTimer na c =
     bind_res (sendAck na (upd (\<lambda>s. s\<lparr>ack_now := True\<rparr>) c)) (\<lambda>c1. Inr (TCP_E_IGNORE, c1))"

text \<open>
  \<open>processRexmit\<close> is the virtual \<^verbatim>\<open>processRexmitTimer\<close> of the flavour. The message that
  has arrived is idle.
\<close>

definition base_processTimer :: "('z BaseAlg_scheme) TCPAlgNotify
    \<Rightarrow> ('z base_conn \<Rightarrow> (TCPEventCode \<times> 'z base_conn) res) \<Rightarrow> alg_timer \<Rightarrow> 'z base_conn
    \<Rightarrow> (TCPEventCode \<times> 'z base_conn) res" where
  "base_processTimer na processRexmit tm c =
     (case tm of
        REXMIT \<Rightarrow> processRexmit (upd_alg (\<lambda>a. a\<lparr>rexmitTimer := Timer_idle\<rparr>) c)
      | PERSIST \<Rightarrow> base_processPersistTimer na (upd_alg (\<lambda>a. a\<lparr>persistTimer := Timer_idle\<rparr>) c)
      | DELAYEDACK \<Rightarrow>
          base_processDelayedAckTimer na (upd_alg (\<lambda>a. a\<lparr>delayedAckTimer := Timer_idle\<rparr>) c)
      | KEEPALIVE \<Rightarrow> Inr (TCP_E_IGNORE, upd_alg (\<lambda>a. a\<lparr>keepAliveTimer := Timer_idle\<rparr>) c))"

section \<open>The algorithms as providers\<close>

text \<open>
  Once \<open>initialize\<close> has allocated them, the timers of an algorithm exist for as long as it does.
\<close>

definition dumb_timers_ok :: "DumbTCP \<Rightarrow> bool" where
  "dumb_timers_ok a \<longleftrightarrow> dumb_rexmitTimer a \<noteq> Timer_null"

definition base_timers_ok :: "'z BaseAlg_scheme \<Rightarrow> bool" where
  "base_timers_ok a \<longleftrightarrow> rexmitTimer a \<noteq> Timer_null \<and> persistTimer a \<noteq> Timer_null
     \<and> delayedAckTimer a \<noteq> Timer_null \<and> keepAliveTimer a \<noteq> Timer_null"

lemma upd_alg_simps [simp]:
  "alg (state (upd_alg f c)) = f (alg (state c))" "fsm (upd_alg f c) = fsm c"
  "sent (upd_alg f c) = sent c" "tcpAlgorithm (upd_alg f c) = tcpAlgorithm c"
  "the2MSLTimer (upd_alg f c) = the2MSLTimer c" "connEstabTimer (upd_alg f c) = connEstabTimer c"
  "finWait2Timer (upd_alg f c) = finWait2Timer c" "synRexmitTimer (upd_alg f c) = synRexmitTimer c"
  "simTime (upd_alg f c) = simTime c"
  by (simp_all add: upd_alg_def)

lemma isScheduled_ok: "t \<noteq> Timer_null \<Longrightarrow> isScheduled t = Inr (pending t)"
  by (cases t) (simp_all add: isScheduled_def pending_def)

interpretation dumb_closing: closing_algorithm dumb_notify dumb_timers_ok
  by unfold_locales
    (simp add: dumb_notify_def dumb_connectionClosed_def dumb_timers_ok_def alg_of_def set_dumb_timer_def)

interpretation base_closing: closing_algorithm base_notify base_timers_ok
  by unfold_locales
    (simp add: base_notify_def base_connectionClosed_def base_timers_ok_def alg_of_def Let_def)

end
