(* ===== verification/TCP_Flavours.thy ===== *)
theory TCP_Flavours
  imports TCP_Base_Alg
begin

text \<open>
  Congestion control: \<^verbatim>\<open>flavours/TCPNoCongestionControl.cc\<close>,
  \<^verbatim>\<open>TCPTahoe.cc\<close>, \<^verbatim>\<open>TCPReno.cc\<close> and
  \<^verbatim>\<open>TCPNewReno.cc\<close>, each a table of methods over the common part. The family of Tahoe
  and Reno adds the slow start threshold to the state.
\<close>

section \<open>No congestion control\<close>

definition nocc_initialize :: "unit base_conn \<Rightarrow> unit base_conn res" where
  "nocc_initialize c =
     bind_res (base_initialize c) (\<lambda>c1. Inr (upd_alg (\<lambda>a. a\<lparr>snd_cwnd := 0x7fffffff\<rparr>) c1))"

definition nocc_processRexmitTimer :: "unit base_conn \<Rightarrow> (TCPEventCode \<times> unit base_conn) res" where
  "nocc_processRexmitTimer c =
     bind_res (base_processRexmitTimer c) (\<lambda>(event, c1).
       if event = TCP_E_ABORT then Inr (event, c1)
       else bind_res (retransmitOneSegment base_notify True c1) (\<lambda>c2. Inr (event, c2)))"

definition nocc_receivedDataAck :: "u32 \<Rightarrow> unit base_conn \<Rightarrow> unit base_conn res" where
  "nocc_receivedDataAck firstSeqAcked c =
     bind_res (base_receivedDataAck firstSeqAcked c) (base_send base_notify False)"

definition TCPNoCongestionControl :: "BaseAlg TCPAlgorithm" where
  "TCPNoCongestionControl = \<lparr>ta_notify = base_notify, ta_createStateVariables = new_BaseAlg,
     ta_initialize = nocc_initialize, ta_established = base_established base_notify,
     ta_processTimer = base_processTimer base_notify nocc_processRexmitTimer,
     ta_sendCommandInvoked = base_send base_notify True,
     ta_receivedOutOfOrderSegment = base_receivedOutOfOrderSegment base_notify,
     ta_receiveSeqChanged = base_receiveSeqChanged base_notify,
     ta_receivedDataAck = nocc_receivedDataAck,
     ta_receivedDuplicateAck = base_receivedDuplicateAck base_notify,
     ta_receivedAckForDataNotYetSent = (\<lambda>_. sendAck base_notify),
     ta_rttMeasurementCompleteUsingTS = base_rttUsingTS\<rparr>"

section \<open>The family of Tahoe and Reno\<close>

record TahoeReno = BaseAlg +
  ssthresh :: u32

definition new_TahoeReno :: TahoeReno where
  "new_TahoeReno = BaseAlg.extend new_BaseAlg \<lparr>ssthresh = 65535\<rparr>"

type_synonym family_conn = "TahoeReno TCPConnection"

text \<open>\<open>recalculateSlowStartThreshold\<close>, the same in Tahoe, Reno and NewReno.\<close>

definition recalculateSlowStartThreshold :: "family_conn \<Rightarrow> family_conn" where
  "recalculateSlowStartThreshold c =
     upd_alg (\<lambda>a. a\<lparr>ssthresh := max (min (snd_cwnd a) (snd_wnd (state c)) div 2) (2 * snd_mss (state c))\<rparr>) c"

text \<open>
  Slow start and congestion avoidance, per acknowledgement of new data. The division by a zero
  window has no defined behaviour.
\<close>

definition grow_cwnd :: "family_conn \<Rightarrow> family_conn res" where
  "grow_cwnd c =
     (let mss = snd_mss (state c); cw = snd_cwnd (alg_of c); incr = mss * mss div cw
      in if cw < ssthresh (alg_of c) then Inr (upd_alg (\<lambda>a. a\<lparr>snd_cwnd := cw + mss\<rparr>) c)
         else if cw = 0 then Inl Undefined_behaviour
         else Inr (upd_alg (\<lambda>a. a\<lparr>snd_cwnd := cw + (if incr = 0 then 1 else incr)\<rparr>) c))"

definition set_cwnd :: "u32 \<Rightarrow> family_conn \<Rightarrow> family_conn" where
  "set_cwnd w c = upd_alg (\<lambda>a. a\<lparr>snd_cwnd := w\<rparr>) c"

text \<open>Slow start after a timeout, and the retransmission of one segment.\<close>

definition rto_slow_start :: "family_conn \<Rightarrow> family_conn res" where
  "rto_slow_start c =
     (let c1 = recalculateSlowStartThreshold c;
          c2 = set_cwnd (snd_mss (state c1)) c1
      in retransmitOneSegment base_notify True (upd (\<lambda>s. s\<lparr>afterRto := True\<rparr>) c2))"

section \<open>Tahoe\<close>

definition tahoe_processRexmitTimer :: "family_conn \<Rightarrow> (TCPEventCode \<times> family_conn) res" where
  "tahoe_processRexmitTimer c =
     bind_res (base_processRexmitTimer c) (\<lambda>(event, c1).
       if event = TCP_E_ABORT then Inr (event, c1)
       else bind_res (rto_slow_start c1) (\<lambda>c2. Inr (event, c2)))"

definition tahoe_receivedDataAck :: "u32 \<Rightarrow> family_conn \<Rightarrow> family_conn res" where
  "tahoe_receivedDataAck firstSeqAcked c =
     bind_res (base_receivedDataAck firstSeqAcked c) (\<lambda>c1.
     bind_res (grow_cwnd c1) (base_send base_notify False))"

definition tahoe_receivedDuplicateAck :: "family_conn \<Rightarrow> family_conn res" where
  "tahoe_receivedDuplicateAck c =
     bind_res (base_receivedDuplicateAck base_notify c) (\<lambda>c1.
       if dupacks (state c1) = DUPTHRESH then
         let c2 = recalculateSlowStartThreshold c1
         in retransmitOneSegment base_notify False (set_cwnd (snd_mss (state c2)) c2)
       else Inr c1)"

definition TCPTahoe :: "TahoeReno TCPAlgorithm" where
  "TCPTahoe = \<lparr>ta_notify = base_notify, ta_createStateVariables = new_TahoeReno,
     ta_initialize = base_initialize, ta_established = base_established base_notify,
     ta_processTimer = base_processTimer base_notify tahoe_processRexmitTimer,
     ta_sendCommandInvoked = base_send base_notify True,
     ta_receivedOutOfOrderSegment = base_receivedOutOfOrderSegment base_notify,
     ta_receiveSeqChanged = base_receiveSeqChanged base_notify,
     ta_receivedDataAck = tahoe_receivedDataAck,
     ta_receivedDuplicateAck = tahoe_receivedDuplicateAck,
     ta_receivedAckForDataNotYetSent = (\<lambda>_. sendAck base_notify),
     ta_rttMeasurementCompleteUsingTS = base_rttUsingTS\<rparr>"

section \<open>Reno\<close>

definition reno_processRexmitTimer :: "family_conn \<Rightarrow> (TCPEventCode \<times> family_conn) res" where
  "reno_processRexmitTimer c =
     bind_res (base_processRexmitTimer c) (\<lambda>(event, c1).
       if event = TCP_E_ABORT then Inr (event, c1)
       else bind_res (rto_slow_start c1) (\<lambda>c2. Inr (event, c2)))"

text \<open>\<^verbatim>\<open>if cwnd - pipe >= 1 SMSS\<close>, and steps (C.1) to (C.5) of RFC 3517.\<close>

definition recover_with_cwnd :: "family_conn \<Rightarrow> family_conn res" where
  "recover_with_cwnd c =
     (if sint (snd_cwnd (alg_of c)) - sint (pipe (state c)) \<ge> sint (snd_mss (state c))
      then sendDataDuringLossRecoveryPhase base_notify (snd_cwnd (alg_of c)) c
      else Inr c)"

definition reno_ack_recovery :: "family_conn \<Rightarrow> family_conn res" where
  "reno_ack_recovery c =
     (if sack_enabled (state c) \<and> lossRecovery (state c) then
        (if seqGE (snd_una (state c)) (recoveryPoint (state c))
         then Inr (upd (\<lambda>s. s\<lparr>lossRecovery := False\<rparr>) c)
         else bind_res (setPipe c) recover_with_cwnd)
      else Inr c)"

definition reno_receivedDataAck :: "u32 \<Rightarrow> family_conn \<Rightarrow> family_conn res" where
  "reno_receivedDataAck firstSeqAcked c =
     bind_res (base_receivedDataAck firstSeqAcked c) (\<lambda>c1.
     bind_res (if dupacks (state c1) \<ge> DUPTHRESH then Inr (set_cwnd (ssthresh (alg_of c1)) c1)
               else grow_cwnd c1) (\<lambda>c2.
     bind_res (reno_ack_recovery c2) (base_send base_notify False)))"

text \<open>The third duplicate acknowledgement: fast retransmit and fast recovery.\<close>

definition reno_fast_retransmit :: "family_conn \<Rightarrow> family_conn res" where
  "reno_fast_retransmit c =
     (let c1 = (if sack_enabled (state c)
                   \<and> (recoveryPoint (state c) = 0 \<or> seqGE (snd_una (state c)) (recoveryPoint (state c)))
                then upd (\<lambda>s. s\<lparr>recoveryPoint := snd_max s, lossRecovery := True\<rparr>) c else c);
          c2 = recalculateSlowStartThreshold c1;
          c3 = set_cwnd (ssthresh (alg_of c2) + 3 * snd_mss (state c2)) c2
      in bind_res (retransmitOneSegment base_notify False c3) (\<lambda>c4.
         bind_res (if sack_enabled (state c4) then
                     bind_res (setPipe c4) (\<lambda>c5.
                       if lossRecovery (state c5) then
                         bind_res (base_restartRexmitTimer c5) recover_with_cwnd
                       else Inr c5)
                   else Inr c4) (base_send base_notify False)))"

definition reno_receivedDuplicateAck :: "family_conn \<Rightarrow> family_conn res" where
  "reno_receivedDuplicateAck c =
     bind_res (base_receivedDuplicateAck base_notify c) (\<lambda>c1.
       if dupacks (state c1) = DUPTHRESH then reno_fast_retransmit c1
       else if dupacks (state c1) > DUPTHRESH then
         base_send base_notify False (set_cwnd (snd_cwnd (alg_of c1) + snd_mss (state c1)) c1)
       else Inr c1)"

definition TCPReno :: "TahoeReno TCPAlgorithm" where
  "TCPReno = TCPTahoe\<lparr>ta_processTimer := base_processTimer base_notify reno_processRexmitTimer,
     ta_receivedDataAck := reno_receivedDataAck,
     ta_receivedDuplicateAck := reno_receivedDuplicateAck\<rparr>"

section \<open>NewReno\<close>

definition newreno_processRexmitTimer :: "family_conn \<Rightarrow> (TCPEventCode \<times> family_conn) res" where
  "newreno_processRexmitTimer c =
     bind_res (base_processRexmitTimer c) (\<lambda>(event, c1).
       if event = TCP_E_ABORT then Inr (event, c1)
       else
         bind_res (rto_slow_start
           (upd (\<lambda>s. s\<lparr>lossRecovery := False\<rparr>)
             (upd_alg (\<lambda>a. a\<lparr>recover := snd_max (state c1) - 1, firstPartialACK := False\<rparr>) c1)))
           (\<lambda>c2. Inr (event, c2)))"

definition newreno_full_ack :: "family_conn \<Rightarrow> family_conn" where
  "newreno_full_ack c =
     (let s = state c; flight_size = snd_max s - snd_una s
      in upd (\<lambda>s. s\<lparr>lossRecovery := False\<rparr>)
           (upd_alg (\<lambda>a. a\<lparr>snd_cwnd := min (ssthresh a) (flight_size + snd_mss s),
                           firstPartialACK := False\<rparr>) c))"

definition newreno_partial_ack :: "u32 \<Rightarrow> family_conn \<Rightarrow> family_conn res" where
  "newreno_partial_ack firstSeqAcked c =
     bind_res (retransmitOneSegment base_notify False c) (\<lambda>c1.
     let acked = snd_una (state c1) - firstSeqAcked;
         c2 = upd_alg (\<lambda>a. a\<lparr>snd_cwnd := snd_cwnd a - acked
                + (if acked \<ge> snd_mss (state c1) then snd_mss (state c1) else 0)\<rparr>) c1
     in bind_res (base_send base_notify False c2) (\<lambda>c3.
        if lossRecovery (state c3) \<and> \<not> firstPartialACK (alg_of c3) then
          base_restartRexmitTimer (upd_alg (\<lambda>a. a\<lparr>firstPartialACK := True\<rparr>) c3)
        else Inr c3))"

definition newreno_receivedDataAck :: "u32 \<Rightarrow> family_conn \<Rightarrow> family_conn res" where
  "newreno_receivedDataAck firstSeqAcked c =
     bind_res (base_receivedDataAck firstSeqAcked c) (\<lambda>c1.
     bind_res
       (if lossRecovery (state c1) then
          (if seqGE (snd_una (state c1) - 1) (recover (alg_of c1)) then Inr (newreno_full_ack c1)
           else newreno_partial_ack firstSeqAcked c1)
        else
          bind_res (grow_cwnd c1) (\<lambda>c2.
            Inr (upd_alg (\<lambda>a. a\<lparr>recover := snd_una (state c1) - 2\<rparr>) c2)))
       (base_send base_notify False))"

definition newreno_fast_retransmit :: "family_conn \<Rightarrow> family_conn res" where
  "newreno_fast_retransmit c =
     (let c1 = recalculateSlowStartThreshold c;
          c2 = upd (\<lambda>s. s\<lparr>lossRecovery := True\<rparr>)
                 (upd_alg (\<lambda>a. a\<lparr>recover := snd_max (state c1) - 1, firstPartialACK := False\<rparr>) c1);
          c3 = set_cwnd (ssthresh (alg_of c2) + 3 * snd_mss (state c2)) c2
      in bind_res (retransmitOneSegment base_notify False c3) (base_send base_notify False))"

text \<open>The comparison with \<open>recover\<close> is that of integers, not of sequence numbers.\<close>

definition newreno_receivedDuplicateAck :: "family_conn \<Rightarrow> family_conn res" where
  "newreno_receivedDuplicateAck c =
     bind_res (base_receivedDuplicateAck base_notify c) (\<lambda>c1.
       if dupacks (state c1) = DUPTHRESH then
         (if \<not> lossRecovery (state c1) \<and> snd_una (state c1) - 1 > recover (alg_of c1)
          then newreno_fast_retransmit c1 else Inr c1)
       else if dupacks (state c1) > DUPTHRESH \<and> lossRecovery (state c1) then
         base_send base_notify False (set_cwnd (snd_cwnd (alg_of c1) + snd_mss (state c1)) c1)
       else Inr c1)"

definition TCPNewReno :: "TahoeReno TCPAlgorithm" where
  "TCPNewReno = TCPTahoe\<lparr>ta_processTimer := base_processTimer base_notify newreno_processRexmitTimer,
     ta_receivedDataAck := newreno_receivedDataAck,
     ta_receivedDuplicateAck := newreno_receivedDuplicateAck\<rparr>"

end
