(* ===== verification/TCP_Transmit_List.thy ===== *)
theory TCP_Transmit_List
  imports TCP_Seq
begin

text \<open>
  The record of transmitted ranges that Vegas and Westwood keep
  (\<^verbatim>\<open>flavours/TCPSegmentTransmitInfoList.cc\<close>): for every range of sequence numbers, the
  time of its first and last transmission and their number.
\<close>

record Item =
  ti_beg :: u32
  ti_end :: u32
  firstSentTime :: int
  lastSentTime :: int
  transmitCount :: int

definition new_Item :: "u32 \<Rightarrow> u32 \<Rightarrow> int \<Rightarrow> int \<Rightarrow> int \<Rightarrow> Item" where
  "new_Item b e f l n =
     \<lparr>ti_beg = b, ti_end = e, firstSentTime = f, lastSentTime = l, transmitCount = n\<rparr>"

definition touch_item :: "int \<Rightarrow> Item \<Rightarrow> Item" where
  "touch_item t i =
     i\<lparr>firstSentTime := (if firstSentTime i > t then t else firstSentTime i),
       lastSentTime := (if lastSentTime i < t then t else lastSentTime i),
       transmitCount := transmitCount i + 1\<rparr>"

text \<open>The loop over the items that lie within the range, and the last, partial one.\<close>

fun cover_items :: "u32 \<Rightarrow> int \<Rightarrow> u32 \<Rightarrow> Item list \<Rightarrow> Item list res" where
  "cover_items en t b [] = Inr (if b \<noteq> en then [new_Item b en t t 1] else [])"
| "cover_items en t b (i # rest) =
     (if seqLE (ti_end i) en then
        ASSERT (b = ti_beg i)
          (bind_res (cover_items en t (ti_end i) rest) (\<lambda>r. Inr (touch_item t i # r)))
      else if b \<noteq> en then
        ASSERT (b = ti_beg i)
          (Inr (new_Item b en (min (firstSentTime i) t) (max (lastSentTime i) t) (transmitCount i + 1)
                # i\<lparr>ti_beg := en\<rparr> # rest))
      else Inr (i # rest))"

text \<open>
  Seeking the item that contains the first number (running off the end of the list is undefined),
  splitting it, and covering the range.
\<close>

fun set_items :: "u32 \<Rightarrow> u32 \<Rightarrow> int \<Rightarrow> Item list \<Rightarrow> Item list res" where
  "set_items b en t [] = Inl Undefined_behaviour"
| "set_items b en t (i # rest) =
     (if seqLE (ti_end i) b then bind_res (set_items b en t rest) (\<lambda>r. Inr (i # r))
      else
        ASSERT (seqLE (ti_beg i) b)
          (if b \<noteq> ti_beg i then
             bind_res (cover_items en t b (i\<lparr>ti_beg := b\<rparr> # rest)) (\<lambda>r. Inr (i\<lparr>ti_end := b\<rparr> # r))
           else cover_items en t b (i # rest)))"

definition til_set :: "u32 \<Rightarrow> u32 \<Rightarrow> int \<Rightarrow> Item list \<Rightarrow> Item list res" where
  "til_set b en t rs =
     ASSERT (seqLess b en)
       (ASSERT (rs = [] \<or> (seqLE (ti_beg (hd rs)) b \<and> seqLE b (ti_end (last rs))))
         (if rs = [] \<or> ti_end (last rs) = b then Inr (rs @ [new_Item b en t t 1])
          else if en = ti_beg (hd rs) then Inr (new_Item b en t t 1 # rs)
          else set_items b en t rs))"

fun til_get :: "u32 \<Rightarrow> Item list \<Rightarrow> Item option" where
  "til_get sq [] = None"
| "til_get sq (i # rest) =
     (if seqLess sq (ti_beg i) then None
      else if seqLE (ti_beg i) sq \<and> seqLess sq (ti_end i) then Some i
      else til_get sq rest)"

definition til_clearTo :: "u32 \<Rightarrow> Item list \<Rightarrow> Item list" where
  "til_clearTo endseq rs =
     (case dropWhile (\<lambda>i. seqLE (ti_end i) endseq) rs of
        [] \<Rightarrow> []
      | i # rest \<Rightarrow> (if seqLess (ti_beg i) endseq then i\<lparr>ti_beg := endseq\<rparr> else i) # rest)"

end
