(* ===== verification/TCP_Windows.thy ===== *)
theory TCP_Windows
  imports TCP_Conn_Options
begin

text \<open>
  What the window functions of \<open>TCP_Conn_Options\<close> guarantee: the scaling of the window, the
  advertised right edge, which never moves back, and the acceptability test, whose segments
  truncation cuts to the window.
\<close>

section \<open>Window scaling\<close>

lemma unat_drop_bit_u32: "unat (drop_bit k (w::u32)) = unat w div 2 ^ k"
  by (subst unsigned_drop_bit_eq) (simp add: drop_bit_eq_div take_bit_eq_mod less_imp_le_nat)

lemma ucast_u16_u32:
  assumes "unat (x::u32) \<le> 65535"
  shows "unat (ucast x :: u16) = unat x" and "ucast (ucast x :: u16) = x"
proof -
  show u: "unat (ucast x :: u16) = unat x"
    using assms by (subst unsigned_ucast_eq) (simp add: take_bit_eq_mod)
  have "unat (ucast (ucast x :: u16) :: u32) = unat x"
    using assms by (subst unsigned_ucast_eq) (simp add: u take_bit_eq_mod)
  then show "ucast (ucast x :: u16) = x" by (simp add: word_unat_eq_iff)
qed

lemma scale_window_steps:
  assumes "scale_window w sc = (w', sc')" "unat sc \<le> 14"
  shows "\<exists>k. unat sc' = unat sc + k \<and> unat sc' \<le> 14 \<and> w' = drop_bit k w
    \<and> (unat w' \<le> 65535 \<or> unat sc' = 14) \<and> (0 < k \<longrightarrow> 65535 < unat (drop_bit (k - 1) w))"
  using assms
proof (induction w sc arbitrary: w' sc' rule: scale_window.induct)
  case (1 w sc)
  show ?case
  proof (cases "w > TCP_MAX_WIN \<and> sc < 14")
    case True
    then have u: "unat (sc + 1) = unat sc + 1" "unat (sc + 1) \<le> 14"
      by (auto simp: word_less_nat_alt unat_add_u32)
    have "scale_window (drop_bit 1 w) (sc + 1) = (w', sc')"
      using 1(2) True by (subst (asm) scale_window.simps) simp
    from "1.IH"[OF True this u(2)] obtain k where k: "unat sc' = unat (sc + 1) + k" "unat sc' \<le> 14"
      "w' = drop_bit k (drop_bit 1 w)" "unat w' \<le> 65535 \<or> unat sc' = 14"
      "0 < k \<longrightarrow> 65535 < unat (drop_bit (k - 1) (drop_bit 1 w))" by blast
    have "65535 < unat (drop_bit k w)"
    proof (cases k)
      case 0
      then show ?thesis using True by (simp add: word_less_nat_alt TCP_MAX_WIN_def)
    next
      case (Suc j)
      then show ?thesis using k(5) by simp
    qed
    then show ?thesis using k u by (intro exI[of _ "Suc k"]) simp
  next
    case False
    then have "w' = w" "sc' = sc" using 1(2) by (subst (asm) scale_window.simps; simp)+
    then show ?thesis using False 1(3)
      by (intro exI[of _ 0]) (auto simp: word_less_nat_alt TCP_MAX_WIN_def not_less)
  qed
qed

text \<open>
  The loop finds the smallest shift, at most 14, for which the shifted window fits the 16 bits
  of the header.
\<close>

theorem scale_window_least:
  assumes "unat w < 2 ^ 30"
  shows "\<exists>k. scale_window w 0 = (drop_bit k w, of_nat k) \<and> k \<le> 14
    \<and> unat (drop_bit k w) \<le> 65535 \<and> (\<forall>j<k. 65535 < unat (drop_bit j w))"
proof -
  obtain w' sc' where r: "scale_window w 0 = (w', sc')" by (cases "scale_window w 0")
  obtain k where k: "unat sc' = k" "k \<le> 14" "w' = drop_bit k w"
    "unat w' \<le> 65535 \<or> k = 14" "0 < k \<longrightarrow> 65535 < unat (drop_bit (k - 1) w)"
    using scale_window_steps[OF r] by auto
  have "unat (drop_bit 14 w) \<le> 65535" using assms by (simp add: unat_drop_bit_u32 div_le_dividend)
  then have "unat w' \<le> 65535" using k by auto
  moreover have "65535 < unat (drop_bit j w)" if "j < k" for j
  proof -
    have "unat w div 2 ^ (k - 1) \<le> unat w div 2 ^ j" using that by (intro div_le_mono2) auto
    then show ?thesis using k(5) that by (simp add: unat_drop_bit_u32)
  qed
  moreover have "sc' = of_nat k" using k(1) by (auto simp: word_unat_eq_iff unat_of_nat_u32)
  ultimately show ?thesis using r k by (intro exI[of _ k]) auto
qed

theorem scale_window_least_witness:
  "\<exists>k. scale_window 200000 0 = (drop_bit k 200000, of_nat k)
     \<and> (\<forall>j<k. 65535 < unat (drop_bit j (200000::u32)))"
proof -
  have "unat (200000::u32) < 2 ^ 30" by simp
  from scale_window_least[OF this] show ?thesis by blast
qed

section \<open>The advertised window\<close>

text \<open>
  What has been advertised, and the buffer, are below the largest window of RFC 1323, and
  below the 16 bits of the header without window scaling.
\<close>

definition rcv_window_ok :: "'alg TCPStateVariables \<Rightarrow> bool" where
  "rcv_window_ok s \<longleftrightarrow> off (rcv_nxt s) (rcv_adv s) < 2 ^ 30 \<and> unat (maxRcvBuffer s) < 2 ^ 30
     \<and> (\<not> ws_enabled s \<longrightarrow> off (rcv_nxt s) (rcv_adv s) \<le> 65535)"

lemma vrq_free_bytes_bound: "vrq_getAmountOfFreeBytes q n \<le> n"
  by (auto simp: vrq_getAmountOfFreeBytes_def Let_def intro: word_sub_le)

lemma free_bytes_bound: "rcvq_getAmountOfFreeBytes rq n \<le> n"
  by (simp add: rcvq_getAmountOfFreeBytes_def vrq_free_bytes_bound split: TCPReceiveQueue.splits)

text \<open>The window before it is scaled: not less than what was advertised, not more than that or
  the free space.\<close>

definition window_of :: "u32 \<Rightarrow> 'alg TCPStateVariables \<Rightarrow> u32" where
  "window_of win0 s =
     (let win1 = (if win0 < maxRcvBuffer s div 4 \<and> win0 < snd_mss s then 0 else win0);
          win2 = (if win1 < rcv_adv s - rcv_nxt s then rcv_adv s - rcv_nxt s else win1)
      in if win2 > TCP_MAX_WIN \<and> \<not> ws_enabled s then TCP_MAX_WIN else win2)"

lemma window_of_bounds:
  assumes "rcv_window_ok s" "win0 \<le> maxRcvBuffer s"
  shows "off (rcv_nxt s) (rcv_adv s) \<le> unat (window_of win0 s)" "unat (window_of win0 s) < 2 ^ 30"
    and "\<not> ws_enabled s \<Longrightarrow> unat (window_of win0 s) \<le> 65535"
    and "unat (window_of win0 s) \<le> max (off (rcv_nxt s) (rcv_adv s)) (unat win0)"
  using assms
  by (auto simp: window_of_def Let_def rcv_window_ok_def off_def word_less_nat_alt word_le_nat_alt
      TCP_MAX_WIN_def)

lemma updateRcvWnd_eq:
  assumes "receiveQueue c = Some rq" "free = rcvq_getAmountOfFreeBytes rq (maxRcvBuffer (state c))"
    and "s0 = (state c)\<lparr>freeRcvBuffer := free, usedRcvBuffer := maxRcvBuffer (state c) - free\<rparr>"
    and "win = window_of free s0"
    and "adv = (if win > 0 \<and> seqGE (rcv_nxt (state c) + win) (rcv_adv (state c))
                then rcv_nxt (state c) + win else rcv_adv (state c))"
    and "(if ws_enabled (state c) then scale_window win 0 else (win, 0)) = (scaled, sc)"
  shows "updateRcvWnd c = ASSERT (scaled = ucast (ucast scaled :: u16))
    (Inr (ucast scaled, c\<lparr>state := s0\<lparr>rcv_adv := adv, rcv_wnd := win, rcv_wnd_scale := sc\<rparr>\<rparr>))"
proof -
  have q: "updateRcvQueueVars c = Inr (c\<lparr>state := s0\<rparr>)"
    by (simp add: updateRcvQueueVars_def assms(1-3) upd_def Let_def)
  have w: "(let win0 = freeRcvBuffer s0;
          win1 = (if win0 < maxRcvBuffer s0 div 4 \<and> win0 < snd_mss s0 then 0 else win0);
          win2 = (if win1 < rcv_adv s0 - rcv_nxt s0 then rcv_adv s0 - rcv_nxt s0 else win1)
      in if win2 > TCP_MAX_WIN \<and> \<not> ws_enabled s0 then TCP_MAX_WIN else win2) = win"
    by (simp add: assms(3,4) window_of_def)
  have s1: "(if win > 0 \<and> seqGE (rcv_nxt s0 + win) (rcv_adv s0)
                 then s0\<lparr>rcv_adv := rcv_nxt s0 + win\<rparr> else s0) = s0\<lparr>rcv_adv := adv\<rparr>"
    by (simp add: assms(3,5))
  have ws: "ws_enabled s0 = ws_enabled (state c)" by (simp add: assms(3))
  have r: "state (c\<lparr>state := s0\<rparr>) = s0" "\<And>y. c\<lparr>state := s0\<rparr>\<lparr>state := y\<rparr> = c\<lparr>state := y\<rparr>"
    "\<And>a. ws_enabled (s0\<lparr>rcv_adv := a\<rparr>) = ws_enabled s0" by simp_all
  show ?thesis
    unfolding updateRcvWnd_def q bind_res_Inr Let_def r
    unfolding w [unfolded Let_def]
    unfolding s1 r ws assms(6) case_prod_conv
    by (rule refl)
qed

text \<open>
  The update succeeds, changes nothing but the five variables of the receive window, and moves the
  right edge only forward.
\<close>

lemma updateRcvWnd_ok:
  assumes "receiveQueue c = Some rq" "rcv_window_ok (state c)"
  shows "\<exists>w a b e f c'. updateRcvWnd c = Inr (w, c')
    \<and> c' = c\<lparr>state := (state c)\<lparr>freeRcvBuffer := a, usedRcvBuffer := b, rcv_adv := rcv_nxt (state c) + e,
          rcv_wnd := e, rcv_wnd_scale := f\<rparr>\<rparr>
    \<and> rcv_window_ok (state c') \<and> seqLE (rcv_adv (state c)) (rcv_nxt (state c) + e)
    \<and> unat e \<le> max (off (rcv_nxt (state c)) (rcv_adv (state c)))
        (unat (rcvq_getAmountOfFreeBytes rq (maxRcvBuffer (state c))))
    \<and> unat w = unat e div 2 ^ unat f"
proof -
  define s where "s = state c"
  define free where "free = rcvq_getAmountOfFreeBytes rq (maxRcvBuffer s)"
  define s0 where "s0 = s\<lparr>freeRcvBuffer := free, usedRcvBuffer := maxRcvBuffer s - free\<rparr>"
  define win where "win = window_of free s0"
  have ok: "rcv_window_ok s0" using assms(2) by (simp add: s0_def s_def rcv_window_ok_def)
  have flds: "rcv_nxt s0 = rcv_nxt s" "rcv_adv s0 = rcv_adv s" "maxRcvBuffer s0 = maxRcvBuffer s"
    "ws_enabled s0 = ws_enabled s" "snd_mss s0 = snd_mss s" by (simp_all add: s0_def)
  have "free \<le> maxRcvBuffer s0" by (simp add: free_def flds free_bytes_bound)
  note b = window_of_bounds[OF ok this, folded win_def, unfolded flds]
  have o: "off (rcv_nxt s) (rcv_nxt s + win) = unat win" by (simp add: off_def)
  have h: "in_half (rcv_nxt s) (rcv_nxt s + win)" "in_half (rcv_nxt s) (rcv_adv s)"
    using b(1,2) o by (auto simp: in_half_def)
  have ge: "seqGE (rcv_nxt s + win) (rcv_adv s)" using b(1) o h by (simp add: seqGE_iff[of "rcv_nxt s"])
  have adv: "(if win > 0 \<and> seqGE (rcv_nxt s + win) (rcv_adv s) then rcv_nxt s + win else rcv_adv s)
      = rcv_nxt s + win"
  proof (cases "win > 0")
    case False
    then have "unat win = 0" by (simp add: word_less_nat_alt)
    moreover from this have "rcv_adv s = rcv_nxt s" using b(1) by simp
    ultimately show ?thesis using False by (simp add: unat_eq_0)
  qed (use ge in simp)
  obtain k where k: "scale_window win 0 = (drop_bit k win, of_nat k)" "k \<le> 14"
    "unat (drop_bit k win) \<le> 65535"
  proof -
    obtain w' sc' where r: "scale_window win 0 = (w', sc')" by (cases "scale_window win 0")
    obtain k where k: "unat sc' = k" "k \<le> 14" "w' = drop_bit k win" "unat w' \<le> 65535 \<or> k = 14"
      using scale_window_steps[OF r] by auto
    have "unat (drop_bit 14 win) \<le> 65535" using b(2) by (simp add: unat_drop_bit_u32 div_le_dividend)
    then have "unat w' \<le> 65535" using k(4,3) by auto
    moreover have "sc' = of_nat k" using k(1) by (auto simp: word_unat_eq_iff unat_of_nat_u32)
    ultimately show thesis using r k by (intro that[of k]) auto
  qed
  define sc where "sc = (if ws_enabled s then k else 0)"
  have sc: "(if ws_enabled s then scale_window win 0 else (win, 0)) = (drop_bit sc win, of_nat sc)"
    "sc \<le> 14" "unat (drop_bit sc win) \<le> 65535"
    using k b(3) by (auto simp: sc_def)
  define s2 where "s2 = s0\<lparr>rcv_adv := rcv_nxt s + win, rcv_wnd := win, rcv_wnd_scale := of_nat sc\<rparr>"
  note u16 = ucast_u16_u32[OF sc(3)]
  have "updateRcvWnd c = Inr (ucast (drop_bit sc win), c\<lparr>state := s2\<rparr>)"
    using updateRcvWnd_eq[OF assms(1) free_def[unfolded s_def] s0_def[unfolded s_def]
        win_def refl sc(1)[unfolded s_def]] adv[unfolded s_def] u16(2)
    by (simp add: s2_def s_def)
  moreover have "unat (of_nat sc :: u32) = sc" using sc(2) by (simp add: unat_of_nat_u32)
  moreover have "rcv_window_ok s2" using ok b(2,3) by (auto simp: rcv_window_ok_def s2_def flds off_def)
  moreover have "seqLE (rcv_adv s) (rcv_nxt s + win)" using ge by (simp add: seqGE_seqLE)
  ultimately show ?thesis
    using b(4) u16(1)
    by (intro exI[of _ "ucast (drop_bit sc win) :: u16"] exI[of _ free] exI[of _ "maxRcvBuffer s - free"]
        exI[of _ win] exI[of _ "of_nat sc"] exI[of _ "c\<lparr>state := s2\<rparr>"])
      (simp add: s2_def s0_def s_def [symmetric] flds free_def unat_drop_bit_u32)
qed

text \<open>
  C35: Updating the receive window never moves the advertised right edge to the left, and the
  window never exceeds the maximum.
\<close>

theorem updateRcvWnd_keeps_edge:
  assumes "receiveQueue c = Some rq" "rcv_window_ok (state c)"
  shows "\<exists>w c'. updateRcvWnd c = Inr (w, c') \<and> rcv_window_ok (state c')
    \<and> rcv_nxt (state c') = rcv_nxt (state c)
    \<and> rcv_adv (state c') = rcv_nxt (state c) + rcv_wnd (state c')
    \<and> seqLE (rcv_adv (state c)) (rcv_adv (state c'))
    \<and> unat (rcv_wnd (state c')) \<le> max (off (rcv_nxt (state c)) (rcv_adv (state c)))
        (unat (rcvq_getAmountOfFreeBytes rq (maxRcvBuffer (state c))))
    \<and> unat w = unat (rcv_wnd (state c')) div 2 ^ unat (rcv_wnd_scale (state c'))"
proof -
  obtain w a b e f c' where r: "updateRcvWnd c = Inr (w, c')"
    "c' = c\<lparr>state := (state c)\<lparr>freeRcvBuffer := a, usedRcvBuffer := b, rcv_adv := rcv_nxt (state c) + e,
          rcv_wnd := e, rcv_wnd_scale := f\<rparr>\<rparr>"
    "rcv_window_ok (state c')" "seqLE (rcv_adv (state c)) (rcv_nxt (state c) + e)"
    "unat e \<le> max (off (rcv_nxt (state c)) (rcv_adv (state c)))
        (unat (rcvq_getAmountOfFreeBytes rq (maxRcvBuffer (state c))))"
    "unat w = unat e div 2 ^ unat f"
    using updateRcvWnd_ok[OF assms] by blast
  have "rcv_nxt (state c') = rcv_nxt (state c)" "rcv_wnd (state c') = e" "rcv_wnd_scale (state c') = f"
    "rcv_adv (state c') = rcv_nxt (state c) + e" by (simp_all add: r(2))
  then show ?thesis using r(1,3-6) by (intro exI[of _ w] exI[of _ c'] conjI) simp_all
qed

definition wnd_example :: "unit TCPConnection" where
  "wnd_example = (new_TCPConnection () (\<lparr>par_advertisedWindow = 100000, par_windowScalingSupport = True,
       par_delayedAcksEnabled = False, par_nagleEnabled = True, par_limitedTransmitEnabled = False,
       par_increasedIWEnabled = False, par_mss = 536, par_timestampSupport = False,
       par_sackSupport = False, par_tcpAlgorithmClass = ''TCPReno''\<rparr>) 0 0 1)
     \<lparr>receiveQueue := Some (VirtualRcv \<lparr>rq_rcv_nxt = 0xFFFFFF00,
         regionList = [\<lparr>rbegin = 0x100, rend = 0x200\<rparr>]\<rparr>),
      state := (new_TCPStateVariables ())\<lparr>rcv_nxt := 0xFFFFFF00, rcv_adv := 0x1000,
         maxRcvBuffer := 100000, snd_mss := 536, ws_support := True, ws_enabled := True\<rparr>\<rparr>"

lemma wnd_example_ok:
  "receiveQueue wnd_example = Some (VirtualRcv \<lparr>rq_rcv_nxt = 0xFFFFFF00,
     regionList = [\<lparr>rbegin = 0x100, rend = 0x200\<rparr>]\<rparr>)"
  "rcv_window_ok (state wnd_example)"
  by (simp_all add: wnd_example_def rcv_window_ok_def off_def)

theorem updateRcvWnd_keeps_edge_witness:
  "\<exists>w c'. updateRcvWnd wnd_example = Inr (w, c') \<and> seqLE 0x1000 (rcv_adv (state c'))"
proof -
  have a: "rcv_adv (state wnd_example) = 0x1000" by (simp add: wnd_example_def)
  show ?thesis using updateRcvWnd_keeps_edge[OF wnd_example_ok] unfolding a by blast
qed

text \<open>
  A FIN that is accepted at a zero window moves \<open>rcv_nxt\<close> behind \<open>rcv_adv\<close>. The difference of
  the two then wraps around: the next segment announces the largest window, whatever the buffer
  holds, and with window scaling the assertion on the scaled window fails.
\<close>

theorem fin_at_zero_window_opens_window:
  assumes "receiveQueue c = Some rq" "rcv_nxt (state c) = rcv_adv (state c) + 1"
    and "maxRcvBuffer (state c) < 0x80000000"
  shows "if ws_enabled (state c) then updateRcvWnd c = Inl Assertion_failed
    else \<exists>c'. updateRcvWnd c = Inr (0xFFFF, c') \<and> rcv_wnd (state c') = 0xFFFF"
proof -
  define s0 where "s0 = (let free = rcvq_getAmountOfFreeBytes rq (maxRcvBuffer (state c)) in
    (state c)\<lparr>freeRcvBuffer := free, usedRcvBuffer := maxRcvBuffer (state c) - free\<rparr>)"
  define free where "free = rcvq_getAmountOfFreeBytes rq (maxRcvBuffer (state c))"
  have s0: "s0 = (state c)\<lparr>freeRcvBuffer := free, usedRcvBuffer := maxRcvBuffer (state c) - free\<rparr>"
    by (simp add: s0_def free_def Let_def)
  have gap: "rcv_adv s0 - rcv_nxt s0 = 0xFFFFFFFF" by (simp add: s0 assms(2))
  have "free < 0x80000000"
    using free_bytes_bound[of rq "maxRcvBuffer (state c)"] assms(3) by (simp add: free_def)
  then have lt: "free < 0xFFFFFFFF" by (simp add: word_less_nat_alt)
  have win: "window_of free s0 = (if ws_enabled (state c) then 0xFFFFFFFF else 0xFFFF)"
    using lt gap by (auto simp: window_of_def Let_def TCP_MAX_WIN_def s0 word_less_nat_alt)
  have sc: "scale_window 0xFFFFFFFF 0 = (0x3FFFF, 14)"
    by (simp add: scale_window.simps TCP_MAX_WIN_def)
  note eq = updateRcvWnd_eq[OF assms(1) free_def s0 win[symmetric] refl]
  show ?thesis
  proof (cases "ws_enabled (state c)")
    case True
    then show ?thesis using eq[of "0x3FFFF" 14] sc by simp
  next
    case False
    then show ?thesis using eq[of "0xFFFF" 0] by simp
  qed
qed

theorem fin_at_zero_window_opens_window_witness:
  "updateRcvWnd (wnd_example\<lparr>state := (state wnd_example)\<lparr>rcv_nxt := 0x1001\<rparr>\<rparr>) = Inl Assertion_failed"
  using fin_at_zero_window_opens_window[of "wnd_example\<lparr>state := (state wnd_example)\<lparr>rcv_nxt := 0x1001\<rparr>\<rparr>"]
  by (simp add: wnd_example_def)

text \<open>
  The peer keeps the shift count of the SYN, but the count is chosen anew for every segment: once
  the window fits 16 bits it is sent unscaled, and the peer takes it for at least twice its size.
\<close>

theorem window_scale_mismatch:
  assumes "scale_window w0 0 = (v0, k0)" "65535 < unat w0" "unat w0 < 2 ^ 30"
    and "scale_window w 0 = (v, k)" "0 < unat w" "unat w \<le> 65535"
    and "ws_enabled (state p)" "snd_wnd_scale (state p) = k0" "window seg = ucast v" "\<not> synBit seg"
  shows "2 * unat w \<le> unat (snd_wnd (state (updateWndInfo seg True p)))"
proof -
  obtain j where j: "unat k0 = j" "j \<le> 14" "v0 = drop_bit j w0" "unat v0 \<le> 65535 \<or> j = 14"
    using scale_window_steps[OF assms(1)] by auto
  have "0 < j" using j assms(2) by (cases j) auto
  have "v = w" using assms(4,6)
    by (subst (asm) scale_window.simps) (simp add: TCP_MAX_WIN_def word_less_nat_alt)
  then have "ucast (ucast v :: u16) = w" using ucast_u16_u32(2)[OF assms(6)] by simp
  then have "snd_wnd (state (updateWndInfo seg True p)) = push_bit j w"
    using assms(7-10) j(1) by (simp add: updateWndInfo_def Let_def)
  moreover have "unat (push_bit j w) = unat w * 2 ^ j"
  proof -
    have "unat w * 2 ^ j \<le> 65535 * 2 ^ 14"
      using assms(6) j(2) by (intro mult_mono power_increasing) simp_all
    then have "(unat w * 2 ^ j) mod 2 ^ 32 = unat w * 2 ^ j" by simp
    then show ?thesis by (subst unsigned_push_bit_eq) (simp add: push_bit_eq_mult take_bit_eq_mod)
  qed
  moreover have "(2::nat) ^ 1 \<le> 2 ^ j" using \<open>0 < j\<close> by (intro power_increasing) auto
  ultimately show ?thesis by simp
qed

theorem window_scale_mismatch_witness:
  "2 * unat (60000::u32) \<le> unat (snd_wnd (state (updateWndInfo (new_TCPSegment\<lparr>window := 60000\<rparr>) True
     (wnd_example\<lparr>state := (state wnd_example)\<lparr>snd_wnd_scale := 2\<rparr>\<rparr>))))"
proof -
  have "scale_window 200000 0 = (50000, 2)" "scale_window 60000 0 = (60000, 0)"
    by (simp_all add: scale_window.simps TCP_MAX_WIN_def)
  then show ?thesis
    by (intro window_scale_mismatch[of 200000 50000 2 60000 60000 0])
      (simp_all add: wnd_example_def new_TCPSegment_def)
qed

section \<open>Acceptable segments\<close>

lemma seq_from_window:
  assumes "in_half n e"
  shows "seqLE n a \<and> seqLess a e \<longleftrightarrow> off n a < off n e"
    and "seqLess n a \<and> seqLE a e \<longleftrightarrow> 0 < off n a \<and> off n a \<le> off n e"
proof -
  have le: "seqLE n a \<longleftrightarrow> in_half n a" by (simp add: in_half_def seqLE_off_self)
  have lt: "in_half n a" if "off n a \<le> off n e" using that assms by (simp add: in_half_def)
  have "n \<noteq> a \<longleftrightarrow> 0 < off n a" by (metis neq0_conv off_zero_iff)
  then have ls: "seqLess n a \<longleftrightarrow> in_half n a \<and> 0 < off n a" by (simp add: seqLess_seqLE le conj_commute)
  show "seqLE n a \<and> seqLess a e \<longleftrightarrow> off n a < off n e"
    using lt seqLess_iff[OF _ assms, of a] le by (meson less_imp_le_nat)
  show "seqLess n a \<and> seqLE a e \<longleftrightarrow> 0 < off n a \<and> off n a \<le> off n e"
    using lt seqLE_iff[OF _ assms, of a] ls by blast
qed

text \<open>
  Truncation of an acceptable segment with text to the receive window succeeds: what is left is
  not empty and lies inside the window, with the bytes that the segment had there.
\<close>

theorem acceptable_segment_cut_to_window:
  assumes "isSegmentAcceptable s seg" "seg_bytes_ok seg" "payloadLength seg > 0"
    and "payloadLength seg < 0x20000000" "rcv_wnd s < 0x40000000"
  shows "\<exists>seg'. truncateSegment seg (rcv_nxt s) (rcv_nxt s + rcv_wnd s) = Inr seg'
    \<and> seqLE (rcv_nxt s) (sequenceNo seg') \<and> payloadLength seg' > 0
    \<and> seqLE (sequenceNo seg' + payloadLength seg') (rcv_nxt s + rcv_wnd s)
    \<and> byteArray seg' = take (unat (payloadLength seg'))
        (drop (unat (sequenceNo seg' - sequenceNo seg)) (byteArray seg))"
proof -
  define n L sq where "n = rcv_nxt s" and "L = payloadLength seg" and "sq = sequenceNo seg"
  define x e where "x = n - L" and "e = n + rcv_wnd s"
  define d W where "d = off n (sq + L)" and "W = unat (rcv_wnd s)"
  have L: "unat L < 0x20000000" "0 < unat L"
    using assms(3,4) by (simp_all add: word_less_nat_alt L_def)
  have W: "W < 0x40000000" using assms(5) by (simp add: word_less_nat_alt W_def)
  have xn: "off x n = unat L" by (simp add: x_def off_def)
  have xe: "off x e = unat L + W"
    using L W unfolding e_def W_def by (subst off_plus) (simp_all add: xn)
  have wn: "off n e = W" "in_half n e" using W by (simp_all add: e_def off_def W_def in_half_def)
  have "rcv_wnd s \<noteq> 0 \<and> ((seqLE n sq \<and> seqLess sq e) \<or> (seqLess n (sq + L) \<and> seqLE (sq + L) e))"
    using assms(1,3)
    by (auto simp: isSegmentAcceptable_def Let_def n_def L_def sq_def e_def split: if_splits)
  then have "W > 0" and acc: "off n sq < W \<or> (0 < d \<and> d \<le> W)"
    using seq_from_window[OF wn(2)] wn(1) by (auto simp: W_def d_def zero_less_iff_neq_zero unat_eq_0)
  have "off n (sq + L) = off n sq + unat L" if "off n sq < W" using that W L by (intro off_plus) simp
  then have d: "0 < d" "d < W + unat L" using acc L by (auto simp: d_def)
  have xs: "off x sq = d" by (simp add: d_def x_def off_def algebra_simps)
  have xl: "off x (sq + L) = d + unat L" using d(2) W L xs by (subst off_plus) simp_all
  have h: "in_half x sq" "in_half x (sq + L)" "in_half x n" "in_half x e"
    using xs xl xn xe d W L by (simp_all add: in_half_def)
  obtain seg' where seg': "truncateSegment seg n e = Inr seg'"
    "off x (sequenceNo seg') = max (unat L) d"
    "off x (sequenceNo seg') + unat (payloadLength seg') = min (unat L + W) (d + unat L)"
    "byteArray seg' = take (unat (payloadLength seg')) (drop (off x (sequenceNo seg') - d) (byteArray seg))"
    using truncateSegment_eq[of x seg n e] h assms(2,3) xs xl xn xe d L \<open>W > 0\<close>
    unfolding sq_def[symmetric] L_def[symmetric] by auto
  have h': "in_half x (sequenceNo seg')" using seg'(2) d W L by (simp add: in_half_def)
  have end': "off x (sequenceNo seg' + payloadLength seg') = min (unat L + W) (d + unat L)"
    using seg'(3) W L by (subst off_plus) simp_all
  then have "in_half x (sequenceNo seg' + payloadLength seg')" using W L by (simp add: in_half_def)
  then have "seqLE (sequenceNo seg' + payloadLength seg') e" "seqLE n (sequenceNo seg')"
    using end' xe seg'(2) h h' xn by (simp_all add: seqLE_iff[of x])
  moreover have "0 < unat (payloadLength seg')" using seg'(2,3) d L \<open>W > 0\<close> by linarith
  moreover have "unat (sequenceNo seg' - sq) = off x (sequenceNo seg') - d"
    using off_shift[of x sq "sequenceNo seg'"] xs seg'(2) by (simp add: off_def)
  ultimately show ?thesis
    using seg'(1,4) by (intro exI[of _ seg']) (simp add: n_def e_def sq_def word_less_nat_alt)
qed

theorem acceptable_segment_cut_to_window_witness:
  "\<exists>seg'. truncateSegment (new_TCPSegment\<lparr>sequenceNo := 0xFFFFFFFE, payloadLength := 4,
       byteArray := [1, 2, 3, 4]\<rparr>) 0xFFFFFFFF 3 = Inr seg' \<and> payloadLength seg' > 0"
proof -
  define seg where "seg = new_TCPSegment\<lparr>sequenceNo := 0xFFFFFFFE, payloadLength := 4,
    byteArray := [1, 2, 3, 4]\<rparr>"
  define s where "s = (state wnd_example)\<lparr>rcv_nxt := 0xFFFFFFFF, rcv_wnd := 4\<rparr>"
  have "isSegmentAcceptable s seg"
    by (simp add: s_def seg_def isSegmentAcceptable_def Let_def seqLE_def seqLess_def)
  moreover have "seg_bytes_ok seg" "payloadLength seg > 0" "payloadLength seg < 0x20000000"
    "rcv_wnd s < 0x40000000" by (simp_all add: seg_def s_def seg_bytes_ok_def)
  ultimately have "\<exists>seg'. truncateSegment seg (rcv_nxt s) (rcv_nxt s + rcv_wnd s) = Inr seg'
      \<and> payloadLength seg' > 0"
    using acceptable_segment_cut_to_window[of s seg] by blast
  moreover have "rcv_nxt s + rcv_wnd s = 3" "rcv_nxt s = 0xFFFFFFFF" by (simp_all add: s_def)
  ultimately show ?thesis by (simp only: seg_def)
qed

end
