(* ===== verification/TCP_Option_Laws.thy ===== *)
theory TCP_Option_Laws
  imports TCP_Windows
begin

text \<open>
  What the header options carry: the options that a SYN gets, their length, and that the peer
  reads from them what was written. The theory ends with the handshake: after SYN and SYN+ACK both
  sides agree on window scaling, timestamps, SACK and the segment size.
\<close>

section \<open>The options of a SYN\<close>

lemma put_option_append:
  "t = length (options seg) \<Longrightarrow>
   put_option opt (seg, t, c) = (seg\<lparr>options := options seg @ [opt]\<rparr>, t + 1, c)"
  by (simp add: put_option_def)

text \<open>Which options a SYN or SYN+ACK carries.\<close>

definition offers_ws :: "'alg TCPConnection \<Rightarrow> bool" where
  "offers_ws c \<longleftrightarrow> ws_support (state c) \<and> (rcv_ws (state c) \<or> first_syn_state c)"

definition offers_sack :: "'alg TCPConnection \<Rightarrow> bool" where
  "offers_sack c \<longleftrightarrow> sack_support (state c) \<and> (rcv_sack_perm (state c) \<or> first_syn_state c)"

definition offers_ts :: "'alg TCPConnection \<Rightarrow> bool" where
  "offers_ts c \<longleftrightarrow> ts_support (state c) \<and> (rcv_initial_ts (state c) \<or> first_syn_state c)"

definition MSS_option :: "u32 \<Rightarrow> TCPOption" where
  "MSS_option m = \<lparr>opt_kind = TCPOPTION_MAXIMUM_SEGMENT_SIZE, opt_length = 4, opt_values = [m]\<rparr>"

definition WS_option :: "u32 \<Rightarrow> TCPOption" where
  "WS_option sc = \<lparr>opt_kind = TCPOPTION_WINDOW_SCALE, opt_length = 3, opt_values = [sc]\<rparr>"

definition SACK_PERMITTED_option :: TCPOption where
  "SACK_PERMITTED_option = \<lparr>opt_kind = TCPOPTION_SACK_PERMITTED, opt_length = 2, opt_values = []\<rparr>"

definition mss_part :: "'alg TCPConnection \<Rightarrow> TCPOption list" where
  "mss_part c = (if snd_mss (state c) > 0 then [MSS_option (snd_mss (state c))] else [])"

definition ws_part :: "u32 \<Rightarrow> 'alg TCPConnection \<Rightarrow> TCPOption list" where
  "ws_part sc c = (if offers_ws c then [NOP_option, WS_option sc] else [])"

definition sack_part :: "'alg TCPConnection \<Rightarrow> TCPOption list" where
  "sack_part c = (if offers_sack c
     then (if ts_support (state c) then [] else [NOP_option, NOP_option]) @ [SACK_PERMITTED_option]
     else [])"

definition ts_part :: "TCPSegment \<Rightarrow> 'alg TCPConnection \<Rightarrow> TCPOption list" where
  "ts_part seg c = (if offers_ts c
     then (if sack_support (state c) then [] else [NOP_option, NOP_option]) @ [TS_option seg c]
     else [])"

definition syn_options :: "u32 \<Rightarrow> TCPSegment \<Rightarrow> 'alg TCPConnection \<Rightarrow> TCPOption list" where
  "syn_options sc seg c = mss_part c @ ws_part sc c @ sack_part c @ ts_part seg c"

definition syn_scale :: "TCPReceiveQueue \<Rightarrow> 'alg TCPStateVariables \<Rightarrow> u32" where
  "syn_scale rq s = snd (scale_window (rcvq_getFirstSeqNo rq + maxRcvBuffer s - rcv_nxt s) 0)"

definition note_ws :: "u32 \<Rightarrow> 'alg TCPConnection \<Rightarrow> 'alg TCPConnection" where
  "note_ws sc c = (if offers_ws c
     then upd (\<lambda>s. s\<lparr>rcv_wnd_scale := sc, snd_ws := True, ws_enabled := ws_support s \<and> rcv_ws s\<rparr>) c
     else c)"

definition note_sack :: "'alg TCPConnection \<Rightarrow> 'alg TCPConnection" where
  "note_sack c = (if offers_sack c
     then upd (\<lambda>s. s\<lparr>snd_sack_perm := True, sack_enabled := sack_support s \<and> rcv_sack_perm s\<rparr>) c
     else c)"

definition note_ts :: "'alg TCPConnection \<Rightarrow> 'alg TCPConnection" where
  "note_ts c = (if offers_ts c
     then upd (\<lambda>s. s\<lparr>snd_initial_ts := True, ts_enabled := ts_support s \<and> rcv_initial_ts s\<rparr>) c
     else c)"

lemmas offers_defs = offers_ws_def offers_sack_def offers_ts_def first_syn_state_def
lemmas note_defs = note_ws_def note_sack_def note_ts_def
lemmas part_defs = mss_part_def ws_part_def sack_part_def ts_part_def MSS_option_def WS_option_def
  SACK_PERMITTED_option_def NOP_option_def

lemma offers_note [simp]:
  "offers_sack (note_ws sc c) = offers_sack c" "offers_ts (note_ws sc c) = offers_ts c"
  "offers_ts (note_sack c) = offers_ts c"
  by (simp_all add: offers_defs note_defs)

text \<open>Each of the four steps appends its part.\<close>

definition with_options :: "TCPSegment \<Rightarrow> TCPOption list \<Rightarrow> 'alg TCPConnection \<Rightarrow> 'alg writer" where
  "with_options seg os c = (seg\<lparr>options := os\<rparr>, length os, c)"

lemma put_option_with [simp]:
  "put_option opt (with_options seg os c) = with_options seg (os @ [opt]) c"
  by (simp add: with_options_def put_option_append)

lemma write_MSS_with: "write_MSS (with_options seg os c) = Inr (with_options seg (os @ mss_part c) c)"
proof (cases "snd_mss (state c) > 0")
  case True
  have "write_MSS (with_options seg os c) = Inr (put_option (MSS_option (snd_mss (state c))) (with_options seg os c))"
    unfolding write_MSS_def MSS_option_def with_options_def case_prod_conv if_P[OF True] by (rule refl)
  then show ?thesis using True by (simp add: mss_part_def)
next
  case False
  then show ?thesis unfolding write_MSS_def mss_part_def with_options_def case_prod_conv if_not_P[OF False]
    by simp
qed

lemma write_WS_with:
  assumes "receiveQueue c = Some rq" "sc = syn_scale rq (state c)"
  shows "write_WS (with_options seg os c) = Inr (with_options seg (os @ ws_part sc c) (note_ws sc c))"
proof (cases "offers_ws c")
  case True
  then have o: "ws_support (state c) \<and> (rcv_ws (state c) \<or> first_syn_state c)"
    by (simp add: offers_ws_def)
  have "write_WS (with_options seg os c)
    = (case put_option NOP_option (with_options seg os c) of
         (seg1, t1, _) \<Rightarrow> Inr (put_option (WS_option sc) (seg1, t1, note_ws sc c)))"
    unfolding write_WS_def with_options_def case_prod_conv if_P[OF o] assms(1) deref_Some bind_res_Inr
      Let_def note_ws_def if_P[OF True] WS_option_def assms(2) syn_scale_def by (rule refl)
  then show ?thesis using True
    by (simp add: ws_part_def with_options_def put_option_append)
next
  case False
  then have o: "\<not> (ws_support (state c) \<and> (rcv_ws (state c) \<or> first_syn_state c))"
    by (simp add: offers_ws_def)
  show ?thesis
    unfolding write_WS_def with_options_def case_prod_conv if_not_P[OF o] note_ws_def ws_part_def
      if_not_P[OF False] by simp
qed

lemma write_SACK_PERMITTED_with:
  "write_SACK_PERMITTED (with_options seg os c) = Inr (with_options seg (os @ sack_part c) (note_sack c))"
proof (cases "offers_sack c")
  case True
  then have o: "sack_support (state c) \<and> (rcv_sack_perm (state c) \<or> first_syn_state c)"
    by (simp add: offers_sack_def)
  have "write_SACK_PERMITTED (with_options seg os c)
    = Inr (case (if \<not> ts_support (state c)
                 then put_option NOP_option (put_option NOP_option (with_options seg os c))
                 else with_options seg os c) of
             (seg1, t1, _) \<Rightarrow> put_option SACK_PERMITTED_option (seg1, t1, note_sack c))"
    unfolding write_SACK_PERMITTED_def with_options_def case_prod_conv if_P[OF o] Let_def note_sack_def
      if_P[OF True] SACK_PERMITTED_option_def by (rule refl)
  then show ?thesis using True
    by (simp add: sack_part_def with_options_def put_option_append)
next
  case False
  then have o: "\<not> (sack_support (state c) \<and> (rcv_sack_perm (state c) \<or> first_syn_state c))"
    by (simp add: offers_sack_def)
  show ?thesis
    unfolding write_SACK_PERMITTED_def with_options_def case_prod_conv if_not_P[OF o] note_sack_def
      sack_part_def if_not_P[OF False] by simp
qed

lemma TS_option_options [simp]: "TS_option (seg\<lparr>options := os\<rparr>) c = TS_option seg c"
  by (simp add: TS_option_def)

lemma write_TS_syn_with:
  "write_TS_syn (with_options seg os c) = Inr (with_options seg (os @ ts_part seg c) (note_ts c))"
proof (cases "offers_ts c")
  case True
  then have o: "ts_support (state c) \<and> (rcv_initial_ts (state c) \<or> first_syn_state c)"
    by (simp add: offers_ts_def)
  have "write_TS_syn (with_options seg os c)
    = Inr (case (if \<not> sack_support (state c)
                 then put_option NOP_option (put_option NOP_option (with_options seg os c))
                 else with_options seg os c) of
             (seg1, t1, _) \<Rightarrow> put_option (TS_option seg c) (seg1, t1, note_ts c))"
    unfolding write_TS_syn_def with_options_def case_prod_conv if_P[OF o] Let_def note_ts_def
      if_P[OF True] TS_option_options by (rule refl)
  then show ?thesis using True
    by (simp add: ts_part_def with_options_def put_option_append)
next
  case False
  then have o: "\<not> (ts_support (state c) \<and> (rcv_initial_ts (state c) \<or> first_syn_state c))"
    by (simp add: offers_ts_def)
  show ?thesis
    unfolding write_TS_syn_def with_options_def case_prod_conv if_not_P[OF o] note_ts_def
      ts_part_def if_not_P[OF False] by simp
qed

lemma parts_note:
  "sack_part (note_ws sc c) = sack_part c" "ts_part seg (note_sack (note_ws sc c)) = ts_part seg c"
proof -
  have 1: "sack_support (state (note_ws sc c)) = sack_support (state c)"
    "ts_support (state (note_ws sc c)) = ts_support (state c)"
    "TS_option seg (note_ws sc c) = TS_option seg c" for c :: "'alg TCPConnection"
    by (simp_all add: note_ws_def TS_option_def)
  have 2: "sack_support (state (note_sack c)) = sack_support (state c)"
    "TS_option seg (note_sack c) = TS_option seg c" for c :: "'alg TCPConnection"
    by (simp_all add: note_sack_def TS_option_def)
  show "sack_part (note_ws sc c) = sack_part c"
    unfolding sack_part_def offers_note 1 by (rule refl)
  show "ts_part seg (note_sack (note_ws sc c)) = ts_part seg c"
    unfolding ts_part_def offers_note 1 2 by (rule refl)
qed

lemma write_syn_options:
  assumes "synBit seg" "syn_options_state c" "options seg = []" "receiveQueue c = Some rq"
    and "sc = syn_scale rq (state c)"
  shows "writeHeaderOptions seg c =
    Inr (close_options (seg\<lparr>options := syn_options sc seg c\<rparr>), note_ts (note_sack (note_ws sc c)))"
proof -
  have "writeHeaderOptions seg c = bind_res
       (bind_res (write_MSS (with_options seg [] c)) (\<lambda>w1.
        bind_res (write_WS w1) (\<lambda>w2.
        bind_res (write_SACK_PERMITTED w2) write_TS_syn)))
       (\<lambda>(seg', t, c'). Inr (close_options seg', c'))"
  proof -
    have "seg\<lparr>options := []\<rparr> = seg" using assms(3) by (cases seg) simp
    then show ?thesis using assms(1,2) by (simp add: writeHeaderOptions_def with_options_def)
  qed
  also have "\<dots> = (case with_options seg (syn_options sc seg c) (note_ts (note_sack (note_ws sc c))) of
      (seg', t, c') \<Rightarrow> Inr (close_options seg', c'))"
    unfolding write_MSS_with bind_res_Inr write_WS_with[OF assms(4,5)] write_SACK_PERMITTED_with
      write_TS_syn_with parts_note syn_options_def by simp
  finally show ?thesis by (simp add: with_options_def)
qed

text \<open>The length of the header.\<close>

lemma getOptionsArrayLength_sum:
  "getOptionsArrayLength seg = sum_list (map opt_length (options seg))"
proof -
  have "fold (\<lambda>opt n. n + opt_length opt) os n = n + sum_list (map opt_length os)" for n and os :: "TCPOption list"
    by (induction os arbitrary: n) (simp_all add: algebra_simps)
  then show ?thesis by (simp add: getOptionsArrayLength_def)
qed

lemma TS_option_length [simp]: "opt_length (TS_option seg c) = 10"
  by (simp add: TS_option_def)

lemma syn_options_length:
  "sum_list (map opt_length (syn_options sc seg c)) =
     (if snd_mss (state c) > 0 then 4 else 0) + (if offers_ws c then 4 else 0)
     + (if offers_sack c then (if ts_support (state c) then 2 else 4) else 0)
     + (if offers_ts c then (if sack_support (state c) then 10 else 12) else 0)"
  by (simp add: syn_options_def part_defs)

lemma close_options_length:
  assumes "unat (sum_list (map opt_length os)) \<le> 40" "headerLength seg = TCP_HEADER_OCTETS"
    and "os = [] \<or> sum_list (map opt_length os) \<noteq> 0"
  shows "options (close_options (seg\<lparr>options := os\<rparr>)) = os"
    and "unat (headerLength (close_options (seg\<lparr>options := os\<rparr>))) = 20 + unat (sum_list (map opt_length os))"
proof -
  define n where "n = sum_list (map opt_length os)"
  have n: "unat n \<le> 40" using assms(1) by (simp add: n_def)
  have "unat (ucast n :: u32) = unat n"
    using n by (subst unsigned_ucast_eq) (simp add: take_bit_eq_mod)
  then have le: "(ucast n :: u32) \<le> TCP_OPTIONS_MAX_SIZE"
    using n by (simp add: word_le_nat_alt TCP_OPTIONS_MAX_SIZE_def)
  have "unat (TCP_HEADER_OCTETS + n) = 20 + unat n"
    using n by (subst unat_word_ariths) (simp add: TCP_HEADER_OCTETS_def)
  then show "unat (headerLength (close_options (seg\<lparr>options := os\<rparr>))) = 20 + unat (sum_list (map opt_length os))"
    using le assms(2)
    by (simp add: close_options_def Let_def getOptionsArrayLength_sum n_def [symmetric] TCP_HEADER_OCTETS_def)
      (simp add: n_def)
  show "options (close_options (seg\<lparr>options := os\<rparr>)) = os"
    using le by (simp add: close_options_def Let_def getOptionsArrayLength_sum n_def [symmetric])
qed

lemma syn_header_lengths:
  assumes "synBit seg" "syn_options_state c" "options seg = []" "receiveQueue c = Some rq"
    and "headerLength seg = TCP_HEADER_OCTETS"
  shows "\<exists>seg' c'. writeHeaderOptions seg c = Inr (seg', c')
    \<and> options seg' = syn_options (syn_scale rq (state c)) seg c
    \<and> unat (headerLength seg') = 20 + unat (getOptionsArrayLength seg')
    \<and> unat (headerLength seg') \<le> 44 \<and> (first_syn_state c \<longrightarrow> 4 dvd unat (headerLength seg'))"
proof -
  let ?os = "syn_options (syn_scale rq (state c)) seg c"
  let ?n = "sum_list (map opt_length ?os)"
  have n: "unat ?n \<le> 24" unfolding syn_options_length by simp
  have four: "4 dvd unat ?n" if "first_syn_state c"
    unfolding syn_options_length using that by (auto simp: offers_ws_def offers_sack_def offers_ts_def)
  have ne: "?os = [] \<or> ?n \<noteq> 0"
    by (auto simp: syn_options_def part_defs)
  have o: "options (close_options (seg\<lparr>options := ?os\<rparr>)) = ?os"
    "unat (headerLength (close_options (seg\<lparr>options := ?os\<rparr>))) = 20 + unat ?n"
    using close_options_length[of ?os seg] n ne assms(5) by simp_all
  have g: "getOptionsArrayLength (close_options (seg\<lparr>options := ?os\<rparr>)) = ?n"
    by (simp add: getOptionsArrayLength_sum o(1))
  show ?thesis
    using write_syn_options[OF assms(1-4) refl] o g n four by (intro exI conjI) auto
qed

text \<open>
  Every SYN gets its options: the header is 20 bytes and the options, at most 44 bytes in all, and
  the header of a first SYN is a multiple of four bytes long.
\<close>

theorem syn_header_length:
  assumes "synBit seg" "syn_options_state c" "options seg = []" "receiveQueue c = Some rq"
    and "headerLength seg = TCP_HEADER_OCTETS"
  shows "\<exists>seg' c'. writeHeaderOptions seg c = Inr (seg', c')
    \<and> options seg' = syn_options (syn_scale rq (state c)) seg c
    \<and> unat (headerLength seg') = 20 + unat (getOptionsArrayLength seg')
    \<and> unat (headerLength seg') \<le> 44 \<and> (first_syn_state c \<longrightarrow> 4 dvd unat (headerLength seg'))"
  using assms by (rule syn_header_lengths)

text \<open>
  The padding before SACK_PERMITTED is left out whenever timestamps are supported, also when the
  SYN+ACK carries no timestamp because the peer sent none: the header is then not a multiple of
  four bytes long.
\<close>

theorem synack_header_unaligned:
  assumes "synBit seg" "syn_options_state c" "options seg = []" "receiveQueue c = Some rq"
    and "headerLength seg = TCP_HEADER_OCTETS" "\<not> first_syn_state c"
    and "sack_support (state c)" "rcv_sack_perm (state c)"
    and "ts_support (state c)" "\<not> rcv_initial_ts (state c)"
  shows "\<exists>seg' c'. writeHeaderOptions seg c = Inr (seg', c') \<and> unat (headerLength seg') mod 4 = 2"
proof -
  let ?n = "sum_list (map opt_length (syn_options (syn_scale rq (state c)) seg c))"
  have o: "offers_sack c" "\<not> offers_ts c"
    using assms(6-10) by (simp_all add: offers_sack_def offers_ts_def)
  have "unat ?n mod 4 = 2" unfolding syn_options_length using o assms(9) by simp
  moreover obtain seg' c' where "writeHeaderOptions seg c = Inr (seg', c')"
    "options seg' = syn_options (syn_scale rq (state c)) seg c"
    "unat (headerLength seg') = 20 + unat (getOptionsArrayLength seg')"
    using syn_header_lengths[OF assms(1-5)] by blast
  moreover have "(20 + n) mod 4 = n mod 4" for n :: nat by presburger
  ultimately show ?thesis by (auto simp: getOptionsArrayLength_sum)
qed

section \<open>Reading what was written\<close>

text \<open>The effect of each option on the connection that reads it.\<close>

definition learn_mss :: "u32 \<Rightarrow> 'alg TCPConnection \<Rightarrow> 'alg TCPConnection" where
  "learn_mss m r = upd (\<lambda>s. s\<lparr>snd_mss := (if min (snd_mss s) m = 0 then 536 else min (snd_mss s) m)\<rparr>) r"

definition learn_ws :: "u32 \<Rightarrow> 'alg TCPConnection \<Rightarrow> 'alg TCPConnection" where
  "learn_ws sc r = upd (\<lambda>s. s\<lparr>rcv_ws := True, ws_enabled := ws_support s \<and> snd_ws s,
                              snd_wnd_scale := (if sc > 14 then 14 else sc)\<rparr>) r"

definition learn_sack :: "'alg TCPConnection \<Rightarrow> 'alg TCPConnection" where
  "learn_sack r = upd (\<lambda>s. s\<lparr>rcv_sack_perm := True, sack_enabled := sack_support s \<and> snd_sack_perm s\<rparr>) r"

definition learn_ts :: "u32 \<Rightarrow> 'alg TCPConnection \<Rightarrow> 'alg TCPConnection" where
  "learn_ts v r = upd (\<lambda>s. s\<lparr>rcv_initial_ts := True, ts_enabled := ts_support s \<and> snd_initial_ts s,
                             ts_recent := v\<rparr>) r"

lemmas learn_defs = learn_mss_def learn_ws_def learn_sack_def learn_ts_def

lemma fsm_learn [simp]:
  "fsm (learn_mss m r) = fsm r" "fsm (learn_ws sc r) = fsm r" "fsm (learn_sack r) = fsm r"
  "ts_enabled (state (learn_mss m r)) = ts_enabled (state r)"
  "ts_enabled (state (learn_ws sc r)) = ts_enabled (state r)"
  "ts_enabled (state (learn_sack r)) = ts_enabled (state r)"
  by (simp_all add: learn_defs)

lemma read_NOP: "readOption seg NOP_option r = Inr r"
  by (simp add: readOption_def NOP_option_def)

lemma read_MSS:
  "fsm r \<in> {TCP_S_LISTEN, TCP_S_SYN_SENT} \<Longrightarrow> readOption seg (MSS_option m) r = Inr (learn_mss m r)"
  by (auto simp: readOption_def MSS_option_def option_kind_defs processMSSOption_def learn_mss_def upd_def Let_def)

lemma read_WS:
  "fsm r \<in> {TCP_S_LISTEN, TCP_S_SYN_SENT} \<Longrightarrow> readOption seg (WS_option sc) r = Inr (learn_ws sc r)"
  by (auto simp: readOption_def WS_option_def option_kind_defs processWSOption_def learn_ws_def upd_def Let_def)

lemma read_SACK_PERMITTED:
  "fsm r \<in> {TCP_S_LISTEN, TCP_S_SYN_SENT} \<Longrightarrow>
   readOption seg SACK_PERMITTED_option r = Inr (learn_sack r)"
  by (auto simp: readOption_def SACK_PERMITTED_option_def option_kind_defs
      processSACKPermittedOption_def learn_sack_def)

lemma read_TS:
  assumes "fsm r \<in> {TCP_S_LISTEN, TCP_S_SYN_SENT}" "\<not> ts_enabled (state r)"
  shows "\<exists>v. readOption seg (TS_option seg' c) r = Inr (learn_ts v r)"
proof -
  define r1 where "r1 = upd (\<lambda>s. s\<lparr>rcv_initial_ts := True, ts_enabled := ts_support s \<and> snd_initial_ts s\<rparr>) r"
  have r1: "r1 = learn_ts (ts_recent (state r)) r" "\<And>v. upd (\<lambda>s. s\<lparr>ts_recent := v\<rparr>) r1 = learn_ts v r"
    by (simp_all add: r1_def learn_ts_def upd_def)
  have eq: "processTSOption seg (TS_option seg' c) r =
      (if ts_enabled (state r1) then
         (if seqLess (convertSimtimeToTS (simTime c)) (ts_recent (state r1)) then
            (if simTime r1 - time_last_data_sent (state r1) > seconds PAWS_IDLE_TIME_THRESH
             then Inr (False, r1) else Inr (True, r1))
          else if seqLE (sequenceNo seg) (last_ack_sent (state r1))
          then Inr (True, upd (\<lambda>s. s\<lparr>ts_recent := convertSimtimeToTS (simTime c)\<rparr>) r1)
          else Inr (True, r1))
       else Inr (True, r1))"
    using assms unfolding processTSOption_def Let_def r1_def by (auto simp: TS_option_def)
  have "\<exists>b v. processTSOption seg (TS_option seg' c) r = Inr (b, learn_ts v r)"
    unfolding eq r1(2) by (simp split: if_split) (use r1(1) in blast)
  then obtain b v where "processTSOption seg (TS_option seg' c) r = Inr (b, learn_ts v r)" by blast
  then show ?thesis by (auto simp: readOption_def TS_option_def option_kind_defs)
qed

text \<open>The four parts, read in turn.\<close>

lemma read_mss_part:
  "fsm r \<in> {TCP_S_LISTEN, TCP_S_SYN_SENT} \<Longrightarrow> fold_res (readOption seg) (mss_part c) r
     = Inr (if snd_mss (state c) > 0 then learn_mss (snd_mss (state c)) r else r)"
  by (simp add: mss_part_def read_MSS)

lemma read_ws_part:
  "fsm r \<in> {TCP_S_LISTEN, TCP_S_SYN_SENT} \<Longrightarrow> fold_res (readOption seg) (ws_part sc c) r
     = Inr (if offers_ws c then learn_ws sc r else r)"
  by (simp add: ws_part_def read_WS read_NOP)

lemma read_sack_part:
  "fsm r \<in> {TCP_S_LISTEN, TCP_S_SYN_SENT} \<Longrightarrow> fold_res (readOption seg) (sack_part c) r
     = Inr (if offers_sack c then learn_sack r else r)"
  by (simp add: sack_part_def read_SACK_PERMITTED read_NOP)

lemma read_ts_part:
  assumes "fsm r \<in> {TCP_S_LISTEN, TCP_S_SYN_SENT}" "\<not> ts_enabled (state r)"
  shows "\<exists>v. fold_res (readOption seg) (ts_part seg' c) r = Inr (if offers_ts c then learn_ts v r else r)"
  using read_TS[OF assms, of seg seg' c] by (auto simp: ts_part_def read_NOP)

lemma read_syn_options_eq:
  assumes "fsm r \<in> {TCP_S_LISTEN, TCP_S_SYN_SENT}" "\<not> ts_enabled (state r)"
    and "options seg = syn_options sc seg' c"
  shows "\<exists>v. readHeaderOptions seg r = Inr
    ((if offers_ts c then learn_ts v else id) ((if offers_sack c then learn_sack else id)
      ((if offers_ws c then learn_ws sc else id)
        ((if snd_mss (state c) > 0 then learn_mss (snd_mss (state c)) else id) r))))"
proof -
  let ?r1 = "(if snd_mss (state c) > 0 then learn_mss (snd_mss (state c)) else id) r"
  let ?r2 = "(if offers_ws c then learn_ws sc else id) ?r1"
  let ?r3 = "(if offers_sack c then learn_sack else id) ?r2"
  have f: "fsm ?r1 \<in> {TCP_S_LISTEN, TCP_S_SYN_SENT}" "fsm ?r2 \<in> {TCP_S_LISTEN, TCP_S_SYN_SENT}"
    "fsm ?r3 \<in> {TCP_S_LISTEN, TCP_S_SYN_SENT}" "\<not> ts_enabled (state ?r3)"
    using assms(1,2) by simp_all
  obtain v where v: "fold_res (readOption seg) (ts_part seg' c) ?r3
      = Inr (if offers_ts c then learn_ts v ?r3 else ?r3)"
    using read_ts_part[OF f(3,4)] by blast
  have "fold_res (readOption seg) (mss_part c) r = Inr ?r1" using read_mss_part[OF assms(1), of seg c] by (simp split: if_splits)
  moreover have "fold_res (readOption seg) (ws_part sc c) ?r1 = Inr ?r2"
    using read_ws_part[OF f(1), of seg sc c] by (simp split: if_splits)
  moreover have "fold_res (readOption seg) (sack_part c) ?r2 = Inr ?r3"
    using read_sack_part[OF f(2), of seg c] by (simp split: if_splits)
  ultimately show ?thesis
    using v unfolding readHeaderOptions_def assms(3) syn_options_def fold_res_append
    by (intro exI[of _ v]) simp
qed

section \<open>The handshake\<close>

text \<open>A connection that has neither offered nor learnt anything yet.\<close>

definition fresh_options :: "'alg TCPStateVariables \<Rightarrow> bool" where
  "fresh_options s \<longleftrightarrow> \<not> snd_ws s \<and> \<not> rcv_ws s \<and> \<not> ws_enabled s \<and> \<not> snd_sack_perm s
     \<and> \<not> rcv_sack_perm s \<and> \<not> sack_enabled s \<and> \<not> snd_initial_ts s \<and> \<not> rcv_initial_ts s \<and> \<not> ts_enabled s"

lemma syn_scale_le: "syn_scale rq s \<le> 14"
proof -
  obtain w sc where r: "scale_window (rcvq_getFirstSeqNo rq + maxRcvBuffer s - rcv_nxt s) 0 = (w, sc)"
    by (cases "scale_window (rcvq_getFirstSeqNo rq + maxRcvBuffer s - rcv_nxt s) 0")
  then show ?thesis
    using scale_window_steps[OF r] by (auto simp: syn_scale_def word_le_nat_alt)
qed

text \<open>The fields after one of these steps was taken or not.\<close>

lemma learn_ws_fields [simp]:
  "rcv_ws (state ((if b then learn_ws sc else id) r)) = (if b then True else rcv_ws (state r))"
  "ws_enabled (state ((if b then learn_ws sc else id) r)) = (if b then ws_support (state r) \<and> snd_ws (state r) else ws_enabled (state r))"
  "snd_wnd_scale (state ((if b then learn_ws sc else id) r)) = (if b then (if sc > 14 then 14 else sc) else snd_wnd_scale (state r))"
  "ws_support (state ((if b then learn_ws sc else id) r)) = ws_support (state r)"
  "sack_support (state ((if b then learn_ws sc else id) r)) = sack_support (state r)"
  "ts_support (state ((if b then learn_ws sc else id) r)) = ts_support (state r)"
  "snd_mss (state ((if b then learn_ws sc else id) r)) = snd_mss (state r)"
  "snd_ws (state ((if b then learn_ws sc else id) r)) = snd_ws (state r)"
  "rcv_wnd_scale (state ((if b then learn_ws sc else id) r)) = rcv_wnd_scale (state r)"
  "snd_sack_perm (state ((if b then learn_ws sc else id) r)) = snd_sack_perm (state r)"
  "rcv_sack_perm (state ((if b then learn_ws sc else id) r)) = rcv_sack_perm (state r)"
  "sack_enabled (state ((if b then learn_ws sc else id) r)) = sack_enabled (state r)"
  "snd_initial_ts (state ((if b then learn_ws sc else id) r)) = snd_initial_ts (state r)"
  "rcv_initial_ts (state ((if b then learn_ws sc else id) r)) = rcv_initial_ts (state r)"
  "ts_enabled (state ((if b then learn_ws sc else id) r)) = ts_enabled (state r)"
  "fsm ((if b then learn_ws sc else id) r) = fsm r"
  "receiveQueue ((if b then learn_ws sc else id) r) = receiveQueue r"
  by (simp_all add: learn_defs)

lemma learn_ws_scale [simp]:
  "snd_wnd_scale (state (learn_ws sc r)) = (if sc > 14 then 14 else sc)"
  by (simp add: learn_ws_def)

lemma learn_sack_fields [simp]:
  "rcv_sack_perm (state ((if b then learn_sack else id) r)) = (if b then True else rcv_sack_perm (state r))"
  "sack_enabled (state ((if b then learn_sack else id) r)) = (if b then sack_support (state r) \<and> snd_sack_perm (state r) else sack_enabled (state r))"
  "ws_support (state ((if b then learn_sack else id) r)) = ws_support (state r)"
  "sack_support (state ((if b then learn_sack else id) r)) = sack_support (state r)"
  "ts_support (state ((if b then learn_sack else id) r)) = ts_support (state r)"
  "snd_mss (state ((if b then learn_sack else id) r)) = snd_mss (state r)"
  "snd_ws (state ((if b then learn_sack else id) r)) = snd_ws (state r)"
  "rcv_ws (state ((if b then learn_sack else id) r)) = rcv_ws (state r)"
  "ws_enabled (state ((if b then learn_sack else id) r)) = ws_enabled (state r)"
  "rcv_wnd_scale (state ((if b then learn_sack else id) r)) = rcv_wnd_scale (state r)"
  "snd_wnd_scale (state ((if b then learn_sack else id) r)) = snd_wnd_scale (state r)"
  "snd_sack_perm (state ((if b then learn_sack else id) r)) = snd_sack_perm (state r)"
  "snd_initial_ts (state ((if b then learn_sack else id) r)) = snd_initial_ts (state r)"
  "rcv_initial_ts (state ((if b then learn_sack else id) r)) = rcv_initial_ts (state r)"
  "ts_enabled (state ((if b then learn_sack else id) r)) = ts_enabled (state r)"
  "fsm ((if b then learn_sack else id) r) = fsm r"
  "receiveQueue ((if b then learn_sack else id) r) = receiveQueue r"
  by (simp_all add: learn_defs)

lemma learn_ts_fields [simp]:
  "rcv_initial_ts (state ((if b then learn_ts v else id) r)) = (if b then True else rcv_initial_ts (state r))"
  "ts_enabled (state ((if b then learn_ts v else id) r)) = (if b then ts_support (state r) \<and> snd_initial_ts (state r) else ts_enabled (state r))"
  "ws_support (state ((if b then learn_ts v else id) r)) = ws_support (state r)"
  "sack_support (state ((if b then learn_ts v else id) r)) = sack_support (state r)"
  "ts_support (state ((if b then learn_ts v else id) r)) = ts_support (state r)"
  "snd_mss (state ((if b then learn_ts v else id) r)) = snd_mss (state r)"
  "snd_ws (state ((if b then learn_ts v else id) r)) = snd_ws (state r)"
  "rcv_ws (state ((if b then learn_ts v else id) r)) = rcv_ws (state r)"
  "ws_enabled (state ((if b then learn_ts v else id) r)) = ws_enabled (state r)"
  "rcv_wnd_scale (state ((if b then learn_ts v else id) r)) = rcv_wnd_scale (state r)"
  "snd_wnd_scale (state ((if b then learn_ts v else id) r)) = snd_wnd_scale (state r)"
  "snd_sack_perm (state ((if b then learn_ts v else id) r)) = snd_sack_perm (state r)"
  "rcv_sack_perm (state ((if b then learn_ts v else id) r)) = rcv_sack_perm (state r)"
  "sack_enabled (state ((if b then learn_ts v else id) r)) = sack_enabled (state r)"
  "snd_initial_ts (state ((if b then learn_ts v else id) r)) = snd_initial_ts (state r)"
  "fsm ((if b then learn_ts v else id) r) = fsm r"
  "receiveQueue ((if b then learn_ts v else id) r) = receiveQueue r"
  by (simp_all add: learn_defs)

lemma learn_mss_fields [simp]:
  "snd_mss (state (learn_mss m r)) = (if min (snd_mss (state r)) m = 0 then 536 else min (snd_mss (state r)) m)"
  "ws_support (state (learn_mss m r)) = ws_support (state r)"
  "sack_support (state (learn_mss m r)) = sack_support (state r)"
  "ts_support (state (learn_mss m r)) = ts_support (state r)"
  "snd_ws (state (learn_mss m r)) = snd_ws (state r)"
  "rcv_ws (state (learn_mss m r)) = rcv_ws (state r)"
  "ws_enabled (state (learn_mss m r)) = ws_enabled (state r)"
  "rcv_wnd_scale (state (learn_mss m r)) = rcv_wnd_scale (state r)"
  "snd_wnd_scale (state (learn_mss m r)) = snd_wnd_scale (state r)"
  "snd_sack_perm (state (learn_mss m r)) = snd_sack_perm (state r)"
  "rcv_sack_perm (state (learn_mss m r)) = rcv_sack_perm (state r)"
  "sack_enabled (state (learn_mss m r)) = sack_enabled (state r)"
  "snd_initial_ts (state (learn_mss m r)) = snd_initial_ts (state r)"
  "rcv_initial_ts (state (learn_mss m r)) = rcv_initial_ts (state r)"
  "receiveQueue (learn_mss m r) = receiveQueue r"
  by (simp_all add: learn_defs)

lemma note_ws_fields [simp]:
  "snd_ws (state (note_ws sc c)) = (offers_ws c \<or> snd_ws (state c))"
  "ws_enabled (state (note_ws sc c)) = (if offers_ws c then rcv_ws (state c) else ws_enabled (state c))"
  "rcv_wnd_scale (state (note_ws sc c)) = (if offers_ws c then sc else rcv_wnd_scale (state c))"
  "ws_support (state (note_ws sc c)) = ws_support (state c)"
  "sack_support (state (note_ws sc c)) = sack_support (state c)"
  "ts_support (state (note_ws sc c)) = ts_support (state c)"
  "snd_mss (state (note_ws sc c)) = snd_mss (state c)"
  "rcv_ws (state (note_ws sc c)) = rcv_ws (state c)"
  "snd_wnd_scale (state (note_ws sc c)) = snd_wnd_scale (state c)"
  "snd_sack_perm (state (note_ws sc c)) = snd_sack_perm (state c)"
  "rcv_sack_perm (state (note_ws sc c)) = rcv_sack_perm (state c)"
  "sack_enabled (state (note_ws sc c)) = sack_enabled (state c)"
  "snd_initial_ts (state (note_ws sc c)) = snd_initial_ts (state c)"
  "rcv_initial_ts (state (note_ws sc c)) = rcv_initial_ts (state c)"
  "ts_enabled (state (note_ws sc c)) = ts_enabled (state c)"
  "fsm (note_ws sc c) = fsm c"
  "receiveQueue (note_ws sc c) = receiveQueue c"
  by (auto simp: note_ws_def offers_ws_def)

lemma note_sack_fields [simp]:
  "snd_sack_perm (state (note_sack c)) = (offers_sack c \<or> snd_sack_perm (state c))"
  "sack_enabled (state (note_sack c))
     = (if offers_sack c then rcv_sack_perm (state c) else sack_enabled (state c))"
  "ws_support (state (note_sack c)) = ws_support (state c)"
  "sack_support (state (note_sack c)) = sack_support (state c)"
  "ts_support (state (note_sack c)) = ts_support (state c)"
  "snd_mss (state (note_sack c)) = snd_mss (state c)"
  "snd_ws (state (note_sack c)) = snd_ws (state c)"
  "rcv_ws (state (note_sack c)) = rcv_ws (state c)"
  "ws_enabled (state (note_sack c)) = ws_enabled (state c)"
  "rcv_wnd_scale (state (note_sack c)) = rcv_wnd_scale (state c)"
  "snd_wnd_scale (state (note_sack c)) = snd_wnd_scale (state c)"
  "rcv_sack_perm (state (note_sack c)) = rcv_sack_perm (state c)"
  "snd_initial_ts (state (note_sack c)) = snd_initial_ts (state c)"
  "rcv_initial_ts (state (note_sack c)) = rcv_initial_ts (state c)"
  "ts_enabled (state (note_sack c)) = ts_enabled (state c)"
  "fsm (note_sack c) = fsm c"
  "receiveQueue (note_sack c) = receiveQueue c"
  by (auto simp: note_sack_def offers_sack_def)

lemma note_ts_fields [simp]:
  "snd_initial_ts (state (note_ts c)) = (offers_ts c \<or> snd_initial_ts (state c))"
  "ts_enabled (state (note_ts c))
     = (if offers_ts c then rcv_initial_ts (state c) else ts_enabled (state c))"
  "ws_support (state (note_ts c)) = ws_support (state c)"
  "sack_support (state (note_ts c)) = sack_support (state c)"
  "ts_support (state (note_ts c)) = ts_support (state c)"
  "snd_mss (state (note_ts c)) = snd_mss (state c)"
  "snd_ws (state (note_ts c)) = snd_ws (state c)"
  "rcv_ws (state (note_ts c)) = rcv_ws (state c)"
  "ws_enabled (state (note_ts c)) = ws_enabled (state c)"
  "rcv_wnd_scale (state (note_ts c)) = rcv_wnd_scale (state c)"
  "snd_wnd_scale (state (note_ts c)) = snd_wnd_scale (state c)"
  "snd_sack_perm (state (note_ts c)) = snd_sack_perm (state c)"
  "rcv_sack_perm (state (note_ts c)) = rcv_sack_perm (state c)"
  "sack_enabled (state (note_ts c)) = sack_enabled (state c)"
  "rcv_initial_ts (state (note_ts c)) = rcv_initial_ts (state c)"
  "fsm (note_ts c) = fsm c"
  "receiveQueue (note_ts c) = receiveQueue c"
  by (auto simp: note_ts_def offers_ts_def)

text \<open>
  C4: The client writes a SYN, the server reads it in LISTEN and writes a SYN+ACK, and the client,
  in SYN_SENT by then, reads that. Both sides then use the same features, exactly those that both
  support, the same segment size, and each knows the shift count of the other.
\<close>

theorem handshake_agrees:
  assumes "synBit syn" "options syn = []" "headerLength syn = TCP_HEADER_OCTETS"
    and "synBit synack" "options synack = []" "headerLength synack = TCP_HEADER_OCTETS"
    and "fsm c = TCP_S_INIT" "fresh_options (state c)" "receiveQueue c = Some rqc"
    and "fsm s = TCP_S_LISTEN" "fresh_options (state s)" "receiveQueue s = Some rqs"
    and "snd_mss (state c) > 0" "snd_mss (state s) > 0"
  shows "\<exists>syn' c1 s1 synack' s2 c2. writeHeaderOptions syn c = Inr (syn', c1)
    \<and> readHeaderOptions syn' s = Inr s1 \<and> writeHeaderOptions synack s1 = Inr (synack', s2)
    \<and> readHeaderOptions synack' (c1\<lparr>fsm := TCP_S_SYN_SENT\<rparr>) = Inr c2
    \<and> ws_enabled (state c2) = (ws_support (state c) \<and> ws_support (state s))
    \<and> ws_enabled (state s2) = (ws_support (state c) \<and> ws_support (state s))
    \<and> sack_enabled (state c2) = (sack_support (state c) \<and> sack_support (state s))
    \<and> sack_enabled (state s2) = (sack_support (state c) \<and> sack_support (state s))
    \<and> ts_enabled (state c2) = (ts_support (state c) \<and> ts_support (state s))
    \<and> ts_enabled (state s2) = (ts_support (state c) \<and> ts_support (state s))
    \<and> snd_mss (state c2) = min (snd_mss (state c)) (snd_mss (state s))
    \<and> snd_mss (state s2) = min (snd_mss (state c)) (snd_mss (state s))
    \<and> (ws_enabled (state s2) \<longrightarrow> snd_wnd_scale (state s2) = rcv_wnd_scale (state c1)
                               \<and> snd_wnd_scale (state c2) = rcv_wnd_scale (state s2))"
proof -
  define scc where "scc = syn_scale rqc (state c)"
  define c1 where "c1 = note_ts (note_sack (note_ws scc c))"
  have first: "first_syn_state c" using assms(7) by (simp add: first_syn_state_def)
  have oc: "offers_ws c = ws_support (state c)" "offers_sack c = sack_support (state c)"
    "offers_ts c = ts_support (state c)" using first by (simp_all add: offers_ws_def offers_sack_def offers_ts_def)
  have "syn_options_state c" using assms(7) by (simp add: syn_options_state_def)
  then obtain syn' where syn': "writeHeaderOptions syn c = Inr (syn', c1)"
      "options syn' = syn_options scc syn c"
    using syn_header_lengths[OF assms(1) _ assms(2,9,3)] write_syn_options[OF assms(1) _ assms(2,9) refl]
    by (auto simp: scc_def c1_def)
  define s0 where "s0 = (if sack_support (state c) then learn_sack else id)
    ((if ws_support (state c) then learn_ws scc else id) (learn_mss (snd_mss (state c)) s))"
  have "fsm s \<in> {TCP_S_LISTEN, TCP_S_SYN_SENT}" "\<not> ts_enabled (state s)"
    using assms(10,11) by (simp_all add: fresh_options_def)
  from read_syn_options_eq[OF this syn'(2)] obtain v where
    s1: "readHeaderOptions syn' s = Inr ((if ts_support (state c) then learn_ts v else id) s0)"
    using assms(13) by (auto simp: oc s0_def)
  define s1 where "s1 = (if ts_support (state c) then learn_ts v else id) s0"
  have fs: "fsm s1 = TCP_S_LISTEN" "receiveQueue s1 = Some rqs"
    using assms(10,12) by (simp_all add: s1_def s0_def)
  have min: "min (snd_mss (state s)) (snd_mss (state c)) \<noteq> 0" using assms(13,14) by (auto simp: min_def)
  have fl: "ws_support (state s1) = ws_support (state s)" "sack_support (state s1) = sack_support (state s)"
    "ts_support (state s1) = ts_support (state s)" "rcv_ws (state s1) = ws_support (state c)"
    "rcv_sack_perm (state s1) = sack_support (state c)" "rcv_initial_ts (state s1) = ts_support (state c)"
    "snd_mss (state s1) = min (snd_mss (state s)) (snd_mss (state c))"
    "\<not> ws_enabled (state s1)" "\<not> sack_enabled (state s1)" "\<not> ts_enabled (state s1)"
    "ws_support (state c) \<Longrightarrow> snd_wnd_scale (state s1) = scc"
    using assms(11) min syn_scale_le[of rqc "state c", THEN leD]
    by (simp_all add: s1_def s0_def fresh_options_def scc_def)
  have os: "offers_ws s1 = (ws_support (state s) \<and> ws_support (state c))"
    "offers_sack s1 = (sack_support (state s) \<and> sack_support (state c))"
    "offers_ts s1 = (ts_support (state s) \<and> ts_support (state c))"
    using fs(1) by (simp_all add: offers_defs fl)
  define scs where "scs = syn_scale rqs (state s1)"
  define s2 where "s2 = note_ts (note_sack (note_ws scs s1))"
  have "syn_options_state s1" using fs(1) by (simp add: syn_options_state_def)
  then obtain synack' where synack': "writeHeaderOptions synack s1 = Inr (synack', s2)"
      "options synack' = syn_options scs synack s1"
    using syn_header_lengths[OF assms(4) _ assms(5) fs(2) assms(6)]
      write_syn_options[OF assms(4) _ assms(5) fs(2) refl]
    by (auto simp: scs_def s2_def)
  define c1' where "c1' = c1\<lparr>fsm := TCP_S_SYN_SENT\<rparr>"
  have fc: "ws_support (state c1') = ws_support (state c)" "sack_support (state c1') = sack_support (state c)"
    "ts_support (state c1') = ts_support (state c)" "snd_mss (state c1') = snd_mss (state c)"
    "snd_ws (state c1') = ws_support (state c)" "snd_sack_perm (state c1') = sack_support (state c)"
    "snd_initial_ts (state c1') = ts_support (state c)" "\<not> ws_enabled (state c1')"
    "\<not> sack_enabled (state c1')" "\<not> ts_enabled (state c1')"
    "ws_support (state c) \<Longrightarrow> rcv_wnd_scale (state c1) = scc"
    using assms(8) by (simp_all add: c1'_def c1_def oc fresh_options_def)
  have fs2: "snd_mss (state s2) = snd_mss (state s1)" "ws_enabled (state s2) = (offers_ws s1)"
    "sack_enabled (state s2) = offers_sack s1" "ts_enabled (state s2) = offers_ts s1"
    "snd_wnd_scale (state s2) = snd_wnd_scale (state s1)"
    "offers_ws s1 \<Longrightarrow> rcv_wnd_scale (state s2) = scs"
    using fl os unfolding s2_def by simp_all
  define c0 where "c0 = (if offers_sack s1 then learn_sack else id)
    ((if offers_ws s1 then learn_ws scs else id) (learn_mss (snd_mss (state s1)) c1'))"
  have pos: "snd_mss (state s1) > 0" using min by (simp only: fl(7) word_gt_0)
  have "fsm c1' \<in> {TCP_S_LISTEN, TCP_S_SYN_SENT}" by (simp add: c1'_def)
  from read_syn_options_eq[OF this fc(10) synack'(2)] obtain v' where
    c2: "readHeaderOptions synack' c1' = Inr ((if offers_ts s1 then learn_ts v' else id) c0)"
    unfolding c0_def if_P[OF pos] by blast
  define c2 where "c2 = (if offers_ts s1 then learn_ts v' else id) c0"
  define mss where "mss = min (snd_mss (state c)) (snd_mss (state s))"
  have m: "min (snd_mss (state s)) (snd_mss (state c)) = mss" "min (snd_mss (state c)) mss = mss"
    by (simp_all add: mss_def min.commute)
  have "mss \<noteq> 0" using min by (simp only: m not_False_eq_True)
  then have fc2: "ws_enabled (state c2) = offers_ws s1" "sack_enabled (state c2) = offers_sack s1"
    "ts_enabled (state c2) = offers_ts s1" "snd_mss (state c2) = mss"
    "offers_ws s1 \<Longrightarrow> snd_wnd_scale (state c2) = scs"
    using fc(1-10) os syn_scale_le[of rqs "state s1", THEN leD]
    by (simp_all add: c2_def c0_def scs_def fl(7) m)
  have c2': "readHeaderOptions synack' (c1\<lparr>fsm := TCP_S_SYN_SENT\<rparr>) = Inr c2"
    using c2 unfolding c2_def c1'_def .
  have s1': "readHeaderOptions syn' s = Inr s1" using s1 unfolding s1_def .
  have en: "ws_enabled (state c2) = (ws_support (state c) \<and> ws_support (state s))"
    "ws_enabled (state s2) = (ws_support (state c) \<and> ws_support (state s))"
    "sack_enabled (state c2) = (sack_support (state c) \<and> sack_support (state s))"
    "sack_enabled (state s2) = (sack_support (state c) \<and> sack_support (state s))"
    "ts_enabled (state c2) = (ts_support (state c) \<and> ts_support (state s))"
    "ts_enabled (state s2) = (ts_support (state c) \<and> ts_support (state s))"
    unfolding fc2(1-3) fs2(2-4) os by (rule conj_commute)+
  have ms: "snd_mss (state c2) = min (snd_mss (state c)) (snd_mss (state s))"
    "snd_mss (state s2) = min (snd_mss (state c)) (snd_mss (state s))"
    unfolding fc2(4) fs2(1) fl(7) m mss_def by (rule refl)+
  have sc: "ws_enabled (state s2) \<longrightarrow> snd_wnd_scale (state s2) = rcv_wnd_scale (state c1)
      \<and> snd_wnd_scale (state c2) = rcv_wnd_scale (state s2)"
  proof (intro impI conjI)
    assume "ws_enabled (state s2)"
    then have "offers_ws s1" "ws_support (state c)" using fs2(2) os(1) by simp_all
    then show "snd_wnd_scale (state s2) = rcv_wnd_scale (state c1)"
      "snd_wnd_scale (state c2) = rcv_wnd_scale (state s2)"
      using fs2(5,6) fl(11) fc(11) fc2(5) by simp_all
  qed
  show ?thesis
    by (intro exI conjI) (rule syn'(1) s1' synack'(1) c2' en ms sc)+
qed

text \<open>A client that supports everything, and a server without SACK.\<close>

definition hs_client :: "unit TCPConnection" where
  "hs_client = wnd_example\<lparr>state := (new_TCPStateVariables ())\<lparr>snd_mss := 1460, ws_support := True,
     ts_support := True, sack_support := True, maxRcvBuffer := 200000\<rparr>\<rparr>"

definition hs_server :: "unit TCPConnection" where
  "hs_server = wnd_example\<lparr>fsm := TCP_S_LISTEN, state := (new_TCPStateVariables ())\<lparr>snd_mss := 536,
     ws_support := True, ts_support := True, maxRcvBuffer := 100000\<rparr>\<rparr>"

theorem handshake_agrees_witness:
  "\<exists>syn' c1 s1 synack' s2 c2.
     writeHeaderOptions (new_TCPSegment\<lparr>synBit := True\<rparr>) hs_client = Inr (syn', c1)
   \<and> readHeaderOptions syn' hs_server = Inr s1
   \<and> writeHeaderOptions (new_TCPSegment\<lparr>synBit := True, ackBit := True\<rparr>) s1 = Inr (synack', s2)
   \<and> readHeaderOptions synack' (c1\<lparr>fsm := TCP_S_SYN_SENT\<rparr>) = Inr c2
   \<and> ws_enabled (state c2) \<and> \<not> sack_enabled (state c2) \<and> ts_enabled (state s2)
   \<and> snd_mss (state c2) = 536"
proof -
  have "\<exists>rq. receiveQueue hs_client = Some rq" "\<exists>rq. receiveQueue hs_server = Some rq"
    by (simp_all add: hs_client_def hs_server_def wnd_example_def)
  then obtain rqc rqs where rq: "receiveQueue hs_client = Some rqc" "receiveQueue hs_server = Some rqs"
    by blast
  have f: "fsm hs_client = TCP_S_INIT" "fsm hs_server = TCP_S_LISTEN"
    "fresh_options (state hs_client)" "fresh_options (state hs_server)"
    "snd_mss (state hs_client) > 0" "snd_mss (state hs_server) > 0"
    by (simp_all add: hs_client_def hs_server_def wnd_example_def new_TCPConnection_def
        new_TCPStateVariables_def fresh_options_def)
  have v: "ws_support (state hs_client)" "ws_support (state hs_server)" "\<not> sack_support (state hs_server)"
    "ts_support (state hs_client)" "ts_support (state hs_server)"
    "min (snd_mss (state hs_client)) (snd_mss (state hs_server)) = 536"
    by (simp_all add: hs_client_def hs_server_def new_TCPStateVariables_def)
  have n: "synBit (new_TCPSegment\<lparr>synBit := True\<rparr>)" "options (new_TCPSegment\<lparr>synBit := True\<rparr>) = []"
    "headerLength (new_TCPSegment\<lparr>synBit := True\<rparr>) = TCP_HEADER_OCTETS"
    "synBit (new_TCPSegment\<lparr>synBit := True, ackBit := True\<rparr>)"
    "options (new_TCPSegment\<lparr>synBit := True, ackBit := True\<rparr>) = []"
    "headerLength (new_TCPSegment\<lparr>synBit := True, ackBit := True\<rparr>) = TCP_HEADER_OCTETS"
    by (simp_all add: new_TCPSegment_def)
  show ?thesis
    using handshake_agrees[OF n f(1,3) rq(1) f(2,4) rq(2) f(5,6)] unfolding v(6)
    using v(1-5) by blast
qed

theorem syn_header_length_witness:
  "\<exists>seg' c'. writeHeaderOptions (new_TCPSegment\<lparr>synBit := True\<rparr>) hs_client = Inr (seg', c')
     \<and> 4 dvd unat (headerLength seg')"
proof -
  have "\<exists>rq. receiveQueue hs_client = Some rq" by (simp add: hs_client_def wnd_example_def)
  then obtain rq where rq: "receiveQueue hs_client = Some rq" by blast
  have n: "synBit (new_TCPSegment\<lparr>synBit := True\<rparr>)" "options (new_TCPSegment\<lparr>synBit := True\<rparr>) = []"
    "headerLength (new_TCPSegment\<lparr>synBit := True\<rparr>) = TCP_HEADER_OCTETS"
    by (simp_all add: new_TCPSegment_def)
  have f: "syn_options_state hs_client" "first_syn_state hs_client"
    by (simp_all add: hs_client_def wnd_example_def new_TCPConnection_def syn_options_state_def
        first_syn_state_def)
  show ?thesis using syn_header_length[OF n(1) f(1) n(2) rq n(3)] f(2) by blast
qed

theorem synack_header_unaligned_witness:
  "\<exists>seg' c'. writeHeaderOptions (new_TCPSegment\<lparr>synBit := True, ackBit := True\<rparr>)
       (hs_server\<lparr>state := (state hs_server)\<lparr>sack_support := True, rcv_sack_perm := True\<rparr>\<rparr>) = Inr (seg', c')
     \<and> unat (headerLength seg') mod 4 = 2"
proof -
  define c where "c = hs_server\<lparr>state := (state hs_server)\<lparr>sack_support := True, rcv_sack_perm := True\<rparr>\<rparr>"
  define seg where "seg = new_TCPSegment\<lparr>synBit := True, ackBit := True\<rparr>"
  have "\<exists>rq. receiveQueue c = Some rq" by (simp add: c_def hs_server_def wnd_example_def)
  then obtain rq where rq: "receiveQueue c = Some rq" by blast
  have n: "synBit seg" "options seg = []" "headerLength seg = TCP_HEADER_OCTETS"
    by (simp_all add: seg_def new_TCPSegment_def)
  have f: "syn_options_state c" "\<not> first_syn_state c" "sack_support (state c)" "rcv_sack_perm (state c)"
    "ts_support (state c)" "\<not> rcv_initial_ts (state c)"
    by (simp_all add: c_def hs_server_def wnd_example_def new_TCPConnection_def syn_options_state_def
        first_syn_state_def new_TCPStateVariables_def)
  show ?thesis
    using synack_header_unaligned[OF n(1) f(1) n(2) rq n(3) f(2-6)] unfolding c_def seg_def .
qed

end
