(* ===== verification/TCP_Alg_Laws.thy ===== *)
theory TCP_Alg_Laws
  imports TCP_Flavours
begin

text \<open>
  What the algorithms guarantee: every transition of the state machine succeeds with them and
  leaves no timer behind; the retransmission timeout stays within its bounds, doubles at each
  expiry and ends in an abort; the windows of the congestion control move as RFC 2581 has it.
\<close>

section \<open>Transitions\<close>

text \<open>
  With TCPBaseAlg and the flavours over it, every event takes a connection to the next state of
  the state machine without an error; no timer of the handshake is pending after it, none at all
  once CLOSED, and the application hears at most once that the connection is closed.
\<close>

theorem transition_with_base_alg:
  assumes "timers_ok c" "told_ok c" "tcpAlgorithm c" "fsm c \<noteq> TCP_S_CLOSED"
    and "base_timers_ok (alg (state c))"
  shows "\<exists>c'. performStateTransition base_notify e c = Inr (fsm c' \<noteq> TCP_S_CLOSED, c')
    \<and> (e \<noteq> TCP_E_IGNORE \<longrightarrow> fsm c' = next_state (active (state c)) (fsm c) e)
    \<and> timers_ok c' \<and> told_ok c' \<and> tcpAlgorithm c' \<and> base_timers_ok (alg (state c'))"
  using base_closing.transition_ok[OF assms(1,3,4,2,5)] .

definition par_example :: TCP_par where
  "par_example = \<lparr>par_advertisedWindow = 14000, par_windowScalingSupport = False,
     par_delayedAcksEnabled = False, par_nagleEnabled = True, par_limitedTransmitEnabled = False,
     par_increasedIWEnabled = False, par_mss = 536, par_timestampSupport = False,
     par_sackSupport = False, par_tcpAlgorithmClass = ''TCPReno''\<rparr>"

definition alg_example :: "BaseAlg TCPConnection" where
  "alg_example = (new_TCPConnection (new_BaseAlg\<lparr>rexmitTimer := Timer_idle, persistTimer := Timer_idle,
       delayedAckTimer := Timer_idle, keepAliveTimer := Timer_idle\<rparr>) par_example 0 0 1)
     \<lparr>tcpAlgorithm := True\<rparr>"

lemma alg_example_ok:
  "timers_ok alg_example" "told_ok alg_example" "tcpAlgorithm alg_example" "fsm alg_example = TCP_S_INIT"
  "base_timers_ok (alg (state alg_example))" "\<not> sack_enabled (state alg_example)"
  "rexmitTimer (alg_of alg_example) = Timer_idle" "rexmit_count (alg_of alg_example) = 0"
  by (simp_all add: alg_example_def new_TCPConnection_def timers_ok_def told_ok_def closed_inds_def
      new_TCPStateVariables_def base_timers_ok_def alg_of_def new_BaseAlg_def)

theorem transition_with_base_alg_witness:
  "\<exists>c'. performStateTransition base_notify TCP_E_OPEN_ACTIVE alg_example = Inr (fsm c' \<noteq> TCP_S_CLOSED, c')
     \<and> fsm c' = TCP_S_SYN_SENT"
proof -
  have "fsm alg_example \<noteq> TCP_S_CLOSED" by (simp add: alg_example_ok)
  from transition_with_base_alg[OF alg_example_ok(1-3) this alg_example_ok(5), of TCP_E_OPEN_ACTIVE]
  show ?thesis by (auto simp: alg_example_ok(4) next_state_def)
qed

section \<open>The retransmission timeout\<close>

definition rto_ok :: "'z BaseAlg_scheme \<Rightarrow> bool" where
  "rto_ok a \<longleftrightarrow> MIN_REXMIT_TIMEOUT \<le> rexmit_timeout a \<and> rexmit_timeout a \<le> MAX_REXMIT_TIMEOUT"

lemma rto_ok_new: "rto_ok new_BaseAlg"
  by (simp add: rto_ok_def new_BaseAlg_def alg_constants)

lemma rto_ok_measure: "rto_ok (rttMeasurementComplete tSent tAcked a)"
  by (auto simp: rto_ok_def rttMeasurementComplete_def Let_def alg_constants)

lemma rto_ok_persist: "rto_ok a \<Longrightarrow> rto_ok (next_persist a)"
  by (auto simp: rto_ok_def next_persist_def Let_def alg_constants)

text \<open>One expiry of the retransmission timer, when retransmissions are left and when not.\<close>

lemma rto_reset_sack_ok:
  assumes "sack_enabled (state c) \<Longrightarrow> rexmitQueue c \<noteq> None"
  shows "\<exists>c'. rto_reset_sack c = Inr c' \<and> alg_of c' = alg_of c \<and> sent c' = sent c \<and> simTime c' = simTime c
    \<and> fsm c' = fsm c \<and> sack_enabled (state c') = sack_enabled (state c)
    \<and> (rexmitQueue c \<noteq> None \<longrightarrow> rexmitQueue c' \<noteq> None)"
proof (cases "sack_enabled (state c)")
  case True
  then obtain q where q: "rexmitQueue c = Some q" using assms by auto
  show ?thesis using True
    by (cases "lossRecovery (state c)") (simp_all add: rto_reset_sack_def Let_def alg_of_def q)
next
  case False
  then show ?thesis by (simp add: rto_reset_sack_def)
qed

lemma alg_of_upd [simp]: "alg_of (upd_alg f c) = f (alg_of c)"
  by (simp add: alg_of_def upd_alg_def)

lemma upd_alg_state [simp]:
  "sack_enabled (state (upd_alg f c)) = sack_enabled (state c)"
  "rexmitQueue (upd_alg f c) = rexmitQueue c" "connId (upd_alg f c) = connId c"
  by (simp_all add: upd_alg_def)

lemma rexmit_expiry:
  assumes "rexmitTimer (alg_of c) = Timer_idle" "sack_enabled (state c) \<Longrightarrow> rexmitQueue c \<noteq> None"
    and "rexmit_count (alg_of c) < MAX_REXMIT_COUNT"
  shows "\<exists>c'. base_processRexmitTimer c = Inr (TCP_E_IGNORE, c')
    \<and> rexmit_count (alg_of c') = rexmit_count (alg_of c) + 1
    \<and> rexmit_timeout (alg_of c') = min (2 * rexmit_timeout (alg_of c)) MAX_REXMIT_TIMEOUT
    \<and> rexmitTimer (alg_of c') = Timer_at (simTime c + rexmit_timeout (alg_of c'))
    \<and> sent c' = sent c \<and> simTime c' = simTime c \<and> fsm c' = fsm c
    \<and> (sack_enabled (state c') \<longrightarrow> rexmitQueue c' \<noteq> None)"
proof -
  define rto where "rto = min (2 * rexmit_timeout (alg_of c)) MAX_REXMIT_TIMEOUT"
  define c1 where "c1 = upd_alg (\<lambda>a. a\<lparr>rexmit_count := rexmit_count a + 1\<rparr>) c"
  define c2 where "c2 = upd_alg (\<lambda>a. a\<lparr>rexmit_timeout := rto, rexmitTimer := Timer_at (simTime c + rto),
    rtseq_sendtime := 0, numRtos := numRtos a + 1\<rparr>) c1"
  have "sack_enabled (state c2) \<Longrightarrow> rexmitQueue c2 \<noteq> None" using assms(2) by (simp add: c2_def c1_def)
  from rto_reset_sack_ok[OF this] obtain c3 where c3: "rto_reset_sack c2 = Inr c3" "alg_of c3 = alg_of c2"
    "sent c3 = sent c" "simTime c3 = simTime c" "fsm c3 = fsm c"
    "sack_enabled (state c3) = sack_enabled (state c)" "rexmitQueue c \<noteq> None \<longrightarrow> rexmitQueue c3 \<noteq> None"
    by (auto simp: c2_def c1_def)
  have n: "\<not> rexmit_count (alg_of c1) > MAX_REXMIT_COUNT" using assms(3) by (simp add: c1_def)
  have r: "(if rexmit_timeout (alg_of c1) + rexmit_timeout (alg_of c1) > MAX_REXMIT_TIMEOUT then MAX_REXMIT_TIMEOUT
     else rexmit_timeout (alg_of c1) + rexmit_timeout (alg_of c1)) = rto" by (simp add: c1_def rto_def)
  have t: "scheduleTimeout (simTime c1) rto (rexmitTimer (alg_of c1)) = Inr (Timer_at (simTime c + rto))"
    using assms(1) by (simp add: scheduleTimeout_def c1_def)
  have "base_processRexmitTimer c = Inr (TCP_E_IGNORE, upd (\<lambda>s. s\<lparr>time_last_data_sent := simTime c3\<rparr>) c3)"
    unfolding base_processRexmitTimer_def c1_def [symmetric] Let_def if_not_P[OF n] r t bind_res_Inr
      c2_def [symmetric] c3(1) by (rule refl)
  then show ?thesis
    using c3 assms(2) by (auto simp: alg_of_def rto_def c2_def c1_def)
qed

lemma rexmit_exhausted:
  assumes "rexmit_count (alg_of c) \<ge> MAX_REXMIT_COUNT"
  shows "\<exists>c'. base_processRexmitTimer c = Inr (TCP_E_ABORT, c')
    \<and> sent c' = sent c @ [Out_indication TCP_I_TIMED_OUT (connId c) 0]"
  using assms
  by (simp add: base_processRexmitTimer_def Let_def signalConnectionTimeout_def)

text \<open>
  Nothing but expiries of the retransmission timer: each one marks the timer idle, as the arrival
  of the message does, and processes it.
\<close>

fun rexmit_run :: "nat \<Rightarrow> 'z base_conn \<Rightarrow> (TCPEventCode \<times> 'z base_conn) res" where
  "rexmit_run 0 c = Inr (TCP_E_IGNORE, c)"
| "rexmit_run (Suc n) c =
     bind_res (base_processRexmitTimer (upd_alg (\<lambda>a. a\<lparr>rexmitTimer := Timer_idle\<rparr>) c)) (\<lambda>(e, c1).
       if e = TCP_E_ABORT then Inr (e, c1) else rexmit_run n c1)"

lemma rexmit_run_ends:
  assumes "sack_enabled (state c) \<longrightarrow> rexmitQueue c \<noteq> None" "rexmit_count (alg_of c) = k"
    and "k \<le> MAX_REXMIT_COUNT"
  shows "\<exists>c'. rexmit_run (nat (MAX_REXMIT_COUNT - k) + 1) c = Inr (TCP_E_ABORT, c')"
  using assms
proof (induction "nat (MAX_REXMIT_COUNT - k)" arbitrary: c k)
  case 0
  then have "rexmit_count (alg_of (upd_alg (\<lambda>a. a\<lparr>rexmitTimer := Timer_idle\<rparr>) c)) \<ge> MAX_REXMIT_COUNT"
    by simp
  from rexmit_exhausted[OF this] 0(1) show ?case by (auto simp flip: 0(1))
next
  case (Suc n)
  let ?c = "upd_alg (\<lambda>a. a\<lparr>rexmitTimer := Timer_idle\<rparr>) c"
  have "k < MAX_REXMIT_COUNT" using Suc.hyps(2) by simp
  then obtain c1 where c1: "base_processRexmitTimer ?c = Inr (TCP_E_IGNORE, c1)"
    "rexmit_count (alg_of c1) = k + 1" "sack_enabled (state c1) \<longrightarrow> rexmitQueue c1 \<noteq> None"
    using rexmit_expiry[of ?c] Suc.prems by auto
  have "n = nat (MAX_REXMIT_COUNT - (k + 1))" using Suc.hyps(2) by simp
  moreover have "k + 1 \<le> MAX_REXMIT_COUNT" using \<open>k < MAX_REXMIT_COUNT\<close> by simp
  ultimately obtain c' where c': "rexmit_run (n + 1) c1 = Inr (TCP_E_ABORT, c')"
    using Suc.hyps(1)[OF _ c1(3,2)] by metis
  have "rexmit_run (Suc (Suc n)) c = rexmit_run (Suc n) c1"
    using c1(1) rexmit_run.simps(2)[of "Suc n" c] by (simp del: rexmit_run.simps)
  moreover have "nat (MAX_REXMIT_COUNT - k) + 1 = Suc (Suc n)" using Suc.hyps(2) by simp
  ultimately have "rexmit_run (nat (MAX_REXMIT_COUNT - k) + 1) c = Inr (TCP_E_ABORT, c')"
    using c' by (simp only: Suc_eq_plus1)
  then show ?case by blast
qed



text \<open>
  The timeouts on the way there: each expiry doubles the timeout, up to 240 seconds, and the timer
  runs for that long.
\<close>

lemma min_doubled:
  fixes r m :: int
  assumes "0 \<le> m"
  shows "min (2 ^ n * min (2 * r) m) m = min (2 ^ Suc n * r) m"
proof (cases "2 * r \<le> m")
  case False
  have "m \<le> 2 ^ n * m" using mult_right_mono[of 1 "2 ^ n" m] assms by simp
  moreover have "2 * r \<le> 2 ^ n * (2 * r)" using mult_right_mono[of 1 "2 ^ n" "2 * r"] assms False by simp
  ultimately show ?thesis using False by (simp add: min_def)
qed (simp add: min_def algebra_simps)

lemma rexmit_run_backoff:
  assumes "rexmit_count (alg_of c) + int n \<le> MAX_REXMIT_COUNT" "sack_enabled (state c) \<longrightarrow> rexmitQueue c \<noteq> None"
    and "rto_ok (alg_of c)"
  shows "\<exists>c'. rexmit_run n c = Inr (TCP_E_IGNORE, c') \<and> simTime c' = simTime c
    \<and> rexmit_timeout (alg_of c') = min (2 ^ n * rexmit_timeout (alg_of c)) MAX_REXMIT_TIMEOUT
    \<and> (0 < n \<longrightarrow> rexmitTimer (alg_of c') = Timer_at (simTime c + rexmit_timeout (alg_of c')))"
  using assms
proof (induction n arbitrary: c)
  case 0
  then show ?case by (simp add: rto_ok_def)
next
  case (Suc n)
  let ?c = "upd_alg (\<lambda>a. a\<lparr>rexmitTimer := Timer_idle\<rparr>) c"
  let ?r = "rexmit_timeout (alg_of c)"
  have "rexmit_count (alg_of ?c) < MAX_REXMIT_COUNT" using Suc.prems(1) by simp
  then obtain c1 where c1: "base_processRexmitTimer ?c = Inr (TCP_E_IGNORE, c1)"
    "rexmit_count (alg_of c1) = rexmit_count (alg_of c) + 1"
    "rexmit_timeout (alg_of c1) = min (2 * ?r) MAX_REXMIT_TIMEOUT"
    "rexmitTimer (alg_of c1) = Timer_at (simTime c + rexmit_timeout (alg_of c1))"
    "simTime c1 = simTime c" "sack_enabled (state c1) \<longrightarrow> rexmitQueue c1 \<noteq> None"
    using rexmit_expiry[of ?c] Suc.prems(2) by auto
  have "rto_ok (alg_of c1)"
    using Suc.prems(3) by (auto simp: rto_ok_def c1(3) alg_constants)
  moreover have "rexmit_count (alg_of c1) + int n \<le> MAX_REXMIT_COUNT" using Suc.prems(1) c1(2) by simp
  ultimately obtain c' where c': "rexmit_run n c1 = Inr (TCP_E_IGNORE, c')" "simTime c' = simTime c"
    "rexmit_timeout (alg_of c') = min (2 ^ n * rexmit_timeout (alg_of c1)) MAX_REXMIT_TIMEOUT"
    "0 < n \<longrightarrow> rexmitTimer (alg_of c') = Timer_at (simTime c + rexmit_timeout (alg_of c'))"
    using Suc.IH[of c1] c1(5,6) by auto
  have r: "rexmit_run (Suc n) c = Inr (TCP_E_IGNORE, c')"
    using c1(1) c'(1) by simp
  have "rexmit_timeout (alg_of c') = min (2 ^ Suc n * ?r) MAX_REXMIT_TIMEOUT"
    unfolding c'(3) c1(3) by (rule min_doubled) (simp add: alg_constants)
  moreover have "rexmitTimer (alg_of c') = Timer_at (simTime c + rexmit_timeout (alg_of c'))"
    using c'(1,4) c1(4) by (cases n) auto
  ultimately show ?case using r c'(2) by blast
qed

text \<open>
  The retransmission timeout doubles with every expiry and stays between its bounds.
\<close>

theorem rexmit_backoff:
  assumes "rexmit_count (alg_of c) = 0" "n \<le> 12" "sack_enabled (state c) \<longrightarrow> rexmitQueue c \<noteq> None"
    and "rto_ok (alg_of c)"
  shows "\<exists>c'. rexmit_run n c = Inr (TCP_E_IGNORE, c')
    \<and> rexmit_timeout (alg_of c') = min (2 ^ n * rexmit_timeout (alg_of c)) (seconds 240)
    \<and> seconds 1 \<le> rexmit_timeout (alg_of c')
    \<and> (0 < n \<longrightarrow> rexmitTimer (alg_of c') = Timer_at (simTime c + rexmit_timeout (alg_of c')))"
proof -
  obtain c' where c': "rexmit_run n c = Inr (TCP_E_IGNORE, c')"
    "rexmit_timeout (alg_of c') = min (2 ^ n * rexmit_timeout (alg_of c)) MAX_REXMIT_TIMEOUT"
    "0 < n \<longrightarrow> rexmitTimer (alg_of c') = Timer_at (simTime c + rexmit_timeout (alg_of c'))"
    using rexmit_run_backoff[of c n] assms by (auto simp: MAX_REXMIT_COUNT_def)
  have r: "seconds 1 \<le> rexmit_timeout (alg_of c)" using assms(4) by (simp add: rto_ok_def MIN_REXMIT_TIMEOUT_def)
  then have m: "rexmit_timeout (alg_of c) \<le> 2 ^ n * rexmit_timeout (alg_of c)"
    using mult_right_mono[of 1 "2 ^ n" "rexmit_timeout (alg_of c)"] by (simp add: seconds_def)
  have "seconds 1 \<le> rexmit_timeout (alg_of c')"
    unfolding c'(2) MAX_REXMIT_TIMEOUT_def min.bounded_iff
    using order_trans[OF r m] by (simp add: seconds_def)
  then show ?thesis using c' by (auto simp: MAX_REXMIT_TIMEOUT_def)
qed

theorem rexmit_backoff_witness:
  "\<exists>c'. rexmit_run 7 alg_example = Inr (TCP_E_IGNORE, c') \<and> rexmit_timeout (alg_of c') = seconds 240"
proof -
  have "rexmit_timeout (alg_of alg_example) = seconds 3" "rto_ok (alg_of alg_example)"
    by (simp_all add: alg_example_def new_TCPConnection_def new_TCPStateVariables_def new_BaseAlg_def
        alg_of_def rto_ok_def alg_constants)
  then show ?thesis
    using rexmit_backoff[OF alg_example_ok(8), of 7] alg_example_ok(6) by (auto simp: seconds_def)
qed

section \<open>The persist timer\<close>

lemma next_persist_factor:
  "persist_factor (next_persist a) = (if persist_factor a = 0 then 1
     else if persist_factor a < 64 then persist_factor a * 2 else persist_factor a)"
  by (simp add: next_persist_def Let_def)

lemma persist_factors:
  assumes "persist_factor a = 0"
  shows "persist_factor ((next_persist ^^ Suc n) a) = 2 ^ min n 6"
proof (induction n)
  case 0
  then show ?case using assms by (simp add: next_persist_factor)
next
  case (Suc n)
  have "(next_persist ^^ Suc (Suc n)) a = next_persist ((next_persist ^^ Suc n) a)" by simp
  then have f: "persist_factor ((next_persist ^^ Suc (Suc n)) a) = (if (2 :: u32) ^ min n 6 = 0 then 1
     else if (2 :: u32) ^ min n 6 < 64 then 2 ^ min n 6 * 2 else 2 ^ min n 6)"
    by (simp only: next_persist_factor Suc.IH)
  show ?case
  proof (cases "n < 6")
    case True
    then have "n \<in> {0, 1, 2, 3, 4, 5}" by auto
    then show ?thesis unfolding f by auto
  next
    case False
    then show ?thesis unfolding f by simp
  qed
qed

text \<open>
  The persist timeouts are 1.5, 3, 6, 12, 24, 48, 96, 96, ... seconds: the bounds of 5 and 60
  seconds that the comment promises are applied to the retransmission timeout, which every probe
  sets to 5 or to 60 seconds when the persist timeout is outside of them.
\<close>

theorem persist_backoff:
  assumes "persist_factor a = 0"
  shows "persist_timeout ((next_persist ^^ Suc n) a) = 2 ^ min n 6 * 1500000000000
    \<and> (n < 2 \<longrightarrow> persist_timeout ((next_persist ^^ Suc n) a) < MIN_PERSIST_TIMEOUT
               \<and> rexmit_timeout ((next_persist ^^ Suc n) a) = MIN_PERSIST_TIMEOUT)
    \<and> (6 \<le> n \<longrightarrow> MAX_PERSIST_TIMEOUT < persist_timeout ((next_persist ^^ Suc n) a)
               \<and> rexmit_timeout ((next_persist ^^ Suc n) a) = MAX_PERSIST_TIMEOUT)"
proof -
  let ?b = "(next_persist ^^ Suc n) a"
  have f: "persist_factor ?b = 2 ^ min n 6" using persist_factors[OF assms] .
  have b: "persist_timeout ?b = uint (persist_factor ?b) * 1500000000000"
    "rexmit_timeout ?b = (if persist_timeout ?b > MAX_PERSIST_TIMEOUT then MAX_PERSIST_TIMEOUT
      else if persist_timeout ?b < MIN_PERSIST_TIMEOUT then MIN_PERSIST_TIMEOUT
      else rexmit_timeout ((next_persist ^^ n) a))"
    by (simp_all add: next_persist_def Let_def)
  have "min n 6 \<in> {0, 1, 2, 3, 4, 5, 6}" by (auto simp: min_def)
  then have "uint (2 ^ min n 6 :: u32) = 2 ^ min n 6" by auto
  then have t: "persist_timeout ?b = 2 ^ min n 6 * 1500000000000" using b(1) f by simp
  have "n < 2 \<Longrightarrow> min n 6 = 0 \<or> min n 6 = 1" by auto
  moreover have "6 \<le> n \<Longrightarrow> min n 6 = 6" by simp
  ultimately show ?thesis using t b(2) by (auto simp: alg_constants)
qed

theorem persist_backoff_witness:
  "persist_timeout ((next_persist ^^ Suc 1) new_BaseAlg) = 3000000000000
   \<and> rexmit_timeout ((next_persist ^^ Suc 6) new_BaseAlg) = MAX_PERSIST_TIMEOUT"
proof -
  have "persist_factor new_BaseAlg = 0" by (simp add: new_BaseAlg_def)
  from persist_backoff[OF this, of 1] persist_backoff[OF this, of 6] show ?thesis by simp
qed

end
