(* ===== verification/TCP_Send_Laws.thy ===== *)
theory TCP_Send_Laws
  imports TCP_Alg_Laws TCP_Windows
begin

text \<open>
  Sending data without SACK: a connection that is set up sends without an error as much as the
  windows of the peer and of the congestion control allow and the queue holds, and nothing beyond.
  The laws of the algorithm that this rests on are the locale \<open>sending_algorithm\<close>, of which DumbTCP
  and TCPBaseAlg are instances.
\<close>

section \<open>What sending reads\<close>

text \<open>
  The part of a connection that sending reads and does not change, apart from \<open>snd_nxt\<close>,
  \<open>snd_max\<close>, the algorithm's own state and the receive window.
\<close>

definition send_view where
  "send_view c = (sendQueue c, receiveQueue c, fsm c, tcpAlgorithm c, simTime c,
     snd_una (state c), snd_wnd (state c), snd_mss (state c), ts_enabled (state c),
     sack_enabled (state c), send_fin (state c), snd_fin_seq (state c))"

definition send_pos :: "'alg TCPConnection \<Rightarrow> u32 \<times> u32 \<times> bool" where
  "send_pos c = (snd_nxt (state c), snd_max (state c), afterRto (state c))"

text \<open>
  The connection has its queues, timestamps are enabled only in the states in which the options
  are written, a segment has room for data, and the FIN that is to be sent follows the queue.
\<close>

definition send_ok :: "'alg TCPConnection \<Rightarrow> bool" where
  "send_ok c \<longleftrightarrow> (\<exists>sq rq. sendQueue c = Some sq \<and> sendq_inv sq \<and> receiveQueue c = Some rq
       \<and> (send_fin (state c) \<longrightarrow> snd_fin_seq (state c) = sendq_getBufferEndSeq sq))
     \<and> rcv_window_ok (state c) \<and> \<not> sack_enabled (state c) \<and> 12 < snd_mss (state c)
     \<and> (ts_enabled (state c) \<longrightarrow> fsm c = TCP_S_SYN_SENT \<or> fsm c = TCP_S_SYN_RCVD
          \<or> fsm c = TCP_S_ESTABLISHED \<or> fsm c = TCP_S_FIN_WAIT_1 \<or> fsm c = TCP_S_FIN_WAIT_2)"

lemma send_ok_view:
  assumes "send_ok c" "send_view c' = send_view c" "rcv_window_ok (state c')"
  shows "send_ok c'"
  using assms by (simp add: send_ok_def send_view_def)

text \<open>The effective window as a signed number.\<close>

lemma sint_u32: "sint (d::u32) = (int (unat d) + 2147483648) mod 4294967296 - 2147483648"
  by (simp add: sint_uint signed_take_bit_eq_take_bit_shift take_bit_eq_mod)
lemma sint_u32_low: "unat (d::u32) < 2147483648 \<Longrightarrow> sint d = int (unat d)"
  unfolding sint_u32 by (subst mod_pos_pos_trivial) linarith+
lemma sint_u32_high: 
  assumes "2147483648 \<le> unat (d::u32)" shows "sint d = int (unat d) - 4294967296"
proof -
  have "unat d < 4294967296" using unsigned_less[of d, where 'a = nat] by simp
  then have "(int (unat d) - 2147483648) mod 4294967296 = int (unat d) - 2147483648"
    using assms by (intro mod_pos_pos_trivial) linarith+
  moreover have "int (unat d) + 2147483648 = (int (unat d) - 2147483648) + 4294967296" by simp
  ultimately have "(int (unat d) + 2147483648) mod 4294967296 = int (unat d) - 2147483648"
    by (simp only: mod_add_self2)
  then show ?thesis unfolding sint_u32 by simp
qed
lemma sint_window:
  fixes w f :: "u32"
  assumes "unat w < 2147483648" "unat f < 2147483648"
  shows "sint (w - f) \<le> 0 \<longleftrightarrow> \<not> f < w"
proof (cases "unat f \<le> unat w")
  case True
  then have "unat (w - f) = unat w - unat f" by (simp add: unat_sub_if')
  moreover from this have "sint (w - f) = int (unat (w - f))" using assms by (intro sint_u32_low) simp
  ultimately show ?thesis by (simp add: word_less_nat_alt not_less)
next
  case False
  then have "unat (w - f) = unat w + 4294967296 - unat f" by (simp add: unat_sub_if')
  moreover from this have "sint (w - f) = int (unat (w - f)) - 4294967296" using assms by (intro sint_u32_high) simp
  ultimately show ?thesis using False by (simp add: word_less_nat_alt not_less of_nat_diff)
qed

text \<open>Octets of options in a data segment, and of data in a full one.\<close>

definition opt_octets :: "'alg TCPConnection \<Rightarrow> u32" where
  "opt_octets c = (if ts_enabled (state c) then 12 else 0)"

lemma room_for_data: "12 < snd_mss (state c) \<Longrightarrow> 0 < snd_mss (state c) - opt_octets c"
  by (auto simp: opt_octets_def word_less_nat_alt unat_sub_u32)

lemma room_bound: "12 < snd_mss (state c) \<Longrightarrow> snd_mss (state c) - opt_octets c \<le> snd_mss (state c)"
  by (auto simp: opt_octets_def word_less_nat_alt word_le_nat_alt unat_sub_u32)

lemma opt_octets_view: "send_view c' = send_view c \<Longrightarrow> opt_octets c' = opt_octets c"
  by (simp add: opt_octets_def send_view_def)

section \<open>One segment\<close>

lemma data_segment_options:
  assumes "send_ok c"
  shows "\<exists>temp. writeHeaderOptions (new_TCPSegment\<lparr>ackBit := True\<rparr>) c = Inr (temp, c)
    \<and> ucast (headerLength temp) - ucast TCP_HEADER_OCTETS = opt_octets c
    \<and> TCP_HEADER_OCTETS \<le> headerLength temp \<and> headerLength temp \<le> TCP_MAX_HEADER_OCTETS"
proof -
  define seg where "seg = new_TCPSegment\<lparr>ackBit := True\<rparr>"
  have seg: "\<not> synBit seg" "options seg = []" "headerLength seg = 20"
    by (simp_all add: seg_def new_TCPSegment_def TCP_HEADER_OCTETS_def)
  have sack: "\<not> sack_enabled (state c)" using assms by (simp add: send_ok_def)
  show ?thesis
  proof (cases "ts_enabled (state c)")
    case True
    then have fsm: "fsm c = TCP_S_SYN_SENT \<or> fsm c = TCP_S_SYN_RCVD
        \<or> fsm c = TCP_S_ESTABLISHED \<or> fsm c = TCP_S_FIN_WAIT_1 \<or> fsm c = TCP_S_FIN_WAIT_2"
      using assms by (simp add: send_ok_def)
    define seg1 where "seg1 = seg\<lparr>options := [NOP_option, NOP_option, TS_option seg c]\<rparr>"
    have p: "put_option NOP_option (put_option NOP_option (seg, 0, c))
        = (seg\<lparr>options := [NOP_option, NOP_option]\<rparr>, 2, c)"
      by (simp add: put_option_def seg)
    have "write_TS (seg, 0, c) = Inr (seg1, 3, c)"
      using True sack by (simp add: write_TS_def p) (simp add: put_option_def seg1_def TS_option_def)
    then have w: "writeHeaderOptions seg c = Inr (close_options seg1, c)"
      using fsm seg sack by (simp add: writeHeaderOptions_def write_SACK_def)
    have "getOptionsArrayLength seg1 = 12"
      by (simp add: getOptionsArrayLength_def seg1_def NOP_option_def TS_option_def)
    then have "headerLength (close_options seg1) = 32"
      by (simp add: close_options_def seg1_def Let_def TCP_OPTIONS_MAX_SIZE_def TCP_HEADER_OCTETS_def)
    then show ?thesis
      using w True by (simp add: seg_def TCP_HEADER_OCTETS_def TCP_MAX_HEADER_OCTETS_def opt_octets_def)
  next
    case False
    then have w: "writeHeaderOptions seg c = Inr (seg, c)"
      using seg sack by (simp add: writeHeaderOptions_def write_TS_def write_SACK_def close_options_def)
    then show ?thesis using False
      by (simp add: seg_def [symmetric] seg TCP_HEADER_OCTETS_def TCP_MAX_HEADER_OCTETS_def opt_octets_def)
  qed
qed

lemma min_octets:
  fixes b m k :: u32
  assumes "unat b < 2 ^ 31" "k \<le> 12" "12 < m"
  shows "(if b + k > m then m - k else b) = min b (m - k)" "k < m"
proof -
  have k: "unat k \<le> 12" "unat k < unat m" using assms(2,3) by (auto simp: word_le_nat_alt word_less_nat_alt)
  then have "unat (b + k) = unat b + unat k" "unat (m - k) = unat m - unat k"
    using assms(1) by (auto simp: unat_add_u32 unat_sub_u32)
  then show "(if b + k > m then m - k else b) = min b (m - k)"
    using k by (auto simp: min_def word_less_nat_alt word_le_nat_alt word_unat_eq_iff)
  show "k < m" using k by (simp add: word_less_nat_alt)
qed

text \<open>
  What one call of \<open>sendSegment\<close> does: \<open>n\<close> octets, or these and the FIN, leave in one segment.
\<close>

definition fin_here :: "'alg TCPConnection \<Rightarrow> u32 \<Rightarrow> bool" where
  "fin_here c n \<longleftrightarrow> send_fin (state c) \<and> snd_nxt (state c) + n = snd_fin_seq (state c)"

definition segment_sent :: "u32 \<Rightarrow> 'alg TCPConnection \<Rightarrow> 'alg TCPConnection \<Rightarrow> bool" where
  "segment_sent n c c' \<longleftrightarrow> send_view c' = send_view c \<and> rcv_window_ok (state c')
     \<and> alg (state c') = alg (state c) \<and> snd_max (state c') = snd_max (state c)
     \<and> snd_nxt (state c') = snd_nxt (state c) + n + (if fin_here c n then 1 else 0)
     \<and> sentBytes (state c') = n
     \<and> (\<exists>seg ms. sent c' = sent c @ Out_segment seg (localAddr c) (remoteAddr c) # ms
          \<and> sequenceNo seg = snd_nxt (state c) \<and> payloadLength seg = n \<and> (finBit seg \<longleftrightarrow> fin_here c n)
          \<and> (\<forall>m \<in> set ms. \<exists>i k. m = Out_indication TCP_I_SEND_MSG i k))"

lemma request_data_ok:
  assumes "sendQueue c \<noteq> None"
  shows "\<exists>q ms. request_data c = Inr (c\<lparr>state := (state c)\<lparr>queueUpdate := q\<rparr>, sent := sent c @ ms\<rparr>)
    \<and> (\<forall>m \<in> set ms. \<exists>i k. m = Out_indication TCP_I_SEND_MSG i k)"
proof -
  obtain sq where sq: "sendQueue c = Some sq" using assms by blast
  let ?a = "sendq_getBytesAvailable sq (sendq_getBufferStartSeq sq)"
  let ?b = "if sendQueueLimit (state c) > ?a then sendQueueLimit (state c) - ?a else 0"
  show ?thesis
  proof (cases "sendQueueLimit (state c) > 0 \<and> \<not> queueUpdate (state c) \<and> ?b \<ge> snd_mss (state c)")
    case True
    have "request_data c = Inr (upd (\<lambda>s. s\<lparr>queueUpdate := True\<rparr>)
        (sendIndicationToApp TCP_I_SEND_MSG (sint ?b) c))"
      unfolding request_data_def sq deref_Some bind_res_Inr Let_def if_P[OF True] by (intro refl)
    then show ?thesis
      by (intro exI[of _ True] exI[of _ "[Out_indication TCP_I_SEND_MSG (connId c) (sint ?b)]"])
        (simp add: upd_def sendIndicationToApp_def emit_def)
  next
    case False
    have "request_data c = Inr c"
      unfolding request_data_def sq deref_Some bind_res_Inr Let_def if_not_P[OF False] by (rule refl)
    then show ?thesis by (intro exI[of _ "queueUpdate (state c)"] exI[of _ "[]"]) simp
  qed
qed

text \<open>The position of \<open>snd_nxt\<close> inside the send queue, and what lies there.\<close>

definition in_queue :: "'alg TCPConnection \<Rightarrow> TCPSendQueue \<Rightarrow> bool" where
  "in_queue c sq \<longleftrightarrow> off (sendq_getBufferStartSeq sq) (snd_nxt (state c))
     \<le> off (sendq_getBufferStartSeq sq) (sendq_getBufferEndSeq sq)"

lemma queued_octets:
  assumes "sendq_inv sq" "in_queue c sq"
  shows "off (sendq_getBufferStartSeq sq) (snd_nxt (state c))
      + unat (sendq_getBytesAvailable sq (snd_nxt (state c)))
      = off (sendq_getBufferStartSeq sq) (sendq_getBufferEndSeq sq)"
    and "unat (sendq_getBytesAvailable sq (snd_nxt (state c))) < 2 ^ 31"
proof -
  show *: "off (sendq_getBufferStartSeq sq) (snd_nxt (state c))
      + unat (sendq_getBytesAvailable sq (snd_nxt (state c)))
      = off (sendq_getBufferStartSeq sq) (sendq_getBufferEndSeq sq)"
    using any_send.available[OF assms(1)] assms(2) by (simp add: in_queue_def sendq_getBytesAvailable_def)
  show "unat (sendq_getBytesAvailable sq (snd_nxt (state c))) < 2 ^ 31"
    using * any_send.inv_half[OF assms(1)] by (simp add: in_half_def)
qed

lemma sendSegment_ok:
  assumes ok: "send_ok c" and sq: "sendQueue c = Some sq" and q: "in_queue c sq"
    and n: "n = min (min bytes (sendq_getBytesAvailable sq (snd_nxt (state c)))) (snd_mss (state c) - opt_octets c)"
  shows "\<exists>c'. sendSegment bytes c = Inr c' \<and> segment_sent n c c'"
proof -
  define b where "b = sendq_getBytesAvailable sq (snd_nxt (state c))"
  define b1 where "b1 = (if bytes > b then b else bytes)"
  from ok sq obtain rq where rq: "receiveQueue c = Some rq" and inv: "sendq_inv sq"
    and w: "rcv_window_ok (state c)" and sack: "\<not> sack_enabled (state c)" and mss: "12 < snd_mss (state c)"
    by (auto simp: send_ok_def)
  have b: "unat b < 2 ^ 31" using queued_octets(2)[OF inv q] by (simp add: b_def)
  have b1: "b1 = min bytes b" by (simp add: b1_def min_def not_less [symmetric])
  then have b1': "unat b1 < 2 ^ 31" using b by (auto simp: min_def word_le_nat_alt split: if_splits)
  have o12: "opt_octets c \<le> 12" by (simp add: opt_octets_def)
  note m = min_octets[OF b1' o12 mss, folded n[unfolded b_def [symmetric] b1 [symmetric]]]
  have m': "(if b1 + opt_octets c > snd_mss (state c) then snd_mss (state c) - opt_octets c else b1) = n"
    using m(1) n by (simp add: b1 b_def)
  obtain temp where t: "writeHeaderOptions (new_TCPSegment\<lparr>ackBit := True\<rparr>) c = Inr (temp, c)"
    "ucast (headerLength temp) - ucast TCP_HEADER_OCTETS = opt_octets c"
    "TCP_HEADER_OCTETS \<le> headerLength temp" "headerLength temp \<le> TCP_MAX_HEADER_OCTETS"
    using data_segment_options[OF ok] by blast
  have "n \<le> b" by (simp add: n b_def min.coboundedI1)
  then obtain seg where seg: "sendq_createSegmentWithBytes sq (snd_nxt (state c)) n = Inr seg"
    "sequenceNo seg = snd_nxt (state c)" "payloadLength seg = n" "\<not> finBit seg"
    using any_send.create_law[OF inv, of "snd_nxt (state c)" n] queued_octets(1)[OF inv q]
    by (auto simp: b_def word_le_nat_alt)
  define c2 where "c2 = upd (\<lambda>s. s\<lparr>sentBytes := n\<rparr>) c"
  have "rcv_window_ok (state c2)" "receiveQueue c2 = Some rq"
    using w rq by (simp_all add: c2_def rcv_window_ok_def)
  then obtain win a k e f c4 where win: "updateRcvWnd c2 = Inr (win, c4)"
    "c4 = c2\<lparr>state := (state c2)\<lparr>freeRcvBuffer := a, usedRcvBuffer := k,
      rcv_adv := rcv_nxt (state c2) + e, rcv_wnd := e, rcv_wnd_scale := f\<rparr>\<rparr>" "rcv_window_ok (state c4)"
    using updateRcvWnd_ok[of c2 rq] by blast
  define c5 where "c5 = upd (\<lambda>s. s\<lparr>snd_nxt := snd_nxt s + n\<rparr>) c4"
  define c6 where "c6 = upd (\<lambda>s. s\<lparr>afterRto := afterRto s \<and> \<not> seqGE (snd_nxt s) (snd_max s)\<rparr>) c5"
  obtain seg2 c7 where f: "set_fin (seg\<lparr>ackNo := rcv_nxt (state c2), ackBit := True, window := win\<rparr>) c6 = (seg2, c7)"
    by fastforce
  have fh: "send_fin (state c6) \<and> snd_nxt (state c6) = snd_fin_seq (state c6) \<longleftrightarrow> fin_here c n"
    by (simp add: fin_here_def c6_def c5_def win(2) c2_def)
  have c7: "c7 = (if fin_here c n then upd (\<lambda>s. s\<lparr>snd_nxt := snd_fin_seq s + 1\<rparr>) c6 else c6)"
    and seg2: "sequenceNo seg2 = snd_nxt (state c)" "payloadLength seg2 = n" "finBit seg2 = fin_here c n"
    using f seg by (auto simp: set_fin_def fh split: if_splits)
  define seg3 where "seg3 = seg2\<lparr>options := options temp, headerLength := headerLength temp\<rparr>"
  have "build_segment bytes c = Inr (seg3, c7)"
    unfolding build_segment_def sq deref_Some bind_res_Inr Let_def b_def [symmetric] b1_def [symmetric]
      t(1) case_prod_conv t(2) ASSERT_True[OF m(2)] m'
    using seg sack win(1) f by (simp add: c2_def c5_def c6_def seg3_def)
  moreover have "forward_snd_nxt c = Inr c" using sack by (simp add: forward_snd_nxt_def)
  moreover define c8 where "c8 = emit (Out_segment (seg3\<lparr>srcPort := word_of_int (localPort c7),
      destPort := word_of_int (remotePort c7)\<rparr>) (localAddr c7) (remoteAddr c7))
      (upd (\<lambda>s. s\<lparr>sentBytes := payloadLength seg3\<rparr>) c7)"
  then have "sendToIP seg3 c7 = Inr c8" using t(3,4) by (simp add: sendToIP_def seg3_def)
  ultimately have "sendSegment bytes c = request_data c8" by (simp add: sendSegment_def)
  moreover have "sendQueue c8 \<noteq> None"
    using sq by (simp add: c8_def c7 c6_def c5_def win(2) c2_def)
  then obtain qu ms where ms: "request_data c8 = Inr (c8\<lparr>state := (state c8)\<lparr>queueUpdate := qu\<rparr>, sent := sent c8 @ ms\<rparr>)"
      "\<forall>m \<in> set ms. \<exists>i k. m = Out_indication TCP_I_SEND_MSG i k"
    using request_data_ok by blast
  define c9 where "c9 = c8\<lparr>state := (state c8)\<lparr>queueUpdate := qu\<rparr>, sent := sent c8 @ ms\<rparr>"
  have c6: "send_view c6 = send_view c" "alg (state c6) = alg (state c)" "snd_max (state c6) = snd_max (state c)"
    "snd_nxt (state c6) = snd_nxt (state c) + n" "rcv_window_ok (state c6)" "sent c6 = sent c"
    "localAddr c6 = localAddr c" "remoteAddr c6 = remoteAddr c"
    using win(3) by (simp_all add: c6_def c5_def win(2) c2_def send_view_def rcv_window_ok_def)
  have c7': "send_view c7 = send_view c" "alg (state c7) = alg (state c)" "snd_max (state c7) = snd_max (state c)"
    "snd_nxt (state c7) = snd_nxt (state c) + n + (if fin_here c n then 1 else 0)" "rcv_window_ok (state c7)"
    "sent c7 = sent c" "localAddr c7 = localAddr c" "remoteAddr c7 = remoteAddr c"
    using c6 fh by (auto simp: c7 send_view_def rcv_window_ok_def)
  have "segment_sent n c c9"
    unfolding segment_sent_def
  proof (intro conjI exI)
    show "sent c9 = sent c @ Out_segment (seg3\<lparr>srcPort := word_of_int (localPort c7),
        destPort := word_of_int (remotePort c7)\<rparr>) (localAddr c) (remoteAddr c) # ms"
      using c7' by (simp add: c9_def c8_def)
  qed (use c7' seg2 ms(2) in \<open>simp_all add: c9_def c8_def send_view_def rcv_window_ok_def seg3_def\<close>)
  then show ?thesis using calculation ms(1) by (intro exI[of _ c9]) (simp add: c9_def)
qed

section \<open>Several segments\<close>

text \<open>
  Messages that carry the octets from \<open>s\<close> to \<open>e\<close> in segments of at most \<open>m\<close> octets, one after the
  other.
\<close>

fun contiguous :: "u32 \<Rightarrow> u32 \<Rightarrow> out_msg list \<Rightarrow> u32 \<Rightarrow> bool" where
  "contiguous m s [] e \<longleftrightarrow> s = e"
| "contiguous m s (Out_segment seg src dest # ms) e \<longleftrightarrow>
     sequenceNo seg = s \<and> payloadLength seg \<le> m \<and> contiguous m (s + payloadLength seg) ms e"
| "contiguous m s (_ # ms) e \<longleftrightarrow> contiguous m s ms e"

lemma contiguous_append:
  "contiguous m s ms e \<Longrightarrow> contiguous m e ms' e' \<Longrightarrow> contiguous m s (ms @ ms') e'"
  by (induction m s ms e rule: contiguous.induct) auto

lemma contiguous_indications:
  "\<forall>x \<in> set ms. \<exists>i k. x = Out_indication TCP_I_SEND_MSG i k \<Longrightarrow> contiguous m s ms s"
  by (induction ms) auto

definition data_sent :: "u32 \<Rightarrow> 'alg TCPConnection \<Rightarrow> 'alg TCPConnection \<Rightarrow> bool" where
  "data_sent k c c' \<longleftrightarrow> send_view c' = send_view c \<and> rcv_window_ok (state c')
     \<and> alg (state c') = alg (state c) \<and> snd_max (state c') = snd_max (state c)
     \<and> snd_nxt (state c') = snd_nxt (state c) + k + (if 0 < k \<and> fin_here c k then 1 else 0)
     \<and> (\<exists>ms. sent c' = sent c @ ms
          \<and> contiguous (snd_mss (state c) - opt_octets c) (snd_nxt (state c)) ms (snd_nxt (state c) + k))"

lemma data_sent_0: "rcv_window_ok (state c) \<Longrightarrow> data_sent 0 c c"
  by (simp add: data_sent_def)

lemma data_sent_segment:
  assumes "segment_sent n c c1" "n \<le> snd_mss (state c) - opt_octets c" "0 < n"
  shows "data_sent n c c1"
proof -
  obtain seg ms where seg: "sent c1 = sent c @ Out_segment seg (localAddr c) (remoteAddr c) # ms"
    "sequenceNo seg = snd_nxt (state c)" "payloadLength seg = n"
    "\<forall>m \<in> set ms. \<exists>i k. m = Out_indication TCP_I_SEND_MSG i k"
    using assms(1) by (auto simp: segment_sent_def)
  then have "contiguous (snd_mss (state c) - opt_octets c) (snd_nxt (state c))
      (Out_segment seg (localAddr c) (remoteAddr c) # ms) (snd_nxt (state c) + n)"
    using assms(2) contiguous_indications by simp
  then show ?thesis using assms(1,3) seg(1) by (auto simp: segment_sent_def data_sent_def)
qed

lemma data_sent_trans:
  assumes "data_sent n c c1" "data_sent k c1 c2" "\<not> fin_here c n" "unat n + unat k < 4294967296"
  shows "data_sent (n + k) c c2"
proof -
  have v: "send_view c1 = send_view c" "snd_nxt (state c1) = snd_nxt (state c) + n"
    using assms(1,3) by (simp_all add: data_sent_def)
  have f: "fin_here c1 k = fin_here c (n + k)"
    using v by (simp add: fin_here_def send_view_def add.assoc)
  have "0 < k \<longrightarrow> 0 < n + k" using assms(4) by (auto simp: unat_add_u32 word_less_nat_alt)
  moreover have "k = 0 \<longrightarrow> \<not> fin_here c (n + k)" using assms(3) by simp
  ultimately have p: "0 < k \<and> fin_here c1 k \<longleftrightarrow> 0 < n + k \<and> fin_here c (n + k)"
    using f by (auto simp: word_gt_0)
  have m: "snd_mss (state c1) - opt_octets c1 = snd_mss (state c) - opt_octets c"
    using v(1) opt_octets_view[OF v(1)] by (simp add: send_view_def)
  obtain ms ms' where ms: "sent c1 = sent c @ ms" "sent c2 = sent c1 @ ms'"
    "contiguous (snd_mss (state c) - opt_octets c) (snd_nxt (state c)) ms (snd_nxt (state c) + n)"
    "contiguous (snd_mss (state c) - opt_octets c) (snd_nxt (state c) + n) ms' (snd_nxt (state c) + n + k)"
    using assms(1,2) v(2) m by (auto simp: data_sent_def)
  from contiguous_append[OF ms(3,4)] ms(1,2)
  have "\<exists>ms. sent c2 = sent c @ ms
    \<and> contiguous (snd_mss (state c) - opt_octets c) (snd_nxt (state c)) ms (snd_nxt (state c) + (n + k))"
    by (intro exI[of _ "ms @ ms'"]) (simp add: add.assoc)
  moreover have "snd_nxt (state c2) = snd_nxt (state c) + (n + k)
      + (if 0 < n + k \<and> fin_here c (n + k) then 1 else 0)"
    using assms(2) v(2) p by (simp add: data_sent_def add.assoc)
  ultimately show ?thesis
    using assms(1,2) by (simp add: data_sent_def)
qed

lemma data_sent_ok: "send_ok c \<Longrightarrow> data_sent k c c' \<Longrightarrow> send_ok c'"
  by (rule send_ok_view[of c]) (simp_all add: data_sent_def)

text \<open>What is left in the queue after \<open>k\<close> octets.\<close>

lemma queue_after:
  assumes "sendq_inv sq" "in_queue c sq" "data_sent k c c'" "sendQueue c = Some sq" "send_ok c"
    and "k \<le> sendq_getBytesAvailable sq (snd_nxt (state c))"
  shows "unat (sendq_getBytesAvailable sq (snd_nxt (state c')))
      = unat (sendq_getBytesAvailable sq (snd_nxt (state c))) - unat k"
    and "\<not> fin_here c k \<Longrightarrow> in_queue c' sq"
    and "fin_here c k \<Longrightarrow> k = sendq_getBytesAvailable sq (snd_nxt (state c))"
proof -
  define b e where "b = sendq_getBufferStartSeq sq" and "e = sendq_getBufferEndSeq sq"
  define x where "x = snd_nxt (state c)"
  note q = queued_octets[OF assms(1,2), folded b_def e_def x_def]
  have be: "off b e < 2 ^ 31" using any_send.inv_half[OF assms(1)] by (simp add: in_half_def b_def e_def)
  have k: "unat k \<le> unat (sendq_getBytesAvailable sq x)" using assms(6) by (simp add: word_le_nat_alt x_def)
  have o: "off b (x + k) = off b x + unat k"
    using q k be by (intro off_plus) simp
  show fin: "fin_here c k \<Longrightarrow> k = sendq_getBytesAvailable sq (snd_nxt (state c))"
  proof -
    assume "fin_here c k"
    then have "x + k = e" using assms(4,5) by (auto simp: fin_here_def send_ok_def e_def x_def)
    then have "unat k = unat (sendq_getBytesAvailable sq x)" using o q(1) by simp
    then show ?thesis by (simp add: word_unat_eq_iff x_def)
  qed
  show "\<not> fin_here c k \<Longrightarrow> in_queue c' sq"
    using assms(3) o q(1) k by (simp add: data_sent_def in_queue_def b_def [symmetric] e_def [symmetric] x_def [symmetric])
  show "unat (sendq_getBytesAvailable sq (snd_nxt (state c')))
      = unat (sendq_getBytesAvailable sq (snd_nxt (state c))) - unat k"
  proof (cases "0 < k \<and> fin_here c k")
    case True
    then have x': "snd_nxt (state c') = e + 1"
      using assms(3,4,5) by (auto simp: data_sent_def fin_here_def send_ok_def e_def)
    have "sendq_getBytesAvailable sq (e + 1) = 0"
      by (simp add: sendq_getBytesAvailable_def getBytesAvailable_def e_def [symmetric] seqLess_def)
    then show ?thesis using x' fin True by simp
  next
    case False
    then have x': "snd_nxt (state c') = x + k" using assms(3) by (auto simp: data_sent_def x_def)
    have "in_queue (upd (\<lambda>s. s\<lparr>snd_nxt := x + k\<rparr>) c) sq"
      using o q(1) k by (simp add: in_queue_def b_def [symmetric] e_def [symmetric])
    from queued_octets(1)[OF assms(1) this] show ?thesis
      using o q(1) by (simp add: x' b_def [symmetric] e_def [symmetric] x_def [symmetric])
  qed
qed

lemma send_full_segments_ok:
  assumes "send_ok c" "sendQueue c = Some sq" "in_queue c sq"
    and "bytes \<le> sendq_getBytesAvailable sq (snd_nxt (state c))" "eff = snd_mss (state c) - opt_octets c"
  shows "\<exists>k c'. send_full_segments eff bytes c = Some (Inr (bytes - k, c')) \<and> data_sent k c c'
    \<and> k \<le> bytes \<and> bytes - k < eff"
  using assms
proof (induction "unat bytes" arbitrary: bytes c rule: less_induct)
  case less
  note ok = less.prems(1) and sq = less.prems(2) and q = less.prems(3) and le = less.prems(4) and eff = less.prems(5)
  have inv: "sendq_inv sq" and w: "rcv_window_ok (state c)" and mss: "12 < snd_mss (state c)"
    using ok sq by (auto simp: send_ok_def)
  have pos: "0 < eff" using room_for_data[OF mss] by (simp add: eff)
  show ?case
  proof (cases "bytes \<ge> eff")
    case False
    then have "send_full_segments eff bytes c = Some (Inr (bytes - 0, c))"
      by (simp add: send_full_segments.simps)
    then show ?thesis using data_sent_0[OF w] False by (intro exI[of _ 0] exI[of _ c]) simp
  next
    case True
    have le': "eff \<le> snd_mss (state c)"
      using room_bound[OF mss] by (simp add: eff)
    then have n: "eff = min (min (snd_mss (state c)) (sendq_getBytesAvailable sq (snd_nxt (state c))))
        (snd_mss (state c) - opt_octets c)"
      using True le by (simp add: eff [symmetric] min_absorb2)
    obtain c1 where c1: "sendSegment (snd_mss (state c)) c = Inr c1" "segment_sent eff c c1"
      using sendSegment_ok[OF ok sq q n] by blast
    have d1: "data_sent eff c c1" using data_sent_segment[OF c1(2) _ pos] by (simp add: eff)
    have ok1: "send_ok c1" using data_sent_ok[OF ok d1] .
    have v: "send_view c1 = send_view c" using d1 by (simp add: data_sent_def)
    then have sq1: "sendQueue c1 = Some sq" and eff1: "eff = snd_mss (state c1) - opt_octets c1"
      using sq eff opt_octets_view[OF v] by (simp_all add: send_view_def)
    have step: "send_full_segments eff bytes c = send_full_segments eff (bytes - eff) c1"
      using True c1 by (subst send_full_segments.simps) (simp add: segment_sent_def)
    note qa = queue_after[OF inv q d1 sq ok order_trans[OF True le]]
    have sub: "unat (bytes - eff) = unat bytes - unat eff" using True by (simp add: unat_sub)
    show ?thesis
    proof (cases "fin_here c eff")
      case True
      then have "bytes - eff = 0" using qa(3) le \<open>bytes \<ge> eff\<close> by simp
      moreover from this have "send_full_segments eff (bytes - eff) c1 = Some (Inr (bytes - eff, c1))"
        using pos by (subst send_full_segments.simps) (simp add: word_gt_0)
      ultimately show ?thesis using step d1 pos \<open>bytes \<ge> eff\<close>
        by (intro exI[of _ eff] exI[of _ c1]) simp
    next
      case False
      have "unat (bytes - eff) < unat bytes"
        using pos True sub by (simp add: word_less_nat_alt word_le_nat_alt)
      moreover have "bytes - eff \<le> sendq_getBytesAvailable sq (snd_nxt (state c1))"
        using qa(1) sub le by (simp add: word_le_nat_alt)
      ultimately obtain k c' where k: "send_full_segments eff (bytes - eff) c1 = Some (Inr (bytes - eff - k, c'))"
          "data_sent k c1 c'" "k \<le> bytes - eff" "bytes - eff - k < eff"
        using less.hyps[OF _ ok1 sq1 qa(2)[OF False] _ eff1] by blast
      have un: "unat eff + unat k \<le> unat bytes"
        using k(3) sub True by (simp add: word_le_nat_alt)
      then have "unat eff + unat k < 4294967296" using unat_u32_bound[of bytes] by linarith
      note d = data_sent_trans[OF d1 k(2) False this]
      have "unat (eff + k) = unat eff + unat k" using un unat_u32_bound[of bytes] by (intro unat_add_u32) linarith
      then have "eff + k \<le> bytes" using un by (simp add: word_le_nat_alt)
      then show ?thesis using step k d
        by (intro exI[of _ "eff + k"] exI[of _ c']) (simp add: diff_diff_eq)
    qed
  qed
qed

lemma send_bytes_ok:
  assumes ok: "send_ok c" and sq: "sendQueue c = Some sq" and q: "in_queue c sq" and pos: "0 < bytes"
    and le: "bytes \<le> sendq_getBytesAvailable sq (snd_nxt (state c))" and eff: "eff = snd_mss (state c) - opt_octets c"
  shows "\<exists>k c'. send_bytes eff bytes c = Inr c' \<and> data_sent k c c' \<and> 0 < k \<and> k \<le> bytes
    \<and> (bytes = sendq_getBytesAvailable sq (snd_nxt (state c)) \<and> 24 < snd_mss (state c) \<longrightarrow> k = bytes)"
proof -
  have inv: "sendq_inv sq" and mss: "12 < snd_mss (state c)" using ok sq by (auto simp: send_ok_def)
  define first where "first = (if bytes \<le> snd_mss (state c)
      then bind_res (sendSegment bytes c) (\<lambda>c'. Inr (bytes - sentBytes (state c'), c'))
      else of_loop (send_full_segments eff bytes c))"
  have epos: "0 < eff" using room_for_data[OF mss] by (simp add: eff)
  have "\<exists>k c1. first = Inr (bytes - k, c1) \<and> data_sent k c c1 \<and> 0 < k \<and> k \<le> bytes
      \<and> (24 < snd_mss (state c) \<longrightarrow> bytes - k < eff)"
  proof (cases "bytes \<le> snd_mss (state c)")
    case True
    define n where "n = min bytes eff"
    have n: "n = min (min bytes (sendq_getBytesAvailable sq (snd_nxt (state c)))) (snd_mss (state c) - opt_octets c)"
      using le by (simp add: n_def eff min_absorb1)
    obtain c1 where c1: "sendSegment bytes c = Inr c1" "segment_sent n c c1"
      using sendSegment_ok[OF ok sq q n] by blast
    have np: "0 < n" using pos epos by (simp add: n_def)
    have "bytes - n < eff" if "24 < snd_mss (state c)"
      using that True epos
      by (auto simp: n_def eff opt_octets_def min_def word_less_nat_alt word_le_nat_alt unat_sub_u32
          split: if_splits)
    moreover have "first = Inr (bytes - n, c1)" using True c1 by (simp add: first_def segment_sent_def)
    moreover have "data_sent n c c1" using data_sent_segment[OF c1(2) _ np] by (simp add: n_def eff)
    moreover have "n \<le> bytes" by (simp add: n_def)
    ultimately show ?thesis using np by blast
  next
    case False
    obtain k c1 where k: "send_full_segments eff bytes c = Some (Inr (bytes - k, c1))" "data_sent k c c1"
        "k \<le> bytes" "bytes - k < eff"
      using send_full_segments_ok[OF ok sq q le eff] by blast
    have "k \<noteq> 0" using k(4) False room_bound[OF mss] by (auto simp: eff)
    then show ?thesis using k False by (simp add: first_def word_gt_0)
  qed
  then obtain k c1 where k: "first = Inr (bytes - k, c1)" "data_sent k c c1" "0 < k" "k \<le> bytes"
    "24 < snd_mss (state c) \<longrightarrow> bytes - k < eff" by blast
  note qa = queue_after[OF inv q k(2) sq ok order_trans[OF k(4) le]]
  have ok1: "send_ok c1" using data_sent_ok[OF ok k(2)] .
  have v: "send_view c1 = send_view c" using k(2) by (simp add: data_sent_def)
  then have sq1: "sendQueue c1 = Some sq" and eff1: "eff = snd_mss (state c1) - opt_octets c1"
    using sq eff opt_octets_view[OF v] by (simp_all add: send_view_def)
  define left where "left = bytes - k"
  define avail where "avail = sendq_getBytesAvailable sq (snd_nxt (state c1))"
  have s: "send_bytes eff bytes c = (if left = avail \<and> avail \<noteq> 0 then sendSegment left c1 else Inr c1)"
    unfolding send_bytes_def first_def [symmetric] k(1) bind_res_Inr case_prod_conv
    by (simp add: bytes_from_def sq1 avail_def left_def)
  have un: "unat left = unat bytes - unat k" using k(4) by (simp add: left_def unat_sub)
  have sat: "avail = left" if "bytes = sendq_getBytesAvailable sq (snd_nxt (state c))"
    using qa(1) un that by (simp add: word_unat_eq_iff avail_def)
  show ?thesis
  proof (cases "left = avail \<and> avail \<noteq> 0")
    case False
    from s[unfolded if_not_P[OF this]] have "send_bytes eff bytes c = Inr c1" .
    moreover have "k = bytes" if "bytes = sendq_getBytesAvailable sq (snd_nxt (state c))"
      using sat[OF that] False by (simp add: left_def)
    ultimately show ?thesis using k(2,3,4) by blast
  next
    case True
    have nf: "\<not> fin_here c k"
    proof
      assume "fin_here c k"
      then have "bytes = k" using qa(3) le k(4) by simp
      then show False using True by (simp add: left_def)
    qed
    define n where "n = min left eff"
    have n: "n = min (min left (sendq_getBytesAvailable sq (snd_nxt (state c1)))) (snd_mss (state c1) - opt_octets c1)"
      using True by (simp add: n_def eff1 avail_def)
    obtain c2 where c2: "sendSegment left c1 = Inr c2" "segment_sent n c1 c2"
      using sendSegment_ok[OF ok1 sq1 qa(2)[OF nf] n] by blast
    have np: "0 < n" using True epos by (simp add: n_def word_gt_0)
    have d: "data_sent n c1 c2" using data_sent_segment[OF c2(2) _ np] by (simp add: n_def eff1)
    have nl: "unat n \<le> unat left" by (simp add: n_def word_le_nat_alt [symmetric])
    have kb: "unat k \<le> unat bytes" using k(4) by (simp add: word_le_nat_alt)
    then have lt: "unat k + unat n < 4294967296" using nl un unat_u32_bound[of bytes] by linarith
    then have add: "unat (k + n) = unat k + unat n" by (intro unat_add_u32) simp
    have "n = left" if "24 < snd_mss (state c)" using that k(5) by (simp add: n_def left_def min_absorb1)
    then have "24 < snd_mss (state c) \<longrightarrow> k + n = bytes" by (simp add: left_def)
    moreover have "k + n \<le> bytes" using add nl un kb by (simp add: word_le_nat_alt)
    moreover have "0 < k + n" using add k(3) by (simp add: word_less_nat_alt)
    moreover have "send_bytes eff bytes c = Inr c2" using s True c2(1) by simp
    ultimately show ?thesis using data_sent_trans[OF k(2) d nf lt] by blast
  qed
qed

section \<open>The laws of the algorithm\<close>

text \<open>
  What sending relies on: the algorithm takes note of what was sent and of the acknowledgement
  that goes with it, and does not touch what sending reads.
\<close>

definition sending_kept :: "'alg TCPConnection \<Rightarrow> 'alg TCPConnection \<Rightarrow> bool" where
  "sending_kept c c' \<longleftrightarrow> send_view c' = send_view c \<and> send_pos c' = send_pos c \<and> sent c' = sent c
     \<and> (rcv_window_ok (state c) \<longrightarrow> rcv_window_ok (state c'))"

locale sending_algorithm =
  fixes na :: "'alg TCPAlgNotify" and alg_ok :: "'alg \<Rightarrow> bool"
  assumes ack_sent: "alg_ok (alg (state c)) \<Longrightarrow>
      \<exists>c'. na_ackSent na c = Inr c' \<and> sending_kept c c' \<and> alg_ok (alg (state c'))"
    and data_noted: "alg_ok (alg (state c)) \<Longrightarrow>
      \<exists>c'. na_dataSent na s c = Inr c' \<and> sending_kept c c' \<and> alg_ok (alg (state c'))"
begin

lemma sendData_ok:
  assumes ok: "send_ok c0" and al: "alg_ok (alg (state c0))" "tcpAlgorithm c0"
    and c: "c = (if afterRto (state c0) then c0 else upd (\<lambda>s. s\<lparr>snd_nxt := snd_max s\<rparr>) c0)"
    and sq: "sendQueue c0 = Some sq" and avail: "avail = sendq_getBytesAvailable sq (snd_nxt (state c))"
    and half: "in_half (sendq_getBufferStartSeq sq) (snd_nxt (state c))"
    and flight: "flight = snd_nxt (state c) - snd_una (state c)" "unat flight < 2147483648"
    and win: "win = min (snd_wnd (state c)) cwnd" "unat win < 2147483648"
    and nxt: "afterRto (state c0) \<longrightarrow> \<not> seqGreater (snd_nxt (state c0)) (snd_max (state c0))"
    and go: "go \<longleftrightarrow> avail \<noteq> 0 \<and> flight < win
      \<and> \<not> (full \<and> min (win - flight) avail < snd_mss (state c) - opt_octets c)"
  shows "\<exists>k c'. sendData na full cwnd c0 = Inr (go, c') \<and> send_ok c' \<and> alg_ok (alg (state c'))
    \<and> send_view c' = send_view c0 \<and> (0 < k \<longleftrightarrow> go) \<and> unat k \<le> unat win - unat flight \<and> k \<le> avail
    \<and> snd_nxt (state c') = snd_nxt (state c) + k + (if go \<and> fin_here c k then 1 else 0)
    \<and> snd_max (state c') = (if seqGreater (snd_nxt (state c')) (snd_max (state c0)) then snd_nxt (state c')
                           else snd_max (state c0))
    \<and> (\<exists>ms. sent c' = sent c0 @ ms
         \<and> contiguous (snd_mss (state c0) - opt_octets c0) (snd_nxt (state c)) ms (snd_nxt (state c) + k))
    \<and> (go \<and> unat avail \<le> unat win - unat flight \<and> 24 < snd_mss (state c0) \<longrightarrow> k = avail)"
proof -
  have vc: "send_view c = send_view c0" "rcv_window_ok (state c)" "alg (state c) = alg (state c0)"
      "sent c = sent c0" "snd_max (state c) = snd_max (state c0)"
    using ok by (auto simp: c send_view_def send_ok_def rcv_window_ok_def)
  have okc: "send_ok c" using send_ok_view[OF ok vc(1,2)] .
  have sqc: "sendQueue c = Some sq" using sq vc(1) by (simp add: send_view_def)
  have mss: "snd_mss (state c) = snd_mss (state c0)" using vc(1) by (simp add: send_view_def)
  have oo: "opt_octets c = opt_octets c0" using opt_octets_view[OF vc(1)] .
  have inv: "sendq_inv sq" and nosack: "\<not> sack_enabled (state c)" using okc sqc by (auto simp: send_ok_def)
  have opt: "(if ts_enabled (state c) then snd_mss (state c) - TCP_OPTION_TS_SIZE else snd_mss (state c))
      = snd_mss (state c) - opt_octets c"
    by (simp add: opt_octets_def TCP_OPTION_TS_SIZE_def)
  have eff: "\<not> sint (win - flight) \<le> 0 \<longleftrightarrow> flight < win"
    using sint_window[OF win(2) flight(2)] by simp
  have c': "(if \<not> afterRto (state c0) then upd (\<lambda>s. s\<lparr>snd_nxt := snd_max s\<rparr>) c0 else c0) = c"
    by (simp add: c)
  define bytes where "bytes = min (win - flight) avail"
  have room: "unat (win - flight) = unat win - unat flight" if "flight < win"
    using that by (simp add: unat_sub word_less_nat_alt word_le_nat_alt)
  have pos: "0 < bytes" if go
  proof -
    have "0 < avail" using that by (simp add: go word_gt_0)
    moreover have "0 < win - flight" using that room by (simp add: go word_less_nat_alt)
    ultimately have "0 < min (win - flight) avail" by simp
    then show ?thesis by (simp add: bytes_def)
  qed
  have no: "sendData na full cwnd c0 = Inr (False, c)" if "\<not> go"
    unfolding sendData_def c' Let_def bytes_from_def sqc deref_Some bind_res_Inr avail [symmetric]
      win(1) [symmetric] flight(1) [symmetric] opt if_not_P[OF nosack]
    using eff that by (auto simp: go)
  define after where "after c1 = bind_res (alg_call (na_ackSent na) (raise_snd_max c1)) (\<lambda>c2.
      bind_res (if sack_enabled (state c2) \<and> lossRecovery (state c2) \<and> 0 \<noteq> highRxt (state c2)
        then alg_call (na_restartRexmitTimer na) c2
        else alg_call (na_dataSent na (snd_nxt (state c))) c2) (\<lambda>c3. Inr (True, c3)))" for c1
  have yes: "sendData na full cwnd c0
      = bind_res (send_bytes (snd_mss (state c) - opt_octets c) bytes c) after" if go
  proof -
    have n: "\<not> avail = 0" "\<not> sint (win - flight) \<le> 0"
      "\<not> (full \<and> min (win - flight) avail < snd_mss (state c) - opt_octets c)"
      using that eff by (auto simp: go)
    show ?thesis
      unfolding sendData_def c' Let_def bytes_from_def sqc deref_Some bind_res_Inr avail [symmetric]
        win(1) [symmetric] flight(1) [symmetric] opt if_not_P[OF nosack] if_not_P[OF n(1)]
        if_not_P[OF n(2)] bytes_def [symmetric] if_not_P[OF n(3)[folded bytes_def]] ASSERT_True[OF pos[OF that]]
      by (simp only: after_def [abs_def])
  qed
  show ?thesis
  proof (cases go)
    case False
    have "sent c = sent c0 @ [] \<and> contiguous (snd_mss (state c0) - opt_octets c0) (snd_nxt (state c)) []
        (snd_nxt (state c) + 0)" using vc(4) by simp
    moreover have "\<not> seqGreater (snd_nxt (state c)) (snd_max (state c0))"
      using nxt by (simp add: c seqGreater_seqLess)
    ultimately show ?thesis using no[OF False] False vc okc al nxt
      by (intro exI[of _ 0] exI[of _ c] conjI exI[of _ "[]"]) auto
  next
    case True
    have "in_queue c sq"
      using True half any_send.inv_half[OF inv]
      by (auto simp: go avail sendq_getBytesAvailable_def getBytesAvailable_def in_queue_def seqLess_iff
          split: if_splits)
    have le: "bytes \<le> avail" by (simp add: bytes_def)
    obtain k c1 where k: "send_bytes (snd_mss (state c) - opt_octets c) bytes c = Inr c1" "data_sent k c c1"
      "0 < k" "k \<le> bytes" "bytes = avail \<and> 24 < snd_mss (state c) \<longrightarrow> k = bytes"
      using send_bytes_ok[OF okc sqc \<open>in_queue c sq\<close> pos[OF True] _ refl, unfolded avail [symmetric], OF le]
      by blast
    define c1' where "c1' = raise_snd_max c1"
    have c1': "send_view c1' = send_view c0" "rcv_window_ok (state c1')" "alg (state c1') = alg (state c0)"
      "snd_nxt (state c1') = snd_nxt (state c1)" "sent c1' = sent c1"
      "snd_max (state c1') = (if seqGreater (snd_nxt (state c1)) (snd_max (state c0))
        then snd_nxt (state c1) else snd_max (state c0))"
      using k(2) vc by (auto simp: c1'_def raise_snd_max_def data_sent_def send_view_def rcv_window_ok_def)
    obtain c2 where c2: "na_ackSent na c1' = Inr c2" "sending_kept c1' c2" "alg_ok (alg (state c2))"
      using ack_sent[of c1'] al c1'(3) by auto
    obtain c3 where c3: "na_dataSent na (snd_nxt (state c)) c2 = Inr c3" "sending_kept c2 c3"
        "alg_ok (alg (state c3))"
      using data_noted[of c2 "snd_nxt (state c)"] c2(3) by auto
    have kept: "send_view c2 = send_view c0" "send_view c3 = send_view c0" "send_pos c3 = send_pos c1'"
      "sent c3 = sent c1" "rcv_window_ok (state c3)"
      using c1' c2(2) c3(2) by (auto simp: sending_kept_def)
    have t: "tcpAlgorithm c1'" "tcpAlgorithm c2" "\<not> sack_enabled (state c2)"
      using c1'(1) kept(1) al(2) ok by (auto simp: send_view_def send_ok_def)
    have "after c1 = Inr (True, c3)"
      using t c2(1) c3(1) by (simp add: after_def c1'_def [symmetric] alg_call_def)
    then have r: "sendData na full cwnd c0 = Inr (go, c3)" using yes[OF True] k(1) True by simp
    have ok3: "send_ok c3" using send_ok_view[OF ok kept(2,5)] .
    have "k \<le> win - flight" using k(4) by (rule order_trans) (simp add: bytes_def)
    then have kb: "unat k \<le> unat win - unat flight" "k \<le> avail"
      using room True order_trans[OF k(4) le] by (simp_all add: go word_le_nat_alt)
    have p3: "snd_nxt (state c3) = snd_nxt (state c1)" "snd_max (state c3) = snd_max (state c1')"
      using kept(3) c1'(4) by (auto simp: send_pos_def)
    have nxt3: "snd_nxt (state c3) = snd_nxt (state c) + k + (if go \<and> fin_here c k then 1 else 0)"
      using p3(1) k(2,3) True by (simp add: data_sent_def)
    have max3: "snd_max (state c3) = (if seqGreater (snd_nxt (state c3)) (snd_max (state c0)) then snd_nxt (state c3)
        else snd_max (state c0))" using p3 c1'(6) by simp
    have ms3: "\<exists>ms. sent c3 = sent c0 @ ms
        \<and> contiguous (snd_mss (state c0) - opt_octets c0) (snd_nxt (state c)) ms (snd_nxt (state c) + k)"
      using k(2) kept(4) vc(4) mss oo by (auto simp: data_sent_def)
    have full3: "go \<and> unat avail \<le> unat win - unat flight \<and> 24 < snd_mss (state c0) \<longrightarrow> k = avail"
      using k(5) room True mss by (auto simp: go bytes_def min_def word_le_nat_alt word_unat_eq_iff)
    have "0 < k \<longleftrightarrow> go" using k(3) True by simp
    then show ?thesis
      by (intro exI[of _ k] exI[of _ c3] conjI) (rule r ok3 c3(3) kept(2) kb nxt3 max3 ms3 full3 | assumption)+
  qed
qed

end

section \<open>The algorithms as providers\<close>

lemma sending_kept_upd_alg: "sending_kept c (upd_alg f c)"
  by (simp add: sending_kept_def send_view_def send_pos_def upd_alg_def rcv_window_ok_def)

lemma set_dumb_timer_simps:
  "set_dumb_timer t (set_dumb_timer u c) = set_dumb_timer t c"
  "dumb_rexmitTimer (alg_of (set_dumb_timer t c)) = t" "simTime (set_dumb_timer t c) = simTime c"
  by (simp_all add: set_dumb_timer_def upd_alg_def upd_def alg_of_def)

lemma set_dumb_timer_same: "dumb_rexmitTimer (alg_of c) = t \<Longrightarrow> set_dumb_timer t c = c"
  by (simp add: set_dumb_timer_def upd_alg_def upd_def alg_of_def)

lemma dumb_dataSent_eq:
  assumes "dumb_timers_ok (alg (state c))"
  shows "dumb_dataSent s c = Inr (set_dumb_timer (Timer_at (simTime c + REXMIT_TIMEOUT)) c)"
proof -
  define b where "b = pending (dumb_rexmitTimer (alg_of c))"
  have b: "isScheduled (dumb_rexmitTimer (alg_of c)) = Inr b"
    "(if b then cancelEvent (dumb_rexmitTimer (alg_of c)) else Inr (dumb_rexmitTimer (alg_of c))) = Inr Timer_idle"
    using assms[folded alg_of_def]
    by (auto simp: isScheduled_def cancelEvent_def dumb_timers_ok_def b_def pending_def split: timer.splits)
  show ?thesis
    unfolding dumb_dataSent_def b bind_res_Inr dumb_schedule_def set_dumb_timer_simps
    by (simp add: scheduleTimeout_def set_dumb_timer_simps)
qed

interpretation dumb_sending: sending_algorithm dumb_notify dumb_timers_ok
proof
  fix c :: "DumbTCP TCPConnection" and s
  assume a: "dumb_timers_ok (alg (state c))"
  show "\<exists>c'. na_ackSent dumb_notify c = Inr c' \<and> sending_kept c c' \<and> dumb_timers_ok (alg (state c'))"
    using a by (simp add: dumb_notify_def sending_kept_def)
  have "\<exists>t. na_dataSent dumb_notify s c = Inr (set_dumb_timer t c) \<and> t \<noteq> Timer_null"
    using dumb_dataSent_eq[OF a, of s]
    by (intro exI[of _ "Timer_at (simTime c + REXMIT_TIMEOUT)"]) (simp add: dumb_notify_def)
  then obtain t where t: "na_dataSent dumb_notify s c = Inr (set_dumb_timer t c)" "t \<noteq> Timer_null" by blast
  then show "\<exists>c'. na_dataSent dumb_notify s c = Inr c' \<and> sending_kept c c' \<and> dumb_timers_ok (alg (state c'))"
    using sending_kept_upd_alg[of c "\<lambda>a. a\<lparr>dumb_rexmitTimer := t\<rparr>"]
    by (simp add: set_dumb_timer_def dumb_timers_ok_def)
qed

lemma base_ackSent_ok:
  assumes "base_timers_ok (alg (state c))"
  shows "\<exists>c'. base_ackSent c = Inr c' \<and> sending_kept c c' \<and> base_timers_ok (alg (state c'))"
  using assms
  by (cases "delayedAckTimer (alg (state c))")
    (simp_all add: base_ackSent_def Let_def alg_of_def isScheduled_def cancelEvent_def base_timers_ok_def
      sending_kept_def send_view_def send_pos_def upd_alg_def rcv_window_ok_def)

lemma base_dataSent_ok:
  assumes "base_timers_ok (alg (state c))"
  shows "\<exists>c'. base_dataSent s c = Inr c' \<and> sending_kept c c' \<and> base_timers_ok (alg (state c'))"
proof -
  obtain t where t: "isScheduled (rexmitTimer (alg_of c)) = Inr t"
    "\<not> t \<longrightarrow> rexmitTimer (alg_of c) = Timer_idle"
    using assms by (cases "rexmitTimer (alg (state c))") (auto simp: isScheduled_def base_timers_ok_def alg_of_def)
  define c1 where "c1 = (if \<not> t then upd_alg (\<lambda>a. a\<lparr>rexmit_count := 0,
    rexmitTimer := Timer_at (simTime c + rexmit_timeout (alg_of c))\<rparr>) c else c)"
  have "(if \<not> t then startRexmitTimer c else Inr c) = Inr c1"
    using t(2) by (simp add: c1_def startRexmitTimer_def scheduleTimeout_def)
  then have r: "base_dataSent s c = Inr (upd (\<lambda>s. s\<lparr>time_last_data_sent := simTime c1\<rparr>)
      (if \<not> ts_enabled (state c1) \<and> rtseq_sendtime (alg_of c1) = 0
       then upd_alg (\<lambda>a. a\<lparr>rtseq := s, rtseq_sendtime := simTime c1\<rparr>) c1 else c1))"
    unfolding base_dataSent_def t(1) bind_res_Inr by (simp add: Let_def upd_alg_def)
  have "sending_kept c c1" "base_timers_ok (alg (state c1))"
    using sending_kept_upd_alg[of c] assms
    by (auto simp: c1_def base_timers_ok_def sending_kept_def)
  then show ?thesis unfolding r
    by (auto simp: sending_kept_def send_view_def send_pos_def upd_alg_def rcv_window_ok_def base_timers_ok_def)
qed

interpretation base_sending: sending_algorithm base_notify base_timers_ok
  by unfold_locales (simp_all add: base_notify_def base_ackSent_ok base_dataSent_ok)

section \<open>The window\<close>


definition send_conn_example :: "BaseAlg TCPConnection" where
  "send_conn_example = alg_example\<lparr>fsm := TCP_S_ESTABLISHED,
     sendQueue := Some (VirtualSend \<lparr>sq_begin = 0xFFFFFF00, sq_end = 2000\<rparr>),
     receiveQueue := Some (VirtualRcv \<lparr>rq_rcv_nxt = 700, regionList = []\<rparr>),
     state := (state alg_example)\<lparr>snd_mss := 536, snd_una := 0xFFFFFF00, snd_nxt := 0xFFFFFFFF,
       snd_max := 0xFFFFFFFF, snd_wnd := 65535, rcv_nxt := 700, rcv_adv := 14700, maxRcvBuffer := 14000\<rparr>\<rparr>"

lemma send_conn_example_ok:
  "send_ok send_conn_example" "base_timers_ok (alg (state send_conn_example))" "tcpAlgorithm send_conn_example"
  by (simp_all add: send_conn_example_def alg_example_def new_TCPConnection_def new_TCPStateVariables_def
      send_ok_def sendq_inv_def send_half_def in_half_def off_def rcv_window_ok_def base_timers_ok_def)


end
