(* ===== verification/TCP_Rcv_Laws.thy ===== *)
theory TCP_Rcv_Laws
  imports TCP_Module
begin

text \<open>
  What the handlers of arriving segments guarantee: how a closed port refuses a connection.
\<close>

section \<open>Closed ports\<close>

text \<open>
  A SYN to a port that nobody listens on is answered with a RST that the client accepts: it closes
  the connection and tells the application. The RST itself is never answered.
\<close>

theorem closed_port_resets_client:
  assumes "fsm c = TCP_S_SYN_SENT" "snd_nxt (state c) = iss (state c) + 1"
    and "synBit syn" "\<not> ackBit syn" "\<not> rstBit syn" "\<not> finBit syn"
    and "sequenceNo syn = iss (state c)" "payloadLength syn = 0" "\<not> tcpAlgorithm tmp"
  shows "\<exists>rst tmp'. segmentArrivalWhileClosed na syn client server tmp = Inr tmp'
    \<and> sent tmp' = sent tmp @ [Out_segment rst server client]
    \<and> srcPort rst = destPort syn \<and> destPort rst = srcPort syn \<and> rstBit rst
    \<and> synsent_checks rst server client c
        = Returned TCP_E_RCV_RST (sendIndicationToApp TCP_I_CONNECTION_RESET 0 c)
    \<and> next_state (active (state c)) (fsm c) TCP_E_RCV_RST = TCP_S_CLOSED
    \<and> segmentArrivalWhileClosed na rst server client tmp' = Inr tmp'"
proof -
  define rst where "rst = new_TCPSegment\<lparr>srcPort := destPort syn, destPort := srcPort syn,
    rstBit := True, ackBit := True, sequenceNo := 0, ackNo := iss (state c) + 1\<rparr>"
  define tmp' where "tmp' = emit (Out_segment rst server client) tmp"
  have "getSegLen syn = 1" using assms(3-8) by (simp add: getSegLen_def)
  then have "segmentArrivalWhileClosed na syn client server tmp = Inr tmp'"
    using assms by (simp add: segmentArrivalWhileClosed_def sendRstAck_def Let_def tmp'_def rst_def)
  moreover have "synsent_checks rst server client c
      = Returned TCP_E_RCV_RST (sendIndicationToApp TCP_I_CONNECTION_RESET 0 c)"
    using assms(1,2) by (simp add: synsent_checks_def rst_def seqLE_def seqGreater_def)
  moreover have "segmentArrivalWhileClosed na rst server client tmp' = Inr tmp'"
    by (simp add: segmentArrivalWhileClosed_def rst_def)
  ultimately show ?thesis
    using assms(1)
    by (intro exI[of _ rst] exI[of _ tmp']) (simp add: tmp'_def rst_def next_state_def)
qed

definition syn_sent_example :: "unit TCPConnection" where
  "syn_sent_example = (new_TCPConnection () (\<lparr>par_advertisedWindow = 14000, par_windowScalingSupport = False,
       par_delayedAcksEnabled = False, par_nagleEnabled = True, par_limitedTransmitEnabled = False,
       par_increasedIWEnabled = False, par_mss = 536, par_timestampSupport = False,
       par_sackSupport = False, par_tcpAlgorithmClass = ''TCPReno''\<rparr>) 0 0 1)
     \<lparr>fsm := TCP_S_SYN_SENT, state := (new_TCPStateVariables ())\<lparr>iss := 0xFFFFFFFF, snd_nxt := 0, active := True\<rparr>\<rparr>"

theorem closed_port_resets_client_witness:
  "\<exists>rst. synsent_checks rst unspecified_addr unspecified_addr syn_sent_example
     = Returned TCP_E_RCV_RST (sendIndicationToApp TCP_I_CONNECTION_RESET 0 syn_sent_example) \<and> rstBit rst"
proof -
  define syn where "syn = new_TCPSegment\<lparr>synBit := True, sequenceNo := 0xFFFFFFFF\<rparr>"
  have "fsm syn_sent_example = TCP_S_SYN_SENT" "\<not> tcpAlgorithm syn_sent_example"
    "snd_nxt (state syn_sent_example) = iss (state syn_sent_example) + 1"
    "sequenceNo syn = iss (state syn_sent_example)"
    "synBit syn" "\<not> ackBit syn" "\<not> rstBit syn" "\<not> finBit syn" "payloadLength syn = 0"
    by (simp_all add: syn_sent_example_def new_TCPConnection_def syn_def new_TCPSegment_def)
  from closed_port_resets_client[OF this(1,3,5-8,4,9,2)] show ?thesis by blast
qed

end
