(* ===== verification/IP_Reassembly.thy ===== *)
theory IP_Reassembly
  imports TCP_Prelude
begin

text \<open>
  The reassembly buffer of a fragmented datagram
  (\<^verbatim>\<open>networklayer/base/ReassemblyBuffer.cc\<close>): the range of offsets that has been received
  without gaps, and the fragments behind a gap. The main lemma takes the fragments of a datagram in
  any order and any number of times: the buffer reports the datagram complete exactly when every
  fragment has arrived. Offsets are compared, never added, so that 16 bits are enough for them.
\<close>

section \<open>The buffer\<close>

record FragRegion =
  fr_beg :: u16
  fr_end :: u16
  fr_islast :: bool

record ReassemblyBuffer =
  main :: FragRegion
  fragments :: "FragRegion list option"

definition new_ReassemblyBuffer :: ReassemblyBuffer where
  "new_ReassemblyBuffer = \<lparr>main = \<lparr>fr_beg = 0, fr_end = 0, fr_islast = False\<rparr>, fragments = None\<rparr>"

text \<open>One pass over the stored fragments; True when one of them was taken out.\<close>

fun merge_pass :: "FragRegion \<Rightarrow> FragRegion list \<Rightarrow> FragRegion \<times> FragRegion list \<times> bool" where
  "merge_pass m [] = (m, [], False)"
| "merge_pass m (f # fs) =
     (if fr_end m = fr_beg f then
        (case merge_pass (m\<lparr>fr_end := fr_end f, fr_islast := fr_islast m \<or> fr_islast f\<rparr>) fs of
           (m', fs', _) \<Rightarrow> (m', fs', True))
      else if fr_beg m = fr_end f then
        (case merge_pass (m\<lparr>fr_beg := fr_beg f\<rparr>) fs of (m', fs', _) \<Rightarrow> (m', fs', True))
      else if fr_beg m \<le> fr_beg f \<and> fr_end m \<ge> fr_end f then
        (case merge_pass m fs of (m', fs', _) \<Rightarrow> (m', fs', True))
      else (case merge_pass m fs of (m', fs', again) \<Rightarrow> (m', f # fs', again)))"

lemma merge_pass_length:
  "merge_pass m fs = (m', fs', again) \<Longrightarrow>
   length fs' \<le> length fs \<and> (again \<longrightarrow> length fs' < length fs) \<and> (\<not> again \<longrightarrow> m' = m \<and> fs' = fs)"
  by (induction m fs arbitrary: m' fs' again rule: merge_pass.induct)
    (fastforce split: if_splits prod.splits)+

text \<open>The passes are repeated until one takes out nothing.\<close>

function merge_frags :: "FragRegion \<Rightarrow> FragRegion list \<Rightarrow> FragRegion \<times> FragRegion list" where
  "merge_frags m fs =
     (case merge_pass m fs of (m', fs', again) \<Rightarrow> if again then merge_frags m' fs' else (m', fs'))"
  by pat_completeness auto
termination
  by (relation "measure (\<lambda>(m, fs). length fs)") (auto dest: merge_pass_length[OF sym])

declare merge_frags.simps [simp del]

definition mergeFragments :: "ReassemblyBuffer \<Rightarrow> ReassemblyBuffer" where
  "mergeFragments b =
     (case fragments b of
        None \<Rightarrow> b
      | Some fs \<Rightarrow> (case merge_frags (main b) fs of (m, fs') \<Rightarrow> b\<lparr>main := m, fragments := Some fs'\<rparr>))"

definition reassembly_merge :: "u16 \<Rightarrow> u16 \<Rightarrow> bool \<Rightarrow> ReassemblyBuffer \<Rightarrow> ReassemblyBuffer" where
  "reassembly_merge b e islast buf =
     (let m = main buf
      in if fr_end m = b then
           mergeFragments (buf\<lparr>main := m\<lparr>fr_end := e, fr_islast := fr_islast m \<or> islast\<rparr>\<rparr>)
         else if fr_beg m = e then mergeFragments (buf\<lparr>main := m\<lparr>fr_beg := b\<rparr>\<rparr>)
         else if fr_end m < b \<or> fr_beg m > e then
           buf\<lparr>fragments := Some ((case fragments buf of None \<Rightarrow> [] | Some fs \<Rightarrow> fs)
             @ [\<lparr>fr_beg = b, fr_end = e, fr_islast = islast\<rparr>])\<rparr>
         else buf)"

definition reassembly_addFragment :: "u16 \<Rightarrow> u16 \<Rightarrow> bool \<Rightarrow> ReassemblyBuffer \<Rightarrow> bool \<times> ReassemblyBuffer" where
  "reassembly_addFragment b e islast buf =
     (let buf' = reassembly_merge b e islast buf
      in (fr_beg (main buf') = 0 \<and> fr_islast (main buf'), buf'))"

definition getTotalLength :: "ReassemblyBuffer \<Rightarrow> u16" where
  "getTotalLength buf = fr_end (main buf)"

section \<open>The fragments of a datagram\<close>

text \<open>
  A datagram is cut at the offsets \<open>cs\<close>, of which the first is 0 and the last its length; fragment
  \<open>i\<close> reaches from the \<open>i\<close>-th cut to the next.
\<close>

definition cuts_ok :: "u16 list \<Rightarrow> bool" where
  "cuts_ok cs \<longleftrightarrow> 2 \<le> length cs \<and> cs ! 0 = 0 \<and> sorted_wrt (<) cs"

definition frag :: "u16 list \<Rightarrow> nat \<Rightarrow> FragRegion" where
  "frag cs i = \<lparr>fr_beg = cs ! i, fr_end = cs ! Suc i, fr_islast = (Suc (Suc i) = length cs)\<rparr>"

definition num_frags :: "u16 list \<Rightarrow> nat" where
  "num_frags cs = length cs - 1"

lemma cut_less: "cuts_ok cs \<Longrightarrow> i < j \<Longrightarrow> j < length cs \<Longrightarrow> cs ! i < cs ! j"
  by (simp add: cuts_ok_def sorted_wrt_iff_nth_less)

lemma cut_eq: "cuts_ok cs \<Longrightarrow> i < length cs \<Longrightarrow> j < length cs \<Longrightarrow> cs ! i = cs ! j \<longleftrightarrow> i = j"
  using cut_less[of cs i j] cut_less[of cs j i] by (metis less_irrefl linorder_neqE_nat)

lemma cut_le: "cuts_ok cs \<Longrightarrow> i < length cs \<Longrightarrow> j < length cs \<Longrightarrow> cs ! i \<le> cs ! j \<longleftrightarrow> i \<le> j"
  using cut_less[of cs i j] cut_less[of cs j i] by (metis leD le_less linorder_neqE_nat not_le)

text \<open>
  The fragments \<open>S\<close> have arrived: the main region reaches up to the cut \<open>k\<close>, below which nothing is
  missing, and what is not below it is stored.
\<close>

definition holds_frags :: "u16 list \<Rightarrow> nat set \<Rightarrow> nat \<Rightarrow> FragRegion \<Rightarrow> FragRegion list \<Rightarrow> bool" where
  "holds_frags cs S k m fs \<longleftrightarrow> k \<le> num_frags cs \<and> S \<subseteq> {..<num_frags cs}
     \<and> m = \<lparr>fr_beg = 0, fr_end = cs ! k, fr_islast = (k = num_frags cs)\<rparr> \<and> {..<k} \<subseteq> S
     \<and> set fs \<subseteq> frag cs ` S \<and> (\<forall>i \<in> S. i < k \<or> frag cs i \<in> set fs)"

lemma frag_simps [simp]:
  "fr_beg (frag cs i) = cs ! i" "fr_end (frag cs i) = cs ! Suc i"
  "fr_islast (frag cs i) = (Suc (Suc i) = length cs)"
  by (simp_all add: frag_def)

lemma frag_inj:
  assumes "cuts_ok cs" "i < num_frags cs" "j < num_frags cs" "frag cs i = frag cs j"
  shows "i = j"
proof -
  have "cs ! i = cs ! j" using arg_cong[OF assms(4), of fr_beg] by simp
  then show ?thesis using cut_eq[OF assms(1), of i j] assms(2,3) by (simp add: num_frags_def)
qed

lemma holds_extend:
  assumes cs: "cuts_ok cs" and h: "holds_frags cs S k m fs" and k: "k < num_frags cs"
    and sub: "set fs' \<subseteq> insert (frag cs k) (set fs)" "set fs \<subseteq> insert (frag cs k) (set fs')"
  shows "holds_frags cs (insert k S) (Suc k)
    (m\<lparr>fr_end := fr_end (frag cs k), fr_islast := fr_islast m \<or> fr_islast (frag cs k)\<rparr>) fs'"
proof -
  have "length cs = Suc (num_frags cs)" using cs by (auto simp: num_frags_def cuts_ok_def)
  moreover have "\<forall>i \<in> insert k S. i < Suc k \<or> frag cs i \<in> set fs'"
  proof
    fix i assume i: "i \<in> insert k S"
    show "i < Suc k \<or> frag cs i \<in> set fs'"
    proof (cases "frag cs i = frag cs k")
      case True
      moreover have "i < num_frags cs" using i h k by (auto simp: holds_frags_def)
      ultimately have "i = k" using frag_inj[OF cs _ k] by blast
      then show ?thesis by simp
    next
      case False
      then show ?thesis using i h sub(2) by (auto simp: holds_frags_def)
    qed
  qed
  ultimately show ?thesis
    using h k sub(1) by (auto simp: holds_frags_def lessThan_Suc)
qed

lemma holds_drop:
  assumes "cuts_ok cs" "holds_frags cs S k m (acc @ frag cs i # fs)" "i < num_frags cs" "i < k"
  shows "holds_frags cs S k m (acc @ fs)"
proof -
  have "j < k \<or> frag cs j \<in> set (acc @ fs)" if "j \<in> S" for j
  proof (cases "frag cs j = frag cs i")
    case True
    moreover have "j < num_frags cs" using that assms(2) by (auto simp: holds_frags_def)
    ultimately have "j = i" using frag_inj[OF assms(1) _ assms(3)] by blast
    then show ?thesis using assms(4) by simp
  next
    case False
    then show ?thesis using that assms(2) by (auto simp: holds_frags_def)
  qed
  then show ?thesis using assms(2) by (simp add: holds_frags_def)
qed

lemma merge_pass_holds:
  assumes "cuts_ok cs" "merge_pass m fs = (m', fs', again)" "holds_frags cs S k m (acc @ fs)"
  shows "\<exists>k'. holds_frags cs S k' m' (acc @ fs')"
  using assms(2,3)
proof (induction m fs arbitrary: k acc m' fs' again rule: merge_pass.induct)
  case (1 m)
  then show ?case by auto
next
  case (2 m f fs)
  note cs = assms(1)
  obtain i where i: "i \<in> S" "f = frag cs i" "i < num_frags cs"
    using "2.prems"(2) by (auto simp: holds_frags_def)
  have m: "fr_end m = cs ! k" "fr_beg m = cs ! 0" "k \<le> num_frags cs"
    using "2.prems"(2) cs by (auto simp: holds_frags_def cuts_ok_def)
  have len: "length cs = Suc (num_frags cs)" using cs by (auto simp: num_frags_def cuts_ok_def)
  have e1: "fr_end m = fr_beg f \<longleftrightarrow> k = i" using cut_eq[OF cs, of k i] i m len by simp
  have e2: "fr_beg m \<noteq> fr_end f" using cut_eq[OF cs, of 0 "Suc i"] i m len by simp
  have e3: "fr_end m \<ge> fr_end f \<longleftrightarrow> Suc i \<le> k" using cut_le[OF cs, of "Suc i" k] i m len by simp
  show ?case
  proof (cases "k = i")
    case True
    obtain m1 fs1 a1 where r: "merge_pass (m\<lparr>fr_end := fr_end f, fr_islast := fr_islast m \<or> fr_islast f\<rparr>) fs
        = (m1, fs1, a1)" by (metis prod_cases3)
    have "holds_frags cs (insert k S) (Suc k)
        (m\<lparr>fr_end := fr_end f, fr_islast := fr_islast m \<or> fr_islast f\<rparr>) (acc @ fs)"
      unfolding i(2) True [symmetric]
      by (rule holds_extend[OF cs "2.prems"(2)]) (use i True in auto)
    then have "holds_frags cs S (Suc k) (m\<lparr>fr_end := fr_end f, fr_islast := fr_islast m \<or> fr_islast f\<rparr>) (acc @ fs)"
      using i(1) True by (simp add: insert_absorb)
    from "2.IH"(1)[OF _ r this] e1 True obtain k' where "holds_frags cs S k' m1 (acc @ fs1)" by auto
    moreover have "m' = m1" "fs' = fs1" using "2.prems"(1) e1 True r by auto
    ultimately show ?thesis by blast
  next
    case ne: False
    show ?thesis
    proof (cases "fr_beg m \<le> fr_beg f \<and> fr_end m \<ge> fr_end f")
      case True
      obtain m1 fs1 a1 where r: "merge_pass m fs = (m1, fs1, a1)" by (metis prod_cases3)
      have "i < k" using True e3 by simp
      then have "holds_frags cs S k m (acc @ fs)"
        by (rule holds_drop[OF cs "2.prems"(2)[unfolded i(2)] i(3)])
      from "2.IH"(3)[OF _ e2 True r this] e1 ne obtain k' where "holds_frags cs S k' m1 (acc @ fs1)" by auto
      moreover have "m' = m1" "fs' = fs1" using "2.prems"(1) e1 e2 ne True r by auto
      ultimately show ?thesis by blast
    next
      case False
      obtain m1 fs1 a1 where r: "merge_pass m fs = (m1, fs1, a1)" by (metis prod_cases3)
      have "holds_frags cs S k m ((acc @ [f]) @ fs)" using "2.prems"(2) by simp
      from "2.IH"(4)[OF _ e2 False r this] e1 ne obtain k' where "holds_frags cs S k' m1 ((acc @ [f]) @ fs1)" by auto
      moreover have "m' = m1" "fs' = f # fs1" using "2.prems"(1) e1 e2 ne False r by auto
      ultimately show ?thesis by auto
    qed
  qed
qed

lemma merge_pass_stable:
  "merge_pass m fs = (m', fs', False) \<Longrightarrow> f \<in> set fs \<Longrightarrow> fr_end m \<noteq> fr_beg f"
  by (induction m fs arbitrary: m' fs' rule: merge_pass.induct) (auto split: if_splits prod.splits)

lemma merge_frags_holds:
  assumes "cuts_ok cs" "holds_frags cs S k m fs" "merge_frags m fs = (m', fs')"
  shows "\<exists>k'. holds_frags cs S k' m' fs' \<and> k' \<notin> S"
  using assms(2,3)
proof (induction m fs arbitrary: k rule: merge_frags.induct)
  case (1 m fs)
  obtain m1 fs1 again where r: "merge_pass m fs = (m1, fs1, again)" by (metis prod_cases3)
  obtain k1 where k1: "holds_frags cs S k1 m1 fs1"
    using merge_pass_holds[OF assms(1) r, of S k "[]"] "1.prems"(1) by auto
  show ?case
  proof (cases again)
    case True
    then have "merge_frags m1 fs1 = (m', fs')" using "1.prems"(2) r by (simp add: merge_frags.simps[of m fs])
    then show ?thesis using "1.IH"[OF r[symmetric] refl True k1] by blast
  next
    case False
    then have e: "m' = m" "fs' = fs" "m1 = m" "fs1 = fs"
      using "1.prems"(2) r merge_pass_length[OF r] by (simp_all add: merge_frags.simps[of m fs])
    have "k1 \<notin> S"
    proof
      assume k: "k1 \<in> S"
      then have "frag cs k1 \<in> set fs" using k1 e by (auto simp: holds_frags_def)
      moreover have "merge_pass m fs = (m1, fs1, False)" using r False by simp
      ultimately show False
        using merge_pass_stable[of m fs m1 fs1 "frag cs k1"]
        using k1 e by (simp add: holds_frags_def)
    qed
    then show ?thesis using k1 e by auto
  qed
qed

section \<open>Any order, any number of times\<close>

definition buffer_holds :: "u16 list \<Rightarrow> nat set \<Rightarrow> ReassemblyBuffer \<Rightarrow> bool" where
  "buffer_holds cs S b \<longleftrightarrow>
     (\<exists>k. holds_frags cs S k (main b) (case fragments b of None \<Rightarrow> [] | Some fs \<Rightarrow> fs) \<and> k \<notin> S)"

lemma buffer_holds_new: "cuts_ok cs \<Longrightarrow> buffer_holds cs {} new_ReassemblyBuffer"
  unfolding buffer_holds_def holds_frags_def
  by (intro exI[of _ 0]) (auto simp: new_ReassemblyBuffer_def cuts_ok_def num_frags_def)

lemma mergeFragments_holds:
  assumes "cuts_ok cs" "holds_frags cs S k (main b) (case fragments b of None \<Rightarrow> [] | Some fs \<Rightarrow> fs)"
    and "fragments b = None \<longrightarrow> k \<notin> S"
  shows "buffer_holds cs S (mergeFragments b)"
proof (cases "fragments b")
  case None
  then show ?thesis using assms(2,3) by (auto simp: mergeFragments_def buffer_holds_def)
next
  case (Some fs)
  obtain m fs' where r: "merge_frags (main b) fs = (m, fs')" by (cases "merge_frags (main b) fs")
  then show ?thesis
    using merge_frags_holds[OF assms(1) _ r, of S k] assms(2) Some
    by (auto simp: mergeFragments_def buffer_holds_def)
qed

lemma merge_fragment_holds:
  assumes cs: "cuts_ok cs" and h: "buffer_holds cs S b" and i: "i < num_frags cs"
  shows "buffer_holds cs (insert i S)
    (reassembly_merge (cs ! i) (cs ! Suc i) (Suc (Suc i) = length cs) b)"
proof -
  let ?l = "\<lambda>b. case fragments b of None \<Rightarrow> [] | Some fs \<Rightarrow> fs"
  obtain k where k: "holds_frags cs S k (main b) (?l b)" "k \<notin> S" using h by (auto simp: buffer_holds_def)
  have len: "length cs = Suc (num_frags cs)" using cs by (auto simp: num_frags_def cuts_ok_def)
  have m: "fr_end (main b) = cs ! k" "fr_beg (main b) = cs ! 0" "k \<le> num_frags cs"
    using k(1) cs by (auto simp: holds_frags_def cuts_ok_def)
  have e1: "fr_end (main b) = cs ! i \<longleftrightarrow> k = i" using cut_eq[OF cs, of k i] i m len by simp
  have e2: "fr_beg (main b) \<noteq> cs ! Suc i" using cut_eq[OF cs, of 0 "Suc i"] i m len by simp
  have e3: "fr_end (main b) < cs ! i \<longleftrightarrow> k < i"
    using cut_le[OF cs, of i k] i m len by (simp add: not_le [symmetric])
  have e4: "\<not> fr_beg (main b) > cs ! Suc i" using cut_le[OF cs, of 0 "Suc i"] i m len by (simp add: not_less)
  consider "k = i" | "k < i" | "i < k" by linarith
  then show ?thesis
  proof cases
    case 1
    define b1 where "b1 = b\<lparr>main := (main b)\<lparr>fr_end := cs ! Suc i,
      fr_islast := fr_islast (main b) \<or> (Suc (Suc i) = length cs)\<rparr>\<rparr>"
    have "holds_frags cs (insert i S) (Suc i) (main b1) (?l b1)"
      using holds_extend[OF cs k(1), of "?l b"] 1 i
      by (simp add: b1_def subset_insertI)
    moreover have "Suc i \<notin> insert i S" if "fragments b1 = None"
      using that k(1) 1 by (auto simp: b1_def holds_frags_def)
    ultimately have "buffer_holds cs (insert i S) (mergeFragments b1)"
      by (intro mergeFragments_holds[OF cs]) auto
    then show ?thesis using e1 1 by (simp add: reassembly_merge_def Let_def b1_def)
  next
    case 2
    have f: "\<lparr>fr_beg = cs ! i, fr_end = cs ! Suc i, fr_islast = (Suc (Suc i) = length cs)\<rparr> = frag cs i"
      by (simp add: frag_def)
    have "holds_frags cs (insert i S) k (main b) (?l b @ [frag cs i])"
      using k i by (auto simp: holds_frags_def)
    moreover have "reassembly_merge (cs ! i) (cs ! Suc i) (Suc (Suc i) = length cs) b
        = b\<lparr>fragments := Some (?l b @ [frag cs i])\<rparr>"
      using e1 e2 e3 2 f by (simp add: reassembly_merge_def Let_def)
    ultimately show ?thesis
      using k(2) 2 by (auto simp: buffer_holds_def intro!: exI[of _ k])
  next
    case 3
    then have "i \<in> S" using k(1) by (auto simp: holds_frags_def)
    then show ?thesis
      using h e1 e2 e3 e4 3 by (simp add: reassembly_merge_def Let_def insert_absorb)
  qed
qed

text \<open>The main region is complete exactly when no fragment is missing.\<close>

lemma holds_complete:
  assumes "cuts_ok cs" "buffer_holds cs S b"
  shows "fr_beg (main b) = 0 \<and> (fr_islast (main b) \<longleftrightarrow> S = {..<num_frags cs})
    \<and> (fr_islast (main b) \<longrightarrow> fr_end (main b) = last cs)"
proof -
  obtain k where k: "k \<le> num_frags cs" "S \<subseteq> {..<num_frags cs}" "{..<k} \<subseteq> S" "k \<notin> S"
    "main b = \<lparr>fr_beg = 0, fr_end = cs ! k, fr_islast = (k = num_frags cs)\<rparr>"
    using assms(2) by (auto simp: buffer_holds_def holds_frags_def)
  have "cs \<noteq> []" using assms(1) by (auto simp: cuts_ok_def)
  then have "cs ! num_frags cs = last cs" by (simp add: last_conv_nth num_frags_def)
  moreover have "k = num_frags cs \<longleftrightarrow> S = {..<num_frags cs}" using k(1-4) by auto
  ultimately show ?thesis using k(5) by auto
qed

text \<open>Fragment \<open>i\<close> arrives.\<close>

definition arrive :: "u16 list \<Rightarrow> nat \<Rightarrow> ReassemblyBuffer \<Rightarrow> bool \<times> ReassemblyBuffer" where
  "arrive cs i = reassembly_addFragment (fr_beg (frag cs i)) (fr_end (frag cs i)) (fr_islast (frag cs i))"

lemma arrive_holds:
  assumes "cuts_ok cs" "buffer_holds cs S b" "i < num_frags cs"
  shows "\<exists>b'. arrive cs i b = (insert i S = {..<num_frags cs}, b') \<and> buffer_holds cs (insert i S) b'
    \<and> (insert i S = {..<num_frags cs} \<longrightarrow> getTotalLength b' = last cs)"
  using merge_fragment_holds[OF assms] holds_complete[OF assms(1) merge_fragment_holds[OF assms]]
  by (simp add: arrive_def reassembly_addFragment_def Let_def getTotalLength_def)

lemma arrivals_hold:
  assumes "cuts_ok cs" "buffer_holds cs S b" "set is \<subseteq> {..<num_frags cs}"
  shows "buffer_holds cs (set is \<union> S) (fold (\<lambda>i b. snd (arrive cs i b)) is b)"
  using assms(2,3)
proof (induction "is" arbitrary: b S)
  case (Cons i "is")
  then have "buffer_holds cs (insert i S) (snd (arrive cs i b))"
    using arrive_holds[OF assms(1), of S b i] by auto
  from Cons.IH[OF this] Cons.prems(2) show ?case by simp
qed simp

text \<open>
  Whatever the order in which the fragments of a datagram arrive, and however often: after each of
  them the buffer reports the datagram complete exactly when every fragment has arrived, and then
  knows its length.
\<close>

theorem reassembly_complete:
  assumes "cuts_ok cs" "set is \<subseteq> {..<num_frags cs}" "i < num_frags cs"
  shows "\<exists>b'. arrive cs i (fold (\<lambda>i b. snd (arrive cs i b)) is new_ReassemblyBuffer)
      = (set (is @ [i]) = {..<num_frags cs}, b')
    \<and> (set (is @ [i]) = {..<num_frags cs} \<longrightarrow> getTotalLength b' = last cs)"
  using arrive_holds[OF assms(1) arrivals_hold[OF assms(1) buffer_holds_new[OF assms(1)] assms(2)] assms(3)]
  by auto

theorem reassembly_complete_witness:
  "\<exists>b'. arrive [0, 1480, 2960, 4000] 1
      (fold (\<lambda>i b. snd (arrive [0, 1480, 2960, 4000] i b)) [2, 0, 2] new_ReassemblyBuffer) = (True, b')
    \<and> getTotalLength b' = 4000"
proof -
  have c: "cuts_ok [0, 1480, 2960, 4000]" by (simp add: cuts_ok_def)
  have n: "num_frags [0, 1480, 2960, 4000 :: u16] = 3" by (simp add: num_frags_def)
  have "set ([2, 0, 2] @ [1]) = {..<3 :: nat}" by auto
  then show ?thesis using reassembly_complete[OF c, of "[2, 0, 2]" 1] by (simp add: n)
qed

end
