(* ===== verification/Std_Map.thy ===== *)
theory Std_Map
  imports TCP_Prelude
begin

text \<open>
  \<^verbatim>\<open>std::map\<close>: an association list in the order of its keys, so that iterating over the map
  visits the entries in the order in which the code does. \<open>map_of\<close> is \<^verbatim>\<open>find\<close>, \<open>put\<close> is
  assignment through \<^verbatim>\<open>operator[]\<close> and \<open>erase\<close> removes a key.
\<close>

fun put :: "'k :: linorder \<Rightarrow> 'v \<Rightarrow> ('k \<times> 'v) list \<Rightarrow> ('k \<times> 'v) list" where
  "put k v [] = [(k, v)]"
| "put k v ((k', v') # m) =
     (if k < k' then (k, v) # (k', v') # m
      else if k = k' then (k, v) # m
      else (k', v') # put k v m)"

definition erase :: "'k \<Rightarrow> ('k \<times> 'v) list \<Rightarrow> ('k \<times> 'v) list" where
  "erase k m = filter (\<lambda>e. fst e \<noteq> k) m"

text \<open>The keys are strictly ascending.\<close>

definition is_map :: "('k :: linorder \<times> 'v) list \<Rightarrow> bool" where
  "is_map m \<longleftrightarrow> sorted_wrt (<) (map fst m)"

lemma is_map_Nil [simp]: "is_map []"
  by (simp add: is_map_def)

lemma is_map_Cons [simp]: "is_map ((k, v) # m) \<longleftrightarrow> (\<forall>k' \<in> fst ` set m. k < k') \<and> is_map m"
  by (auto simp: is_map_def)

lemma map_of_put [simp]: "map_of (put k v m) = (map_of m)(k \<mapsto> v)"
  by (induction k v m rule: put.induct) (auto simp: fun_eq_iff)

lemma put_keys [simp]: "fst ` set (put k v m) = insert k (fst ` set m)"
  by (induction k v m rule: put.induct) auto

lemma is_map_put: "is_map m \<Longrightarrow> is_map (put k v m)"
  by (induction k v m rule: put.induct) auto

lemma map_of_erase [simp]: "map_of (erase k m) = (map_of m)(k := None)"
  by (induction m) (auto simp: erase_def fun_eq_iff)

lemma is_map_erase: "is_map m \<Longrightarrow> is_map (erase k m)"
  by (induction m) (auto simp: erase_def)

text \<open>What can be looked up in a map determines it.\<close>

lemma is_map_eqI:
  assumes "is_map m" "is_map m'" "map_of m = map_of m'"
  shows "m = m'"
proof -
  have d: "distinct (map fst m)" "distinct (map fst m')"
    using assms(1,2) strict_sorted_iff by (auto simp: is_map_def)
  have "set (map fst m) = set (map fst m')"
    using arg_cong[OF assms(3), of dom] by (simp add: dom_map_of_conv_image_fst)
  then have keys: "map fst m = map fst m'"
    using assms(1,2) by (intro strict_sorted_equal) (auto simp: is_map_def)
  have e: "m = map (\<lambda>k. (k, the (map_of m k))) (map fst m)" if "distinct (map fst m)"
    for m :: "('a \<times> 'b) list"
    using that by (auto simp: map_idI comp_def map_of_is_SomeI intro!: map_idI [symmetric])
  show ?thesis by (subst e[OF d(1)], subst e[OF d(2)]) (simp only: keys assms(3))
qed

lemma erase_put: "is_map m \<Longrightarrow> map_of m k = None \<Longrightarrow> erase k (put k v m) = m"
  by (rule is_map_eqI) (auto simp: is_map_erase is_map_put fun_eq_iff)

lemma put_put [simp]: "put k v' (put k v m) = put k v' m"
  by (induction k v m rule: put.induct) auto

lemma erase_put_erase: "is_map m \<Longrightarrow> erase k (put k v m) = erase k m"
  by (rule is_map_eqI) (auto simp: is_map_put is_map_erase fun_eq_iff)

end
