(* ===== verification/IPv4_FragBuf.thy ===== *)
theory IPv4_FragBuf
  imports IP_Reassembly IPv4_Address Std_Map "HOL-Library.Signed_Division"
begin

text \<open>
  IPv4 datagrams (\<^verbatim>\<open>networklayer/ipv4/IPv4Datagram.msg\<close>), the reassembly of fragmented
  ones (\<^verbatim>\<open>networklayer/ipv4/IPv4FragBuf.cc\<close>) and the fragments that
  \<^verbatim>\<open>IPv4::fragmentAndSend\<close> makes. The lemmas follow the fragments of one datagram
  through the buffers of a receiver that gets any other datagrams in between, in any order and with
  duplicates: the datagram comes out with the fragment that completes it, and not before.

  Deleting a datagram leaves nothing that a later step could see and is not modelled.
\<close>

section \<open>Datagrams\<close>

text \<open>
  The encapsulated packet is of any type. Of the \<^verbatim>\<open>cPacket\<close> fields, the name, the length,
  the bit error flag, the gate of arrival (the index of the network layer gate) and the control info
  that the IP module attaches (the multicast loop flag) are kept.
\<close>

record 'p IPv4Datagram =
  dg_name :: string
  byteLength :: int
  bitError :: bool
  arrivalGate :: "nat option"
  dg_multicastLoop :: "bool option"
  headerLength :: int
  dg_srcAddress :: IPv4Address
  dg_destAddress :: IPv4Address
  transportProtocol :: int
  timeToLive :: u16
  identification :: u32
  moreFragments :: bool
  dontFragment :: bool
  fragmentOffset :: int
  typeOfService :: u8
  encapsulatedPacket :: "'p option"

definition IP_HEADER_BYTES :: int where "IP_HEADER_BYTES = 20"

section \<open>The buffers\<close>

datatype FragKey = FragKey (key_id: u16) (key_src: IPv4Address) (key_dest: IPv4Address)

definition frag_key_less :: "FragKey \<Rightarrow> FragKey \<Rightarrow> bool" where
  "frag_key_less a b =
     (if key_id a \<noteq> key_id b then key_id a < key_id b
      else if key_src a \<noteq> key_src b then key_src a < key_src b
      else key_dest a < key_dest b)"

instantiation FragKey :: linorder
begin

definition less_FragKey :: "FragKey \<Rightarrow> FragKey \<Rightarrow> bool" where
  "less_FragKey = frag_key_less"

definition less_eq_FragKey :: "FragKey \<Rightarrow> FragKey \<Rightarrow> bool" where
  "less_eq_FragKey a b \<longleftrightarrow> a = b \<or> a < b"

instance
  by standard (auto simp: less_FragKey_def frag_key_less_def less_eq_FragKey_def FragKey.expand split: if_splits)

end

record 'p DatagramBuffer =
  db_buf :: ReassemblyBuffer
  db_datagram :: "'p IPv4Datagram option"
  lastupdate :: simtime

record 'p IPv4FragBuf =
  bufs :: "(FragKey \<times> 'p DatagramBuffer) list"
  icmpModule :: bool

definition new_IPv4FragBuf :: "'p IPv4FragBuf" where
  "new_IPv4FragBuf = \<lparr>bufs = [], icmpModule = False\<rparr>"

definition fragbuf_init :: "bool \<Rightarrow> 'p IPv4FragBuf \<Rightarrow> 'p IPv4FragBuf" where
  "fragbuf_init icmp fb = fb\<lparr>icmpModule := icmp\<rparr>"

definition frag_key :: "'p IPv4Datagram \<Rightarrow> FragKey" where
  "frag_key d = FragKey (ucast (identification d)) (dg_srcAddress d) (dg_destAddress d)"

definition new_DatagramBuffer :: "'p DatagramBuffer" where
  "new_DatagramBuffer = \<lparr>db_buf = new_ReassemblyBuffer, db_datagram = None, lastupdate = 0\<rparr>"

text \<open>Which of the datagram that is stored and the one that arrives is kept.\<close>

definition kept_datagram :: "'p IPv4Datagram option \<Rightarrow> 'p IPv4Datagram \<Rightarrow> 'p IPv4Datagram" where
  "kept_datagram stored d =
     (case stored of
        None \<Rightarrow> d
      | Some s \<Rightarrow> if encapsulatedPacket s = None \<and> encapsulatedPacket d \<noteq> None then d else s)"

text \<open>
  The fragment that completes a datagram erases through the iterator found at the start: were it the
  only fragment of its datagram, that would be the end of the map.
\<close>

definition fb_addFragment ::
  "'p IPv4Datagram \<Rightarrow> simtime \<Rightarrow> 'p IPv4FragBuf \<Rightarrow> ('p IPv4Datagram option \<times> 'p IPv4FragBuf) res" where
  "fb_addFragment d now fb =
     (let key = frag_key d;
          i = map_of (bufs fb) key;
          buf = (case i of None \<Rightarrow> new_DatagramBuffer | Some b \<Rightarrow> b);
          bytes = byteLength d - headerLength d;
          (isComplete, rb) = reassembly_addFragment (word_of_int (fragmentOffset d))
            (word_of_int (fragmentOffset d + bytes)) (\<not> moreFragments d) (db_buf buf);
          kept = kept_datagram (db_datagram buf) d
      in if isComplete then
           let ret = kept\<lparr>byteLength := headerLength kept + uint (getTotalLength rb),
                 fragmentOffset := 0, moreFragments := False\<rparr>
           in if i = None then Inl Undefined_behaviour
              else Inr (Some ret, fb\<lparr>bufs := erase key (bufs fb)\<rparr>)
         else Inr (None, fb\<lparr>bufs := put key (buf\<lparr>db_buf := rb, db_datagram := Some kept, lastupdate := now\<rparr>)
                (bufs fb)\<rparr>))"

text \<open>The datagrams about which an error of type \<^verbatim>\<open>ICMP_TIME_EXCEEDED\<close> is sent.\<close>

fun purge_bufs ::
  "simtime \<Rightarrow> (FragKey \<times> 'p DatagramBuffer) list
     \<Rightarrow> 'p IPv4Datagram option list \<times> (FragKey \<times> 'p DatagramBuffer) list" where
  "purge_bufs limit [] = ([], [])"
| "purge_bufs limit ((k, b) # bs) =
     (case purge_bufs limit bs of (errs, bs') \<Rightarrow>
        if lastupdate b < limit then (db_datagram b # errs, bs') else (errs, (k, b) # bs'))"

definition purgeStaleFragments ::
  "simtime \<Rightarrow> 'p IPv4FragBuf \<Rightarrow> ('p IPv4Datagram option list \<times> 'p IPv4FragBuf) res" where
  "purgeStaleFragments limit fb =
     ASSERT (icmpModule fb)
       (case purge_bufs limit (bufs fb) of (errs, bs) \<Rightarrow> Inr (errs, fb\<lparr>bufs := bs\<rparr>))"

lemma purge_bufs_simp:
  "purge_bufs limit bs = (map (db_datagram \<circ> snd) (filter (\<lambda>e. lastupdate (snd e) < limit) bs),
     filter (\<lambda>e. \<not> lastupdate (snd e) < limit) bs)"
  by (induction limit bs rule: purge_bufs.induct) auto

section \<open>Making fragments\<close>

text \<open>The values of \<^verbatim>\<open>offset\<close> in the loop of \<^verbatim>\<open>IPv4::fragmentAndSend\<close>.\<close>

partial_function (option) frag_offsets :: "int \<Rightarrow> int \<Rightarrow> int \<Rightarrow> int list option" where
  [code]: "frag_offsets payloadLength fragmentLength offset =
     (if offset < payloadLength then
        Option.bind (frag_offsets payloadLength fragmentLength (offset + fragmentLength))
          (\<lambda>os. Some (offset # os))
      else Some [])"

text \<open>The body of the loop, up to sending the fragment.\<close>

definition fragment_at ::
  "'p IPv4Datagram \<Rightarrow> int \<Rightarrow> int \<Rightarrow> int \<Rightarrow> int \<Rightarrow> int \<Rightarrow> 'p IPv4Datagram" where
  "fragment_at d hdrLength payloadLength fragmentLength offsetBase offset =
     (let lastFragment = (offset + fragmentLength \<ge> payloadLength);
          thisFragmentLength = (if lastFragment then payloadLength - offset else fragmentLength);
          f = d\<lparr>dg_name := dg_name d @ ''-frag''\<rparr>;
          f = (if \<not> lastFragment then f\<lparr>moreFragments := True\<rparr> else f)
      in f\<lparr>byteLength := hdrLength + thisFragmentLength, fragmentOffset := offsetBase + offset\<rparr>)"

text \<open>
  The largest multiple of 8 that fits behind the header; the division rounds towards zero.
\<close>

definition frag_length :: "int \<Rightarrow> int \<Rightarrow> int" where
  "frag_length mtu hdrLength = ((mtu - hdrLength) sdiv 8) * 8"

section \<open>The fragments of one datagram\<close>

definition num_pieces :: "int \<Rightarrow> int \<Rightarrow> nat" where
  "num_pieces payload fl = nat ((payload + fl - 1) div fl)"

lemma le_div_iff_int:
  assumes "0 < b"
  shows "x \<le> a div b \<longleftrightarrow> x * b \<le> (a :: int)"
proof
  assume "x \<le> a div b"
  then have "x * b \<le> (a div b) * b" using assms by simp
  also have "\<dots> \<le> a" using assms div_mult_mod_eq[of a b] pos_mod_sign[of b a] by linarith
  finally show "x * b \<le> a" .
next
  assume "x * b \<le> a"
  then show "x \<le> a div b" using zdiv_mono1[of "x * b" a b] assms by simp
qed

lemma piece_less:
  assumes "0 < fl"
  shows "i < num_pieces payload fl \<longleftrightarrow> int i * fl < payload"
proof -
  have "i < num_pieces payload fl \<longleftrightarrow> int i + 1 \<le> (payload + fl - 1) div fl"
    by (auto simp: num_pieces_def zless_nat_eq_int_zless)
  also have "\<dots> \<longleftrightarrow> (int i + 1) * fl \<le> payload + fl - 1"
    using assms by (simp add: le_div_iff_int)
  also have "\<dots> \<longleftrightarrow> int i * fl < payload" by (auto simp: algebra_simps)
  finally show ?thesis .
qed

lemma piece_last:
  assumes "0 < fl" "i < num_pieces payload fl"
  shows "payload \<le> int i * fl + fl \<longleftrightarrow> Suc i = num_pieces payload fl"
proof -
  have "payload \<le> int i * fl + fl \<longleftrightarrow> \<not> Suc i < num_pieces payload fl"
    using piece_less[OF assms(1), of "Suc i" payload] by (auto simp: algebra_simps)
  then show ?thesis using assms(2) by auto
qed

lemma frag_offsets_from:
  assumes "0 < fl"
  shows "i \<le> num_pieces payload fl \<Longrightarrow>
    frag_offsets payload fl (int i * fl) = Some (map (\<lambda>j. int j * fl) [i..<num_pieces payload fl])"
proof (induction "num_pieces payload fl - i" arbitrary: i)
  case 0
  then have "\<not> int i * fl < payload" using piece_less[OF assms, of i payload] by simp
  then show ?case using 0 by (subst frag_offsets.simps) simp
next
  case (Suc n)
  then have i: "i < num_pieces payload fl" by simp
  have "int i * fl + fl = int (Suc i) * fl" by (simp add: algebra_simps)
  then have "frag_offsets payload fl (int i * fl + fl) = Some (map (\<lambda>j. int j * fl) [Suc i..<num_pieces payload fl])"
    using Suc.hyps(1)[of "Suc i"] Suc.hyps(2) i by simp
  then show ?case
    using i piece_less[OF assms, of i payload] by (subst frag_offsets.simps) (simp add: upt_conv_Cons)
qed

text \<open>The loop ends, after as many rounds as the code announces as the number of fragments.\<close>

lemma frag_offsets_all:
  "0 < fl \<Longrightarrow>
   frag_offsets payload fl 0 = Some (map (\<lambda>i. int i * fl) [0..<num_pieces payload fl])"
  using frag_offsets_from[of fl 0 payload] by simp

text \<open>Fragment \<open>i\<close> of a datagram sent over an interface, and all of them.\<close>

definition payload_length :: "'p IPv4Datagram \<Rightarrow> int" where
  "payload_length d = byteLength d - headerLength d"

definition fragment_no :: "int \<Rightarrow> 'p IPv4Datagram \<Rightarrow> nat \<Rightarrow> 'p IPv4Datagram" where
  "fragment_no mtu d i =
     (let fl = frag_length mtu (headerLength d)
      in fragment_at d (headerLength d) (payload_length d) fl (fragmentOffset d) (int i * fl))"

definition num_fragments :: "int \<Rightarrow> 'p IPv4Datagram \<Rightarrow> nat" where
  "num_fragments mtu d = num_pieces (payload_length d) (frag_length mtu (headerLength d))"

definition fragment_list :: "int \<Rightarrow> 'p IPv4Datagram \<Rightarrow> 'p IPv4Datagram list" where
  "fragment_list mtu d = map (fragment_no mtu d) [0..<num_fragments mtu d]"

text \<open>A whole datagram that has to be fragmented, and can be.\<close>

definition to_be_fragmented :: "int \<Rightarrow> 'p IPv4Datagram \<Rightarrow> bool" where
  "to_be_fragmented mtu d \<longleftrightarrow> fragmentOffset d = 0 \<and> \<not> moreFragments d \<and> mtu < byteLength d
     \<and> headerLength d + 8 \<le> mtu \<and> payload_length d < 0x10000"

lemma frag_length_pos: "h + 8 \<le> mtu \<Longrightarrow> 8 \<le> frag_length mtu h"
  by (auto simp: frag_length_def signed_divide_int_def)

lemma frag_length_le: "h + 8 \<le> mtu \<Longrightarrow> frag_length mtu h \<le> mtu - h"
  by (auto simp: frag_length_def signed_divide_int_def)

lemma num_fragments_ge_2:
  assumes "to_be_fragmented mtu d"
  shows "2 \<le> num_fragments mtu d"
proof -
  let ?fl = "frag_length mtu (headerLength d)"
  have "0 < ?fl" "?fl < payload_length d"
    using assms frag_length_pos[of "headerLength d" mtu] frag_length_le[of "headerLength d" mtu]
    by (auto simp: to_be_fragmented_def payload_length_def)
  then have "1 < num_pieces (payload_length d) ?fl" using piece_less[of ?fl 1 "payload_length d"] by simp
  then show ?thesis by (simp add: num_fragments_def)
qed

definition cut_at :: "int \<Rightarrow> 'p IPv4Datagram \<Rightarrow> nat \<Rightarrow> int" where
  "cut_at mtu d i = min (int i * frag_length mtu (headerLength d)) (payload_length d)"

definition cuts :: "int \<Rightarrow> 'p IPv4Datagram \<Rightarrow> u16 list" where
  "cuts mtu d = map (\<lambda>i. word_of_int (cut_at mtu d i)) [0..<Suc (num_fragments mtu d)]"

lemma cut_at_mono:
  assumes "to_be_fragmented mtu d" "i < j" "j \<le> num_fragments mtu d"
  shows "0 \<le> cut_at mtu d i" "cut_at mtu d i < cut_at mtu d j" "cut_at mtu d j < 0x10000"
proof -
  let ?fl = "frag_length mtu (headerLength d)"
  have fl: "0 < ?fl" using assms(1) frag_length_pos[of "headerLength d" mtu] by (simp add: to_be_fragmented_def)
  have i: "int i * ?fl < payload_length d"
    using assms(2,3) piece_less[OF fl, of i "payload_length d"] by (simp add: num_fragments_def)
  have "int i * ?fl < int j * ?fl" using assms(2) fl by simp
  then show "cut_at mtu d i < cut_at mtu d j" using i by (simp add: cut_at_def)
  show "0 \<le> cut_at mtu d i" using fl i by (simp add: cut_at_def)
  show "cut_at mtu d j < 0x10000" using assms(1) by (auto simp: cut_at_def to_be_fragmented_def)
qed

lemma cuts_are_ok:
  assumes "to_be_fragmented mtu d"
  shows "cuts_ok (cuts mtu d)"
proof -
  have "(word_of_int (cut_at mtu d i) :: u16) < word_of_int (cut_at mtu d j)"
    if "i < j" "j \<le> num_fragments mtu d" for i j
    using cut_at_mono[OF assms that] by (simp add: word_less_def uint_word_of_int)
  moreover have "cut_at mtu d 0 = 0"
    using cut_at_mono(1)[OF assms, of 0 1] num_fragments_ge_2[OF assms] by (auto simp: cut_at_def)
  ultimately show ?thesis
    using num_fragments_ge_2[OF assms]
    by (simp add: cuts_ok_def cuts_def sorted_wrt_iff_nth_less nth_map_upt del: upt_Suc)
qed

lemma num_frags_cuts: "num_frags (cuts mtu d) = num_fragments mtu d"
  by (simp add: num_frags_def cuts_def)

lemma cuts_nth: "i \<le> num_fragments mtu d \<Longrightarrow> cuts mtu d ! i = word_of_int (cut_at mtu d i)"
  by (simp add: cuts_def nth_map_upt del: upt_Suc)

lemma last_cut: "to_be_fragmented mtu d \<Longrightarrow> last (cuts mtu d) = word_of_int (payload_length d)"
proof -
  assume d: "to_be_fragmented mtu d"
  let ?fl = "frag_length mtu (headerLength d)"
  have fl: "0 < ?fl" using d frag_length_pos[of "headerLength d" mtu] by (simp add: to_be_fragmented_def)
  have "payload_length d \<le> int (num_fragments mtu d) * ?fl"
    using piece_less[OF fl, of "num_fragments mtu d" "payload_length d"] by (simp add: num_fragments_def)
  then show ?thesis by (simp add: cuts_def cut_at_def)
qed

text \<open>What the fragments have in common with the datagram, and where they lie.\<close>

lemma fragment_no_simps [simp]:
  "frag_key (fragment_no mtu d i) = frag_key d"
  "encapsulatedPacket (fragment_no mtu d i) = encapsulatedPacket d"
  "headerLength (fragment_no mtu d i) = headerLength d"
  by (simp_all add: fragment_no_def fragment_at_def frag_key_def Let_def)

lemma fragment_no_whole:
  assumes "to_be_fragmented mtu d"
  shows "(fragment_no mtu d i)\<lparr>byteLength := headerLength d + payload_length d, fragmentOffset := 0,
      moreFragments := False\<rparr> = d\<lparr>dg_name := dg_name d @ ''-frag''\<rparr>"
  using assms
  by (cases d) (simp add: fragment_no_def fragment_at_def to_be_fragmented_def payload_length_def Let_def)

lemma fragment_no_region:
  assumes "to_be_fragmented mtu d" "i < num_fragments mtu d"
  shows "fragmentOffset (fragment_no mtu d i) = cut_at mtu d i"
    "fragmentOffset (fragment_no mtu d i) + (byteLength (fragment_no mtu d i) - headerLength d)
      = cut_at mtu d (Suc i)"
    "\<not> moreFragments (fragment_no mtu d i) \<longleftrightarrow> Suc i = num_fragments mtu d"
proof -
  let ?fl = "frag_length mtu (headerLength d)"
  have fl: "0 < ?fl" using assms(1) frag_length_pos[of "headerLength d" mtu] by (simp add: to_be_fragmented_def)
  have i: "int i * ?fl < payload_length d" "payload_length d \<le> int i * ?fl + ?fl \<longleftrightarrow> Suc i = num_fragments mtu d"
    using assms(2) piece_less[OF fl, of i "payload_length d"] piece_last[OF fl, of i "payload_length d"]
    by (simp_all add: num_fragments_def)
  have z: "fragmentOffset d = 0" "\<not> moreFragments d" using assms(1) by (auto simp: to_be_fragmented_def)
  show "fragmentOffset (fragment_no mtu d i) = cut_at mtu d i"
    using i(1) z by (simp add: fragment_no_def fragment_at_def cut_at_def Let_def)
  show "fragmentOffset (fragment_no mtu d i) + (byteLength (fragment_no mtu d i) - headerLength d)
      = cut_at mtu d (Suc i)"
    using z by (auto simp: fragment_no_def fragment_at_def cut_at_def Let_def algebra_simps min_def)
  show "\<not> moreFragments (fragment_no mtu d i) \<longleftrightarrow> Suc i = num_fragments mtu d"
    using i(2) z by (auto simp: fragment_no_def fragment_at_def Let_def)
qed

lemma fragment_no_inj:
  assumes "to_be_fragmented mtu d" "i < num_fragments mtu d" "j < num_fragments mtu d"
    "fragment_no mtu d i = fragment_no mtu d j"
  shows "i = j"
proof -
  have "cut_at mtu d i = cut_at mtu d j" using fragment_no_region(1)[OF assms(1)] assms(2-4) by metis
  then show ?thesis
    using cut_at_mono(2)[OF assms(1), of i j] cut_at_mono(2)[OF assms(1), of j i] assms(2,3)
    by (metis less_imp_le less_irrefl linorder_neqE_nat)
qed

text \<open>For the reassembly buffer the fragment is one between two cuts.\<close>

lemma fragment_no_arrives:
  assumes "to_be_fragmented mtu d" "i < num_fragments mtu d"
  shows "reassembly_addFragment (word_of_int (fragmentOffset (fragment_no mtu d i)))
      (word_of_int (fragmentOffset (fragment_no mtu d i)
        + (byteLength (fragment_no mtu d i) - headerLength (fragment_no mtu d i))))
      (\<not> moreFragments (fragment_no mtu d i)) = arrive (cuts mtu d) i"
proof -
  have "length (cuts mtu d) = Suc (num_fragments mtu d)" by (simp add: cuts_def)
  then show ?thesis
    using assms(2) fragment_no_region[OF assms] by (simp add: arrive_def cuts_nth)
qed

section \<open>Reassembly among other traffic\<close>

text \<open>
  The fragments with the numbers \<open>S\<close> have arrived: there is no buffer for the datagram when \<open>S\<close> is
  empty, and else the buffer holds them, and one of them as the datagram.
\<close>

definition fb_holds :: "int \<Rightarrow> 'p IPv4Datagram \<Rightarrow> nat set \<Rightarrow> 'p DatagramBuffer option \<Rightarrow> bool" where
  "fb_holds mtu d S e \<longleftrightarrow>
     (case e of
        None \<Rightarrow> S = {}
      | Some b \<Rightarrow> S \<noteq> {} \<and> buffer_holds (cuts mtu d) S (db_buf b)
          \<and> (\<exists>i < num_fragments mtu d. db_datagram b = Some (fragment_no mtu d i)))"

lemma fb_addFragment_own:
  assumes "to_be_fragmented mtu d" "i < num_fragments mtu d"
    and "b = (case map_of (bufs fb) (frag_key d) of None \<Rightarrow> new_DatagramBuffer | Some b \<Rightarrow> b)"
    and "arrive (cuts mtu d) i (db_buf b) = (isComplete, rb)"
    and "kept_datagram (db_datagram b) (fragment_no mtu d i) = kept"
  shows "fb_addFragment (fragment_no mtu d i) now fb =
    (if isComplete then
       if map_of (bufs fb) (frag_key d) = None then Inl Undefined_behaviour
       else Inr (Some (kept\<lparr>byteLength := headerLength kept + uint (getTotalLength rb),
          fragmentOffset := 0, moreFragments := False\<rparr>), fb\<lparr>bufs := erase (frag_key d) (bufs fb)\<rparr>)
     else Inr (None, fb\<lparr>bufs := put (frag_key d)
        (b\<lparr>db_buf := rb, db_datagram := Some kept, lastupdate := now\<rparr>) (bufs fb)\<rparr>))"
  unfolding fb_addFragment_def Let_def fragment_no_arrives[OF assms(1,2)] fragment_no_simps(1)
    assms(3)[symmetric] assms(4) assms(5) prod.case by (rule refl)

lemma fb_addFragment_step:
  assumes d: "to_be_fragmented mtu d" and h: "fb_holds mtu d S (map_of (bufs fb) (frag_key d))"
    and i: "i < num_fragments mtu d"
  shows "\<exists>fb'. fb_addFragment (fragment_no mtu d i) now fb =
      Inr (if insert i S = {..<num_fragments mtu d} then Some (d\<lparr>dg_name := dg_name d @ ''-frag''\<rparr>) else None, fb')
    \<and> (if insert i S = {..<num_fragments mtu d} then fb' = fb\<lparr>bufs := erase (frag_key d) (bufs fb)\<rparr>
       else fb_holds mtu d (insert i S) (map_of (bufs fb') (frag_key d)))"
proof -
  let ?e = "map_of (bufs fb) (frag_key d)" and ?f = "fragment_no mtu d i"
  define b where "b = (case ?e of None \<Rightarrow> new_DatagramBuffer | Some b \<Rightarrow> b)"
  note cs = cuts_are_ok[OF d]
  have bh: "buffer_holds (cuts mtu d) S (db_buf b)"
    using h buffer_holds_new[OF cs] by (auto simp: fb_holds_def b_def new_DatagramBuffer_def split: option.splits)
  obtain rb where rb: "arrive (cuts mtu d) i (db_buf b) = (insert i S = {..<num_fragments mtu d}, rb)"
    "buffer_holds (cuts mtu d) (insert i S) rb"
    "insert i S = {..<num_fragments mtu d} \<Longrightarrow> getTotalLength rb = last (cuts mtu d)"
    using arrive_holds[OF cs bh, of i] i by (auto simp: num_frags_cuts)
  obtain j where j: "j < num_fragments mtu d" "kept_datagram (db_datagram b) ?f = fragment_no mtu d j"
  proof (cases ?e)
    case None
    then have "kept_datagram (db_datagram b) ?f = fragment_no mtu d i"
      by (simp add: b_def new_DatagramBuffer_def kept_datagram_def)
    then show ?thesis using that[OF i] by simp
  next
    case (Some b')
    then obtain j where "j < num_fragments mtu d" "db_datagram b = Some (fragment_no mtu d j)"
      using h by (auto simp: fb_holds_def b_def)
    moreover from this have "kept_datagram (db_datagram b) ?f = fragment_no mtu d j"
      by (auto simp: kept_datagram_def)
    ultimately show ?thesis using that by blast
  qed
  have u: "uint (last (cuts mtu d)) = payload_length d"
  proof -
    have "0 \<le> payload_length d" "payload_length d < 0x10000"
      using d by (auto simp: to_be_fragmented_def payload_length_def)
    then show ?thesis by (simp add: last_cut[OF d] uint_word_of_int)
  qed
  show ?thesis
  proof (cases "insert i S = {..<num_fragments mtu d}")
    case True
    have "S \<noteq> {}"
    proof
      assume "S = {}"
      then have "{..<num_fragments mtu d} = {i}" using True by blast
      from arg_cong[OF this, of card] have "num_fragments mtu d = 1" by simp
      then show False using num_fragments_ge_2[OF d] by simp
    qed
    then have e: "?e \<noteq> None" using h by (auto simp: fb_holds_def)
    have w: "(fragment_no mtu d j)\<lparr>byteLength := headerLength (fragment_no mtu d j) + uint (getTotalLength rb),
        fragmentOffset := 0, moreFragments := False\<rparr> = d\<lparr>dg_name := dg_name d @ ''-frag''\<rparr>"
      unfolding rb(3)[OF True] u fragment_no_simps(3) by (rule fragment_no_whole[OF d])
    show ?thesis
      unfolding fb_addFragment_own[OF d i b_def rb(1) j(2)] w if_P[OF True] if_not_P[OF e] by blast
  next
    case False
    have r: "fb_addFragment ?f now fb = Inr (None, fb\<lparr>bufs := put (frag_key d)
        (b\<lparr>db_buf := rb, db_datagram := Some (fragment_no mtu d j), lastupdate := now\<rparr>) (bufs fb)\<rparr>)"
      using fb_addFragment_own[OF d i b_def rb(1) j(2)] False by simp
    show ?thesis unfolding r using False rb(2) j(1) by (auto simp: fb_holds_def)
  qed
qed

lemma fb_addFragment_frame:
  "fb_addFragment x now fb = Inr (r, fb') \<Longrightarrow> frag_key x \<noteq> k \<Longrightarrow> map_of (bufs fb') k = map_of (bufs fb) k"
  by (auto simp: fb_addFragment_def Let_def split: prod.splits if_splits)

text \<open>Datagrams that arrive one after the other, with the times of their arrival.\<close>

fun feed :: "('p IPv4Datagram \<times> simtime) list \<Rightarrow> 'p IPv4FragBuf
    \<Rightarrow> ('p IPv4Datagram option list \<times> 'p IPv4FragBuf) res" where
  "feed [] fb = Inr ([], fb)"
| "feed ((x, t) # xs) fb =
     bind_res (fb_addFragment x t fb) (\<lambda>(r, fb').
       bind_res (feed xs fb') (\<lambda>(rs, fb''). Inr (r # rs, fb'')))"

text \<open>The numbers of the fragments among the datagrams.\<close>

definition seen_frags :: "int \<Rightarrow> 'p IPv4Datagram \<Rightarrow> ('p IPv4Datagram \<times> simtime) list \<Rightarrow> nat set" where
  "seen_frags mtu d xs = {i. i < num_fragments mtu d \<and> fragment_no mtu d i \<in> fst ` set xs}"

lemma seen_frags_Cons_own:
  assumes "to_be_fragmented mtu d" "i < num_fragments mtu d"
  shows "seen_frags mtu d ((fragment_no mtu d i, t) # xs) = insert i (seen_frags mtu d xs)"
  using assms(2) fragment_no_inj[OF assms(1)] by (auto simp: seen_frags_def)

lemma seen_frags_Cons_other:
  assumes "frag_key x \<noteq> frag_key d"
  shows "seen_frags mtu d ((x, t) # xs) = seen_frags mtu d xs"
proof -
  have "fragment_no mtu d i \<noteq> x" for i using assms fragment_no_simps(1)[of mtu d i] by metis
  then show ?thesis by (auto simp: seen_frags_def)
qed

text \<open>Datagrams with the key of \<open>d\<close> are its fragments; others are arbitrary.\<close>

definition own_or_other :: "int \<Rightarrow> 'p IPv4Datagram \<Rightarrow> 'p IPv4Datagram \<Rightarrow> bool" where
  "own_or_other mtu d x \<longleftrightarrow> (frag_key x = frag_key d \<longrightarrow> x \<in> set (fragment_list mtu d))"

lemma feed_holds:
  assumes d: "to_be_fragmented mtu d"
  shows "feed xs fb = Inr (rs, fb') \<Longrightarrow> fb_holds mtu d S (map_of (bufs fb) (frag_key d)) \<Longrightarrow>
    \<forall>x \<in> fst ` set xs. own_or_other mtu d x \<Longrightarrow>
    \<not> {..<num_fragments mtu d} \<subseteq> S \<union> seen_frags mtu d xs \<Longrightarrow>
    fb_holds mtu d (S \<union> seen_frags mtu d xs) (map_of (bufs fb') (frag_key d))"
proof (induction xs fb arbitrary: rs fb' S rule: feed.induct)
  case (1 fb)
  then show ?case by (simp add: seen_frags_def)
next
  case (2 x t xs fb)
  obtain r fb1 rs1 where r: "fb_addFragment x t fb = Inr (r, fb1)" "feed xs fb1 = Inr (rs1, fb')"
    using "2.prems"(1) by auto
  have own: "\<forall>x \<in> fst ` set xs. own_or_other mtu d x" using "2.prems"(3) by simp
  show ?case
  proof (cases "frag_key x = frag_key d")
    case True
    then obtain i where i: "i < num_fragments mtu d" "x = fragment_no mtu d i"
      using "2.prems"(3) by (auto simp: own_or_other_def fragment_list_def)
    have e: "S \<union> seen_frags mtu d ((x, t) # xs) = insert i S \<union> seen_frags mtu d xs"
      using seen_frags_Cons_own[OF d i(1)] i(2) by simp
    then have n: "\<not> {..<num_fragments mtu d} \<subseteq> insert i S \<union> seen_frags mtu d xs"
      using "2.prems"(4) by simp
    then have "insert i S \<noteq> {..<num_fragments mtu d}" by blast
    then have "fb_holds mtu d (insert i S) (map_of (bufs fb1) (frag_key d))"
      using fb_addFragment_step[OF d "2.prems"(2) i(1), of t] r(1) i(2) by auto
    from "2.IH"[OF r(1) refl r(2) this own n] show ?thesis unfolding e .
  next
    case False
    have e: "seen_frags mtu d ((x, t) # xs) = seen_frags mtu d xs"
      by (rule seen_frags_Cons_other[OF False])
    have "fb_holds mtu d S (map_of (bufs fb1) (frag_key d))"
      using "2.prems"(2) fb_addFragment_frame[OF r(1) False] by simp
    from "2.IH"[OF r(1) refl r(2) this own] "2.prems"(4) show ?thesis unfolding e by simp
  qed
qed

lemma all_seen_iff:
  assumes "to_be_fragmented mtu d"
  shows "{..<num_fragments mtu d} \<subseteq> seen_frags mtu d xs \<longleftrightarrow> set (fragment_list mtu d) \<subseteq> fst ` set xs"
  by (auto simp: seen_frags_def fragment_list_def)

text \<open>
  A datagram is fragmented for an interface, and the fragments arrive at a receiver in any order and
  possibly more than once, mixed with any other datagrams. As long as one fragment is missing,
  another arrival yields the datagram exactly when it is the last one missing: the whole datagram
  comes out, up to its name, and its buffer is gone.
\<close>

theorem fragments_reassembled:
  assumes "to_be_fragmented mtu d" "map_of (bufs fb0) (frag_key d) = None"
    and "feed xs fb0 = Inr (rs, fb)"
    and "\<forall>x \<in> fst ` set xs. own_or_other mtu d x"
    and "\<not> set (fragment_list mtu d) \<subseteq> fst ` set xs"
    and "f \<in> set (fragment_list mtu d)"
  shows "\<exists>fb'. fb_addFragment f now fb =
      Inr (if set (fragment_list mtu d) \<subseteq> insert f (fst ` set xs)
           then Some (d\<lparr>dg_name := dg_name d @ ''-frag''\<rparr>) else None, fb')
    \<and> (set (fragment_list mtu d) \<subseteq> insert f (fst ` set xs)
       \<longrightarrow> map_of (bufs fb') = (map_of (bufs fb))(frag_key d := None))"
proof -
  obtain i where i: "i < num_fragments mtu d" "f = fragment_no mtu d i"
    using assms(6) by (auto simp: fragment_list_def)
  have "fb_holds mtu d {} (map_of (bufs fb0) (frag_key d))" using assms(2) by (simp add: fb_holds_def)
  from feed_holds[OF assms(1,3) this assms(4)]
  have h: "fb_holds mtu d (seen_frags mtu d xs) (map_of (bufs fb) (frag_key d))"
    using assms(5) by (simp add: all_seen_iff[OF assms(1)])
  have "insert i (seen_frags mtu d xs) = {..<num_fragments mtu d}
      \<longleftrightarrow> {..<num_fragments mtu d} \<subseteq> seen_frags mtu d ((f, now) # xs)"
    using i seen_frags_Cons_own[OF assms(1) i(1)] by (auto simp: seen_frags_def)
  also have "\<dots> \<longleftrightarrow> set (fragment_list mtu d) \<subseteq> insert f (fst ` set xs)"
    using all_seen_iff[OF assms(1), of "(f, now) # xs"] by simp
  finally have "(insert i (seen_frags mtu d xs) = {..<num_fragments mtu d})
      = (set (fragment_list mtu d) \<subseteq> insert f (fst ` set xs))" .
  note complete = this
  from fb_addFragment_step[OF assms(1) h i(1), of now] show ?thesis
    unfolding i(2)[symmetric] complete by (elim exE conjE, intro exI conjI) (assumption, simp)
qed

definition sample_datagram :: "u32 \<Rightarrow> nat IPv4Datagram" where
  "sample_datagram ident = \<lparr>dg_name = ''data'', byteLength = 120, bitError = False, arrivalGate = Some 0,
     dg_multicastLoop = None, headerLength = 20, dg_srcAddress = 0x0A000001, dg_destAddress = 0x0A000002,
     transportProtocol = 17, timeToLive = 32, identification = ident, moreFragments = False,
     dontFragment = False, fragmentOffset = 0, typeOfService = 0, encapsulatedPacket = Some 1\<rparr>"

lemma sample_fragmented: "to_be_fragmented 68 (sample_datagram 7)"
  by (simp add: to_be_fragmented_def sample_datagram_def payload_length_def)

lemma sample_fragments:
  "fragment_list 68 (sample_datagram 7) = map (fragment_no 68 (sample_datagram 7)) [0, 1, 2]"
proof -
  have "num_fragments 68 (sample_datagram 7) = 3"
    by (simp add: num_fragments_def num_pieces_def payload_length_def frag_length_def
        signed_divide_int_def sample_datagram_def)
  then show ?thesis by (simp add: fragment_list_def upt_rec numeral_2_eq_2)
qed

theorem fragments_reassembled_witness:
  "\<exists>rs fb fb'. feed [(fragment_no 68 (sample_datagram 7) 2, 1), (fragment_no 68 (sample_datagram 8) 0, 2),
        (fragment_no 68 (sample_datagram 7) 0, 3), (fragment_no 68 (sample_datagram 7) 2, 4)]
        new_IPv4FragBuf = Inr (rs, fb)
     \<and> fb_addFragment (fragment_no 68 (sample_datagram 7) 1) 5 fb =
        Inr (Some (sample_datagram 7\<lparr>dg_name := dg_name (sample_datagram 7) @ ''-frag''\<rparr>), fb')"
proof -
  let ?s = "sample_datagram 7"
  let ?xs = "[(fragment_no 68 ?s 2, 1), (fragment_no 68 (sample_datagram 8) 0, 2), (fragment_no 68 ?s 0, 3),
    (fragment_no 68 ?s 2, 4)] :: (nat IPv4Datagram \<times> simtime) list"
  have "\<exists>rs fb. feed ?xs new_IPv4FragBuf = Inr (rs, fb)"
    by (simp add: fb_addFragment_def frag_key_def fragment_no_def fragment_at_def new_IPv4FragBuf_def
        frag_length_def signed_divide_int_def sample_datagram_def new_DatagramBuffer_def Let_def kept_datagram_def
        reassembly_addFragment_def reassembly_merge_def new_ReassemblyBuffer_def mergeFragments_def
        merge_frags.simps payload_length_def less_FragKey_def)
  then obtain rs fb where r: "feed ?xs new_IPv4FragBuf = Inr (rs, fb)" by blast
  have k: "map_of (bufs new_IPv4FragBuf) (frag_key ?s) = None" by (simp add: new_IPv4FragBuf_def)
  have "frag_key (sample_datagram 8) \<noteq> frag_key ?s" by (simp add: frag_key_def sample_datagram_def)
  then have own: "\<forall>x \<in> fst ` set ?xs. own_or_other 68 ?s x"
    by (simp add: own_or_other_def sample_fragments)
  have ne: "fragment_no 68 ?s i \<noteq> fragment_no 68 ?s j" "fragment_no 68 ?s i \<noteq> fragment_no 68 (sample_datagram 8) 0"
    if "i \<noteq> j" for i j
    using that by (simp_all add: fragment_no_def fragment_at_def frag_length_def signed_divide_int_def
        sample_datagram_def Let_def)
  have "\<not> set (fragment_list 68 ?s) \<subseteq> fst ` set ?xs"
    using ne[of 1 2] ne[of 1 0] by (simp add: sample_fragments)
  moreover have "fragment_no 68 ?s 1 \<in> set (fragment_list 68 ?s)" by (simp add: sample_fragments)
  ultimately obtain fb' where "fb_addFragment (fragment_no 68 ?s 1) 5 fb =
      Inr (Some (?s\<lparr>dg_name := dg_name ?s @ ''-frag''\<rparr>), fb')"
    using fragments_reassembled[OF sample_fragmented k r own, of "fragment_no 68 ?s 1" 5]
    by (auto simp: sample_fragments)
  with r show ?thesis by blast
qed

end
