(* ===== verification/MAC_Address.thy ===== *)
theory MAC_Address
  imports IPv4_Address
begin

text \<open>
  Link layer addresses (\<^verbatim>\<open>linklayer/contract/MACAddress.h\<close>,
  \<^verbatim>\<open>MACAddress.cc\<close>): 48 bits in a 64-bit number, accessed byte by byte, with their
  hexadecimal form. The lemmas describe a byte store bit by bit, and show that an address is read
  back from its hexadecimal form.
\<close>

type_synonym MACAddress = "64 word"

definition MAC_ADDRESS_SIZE :: nat where "MAC_ADDRESS_SIZE = 6"
definition MAC_ADDRESS_MASK :: MACAddress where "MAC_ADDRESS_MASK = 0xffffffffffff"

definition MAC_UNSPECIFIED :: MACAddress where "MAC_UNSPECIFIED = 0"
definition MAC_BROADCAST :: MACAddress where "MAC_BROADCAST = 0xffffffffffff"
definition MULTICAST_PAUSE_ADDRESS :: MACAddress where "MULTICAST_PAUSE_ADDRESS = 0x0180C2000001"
definition STP_MULTICAST_ADDRESS :: MACAddress where "STP_MULTICAST_ADDRESS = 0x0180C2000000"

definition mac_of_bits :: "64 word \<Rightarrow> MACAddress" where
  "mac_of_bits bits = bits AND MAC_ADDRESS_MASK"

definition byte_offset :: "nat \<Rightarrow> nat" where
  "byte_offset k = (MAC_ADDRESS_SIZE - k - 1) * 8"

definition getAddressByte :: "nat \<Rightarrow> MACAddress \<Rightarrow> u8 res" where
  "getAddressByte k a =
     (if k \<ge> MAC_ADDRESS_SIZE then Inl (Runtime_error ''Array of size 6 indexed'')
      else Inr (ucast (0xff AND drop_bit (byte_offset k) a)))"

definition setAddressByte :: "nat \<Rightarrow> u8 \<Rightarrow> MACAddress \<Rightarrow> MACAddress res" where
  "setAddressByte k b a =
     (if k \<ge> MAC_ADDRESS_SIZE then Inl (Runtime_error ''Array of size 6 indexed'')
      else Inr ((a AND NOT (push_bit (byte_offset k) 0xff)) OR push_bit (byte_offset k) (ucast b)))"

definition setBroadcast :: MACAddress where "setBroadcast = MAC_ADDRESS_MASK"

definition mac_isBroadcast :: "MACAddress \<Rightarrow> bool" where
  "mac_isBroadcast a \<longleftrightarrow> a = MAC_ADDRESS_MASK"

definition mac_isMulticast :: "MACAddress \<Rightarrow> bool res" where
  "mac_isMulticast a = bind_res (getAddressByte 0 a) (\<lambda>b. Inr (b AND 0x01 \<noteq> 0))"

definition mac_isUnspecified :: "MACAddress \<Rightarrow> bool" where
  "mac_isUnspecified a \<longleftrightarrow> a = 0"

definition mac_compareTo :: "MACAddress \<Rightarrow> MACAddress \<Rightarrow> int" where
  "mac_compareTo a b = (if a < b then -1 else if a = b then 0 else 1)"

section \<open>Hexadecimal form\<close>

definition code :: "char \<Rightarrow> nat" where "code c = of_char c"

definition isxdigit :: "char \<Rightarrow> bool" where
  "isxdigit c \<longleftrightarrow> is_digit c \<or> (65 \<le> code c \<and> code c \<le> 70) \<or> (97 \<le> code c \<and> code c \<le> 102)"

definition xdigit_value :: "char \<Rightarrow> nat" where
  "xdigit_value c =
     (if is_digit c then code c - 48
      else if 97 \<le> code c \<and> code c \<le> 122 then code c - 97 + 10
      else code c - 65 + 10)"

definition skip_to_xdigit :: "string \<Rightarrow> string" where
  "skip_to_xdigit s = dropWhile (\<lambda>c. \<not> isxdigit c) s"

text \<open>The loop over the bytes, of which \<open>n\<close> are left.\<close>

fun parse_mac :: "nat \<Rightarrow> string \<Rightarrow> MACAddress \<Rightarrow> MACAddress res" where
  "parse_mac 0 s a = Inr a"
| "parse_mac (Suc n) s a =
     (let pos = MAC_ADDRESS_SIZE - Suc n; s1 = skip_to_xdigit s
      in case s1 of
           [] \<Rightarrow> bind_res (setAddressByte pos 0 a) (parse_mac n s1)
         | c1 # s2 \<Rightarrow>
             (case skip_to_xdigit s2 of
                [] \<Rightarrow> bind_res (setAddressByte pos 0 a) (parse_mac n [])
              | c2 # s3 \<Rightarrow>
                  bind_res (setAddressByte pos (of_nat (xdigit_value c1 * 16 + xdigit_value c2)) a)
                    (parse_mac n s3)))"

definition mac_tryParse :: "string option \<Rightarrow> MACAddress \<Rightarrow> (bool \<times> MACAddress) res" where
  "mac_tryParse hexstr a =
     (case hexstr of
        None \<Rightarrow> Inr (False, a)
      | Some s \<Rightarrow>
          if \<not> list_all (\<lambda>c. isxdigit c \<or> c \<in> {CHR '' '', CHR '':'', CHR ''-''}) s then Inr (False, a)
          else if length (filter isxdigit s) \<noteq> 2 * MAC_ADDRESS_SIZE then Inr (False, a)
          else bind_res (parse_mac MAC_ADDRESS_SIZE s 0) (\<lambda>a'. Inr (True, a')))"

definition mac_setAddress :: "string option \<Rightarrow> MACAddress \<Rightarrow> MACAddress res" where
  "mac_setAddress hexstr a =
     bind_res (mac_tryParse hexstr a) (\<lambda>(ok, a').
       if ok then Inr a' else Inl (Runtime_error ''MACAddress: wrong address syntax''))"

definition xdigit :: "nat \<Rightarrow> char" where
  "xdigit n = char_of (if n < 10 then 48 + n else 55 + n)"

text \<open>Each byte with two digits and a hyphen; the last hyphen is overwritten.\<close>

definition mac_str :: "MACAddress \<Rightarrow> string res" where
  "mac_str a =
     bind_res (fold_res (\<lambda>i s. bind_res (getAddressByte i a) (\<lambda>b.
         Inr (s @ [xdigit (unat b div 16), xdigit (unat b mod 16), CHR ''-''])))
       [0..<MAC_ADDRESS_SIZE] []) (\<lambda>s. Inr (butlast s))"

section \<open>Generated addresses\<close>

text \<open>The counter is shared by all addresses.\<close>

definition generateAutoAddress :: "u32 \<Rightarrow> MACAddress \<times> u32" where
  "generateAutoAddress ctr = (let ctr' = ctr + 1 in (mac_of_bits (0x0AAA00000000 + ucast ctr'), ctr'))"

definition makeMulticastAddress :: "IPv4Address \<Rightarrow> MACAddress res" where
  "makeMulticastAddress addr =
     ASSERT (ip_isMulticast addr)
       (bind_res (setAddressByte 0 0x01 0) (\<lambda>a.
        bind_res (setAddressByte 1 0x00 a) (\<lambda>a.
        bind_res (setAddressByte 2 0x5e a) (\<lambda>a.
        bind_res (setAddressByte 3 (word_of_int (getDByte 1 addr) AND 0x7f) a) (\<lambda>a.
        bind_res (setAddressByte 4 (word_of_int (getDByte 2 addr)) a) (\<lambda>a.
        setAddressByte 5 (word_of_int (getDByte 3 addr)) a))))))"

section \<open>Bytes and digits\<close>

lemma setAddressByte_bit:
  assumes "k < 6" "setAddressByte k b a = Inr a'" "n < 64"
  shows "bit a' n \<longleftrightarrow> (if byte_offset k \<le> n \<and> n < byte_offset k + 8 then bit b (n - byte_offset k) else bit a n)"
proof -
  have m: "(0xff :: 64 word) = mask 8" by (simp add: mask_eq_exp_minus_1)
  have b: "bit b j \<Longrightarrow> j < 8" for j using bit_imp_le_length[of b j] by simp
  have "a' = (a AND NOT (push_bit (byte_offset k) (mask 8))) OR push_bit (byte_offset k) (ucast b)"
    using assms(1,2) unfolding m[symmetric] by (simp add: setAddressByte_def MAC_ADDRESS_SIZE_def)
  then show ?thesis using assms(3) b[of "n - byte_offset k"] by (auto simp: bit_simps)
qed

lemma code_xdigit: "n < 16 \<Longrightarrow> code (xdigit n) = (if n < 10 then 48 + n else 55 + n)"
  by (simp add: code_def xdigit_def of_char_of)

lemma is_digit_code: "is_digit c \<longleftrightarrow> 48 \<le> code c \<and> code c \<le> 57"
  by (simp add: is_digit_def code_def)

lemma xdigit_ok [simp]:
  assumes "n < 16"
  shows "isxdigit (xdigit n)" "xdigit_value (xdigit n) = n" "xdigit n \<noteq> CHR ''-''"
proof -
  show "isxdigit (xdigit n)" "xdigit_value (xdigit n) = n"
    using assms by (auto simp: isxdigit_def xdigit_value_def is_digit_code code_xdigit split: if_splits)
  have "code (CHR ''-'') = 45" by (simp add: code_def)
  then show "xdigit n \<noteq> CHR ''-''" using code_xdigit[OF assms] by (auto split: if_splits)
qed

section \<open>The hexadecimal form is read back\<close>

text \<open>Byte \<open>k\<close> of an address.\<close>

definition the_byte :: "nat \<Rightarrow> MACAddress \<Rightarrow> u8" where
  "the_byte k a = ucast (drop_bit (byte_offset k) a)"

lemma getAddressByte_Inr: "k < 6 \<Longrightarrow> getAddressByte k a = Inr (the_byte k a)"
proof -
  assume k: "k < 6"
  have m: "(0xff :: 64 word) = mask 8" by (simp add: mask_eq_exp_minus_1)
  have b: "bit (x :: 8 word) j \<Longrightarrow> j < 8" for x j using bit_imp_le_length[of x j] by simp
  have "(ucast (mask 8 AND drop_bit (byte_offset k) a) :: 8 word) = ucast (drop_bit (byte_offset k) a)"
    by (rule bit_word_eqI) (auto simp: bit_simps)
  then show ?thesis using k by (simp add: getAddressByte_def the_byte_def MAC_ADDRESS_SIZE_def m)
qed

definition hex_byte :: "u8 \<Rightarrow> string" where
  "hex_byte b = [xdigit (unat b div 16), xdigit (unat b mod 16)]"

lemma hex_byte_digits: "unat (b :: u8) div 16 < 16"
proof -
  have "unat b < 2 ^ 8" using unsigned_less[of b] by simp
  then show ?thesis by simp
qed

lemma mac_str_bytes:
  "mac_str a = Inr (hex_byte (the_byte 0 a) @ ''-'' @ hex_byte (the_byte 1 a) @ ''-''
     @ hex_byte (the_byte 2 a) @ ''-'' @ hex_byte (the_byte 3 a) @ ''-''
     @ hex_byte (the_byte 4 a) @ ''-'' @ hex_byte (the_byte 5 a))"
proof -
  have "[0..<6] = [0, 1, 2, 3, 4, 5 :: nat]" by (simp add: upt_rec numeral_eq_Suc)
  then show ?thesis by (simp add: mac_str_def MAC_ADDRESS_SIZE_def getAddressByte_Inr hex_byte_def)
qed

lemma parse_mac_step:
  assumes "n < 6"
  shows "parse_mac (Suc n) (hex_byte b @ s) a = bind_res (setAddressByte (6 - Suc n) b a) (parse_mac n s)"
    "parse_mac (Suc n) (CHR ''-'' # hex_byte b @ s) a = bind_res (setAddressByte (6 - Suc n) b a) (parse_mac n s)"
proof -
  have h: "\<not> isxdigit (CHR ''-'')" by (simp add: isxdigit_def is_digit_code code_def)
  have "(of_nat (unat b div 16 * 16 + unat b mod 16) :: u8) = b" by (simp only: div_mult_mod_eq) simp
  then show "parse_mac (Suc n) (hex_byte b @ s) a = bind_res (setAddressByte (6 - Suc n) b a) (parse_mac n s)"
    "parse_mac (Suc n) (CHR ''-'' # hex_byte b @ s) a = bind_res (setAddressByte (6 - Suc n) b a) (parse_mac n s)"
    using hex_byte_digits[of b] h
    by (simp_all add: hex_byte_def skip_to_xdigit_def MAC_ADDRESS_SIZE_def Let_def del: of_nat_add of_nat_mult)
qed

lemma setAddressByte_Inr: "k < 6 \<Longrightarrow> \<exists>a'. setAddressByte k b a = Inr a'"
  by (simp add: setAddressByte_def MAC_ADDRESS_SIZE_def)

text \<open>Storing the six bytes of an address gives the address.\<close>

lemma store_bytes:
  assumes "a AND MAC_ADDRESS_MASK = a"
    and "setAddressByte 0 (the_byte 0 a) 0 = Inr a1" "setAddressByte 1 (the_byte 1 a) a1 = Inr a2"
    "setAddressByte 2 (the_byte 2 a) a2 = Inr a3" "setAddressByte 3 (the_byte 3 a) a3 = Inr a4"
    "setAddressByte 4 (the_byte 4 a) a4 = Inr a5" "setAddressByte 5 (the_byte 5 a) a5 = Inr a6"
  shows "a6 = a"
proof (rule bit_word_eqI)
  fix n assume n: "n < LENGTH(64)"
  have o: "byte_offset 0 = 40" "byte_offset (Suc 0) = 32" "byte_offset 2 = 24" "byte_offset 3 = 16"
    "byte_offset 4 = 8" "byte_offset 5 = 0"
    by (simp_all add: byte_offset_def MAC_ADDRESS_SIZE_def)
  have b: "bit (the_byte k a) j \<longleftrightarrow> j < 8 \<and> bit a (byte_offset k + j)" for k j
    by (auto simp: the_byte_def bit_simps)
  have m: "(0xffffffffffff :: 64 word) = mask 48" by (simp add: mask_eq_exp_minus_1)
  have "bit (a AND MAC_ADDRESS_MASK) n = bit a n" using assms(1) by simp
  then have high: "bit a n \<Longrightarrow> n < 48" by (simp add: MAC_ADDRESS_MASK_def m bit_simps)
  note bits = setAddressByte_bit[OF _ assms(2) n[simplified]] setAddressByte_bit[OF _ assms(3) n[simplified]]
    setAddressByte_bit[OF _ assms(4) n[simplified]] setAddressByte_bit[OF _ assms(5) n[simplified]]
    setAddressByte_bit[OF _ assms(6) n[simplified]] setAddressByte_bit[OF _ assms(7) n[simplified]]
  consider "n < 8" | "8 \<le> n" "n < 16" | "16 \<le> n" "n < 24" | "24 \<le> n" "n < 32" | "32 \<le> n" "n < 40"
    | "40 \<le> n" "n < 48" | "48 \<le> n" by linarith
  then show "bit a6 n = bit a n"
    by cases (use bits high in \<open>auto simp: o b\<close>)
qed

text \<open>Any address of 48 bits is read back from its hexadecimal form.\<close>

theorem mac_str_roundtrip:
  assumes "a AND MAC_ADDRESS_MASK = a"
  shows "bind_res (mac_str a) (\<lambda>s. mac_setAddress (Some s) a0) = Inr a"
proof -
  let ?s = "hex_byte (the_byte 0 a) @ ''-'' @ hex_byte (the_byte 1 a) @ ''-''
     @ hex_byte (the_byte 2 a) @ ''-'' @ hex_byte (the_byte 3 a) @ ''-''
     @ hex_byte (the_byte 4 a) @ ''-'' @ hex_byte (the_byte 5 a)"
  have h: "\<not> isxdigit (CHR ''-'')" by (simp add: isxdigit_def is_digit_code code_def)
  have all: "list_all (\<lambda>c. isxdigit c \<or> c = CHR '' '' \<or> c = CHR '':'' \<or> c = CHR ''-'') (hex_byte b)"
    "filter isxdigit (hex_byte b) = hex_byte b" "length (hex_byte b) = 2" for b
    using hex_byte_digits[of b] by (simp_all add: hex_byte_def)
  obtain a1 where r1: "setAddressByte 0 (the_byte 0 a) 0 = Inr a1"
    using setAddressByte_Inr[of 0] by auto
  obtain a2 where r2: "setAddressByte 1 (the_byte 1 a) a1 = Inr a2"
    using setAddressByte_Inr[of 1] by auto
  obtain a3 where r3: "setAddressByte 2 (the_byte 2 a) a2 = Inr a3"
    using setAddressByte_Inr[of 2] by auto
  obtain a4 where r4: "setAddressByte 3 (the_byte 3 a) a3 = Inr a4"
    using setAddressByte_Inr[of 3] by auto
  obtain a5 where r5: "setAddressByte 4 (the_byte 4 a) a4 = Inr a5"
    using setAddressByte_Inr[of 4] by auto
  obtain a6 where r6: "setAddressByte 5 (the_byte 5 a) a5 = Inr a6"
    using setAddressByte_Inr[of 5] by auto
  have "parse_mac 6 ?s 0 = Inr a6"
    using r1 r2 r3 r4 r5 r6 parse_mac_step(1)[of 5 "the_byte 0 a"] parse_mac_step(2)[of 4 "the_byte 1 a"]
      parse_mac_step(2)[of 3 "the_byte 2 a"] parse_mac_step(2)[of 2 "the_byte 3 a"]
      parse_mac_step(2)[of 1 "the_byte 4 a"] parse_mac_step(2)[of 0 "the_byte 5 a" "[]"]
    by (simp add: eval_nat_numeral del: parse_mac.simps(2))
  then have "mac_tryParse (Some ?s) a0 = Inr (True, a6)"
    using h by (simp add: mac_tryParse_def all MAC_ADDRESS_SIZE_def)
  then show ?thesis
    by (simp add: mac_str_bytes mac_setAddress_def store_bytes[OF assms r1 r2 r3 r4 r5 r6])
qed

theorem mac_str_roundtrip_witness:
  "bind_res (mac_str 0x0AAA00000001) (\<lambda>s. mac_setAddress (Some s) 0) = Inr 0x0AAA00000001"
  by (rule mac_str_roundtrip) (simp add: MAC_ADDRESS_MASK_def)

end
