(* ===== verification/IPv4_Interface.thy ===== *)
theory IPv4_Interface
  imports MAC_Address
begin

text \<open>
  The interfaces of a node: \<^verbatim>\<open>networklayer/common/InterfaceEntry.h\<close>, the lookups of
  \<^verbatim>\<open>networklayer/common/InterfaceTable.cc\<close>, and the IPv4 data of an interface with its
  multicast groups (\<^verbatim>\<open>networklayer/ipv4/IPv4InterfaceData.h\<close>,
  \<^verbatim>\<open>IPv4InterfaceData.cc\<close>). A pointer to an interface is its id, which is unique in
  the table. The lemmas show that the reference counts of the joined groups are a multiset: joining
  adds one, leaving takes one away.
\<close>

section \<open>IPv4 data of an interface\<close>

record HostMulticastData =
  joinedMulticastGroups :: "IPv4Address list"
  refCounts :: "int list"

record RouterMulticastData =
  reportedMulticastGroups :: "IPv4Address list"
  multicastTtlThreshold :: int

record IPv4InterfaceData =
  inetAddr :: IPv4Address
  if_netmask :: IPv4Address
  if_metric :: int
  hostData :: "HostMulticastData option"
  routerData :: "RouterMulticastData option"

text \<open>The fields whose change is announced, and the announcements.\<close>

datatype if_field =
    F_IP_ADDRESS | F_NETMASK | F_METRIC | F_MULTICAST_TTL_THRESHOLD | F_MULTICAST_ADDRESSES
  | F_MULTICAST_LISTENERS

datatype if_event =
    NF_INTERFACE_IPv4CONFIG_CHANGED if_field
  | NF_IPv4_MCAST_JOIN IPv4Address
  | NF_IPv4_MCAST_LEAVE IPv4Address

definition new_IPv4InterfaceData :: IPv4InterfaceData where
  "new_IPv4InterfaceData =
     \<lparr>inetAddr = 0, if_netmask = ALLONES_ADDRESS, if_metric = 0, hostData = None, routerData = None\<rparr>"

text \<open>Both multicast records are made when they are first asked for.\<close>

definition getHostData :: "IPv4InterfaceData \<Rightarrow> HostMulticastData" where
  "getHostData d =
     (case hostData d of None \<Rightarrow> \<lparr>joinedMulticastGroups = [], refCounts = []\<rparr> | Some h \<Rightarrow> h)"

definition getRouterData :: "IPv4InterfaceData \<Rightarrow> RouterMulticastData" where
  "getRouterData d =
     (case routerData d of
        None \<Rightarrow> \<lparr>reportedMulticastGroups = [], multicastTtlThreshold = 0\<rparr> | Some r \<Rightarrow> r)"

definition getNetworkBroadcastAddress :: "IPv4InterfaceData \<Rightarrow> IPv4Address" where
  "getNetworkBroadcastAddress d = makeBroadcastAddress (inetAddr d) (if_netmask d)"

definition getMulticastTtlThreshold :: "IPv4InterfaceData \<Rightarrow> int" where
  "getMulticastTtlThreshold d = multicastTtlThreshold (getRouterData d)"

definition setIPAddress :: "IPv4Address \<Rightarrow> IPv4InterfaceData \<Rightarrow> if_event list \<times> IPv4InterfaceData" where
  "setIPAddress a d = ([NF_INTERFACE_IPv4CONFIG_CHANGED F_IP_ADDRESS], d\<lparr>inetAddr := a\<rparr>)"

definition if_setNetmask :: "IPv4Address \<Rightarrow> IPv4InterfaceData \<Rightarrow> if_event list \<times> IPv4InterfaceData" where
  "if_setNetmask m d = ([NF_INTERFACE_IPv4CONFIG_CHANGED F_NETMASK], d\<lparr>if_netmask := m\<rparr>)"

definition if_setMetric :: "int \<Rightarrow> IPv4InterfaceData \<Rightarrow> if_event list \<times> IPv4InterfaceData" where
  "if_setMetric m d = ([NF_INTERFACE_IPv4CONFIG_CHANGED F_METRIC], d\<lparr>if_metric := m\<rparr>)"

definition setMulticastTtlThreshold :: "int \<Rightarrow> IPv4InterfaceData \<Rightarrow> if_event list \<times> IPv4InterfaceData" where
  "setMulticastTtlThreshold t d =
     ([NF_INTERFACE_IPv4CONFIG_CHANGED F_MULTICAST_TTL_THRESHOLD],
      d\<lparr>routerData := Some ((getRouterData d)\<lparr>multicastTtlThreshold := t\<rparr>)\<rparr>)"

section \<open>Multicast groups\<close>

definition isMemberOfMulticastGroup :: "IPv4Address \<Rightarrow> IPv4InterfaceData \<Rightarrow> bool" where
  "isMemberOfMulticastGroup a d \<longleftrightarrow> a \<in> set (joinedMulticastGroups (getHostData d))"

text \<open>The loop of \<^verbatim>\<open>joinMulticastGroup\<close>; \<^verbatim>\<open>None\<close> when the group is not there.\<close>

fun bump_refcount :: "IPv4Address \<Rightarrow> IPv4Address list \<Rightarrow> int list \<Rightarrow> int list option res" where
  "bump_refcount a [] rs = Inr None"
| "bump_refcount a (g # gs) [] = Inl Undefined_behaviour"
| "bump_refcount a (g # gs) (r # rs) =
     (if g = a then Inr (Some ((r + 1) # rs))
      else bind_res (bump_refcount a gs rs) (\<lambda>x. Inr (map_option ((#) r) x)))"

definition joinMulticastGroup ::
  "IPv4Address \<Rightarrow> IPv4InterfaceData \<Rightarrow> (if_event list \<times> IPv4InterfaceData) res" where
  "joinMulticastGroup a d =
     (if \<not> ip_isMulticast a then
        Inl (Runtime_error ''IPv4InterfaceData::joinMulticastGroup(): multicast address expected'')
      else
        let h = getHostData d
        in bind_res (bump_refcount a (joinedMulticastGroups h) (refCounts h)) (\<lambda>x.
          case x of
            Some rs \<Rightarrow> Inr ([], d\<lparr>hostData := Some (h\<lparr>refCounts := rs\<rparr>)\<rparr>)
          | None \<Rightarrow>
              Inr ([NF_INTERFACE_IPv4CONFIG_CHANGED F_MULTICAST_ADDRESSES, NF_IPv4_MCAST_JOIN a],
                d\<lparr>hostData := Some (h\<lparr>joinedMulticastGroups := joinedMulticastGroups h @ [a],
                     refCounts := refCounts h @ [1]\<rparr>)\<rparr>)))"

definition remove_at :: "nat \<Rightarrow> 'a list \<Rightarrow> 'a list" where
  "remove_at i xs = take i xs @ drop (Suc i) xs"

text \<open>
  The loop of \<^verbatim>\<open>leaveMulticastGroup\<close>: it goes on after a group has been erased, with the
  index that follows.
\<close>

function leave_loop ::
  "IPv4Address \<Rightarrow> nat \<Rightarrow> IPv4Address list \<Rightarrow> int list \<Rightarrow> (if_event list \<times> IPv4Address list \<times> int list) res"
where
  "leave_loop a i gs rs =
     (if \<not> i < length gs then Inr ([], gs, rs)
      else if gs ! i \<noteq> a then leave_loop a (Suc i) gs rs
      else if \<not> i < length rs then Inl Undefined_behaviour
      else if rs ! i - 1 = 0 then
        bind_res (leave_loop a (Suc i) (remove_at i gs) (remove_at i rs)) (\<lambda>(evs, gs', rs').
          Inr ([NF_INTERFACE_IPv4CONFIG_CHANGED F_MULTICAST_ADDRESSES, NF_IPv4_MCAST_LEAVE a] @ evs, gs', rs'))
      else leave_loop a (Suc i) gs (rs[i := rs ! i - 1]))"
  by pat_completeness auto
termination
  by (relation "measure (\<lambda>(a, i, gs, rs). length gs - i)") (auto simp: remove_at_def)

declare leave_loop.simps [simp del]

definition leaveMulticastGroup ::
  "IPv4Address \<Rightarrow> IPv4InterfaceData \<Rightarrow> (if_event list \<times> IPv4InterfaceData) res" where
  "leaveMulticastGroup a d =
     (if \<not> ip_isMulticast a then
        Inl (Runtime_error ''IPv4InterfaceData::leaveMulticastGroup(): multicast address expected'')
      else
        let h = getHostData d
        in bind_res (leave_loop a 0 (joinedMulticastGroups h) (refCounts h)) (\<lambda>(evs, gs, rs).
          Inr (evs, d\<lparr>hostData := Some (h\<lparr>joinedMulticastGroups := gs, refCounts := rs\<rparr>)\<rparr>)))"

definition hasMulticastListener :: "IPv4Address \<Rightarrow> IPv4InterfaceData \<Rightarrow> bool" where
  "hasMulticastListener a d \<longleftrightarrow> a \<in> set (reportedMulticastGroups (getRouterData d))"

definition addMulticastListener ::
  "IPv4Address \<Rightarrow> IPv4InterfaceData \<Rightarrow> (if_event list \<times> IPv4InterfaceData) res" where
  "addMulticastListener a d =
     (if \<not> ip_isMulticast a then
        Inl (Runtime_error ''IPv4InterfaceData::addMulticastListener(): multicast address expected'')
      else if \<not> hasMulticastListener a d then
        Inr ([NF_INTERFACE_IPv4CONFIG_CHANGED F_MULTICAST_LISTENERS],
          d\<lparr>routerData := Some ((getRouterData d)\<lparr>reportedMulticastGroups :=
               reportedMulticastGroups (getRouterData d) @ [a]\<rparr>)\<rparr>)
      else Inr ([], d))"

definition removeMulticastListener :: "IPv4Address \<Rightarrow> IPv4InterfaceData \<Rightarrow> if_event list \<times> IPv4InterfaceData" where
  "removeMulticastListener a d =
     (let r = getRouterData d
      in if a \<in> set (reportedMulticastGroups r) then
           ([NF_INTERFACE_IPv4CONFIG_CHANGED F_MULTICAST_LISTENERS],
            d\<lparr>routerData := Some (r\<lparr>reportedMulticastGroups := remove1 a (reportedMulticastGroups r)\<rparr>)\<rparr>)
         else ([], d\<lparr>routerData := Some r\<rparr>))"

section \<open>Interfaces\<close>

record InterfaceEntry =
  if_name :: string
  interfaceId :: int
  nwLayerGateIndex :: int
  mtu :: int
  if_broadcast :: bool
  if_multicast :: bool
  if_loopback :: bool
  macAddr :: MACAddress
  ipv4data :: "IPv4InterfaceData option"

text \<open>\<^verbatim>\<open>idToInterface\<close>: a deleted interface leaves a null pointer.\<close>

type_synonym InterfaceTable = "InterfaceEntry option list"

definition INTERFACEIDS_START :: int where "INTERFACEIDS_START = 100"

text \<open>The interfaces without the null pointers (\<^verbatim>\<open>tmpInterfaceList\<close>).\<close>

fun interfaces :: "InterfaceTable \<Rightarrow> InterfaceEntry list" where
  "interfaces [] = []"
| "interfaces (None # t) = interfaces t"
| "interfaces (Some ie # t) = ie # interfaces t"

definition getNumInterfaces :: "InterfaceTable \<Rightarrow> nat" where
  "getNumInterfaces ift = length (interfaces ift)"

definition getInterface :: "int \<Rightarrow> InterfaceTable \<Rightarrow> InterfaceEntry res" where
  "getInterface pos ift =
     (if pos < 0 \<or> pos \<ge> int (getNumInterfaces ift) then
        Inl (Runtime_error ''getInterface(): interface index out of range'')
      else Inr (interfaces ift ! nat pos))"

definition getInterfaceById :: "int \<Rightarrow> InterfaceTable \<Rightarrow> InterfaceEntry option" where
  "getInterfaceById i ift =
     (let i = i - INTERFACEIDS_START
      in if i < 0 \<or> i \<ge> int (length ift) then None else ift ! nat i)"

fun find_first :: "('a \<Rightarrow> bool) \<Rightarrow> 'a list \<Rightarrow> 'a option" where
  "find_first P [] = None"
| "find_first P (x # xs) = (if P x then Some x else find_first P xs)"

lemma find_first_None: "find_first P xs = None \<longleftrightarrow> (\<forall>x \<in> set xs. \<not> P x)"
  by (induction xs) auto

definition getInterfaceByNetworkLayerGateIndex :: "int \<Rightarrow> InterfaceTable \<Rightarrow> InterfaceEntry option" where
  "getInterfaceByNetworkLayerGateIndex index ift =
     find_first (\<lambda>ie. nwLayerGateIndex ie = index) (interfaces ift)"

definition getInterfaceByName :: "string \<Rightarrow> InterfaceTable \<Rightarrow> InterfaceEntry option" where
  "getInterfaceByName name ift = find_first (\<lambda>ie. if_name ie = name) (interfaces ift)"

definition getFirstLoopbackInterface :: "InterfaceTable \<Rightarrow> InterfaceEntry option" where
  "getFirstLoopbackInterface ift = find_first if_loopback (interfaces ift)"

definition getFirstMulticastInterface :: "InterfaceTable \<Rightarrow> InterfaceEntry option" where
  "getFirstMulticastInterface ift =
     find_first (\<lambda>ie. if_multicast ie \<and> \<not> if_loopback ie) (interfaces ift)"

text \<open>
  The gates that connect the interface belong to the topology of the network: the entry comes with
  the gate index that \<^verbatim>\<open>discoverConnectingGates\<close> finds.
\<close>

definition addInterface :: "InterfaceEntry \<Rightarrow> InterfaceTable \<Rightarrow> InterfaceTable res" where
  "addInterface entry ift =
     (if getInterfaceByName (if_name entry) ift \<noteq> None then
        Inl (Runtime_error ''addInterface(): interface already registered'')
      else Inr (ift @ [Some (entry\<lparr>interfaceId := INTERFACEIDS_START + int (length ift)\<rparr>)]))"

text \<open>The entry is compared by its id, which it shares with no other entry.\<close>

definition deleteInterface :: "InterfaceEntry \<Rightarrow> InterfaceTable \<Rightarrow> InterfaceTable res" where
  "deleteInterface entry ift =
     (if map_option interfaceId (getInterfaceById (interfaceId entry) ift) \<noteq> Some (interfaceId entry) then
        Inl (Runtime_error ''deleteInterface(): interface not found in interface table'')
      else Inr (ift[nat (interfaceId entry - INTERFACEIDS_START) := None]))"

text \<open>Writing to the interface that an interface pointer points to.\<close>

definition set_interface :: "InterfaceEntry \<Rightarrow> InterfaceTable \<Rightarrow> InterfaceTable" where
  "set_interface ie ift = ift[nat (interfaceId ie - INTERFACEIDS_START) := Some ie]"

section \<open>The reference counts are a multiset\<close>

definition counts :: "IPv4Address list \<Rightarrow> int list \<Rightarrow> IPv4Address \<Rightarrow> nat" where
  "counts gs rs a = (case map_of (zip gs rs) a of None \<Rightarrow> 0 | Some r \<Rightarrow> nat r)"

definition group_count :: "IPv4InterfaceData \<Rightarrow> IPv4Address \<Rightarrow> nat" where
  "group_count d = counts (joinedMulticastGroups (getHostData d)) (refCounts (getHostData d))"

lemma counts_absent: "a \<notin> set gs \<Longrightarrow> counts gs rs a = 0"
  by (auto simp: counts_def split: option.splits dest!: map_of_SomeD set_zip_leftD)

lemma counts_split:
  assumes "length us = length qs" "a \<notin> set us"
  shows "counts (us @ a # vs) (qs @ r # ts) = (counts (us @ vs) (qs @ ts))(a := nat r)"
proof -
  have "map_of (zip (us @ a # vs) (qs @ r # ts)) = (map_of (zip (us @ vs) (qs @ ts)))(a \<mapsto> r)"
    using assms by (induction us qs rule: list_induct2) (auto simp: fun_eq_iff)
  then show ?thesis by (auto simp: counts_def fun_eq_iff)
qed

definition host_ok :: "IPv4InterfaceData \<Rightarrow> bool" where
  "host_ok d \<longleftrightarrow> (let h = getHostData d in length (joinedMulticastGroups h) = length (refCounts h)
     \<and> distinct (joinedMulticastGroups h) \<and> (\<forall>r \<in> set (refCounts h). 0 < r))"

lemma bump_refcount_absent: "a \<notin> set gs \<Longrightarrow> length gs = length rs \<Longrightarrow> bump_refcount a gs rs = Inr None"
  by (induction a gs rs rule: bump_refcount.induct) auto

lemma bump_refcount_present:
  "length us = length qs \<Longrightarrow> a \<notin> set us \<Longrightarrow>
   bump_refcount a (us @ a # vs) (qs @ r # ts) = Inr (Some (qs @ (r + 1) # ts))"
  by (induction us qs rule: list_induct2) auto

lemma leave_loop_absent:
  "a \<notin> set (drop i gs) \<Longrightarrow> leave_loop a i gs rs = Inr ([], gs, rs)"
proof (induction a i gs rs rule: leave_loop.induct)
  case (1 a i gs rs)
  show ?case
  proof (cases "i < length gs")
    case True
    then have "drop i gs = gs ! i # drop (Suc i) gs" by (rule Cons_nth_drop_Suc[symmetric])
    then have "gs ! i \<noteq> a" "a \<notin> set (drop (Suc i) gs)" using "1.prems" by auto
    then show ?thesis using "1.IH"(1) True by (subst leave_loop.simps) simp
  next
    case False
    then show ?thesis by (subst leave_loop.simps) simp
  qed
qed

lemma leave_loop_present:
  assumes "length us = length qs" "distinct (us @ a # vs)"
  shows "i \<le> length us \<Longrightarrow> leave_loop a i (us @ a # vs) (qs @ r # ts) =
    (if r - 1 = 0 then Inr ([NF_INTERFACE_IPv4CONFIG_CHANGED F_MULTICAST_ADDRESSES, NF_IPv4_MCAST_LEAVE a],
       us @ vs, qs @ ts)
     else Inr ([], us @ a # vs, qs @ (r - 1) # ts))"
proof (induction "length us - i" arbitrary: i)
  case 0
  then have i: "i = length us" by simp
  have n: "a \<notin> set (drop (Suc i) (us @ vs))" "a \<notin> set (drop (Suc i) (us @ a # vs))"
    using assms(2) set_drop_subset[of 1 vs] i by auto
  show ?case
    using assms(1) i leave_loop_absent[OF n(1)] leave_loop_absent[OF n(2)]
    by (subst leave_loop.simps) (simp add: remove_at_def nth_append)
next
  case (Suc n)
  then have "i < length us" by simp
  then have "(us @ a # vs) ! i \<noteq> a" using assms(2) by (auto simp: nth_append)
  moreover have "i < length (us @ a # vs)" using \<open>i < length us\<close> by simp
  ultimately show ?case using Suc.hyps(1)[of "Suc i"] Suc.hyps(2) \<open>i < length us\<close>
    by (subst leave_loop.simps) (simp del: length_append)
qed

lemma isMember_iff_count:
  assumes "host_ok d"
  shows "isMemberOfMulticastGroup a d \<longleftrightarrow> 0 < group_count d a"
proof (cases "isMemberOfMulticastGroup a d")
  case True
  then have "a \<in> set (joinedMulticastGroups (getHostData d))" by (simp add: isMemberOfMulticastGroup_def)
  then obtain r where "map_of (zip (joinedMulticastGroups (getHostData d)) (refCounts (getHostData d))) a = Some r"
    using assms map_of_zip_is_Some by (fastforce simp: host_ok_def Let_def)
  moreover from this have "0 < r" using assms by (auto simp: host_ok_def Let_def dest!: map_of_SomeD set_zip_rightD)
  ultimately show ?thesis using True by (simp add: group_count_def counts_def)
next
  case False
  then show ?thesis by (simp add: group_count_def counts_absent isMemberOfMulticastGroup_def)
qed

lemma getHostData_update [simp]: "getHostData (d\<lparr>hostData := Some h\<rparr>) = h"
  by (simp add: getHostData_def)

text \<open>The two vectors around a group that has been joined.\<close>

lemma joined_split:
  assumes "host_ok d" "isMemberOfMulticastGroup a d"
  obtains us vs qs r ts where "joinedMulticastGroups (getHostData d) = us @ a # vs"
    "refCounts (getHostData d) = qs @ r # ts" "length us = length qs" "length vs = length ts"
    "distinct (us @ a # vs)"
proof -
  let ?gs = "joinedMulticastGroups (getHostData d)" and ?rs = "refCounts (getHostData d)"
  have len: "length ?gs = length ?rs" and dis: "distinct ?gs" using assms(1) by (simp_all add: host_ok_def Let_def)
  obtain us vs where gs: "?gs = us @ a # vs" using assms(2) split_list[of a ?gs]
    by (auto simp: isMemberOfMulticastGroup_def)
  define k where "k = length us"
  have k: "k < length ?rs" using gs len by (simp add: k_def)
  then have "?rs = take k ?rs @ ?rs ! k # drop (Suc k) ?rs" by (rule id_take_nth_drop)
  moreover have "length us = length (take k ?rs)" using k by (simp add: k_def)
  moreover have "length vs = length (drop (Suc k) ?rs)" using gs len by (simp add: k_def)
  ultimately show ?thesis using that gs dis by metis
qed

lemma join_counts:
  assumes "host_ok d" "ip_isMulticast a"
  shows "\<exists>d'. joinMulticastGroup a d = Inr (if isMemberOfMulticastGroup a d then []
      else [NF_INTERFACE_IPv4CONFIG_CHANGED F_MULTICAST_ADDRESSES, NF_IPv4_MCAST_JOIN a], d')
    \<and> host_ok d' \<and> group_count d' = (group_count d)(a := group_count d a + 1)"
proof (cases "isMemberOfMulticastGroup a d")
  case True
  then obtain us vs qs r ts where v: "joinedMulticastGroups (getHostData d) = us @ a # vs"
    "refCounts (getHostData d) = qs @ r # ts" "length us = length qs" "length vs = length ts"
    "distinct (us @ a # vs)" using joined_split[OF assms(1)] by blast
  have r: "0 < r" using assms(1) v(2) by (simp add: host_ok_def Let_def)
  have a: "a \<notin> set us" using v(5) by simp
  show ?thesis
    using assms v r True bump_refcount_present[OF v(3) a, of vs r ts]
    by (simp add: joinMulticastGroup_def host_ok_def group_count_def Let_def counts_split[OF v(3) a]
        nat_add_distrib)
next
  case False
  then have a: "a \<notin> set (joinedMulticastGroups (getHostData d))" by (simp add: isMemberOfMulticastGroup_def)
  have len: "length (joinedMulticastGroups (getHostData d)) = length (refCounts (getHostData d))"
    using assms(1) by (simp add: host_ok_def Let_def)
  show ?thesis
    using assms False a bump_refcount_absent[OF a len] counts_split[OF len a, of "[]" 1 "[]"]
    by (auto simp: joinMulticastGroup_def host_ok_def group_count_def Let_def counts_absent)
qed

lemma leave_counts:
  assumes "host_ok d" "ip_isMulticast a"
  shows "\<exists>d'. leaveMulticastGroup a d = Inr (if group_count d a = 1
      then [NF_INTERFACE_IPv4CONFIG_CHANGED F_MULTICAST_ADDRESSES, NF_IPv4_MCAST_LEAVE a] else [], d')
    \<and> host_ok d' \<and> group_count d' = (group_count d)(a := group_count d a - 1)"
proof (cases "isMemberOfMulticastGroup a d")
  case True
  then obtain us vs qs r ts where v: "joinedMulticastGroups (getHostData d) = us @ a # vs"
    "refCounts (getHostData d) = qs @ r # ts" "length us = length qs" "length vs = length ts"
    "distinct (us @ a # vs)" using joined_split[OF assms(1)] by blast
  have r: "0 < r" using assms(1) v(2) by (simp add: host_ok_def Let_def)
  have a: "a \<notin> set us" "a \<notin> set (us @ vs)" using v(5) by auto
  have c: "group_count d = (counts (us @ vs) (qs @ ts))(a := nat r)"
    using v(1,2) counts_split[OF v(3) a(1)] by (simp add: group_count_def)
  have z: "(counts (us @ vs) (qs @ ts))(a := 0) = counts (us @ vs) (qs @ ts)"
    using counts_absent[OF a(2)] by (simp add: fun_eq_iff)
  show ?thesis
  proof (cases "r - 1 = 0")
    case True
    then show ?thesis
      using assms v(1-4) c z leave_loop_present[OF v(3,5), of 0 r ts] v(5)
      by (auto simp: leaveMulticastGroup_def host_ok_def group_count_def Let_def)
  next
    case False
    then show ?thesis
      using assms v(1-4) c r leave_loop_present[OF v(3,5), of 0 r ts] v(5)
        counts_split[OF v(3) a(1), of vs "r - 1" ts]
      by (auto simp: leaveMulticastGroup_def host_ok_def group_count_def Let_def nat_diff_distrib)
  qed
next
  case False
  then have a: "a \<notin> set (drop 0 (joinedMulticastGroups (getHostData d)))"
    by (simp add: isMemberOfMulticastGroup_def)
  have "group_count d a = 0" using False isMember_iff_count[OF assms(1)] by simp
  then show ?thesis
    using assms leave_loop_absent[OF a, of "refCounts (getHostData d)"]
    by (auto simp: leaveMulticastGroup_def host_ok_def group_count_def Let_def fun_eq_iff)
qed


text \<open>Groups joined and left one after the other.\<close>

datatype mcast_op = Join IPv4Address | Leave IPv4Address

fun op_group :: "mcast_op \<Rightarrow> IPv4Address" where
  "op_group (Join a) = a"
| "op_group (Leave a) = a"

fun mcast_step :: "mcast_op \<Rightarrow> IPv4InterfaceData \<Rightarrow> (if_event list \<times> IPv4InterfaceData) res" where
  "mcast_step (Join a) d = joinMulticastGroup a d"
| "mcast_step (Leave a) d = leaveMulticastGroup a d"

fun mcast_run :: "mcast_op list \<Rightarrow> IPv4InterfaceData \<Rightarrow> (if_event list \<times> IPv4InterfaceData) res" where
  "mcast_run [] d = Inr ([], d)"
| "mcast_run (x # xs) d =
     bind_res (mcast_step x d) (\<lambda>(evs, d').
       bind_res (mcast_run xs d') (\<lambda>(evs', d''). Inr (evs @ evs', d'')))"

text \<open>What the operations mean for the number of times a group is joined.\<close>

fun spec_step :: "mcast_op \<Rightarrow> (IPv4Address \<Rightarrow> nat) \<Rightarrow> IPv4Address \<Rightarrow> nat" where
  "spec_step (Join a) c = c(a := c a + 1)"
| "spec_step (Leave a) c = c(a := c a - 1)"

lemma mcast_step_counts:
  assumes "host_ok d" "ip_isMulticast (op_group x)"
  shows "\<exists>evs d'. mcast_step x d = Inr (evs, d') \<and> host_ok d' \<and> group_count d' = spec_step x (group_count d)
    \<and> count_list evs (NF_IPv4_MCAST_JOIN b) + of_bool (isMemberOfMulticastGroup b d)
      = count_list evs (NF_IPv4_MCAST_LEAVE b) + of_bool (isMemberOfMulticastGroup b d')"
proof (cases x)
  case (Join a)
  obtain d' where d': "joinMulticastGroup a d = Inr (if isMemberOfMulticastGroup a d then []
      else [NF_INTERFACE_IPv4CONFIG_CHANGED F_MULTICAST_ADDRESSES, NF_IPv4_MCAST_JOIN a], d')"
    "host_ok d'" "group_count d' = (group_count d)(a := group_count d a + 1)"
    using join_counts[OF assms(1), of a] assms(2) Join by auto
  then show ?thesis
    using Join isMember_iff_count[OF assms(1)] isMember_iff_count[OF d'(2)] by auto
next
  case (Leave a)
  obtain d' where d': "leaveMulticastGroup a d = Inr (if group_count d a = 1
      then [NF_INTERFACE_IPv4CONFIG_CHANGED F_MULTICAST_ADDRESSES, NF_IPv4_MCAST_LEAVE a] else [], d')"
    "host_ok d'" "group_count d' = (group_count d)(a := group_count d a - 1)"
    using leave_counts[OF assms(1), of a] assms(2) Leave by auto
  then show ?thesis
    using Leave isMember_iff_count[OF assms(1)] isMember_iff_count[OF d'(2)] by auto
qed

lemma mcast_run_counts:
  assumes "\<forall>x \<in> set ops. ip_isMulticast (op_group x)"
  shows "host_ok d \<Longrightarrow> \<exists>evs d'. mcast_run ops d = Inr (evs, d') \<and> host_ok d'
    \<and> group_count d' = fold spec_step ops (group_count d)
    \<and> count_list evs (NF_IPv4_MCAST_JOIN b) + of_bool (isMemberOfMulticastGroup b d)
      = count_list evs (NF_IPv4_MCAST_LEAVE b) + of_bool (isMemberOfMulticastGroup b d')"
  using assms
proof (induction ops arbitrary: d)
  case (Cons x xs)
  obtain evs d1 where 1: "mcast_step x d = Inr (evs, d1)" "host_ok d1" "group_count d1 = spec_step x (group_count d)"
    "count_list evs (NF_IPv4_MCAST_JOIN b) + of_bool (isMemberOfMulticastGroup b d)
      = count_list evs (NF_IPv4_MCAST_LEAVE b) + of_bool (isMemberOfMulticastGroup b d1)"
    using mcast_step_counts[OF Cons.prems(1), of x b] Cons.prems(2) by auto
  obtain evs' d2 where 2: "mcast_run xs d1 = Inr (evs', d2)" "host_ok d2"
    "group_count d2 = fold spec_step xs (group_count d1)"
    "count_list evs' (NF_IPv4_MCAST_JOIN b) + of_bool (isMemberOfMulticastGroup b d1)
      = count_list evs' (NF_IPv4_MCAST_LEAVE b) + of_bool (isMemberOfMulticastGroup b d2)"
    using Cons.IH[OF 1(2)] Cons.prems(2) by auto
  show ?case using 1 2 by simp
qed simp

text \<open>
  C37: Whatever the sequence of joins and leaves on a new interface: the interface is a member of exactly
  the groups that have been joined more often than left, where leaving a group that is not joined
  counts for nothing, and what is announced to the rest of the node alternates: each group has one
  more join than leave announced when the interface is a member, and as many when it is not.
\<close>

theorem mcast_refcounts:
  assumes "\<forall>x \<in> set ops. ip_isMulticast (op_group x)"
  shows "\<exists>evs d. mcast_run ops new_IPv4InterfaceData = Inr (evs, d)
    \<and> (isMemberOfMulticastGroup b d \<longleftrightarrow> 0 < fold spec_step ops (\<lambda>_. 0) b)
    \<and> count_list evs (NF_IPv4_MCAST_JOIN b)
      = count_list evs (NF_IPv4_MCAST_LEAVE b) + of_bool (isMemberOfMulticastGroup b d)"
proof -
  have n: "host_ok new_IPv4InterfaceData" "group_count new_IPv4InterfaceData = (\<lambda>_. 0)"
    by (simp_all add: host_ok_def new_IPv4InterfaceData_def getHostData_def group_count_def counts_def fun_eq_iff)
  obtain evs d where r: "mcast_run ops new_IPv4InterfaceData = Inr (evs, d)" "host_ok d"
    "group_count d = fold spec_step ops (\<lambda>_. 0)"
    "count_list evs (NF_IPv4_MCAST_JOIN b) + of_bool (isMemberOfMulticastGroup b new_IPv4InterfaceData)
      = count_list evs (NF_IPv4_MCAST_LEAVE b) + of_bool (isMemberOfMulticastGroup b d)"
    using mcast_run_counts[OF assms n(1), of b] n(2) by auto
  moreover have "\<not> isMemberOfMulticastGroup b new_IPv4InterfaceData"
    using isMember_iff_count[OF n(1)] n(2) by simp
  ultimately show ?thesis using isMember_iff_count[OF r(2)] by simp
qed

theorem mcast_refcounts_witness:
  "\<exists>evs d. mcast_run [Join 0xE0000005, Join 0xE0000005, Leave 0xE0000005] new_IPv4InterfaceData = Inr (evs, d)
    \<and> (isMemberOfMulticastGroup 0xE0000005 d \<longleftrightarrow> True)
    \<and> count_list evs (NF_IPv4_MCAST_JOIN 0xE0000005)
      = count_list evs (NF_IPv4_MCAST_LEAVE 0xE0000005) + of_bool (isMemberOfMulticastGroup 0xE0000005 d)"
  using mcast_refcounts[of "[Join 0xE0000005, Join 0xE0000005, Leave 0xE0000005]" "0xE0000005"]
  by (simp add: ip_isMulticast_def)

end
