(* ===== verification/IPv4_Routing_Table.thy ===== *)
theory IPv4_Routing_Table
  imports IPv4_Interface Std_Map
begin

text \<open>
  The routing table of a node (\<^verbatim>\<open>networklayer/ipv4/RoutingTable.h\<close>,
  \<^verbatim>\<open>RoutingTable.cc\<close>) and its routes (\<^verbatim>\<open>IPv4Route.h\<close>,
  \<^verbatim>\<open>IPv4Route.cc\<close>): two vectors sorted so that the first match is the best one, and
  caches for lookups.

  The table owns its routes: the vectors hold pairs of a pointer (a number) and the route it points
  to. A pointer that is not in the vector points to a route that has been deleted. What the virtual
  \<^verbatim>\<open>isValid()\<close> of a route returns at the moment is a field of the route, True for the class
  \<^verbatim>\<open>IPv4Route\<close> itself. Change notifications are appended to \<open>rt_events\<close>. Reading the
  table from a file and the display are not modelled.
\<close>

section \<open>Routes\<close>

datatype RouteSource = MANUAL | IFACENETMASK | RIP | OSPF | BGP | ZEBRA | MANET | MANET2 | DYMO | AODV

record IPv4Route =
  rt_inTable :: bool
  rt_dest :: IPv4Address
  rt_netmask :: IPv4Address
  rt_gateway :: IPv4Address
  rt_interface :: "int option"
  rt_sourceType :: RouteSource
  rt_adminDist :: u32
  rt_metric :: int
  rt_source :: "int option"
  rt_valid :: bool

definition dDirectlyConnected :: u32 where "dDirectlyConnected = 0"
definition dUnknown :: u32 where "dUnknown = 255"

definition new_IPv4Route :: IPv4Route where
  "new_IPv4Route = \<lparr>rt_inTable = False, rt_dest = 0, rt_netmask = 0, rt_gateway = 0, rt_interface = None,
     rt_sourceType = MANUAL, rt_adminDist = dUnknown, rt_metric = 0, rt_source = None, rt_valid = True\<rparr>"

datatype route_field =
    F_DESTINATION | F_ROUTE_NETMASK | F_GATEWAY | F_IFACE | F_TYPE | F_SOURCE | F_ADMINDIST | F_ROUTE_METRIC

record OutInterface =
  oi_ie :: int
  oi_isLeaf :: bool
  oi_enabled :: bool

datatype MulticastSource = MR_MANUAL | DVMRP | PIM_DM | PIM_SM

record IPv4MulticastRoute =
  mr_inTable :: bool
  mr_origin :: IPv4Address
  mr_originNetmask :: IPv4Address
  mr_group :: IPv4Address
  inInterface :: "int option"
  outInterfaces :: "OutInterface list"
  mr_sourceType :: MulticastSource
  mr_source :: "int option"
  mr_metric :: int
  mr_valid :: bool

datatype mroute_field = F_ORIGIN | F_ORIGINMASK | F_MULTICASTGROUP | F_IN | F_OUT | F_MR_SOURCE | F_MR_METRIC

definition mr_matches :: "IPv4Address \<Rightarrow> IPv4Address \<Rightarrow> IPv4MulticastRoute \<Rightarrow> bool" where
  "mr_matches origin grp m \<longleftrightarrow>
     (ip_isUnspecified (mr_group m) \<or> mr_group m = grp)
     \<and> maskedAddrAreEqual origin (mr_origin m) (mr_originNetmask m)"

section \<open>The table\<close>

datatype rt_event =
    NF_IPv4_ROUTE_ADDED nat
  | NF_IPv4_ROUTE_DELETED nat
  | NF_IPv4_ROUTE_CHANGED nat
  | NF_IPv4_MROUTE_ADDED nat
  | NF_IPv4_MROUTE_DELETED nat
  | NF_IPv4_MROUTE_CHANGED nat

record RoutingTable =
  routerId :: IPv4Address
  IPForward :: bool
  multicastForward :: bool
  routingCache :: "(IPv4Address \<times> nat option) list"
  localAddresses :: "IPv4Address set"
  localBroadcastAddresses :: "IPv4Address set"
  routes :: "(nat \<times> IPv4Route) list"
  multicastRoutes :: "(nat \<times> IPv4MulticastRoute) list"
  next_route :: nat
  rt_events :: "rt_event list"

definition new_RoutingTable :: "bool \<Rightarrow> bool \<Rightarrow> RoutingTable" where
  "new_RoutingTable fwd mcast = \<lparr>routerId = 0, IPForward = fwd, multicastForward = mcast, routingCache = [],
     localAddresses = {}, localBroadcastAddresses = {}, routes = [], multicastRoutes = [], next_route = 0,
     rt_events = []\<rparr>"

definition fireRoute :: "rt_event list \<Rightarrow> RoutingTable \<Rightarrow> RoutingTable" where
  "fireRoute evs t = t\<lparr>rt_events := rt_events t @ evs\<rparr>"

definition invalidateCache :: "RoutingTable \<Rightarrow> RoutingTable" where
  "invalidateCache t = t\<lparr>routingCache := [], localAddresses := {}, localBroadcastAddresses := {}\<rparr>"

definition routeLessThan :: "IPv4Route \<Rightarrow> IPv4Route \<Rightarrow> bool" where
  "routeLessThan a b =
     (if rt_netmask a \<noteq> rt_netmask b then rt_netmask a > rt_netmask b
      else if rt_dest a \<noteq> rt_dest b then rt_dest a < rt_dest b
      else if rt_adminDist a \<noteq> rt_adminDist b then rt_adminDist a < rt_adminDist b
      else rt_metric a < rt_metric b)"

definition multicastRouteLessThan :: "IPv4MulticastRoute \<Rightarrow> IPv4MulticastRoute \<Rightarrow> bool" where
  "multicastRouteLessThan a b =
     (if mr_originNetmask a \<noteq> mr_originNetmask b then mr_originNetmask a > mr_originNetmask b
      else if mr_origin a \<noteq> mr_origin b then mr_origin a < mr_origin b
      else if mr_group a \<noteq> mr_group b then mr_group a > mr_group b
      else mr_metric a < mr_metric b)"

text \<open>
  \<^verbatim>\<open>std::upper_bound\<close>: the position of the first element that the given one is less
  than. The library asks for a range that is partitioned by that test.
\<close>

definition upper_bound :: "('r \<Rightarrow> 'r \<Rightarrow> bool) \<Rightarrow> 'r \<Rightarrow> (nat \<times> 'r) list \<Rightarrow> nat res" where
  "upper_bound lt x xs =
     (let k = length (takeWhile (\<lambda>e. \<not> lt x (snd e)) xs)
      in if list_all (\<lambda>e. lt x (snd e)) (drop k xs) then Inr k else Inl Undefined_behaviour)"

definition insert_at :: "nat \<Rightarrow> 'a \<Rightarrow> 'a list \<Rightarrow> 'a list" where
  "insert_at k x xs = take k xs @ x # drop k xs"

definition insert_sorted :: "('r \<Rightarrow> 'r \<Rightarrow> bool) \<Rightarrow> nat \<times> 'r \<Rightarrow> (nat \<times> 'r) list \<Rightarrow> (nat \<times> 'r) list res" where
  "insert_sorted lt x xs = bind_res (upper_bound lt (snd x) xs) (\<lambda>k. Inr (insert_at k x xs))"

section \<open>Adding and removing routes\<close>

text \<open>The last valid one of the routes at the end that have no netmask.\<close>

fun last_default :: "(nat \<times> IPv4Route) list \<Rightarrow> nat option" where
  "last_default [] = None"
| "last_default ((p, r) # rs) =
     (if \<not> ip_isUnspecified (rt_netmask r) then None
      else if rt_valid r then Some p
      else last_default rs)"

definition getDefaultRoute :: "RoutingTable \<Rightarrow> nat option" where
  "getDefaultRoute t = last_default (rev (routes t))"

definition getRoute :: "int \<Rightarrow> RoutingTable \<Rightarrow> nat option res" where
  "getRoute k t =
     (if k < int (length (routes t)) then
        if k < 0 then Inl Undefined_behaviour else Inr (Some (fst (routes t ! nat k)))
      else Inr None)"

definition internalRemoveRoute :: "nat \<Rightarrow> RoutingTable \<Rightarrow> IPv4Route option \<times> RoutingTable" where
  "internalRemoveRoute p t =
     (case map_of (routes t) p of
        Some r \<Rightarrow> (Some r, t\<lparr>routes := remove1 (p, r) (routes t)\<rparr>)
      | None \<Rightarrow> (None, t))"

text \<open>The route that is removed is handed back to the caller.\<close>

definition removeRoute :: "nat \<Rightarrow> RoutingTable \<Rightarrow> (IPv4Route option \<times> RoutingTable) res" where
  "removeRoute p t =
     (case internalRemoveRoute p t of
        (None, t) \<Rightarrow> Inr (None, t)
      | (Some r, t) \<Rightarrow>
          ASSERT (rt_inTable r)
            (Inr (Some (r\<lparr>rt_inTable := False\<rparr>), fireRoute [NF_IPv4_ROUTE_DELETED p] (invalidateCache t))))"

definition deleteRoute :: "nat \<Rightarrow> RoutingTable \<Rightarrow> (bool \<times> RoutingTable) res" where
  "deleteRoute p t =
     (case internalRemoveRoute p t of
        (None, t) \<Rightarrow> Inr (False, t)
      | (Some r, t) \<Rightarrow>
          ASSERT (rt_inTable r) (Inr (True, fireRoute [NF_IPv4_ROUTE_DELETED p] (invalidateCache t))))"

definition internalAddRoute :: "nat \<Rightarrow> IPv4Route \<Rightarrow> RoutingTable \<Rightarrow> RoutingTable res" where
  "internalAddRoute p r t =
     (if \<not> isValidNetmask (rt_netmask r) then Inl (Runtime_error ''addRoute(): wrong netmask in route'')
      else if rt_netmask r \<noteq> 0 \<and> rt_dest r AND rt_netmask r = 0 then
        Inl (Runtime_error ''addRoute(): all bits of destination address is 0 inside non zero netmask'')
      else if rt_dest r AND NOT (rt_netmask r) \<noteq> 0 then
        Inl (Runtime_error ''addRoute(): suspicious route: destination IP address has bits set outside netmask'')
      else if rt_interface r = None then Inl (Runtime_error ''addRoute(): interface cannot be NULL'')
      else
        bind_res
          (if ip_isUnspecified (rt_netmask r) then
             (case getDefaultRoute t of
                None \<Rightarrow> Inr t
              | Some old \<Rightarrow> bind_res (deleteRoute old t) (\<lambda>(_, t). Inr t))
           else Inr t) (\<lambda>t.
        bind_res (insert_sorted routeLessThan (p, r\<lparr>rt_inTable := True\<rparr>) (routes t)) (\<lambda>rs.
          Inr (t\<lparr>routes := rs\<rparr>))))"

definition addRoute :: "nat \<Rightarrow> IPv4Route \<Rightarrow> RoutingTable \<Rightarrow> RoutingTable res" where
  "addRoute p r t =
     bind_res (internalAddRoute p r t) (\<lambda>t. Inr (fireRoute [NF_IPv4_ROUTE_ADDED p] (invalidateCache t)))"

text \<open>A loop that erases the routes with a property, with a notification for each.\<close>

fun drop_routes :: "('r \<Rightarrow> bool) \<Rightarrow> ('r \<Rightarrow> bool) \<Rightarrow> (nat \<Rightarrow> rt_event) \<Rightarrow> (nat \<times> 'r) list
    \<Rightarrow> ((nat \<times> 'r) list \<times> rt_event list) res" where
  "drop_routes P in_table ev [] = Inr ([], [])"
| "drop_routes P in_table ev ((p, r) # rs) =
     (if P r then
        ASSERT (in_table r)
          (bind_res (drop_routes P in_table ev rs) (\<lambda>(rs', evs). Inr (rs', ev p # evs)))
      else bind_res (drop_routes P in_table ev rs) (\<lambda>(rs', evs). Inr ((p, r) # rs', evs)))"

section \<open>Changing routes in the table\<close>

text \<open>
  \<open>routeChanged\<close> is called by the setters of a route that is in a table. A route that the checks of
  \<open>internalAddRoute\<close> refuse has left the table by then; the error ends the simulation.
\<close>

definition routeChanged :: "nat \<Rightarrow> route_field \<Rightarrow> RoutingTable \<Rightarrow> RoutingTable res" where
  "routeChanged p field t =
     bind_res
       (if field \<in> {F_DESTINATION, F_ROUTE_NETMASK, F_ROUTE_METRIC} then
          (case internalRemoveRoute p t of
             (None, t) \<Rightarrow> Inl Assertion_failed
           | (Some r, t) \<Rightarrow> bind_res (internalAddRoute p r t) (\<lambda>t. Inr (invalidateCache t)))
        else Inr t) (\<lambda>t. Inr (fireRoute [NF_IPv4_ROUTE_CHANGED p] t))"

definition update_route :: "nat \<Rightarrow> (IPv4Route \<Rightarrow> IPv4Route) \<Rightarrow> RoutingTable \<Rightarrow> RoutingTable" where
  "update_route p f t = t\<lparr>routes := map (\<lambda>(q, r). (q, if q = p then f r else r)) (routes t)\<rparr>"

text \<open>A setter, called on a route of the table: nothing happens when the value is already there.\<close>

definition set_route_field ::
  "(IPv4Route \<Rightarrow> 'v) \<Rightarrow> ('v \<Rightarrow> IPv4Route \<Rightarrow> IPv4Route) \<Rightarrow> route_field \<Rightarrow> nat \<Rightarrow> 'v \<Rightarrow> RoutingTable \<Rightarrow> RoutingTable res"
where
  "set_route_field fld upd field p v t =
     bind_res (deref (map_of (routes t) p)) (\<lambda>r.
       if fld r = v then Inr t
       else
         let t = update_route p (upd v) t
         in if rt_inTable r then routeChanged p field t else Inr t)"

definition setDestination :: "nat \<Rightarrow> IPv4Address \<Rightarrow> RoutingTable \<Rightarrow> RoutingTable res" where
  "setDestination = set_route_field rt_dest (\<lambda>v r. r\<lparr>rt_dest := v\<rparr>) F_DESTINATION"

definition setNetmask :: "nat \<Rightarrow> IPv4Address \<Rightarrow> RoutingTable \<Rightarrow> RoutingTable res" where
  "setNetmask = set_route_field rt_netmask (\<lambda>v r. r\<lparr>rt_netmask := v\<rparr>) F_ROUTE_NETMASK"

definition setGateway :: "nat \<Rightarrow> IPv4Address \<Rightarrow> RoutingTable \<Rightarrow> RoutingTable res" where
  "setGateway = set_route_field rt_gateway (\<lambda>v r. r\<lparr>rt_gateway := v\<rparr>) F_GATEWAY"

definition setInterface :: "nat \<Rightarrow> int option \<Rightarrow> RoutingTable \<Rightarrow> RoutingTable res" where
  "setInterface = set_route_field rt_interface (\<lambda>v r. r\<lparr>rt_interface := v\<rparr>) F_IFACE"

definition setSourceType :: "nat \<Rightarrow> RouteSource \<Rightarrow> RoutingTable \<Rightarrow> RoutingTable res" where
  "setSourceType = set_route_field rt_sourceType (\<lambda>v r. r\<lparr>rt_sourceType := v\<rparr>) F_SOURCE"

definition setAdminDist :: "nat \<Rightarrow> u32 \<Rightarrow> RoutingTable \<Rightarrow> RoutingTable res" where
  "setAdminDist = set_route_field rt_adminDist (\<lambda>v r. r\<lparr>rt_adminDist := v\<rparr>) F_ADMINDIST"

definition setMetric :: "nat \<Rightarrow> int \<Rightarrow> RoutingTable \<Rightarrow> RoutingTable res" where
  "setMetric = set_route_field rt_metric (\<lambda>v r. r\<lparr>rt_metric := v\<rparr>) F_ROUTE_METRIC"

definition setSource :: "nat \<Rightarrow> int option \<Rightarrow> RoutingTable \<Rightarrow> RoutingTable res" where
  "setSource = set_route_field rt_source (\<lambda>v r. r\<lparr>rt_source := v\<rparr>) F_SOURCE"

section \<open>Lookups\<close>

definition route_matches :: "IPv4Address \<Rightarrow> IPv4Route \<Rightarrow> bool" where
  "route_matches dst r \<longleftrightarrow> rt_valid r \<and> maskedAddrAreEqual dst (rt_dest r) (rt_netmask r)"

text \<open>The loop over the routes, which stops at the first match.\<close>

definition search_routes :: "IPv4Address \<Rightarrow> RoutingTable \<Rightarrow> nat option" where
  "search_routes dst t = map_option fst (find_first (\<lambda>e. route_matches dst (snd e)) (routes t))"

definition findBestMatchingRoute :: "IPv4Address \<Rightarrow> RoutingTable \<Rightarrow> (nat option \<times> RoutingTable) res" where
  "findBestMatchingRoute dst t =
     bind_res
       (case map_of (routingCache t) dst of
          None \<Rightarrow> Inr None
        | Some None \<Rightarrow> Inr (Some None)
        | Some (Some p) \<Rightarrow>
            bind_res (deref (map_of (routes t) p)) (\<lambda>r. Inr (if rt_valid r then Some (Some p) else None)))
       (\<lambda>hit. case hit of
          Some best \<Rightarrow> Inr (best, t)
        | None \<Rightarrow>
            let best = search_routes dst t
            in Inr (best, t\<lparr>routingCache := put dst best (routingCache t)\<rparr>))"

definition getInterfaceForDestAddr :: "IPv4Address \<Rightarrow> RoutingTable \<Rightarrow> (int option \<times> RoutingTable) res" where
  "getInterfaceForDestAddr dst t =
     bind_res (findBestMatchingRoute dst t) (\<lambda>(e, t).
       case e of
         None \<Rightarrow> Inr (None, t)
       | Some p \<Rightarrow> bind_res (deref (map_of (routes t) p)) (\<lambda>r. Inr (rt_interface r, t)))"

definition getGatewayForDestAddr :: "IPv4Address \<Rightarrow> RoutingTable \<Rightarrow> (IPv4Address \<times> RoutingTable) res" where
  "getGatewayForDestAddr dst t =
     bind_res (findBestMatchingRoute dst t) (\<lambda>(e, t).
       case e of
         None \<Rightarrow> Inr (0, t)
       | Some p \<Rightarrow> bind_res (deref (map_of (routes t) p)) (\<lambda>r. Inr (rt_gateway r, t)))"

definition findBestMatchingMulticastRoute :: "IPv4Address \<Rightarrow> IPv4Address \<Rightarrow> RoutingTable \<Rightarrow> nat option" where
  "findBestMatchingMulticastRoute origin grp t =
     map_option fst (find_first (\<lambda>e. mr_valid (snd e) \<and> mr_matches origin grp (snd e)) (multicastRoutes t))"

text \<open>The addresses of the interfaces; an interface without IPv4 data is a null pointer.\<close>

definition getInterfaceByAddress :: "IPv4Address \<Rightarrow> InterfaceTable \<Rightarrow> InterfaceEntry option res" where
  "getInterfaceByAddress addr ift =
     (if ip_isUnspecified addr then Inr None
      else
        fold_res (\<lambda>ie found. if found \<noteq> None then Inr found else
            bind_res (deref (ipv4data ie)) (\<lambda>d. Inr (if inetAddr d = addr then Some ie else None)))
          (interfaces ift) None)"

fun all_ipv4data :: "InterfaceEntry list \<Rightarrow> IPv4InterfaceData list res" where
  "all_ipv4data [] = Inr []"
| "all_ipv4data (ie # ies) =
     bind_res (deref (ipv4data ie)) (\<lambda>d. bind_res (all_ipv4data ies) (\<lambda>ds. Inr (d # ds)))"

definition gatherAddresses :: "InterfaceTable \<Rightarrow> IPv4Address list res" where
  "gatherAddresses ift = bind_res (all_ipv4data (interfaces ift)) (\<lambda>ds. Inr (map inetAddr ds))"

definition isLocalAddress :: "InterfaceTable \<Rightarrow> IPv4Address \<Rightarrow> RoutingTable \<Rightarrow> (bool \<times> RoutingTable) res" where
  "isLocalAddress ift dst t =
     bind_res
       (if localAddresses t = {} then
          bind_res (all_ipv4data (interfaces ift)) (\<lambda>ds. Inr (t\<lparr>localAddresses := set (map inetAddr ds)\<rparr>))
        else Inr t) (\<lambda>t. Inr (dst \<in> localAddresses t, t))"

definition isLocalBroadcastAddress ::
  "InterfaceTable \<Rightarrow> IPv4Address \<Rightarrow> RoutingTable \<Rightarrow> (bool \<times> RoutingTable) res" where
  "isLocalBroadcastAddress ift dst t =
     bind_res
       (if localBroadcastAddresses t = {} then
          bind_res (all_ipv4data (interfaces ift)) (\<lambda>ds.
            Inr (t\<lparr>localBroadcastAddresses :=
              set (filter (\<lambda>a. \<not> ip_isUnspecified a) (map getNetworkBroadcastAddress ds))\<rparr>))
        else Inr t) (\<lambda>t. Inr (dst \<in> localBroadcastAddresses t, t))"

definition findInterfaceByLocalBroadcastAddress ::
  "IPv4Address \<Rightarrow> InterfaceTable \<Rightarrow> InterfaceEntry option res" where
  "findInterfaceByLocalBroadcastAddress dst ift =
     fold_res (\<lambda>ie found. if found \<noteq> None then Inr found else
         bind_res (deref (ipv4data ie)) (\<lambda>d. Inr (if getNetworkBroadcastAddress d = dst then Some ie else None)))
       (interfaces ift) None"

definition isLocalMulticastAddress :: "IPv4Address \<Rightarrow> InterfaceTable \<Rightarrow> bool res" where
  "isLocalMulticastAddress dst ift =
     fold_res (\<lambda>ie found. if found then Inr True else
         bind_res (deref (ipv4data ie)) (\<lambda>d. Inr (isMemberOfMulticastGroup dst d)))
       (interfaces ift) False"

section \<open>Multicast routes\<close>

definition is_multicast_if :: "InterfaceTable \<Rightarrow> int \<Rightarrow> bool res" where
  "is_multicast_if ift i = bind_res (deref (getInterfaceById i ift)) (\<lambda>ie. Inr (if_multicast ie))"

definition internalAddMulticastRoute ::
  "InterfaceTable \<Rightarrow> nat \<Rightarrow> IPv4MulticastRoute \<Rightarrow> RoutingTable \<Rightarrow> RoutingTable res" where
  "internalAddMulticastRoute ift p m t =
     (if \<not> isValidNetmask (mr_originNetmask m) then
        Inl (Runtime_error ''addMulticastRoute(): wrong netmask in multicast route'')
      else if mr_origin m AND NOT (mr_originNetmask m) \<noteq> 0 then
        Inl (Runtime_error ''addMulticastRoute(): suspicious route: origin IP address has bits set outside netmask'')
      else if \<not> ip_isUnspecified (mr_group m) \<and> \<not> ip_isMulticast (mr_group m) then
        Inl (Runtime_error ''addMulticastRoute(): group address is not a multicast address'')
      else
        bind_res (case inInterface m of None \<Rightarrow> Inr True | Some i \<Rightarrow> is_multicast_if ift i) (\<lambda>ok.
        if \<not> ok then Inl (Runtime_error ''addMulticastRoute(): input interface must be multicast capable'')
        else
          bind_res
            (fold_res (\<lambda>oi _.
               bind_res (is_multicast_if ift (oi_ie oi)) (\<lambda>ok.
                 if \<not> ok then Inl (Runtime_error ''addMulticastRoute(): output interface must be multicast capable'')
                 else if inInterface m = Some (oi_ie oi) then
                   Inl (Runtime_error ''addMulticastRoute(): output interface cannot be the same as the input interface'')
                 else Inr ()))
               (outInterfaces m) ()) (\<lambda>_.
          bind_res (insert_sorted multicastRouteLessThan (p, m\<lparr>mr_inTable := True\<rparr>) (multicastRoutes t)) (\<lambda>ms.
            Inr (t\<lparr>multicastRoutes := ms\<rparr>)))))"

definition addMulticastRoute ::
  "InterfaceTable \<Rightarrow> nat \<Rightarrow> IPv4MulticastRoute \<Rightarrow> RoutingTable \<Rightarrow> RoutingTable res" where
  "addMulticastRoute ift p m t =
     bind_res (internalAddMulticastRoute ift p m t) (\<lambda>t.
       Inr (fireRoute [NF_IPv4_MROUTE_ADDED p] (invalidateCache t)))"

definition internalRemoveMulticastRoute :: "nat \<Rightarrow> RoutingTable \<Rightarrow> IPv4MulticastRoute option \<times> RoutingTable" where
  "internalRemoveMulticastRoute p t =
     (case map_of (multicastRoutes t) p of
        Some m \<Rightarrow> (Some m, t\<lparr>multicastRoutes := remove1 (p, m) (multicastRoutes t)\<rparr>)
      | None \<Rightarrow> (None, t))"

definition removeMulticastRoute :: "nat \<Rightarrow> RoutingTable \<Rightarrow> (IPv4MulticastRoute option \<times> RoutingTable) res" where
  "removeMulticastRoute p t =
     (case internalRemoveMulticastRoute p t of
        (None, t) \<Rightarrow> Inr (None, t)
      | (Some m, t) \<Rightarrow>
          ASSERT (mr_inTable m)
            (Inr (Some (m\<lparr>mr_inTable := False\<rparr>), fireRoute [NF_IPv4_MROUTE_DELETED p] (invalidateCache t))))"

definition deleteMulticastRoute :: "nat \<Rightarrow> RoutingTable \<Rightarrow> (bool \<times> RoutingTable) res" where
  "deleteMulticastRoute p t =
     (case internalRemoveMulticastRoute p t of
        (None, t) \<Rightarrow> Inr (False, t)
      | (Some m, t) \<Rightarrow>
          ASSERT (mr_inTable m) (Inr (True, fireRoute [NF_IPv4_MROUTE_DELETED p] (invalidateCache t))))"

definition multicastRouteChanged ::
  "InterfaceTable \<Rightarrow> nat \<Rightarrow> mroute_field \<Rightarrow> RoutingTable \<Rightarrow> RoutingTable res" where
  "multicastRouteChanged ift p field t =
     bind_res
       (if field \<in> {F_ORIGIN, F_ORIGINMASK, F_MULTICASTGROUP, F_MR_METRIC} then
          (case internalRemoveMulticastRoute p t of
             (None, t) \<Rightarrow> Inl Assertion_failed
           | (Some m, t) \<Rightarrow> bind_res (internalAddMulticastRoute ift p m t) (\<lambda>t. Inr (invalidateCache t)))
        else Inr t) (\<lambda>t. Inr (fireRoute [NF_IPv4_MROUTE_CHANGED p] t))"

text \<open>A change of a multicast route in the table by \<open>f\<close>, with the field that is reported.\<close>

definition change_mroute ::
  "InterfaceTable \<Rightarrow> mroute_field \<Rightarrow> nat \<Rightarrow> (IPv4MulticastRoute \<Rightarrow> IPv4MulticastRoute) \<Rightarrow> RoutingTable
     \<Rightarrow> RoutingTable res" where
  "change_mroute ift field p f t =
     bind_res (deref (map_of (multicastRoutes t) p)) (\<lambda>m.
       let t = t\<lparr>multicastRoutes := map (\<lambda>(q, m). (q, if q = p then f m else m)) (multicastRoutes t)\<rparr>
       in if mr_inTable m then multicastRouteChanged ift p field t else Inr t)"

definition set_mroute_field ::
  "InterfaceTable \<Rightarrow> (IPv4MulticastRoute \<Rightarrow> 'v) \<Rightarrow> ('v \<Rightarrow> IPv4MulticastRoute \<Rightarrow> IPv4MulticastRoute) \<Rightarrow> mroute_field
     \<Rightarrow> nat \<Rightarrow> 'v \<Rightarrow> RoutingTable \<Rightarrow> RoutingTable res" where
  "set_mroute_field ift fld upd field p v t =
     bind_res (deref (map_of (multicastRoutes t) p)) (\<lambda>m.
       if fld m = v then Inr t else change_mroute ift field p (upd v) t)"

definition setOrigin :: "InterfaceTable \<Rightarrow> nat \<Rightarrow> IPv4Address \<Rightarrow> RoutingTable \<Rightarrow> RoutingTable res" where
  "setOrigin ift = set_mroute_field ift mr_origin (\<lambda>v m. m\<lparr>mr_origin := v\<rparr>) F_ORIGIN"

definition setOriginNetmask :: "InterfaceTable \<Rightarrow> nat \<Rightarrow> IPv4Address \<Rightarrow> RoutingTable \<Rightarrow> RoutingTable res" where
  "setOriginNetmask ift = set_mroute_field ift mr_originNetmask (\<lambda>v m. m\<lparr>mr_originNetmask := v\<rparr>) F_ORIGINMASK"

definition setMulticastGroup :: "InterfaceTable \<Rightarrow> nat \<Rightarrow> IPv4Address \<Rightarrow> RoutingTable \<Rightarrow> RoutingTable res" where
  "setMulticastGroup ift = set_mroute_field ift mr_group (\<lambda>v m. m\<lparr>mr_group := v\<rparr>) F_MULTICASTGROUP"

definition setMulticastMetric :: "InterfaceTable \<Rightarrow> nat \<Rightarrow> int \<Rightarrow> RoutingTable \<Rightarrow> RoutingTable res" where
  "setMulticastMetric ift = set_mroute_field ift mr_metric (\<lambda>v m. m\<lparr>mr_metric := v\<rparr>) F_MR_METRIC"

definition setMulticastSourceType :: "InterfaceTable \<Rightarrow> nat \<Rightarrow> MulticastSource \<Rightarrow> RoutingTable \<Rightarrow> RoutingTable res" where
  "setMulticastSourceType ift = set_mroute_field ift mr_sourceType (\<lambda>v m. m\<lparr>mr_sourceType := v\<rparr>) F_MR_SOURCE"

text \<open>The input interface is an object that is made for the call: it is not the object that the route has.\<close>

definition setInInterface :: "InterfaceTable \<Rightarrow> nat \<Rightarrow> int option \<Rightarrow> RoutingTable \<Rightarrow> RoutingTable res" where
  "setInInterface ift p v t =
     bind_res (deref (map_of (multicastRoutes t) p)) (\<lambda>m.
       if inInterface m = None \<and> v = None then Inr t
       else change_mroute ift F_IN p (\<lambda>m. m\<lparr>inInterface := v\<rparr>) t)"

definition clearOutInterfaces :: "InterfaceTable \<Rightarrow> nat \<Rightarrow> RoutingTable \<Rightarrow> RoutingTable res" where
  "clearOutInterfaces ift p t =
     bind_res (deref (map_of (multicastRoutes t) p)) (\<lambda>m.
       if outInterfaces m \<noteq> [] then change_mroute ift F_OUT p (\<lambda>m. m\<lparr>outInterfaces := []\<rparr>) t else Inr t)"

fun replace_or_append :: "OutInterface \<Rightarrow> OutInterface list \<Rightarrow> OutInterface list" where
  "replace_or_append oi [] = [oi]"
| "replace_or_append oi (x # xs) = (if oi_ie x = oi_ie oi then oi # xs else x # replace_or_append oi xs)"

definition addOutInterface :: "InterfaceTable \<Rightarrow> nat \<Rightarrow> OutInterface \<Rightarrow> RoutingTable \<Rightarrow> RoutingTable res" where
  "addOutInterface ift p oi =
     change_mroute ift F_OUT p (\<lambda>m. m\<lparr>outInterfaces := replace_or_append oi (outInterfaces m)\<rparr>)"

fun remove_out :: "int \<Rightarrow> OutInterface list \<Rightarrow> OutInterface list" where
  "remove_out i [] = []"
| "remove_out i (x # xs) = (if oi_ie x = i then xs else x # remove_out i xs)"

definition removeOutInterface :: "InterfaceTable \<Rightarrow> nat \<Rightarrow> int \<Rightarrow> RoutingTable \<Rightarrow> (bool \<times> RoutingTable) res" where
  "removeOutInterface ift p i t =
     bind_res (deref (map_of (multicastRoutes t) p)) (\<lambda>m.
       if i \<in> oi_ie ` set (outInterfaces m) then
         bind_res (change_mroute ift F_OUT p (\<lambda>m. m\<lparr>outInterfaces := remove_out i (outInterfaces m)\<rparr>) t)
           (\<lambda>t. Inr (True, t))
       else Inr (False, t))"

section \<open>Changes of the interfaces\<close>

definition purge :: "RoutingTable \<Rightarrow> RoutingTable res" where
  "purge t =
     bind_res (drop_routes (\<lambda>r. \<not> rt_valid r) rt_inTable NF_IPv4_ROUTE_DELETED (routes t)) (\<lambda>(rs, evs).
     bind_res (drop_routes (\<lambda>m. \<not> mr_valid m) mr_inTable NF_IPv4_MROUTE_DELETED (multicastRoutes t)) (\<lambda>(ms, evs').
       let t = fireRoute (evs @ evs') (t\<lparr>routes := rs, multicastRoutes := ms\<rparr>)
       in Inr (if evs @ evs' \<noteq> [] then invalidateCache t else t)))"

text \<open>
  The multicast routes that start at the interface are deleted, others lose it as an output. The
  notification that the route itself makes of that is followed by one of the table.
\<close>

fun drop_interface :: "InterfaceTable \<Rightarrow> int \<Rightarrow> nat list \<Rightarrow> RoutingTable \<Rightarrow> (bool \<times> RoutingTable) res" where
  "drop_interface ift i [] t = Inr (False, t)"
| "drop_interface ift i (p # ps) t =
     bind_res (deref (map_of (multicastRoutes t) p)) (\<lambda>m.
     bind_res
       (if inInterface m = Some i then
          ASSERT (mr_inTable m)
            (Inr (True, fireRoute [NF_IPv4_MROUTE_DELETED p]
               (t\<lparr>multicastRoutes := remove1 (p, m) (multicastRoutes t)\<rparr>)))
        else
          bind_res (removeOutInterface ift p i t) (\<lambda>(removed, t).
            Inr (removed, if removed then fireRoute [NF_IPv4_MROUTE_CHANGED p] t else t)))
       (\<lambda>(changed, t). bind_res (drop_interface ift i ps t) (\<lambda>(changed', t). Inr (changed \<or> changed', t))))"

definition deleteInterfaceRoutes :: "InterfaceTable \<Rightarrow> int \<Rightarrow> RoutingTable \<Rightarrow> RoutingTable res" where
  "deleteInterfaceRoutes ift i t =
     bind_res (drop_routes (\<lambda>r. rt_interface r = Some i) rt_inTable NF_IPv4_ROUTE_DELETED (routes t)) (\<lambda>(rs, evs).
     bind_res (drop_interface ift i (map fst (multicastRoutes t)) (fireRoute evs (t\<lparr>routes := rs\<rparr>)))
       (\<lambda>(changed, t). Inr (if evs \<noteq> [] \<or> changed then invalidateCache t else t)))"

definition netmask_route :: "InterfaceEntry \<Rightarrow> IPv4InterfaceData \<Rightarrow> IPv4Route" where
  "netmask_route ie d = new_IPv4Route\<lparr>rt_sourceType := IFACENETMASK, rt_source := Some (interfaceId ie),
     rt_dest := inetAddr d AND if_netmask d, rt_netmask := if_netmask d, rt_gateway := 0,
     rt_adminDist := dDirectlyConnected, rt_metric := if_metric d, rt_interface := Some (interfaceId ie),
     rt_inTable := True\<rparr>"

definition add_netmask_route :: "InterfaceEntry \<Rightarrow> RoutingTable \<Rightarrow> RoutingTable res" where
  "add_netmask_route ie t =
     (case ipv4data ie of
        None \<Rightarrow> Inr t
      | Some d \<Rightarrow>
          if if_netmask d = ALLONES_ADDRESS then Inr t
          else
            let p = next_route t
            in bind_res (insert_sorted routeLessThan (p, netmask_route ie d) (routes t)) (\<lambda>rs.
                 Inr (fireRoute [NF_IPv4_ROUTE_ADDED p] (t\<lparr>routes := rs, next_route := p + 1\<rparr>))))"

definition updateNetmaskRoutes :: "InterfaceTable \<Rightarrow> RoutingTable \<Rightarrow> RoutingTable res" where
  "updateNetmaskRoutes ift t =
     bind_res (drop_routes (\<lambda>r. rt_sourceType r = IFACENETMASK) rt_inTable NF_IPv4_ROUTE_DELETED (routes t))
       (\<lambda>(rs, evs).
     bind_res (fold_res add_netmask_route (interfaces ift) (fireRoute evs (t\<lparr>routes := rs\<rparr>))) (\<lambda>t.
       Inr (invalidateCache t)))"

text \<open>Notifications of other modules; during initialization they are ignored.\<close>

datatype if_notification =
    NF_INTERFACE_CREATED
  | NF_INTERFACE_DELETED int
  | NF_INTERFACE_STATE_CHANGED
  | NF_INTERFACE_CONFIG_CHANGED
  | NF_IPv4CONFIG_CHANGED

definition receiveChangeNotification ::
  "bool \<Rightarrow> InterfaceTable \<Rightarrow> if_notification \<Rightarrow> RoutingTable \<Rightarrow> RoutingTable res" where
  "receiveChangeNotification initializing ift n t =
     (if initializing then Inr t
      else case n of
        NF_INTERFACE_CREATED \<Rightarrow> updateNetmaskRoutes ift t
      | NF_INTERFACE_DELETED i \<Rightarrow> deleteInterfaceRoutes ift i t
      | NF_INTERFACE_STATE_CHANGED \<Rightarrow> Inr (invalidateCache t)
      | NF_INTERFACE_CONFIG_CHANGED \<Rightarrow> Inr (invalidateCache t)
      | NF_IPv4CONFIG_CHANGED \<Rightarrow> updateNetmaskRoutes ift t)"

section \<open>Configuration of the node\<close>

definition setRouterId :: "IPv4Address \<Rightarrow> RoutingTable \<Rightarrow> RoutingTable" where
  "setRouterId a t = t\<lparr>routerId := a\<rparr>"

text \<open>Stage 1 of \<^verbatim>\<open>initialize\<close>, with the value of the parameter \<^verbatim>\<open>routerId\<close>.\<close>

definition initRouterId :: "string \<Rightarrow> RoutingTable \<Rightarrow> RoutingTable res" where
  "initRouterId par t =
     (if par \<noteq> [] \<and> par \<noteq> ''auto'' then
        bind_res (ip_set_string (Some par)) (\<lambda>a. Inr (t\<lparr>routerId := a\<rparr>))
      else Inr t)"

definition update_interface :: "int \<Rightarrow> (InterfaceEntry \<Rightarrow> InterfaceEntry) \<Rightarrow> InterfaceTable \<Rightarrow> InterfaceTable" where
  "update_interface i f ift = map (map_option (\<lambda>ie. if interfaceId ie = i then f ie else ie)) ift"

text \<open>
  The router id is chosen, or given to the loopback interface. Each of the two changes of that
  interface is announced to \<open>notify\<close>, which does nothing during initialization and calls
  \<open>receiveChangeNotification\<close> later.
\<close>

definition configureRouterId ::
  "(InterfaceTable \<Rightarrow> RoutingTable \<Rightarrow> RoutingTable res) \<Rightarrow> string \<Rightarrow> InterfaceTable \<Rightarrow> RoutingTable
     \<Rightarrow> (InterfaceTable \<times> RoutingTable) res" where
  "configureRouterId notify par ift t =
     (if ip_isUnspecified (routerId t) then
        if par = ''auto'' then
          bind_res
            (fold_res (\<lambda>ie t.
               if if_loopback ie then Inr t
               else bind_res (deref (ipv4data ie)) (\<lambda>d.
                 Inr (if inetAddr d > routerId t then t\<lparr>routerId := inetAddr d\<rparr> else t)))
             (interfaces ift) t) (\<lambda>t. Inr (ift, t))
        else Inr (ift, t)
      else
        bind_res (getInterfaceByAddress (routerId t) ift) (\<lambda>found.
        if found \<noteq> None then Inr (ift, t)
        else
          case getFirstLoopbackInterface ift of
            None \<Rightarrow> Inl Assertion_failed
          | Some lo0 \<Rightarrow>
              bind_res (deref (ipv4data lo0)) (\<lambda>d.
              let d = snd (setIPAddress (routerId t) d);
                  ift = update_interface (interfaceId lo0) (\<lambda>ie. ie\<lparr>ipv4data := Some d\<rparr>) ift
              in bind_res (notify ift t) (\<lambda>t.
                 let d = snd (if_setNetmask ALLONES_ADDRESS d);
                     ift = update_interface (interfaceId lo0) (\<lambda>ie. ie\<lparr>ipv4data := Some d\<rparr>) ift
                 in bind_res (notify ift t) (\<lambda>t. Inr (ift, t))))))"

text \<open>Stage 3 of \<^verbatim>\<open>initialize\<close>.\<close>

definition initialize_stage3 ::
  "bool \<Rightarrow> string \<Rightarrow> InterfaceTable \<Rightarrow> RoutingTable \<Rightarrow> (InterfaceTable \<times> RoutingTable) res" where
  "initialize_stage3 isNodeUp par ift t =
     bind_res (if isNodeUp then configureRouterId (\<lambda>_. Inr) par ift t else Inr (ift, t)) (\<lambda>(ift, t).
     bind_res (updateNetmaskRoutes ift t) (\<lambda>t. Inr (ift, t)))"

text \<open>The new IPv4 data of an interface; the metric follows from its data rate.\<close>

definition configureInterfaceForIPv4 ::
  "int \<Rightarrow> RoutingTable \<Rightarrow> InterfaceEntry \<Rightarrow> (if_event list \<times> InterfaceEntry) res" where
  "configureInterfaceForIPv4 m t ie =
     (let (evs, d) = if_setMetric m new_IPv4InterfaceData
      in bind_res
           (if if_multicast ie then
              bind_res (joinMulticastGroup ALL_HOSTS_MCAST d) (\<lambda>(evs1, d).
                if IPForward t then
                  bind_res (joinMulticastGroup ALL_ROUTERS_MCAST d) (\<lambda>(evs2, d). Inr (evs1 @ evs2, d))
                else Inr (evs1, d))
            else Inr ([], d)) (\<lambda>(evs', d). Inr (evs @ evs', ie\<lparr>ipv4data := Some d\<rparr>)))"

definition configureLoopbackForIPv4 :: "InterfaceTable \<Rightarrow> InterfaceTable" where
  "configureLoopbackForIPv4 ift =
     (case getFirstLoopbackInterface ift of
        None \<Rightarrow> ift
      | Some lo0 \<Rightarrow>
          let d = new_IPv4InterfaceData\<lparr>inetAddr := LOOPBACK_ADDRESS, if_netmask := LOOPBACK_NETMASK, if_metric := 1\<rparr>
          in update_interface (interfaceId lo0) (\<lambda>ie. ie\<lparr>ipv4data := Some d\<rparr>) ift)"

text \<open>\<^verbatim>\<open>while (!routes.empty()) removeRoute(routes[0])\<close>\<close>

lemma removeRoute_shorter:
  "map_of (routes t) p = Some r \<Longrightarrow> removeRoute p t = Inr (x, t') \<Longrightarrow> length (routes t') < length (routes t)"
proof -
  assume r: "map_of (routes t) p = Some r" "removeRoute p t = Inr (x, t')"
  then have "routes t' = remove1 (p, r) (routes t)"
    by (auto simp: removeRoute_def internalRemoveRoute_def ASSERT_eq_Inr fireRoute_def invalidateCache_def)
  moreover have "(p, r) \<in> set (routes t)" using r(1) by (rule map_of_SomeD)
  ultimately show ?thesis using length_pos_if_in_set[of "(p, r)" "routes t"] by (simp add: length_remove1)
qed

function removeAllRoutes :: "RoutingTable \<Rightarrow> RoutingTable res" where
  "removeAllRoutes t =
     (case routes t of
        [] \<Rightarrow> Inr t
      | (p, r) # _ \<Rightarrow> bind_res (removeRoute p t) (\<lambda>(x, t). removeAllRoutes t))"
  by pat_completeness auto
termination
  by (relation "measure (\<lambda>t. length (routes t))") (auto dest!: removeRoute_shorter[rotated])

declare removeAllRoutes.simps [simp del]

datatype node_operation = Start_network_layer | Start_transport_layer | Shutdown_network_layer | Crash | Other_stage

text \<open>The routing file that is read when a node starts is not modelled.\<close>

definition rt_handleOperationStage ::
  "node_operation \<Rightarrow> string \<Rightarrow> InterfaceTable \<Rightarrow> RoutingTable \<Rightarrow> (InterfaceTable \<times> RoutingTable) res" where
  "rt_handleOperationStage oper par ift t =
     (case oper of
        Start_transport_layer \<Rightarrow>
          bind_res (configureRouterId (\<lambda>ift. receiveChangeNotification False ift NF_IPv4CONFIG_CHANGED) par ift t)
            (\<lambda>(ift, t). bind_res (updateNetmaskRoutes ift t) (\<lambda>t. Inr (ift, t)))
      | Shutdown_network_layer \<Rightarrow> bind_res (removeAllRoutes t) (\<lambda>t. Inr (ift, t))
      | Crash \<Rightarrow> bind_res (removeAllRoutes t) (\<lambda>t. Inr (ift, t))
      | _ \<Rightarrow> Inr (ift, t))"

end
