(* ===== verification/IPv4_Module.thy ===== *)
theory IPv4_Module
  imports IPv4_FragBuf IPv4_Routing_Table
begin

text \<open>
  The IPv4 protocol module (\<^verbatim>\<open>networklayer/ipv4/IPv4.h\<close>, \<^verbatim>\<open>IPv4.cc\<close>):
  datagrams from the network and packets from the layers above, routing, fragmentation, local
  delivery, the packets that wait for an address resolution, and the hooks around these steps.

  Messages that leave the module are appended to \<open>ip_out\<close>. What other modules answer is a parameter:
  the hooks, the ARP cache, whether an output gate is connected, the contents of ICMP messages and the
  length of a packet. The routing table and the interface table are part of the state.
\<close>

section \<open>State\<close>

datatype HookType = PREROUTING | LOCALIN | FORWARD | POSTROUTING | LOCALOUT
datatype HookResult = ACCEPT | DROP | QUEUE | STOLEN

text \<open>What a hook may change: the datagram, the output interface and the next hop.\<close>

type_synonym 'p hook_fun =
  "HookType \<Rightarrow> 'p IPv4Datagram \<Rightarrow> InterfaceEntry option \<Rightarrow> InterfaceEntry option \<Rightarrow> IPv4Address
     \<Rightarrow> HookResult \<times> 'p IPv4Datagram \<times> InterfaceEntry option \<times> IPv4Address"

record IPv4ControlInfo =
  ci_protocol :: int
  ci_srcAddr :: IPv4Address
  ci_destAddr :: IPv4Address
  ci_typeOfService :: u8
  ci_interfaceId :: int
  ci_timeToLive :: u16
  ci_dontFragment :: bool
  ci_multicastLoop :: bool

definition new_IPv4ControlInfo :: IPv4ControlInfo where
  "new_IPv4ControlInfo = \<lparr>ci_protocol = 0, ci_srcAddr = 0, ci_destAddr = 0, ci_typeOfService = 0,
     ci_interfaceId = -1, ci_timeToLive = 0, ci_dontFragment = False, ci_multicastLoop = False\<rparr>"

text \<open>
  \<open>env_icmp\<close> tells the type of an ICMP message and the transport protocol of the datagram it carries,
  if it carries one.
\<close>

record 'p ip_env =
  env_now :: simtime
  env_hook :: "nat \<Rightarrow> 'p hook_fun"
  env_arp :: "IPv4Address \<Rightarrow> MACAddress"
  env_path_ok :: "int \<Rightarrow> bool"
  env_icmp :: "'p \<Rightarrow> (int \<times> int option) option"
  env_length :: "'p \<Rightarrow> int"
  env_name :: "'p \<Rightarrow> string"
  env_new_multicast :: "'p IPv4Datagram \<Rightarrow> RoutingTable \<Rightarrow> RoutingTable"

datatype 'p ip_event =
    To_NIC "'p IPv4Datagram" int "MACAddress option"
  | To_transport 'p "IPv4ControlInfo option" "'p IPv4Datagram option" int
  | To_preRouting 'p
  | To_ARP
  | Start_resolution IPv4Address int
  | ICMP_error "'p IPv4Datagram" int int int

record 'p QueuedDatagramForHook =
  qd_datagram :: "'p IPv4Datagram"
  qd_id :: nat
  qd_inIE :: "InterfaceEntry option"
  qd_outIE :: "InterfaceEntry option"
  qd_nextHopAddr :: IPv4Address
  qd_hookType :: HookType

record 'p IPv4 =
  isUp :: bool
  ip_rt :: RoutingTable
  ip_ift :: InterfaceTable
  curFragmentId :: u32
  fragbuf :: "'p IPv4FragBuf"
  lastCheckTime :: simtime
  mapping :: "(int \<times> int) list"
  pendingPackets :: "(IPv4Address \<times> 'p IPv4Datagram list) list"
  hooks :: "(int \<times> nat) list"
  queuedDatagramsForHooks :: "'p QueuedDatagramForHook list"
  next_queued :: nat
  numMulticast :: int
  numLocalDeliver :: int
  numDropped :: int
  numUnroutable :: int
  numForwarded :: int
  defaultTimeToLive :: u16
  defaultMCTimeToLive :: u16
  fragmentTimeoutTime :: simtime
  forceBroadcast :: bool
  useProxyARP :: bool
  ip_out :: "'p ip_event list"

definition ICMP_DESTINATION_UNREACHABLE :: int where "ICMP_DESTINATION_UNREACHABLE = 13"
definition ICMP_REDIRECT :: int where "ICMP_REDIRECT = 5"
definition ICMP_TIME_EXCEEDED :: int where "ICMP_TIME_EXCEEDED = 11"
definition ICMP_PARAMETER_PROBLEM :: int where "ICMP_PARAMETER_PROBLEM = 12"
definition ICMP_DU_PROTOCOL_UNREACHABLE :: int where "ICMP_DU_PROTOCOL_UNREACHABLE = 2"
definition ICMP_DU_FRAGMENTATION_NEEDED :: int where "ICMP_DU_FRAGMENTATION_NEEDED = 4"
definition IP_PROT_ICMP :: int where "IP_PROT_ICMP = 1"
definition IP_PROT_IGMP :: int where "IP_PROT_IGMP = 2"
definition IP_PROT_IP :: int where "IP_PROT_IP = 4"

definition ip_emit :: "'p ip_event \<Rightarrow> 'p IPv4 \<Rightarrow> 'p IPv4" where
  "ip_emit e s = s\<lparr>ip_out := ip_out s @ [e]\<rparr>"

section \<open>Protocol mapping\<close>

fun findOutputGateForProtocol :: "int \<Rightarrow> (int \<times> int) list \<Rightarrow> int" where
  "findOutputGateForProtocol protocol [] = -2"
| "findOutputGateForProtocol protocol ((n, g) # es) =
     (if n = protocol then g else findOutputGateForProtocol protocol es)"

definition getOutputGateForProtocol :: "int \<Rightarrow> (int \<times> int) list \<Rightarrow> int res" where
  "getOutputGateForProtocol protocol es =
     (let ret = findOutputGateForProtocol protocol es
      in if ret \<ge> -1 then Inr ret else Inl (Runtime_error ''No output gate defined in protocolMapping''))"

definition addProtocolMapping :: "int \<Rightarrow> int \<Rightarrow> (int \<times> int) list \<Rightarrow> (int \<times> int) list res" where
  "addProtocolMapping protocol gate es =
     (let registered = findOutputGateForProtocol protocol es
      in if registered = -2 then Inr (es @ [(protocol, gate)])
         else if registered = gate then Inr es
         else Inl (Runtime_error ''The protocol should not register to gate index''))"

section \<open>Hooks\<close>

definition getSourceInterfaceFrom :: "'p IPv4Datagram \<Rightarrow> 'p IPv4 \<Rightarrow> InterfaceEntry option" where
  "getSourceInterfaceFrom d s =
     (case arrivalGate d of
        None \<Rightarrow> None
      | Some g \<Rightarrow> getInterfaceByNetworkLayerGateIndex (int g) (ip_ift s))"

text \<open>
  The five loops over the hooks differ in the type of the hook only. A queued datagram is known to
  its hook by a number. The result says whether all hooks accept.
\<close>

fun run_hooks ::
  "'p ip_env \<Rightarrow> HookType \<Rightarrow> (int \<times> nat) list \<Rightarrow> 'p IPv4Datagram \<Rightarrow> InterfaceEntry option
     \<Rightarrow> InterfaceEntry option \<Rightarrow> IPv4Address \<Rightarrow> 'p IPv4
     \<Rightarrow> bool \<times> 'p IPv4Datagram \<times> InterfaceEntry option \<times> IPv4Address \<times> 'p IPv4" where
  "run_hooks env ht [] d inIE outIE nh s = (True, d, outIE, nh, s)"
| "run_hooks env ht ((_, h) # hs) d inIE outIE nh s =
     (case env_hook env h ht d inIE outIE nh of
        (r, d, outIE, nh) \<Rightarrow>
          (case r of
             ACCEPT \<Rightarrow> run_hooks env ht hs d inIE outIE nh s
           | DROP \<Rightarrow> (False, d, outIE, nh, s)
           | QUEUE \<Rightarrow>
               (False, d, outIE, nh,
                s\<lparr>queuedDatagramsForHooks := queuedDatagramsForHooks s @
                    [\<lparr>qd_datagram = d, qd_id = next_queued s, qd_inIE = inIE, qd_outIE = outIE,
                      qd_nextHopAddr = nh, qd_hookType = ht\<rparr>],
                  next_queued := next_queued s + 1\<rparr>)
           | STOLEN \<Rightarrow> (False, d, outIE, nh, s)))"

text \<open>\<^verbatim>\<open>std::multimap\<close>: a hook goes behind those of the same priority.\<close>

fun insert_hook :: "int \<Rightarrow> nat \<Rightarrow> (int \<times> nat) list \<Rightarrow> (int \<times> nat) list" where
  "insert_hook prio h [] = [(prio, h)]"
| "insert_hook prio h ((p, g) # hs) = (if prio < p then (prio, h) # (p, g) # hs else (p, g) # insert_hook prio h hs)"

definition registerHook :: "int \<Rightarrow> nat \<Rightarrow> 'p IPv4 \<Rightarrow> 'p IPv4" where
  "registerHook prio h s = s\<lparr>hooks := insert_hook prio h (hooks s)\<rparr>"

definition unregisterHook :: "int \<Rightarrow> nat \<Rightarrow> 'p IPv4 \<Rightarrow> 'p IPv4" where
  "unregisterHook prio h s = s\<lparr>hooks := remove1 (prio, h) (hooks s)\<rparr>"

text \<open>A queued datagram is dropped.\<close>

fun drop_queued :: "nat \<Rightarrow> 'p QueuedDatagramForHook list \<Rightarrow> 'p QueuedDatagramForHook list" where
  "drop_queued n [] = []"
| "drop_queued n (q # qs) = (if qd_id q = n then qs else q # drop_queued n qs)"

definition dropQueuedDatagram :: "nat \<Rightarrow> 'p IPv4 \<Rightarrow> 'p IPv4" where
  "dropQueuedDatagram n s = s\<lparr>queuedDatagramsForHooks := drop_queued n (queuedDatagramsForHooks s)\<rparr>"

section \<open>Sending\<close>

definition sendPacketToNIC :: "'p IPv4Datagram \<Rightarrow> InterfaceEntry \<Rightarrow> MACAddress option \<Rightarrow> 'p IPv4 \<Rightarrow> 'p IPv4" where
  "sendPacketToNIC d ie mac = ip_emit (To_NIC d (nwLayerGateIndex ie) mac)"

definition resolveNextHopMacAddress :: "'p ip_env \<Rightarrow> IPv4Address \<Rightarrow> InterfaceEntry \<Rightarrow> MACAddress res" where
  "resolveNextHopMacAddress env nextHop destIE =
     (if isLimitedBroadcastAddress nextHop then Inr MAC_BROADCAST
      else
        bind_res (deref (ipv4data destIE)) (\<lambda>d.
          if nextHop = getNetworkBroadcastAddress d then Inr MAC_BROADCAST
          else if ip_isMulticast nextHop then makeMulticastAddress nextHop
          else Inr (env_arp env nextHop)))"

text \<open>
  On an IEEE 802 LAN the datagram waits until the address of the next hop is known; the control info
  is replaced when it is sent.
\<close>

definition sendDatagramToOutput ::
  "'p ip_env \<Rightarrow> 'p IPv4Datagram \<Rightarrow> InterfaceEntry \<Rightarrow> IPv4Address \<Rightarrow> 'p IPv4 \<Rightarrow> 'p IPv4 res" where
  "sendDatagramToOutput env d ie nextHop s =
     (if \<not> (if_broadcast ie \<and> \<not> mac_isUnspecified (macAddr ie)) then Inr (sendPacketToNIC d ie None s)
      else if ip_isUnspecified nextHop \<and> \<not> useProxyARP s then
        Inl (Runtime_error ''Cannot send datagram on broadcast interface: no next-hop address and Proxy ARP is disabled'')
      else
        let nextHop = (if ip_isUnspecified nextHop then dg_destAddress d else nextHop)
        in bind_res (resolveNextHopMacAddress env nextHop ie) (\<lambda>mac.
             if mac_isUnspecified mac then
               let waiting = (case map_of (pendingPackets s) nextHop of None \<Rightarrow> [] | Some ds \<Rightarrow> ds)
               in Inr (ip_emit (Start_resolution nextHop (interfaceId ie))
                    (s\<lparr>pendingPackets := put nextHop (waiting @ [d]) (pendingPackets s)\<rparr>))
             else
               ASSERT (map_of (pendingPackets s) nextHop = None)
                 (Inr (sendPacketToNIC (d\<lparr>dg_multicastLoop := None\<rparr>) ie (Some mac) s))))"

text \<open>The answers of the ARP module; the entry tells the address, the interface and the MAC address.\<close>

definition arpResolutionCompleted :: "IPv4Address \<Rightarrow> InterfaceEntry \<Rightarrow> MACAddress \<Rightarrow> 'p IPv4 \<Rightarrow> 'p IPv4" where
  "arpResolutionCompleted addr ie mac s =
     (case map_of (pendingPackets s) addr of
        None \<Rightarrow> s
      | Some ds \<Rightarrow>
          (fold (\<lambda>d. sendPacketToNIC (d\<lparr>dg_multicastLoop := None\<rparr>) ie (Some mac)) ds s)
            \<lparr>pendingPackets := erase addr (pendingPackets s)\<rparr>)"

definition arpResolutionTimedOut :: "IPv4Address \<Rightarrow> 'p IPv4 \<Rightarrow> 'p IPv4" where
  "arpResolutionTimedOut addr s = s\<lparr>pendingPackets := erase addr (pendingPackets s)\<rparr>"

text \<open>The time to live is decremented as a \<^verbatim>\<open>short\<close> and compared as one.\<close>

definition fragmentAndSend ::
  "'p ip_env \<Rightarrow> 'p IPv4Datagram \<Rightarrow> InterfaceEntry \<Rightarrow> IPv4Address \<Rightarrow> 'p IPv4 \<Rightarrow> 'p IPv4 res" where
  "fragmentAndSend env d ie nextHop s =
     bind_res
       (if ip_isUnspecified (dg_srcAddress d) then
          bind_res (deref (ipv4data ie)) (\<lambda>i. Inr (d\<lparr>dg_srcAddress := inetAddr i\<rparr>))
        else Inr d) (\<lambda>d.
     let d = (if if_loopback ie then d else d\<lparr>timeToLive := timeToLive d - 1\<rparr>)
     in if sint (timeToLive d) < 0 then
          Inr ((ip_emit (ICMP_error d (-1) ICMP_TIME_EXCEEDED 0) s)\<lparr>numDropped := numDropped s + 1\<rparr>)
        else if mtu ie = 0 \<or> byteLength d \<le> mtu ie then sendDatagramToOutput env d ie nextHop s
        else if dontFragment d then
          Inr ((ip_emit (ICMP_error d (-1) ICMP_DESTINATION_UNREACHABLE ICMP_DU_FRAGMENTATION_NEEDED) s)
                 \<lparr>numDropped := numDropped s + 1\<rparr>)
        else
          let hdrLength = headerLength d;
              payloadLength = byteLength d - hdrLength;
              fragmentLength = frag_length (mtu ie) hdrLength;
              offsetBase = fragmentOffset d
          in if fragmentLength \<le> 0 then Inl (Runtime_error ''Cannot fragment datagram: MTU too small for header size'')
             else
               bind_res (of_loop (map_option Inr (frag_offsets payloadLength fragmentLength 0)))
                 (\<lambda>offsets. fold_res (\<lambda>offset.
                    sendDatagramToOutput env
                      (fragment_at d hdrLength payloadLength fragmentLength offsetBase offset) ie nextHop)
                    offsets s))"

definition fragmentPostRouting ::
  "'p ip_env \<Rightarrow> 'p IPv4Datagram \<Rightarrow> InterfaceEntry \<Rightarrow> IPv4Address \<Rightarrow> 'p IPv4 \<Rightarrow> 'p IPv4 res" where
  "fragmentPostRouting env d ie nextHop s =
     (case run_hooks env POSTROUTING (hooks s) d (getSourceInterfaceFrom d s) (Some ie) nextHop s of
        (ok, d, outIE, nh, s) \<Rightarrow>
          if ok then bind_res (deref outIE) (\<lambda>ie. fragmentAndSend env d ie nh s) else Inr s)"

section \<open>Routing\<close>

definition lookup_route :: "IPv4Address \<Rightarrow> 'p IPv4 \<Rightarrow> (IPv4Route option \<times> 'p IPv4) res" where
  "lookup_route dst s =
     bind_res (findBestMatchingRoute dst (ip_rt s)) (\<lambda>(p, t).
       case p of
         None \<Rightarrow> Inr (None, s\<lparr>ip_rt := t\<rparr>)
       | Some p \<Rightarrow> bind_res (deref (map_of (routes t) p)) (\<lambda>r. Inr (Some r, s\<lparr>ip_rt := t\<rparr>)))"

text \<open>The interface that a route points to.\<close>

definition interface_at :: "int option \<Rightarrow> 'p IPv4 \<Rightarrow> InterfaceEntry option res" where
  "interface_at i s =
     (case i of
        None \<Rightarrow> Inr None
      | Some i \<Rightarrow> bind_res (deref (getInterfaceById i (ip_ift s))) (\<lambda>ie. Inr (Some ie)))"

definition same_interface :: "InterfaceEntry option \<Rightarrow> InterfaceEntry option \<Rightarrow> bool" where
  "same_interface a b \<longleftrightarrow> map_option interfaceId a = map_option interfaceId b"

definition routeUnicastPacketFinish ::
  "'p ip_env \<Rightarrow> 'p IPv4Datagram \<Rightarrow> InterfaceEntry option \<Rightarrow> IPv4Address \<Rightarrow> 'p IPv4 \<Rightarrow> 'p IPv4 res" where
  "routeUnicastPacketFinish env d destIE nextHop s =
     bind_res (deref destIE) (\<lambda>ie.
       fragmentPostRouting env d ie nextHop (s\<lparr>numForwarded := numForwarded s + 1\<rparr>))"

text \<open>The output interface and the next hop.\<close>

definition choose_route ::
  "IPv4Address \<Rightarrow> InterfaceEntry option \<Rightarrow> IPv4Address \<Rightarrow> 'p IPv4
     \<Rightarrow> (InterfaceEntry option \<times> IPv4Address \<times> 'p IPv4) res" where
  "choose_route destAddr destIE requested s =
     (case destIE of
        Some ie \<Rightarrow>
          if \<not> ip_isUnspecified requested then Inr (destIE, requested, s)
          else if if_broadcast ie then
            bind_res (lookup_route destAddr s) (\<lambda>(re, s).
              case re of
                None \<Rightarrow> Inr (destIE, 0, s)
              | Some r \<Rightarrow>
                  bind_res (interface_at (rt_interface r) s) (\<lambda>rie.
                    Inr (destIE, if same_interface rie destIE then rt_gateway r else 0, s)))
          else Inr (destIE, 0, s)
      | None \<Rightarrow>
          bind_res (lookup_route destAddr s) (\<lambda>(re, s).
            case re of
              None \<Rightarrow> Inr (None, 0, s)
            | Some r \<Rightarrow>
                bind_res (interface_at (rt_interface r) s) (\<lambda>rie. Inr (rie, rt_gateway r, s))))"

definition routeUnicastPacket ::
  "'p ip_env \<Rightarrow> 'p IPv4Datagram \<Rightarrow> InterfaceEntry option \<Rightarrow> InterfaceEntry option \<Rightarrow> IPv4Address \<Rightarrow> 'p IPv4
     \<Rightarrow> 'p IPv4 res" where
  "routeUnicastPacket env d fromIE destIE requested s =
     bind_res (choose_route (dg_destAddress d) destIE requested s) (\<lambda>(destIE, nextHop, s).
       if destIE = None then
         Inr (ip_emit (ICMP_error d (case fromIE of None \<Rightarrow> -1 | Some ie \<Rightarrow> interfaceId ie)
                ICMP_DESTINATION_UNREACHABLE 0) (s\<lparr>numUnroutable := numUnroutable s + 1\<rparr>))
       else if fromIE \<noteq> None then
         (case run_hooks env FORWARD (hooks s) d fromIE destIE nextHop s of
            (ok, d, destIE, nextHop, s) \<Rightarrow>
              if ok then routeUnicastPacketFinish env d destIE nextHop s else Inr s)
       else routeUnicastPacketFinish env d destIE nextHop s)"

definition routeLocalBroadcastPacket ::
  "'p ip_env \<Rightarrow> 'p IPv4Datagram \<Rightarrow> InterfaceEntry option \<Rightarrow> 'p IPv4 \<Rightarrow> 'p IPv4 res" where
  "routeLocalBroadcastPacket env d destIE s =
     (case destIE of
        Some ie \<Rightarrow> fragmentPostRouting env d ie ALLONES_ADDRESS s
      | None \<Rightarrow>
          if forceBroadcast s then
            fold_res (\<lambda>ie. fragmentPostRouting env d ie ALLONES_ADDRESS) (interfaces (ip_ift s)) s
          else Inr (s\<lparr>numDropped := numDropped s + 1\<rparr>))"

definition determineOutgoingInterfaceForMulticastDatagram ::
  "'p IPv4Datagram \<Rightarrow> InterfaceEntry option \<Rightarrow> 'p IPv4 \<Rightarrow> (InterfaceEntry option \<times> 'p IPv4) res" where
  "determineOutgoingInterfaceForMulticastDatagram d multicastIFOption s =
     (if multicastIFOption \<noteq> None then Inr (multicastIFOption, s)
      else
        bind_res (lookup_route (dg_destAddress d) s) (\<lambda>(re, s).
        bind_res (case re of None \<Rightarrow> Inr None | Some r \<Rightarrow> interface_at (rt_interface r) s) (\<lambda>ie.
        if ie \<noteq> None then Inr (ie, s)
        else
          bind_res (getInterfaceByAddress (dg_srcAddress d) (ip_ift s)) (\<lambda>ie.
            if ie \<noteq> None then Inr (ie, s) else Inr (getFirstMulticastInterface (ip_ift s), s)))))"

definition getShortestPathInterfaceToSource :: "'p IPv4Datagram \<Rightarrow> 'p IPv4 \<Rightarrow> (InterfaceEntry option \<times> 'p IPv4) res" where
  "getShortestPathInterfaceToSource d s =
     bind_res (getInterfaceForDestAddr (dg_srcAddress d) (ip_rt s)) (\<lambda>(i, t).
     bind_res (interface_at i s) (\<lambda>ie. Inr (ie, s\<lparr>ip_rt := t\<rparr>)))"

text \<open>One output interface of a multicast route.\<close>

definition forward_to_output ::
  "'p ip_env \<Rightarrow> 'p IPv4Datagram \<Rightarrow> InterfaceEntry \<Rightarrow> OutInterface \<Rightarrow> 'p IPv4 \<Rightarrow> 'p IPv4 res" where
  "forward_to_output env d fromIE oi s =
     bind_res (deref (getInterfaceById (oi_ie oi) (ip_ift s))) (\<lambda>destIE.
       if \<not> same_interface (Some destIE) (Some fromIE) \<and> oi_enabled oi then
         bind_res (deref (ipv4data destIE)) (\<lambda>i.
           if sint (timeToLive d) \<le> getMulticastTtlThreshold i then Inr s
           else if oi_isLeaf oi \<and> \<not> hasMulticastListener (dg_destAddress d) i then Inr s
           else fragmentPostRouting env d destIE (dg_destAddress d) s)
       else Inr s)"

definition forwardMulticastPacket ::
  "'p ip_env \<Rightarrow> 'p IPv4Datagram \<Rightarrow> InterfaceEntry \<Rightarrow> 'p IPv4 \<Rightarrow> 'p IPv4 res" where
  "forwardMulticastPacket env d fromIE s =
     ASSERT (ip_isMulticast (dg_destAddress d))
     (ASSERT (\<not> isLinkLocalMulticast (dg_destAddress d))
       (let s = s\<lparr>numMulticast := numMulticast s + 1\<rparr>;
            find = (\<lambda>t. findBestMatchingMulticastRoute (dg_srcAddress d) (dg_destAddress d) t);
            s = (if find (ip_rt s) = None then s\<lparr>ip_rt := env_new_multicast env d (ip_rt s)\<rparr> else s)
        in case find (ip_rt s) of
             None \<Rightarrow> Inr (s\<lparr>numUnroutable := numUnroutable s + 1\<rparr>)
           | Some p \<Rightarrow>
               bind_res (deref (map_of (multicastRoutes (ip_rt s)) p)) (\<lambda>m.
                 if inInterface m \<noteq> None \<and> inInterface m \<noteq> Some (interfaceId fromIE) then
                   Inr (s\<lparr>numDropped := numDropped s + 1\<rparr>)
                 else
                   bind_res
                     (if inInterface m = None then getShortestPathInterfaceToSource d s else Inr (Some fromIE, s))
                     (\<lambda>(ie, s).
                       if \<not> same_interface (Some fromIE) ie then Inr (s\<lparr>numDropped := numDropped s + 1\<rparr>)
                       else fold_res (forward_to_output env d fromIE) (outInterfaces m)
                              (s\<lparr>numForwarded := numForwarded s + 1\<rparr>)))))"

section \<open>Local delivery\<close>

text \<open>
  \<^verbatim>\<open>cPacket::encapsulate\<close> adds the length of the packet, \<^verbatim>\<open>cPacket::decapsulate\<close> takes it
  away and fails when the length gets negative.
\<close>

definition decapsulate ::
  "'p ip_env \<Rightarrow> 'p IPv4Datagram \<Rightarrow> 'p IPv4 \<Rightarrow> ('p \<times> IPv4ControlInfo \<times> 'p IPv4Datagram) res" where
  "decapsulate env d s =
     bind_res (deref (encapsulatedPacket d)) (\<lambda>p.
       if byteLength d < env_length env p then Inl (Runtime_error ''decapsulate(): packet length is smaller than encapsulated packet'')
       else
         let d' = d\<lparr>encapsulatedPacket := None, byteLength := byteLength d - env_length env p\<rparr>
         in Inr (p,
              \<lparr>ci_protocol = transportProtocol d, ci_srcAddr = dg_srcAddress d, ci_destAddr = dg_destAddress d,
               ci_typeOfService = typeOfService d,
               ci_interfaceId = (case getSourceInterfaceFrom d s of None \<Rightarrow> -1 | Some ie \<Rightarrow> interfaceId ie),
               ci_timeToLive = timeToLive d, ci_dontFragment = False, ci_multicastLoop = False\<rparr>, d'))"

definition handleIncomingICMP ::
  "'p ip_env \<Rightarrow> 'p \<Rightarrow> IPv4ControlInfo \<Rightarrow> 'p IPv4Datagram \<Rightarrow> 'p IPv4 \<Rightarrow> 'p IPv4 res" where
  "handleIncomingICMP env p ci d s =
     (case env_icmp env p of
        None \<Rightarrow> Inl (Runtime_error ''check_and_cast(): cannot cast to ICMPMessage'')
      | Some (type, bogus) \<Rightarrow>
          if type \<in> {ICMP_REDIRECT, ICMP_DESTINATION_UNREACHABLE, ICMP_TIME_EXCEEDED, ICMP_PARAMETER_PROBLEM} then
            (case bogus of
               None \<Rightarrow> Inl (Runtime_error ''check_and_cast(): cannot cast to IPv4Datagram'')
             | Some protocol \<Rightarrow>
                 bind_res (getOutputGateForProtocol protocol (mapping s)) (\<lambda>g.
                   Inr (ip_emit (To_transport p (Some ci) (Some d) g) s)))
          else
            bind_res (getOutputGateForProtocol IP_PROT_ICMP (mapping s)) (\<lambda>g.
              Inr (ip_emit (To_transport p (Some ci) (Some d) g) s)))"

definition reassembleAndDeliverFinish :: "'p ip_env \<Rightarrow> 'p IPv4Datagram \<Rightarrow> 'p IPv4 \<Rightarrow> 'p IPv4 res" where
  "reassembleAndDeliverFinish env d s =
     (if transportProtocol d = IP_PROT_ICMP then
        bind_res (decapsulate env d s) (\<lambda>(p, ci, d).
        bind_res (handleIncomingICMP env p ci d s) (\<lambda>s. Inr (s\<lparr>numLocalDeliver := numLocalDeliver s + 1\<rparr>)))
      else if transportProtocol d = IP_PROT_IP then
        bind_res (decapsulate env d s) (\<lambda>(p, ci, d). Inr (ip_emit (To_preRouting p) s))
      else
        let g = findOutputGateForProtocol (transportProtocol d) (mapping s)
        in if g \<ge> 0 \<and> env_path_ok env g then
             bind_res (decapsulate env d s) (\<lambda>(p, ci, d).
               Inr ((ip_emit (To_transport p (Some ci) (Some d) g) s)\<lparr>numLocalDeliver := numLocalDeliver s + 1\<rparr>))
           else
             bind_res (deref (getSourceInterfaceFrom d s)) (\<lambda>ie.
               Inr (ip_emit (ICMP_error d (interfaceId ie) ICMP_DESTINATION_UNREACHABLE ICMP_DU_PROTOCOL_UNREACHABLE) s)))"

text \<open>Fragments that timed out are reported with interface -1.\<close>

definition purge_if_due :: "'p ip_env \<Rightarrow> 'p IPv4 \<Rightarrow> 'p IPv4 res" where
  "purge_if_due env s =
     (if env_now env \<ge> lastCheckTime s + seconds 10 then
        bind_res (purgeStaleFragments (env_now env - fragmentTimeoutTime s) (fragbuf s)) (\<lambda>(errs, fb).
        fold_res (\<lambda>e s. bind_res (deref e) (\<lambda>d. Inr (ip_emit (ICMP_error d (-1) ICMP_TIME_EXCEEDED 0) s)))
          errs (s\<lparr>lastCheckTime := env_now env, fragbuf := fb\<rparr>))
      else Inr s)"

definition reassemble :: "'p ip_env \<Rightarrow> 'p IPv4Datagram \<Rightarrow> 'p IPv4 \<Rightarrow> ('p IPv4Datagram option \<times> 'p IPv4) res" where
  "reassemble env d s =
     (if fragmentOffset d \<noteq> 0 \<or> moreFragments d then
        bind_res (purge_if_due env s) (\<lambda>s.
        bind_res (fb_addFragment d (env_now env) (fragbuf s)) (\<lambda>(r, fb). Inr (r, s\<lparr>fragbuf := fb\<rparr>)))
      else Inr (Some d, s))"

definition reassembleAndDeliver :: "'p ip_env \<Rightarrow> 'p IPv4Datagram \<Rightarrow> 'p IPv4 \<Rightarrow> 'p IPv4 res" where
  "reassembleAndDeliver env d s =
     bind_res (reassemble env d s) (\<lambda>(r, s).
       case r of
         None \<Rightarrow> Inr s
       | Some d \<Rightarrow>
           (case run_hooks env LOCALIN (hooks s) d (getSourceInterfaceFrom d s) None 0 s of
              (ok, d, _, _, s) \<Rightarrow> if ok then reassembleAndDeliverFinish env d s else Inr s))"

section \<open>Datagrams from the network\<close>

definition preroutingFinish ::
  "'p ip_env \<Rightarrow> 'p IPv4Datagram \<Rightarrow> InterfaceEntry \<Rightarrow> InterfaceEntry option \<Rightarrow> IPv4Address \<Rightarrow> 'p IPv4
     \<Rightarrow> 'p IPv4 res" where
  "preroutingFinish env d fromIE destIE nextHop s =
     (let destAddr = dg_destAddress d; d = d\<lparr>dg_multicastLoop := None\<rparr>
      in if if_loopback fromIE then reassembleAndDeliver env d s
         else if ip_isMulticast destAddr then
           bind_res (deref (ipv4data fromIE)) (\<lambda>i.
           bind_res
             (if isMemberOfMulticastGroup destAddr i
                 \<or> (multicastForward (ip_rt s) \<and> transportProtocol d = IP_PROT_IGMP) then reassembleAndDeliver env d s
              else Inr s) (\<lambda>s.
             if \<not> IPForward (ip_rt s) \<or> isLinkLocalMulticast destAddr then Inr s
             else if timeToLive d = 0 then Inr s
             else forwardMulticastPacket env d fromIE s))
         else
           bind_res (isLocalAddress (ip_ift s) destAddr (ip_rt s)) (\<lambda>(local, t).
           let s = s\<lparr>ip_rt := t\<rparr>
           in bind_res (if local then Inr True else bind_res (deref (ipv4data fromIE)) (\<lambda>i. Inr (ip_isUnspecified (inetAddr i))))
             (\<lambda>deliver.
                if deliver then reassembleAndDeliver env d s
                else
                  bind_res (if isLimitedBroadcastAddress destAddr then Inr None
                            else findInterfaceByLocalBroadcastAddress destAddr (ip_ift s)) (\<lambda>broadcastIE.
                    if isLimitedBroadcastAddress destAddr \<or> broadcastIE \<noteq> None then
                      bind_res
                        (case broadcastIE of
                           None \<Rightarrow> Inr s
                         | Some bie \<Rightarrow>
                             if \<not> same_interface (Some fromIE) (Some bie) \<and> IPForward (ip_rt s) then
                               fragmentPostRouting env d bie ALLONES_ADDRESS s
                             else Inr s) (\<lambda>s. reassembleAndDeliver env d s)
                    else if \<not> IPForward (ip_rt s) then Inr (s\<lparr>numDropped := numDropped s + 1\<rparr>)
                    else routeUnicastPacket env d (Some fromIE) destIE nextHop s))))"

text \<open>
  \<open>in_header\<close> is the outcome of the random draw that tells whether a bit error is in the header.
\<close>

definition handleIncomingDatagram ::
  "'p ip_env \<Rightarrow> bool \<Rightarrow> 'p IPv4Datagram \<Rightarrow> InterfaceEntry option \<Rightarrow> 'p IPv4 \<Rightarrow> 'p IPv4 res" where
  "handleIncomingDatagram env in_header d fromIE s =
     (case fromIE of
        None \<Rightarrow> Inl Assertion_failed
      | Some ie \<Rightarrow>
          if bitError d \<and> in_header then Inr (ip_emit (ICMP_error d (interfaceId ie) ICMP_PARAMETER_PROBLEM 0) s)
          else
            (case run_hooks env PREROUTING (hooks s) d (Some ie) None 0 s of
               (ok, d, destIE, nextHop, s) \<Rightarrow> if ok then preroutingFinish env d ie destIE nextHop s else Inr s))"

section \<open>Packets from the layers above\<close>

definition IP_PROT_NONE :: int where "IP_PROT_NONE = 59"

definition createIPv4Datagram :: "string \<Rightarrow> 'p IPv4Datagram" where
  "createIPv4Datagram n = \<lparr>dg_name = n, byteLength = 0, bitError = False, arrivalGate = None,
     dg_multicastLoop = None, headerLength = IP_HEADER_BYTES, dg_srcAddress = 0, dg_destAddress = 0,
     transportProtocol = IP_PROT_NONE, timeToLive = 0, identification = 0, moreFragments = False,
     dontFragment = False, fragmentOffset = 0, typeOfService = 0, encapsulatedPacket = None\<rparr>"

definition ip_encapsulate ::
  "'p ip_env \<Rightarrow> 'p \<Rightarrow> IPv4ControlInfo \<Rightarrow> 'p IPv4 \<Rightarrow> ('p IPv4Datagram \<times> 'p IPv4) res" where
  "ip_encapsulate env p ci s =
     (let d = (createIPv4Datagram (env_name env p))\<lparr>byteLength := IP_HEADER_BYTES + env_length env p,
            encapsulatedPacket := Some p, dg_destAddress := ci_destAddr ci\<rparr>
      in bind_res
           (if ip_isUnspecified (ci_srcAddr ci) then Inr d
            else
              bind_res (getInterfaceByAddress (ci_srcAddr ci) (ip_ift s)) (\<lambda>ie.
                if ie = None then Inl (Runtime_error ''Wrong source address: no interface with such address'')
                else Inr (d\<lparr>dg_srcAddress := ci_srcAddr ci\<rparr>))) (\<lambda>d.
         let ttl = (if sint (ci_timeToLive ci) > 0 then ci_timeToLive ci
                    else if isLinkLocalMulticast (dg_destAddress d) then 1
                    else if ip_isMulticast (dg_destAddress d) then defaultMCTimeToLive s
                    else defaultTimeToLive s)
         in Inr (d\<lparr>typeOfService := ci_typeOfService ci, identification := curFragmentId s, moreFragments := False,
                   dontFragment := ci_dontFragment ci, fragmentOffset := 0, timeToLive := ttl,
                   transportProtocol := ci_protocol ci\<rparr>,
                 s\<lparr>curFragmentId := curFragmentId s + 1\<rparr>)))"

definition datagramLocalOut ::
  "'p ip_env \<Rightarrow> 'p IPv4Datagram \<Rightarrow> InterfaceEntry option \<Rightarrow> IPv4Address \<Rightarrow> 'p IPv4 \<Rightarrow> 'p IPv4 res" where
  "datagramLocalOut env d destIE requested s =
     (let multicastLoop = (case dg_multicastLoop d of None \<Rightarrow> True | Some b \<Rightarrow> b);
          d = d\<lparr>dg_multicastLoop := None\<rparr>;
          destAddr = dg_destAddress d
      in if ip_isMulticast destAddr then
           bind_res (determineOutgoingInterfaceForMulticastDatagram d destIE s) (\<lambda>(destIE, s).
           bind_res
             (if multicastLoop \<and> (case destIE of None \<Rightarrow> True | Some ie \<Rightarrow> \<not> if_loopback ie) then
                (case getFirstLoopbackInterface (ip_ift s) of
                   None \<Rightarrow> Inr s
                 | Some lo \<Rightarrow> fragmentPostRouting env d lo destAddr s)
              else Inr s) (\<lambda>s.
             case destIE of
               Some ie \<Rightarrow> fragmentPostRouting env d ie destAddr (s\<lparr>numMulticast := numMulticast s + 1\<rparr>)
             | None \<Rightarrow> Inr (s\<lparr>numUnroutable := numUnroutable s + 1\<rparr>)))
         else
           bind_res (isLocalAddress (ip_ift s) destAddr (ip_rt s)) (\<lambda>(local, t).
           let s = s\<lparr>ip_rt := t\<rparr>
           in if local then
                let destIE = (case destIE of None \<Rightarrow> None | Some ie \<Rightarrow> if if_loopback ie then Some ie else None);
                    destIE = (if destIE = None then getFirstLoopbackInterface (ip_ift s) else destIE)
                in ASSERT (destIE \<noteq> None) (routeUnicastPacket env d None destIE destAddr s)
              else
                bind_res (if isLimitedBroadcastAddress destAddr then Inr (True, ip_rt s)
                          else isLocalBroadcastAddress (ip_ift s) destAddr (ip_rt s)) (\<lambda>(broadcast, t).
                let s = s\<lparr>ip_rt := t\<rparr>
                in if broadcast then routeLocalBroadcastPacket env d destIE s
                   else routeUnicastPacket env d None destIE requested s)))"

text \<open>A higher layer sends a packet with control info, or a datagram that is routed as it is.\<close>

datatype 'p hl_packet = HL_packet 'p "IPv4ControlInfo option" | HL_datagram "'p IPv4Datagram"

definition handlePacketFromHL :: "'p ip_env \<Rightarrow> 'p hl_packet \<Rightarrow> 'p IPv4 \<Rightarrow> 'p IPv4 res" where
  "handlePacketFromHL env m s =
     (if getNumInterfaces (ip_ift s) = 0 then Inr (s\<lparr>numDropped := numDropped s + 1\<rparr>)
      else
        bind_res
          (case m of
             HL_datagram d \<Rightarrow> Inr (d, None, s)
           | HL_packet p None \<Rightarrow> Inl (Runtime_error ''check_and_cast(): cannot cast to IPv4ControlInfo'')
           | HL_packet p (Some ci) \<Rightarrow>
               bind_res (ip_encapsulate env p ci s) (\<lambda>(d, s).
                 Inr (d\<lparr>dg_multicastLoop := Some (ci_multicastLoop ci)\<rparr>,
                      getInterfaceById (ci_interfaceId ci) (ip_ift s), s))) (\<lambda>(d, destIE, s).
          case run_hooks env LOCALOUT (hooks s) d None destIE 0 s of
            (ok, d, destIE, nextHop, s) \<Rightarrow>
              if ok then datagramLocalOut env d destIE nextHop s else Inr s))"

section \<open>Events\<close>

text \<open>
  What arrives at the module. A packet from ARP is sent out on the interface that its control info
  names; an ARP packet from the network goes to ARP.
\<close>

datatype 'p ip_message =
    Register_protocol int int
  | From_HL "'p hl_packet"
  | From_ARP "'p IPv4Datagram" int
  | From_network "'p IPv4Datagram" bool
  | ARP_from_network "int option"

text \<open>Every message but a registration is served when it gets to the front of the input queue.\<close>

definition endService :: "'p ip_env \<Rightarrow> 'p ip_message \<Rightarrow> 'p IPv4 \<Rightarrow> 'p IPv4 res" where
  "endService env m s =
     (if \<not> isUp s then Inr s
      else case m of
        Register_protocol p g \<Rightarrow> Inl (Runtime_error ''Unexpected packet type'')
      | From_HL p \<Rightarrow> handlePacketFromHL env p s
      | From_ARP d i \<Rightarrow>
          bind_res (deref (getInterfaceById i (ip_ift s))) (\<lambda>ie. Inr (sendPacketToNIC d ie None s))
      | From_network d in_header \<Rightarrow> handleIncomingDatagram env in_header d (getSourceInterfaceFrom d s) s
      | ARP_from_network g \<Rightarrow>
          bind_res (deref (case g of None \<Rightarrow> None | Some g \<Rightarrow> getInterfaceByNetworkLayerGateIndex g (ip_ift s)))
            (\<lambda>ie. Inr (ip_emit To_ARP s)))"

definition ip_handleMessage :: "'p ip_env \<Rightarrow> 'p ip_message \<Rightarrow> 'p IPv4 \<Rightarrow> 'p IPv4 res" where
  "ip_handleMessage env m s =
     (case m of
        Register_protocol p g \<Rightarrow> bind_res (addProtocolMapping p g (mapping s)) (\<lambda>es. Inr (s\<lparr>mapping := es\<rparr>))
      | _ \<Rightarrow> endService env m s)"

definition reinjectQueuedDatagram :: "'p ip_env \<Rightarrow> nat \<Rightarrow> 'p IPv4 \<Rightarrow> 'p IPv4 res" where
  "reinjectQueuedDatagram env n s =
     (case find_first (\<lambda>q. qd_id q = n) (queuedDatagramsForHooks s) of
        None \<Rightarrow> Inr s
      | Some q \<Rightarrow>
          bind_res
            (case qd_hookType q of
               LOCALOUT \<Rightarrow> datagramLocalOut env (qd_datagram q) (qd_outIE q) (qd_nextHopAddr q) s
             | PREROUTING \<Rightarrow>
                 bind_res (deref (qd_inIE q)) (\<lambda>ie.
                   preroutingFinish env (qd_datagram q) ie (qd_outIE q) (qd_nextHopAddr q) s)
             | POSTROUTING \<Rightarrow>
                 bind_res (deref (qd_outIE q)) (\<lambda>ie. fragmentAndSend env (qd_datagram q) ie (qd_nextHopAddr q) s)
             | LOCALIN \<Rightarrow> reassembleAndDeliverFinish env (qd_datagram q) s
             | FORWARD \<Rightarrow> routeUnicastPacketFinish env (qd_datagram q) (qd_outIE q) (qd_nextHopAddr q) s)
            (\<lambda>s. Inr (dropQueuedDatagram n s)))"

definition ip_start :: "'p IPv4 \<Rightarrow> 'p IPv4" where
  "ip_start s = s\<lparr>isUp := True\<rparr>"

definition ip_stop :: "'p IPv4 \<Rightarrow> 'p IPv4" where
  "ip_stop s = s\<lparr>isUp := False, pendingPackets := []\<rparr>"

definition ip_handleOperationStage :: "node_operation \<Rightarrow> 'p IPv4 \<Rightarrow> 'p IPv4" where
  "ip_handleOperationStage oper s =
     (case oper of
        Start_network_layer \<Rightarrow> ip_start s
      | Shutdown_network_layer \<Rightarrow> ip_stop s
      | Crash \<Rightarrow> ip_stop s
      | _ \<Rightarrow> s)"

end
