(* ===== verification/IPv4_Routing_Laws.thy ===== *)
theory IPv4_Routing_Laws
  imports IPv4_Routing_Table "HOL-Library.Multiset"
begin

text \<open>
  What the routing table promises. Both vectors are kept sorted by the same operations; the locale
  \<open>route_order\<close> states what these need of the order, and is interpreted for the order of the unicast
  and of the multicast routes. A state that is reached by any sequence of operations then has sorted
  vectors and caches that agree with them, so that a lookup is a longest prefix match.
\<close>

section \<open>Sorted vectors of routes\<close>

definition table_sorted :: "('r \<Rightarrow> 'r \<Rightarrow> bool) \<Rightarrow> (nat \<times> 'r) list \<Rightarrow> bool" where
  "table_sorted lt xs \<longleftrightarrow> sorted_wrt (\<lambda>a b. \<not> lt (snd b) (snd a)) xs"

lemma sorted_wrt_remove1: "sorted_wrt R xs \<Longrightarrow> sorted_wrt R (remove1 x xs)"
  by (induction xs) (auto dest: notin_set_remove1)

lemma table_sorted_remove1: "table_sorted lt xs \<Longrightarrow> table_sorted lt (remove1 x xs)"
  by (simp add: table_sorted_def sorted_wrt_remove1)

lemma table_sorted_filter: "table_sorted lt xs \<Longrightarrow> table_sorted lt (filter P xs)"
  by (simp add: table_sorted_def sorted_wrt_filter)

lemma table_sorted_map:
  assumes "\<And>a b. a \<in> set xs \<Longrightarrow> b \<in> set xs \<Longrightarrow> lt (snd (f b)) (snd (f a)) = lt (snd b) (snd a)"
  shows "table_sorted lt (map f xs) = table_sorted lt xs"
  using assms by (induction xs) (auto simp: table_sorted_def)

lemma find_first_SomeD:
  "find_first P xs = Some x \<Longrightarrow> \<exists>us vs. xs = us @ x # vs \<and> P x \<and> (\<forall>u \<in> set us. \<not> P u)"
proof (induction xs)
  case (Cons y ys)
  show ?case
  proof (cases "P y")
    case True
    then show ?thesis using Cons.prems by (intro exI[of _ "[]"] exI[of _ ys]) simp
  next
    case False
    then obtain us vs where "ys = us @ x # vs" "P x" "\<forall>u \<in> set us. \<not> P u" using Cons by auto
    then show ?thesis using False by (intro exI[of _ "y # us"] exI[of _ vs]) simp
  qed
qed simp

text \<open>A vector of routes with different pointers, all below \<open>n\<close>, and with routes that are \<open>ok\<close>.\<close>

definition vec_ok :: "('r \<Rightarrow> 'r \<Rightarrow> bool) \<Rightarrow> ('r \<Rightarrow> bool) \<Rightarrow> nat \<Rightarrow> (nat \<times> 'r) list \<Rightarrow> bool" where
  "vec_ok lt ok n xs \<longleftrightarrow> table_sorted lt xs \<and> distinct (map fst xs) \<and> (\<forall>(p, r) \<in> set xs. p < n \<and> ok r)"

lemma vec_ok_filter: "vec_ok lt ok n xs \<Longrightarrow> vec_ok lt ok n (filter P xs)"
  by (auto simp: vec_ok_def table_sorted_filter distinct_map_filter)

lemma vec_ok_mono: "vec_ok lt ok n xs \<Longrightarrow> n \<le> m \<Longrightarrow> vec_ok lt ok m xs"
  by (auto simp: vec_ok_def)

lemma remove1_key:
  "distinct (map fst xs) \<Longrightarrow> (p, r) \<in> set xs \<Longrightarrow> remove1 (p, r) xs = filter (\<lambda>e. fst e \<noteq> p) xs"
proof (induction xs)
  case (Cons x xs)
  show ?case
  proof (cases "x = (p, r)")
    case True
    then have "\<forall>e \<in> set xs. fst e \<noteq> p" using Cons.prems(1) by auto
    then show ?thesis using True by simp
  next
    case False
    then have "fst x \<noteq> p" using Cons.prems by (auto simp: image_iff)
    then show ?thesis using False Cons by simp
  qed
qed simp

text \<open>One route of the vector is changed.\<close>

definition map_key :: "nat \<Rightarrow> ('r \<Rightarrow> 'r) \<Rightarrow> (nat \<times> 'r) list \<Rightarrow> (nat \<times> 'r) list" where
  "map_key p f xs = map (\<lambda>(q, r). (q, if q = p then f r else r)) xs"

lemma map_key_simps [simp]:
  "map_key p f [] = []"
  "map_key p f ((q, r) # xs) = (q, if q = p then f r else r) # map_key p f xs"
  by (simp_all add: map_key_def)

lemma map_of_map_key: "map_of (map_key p f xs) q = (if q = p then map_option f (map_of xs p) else map_of xs q)"
  by (induction xs) (auto simp: map_key_def)

lemma map_fst_map_key [simp]: "map fst (map_key p f xs) = map fst xs"
  by (induction xs) (auto simp: map_key_def)

lemma filter_map_key: "filter (\<lambda>e. fst e \<noteq> p) (map_key p f xs) = filter (\<lambda>e. fst e \<noteq> p) xs"
  by (induction xs) (auto simp: map_key_def)

lemma remove1_map_key:
  assumes "distinct (map fst xs)" "map_of xs p = Some r"
  shows "remove1 (p, f r) (map_key p f xs) = filter (\<lambda>e. fst e \<noteq> p) xs"
proof -
  have "(p, f r) \<in> set (map_key p f xs)"
    using map_of_map_key[of p f xs p] assms(2) by (auto intro: map_of_SomeD)
  then show ?thesis using remove1_key[of "map_key p f xs" p "f r"] assms(1) by (simp add: filter_map_key)
qed

lemma vec_ok_map_key:
  assumes "vec_ok lt ok n xs" "\<And>a b. lt (f a) b = lt a b" "\<And>a b. lt a (f b) = lt a b" "\<And>r. ok r \<Longrightarrow> ok (f r)"
  shows "vec_ok lt ok n (map_key p f xs)"
proof -
  have "table_sorted lt (map_key p f xs)"
    using assms(1-3) unfolding map_key_def vec_ok_def by (subst table_sorted_map) (auto split: prod.splits)
  moreover have "distinct (map fst (map_key p f xs))" using assms(1) by (simp add: vec_ok_def)
  moreover have "\<forall>(q, r) \<in> set (map_key p f xs). q < n \<and> ok r"
    using assms(1,4) by (auto simp: vec_ok_def map_key_def)
  ultimately show ?thesis by (simp add: vec_ok_def)
qed

locale route_order =
  fixes lt :: "'r \<Rightarrow> 'r \<Rightarrow> bool"
  assumes asym: "lt a b \<Longrightarrow> \<not> lt b a"
    and negatively_transitive: "\<not> lt a b \<Longrightarrow> \<not> lt b c \<Longrightarrow> \<not> lt a c"
begin

lemma insert_sorted_ok:
  assumes "table_sorted lt xs"
  shows "\<exists>ys. insert_sorted lt e xs = Inr ys \<and> table_sorted lt ys \<and> mset ys = add_mset e (mset xs)"
proof -
  let ?P = "\<lambda>y. \<not> lt (snd e) (snd y)"
  define us where "us = takeWhile ?P xs"
  define vs where "vs = dropWhile ?P xs"
  have xs: "xs = us @ vs" by (simp add: us_def vs_def)
  have us: "\<forall>u \<in> set us. ?P u" unfolding us_def by (auto dest: set_takeWhileD)
  have vs: "\<forall>v \<in> set vs. lt (snd e) (snd v)"
  proof (cases vs)
    case (Cons w ws)
    then have w: "lt (snd e) (snd w)" using hd_dropWhile[of ?P xs] unfolding vs_def by auto
    have "\<not> lt (snd v) (snd w)" if "v \<in> set ws" for v
      using assms that unfolding xs Cons table_sorted_def by (auto simp: sorted_wrt_append)
    then have "lt (snd e) (snd v)" if "v \<in> set ws" for v
      using that w negatively_transitive by blast
    then show ?thesis using w Cons by simp
  qed simp
  have "upper_bound lt (snd e) xs = Inr (length us)"
    using vs by (simp add: upper_bound_def Let_def us_def[symmetric] list_all_iff) (simp add: xs)
  then have "insert_sorted lt e xs = Inr (us @ e # vs)"
    by (simp add: insert_sorted_def insert_at_def xs)
  moreover have "table_sorted lt (us @ e # vs)"
    using assms us vs asym unfolding xs table_sorted_def by (auto simp: sorted_wrt_append)
  ultimately show ?thesis by (simp add: xs)
qed

lemma vec_ok_insert:
  assumes "vec_ok lt ok n xs" "p \<notin> fst ` set xs" "p < n" "ok r"
  shows "\<exists>ys. insert_sorted lt (p, r) xs = Inr ys \<and> vec_ok lt ok n ys"
proof -
  obtain ys where ys: "insert_sorted lt (p, r) xs = Inr ys" "table_sorted lt ys"
    "mset ys = add_mset (p, r) (mset xs)"
    using insert_sorted_ok[of xs "(p, r)"] assms(1) by (auto simp: vec_ok_def)
  have "set ys = insert (p, r) (set xs)" using arg_cong[OF ys(3), of set_mset] by simp
  moreover have "distinct (map fst ys)"
  proof -
    have "mset (map fst ys) = mset (p # map fst xs)" using ys(3) by simp
    moreover have "distinct (p # map fst xs)" using assms(1,2) by (auto simp: vec_ok_def)
    ultimately show ?thesis using mset_eq_imp_distinct_iff by blast
  qed
  ultimately show ?thesis using assms ys by (auto simp: vec_ok_def)
qed

lemma first_is_best:
  assumes "table_sorted lt xs" "find_first P xs = Some e"
  shows "e \<in> set xs \<and> P e \<and> (\<forall>y \<in> set xs. P y \<longrightarrow> \<not> lt (snd y) (snd e))"
proof -
  obtain us vs where e: "xs = us @ e # vs" "P e" "\<forall>u \<in> set us. \<not> P u"
    using find_first_SomeD[OF assms(2)] by auto
  then have "\<forall>v \<in> set vs. \<not> lt (snd v) (snd e)"
    using assms(1) by (auto simp: table_sorted_def sorted_wrt_append)
  moreover have "\<not> lt (snd e) (snd e)" using asym by blast
  ultimately show ?thesis using e by auto
qed

end

interpretation unicast: route_order routeLessThan
  by unfold_locales (auto simp: routeLessThan_def split: if_splits)

interpretation multicast: route_order multicastRouteLessThan
  by unfold_locales (auto simp: multicastRouteLessThan_def split: if_splits)

section \<open>The unicast routes\<close>

definition route_ok :: "IPv4Route \<Rightarrow> bool" where
  "route_ok r \<longleftrightarrow> rt_inTable r \<and> isValidNetmask (rt_netmask r) \<and> rt_dest r AND NOT (rt_netmask r) = 0"

definition routes_ok :: "RoutingTable \<Rightarrow> bool" where
  "routes_ok t \<longleftrightarrow> vec_ok routeLessThan route_ok (next_route t) (routes t)"

lemma fireRoute_simps [simp]:
  "routes (fireRoute evs t) = routes t" "next_route (fireRoute evs t) = next_route t"
  "routingCache (fireRoute evs t) = routingCache t" "multicastRoutes (fireRoute evs t) = multicastRoutes t"
  "localAddresses (fireRoute evs t) = localAddresses t"
  "localBroadcastAddresses (fireRoute evs t) = localBroadcastAddresses t"
  by (simp_all add: fireRoute_def)

lemma invalidateCache_simps [simp]:
  "routes (invalidateCache t) = routes t" "next_route (invalidateCache t) = next_route t"
  "routingCache (invalidateCache t) = []" "multicastRoutes (invalidateCache t) = multicastRoutes t"
  "localAddresses (invalidateCache t) = {}" "localBroadcastAddresses (invalidateCache t) = {}"
  by (simp_all add: invalidateCache_def)

lemma routes_ok_cong: "routes t' = routes t \<Longrightarrow> next_route t' = next_route t \<Longrightarrow> routes_ok t' = routes_ok t"
  by (simp add: routes_ok_def)

lemma routes_distinct: "routes_ok t \<Longrightarrow> distinct (map fst (routes t))"
  by (simp add: routes_ok_def vec_ok_def)

lemma internalRemoveRoute_eq:
  assumes "routes_ok t"
  shows "internalRemoveRoute p t =
    (map_of (routes t) p, t\<lparr>routes := filter (\<lambda>e. fst e \<noteq> p) (routes t)\<rparr>)"
proof (cases "map_of (routes t) p")
  case None
  then have "\<forall>e \<in> set (routes t). fst e \<noteq> p" by (auto simp: map_of_eq_None_iff)
  then have "filter (\<lambda>e. fst e \<noteq> p) (routes t) = routes t" by (simp add: filter_id_conv)
  then show ?thesis using None by (simp add: internalRemoveRoute_def)
next
  case (Some r)
  then show ?thesis
    using remove1_key[OF routes_distinct[OF assms] map_of_SomeD[OF Some]] by (simp add: internalRemoveRoute_def)
qed

lemma removed_ok:
  "routes_ok t \<Longrightarrow> routes_ok (t\<lparr>routes := filter P (routes t)\<rparr>)"
  by (simp add: routes_ok_def vec_ok_filter)

lemma deleteRoute_ok:
  "routes_ok t \<Longrightarrow> deleteRoute p t = Inr (b, t') \<Longrightarrow>
   routes_ok t' \<and> next_route t' = next_route t \<and> set (routes t') \<subseteq> set (routes t)
     \<and> multicastRoutes t' = multicastRoutes t"
  by (auto simp: deleteRoute_def internalRemoveRoute_eq ASSERT_eq_Inr removed_ok
      routes_ok_cong[of "fireRoute evs (invalidateCache t')" t' for evs t'] split: option.splits)

lemma internalAddRouteE:
  assumes "internalAddRoute p r t = Inr t'"
  obtains t1 rs where "t1 = t \<or> (\<exists>old b. deleteRoute old t = Inr (b, t1))"
    "insert_sorted routeLessThan (p, r\<lparr>rt_inTable := True\<rparr>) (routes t1) = Inr rs" "t' = t1\<lparr>routes := rs\<rparr>"
    "isValidNetmask (rt_netmask r)" "rt_dest r AND NOT (rt_netmask r) = 0"
proof -
  have v: "isValidNetmask (rt_netmask r)" "rt_dest r AND NOT (rt_netmask r) = 0"
    using assms unfolding internalAddRoute_def by (metis Inr_Inl_False)+
  define pre where "pre = (if ip_isUnspecified (rt_netmask r) then
             (case getDefaultRoute t of
                None \<Rightarrow> Inr t
              | Some old \<Rightarrow> bind_res (deleteRoute old t) (\<lambda>(_, t). Inr t))
           else Inr t)"
  have "bind_res pre (\<lambda>t. bind_res (insert_sorted routeLessThan (p, r\<lparr>rt_inTable := True\<rparr>) (routes t))
      (\<lambda>rs. Inr (t\<lparr>routes := rs\<rparr>))) = Inr t'"
    using assms unfolding internalAddRoute_def pre_def[symmetric] by (metis Inr_Inl_False)
  then obtain t1 rs where t1: "pre = Inr t1"
    "insert_sorted routeLessThan (p, r\<lparr>rt_inTable := True\<rparr>) (routes t1) = Inr rs" "t' = t1\<lparr>routes := rs\<rparr>"
    by auto
  then show ?thesis using that v by (auto simp: pre_def split: if_splits option.splits)
qed

lemma internalAddRoute_ok:
  assumes "routes_ok t" "internalAddRoute p r t = Inr t'" "p \<notin> fst ` set (routes t)" "p < next_route t"
  shows "routes_ok t' \<and> next_route t' = next_route t \<and> multicastRoutes t' = multicastRoutes t"
proof -
  obtain t1 rs where a: "t1 = t \<or> (\<exists>old b. deleteRoute old t = Inr (b, t1))"
    "insert_sorted routeLessThan (p, r\<lparr>rt_inTable := True\<rparr>) (routes t1) = Inr rs" "t' = t1\<lparr>routes := rs\<rparr>"
    and r: "isValidNetmask (rt_netmask r)" "rt_dest r AND NOT (rt_netmask r) = 0"
    using internalAddRouteE[OF assms(2)] by metis
  have t1: "routes_ok t1" "next_route t1 = next_route t" "set (routes t1) \<subseteq> set (routes t)"
    "multicastRoutes t1 = multicastRoutes t"
    using a(1) deleteRoute_ok[OF assms(1)] assms(1) by auto
  have "route_ok (r\<lparr>rt_inTable := True\<rparr>)" using r by (simp add: route_ok_def)
  then have "vec_ok routeLessThan route_ok (next_route t) rs"
    using unicast.vec_ok_insert[of route_ok "next_route t" "routes t1" p "r\<lparr>rt_inTable := True\<rparr>"]
      t1 assms(3,4) a(2) by (auto simp: routes_ok_def)
  then show ?thesis using t1 a(3) by (simp add: routes_ok_def)
qed

section \<open>Caches\<close>

text \<open>
  What the routing cache says: no route means that none matches; a route is in the table, and the
  best one as long as it is valid (else the code looks it up again).
\<close>

definition hit_ok :: "RoutingTable \<Rightarrow> IPv4Address \<Rightarrow> nat option \<Rightarrow> bool" where
  "hit_ok t dst best \<longleftrightarrow>
     (case best of
        None \<Rightarrow> search_routes dst t = None
      | Some p \<Rightarrow> \<exists>r. map_of (routes t) p = Some r \<and> (rt_valid r \<longrightarrow> search_routes dst t = Some p))"

definition cache_ok :: "RoutingTable \<Rightarrow> bool" where
  "cache_ok t \<longleftrightarrow> (\<forall>dst best. map_of (routingCache t) dst = Some best \<longrightarrow> hit_ok t dst best)"

definition local_ok :: "InterfaceTable \<Rightarrow> RoutingTable \<Rightarrow> bool" where
  "local_ok ift t \<longleftrightarrow>
     (localAddresses t = {} \<or>
        (\<exists>ds. all_ipv4data (interfaces ift) = Inr ds \<and> localAddresses t = set (map inetAddr ds)))
     \<and> (localBroadcastAddresses t = {} \<or>
        (\<exists>ds. all_ipv4data (interfaces ift) = Inr ds \<and> localBroadcastAddresses t =
          set (filter (\<lambda>a. \<not> ip_isUnspecified a) (map getNetworkBroadcastAddress ds))))"

definition mroute_ok :: "IPv4MulticastRoute \<Rightarrow> bool" where
  "mroute_ok m \<longleftrightarrow> mr_inTable m \<and> isValidNetmask (mr_originNetmask m)
     \<and> mr_origin m AND NOT (mr_originNetmask m) = 0"

definition mroutes_ok :: "RoutingTable \<Rightarrow> bool" where
  "mroutes_ok t \<longleftrightarrow> vec_ok multicastRouteLessThan mroute_ok (next_route t) (multicastRoutes t)"

definition rt_ok :: "InterfaceTable \<Rightarrow> RoutingTable \<Rightarrow> bool" where
  "rt_ok ift t \<longleftrightarrow> routes_ok t \<and> mroutes_ok t \<and> cache_ok t \<and> local_ok ift t"

lemma search_routes_cong: "routes t' = routes t \<Longrightarrow> search_routes dst t' = search_routes dst t"
  by (simp add: search_routes_def)

lemma cache_ok_cong:
  "routes t' = routes t \<Longrightarrow> routingCache t' = routingCache t \<Longrightarrow> cache_ok t' = cache_ok t"
  by (simp add: cache_ok_def hit_ok_def search_routes_def cong: option.case_cong)

lemma mroutes_ok_cong:
  "multicastRoutes t' = multicastRoutes t \<Longrightarrow> next_route t' = next_route t \<Longrightarrow> mroutes_ok t' = mroutes_ok t"
  by (simp add: mroutes_ok_def)

lemma local_ok_cong:
  "localAddresses t' = localAddresses t \<Longrightarrow> localBroadcastAddresses t' = localBroadcastAddresses t
   \<Longrightarrow> local_ok ift t' = local_ok ift t"
  by (simp add: local_ok_def)

lemma ok_fire_invalidate [simp]:
  "routes_ok (fireRoute evs t) = routes_ok t" "mroutes_ok (fireRoute evs t) = mroutes_ok t"
  "routes_ok (invalidateCache t) = routes_ok t" "mroutes_ok (invalidateCache t) = mroutes_ok t"
  by (simp_all add: routes_ok_def mroutes_ok_def)

lemma rt_ok_fire [simp]: "rt_ok ift (fireRoute evs t) = rt_ok ift t"
  unfolding rt_ok_def
  using cache_ok_cong[of "fireRoute evs t" t] local_ok_cong[of "fireRoute evs t" t] by simp

text \<open>After an invalidation only the vectors matter, and the interfaces may have changed.\<close>

lemma rt_ok_invalidated:
  "routes_ok t \<Longrightarrow> mroutes_ok t \<Longrightarrow> rt_ok ift (invalidateCache t)"
  by (simp add: rt_ok_def cache_ok_def local_ok_def)

section \<open>Operations on unicast routes\<close>

lemma addRoute_preserves:
  assumes "rt_ok ift t" "addRoute p r t = Inr t'" "p \<notin> fst ` set (routes t)" "p < next_route t"
  shows "rt_ok ift t'"
proof -
  obtain t1 where t1: "internalAddRoute p r t = Inr t1" "t' = fireRoute [NF_IPv4_ROUTE_ADDED p] (invalidateCache t1)"
    using assms(2) by (auto simp: addRoute_def)
  show ?thesis
    using internalAddRoute_ok[OF _ t1(1) assms(3,4)] assms(1) mroutes_ok_cong[of t1 t]
    unfolding t1(2) rt_ok_fire by (intro rt_ok_invalidated) (auto simp: rt_ok_def)
qed

lemma removed_all_ok:
  "rt_ok ift t \<Longrightarrow> rt_ok ift' (invalidateCache (t\<lparr>routes := filter P (routes t)\<rparr>))"
  using mroutes_ok_cong[of "t\<lparr>routes := filter P (routes t)\<rparr>" t]
  by (intro rt_ok_invalidated) (auto simp: rt_ok_def removed_ok)

lemma removeRoute_preserves:
  assumes "rt_ok ift t" "removeRoute p t = Inr (x, t')"
  shows "rt_ok ift t'"
proof -
  have e: "internalRemoveRoute p t = (map_of (routes t) p, t\<lparr>routes := filter (\<lambda>e. fst e \<noteq> p) (routes t)\<rparr>)"
    using assms(1) internalRemoveRoute_eq by (simp add: rt_ok_def)
  show ?thesis
  proof (cases "map_of (routes t) p")
    case None
    then have "t' = t" using assms(2) by (auto simp: removeRoute_def internalRemoveRoute_def)
    then show ?thesis using assms(1) by simp
  next
    case (Some r)
    then show ?thesis using assms e removed_all_ok[OF assms(1)] by (auto simp: removeRoute_def ASSERT_eq_Inr)
  qed
qed

lemma deleteRoute_preserves:
  assumes "rt_ok ift t" "deleteRoute p t = Inr (b, t')"
  shows "rt_ok ift t'"
proof -
  have e: "internalRemoveRoute p t = (map_of (routes t) p, t\<lparr>routes := filter (\<lambda>e. fst e \<noteq> p) (routes t)\<rparr>)"
    using assms(1) internalRemoveRoute_eq by (simp add: rt_ok_def)
  show ?thesis
  proof (cases "map_of (routes t) p")
    case None
    then have "t' = t" using assms(2) by (auto simp: deleteRoute_def internalRemoveRoute_def)
    then show ?thesis using assms(1) by simp
  next
    case (Some r)
    then show ?thesis using assms e removed_all_ok[OF assms(1)] by (auto simp: deleteRoute_def ASSERT_eq_Inr)
  qed
qed

text \<open>A change of a field that the order depends on takes the route out and puts it back.\<close>

lemma update_route_routes: "routes (update_route p f t) = map_key p f (routes t)"
  by (simp add: update_route_def map_key_def)

lemma routeChanged_key:
  assumes "rt_ok ift t" "map_of (routes t) p = Some r" "field \<in> {F_DESTINATION, F_ROUTE_NETMASK, F_ROUTE_METRIC}"
    and "routeChanged p field (update_route p f t) = Inr t'"
  shows "rt_ok ift t'"
proof -
  let ?t0 = "t\<lparr>routes := filter (\<lambda>e. fst e \<noteq> p) (routes t)\<rparr>"
  have ok: "routes_ok t" "mroutes_ok t" using assms(1) by (simp_all add: rt_ok_def)
  have "map_of (routes (update_route p f t)) p = Some (f r)"
    using assms(2) by (simp add: update_route_routes map_of_map_key)
  moreover have "remove1 (p, f r) (routes (update_route p f t)) = routes ?t0"
    using remove1_map_key[OF routes_distinct[OF ok(1)] assms(2)] by (simp add: update_route_routes)
  ultimately have "internalRemoveRoute p (update_route p f t) = (Some (f r), ?t0)"
    by (simp add: internalRemoveRoute_def update_route_def)
  then obtain t1 where t1: "internalAddRoute p (f r) ?t0 = Inr t1"
    "t' = fireRoute [NF_IPv4_ROUTE_CHANGED p] (invalidateCache t1)"
    using assms(3,4) by (auto simp: routeChanged_def)
  have "p < next_route ?t0" using ok(1) map_of_SomeD[OF assms(2)] by (auto simp: routes_ok_def vec_ok_def)
  moreover have "p \<notin> fst ` set (routes ?t0)" by auto
  ultimately have "routes_ok t1 \<and> next_route t1 = next_route t \<and> multicastRoutes t1 = multicastRoutes t"
    using internalAddRoute_ok[OF removed_ok[OF ok(1)] t1(1)] by simp
  then show ?thesis
    unfolding t1(2) rt_ok_fire using ok(2) mroutes_ok_cong[of t1 t] by (intro rt_ok_invalidated) auto
qed

text \<open>A change of another field leaves the order and the matches as they are.\<close>

definition keeps_key :: "(IPv4Route \<Rightarrow> IPv4Route) \<Rightarrow> bool" where
  "keeps_key f \<longleftrightarrow> (\<forall>r. rt_netmask (f r) = rt_netmask r \<and> rt_dest (f r) = rt_dest r
     \<and> rt_adminDist (f r) = rt_adminDist r \<and> rt_metric (f r) = rt_metric r \<and> rt_inTable (f r) = rt_inTable r)"

lemma keeps_key_routes_ok:
  assumes "keeps_key f" "routes_ok t"
  shows "routes_ok (update_route p f t)"
  using vec_ok_map_key[of routeLessThan route_ok "next_route t" "routes t" f p] assms
  unfolding routes_ok_def update_route_routes
  by (simp add: update_route_def keeps_key_def routeLessThan_def route_ok_def)

lemma find_first_map_key:
  assumes "\<And>r. P (f r) = P r"
  shows "map_option fst (find_first (\<lambda>e. P (snd e)) (map_key p f xs)) = map_option fst (find_first (\<lambda>e. P (snd e)) xs)"
proof (induction xs)
  case (Cons x xs)
  obtain q r where x: "x = (q, r)" by (cases x)
  have "P (if q = p then f r else r) = P r" using assms by simp
  then show ?case using Cons.IH x by simp
qed simp

lemma keeps_key_preserves:
  assumes "keeps_key f" "\<And>r. rt_valid (f r) = rt_valid r" "rt_ok ift t"
  shows "rt_ok ift (update_route p f t)"
proof -
  let ?t = "update_route p f t"
  have s: "search_routes dst ?t = search_routes dst t" for dst
    unfolding search_routes_def update_route_routes
    using assms(1,2) by (intro find_first_map_key) (simp add: route_matches_def keeps_key_def)
  have c: "routingCache ?t = routingCache t" "multicastRoutes ?t = multicastRoutes t"
    "next_route ?t = next_route t" "localAddresses ?t = localAddresses t"
    "localBroadcastAddresses ?t = localBroadcastAddresses t"
    by (simp_all add: update_route_def)
  have "cache_ok t" using assms(3) by (simp add: rt_ok_def)
  moreover have "hit_ok ?t dst best" if "hit_ok t dst best" for dst best
    using that assms(2) by (cases best) (auto simp: hit_ok_def s update_route_routes map_of_map_key)
  ultimately have "cache_ok ?t" by (simp add: cache_ok_def c(1))
  then show ?thesis
    using assms(3) keeps_key_routes_ok[OF assms(1)] mroutes_ok_cong[OF c(2,3)] local_ok_cong[OF c(4,5)]
    by (simp add: rt_ok_def)
qed

text \<open>The setters.\<close>

lemma set_route_field_key:
  assumes "rt_ok ift t" "set_route_field fld upd field p v t = Inr t'"
    and "field \<in> {F_DESTINATION, F_ROUTE_NETMASK, F_ROUTE_METRIC}"
  shows "rt_ok ift t'"
proof -
  obtain r where r: "map_of (routes t) p = Some r"
    "(if fld r = v then Inr t else
        let t = update_route p (upd v) t in if rt_inTable r then routeChanged p field t else Inr t) = Inr t'"
    using assms(2) by (auto simp: set_route_field_def simp del: split_paired_Ex)
  have "rt_inTable r"
    using assms(1) map_of_SomeD[OF r(1)] by (auto simp: rt_ok_def routes_ok_def vec_ok_def route_ok_def)
  then show ?thesis
    using r routeChanged_key[OF assms(1) r(1) assms(3), of "upd v" t'] assms(1)
    by (simp add: Let_def split: if_splits)
qed

lemma set_route_field_other:
  assumes "rt_ok ift t" "set_route_field fld upd field p v t = Inr t'"
    and "field \<notin> {F_DESTINATION, F_ROUTE_NETMASK, F_ROUTE_METRIC}"
    and "keeps_key (upd v)" "\<And>r. rt_valid (upd v r) = rt_valid r"
  shows "rt_ok ift t'"
proof -
  obtain r where r: "(if fld r = v then Inr t else
        let t = update_route p (upd v) t in if rt_inTable r then routeChanged p field t else Inr t) = Inr t'"
    using assms(2) by (auto simp: set_route_field_def simp del: split_paired_Ex)
  have "routeChanged p field (update_route p (upd v) t)
      = Inr (fireRoute [NF_IPv4_ROUTE_CHANGED p] (update_route p (upd v) t))"
    using assms(3) by (simp add: routeChanged_def)
  then show ?thesis
    using r keeps_key_preserves[OF assms(4,5,1), of p] assms(1) by (auto simp: Let_def split: if_splits)
qed

text \<open>A route that expires.\<close>

definition expire :: "nat \<Rightarrow> RoutingTable \<Rightarrow> RoutingTable" where
  "expire p = update_route p (\<lambda>r. r\<lparr>rt_valid := False\<rparr>)"

lemma find_first_expire:
  "find_first (\<lambda>e. route_matches dst (snd e)) xs = Some (q, r) \<Longrightarrow> q \<noteq> p \<Longrightarrow>
   find_first (\<lambda>e. route_matches dst (snd e)) (map_key p (\<lambda>r. r\<lparr>rt_valid := False\<rparr>) xs) = Some (q, r)"
proof (induction xs)
  case (Cons x xs)
  obtain q' r' where x: "x = (q', r')" by (cases x)
  show ?case using Cons x by (auto simp: route_matches_def split: if_splits)
qed simp

lemma find_first_expire_None:
  "find_first (\<lambda>e. route_matches dst (snd e)) xs = None \<Longrightarrow>
   find_first (\<lambda>e. route_matches dst (snd e)) (map_key p (\<lambda>r. r\<lparr>rt_valid := False\<rparr>) xs) = None"
  by (auto simp: find_first_None map_key_def route_matches_def split: if_splits)

lemma expire_preserves:
  assumes "rt_ok ift t"
  shows "rt_ok ift (expire p t)"
proof -
  let ?f = "\<lambda>r. r\<lparr>rt_valid := False\<rparr>"
  let ?t = "update_route p ?f t"
  have c: "routingCache ?t = routingCache t" "multicastRoutes ?t = multicastRoutes t"
    "next_route ?t = next_route t" "localAddresses ?t = localAddresses t"
    "localBroadcastAddresses ?t = localBroadcastAddresses t"
    by (simp_all add: update_route_def)
  have "hit_ok ?t dst best" if h: "hit_ok t dst best" for dst best
  proof (cases best)
    case None
    then show ?thesis
      using h find_first_expire_None by (auto simp: hit_ok_def search_routes_def update_route_routes)
  next
    case (Some q)
    then obtain r where r: "map_of (routes t) q = Some r" "rt_valid r \<longrightarrow> search_routes dst t = Some q"
      using h by (auto simp: hit_ok_def)
    show ?thesis
    proof (cases "q = p \<or> \<not> rt_valid r")
      case True
      then show ?thesis using r(1) Some by (auto simp: hit_ok_def update_route_routes map_of_map_key)
    next
      case False
      then obtain r' where "find_first (\<lambda>e. route_matches dst (snd e)) (routes t) = Some (q, r')"
        using r(2) by (auto simp: search_routes_def)
      from find_first_expire[OF this, of p] False have "search_routes dst ?t = Some q"
        by (simp add: search_routes_def update_route_routes)
      then show ?thesis using r(1) Some False by (simp add: hit_ok_def update_route_routes map_of_map_key)
    qed
  qed
  then have "cache_ok ?t" using assms by (simp add: rt_ok_def cache_ok_def c(1))
  moreover have "routes_ok ?t"
    using keeps_key_routes_ok[of ?f t p] assms by (simp add: rt_ok_def keeps_key_def)
  moreover have "mroutes_ok ?t" "local_ok ift ?t"
    using assms mroutes_ok_cong[OF c(2,3)] local_ok_cong[OF c(4,5)] by (simp_all add: rt_ok_def)
  ultimately show ?thesis by (simp add: rt_ok_def expire_def)
qed

section \<open>Lookups\<close>

lemma search_in_table:
  assumes "routes_ok t" "search_routes dst t = Some p"
  shows "\<exists>r. map_of (routes t) p = Some r \<and> route_matches dst r"
proof -
  obtain e where e: "find_first (\<lambda>e. route_matches dst (snd e)) (routes t) = Some e" "p = fst e"
    using assms(2) by (auto simp: search_routes_def)
  then have "(p, snd e) \<in> set (routes t)" "route_matches dst (snd e)"
    using unicast.first_is_best[OF _ e(1)] assms(1) by (auto simp: routes_ok_def vec_ok_def)
  then show ?thesis using map_of_is_SomeI[OF routes_distinct[OF assms(1)]] by blast
qed

text \<open>The lookup through the cache is the search, and never follows a dangling pointer.\<close>

lemma lookup_ok:
  assumes "rt_ok ift t"
  shows "\<exists>t'. findBestMatchingRoute dst t = Inr (search_routes dst t, t') \<and> rt_ok ift t'
    \<and> (t' = t \<or> t' = t\<lparr>routingCache := put dst (search_routes dst t) (routingCache t)\<rparr>)"
proof -
  let ?new = "t\<lparr>routingCache := put dst (search_routes dst t) (routingCache t)\<rparr>"
  have "hit_ok t dst (search_routes dst t)"
    using search_in_table[of t dst] assms by (cases "search_routes dst t") (auto simp: hit_ok_def rt_ok_def)
  moreover have "hit_ok ?new a b = hit_ok t a b" for a b
    using search_routes_cong[of ?new t] by (simp add: hit_ok_def cong: option.case_cong)
  ultimately have "cache_ok ?new" using assms by (simp add: cache_ok_def rt_ok_def)
  then have new: "rt_ok ift ?new"
    using assms routes_ok_cong[of ?new t] mroutes_ok_cong[of ?new t] local_ok_cong[of ?new t]
    by (simp add: rt_ok_def)
  show ?thesis
  proof (cases "map_of (routingCache t) dst")
    case None
    then show ?thesis using new by (simp add: findBestMatchingRoute_def Let_def)
  next
    case (Some best)
    then have h: "hit_ok t dst best" using assms by (simp add: rt_ok_def cache_ok_def)
    show ?thesis
    proof (cases best)
      case None
      then show ?thesis using Some h assms by (auto simp: findBestMatchingRoute_def hit_ok_def)
    next
      case (Some p)
      then obtain r where r: "map_of (routes t) p = Some r" "rt_valid r \<longrightarrow> search_routes dst t = Some p"
        using h by (auto simp: hit_ok_def)
      have e: "findBestMatchingRoute dst t = (if rt_valid r then Inr (Some p, t) else Inr (search_routes dst t, ?new))"
        using \<open>map_of (routingCache t) dst = Some best\<close> Some r(1)
        by (simp add: findBestMatchingRoute_def Let_def del: bind_res_eq_Inr)
      show ?thesis using r(2) assms new by (cases "rt_valid r") (simp_all add: e)
    qed
  qed
qed

lemma isLocalAddress_ok:
  assumes "rt_ok ift t" "all_ipv4data (interfaces ift) = Inr ds"
  shows "\<exists>t'. isLocalAddress ift dst t = Inr (dst \<in> inetAddr ` set ds, t') \<and> rt_ok ift t'
    \<and> routes t' = routes t"
proof -
  let ?new = "t\<lparr>localAddresses := set (map inetAddr ds)\<rparr>"
  have "local_ok ift ?new" using assms by (auto simp: rt_ok_def local_ok_def)
  then have new: "rt_ok ift ?new"
    using assms(1) routes_ok_cong[of ?new t] mroutes_ok_cong[of ?new t] cache_ok_cong[of ?new t]
    by (simp add: rt_ok_def)
  show ?thesis
  proof (cases "localAddresses t = {}")
    case True
    then show ?thesis using assms(2) new by (simp add: isLocalAddress_def)
  next
    case False
    then have "localAddresses t = set (map inetAddr ds)" using assms by (auto simp: rt_ok_def local_ok_def)
    then show ?thesis using False assms(1) by (simp add: isLocalAddress_def)
  qed
qed

lemma isLocalAddress_preserves:
  assumes "rt_ok ift t" "isLocalAddress ift dst t = Inr (b, t')"
  shows "rt_ok ift t'"
proof (cases "localAddresses t = {}")
  case True
  then obtain ds where "all_ipv4data (interfaces ift) = Inr ds" using assms(2) by (auto simp: isLocalAddress_def)
  then show ?thesis using isLocalAddress_ok[OF assms(1), of ds dst] assms(2) by auto
next
  case False
  then show ?thesis using assms by (simp add: isLocalAddress_def)
qed

lemma isLocalBroadcastAddress_preserves:
  assumes "rt_ok ift t" "isLocalBroadcastAddress ift dst t = Inr (b, t')"
  shows "rt_ok ift t'"
proof (cases "localBroadcastAddresses t = {}")
  case True
  then obtain ds where ds: "all_ipv4data (interfaces ift) = Inr ds"
    "t' = t\<lparr>localBroadcastAddresses := set (filter (\<lambda>a. \<not> ip_isUnspecified a) (map getNetworkBroadcastAddress ds))\<rparr>"
    using assms(2) by (auto simp: isLocalBroadcastAddress_def)
  have "local_ok ift t'" using ds assms(1) by (auto simp: rt_ok_def local_ok_def)
  then show ?thesis
    using assms(1) ds(2) routes_ok_cong[of t' t] mroutes_ok_cong[of t' t] cache_ok_cong[of t' t]
    by (simp add: rt_ok_def)
next
  case False
  then show ?thesis using assms by (simp add: isLocalBroadcastAddress_def)
qed

section \<open>Multicast routes\<close>

text \<open>What an operation on multicast routes leaves alone.\<close>

definition same_unicast :: "RoutingTable \<Rightarrow> RoutingTable \<Rightarrow> bool" where
  "same_unicast t t' \<longleftrightarrow> routes t' = routes t \<and> next_route t' = next_route t \<and> routingCache t' = routingCache t
     \<and> localAddresses t' = localAddresses t \<and> localBroadcastAddresses t' = localBroadcastAddresses t"

lemma same_unicast_preserves:
  "rt_ok ift t \<Longrightarrow> same_unicast t t' \<Longrightarrow> mroutes_ok t' \<Longrightarrow> rt_ok ift t'"
  unfolding rt_ok_def same_unicast_def
  using routes_ok_cong[of t' t] cache_ok_cong[of t' t] local_ok_cong[of t' t] by simp

lemma same_unicast_trans: "same_unicast t u \<Longrightarrow> same_unicast u v \<Longrightarrow> same_unicast t v"
  by (simp add: same_unicast_def)

lemma same_unicast_refl [simp]: "same_unicast t t"
  by (simp add: same_unicast_def)

lemma internalAddMulticastRouteE:
  assumes "internalAddMulticastRoute ift p m t = Inr t'"
  obtains ms where "insert_sorted multicastRouteLessThan (p, m\<lparr>mr_inTable := True\<rparr>) (multicastRoutes t) = Inr ms"
    "t' = t\<lparr>multicastRoutes := ms\<rparr>" "isValidNetmask (mr_originNetmask m)"
    "mr_origin m AND NOT (mr_originNetmask m) = 0"
proof -
  have v: "isValidNetmask (mr_originNetmask m)" "mr_origin m AND NOT (mr_originNetmask m) = 0"
    using assms unfolding internalAddMulticastRoute_def by (metis Inr_Inl_False)+
  define inp where "inp = (case inInterface m of None \<Rightarrow> Inr True | Some i \<Rightarrow> is_multicast_if ift i)"
  define outs where "outs = fold_res (\<lambda>oi _.
               bind_res (is_multicast_if ift (oi_ie oi)) (\<lambda>ok.
                 if \<not> ok then Inl (Runtime_error ''addMulticastRoute(): output interface must be multicast capable'')
                 else if inInterface m = Some (oi_ie oi) then
                   Inl (Runtime_error ''addMulticastRoute(): output interface cannot be the same as the input interface'')
                 else Inr ()))
               (outInterfaces m) ()"
  have "bind_res inp (\<lambda>ok.
        if \<not> ok then Inl (Runtime_error ''addMulticastRoute(): input interface must be multicast capable'')
        else bind_res outs (\<lambda>_.
          bind_res (insert_sorted multicastRouteLessThan (p, m\<lparr>mr_inTable := True\<rparr>) (multicastRoutes t)) (\<lambda>ms.
            Inr (t\<lparr>multicastRoutes := ms\<rparr>)))) = Inr t'"
    using assms unfolding internalAddMulticastRoute_def inp_def[symmetric] outs_def[symmetric]
    by (metis Inr_Inl_False)
  then show ?thesis using that v by (auto split: if_splits)
qed

lemma internalAddMulticastRoute_ok:
  assumes "mroutes_ok t" "internalAddMulticastRoute ift p m t = Inr t'" "p \<notin> fst ` set (multicastRoutes t)"
    "p < next_route t"
  shows "mroutes_ok t' \<and> same_unicast t t'"
proof -
  obtain ms where ms: "insert_sorted multicastRouteLessThan (p, m\<lparr>mr_inTable := True\<rparr>) (multicastRoutes t) = Inr ms"
    "t' = t\<lparr>multicastRoutes := ms\<rparr>" "isValidNetmask (mr_originNetmask m)"
    "mr_origin m AND NOT (mr_originNetmask m) = 0" using internalAddMulticastRouteE[OF assms(2)] by metis
  then have "vec_ok multicastRouteLessThan mroute_ok (next_route t) ms"
    using multicast.vec_ok_insert[of mroute_ok "next_route t" "multicastRoutes t" p "m\<lparr>mr_inTable := True\<rparr>"]
      assms(1,3,4) by (auto simp: mroutes_ok_def mroute_ok_def)
  then show ?thesis using ms(2) by (simp add: mroutes_ok_def same_unicast_def)
qed

lemma internalRemoveMulticastRoute_eq:
  assumes "mroutes_ok t"
  shows "internalRemoveMulticastRoute p t = (map_of (multicastRoutes t) p,
    t\<lparr>multicastRoutes := filter (\<lambda>e. fst e \<noteq> p) (multicastRoutes t)\<rparr>)"
proof (cases "map_of (multicastRoutes t) p")
  case None
  then have "\<forall>e \<in> set (multicastRoutes t). fst e \<noteq> p" by (auto simp: map_of_eq_None_iff)
  then have "filter (\<lambda>e. fst e \<noteq> p) (multicastRoutes t) = multicastRoutes t" by (simp add: filter_id_conv)
  then show ?thesis using None by (simp add: internalRemoveMulticastRoute_def)
next
  case (Some r)
  have "distinct (map fst (multicastRoutes t))" using assms by (simp add: mroutes_ok_def vec_ok_def)
  then show ?thesis
    using remove1_key[OF _ map_of_SomeD[OF Some]] Some by (simp add: internalRemoveMulticastRoute_def)
qed

lemma mremoved_ok: "mroutes_ok t \<Longrightarrow> mroutes_ok (t\<lparr>multicastRoutes := filter P (multicastRoutes t)\<rparr>)"
  by (simp add: mroutes_ok_def vec_ok_filter)

lemma invalidated_preserves:
  "rt_ok ift t \<Longrightarrow> same_unicast t t' \<Longrightarrow> mroutes_ok t' \<Longrightarrow> rt_ok ift (invalidateCache t')"
  using routes_ok_cong[of t' t] by (intro rt_ok_invalidated) (auto simp: rt_ok_def same_unicast_def)

lemma addMulticastRoute_preserves:
  assumes "rt_ok ift t" "addMulticastRoute ift p m t = Inr t'" "p \<notin> fst ` set (multicastRoutes t)" "p < next_route t"
  shows "rt_ok ift t'"
proof -
  obtain t1 where t1: "internalAddMulticastRoute ift p m t = Inr t1"
    "t' = fireRoute [NF_IPv4_MROUTE_ADDED p] (invalidateCache t1)"
    using assms(2) by (auto simp: addMulticastRoute_def)
  have "mroutes_ok t" using assms(1) by (simp add: rt_ok_def)
  from internalAddMulticastRoute_ok[OF this t1(1) assms(3,4)] show ?thesis
    unfolding t1(2) rt_ok_fire using invalidated_preserves[OF assms(1), of t1] by simp
qed

lemma mremoved_preserves:
  "rt_ok ift t \<Longrightarrow> rt_ok ift (invalidateCache (t\<lparr>multicastRoutes := filter P (multicastRoutes t)\<rparr>))"
  by (rule invalidated_preserves) (auto simp: rt_ok_def mremoved_ok same_unicast_def)

lemma removeMulticastRoute_preserves:
  assumes "rt_ok ift t" "removeMulticastRoute p t = Inr (x, t')"
  shows "rt_ok ift t'"
proof -
  note e = internalRemoveMulticastRoute_eq[of t p]
  show ?thesis
  proof (cases "map_of (multicastRoutes t) p")
    case None
    then have "t' = t" using assms(2) by (auto simp: removeMulticastRoute_def internalRemoveMulticastRoute_def)
    then show ?thesis using assms(1) by simp
  next
    case (Some r)
    then show ?thesis using assms e mremoved_preserves[OF assms(1)]
      by (auto simp: removeMulticastRoute_def ASSERT_eq_Inr rt_ok_def[of ift t])
  qed
qed

lemma deleteMulticastRoute_preserves:
  assumes "rt_ok ift t" "deleteMulticastRoute p t = Inr (b, t')"
  shows "rt_ok ift t'"
proof -
  note e = internalRemoveMulticastRoute_eq[of t p]
  show ?thesis
  proof (cases "map_of (multicastRoutes t) p")
    case None
    then have "t' = t" using assms(2) by (auto simp: deleteMulticastRoute_def internalRemoveMulticastRoute_def)
    then show ?thesis using assms(1) by simp
  next
    case (Some r)
    then show ?thesis using assms e mremoved_preserves[OF assms(1)]
      by (auto simp: deleteMulticastRoute_def ASSERT_eq_Inr rt_ok_def[of ift t])
  qed
qed

text \<open>Changes of the interfaces of a route keep its key.\<close>

definition keeps_mkey :: "(IPv4MulticastRoute \<Rightarrow> IPv4MulticastRoute) \<Rightarrow> bool" where
  "keeps_mkey f \<longleftrightarrow> (\<forall>m. mr_originNetmask (f m) = mr_originNetmask m \<and> mr_origin (f m) = mr_origin m
     \<and> mr_group (f m) = mr_group m \<and> mr_metric (f m) = mr_metric m \<and> mr_inTable (f m) = mr_inTable m)"

lemma change_mroute_map: 
  "change_mroute ift field p f t =
     bind_res (deref (map_of (multicastRoutes t) p)) (\<lambda>m.
       let t = t\<lparr>multicastRoutes := map_key p f (multicastRoutes t)\<rparr>
       in if mr_inTable m then multicastRouteChanged ift p field t else Inr t)"
  by (simp add: change_mroute_def map_key_def)

lemma change_mroute_other:
  assumes "mroutes_ok t" "change_mroute ift field p f t = Inr t'" "keeps_mkey f"
    "field \<notin> {F_ORIGIN, F_ORIGINMASK, F_MULTICASTGROUP, F_MR_METRIC}"
  shows "mroutes_ok t' \<and> same_unicast t t' \<and> map fst (multicastRoutes t') = map fst (multicastRoutes t)"
proof -
  let ?t = "t\<lparr>multicastRoutes := map_key p f (multicastRoutes t)\<rparr>"
  have "mroutes_ok ?t"
    using vec_ok_map_key[of multicastRouteLessThan mroute_ok "next_route t" "multicastRoutes t" f p] assms(1,3)
    by (simp add: mroutes_ok_def keeps_mkey_def multicastRouteLessThan_def mroute_ok_def)
  moreover have "t' = ?t \<or> t' = fireRoute [NF_IPv4_MROUTE_CHANGED p] ?t"
    using assms(2,4) by (auto simp: change_mroute_map multicastRouteChanged_def Let_def split: if_splits)
  ultimately show ?thesis
    by (auto simp: same_unicast_def)
qed

lemma change_mroute_key:
  assumes "rt_ok ift t" "change_mroute ift field p f t = Inr t'"
    "field \<in> {F_ORIGIN, F_ORIGINMASK, F_MULTICASTGROUP, F_MR_METRIC}"
  shows "rt_ok ift t'"
proof -
  let ?t0 = "t\<lparr>multicastRoutes := filter (\<lambda>e. fst e \<noteq> p) (multicastRoutes t)\<rparr>"
  let ?t1 = "t\<lparr>multicastRoutes := map_key p f (multicastRoutes t)\<rparr>"
  have ok: "mroutes_ok t" using assms(1) by (simp add: rt_ok_def)
  obtain m where m: "map_of (multicastRoutes t) p = Some m"
    "(if mr_inTable m then multicastRouteChanged ift p field ?t1 else Inr ?t1) = Inr t'"
    using assms(2) by (auto simp: change_mroute_map Let_def)
  have dist: "distinct (map fst (multicastRoutes t))" and in_t: "mr_inTable m" and p: "p < next_route t"
    using ok map_of_SomeD[OF m(1)] by (auto simp: mroutes_ok_def vec_ok_def mroute_ok_def)
  have "internalRemoveMulticastRoute p ?t1 = (Some (f m), ?t0)"
    using m(1) remove1_map_key[OF dist m(1), of f] by (simp add: internalRemoveMulticastRoute_def map_of_map_key)
  then obtain t2 where t2: "internalAddMulticastRoute ift p (f m) ?t0 = Inr t2"
    "t' = fireRoute [NF_IPv4_MROUTE_CHANGED p] (invalidateCache t2)"
    using assms(3) m(2) in_t by (auto simp: multicastRouteChanged_def)
  have "mroutes_ok t2 \<and> same_unicast ?t0 t2"
    using internalAddMulticastRoute_ok[OF mremoved_ok[OF ok] t2(1)] p by auto
  then have "mroutes_ok t2" "same_unicast t t2" by (simp_all add: same_unicast_def)
  then show ?thesis using invalidated_preserves[OF assms(1)] by (simp add: t2(2))
qed

section \<open>Changes of the interfaces\<close>

lemma drop_routes_eq:
  "drop_routes P it ev xs = Inr (ys, evs) \<Longrightarrow>
   ys = filter (\<lambda>e. \<not> P (snd e)) xs \<and> evs = map (ev \<circ> fst) (filter (\<lambda>e. P (snd e)) xs)"
  by (induction P it ev xs arbitrary: ys evs rule: drop_routes.induct) (auto simp: ASSERT_eq_Inr split: if_splits)

lemma purge_preserves:
  assumes "rt_ok ift t" "purge t = Inr t'"
  shows "rt_ok ift t'"
proof -
  let ?rs = "filter (\<lambda>e. \<not> \<not> rt_valid (snd e)) (routes t)"
  let ?ms = "filter (\<lambda>e. \<not> \<not> mr_valid (snd e)) (multicastRoutes t)"
  let ?t = "t\<lparr>routes := ?rs, multicastRoutes := ?ms\<rparr>"
  obtain evs evs' where e: "evs = map (NF_IPv4_ROUTE_DELETED \<circ> fst) (filter (\<lambda>e. \<not> rt_valid (snd e)) (routes t))"
    "evs' = map (NF_IPv4_MROUTE_DELETED \<circ> fst) (filter (\<lambda>e. \<not> mr_valid (snd e)) (multicastRoutes t))"
    "t' = (if evs @ evs' \<noteq> [] then invalidateCache (fireRoute (evs @ evs') ?t) else fireRoute (evs @ evs') ?t)"
    using assms(2) by (auto simp: purge_def Let_def dest!: drop_routes_eq)
  have ok: "routes_ok ?t" "mroutes_ok ?t" using assms(1) by (auto simp: rt_ok_def routes_ok_def mroutes_ok_def vec_ok_filter)
  show ?thesis
  proof (cases "evs @ evs' = []")
    case True
    then have "\<forall>x \<in> set (routes t). rt_valid (snd x)" "\<forall>x \<in> set (multicastRoutes t). mr_valid (snd x)"
      using e(1,2) by (auto simp: filter_empty_conv)
    then have "?rs = routes t" "?ms = multicastRoutes t" by (auto simp: filter_id_conv)
    then have "?t = t" by simp
    then show ?thesis using True e(3) assms(1) by simp
  next
    case False
    then show ?thesis
      using e(3) ok by (simp add: rt_ok_invalidated)
  qed
qed

lemma drop_interface_ok:
  "mroutes_ok t \<Longrightarrow> drop_interface ift i ps t = Inr (c, t') \<Longrightarrow> mroutes_ok t' \<and> same_unicast t t'"
proof (induction ift i ps t arbitrary: c t' rule: drop_interface.induct)
  case (2 ift i p ps t)
  obtain m ch t1 c' where r: "map_of (multicastRoutes t) p = Some m"
    "(if inInterface m = Some i then
          ASSERT (mr_inTable m)
            (Inr (True, fireRoute [NF_IPv4_MROUTE_DELETED p]
               (t\<lparr>multicastRoutes := remove1 (p, m) (multicastRoutes t)\<rparr>)))
        else
          bind_res (removeOutInterface ift p i t) (\<lambda>(removed, t).
            Inr (removed, if removed then fireRoute [NF_IPv4_MROUTE_CHANGED p] t else t))) = Inr (ch, t1)"
    "drop_interface ift i ps t1 = Inr (c', t')"
    using "2.prems"(2) by (auto simp del: bind_res_eq_Inr simp: bind_res_def split: sum.splits option.splits prod.splits if_splits)
  have "mroutes_ok t1 \<and> same_unicast t t1"
  proof (cases "inInterface m = Some i")
    case True
    have "distinct (map fst (multicastRoutes t))" using "2.prems"(1) by (simp add: mroutes_ok_def vec_ok_def)
    then have "t1 = fireRoute [NF_IPv4_MROUTE_DELETED p]
        (t\<lparr>multicastRoutes := filter (\<lambda>e. fst e \<noteq> p) (multicastRoutes t)\<rparr>)"
      using True r(2) remove1_key[OF _ map_of_SomeD[OF r(1)]] by (auto simp: ASSERT_eq_Inr)
    then show ?thesis using mremoved_ok[OF "2.prems"(1)] by (simp add: same_unicast_def)
  next
    case False
    then obtain b t2 where b: "removeOutInterface ift p i t = Inr (b, t2)"
      "t1 = (if b then fireRoute [NF_IPv4_MROUTE_CHANGED p] t2 else t2)" using r(2) by auto
    have "mroutes_ok t2 \<and> same_unicast t t2"
    proof (cases b)
      case True
      then have "change_mroute ift F_OUT p (\<lambda>m. m\<lparr>outInterfaces := remove_out i (outInterfaces m)\<rparr>) t = Inr t2"
        using b(1) by (auto simp: removeOutInterface_def split: if_splits)
      from change_mroute_other[OF "2.prems"(1) this] show ?thesis by (simp add: keeps_mkey_def)
    next
      case False
      then show ?thesis using b(1) "2.prems"(1) by (auto simp: removeOutInterface_def split: if_splits)
    qed
    then show ?thesis
      using b(2) by (simp add: same_unicast_def)
  qed
  moreover have "deref (map_of (multicastRoutes t) p) = Inr m" using r(1) by simp
  ultimately have "mroutes_ok t' \<and> same_unicast t1 t'" "same_unicast t t1"
    using "2.IH"[OF _ r(2) refl _ r(3)] by auto
  then show ?case using same_unicast_trans by blast
qed simp


lemma deleteInterfaceRoutes_preserves:
  assumes "rt_ok ift t" "deleteInterfaceRoutes ift i t = Inr t'"
  shows "rt_ok ift t'"
proof -
  let ?P = "\<lambda>e. rt_interface (snd e) = Some i"
  obtain evs c t1 where e: "evs = map (NF_IPv4_ROUTE_DELETED \<circ> fst) (filter ?P (routes t))"
    "drop_interface ift i (map fst (multicastRoutes t))
       (fireRoute evs (t\<lparr>routes := filter (\<lambda>e. \<not> ?P e) (routes t)\<rparr>)) = Inr (c, t1)"
    "t' = (if evs \<noteq> [] \<or> c then invalidateCache t1 else t1)"
    using assms(2) by (auto simp: deleteInterfaceRoutes_def simp del: comp_apply dest!: drop_routes_eq)
  let ?t0 = "fireRoute evs (t\<lparr>routes := filter (\<lambda>e. \<not> ?P e) (routes t)\<rparr>)"
  have "mroutes_ok ?t0" "routes_ok ?t0"
    using assms(1) mroutes_ok_cong[of "t\<lparr>routes := filter (\<lambda>e. \<not> ?P e) (routes t)\<rparr>" t]
    by (auto simp: rt_ok_def removed_ok)
  then have t1: "mroutes_ok t1" "same_unicast ?t0 t1" "routes_ok t1"
    using drop_interface_ok[OF _ e(2)] routes_ok_cong[of t1 ?t0] by (auto simp: same_unicast_def)
  show ?thesis
  proof (cases "evs \<noteq> [] \<or> c")
    case True
    then show ?thesis using e(3) t1(1,3) by (simp add: rt_ok_invalidated)
  next
    case False
    then have "filter (\<lambda>e. \<not> ?P e) (routes t) = routes t"
      using e(1) by (auto simp: filter_empty_conv filter_id_conv)
    then have "same_unicast t t1" using t1(2) by (simp add: same_unicast_def)
    then show ?thesis using False e(3) same_unicast_preserves[OF assms(1) _ t1(1)] by simp
  qed
qed

text \<open>The netmasks that interfaces are configured with.\<close>

definition masks_ok :: "InterfaceTable \<Rightarrow> bool" where
  "masks_ok ift \<longleftrightarrow> (\<forall>ie \<in> set (interfaces ift). \<forall>d. ipv4data ie = Some d \<longrightarrow> isValidNetmask (if_netmask d))"

lemma add_netmask_route_ok:
  assumes "routes_ok t \<and> mroutes_ok t" "add_netmask_route ie t = Inr t'"
    and "\<forall>d. ipv4data ie = Some d \<longrightarrow> isValidNetmask (if_netmask d)"
  shows "routes_ok t' \<and> mroutes_ok t'"
proof (cases "\<exists>d. ipv4data ie = Some d \<and> if_netmask d \<noteq> ALLONES_ADDRESS")
  case True
  then obtain d where d: "ipv4data ie = Some d" "if_netmask d \<noteq> ALLONES_ADDRESS" by blast
  let ?p = "next_route t"
  have "(inetAddr d AND if_netmask d) AND NOT (if_netmask d) = 0"
    by (rule bit_word_eqI) (simp add: bit_simps)
  then have ok: "route_ok (netmask_route ie d)"
    using assms(3) d(1) by (simp add: route_ok_def netmask_route_def)
  have p: "vec_ok routeLessThan route_ok (?p + 1) (routes t)" "?p \<notin> fst ` set (routes t)"
    using assms(1) vec_ok_mono[of _ _ ?p _ "?p + 1"] by (auto simp: routes_ok_def vec_ok_def)
  obtain rs where rs: "insert_sorted routeLessThan (?p, netmask_route ie d) (routes t) = Inr rs"
    "vec_ok routeLessThan route_ok (?p + 1) rs"
    using unicast.vec_ok_insert[OF p(1,2) _ ok] by auto
  then have "t' = fireRoute [NF_IPv4_ROUTE_ADDED ?p] (t\<lparr>routes := rs, next_route := ?p + 1\<rparr>)"
    using assms(2) d by (simp add: add_netmask_route_def Let_def)
  then show ?thesis
    using rs(2) assms(1) vec_ok_mono[of multicastRouteLessThan mroute_ok ?p "multicastRoutes t" "?p + 1"]
    by (simp add: routes_ok_def mroutes_ok_def)
next
  case False
  then have "t' = t" using assms(2) by (auto simp: add_netmask_route_def split: option.splits)
  then show ?thesis using assms(1) by simp
qed

lemma updateNetmaskRoutes_ok:
  assumes "routes_ok t" "mroutes_ok t" "masks_ok ift" "updateNetmaskRoutes ift t = Inr t'"
  shows "rt_ok ift t'"
proof -
  obtain rs evs t1 where e: "rs = filter (\<lambda>e. rt_sourceType (snd e) \<noteq> IFACENETMASK) (routes t)"
    "fold_res add_netmask_route (interfaces ift) (fireRoute evs (t\<lparr>routes := rs\<rparr>)) = Inr t1"
    "t' = invalidateCache t1"
    using assms(4) by (auto simp: updateNetmaskRoutes_def dest!: drop_routes_eq)
  let ?t0 = "fireRoute evs (t\<lparr>routes := rs\<rparr>)"
  have t0: "routes_ok ?t0 \<and> mroutes_ok ?t0"
    using assms(1,2) mroutes_ok_cong[of "t\<lparr>routes := rs\<rparr>" t] removed_ok by (simp add: e(1))
  have "routes_ok t1 \<and> mroutes_ok t1"
  proof (rule fold_res_invariant[where P = "\<lambda>t. routes_ok t \<and> mroutes_ok t", OF _ t0 e(2)])
    fix ie s s' assume "ie \<in> set (interfaces ift)" "routes_ok s \<and> mroutes_ok s" "add_netmask_route ie s = Inr s'"
    then show "routes_ok s' \<and> mroutes_ok s'"
      using add_netmask_route_ok assms(3) unfolding masks_ok_def by blast
  qed
  then show ?thesis by (simp add: e(3) rt_ok_invalidated)
qed

lemma receiveChangeNotification_preserves:
  assumes "rt_ok ift t" "masks_ok ift" "receiveChangeNotification initializing ift n t = Inr t'"
  shows "rt_ok ift t'"
  using assms updateNetmaskRoutes_ok[of t ift t'] deleteInterfaceRoutes_preserves[of ift t _ t']
    rt_ok_invalidated[of t ift]
  by (cases n) (auto simp: receiveChangeNotification_def rt_ok_def split: if_splits)

section \<open>Reachable tables\<close>

text \<open>
  The operations that other modules call on the table of a node, and the interfaces of the node that
  it looks at. A route is added under a pointer that a \<^verbatim>\<open>new\<close> has returned (\<open>Make_route\<close>).
  \<open>Reconfigure\<close> is a change of the IPv4 configuration of the interfaces, which the table is notified
  of. Not among the steps is changing the administrative distance of a route in the table.
\<close>

inductive rt_step :: "InterfaceTable \<times> RoutingTable \<Rightarrow> InterfaceTable \<times> RoutingTable \<Rightarrow> bool" where
  Make_route: "rt_step (ift, t) (ift, t\<lparr>next_route := next_route t + 1\<rparr>)"
| Add: "p \<notin> fst ` set (routes t) \<Longrightarrow> p < next_route t \<Longrightarrow> addRoute p r t = Inr t' \<Longrightarrow> rt_step (ift, t) (ift, t')"
| Remove: "removeRoute p t = Inr (x, t') \<Longrightarrow> rt_step (ift, t) (ift, t')"
| Delete: "deleteRoute p t = Inr (b, t') \<Longrightarrow> rt_step (ift, t) (ift, t')"
| Set_destination: "setDestination p a t = Inr t' \<Longrightarrow> rt_step (ift, t) (ift, t')"
| Set_netmask: "setNetmask p a t = Inr t' \<Longrightarrow> rt_step (ift, t) (ift, t')"
| Set_gateway: "setGateway p a t = Inr t' \<Longrightarrow> rt_step (ift, t) (ift, t')"
| Set_interface: "setInterface p i t = Inr t' \<Longrightarrow> rt_step (ift, t) (ift, t')"
| Set_source_type: "setSourceType p s t = Inr t' \<Longrightarrow> rt_step (ift, t) (ift, t')"
| Set_source: "setSource p i t = Inr t' \<Longrightarrow> rt_step (ift, t) (ift, t')"
| Set_metric: "setMetric p m t = Inr t' \<Longrightarrow> rt_step (ift, t) (ift, t')"
| Expire: "rt_step (ift, t) (ift, expire p t)"
| Lookup: "findBestMatchingRoute dst t = Inr (best, t') \<Longrightarrow> rt_step (ift, t) (ift, t')"
| Is_local: "isLocalAddress ift dst t = Inr (b, t') \<Longrightarrow> rt_step (ift, t) (ift, t')"
| Is_local_broadcast: "isLocalBroadcastAddress ift dst t = Inr (b, t') \<Longrightarrow> rt_step (ift, t) (ift, t')"
| Purge: "purge t = Inr t' \<Longrightarrow> rt_step (ift, t) (ift, t')"
| Notify: "masks_ok ift \<Longrightarrow> receiveChangeNotification initializing ift n t = Inr t' \<Longrightarrow> rt_step (ift, t) (ift, t')"
| Reconfigure: "masks_ok ift' \<Longrightarrow> receiveChangeNotification False ift' NF_IPv4CONFIG_CHANGED t = Inr t'
    \<Longrightarrow> rt_step (ift, t) (ift', t')"
| Add_multicast: "p \<notin> fst ` set (multicastRoutes t) \<Longrightarrow> p < next_route t \<Longrightarrow> addMulticastRoute ift p m t = Inr t'
    \<Longrightarrow> rt_step (ift, t) (ift, t')"
| Remove_multicast: "removeMulticastRoute p t = Inr (y, t') \<Longrightarrow> rt_step (ift, t) (ift, t')"
| Delete_multicast: "deleteMulticastRoute p t = Inr (b, t') \<Longrightarrow> rt_step (ift, t) (ift, t')"
| Set_origin: "setOrigin ift p a t = Inr t' \<Longrightarrow> rt_step (ift, t) (ift, t')"
| Set_origin_netmask: "setOriginNetmask ift p a t = Inr t' \<Longrightarrow> rt_step (ift, t) (ift, t')"
| Set_group: "setMulticastGroup ift p a t = Inr t' \<Longrightarrow> rt_step (ift, t) (ift, t')"
| Set_multicast_metric: "setMulticastMetric ift p k t = Inr t' \<Longrightarrow> rt_step (ift, t) (ift, t')"
| Set_in_interface: "setInInterface ift p i t = Inr t' \<Longrightarrow> rt_step (ift, t) (ift, t')"
| Set_multicast_source_type: "setMulticastSourceType ift p src t = Inr t' \<Longrightarrow> rt_step (ift, t) (ift, t')"
| Clear_outputs: "clearOutInterfaces ift p t = Inr t' \<Longrightarrow> rt_step (ift, t) (ift, t')"
| Add_output: "addOutInterface ift p oi t = Inr t' \<Longrightarrow> rt_step (ift, t) (ift, t')"
| Remove_output: "removeOutInterface ift p k t = Inr (b, t') \<Longrightarrow> rt_step (ift, t) (ift, t')"

inductive rt_reachable :: "InterfaceTable \<Rightarrow> RoutingTable \<Rightarrow> bool" where
  init: "rt_reachable ift (new_RoutingTable fwd mcast)"
| step: "rt_reachable ift t \<Longrightarrow> rt_step (ift, t) (ift', t') \<Longrightarrow> rt_reachable ift' t'"

lemma set_mroute_field_key:
  "rt_ok ift t \<Longrightarrow> set_mroute_field ift fld upd field p v t = Inr t' \<Longrightarrow>
   field \<in> {F_ORIGIN, F_ORIGINMASK, F_MULTICASTGROUP, F_MR_METRIC} \<Longrightarrow> rt_ok ift t'"
  using change_mroute_key[of ift t field p "upd v" t'] by (auto simp: set_mroute_field_def split: if_splits)

lemma change_mroute_other_preserves:
  "rt_ok ift t \<Longrightarrow> change_mroute ift field p f t = Inr t' \<Longrightarrow> keeps_mkey f \<Longrightarrow>
   field \<notin> {F_ORIGIN, F_ORIGINMASK, F_MULTICASTGROUP, F_MR_METRIC} \<Longrightarrow> rt_ok ift t'"
  using change_mroute_other[of t ift field p f t'] same_unicast_preserves[of ift t t'] by (auto simp: rt_ok_def)

lemma rt_step_preserves:
  assumes "rt_step (ift, t) (ift', t')" "rt_ok ift t"
  shows "rt_ok ift' t'"
  using assms(1)
proof (cases rule: rt_step.cases)
  case Make_route
  then show ?thesis
    using assms(2) vec_ok_mono[of routeLessThan route_ok "next_route t" "routes t" "next_route t + 1"]
      vec_ok_mono[of multicastRouteLessThan mroute_ok "next_route t" "multicastRoutes t" "next_route t + 1"]
      cache_ok_cong[of t' t] local_ok_cong[of t' t ift]
    by (simp add: rt_ok_def routes_ok_def mroutes_ok_def)
next
  case Set_gateway
  then show ?thesis
    using set_route_field_other[OF assms(2), of rt_gateway] by (simp add: setGateway_def keeps_key_def)
next
  case Set_interface
  then show ?thesis
    using set_route_field_other[OF assms(2), of rt_interface] by (simp add: setInterface_def keeps_key_def)
next
  case Set_source_type
  then show ?thesis
    using set_route_field_other[OF assms(2), of rt_sourceType] by (simp add: setSourceType_def keeps_key_def)
next
  case Set_source
  then show ?thesis
    using set_route_field_other[OF assms(2), of rt_source] by (simp add: setSource_def keeps_key_def)
next
  case Lookup
  then show ?thesis using lookup_ok[OF assms(2)] by (metis Inr_inject prod.inject)
next
  case Reconfigure
  then show ?thesis
    using assms(2) updateNetmaskRoutes_ok by (auto simp: receiveChangeNotification_def rt_ok_def[of ift])
next
  case Set_in_interface
  then show ?thesis
    using assms(2) change_mroute_other_preserves[OF assms(2)]
    by (auto simp: setInInterface_def keeps_mkey_def split: if_splits)
next
  case Set_multicast_source_type
  then show ?thesis
    using assms(2) change_mroute_other_preserves[OF assms(2)]
    by (auto simp: setMulticastSourceType_def set_mroute_field_def keeps_mkey_def split: if_splits)
next
  case Clear_outputs
  then show ?thesis
    using assms(2) change_mroute_other_preserves[OF assms(2)]
    by (auto simp: clearOutInterfaces_def keeps_mkey_def split: if_splits)
next
  case Add_output
  then show ?thesis
    using change_mroute_other_preserves[OF assms(2)] by (auto simp: addOutInterface_def keeps_mkey_def)
next
  case Remove_output
  then show ?thesis
    using assms(2) change_mroute_other_preserves[OF assms(2)]
    by (auto simp: removeOutInterface_def keeps_mkey_def split: if_splits)
qed (use assms(2) in \<open>auto simp: setDestination_def setNetmask_def setMetric_def setOrigin_def setOriginNetmask_def
    setMulticastGroup_def setMulticastMetric_def
    intro: addRoute_preserves removeRoute_preserves deleteRoute_preserves set_route_field_key expire_preserves
      isLocalAddress_preserves isLocalBroadcastAddress_preserves purge_preserves
      receiveChangeNotification_preserves addMulticastRoute_preserves removeMulticastRoute_preserves
      deleteMulticastRoute_preserves set_mroute_field_key\<close>)

lemma rt_reachable_ok: "rt_reachable ift t \<Longrightarrow> rt_ok ift t"
proof (induction rule: rt_reachable.induct)
  case (init ift fwd mcast)
  then show ?case
    by (simp add: rt_ok_def routes_ok_def mroutes_ok_def vec_ok_def table_sorted_def cache_ok_def local_ok_def
        new_RoutingTable_def)
next
  case (step ift t ift' t')
  then show ?case using rt_step_preserves by blast
qed

section \<open>What a lookup returns\<close>

text \<open>Two routes with the same netmask that both match have the same destination.\<close>

lemma same_mask_same_dest:
  assumes "route_ok r" "route_ok s" "route_matches a r" "route_matches a s" "rt_netmask r = rt_netmask s"
  shows "rt_dest r = rt_dest s"
proof -
  have d: "rt_dest x AND rt_netmask x = rt_dest x" if "route_ok x" for x
  proof -
    have "rt_dest x AND NOT (rt_netmask x) = 0" using that by (simp add: route_ok_def)
    then show ?thesis by (auto simp: bit_eq_iff bit_simps)
  qed
  have "a AND rt_netmask x = rt_dest x AND rt_netmask x" if "route_matches a x" for x
    using that by (simp add: route_matches_def maskedAddrAreEqual_def and_eq_iff_xor)
  then show ?thesis using assms d by metis
qed

definition better_route :: "IPv4Route \<Rightarrow> IPv4Route \<Rightarrow> bool" where
  "better_route r s \<longleftrightarrow> getNetmaskLength (rt_netmask s) < getNetmaskLength (rt_netmask r)
     \<or> rt_netmask s = rt_netmask r \<and> (rt_adminDist r < rt_adminDist s
          \<or> rt_adminDist r = rt_adminDist s \<and> rt_metric r \<le> rt_metric s)"

lemma not_less_better:
  assumes "route_ok r" "route_ok s" "route_matches a r" "route_matches a s" "\<not> routeLessThan s r"
  shows "better_route r s"
proof (cases "rt_netmask r = rt_netmask s")
  case True
  then show ?thesis
    using assms(5) same_mask_same_dest[OF assms(1-4) True]
    by (auto simp: better_route_def routeLessThan_def split: if_splits)
next
  case False
  then have "rt_netmask s < rt_netmask r" using assms(5) by (auto simp: routeLessThan_def)
  then show ?thesis
    using assms(1,2) netmask_less_length by (auto simp: better_route_def route_ok_def)
qed

lemma search_is_best:
  assumes "rt_ok ift t"
  shows "case search_routes dst t of
       None \<Rightarrow> \<forall>(q, s) \<in> set (routes t). \<not> route_matches dst s
     | Some p \<Rightarrow> \<exists>r. (p, r) \<in> set (routes t) \<and> route_matches dst r \<and>
         (\<forall>(q, s) \<in> set (routes t). route_matches dst s \<longrightarrow> better_route r s)"
proof (cases "find_first (\<lambda>e. route_matches dst (snd e)) (routes t)")
  case None
  then have "search_routes dst t = None" by (simp add: search_routes_def)
  then show ?thesis using None by (auto simp: find_first_None)
next
  case (Some e)
  have rs: "table_sorted routeLessThan (routes t)" "\<forall>(p, r) \<in> set (routes t). route_ok r"
    using assms by (auto simp: rt_ok_def routes_ok_def vec_ok_def)
  obtain p r where e: "e = (p, r)" by (cases e)
  have b: "(p, r) \<in> set (routes t)" "route_matches dst r"
    "\<forall>y \<in> set (routes t). route_matches dst (snd y) \<longrightarrow> \<not> routeLessThan (snd y) r"
    using unicast.first_is_best[OF rs(1) Some] e by auto
  have "better_route r s" if "(q, s) \<in> set (routes t)" "route_matches dst s" for q s
    using not_less_better[of r s dst] bspec[OF rs(2) b(1)] bspec[OF rs(2) that(1)] b(2,3) that by auto
  moreover have "search_routes dst t = Some p" using Some e by (simp add: search_routes_def)
  ultimately show ?thesis using b(1,2) by auto
qed


definition sample_route :: "IPv4Address \<Rightarrow> IPv4Address \<Rightarrow> int \<Rightarrow> IPv4Route" where
  "sample_route a m i = new_IPv4Route\<lparr>rt_dest := a, rt_netmask := m, rt_interface := Some i,
     rt_adminDist := 1, rt_metric := 1\<rparr>"

text \<open>A node with routes to 10.0.0.0/8 and to 10.1.0.0/16.\<close>

definition sample_table :: RoutingTable where
  "sample_table = fireRoute [NF_IPv4_ROUTE_ADDED 0, NF_IPv4_ROUTE_ADDED 1]
     ((new_RoutingTable True False)\<lparr>next_route := 2,
        routes := [(1, (sample_route 0x0A010000 0xFFFF0000 101)\<lparr>rt_inTable := True\<rparr>),
          (0, (sample_route 0x0A000000 0xFF000000 100)\<lparr>rt_inTable := True\<rparr>)]\<rparr>)"

lemma sample_masks: "isValidNetmask 0xFFFF0000" "isValidNetmask 0xFF000000"
proof -
  show "isValidNetmask 0xFFFF0000" by (rule valid_mask[of 16]) (simp_all add: raw_makeNetmask_def)
  show "isValidNetmask 0xFF000000" by (rule valid_mask[of 8]) (simp_all add: raw_makeNetmask_def)
qed

lemmas add_simps = addRoute_def internalAddRoute_def sample_route_def new_IPv4Route_def ip_isUnspecified_def
  insert_sorted_def upper_bound_def insert_at_def new_RoutingTable_def fireRoute_def invalidateCache_def
  routeLessThan_def

lemma two_pointers: "rt_reachable ift ((new_RoutingTable fwd mcast)\<lparr>next_route := 2\<rparr>)"
proof -
  let ?n = "new_RoutingTable fwd mcast"
  have "rt_reachable ift (?n\<lparr>next_route := next_route ?n + 1\<rparr>)"
    by (rule rt_reachable.step[OF rt_reachable.init rt_step.Make_route])
  from rt_reachable.step[OF this rt_step.Make_route] show ?thesis
    by (simp add: new_RoutingTable_def numeral_2_eq_2)
qed

lemma reachable_add:
  "rt_reachable ift t \<Longrightarrow> addRoute p r t = Inr t' \<Longrightarrow> p \<notin> fst ` set (routes t) \<Longrightarrow> p < next_route t \<Longrightarrow>
   rt_reachable ift t'"
  by (rule rt_reachable.step[OF _ rt_step.Add])

lemma sample_reachable: "rt_reachable ift sample_table"
proof -
  let ?t2 = "(new_RoutingTable True False)\<lparr>next_route := 2\<rparr>"
  let ?t3 = "fireRoute [NF_IPv4_ROUTE_ADDED 0]
      (?t2\<lparr>routes := [(0, (sample_route 0x0A000000 0xFF000000 100)\<lparr>rt_inTable := True\<rparr>)]\<rparr>)"
  have 3: "addRoute 0 (sample_route 0x0A000000 0xFF000000 100) ?t2 = Inr ?t3"
    using sample_masks by (simp add: add_simps)
  have "rt_reachable ift ?t3" by (rule reachable_add[OF two_pointers 3]) (simp_all add: new_RoutingTable_def)
  moreover have "addRoute 1 (sample_route 0x0A010000 0xFFFF0000 101) ?t3 = Inr sample_table"
    using sample_masks by (simp add: add_simps sample_table_def)
  ultimately show ?thesis by (rule reachable_add) (simp_all add: new_RoutingTable_def)
qed


text \<open>
  C28: The cache makes no difference: what a lookup returns is the search through the table, also for any
  address that is looked up afterwards.
\<close>

theorem cached_lookup_agrees:
  assumes "rt_reachable ift t"
  shows "\<exists>t'. findBestMatchingRoute dst t = Inr (search_routes dst t, t')
    \<and> (\<exists>t''. findBestMatchingRoute dst' t' = Inr (search_routes dst' t, t''))"
proof -
  obtain t' where t': "findBestMatchingRoute dst t = Inr (search_routes dst t, t')" "rt_ok ift t'"
    "routes t' = routes t"
    using lookup_ok[OF rt_reachable_ok[OF assms], of dst] by auto
  then show ?thesis using lookup_ok[OF t'(2), of dst'] search_routes_cong[OF t'(3)] by auto
qed

theorem cached_lookup_agrees_witness:
  "\<exists>t'. findBestMatchingRoute 0x0A010203 sample_table = Inr (search_routes 0x0A010203 sample_table, t')
    \<and> (\<exists>t''. findBestMatchingRoute 0x0A010203 t' = Inr (search_routes 0x0A010203 sample_table, t''))"
  by (rule cached_lookup_agrees[OF sample_reachable])


definition sample_interface :: "IPv4Address \<Rightarrow> IPv4Address \<Rightarrow> InterfaceEntry" where
  "sample_interface a m = \<lparr>if_name = ''eth0'', interfaceId = 100, nwLayerGateIndex = 0, mtu = 1500,
     if_broadcast = False, if_multicast = True, if_loopback = False, macAddr = 0,
     ipv4data = Some (new_IPv4InterfaceData\<lparr>inetAddr := a, if_netmask := m\<rparr>)\<rparr>"


section \<open>Two ways to outdated answers\<close>

text \<open>
  A change of the administrative distance of a route in the table leaves the route where it is: the
  lookup then returns a route although one with the same prefix has a smaller distance.
\<close>

theorem admin_distance_not_resorted:
  "\<exists>t t' t'' r s. rt_reachable [] t \<and> setAdminDist 0 200 t = Inr t'
    \<and> findBestMatchingRoute 0x0A010203 t' = Inr (Some 0, t'')
    \<and> routes t' = [(0, r), (1, s)] \<and> route_matches 0x0A010203 s
    \<and> rt_netmask s = rt_netmask r \<and> rt_adminDist s < rt_adminDist r"
proof -
  let ?r = "\<lambda>d. (sample_route 0x0A000000 0xFF000000 100)\<lparr>rt_adminDist := d\<rparr>"
  let ?i = "\<lambda>d. (?r d)\<lparr>rt_inTable := True\<rparr>"
  let ?t2 = "(new_RoutingTable True False)\<lparr>next_route := 2\<rparr>"
  let ?t3 = "fireRoute [NF_IPv4_ROUTE_ADDED 0] (?t2\<lparr>routes := [(0, ?i 1)]\<rparr>)"
  let ?t4 = "fireRoute [NF_IPv4_ROUTE_ADDED 1] (?t3\<lparr>routes := [(0, ?i 1), (1, ?i 2)]\<rparr>)"
  let ?t5 = "fireRoute [NF_IPv4_ROUTE_CHANGED 0] (?t4\<lparr>routes := [(0, ?i 200), (1, ?i 2)]\<rparr>)"
  have 3: "addRoute 0 (?r 1) ?t2 = Inr ?t3" using sample_masks by (simp add: add_simps)
  have "rt_reachable [] ?t3" by (rule reachable_add[OF two_pointers 3]) (simp_all add: new_RoutingTable_def)
  moreover have "addRoute 1 (?r 2) ?t3 = Inr ?t4" using sample_masks by (simp add: add_simps)
  ultimately have 4: "rt_reachable [] ?t4" by (rule reachable_add) (simp_all add: new_RoutingTable_def)
  have 5: "setAdminDist 0 200 ?t4 = Inr ?t5"
    by (simp add: setAdminDist_def set_route_field_def update_route_def routeChanged_def sample_route_def
        new_IPv4Route_def fireRoute_def Let_def)
  have m: "route_matches 0x0A010203 (?i d)" for d
    by (simp add: route_matches_def sample_route_def new_IPv4Route_def maskedAddrAreEqual_def)
  have 6: "findBestMatchingRoute 0x0A010203 ?t5 = Inr (Some 0, ?t5\<lparr>routingCache := [(0x0A010203, Some 0)]\<rparr>)"
    using m[of 200] by (simp add: findBestMatchingRoute_def search_routes_def new_RoutingTable_def fireRoute_def Let_def)
  show ?thesis
  proof (intro exI conjI)
    show "rt_reachable [] ?t4" "setAdminDist 0 200 ?t4 = Inr ?t5" by (rule 4, rule 5)
    show "findBestMatchingRoute 0x0A010203 ?t5 = Inr (Some 0, ?t5\<lparr>routingCache := [(0x0A010203, Some 0)]\<rparr>)"
      by (rule 6)
    show "routes ?t5 = [(0, ?i 200), (1, ?i 2)]" by simp
    show "route_matches 0x0A010203 (?i 2)" by (rule m)
  qed simp_all
qed

text \<open>
  Deleting an interface without a route invalidates nothing: its address is still taken for one of
  the node, when it has been asked for before.
\<close>

theorem deleted_interface_still_local:
  "\<exists>t t' t'' ift'. isLocalAddress [Some (sample_interface 0x0A010203 ALLONES_ADDRESS)] 0x0A010203
        (new_RoutingTable True False) = Inr (True, t)
    \<and> receiveChangeNotification False [Some (sample_interface 0x0A010203 ALLONES_ADDRESS)]
        (NF_INTERFACE_DELETED 100) t = Inr t'
    \<and> deleteInterface (sample_interface 0x0A010203 ALLONES_ADDRESS)
        [Some (sample_interface 0x0A010203 ALLONES_ADDRESS)] = Inr ift'
    \<and> interfaces ift' = [] \<and> isLocalAddress ift' 0x0A010203 t' = Inr (True, t'')"
proof -
  let ?ift = "[Some (sample_interface 0x0A010203 ALLONES_ADDRESS)]"
  let ?t = "(new_RoutingTable True False)\<lparr>localAddresses := {0x0A010203}\<rparr>"
  have "isLocalAddress ?ift 0x0A010203 (new_RoutingTable True False) = Inr (True, ?t)"
    by (simp add: isLocalAddress_def sample_interface_def new_RoutingTable_def)
  moreover have "receiveChangeNotification False ?ift (NF_INTERFACE_DELETED 100) ?t = Inr ?t"
    by (simp add: receiveChangeNotification_def deleteInterfaceRoutes_def new_RoutingTable_def fireRoute_def)
  moreover have "deleteInterface (sample_interface 0x0A010203 ALLONES_ADDRESS) ?ift = Inr [None]"
    by (simp add: deleteInterface_def getInterfaceById_def INTERFACEIDS_START_def sample_interface_def Let_def)
  moreover have "isLocalAddress [None] 0x0A010203 ?t = Inr (True, ?t)" by (simp add: isLocalAddress_def)
  ultimately show ?thesis by (intro exI[of _ ?t] exI[of _ "[None]"]) simp
qed

end
