(* ===== verification/IPv4_Laws.thy ===== *)
theory IPv4_Laws
  imports IPv4_Module IPv4_Routing_Laws
begin

text \<open>
  How the IPv4 module sends: how a datagram leaves on an interface, whole or in fragments; the packets
  that wait for an address resolution; and the route that a unicast datagram takes.
\<close>

lemma fold_res_map: "fold_res f (map g xs) = fold_res (\<lambda>x. f (g x)) xs"
proof (induction xs)
  case Nil
  show ?case by (rule ext) simp
next
  case (Cons x xs)
  show ?case by (rule ext) (simp add: Cons.IH)
qed

lemma fold_res_single: "fold_res f [x] s = f x s"
  by (cases "f x s") simp_all

section \<open>Sending on an interface\<close>

definition is_lan :: "InterfaceEntry \<Rightarrow> bool" where
  "is_lan ie \<longleftrightarrow> if_broadcast ie \<and> \<not> mac_isUnspecified (macAddr ie)"

definition waiting :: "IPv4Address \<Rightarrow> 'p IPv4 \<Rightarrow> 'p IPv4Datagram list" where
  "waiting a s = (case map_of (pendingPackets s) a of None \<Rightarrow> [] | Some ds \<Rightarrow> ds)"

text \<open>The frames that go to the interface for datagrams sent to a MAC address, or to none.\<close>

fun frame :: "InterfaceEntry \<Rightarrow> MACAddress option \<Rightarrow> 'p IPv4Datagram \<Rightarrow> 'p ip_event" where
  "frame ie None d = To_NIC d (nwLayerGateIndex ie) None"
| "frame ie (Some mac) d = To_NIC (d\<lparr>dg_multicastLoop := None\<rparr>) (nwLayerGateIndex ie) (Some mac)"

text \<open>Datagrams that leave at once are frames in the output.\<close>

definition sends_now :: "'p ip_env \<Rightarrow> InterfaceEntry \<Rightarrow> IPv4Address \<Rightarrow> MACAddress option \<Rightarrow> 'p IPv4 \<Rightarrow> bool" where
  "sends_now env ie nh mac s \<longleftrightarrow>
     (if is_lan ie then \<not> ip_isUnspecified nh \<and> map_of (pendingPackets s) nh = None
        \<and> (\<exists>m. mac = Some m \<and> \<not> mac_isUnspecified m \<and> resolveNextHopMacAddress env nh ie = Inr m)
      else mac = None)"

lemma send_now:
  assumes "sends_now env ie nh mac s"
  shows "sendDatagramToOutput env d ie nh s = Inr (s\<lparr>ip_out := ip_out s @ [frame ie mac d]\<rparr>)"
proof (cases "is_lan ie")
  case True
  then obtain m where "mac = Some m" "\<not> mac_isUnspecified m" "resolveNextHopMacAddress env nh ie = Inr m"
    using assms by (auto simp: sends_now_def)
  then show ?thesis
    using assms True by (simp add: sends_now_def sendDatagramToOutput_def is_lan_def sendPacketToNIC_def ip_emit_def)
next
  case False
  then show ?thesis
    using assms by (simp add: sends_now_def sendDatagramToOutput_def is_lan_def sendPacketToNIC_def ip_emit_def)
qed

lemma sends_now_cong:
  "pendingPackets s' = pendingPackets s \<Longrightarrow> sends_now env ie nh mac s' = sends_now env ie nh mac s"
  by (simp add: sends_now_def)

lemma fold_send_now:
  "sends_now env ie nh mac s \<Longrightarrow>
   fold_res (\<lambda>x. sendDatagramToOutput env (f x) ie nh) xs s
     = Inr (s\<lparr>ip_out := ip_out s @ map (\<lambda>x. frame ie mac (f x)) xs\<rparr>)"
proof (induction xs arbitrary: s)
  case (Cons x xs)
  let ?t = "s\<lparr>ip_out := ip_out s @ [frame ie mac (f x)]\<rparr>"
  have "sends_now env ie nh mac ?t" using Cons.prems sends_now_cong[of ?t s] by simp
  from Cons.IH[OF this] show ?case by (simp add: send_now[OF Cons.prems])
qed simp

text \<open>Datagrams that have to wait for the address of the next hop.\<close>

definition must_wait :: "'p ip_env \<Rightarrow> InterfaceEntry \<Rightarrow> IPv4Address \<Rightarrow> bool" where
  "must_wait env ie nh \<longleftrightarrow> is_lan ie \<and> \<not> ip_isUnspecified nh
     \<and> (\<exists>m. mac_isUnspecified m \<and> resolveNextHopMacAddress env nh ie = Inr m)"

lemma send_waits:
  assumes "must_wait env ie nh"
  shows "sendDatagramToOutput env d ie nh s =
    Inr (s\<lparr>pendingPackets := put nh (waiting nh s @ [d]) (pendingPackets s),
           ip_out := ip_out s @ [Start_resolution nh (interfaceId ie)]\<rparr>)"
  using assms by (auto simp: must_wait_def sendDatagramToOutput_def is_lan_def ip_emit_def waiting_def)

lemma fold_send_waits:
  assumes "must_wait env ie nh"
  shows "\<exists>s'. fold_res (\<lambda>x. sendDatagramToOutput env (f x) ie nh) xs s = Inr s'
    \<and> ip_out s' = ip_out s @ replicate (length xs) (Start_resolution nh (interfaceId ie))
    \<and> map_of (pendingPackets s') =
        (if xs = [] then map_of (pendingPackets s)
         else (map_of (pendingPackets s))(nh \<mapsto> waiting nh s @ map f xs))"
proof (induction xs arbitrary: s)
  case (Cons x xs)
  define t where "t = s\<lparr>pendingPackets := put nh (waiting nh s @ [f x]) (pendingPackets s),
              ip_out := ip_out s @ [Start_resolution nh (interfaceId ie)]\<rparr>"
  have t: "ip_out t = ip_out s @ [Start_resolution nh (interfaceId ie)]" "waiting nh t = waiting nh s @ [f x]"
    "map_of (pendingPackets t) = (map_of (pendingPackets s))(nh \<mapsto> waiting nh s @ [f x])"
    by (simp_all add: t_def waiting_def)
  obtain s' where "fold_res (\<lambda>x. sendDatagramToOutput env (f x) ie nh) xs t = Inr s'"
    "ip_out s' = ip_out t @ replicate (length xs) (Start_resolution nh (interfaceId ie))"
    "map_of (pendingPackets s') = (if xs = [] then map_of (pendingPackets t)
       else (map_of (pendingPackets t))(nh \<mapsto> waiting nh t @ map f xs))"
    using Cons.IH by blast
  moreover have "sendDatagramToOutput env (f x) ie nh s = Inr t"
    unfolding t_def by (rule send_waits[OF assms])
  ultimately show ?case using t by (intro exI[of _ s']) (auto simp: fun_eq_iff)
qed simp

text \<open>
  Datagrams for a next hop whose MAC address is not known wait, behind those that wait already. When
  the address is resolved all of them leave, to that address and in the order in which they came;
  nothing is left waiting for this next hop, and other next hops are not touched.
\<close>

theorem pending_sent_in_order:
  assumes "must_wait env ie nh"
  shows "\<exists>s'. fold_res (\<lambda>d. sendDatagramToOutput env d ie nh) ds s = Inr s'
    \<and> ip_out (arpResolutionCompleted nh ie mac s') =
        ip_out s @ replicate (length ds) (Start_resolution nh (interfaceId ie))
          @ map (frame ie (Some mac)) (waiting nh s @ ds)
    \<and> map_of (pendingPackets (arpResolutionCompleted nh ie mac s')) = (map_of (pendingPackets s))(nh := None)"
proof -
  obtain s' where s': "fold_res (\<lambda>d. sendDatagramToOutput env d ie nh) ds s = Inr s'"
    "ip_out s' = ip_out s @ replicate (length ds) (Start_resolution nh (interfaceId ie))"
    "map_of (pendingPackets s') = (if ds = [] then map_of (pendingPackets s)
       else (map_of (pendingPackets s))(nh \<mapsto> waiting nh s @ ds))"
    using fold_send_waits[OF assms, of "\<lambda>d. d" ds s] by auto
  have f: "fold (\<lambda>d. sendPacketToNIC (d\<lparr>dg_multicastLoop := None\<rparr>) ie (Some mac)) es t
      = t\<lparr>ip_out := ip_out t @ map (frame ie (Some mac)) es\<rparr>" for es and t :: "'a IPv4"
    by (induction es arbitrary: t) (simp_all add: sendPacketToNIC_def ip_emit_def)
  show ?thesis
  proof (cases "map_of (pendingPackets s') nh")
    case None
    then have "ds = []" "waiting nh s = []" using s'(3) by (auto simp: waiting_def split: if_splits)
    then show ?thesis using s' None by (auto simp: arpResolutionCompleted_def fun_eq_iff)
  next
    case (Some es)
    then have "es = waiting nh s @ ds" using s'(3) by (auto simp: waiting_def split: if_splits)
    then show ?thesis using s' Some by (auto simp: arpResolutionCompleted_def f)
  qed
qed

section \<open>Fragmentation\<close>

text \<open>The datagram that is sent: with a source address, and one hop further unless it loops back.\<close>

definition hop :: "InterfaceEntry \<Rightarrow> 'p IPv4Datagram \<Rightarrow> 'p IPv4Datagram" where
  "hop ie d =
     (let d = (if ip_isUnspecified (dg_srcAddress d)
               then d\<lparr>dg_srcAddress := (case ipv4data ie of None \<Rightarrow> 0 | Some i \<Rightarrow> inetAddr i)\<rparr> else d)
      in if if_loopback ie then d else d\<lparr>timeToLive := timeToLive d - 1\<rparr>)"

definition has_source :: "InterfaceEntry \<Rightarrow> 'p IPv4Datagram \<Rightarrow> bool" where
  "has_source ie d \<longleftrightarrow> \<not> ip_isUnspecified (dg_srcAddress d) \<or> ipv4data ie \<noteq> None"

definition fits :: "InterfaceEntry \<Rightarrow> 'p IPv4Datagram \<Rightarrow> bool" where
  "fits ie d \<longleftrightarrow> mtu ie = 0 \<or> byteLength d \<le> mtu ie"

definition pieces :: "InterfaceEntry \<Rightarrow> 'p IPv4Datagram \<Rightarrow> 'p IPv4Datagram list" where
  "pieces ie d = (if fits ie d then [d] else fragment_list (mtu ie) d)"

lemma hop_simps [simp]:
  "byteLength (hop ie d) = byteLength d" "headerLength (hop ie d) = headerLength d"
  "dontFragment (hop ie d) = dontFragment d" "fragmentOffset (hop ie d) = fragmentOffset d"
  "moreFragments (hop ie d) = moreFragments d" "payload_length (hop ie d) = payload_length d"
  "dg_destAddress (hop ie d) = dg_destAddress d" "transportProtocol (hop ie d) = transportProtocol d"
  "encapsulatedPacket (hop ie d) = encapsulatedPacket d" "identification (hop ie d) = identification d"
  "fits ie (hop ie d) = fits ie d"
  by (simp_all add: hop_def payload_length_def fits_def Let_def)

lemma fragmentAndSend_eq:
  assumes "has_source ie d"
  shows "fragmentAndSend env d ie nh s =
    (if sint (timeToLive (hop ie d)) < 0 then
       Inr (s\<lparr>ip_out := ip_out s @ [ICMP_error (hop ie d) (-1) ICMP_TIME_EXCEEDED 0], numDropped := numDropped s + 1\<rparr>)
     else if fits ie d then sendDatagramToOutput env (hop ie d) ie nh s
     else if dontFragment d then
       Inr (s\<lparr>ip_out := ip_out s @ [ICMP_error (hop ie d) (-1) ICMP_DESTINATION_UNREACHABLE ICMP_DU_FRAGMENTATION_NEEDED],
              numDropped := numDropped s + 1\<rparr>)
     else if frag_length (mtu ie) (headerLength d) \<le> 0 then
       Inl (Runtime_error ''Cannot fragment datagram: MTU too small for header size'')
     else fold_res (\<lambda>i. sendDatagramToOutput env (fragment_no (mtu ie) (hop ie d) i) ie nh)
            [0..<num_fragments (mtu ie) (hop ie d)] s)"
proof -
  let ?d = "if ip_isUnspecified (dg_srcAddress d)
    then d\<lparr>dg_srcAddress := (case ipv4data ie of None \<Rightarrow> 0 | Some i \<Rightarrow> inetAddr i)\<rparr> else d"
  have src: "(if ip_isUnspecified (dg_srcAddress d)
      then bind_res (deref (ipv4data ie)) (\<lambda>i. Inr (d\<lparr>dg_srcAddress := inetAddr i\<rparr>)) else Inr d) = Inr ?d"
    using assms by (auto simp: has_source_def)
  have h: "(if if_loopback ie then ?d else ?d\<lparr>timeToLive := timeToLive ?d - 1\<rparr>) = hop ie d"
    by (simp add: hop_def Let_def)
  show ?thesis
    unfolding fragmentAndSend_def src bind_res_Inr Let_def h
    by (simp add: ip_emit_def fits_def frag_offsets_all fold_res_map num_fragments_def fragment_no_def payload_length_def Let_def
        del: of_loop_simps(2))
qed

lemma fragment_payloads:
  assumes "0 < fl" "fl = frag_length w (headerLength d)" "0 \<le> payload_length d"
  shows "k \<le> num_fragments w d \<Longrightarrow>
    sum_list (map payload_length (map (fragment_no w d) [0..<k])) = min (int k * fl) (payload_length d)"
proof (induction k)
  case (Suc k)
  have p: "payload_length (fragment_no w d k)
      = (if payload_length d \<le> int k * fl + fl then payload_length d - int k * fl else fl)"
    by (simp add: fragment_no_def fragment_at_def payload_length_def Let_def assms(2))
  have "int k * fl < payload_length d"
    using Suc.prems piece_less[OF assms(1), of k "payload_length d"] by (simp add: num_fragments_def assms(2))
  then show ?case using Suc by (simp add: p algebra_simps min_def)
qed (use assms in simp)

text \<open>What a list of datagrams is when it carries the payload of one, in pieces.\<close>

definition carries_payload :: "'p IPv4Datagram \<Rightarrow> 'p IPv4Datagram list \<Rightarrow> bool" where
  "carries_payload d fs \<longleftrightarrow> fs \<noteq> []
     \<and> (\<forall>i < length fs. fragmentOffset (fs ! i) = fragmentOffset d + sum_list (map payload_length (take i fs))
          \<and> (moreFragments (fs ! i) \<longleftrightarrow> moreFragments d \<or> Suc i < length fs)
          \<and> (Suc i < length fs \<longrightarrow> 0 < payload_length (fs ! i) \<and> payload_length (fs ! i) mod 8 = 0))
     \<and> sum_list (map payload_length fs) = payload_length d"

lemma fragments_carry_payload:
  assumes "headerLength d + 8 \<le> w" "w < byteLength d"
  shows "carries_payload d (fragment_list w d)" "\<forall>f \<in> set (fragment_list w d). byteLength f \<le> w"
proof -
  define fl where "fl = frag_length w (headerLength d)"
  define n where "n = num_fragments w d"
  have fl: "8 \<le> fl" "fl \<le> w - headerLength d" "fl mod 8 = 0"
    using frag_length_pos[OF assms(1)] frag_length_le[OF assms(1)] by (simp_all add: fl_def frag_length_def)
  have pl: "0 < payload_length d" using assms by (simp add: payload_length_def)
  have less: "int i * fl < payload_length d \<longleftrightarrow> i < n" for i
    using piece_less[of fl i "payload_length d"] fl(1) by (simp add: n_def num_fragments_def fl_def)
  have last: "i < n \<Longrightarrow> payload_length d \<le> int i * fl + fl \<longleftrightarrow> Suc i = n" for i
    using piece_last[of fl i "payload_length d"] fl(1) by (simp add: n_def num_fragments_def fl_def)
  have len: "length (fragment_list w d) = n" by (simp add: fragment_list_def n_def)
  have nth: "i < n \<Longrightarrow> fragment_list w d ! i = fragment_no w d i" for i
    by (simp add: fragment_list_def n_def)
  have take: "i \<le> n \<Longrightarrow> sum_list (map payload_length (take i (fragment_list w d))) = min (int i * fl) (payload_length d)"
    for i
    using fragment_payloads[of fl w d i] fl(1) pl by (simp add: fragment_list_def take_map fl_def n_def)
  have f: "fragmentOffset (fragment_no w d i) = fragmentOffset d + int i * fl"
    "moreFragments (fragment_no w d i) \<longleftrightarrow> moreFragments d \<or> \<not> payload_length d \<le> int i * fl + fl"
    "payload_length (fragment_no w d i)
      = (if payload_length d \<le> int i * fl + fl then payload_length d - int i * fl else fl)"
    "byteLength (fragment_no w d i)
      = headerLength d + (if payload_length d \<le> int i * fl + fl then payload_length d - int i * fl else fl)" for i
    by (simp_all add: fragment_no_def fragment_at_def payload_length_def Let_def fl_def)
  have "0 < n" using less[of 0] pl by simp
  moreover have "payload_length d \<le> int n * fl" using less[of n] by simp
  moreover have "i < n \<Longrightarrow> Suc i < n \<longleftrightarrow> \<not> payload_length d \<le> int i * fl + fl" for i using last[of i] by auto
  moreover have "i < n \<Longrightarrow> min (int i * fl) (payload_length d) = int i * fl" for i using less[of i] by simp
  moreover have "fragment_list w d \<noteq> []" using len calculation(1) by auto
  ultimately show "carries_payload d (fragment_list w d)"
    using take[of n] fl(1,3) by (auto simp: carries_payload_def len nth take f)
  show "\<forall>f \<in> set (fragment_list w d). byteLength f \<le> w"
    using fl(2) by (auto simp: fragment_list_def f)
qed

text \<open>
  C30: Whatever the size of a datagram: when it may be fragmented, what leaves on the interface are pieces
  that fit its MTU, in order, each behind the one before, whose payloads are multiples of 8 octets but
  for the last, and which together carry exactly the payload; a datagram that fits leaves as it is.
\<close>

theorem sent_in_pieces:
  assumes "has_source ie d" "sends_now env ie nh mac s" "0 \<le> sint (timeToLive (hop ie d))"
    and "fits ie d \<or> \<not> dontFragment d \<and> headerLength d + 8 \<le> mtu ie"
  shows "fragmentAndSend env d ie nh s = Inr (s\<lparr>ip_out := ip_out s @ map (frame ie mac) (pieces ie (hop ie d))\<rparr>)
    \<and> carries_payload (hop ie d) (pieces ie (hop ie d))
    \<and> (\<forall>f \<in> set (pieces ie (hop ie d)). fits ie f)"
proof (cases "fits ie d")
  case True
  then show ?thesis
    using assms(3) by (simp add: fragmentAndSend_eq[OF assms(1)] send_now[OF assms(2)] pieces_def carries_payload_def)
next
  case False
  then have h: "\<not> dontFragment d" "headerLength (hop ie d) + 8 \<le> mtu ie" "mtu ie < byteLength (hop ie d)"
    using assms(4) by (auto simp: fits_def)
  have "\<not> frag_length (mtu ie) (headerLength d) \<le> 0" using frag_length_pos[OF h(2)] by simp
  then show ?thesis
    using False h(1) assms(3) fragments_carry_payload[OF h(2,3)]
    by (simp add: fragmentAndSend_eq[OF assms(1)] fold_send_now[OF assms(2)] pieces_def fragment_list_def fits_def)
qed

text \<open>
  The hop counter is decremented first and then compared with zero as a signed number: a datagram that
  arrives with a time to live of 1 is sent on with 0, although it should be discarded; only the next
  node discards it.
\<close>

theorem last_hop_overrun:
  assumes "\<not> if_loopback ie" "has_source ie d" "sends_now env ie nh mac s" "fits ie d"
  shows "(timeToLive d = 1 \<longrightarrow> (\<exists>f. timeToLive f = 0
      \<and> fragmentAndSend env d ie nh s = Inr (s\<lparr>ip_out := ip_out s @ [frame ie mac f]\<rparr>)))
    \<and> (timeToLive d = 0 \<longrightarrow> (\<exists>f. fragmentAndSend env d ie nh s =
        Inr (s\<lparr>ip_out := ip_out s @ [ICMP_error f (-1) ICMP_TIME_EXCEEDED 0], numDropped := numDropped s + 1\<rparr>)))"
proof -
  have t: "timeToLive (hop ie d) = timeToLive d - 1" using assms(1) by (simp add: hop_def Let_def)
  show ?thesis
  proof (intro conjI impI)
    assume "timeToLive d = 1"
    with t have "timeToLive (hop ie d) = 0" by simp
    then show "\<exists>f. timeToLive f = 0 \<and> fragmentAndSend env d ie nh s = Inr (s\<lparr>ip_out := ip_out s @ [frame ie mac f]\<rparr>)"
      using assms(4) by (auto simp: fragmentAndSend_eq[OF assms(2)] send_now[OF assms(3)])
  next
    assume "timeToLive d = 0"
    with t have "sint (timeToLive (hop ie d)) < 0" by simp
    then show "\<exists>f. fragmentAndSend env d ie nh s =
        Inr (s\<lparr>ip_out := ip_out s @ [ICMP_error f (-1) ICMP_TIME_EXCEEDED 0], numDropped := numDropped s + 1\<rparr>)"
      by (auto simp: fragmentAndSend_eq[OF assms(2)])
  qed
qed

section \<open>Routing\<close>

definition best_route :: "IPv4Address \<Rightarrow> RoutingTable \<Rightarrow> IPv4Route option" where
  "best_route dst t = Option.bind (search_routes dst t) (map_of (routes t))"

lemma best_route_cases:
  assumes "rt_ok ift t"
  shows "case best_route dst t of
       None \<Rightarrow> \<forall>(q, r) \<in> set (routes t). \<not> route_matches dst r
     | Some r \<Rightarrow> \<exists>p. (p, r) \<in> set (routes t) \<and> route_matches dst r \<and>
         (\<forall>(q, r') \<in> set (routes t). route_matches dst r' \<longrightarrow> better_route r r')"
proof (cases "search_routes dst t")
  case None
  then show ?thesis using search_is_best[OF assms, of dst] by (simp add: best_route_def)
next
  case (Some p)
  then obtain r where r: "(p, r) \<in> set (routes t)" "route_matches dst r"
    "\<forall>(q, r') \<in> set (routes t). route_matches dst r' \<longrightarrow> better_route r r'"
    using search_is_best[OF assms, of dst] by auto
  have "distinct (map fst (routes t))" using assms routes_distinct by (auto simp: rt_ok_def)
  then have "best_route dst t = Some r" using Some r(1) by (simp add: best_route_def)
  then show ?thesis using r by auto
qed

lemma lookup_route_ok:
  assumes "rt_ok (ip_ift s) (ip_rt s)"
  shows "\<exists>t. lookup_route dst s = Inr (best_route dst (ip_rt s), s\<lparr>ip_rt := t\<rparr>)
    \<and> rt_ok (ip_ift s) t \<and> routes t = routes (ip_rt s) \<and> IPForward t = IPForward (ip_rt s)"
proof -
  obtain t where t: "findBestMatchingRoute dst (ip_rt s) = Inr (search_routes dst (ip_rt s), t)"
    "rt_ok (ip_ift s) t" "routes t = routes (ip_rt s)" "IPForward t = IPForward (ip_rt s)"
    using lookup_ok[OF assms, of dst] by auto
  show ?thesis
  proof (cases "search_routes dst (ip_rt s)")
    case None
    then show ?thesis using t by (auto simp: lookup_route_def best_route_def)
  next
    case (Some p)
    moreover obtain r where "map_of (routes (ip_rt s)) p = Some r"
      using search_in_table[of "ip_rt s" dst p] assms Some by (auto simp: rt_ok_def)
    ultimately show ?thesis using t by (auto simp: lookup_route_def best_route_def)
  qed
qed

text \<open>The interfaces that the routes point to exist.\<close>

definition routes_attached :: "'p IPv4 \<Rightarrow> bool" where
  "routes_attached s \<longleftrightarrow> (\<forall>(p, r) \<in> set (routes (ip_rt s)).
     \<exists>i ie. rt_interface r = Some i \<and> getInterfaceById i (ip_ift s) = Some ie)"

lemma no_hooks [simp]: "run_hooks env ht [] d inIE outIE nh s = (True, d, outIE, nh, s)"
  by simp


section \<open>A node\<close>

definition sample_env :: "nat ip_env" where
  "sample_env = \<lparr>env_now = 0, env_hook = (\<lambda>h ht d i oi nh. (ACCEPT, d, oi, nh)), env_arp = (\<lambda>a. 0),
     env_path_ok = (\<lambda>g. True), env_icmp = (\<lambda>p. None), env_length = (\<lambda>p. 100), env_name = (\<lambda>p. ''data''),
     env_new_multicast = (\<lambda>d t. t)\<rparr>"

text \<open>A node with the interfaces \<open>ift\<close> and the routes \<open>t\<close>, and a protocol 17 on gate 3.\<close>

definition sample_ip :: "InterfaceTable \<Rightarrow> RoutingTable \<Rightarrow> nat IPv4" where
  "sample_ip ift t = \<lparr>isUp = True, ip_rt = t, ip_ift = ift, curFragmentId = 0, fragbuf = new_IPv4FragBuf,
     lastCheckTime = 0, mapping = [(17, 3)], pendingPackets = [], hooks = [], queuedDatagramsForHooks = [],
     next_queued = 0, numMulticast = 0, numLocalDeliver = 0, numDropped = 0, numUnroutable = 0, numForwarded = 0,
     defaultTimeToLive = 32, defaultMCTimeToLive = 32, fragmentTimeoutTime = seconds 60, forceBroadcast = False,
     useProxyARP = True, ip_out = []\<rparr>"

definition sample_lan :: InterfaceEntry where
  "sample_lan = (sample_interface 0x0A010203 0xFFFF0000)\<lparr>if_broadcast := True, macAddr := 0x0AAA00000001\<rparr>"

lemma sample_waits: "must_wait sample_env sample_lan 0x0A010204"
  by (simp add: must_wait_def is_lan_def sample_lan_def sample_interface_def ip_isUnspecified_def
      mac_isUnspecified_def resolveNextHopMacAddress_def isLimitedBroadcastAddress_def sample_env_def
      new_IPv4InterfaceData_def getNetworkBroadcastAddress_def makeBroadcastAddress_def ip_isMulticast_def)

theorem pending_sent_in_order_witness:
  "\<exists>s'. fold_res (\<lambda>d. sendDatagramToOutput sample_env d sample_lan 0x0A010204)
        [sample_datagram 7, sample_datagram 8] (sample_ip [] sample_table) = Inr s'
    \<and> ip_out (arpResolutionCompleted 0x0A010204 sample_lan 5 s') =
        [Start_resolution 0x0A010204 100, Start_resolution 0x0A010204 100,
         To_NIC (sample_datagram 7) 0 (Some 5), To_NIC (sample_datagram 8) 0 (Some 5)]"
  using pending_sent_in_order[OF sample_waits, of "[sample_datagram 7, sample_datagram 8]" "sample_ip [] sample_table" 5]
  by (auto simp: sample_ip_def waiting_def sample_lan_def sample_interface_def sample_datagram_def numeral_2_eq_2)

text \<open>An interface to a point-to-point link with an MTU of 68 octets.\<close>

definition sample_link :: InterfaceEntry where
  "sample_link = (sample_interface 0x0A010203 0xFFFF0000)\<lparr>mtu := 68\<rparr>"

lemma sample_link_sends:
  "has_source sample_link (sample_datagram 7)" "sends_now env sample_link nh None s"
  "0 \<le> sint (timeToLive (hop sample_link (sample_datagram 7)))"
  by (simp_all add: has_source_def sends_now_def is_lan_def sample_link_def sample_interface_def hop_def Let_def
      sample_datagram_def ip_isUnspecified_def)

theorem sent_in_pieces_witness:
  "\<exists>s'. fragmentAndSend sample_env (sample_datagram 7) sample_link 0 (sample_ip [] sample_table) = Inr s'
    \<and> ip_out s' = map (frame sample_link None) (pieces sample_link (hop sample_link (sample_datagram 7)))
    \<and> (\<forall>f \<in> set (pieces sample_link (hop sample_link (sample_datagram 7))). fits sample_link f)"
proof -
  have "fits sample_link (sample_datagram 7) \<or> \<not> dontFragment (sample_datagram 7)
      \<and> headerLength (sample_datagram 7) + 8 \<le> mtu sample_link"
    by (simp add: sample_datagram_def sample_link_def)
  from sent_in_pieces[OF sample_link_sends(1,2,3) this, of sample_env 0 "sample_ip [] sample_table"]
  show ?thesis by (simp add: sample_ip_def)
qed

theorem last_hop_overrun_witness:
  "\<exists>f. timeToLive f = 0 \<and> fragmentAndSend sample_env (sample_datagram 7\<lparr>timeToLive := 1\<rparr>)
      (sample_link\<lparr>mtu := 1500\<rparr>) 0 (sample_ip [] sample_table)
    = Inr ((sample_ip [] sample_table)\<lparr>ip_out := [frame (sample_link\<lparr>mtu := 1500\<rparr>) None f]\<rparr>)"
  using last_hop_overrun[of "sample_link\<lparr>mtu := 1500\<rparr>" "sample_datagram 7\<lparr>timeToLive := 1\<rparr>" sample_env 0 None
    "sample_ip [] sample_table"]
  by (simp add: has_source_def sends_now_def is_lan_def sample_link_def sample_interface_def fits_def
      sample_datagram_def ip_isUnspecified_def sample_ip_def)

text \<open>The routes of the sample table lead to interfaces 100 and 101.\<close>

definition sample_ift :: InterfaceTable where
  "sample_ift = [Some (sample_link\<lparr>interfaceId := 100\<rparr>), Some (sample_link\<lparr>interfaceId := 101\<rparr>)]"


end
