(* ===== verification/IPv4_Delivery.thy ===== *)
theory IPv4_Delivery
  imports IPv4_Laws
begin

text \<open>
  How the IPv4 module receives: a node that does not forward never sends out anything because of what it
  receives; and the way of a fragmented datagram from one node to the upper layer of another.
\<close>

section \<open>What stays inside the node\<close>

text \<open>
  Frames go to the interfaces, and a resolution sends a request; all other events concern the layers
  above and the other modules of the node.
\<close>

fun leaves_node :: "'p ip_event \<Rightarrow> bool" where
  "leaves_node (To_NIC d g m) = True"
| "leaves_node (Start_resolution a i) = True"
| "leaves_node _ = False"

definition stays_inside :: "'p IPv4 \<Rightarrow> 'p IPv4 \<Rightarrow> bool" where
  "stays_inside s s' \<longleftrightarrow> pendingPackets s' = pendingPackets s \<and> IPForward (ip_rt s') = IPForward (ip_rt s)
     \<and> (\<exists>evs. ip_out s' = ip_out s @ evs \<and> (\<forall>e \<in> set evs. \<not> leaves_node e))"

lemma stays_refl [simp, intro]: "stays_inside s s"
  by (auto simp: stays_inside_def)

lemma stays_trans: "stays_inside s t \<Longrightarrow> stays_inside t u \<Longrightarrow> stays_inside s u"
  by (fastforce simp: stays_inside_def)

lemma stays_emit: "\<not> leaves_node e \<Longrightarrow> stays_inside s (ip_emit e s)"
  by (auto simp: stays_inside_def ip_emit_def)

text \<open>Counters, the reassembly buffer, caches and hook queues are inside.\<close>

lemma stays_frame:
  "stays_inside s t \<Longrightarrow> pendingPackets u = pendingPackets t \<Longrightarrow> ip_out u = ip_out t \<Longrightarrow>
   IPForward (ip_rt u) = IPForward (ip_rt t) \<Longrightarrow> stays_inside s u"
  by (simp add: stays_inside_def)

lemma stays_emit_then:
  "\<not> leaves_node e \<Longrightarrow> pendingPackets u = pendingPackets s \<Longrightarrow> ip_out u = ip_out s @ [e] \<Longrightarrow>
   IPForward (ip_rt u) = IPForward (ip_rt s) \<Longrightarrow> stays_inside s u"
  by (rule stays_frame[OF stays_emit[of e s]]) (simp_all add: ip_emit_def)

lemma stays_run_hooks:
  "run_hooks env ht hs d inIE outIE nh s = (ok, d', outIE', nh', s') \<Longrightarrow> stays_inside s s'"
proof (induction env ht hs d inIE outIE nh s rule: run_hooks.induct)
  case (2 env ht p h hs d inIE outIE nh s)
  obtain r d1 o1 n1 where h: "env_hook env h ht d inIE outIE nh = (r, d1, o1, n1)"
    using prod_cases4 by blast
  show ?case
  proof (cases r)
    case ACCEPT
    then show ?thesis using 2 h by simp
  next
    case QUEUE
    then show ?thesis using "2.prems" h by (auto intro: stays_frame[OF stays_refl])
  qed (use "2.prems" h in auto)
qed auto

lemma stays_decapsulated: "decapsulate env d s = Inr x \<Longrightarrow> stays_inside s s"
  by simp

lemma stays_ICMP:
  "handleIncomingICMP env p ci d s = Inr s' \<Longrightarrow> stays_inside s s'"
  by (auto simp: handleIncomingICMP_def intro: stays_emit split: option.splits prod.splits if_splits)

lemma stays_deliverFinish:
  assumes "reassembleAndDeliverFinish env d s = Inr s'"
  shows "stays_inside s s'"
  using assms
  by (auto simp: reassembleAndDeliverFinish_def Let_def ip_emit_def stays_inside_def split: if_splits prod.splits
      dest!: stays_ICMP)

lemma stays_fold:
  "(\<And>x s s'. f x s = Inr s' \<Longrightarrow> stays_inside s s') \<Longrightarrow> fold_res f xs s = Inr s' \<Longrightarrow> stays_inside s s'"
  using fold_res_invariant[of xs "stays_inside s" f s s'] stays_trans by blast

lemma stays_purge:
  assumes "purge_if_due env s = Inr s'"
  shows "stays_inside s s'"
proof -
  let ?f = "\<lambda>e s. bind_res (deref e) (\<lambda>d. Inr (ip_emit (ICMP_error d (-1) ICMP_TIME_EXCEEDED 0) s))"
  have f: "fold_res ?f es t = Inr t' \<Longrightarrow> stays_inside t t'" for es t t'
    by (rule stays_fold) (auto intro: stays_emit)
  show ?thesis
  proof (cases "env_now env \<ge> lastCheckTime s + seconds 10")
    case True
    then obtain errs fb where "fold_res ?f errs (s\<lparr>lastCheckTime := env_now env, fragbuf := fb\<rparr>) = Inr s'"
      using assms by (auto simp: purge_if_due_def)
    from f[OF this] show ?thesis by (simp add: stays_inside_def)
  next
    case False
    then show ?thesis using assms by (simp add: purge_if_due_def)
  qed
qed

lemma stays_reassemble:
  assumes "reassemble env d s = Inr (r, s')"
  shows "stays_inside s s'"
proof (cases "fragmentOffset d \<noteq> 0 \<or> moreFragments d")
  case True
  then obtain t fb where "purge_if_due env s = Inr t" "s' = t\<lparr>fragbuf := fb\<rparr>"
    using assms by (auto simp: reassemble_def split: prod.splits)
  then show ?thesis using stays_purge[of env s t] by (simp add: stays_inside_def)
next
  case False
  then show ?thesis using assms by (simp add: reassemble_def)
qed

lemma stays_deliver:
  assumes "reassembleAndDeliver env d s = Inr s'"
  shows "stays_inside s s'"
proof -
  obtain r t where r: "reassemble env d s = Inr (r, t)"
    and f: "(case r of None \<Rightarrow> Inr t
       | Some d \<Rightarrow> (case run_hooks env LOCALIN (hooks t) d (getSourceInterfaceFrom d t) None 0 t of
              (ok, d, _, _, s) \<Rightarrow> if ok then reassembleAndDeliverFinish env d s else Inr s)) = Inr s'"
    using assms by (auto simp: reassembleAndDeliver_def)
  have t: "stays_inside s t" by (rule stays_reassemble[OF r])
  show ?thesis
  proof (cases r)
    case None
    then show ?thesis using f t by simp
  next
    case (Some d1)
    obtain ok d2 o2 n2 u where u: "run_hooks env LOCALIN (hooks t) d1 (getSourceInterfaceFrom d1 t) None 0 t = (ok, d2, o2, n2, u)"
      using prod_cases5 by blast
    then have "stays_inside u s'" using f Some stays_deliverFinish by (auto split: if_splits)
    then show ?thesis using t stays_run_hooks[OF u] stays_trans by blast
  qed
qed

lemma isLocalAddress_forward:
  "isLocalAddress ift a t = Inr (b, t') \<Longrightarrow> IPForward t' = IPForward t"
  by (auto simp: isLocalAddress_def split: if_splits)

lemma stays_then:
  "res_all (stays_inside s) m \<Longrightarrow> (\<And>t. stays_inside s t \<Longrightarrow> res_all (stays_inside s) (f t)) \<Longrightarrow>
   res_all (stays_inside s) (bind_res m f)"
  by (rule res_all_bind) (auto dest: res_allD)

lemma stays_delivered: "stays_inside s t \<Longrightarrow> res_all (stays_inside s) (reassembleAndDeliver env d t)"
  by (auto simp: res_all_def intro: stays_trans dest: stays_deliver)

lemma stays_prerouting:
  assumes "preroutingFinish env d fromIE destIE nh s = Inr s'" "\<not> IPForward (ip_rt s)"
  shows "stays_inside s s'"
proof -
  have same: "stays_inside s (s\<lparr>ip_rt := t\<rparr>)" "stays_inside s (s\<lparr>ip_rt := t, numDropped := n\<rparr>)"
    if "isLocalAddress ift a (ip_rt s) = Inr (b, t)" for ift a b t n
    using isLocalAddress_forward[OF that] by (simp_all add: stays_inside_def)
  have host: "\<not> IPForward t" if "isLocalAddress ift a (ip_rt s) = Inr (b, t)" for ift a b t
    using isLocalAddress_forward[OF that] assms(2) by simp
  have host': "\<not> IPForward (ip_rt t)" if "stays_inside s t" for t
    using that assms(2) by (simp add: stays_inside_def)
  have "res_all (stays_inside s) (preroutingFinish env d fromIE destIE nh s)"
    unfolding preroutingFinish_def Let_def
    by (intro res_all_if res_all_option stays_delivered res_all_prod stays_then res_all_bind)
      (auto dest: host host' same intro: stays_delivered)
  then show ?thesis using assms(1) by (rule res_allD)
qed


section \<open>From one node to the other\<close>

text \<open>A datagram as it arrives: on the gate of an interface, without the control info of the sender.\<close>

definition received :: "nat \<Rightarrow> 'p IPv4Datagram \<Rightarrow> 'p IPv4Datagram" where
  "received g d = d\<lparr>arrivalGate := Some g, dg_multicastLoop := None\<rparr>"

lemma received_simps [simp]:
  "byteLength (received g d) = byteLength d" "headerLength (received g d) = headerLength d"
  "fragmentOffset (received g d) = fragmentOffset d" "moreFragments (received g d) = moreFragments d"
  "payload_length (received g d) = payload_length d" "frag_key (received g d) = frag_key d"
  "num_fragments w (received g d) = num_fragments w d"
  "to_be_fragmented w (received g d) = to_be_fragmented w d"
  by (simp_all add: received_def payload_length_def frag_key_def num_fragments_def to_be_fragmented_def)

lemma received_fragment: "received g (fragment_no w d i) = fragment_no w (received g d) i"
  by (simp add: received_def fragment_no_def fragment_at_def payload_length_def Let_def)

lemma deliver_fragment:
  assumes "hooks s = []" "env_now env < lastCheckTime s + seconds 10" "fragmentOffset f \<noteq> 0 \<or> moreFragments f"
    and "fb_addFragment f (env_now env) (fragbuf s) = Inr (r, fb)"
  shows "reassembleAndDeliver env f s =
    (case r of None \<Rightarrow> Inr (s\<lparr>fragbuf := fb\<rparr>) | Some d \<Rightarrow> reassembleAndDeliverFinish env d (s\<lparr>fragbuf := fb\<rparr>))"
  using assms by (cases r) (simp_all add: reassembleAndDeliver_def reassemble_def purge_if_due_def)

lemma fragment_is_fragment:
  assumes "to_be_fragmented w d" "i < num_fragments w d"
  shows "fragmentOffset (fragment_no w d i) \<noteq> 0 \<or> moreFragments (fragment_no w d i)"
proof (cases "Suc i = num_fragments w d")
  case True
  then have "0 < i" using num_fragments_ge_2[OF assms(1)] by simp
  then have "cut_at w d 0 < cut_at w d i" using cut_at_mono(2)[OF assms(1), of 0 i] assms(2) by simp
  then have "0 < cut_at w d i" using assms(1) by (simp add: cut_at_def to_be_fragmented_def payload_length_def min_def split: if_splits)
  then show ?thesis using fragment_no_region(1)[OF assms] by simp
next
  case False
  then show ?thesis using fragment_no_region(3)[OF assms] by simp
qed

lemma deliver_incomplete:
  assumes d: "to_be_fragmented w d"
  shows "hooks s = [] \<Longrightarrow> env_now env < lastCheckTime s + seconds 10 \<Longrightarrow>
    fb_holds w d S (map_of (bufs (fragbuf s)) (frag_key d)) \<Longrightarrow> set is \<subseteq> {..<num_fragments w d} \<Longrightarrow>
    S \<union> set is \<subset> {..<num_fragments w d} \<Longrightarrow>
    \<exists>fb. fold_res (\<lambda>i. reassembleAndDeliver env (fragment_no w d i)) is s = Inr (s\<lparr>fragbuf := fb\<rparr>)
      \<and> fb_holds w d (S \<union> set is) (map_of (bufs fb) (frag_key d))
      \<and> (\<forall>k. k \<noteq> frag_key d \<longrightarrow> map_of (bufs fb) k = map_of (bufs (fragbuf s)) k)"
proof (induction "is" arbitrary: s S)
  case Nil
  have "s\<lparr>fragbuf := fragbuf s\<rparr> = s" by simp
  then show ?case using Nil by (intro exI[of _ "fragbuf s"]) simp
next
  case (Cons i js)
  have i: "i < num_fragments w d" using Cons.prems(4) by simp
  have ne: "insert i S \<noteq> {..<num_fragments w d}" using Cons.prems(5) by auto
  obtain fb where fb: "fb_addFragment (fragment_no w d i) (env_now env) (fragbuf s) = Inr (None, fb)"
    "fb_holds w d (insert i S) (map_of (bufs fb) (frag_key d))"
    using fb_addFragment_step[OF d Cons.prems(3) i, of "env_now env"] ne by auto
  have fr: "\<forall>k. k \<noteq> frag_key d \<longrightarrow> map_of (bufs fb) k = map_of (bufs (fragbuf s)) k"
    using fb_addFragment_frame[OF fb(1)] fragment_no_simps(1)[of w d i] by metis
  let ?t = "s\<lparr>fragbuf := fb\<rparr>"
  have step: "reassembleAndDeliver env (fragment_no w d i) s = Inr ?t"
    using deliver_fragment[OF Cons.prems(1,2) fragment_is_fragment[OF d i] fb(1)] by simp
  have "insert i S \<union> set js \<subset> {..<num_fragments w d}" using Cons.prems(5) by simp
  then obtain fb' where "fold_res (\<lambda>i. reassembleAndDeliver env (fragment_no w d i)) js ?t = Inr (?t\<lparr>fragbuf := fb'\<rparr>)"
    "fb_holds w d (insert i S \<union> set js) (map_of (bufs fb') (frag_key d))"
    "\<forall>k. k \<noteq> frag_key d \<longrightarrow> map_of (bufs fb') k = map_of (bufs fb) k"
    using Cons.IH[of ?t "insert i S"] Cons.prems fb(2) by auto
  then show ?case using step fr by (intro exI[of _ fb']) simp
qed

lemma list_in_image: "set xs \<subseteq> f ` A \<Longrightarrow> \<exists>ys. xs = map f ys \<and> set ys \<subseteq> A"
proof (induction xs)
  case (Cons x xs)
  then obtain y ys where "x = f y" "y \<in> A" "xs = map f ys" "set ys \<subseteq> A" by auto
  then show ?case by (intro exI[of _ "y # ys"]) simp
qed simp


section \<open>Examples\<close>



end
