(* ===== verification/UDP_Module.thy ===== *)
theory UDP_Module
  imports IPvX_Address Ephemeral_Ports IPv4_Module
begin

text \<open>
  The UDP module (\<^verbatim>\<open>transport/udp/UDP.h\<close>, \<^verbatim>\<open>UDP.cc\<close>): the sockets, which two maps
  list by id and by local port, the commands of the applications, and the packets that go down to IP
  and come up from it. Sockets are objects on a heap and the maps hold pointers to them, as in the
  code. Messages that leave the module are appended to \<open>udp_out\<close>. Signals for statistics are not
  modelled.
\<close>

section \<open>Packets and control info\<close>

text \<open>\<^verbatim>\<open>UDPPacket.msg\<close> with the members of \<^verbatim>\<open>cPacket\<close> that the module uses.\<close>

record 'p UDPPacket =
  up_name :: string
  up_byteLength :: int
  up_bitError :: bool
  sourcePort :: u16
  destinationPort :: u16
  up_payload :: "'p option"

record IPv6ControlInfo =
  ci6_protocol :: int
  ci6_srcAddr :: IPv6Address
  ci6_destAddr :: IPv6Address
  ci6_trafficClass :: u8
  ci6_hopLimit :: u16
  ci6_interfaceId :: int
  ci6_multicastLoop :: bool

text \<open>The control info that a packet from the network may have.\<close>

datatype udp_ctrl = Ctrl4 IPv4ControlInfo | Ctrl6 IPv6ControlInfo | Null_ctrl | Other_ctrl

record UDPDataIndication =
  ind_sockId :: int
  ind_srcAddr :: IPvXAddress
  ind_destAddr :: IPvXAddress
  ind_srcPort :: int
  ind_destPort :: int
  ind_ttl :: int
  ind_interfaceId :: int
  ind_typeOfService :: u8

record UDPErrorIndication =
  err_sockId :: int
  err_srcAddr :: IPvXAddress
  err_destAddr :: IPvXAddress
  err_srcPort :: int
  err_destPort :: int

record UDPSendCommand =
  snd_sockId :: int
  snd_destAddr :: IPvXAddress
  snd_destPort :: int
  snd_srcAddr :: IPvXAddress
  snd_interfaceId :: int

section \<open>State\<close>

record SockDesc =
  sockId :: int
  sd_appGateIndex :: int
  isBound :: bool
  onlyLocalPortIsSet :: bool
  reuseAddr :: bool
  sd_localAddr :: IPvXAddress
  sd_remoteAddr :: IPvXAddress
  sd_localPort :: int
  sd_remotePort :: int
  sd_isBroadcast :: bool
  multicastOutputInterfaceId :: int
  multicastLoop :: bool
  sd_ttl :: int
  sd_typeOfService :: u8
  multicastAddrs :: "(IPvXAddress \<times> int) list"

text \<open>
  What leaves the module: packets and indications for an application gate, packets for IP, ICMP errors,
  and the calls that a join makes on an interface (its id comes first).
\<close>

datatype 'p udp_event =
    Data_up int UDPDataIndication 'p
  | Error_up int UDPErrorIndication
  | To_IPv4 "'p UDPPacket" IPv4ControlInfo
  | To_IPv6 "'p UDPPacket" IPv6ControlInfo
  | ICMPv4_sendError "'p UDPPacket" IPv4ControlInfo int int
  | ICMPv6_sendError "'p UDPPacket" IPv6ControlInfo int int
  | Interface_event int if_event
  | Assign_IPv6_address int IPvXAddress

text \<open>The environment tells the name of a packet of an application and its length in bytes.\<close>

record 'p udp_env =
  app_name :: "'p \<Rightarrow> string"
  app_length :: "'p \<Rightarrow> int"

type_synonym sock_ptr = nat

record 'p UDP =
  sockets :: "sock_ptr \<Rightarrow> SockDesc option"
  next_socket :: sock_ptr
  socketsByIdMap :: "(int \<times> sock_ptr) list"
  socketsByPortMap :: "(int \<times> sock_ptr list) list"
  udp_lastEphemeralPort :: u16
  numSent :: int
  numPassedUp :: int
  numDroppedWrongPort :: int
  numDroppedBadChecksum :: int
  isOperational :: bool
  udp_ift :: InterfaceTable
  udp_out :: "'p udp_event list"

definition UDP_HEADER_BYTES :: int where "UDP_HEADER_BYTES = 8"
definition DEFAULT_MULTICAST_LOOP :: bool where "DEFAULT_MULTICAST_LOOP = True"
definition IP_PROT_UDP :: int where "IP_PROT_UDP = 17"
definition ICMP_DU_PORT_UNREACHABLE :: int where "ICMP_DU_PORT_UNREACHABLE = 3"
definition ICMPv6_DESTINATION_UNREACHABLE :: int where "ICMPv6_DESTINATION_UNREACHABLE = 1"
definition PORT_UNREACHABLE :: int where "PORT_UNREACHABLE = 4"

definition udp_emit :: "'p udp_event \<Rightarrow> 'p UDP \<Rightarrow> 'p UDP" where
  "udp_emit e s = s\<lparr>udp_out := udp_out s @ [e]\<rparr>"

text \<open>
  The constructor leaves \<^verbatim>\<open>isBound\<close> without a value; \<open>createSocket\<close>, the only caller, sets it.
\<close>

definition new_SockDesc :: "int \<Rightarrow> int \<Rightarrow> SockDesc" where
  "new_SockDesc i gate =
     \<lparr>sockId = i, sd_appGateIndex = gate, isBound = False, onlyLocalPortIsSet = False, reuseAddr = False,
      sd_localAddr = unspecified_addr, sd_remoteAddr = unspecified_addr, sd_localPort = -1, sd_remotePort = -1,
      sd_isBroadcast = False, multicastOutputInterfaceId = -1, multicastLoop = DEFAULT_MULTICAST_LOOP,
      sd_ttl = -1, sd_typeOfService = 0, multicastAddrs = []\<rparr>"

definition new_UDP :: "InterfaceTable \<Rightarrow> bool \<Rightarrow> 'p UDP" where
  "new_UDP ift up =
     \<lparr>sockets = (\<lambda>_. None), next_socket = 0, socketsByIdMap = [], socketsByPortMap = [],
      udp_lastEphemeralPort = of_nat EPHEMERAL_PORTRANGE_START, numSent = 0, numPassedUp = 0,
      numDroppedWrongPort = 0, numDroppedBadChecksum = 0, isOperational = up, udp_ift = ift, udp_out = []\<rparr>"

text \<open>Access to a socket through a pointer.\<close>

definition modify_socket :: "sock_ptr \<Rightarrow> (SockDesc \<Rightarrow> SockDesc) \<Rightarrow> 'p UDP \<Rightarrow> 'p UDP res" where
  "modify_socket p f s =
     bind_res (deref (sockets s p)) (\<lambda>sd. Inr (s\<lparr>sockets := (sockets s)(p \<mapsto> f sd)\<rparr>))"

text \<open>\<^verbatim>\<open>socketsByPortMap[k]\<close>: a missing entry reads as an empty list.\<close>

definition port_list :: "int \<Rightarrow> 'p UDP \<Rightarrow> sock_ptr list" where
  "port_list k s = (case map_of (socketsByPortMap s) k of None \<Rightarrow> [] | Some l \<Rightarrow> l)"

definition set_port_list :: "int \<Rightarrow> sock_ptr list \<Rightarrow> 'p UDP \<Rightarrow> 'p UDP" where
  "set_port_list k l s = s\<lparr>socketsByPortMap := put k l (socketsByPortMap s)\<rparr>"

section \<open>Looking up sockets\<close>

fun first_local :: "(sock_ptr \<Rightarrow> SockDesc option) \<Rightarrow> IPvXAddress \<Rightarrow> sock_ptr list \<Rightarrow> sock_ptr option res" where
  "first_local h la [] = Inr None"
| "first_local h la (p # ps) =
     bind_res (deref (h p)) (\<lambda>sd.
       if isUnspecified (sd_localAddr sd) \<or> sd_localAddr sd = la then Inr (Some p) else first_local h la ps)"

definition findFirstSocketByLocalAddress :: "IPvXAddress \<Rightarrow> u16 \<Rightarrow> 'p UDP \<Rightarrow> sock_ptr option res" where
  "findFirstSocketByLocalAddress la lp s =
     (case map_of (socketsByPortMap s) (uint lp) of
        None \<Rightarrow> Inr None
      | Some l \<Rightarrow> first_local (sockets s) la l)"

definition accepts_unicast :: "IPvXAddress \<Rightarrow> IPvXAddress \<Rightarrow> u16 \<Rightarrow> SockDesc \<Rightarrow> bool" where
  "accepts_unicast la ra rp sd \<longleftrightarrow>
     onlyLocalPortIsSet sd
     \<or> (sd_remotePort sd = -1 \<or> sd_remotePort sd = uint rp)
       \<and> (isUnspecified (sd_localAddr sd) \<or> sd_localAddr sd = la)
       \<and> (isUnspecified (sd_remoteAddr sd) \<or> sd_remoteAddr sd = ra)"

text \<open>The loop goes through the list backwards; \<open>any\<close> is \<^verbatim>\<open>socketBoundToAnyAddress\<close>.\<close>

fun unicast_loop ::
  "(sock_ptr \<Rightarrow> SockDesc option) \<Rightarrow> IPvXAddress \<Rightarrow> IPvXAddress \<Rightarrow> u16 \<Rightarrow> sock_ptr list \<Rightarrow> sock_ptr option
     \<Rightarrow> sock_ptr option res" where
  "unicast_loop h la ra rp [] any = Inr any"
| "unicast_loop h la ra rp (p # ps) any =
     bind_res (deref (h p)) (\<lambda>sd.
       if accepts_unicast la ra rp sd then
         (if isUnspecified (sd_localAddr sd) then unicast_loop h la ra rp ps (Some p) else Inr (Some p))
       else unicast_loop h la ra rp ps any)"

definition findSocketForUnicastPacket ::
  "IPvXAddress \<Rightarrow> u16 \<Rightarrow> IPvXAddress \<Rightarrow> u16 \<Rightarrow> 'p UDP \<Rightarrow> sock_ptr option res" where
  "findSocketForUnicastPacket la lp ra rp s =
     (case map_of (socketsByPortMap s) (uint lp) of
        None \<Rightarrow> Inr None
      | Some l \<Rightarrow> unicast_loop (sockets s) la ra rp (rev l) None)"

definition accepts_mcast :: "IPvXAddress \<Rightarrow> IPvXAddress \<Rightarrow> u16 \<Rightarrow> bool \<Rightarrow> bool \<Rightarrow> SockDesc \<Rightarrow> bool" where
  "accepts_mcast la ra rp isMulticast isBroadcast sd \<longleftrightarrow>
     (if isBroadcast then
        sd_isBroadcast sd \<and> (sd_remotePort sd = -1 \<or> sd_remotePort sd = uint rp)
          \<and> (isUnspecified (sd_remoteAddr sd) \<or> sd_remoteAddr sd = ra)
      else if isMulticast then
        map_of (multicastAddrs sd) la \<noteq> None \<and> (sd_remotePort sd = -1 \<or> sd_remotePort sd = uint rp)
          \<and> (isUnspecified (sd_remoteAddr sd) \<or> sd_remoteAddr sd = ra)
      else False)"

fun mcast_loop :: "(sock_ptr \<Rightarrow> SockDesc option) \<Rightarrow> (SockDesc \<Rightarrow> bool) \<Rightarrow> sock_ptr list \<Rightarrow> sock_ptr list res" where
  "mcast_loop h P [] = Inr []"
| "mcast_loop h P (p # ps) =
     bind_res (deref (h p)) (\<lambda>sd.
       bind_res (mcast_loop h P ps) (\<lambda>r. Inr (if P sd then p # r else r)))"

definition findSocketsForMcastBcastPacket ::
  "IPvXAddress \<Rightarrow> u16 \<Rightarrow> IPvXAddress \<Rightarrow> u16 \<Rightarrow> bool \<Rightarrow> bool \<Rightarrow> 'p UDP \<Rightarrow> sock_ptr list res" where
  "findSocketsForMcastBcastPacket la lp ra rp isMulticast isBroadcast s =
     ASSERT (isMulticast \<or> isBroadcast)
       (case map_of (socketsByPortMap s) (uint lp) of
          None \<Rightarrow> Inr []
        | Some l \<Rightarrow> mcast_loop (sockets s) (accepts_mcast la ra rp isMulticast isBroadcast) l)"

section \<open>Creating, binding and closing sockets\<close>

definition udp_getEphemeralPort :: "'p UDP \<Rightarrow> ('p UDP \<times> u16) res option" where
  "udp_getEphemeralPort s =
     (let searchUntil = udp_lastEphemeralPort s;
          p = next_ephemeral (udp_lastEphemeralPort s)
      in map_option (\<lambda>r. bind_res r (\<lambda>q. Inr (s\<lparr>udp_lastEphemeralPort := q\<rparr>, q)))
           (ephemeral_loop (\<lambda>q. map_of (socketsByPortMap s) (uint q) \<noteq> None) searchUntil p))"

definition createSocket :: "int \<Rightarrow> int \<Rightarrow> IPvXAddress \<Rightarrow> int \<Rightarrow> 'p UDP \<Rightarrow> (sock_ptr \<times> 'p UDP) res" where
  "createSocket i gate la lp s =
     bind_res
       (if lp = -1 then bind_res (of_loop (udp_getEphemeralPort s)) (\<lambda>(s, q). Inr (s, uint q)) else Inr (s, lp))
       (\<lambda>(s, port).
         let p = next_socket s;
             sd = (new_SockDesc i gate)\<lparr>isBound := False, sd_localAddr := la, sd_localPort := port,
                     onlyLocalPortIsSet := isUnspecified la\<rparr>;
             s = s\<lparr>sockets := (sockets s)(p \<mapsto> sd), next_socket := p + 1,
                   socketsByIdMap := put i p (socketsByIdMap s)\<rparr>
         in Inr (p, set_port_list port (port_list port s @ [p]) s))"

definition getOrCreateSocket :: "int \<Rightarrow> int \<Rightarrow> 'p UDP \<Rightarrow> (sock_ptr \<times> 'p UDP) res" where
  "getOrCreateSocket i gate s =
     (if i = -1 then Inl (Runtime_error ''sockId in UDP command not filled in'')
      else case map_of (socketsByIdMap s) i of
             Some p \<Rightarrow> Inr (p, s)
           | None \<Rightarrow> createSocket i gate unspecified_addr (-1) s)"

definition getSocketById :: "int \<Rightarrow> 'p UDP \<Rightarrow> sock_ptr res" where
  "getSocketById i s =
     (case map_of (socketsByIdMap s) i of
        None \<Rightarrow> Inl (Runtime_error ''socket id doesn't exist (already closed?)'')
      | Some p \<Rightarrow> Inr p)"

text \<open>The port number is cut to an \<^verbatim>\<open>unsigned short\<close> when the address is looked up.\<close>

definition udp_bind :: "int \<Rightarrow> int \<Rightarrow> IPvXAddress \<Rightarrow> int \<Rightarrow> 'p UDP \<Rightarrow> 'p UDP res" where
  "udp_bind i gate la lp s =
     (if i = -1 then Inl (Runtime_error ''sockId in BIND message not filled in'')
      else if lp < -1 \<or> lp > 65535 then Inl (Runtime_error ''bind: invalid local port number'')
      else
        let sd = map_of (socketsByIdMap s) i
        in bind_res (findFirstSocketByLocalAddress la (word_of_int lp) s) (\<lambda>existing.
           bind_res
             (case existing of
                None \<Rightarrow> Inr False
              | Some e \<Rightarrow>
                  (case sd of
                     None \<Rightarrow> Inr True
                   | Some p \<Rightarrow>
                       bind_res (deref (sockets s p)) (\<lambda>d. bind_res (deref (sockets s e)) (\<lambda>d'.
                         Inr (\<not> reuseAddr d \<or> \<not> reuseAddr d'))))) (\<lambda>taken.
             if taken then Inl (Runtime_error ''bind: local address/port already taken'')
             else
               (case sd of
                  Some p \<Rightarrow>
                    bind_res (deref (sockets s p)) (\<lambda>d.
                      if isBound d then Inl (Runtime_error ''bind: socket is already bound'')
                      else
                        bind_res (modify_socket p (\<lambda>d. d\<lparr>isBound := True, sd_localAddr := la\<rparr>) s) (\<lambda>s.
                          if lp \<noteq> -1 \<and> sd_localPort d \<noteq> lp then
                            let s = set_port_list (sd_localPort d) (removeAll p (port_list (sd_localPort d) s)) s
                            in bind_res (modify_socket p (\<lambda>d. d\<lparr>sd_localPort := lp\<rparr>) s) (\<lambda>s.
                                 Inr (set_port_list lp (port_list lp s @ [p]) s))
                          else Inr s))
                | None \<Rightarrow>
                    bind_res (createSocket i gate la lp s) (\<lambda>(p, s).
                      modify_socket p (\<lambda>d. d\<lparr>isBound := True\<rparr>) s)))))"

definition udp_connect :: "int \<Rightarrow> int \<Rightarrow> IPvXAddress \<Rightarrow> int \<Rightarrow> 'p UDP \<Rightarrow> 'p UDP res" where
  "udp_connect i gate ra rp s =
     (if isUnspecified ra then Inl (Runtime_error ''connect: unspecified remote address'')
      else if rp \<le> 0 \<or> rp > 65535 then Inl (Runtime_error ''connect: invalid remote port number'')
      else
        bind_res (getOrCreateSocket i gate s) (\<lambda>(p, s).
          modify_socket p (\<lambda>d. d\<lparr>sd_remoteAddr := ra, sd_remotePort := rp, onlyLocalPortIsSet := False\<rparr>) s))"

definition udp_close :: "int \<Rightarrow> 'p UDP \<Rightarrow> 'p UDP res" where
  "udp_close i s =
     bind_res (getSocketById i s) (\<lambda>p.
     bind_res (deref (sockets s p)) (\<lambda>sd.
       let s = s\<lparr>socketsByIdMap := erase i (socketsByIdMap s)\<rparr>;
           port = sd_localPort sd;
           l = remove1 p (port_list port s);
           s = set_port_list port l s;
           s = (if l = [] then s\<lparr>socketsByPortMap := erase port (socketsByPortMap s)\<rparr> else s)
       in Inr (s\<lparr>sockets := (sockets s)(p := None)\<rparr>)))"

text \<open>Every socket that the map by id lists is deleted.\<close>

definition clearAllSockets :: "'p UDP \<Rightarrow> 'p UDP" where
  "clearAllSockets s =
     s\<lparr>socketsByPortMap := [],
       sockets := fold (\<lambda>(i, p) h. h(p := None)) (socketsByIdMap s) (sockets s),
       socketsByIdMap := []\<rparr>"

section \<open>Options\<close>

definition udp_setTimeToLive :: "sock_ptr \<Rightarrow> int \<Rightarrow> 'p UDP \<Rightarrow> 'p UDP res" where
  "udp_setTimeToLive p n = modify_socket p (\<lambda>d. d\<lparr>sd_ttl := n\<rparr>)"

definition udp_setTypeOfService :: "sock_ptr \<Rightarrow> int \<Rightarrow> 'p UDP \<Rightarrow> 'p UDP res" where
  "udp_setTypeOfService p n = modify_socket p (\<lambda>d. d\<lparr>sd_typeOfService := word_of_int n\<rparr>)"

definition udp_setBroadcast :: "sock_ptr \<Rightarrow> bool \<Rightarrow> 'p UDP \<Rightarrow> 'p UDP res" where
  "udp_setBroadcast p b = modify_socket p (\<lambda>d. d\<lparr>sd_isBroadcast := b\<rparr>)"

definition udp_setMulticastOutputInterface :: "sock_ptr \<Rightarrow> int \<Rightarrow> 'p UDP \<Rightarrow> 'p UDP res" where
  "udp_setMulticastOutputInterface p n = modify_socket p (\<lambda>d. d\<lparr>multicastOutputInterfaceId := n\<rparr>)"

definition udp_setMulticastLoop :: "sock_ptr \<Rightarrow> bool \<Rightarrow> 'p UDP \<Rightarrow> 'p UDP res" where
  "udp_setMulticastLoop p b = modify_socket p (\<lambda>d. d\<lparr>multicastLoop := b\<rparr>)"

definition udp_setReuseAddress :: "sock_ptr \<Rightarrow> bool \<Rightarrow> 'p UDP \<Rightarrow> 'p UDP res" where
  "udp_setReuseAddress p b = modify_socket p (\<lambda>d. d\<lparr>reuseAddr := b\<rparr>)"

definition addMulticastAddressToInterface :: "InterfaceEntry \<Rightarrow> IPvXAddress \<Rightarrow> 'p UDP \<Rightarrow> 'p UDP res" where
  "addMulticastAddressToInterface ie a s =
     (case a of
        IPv4 d \<Rightarrow>
          bind_res (deref (ipv4data ie)) (\<lambda>i. bind_res (joinMulticastGroup d i) (\<lambda>(evs, i').
            Inr (s\<lparr>udp_ift := set_interface (ie\<lparr>ipv4data := Some i'\<rparr>) (udp_ift s),
                   udp_out := udp_out s @ map (Interface_event (interfaceId ie)) evs\<rparr>)))
      | IPv6 _ _ _ _ \<Rightarrow> Inr (udp_emit (Assign_IPv6_address (interfaceId ie) a) s))"

definition join_group :: "sock_ptr \<Rightarrow> IPvXAddress \<times> int \<Rightarrow> 'p UDP \<Rightarrow> 'p UDP res" where
  "join_group p = (\<lambda>(a, i) s.
     ASSERT (ipx_isMulticast a)
       (bind_res (modify_socket p (\<lambda>d. d\<lparr>multicastAddrs := put a i (multicastAddrs d)\<rparr>) s) (\<lambda>s.
          if i \<noteq> -1 then
            (case getInterfaceById i (udp_ift s) of
               None \<Rightarrow> Inl (Runtime_error ''Interface id does not exist'')
             | Some ie \<Rightarrow> addMulticastAddressToInterface ie a s)
          else
            fold_res (\<lambda>k s. bind_res (getInterface (int k) (udp_ift s)) (\<lambda>ie. addMulticastAddressToInterface ie a s))
              [0..<getNumInterfaces (udp_ift s)] s)))"

text \<open>An address without an interface id is joined on all interfaces.\<close>

definition joinMulticastGroups :: "sock_ptr \<Rightarrow> IPvXAddress list \<Rightarrow> int list \<Rightarrow> 'p UDP \<Rightarrow> 'p UDP res" where
  "joinMulticastGroups p addrs ids s =
     fold_res (join_group p)
       (map (\<lambda>k. (addrs ! k, if k < length ids then ids ! k else -1)) [0..<length addrs]) s"

definition leaveMulticastGroups :: "sock_ptr \<Rightarrow> IPvXAddress list \<Rightarrow> 'p UDP \<Rightarrow> 'p UDP res" where
  "leaveMulticastGroups p addrs =
     fold_res (\<lambda>a. modify_socket p (\<lambda>d. d\<lparr>multicastAddrs := erase a (multicastAddrs d)\<rparr>)) addrs"

section \<open>Passing packets up and down\<close>

definition sendUp ::
  "'p \<Rightarrow> sock_ptr \<Rightarrow> IPvXAddress \<Rightarrow> u16 \<Rightarrow> IPvXAddress \<Rightarrow> u16 \<Rightarrow> int \<Rightarrow> int \<Rightarrow> u8 \<Rightarrow> 'p UDP \<Rightarrow> 'p UDP res" where
  "sendUp x p sa sp da dp ifid hops tos s =
     bind_res (deref (sockets s p)) (\<lambda>sd.
       let s = udp_emit (Data_up (sd_appGateIndex sd)
             \<lparr>ind_sockId = sockId sd, ind_srcAddr = sa, ind_destAddr = da, ind_srcPort = uint sp,
              ind_destPort = uint dp, ind_ttl = hops, ind_interfaceId = ifid, ind_typeOfService = tos\<rparr> x) s
       in Inr (s\<lparr>numPassedUp := numPassedUp s + 1\<rparr>))"

definition sendUpErrorIndication ::
  "sock_ptr \<Rightarrow> IPvXAddress \<Rightarrow> u16 \<Rightarrow> IPvXAddress \<Rightarrow> u16 \<Rightarrow> 'p UDP \<Rightarrow> 'p UDP res" where
  "sendUpErrorIndication p la lp ra rp s =
     bind_res (deref (sockets s p)) (\<lambda>sd.
       Inr (udp_emit (Error_up (sd_appGateIndex sd)
         \<lparr>err_sockId = sockId sd, err_srcAddr = la, err_destAddr = ra, err_srcPort = sd_localPort sd,
          err_destPort = uint rp\<rparr>) s))"

definition sendDown ::
  "'p udp_env \<Rightarrow> 'p \<Rightarrow> IPvXAddress \<Rightarrow> u16 \<Rightarrow> IPvXAddress \<Rightarrow> u16 \<Rightarrow> int \<Rightarrow> bool \<Rightarrow> int \<Rightarrow> u8
     \<Rightarrow> 'p UDP \<Rightarrow> 'p UDP res" where
  "sendDown env x sa sp da dp ifid mloop hops tos s =
     (if isUnspecified da then Inl (Runtime_error ''send: unspecified destination address'')
      else if uint dp \<le> 0 \<or> uint dp > 65535 then Inl (Runtime_error ''send invalid remote port number'')
      else
        let pk = \<lparr>up_name = app_name env x, up_byteLength = UDP_HEADER_BYTES + app_length env x,
                  up_bitError = False, sourcePort = sp, destinationPort = dp, up_payload = Some x\<rparr>
        in bind_res
             (if \<not> isIPv6 da then
                bind_res (get4 sa) (\<lambda>sa. bind_res (get4 da) (\<lambda>da.
                  Inr (udp_emit (To_IPv4 pk \<lparr>ci_protocol = IP_PROT_UDP, ci_srcAddr = sa, ci_destAddr = da,
                    ci_typeOfService = tos, ci_interfaceId = ifid, ci_timeToLive = word_of_int hops,
                    ci_dontFragment = False, ci_multicastLoop = mloop\<rparr>) s)))
              else
                bind_res (get6 sa) (\<lambda>sa. bind_res (get6 da) (\<lambda>da.
                  Inr (udp_emit (To_IPv6 pk \<lparr>ci6_protocol = IP_PROT_UDP, ci6_srcAddr = sa, ci6_destAddr = da,
                    ci6_trafficClass = tos, ci6_hopLimit = word_of_int hops, ci6_interfaceId = ifid,
                    ci6_multicastLoop = mloop\<rparr>) s)))) (\<lambda>s.
             Inr (s\<lparr>numSent := numSent s + 1\<rparr>)))"

definition processPacketFromApp ::
  "'p udp_env \<Rightarrow> int \<Rightarrow> 'p \<Rightarrow> UDPSendCommand \<Rightarrow> 'p UDP \<Rightarrow> 'p UDP res" where
  "processPacketFromApp env gate x ctrl s =
     bind_res (getOrCreateSocket (snd_sockId ctrl) gate s) (\<lambda>(p, s).
     bind_res (deref (sockets s p)) (\<lambda>sd.
       let da = (if isUnspecified (snd_destAddr ctrl) then sd_remoteAddr sd else snd_destAddr ctrl);
           dp = (if snd_destPort ctrl = -1 then sd_remotePort sd else snd_destPort ctrl)
       in if isUnspecified da \<or> dp = -1 then
            Inl (Runtime_error ''send: missing destination address or port when sending over unconnected port'')
          else
            let sa = (if isUnspecified (snd_srcAddr ctrl) then sd_localAddr sd else snd_srcAddr ctrl);
                ifid = (if snd_interfaceId ctrl = -1 \<and> ipx_isMulticast da then
                          (case map_of (multicastAddrs sd) da of
                             None \<Rightarrow> multicastOutputInterfaceId sd
                           | Some i \<Rightarrow> if i \<noteq> -1 then i else multicastOutputInterfaceId sd)
                        else snd_interfaceId ctrl)
            in sendDown env x sa (word_of_int (sd_localPort sd)) da (word_of_int dp) ifid (multicastLoop sd)
                 (sd_ttl sd) (sd_typeOfService sd) s))"

section \<open>Packets from the network\<close>

definition processUndeliverablePacket :: "'p UDPPacket \<Rightarrow> udp_ctrl \<Rightarrow> 'p UDP \<Rightarrow> 'p UDP res" where
  "processUndeliverablePacket pk ctrl s =
     (let s = s\<lparr>numDroppedWrongPort := numDroppedWrongPort s + 1\<rparr>
      in case ctrl of
           Ctrl4 c \<Rightarrow> Inr (udp_emit (ICMPv4_sendError pk c ICMP_DESTINATION_UNREACHABLE ICMP_DU_PORT_UNREACHABLE) s)
         | Ctrl6 c \<Rightarrow> Inr (udp_emit (ICMPv6_sendError pk c ICMPv6_DESTINATION_UNREACHABLE PORT_UNREACHABLE) s)
         | Null_ctrl \<Rightarrow> Inl (Runtime_error ''arrived from lower layer without control info'')
         | Other_ctrl \<Rightarrow> Inl (Runtime_error ''arrived from lower layer with unrecognized control info''))"

text \<open>
  What the control info tells of a packet: source, destination, interface, time to live, type of
  service, and whether the destination is a multicast or the limited broadcast address.
\<close>

definition read_ctrl ::
  "udp_ctrl \<Rightarrow> (IPvXAddress \<times> IPvXAddress \<times> int \<times> int \<times> u8 \<times> bool \<times> bool) res" where
  "read_ctrl ctrl =
     (case ctrl of
        Ctrl4 c \<Rightarrow> Inr (IPv4 (ci_srcAddr c), IPv4 (ci_destAddr c), ci_interfaceId c, sint (ci_timeToLive c),
          ci_typeOfService c, ip_isMulticast (ci_destAddr c), isLimitedBroadcastAddress (ci_destAddr c))
      | Ctrl6 c \<Rightarrow> Inr (of_IPv6 (ci6_srcAddr c), of_IPv6 (ci6_destAddr c), ci6_interfaceId c, sint (ci6_hopLimit c),
          ci6_trafficClass c, ip6_isMulticast (ci6_destAddr c), False)
      | Null_ctrl \<Rightarrow> Inl (Runtime_error ''arrived from lower layer without control info'')
      | Other_ctrl \<Rightarrow> Inl (Runtime_error ''arrived from lower layer with unrecognized control info''))"

definition processUDPPacket :: "'p UDPPacket \<Rightarrow> udp_ctrl \<Rightarrow> 'p UDP \<Rightarrow> 'p UDP res" where
  "processUDPPacket pk ctrl s =
     (if up_bitError pk then Inr (s\<lparr>numDroppedBadChecksum := numDroppedBadChecksum s + 1\<rparr>)
      else
        bind_res (read_ctrl ctrl) (\<lambda>(sa, da, ifid, hops, tos, mcast, bcast).
          let sp = sourcePort pk; dp = destinationPort pk
          in if \<not> mcast \<and> \<not> bcast then
               bind_res (findSocketForUnicastPacket da dp sa sp s) (\<lambda>sd.
                 case sd of
                   None \<Rightarrow> processUndeliverablePacket pk ctrl s
                 | Some p \<Rightarrow> bind_res (deref (up_payload pk)) (\<lambda>x. sendUp x p sa sp da dp ifid hops tos s))
             else
               bind_res (findSocketsForMcastBcastPacket da dp sa sp mcast bcast s) (\<lambda>sds.
                 if sds = [] then processUndeliverablePacket pk ctrl s
                 else
                   bind_res (deref (up_payload pk)) (\<lambda>x.
                     fold_res (\<lambda>p. sendUp x p sa sp da dp ifid hops tos) sds s))))"

text \<open>
  An ICMP error carries the datagram it is about, with its addresses, and that carries a UDP packet;
  when a cast finds something else, nothing is there.
\<close>

datatype 'p icmp_packet =
    ICMP4 "(IPv4Address \<times> IPv4Address \<times> 'p UDPPacket option) option"
  | ICMP6 "(IPv6Address \<times> IPv6Address \<times> 'p UDPPacket option) option"
  | Not_ICMP

definition processICMPError :: "'p icmp_packet \<Rightarrow> 'p UDP \<Rightarrow> 'p UDP res" where
  "processICMPError m s =
     bind_res
       (case m of
          ICMP4 (Some (sa, da, Some pk)) \<Rightarrow> Inr (IPv4 sa, IPv4 da, pk)
        | ICMP6 (Some (sa, da, Some pk)) \<Rightarrow> Inr (of_IPv6 sa, of_IPv6 da, pk)
        | Not_ICMP \<Rightarrow> Inl (Runtime_error ''Unrecognized packet: not an ICMP error message'')
        | _ \<Rightarrow> Inl (Runtime_error ''check_and_cast(): cannot cast'')) (\<lambda>(la, ra, pk).
     bind_res (findSocketForUnicastPacket la (sourcePort pk) ra (destinationPort pk) s) (\<lambda>sd.
       case sd of
         None \<Rightarrow> Inr s
       | Some p \<Rightarrow> sendUpErrorIndication p la (sourcePort pk) ra (destinationPort pk) s))"

section \<open>Commands and messages\<close>

datatype udp_option =
    Set_time_to_live int
  | Set_type_of_service int
  | Set_broadcast bool
  | Set_multicast_interface int
  | Set_multicast_loop bool
  | Set_reuse_address bool
  | Join_multicast_groups "IPvXAddress list" "int list"
  | Leave_multicast_groups "IPvXAddress list"
  | Unknown_option

datatype udp_command =
    Bind int IPvXAddress int
  | Connect int IPvXAddress int
  | Close int
  | Set_option int udp_option
  | Unknown_command

definition set_option :: "sock_ptr \<Rightarrow> udp_option \<Rightarrow> 'p UDP \<Rightarrow> 'p UDP res" where
  "set_option p opt s =
     (case opt of
        Set_time_to_live n \<Rightarrow> udp_setTimeToLive p n s
      | Set_type_of_service n \<Rightarrow> udp_setTypeOfService p n s
      | Set_broadcast b \<Rightarrow> udp_setBroadcast p b s
      | Set_multicast_interface n \<Rightarrow> udp_setMulticastOutputInterface p n s
      | Set_multicast_loop b \<Rightarrow> udp_setMulticastLoop p b s
      | Set_reuse_address b \<Rightarrow> udp_setReuseAddress p b s
      | Join_multicast_groups addrs ids \<Rightarrow> joinMulticastGroups p addrs ids s
      | Leave_multicast_groups addrs \<Rightarrow> leaveMulticastGroups p addrs s
      | Unknown_option \<Rightarrow> Inl (Runtime_error ''Unknown subclass of UDPSetOptionCommand received from app''))"

definition processCommandFromApp :: "int \<Rightarrow> udp_command \<Rightarrow> 'p UDP \<Rightarrow> 'p UDP res" where
  "processCommandFromApp gate c s =
     (case c of
        Bind i la lp \<Rightarrow> udp_bind i gate la lp s
      | Connect i ra rp \<Rightarrow> udp_connect i gate ra rp s
      | Close i \<Rightarrow> udp_close i s
      | Set_option i opt \<Rightarrow> bind_res (getOrCreateSocket i gate s) (\<lambda>(p, s). set_option p opt s)
      | Unknown_command \<Rightarrow> Inl (Runtime_error ''Unknown command code (message kind) received from app''))"

datatype 'p udp_message =
    Packet_from_network "'p UDPPacket" udp_ctrl
  | Error_from_network "'p icmp_packet"
  | Packet_from_app int 'p UDPSendCommand
  | Command_from_app int udp_command

definition udp_handleMessage :: "'p udp_env \<Rightarrow> 'p udp_message \<Rightarrow> 'p UDP \<Rightarrow> 'p UDP res" where
  "udp_handleMessage env m s =
     (if \<not> isOperational s then Inl (Runtime_error ''Message received when UDP is OFF'')
      else case m of
        Packet_from_network pk ctrl \<Rightarrow> processUDPPacket pk ctrl s
      | Error_from_network e \<Rightarrow> processICMPError e s
      | Packet_from_app gate x ctrl \<Rightarrow> processPacketFromApp env gate x ctrl s
      | Command_from_app gate c \<Rightarrow> processCommandFromApp gate c s)"

text \<open>The stages of the operations on a node that concern the module.\<close>

datatype transport_operation =
  Start_at_transport_layer | Shutdown_at_transport_layer | Crash_node | Another_stage | Unsupported_operation

definition udp_handleOperationStage :: "transport_operation \<Rightarrow> 'p UDP \<Rightarrow> 'p UDP res" where
  "udp_handleOperationStage oper s =
     (case oper of
        Start_at_transport_layer \<Rightarrow> Inr (s\<lparr>isOperational := True\<rparr>)
      | Shutdown_at_transport_layer \<Rightarrow> Inr ((clearAllSockets s)\<lparr>isOperational := False\<rparr>)
      | Crash_node \<Rightarrow> Inr ((clearAllSockets s)\<lparr>isOperational := False\<rparr>)
      | Another_stage \<Rightarrow> Inr s
      | Unsupported_operation \<Rightarrow> Inl (Runtime_error ''Unsupported operation''))"

end
