(* ===== verification/UDP_Laws.thy ===== *)
theory UDP_Laws
  imports UDP_Module
begin

text \<open>
  What the UDP module promises. The two maps and the heap of sockets agree in every state that can be
  reached, so that no lookup follows a dangling pointer; a unicast packet goes to one socket, the one
  that a short reference definition names; a multicast or broadcast packet goes once to every socket
  that wants it. The last section has the cases in which \<^verbatim>\<open>bind\<close> does not do what it means to.
\<close>

section \<open>The maps and the heap\<close>

definition sockets_ok :: "'p UDP \<Rightarrow> bool" where
  "sockets_ok s \<longleftrightarrow>
     is_map (socketsByIdMap s) \<and> is_map (socketsByPortMap s)
     \<and> (\<forall>i p. map_of (socketsByIdMap s) i = Some p \<longleftrightarrow> (\<exists>sd. sockets s p = Some sd \<and> sockId sd = i))
     \<and> (\<forall>k. distinct (port_list k s)
           \<and> set (port_list k s) = {p. \<exists>sd. sockets s p = Some sd \<and> sd_localPort sd = k})
     \<and> (\<forall>p sd. sockets s p = Some sd \<longrightarrow> 0 \<le> sd_localPort sd \<and> sd_localPort sd \<le> 65535)
     \<and> (\<forall>p \<ge> next_socket s. sockets s p = None)
     \<and> 1024 \<le> unat (udp_lastEphemeralPort s) \<and> unat (udp_lastEphemeralPort s) < 5000"

lemma sockets_okD:
  assumes "sockets_ok s"
  shows "is_map (socketsByIdMap s)" "is_map (socketsByPortMap s)"
    "map_of (socketsByIdMap s) i = Some p \<longleftrightarrow> (\<exists>sd. sockets s p = Some sd \<and> sockId sd = i)"
    "distinct (port_list k s)"
    "set (port_list k s) = {p. \<exists>sd. sockets s p = Some sd \<and> sd_localPort sd = k}"
    "sockets s q = Some sd \<Longrightarrow> 0 \<le> sd_localPort sd" "sockets s q = Some sd \<Longrightarrow> sd_localPort sd \<le> 65535"
    "next_socket s \<le> q \<Longrightarrow> sockets s q = None"
    "1024 \<le> unat (udp_lastEphemeralPort s)" "unat (udp_lastEphemeralPort s) < 5000"
  using assms unfolding sockets_ok_def by blast+

lemma sockets_okI:
  assumes "is_map (socketsByIdMap s)" "is_map (socketsByPortMap s)"
    and "\<And>i p. map_of (socketsByIdMap s) i = Some p \<longleftrightarrow> (\<exists>sd. sockets s p = Some sd \<and> sockId sd = i)"
    and "\<And>k. distinct (port_list k s)"
    and "\<And>k. set (port_list k s) = {p. \<exists>sd. sockets s p = Some sd \<and> sd_localPort sd = k}"
    and "\<And>p sd. sockets s p = Some sd \<Longrightarrow> 0 \<le> sd_localPort sd \<and> sd_localPort sd \<le> 65535"
    and "\<And>p. next_socket s \<le> p \<Longrightarrow> sockets s p = None"
    and "1024 \<le> unat (udp_lastEphemeralPort s)" "unat (udp_lastEphemeralPort s) < 5000"
  shows "sockets_ok s"
  using assms unfolding sockets_ok_def by blast

text \<open>The parts of the state that the invariant does not read.\<close>

definition same_sockets :: "'p UDP \<Rightarrow> 'p UDP \<Rightarrow> bool" where
  "same_sockets s t \<longleftrightarrow> sockets t = sockets s \<and> next_socket t = next_socket s
     \<and> socketsByIdMap t = socketsByIdMap s \<and> socketsByPortMap t = socketsByPortMap s
     \<and> udp_lastEphemeralPort t = udp_lastEphemeralPort s"

lemma same_sockets_ok: "same_sockets s t \<Longrightarrow> sockets_ok s \<Longrightarrow> sockets_ok t"
  unfolding sockets_ok_def same_sockets_def port_list_def by simp

lemma same_sockets_refl [simp]: "same_sockets s s"
  by (simp add: same_sockets_def)

lemma same_sockets_trans: "same_sockets s t \<Longrightarrow> same_sockets t u \<Longrightarrow> same_sockets s u"
  by (simp add: same_sockets_def)

lemma new_UDP_ok: "sockets_ok (new_UDP ift up)"
  by (rule sockets_okI) (simp_all add: new_UDP_def port_list_def EPHEMERAL_PORTRANGE_START_def)

lemma port_list_set [simp]:
  "port_list k (set_port_list j l s) = (if k = j then l else port_list k s)"
  by (simp add: port_list_def set_port_list_def)

lemma set_port_list_simps [simp]:
  "sockets (set_port_list k l s) = sockets s" "next_socket (set_port_list k l s) = next_socket s"
  "socketsByIdMap (set_port_list k l s) = socketsByIdMap s"
  "socketsByPortMap (set_port_list k l s) = put k l (socketsByPortMap s)"
  "udp_lastEphemeralPort (set_port_list k l s) = udp_lastEphemeralPort s"
  by (simp_all add: set_port_list_def)

lemma port_list_upd [simp]:
  "port_list k (s\<lparr>sockets := h\<rparr>) = port_list k s" "port_list k (s\<lparr>next_socket := n\<rparr>) = port_list k s"
  "port_list k (s\<lparr>socketsByIdMap := m\<rparr>) = port_list k s"
  "port_list k (s\<lparr>udp_lastEphemeralPort := q\<rparr>) = port_list k s"
  "port_list k (s\<lparr>socketsByPortMap := []\<rparr>) = []"
  "port_list k (s\<lparr>socketsByPortMap := erase j (socketsByPortMap s)\<rparr>) = (if k = j then [] else port_list k s)"
  by (simp_all add: port_list_def)

text \<open>A change to a socket that keeps its id and its port.\<close>

lemma modify_socket_ok:
  assumes "sockets_ok s" "modify_socket p f s = Inr t"
    and "\<And>d. sockId (f d) = sockId d" "\<And>d. sd_localPort (f d) = sd_localPort d"
  shows "sockets_ok t"
proof -
  obtain d where d: "sockets s p = Some d" and t: "t = s\<lparr>sockets := (sockets s)(p \<mapsto> f d)\<rparr>"
    using assms(2) by (auto simp: modify_socket_def)
  note ok = sockets_okD[OF assms(1)]
  have eq: "(\<exists>sd. sockets t q = Some sd \<and> P (sockId sd) (sd_localPort sd))
      \<longleftrightarrow> (\<exists>sd. sockets s q = Some sd \<and> P (sockId sd) (sd_localPort sd))" for q P
    using d assms(3,4) by (simp add: t)
  show ?thesis
  proof (rule sockets_okI)
    show "map_of (socketsByIdMap t) i = Some q \<longleftrightarrow> (\<exists>sd. sockets t q = Some sd \<and> sockId sd = i)" for i q
      using eq[of q "\<lambda>j _. j = i"] ok(3) by (simp add: t)
    show "set (port_list k t) = {q. \<exists>sd. sockets t q = Some sd \<and> sd_localPort sd = k}" for k
      using eq[of _ "\<lambda>_ j. j = k"] ok(5) by (simp add: t)
    show "0 \<le> sd_localPort sd \<and> sd_localPort sd \<le> 65535" if "sockets t q = Some sd" for q sd
      using that ok(6,7) d assms(4) by (auto simp: t split: if_splits)
    show "sockets t q = None" if "next_socket t \<le> q" for q
      using that ok(8)[of q] d by (auto simp: t)
  qed (use ok t in simp_all)
qed

interpretation udp_ports: port_allocator udp_lastEphemeralPort
  "\<lambda>s p. map_of (socketsByPortMap s) (uint p) \<noteq> None"
  "\<lambda>p s. s\<lparr>udp_lastEphemeralPort := p\<rparr>" udp_getEphemeralPort
  by unfold_locales (simp add: udp_getEphemeralPort_def Let_def)

text \<open>What a successful \<^verbatim>\<open>createSocket\<close> has done.\<close>

lemma createSocket_Inr:
  assumes "createSocket i gate la lp s = Inr (p, t)" "sockets_ok s"
  obtains port e where
    "p = next_socket s" "lp \<noteq> -1 \<Longrightarrow> port = lp \<and> e = udp_lastEphemeralPort s"
    "lp = -1 \<Longrightarrow> port = uint e \<and> map_of (socketsByPortMap s) port = None"
    "1024 \<le> unat e" "unat e < 5000"
    "t = s\<lparr>udp_lastEphemeralPort := e,
        sockets := (sockets s)(p \<mapsto> (new_SockDesc i gate)\<lparr>isBound := False, sd_localAddr := la,
          sd_localPort := port, onlyLocalPortIsSet := isUnspecified la\<rparr>),
        next_socket := p + 1, socketsByIdMap := put i p (socketsByIdMap s),
        socketsByPortMap := put port (port_list port s @ [p]) (socketsByPortMap s)\<rparr>"
proof (cases "lp = -1")
  case True
  obtain s1 e where e: "udp_getEphemeralPort s = Some (Inr (s1, e))"
    using assms(1) True by (auto simp: createSocket_def of_loop_eq_Inr)
  have f: "s1 = s\<lparr>udp_lastEphemeralPort := e\<rparr>" "map_of (socketsByPortMap s) (uint e) = None"
    "1024 \<le> unat e" "unat e < 5000"
    using udp_ports.getPort_free[OF e sockets_okD(9,10)[OF assms(2)]] by auto
  show ?thesis
    by (rule that[of "uint e" e]) (use assms(1) True e f in \<open>auto simp: createSocket_def Let_def set_port_list_def port_list_def\<close>)
next
  case False
  then show ?thesis
    by (intro that[of lp "udp_lastEphemeralPort s"])
      (use assms(1) sockets_okD(9,10)[OF assms(2)] in \<open>auto simp: createSocket_def Let_def set_port_list_def port_list_def\<close>)
qed

lemma createSocket_ok:
  assumes "createSocket i gate la lp s = Inr (p, t)" "sockets_ok s"
    and "map_of (socketsByIdMap s) i = None" "-1 \<le> lp" "lp \<le> 65535"
  shows "sockets_ok t"
proof (rule createSocket_Inr[OF assms(1,2)])
  fix port e
  let ?sd = "(new_SockDesc i gate)\<lparr>isBound := False, sd_localAddr := la, sd_localPort := port,
    onlyLocalPortIsSet := isUnspecified la\<rparr>"
  assume p: "p = next_socket s" and lp: "lp \<noteq> -1 \<Longrightarrow> port = lp \<and> e = udp_lastEphemeralPort s"
    "lp = -1 \<Longrightarrow> port = uint e \<and> map_of (socketsByPortMap s) port = None"
    and e: "1024 \<le> unat e" "unat e < 5000"
    and t: "t = s\<lparr>udp_lastEphemeralPort := e, sockets := (sockets s)(p \<mapsto> ?sd), next_socket := p + 1,
        socketsByIdMap := put i p (socketsByIdMap s),
        socketsByPortMap := put port (port_list port s @ [p]) (socketsByPortMap s)\<rparr>"
  note ok = sockets_okD[OF assms(2)]
  have port: "0 \<le> port \<and> port \<le> 65535"
  proof (cases "lp = -1")
    case True
    have "uint e = int (unat e)" by simp
    then show ?thesis using True lp(2) e(2) by linarith
  next
    case False
    then show ?thesis using lp(1) assms(4,5) by simp
  qed
  have fresh: "sockets s p = None" using ok(8) p by simp
  have pl: "port_list k t = (if k = port then port_list port s @ [p] else port_list k s)" for k
    by (simp add: t port_list_def)
  have st: "sockets t = (sockets s)(p \<mapsto> ?sd)" by (simp add: t)
  have i: "\<not> (\<exists>q sd. sockets s q = Some sd \<and> sockId sd = i)" using ok(3)[of i] assms(3) by auto
  show "sockets_ok t"
  proof (rule sockets_okI)
    show "map_of (socketsByIdMap t) j = Some q \<longleftrightarrow> (\<exists>sd. sockets t q = Some sd \<and> sockId sd = j)" for j q
      using ok(3)[of j q] i fresh by (auto simp: t new_SockDesc_def)
    show "set (port_list k t) = {q. \<exists>sd. sockets t q = Some sd \<and> sd_localPort sd = k}" for k
      using ok(5) fresh by (auto simp: pl st)
    show "distinct (port_list k t)" for k
      using ok(4) ok(5) fresh by (simp add: pl)
    show "0 \<le> sd_localPort sd \<and> sd_localPort sd \<le> 65535" if "sockets t q = Some sd" for q sd
      using that ok(6,7) port by (auto simp: t split: if_splits)
    show "sockets t q = None" if "next_socket t \<le> q" for q
      using that ok(8)[of q] p by (simp add: t)
  qed (use ok e t in \<open>simp_all add: is_map_put\<close>)
qed

lemma getOrCreateSocket_ok:
  assumes "getOrCreateSocket i gate s = Inr (p, t)" "sockets_ok s"
  shows "sockets_ok t"
  using assms createSocket_ok[OF _ assms(2)]
  by (auto simp: getOrCreateSocket_def split: if_splits option.splits)

text \<open>Moving a socket to another port, as \<^verbatim>\<open>bind\<close> does it.\<close>

lemma move_port_ok:
  assumes "sockets_ok s" "sockets s p = Some d" "sd_localPort d \<noteq> lp" "0 \<le> lp" "lp \<le> 65535"
    and "modify_socket p (\<lambda>d. d\<lparr>sd_localPort := lp\<rparr>)
      (set_port_list (sd_localPort d) (removeAll p (port_list (sd_localPort d) s)) s) = Inr t"
  shows "sockets_ok (set_port_list lp (port_list lp t @ [p]) t)" (is "sockets_ok ?u")
proof -
  note ok = sockets_okD[OF assms(1)]
  let ?old = "sd_localPort d"
  have t: "t = (set_port_list ?old (removeAll p (port_list ?old s)) s)\<lparr>sockets := (sockets s)(p \<mapsto> d\<lparr>sd_localPort := lp\<rparr>)\<rparr>"
    using assms(2,6) by (simp add: modify_socket_def)
  have pl: "port_list k ?u = (if k = lp then port_list lp s @ [p]
      else if k = ?old then removeAll p (port_list k s) else port_list k s)" for k
    using assms(3) by (simp add: t)
  have sk: "sockets ?u = (sockets s)(p \<mapsto> d\<lparr>sd_localPort := lp\<rparr>)" by (simp add: t)
  show ?thesis
  proof (rule sockets_okI)
    show "map_of (socketsByIdMap ?u) i = Some q \<longleftrightarrow> (\<exists>sd. sockets ?u q = Some sd \<and> sockId sd = i)" for i q
      using ok(3)[of i q] assms(2) by (simp add: sk) (simp add: t)
    show "distinct (port_list k ?u)" for k
      using ok(4,5) assms(2,3) unfolding pl by (simp add: distinct_removeAll)
    show "set (port_list k ?u) = {q. \<exists>sd. sockets ?u q = Some sd \<and> sd_localPort sd = k}" for k
      using ok(5) assms(2,3) unfolding pl sk by auto
    show "0 \<le> sd_localPort sd \<and> sd_localPort sd \<le> 65535" if "sockets ?u q = Some sd" for q sd
      using that ok(6,7)[of q sd] assms(4,5) unfolding sk by (auto split: if_splits)
    show "sockets ?u q = None" if "next_socket ?u \<le> q" for q
      using that ok(8)[of q] assms(2) by (auto simp: t)
  qed (use ok in \<open>simp_all add: t is_map_put\<close>)
qed

lemma bind_ok:
  assumes "udp_bind i gate la lp s = Inr t" "sockets_ok s"
  shows "sockets_ok t"
proof -
  have r: "-1 \<le> lp" "lp \<le> 65535" using assms(1) by (auto simp: udp_bind_def split: if_splits)
  show ?thesis
  proof (cases "map_of (socketsByIdMap s) i")
    case None
    then obtain p s1 where 1: "createSocket i gate la lp s = Inr (p, s1)"
      "modify_socket p (\<lambda>d. d\<lparr>isBound := True\<rparr>) s1 = Inr t"
      using assms(1) by (auto simp: udp_bind_def Let_def split: if_splits)
    show ?thesis
      by (rule modify_socket_ok[OF createSocket_ok[OF 1(1) assms(2) None r] 1(2)]) simp_all
  next
    case (Some p)
    then obtain d s1 where d: "sockets s p = Some d"
      and 1: "modify_socket p (\<lambda>d. d\<lparr>isBound := True, sd_localAddr := la\<rparr>) s = Inr s1"
      and 2: "(if lp \<noteq> -1 \<and> sd_localPort d \<noteq> lp then
            bind_res (modify_socket p (\<lambda>d. d\<lparr>sd_localPort := lp\<rparr>)
              (set_port_list (sd_localPort d) (removeAll p (port_list (sd_localPort d) s1)) s1))
              (\<lambda>s. Inr (set_port_list lp (port_list lp s @ [p]) s))
          else Inr s1) = Inr t"
      using assms(1) by (auto simp: udp_bind_def Let_def split: if_splits)
    have ok1: "sockets_ok s1" by (rule modify_socket_ok[OF assms(2) 1]) simp_all
    let ?d = "d\<lparr>isBound := True, sd_localAddr := la\<rparr>"
    have d1: "sockets s1 p = Some ?d" using d 1 by (auto simp: modify_socket_def)
    show ?thesis
    proof (cases "lp \<noteq> -1 \<and> sd_localPort d \<noteq> lp")
      case True
      then obtain u where u: "modify_socket p (\<lambda>d. d\<lparr>sd_localPort := lp\<rparr>)
          (set_port_list (sd_localPort ?d) (removeAll p (port_list (sd_localPort ?d) s1)) s1) = Inr u"
        "t = set_port_list lp (port_list lp u @ [p]) u"
        using 2 by auto
      show ?thesis unfolding u(2)
        by (rule move_port_ok[OF ok1 d1 _ _ _ u(1)]) (use True r in auto)
    next
      case False
      then show ?thesis using 2 ok1 by (simp split: if_splits)
    qed
  qed
qed

lemma connect_ok:
  assumes "udp_connect i gate ra rp s = Inr t" "sockets_ok s"
  shows "sockets_ok t"
proof -
  obtain p u where u: "getOrCreateSocket i gate s = Inr (p, u)"
    "modify_socket p (\<lambda>d. d\<lparr>sd_remoteAddr := ra, sd_remotePort := rp, onlyLocalPortIsSet := False\<rparr>) u = Inr t"
    using assms(1) by (auto simp: udp_connect_def split: if_splits)
  show ?thesis by (rule modify_socket_ok[OF getOrCreateSocket_ok[OF u(1) assms(2)] u(2)]) simp_all
qed

lemma close_ok:
  assumes "udp_close i s = Inr t" "sockets_ok s"
  shows "sockets_ok t"
proof -
  note ok = sockets_okD[OF assms(2)]
  obtain p where p: "map_of (socketsByIdMap s) i = Some p"
    using assms(1) by (auto simp: udp_close_def getSocketById_def split: option.splits)
  then obtain sd where sd: "sockets s p = Some sd" "sockId sd = i" using ok(3) by auto
  let ?k = "sd_localPort sd"
  have pl: "port_list k t = (if k = ?k then remove1 p (port_list k s) else port_list k s)" for k
    using assms(1) p sd by (auto simp: udp_close_def getSocketById_def Let_def port_list_def set_port_list_def split: if_splits)
  have t: "sockets t = (sockets s)(p := None)" "next_socket t = next_socket s"
    "socketsByIdMap t = erase i (socketsByIdMap s)" "udp_lastEphemeralPort t = udp_lastEphemeralPort s"
    "is_map (socketsByPortMap t)"
    using assms(1) p sd ok(2)
    by (auto simp: udp_close_def getSocketById_def Let_def set_port_list_def is_map_put is_map_erase)
  show ?thesis
  proof (rule sockets_okI)
    show "map_of (socketsByIdMap t) j = Some q \<longleftrightarrow> (\<exists>sd. sockets t q = Some sd \<and> sockId sd = j)" for j q
      using ok(3)[of j q] ok(3)[of i p] p sd by (auto simp: t)
    show "distinct (port_list k t)" for k using ok(4) by (simp add: pl)
    show "set (port_list k t) = {q. \<exists>sd. sockets t q = Some sd \<and> sd_localPort sd = k}" for k
      using ok(4)[of k] ok(5)[of k] sd by (auto simp: pl t)
    show "0 \<le> sd_localPort sd \<and> sd_localPort sd \<le> 65535" if "sockets t q = Some sd" for q sd
      using that ok(6,7)[of q sd] by (simp add: t split: if_splits)
    show "sockets t q = None" if "next_socket t \<le> q" for q
      using that ok(8)[of q] by (simp add: t)
  qed (use ok t in \<open>simp_all add: is_map_erase\<close>)
qed

lemma clear_heap:
  "fold (\<lambda>(i, p) h. h(p := None)) m h q = (if q \<in> snd ` set m then None else h q)"
  by (induction m arbitrary: h) auto

lemma clear_ok:
  assumes "sockets_ok s"
  shows "sockets_ok (clearAllSockets s)" "sockets (clearAllSockets s) = (\<lambda>_. None)"
proof -
  note ok = sockets_okD[OF assms]
  have "q \<in> snd ` set (socketsByIdMap s)" if "sockets s q = Some sd" for q sd
  proof -
    have "map_of (socketsByIdMap s) (sockId sd) = Some q" using ok(3) that by auto
    then show ?thesis by (metis map_of_SomeD image_eqI snd_conv)
  qed
  then show e: "sockets (clearAllSockets s) = (\<lambda>_. None)"
    by (force simp: clearAllSockets_def clear_heap fun_eq_iff)
  show "sockets_ok (clearAllSockets s)"
    by (rule sockets_okI) (use ok(9,10) e in \<open>simp_all add: clearAllSockets_def port_list_def\<close>)
qed

section \<open>Every handler keeps them in agreement\<close>

lemma udp_emit_same [simp]: "same_sockets s (udp_emit e s)"
  by (simp add: same_sockets_def udp_emit_def)

lemma same_sockets_upd [simp]:
  "same_sockets s (s\<lparr>numSent := n\<rparr>)" "same_sockets s (s\<lparr>numPassedUp := n\<rparr>)"
  "same_sockets s (s\<lparr>numDroppedWrongPort := n\<rparr>)" "same_sockets s (s\<lparr>numDroppedBadChecksum := n\<rparr>)"
  "same_sockets s (s\<lparr>isOperational := b\<rparr>)" "same_sockets s (s\<lparr>udp_ift := ift\<rparr>)"
  "same_sockets s (s\<lparr>udp_out := es\<rparr>)" "same_sockets s (s\<lparr>udp_ift := ift, udp_out := es\<rparr>)"
  by (simp_all add: same_sockets_def)

lemma addMulticast_same: "addMulticastAddressToInterface ie a s = Inr t \<Longrightarrow> same_sockets s t"
  by (auto simp: addMulticastAddressToInterface_def split: IPvXAddress.splits)

lemma join_group_ok:
  assumes "join_group p x s = Inr t" "sockets_ok s"
  shows "sockets_ok t"
proof -
  obtain a i where x: "x = (a, i)" by (cases x)
  obtain u where u: "modify_socket p (\<lambda>d. d\<lparr>multicastAddrs := put a i (multicastAddrs d)\<rparr>) s = Inr u"
    and t: "(if i \<noteq> -1 then (case getInterfaceById i (udp_ift u) of
          None \<Rightarrow> Inl (Runtime_error ''Interface id does not exist'')
        | Some ie \<Rightarrow> addMulticastAddressToInterface ie a u)
      else fold_res (\<lambda>k s. bind_res (getInterface (int k) (udp_ift s)) (\<lambda>ie. addMulticastAddressToInterface ie a s))
        [0..<getNumInterfaces (udp_ift u)] u) = Inr t"
    using assms(1) x by (auto simp: join_group_def ASSERT_eq_Inr)
  have "sockets_ok u" by (rule modify_socket_ok[OF assms(2) u]) simp_all
  moreover have "same_sockets u t"
  proof (cases "i = -1")
    case True
    then have f: "fold_res (\<lambda>k s. bind_res (getInterface (int k) (udp_ift s)) (\<lambda>ie. addMulticastAddressToInterface ie a s))
        [0..<getNumInterfaces (udp_ift u)] u = Inr t" using t by simp
    show ?thesis
      by (rule fold_res_invariant[OF _ _ f]) (auto intro: same_sockets_trans addMulticast_same)
  next
    case False
    then show ?thesis using t addMulticast_same by (auto split: option.splits)
  qed
  ultimately show ?thesis using same_sockets_ok by blast
qed

lemma join_ok: "joinMulticastGroups p as ids s = Inr t \<Longrightarrow> sockets_ok s \<Longrightarrow> sockets_ok t"
  unfolding joinMulticastGroups_def by (rule fold_res_invariant[of _ sockets_ok]) (auto intro: join_group_ok)

lemma leave_ok: "leaveMulticastGroups p as s = Inr t \<Longrightarrow> sockets_ok s \<Longrightarrow> sockets_ok t"
  unfolding leaveMulticastGroups_def
  by (rule fold_res_invariant[of _ sockets_ok]) (auto intro: modify_socket_ok)

lemma set_option_ok:
  assumes "set_option p opt s = Inr t" "sockets_ok s"
  shows "sockets_ok t"
  using assms
  by (cases opt) (auto simp: set_option_def udp_setTimeToLive_def udp_setTypeOfService_def udp_setBroadcast_def
    udp_setMulticastOutputInterface_def udp_setMulticastLoop_def udp_setReuseAddress_def
    intro: modify_socket_ok join_ok leave_ok)

lemma sendUp_same: "sendUp x p sa sp da dp ifid hops tos s = Inr t \<Longrightarrow> same_sockets s t"
  by (auto simp: sendUp_def same_sockets_def udp_emit_def)

lemma sendDown_same: "sendDown env x sa sp da dp ifid ml hops tos s = Inr t \<Longrightarrow> same_sockets s t"
  by (auto simp: sendDown_def same_sockets_def udp_emit_def Let_def split: if_splits)

lemma undeliverable_same: "processUndeliverablePacket pk ctrl s = Inr t \<Longrightarrow> same_sockets s t"
  by (auto simp: processUndeliverablePacket_def same_sockets_def udp_emit_def Let_def split: udp_ctrl.splits)

lemma processUDPPacket_same:
  assumes "processUDPPacket pk ctrl s = Inr t"
  shows "same_sockets s t"
proof -
  have all: "same_sockets s t" if "fold_res (\<lambda>p. sendUp x p sa sp da dp ifid hops tos) ps s = Inr t"
    for x sa sp da dp ifid hops tos ps
    by (rule fold_res_invariant[OF _ _ that]) (auto intro: same_sockets_trans sendUp_same)
  show ?thesis
    using assms undeliverable_same[of pk ctrl s t] sendUp_same[of _ _ _ _ _ _ _ _ _ s t] all
    by (auto simp: processUDPPacket_def Let_def split: if_splits option.splits)
qed

lemma sendUpError_same: "sendUpErrorIndication p la lp ra rp s = Inr t \<Longrightarrow> same_sockets s t"
  by (auto simp: sendUpErrorIndication_def)

lemma processICMPError_same: "processICMPError m s = Inr t \<Longrightarrow> same_sockets s t"
  unfolding processICMPError_def
  by (elim bind_resE) (auto simp: split_beta elim!: bind_resE split: option.splits dest: sendUpError_same)

lemma sendDown_ok: "sockets_ok s \<Longrightarrow> res_all sockets_ok (sendDown env x sa sp da dp ifid ml hops tos s)"
  using sendDown_same same_sockets_ok by (fastforce simp: res_all_def)

lemma processPacketFromApp_ok:
  assumes "processPacketFromApp env gate x ctrl s = Inr t" "sockets_ok s"
  shows "sockets_ok t"
proof -
  have "res_all sockets_ok (processPacketFromApp env gate x ctrl s)"
    unfolding processPacketFromApp_def Let_def split_beta
    by (intro res_all_bind res_all_if res_all_Inl sendDown_ok) (auto intro: getOrCreateSocket_ok[OF _ assms(2)])
  then show ?thesis using assms(1) by (simp add: res_all_def)
qed

lemma processCommandFromApp_ok:
  assumes "processCommandFromApp gate c s = Inr t" "sockets_ok s"
  shows "sockets_ok t"
proof (cases c)
  case (Set_option i opt)
  then obtain p u where "getOrCreateSocket i gate s = Inr (p, u)" "set_option p opt u = Inr t"
    using assms(1) by (auto simp: processCommandFromApp_def)
  then show ?thesis using getOrCreateSocket_ok[OF _ assms(2)] set_option_ok by blast
qed (use assms bind_ok connect_ok close_ok in \<open>auto simp: processCommandFromApp_def\<close>)

lemma udp_handleMessage_ok:
  assumes "udp_handleMessage env m s = Inr t" "sockets_ok s"
  shows "sockets_ok t"
proof (cases m)
  case (Packet_from_network pk ctrl)
  then have "processUDPPacket pk ctrl s = Inr t" using assms(1) by (simp add: udp_handleMessage_def split: if_splits)
  then show ?thesis using processUDPPacket_same same_sockets_ok assms(2) by blast
next
  case (Error_from_network e)
  then have "processICMPError e s = Inr t" using assms(1) by (simp add: udp_handleMessage_def split: if_splits)
  then show ?thesis using processICMPError_same same_sockets_ok assms(2) by blast
next
  case (Packet_from_app gate x ctrl)
  then have "processPacketFromApp env gate x ctrl s = Inr t"
    using assms(1) by (simp add: udp_handleMessage_def split: if_splits)
  then show ?thesis using assms(2) by (rule processPacketFromApp_ok)
next
  case (Command_from_app gate c)
  then have "processCommandFromApp gate c s = Inr t"
    using assms(1) by (simp add: udp_handleMessage_def split: if_splits)
  then show ?thesis using processCommandFromApp_ok assms(2) by blast
qed

text \<open>
  The states a module can get into: it is created, serves messages, takes part in the operations on
  its node, and the node's interfaces change.
\<close>

inductive udp_reachable :: "'p udp_env \<Rightarrow> 'p UDP \<Rightarrow> bool" for env where
  start: "udp_reachable env (new_UDP ift up)"
| message: "udp_reachable env s \<Longrightarrow> udp_handleMessage env m s = Inr t \<Longrightarrow> udp_reachable env t"
| operation: "udp_reachable env s \<Longrightarrow> udp_handleOperationStage oper s = Inr t \<Longrightarrow> udp_reachable env t"
| interfaces: "udp_reachable env s \<Longrightarrow> udp_reachable env (s\<lparr>udp_ift := ift\<rparr>)"

lemma udp_operation_ok:
  assumes "udp_handleOperationStage oper s = Inr t" "sockets_ok s"
  shows "sockets_ok t"
proof (cases oper)
  case Start_at_transport_layer
  then have "same_sockets s t" using assms(1) by (auto simp: udp_handleOperationStage_def)
  then show ?thesis using assms(2) by (rule same_sockets_ok)
next
  case Shutdown_at_transport_layer
  then have "same_sockets (clearAllSockets s) t" using assms(1) by (auto simp: udp_handleOperationStage_def)
  then show ?thesis using clear_ok(1)[OF assms(2)] by (rule same_sockets_ok)
next
  case Crash_node
  then have "same_sockets (clearAllSockets s) t" using assms(1) by (auto simp: udp_handleOperationStage_def)
  then show ?thesis using clear_ok(1)[OF assms(2)] by (rule same_sockets_ok)
qed (use assms in \<open>auto simp: udp_handleOperationStage_def\<close>)

lemma udp_reachable_ok: "udp_reachable env s \<Longrightarrow> sockets_ok s"
proof (induction rule: udp_reachable.induct)
  case (start ift up)
  show ?case by (rule new_UDP_ok)
next
  case (message s m t)
  show ?case by (rule udp_handleMessage_ok[OF message.hyps(2) message.IH])
next
  case (operation s oper t)
  show ?case by (rule udp_operation_ok[OF operation.hyps(2) operation.IH])
next
  case (interfaces s ift)
  show ?case by (rule same_sockets_ok[OF _ interfaces.IH]) simp
qed

section \<open>Which socket gets a packet\<close>

text \<open>The sockets on a port that satisfy a condition, in the order of the port's list.\<close>

definition wanting :: "(SockDesc \<Rightarrow> bool) \<Rightarrow> (sock_ptr \<Rightarrow> SockDesc option) \<Rightarrow> sock_ptr list \<Rightarrow> sock_ptr list" where
  "wanting P h l = filter (\<lambda>p. case h p of None \<Rightarrow> False | Some sd \<Rightarrow> P sd) l"

text \<open>
  The reference for a unicast packet: the last socket that is bound to the very address, and if there
  is none the first that is bound to no address.
\<close>

definition unicast_target ::
  "(SockDesc \<Rightarrow> bool) \<Rightarrow> (sock_ptr \<Rightarrow> SockDesc option) \<Rightarrow> sock_ptr list \<Rightarrow> sock_ptr option" where
  "unicast_target P h l =
     (let specific = wanting (\<lambda>sd. P sd \<and> \<not> isUnspecified (sd_localAddr sd)) h l; all = wanting P h l
      in if specific \<noteq> [] then Some (last specific) else if all \<noteq> [] then Some (hd all) else None)"

lemma wanting_simps [simp]:
  "wanting P h [] = []" "wanting P h (l @ l') = wanting P h l @ wanting P h l'"
  "wanting P h [p] = (case h p of None \<Rightarrow> [] | Some sd \<Rightarrow> if P sd then [p] else [])"
  by (simp_all add: wanting_def split: option.split)

lemma set_wanting: "set (wanting P h l) = {p \<in> set l. \<exists>sd. h p = Some sd \<and> P sd}"
  by (auto simp: wanting_def split: option.splits)

lemma unicast_loop_target:
  assumes "\<forall>p \<in> set l. h p \<noteq> None"
  shows "unicast_loop h la ra rp (rev l) any =
    Inr (case unicast_target (accepts_unicast la ra rp) h l of None \<Rightarrow> any | Some p \<Rightarrow> Some p)"
  using assms
proof (induction l arbitrary: any rule: rev_induct)
  case (snoc p l)
  then obtain sd where sd: "h p = Some sd" by auto
  show ?case
    using snoc.prems sd by (simp add: snoc.IH unicast_target_def Let_def)
qed (simp add: unicast_target_def)

lemma mcast_loop_wanting:
  assumes "\<forall>p \<in> set l. h p \<noteq> None"
  shows "mcast_loop h P l = Inr (wanting P h l)"
  using assms by (induction l) (auto simp: wanting_def)

lemma on_port:
  assumes "sockets_ok s"
  shows "p \<in> set (port_list k s) \<longleftrightarrow> (\<exists>sd. sockets s p = Some sd \<and> sd_localPort sd = k)"
  using sockets_okD(5)[OF assms] by simp

lemma findSocketForUnicastPacket_target:
  assumes "sockets_ok s"
  shows "findSocketForUnicastPacket la lp ra rp s =
    Inr (unicast_target (accepts_unicast la ra rp) (sockets s) (port_list (uint lp) s))"
proof -
  have "\<forall>p \<in> set (port_list (uint lp) s). sockets s p \<noteq> None" using on_port[OF assms] by auto
  then show ?thesis
    using unicast_loop_target[of "port_list (uint lp) s" "sockets s" la ra rp None]
    by (auto simp: findSocketForUnicastPacket_def port_list_def unicast_target_def split: option.splits)
qed

lemma findSocketsForMcastBcastPacket_wanting:
  assumes "sockets_ok s" "m \<or> b"
  shows "findSocketsForMcastBcastPacket la lp ra rp m b s =
    Inr (wanting (accepts_mcast la ra rp m b) (sockets s) (port_list (uint lp) s))"
proof -
  have "\<forall>p \<in> set (port_list (uint lp) s). sockets s p \<noteq> None" using on_port[OF assms(1)] by auto
  then show ?thesis
    using mcast_loop_wanting[of "port_list (uint lp) s" "sockets s"] assms(2)
    by (auto simp: findSocketsForMcastBcastPacket_def port_list_def split: option.splits)
qed

text \<open>What an application is told of a packet.\<close>

definition data_up ::
  "'p \<Rightarrow> IPvXAddress \<Rightarrow> u16 \<Rightarrow> IPvXAddress \<Rightarrow> u16 \<Rightarrow> int \<Rightarrow> int \<Rightarrow> u8 \<Rightarrow> SockDesc \<Rightarrow> 'p udp_event" where
  "data_up x sa sp da dp ifid hops tos sd =
     Data_up (sd_appGateIndex sd)
       \<lparr>ind_sockId = sockId sd, ind_srcAddr = sa, ind_destAddr = da, ind_srcPort = uint sp, ind_destPort = uint dp,
        ind_ttl = hops, ind_interfaceId = ifid, ind_typeOfService = tos\<rparr> x"

lemma sendUp_eq:
  "sockets s p = Some sd \<Longrightarrow> sendUp x p sa sp da dp ifid hops tos s =
     Inr (s\<lparr>udp_out := udp_out s @ [data_up x sa sp da dp ifid hops tos sd], numPassedUp := numPassedUp s + 1\<rparr>)"
  by (simp add: sendUp_def udp_emit_def data_up_def)

lemma sendUp_all:
  "\<forall>p \<in> set ps. sockets s p \<noteq> None \<Longrightarrow> fold_res (\<lambda>p. sendUp x p sa sp da dp ifid hops tos) ps s =
     Inr (s\<lparr>udp_out := udp_out s @ map (\<lambda>p. data_up x sa sp da dp ifid hops tos (the (sockets s p))) ps,
            numPassedUp := numPassedUp s + int (length ps)\<rparr>)"
proof (induction ps arbitrary: s)
  case (Cons p ps)
  then obtain sd where sd: "sockets s p = Some sd" by auto
  then show ?case using Cons by (simp add: sendUp_eq)
qed simp

text \<open>The ICMP message that says that nobody listens on a port.\<close>

definition port_unreachable :: "'p UDPPacket \<Rightarrow> udp_ctrl \<Rightarrow> 'p udp_event list" where
  "port_unreachable pk ctrl =
     (case ctrl of
        Ctrl4 c \<Rightarrow> [ICMPv4_sendError pk c ICMP_DESTINATION_UNREACHABLE ICMP_DU_PORT_UNREACHABLE]
      | Ctrl6 c \<Rightarrow> [ICMPv6_sendError pk c ICMPv6_DESTINATION_UNREACHABLE PORT_UNREACHABLE]
      | _ \<Rightarrow> [])"

lemma undeliverable_eq:
  assumes "read_ctrl ctrl = Inr r"
  shows "processUndeliverablePacket pk ctrl s =
    Inr (s\<lparr>numDroppedWrongPort := numDroppedWrongPort s + 1, udp_out := udp_out s @ port_unreachable pk ctrl\<rparr>)"
  using assms
  by (cases ctrl) (simp_all add: read_ctrl_def processUndeliverablePacket_def port_unreachable_def udp_emit_def Let_def)

lemma target_cases:
  assumes "sockets_ok s"
  shows "case unicast_target P (sockets s) (port_list k s) of
      None \<Rightarrow> \<forall>p sd. sockets s p = Some sd \<and> sd_localPort sd = k \<longrightarrow> \<not> P sd
    | Some p \<Rightarrow> \<exists>sd. sockets s p = Some sd \<and> sd_localPort sd = k \<and> P sd
        \<and> (isUnspecified (sd_localAddr sd) \<longrightarrow>
             (\<forall>q sd'. sockets s q = Some sd' \<and> sd_localPort sd' = k \<and> P sd' \<longrightarrow> isUnspecified (sd_localAddr sd')))"
proof -
  let ?spec = "wanting (\<lambda>sd. P sd \<and> \<not> isUnspecified (sd_localAddr sd)) (sockets s) (port_list k s)"
  let ?all = "wanting P (sockets s) (port_list k s)"
  note on = on_port[OF assms]
  show ?thesis
  proof (cases "?spec = []")
    case False
    then have "last ?spec \<in> set ?spec" by simp
    then show ?thesis using False by (auto simp: unicast_target_def set_wanting on)
  next
    case True
    then have none: "\<not> (\<exists>p sd. sockets s p = Some sd \<and> sd_localPort sd = k \<and> P sd \<and> \<not> isUnspecified (sd_localAddr sd))"
      using set_wanting[of "\<lambda>sd. P sd \<and> \<not> isUnspecified (sd_localAddr sd)" "sockets s" "port_list k s"] on by auto
    show ?thesis
    proof (cases "?all = []")
      case all: True
      then show ?thesis
        using True set_wanting[of P "sockets s" "port_list k s"] on by (auto simp: unicast_target_def)
    next
      case all: False
      then have "hd ?all \<in> set ?all" by simp
      then show ?thesis using True all none by (auto simp: unicast_target_def set_wanting on)
    qed
  qed
qed


text \<open>
  C32: In every state that the module can get into, an intact multicast or broadcast packet is passed up
  once to every socket on the destination port that has joined the group (or wants broadcasts) and is
  not connected to another sender, and to no other; if there is none, the packet counts as dropped.
\<close>

theorem udp_multicast_copies:
  assumes "udp_reachable env s" "\<not> up_bitError pk" "up_payload pk = Some x"
    and "read_ctrl ctrl = Inr (sa, da, ifid, hops, tos, mcast, bcast)" "mcast \<or> bcast"
  shows "\<exists>t ps. processUDPPacket pk ctrl s = Inr t \<and> same_sockets s t \<and> distinct ps
    \<and> set ps = {p. \<exists>sd. sockets s p = Some sd \<and> sd_localPort sd = uint (destinationPort pk)
          \<and> accepts_mcast da sa (sourcePort pk) mcast bcast sd}
    \<and> udp_out t = udp_out s @
        (if ps = [] then port_unreachable pk ctrl
         else map (\<lambda>p. data_up x sa (sourcePort pk) da (destinationPort pk) ifid hops tos (the (sockets s p))) ps)
    \<and> numDroppedWrongPort t = numDroppedWrongPort s + (if ps = [] then 1 else 0)
    \<and> numPassedUp t = numPassedUp s + int (length ps)"
proof -
  have ok: "sockets_ok s" by (rule udp_reachable_ok[OF assms(1)])
  let ?k = "uint (destinationPort pk)"
  let ?ps = "wanting (accepts_mcast da sa (sourcePort pk) mcast bcast) (sockets s) (port_list ?k s)"
  let ?t = "if ?ps = [] then s\<lparr>numDroppedWrongPort := numDroppedWrongPort s + 1, udp_out := udp_out s @ port_unreachable pk ctrl\<rparr>
    else s\<lparr>udp_out := udp_out s @ map (\<lambda>p. data_up x sa (sourcePort pk) da (destinationPort pk) ifid hops tos (the (sockets s p))) ?ps,
           numPassedUp := numPassedUp s + int (length ?ps)\<rparr>"
  have "\<forall>p \<in> set ?ps. sockets s p \<noteq> None" by (auto simp: set_wanting)
  note all = sendUp_all[OF this]
  have 1: "processUDPPacket pk ctrl s = Inr ?t"
    using assms(2-5) findSocketsForMcastBcastPacket_wanting[OF ok assms(5)] undeliverable_eq[OF assms(4)] all
    by (auto simp: processUDPPacket_def Let_def)
  have 2: "distinct ?ps" using sockets_okD(4)[OF ok] by (simp add: wanting_def)
  have 3: "set ?ps = {p. \<exists>sd. sockets s p = Some sd \<and> sd_localPort sd = ?k
      \<and> accepts_mcast da sa (sourcePort pk) mcast bcast sd}"
    using on_port[OF ok] by (auto simp: set_wanting)
  show ?thesis by (rule exI[of _ ?t], rule exI[of _ ?ps]) (use 1 2 3 in \<open>auto simp: same_sockets_def\<close>)
qed

section \<open>A request and its answer\<close>

text \<open>A new socket that takes an ephemeral port is alone on it.\<close>

lemma new_socket_alone:
  assumes "sockets_ok s" "map_of (socketsByIdMap s) i = None" "getOrCreateSocket i gate s = Inr (p, t)"
  obtains e :: u16 where "map_of (socketsByPortMap s) (uint e) = None" "port_list (uint e) t = [p]"
    "sockets t = (sockets s)(p \<mapsto> (new_SockDesc i gate)\<lparr>isBound := False, sd_localAddr := unspecified_addr,
       sd_localPort := uint e, onlyLocalPortIsSet := True\<rparr>)"
    "map_of (socketsByIdMap t) i = Some p" "udp_out t = udp_out s" "isOperational t = isOperational s"
    "socketsByPortMap t = put (uint e) [p] (socketsByPortMap s)" "1024 \<le> unat e" "unat e < 5000"
proof -
  have c: "createSocket i gate unspecified_addr (-1) s = Inr (p, t)"
    using assms(2,3) by (simp add: getOrCreateSocket_def split: if_splits)
  obtain e :: u16 where "map_of (socketsByPortMap s) (uint e) = None"
    "t = s\<lparr>udp_lastEphemeralPort := e,
        sockets := (sockets s)(p \<mapsto> (new_SockDesc i gate)\<lparr>isBound := False, sd_localAddr := unspecified_addr,
          sd_localPort := uint e, onlyLocalPortIsSet := isUnspecified unspecified_addr\<rparr>),
        next_socket := p + 1, socketsByIdMap := put i p (socketsByIdMap s),
        socketsByPortMap := put (uint e) (port_list (uint e) s @ [p]) (socketsByPortMap s)\<rparr>"
    "1024 \<le> unat e" "unat e < 5000"
    by (rule createSocket_Inr[OF c assms(1)]) auto
  then show ?thesis by (intro that[of e]) (simp_all add: port_list_def)
qed

lemma connect_new:
  assumes "sockets_ok s" "map_of (socketsByIdMap s) i = None" "udp_connect i gate ra rp s = Inr t"
  obtains e :: u16 and p sd where "port_list (uint e) t = [p]" "sockets t p = Some sd"
    "sd = (new_SockDesc i gate)\<lparr>sd_localPort := uint e, sd_remoteAddr := ra, sd_remotePort := rp\<rparr>"
    "map_of (socketsByIdMap t) i = Some p" "udp_out t = udp_out s" "isOperational t = isOperational s"
    "\<not> isUnspecified ra" "0 < rp" "rp \<le> 65535" "i \<noteq> -1"
proof -
  obtain p u where u: "getOrCreateSocket i gate s = Inr (p, u)"
    "modify_socket p (\<lambda>d. d\<lparr>sd_remoteAddr := ra, sd_remotePort := rp, onlyLocalPortIsSet := False\<rparr>) u = Inr t"
    and r: "\<not> isUnspecified ra" "0 < rp" "rp \<le> 65535"
    using assms(3) by (auto simp: udp_connect_def split: if_splits)
  have "i \<noteq> -1" using u(1) by (auto simp: getOrCreateSocket_def)
  moreover obtain e :: u16 where "port_list (uint e) u = [p]"
    "sockets u = (sockets s)(p \<mapsto> (new_SockDesc i gate)\<lparr>isBound := False, sd_localAddr := unspecified_addr,
       sd_localPort := uint e, onlyLocalPortIsSet := True\<rparr>)"
    "map_of (socketsByIdMap u) i = Some p" "udp_out u = udp_out s" "isOperational u = isOperational s"
    by (rule new_socket_alone[OF assms(1,2) u(1)]) blast
  ultimately show ?thesis
    using u(2) r by (intro that[of e p]) (auto simp: modify_socket_def new_SockDesc_def)
qed

text \<open>What a lone socket on a port gets.\<close>

lemma lone_target:
  "sockets s p = Some sd \<Longrightarrow> unicast_target P (sockets s) [p] = (if P sd then Some p else None)"
  by (simp add: unicast_target_def wanting_def)

lemma undeliverable4:
  "processUndeliverablePacket pk (Ctrl4 c) s =
     Inr (s\<lparr>numDroppedWrongPort := numDroppedWrongPort s + 1, udp_out := udp_out s @ port_unreachable pk (Ctrl4 c)\<rparr>)"
  by (rule undeliverable_eq) (simp add: read_ctrl_def)

lemma lone_socket_packet:
  assumes "sockets_ok s" "isOperational s" "port_list (uint (destinationPort pk)) s = [p]" "sockets s p = Some sd"
    and "\<not> up_bitError pk" "up_payload pk = Some y" "\<not> ip_isMulticast (ci_destAddr c)"
    and "\<not> isLimitedBroadcastAddress (ci_destAddr c)"
  shows "\<exists>t. udp_handleMessage env (Packet_from_network pk (Ctrl4 c)) s = Inr t \<and> udp_out t = udp_out s @
      (if accepts_unicast (IPv4 (ci_destAddr c)) (IPv4 (ci_srcAddr c)) (sourcePort pk) sd
       then [data_up y (IPv4 (ci_srcAddr c)) (sourcePort pk) (IPv4 (ci_destAddr c)) (destinationPort pk)
               (ci_interfaceId c) (sint (ci_timeToLive c)) (ci_typeOfService c) sd]
       else port_unreachable pk (Ctrl4 c))"
proof -
  let ?acc = "accepts_unicast (IPv4 (ci_destAddr c)) (IPv4 (ci_srcAddr c)) (sourcePort pk)"
  have "findSocketForUnicastPacket (IPv4 (ci_destAddr c)) (destinationPort pk) (IPv4 (ci_srcAddr c)) (sourcePort pk) s =
      Inr (if ?acc sd then Some p else None)"
    using findSocketForUnicastPacket_target[OF assms(1)] lone_target[OF assms(4)] assms(3) by simp
  then have "udp_handleMessage env (Packet_from_network pk (Ctrl4 c)) s =
      (if ?acc sd
       then sendUp y p (IPv4 (ci_srcAddr c)) (sourcePort pk) (IPv4 (ci_destAddr c)) (destinationPort pk)
              (ci_interfaceId c) (sint (ci_timeToLive c)) (ci_typeOfService c) s
       else processUndeliverablePacket pk (Ctrl4 c) s)"
    using assms(2,5-8) by (simp add: udp_handleMessage_def processUDPPacket_def read_ctrl_def Let_def)
  then show ?thesis by (simp add: sendUp_eq[OF assms(4)] undeliverable4)
qed

text \<open>The state after an application has connected a new socket and has sent a packet on it.\<close>

lemma connect_then_send:
  assumes "sockets_ok s" "map_of (socketsByIdMap s) i = None"
    and "udp_handleMessage env (Command_from_app gate (Connect i (IPv4 ra) rp)) s = Inr s1"
    and "udp_handleMessage env (Packet_from_app gate x \<lparr>snd_sockId = i, snd_destAddr = unspecified_addr,
           snd_destPort = -1, snd_srcAddr = unspecified_addr, snd_interfaceId = ifid\<rparr>) s1 = Inr s2"
  obtains pk ci p sd where "udp_out s2 = udp_out s @ [To_IPv4 pk ci]" "up_payload pk = Some x" "ci_destAddr ci = ra"
    "uint (destinationPort pk) = rp" "destinationPort pk = word_of_int rp" "\<not> up_bitError pk"
    "sockets_ok s2" "isOperational s2" "port_list (uint (sourcePort pk)) s2 = [p]" "sockets s2 p = Some sd"
    "sd = (new_SockDesc i gate)\<lparr>sd_localPort := uint (sourcePort pk), sd_remoteAddr := IPv4 ra, sd_remotePort := rp\<rparr>"
    "\<And>da a q. accepts_unicast da (IPv4 a) q sd \<longleftrightarrow> a = ra \<and> q = destinationPort pk"
proof -
  have up: "isOperational s" and con: "udp_connect i gate (IPv4 ra) rp s = Inr s1"
    using assms(3) by (auto simp: udp_handleMessage_def processCommandFromApp_def split: if_splits)
  obtain e :: u16 and p sd where l: "port_list (uint e) s1 = [p]" and sd: "sockets s1 p = Some sd"
    and sd_eq: "sd = (new_SockDesc i gate)\<lparr>sd_localPort := uint e, sd_remoteAddr := IPv4 ra, sd_remotePort := rp\<rparr>"
    and p: "map_of (socketsByIdMap s1) i = Some p" and out: "udp_out s1 = udp_out s" "isOperational s1 = isOperational s"
    and r: "\<not> isUnspecified (IPv4 ra)" "0 < rp" "rp \<le> 65535" "i \<noteq> -1"
    by (rule connect_new[OF assms(1,2) con])
  have s1: "sockets_ok s1" by (rule udp_handleMessage_ok[OF assms(3,1)])
  have s2: "sockets_ok s2" by (rule udp_handleMessage_ok[OF assms(4) s1])
  have rp: "uint (word_of_int rp :: u16) = rp" using r(2,3) by (simp add: uint_word_of_int)
  let ?pk = "\<lparr>up_name = app_name env x, up_byteLength = UDP_HEADER_BYTES + app_length env x, up_bitError = False,
    sourcePort = e, destinationPort = word_of_int rp, up_payload = Some x\<rparr>"
  obtain ci where send: "s2 = s1\<lparr>udp_out := udp_out s1 @ [To_IPv4 ?pk ci], numSent := numSent s1 + 1\<rparr>"
      "ci_destAddr ci = ra"
    using assms(4) up out r p sd rp
    by (auto simp: udp_handleMessage_def processPacketFromApp_def getOrCreateSocket_def sendDown_def Let_def
        sd_eq udp_emit_def new_SockDesc_def unspecified_addr_def split: if_splits)
  have acc: "accepts_unicast da (IPv4 a) q sd \<longleftrightarrow> a = ra \<and> q = word_of_int rp" for da a q
    using r rp by (auto simp: accepts_unicast_def sd_eq new_SockDesc_def)
  show ?thesis
    by (rule that[of ?pk ci p sd]) (use send l sd sd_eq out up s2 rp acc in \<open>simp_all add: port_list_def\<close>)
qed

text \<open>
  C6: An application connects a new socket and sends a packet on it. Of the unicast packets that then
  arrive for the port the packet was sent from, whatever local address they are for, those from the
  address and port that the packet was sent to reach this socket of the application, and all others
  are answered with a port unreachable error.
\<close>

theorem udp_answer_reaches_sender:
  assumes "udp_reachable env s" "map_of (socketsByIdMap s) i = None"
    and "udp_handleMessage env (Command_from_app gate (Connect i (IPv4 ra) rp)) s = Inr s1"
    and "udp_handleMessage env (Packet_from_app gate x \<lparr>snd_sockId = i, snd_destAddr = unspecified_addr,
           snd_destPort = -1, snd_srcAddr = unspecified_addr, snd_interfaceId = ifid\<rparr>) s1 = Inr s2"
  shows "\<exists>pk ci. udp_out s2 = udp_out s @ [To_IPv4 pk ci] \<and> up_payload pk = Some x \<and> ci_destAddr ci = ra
    \<and> uint (destinationPort pk) = rp
    \<and> (\<forall>r c y. \<not> up_bitError r \<and> up_payload r = Some y \<and> destinationPort r = sourcePort pk
          \<and> \<not> ip_isMulticast (ci_destAddr c) \<and> \<not> isLimitedBroadcastAddress (ci_destAddr c) \<longrightarrow>
          (\<exists>t. udp_handleMessage env (Packet_from_network r (Ctrl4 c)) s2 = Inr t \<and> udp_out t = udp_out s2 @
             (if ci_srcAddr c = ra \<and> sourcePort r = destinationPort pk
              then [Data_up gate \<lparr>ind_sockId = i, ind_srcAddr = IPv4 ra, ind_destAddr = IPv4 (ci_destAddr c),
                     ind_srcPort = rp, ind_destPort = uint (sourcePort pk), ind_ttl = sint (ci_timeToLive c),
                     ind_interfaceId = ci_interfaceId c, ind_typeOfService = ci_typeOfService c\<rparr> y]
              else port_unreachable r (Ctrl4 c))))"
proof -
  obtain pk ci p sd where out: "udp_out s2 = udp_out s @ [To_IPv4 pk ci]" "up_payload pk = Some x" "ci_destAddr ci = ra"
      "uint (destinationPort pk) = rp"
    and s2: "sockets_ok s2" "isOperational s2" "port_list (uint (sourcePort pk)) s2 = [p]" "sockets s2 p = Some sd"
    and sd: "sd = (new_SockDesc i gate)\<lparr>sd_localPort := uint (sourcePort pk), sd_remoteAddr := IPv4 ra, sd_remotePort := rp\<rparr>"
    and acc: "\<And>da a q. accepts_unicast da (IPv4 a) q sd \<longleftrightarrow> a = ra \<and> q = destinationPort pk"
    using connect_then_send[OF udp_reachable_ok[OF assms(1)] assms(2-4)] by metis
  have "\<exists>t. udp_handleMessage env (Packet_from_network r (Ctrl4 c)) s2 = Inr t \<and> udp_out t = udp_out s2 @
      (if ci_srcAddr c = ra \<and> sourcePort r = destinationPort pk
       then [Data_up gate \<lparr>ind_sockId = i, ind_srcAddr = IPv4 ra, ind_destAddr = IPv4 (ci_destAddr c),
               ind_srcPort = rp, ind_destPort = uint (sourcePort pk), ind_ttl = sint (ci_timeToLive c),
               ind_interfaceId = ci_interfaceId c, ind_typeOfService = ci_typeOfService c\<rparr> y]
       else port_unreachable r (Ctrl4 c))"
    if h: "\<not> up_bitError r \<and> up_payload r = Some y \<and> destinationPort r = sourcePort pk
      \<and> \<not> ip_isMulticast (ci_destAddr c) \<and> \<not> isLimitedBroadcastAddress (ci_destAddr c)" for r c y
  proof -
    have h': "\<not> up_bitError r" "up_payload r = Some y" "\<not> ip_isMulticast (ci_destAddr c)"
      "\<not> isLimitedBroadcastAddress (ci_destAddr c)" "port_list (uint (destinationPort r)) s2 = [p]" using h s2(3) by simp_all
    from lone_socket_packet[OF s2(1,2) h'(5) s2(4) h'(1-4), of env, unfolded acc] obtain t where
      "udp_handleMessage env (Packet_from_network r (Ctrl4 c)) s2 = Inr t"
      "udp_out t = udp_out s2 @
        (if ci_srcAddr c = ra \<and> sourcePort r = destinationPort pk
         then [data_up y (IPv4 (ci_srcAddr c)) (sourcePort r) (IPv4 (ci_destAddr c)) (destinationPort r)
                 (ci_interfaceId c) (sint (ci_timeToLive c)) (ci_typeOfService c) sd]
         else port_unreachable r (Ctrl4 c))"
      by blast
    then show ?thesis
      by (intro exI[of _ t]) (use out(4) h in \<open>simp add: data_up_def sd new_SockDesc_def\<close>)
  qed
  then show ?thesis using out by blast
qed

section \<open>Binding\<close>

definition clashes :: "IPvXAddress \<Rightarrow> SockDesc \<Rightarrow> bool" where
  "clashes la sd \<longleftrightarrow> isUnspecified (sd_localAddr sd) \<or> sd_localAddr sd = la"

lemma first_local_find:
  "\<forall>p \<in> set l. h p \<noteq> None \<Longrightarrow> first_local h la l = Inr (find_first (\<lambda>p. clashes la (the (h p))) l)"
  by (induction l) (auto simp: clashes_def)

lemma find_local_find:
  assumes "sockets_ok s"
  shows "findFirstSocketByLocalAddress la lp s =
    Inr (find_first (\<lambda>p. clashes la (the (sockets s p))) (port_list (uint lp) s))"
proof -
  have "\<forall>p \<in> set (port_list (uint lp) s). sockets s p \<noteq> None" using on_port[OF assms] by auto
  then show ?thesis
    using first_local_find[of "port_list (uint lp) s" "sockets s" la]
    by (auto simp: findFirstSocketByLocalAddress_def port_list_def split: option.splits)
qed

lemma find_local_None:
  assumes "sockets_ok s"
  shows "findFirstSocketByLocalAddress la lp s = Inr None \<longleftrightarrow>
    \<not> (\<exists>p sd. sockets s p = Some sd \<and> sd_localPort sd = uint lp \<and> clashes la sd)"
proof -
  have "(\<exists>p \<in> set (port_list (uint lp) s). clashes la (the (sockets s p))) \<longleftrightarrow>
      (\<exists>p sd. sockets s p = Some sd \<and> sd_localPort sd = uint lp \<and> clashes la sd)"
    using on_port[OF assms] by (metis option.sel)
  then show ?thesis
    unfolding find_local_find[OF assms] by (simp only: sum.inject find_first_None) blast
qed

lemma uint_port: "0 \<le> lp \<Longrightarrow> lp \<le> 65535 \<Longrightarrow> uint (word_of_int lp :: u16) = lp"
  by (simp add: uint_word_of_int)

text \<open>
  C34: Binding a new socket to a port fails exactly when some socket on the port is bound to no address
  or to the same one; otherwise there is one more socket, with the address and the port, and no other
  socket changes.
\<close>

theorem udp_bind_exclusive:
  assumes "udp_reachable env s" "map_of (socketsByIdMap s) i = None" "i \<noteq> -1" "0 \<le> lp" "lp \<le> 65535"
  shows "if \<exists>p sd. sockets s p = Some sd \<and> sd_localPort sd = lp \<and> clashes la sd
    then udp_bind i gate la lp s = Inl (Runtime_error ''bind: local address/port already taken'')
    else \<exists>p sd t. udp_bind i gate la lp s = Inr t \<and> sockets s p = None \<and> sockets t = (sockets s)(p \<mapsto> sd)
      \<and> sockId sd = i \<and> sd_localAddr sd = la \<and> sd_localPort sd = lp \<and> isBound sd \<and> sockets_ok t"
proof -
  have ok: "sockets_ok s" by (rule udp_reachable_ok[OF assms(1)])
  note lp = uint_port[OF assms(4,5)]
  note none = find_local_None[OF ok, of la "word_of_int lp", unfolded lp]
  have found: "\<exists>e. findFirstSocketByLocalAddress la (word_of_int lp) s = Inr e" by (simp add: find_local_find[OF ok])
  show ?thesis
  proof (cases "\<exists>p sd. sockets s p = Some sd \<and> sd_localPort sd = lp \<and> clashes la sd")
    case True
    then obtain e where "findFirstSocketByLocalAddress la (word_of_int lp) s = Inr (Some e)"
      using none found by (metis option.exhaust)
    then show ?thesis using True assms(2-5) by (simp add: udp_bind_def)
  next
    case False
    then have f: "findFirstSocketByLocalAddress la (word_of_int lp) s = Inr None" using none by blast
    let ?sd = "(new_SockDesc i gate)\<lparr>isBound := True, sd_localAddr := la, sd_localPort := lp,
      onlyLocalPortIsSet := isUnspecified la\<rparr>"
    obtain t where b: "udp_bind i gate la lp s = Inr t" and t: "sockets t = (sockets s)(next_socket s \<mapsto> ?sd)"
      using assms(2-5) f by (simp add: udp_bind_def createSocket_def Let_def modify_socket_def new_SockDesc_def)
    have "sockId ?sd = i \<and> sd_localAddr ?sd = la \<and> sd_localPort ?sd = lp \<and> isBound ?sd"
      by (simp add: new_SockDesc_def)
    then have "\<exists>p sd t. udp_bind i gate la lp s = Inr t \<and> sockets s p = None \<and> sockets t = (sockets s)(p \<mapsto> sd)
        \<and> sockId sd = i \<and> sd_localAddr sd = la \<and> sd_localPort sd = lp \<and> isBound sd \<and> sockets_ok t"
      using b t sockets_okD(8)[OF ok order_refl] bind_ok[OF b ok] by blast
    then show ?thesis unfolding if_not_P[OF False] .
  qed
qed

text \<open>A bind of a socket that an earlier command has created, when it succeeds.\<close>

lemma bind_existing:
  assumes "sockets_ok s" "map_of (socketsByIdMap s) i = Some p" "sockets s p = Some d"
    and "udp_bind i gate la lp s = Inr t" "sd_localPort d \<noteq> lp" "lp \<noteq> -1"
  shows "sockets t p = Some (d\<lparr>isBound := True, sd_localAddr := la, sd_localPort := lp\<rparr>)"
    "port_list lp t = port_list lp s @ [p]"
    "map_of (socketsByPortMap t) (sd_localPort d) = Some (removeAll p (port_list (sd_localPort d) s))"
  using assms(2-6) by (auto simp: udp_bind_def modify_socket_def Let_def port_list_def split: if_splits)

text \<open>
  A socket that some other command has created before it is bound keeps the mark that only its port is
  set.
\<close>

lemma option_then_bind:
  assumes "sockets_ok s" "map_of (socketsByIdMap s) i = None" "0 \<le> lp" "lp \<le> 65535"
    and "processCommandFromApp gate (Set_option i (Set_time_to_live n)) s = Inr s1"
    and "processCommandFromApp gate (Bind i la lp) s1 = Inr t"
  obtains p sd e where "sockets t p = Some sd" "sockId sd = i" "sd_localAddr sd = la" "sd_localPort sd = lp"
    "onlyLocalPortIsSet sd" "port_list lp t = port_list lp s @ [p]" "map_of (socketsByPortMap t) (uint (e :: u16)) = Some []"
    "1024 \<le> unat e" "unat e < 5000" "sockets_ok t"
proof -
  obtain p u where c: "getOrCreateSocket i gate s = Inr (p, u)"
    and m: "modify_socket p (\<lambda>d. d\<lparr>sd_ttl := n\<rparr>) u = Inr s1"
    using assms(5) by (auto simp: processCommandFromApp_def set_option_def udp_setTimeToLive_def)
  have ok1: "sockets_ok s1"
    by (rule modify_socket_ok[OF getOrCreateSocket_ok[OF c assms(1)] m]) simp_all
  obtain e :: u16 where e: "map_of (socketsByPortMap s) (uint e) = None" "port_list (uint e) u = [p]"
    "sockets u = (sockets s)(p \<mapsto> (new_SockDesc i gate)\<lparr>isBound := False, sd_localAddr := unspecified_addr,
       sd_localPort := uint e, onlyLocalPortIsSet := True\<rparr>)"
    "map_of (socketsByIdMap u) i = Some p" "socketsByPortMap u = put (uint e) [p] (socketsByPortMap s)"
    "1024 \<le> unat e" "unat e < 5000"
    by (rule new_socket_alone[OF assms(1,2) c]) blast
  let ?d = "(new_SockDesc i gate)\<lparr>isBound := False, sd_localAddr := unspecified_addr,
       sd_localPort := uint e, onlyLocalPortIsSet := True, sd_ttl := n\<rparr>"
  have s1: "sockets s1 p = Some ?d" "map_of (socketsByIdMap s1) i = Some p"
    "socketsByPortMap s1 = put (uint e) [p] (socketsByPortMap s)"
    using e m by (auto simp: modify_socket_def)
  have b: "udp_bind i gate la lp s1 = Inr t" using assms(6) by (simp add: processCommandFromApp_def)
  have ne: "uint e \<noteq> lp"
  proof
    assume l: "uint e = lp"
    then have "findFirstSocketByLocalAddress la (word_of_int lp) s1 = Inr (Some p)"
      using s1 uint_port[OF assms(3,4)] by (simp add: findFirstSocketByLocalAddress_def)
    then show False using b s1 by (simp add: udp_bind_def new_SockDesc_def split: if_splits)
  qed
  have "lp \<noteq> -1" using assms(3) by simp
  note bind_existing[OF ok1 s1(2,1) b _ this]
  then show ?thesis
    using ne s1(3) e(6,7) bind_ok[OF b ok1]
    by (intro that[of p "?d\<lparr>isBound := True, sd_localAddr := la, sd_localPort := lp\<rparr>" e])
      (auto simp: new_SockDesc_def port_list_def)
qed

text \<open>
  An application that sets the time to live of a new socket before it binds it to an address and a
  port on which there is no other socket gets the packets for that port whatever local address they
  are for, not only those for the address it has asked for.
\<close>

theorem bound_socket_takes_all_addresses:
  assumes "udp_reachable env s" "map_of (socketsByIdMap s) i = None" "0 \<le> lp" "lp \<le> 65535" "port_list lp s = []"
    and "processCommandFromApp gate (Set_option i (Set_time_to_live n)) s = Inr s1"
    and "processCommandFromApp gate (Bind i la lp) s1 = Inr t" "\<not> isUnspecified la"
  shows "\<exists>p sd. sockets t p = Some sd \<and> sockId sd = i \<and> sd_localAddr sd = la
    \<and> findSocketForUnicastPacket da (word_of_int lp) ra rp t = Inr (Some p)"
proof -
  have ok: "sockets_ok s" by (rule udp_reachable_ok[OF assms(1)])
  obtain p sd where sd: "sockets t p = Some sd" "sockId sd = i" "sd_localAddr sd = la"
    "onlyLocalPortIsSet sd" "port_list lp t = port_list lp s @ [p]" "sockets_ok t"
    by (rule option_then_bind[OF ok assms(2-4,6,7)]) blast
  have "findSocketForUnicastPacket da (word_of_int lp) ra rp t = Inr (Some p)"
    using findSocketForUnicastPacket_target[OF sd(6), of da "word_of_int lp" ra rp] lone_target[OF sd(1)]
      sd(4,5) assms(5) uint_port[OF assms(3,4)] by (simp add: accepts_unicast_def)
  then show ?thesis using sd by blast
qed

text \<open>
  A bind that asks for any free port looks up the number -1 as the port 65535, and fails because of a
  socket there. The entry of the port that a socket leaves stays in the map without a socket, so that
  no search for a free port finds it again.
\<close>

lemma bind_any_port_blocked:
  assumes "sockets_ok s" "map_of (socketsByIdMap s) i = None" "i \<noteq> -1"
    and "sockets s p = Some sd" "sd_localPort sd = 65535" "clashes la sd"
  shows "udp_bind i gate la (-1) s = Inl (Runtime_error ''bind: local address/port already taken'')"
proof -
  have "uint (word_of_int (-1) :: u16) = 65535"
    by (simp add: unsigned_minus_1_eq_mask mask_eq_exp_minus_1)
  then have "findFirstSocketByLocalAddress la (word_of_int (-1)) s \<noteq> Inr None"
    using find_local_None[OF assms(1), of la "word_of_int (-1)"] assms(4-6) by metis
  then obtain e where "findFirstSocketByLocalAddress la (word_of_int (-1)) s = Inr (Some e)"
    using find_local_find[OF assms(1), of la "word_of_int (-1)"] by (metis option.exhaust)
  then show ?thesis using assms(2,3) by (simp add: udp_bind_def)
qed

lemma bind_leaks_port:
  assumes "udp_reachable env s" "map_of (socketsByIdMap s) i = None" "0 \<le> lp" "lp \<le> 65535"
    and "processCommandFromApp gate (Set_option i (Set_time_to_live n)) s = Inr s1"
    and "processCommandFromApp gate (Bind i la lp) s1 = Inr t"
  shows "\<exists>e :: u16. map_of (socketsByPortMap t) (uint e) = Some [] \<and> 1024 \<le> unat e \<and> unat e < 5000"
  by (rule option_then_bind[OF udp_reachable_ok[OF assms(1)] assms(2-6)]) blast

text \<open>
  C33: In every state that the module can get into, the map by id, the lists by local port and the sockets
  themselves tell the same: an id leads to a socket exactly when the socket has this id, and the list
  of a port has, once each, exactly the sockets with this port.
\<close>

theorem udp_maps_consistent:
  assumes "udp_reachable env s"
  shows "(\<forall>i p. map_of (socketsByIdMap s) i = Some p \<longleftrightarrow> (\<exists>sd. sockets s p = Some sd \<and> sockId sd = i))
    \<and> (\<forall>k. distinct (port_list k s) \<and> set (port_list k s) = {p. \<exists>sd. sockets s p = Some sd \<and> sd_localPort sd = k})
    \<and> (\<forall>p sd. sockets s p = Some sd \<longrightarrow> 0 \<le> sd_localPort sd \<and> sd_localPort sd \<le> 65535)"
  using udp_reachable_ok[OF assms] unfolding sockets_ok_def by blast

section \<open>Examples\<close>

text \<open>A node with a socket bound to port 80, which wants broadcasts, and its peer.\<close>

definition sample_udp_env :: "nat udp_env" where
  "sample_udp_env = \<lparr>app_name = (\<lambda>_. ''data''), app_length = (\<lambda>n. int n)\<rparr>"

definition sample_sock :: SockDesc where
  "sample_sock = (new_SockDesc 7 0)\<lparr>isBound := True, sd_localPort := 80, onlyLocalPortIsSet := True,
     sd_isBroadcast := True\<rparr>"

definition sample_udp :: "nat UDP" where
  "sample_udp = (new_UDP [] True)\<lparr>sockets := [0 \<mapsto> sample_sock], next_socket := 1,
     socketsByIdMap := [(7, 0)], socketsByPortMap := [(80, [0])]\<rparr>"

lemmas udp_handlers = udp_handleMessage_def processCommandFromApp_def udp_bind_def createSocket_def
  modify_socket_def findFirstSocketByLocalAddress_def set_option_def udp_setBroadcast_def
  getOrCreateSocket_def set_port_list_def port_list_def Let_def

lemma sample_udp_reachable: "udp_reachable sample_udp_env sample_udp"
proof -
  have "\<exists>s. udp_handleMessage sample_udp_env (Command_from_app 0 (Bind 7 unspecified_addr 80)) (new_UDP [] True) = Inr s
      \<and> udp_handleMessage sample_udp_env (Command_from_app 0 (Set_option 7 (Set_broadcast True))) s = Inr sample_udp"
    by (simp add: udp_handlers sample_udp_def sample_sock_def new_UDP_def new_SockDesc_def)
  then show ?thesis using udp_reachable.message[OF udp_reachable.message[OF udp_reachable.start]] by blast
qed

lemma ephemeral_first:
  "\<not> used p \<Longrightarrow> ephemeral_loop used q p = Some (Inr p)"
  by (subst ephemeral_loop.simps) simp

lemma next_after_start: "next_ephemeral 1024 = 1025"
  by (simp add: next_ephemeral_def EPHEMERAL_PORTRANGE_END_def)

definition sample_packet :: "u16 \<Rightarrow> u16 \<Rightarrow> nat UDPPacket" where
  "sample_packet sp dp = \<lparr>up_name = ''data'', up_byteLength = 18, up_bitError = False, sourcePort = sp,
     destinationPort = dp, up_payload = Some 10\<rparr>"

definition sample_ctrl :: "IPv4Address \<Rightarrow> udp_ctrl" where
  "sample_ctrl da = Ctrl4 \<lparr>ci_protocol = IP_PROT_UDP, ci_srcAddr = 0x0A000002, ci_destAddr = da,
     ci_typeOfService = 0, ci_interfaceId = 100, ci_timeToLive = 32, ci_dontFragment = False,
     ci_multicastLoop = False\<rparr>"

lemma sample_ctrl_unicast:
  "read_ctrl (sample_ctrl 0x0A000001) = Inr (IPv4 0x0A000002, IPv4 0x0A000001, 100, 32, 0, False, False)"
  by (simp add: sample_ctrl_def read_ctrl_def ip_isMulticast_def isLimitedBroadcastAddress_def ALLONES_ADDRESS_def ip_set4_def)

lemma sample_ctrl_broadcast:
  "read_ctrl (sample_ctrl 0xFFFFFFFF) = Inr (IPv4 0x0A000002, IPv4 0xFFFFFFFF, 100, 32, 0, False, True)"
  by (simp add: sample_ctrl_def read_ctrl_def ip_isMulticast_def isLimitedBroadcastAddress_def)

theorem udp_maps_consistent_witness:
  "map_of (socketsByIdMap sample_udp) 7 = Some 0 \<and> distinct (port_list 80 sample_udp)"
  using udp_maps_consistent[OF sample_udp_reachable] by (simp add: sample_udp_def sample_sock_def new_SockDesc_def)


theorem udp_multicast_copies_witness:
  "\<exists>t. processUDPPacket (sample_packet 2000 80) (sample_ctrl 0xFFFFFFFF) sample_udp = Inr t \<and> same_sockets sample_udp t"
  using udp_multicast_copies[OF sample_udp_reachable _ _ sample_ctrl_broadcast, of "sample_packet 2000 80" 10]
  by (simp add: sample_packet_def) blast

theorem udp_bind_exclusive_witness:
  "udp_bind 8 0 (IPv4 0x0A000001) 80 sample_udp = Inl (Runtime_error ''bind: local address/port already taken'')"
proof -
  have "\<exists>p sd. sockets sample_udp p = Some sd \<and> sd_localPort sd = 80 \<and> clashes (IPv4 0x0A000001) sd"
    by (simp add: sample_udp_def sample_sock_def new_SockDesc_def clashes_def)
  then show ?thesis
    using udp_bind_exclusive[OF sample_udp_reachable, of 8 80 "IPv4 0x0A000001" 0]
    by (simp add: sample_udp_def)
qed

text \<open>The same node with a second, new socket on the first ephemeral port.\<close>

definition sample_udp2 :: "(SockDesc \<Rightarrow> SockDesc) \<Rightarrow> nat UDP" where
  "sample_udp2 f = sample_udp\<lparr>udp_lastEphemeralPort := 1025, next_socket := 2,
     sockets := [0 \<mapsto> sample_sock, 1 \<mapsto> f ((new_SockDesc 8 0)\<lparr>sd_localPort := 1025, onlyLocalPortIsSet := True\<rparr>)],
     socketsByIdMap := [(7, 0), (8, 1)], socketsByPortMap := [(80, [0]), (1025, [1])]\<rparr>"

lemma sample_created: "getOrCreateSocket 8 0 sample_udp = Inr (Suc 0, sample_udp2 id)"
  by (simp add: getOrCreateSocket_def createSocket_def udp_getEphemeralPort_def ephemeral_first next_after_start
      EPHEMERAL_PORTRANGE_START_def sample_udp_def sample_udp2_def new_UDP_def new_SockDesc_def set_port_list_def
      port_list_def Let_def fun_eq_iff del: bind_res_eq_Inr)

lemma sample_modify: "modify_socket (Suc 0) g (sample_udp2 f) = Inr (sample_udp2 (g \<circ> f))"
  by (simp add: modify_socket_def sample_udp2_def fun_eq_iff)

lemma sample_up: "isOperational (sample_udp2 f)" "isOperational sample_udp"
  by (simp_all add: sample_udp2_def sample_udp_def new_UDP_def)

lemma sample_old: "getOrCreateSocket 8 0 (sample_udp2 f) = Inr (Suc 0, sample_udp2 f)"
  "map_of (socketsByIdMap sample_udp) 8 = None" "port_list 53 sample_udp = []"
  by (simp_all add: getOrCreateSocket_def sample_udp2_def sample_udp_def port_list_def)

text \<open>A new socket is connected, and a packet is sent on it.\<close>

definition sample_connected :: "SockDesc \<Rightarrow> SockDesc" where
  "sample_connected = (\<lambda>d. d\<lparr>sd_remoteAddr := IPv4 0x0A000002, sd_remotePort := 53, onlyLocalPortIsSet := False\<rparr>) \<circ> id"

definition sample_command :: UDPSendCommand where
  "sample_command = \<lparr>snd_sockId = 8, snd_destAddr = unspecified_addr, snd_destPort = -1, snd_srcAddr = unspecified_addr,
     snd_interfaceId = -1\<rparr>"

lemma sample_connect:
  "udp_handleMessage sample_udp_env (Command_from_app 0 (Connect 8 (IPv4 0x0A000002) 53)) sample_udp =
     Inr (sample_udp2 sample_connected)"
  by (simp add: udp_handleMessage_def processCommandFromApp_def udp_connect_def sample_created sample_modify
      sample_up sample_connected_def del: bind_res_eq_Inr o_id)

lemma sample_sent:
  "\<exists>s2. udp_handleMessage sample_udp_env (Packet_from_app 0 10 sample_command) (sample_udp2 sample_connected) = Inr s2"
  by (simp add: udp_handleMessage_def processPacketFromApp_def sample_old sample_up sample_command_def Let_def del: bind_res_eq_Inr)
    (simp add: sample_udp2_def new_SockDesc_def unspecified_addr_def sendDown_def sample_connected_def del: bind_res_eq_Inr)

theorem udp_answer_reaches_sender_witness:
  "\<exists>s2 pk ci. udp_handleMessage sample_udp_env (Packet_from_app 0 10 sample_command) (sample_udp2 sample_connected) = Inr s2
    \<and> udp_out s2 = udp_out sample_udp @ [To_IPv4 pk ci] \<and> up_payload pk = Some 10 \<and> ci_destAddr ci = 0x0A000002"
proof -
  obtain s2 where s2: "udp_handleMessage sample_udp_env (Packet_from_app 0 10 sample_command) (sample_udp2 sample_connected) = Inr s2"
    using sample_sent by blast
  from udp_answer_reaches_sender[OF sample_udp_reachable sample_old(2) sample_connect s2[unfolded sample_command_def]] s2
  show ?thesis by blast
qed

theorem bound_socket_takes_all_addresses_witness:
  "\<exists>t p sd. sockets t p = Some sd \<and> sockId sd = 8 \<and> sd_localAddr sd = IPv4 0x0A000001
    \<and> findSocketForUnicastPacket (IPv4 0x0A000009) 53 (IPv4 0x0A000002) 2000 (t :: nat UDP) = Inr (Some p)"
proof -
  let ?f = "(\<lambda>d. d\<lparr>sd_ttl := 1\<rparr>) \<circ> id"
  have 1: "processCommandFromApp 0 (Set_option 8 (Set_time_to_live 1)) sample_udp = Inr (sample_udp2 ?f)"
    by (simp add: processCommandFromApp_def set_option_def udp_setTimeToLive_def sample_created sample_modify
        del: bind_res_eq_Inr o_id)
  have "\<exists>t. processCommandFromApp 0 (Bind 8 (IPv4 0x0A000001) 53) (sample_udp2 ?f) = Inr t"
    by (simp add: processCommandFromApp_def udp_bind_def findFirstSocketByLocalAddress_def sample_udp2_def
        new_SockDesc_def modify_socket_def set_port_list_def Let_def del: bind_res_eq_Inr)
  then obtain t where 2: "processCommandFromApp 0 (Bind 8 (IPv4 0x0A000001) 53) (sample_udp2 ?f) = Inr t" by blast
  from bound_socket_takes_all_addresses[OF sample_udp_reachable sample_old(2) _ _ sample_old(3) 1 2, of "IPv4 0x0A000009"]
  show ?thesis by simp blast
qed

end
