(* ===== verification/ARP_Module.thy ===== *)
theory ARP_Module
  imports IPv4_Routing_Table
begin

text \<open>
  Address resolution (\<^verbatim>\<open>networklayer/arp/ARP.h\<close>, \<^verbatim>\<open>ARP.cc\<close>,
  \<^verbatim>\<open>ARPPacket.msg\<close>): the cache from IPv4 to MAC addresses, requests with their retries,
  the packets that arrive, and the cache that all ARP modules of a simulation share.

  A pointer to an interface is the number of its node and its id; the shared cache holds interfaces
  of several nodes. The timer of an entry is the time it is scheduled for. The interface table and
  the routing table of the node are arguments, and the messages and signals that leave the module are
  appended to \<open>arp_out\<close>. Signals for statistics are not modelled.
\<close>

section \<open>State\<close>

type_synonym if_ptr = "nat \<times> int"

record ARPPacket =
  arp_opcode :: int
  srcMACAddress :: MACAddress
  destMACAddress :: MACAddress
  srcIPAddress :: IPv4Address
  destIPAddress :: IPv4Address

definition ARP_REQUEST :: int where "ARP_REQUEST = 1"
definition ARP_REPLY :: int where "ARP_REPLY = 2"
definition ARP_RARP_REQUEST :: int where "ARP_RARP_REQUEST = 3"
definition ARP_RARP_REPLY :: int where "ARP_RARP_REPLY = 4"

record ARPCacheEntry =
  ae_owner :: "nat option"
  ae_ie :: "if_ptr option"
  ae_pending :: bool
  ae_macAddress :: MACAddress
  lastUpdate :: simtime
  numRetries :: int
  ae_timer :: "simtime option"

type_synonym ARPCache = "(IPv4Address \<times> ARPCacheEntry) list"

text \<open>
  A packet for the network with the interface and the destination, and the three signals with the
  members of their notification.
\<close>

datatype arp_event =
    ARP_to_NIC ARPPacket int MACAddress
  | ARP_initiated IPv4Address "if_ptr option"
  | ARP_completed IPv4Address MACAddress "if_ptr option"
  | ARP_failed IPv4Address "if_ptr option"

text \<open>\<open>arp_id\<close> is the module itself, as the owner of entries, and \<open>arp_node\<close> the node it is on.\<close>

record ARP =
  arp_id :: nat
  arp_node :: nat
  retryTimeout :: simtime
  retryCount :: int
  cacheTimeout :: simtime
  respondToProxyARP :: bool
  globalARP :: bool
  arp_isUp :: bool
  numResolutions :: int
  numFailedResolutions :: int
  numRequestsSent :: int
  numRepliesSent :: int
  arpCache :: ARPCache
  globalArpCache :: ARPCache
  arp_out :: "arp_event list"

definition new_ARPCacheEntry :: ARPCacheEntry where
  "new_ARPCacheEntry = \<lparr>ae_owner = None, ae_ie = None, ae_pending = False, ae_macAddress = MAC_UNSPECIFIED,
     lastUpdate = 0, numRetries = 0, ae_timer = None\<rparr>"

definition arp_emit :: "arp_event \<Rightarrow> ARP \<Rightarrow> ARP" where
  "arp_emit e s = s\<lparr>arp_out := arp_out s @ [e]\<rparr>"

text \<open>The interface that a pointer points to; only interfaces of the node itself are read.\<close>

definition interface_of :: "if_ptr option \<Rightarrow> InterfaceTable \<Rightarrow> InterfaceEntry res" where
  "interface_of p ift =
     (case p of
        None \<Rightarrow> Inl Undefined_behaviour
      | Some (_, i) \<Rightarrow> deref (getInterfaceById i ift))"

section \<open>Sending requests\<close>

definition arp_sendPacketToNIC :: "ARPPacket \<Rightarrow> InterfaceEntry \<Rightarrow> MACAddress \<Rightarrow> ARP \<Rightarrow> ARP" where
  "arp_sendPacketToNIC pk ie mac = arp_emit (ARP_to_NIC pk (interfaceId ie) mac)"

definition sendARPRequest :: "InterfaceEntry \<Rightarrow> IPv4Address \<Rightarrow> ARP \<Rightarrow> ARP res" where
  "sendARPRequest ie a s =
     bind_res (deref (ipv4data ie)) (\<lambda>d.
     ASSERT (\<not> mac_isUnspecified (macAddr ie)) (ASSERT (\<not> ip_isUnspecified (inetAddr d))
       (let s = arp_sendPacketToNIC
              \<lparr>arp_opcode = ARP_REQUEST, srcMACAddress = macAddr ie, destMACAddress = MAC_UNSPECIFIED,
               srcIPAddress = inetAddr d, destIPAddress = a\<rparr> ie MAC_BROADCAST s
        in Inr (s\<lparr>numRequestsSent := numRequestsSent s + 1\<rparr>))))"

text \<open>The entry is in the cache under the address.\<close>

definition initiateARPResolution ::
  "simtime \<Rightarrow> InterfaceTable \<Rightarrow> IPv4Address \<Rightarrow> ARPCacheEntry \<Rightarrow> ARP \<Rightarrow> ARP res" where
  "initiateARPResolution now ift a e s =
     bind_res (interface_of (ae_ie e) ift) (\<lambda>ie.
     bind_res (sendARPRequest ie a s) (\<lambda>s.
       let e = e\<lparr>ae_pending := True, numRetries := 0, lastUpdate := 0, ae_macAddress := MAC_UNSPECIFIED,
                 ae_timer := Some (now + retryTimeout s)\<rparr>
       in Inr (arp_emit (ARP_initiated a (ae_ie e))
            (s\<lparr>arpCache := put a e (arpCache s), numResolutions := numResolutions s + 1\<rparr>))))"

definition startAddressResolution ::
  "simtime \<Rightarrow> InterfaceTable \<Rightarrow> IPv4Address \<Rightarrow> int \<Rightarrow> ARP \<Rightarrow> ARP res" where
  "startAddressResolution now ift a i s =
     (if globalARP s then Inl (Runtime_error ''globalARP does not support dynamic address resolution'')
      else
        case map_of (arpCache s) a of
          None \<Rightarrow>
            initiateARPResolution now ift a
              (new_ARPCacheEntry\<lparr>ae_owner := Some (arp_id s), ae_ie := Some (arp_node s, i)\<rparr>) s
        | Some e \<Rightarrow>
            if ae_pending e then Inr s
            else initiateARPResolution now ift a (e\<lparr>ae_ie := Some (arp_node s, i)\<rparr>) s)"

text \<open>The timer message of an entry knows the entry, which knows its address.\<close>

definition requestTimedOut :: "simtime \<Rightarrow> InterfaceTable \<Rightarrow> IPv4Address \<Rightarrow> ARP \<Rightarrow> ARP res" where
  "requestTimedOut now ift a s =
     bind_res (deref (map_of (arpCache s) a)) (\<lambda>e.
       let e = e\<lparr>numRetries := numRetries e + 1, ae_timer := None\<rparr>
       in if numRetries e < retryCount s then
            bind_res (interface_of (ae_ie e) ift) (\<lambda>ie.
            bind_res (sendARPRequest ie a s) (\<lambda>s.
              Inr (s\<lparr>arpCache := put a (e\<lparr>ae_timer := Some (now + retryTimeout s)\<rparr>) (arpCache s)\<rparr>)))
          else
            let s = arp_emit (ARP_failed a (ae_ie e)) s
            in Inr (s\<lparr>arpCache := erase a (arpCache s), numFailedResolutions := numFailedResolutions s + 1\<rparr>))"

section \<open>Looking up\<close>

definition getMACAddressFor :: "simtime \<Rightarrow> ARP \<Rightarrow> IPv4Address \<Rightarrow> MACAddress" where
  "getMACAddressFor now s a =
     (if globalARP s then
        (case map_of (globalArpCache s) a of None \<Rightarrow> MAC_UNSPECIFIED | Some e \<Rightarrow> ae_macAddress e)
      else
        (case map_of (arpCache s) a of
           None \<Rightarrow> MAC_UNSPECIFIED
         | Some e \<Rightarrow>
             if \<not> ae_pending e \<and> lastUpdate e + cacheTimeout s \<ge> now then ae_macAddress e else MAC_UNSPECIFIED))"

definition getIPv4AddressFor :: "simtime \<Rightarrow> ARP \<Rightarrow> MACAddress \<Rightarrow> IPv4Address" where
  "getIPv4AddressFor now s mac =
     (if mac_isUnspecified mac then UNSPECIFIED_ADDRESS
      else
        case (if globalARP s then find_first (\<lambda>(a, e). ae_macAddress e = mac) (globalArpCache s)
              else find_first (\<lambda>(a, e). ae_macAddress e = mac \<and> lastUpdate e + cacheTimeout s \<ge> now) (arpCache s)) of
          None \<Rightarrow> UNSPECIFIED_ADDRESS
        | Some (a, e) \<Rightarrow> a)"

section \<open>Packets\<close>

text \<open>The new contents of an entry, which is put into the cache under the address.\<close>

definition updateARPCache :: "simtime \<Rightarrow> IPv4Address \<Rightarrow> ARPCacheEntry \<Rightarrow> MACAddress \<Rightarrow> ARP \<Rightarrow> ARP" where
  "updateARPCache now a e mac s =
     (let e = (if ae_pending e then e\<lparr>ae_pending := False, ae_timer := None, numRetries := 0\<rparr> else e);
          e = e\<lparr>ae_macAddress := mac, lastUpdate := now\<rparr>
      in arp_emit (ARP_completed a mac (ae_ie e)) (s\<lparr>arpCache := put a e (arpCache s)\<rparr>))"

definition addressRecognized ::
  "InterfaceTable \<Rightarrow> IPv4Address \<Rightarrow> int option \<Rightarrow> RoutingTable \<Rightarrow> ARP \<Rightarrow> (bool \<times> RoutingTable) res" where
  "addressRecognized ift destAddr i t s =
     bind_res (isLocalAddress ift destAddr t) (\<lambda>(local, t).
       if local then Inr (True, t)
       else if respondToProxyARP s then
         bind_res (getInterfaceForDestAddr destAddr t) (\<lambda>(rtie, t). Inr (rtie \<noteq> None \<and> rtie \<noteq> i, t))
       else Inr (False, t))"

text \<open>
  The packet comes with the id of the interface it has arrived on. The merge flag tells whether the
  sender was in the cache already.
\<close>

definition processARPPacket ::
  "simtime \<Rightarrow> InterfaceTable \<Rightarrow> ARPPacket \<Rightarrow> int \<Rightarrow> RoutingTable \<times> ARP \<Rightarrow> (RoutingTable \<times> ARP) res" where
  "processARPPacket now ift pk ifid = (\<lambda>(t, s).
     let ie = getInterfaceById ifid ift; srcMAC = srcMACAddress pk; srcIP = srcIPAddress pk
     in if mac_isUnspecified srcMAC then Inl (Runtime_error ''wrong ARP packet: source MAC address is empty'')
        else if ip_isUnspecified srcIP then Inl (Runtime_error ''wrong ARP packet: source IPv4 address is empty'')
        else
          let mergeFlag = (map_of (arpCache s) srcIP \<noteq> None);
              s = (case map_of (arpCache s) srcIP of None \<Rightarrow> s | Some e \<Rightarrow> updateARPCache now srcIP e srcMAC s)
          in bind_res (addressRecognized ift (destIPAddress pk) (map_option interfaceId ie) t s) (\<lambda>(rec, t).
               if \<not> rec then Inr (t, s)
               else
                 let s = (if mergeFlag then s
                          else updateARPCache now srcIP
                                 (new_ARPCacheEntry\<lparr>ae_ie := map_option (\<lambda>ie. (arp_node s, interfaceId ie)) ie\<rparr>) srcMAC s)
                 in if arp_opcode pk = ARP_REQUEST then
                      bind_res (deref ie) (\<lambda>ie. bind_res (deref (ipv4data ie)) (\<lambda>_.
                        let s = arp_sendPacketToNIC
                              \<lparr>arp_opcode = ARP_REPLY, srcMACAddress = macAddr ie, destMACAddress = srcMAC,
                               srcIPAddress = destIPAddress pk, destIPAddress = srcIP\<rparr> ie srcMAC s
                        in Inr (t, s\<lparr>numRepliesSent := numRepliesSent s + 1\<rparr>)))
                    else if arp_opcode pk = ARP_REPLY then Inr (t, s)
                    else if arp_opcode pk = ARP_RARP_REQUEST then
                      Inl (Runtime_error ''RARP request received: RARP is not supported'')
                    else if arp_opcode pk = ARP_RARP_REPLY then
                      Inl (Runtime_error ''RARP reply received: RARP is not supported'')
                    else Inl (Runtime_error ''Unsupported opcode in received ARP packet'')))"

section \<open>The shared cache\<close>

text \<open>Initialization: the addresses of the interfaces of the node, unless they are there already.\<close>

definition register_interface :: "InterfaceEntry \<Rightarrow> ARP \<Rightarrow> ARP" where
  "register_interface ie s =
     (if if_loopback ie then s
      else case ipv4data ie of
        None \<Rightarrow> s
      | Some d \<Rightarrow>
          if ip_isUnspecified (inetAddr d) \<or> map_of (globalArpCache s) (inetAddr d) \<noteq> None then s
          else s\<lparr>globalArpCache := put (inetAddr d)
                   (new_ARPCacheEntry\<lparr>ae_owner := Some (arp_id s), ae_ie := Some (arp_node s, interfaceId ie),
                     ae_macAddress := macAddr ie\<rparr>) (globalArpCache s)\<rparr>)"

definition arp_initialize :: "InterfaceTable \<Rightarrow> bool \<Rightarrow> ARP \<Rightarrow> ARP" where
  "arp_initialize ift up s = fold register_interface (interfaces ift) (s\<lparr>arp_isUp := up\<rparr>)"

text \<open>A new configuration of an interface. Inserting finds an entry that another interface has left.\<close>

definition arp_receiveChangeNotification :: "InterfaceEntry \<Rightarrow> ARP \<Rightarrow> ARP res" where
  "arp_receiveChangeNotification ie s =
     (if if_loopback ie then Inr s
      else
        let p = Some (arp_node s, interfaceId ie);
            it = find_first (\<lambda>(a, e). ae_ie e = p) (globalArpCache s);
            addr = (case ipv4data ie of
                      None \<Rightarrow> None
                    | Some d \<Rightarrow> if ip_isUnspecified (inetAddr d) then None else Some (inetAddr d));
            insert_entry = (\<lambda>a e s. ASSERT (map_of (globalArpCache s) a = None)
              (Inr (s\<lparr>globalArpCache := put a (e\<lparr>ae_pending := False, ae_timer := None, numRetries := 0,
                 ae_macAddress := macAddr ie\<rparr>) (globalArpCache s)\<rparr>)))
        in case it of
             None \<Rightarrow>
               (case addr of
                  None \<Rightarrow> Inr s
                | Some a \<Rightarrow> insert_entry a (new_ARPCacheEntry\<lparr>ae_owner := Some (arp_id s), ae_ie := p\<rparr>) s)
           | Some (b, e) \<Rightarrow>
               ASSERT (ae_owner e = Some (arp_id s))
                 (let s = s\<lparr>globalArpCache := erase b (globalArpCache s)\<rparr>
                  in case addr of None \<Rightarrow> Inr s | Some a \<Rightarrow> insert_entry a e s))"

text \<open>When a module goes, its entries go with it.\<close>

definition arp_destroy :: "ARP \<Rightarrow> ARP" where
  "arp_destroy s = s\<lparr>arpCache := [], globalArpCache := filter (\<lambda>(a, e). ae_owner e \<noteq> Some (arp_id s)) (globalArpCache s)\<rparr>"

section \<open>Messages and life cycle\<close>

datatype arp_message = ARP_timeout IPv4Address | ARP_packet ARPPacket int | Not_an_ARP_packet

definition arp_handleMessageWhenDown :: "arp_message \<Rightarrow> ARP \<Rightarrow> ARP res" where
  "arp_handleMessageWhenDown m s =
     (case m of
        ARP_timeout a \<Rightarrow> Inl (Runtime_error ''Model error: self msg received when protocol is down'')
      | _ \<Rightarrow> Inr s)"

definition arp_handleMessage ::
  "simtime \<Rightarrow> InterfaceTable \<Rightarrow> arp_message \<Rightarrow> RoutingTable \<times> ARP \<Rightarrow> (RoutingTable \<times> ARP) res" where
  "arp_handleMessage now ift m = (\<lambda>(t, s).
     if \<not> arp_isUp s then bind_res (arp_handleMessageWhenDown m s) (\<lambda>s. Inr (t, s))
     else case m of
       ARP_timeout a \<Rightarrow> bind_res (requestTimedOut now ift a s) (\<lambda>s. Inr (t, s))
     | ARP_packet pk i \<Rightarrow> processARPPacket now ift pk i (t, s)
     | Not_an_ARP_packet \<Rightarrow> Inl (Runtime_error ''check_and_cast(): cannot cast to ARPPacket''))"

text \<open>Every entry goes, with its timer.\<close>

definition arp_flush :: "ARP \<Rightarrow> ARP" where
  "arp_flush s = s\<lparr>arpCache := []\<rparr>"

definition arp_stop :: "ARP \<Rightarrow> ARP" where
  "arp_stop s = arp_flush (s\<lparr>arp_isUp := False\<rparr>)"

definition arp_start :: "ARP \<Rightarrow> ARP res" where
  "arp_start s = ASSERT (arpCache s = []) (Inr (s\<lparr>arp_isUp := True\<rparr>))"

definition arp_handleOperationStage :: "node_operation \<Rightarrow> ARP \<Rightarrow> ARP res" where
  "arp_handleOperationStage oper s =
     (case oper of
        Start_network_layer \<Rightarrow> arp_start s
      | Shutdown_network_layer \<Rightarrow> Inr (arp_stop s)
      | Crash \<Rightarrow> Inr (arp_stop s)
      | _ \<Rightarrow> Inr s)"

end
