(* ===== verification/ARP_Laws.thy ===== *)
theory ARP_Laws
  imports ARP_Module
begin

text \<open>
  What address resolution promises: an entry has a running timer exactly while its resolution is
  pending, and an address otherwise; an unanswered resolution sends its requests and then fails, once;
  and the exchange of a request and a reply between two nodes tells each the address of the other.
\<close>

section \<open>Entries\<close>

text \<open>\<open>n\<close> is the number of attempts.\<close>

definition entry_ok :: "int \<Rightarrow> ARPCacheEntry \<Rightarrow> bool" where
  "entry_ok n e \<longleftrightarrow> (ae_pending e \<longleftrightarrow> ae_timer e \<noteq> None) \<and> (ae_pending e \<longrightarrow> ae_ie e \<noteq> None)
     \<and> (ae_pending e \<longleftrightarrow> mac_isUnspecified (ae_macAddress e))
     \<and> 0 \<le> numRetries e \<and> (numRetries e = 0 \<or> ae_pending e \<and> numRetries e < n)"

definition arp_ok :: "ARP \<Rightarrow> bool" where
  "arp_ok s \<longleftrightarrow> is_map (arpCache s) \<and> (\<forall>a e. map_of (arpCache s) a = Some e \<longrightarrow> entry_ok (retryCount s) e)"

lemma arp_okD:
  "arp_ok s \<Longrightarrow> is_map (arpCache s)" "arp_ok s \<Longrightarrow> map_of (arpCache s) a = Some e \<Longrightarrow> entry_ok (retryCount s) e"
  by (auto simp: arp_ok_def)

text \<open>Replacing an entry, and removing one.\<close>

lemma arp_ok_put:
  assumes "arp_ok s" "entry_ok (retryCount s) e"
    and "arpCache t = put a e (arpCache s)" "retryCount t = retryCount s"
  shows "arp_ok t"
  using assms is_map_put by (auto simp: arp_ok_def)

lemma arp_ok_erase:
  assumes "arp_ok s" "arpCache t = erase a (arpCache s)" "retryCount t = retryCount s"
  shows "arp_ok t"
  using assms is_map_erase[of "arpCache s" a] by (auto simp: arp_ok_def split: if_splits)

definition same_arp :: "ARP \<Rightarrow> ARP \<Rightarrow> bool" where
  "same_arp s t \<longleftrightarrow> arpCache t = arpCache s \<and> retryCount t = retryCount s \<and> arp_isUp t = arp_isUp s
     \<and> retryTimeout t = retryTimeout s \<and> cacheTimeout t = cacheTimeout s \<and> globalARP t = globalARP s
     \<and> arp_node t = arp_node s \<and> arp_id t = arp_id s"

lemma same_arp_ok: "same_arp s t \<Longrightarrow> arp_ok s \<Longrightarrow> arp_ok t"
  by (simp add: same_arp_def arp_ok_def)

lemma same_arp_refl [simp]: "same_arp s s"
  by (simp add: same_arp_def)

lemma same_arp_emit [simp]: "same_arp s (arp_emit e s)"
  by (simp add: same_arp_def arp_emit_def)

text \<open>What a request that can be sent does.\<close>

definition request_for :: "InterfaceEntry \<Rightarrow> IPv4InterfaceData \<Rightarrow> IPv4Address \<Rightarrow> arp_event" where
  "request_for ie d a = ARP_to_NIC \<lparr>arp_opcode = ARP_REQUEST, srcMACAddress = macAddr ie,
     destMACAddress = MAC_UNSPECIFIED, srcIPAddress = inetAddr d, destIPAddress = a\<rparr> (interfaceId ie) MAC_BROADCAST"

lemma sendARPRequest_Inr:
  "sendARPRequest ie a s = Inr t \<longleftrightarrow> (\<exists>d. ipv4data ie = Some d \<and> \<not> mac_isUnspecified (macAddr ie)
     \<and> \<not> ip_isUnspecified (inetAddr d)
     \<and> t = s\<lparr>arp_out := arp_out s @ [request_for ie d a], numRequestsSent := numRequestsSent s + 1\<rparr>)"
  by (auto simp: sendARPRequest_def ASSERT_eq_Inr arp_sendPacketToNIC_def arp_emit_def request_for_def Let_def)

lemma initiate_Inr:
  assumes "initiateARPResolution now ift a e s = Inr t"
  obtains ie d where "interface_of (ae_ie e) ift = Inr ie" "ipv4data ie = Some d"
    "t = s\<lparr>arp_out := arp_out s @ [request_for ie d a, ARP_initiated a (ae_ie e)],
       numRequestsSent := numRequestsSent s + 1, numResolutions := numResolutions s + 1,
       arpCache := put a (e\<lparr>ae_pending := True, numRetries := 0, lastUpdate := 0,
         ae_macAddress := MAC_UNSPECIFIED, ae_timer := Some (now + retryTimeout s)\<rparr>) (arpCache s)\<rparr>"
  using assms by (auto simp: initiateARPResolution_def sendARPRequest_Inr arp_emit_def)

lemma interface_of_None [simp]: "interface_of None ift = Inl Undefined_behaviour"
  by (simp add: interface_of_def)

lemma initiate_ok:
  assumes "initiateARPResolution now ift a e s = Inr t" "arp_ok s"
  shows "arp_ok t"
proof (rule initiate_Inr[OF assms(1)])
  fix ie d
  let ?e = "e\<lparr>ae_pending := True, numRetries := 0, lastUpdate := 0, ae_macAddress := MAC_UNSPECIFIED,
    ae_timer := Some (now + retryTimeout s)\<rparr>"
  assume ie: "interface_of (ae_ie e) ift = Inr ie"
    and t: "t = s\<lparr>arp_out := arp_out s @ [request_for ie d a, ARP_initiated a (ae_ie e)],
       numRequestsSent := numRequestsSent s + 1, numResolutions := numResolutions s + 1,
       arpCache := put a ?e (arpCache s)\<rparr>"
  have "entry_ok (retryCount s) ?e"
    using ie by (cases "ae_ie e") (auto simp: entry_ok_def MAC_UNSPECIFIED_def mac_isUnspecified_def)
  then show ?thesis by (rule arp_ok_put[OF assms(2)]) (simp_all add: t)
qed

lemma startAddressResolution_ok:
  assumes "startAddressResolution now ift a i s = Inr t" "arp_ok s"
  shows "arp_ok t"
  using assms initiate_ok
  by (auto simp: startAddressResolution_def split: if_splits option.splits)

lemma requestTimedOut_cases:
  assumes "requestTimedOut now ift a s = Inr t"
  obtains (retry) e ie d where "map_of (arpCache s) a = Some e" "numRetries e + 1 < retryCount s"
      "interface_of (ae_ie e) ift = Inr ie" "ipv4data ie = Some d"
      "t = s\<lparr>arp_out := arp_out s @ [request_for ie d a], numRequestsSent := numRequestsSent s + 1,
         arpCache := put a (e\<lparr>numRetries := numRetries e + 1, ae_timer := Some (now + retryTimeout s)\<rparr>) (arpCache s)\<rparr>"
  | (fail) e where "map_of (arpCache s) a = Some e" "\<not> numRetries e + 1 < retryCount s"
      "t = s\<lparr>arp_out := arp_out s @ [ARP_failed a (ae_ie e)], arpCache := erase a (arpCache s),
         numFailedResolutions := numFailedResolutions s + 1\<rparr>"
proof -
  obtain e where e: "map_of (arpCache s) a = Some e" using assms by (auto simp: requestTimedOut_def)
  show ?thesis
  proof (cases "numRetries e + 1 < retryCount s")
    case True
    then obtain ie d where "interface_of (ae_ie e) ift = Inr ie" "ipv4data ie = Some d"
      "t = s\<lparr>arp_out := arp_out s @ [request_for ie d a], numRequestsSent := numRequestsSent s + 1,
         arpCache := put a (e\<lparr>numRetries := numRetries e + 1, ae_timer := Some (now + retryTimeout s)\<rparr>) (arpCache s)\<rparr>"
      using assms e by (auto simp: requestTimedOut_def sendARPRequest_Inr Let_def)
    then show ?thesis using that(1)[OF e True] by blast
  next
    case False
    then show ?thesis
      using assms e by (intro that(2)[of e]) (auto simp: requestTimedOut_def arp_emit_def Let_def)
  qed
qed

lemma requestTimedOut_ok:
  assumes "requestTimedOut now ift a s = Inr t" "arp_ok s"
    and "map_of (arpCache s) a = Some e" "ae_timer e \<noteq> None"
  shows "arp_ok t"
  using assms(1)
proof (cases rule: requestTimedOut_cases)
  case (retry e' ie d)
  let ?e = "e\<lparr>numRetries := numRetries e + 1, ae_timer := Some (now + retryTimeout s)\<rparr>"
  have "entry_ok (retryCount s) ?e"
    using arp_okD(2)[OF assms(2,3)] assms(3,4) retry(1,2) by (auto simp: entry_ok_def)
  then show ?thesis by (rule arp_ok_put[OF assms(2)]) (use retry assms(3) in simp_all)
next
  case (fail e')
  show ?thesis by (rule arp_ok_erase[OF assms(2)]) (use fail in simp_all)
qed

text \<open>What an entry holds after an update.\<close>

definition resolved :: "simtime \<Rightarrow> MACAddress \<Rightarrow> ARPCacheEntry \<Rightarrow> ARPCacheEntry" where
  "resolved now mac e = (if ae_pending e then e\<lparr>ae_pending := False, ae_timer := None, numRetries := 0\<rparr> else e)
     \<lparr>ae_macAddress := mac, lastUpdate := now\<rparr>"

lemma updateARPCache_eq:
  "updateARPCache now a e mac s = s\<lparr>arp_out := arp_out s @ [ARP_completed a mac (ae_ie e)],
     arpCache := put a (resolved now mac e) (arpCache s)\<rparr>"
  by (simp add: updateARPCache_def resolved_def Let_def arp_emit_def)

lemma resolved_ok:
  assumes "entry_ok n e \<or> e = new_ARPCacheEntry\<lparr>ae_ie := p\<rparr>" "\<not> mac_isUnspecified mac"
  shows "entry_ok n (resolved now mac e)"
  using assms by (auto simp: entry_ok_def resolved_def new_ARPCacheEntry_def)

lemma update_ok:
  assumes "arp_ok s" "\<not> mac_isUnspecified mac"
    and "entry_ok (retryCount s) e \<or> e = new_ARPCacheEntry\<lparr>ae_ie := p\<rparr>"
  shows "arp_ok (updateARPCache now a e mac s)"
  by (rule arp_ok_put[OF assms(1) resolved_ok[OF assms(3,2)]]) (simp_all add: updateARPCache_eq)

text \<open>The state after the sender of a packet has been merged into the cache.\<close>

definition merged :: "simtime \<Rightarrow> ARPPacket \<Rightarrow> ARP \<Rightarrow> ARP" where
  "merged now pk s = (case map_of (arpCache s) (srcIPAddress pk) of
     None \<Rightarrow> s | Some e \<Rightarrow> updateARPCache now (srcIPAddress pk) e (srcMACAddress pk) s)"

definition added :: "simtime \<Rightarrow> InterfaceEntry option \<Rightarrow> ARPPacket \<Rightarrow> ARP \<Rightarrow> ARP" where
  "added now ie pk s = (if map_of (arpCache s) (srcIPAddress pk) \<noteq> None then merged now pk s
     else updateARPCache now (srcIPAddress pk)
       (new_ARPCacheEntry\<lparr>ae_ie := map_option (\<lambda>ie. (arp_node s, interfaceId ie)) ie\<rparr>) (srcMACAddress pk) s)"

definition reply_to :: "ARPPacket \<Rightarrow> InterfaceEntry \<Rightarrow> arp_event" where
  "reply_to pk ie = ARP_to_NIC \<lparr>arp_opcode = ARP_REPLY, srcMACAddress = macAddr ie, destMACAddress = srcMACAddress pk,
     srcIPAddress = destIPAddress pk, destIPAddress = srcIPAddress pk\<rparr> (interfaceId ie) (srcMACAddress pk)"

lemma updateARPCache_same [simp]:
  "arp_node (updateARPCache now a e m s) = arp_node s" "respondToProxyARP (updateARPCache now a e m s) = respondToProxyARP s"
  "arp_isUp (updateARPCache now a e m s) = arp_isUp s" "retryCount (updateARPCache now a e m s) = retryCount s"
  "retryTimeout (updateARPCache now a e m s) = retryTimeout s" "globalARP (updateARPCache now a e m s) = globalARP s"
  "cacheTimeout (updateARPCache now a e m s) = cacheTimeout s"
  by (simp_all add: updateARPCache_eq)

lemma merged_same [simp]:
  "arp_node (merged now pk s) = arp_node s" "respondToProxyARP (merged now pk s) = respondToProxyARP s"
  "arp_isUp (merged now pk s) = arp_isUp s" "retryCount (merged now pk s) = retryCount s"
  by (simp_all add: merged_def split: option.split)

lemma processARPPacket_eq:
  assumes "\<not> mac_isUnspecified (srcMACAddress pk)" "\<not> ip_isUnspecified (srcIPAddress pk)"
  shows "processARPPacket now ift pk i (t, s) =
    bind_res (addressRecognized ift (destIPAddress pk) (map_option interfaceId (getInterfaceById i ift)) t s)
      (\<lambda>(rec, t).
        if \<not> rec then Inr (t, merged now pk s)
        else
          let s = added now (getInterfaceById i ift) pk s
          in if arp_opcode pk = ARP_REQUEST then
               bind_res (deref (getInterfaceById i ift)) (\<lambda>ie. bind_res (deref (ipv4data ie)) (\<lambda>_.
                 Inr (t, s\<lparr>arp_out := arp_out s @ [reply_to pk ie], numRepliesSent := numRepliesSent s + 1\<rparr>)))
             else if arp_opcode pk = ARP_REPLY then Inr (t, s)
             else if arp_opcode pk = ARP_RARP_REQUEST then
               Inl (Runtime_error ''RARP request received: RARP is not supported'')
             else if arp_opcode pk = ARP_RARP_REPLY then
               Inl (Runtime_error ''RARP reply received: RARP is not supported'')
             else Inl (Runtime_error ''Unsupported opcode in received ARP packet''))"
proof (cases "map_of (arpCache s) (srcIPAddress pk)")
  case None
  then show ?thesis
    using assms by (simp add: processARPPacket_def merged_def added_def Let_def reply_to_def arp_sendPacketToNIC_def
        arp_emit_def cong: if_cong)
next
  case (Some e)
  then show ?thesis
    using assms by (simp add: processARPPacket_def merged_def added_def Let_def reply_to_def arp_sendPacketToNIC_def
        arp_emit_def addressRecognized_def cong: if_cong)
qed

lemma merged_ok:
  assumes "arp_ok s" "\<not> mac_isUnspecified (srcMACAddress pk)"
  shows "arp_ok (merged now pk s)"
  using assms arp_okD(2)[OF assms(1)] update_ok[OF assms] by (auto simp: merged_def split: option.splits)

lemma added_ok:
  assumes "arp_ok s" "\<not> mac_isUnspecified (srcMACAddress pk)"
  shows "arp_ok (added now ie pk s)"
  using merged_ok[OF assms] update_ok[OF assms disjI2[OF refl]] by (simp add: added_def)

lemma processARPPacket_ok:
  assumes "processARPPacket now ift pk i (t, s) = Inr (t', s')" "arp_ok s"
  shows "arp_ok s'"
proof -
  have src: "\<not> mac_isUnspecified (srcMACAddress pk)" "\<not> ip_isUnspecified (srcIPAddress pk)"
    using assms(1) by (auto simp: processARPPacket_def Let_def split: if_splits)
  note ok = merged_ok[OF assms(2) src(1), of now] added_ok[OF assms(2) src(1), of now]
  have "res_all (\<lambda>(t, s). arp_ok s) (processARPPacket now ift pk i (t, s))"
    unfolding processARPPacket_eq[OF src] Let_def split_beta
    by (intro res_all_bind res_all_if) (use ok in \<open>auto simp: arp_ok_def\<close>)
  then show ?thesis using assms(1) by (auto dest: res_allD)
qed

section \<open>Reachable states\<close>

text \<open>
  A module starts with an empty cache. IPv4 asks it to resolve addresses, packets arrive, timers fire
  at their time, interfaces change and the node starts and stops. Interfaces and routes are those of the
  moment.
\<close>

inductive arp_reachable :: "ARP \<Rightarrow> bool" where
  start: "arpCache s = [] \<Longrightarrow> arp_reachable s"
| resolve: "arp_reachable s \<Longrightarrow> startAddressResolution now ift a i s = Inr t \<Longrightarrow> arp_reachable t"
| packet: "arp_reachable s \<Longrightarrow> arp_handleMessage now ift (ARP_packet pk i) (rt, s) = Inr (rt', t) \<Longrightarrow> arp_reachable t"
| timeout: "arp_reachable s \<Longrightarrow> map_of (arpCache s) a = Some e \<Longrightarrow> ae_timer e = Some now \<Longrightarrow>
    arp_handleMessage now ift (ARP_timeout a) (rt, s) = Inr (rt', t) \<Longrightarrow> arp_reachable t"
| change: "arp_reachable s \<Longrightarrow> arp_receiveChangeNotification ie s = Inr t \<Longrightarrow> arp_reachable t"
| operation: "arp_reachable s \<Longrightarrow> arp_handleOperationStage oper s = Inr t \<Longrightarrow> arp_reachable t"

lemma change_ok:
  assumes "arp_receiveChangeNotification ie s = Inr t" "arp_ok s"
  shows "arp_ok t"
proof -
  have "res_all (\<lambda>t. arpCache t = arpCache s \<and> retryCount t = retryCount s) (arp_receiveChangeNotification ie s)"
    unfolding arp_receiveChangeNotification_def Let_def
    by (intro res_all_if) (auto split: option.split intro!: res_all_ASSERT)
  from res_allD[OF this assms(1)] show ?thesis using assms(2) by (simp add: arp_ok_def)
qed

lemma arp_reachable_ok: "arp_reachable s \<Longrightarrow> arp_ok s"
proof (induction rule: arp_reachable.induct)
  case (packet s now ift pk i rt rt' t)
  then show ?case
    using processARPPacket_ok by (auto simp: arp_handleMessage_def arp_handleMessageWhenDown_def split: if_splits)
next
  case (timeout s a e now ift rt rt' t)
  then show ?case
    using requestTimedOut_ok[of now ift a s t e]
    by (auto simp: arp_handleMessage_def arp_handleMessageWhenDown_def split: if_splits)
next
  case (operation s oper t)
  then show ?case
    by (cases oper) (auto simp: arp_handleOperationStage_def arp_start_def arp_stop_def arp_flush_def arp_ok_def ASSERT_eq_Inr)
next
  case (start s)
  then show ?case by (simp add: arp_ok_def)
qed (auto intro: startAddressResolution_ok change_ok)

text \<open>
  In every state that the module can get into, an entry of the cache is either pending, with a timer,
  without an address and with fewer retries than there are attempts, or it has an address and no timer.
  So the answer to a lookup is never an address that is still being resolved.
\<close>

theorem arp_entries_consistent:
  assumes "arp_reachable s" "map_of (arpCache s) a = Some e"
  shows "if ae_pending e then ae_timer e \<noteq> None \<and> ae_macAddress e = MAC_UNSPECIFIED
      \<and> 0 \<le> numRetries e \<and> (numRetries e = 0 \<or> numRetries e < retryCount s)
    else ae_timer e = None \<and> ae_macAddress e \<noteq> MAC_UNSPECIFIED \<and> numRetries e = 0"
  using arp_okD(2)[OF arp_reachable_ok[OF assms(1)] assms(2)]
  by (auto simp: entry_ok_def mac_isUnspecified_def MAC_UNSPECIFIED_def)

section \<open>Giving up\<close>

lemma startAddressResolution_Inr:
  assumes "startAddressResolution now ift a i s = Inr t" "\<forall>e. map_of (arpCache s) a = Some e \<longrightarrow> \<not> ae_pending e"
  obtains ie d e where "getInterfaceById i ift = Some ie" "ipv4data ie = Some d" "\<not> globalARP s"
    "\<not> mac_isUnspecified (macAddr ie)" "\<not> ip_isUnspecified (inetAddr d)"
    "arp_out t = arp_out s @ [request_for ie d a, ARP_initiated a (Some (arp_node s, i))]"
    "arpCache t = put a e (arpCache s)" "ae_pending e" "numRetries e = 0" "ae_ie e = Some (arp_node s, i)"
    "ae_macAddress e = MAC_UNSPECIFIED" "ae_timer e = Some (now + retryTimeout s)"
    "retryTimeout t = retryTimeout s" "retryCount t = retryCount s" "arp_node t = arp_node s"
    "globalARP t = globalARP s" "arp_isUp t = arp_isUp s" "respondToProxyARP t = respondToProxyARP s"
    "cacheTimeout t = cacheTimeout s"
proof -
  have g: "\<not> globalARP s" using assms(1) by (auto simp: startAddressResolution_def)
  obtain e0 where e0: "initiateARPResolution now ift a e0 s = Inr t" "ae_ie e0 = Some (arp_node s, i)"
    using assms by (auto simp: startAddressResolution_def split: option.splits if_splits)
  obtain ie d where r: "getInterfaceById i ift = Some ie" "ipv4data ie = Some d"
    "\<not> mac_isUnspecified (macAddr ie)" "\<not> ip_isUnspecified (inetAddr d)"
    and t: "t = s\<lparr>arp_out := arp_out s @ [request_for ie d a, ARP_initiated a (ae_ie e0)],
       numRequestsSent := numRequestsSent s + 1, numResolutions := numResolutions s + 1,
       arpCache := put a (e0\<lparr>ae_pending := True, numRetries := 0, lastUpdate := 0,
         ae_macAddress := MAC_UNSPECIFIED, ae_timer := Some (now + retryTimeout s)\<rparr>) (arpCache s)\<rparr>"
    using e0 by (auto simp: initiateARPResolution_def sendARPRequest_Inr arp_emit_def interface_of_def)
  show ?thesis
    by (rule that[of ie d "e0\<lparr>ae_pending := True, numRetries := 0, lastUpdate := 0,
         ae_macAddress := MAC_UNSPECIFIED, ae_timer := Some (now + retryTimeout s)\<rparr>"])
      (use r g t e0(2) in simp_all)
qed

text \<open>The timer of an address fires \<open>n\<close> times, one timeout apart, after the start at \<open>t0\<close>.\<close>

definition arp_timeouts :: "simtime \<Rightarrow> nat \<Rightarrow> InterfaceTable \<Rightarrow> IPv4Address \<Rightarrow> ARP \<Rightarrow> ARP res" where
  "arp_timeouts t0 n ift a s = fold_res (\<lambda>k. requestTimedOut (t0 + int k * retryTimeout s) ift a) [1..<Suc n] s"

lemma arp_timeouts_Suc:
  assumes "arp_timeouts t0 n ift a s = Inr t" "retryTimeout t = retryTimeout s"
  shows "arp_timeouts t0 (Suc n) ift a s = requestTimedOut (t0 + int (Suc n) * retryTimeout s) ift a t"
proof -
  let ?f = "\<lambda>k. requestTimedOut (t0 + int k * retryTimeout s) ift a"
  have "[1..<Suc (Suc n)] = [1..<Suc n] @ [Suc n]" by simp
  then have "arp_timeouts t0 (Suc n) ift a s = bind_res (arp_timeouts t0 n ift a s) (fold_res ?f [Suc n])"
    unfolding arp_timeouts_def by (simp only: fold_res_append)
  also have "\<dots> = ?f (Suc n) t" unfolding assms(1) by (cases "?f (Suc n) t") simp_all
  finally show ?thesis .
qed

lemma timeouts_while_retrying:
  assumes "getInterfaceById i ift = Some ie" "ipv4data ie = Some d" "\<not> mac_isUnspecified (macAddr ie)"
    and "\<not> ip_isUnspecified (inetAddr d)" "map_of (arpCache s) a = Some e" "numRetries e = 0" "ae_pending e"
    and "ae_ie e = Some (node, i)" "ae_timer e = Some (t0 + retryTimeout s)"
  shows "int k < retryCount s \<or> k = 0 \<Longrightarrow> \<exists>t e'. arp_timeouts t0 k ift a s = Inr t \<and> retryTimeout t = retryTimeout s
    \<and> retryCount t = retryCount s \<and> map_of (arpCache t) a = Some e' \<and> numRetries e' = int k \<and> ae_pending e'
    \<and> ae_ie e' = Some (node, i) \<and> ae_timer e' = Some (t0 + int (Suc k) * retryTimeout s)
    \<and> arp_out t = arp_out s @ replicate k (request_for ie d a)"
proof (induction k)
  case 0
  then show ?case using assms by (simp add: arp_timeouts_def)
next
  case (Suc k)
  then obtain t e' where t: "arp_timeouts t0 k ift a s = Inr t" "retryTimeout t = retryTimeout s"
    "retryCount t = retryCount s" "map_of (arpCache t) a = Some e'" "numRetries e' = int k" "ae_pending e'"
    "ae_ie e' = Some (node, i)" "arp_out t = arp_out s @ replicate k (request_for ie d a)"
    by auto
  let ?now = "t0 + int (Suc k) * retryTimeout s"
  let ?e = "e'\<lparr>numRetries := numRetries e' + 1, ae_timer := Some (?now + retryTimeout t)\<rparr>"
  let ?u = "t\<lparr>arp_out := arp_out t @ [request_for ie d a], numRequestsSent := numRequestsSent t + 1,
    arpCache := put a ?e (arpCache t)\<rparr>"
  have lt: "int k + 1 < retryCount s" using Suc.prems by simp
  have "requestTimedOut ?now ift a t = Inr ?u"
    using t lt assms(1-4) by (simp add: requestTimedOut_def Let_def interface_of_def sendARPRequest_Inr del: bind_res_eq_Inr)
      (simp add: sendARPRequest_def request_for_def arp_sendPacketToNIC_def arp_emit_def)
  moreover have "?now + retryTimeout t = t0 + int (Suc (Suc k)) * retryTimeout s"
    by (simp add: t(2) algebra_simps)
  ultimately show ?case
    using t by (simp add: arp_timeouts_Suc[OF t(1,2)] replicate_append_same)
qed

text \<open>
  A resolution that nobody answers sends as many requests as there are attempts, one timeout apart,
  and during this time the address stays unresolved; the last timeout reports the failure, once, and
  removes the entry.
\<close>

theorem arp_gives_up:
  assumes "startAddressResolution t0 ift a i s = Inr s0"
    and "\<forall>e. map_of (arpCache s) a = Some e \<longrightarrow> \<not> ae_pending e" "1 \<le> retryCount s" "n = nat (retryCount s)"
  shows "\<exists>req init sn. arp_out s0 = arp_out s @ [req, init]
    \<and> (\<forall>k < n. \<exists>t. arp_timeouts t0 k ift a s0 = Inr t \<and> arp_out t = arp_out s0 @ replicate k req
         \<and> (\<exists>e. map_of (arpCache t) a = Some e \<and> ae_pending e \<and> ae_timer e = Some (t0 + int (Suc k) * retryTimeout s)))
    \<and> arp_timeouts t0 n ift a s0 = Inr sn \<and> map_of (arpCache sn) a = None
    \<and> arp_out sn = arp_out s0 @ replicate (n - 1) req @ [ARP_failed a (Some (arp_node s, i))]"
proof (rule startAddressResolution_Inr[OF assms(1,2)])
  fix ie d e
  assume ie: "getInterfaceById i ift = Some ie" "ipv4data ie = Some d" "\<not> mac_isUnspecified (macAddr ie)"
      "\<not> ip_isUnspecified (inetAddr d)"
    and out: "arp_out s0 = arp_out s @ [request_for ie d a, ARP_initiated a (Some (arp_node s, i))]"
    and c: "arpCache s0 = put a e (arpCache s)"
    and e: "ae_pending e" "numRetries e = 0" "ae_ie e = Some (arp_node s, i)" "ae_timer e = Some (t0 + retryTimeout s)"
    and s0: "retryTimeout s0 = retryTimeout s" "retryCount s0 = retryCount s"
  have e0: "map_of (arpCache s0) a = Some e" by (simp add: c)
  note run = timeouts_while_retrying[OF ie e0 e(2,1,3), of t0, unfolded s0, OF e(4)]
  obtain m where m: "n = Suc m" "int m < retryCount s" "\<not> int m + 1 < retryCount s"
    using that[of "n - 1"] assms(3,4) by linarith
  have all: "\<forall>k < n. \<exists>t. arp_timeouts t0 k ift a s0 = Inr t \<and> arp_out t = arp_out s0 @ replicate k (request_for ie d a)
         \<and> (\<exists>e. map_of (arpCache t) a = Some e \<and> ae_pending e \<and> ae_timer e = Some (t0 + int (Suc k) * retryTimeout s))"
  proof (intro allI impI)
    fix k assume "k < n"
    then have "int k < retryCount s \<or> k = 0" using m by linarith
    from run[OF this] show "\<exists>t. arp_timeouts t0 k ift a s0 = Inr t
      \<and> arp_out t = arp_out s0 @ replicate k (request_for ie d a)
      \<and> (\<exists>e. map_of (arpCache t) a = Some e \<and> ae_pending e \<and> ae_timer e = Some (t0 + int (Suc k) * retryTimeout s))"
      by blast
  qed
  obtain t e' where t: "arp_timeouts t0 m ift a s0 = Inr t" "retryTimeout t = retryTimeout s0" "retryCount t = retryCount s"
    "map_of (arpCache t) a = Some e'" "numRetries e' = int m" "ae_ie e' = Some (arp_node s, i)"
    "arp_out t = arp_out s0 @ replicate m (request_for ie d a)"
    using run[of m] m(2) s0 by auto
  have "arp_timeouts t0 n ift a s0 = Inr (t\<lparr>arp_out := arp_out t @ [ARP_failed a (Some (arp_node s, i))],
      arpCache := erase a (arpCache t), numFailedResolutions := numFailedResolutions t + 1\<rparr>)"
    unfolding m(1) arp_timeouts_Suc[OF t(1,2)] using t m(3) by (simp add: requestTimedOut_def arp_emit_def Let_def)
  then show ?thesis
    using out all t(7) m(1) by (intro exI[of _ "request_for ie d a"] exI[of _ "ARP_initiated a (Some (arp_node s, i))"]) simp
qed

section \<open>Request and reply\<close>

text \<open>After a packet from an address, the address is known, for as long as entries live.\<close>

lemma known_after_packet:
  assumes "arpCache u = put a (resolved t0 mac e) c" "\<not> globalARP u" "now \<le> t0 + cacheTimeout u"
  shows "getMACAddressFor now u a = mac"
  using assms by (simp add: getMACAddressFor_def resolved_def)

lemma added_cache:
  "\<exists>e c. arpCache (added now ie pk s) = put (srcIPAddress pk) (resolved now (srcMACAddress pk) e) c"
  by (auto simp: added_def merged_def updateARPCache_eq split: option.split)

lemma added_simps [simp]:
  "globalARP (added now ie pk s) = globalARP s" "cacheTimeout (added now ie pk s) = cacheTimeout s"
  by (simp_all add: added_def merged_def split: option.split)

lemma merged_simps [simp]:
  "globalARP (merged now pk s) = globalARP s" "cacheTimeout (merged now pk s) = cacheTimeout s"
  by (simp_all add: merged_def split: option.split)

text \<open>
  C12: A node asks for the address of another one on its link; the other node gets the request and the
  first one gets its answer. Then the first node knows the MAC address of the second for its IP address,
  reports the resolution as completed, once, and no timer is left for it; and the second node knows
  the first, both for as long as entries live in their caches.
\<close>

theorem arp_exchange_resolves:
  assumes "startAddressResolution now1 ift1 a i s1 = Inr s1'"
    and "\<forall>e. map_of (arpCache s1) a = Some e \<longrightarrow> \<not> ae_pending e"
    and "getInterfaceById i ift1 = Some ie1" "ipv4data ie1 = Some d1"
    and "getInterfaceById j ift2 = Some ie2" "ipv4data ie2 = Some d2"
    and "isLocalAddress ift2 a rt2 = Inr (True, rt2')" "\<not> mac_isUnspecified (macAddr ie2)" "\<not> globalARP s2"
    and "isLocalAddress ift1 (inetAddr d1) rt1 = Inr (True, rt1')" "\<not> ip_isUnspecified a"
  shows "\<exists>request. arp_out s1' = arp_out s1 @ [ARP_to_NIC request (interfaceId ie1) MAC_BROADCAST,
        ARP_initiated a (Some (arp_node s1, i))]
    \<and> (\<exists>s2' reply. processARPPacket now2 ift2 request j (rt2, s2) = Inr (rt2', s2')
        \<and> last (arp_out s2') = ARP_to_NIC reply (interfaceId ie2) (macAddr ie1)
        \<and> (\<forall>now \<le> now2 + cacheTimeout s2. getMACAddressFor now s2' (inetAddr d1) = macAddr ie1)
        \<and> (\<exists>s1'' e. processARPPacket now3 ift1 reply i (rt1, s1') = Inr (rt1', s1'')
             \<and> arp_out s1'' = arp_out s1' @ [ARP_completed a (macAddr ie2) (Some (arp_node s1, i))]
             \<and> map_of (arpCache s1'') a = Some e \<and> ae_timer e = None
             \<and> (\<forall>now \<le> now3 + cacheTimeout s1. getMACAddressFor now s1'' a = macAddr ie2)))"
proof (rule startAddressResolution_Inr[OF assms(1,2)])
  fix ie d e
  assume ie: "getInterfaceById i ift1 = Some ie" "ipv4data ie = Some d" "\<not> globalARP s1"
      "\<not> mac_isUnspecified (macAddr ie)" "\<not> ip_isUnspecified (inetAddr d)"
    and out: "arp_out s1' = arp_out s1 @ [request_for ie d a, ARP_initiated a (Some (arp_node s1, i))]"
    and c: "arpCache s1' = put a e (arpCache s1)" and e: "ae_pending e" "ae_ie e = Some (arp_node s1, i)"
    and s1': "globalARP s1' = globalARP s1" "cacheTimeout s1' = cacheTimeout s1"
  have [simp]: "ie = ie1" "d = d1" using ie(1,2) assms(3,4) by simp_all
  let ?request = "\<lparr>arp_opcode = ARP_REQUEST, srcMACAddress = macAddr ie1, destMACAddress = MAC_UNSPECIFIED,
    srcIPAddress = inetAddr d1, destIPAddress = a\<rparr>"
  let ?reply = "\<lparr>arp_opcode = ARP_REPLY, srcMACAddress = macAddr ie2, destMACAddress = macAddr ie1,
    srcIPAddress = a, destIPAddress = inetAddr d1\<rparr>"
  let ?s2 = "added now2 (Some ie2) ?request s2"
  let ?s2' = "?s2\<lparr>arp_out := arp_out ?s2 @ [reply_to ?request ie2], numRepliesSent := numRepliesSent ?s2 + 1\<rparr>"
  let ?s1 = "updateARPCache now3 a e (macAddr ie2) s1'"
  have rec2: "addressRecognized ift2 a k rt2 s2 = Inr (True, rt2')" for k
    using assms(7) by (simp add: addressRecognized_def del: bind_res_eq_Inr)
  have rec1: "addressRecognized ift1 (inetAddr d1) k rt1 s1' = Inr (True, rt1')" for k
    using assms(10) by (simp add: addressRecognized_def del: bind_res_eq_Inr)
  have step2: "processARPPacket now2 ift2 ?request j (rt2, s2) = Inr (rt2', ?s2')"
    using ie assms(5,6) rec2 by (subst processARPPacket_eq) (simp_all add: Let_def del: bind_res_eq_Inr)
  have known2: "getMACAddressFor now ?s2' (inetAddr d1) = macAddr ie1" if "now \<le> now2 + cacheTimeout s2" for now
  proof -
    obtain e' c' where "arpCache ?s2 = put (inetAddr d1) (resolved now2 (macAddr ie1) e') c'"
      using added_cache[of now2 "Some ie2" ?request s2] by auto
    then show ?thesis using assms(9) that by (intro known_after_packet[of _ _ now2 _ e' c']) simp_all
  qed
  have "map_of (arpCache s1') a = Some e" by (simp add: c)
  then have m: "added now3 (Some ie1) ?reply s1' = ?s1" by (simp add: added_def merged_def)
  have step1: "processARPPacket now3 ift1 ?reply i (rt1, s1') = Inr (rt1', ?s1)"
    using assms(3,8,11) rec1 m
    by (subst processARPPacket_eq) (simp_all add: Let_def ARP_REPLY_def ARP_REQUEST_def del: bind_res_eq_Inr)
  have known1: "getMACAddressFor now ?s1 a = macAddr ie2" if "now \<le> now3 + cacheTimeout s1" for now
    by (rule known_after_packet[of _ _ now3 _ e "arpCache s1'"]) (use that ie(3) s1' in \<open>simp_all add: updateARPCache_eq\<close>)
  show ?thesis
    by (intro exI[of _ ?request] conjI exI[of _ ?s2'] exI[of _ ?reply] exI[of _ ?s1] exI[of _ "resolved now3 (macAddr ie2) e"])
      (use out step2 step1 known2 known1 e in \<open>simp_all add: request_for_def reply_to_def updateARPCache_eq resolved_def\<close>)
qed

section \<open>A new address\<close>

text \<open>
  Initialization skips an address that another interface has already registered; a later change to such
  an address stops the simulation.
\<close>

lemma address_conflict_asserts:
  assumes "ipv4data ie = Some d" "\<not> ip_isUnspecified (inetAddr d)" "map_of (globalArpCache s) (inetAddr d) \<noteq> None"
    and "\<forall>(a, e) \<in> set (globalArpCache s). ae_ie e \<noteq> Some (arp_node s, interfaceId ie)" "\<not> if_loopback ie"
  shows "register_interface ie s = s" "arp_receiveChangeNotification ie s = Inl Assertion_failed"
proof -
  have "find_first (\<lambda>(a, e). ae_ie e = Some (arp_node s, interfaceId ie)) (globalArpCache s) = None"
    using assms(4) by (auto simp: find_first_None)
  then show "arp_receiveChangeNotification ie s = Inl Assertion_failed"
    using assms(1-3,5) by (simp add: arp_receiveChangeNotification_def ASSERT_def)
  show "register_interface ie s = s" using assms(1,3) by (simp add: register_interface_def)
qed

section \<open>Samples\<close>

text \<open>Two nodes on a link: their interfaces, modules and routing tables.\<close>

definition sample_nic :: "MACAddress \<Rightarrow> IPv4Address \<Rightarrow> InterfaceEntry" where
  "sample_nic m a = \<lparr>if_name = ''eth0'', interfaceId = 100, nwLayerGateIndex = 0, mtu = 1500,
     if_broadcast = True, if_multicast = True, if_loopback = False, macAddr = m,
     ipv4data = Some (new_IPv4InterfaceData\<lparr>inetAddr := a, if_netmask := 0xFFFF0000\<rparr>)\<rparr>"

definition sample_arp :: "nat \<Rightarrow> ARP" where
  "sample_arp n = \<lparr>arp_id = n, arp_node = n, retryTimeout = 1000, retryCount = 3, cacheTimeout = 120000,
     respondToProxyARP = False, globalARP = False, arp_isUp = True, numResolutions = 0, numFailedResolutions = 0,
     numRequestsSent = 0, numRepliesSent = 0, arpCache = [], globalArpCache = [], arp_out = []\<rparr>"

definition sample_rt :: "IPv4Address \<Rightarrow> RoutingTable" where
  "sample_rt a = (new_RoutingTable False False)\<lparr>localAddresses := {a}\<rparr>"

definition sample_request :: arp_event where
  "sample_request = request_for (sample_nic 0x0AAA00000001 0x0A010203)
     (new_IPv4InterfaceData\<lparr>inetAddr := 0x0A010203, if_netmask := 0xFFFF0000\<rparr>) 0x0A010204"

definition sample_asking :: ARP where
  "sample_asking = (sample_arp 1)\<lparr>
     arp_out := [sample_request, ARP_initiated 0x0A010204 (Some (1, 100))], numRequestsSent := 1, numResolutions := 1,
     arpCache := [(0x0A010204, \<lparr>ae_owner = Some 1, ae_ie = Some (1, 100), ae_pending = True,
       ae_macAddress = MAC_UNSPECIFIED, lastUpdate = 0, numRetries = 0, ae_timer = Some 1000\<rparr>)]\<rparr>"

lemma sample_nic_simps [simp]:
  "getInterfaceById 100 [Some (sample_nic m a)] = Some (sample_nic m a)" "macAddr (sample_nic m a) = m"
  "ipv4data (sample_nic m a) = Some (new_IPv4InterfaceData\<lparr>inetAddr := a, if_netmask := 0xFFFF0000\<rparr>)"
  "interfaceId (sample_nic m a) = 100"
  by (simp_all add: getInterfaceById_def INTERFACEIDS_START_def sample_nic_def)

lemma sample_asks:
  "startAddressResolution 0 [Some (sample_nic 0x0AAA00000001 0x0A010203)] 0x0A010204 100 (sample_arp 1)
     = Inr sample_asking"
  by (simp add: startAddressResolution_def initiateARPResolution_def interface_of_def sendARPRequest_def
      arp_sendPacketToNIC_def arp_emit_def request_for_def mac_isUnspecified_def ip_isUnspecified_def sample_arp_def
      sample_asking_def sample_request_def new_ARPCacheEntry_def Let_def del: bind_res_eq_Inr)

lemma sample_asking_reachable: "arp_reachable sample_asking"
  by (rule arp_reachable.resolve[OF arp_reachable.start sample_asks]) (simp add: sample_arp_def)

theorem arp_entries_consistent_witness:
  "\<exists>e. map_of (arpCache sample_asking) 0x0A010204 = Some e \<and> ae_pending e \<and> ae_timer e \<noteq> None"
  using arp_entries_consistent[OF sample_asking_reachable, of 0x0A010204]
  by (simp add: sample_asking_def)

theorem arp_gives_up_witness:
  "\<exists>sn. arp_timeouts 0 3 [Some (sample_nic 0x0AAA00000001 0x0A010203)] 0x0A010204 sample_asking = Inr sn
    \<and> map_of (arpCache sn) 0x0A010204 = None
    \<and> arp_out sn = arp_out sample_asking @ [sample_request, sample_request, ARP_failed 0x0A010204 (Some (1, 100))]"
  using arp_gives_up[OF sample_asks, of 3] by (auto simp: sample_arp_def sample_asking_def numeral_2_eq_2)

theorem arp_exchange_resolves_witness:
  "\<exists>reply rt s2 s1. processARPPacket 5 [Some (sample_nic 0x0AAA00000002 0x0A010204)]
        \<lparr>arp_opcode = ARP_REQUEST, srcMACAddress = 0x0AAA00000001, destMACAddress = MAC_UNSPECIFIED,
         srcIPAddress = 0x0A010203, destIPAddress = 0x0A010204\<rparr> 100 (sample_rt 0x0A010204, sample_arp 2) = Inr (rt, s2)
    \<and> processARPPacket 9 [Some (sample_nic 0x0AAA00000001 0x0A010203)] reply 100
        (sample_rt 0x0A010203, sample_asking) = Inr (sample_rt 0x0A010203, s1)
    \<and> getMACAddressFor 120009 s1 0x0A010204 = 0x0AAA00000002
    \<and> getMACAddressFor 100 s2 0x0A010203 = 0x0AAA00000001"
proof -
  have l: "isLocalAddress ift a (sample_rt a) = Inr (True, sample_rt a)" for ift a
    by (simp add: isLocalAddress_def sample_rt_def)
  have n: "\<forall>e. map_of (arpCache (sample_arp 1)) 0x0A010204 = Some e \<longrightarrow> \<not> ae_pending e"
    by (simp add: sample_arp_def)
  note x = arp_exchange_resolves[OF sample_asks n, where j = 100 and ?now2.0 = 5 and ?now3.0 = 9
      and ?s2.0 = "sample_arp 2" and ?ift2.0 = "[Some (sample_nic 0x0AAA00000002 0x0A010204)]",
      OF sample_nic_simps(1,3) sample_nic_simps(1,3) l]
  have out: "arp_out (sample_arp 1) = []" "arp_out sample_asking = [sample_request, ARP_initiated 0x0A010204 (Some (1, 100))]"
    "cacheTimeout (sample_arp n) = 120000" "\<not> globalARP (sample_arp n)" for n
    by (simp_all add: sample_arp_def sample_asking_def)
  from x[of "sample_rt 0x0A010203" "sample_rt 0x0A010203"] l
  obtain reply s2 s1 where "processARPPacket 5 [Some (sample_nic 0x0AAA00000002 0x0A010204)]
        \<lparr>arp_opcode = ARP_REQUEST, srcMACAddress = 0x0AAA00000001, destMACAddress = MAC_UNSPECIFIED,
         srcIPAddress = 0x0A010203, destIPAddress = 0x0A010204\<rparr> 100 (sample_rt 0x0A010204, sample_arp 2)
          = Inr (sample_rt 0x0A010204, s2)"
    and known2: "\<forall>now \<le> 120005. getMACAddressFor now s2 0x0A010203 = 0x0AAA00000001"
    and "processARPPacket 9 [Some (sample_nic 0x0AAA00000001 0x0A010203)] reply 100
        (sample_rt 0x0A010203, sample_asking) = Inr (sample_rt 0x0A010203, s1)"
    and known1: "\<forall>now \<le> 120009. getMACAddressFor now s1 0x0A010204 = 0x0AAA00000002"
    by (auto simp: out mac_isUnspecified_def ip_isUnspecified_def sample_request_def request_for_def)
  with known1[THEN spec, of 120009] known2[THEN spec, of 100] show ?thesis by auto
qed

end
