(* ===== verification/IPv4_ARP.thy ===== *)
theory IPv4_ARP
  imports IPv4_Delivery ARP_Laws
begin

text \<open>
  IPv4 and ARP on one node (\<^verbatim>\<open>IPv4::receiveSignal\<close> and the calls of \<^verbatim>\<open>IARPCache\<close>
  in \<^verbatim>\<open>IPv4.cc\<close>): a datagram for an address that is not resolved waits, ARP is asked to
  resolve the address, and the signal of ARP lets the datagrams go or drops them.

  IPv4 asks ARP within its handlers; here the resolutions that a handler has asked for start right after
  it, in their order. The answers that IPv4 gets meanwhile are the same: starting the resolution of an
  unresolved address changes no answer (\<open>resolution_keeps_answers\<close>).
\<close>

section \<open>What IPv4 asks for\<close>

text \<open>Every address for which a datagram newly waits has been given to ARP.\<close>

definition asks :: "'p IPv4 \<Rightarrow> 'p IPv4 \<Rightarrow> bool" where
  "asks s t \<longleftrightarrow> (\<exists>es. ip_out t = ip_out s @ es \<and> (\<forall>a. map_of (pendingPackets t) a \<noteq> None \<longrightarrow>
     map_of (pendingPackets s) a \<noteq> None \<or> (\<exists>i. Start_resolution a i \<in> set es)))"

lemma asks_refl [simp, intro]: "asks s s"
  by (auto simp: asks_def)

lemma asks_trans: "asks s t \<Longrightarrow> asks t u \<Longrightarrow> asks s u"
  unfolding asks_def by (metis Un_iff append.assoc set_append)

lemma asks_frame: "asks s t \<Longrightarrow> pendingPackets u = pendingPackets t \<Longrightarrow> ip_out u = ip_out t \<Longrightarrow> asks s u"
  by (simp add: asks_def)

lemma asks_same: "pendingPackets u = pendingPackets s \<Longrightarrow> ip_out u = ip_out s \<Longrightarrow> asks s u"
  by (rule asks_frame[OF asks_refl])

lemma asks_emit: "pendingPackets u = pendingPackets s \<Longrightarrow> ip_out u = ip_out s @ es \<Longrightarrow> asks s u"
  by (auto simp: asks_def)

lemma stays_asks: "stays_inside s t \<Longrightarrow> asks s t"
  by (auto simp: stays_inside_def asks_def)

lemma asks_from: "res_all (asks t) m \<Longrightarrow> asks s t \<Longrightarrow> res_all (asks s) m"
  using asks_trans by (auto simp: res_all_def)

lemma asks_then: "res_all (asks s) m \<Longrightarrow> (\<And>t. asks s t \<Longrightarrow> res_all (asks s) (f t)) \<Longrightarrow> res_all (asks s) (bind_res m f)"
  by (rule res_all_bind) (auto dest: res_allD)

lemma asks_fold:
  assumes "\<And>x t. res_all (asks t) (f x t)"
  shows "asks s t \<Longrightarrow> res_all (asks s) (fold_res f xs t)"
proof (induction xs arbitrary: t)
  case (Cons x xs)
  then show ?case using asks_from[OF assms Cons.prems] by (auto intro!: asks_then)
qed simp

text \<open>Sending is where datagrams begin to wait.\<close>

lemma asks_output: "res_all (asks s) (sendDatagramToOutput env d ie nh s)"
proof -
  have nic: "asks s (sendPacketToNIC d' ie mac s)" for d' mac
    by (rule asks_emit) (simp_all add: sendPacketToNIC_def ip_emit_def)
  have wait: "asks s (ip_emit (Start_resolution a i) (s\<lparr>pendingPackets := put a ds (pendingPackets s)\<rparr>))" for a i ds
    by (auto simp: asks_def ip_emit_def)
  show ?thesis
    unfolding sendDatagramToOutput_def Let_def
    by (intro res_all_if res_all_bind res_all_ASSERT) (use nic wait in simp_all)
qed

lemma asks_fragmentAndSend: "res_all (asks s) (fragmentAndSend env d ie nh s)"
proof -
  have err: "asks s (ip_emit e s\<lparr>numDropped := n\<rparr>)" for e n
    by (rule asks_emit) (simp_all add: ip_emit_def)
  show ?thesis
    unfolding fragmentAndSend_def Let_def
    by (intro res_all_bind res_all_if asks_output asks_fold) (use err in simp_all)
qed

lemma asks_hooks: "run_hooks env ht hs d inIE outIE nh s = (ok, d', outIE', nh', s') \<Longrightarrow> asks s s'"
  using stays_run_hooks stays_asks by blast

lemma asks_fragmentPostRouting: "res_all (asks s) (fragmentPostRouting env d ie nh s)"
  unfolding fragmentPostRouting_def
  by (auto split: prod.split intro!: res_all_bind dest!: asks_hooks intro: asks_from[OF asks_fragmentAndSend])

lemma asks_Finish: "res_all (asks s) (routeUnicastPacketFinish env d destIE nh s)"
  unfolding routeUnicastPacketFinish_def
  by (intro res_all_bind asks_from[OF asks_fragmentPostRouting] asks_same) simp_all

lemma asks_lookup: "lookup_route dst s = Inr (r, t) \<Longrightarrow> asks s t"
  by (auto simp: lookup_route_def intro!: asks_same split: option.splits)

lemma asks_choose: "choose_route dst destIE requested s = Inr (o', n', t) \<Longrightarrow> asks s t"
  by (auto simp: choose_route_def dest: asks_lookup split: option.splits if_splits)

lemma asks_unicast: "res_all (asks s) (routeUnicastPacket env d fromIE destIE requested s)"
proof -
  have err: "asks t (ip_emit e (t\<lparr>numUnroutable := n\<rparr>))" for t :: "'a IPv4" and e n
    by (rule asks_emit) (simp_all add: ip_emit_def)
  have "res_all (asks t) (if destIE = None then
         Inr (ip_emit (ICMP_error d (case fromIE of None \<Rightarrow> -1 | Some ie \<Rightarrow> interfaceId ie)
                ICMP_DESTINATION_UNREACHABLE 0) (t\<lparr>numUnroutable := numUnroutable t + 1\<rparr>))
       else if fromIE \<noteq> None then
         (case run_hooks env FORWARD (hooks t) d fromIE destIE nextHop t of
            (ok, d, destIE, nextHop, s) \<Rightarrow>
              if ok then routeUnicastPacketFinish env d destIE nextHop s else Inr s)
       else routeUnicastPacketFinish env d destIE nextHop t)" for destIE nextHop t
    by (intro res_all_if asks_Finish)
      (use err in \<open>auto split: prod.split dest!: asks_hooks intro: asks_from[OF asks_Finish]\<close>)
  then show ?thesis
    unfolding routeUnicastPacket_def
    by (intro res_all_bind) (auto dest!: asks_choose intro: asks_from simp del: if_split_asm cong: if_cong)
qed

lemma asks_broadcast: "res_all (asks s) (routeLocalBroadcastPacket env d destIE s)"
  unfolding routeLocalBroadcastPacket_def
  by (cases destIE) (auto intro!: res_all_if asks_fragmentPostRouting asks_fold asks_same)

lemma asks_multicast_interface:
  "determineOutgoingInterfaceForMulticastDatagram d opt s = Inr (ie, t) \<Longrightarrow> asks s t"
  by (auto simp: determineOutgoingInterfaceForMulticastDatagram_def dest!: asks_lookup split: if_splits)

lemma asks_forward_to_output: "res_all (asks s) (forward_to_output env d fromIE oi s)"
  unfolding forward_to_output_def
  by (intro res_all_bind res_all_if asks_fragmentPostRouting) simp_all

lemma asks_shortest: "getShortestPathInterfaceToSource d s = Inr (ie, t) \<Longrightarrow> asks s t"
  by (auto simp: getShortestPathInterfaceToSource_def intro!: asks_same)

lemma asks_forwardMulticast: "res_all (asks s) (forwardMulticastPacket env d fromIE s)"
proof -
  have multicast: "asks s (s\<lparr>numMulticast := n\<rparr>)" "asks s (s\<lparr>numMulticast := n, ip_rt := t\<rparr>)" for n t
    by (simp_all add: asks_same)
  have f: "res_all (asks u) (if \<not> same_interface (Some fromIE) ie then Inr (u\<lparr>numDropped := numDropped u + 1\<rparr>)
                       else fold_res (forward_to_output env d fromIE) (outInterfaces m)
                              (u\<lparr>numForwarded := numForwarded u + 1\<rparr>))" for ie u and m :: IPv4MulticastRoute
    by (intro res_all_if) (auto intro!: asks_fold asks_forward_to_output asks_same)
  have m: "res_all (asks t) (case p of
             None \<Rightarrow> Inr (t\<lparr>numUnroutable := numUnroutable t + 1\<rparr>)
           | Some p \<Rightarrow>
               bind_res (deref (map_of (multicastRoutes (ip_rt t)) p)) (\<lambda>m.
                 if inInterface m \<noteq> None \<and> inInterface m \<noteq> Some (interfaceId fromIE) then
                   Inr (t\<lparr>numDropped := numDropped t + 1\<rparr>)
                 else
                   bind_res
                     (if inInterface m = None then getShortestPathInterfaceToSource d t else Inr (Some fromIE, t))
                     (\<lambda>(ie, s).
                       if \<not> same_interface (Some fromIE) ie then Inr (s\<lparr>numDropped := numDropped s + 1\<rparr>)
                       else fold_res (forward_to_output env d fromIE) (outInterfaces m)
                              (s\<lparr>numForwarded := numForwarded s + 1\<rparr>))))" for t p
    by (intro res_all_option res_all_bind res_all_if res_all_prod asks_from[OF f])
      (auto split: if_split_asm dest: asks_shortest intro: asks_same)
  show ?thesis
    unfolding forwardMulticastPacket_def Let_def
    by (intro res_all_ASSERT asks_from[OF m]) (use multicast in auto)
qed

text \<open>Datagrams that arrive, and those of the upper layers.\<close>

lemma asks_deliver: "res_all (asks s) (reassembleAndDeliver env d s)"
  by (auto simp: res_all_def intro: stays_asks stays_deliver)

lemma asks_preroutingFinish: "res_all (asks s) (preroutingFinish env d fromIE destIE nh s)"
proof -
  have local: "asks s (s\<lparr>ip_rt := t\<rparr>)" for t by (rule asks_same) simp_all
  have drop: "asks s (s\<lparr>ip_rt := t, numDropped := n\<rparr>)" for t n by (rule asks_same) simp_all
  show ?thesis
    unfolding preroutingFinish_def Let_def
    by (intro res_all_if res_all_option asks_deliver res_all_prod asks_then res_all_bind)
      (use local drop in \<open>auto intro: asks_deliver asks_from[OF asks_forwardMulticast] asks_from[OF asks_unicast]
        asks_from[OF asks_fragmentPostRouting] asks_from[OF asks_deliver]\<close>)
qed

lemma asks_localOut: "res_all (asks s) (datagramLocalOut env d destIE requested s)"
proof -
  have same: "asks s (s\<lparr>ip_rt := t\<rparr>)" "asks u (u\<lparr>numMulticast := n\<rparr>)" "asks u (u\<lparr>numUnroutable := n\<rparr>)"
    for t n and u :: "'a IPv4" by (simp_all add: asks_same)
  show ?thesis
    unfolding datagramLocalOut_def Let_def
    by (intro res_all_if res_all_ASSERT asks_then res_all_option res_all_bind res_all_prod)
      (auto split: if_split_asm option.split_asm
        intro: same asks_trans[OF _ same(3)] asks_trans[OF asks_trans same(3)]
          asks_from[OF asks_fragmentPostRouting] asks_from[OF asks_unicast]
          asks_from[OF asks_broadcast] asks_trans[OF _ same(2)] dest!: asks_multicast_interface
          dest: res_allD[OF asks_fragmentPostRouting])
qed

lemma asks_encapsulate: "ip_encapsulate env p ci s = Inr (d, t) \<Longrightarrow> asks s t"
  by (auto simp: ip_encapsulate_def Let_def intro!: asks_same split: if_split_asm)

lemma asks_fromHL: "res_all (asks s) (handlePacketFromHL env m s)"
proof -
  have out: "res_all (asks t) (case run_hooks env LOCALOUT (hooks t) d None destIE 0 t of
            (ok, d, destIE, nextHop, s) \<Rightarrow>
              if ok then datagramLocalOut env d destIE nextHop s else Inr s)" for d destIE t
    by (intro res_all_prod res_all_if asks_from[OF asks_localOut]) (auto dest: asks_hooks)
  have enc: "(case m of
             HL_datagram d \<Rightarrow> Inr (d, None, s)
           | HL_packet p None \<Rightarrow> Inl (Runtime_error ''check_and_cast(): cannot cast to IPv4ControlInfo'')
           | HL_packet p (Some ci) \<Rightarrow>
               bind_res (ip_encapsulate env p ci s) (\<lambda>(d, s).
                 Inr (d\<lparr>dg_multicastLoop := Some (ci_multicastLoop ci)\<rparr>,
                      getInterfaceById (ci_interfaceId ci) (ip_ift s), s))) = Inr (d, ie, t) \<Longrightarrow> asks s t" for d ie t
    by (auto split: hl_packet.split_asm option.split_asm dest: asks_encapsulate)
  show ?thesis
    unfolding handlePacketFromHL_def
    by (intro res_all_if res_all_bind) (auto intro: asks_same asks_from[OF out] dest: enc)
qed

lemma asks_incoming: "res_all (asks s) (handleIncomingDatagram env in_header d fromIE s)"
  unfolding handleIncomingDatagram_def
  by (intro res_all_option res_all_if res_all_prod asks_from[OF asks_preroutingFinish])
    (auto intro: asks_emit[where es = "[e]" for e] dest: asks_hooks simp: ip_emit_def)

theorem asks_handleMessage: "res_all (asks s) (ip_handleMessage env m s)"
proof -
  have nic: "asks s (sendPacketToNIC d ie mac s)" "asks s (ip_emit To_ARP s)" for d ie mac
    by (rule asks_emit, simp_all add: sendPacketToNIC_def ip_emit_def)+
  have "res_all (asks s) (endService env m s)"
    unfolding endService_def
    by (cases m) (auto intro!: res_all_if res_all_bind asks_fromHL asks_incoming nic)
  then show ?thesis
    by (cases m) (auto simp: ip_handleMessage_def intro!: res_all_bind asks_same)
qed

lemma asks_reinject: "res_all (asks s) (reinjectQueuedDatagram env n s)"
proof -
  have drop: "asks s t \<Longrightarrow> asks s (dropQueuedDatagram n t)" for t
    by (erule asks_frame) (simp_all add: dropQueuedDatagram_def)
  have deliver: "res_all (asks s) (reassembleAndDeliverFinish env d s)" for d
    by (auto simp: res_all_def intro: stays_asks stays_deliverFinish)
  show ?thesis
    unfolding reinjectQueuedDatagram_def
    by (intro res_all_option asks_then)
      (auto split: HookType.split intro!: res_all_bind drop deliver asks_localOut asks_preroutingFinish
        asks_fragmentAndSend asks_Finish)
qed

section \<open>The node\<close>

record 'p node =
  nd_ip :: "'p IPv4"
  nd_arp :: ARP

text \<open>The signals that IPv4 has subscribed to.\<close>

definition ip_receiveSignal :: "arp_event \<Rightarrow> 'p IPv4 \<Rightarrow> 'p IPv4 res" where
  "ip_receiveSignal e s =
     (case e of
        ARP_completed a mac p \<Rightarrow>
          if map_of (pendingPackets s) a = None then Inr s
          else bind_res (interface_of p (ip_ift s)) (\<lambda>ie. Inr (arpResolutionCompleted a ie mac s))
      | ARP_failed a p \<Rightarrow> Inr (arpResolutionTimedOut a s)
      | _ \<Rightarrow> Inr s)"

fun start_resolution :: "simtime \<Rightarrow> InterfaceTable \<Rightarrow> 'p ip_event \<Rightarrow> ARP \<Rightarrow> ARP res" where
  "start_resolution now ift (Start_resolution a i) s = startAddressResolution now ift a i s"
| "start_resolution now ift _ s = Inr s"

text \<open>
  IPv4 handles something, with the answers of ARP as they are; then ARP starts the resolutions. ARP
  handles a message; then IPv4 gets its signals.
\<close>

definition asking :: "'p ip_env \<Rightarrow> 'p node \<Rightarrow> 'p ip_env" where
  "asking env n = env\<lparr>env_arp := getMACAddressFor (env_now env) (nd_arp n)\<rparr>"

definition node_ip ::
  "'p ip_env \<Rightarrow> ('p ip_env \<Rightarrow> 'p IPv4 \<Rightarrow> 'p IPv4 res) \<Rightarrow> 'p node \<Rightarrow> 'p node res" where
  "node_ip env h n =
     bind_res (h (asking env n) (nd_ip n)) (\<lambda>s.
     bind_res (fold_res (start_resolution (env_now env) (ip_ift s)) (drop (length (ip_out (nd_ip n))) (ip_out s)) (nd_arp n))
       (\<lambda>a. Inr (n\<lparr>nd_ip := s, nd_arp := a\<rparr>)))"

definition node_arp :: "simtime \<Rightarrow> arp_message \<Rightarrow> 'p node \<Rightarrow> 'p node res" where
  "node_arp now m n =
     bind_res (arp_handleMessage now (ip_ift (nd_ip n)) m (ip_rt (nd_ip n), nd_arp n)) (\<lambda>(t, a).
     bind_res (fold_res ip_receiveSignal (drop (length (arp_out (nd_arp n))) (arp_out a)) ((nd_ip n)\<lparr>ip_rt := t\<rparr>))
       (\<lambda>s. Inr (n\<lparr>nd_ip := s, nd_arp := a\<rparr>)))"

definition node_lifecycle :: "node_operation \<Rightarrow> 'p node \<Rightarrow> 'p node res" where
  "node_lifecycle oper n =
     bind_res (arp_handleOperationStage oper (nd_arp n)) (\<lambda>a.
       Inr (n\<lparr>nd_ip := ip_handleOperationStage oper (nd_ip n), nd_arp := a\<rparr>))"

text \<open>
  A node starts with nothing waiting and nothing resolved. Besides messages and timers, its interfaces,
  routes and hooks may change at any time, to anything; nobody else touches the datagrams that wait.
\<close>

inductive node_reachable :: "'p node \<Rightarrow> bool" where
  start: "pendingPackets (nd_ip n) = [] \<Longrightarrow> arpCache (nd_arp n) = [] \<Longrightarrow> node_reachable n"
| message: "node_reachable n \<Longrightarrow> node_ip env (\<lambda>env. ip_handleMessage env m) n = Inr n' \<Longrightarrow> node_reachable n'"
| reinject: "node_reachable n \<Longrightarrow> node_ip env (\<lambda>env. reinjectQueuedDatagram env k) n = Inr n' \<Longrightarrow> node_reachable n'"
| packet: "node_reachable n \<Longrightarrow> node_arp now (ARP_packet pk i) n = Inr n' \<Longrightarrow> node_reachable n'"
| timeout: "node_reachable n \<Longrightarrow> map_of (arpCache (nd_arp n)) a = Some e \<Longrightarrow> ae_timer e = Some now \<Longrightarrow>
    node_arp now (ARP_timeout a) n = Inr n' \<Longrightarrow> node_reachable n'"
| operation: "node_reachable n \<Longrightarrow> node_lifecycle oper n = Inr n' \<Longrightarrow> node_reachable n'"
| change: "node_reachable n \<Longrightarrow> arp_receiveChangeNotification ie (nd_arp n) = Inr a \<Longrightarrow> node_reachable (n\<lparr>nd_arp := a\<rparr>)"
| surroundings: "node_reachable n \<Longrightarrow> pendingPackets s = pendingPackets (nd_ip n) \<Longrightarrow> node_reachable (n\<lparr>nd_ip := s\<rparr>)"

section \<open>Waiting and resolving\<close>

definition resolving :: "ARP \<Rightarrow> IPv4Address \<Rightarrow> bool" where
  "resolving s a \<longleftrightarrow> (\<exists>e. map_of (arpCache s) a = Some e \<and> ae_pending e)"

definition settles :: "IPv4Address \<Rightarrow> arp_event \<Rightarrow> bool" where
  "settles a e = (case e of ARP_completed b mac p \<Rightarrow> b = a | ARP_failed b p \<Rightarrow> b = a | _ \<Rightarrow> False)"

lemma initiate_pending:
  assumes "initiateARPResolution now ift a e s = Inr t"
  shows "\<exists>e'. ae_pending e' \<and> arpCache t = put a e' (arpCache s) \<and> globalARP t = globalARP s \<and> cacheTimeout t = cacheTimeout s"
  by (rule initiate_Inr[OF assms])
    (auto intro!: exI[of _ "e\<lparr>ae_pending := True, numRetries := 0, lastUpdate := 0,
       ae_macAddress := MAC_UNSPECIFIED, ae_timer := Some (now + retryTimeout s)\<rparr>"])

lemma start_resolving:
  assumes "startAddressResolution now ift a i s = Inr t"
  shows "resolving t a" "resolving s b \<Longrightarrow> resolving t b"
proof -
  have "t = s \<and> resolving s a \<or> (\<exists>e. ae_pending e \<and> arpCache t = put a e (arpCache s))"
    using assms by (auto simp: startAddressResolution_def resolving_def split: if_split_asm option.split_asm dest!: initiate_pending)
  then show "resolving t a" "resolving s b \<Longrightarrow> resolving t b" by (auto simp: resolving_def)
qed

lemma resolution_keeps_answers:
  assumes "startAddressResolution now ift a i s = Inr t" "getMACAddressFor now s a = MAC_UNSPECIFIED"
  shows "getMACAddressFor now t b = getMACAddressFor now s b"
proof -
  have g: "\<not> globalARP s" using assms(1) by (auto simp: startAddressResolution_def)
  have "t = s \<or> (\<exists>e. ae_pending e \<and> arpCache t = put a e (arpCache s) \<and> globalARP t = globalARP s \<and> cacheTimeout t = cacheTimeout s)"
    using assms(1) by (auto simp: startAddressResolution_def split: if_split_asm option.split_asm dest!: initiate_pending)
  then show ?thesis using assms(2) g by (auto simp: getMACAddressFor_def cong: option.case_cong if_cong)
qed

lemma started_resolutions:
  assumes "fold_res (start_resolution now ift) es s = Inr t"
  shows "resolving s b \<Longrightarrow> resolving t b" "Start_resolution a i \<in> set es \<Longrightarrow> resolving t a"
    "arp_reachable s \<Longrightarrow> arp_reachable t"
  using assms
proof (induction es arbitrary: s a b i)
  case (Cons e es)
  { case 1 then show ?case by (cases e) (auto intro: Cons.IH(1) start_resolving(2)) }
  { case 2 then show ?case by (cases e) (auto intro: Cons.IH(1,2) start_resolving(1)) }
  { case 3 then show ?case by (cases e) (auto intro: Cons.IH(3) arp_reachable.resolve) }
qed auto

text \<open>ARP stops resolving an address only with a signal that says so.\<close>

definition signals :: "ARP \<Rightarrow> ARP \<Rightarrow> bool" where
  "signals s t \<longleftrightarrow> (\<exists>es. arp_out t = arp_out s @ es \<and>
     (\<forall>a. resolving s a \<longrightarrow> resolving t a \<or> (\<exists>e \<in> set es. settles a e)))"

lemma signals_merged: "signals s (merged now pk s)"
  by (auto simp: signals_def merged_def updateARPCache_eq resolving_def settles_def split: option.split)

lemma signals_added: "signals s (added now ie pk s)"
  using signals_merged[of s now pk]
  by (auto simp: added_def signals_def updateARPCache_eq resolving_def settles_def)

lemma signals_then:
  "signals s t \<Longrightarrow> arpCache u = arpCache t \<Longrightarrow> arp_out u = arp_out t @ es \<Longrightarrow> signals s u"
  by (fastforce simp: signals_def resolving_def)

lemma signals_packet:
  assumes "processARPPacket now ift pk i (t, s) = Inr (t', s')"
  shows "signals s s'"
proof -
  have src: "\<not> mac_isUnspecified (srcMACAddress pk)" "\<not> ip_isUnspecified (srcIPAddress pk)"
    using assms by (auto simp: processARPPacket_def Let_def split: if_splits)
  note sig = signals_merged[of s now pk] signals_added[of s now _ pk]
  have "res_all (\<lambda>(t, s'). signals s s') (processARPPacket now ift pk i (t, s))"
    unfolding processARPPacket_eq[OF src] Let_def split_beta
    by (intro res_all_bind res_all_if) (use sig in \<open>auto intro: signals_then[OF sig(2)]\<close>)
  then show ?thesis using assms by (auto dest: res_allD)
qed

lemma signals_timeout:
  assumes "requestTimedOut now ift a s = Inr t" "arp_ok s" "map_of (arpCache s) a = Some e" "ae_timer e \<noteq> None"
  shows "signals s t"
  using assms(1)
proof (cases rule: requestTimedOut_cases)
  case (retry e' ie d)
  then have "ae_pending e'" using arp_okD(2)[OF assms(2,3)] assms(3,4) by (simp add: entry_ok_def)
  then show ?thesis using retry by (auto simp: signals_def resolving_def)
next
  case (fail e')
  then show ?thesis by (auto simp: signals_def resolving_def settles_def)
qed

text \<open>And IPv4 keeps datagrams only for the addresses that no signal is about.\<close>

lemma received_signal:
  assumes "ip_receiveSignal e s = Inr t" "map_of (pendingPackets t) a \<noteq> None"
  shows "map_of (pendingPackets s) a \<noteq> None \<and> \<not> settles a e"
  using assms
  by (auto simp: ip_receiveSignal_def arpResolutionCompleted_def arpResolutionTimedOut_def settles_def
      split: arp_event.split_asm if_split_asm option.split_asm)

lemma received_signals:
  "fold_res ip_receiveSignal es s = Inr t \<Longrightarrow> map_of (pendingPackets t) a \<noteq> None \<Longrightarrow>
   map_of (pendingPackets s) a \<noteq> None \<and> (\<forall>e \<in> set es. \<not> settles a e)"
proof (induction es arbitrary: s)
  case (Cons e es)
  then obtain u where "ip_receiveSignal e s = Inr u" "fold_res ip_receiveSignal es u = Inr t" by auto
  then show ?case using Cons.IH[of u] Cons.prems(2) received_signal[of e s u a] by auto
qed simp

section \<open>The invariant\<close>

definition waits_for_resolution :: "'p node \<Rightarrow> bool" where
  "waits_for_resolution n \<longleftrightarrow>
     (\<forall>a. map_of (pendingPackets (nd_ip n)) a \<noteq> None \<longrightarrow> resolving (nd_arp n) a)"

lemma node_ip_step:
  assumes "node_ip env h n = Inr n'" "waits_for_resolution n" "arp_reachable (nd_arp n)"
    and "\<And>env s. res_all (asks s) (h env s)"
  shows "waits_for_resolution n'" "arp_reachable (nd_arp n')"
proof -
  obtain s a where s: "h (asking env n) (nd_ip n) = Inr s"
    and a: "fold_res (start_resolution (env_now env) (ip_ift s)) (drop (length (ip_out (nd_ip n))) (ip_out s)) (nd_arp n) = Inr a"
    and n': "n' = n\<lparr>nd_ip := s, nd_arp := a\<rparr>"
    using assms(1) by (auto simp: node_ip_def)
  have "asks (nd_ip n) s" using assms(4) s by (rule res_allD)
  then obtain es where es: "ip_out s = ip_out (nd_ip n) @ es" "\<forall>a. map_of (pendingPackets s) a \<noteq> None \<longrightarrow>
      map_of (pendingPackets (nd_ip n)) a \<noteq> None \<or> (\<exists>i. Start_resolution a i \<in> set es)"
    by (auto simp: asks_def)
  note r = started_resolutions[OF a[unfolded es(1), simplified]]
  show "waits_for_resolution n'"
    using es(2) r(1,2) assms(2) unfolding waits_for_resolution_def n' by (auto; blast)
  show "arp_reachable (nd_arp n')" using r(3) assms(3) n' by simp
qed

lemma node_arp_step:
  assumes "node_arp now m n = Inr n'" "waits_for_resolution n"
    and "\<And>t a. arp_handleMessage now (ip_ift (nd_ip n)) m (ip_rt (nd_ip n), nd_arp n) = Inr (t, a) \<Longrightarrow> signals (nd_arp n) a"
  shows "waits_for_resolution n'"
proof -
  obtain t a s where a: "arp_handleMessage now (ip_ift (nd_ip n)) m (ip_rt (nd_ip n), nd_arp n) = Inr (t, a)"
    and s: "fold_res ip_receiveSignal (drop (length (arp_out (nd_arp n))) (arp_out a)) ((nd_ip n)\<lparr>ip_rt := t\<rparr>) = Inr s"
    and n': "n' = n\<lparr>nd_ip := s, nd_arp := a\<rparr>"
    using assms(1) by (auto simp: node_arp_def)
  obtain es where es: "arp_out a = arp_out (nd_arp n) @ es"
    "\<forall>b. resolving (nd_arp n) b \<longrightarrow> resolving a b \<or> (\<exists>e \<in> set es. settles b e)"
    using assms(3)[OF a] by (auto simp: signals_def)
  show ?thesis
    using received_signals[OF s[unfolded es(1), simplified]] es(2) assms(2)
    unfolding waits_for_resolution_def n' by simp blast
qed

lemma packet_reachable:
  assumes "arp_handleMessage now ift (ARP_packet pk i) (t, a) = Inr (t', a')"
  shows "signals a a'"
proof (cases "arp_isUp a")
  case True
  then show ?thesis using assms signals_packet by (simp add: arp_handleMessage_def)
next
  case False
  then show ?thesis using assms by (auto simp: arp_handleMessage_def arp_handleMessageWhenDown_def signals_def)
qed

lemma timeout_signals:
  assumes "arp_handleMessage now ift (ARP_timeout b) (t, a) = Inr (t', a')" "arp_ok a"
    and "map_of (arpCache a) b = Some e" "ae_timer e \<noteq> None"
  shows "signals a a'"
  using assms signals_timeout
  by (auto simp: arp_handleMessage_def arp_handleMessageWhenDown_def split: if_splits)

lemma node_arp_reaches:
  assumes "node_arp now m n = Inr n'"
  obtains t t' where "arp_handleMessage now (ip_ift (nd_ip n)) m (t, nd_arp n) = Inr (t', nd_arp n')"
  using assms that by (auto simp: node_arp_def)

lemma operation_waits:
  assumes "node_lifecycle oper n = Inr n'" "waits_for_resolution n"
  shows "waits_for_resolution n'"
  using assms
  by (cases oper) (auto simp: node_lifecycle_def arp_handleOperationStage_def ip_handleOperationStage_def ip_start_def
      ip_stop_def arp_start_def ASSERT_eq_Inr waits_for_resolution_def resolving_def)

lemma change_resolving:
  assumes "arp_receiveChangeNotification ie s = Inr t"
  shows "resolving t a \<longleftrightarrow> resolving s a"
proof -
  have "res_all (\<lambda>t. arpCache t = arpCache s) (arp_receiveChangeNotification ie s)"
    unfolding arp_receiveChangeNotification_def Let_def
    by (intro res_all_if) (auto split: option.split intro!: res_all_ASSERT)
  from res_allD[OF this assms] show ?thesis by (simp add: resolving_def)
qed

lemma node_reachable_inv: "node_reachable n \<Longrightarrow> waits_for_resolution n \<and> arp_reachable (nd_arp n)"
proof (induction rule: node_reachable.induct)
  case (start n)
  then show ?case by (simp add: waits_for_resolution_def arp_reachable.start)
next
  case (message n env m n')
  then show ?case using node_ip_step[OF message.hyps(2)] asks_handleMessage by blast
next
  case (reinject n env k n')
  then show ?case using node_ip_step[OF reinject.hyps(2)] asks_reinject by blast
next
  case (packet n now pk i n')
  then show ?case
    using node_arp_step[OF packet.hyps(2)] packet_reachable node_arp_reaches[OF packet.hyps(2)] arp_reachable.packet by metis
next
  case (timeout n a e now n')
  then have ok: "arp_ok (nd_arp n)" using arp_reachable_ok by blast
  show ?case
    using node_arp_step[OF timeout.hyps(4)] timeout_signals[OF _ ok timeout.hyps(2)] timeout.hyps(2,3) timeout.IH
      node_arp_reaches[OF timeout.hyps(4)] arp_reachable.timeout by (metis option.distinct(1))
next
  case (operation n oper n')
  then show ?case
    using operation_waits by (auto simp: node_lifecycle_def intro: arp_reachable.operation)
next
  case (change n ie a)
  then show ?case using change_resolving by (auto simp: waits_for_resolution_def intro: arp_reachable.change)
next
  case (surroundings n s)
  then show ?case by (simp add: waits_for_resolution_def)
qed

text \<open>
  C9: Whatever has happened on a node: when datagrams wait for the address of a next hop, ARP is still
  resolving it, with a running timer and attempts left, so no datagram waits for an answer that nobody
  is going to give; and once ARP knows an address, nothing waits for it, as IPv4 asserts when it sends.
\<close>

theorem waiting_implies_resolving:
  assumes "node_reachable n" "map_of (pendingPackets (nd_ip n)) a \<noteq> None"
  shows "\<exists>e. map_of (arpCache (nd_arp n)) a = Some e \<and> ae_pending e \<and> ae_timer e \<noteq> None
    \<and> (numRetries e = 0 \<or> numRetries e < retryCount (nd_arp n))
    \<and> (\<not> globalARP (nd_arp n) \<longrightarrow> (\<forall>now. getMACAddressFor now (nd_arp n) a = MAC_UNSPECIFIED))"
proof -
  note inv = node_reachable_inv[OF assms(1)]
  obtain e where e: "map_of (arpCache (nd_arp n)) a = Some e" "ae_pending e"
    using inv assms(2) by (auto simp: waits_for_resolution_def resolving_def)
  have "entry_ok (retryCount (nd_arp n)) e"
    using inv arp_reachable_ok arp_okD(2)[OF _ e(1)] by blast
  then show ?thesis using e by (auto simp: entry_ok_def getMACAddressFor_def)
qed

section \<open>The end of waiting\<close>

lemma fold_sendPacketToNIC:
  "fold (\<lambda>d. sendPacketToNIC (f d) ie mac) ds s = s\<lparr>ip_out := ip_out s @ map (\<lambda>d. To_NIC (f d) (nwLayerGateIndex ie) mac) ds\<rparr>"
  by (induction ds arbitrary: s) (simp_all add: sendPacketToNIC_def ip_emit_def)

lemma completed_sends:
  assumes "map_of (pendingPackets s) a = Some ds" "interface_of p (ip_ift s) = Inr ie"
  shows "ip_receiveSignal (ARP_completed a mac p) s = Inr (s\<lparr>ip_out := ip_out s
      @ map (\<lambda>d. To_NIC (d\<lparr>dg_multicastLoop := None\<rparr>) (nwLayerGateIndex ie) (Some mac)) ds,
      pendingPackets := erase a (pendingPackets s)\<rparr>)"
  using assms by (simp add: ip_receiveSignal_def arpResolutionCompleted_def fold_sendPacketToNIC)

text \<open>
  C10: When the answer of the next hop arrives, every datagram that waits for it leaves at once, in the
  order in which they have begun to wait, on the interface that the resolution was for and with the
  address from the answer; then nothing waits for this address and it is resolved.
\<close>

theorem reply_releases_waiting:
  assumes "node_reachable n" "map_of (pendingPackets (nd_ip n)) a = Some ds" "arp_isUp (nd_arp n)" "\<not> globalARP (nd_arp n)"
    and "arp_opcode pk = ARP_REPLY" "srcIPAddress pk = a" "\<not> mac_isUnspecified (srcMACAddress pk)" "\<not> ip_isUnspecified a"
    and "addressRecognized (ip_ift (nd_ip n)) (destIPAddress pk)
      (map_option interfaceId (getInterfaceById i (ip_ift (nd_ip n)))) (ip_rt (nd_ip n)) (nd_arp n) = Inr (ok, t)"
    and "map_of (arpCache (nd_arp n)) a = Some e" "interface_of (ae_ie e) (ip_ift (nd_ip n)) = Inr ie"
  shows "\<exists>n'. node_arp now (ARP_packet pk i) n = Inr n'
    \<and> ip_out (nd_ip n') = ip_out (nd_ip n)
        @ map (\<lambda>d. To_NIC (d\<lparr>dg_multicastLoop := None\<rparr>) (nwLayerGateIndex ie) (Some (srcMACAddress pk))) ds
    \<and> map_of (pendingPackets (nd_ip n')) a = None
    \<and> (0 \<le> cacheTimeout (nd_arp n) \<longrightarrow> getMACAddressFor now (nd_arp n') a = srcMACAddress pk)"
proof -
  let ?s = "nd_arp n" and ?u = "updateARPCache now a e (srcMACAddress pk) (nd_arp n)"
  have m: "merged now pk ?s = ?u" "\<And>ie. added now ie pk ?s = ?u" using assms(6,10) by (simp_all add: merged_def added_def)
  have src: "\<not> mac_isUnspecified (srcMACAddress pk)" "\<not> ip_isUnspecified (srcIPAddress pk)" using assms(6-8) by simp_all
  have "arp_handleMessage now (ip_ift (nd_ip n)) (ARP_packet pk i) (ip_rt (nd_ip n), ?s) = Inr (t, ?u)"
    using assms(3,5,9) by (cases ok) (simp_all add: arp_handleMessage_def processARPPacket_eq[OF src] m ARP_REPLY_def
      ARP_REQUEST_def del: bind_res_eq_Inr)
  moreover have "arp_out ?u = arp_out ?s @ [ARP_completed a (srcMACAddress pk) (ae_ie e)]" by (simp add: updateARPCache_eq)
  moreover have "fold_res ip_receiveSignal [ARP_completed a (srcMACAddress pk) (ae_ie e)] ((nd_ip n)\<lparr>ip_rt := t\<rparr>)
    = Inr ((nd_ip n)\<lparr>ip_rt := t, ip_out := ip_out (nd_ip n)
        @ map (\<lambda>d. To_NIC (d\<lparr>dg_multicastLoop := None\<rparr>) (nwLayerGateIndex ie) (Some (srcMACAddress pk))) ds,
      pendingPackets := erase a (pendingPackets (nd_ip n))\<rparr>)" (is "_ = Inr ?v")
    using completed_sends[of "(nd_ip n)\<lparr>ip_rt := t\<rparr>" a ds "ae_ie e" ie] assms(2,11) by (simp del: bind_res_eq_Inr)
  ultimately have "node_arp now (ARP_packet pk i) n = Inr (n\<lparr>nd_ip := ?v, nd_arp := ?u\<rparr>)"
    by (simp add: node_arp_def del: bind_res_eq_Inr fold_res.simps)
  moreover have "0 \<le> cacheTimeout ?s \<longrightarrow> getMACAddressFor now ?u a = srcMACAddress pk"
    using assms(4) by (auto intro: known_after_packet[of _ a now _ e "arpCache ?s"] simp: updateARPCache_eq)
  ultimately show ?thesis by simp
qed

text \<open>
  When nobody answers, the timer of the address fires, as often as it runs.
\<close>

fun unanswered :: "nat \<Rightarrow> IPv4Address \<Rightarrow> 'p node \<Rightarrow> 'p node res" where
  "unanswered 0 a n = Inr n"
| "unanswered (Suc k) a n =
     (case map_of (arpCache (nd_arp n)) a of
        None \<Rightarrow> Inr n
      | Some e \<Rightarrow>
          (case ae_timer e of
             None \<Rightarrow> Inr n
           | Some now \<Rightarrow> bind_res (node_arp now (ARP_timeout a) n) (unanswered k a)))"

text \<open>The interface can still send requests.\<close>

definition can_request :: "InterfaceTable \<Rightarrow> ARPCacheEntry \<Rightarrow> bool" where
  "can_request ift e \<longleftrightarrow> (\<exists>ie d. interface_of (ae_ie e) ift = Inr ie \<and> ipv4data ie = Some d
     \<and> \<not> mac_isUnspecified (macAddr ie) \<and> \<not> ip_isUnspecified (inetAddr d))"

lemma timeout_step:
  assumes "map_of (arpCache (nd_arp n)) a = Some e" "can_request (ip_ift (nd_ip n)) e" "arp_isUp (nd_arp n)"
  obtains (retry) n' t where "node_arp now (ARP_timeout a) n = Inr n'" "numRetries e + 1 < retryCount (nd_arp n)"
      "nd_ip n' = nd_ip n" "retryCount (nd_arp n') = retryCount (nd_arp n)"
      "arp_isUp (nd_arp n')" "map_of (arpCache (nd_arp n')) a = Some (e\<lparr>numRetries := numRetries e + 1, ae_timer := Some t\<rparr>)"
  | (fail) n' where "node_arp now (ARP_timeout a) n = Inr n'" "\<not> numRetries e + 1 < retryCount (nd_arp n)"
      "nd_ip n' = (nd_ip n)\<lparr>pendingPackets := erase a (pendingPackets (nd_ip n))\<rparr>" "map_of (arpCache (nd_arp n')) a = None"
proof (cases "numRetries e + 1 < retryCount (nd_arp n)")
  case True
  let ?s = "nd_arp n" and ?e = "e\<lparr>numRetries := numRetries e + 1, ae_timer := Some (now + retryTimeout (nd_arp n))\<rparr>"
  obtain ie d where ie: "interface_of (ae_ie e) (ip_ift (nd_ip n)) = Inr ie" "ipv4data ie = Some d"
    "\<not> mac_isUnspecified (macAddr ie)" "\<not> ip_isUnspecified (inetAddr d)"
    using assms(2) by (auto simp: can_request_def)
  let ?t = "?s\<lparr>arp_out := arp_out ?s @ [request_for ie d a], numRequestsSent := numRequestsSent ?s + 1,
    arpCache := put a ?e (arpCache ?s)\<rparr>"
  have r: "requestTimedOut now (ip_ift (nd_ip n)) a ?s = Inr ?t"
    using ie assms(1) True by (simp add: requestTimedOut_def Let_def sendARPRequest_def request_for_def
        arp_sendPacketToNIC_def arp_emit_def del: bind_res_eq_Inr)
  have "node_arp now (ARP_timeout a) n = Inr (n\<lparr>nd_arp := ?t\<rparr>)"
    using r assms(3) by (simp add: node_arp_def arp_handleMessage_def ip_receiveSignal_def request_for_def del: bind_res_eq_Inr)
  then show ?thesis by (rule retry) (use True assms(3) in simp_all)
next
  case False
  let ?s = "nd_arp n"
  let ?t = "?s\<lparr>arp_out := arp_out ?s @ [ARP_failed a (ae_ie e)], arpCache := erase a (arpCache ?s),
    numFailedResolutions := numFailedResolutions ?s + 1\<rparr>"
  have r: "requestTimedOut now (ip_ift (nd_ip n)) a ?s = Inr ?t"
    using assms(1) False by (simp add: requestTimedOut_def Let_def arp_emit_def del: bind_res_eq_Inr)
  have "node_arp now (ARP_timeout a) n = Inr (n\<lparr>nd_ip := (nd_ip n)\<lparr>pendingPackets := erase a (pendingPackets (nd_ip n))\<rparr>, nd_arp := ?t\<rparr>)"
    using r assms(3) by (simp add: node_arp_def arp_handleMessage_def ip_receiveSignal_def arpResolutionTimedOut_def del: bind_res_eq_Inr)
  then show ?thesis by (rule fail) (use False in simp_all)
qed

lemma unanswered_drops:
  assumes "map_of (arpCache (nd_arp n)) a = Some e" "ae_timer e \<noteq> None" "arp_isUp (nd_arp n)"
    and "can_request (ip_ift (nd_ip n)) e" "retryCount (nd_arp n) \<le> numRetries e + int (Suc k)"
  shows "\<exists>n'. unanswered (Suc k) a n = Inr n' \<and> map_of (arpCache (nd_arp n')) a = None
    \<and> nd_ip n' = (nd_ip n)\<lparr>pendingPackets := erase a (pendingPackets (nd_ip n))\<rparr>"
  using assms
proof (induction k arbitrary: n e)
  case (0 n e)
  then obtain now where now: "ae_timer e = Some now" by blast
  from "0.prems"(1,4,3) show ?case
  proof (cases rule: timeout_step[where now = now])
    case (retry n' t)
    then show ?thesis using "0.prems"(5) by simp
  next
    case (fail n')
    then show ?thesis using "0.prems"(1) now by simp
  qed
next
  case (Suc k n e)
  then obtain now where now: "ae_timer e = Some now" by blast
  from Suc.prems(1,4,3) show ?case
  proof (cases rule: timeout_step[where now = now])
    case (retry n' t)
    let ?e = "e\<lparr>numRetries := numRetries e + 1, ae_timer := Some t\<rparr>"
    have "can_request (ip_ift (nd_ip n')) ?e" using Suc.prems(4) retry(3) by (simp add: can_request_def)
    from Suc.IH[OF retry(6) _ retry(5) this] obtain n'' where "unanswered (Suc k) a n' = Inr n''"
      "map_of (arpCache (nd_arp n'')) a = None" "nd_ip n'' = (nd_ip n)\<lparr>pendingPackets := erase a (pendingPackets (nd_ip n))\<rparr>"
      using Suc.prems(5) retry(3,4) by auto
    then show ?thesis using Suc.prems(1) now retry(1) by (subst unanswered.simps) (simp del: bind_res_eq_Inr unanswered.simps)
  next
    case (fail n')
    then show ?thesis using Suc.prems(1) now by simp
  qed
qed


section \<open>Examples\<close>

text \<open>A host sends two datagrams to another host on its link; the answer comes, or it does not.\<close>

definition sample_node :: "nat node" where
  "sample_node = \<lparr>nd_ip = (sample_ip [Some (sample_nic 0x0AAA00000001 0x0A010203)] (sample_rt 0x0A010203)),
     nd_arp = sample_arp 1\<rparr>"

definition sample_send :: "nat \<Rightarrow> nat ip_message" where
  "sample_send p = From_HL (HL_packet p (Some \<lparr>ci_protocol = 17, ci_srcAddr = 0, ci_destAddr = 0x0A010204,
     ci_typeOfService = 0, ci_interfaceId = 100, ci_timeToLive = 0, ci_dontFragment = False, ci_multicastLoop = False\<rparr>))"

definition sample_waiting :: "nat node" where
  "sample_waiting = (case node_ip sample_env (\<lambda>e. ip_handleMessage e (sample_send 7)) sample_node of
     Inr n \<Rightarrow> (case node_ip sample_env (\<lambda>e. ip_handleMessage e (sample_send 8)) n of Inr n \<Rightarrow> n | Inl _ \<Rightarrow> n)
   | Inl _ \<Rightarrow> sample_node)"

definition sample_answer :: ARPPacket where
  "sample_answer = \<lparr>arp_opcode = ARP_REPLY, srcMACAddress = 0x0AAA00000002, destMACAddress = 0x0AAA00000001,
     srcIPAddress = 0x0A010204, destIPAddress = 0x0A010203\<rparr>"

lemma sample_waiting_reachable: "node_reachable sample_waiting"
proof -
  have "node_reachable sample_node"
    by (rule node_reachable.start) (simp_all add: sample_node_def sample_ip_def sample_arp_def)
  then show ?thesis
    unfolding sample_waiting_def
    by (auto split: sum.split intro: node_reachable.message[where env = sample_env])
qed

lemma sample_waiting_eval:
  "(case map_of (pendingPackets (nd_ip sample_waiting)) 0x0A010204 of
      None \<Rightarrow> False | Some ds \<Rightarrow> map encapsulatedPacket ds = [Some 7, Some 8])"
  "(case map_of (arpCache (nd_arp sample_waiting)) 0x0A010204 of
      None \<Rightarrow> False | Some e \<Rightarrow> ae_ie e = Some (1, 100))"
  "(case addressRecognized (ip_ift (nd_ip sample_waiting)) (destIPAddress sample_answer)
        (map_option interfaceId (getInterfaceById 100 (ip_ift (nd_ip sample_waiting))))
        (ip_rt (nd_ip sample_waiting)) (nd_arp sample_waiting) of Inr (ok, t) \<Rightarrow> ok | _ \<Rightarrow> False)"
  "arp_isUp (nd_arp sample_waiting) \<and> \<not> globalARP (nd_arp sample_waiting) \<and> retryCount (nd_arp sample_waiting) = 3"
  "length (ip_ift (nd_ip sample_waiting)) = 1"
  "(case ip_ift (nd_ip sample_waiting) of [Some ie] \<Rightarrow> nwLayerGateIndex ie = 0 \<and> macAddr ie \<noteq> 0
     \<and> (case ipv4data ie of None \<Rightarrow> False | Some d \<Rightarrow> inetAddr d \<noteq> 0) | _ \<Rightarrow> False)"
  by code_simp+

lemma sample_waiting_facts:
  obtains ds e ie ok t d where "map_of (pendingPackets (nd_ip sample_waiting)) 0x0A010204 = Some ds"
    "map encapsulatedPacket ds = [Some 7, Some 8]"
    "map_of (arpCache (nd_arp sample_waiting)) 0x0A010204 = Some e" "ae_ie e = Some (1, 100)"
    "interface_of (Some (1, 100)) (ip_ift (nd_ip sample_waiting)) = Inr ie" "nwLayerGateIndex ie = 0"
    "macAddr ie \<noteq> 0" "ipv4data ie = Some d" "inetAddr d \<noteq> 0"
    "addressRecognized (ip_ift (nd_ip sample_waiting)) (destIPAddress sample_answer)
        (map_option interfaceId (getInterfaceById 100 (ip_ift (nd_ip sample_waiting))))
        (ip_rt (nd_ip sample_waiting)) (nd_arp sample_waiting) = Inr (ok, t)"
  using sample_waiting_eval
  by (auto simp: interface_of_def getInterfaceById_def INTERFACEIDS_START_def
      split: option.split_asm sum.split_asm list.split_asm)

theorem waiting_implies_resolving_witness:
  "\<exists>e. map_of (arpCache (nd_arp sample_waiting)) 0x0A010204 = Some e \<and> ae_timer e \<noteq> None"
proof (rule sample_waiting_facts)
  fix ds assume "map_of (pendingPackets (nd_ip sample_waiting)) 0x0A010204 = Some ds"
  then show ?thesis using waiting_implies_resolving[OF sample_waiting_reachable, where a = "0x0A010204"] by auto
qed

theorem reply_releases_waiting_witness:
  "\<exists>n' ds. node_arp 9 (ARP_packet sample_answer 100) sample_waiting = Inr n'
    \<and> map encapsulatedPacket ds = [Some 7, Some 8]
    \<and> ip_out (nd_ip n') = ip_out (nd_ip sample_waiting)
        @ map (\<lambda>d. To_NIC (d\<lparr>dg_multicastLoop := None\<rparr>) 0 (Some 0x0AAA00000002)) ds"
proof (rule sample_waiting_facts)
  fix ds e ie ok t d
  assume ds: "map_of (pendingPackets (nd_ip sample_waiting)) 0x0A010204 = Some ds" "map encapsulatedPacket ds = [Some 7, Some 8]"
    and e: "map_of (arpCache (nd_arp sample_waiting)) 0x0A010204 = Some e" "ae_ie e = Some (1, 100)"
    and ie: "interface_of (Some (1, 100)) (ip_ift (nd_ip sample_waiting)) = Inr ie" "nwLayerGateIndex ie = 0"
    and rec: "addressRecognized (ip_ift (nd_ip sample_waiting)) (destIPAddress sample_answer)
        (map_option interfaceId (getInterfaceById 100 (ip_ift (nd_ip sample_waiting))))
        (ip_rt (nd_ip sample_waiting)) (nd_arp sample_waiting) = Inr (ok, t)"
  have up: "arp_isUp (nd_arp sample_waiting)" "\<not> globalARP (nd_arp sample_waiting)" using sample_waiting_eval(4) by auto
  have pk: "arp_opcode sample_answer = ARP_REPLY" "srcIPAddress sample_answer = 0x0A010204"
    "\<not> mac_isUnspecified (srcMACAddress sample_answer)" "\<not> ip_isUnspecified 0x0A010204"
    "srcMACAddress sample_answer = 0x0AAA00000002"
    by (simp_all add: sample_answer_def mac_isUnspecified_def ip_isUnspecified_def)
  obtain n' where "node_arp 9 (ARP_packet sample_answer 100) sample_waiting = Inr n'"
    "ip_out (nd_ip n') = ip_out (nd_ip sample_waiting)
        @ map (\<lambda>d. To_NIC (d\<lparr>dg_multicastLoop := None\<rparr>) 0 (Some 0x0AAA00000002)) ds"
    using reply_releases_waiting[OF sample_waiting_reachable ds(1) up pk(1-4) rec e(1), of ie 9] ie e(2) pk(5) by auto
  with ds(2) show ?thesis by (intro exI[of _ n'] exI[of _ ds] conjI)
qed


end
