(* ===== verification/ICMP_Module.thy ===== *)
theory ICMP_Module
  imports IPv4_Module
begin

text \<open>
  The ICMP module (\<^verbatim>\<open>networklayer/ipv4/ICMP.h\<close>, \<^verbatim>\<open>ICMP.cc\<close>,
  \<^verbatim>\<open>ICMPMessage.msg\<close>, \<^verbatim>\<open>PingPayload.msg\<close>): error messages about datagrams, echo
  requests of applications and their replies.

  What leaves the module is appended to \<open>icmp_out\<close>. The interfaces of the node are an argument, and the
  routing table goes through the operations that look up a broadcast address in it. What a packet of
  another layer is stays open: the environment tells its length and, for an ICMP message, its type.
\<close>

section \<open>Messages and state\<close>

definition ICMP_ECHO_REQUEST :: int where "ICMP_ECHO_REQUEST = 128"
definition ICMP_ECHO_REPLY :: int where "ICMP_ECHO_REPLY = 129"
definition ICMP_TIMESTAMP_REQUEST :: int where "ICMP_TIMESTAMP_REQUEST = 130"
definition ICMP_TIMESTAMP_REPLY :: int where "ICMP_TIMESTAMP_REPLY = 131"

record PingPayload =
  pp_name :: string
  pp_byteLength :: int
  originatorId :: int
  pp_seqNo :: int
  pp_data :: "u8 list"

text \<open>What a message encapsulates; \<open>Something\<close> is any other packet.\<close>

datatype 'p icmp_body = Nothing | Ping PingPayload | Original "'p IPv4Datagram" | Something 'p

record 'p ICMPMessage =
  im_name :: string
  im_byteLength :: int
  im_type :: int
  im_code :: int
  im_body :: "'p icmp_body"

definition new_ICMPMessage :: "string \<Rightarrow> 'p ICMPMessage" where
  "new_ICMPMessage n = \<lparr>im_name = n, im_byteLength = 0, im_type = 0, im_code = 0, im_body = Nothing\<rparr>"

datatype 'p icmp_event =
    ICMP_to_IP "'p ICMPMessage" IPv4ControlInfo
  | ICMP_error_out "'p ICMPMessage"
  | Ping_out PingPayload IPv4ControlInfo int

text \<open>\<open>icmp_ctr\<close> is the static counter of \<^verbatim>\<open>sendErrorMessage\<close>.\<close>

record 'p ICMP =
  pingMap :: "(int \<times> int) list"
  icmp_ctr :: int
  icmp_out :: "'p icmp_event list"

record 'p icmp_env =
  icmp_length :: "'p \<Rightarrow> int"
  icmp_type_of :: "'p \<Rightarrow> int option"

definition icmp_emit :: "'p icmp_event \<Rightarrow> 'p ICMP \<Rightarrow> 'p ICMP" where
  "icmp_emit e s = s\<lparr>icmp_out := icmp_out s @ [e]\<rparr>"

section \<open>Sending\<close>

definition icmp_sendToIP_dest :: "'p ICMPMessage \<Rightarrow> IPv4Address \<Rightarrow> 'p ICMP \<Rightarrow> 'p ICMP" where
  "icmp_sendToIP_dest m dest =
     icmp_emit (ICMP_to_IP m (new_IPv4ControlInfo\<lparr>ci_destAddr := dest, ci_protocol := IP_PROT_ICMP\<rparr>))"

definition icmp_sendToIP :: "'p ICMPMessage \<Rightarrow> IPv4ControlInfo \<Rightarrow> 'p ICMP \<Rightarrow> 'p ICMP" where
  "icmp_sendToIP m ctrl = icmp_emit (ICMP_to_IP m ctrl)"

section \<open>Arriving messages\<close>

definition errorOut :: "'p ICMPMessage \<Rightarrow> 'p ICMP \<Rightarrow> 'p ICMP" where
  "errorOut m = icmp_emit (ICMP_error_out m)"

text \<open>A message without control info fails the cast.\<close>

definition processEchoRequest :: "'p ICMPMessage \<Rightarrow> IPv4ControlInfo option \<Rightarrow> 'p ICMP \<Rightarrow> 'p ICMP res" where
  "processEchoRequest m ctrl s =
     (case ctrl of
        None \<Rightarrow> Inl (Runtime_error ''check_and_cast(): cannot cast to IPv4ControlInfo'')
      | Some c \<Rightarrow>
          Inr (icmp_sendToIP (m\<lparr>im_name := im_name m @ ''-reply'', im_type := ICMP_ECHO_REPLY\<rparr>)
                 (c\<lparr>ci_interfaceId := -1, ci_srcAddr := ci_destAddr c, ci_destAddr := ci_srcAddr c\<rparr>) s))"

text \<open>\<^verbatim>\<open>decapsulate\<close> fails when the length would get negative.\<close>

definition processEchoReply :: "'p ICMPMessage \<Rightarrow> IPv4ControlInfo option \<Rightarrow> 'p ICMP \<Rightarrow> 'p ICMP res" where
  "processEchoReply m ctrl s =
     (case ctrl of
        None \<Rightarrow> Inl (Runtime_error ''check_and_cast(): cannot cast to IPv4ControlInfo'')
      | Some c \<Rightarrow>
          (case im_body m of
             Ping p \<Rightarrow>
               if im_byteLength m < pp_byteLength p then
                 Inl (Runtime_error ''decapsulate(): packet length is smaller than encapsulated packet'')
               else
                 (case map_of (pingMap s) (originatorId p) of
                    Some g \<Rightarrow> Inr (icmp_emit (Ping_out p c g) s)
                  | None \<Rightarrow> Inr s)
           | _ \<Rightarrow> Inl (Runtime_error ''check_and_cast(): cannot cast to PingPayload'')))"

definition processICMPMessage :: "'p ICMPMessage \<Rightarrow> IPv4ControlInfo option \<Rightarrow> 'p ICMP \<Rightarrow> 'p ICMP res" where
  "processICMPMessage m ctrl s =
     (let t = im_type m
      in if t = ICMP_DESTINATION_UNREACHABLE then Inr (errorOut m s)
         else if t = ICMP_REDIRECT then Inr (errorOut m s)
         else if t = ICMP_TIME_EXCEEDED then Inr (errorOut m s)
         else if t = ICMP_PARAMETER_PROBLEM then Inr (errorOut m s)
         else if t = ICMP_ECHO_REQUEST then processEchoRequest m ctrl s
         else if t = ICMP_ECHO_REPLY then processEchoReply m ctrl s
         else if t = ICMP_TIMESTAMP_REQUEST then processEchoRequest m ctrl s
         else if t = ICMP_TIMESTAMP_REPLY then processEchoReply m ctrl s
         else Inl (Runtime_error ''Unknown ICMP type''))"

text \<open>A request of the application on gate \<open>g\<close>.\<close>

definition sendEchoRequest :: "int \<Rightarrow> PingPayload \<Rightarrow> IPv4ControlInfo option \<Rightarrow> 'p ICMP \<Rightarrow> 'p ICMP res" where
  "sendEchoRequest g p ctrl s =
     (let s = s\<lparr>pingMap := put (originatorId p) g (pingMap s)\<rparr>
      in case ctrl of
           None \<Rightarrow> Inl (Runtime_error ''check_and_cast(): cannot cast to IPv4ControlInfo'')
         | Some c \<Rightarrow>
             let m = (new_ICMPMessage (pp_name p))\<lparr>im_type := ICMP_ECHO_REQUEST\<rparr>
             in Inr (icmp_sendToIP (m\<lparr>im_byteLength := im_byteLength m + pp_byteLength p, im_body := Ping p\<rparr>)
                       (c\<lparr>ci_protocol := IP_PROT_ICMP\<rparr>) s))"

datatype 'p icmp_message =
    Local_in "'p ICMPMessage" "IPv4ControlInfo option"
  | Ping_in int PingPayload "IPv4ControlInfo option"
  | Not_for_ICMP

definition icmp_handleMessage :: "'p icmp_message \<Rightarrow> 'p ICMP \<Rightarrow> 'p ICMP res" where
  "icmp_handleMessage m s =
     (case m of
        Local_in m ctrl \<Rightarrow> processICMPMessage m ctrl s
      | Ping_in g p ctrl \<Rightarrow> sendEchoRequest g p ctrl s
      | Not_for_ICMP \<Rightarrow> Inl (Runtime_error ''check_and_cast(): cannot cast''))"

section \<open>Error messages\<close>

text \<open>Whether an address may be the broadcast address of a network that the node is on.\<close>

definition is_configured :: "InterfaceEntry \<Rightarrow> bool" where
  "is_configured ie \<longleftrightarrow> (case ipv4data ie of None \<Rightarrow> False | Some d \<Rightarrow> \<not> ip_isUnspecified (inetAddr d))"

definition possiblyLocalBroadcast ::
  "InterfaceTable \<Rightarrow> IPv4Address \<Rightarrow> int \<Rightarrow> RoutingTable \<Rightarrow> (bool \<times> RoutingTable) res" where
  "possiblyLocalBroadcast ift addr i t =
     (if addr AND 1 = 0 then Inr (False, t)
      else
        bind_res (isLocalBroadcastAddress ift addr t) (\<lambda>(local, t).
          if local then Inr (True, t)
          else if i \<noteq> -1 then bind_res (deref (getInterfaceById i ift)) (\<lambda>ie. Inr (\<not> is_configured ie, t))
          else Inr (\<not> list_all is_configured (interfaces ift), t)))"

text \<open>\<open>||\<close> over a test that may fail and that may change the routing table.\<close>

definition or_local_broadcast ::
  "bool \<Rightarrow> InterfaceTable \<Rightarrow> IPv4Address \<Rightarrow> int \<Rightarrow> RoutingTable \<Rightarrow> (bool \<times> RoutingTable) res" where
  "or_local_broadcast b ift addr i t = (if b then Inr (True, t) else possiblyLocalBroadcast ift addr i t)"

text \<open>\<^verbatim>\<open>%d\<close>, and the name of an error message, written into a buffer of 32 characters.\<close>

definition dec_int :: "int \<Rightarrow> string" where
  "dec_int i = (if i < 0 then ''-'' @ dec (nat (-i)) else dec (nat i))"

definition error_name :: "int \<Rightarrow> int \<Rightarrow> int \<Rightarrow> string res" where
  "error_name ctr type cd =
     (let n = ''ICMP-error-#'' @ dec_int ctr @ ''-type'' @ dec_int type @ ''-code'' @ dec_int cd
      in if length n < 32 then Inr n else Inl Undefined_behaviour)"

definition icmp_sendErrorMessage ::
  "'p icmp_env \<Rightarrow> InterfaceTable \<Rightarrow> 'p IPv4Datagram \<Rightarrow> int \<Rightarrow> int \<Rightarrow> int \<Rightarrow> RoutingTable \<times> 'p ICMP
     \<Rightarrow> (RoutingTable \<times> 'p ICMP) res" where
  "icmp_sendErrorMessage env ift d i type cd = (\<lambda>(t, s).
     bind_res (or_local_broadcast (ip_isMulticast (dg_destAddress d) \<or> isLimitedBroadcastAddress (dg_destAddress d))
        ift (dg_destAddress d) i t) (\<lambda>(broadcast, t).
     if broadcast then Inr (t, s)
     else
       bind_res (or_local_broadcast (ip_isUnspecified (dg_srcAddress d) \<or> ip_isMulticast (dg_srcAddress d)
           \<or> isLimitedBroadcastAddress (dg_srcAddress d)) ift (dg_srcAddress d) i t) (\<lambda>(broadcast, t).
       if broadcast then Inr (t, s)
       else
         bind_res
           (if transportProtocol d = IP_PROT_ICMP then
              bind_res (deref (encapsulatedPacket d)) (\<lambda>p.
                case icmp_type_of env p of
                  None \<Rightarrow> Inl (Runtime_error ''check_and_cast(): cannot cast to ICMPMessage'')
                | Some ty \<Rightarrow> Inr (ty < 128))
            else Inr False) (\<lambda>error.
         if error then Inr (t, s)
         else
           bind_res (error_name (icmp_ctr s + 1) type cd) (\<lambda>name.
             let s = s\<lparr>icmp_ctr := icmp_ctr s + 1\<rparr>;
                 m = (new_ICMPMessage name)\<lparr>im_type := type, im_code := cd, im_body := Original d\<rparr>;
                 dataLength = byteLength d - headerLength d;
                 truncatedDataLength = (if dataLength \<le> 8 then dataLength else 8);
                 m = m\<lparr>im_byteLength := 8 + headerLength d + truncatedDataLength\<rparr>
             in if ip_isUnspecified (dg_srcAddress d) then
                  bind_res (processICMPMessage m
                      (Some (new_IPv4ControlInfo\<lparr>ci_srcAddr := LOOPBACK_ADDRESS, ci_protocol := IP_PROT_ICMP\<rparr>)) s)
                    (\<lambda>s. Inr (t, s))
                else Inr (t, icmp_sendToIP_dest m (dg_srcAddress d) s))))))"

text \<open>The transport packet goes back into the datagram that its control info has kept.\<close>

definition icmp_sendErrorMessage_transport ::
  "'p icmp_env \<Rightarrow> InterfaceTable \<Rightarrow> 'p \<Rightarrow> IPv4ControlInfo \<Rightarrow> 'p IPv4Datagram option \<Rightarrow> int \<Rightarrow> int
     \<Rightarrow> RoutingTable \<times> 'p ICMP \<Rightarrow> (RoutingTable \<times> 'p ICMP) res" where
  "icmp_sendErrorMessage_transport env ift p ctrl orig type cd s =
     (case orig of
        None \<Rightarrow> Inl (Runtime_error ''IPv4ControlInfo::removeOrigDatagram(): no datagram attached'')
      | Some d \<Rightarrow>
          if encapsulatedPacket d \<noteq> None then Inl (Runtime_error ''encapsulate(): another packet already encapsulated'')
          else
            icmp_sendErrorMessage env ift
              (d\<lparr>encapsulatedPacket := Some p, byteLength := byteLength d + icmp_length env p\<rparr>)
              (ci_interfaceId ctrl) type cd s)"

end
