(* ===== verification/ICMP_Laws.thy ===== *)
theory ICMP_Laws
  imports ICMP_Module IPv4_Delivery UDP_Laws
begin

text \<open>
  What ICMP promises: an error message goes to the sender of a datagram exactly when the datagram is one
  that may be reported; errors are never about errors; an echo request comes back to the application that
  sent it; and an error about a packet for a closed UDP port reaches the socket that sent the packet. The
  last section has what goes wrong.
\<close>

section \<open>Which datagrams are reported\<close>

text \<open>
  An address of one node, as far as the node can tell: not multicast, and no broadcast address of a
  network that it is on, which is only asked for odd addresses.
\<close>

definition single_node :: "InterfaceTable \<Rightarrow> IPv4InterfaceData list \<Rightarrow> int \<Rightarrow> IPv4Address \<Rightarrow> bool" where
  "single_node ift ds i a \<longleftrightarrow> \<not> ip_isMulticast a \<and> \<not> isLimitedBroadcastAddress a \<and>
     (a AND 1 \<noteq> 0 \<longrightarrow> a \<notin> getNetworkBroadcastAddress ` set ds
        \<and> (if i = -1 then \<forall>ie \<in> set (interfaces ift). is_configured ie
           else \<exists>ie. getInterfaceById i ift = Some ie \<and> is_configured ie))"

text \<open>The type of the ICMP message in a datagram.\<close>

definition carried_type :: "'p icmp_env \<Rightarrow> 'p IPv4Datagram \<Rightarrow> int option" where
  "carried_type env d = (case encapsulatedPacket d of None \<Rightarrow> None | Some p \<Rightarrow> icmp_type_of env p)"

definition is_error :: "'p icmp_env \<Rightarrow> 'p IPv4Datagram \<Rightarrow> bool" where
  "is_error env d \<longleftrightarrow> transportProtocol d = IP_PROT_ICMP \<and> (\<exists>ty. carried_type env d = Some ty \<and> ty < 128)"

text \<open>The message about a datagram.\<close>

definition error_message :: "string \<Rightarrow> int \<Rightarrow> int \<Rightarrow> 'p IPv4Datagram \<Rightarrow> 'p ICMPMessage" where
  "error_message n ty cd d = \<lparr>im_name = n, im_byteLength = 8 + headerLength d + min 8 (byteLength d - headerLength d),
     im_type = ty, im_code = cd, im_body = Original d\<rparr>"

lemma isLocalBroadcastAddress_ok:
  assumes "rt_ok ift t" "all_ipv4data (interfaces ift) = Inr ds"
  shows "\<exists>t'. isLocalBroadcastAddress ift dst t =
      Inr (\<not> ip_isUnspecified dst \<and> dst \<in> getNetworkBroadcastAddress ` set ds, t') \<and> rt_ok ift t'"
proof -
  let ?b = "set (filter (\<lambda>a. \<not> ip_isUnspecified a) (map getNetworkBroadcastAddress ds))"
  have b: "dst \<in> ?b \<longleftrightarrow> \<not> ip_isUnspecified dst \<and> dst \<in> getNetworkBroadcastAddress ` set ds" by auto
  show ?thesis
  proof (cases "localBroadcastAddresses t = {}")
    case True
    then have e: "isLocalBroadcastAddress ift dst t = Inr (dst \<in> ?b, t\<lparr>localBroadcastAddresses := ?b\<rparr>)"
      using assms(2) by (simp add: isLocalBroadcastAddress_def)
    show ?thesis using isLocalBroadcastAddress_preserves[OF assms(1) e] e unfolding b by blast
  next
    case False
    then have "localBroadcastAddresses t = ?b" using assms by (auto simp: rt_ok_def local_ok_def)
    moreover have "isLocalBroadcastAddress ift dst t = Inr (dst \<in> localBroadcastAddresses t, t)"
      using False by (simp add: isLocalBroadcastAddress_def)
    ultimately have e: "isLocalBroadcastAddress ift dst t = Inr (dst \<in> ?b, t)" by simp
    show ?thesis using assms(1) e unfolding b by blast
  qed
qed

lemma odd_specified: "a AND 1 \<noteq> 0 \<Longrightarrow> \<not> ip_isUnspecified a"
  by (auto simp: ip_isUnspecified_def)

lemma or_local_broadcast_ok:
  assumes "rt_ok ift t" "all_ipv4data (interfaces ift) = Inr ds" "i = -1 \<or> getInterfaceById i ift \<noteq> None"
  shows "\<exists>t'. or_local_broadcast (u \<or> ip_isMulticast a \<or> isLimitedBroadcastAddress a) ift a i t
    = Inr (u \<or> \<not> single_node ift ds i a, t') \<and> rt_ok ift t'"
proof (cases "u \<or> ip_isMulticast a \<or> isLimitedBroadcastAddress a \<or> a AND 1 = 0")
  case True
  then show ?thesis using assms(1) by (auto simp: or_local_broadcast_def possiblyLocalBroadcast_def single_node_def)
next
  case False
  obtain t' where t': "isLocalBroadcastAddress ift a t = Inr (a \<in> getNetworkBroadcastAddress ` set ds, t')" "rt_ok ift t'"
    using isLocalBroadcastAddress_ok[OF assms(1,2), of a] odd_specified[of a] False by auto
  show ?thesis
    using False t' assms(3)
    by (cases "a \<in> getNetworkBroadcastAddress ` set ds"; cases "i = -1")
      (auto simp: or_local_broadcast_def possiblyLocalBroadcast_def single_node_def list_all_iff simp del: bind_res_eq_Inr)
qed

text \<open>The counter has fewer than five digits, so the name fits.\<close>

lemma dec_length: "n < 10 ^ Suc k \<Longrightarrow> length (dec n) \<le> Suc k"
proof (induction k arbitrary: n)
  case (Suc k)
  then have "n div 10 < 10 ^ Suc k" by (simp add: less_mult_imp_div_less)
  from Suc.IH[OF this] show ?case by (subst dec.simps) simp
qed (simp add: dec.simps)

lemma dec_int_length: "0 \<le> i \<Longrightarrow> i < 10 ^ Suc k \<Longrightarrow> length (dec_int i) \<le> Suc k"
  using dec_length[of "nat i" k] by (simp add: dec_int_def nat_less_iff)

lemma error_name_fits:
  assumes "0 \<le> ctr" "ctr < 100000" "0 \<le> ty" "ty < 100" "0 \<le> cd" "cd < 100"
  shows "\<exists>n. error_name ctr ty cd = Inr n"
  using dec_int_length[of ctr 4] dec_int_length[of ty 1] dec_int_length[of cd 1] assms
  by (simp add: error_name_def Let_def)

lemma error_sent:
  assumes "rt_reachable ift t" "all_ipv4data (interfaces ift) = Inr ds" "i = -1 \<or> getInterfaceById i ift \<noteq> None"
    and "transportProtocol d = IP_PROT_ICMP \<longrightarrow> carried_type env d \<noteq> None"
    and "0 \<le> icmp_ctr s" "icmp_ctr s + 1 < 100000" "0 \<le> ty" "ty < 100" "0 \<le> cd" "cd < 100"
  shows "\<exists>t' s'. icmp_sendErrorMessage env ift d i ty cd (t, s) = Inr (t', s') \<and> pingMap s' = pingMap s \<and>
    (if single_node ift ds i (dg_destAddress d) \<and> single_node ift ds i (dg_srcAddress d)
         \<and> \<not> ip_isUnspecified (dg_srcAddress d) \<and> \<not> is_error env d
     then \<exists>n. icmp_out s' = icmp_out s @ [ICMP_to_IP (error_message n ty cd d)
            (new_IPv4ControlInfo\<lparr>ci_destAddr := dg_srcAddress d, ci_protocol := IP_PROT_ICMP\<rparr>)]
     else s' = s)"
proof -
  note ok = rt_reachable_ok[OF assms(1)]
  obtain t1 where t1: "or_local_broadcast (ip_isMulticast (dg_destAddress d) \<or> isLimitedBroadcastAddress (dg_destAddress d))
      ift (dg_destAddress d) i t = Inr (\<not> single_node ift ds i (dg_destAddress d), t1)" "rt_ok ift t1"
    using or_local_broadcast_ok[OF ok assms(2,3), of False "dg_destAddress d"] by auto
  obtain t2 where t2: "or_local_broadcast (ip_isUnspecified (dg_srcAddress d) \<or> ip_isMulticast (dg_srcAddress d)
      \<or> isLimitedBroadcastAddress (dg_srcAddress d)) ift (dg_srcAddress d) i t1
      = Inr (ip_isUnspecified (dg_srcAddress d) \<or> \<not> single_node ift ds i (dg_srcAddress d), t2)"
    using or_local_broadcast_ok[OF t1(2) assms(2,3), of "ip_isUnspecified (dg_srcAddress d)" "dg_srcAddress d"] by auto
  have err: "(if transportProtocol d = IP_PROT_ICMP then
              bind_res (deref (encapsulatedPacket d)) (\<lambda>p.
                case icmp_type_of env p of
                  None \<Rightarrow> Inl (Runtime_error ''check_and_cast(): cannot cast to ICMPMessage'')
                | Some ty \<Rightarrow> Inr (ty < 128))
            else Inr False) = Inr (is_error env d)"
    using assms(4) by (auto simp: is_error_def carried_type_def split: option.splits)
  obtain n where n: "error_name (icmp_ctr s + 1) ty cd = Inr n" using error_name_fits[of "icmp_ctr s + 1" ty cd] assms(5-10) by auto
  show ?thesis
    unfolding icmp_sendErrorMessage_def
    by (simp add: t1(1) t2 err n Let_def error_message_def min_def icmp_sendToIP_dest_def icmp_emit_def new_ICMPMessage_def
        del: bind_res_eq_Inr cong: if_cong)
qed


text \<open>Whatever is sent, goes out as one message with the type that was asked for.\<close>

lemma sent_error:
  assumes "icmp_sendErrorMessage env ift d i ty cd (t, s) = Inr (t', s')"
  shows "icmp_out s' = icmp_out s \<or> (\<exists>n. icmp_out s' = icmp_out s @ [ICMP_to_IP (error_message n ty cd d)
      (new_IPv4ControlInfo\<lparr>ci_destAddr := dg_srcAddress d, ci_protocol := IP_PROT_ICMP\<rparr>)])"
proof -
  have "or_local_broadcast True ift a i u \<noteq> Inr (False, u')" for a u u'
    by (simp add: or_local_broadcast_def)
  then show ?thesis
    using assms
    by (auto simp: icmp_sendErrorMessage_def Let_def error_message_def min_def icmp_sendToIP_dest_def icmp_emit_def
        new_ICMPMessage_def split: if_split_asm prod.split_asm option.split_asm)
qed

lemma errors_not_reported:
  assumes "icmp_sendErrorMessage env ift d i ty cd (t, s) = Inr (t', s')" "is_error env d"
  shows "s' = s"
  using assms by (auto simp: icmp_sendErrorMessage_def is_error_def carried_type_def split: if_split_asm option.split_asm prod.split_asm)

text \<open>
  C16: There is no storm of errors: a datagram with an error message that some node has sent is never
  answered by an error message of any other node, whatever happens to it there.
\<close>

theorem no_error_storm:
  assumes "icmp_sendErrorMessage env ift d i ty cd (t, s) = Inr (t', s')"
    and "ty \<in> {ICMP_DESTINATION_UNREACHABLE, ICMP_REDIRECT, ICMP_TIME_EXCEEDED, ICMP_PARAMETER_PROBLEM}"
    and "ICMP_to_IP m c \<in> set (icmp_out s')" "ICMP_to_IP m c \<notin> set (icmp_out s)"
    and "transportProtocol e = ci_protocol c" "encapsulatedPacket e = Some p" "icmp_type_of env2 p = Some (im_type m)"
    and "icmp_sendErrorMessage env2 ift2 e i2 ty2 cd2 (t2, s2) = Inr (t2', s2')"
  shows "s2' = s2"
proof -
  have "im_type m = ty" "ci_protocol c = IP_PROT_ICMP"
    using sent_error[OF assms(1)] assms(3,4) by (auto simp: error_message_def)
  then have "is_error env2 e"
    using assms(2,5-7) by (auto simp: is_error_def carried_type_def ICMP_DESTINATION_UNREACHABLE_def ICMP_REDIRECT_def
        ICMP_TIME_EXCEEDED_def ICMP_PARAMETER_PROBLEM_def)
  then show ?thesis by (rule errors_not_reported[OF assms(8)])
qed

section \<open>Echo\<close>

text \<open>Requests of applications leave the gates of other originators alone.\<close>

lemma other_requests:
  assumes "fold_res (\<lambda>(g, p, c). icmp_handleMessage (Ping_in g p c)) others s = Inr t"
    and "\<forall>(g, p, c) \<in> set others. originatorId p \<noteq> k"
  shows "map_of (pingMap t) k = map_of (pingMap s) k"
  using assms
proof (induction others arbitrary: s)
  case (Cons x others)
  obtain g p c where x: "x = (g, p, c)" by (cases x)
  obtain u where u: "icmp_handleMessage (Ping_in g p c) s = Inr u"
    "fold_res (\<lambda>(g, p, c). icmp_handleMessage (Ping_in g p c)) others u = Inr t"
    using Cons.prems(1) by (auto simp: x)
  have "map_of (pingMap u) k = map_of (pingMap s) k"
    using u(1) Cons.prems(2) by (auto simp: x icmp_handleMessage_def sendEchoRequest_def icmp_sendToIP_def icmp_emit_def
        Let_def split: option.splits)
  then show ?case using Cons.IH[OF u(2)] Cons.prems(2) by simp
qed simp

text \<open>
  C15: An application sends a ping. The node that gets the request answers to the address the request came
  from, and from the address it was sent to; when the answer arrives, the application gets its payload
  back on its own gate, whatever other applications have sent meanwhile.
\<close>

theorem ping_returns:
  fixes s1 :: "'p ICMP"
  assumes "icmp_handleMessage (Ping_in g p (Some c)) s1 = Inr s1'" "0 \<le> pp_byteLength p"
  shows "\<exists>request rc reply. icmp_out s1' = icmp_out s1 @ [ICMP_to_IP request rc] \<and> ci_destAddr rc = ci_destAddr c
    \<and> ci_protocol rc = IP_PROT_ICMP
    \<and> (\<forall>cb s2. icmp_handleMessage (Local_in request (Some cb)) s2 = Inr (s2\<lparr>icmp_out := icmp_out s2 @ [ICMP_to_IP reply
          (cb\<lparr>ci_interfaceId := -1, ci_srcAddr := ci_destAddr cb, ci_destAddr := ci_srcAddr cb\<rparr>)]\<rparr>))
    \<and> (\<forall>others s ca. fold_res (\<lambda>(g, p, c). icmp_handleMessage (Ping_in g p c)) others s1' = Inr s
         \<and> (\<forall>(g, q, c) \<in> set others. originatorId q \<noteq> originatorId p) \<longrightarrow>
         icmp_handleMessage (Local_in reply (Some ca)) s = Inr (s\<lparr>icmp_out := icmp_out s @ [Ping_out p ca g]\<rparr>))"
proof -
  let ?m = "\<lparr>im_name = pp_name p, im_byteLength = pp_byteLength p, im_type = ICMP_ECHO_REQUEST, im_code = 0, im_body = Ping p\<rparr> :: 'p ICMPMessage"
  let ?r = "?m\<lparr>im_name := pp_name p @ ''-reply'', im_type := ICMP_ECHO_REPLY\<rparr>"
  have s1': "icmp_out s1' = icmp_out s1 @ [ICMP_to_IP ?m (c\<lparr>ci_protocol := IP_PROT_ICMP\<rparr>)]"
    "map_of (pingMap s1') (originatorId p) = Some g"
    using assms(1) by (auto simp: icmp_handleMessage_def sendEchoRequest_def icmp_sendToIP_def icmp_emit_def new_ICMPMessage_def Let_def)
  have returned: "icmp_handleMessage (Local_in ?r (Some ca)) s = Inr (s\<lparr>icmp_out := icmp_out s @ [Ping_out p ca g]\<rparr>)"
    if "fold_res (\<lambda>(g, p, c). icmp_handleMessage (Ping_in g p c)) others s1' = Inr s
      \<and> (\<forall>(g, q, c) \<in> set others. originatorId q \<noteq> originatorId p)" for others s ca
    using other_requests[of others s1' s "originatorId p"] that s1'(2)
    by (simp add: icmp_handleMessage_def processICMPMessage_def processEchoReply_def icmp_emit_def Let_def
        ICMP_DESTINATION_UNREACHABLE_def ICMP_REDIRECT_def ICMP_TIME_EXCEEDED_def ICMP_PARAMETER_PROBLEM_def
        ICMP_ECHO_REQUEST_def ICMP_ECHO_REPLY_def)
  have answer: "icmp_handleMessage (Local_in ?m (Some cb)) s2 = Inr (s2\<lparr>icmp_out := icmp_out s2 @ [ICMP_to_IP ?r
      (cb\<lparr>ci_interfaceId := -1, ci_srcAddr := ci_destAddr cb, ci_destAddr := ci_srcAddr cb\<rparr>)]\<rparr>)" for cb and s2 :: "'p ICMP"
    by (simp add: icmp_handleMessage_def processICMPMessage_def processEchoRequest_def icmp_sendToIP_def icmp_emit_def Let_def
        ICMP_DESTINATION_UNREACHABLE_def ICMP_REDIRECT_def ICMP_TIME_EXCEEDED_def ICMP_PARAMETER_PROBLEM_def
        ICMP_ECHO_REQUEST_def)
  show ?thesis
    using s1' answer returned
    by - (rule exI[of _ ?m], rule exI[of _ "c\<lparr>ci_protocol := IP_PROT_ICMP\<rparr>"], rule exI[of _ ?r], auto)
qed

section \<open>An error reaches the sender\<close>

text \<open>A packet for a port that no socket has.\<close>

lemma closed_port:
  assumes "sockets_ok u" "isOperational u" "port_list (uint (destinationPort pk)) u = []" "\<not> up_bitError pk"
    and "\<not> ip_isMulticast (ci_destAddr c)" "\<not> isLimitedBroadcastAddress (ci_destAddr c)"
  shows "\<exists>u'. udp_handleMessage env (Packet_from_network pk (Ctrl4 c)) u = Inr u' \<and> udp_out u' = udp_out u
    @ [ICMPv4_sendError pk c ICMP_DESTINATION_UNREACHABLE ICMP_DU_PORT_UNREACHABLE]"
proof -
  have "findSocketForUnicastPacket (IPv4 (ci_destAddr c)) (destinationPort pk) (IPv4 (ci_srcAddr c)) (sourcePort pk) u = Inr None"
    using findSocketForUnicastPacket_target[OF assms(1)] assms(3) by (simp add: unicast_target_def)
  then have "udp_handleMessage env (Packet_from_network pk (Ctrl4 c)) u = processUndeliverablePacket pk (Ctrl4 c) u"
    using assms(2,4-6) by (simp add: udp_handleMessage_def processUDPPacket_def read_ctrl_def Let_def)
  then show ?thesis by (simp add: processUndeliverablePacket_def udp_emit_def)
qed

text \<open>An error about a packet that a socket, alone on its port, has sent.\<close>

lemma error_to_socket:
  assumes "sockets_ok s" "isOperational s" "port_list (uint (sourcePort pk)) s = [p]" "sockets s p = Some sd"
    and "accepts_unicast (IPv4 sa) (IPv4 da) (destinationPort pk) sd"
  shows "\<exists>t. udp_handleMessage env (Error_from_network (ICMP4 (Some (sa, da, Some pk)))) s = Inr t \<and> udp_out t = udp_out s
    @ [Error_up (sd_appGateIndex sd) \<lparr>err_sockId = sockId sd, err_srcAddr = IPv4 sa, err_destAddr = IPv4 da,
         err_srcPort = sd_localPort sd, err_destPort = uint (destinationPort pk)\<rparr>]"
proof -
  have "findSocketForUnicastPacket (IPv4 sa) (sourcePort pk) (IPv4 da) (destinationPort pk) s = Inr (Some p)"
    using findSocketForUnicastPacket_target[OF assms(1)] lone_target[OF assms(4)] assms(3,5) by simp
  then show ?thesis
    using assms(2,4) by (simp add: udp_handleMessage_def processICMPError_def sendUpErrorIndication_def udp_emit_def)
qed

text \<open>At the sender, IPv4 hands an error to the protocol of the packet inside.\<close>

lemma error_to_transport:
  assumes "env_icmp env y = Some (ICMP_DESTINATION_UNREACHABLE, Some protocol)"
    and "0 \<le> findOutputGateForProtocol protocol (mapping ip)"
  shows "handleIncomingICMP env y c d ip =
    Inr (ip_emit (To_transport y (Some c) (Some d) (findOutputGateForProtocol protocol (mapping ip))) ip)"
  using assms by (simp add: handleIncomingICMP_def getOutputGateForProtocol_def)

text \<open>
  C13: An application connects a new UDP socket and sends a packet to a port that no socket of the other
  node has. UDP there asks ICMP for an error, ICMP sends a message to the sender with the packet inside,
  IPv4 at the sender hands it to UDP, and UDP tells the application on the gate of its socket which of
  its packets has not been delivered.
\<close>

theorem unreachable_port_reported:
  assumes "udp_reachable env s" "map_of (socketsByIdMap s) i = None"
    and "udp_handleMessage env (Command_from_app gate (Connect i (IPv4 ra) rp)) s = Inr s1"
    and "udp_handleMessage env (Packet_from_app gate x \<lparr>snd_sockId = i, snd_destAddr = unspecified_addr,
           snd_destPort = -1, snd_srcAddr = unspecified_addr, snd_interfaceId = ifid\<rparr>) s1 = Inr s2"
    and "udp_reachable env2 u" "isOperational u" "port_list rp u = []"
    and "ci_srcAddr c = sa" "ci_destAddr c = ra" "dg_srcAddress d = sa" "dg_destAddress d = ra"
    and "encapsulatedPacket d = None" "transportProtocol d = IP_PROT_UDP"
    and "rt_reachable ift t" "all_ipv4data (interfaces ift) = Inr ds"
    and "ci_interfaceId c = -1 \<or> getInterfaceById (ci_interfaceId c) ift \<noteq> None"
    and "single_node ift ds (ci_interfaceId c) ra" "single_node ift ds (ci_interfaceId c) sa" "\<not> ip_isUnspecified sa"
    and "0 \<le> icmp_ctr b" "icmp_ctr b + 1 < 100000"
  shows "\<exists>pk ci u' t' b' m mc s3. udp_out s2 = udp_out s @ [To_IPv4 pk ci] \<and> ci_destAddr ci = ra
    \<and> udp_handleMessage env2 (Packet_from_network pk (Ctrl4 c)) u = Inr u'
    \<and> udp_out u' = udp_out u @ [ICMPv4_sendError pk c ICMP_DESTINATION_UNREACHABLE ICMP_DU_PORT_UNREACHABLE]
    \<and> icmp_sendErrorMessage_transport ienv ift (packed pk) c (Some d)
          ICMP_DESTINATION_UNREACHABLE ICMP_DU_PORT_UNREACHABLE (t, b) = Inr (t', b')
    \<and> icmp_out b' = icmp_out b @ [ICMP_to_IP m mc] \<and> ci_destAddr mc = sa
    \<and> im_body m = Original (d\<lparr>encapsulatedPacket := Some (packed pk), byteLength := byteLength d + icmp_length ienv (packed pk)\<rparr>)
    \<and> (\<forall>ipenv ip y yc yd g. env_icmp ipenv y = Some (im_type m, Some (transportProtocol d))
          \<and> findOutputGateForProtocol IP_PROT_UDP (mapping ip) = g \<and> 0 \<le> g \<longrightarrow>
          handleIncomingICMP ipenv y yc yd ip = Inr (ip_emit (To_transport y (Some yc) (Some yd) g) ip))
    \<and> udp_handleMessage env (Error_from_network (ICMP4 (Some (sa, ra, Some pk)))) s2 = Inr s3
    \<and> udp_out s3 = udp_out s2 @ [Error_up gate \<lparr>err_sockId = i, err_srcAddr = IPv4 sa, err_destAddr = IPv4 ra,
          err_srcPort = uint (sourcePort pk), err_destPort = rp\<rparr>]"
proof -
  obtain pk ci p sd where out: "udp_out s2 = udp_out s @ [To_IPv4 pk ci]" "ci_destAddr ci = ra"
      "uint (destinationPort pk) = rp" "\<not> up_bitError pk"
    and s2: "sockets_ok s2" "isOperational s2" "port_list (uint (sourcePort pk)) s2 = [p]" "sockets s2 p = Some sd"
    and sd: "sd = (new_SockDesc i gate)\<lparr>sd_localPort := uint (sourcePort pk), sd_remoteAddr := IPv4 ra, sd_remotePort := rp\<rparr>"
    and acc: "\<And>da a q. accepts_unicast da (IPv4 a) q sd \<longleftrightarrow> a = ra \<and> q = destinationPort pk"
    using connect_then_send[OF udp_reachable_ok[OF assms(1)] assms(2-4)] by metis
  have ra: "\<not> ip_isMulticast ra" "\<not> isLimitedBroadcastAddress ra" using assms(17) by (simp_all add: single_node_def)
  obtain u' where u': "udp_handleMessage env2 (Packet_from_network pk (Ctrl4 c)) u = Inr u'"
    "udp_out u' = udp_out u @ [ICMPv4_sendError pk c ICMP_DESTINATION_UNREACHABLE ICMP_DU_PORT_UNREACHABLE]"
    using closed_port[OF udp_reachable_ok[OF assms(5)] assms(6), of pk c env2] assms(7,9) out(3,4) ra by auto
  let ?d = "d\<lparr>encapsulatedPacket := Some (packed pk), byteLength := byteLength d + icmp_length ienv (packed pk)\<rparr>"
  have d: "transportProtocol ?d = IP_PROT_ICMP \<longrightarrow> carried_type ienv ?d \<noteq> None" "\<not> is_error ienv ?d"
    using assms(13) by (simp_all add: is_error_def IP_PROT_ICMP_def IP_PROT_UDP_def)
  have ty: "(0 :: int) \<le> ICMP_DESTINATION_UNREACHABLE" "ICMP_DESTINATION_UNREACHABLE < 100"
    "0 \<le> ICMP_DU_PORT_UNREACHABLE" "ICMP_DU_PORT_UNREACHABLE < 100"
    by (simp_all add: ICMP_DESTINATION_UNREACHABLE_def ICMP_DU_PORT_UNREACHABLE_def)
  obtain t' b' n where b': "icmp_sendErrorMessage ienv ift ?d (ci_interfaceId c) ICMP_DESTINATION_UNREACHABLE
      ICMP_DU_PORT_UNREACHABLE (t, b) = Inr (t', b')"
    "icmp_out b' = icmp_out b @ [ICMP_to_IP (error_message n ICMP_DESTINATION_UNREACHABLE ICMP_DU_PORT_UNREACHABLE ?d)
       (new_IPv4ControlInfo\<lparr>ci_destAddr := sa, ci_protocol := IP_PROT_ICMP\<rparr>)]"
    using error_sent[OF assms(14-16) d(1) assms(20,21) ty] assms(10,11,17-19) d(2) by auto
  obtain s3 where s3: "udp_handleMessage env (Error_from_network (ICMP4 (Some (sa, ra, Some pk)))) s2 = Inr s3"
    "udp_out s3 = udp_out s2 @ [Error_up gate \<lparr>err_sockId = i, err_srcAddr = IPv4 sa, err_destAddr = IPv4 ra,
          err_srcPort = uint (sourcePort pk), err_destPort = rp\<rparr>]"
    using error_to_socket[OF s2, of sa ra env] acc[of "IPv4 sa" ra "destinationPort pk"] out(3)
    by (auto simp: sd new_SockDesc_def)
  show ?thesis
    using out u' b' s3 assms(12,13)
    by - (rule exI[of _ pk], rule exI[of _ ci], rule exI[of _ u'], rule exI[of _ t'], rule exI[of _ b'],
        rule exI[of _ "error_message n ICMP_DESTINATION_UNREACHABLE ICMP_DU_PORT_UNREACHABLE ?d"],
        rule exI[of _ "new_IPv4ControlInfo\<lparr>ci_destAddr := sa, ci_protocol := IP_PROT_ICMP\<rparr>"], rule exI[of _ s3],
        simp add: error_message_def icmp_sendErrorMessage_transport_def error_to_transport)
qed

section \<open>What goes wrong\<close>

lemma no_interface_with:
  assumes "all_ipv4data (interfaces ift) = Inr ds" "a \<notin> inetAddr ` set ds"
  shows "getInterfaceByAddress a ift = Inr None"
proof -
  have "all_ipv4data ies = Inr es \<Longrightarrow> a \<notin> inetAddr ` set es \<Longrightarrow>
    fold_res (\<lambda>ie found. if found \<noteq> None then Inr found else
            bind_res (deref (ipv4data ie)) (\<lambda>d. Inr (if inetAddr d = a then Some ie else None))) ies None = Inr None"
    for ies es
    by (induction ies arbitrary: es) (auto intro!: exI[of _ None])
  from this[OF assms] show ?thesis by (simp add: getInterfaceByAddress_def)
qed

lemma limited_broadcast_simps [simp]:
  "isLimitedBroadcastAddress ALLONES_ADDRESS" "\<not> ip_isMulticast ALLONES_ADDRESS" "\<not> ip_isUnspecified ALLONES_ADDRESS"
  by (simp_all add: ALLONES_ADDRESS_def ip_set4_def isLimitedBroadcastAddress_def ip_isMulticast_def ip_isUnspecified_def)

text \<open>A datagram for the limited broadcast address is delivered on every node.\<close>

lemma broadcast_delivered:
  assumes "rt_ok (ip_ift s) (ip_rt s)" "all_ipv4data (interfaces (ip_ift s)) = Inr ds" "ALLONES_ADDRESS \<notin> inetAddr ` set ds"
    and "isUp s" "hooks s = []" "getSourceInterfaceFrom d s = Some ie" "ipv4data ie = Some i" "\<not> bitError d"
    and "dg_destAddress d = ALLONES_ADDRESS" "\<not> if_loopback ie"
  shows "\<exists>t. ip_handleMessage env (From_network d h) s = reassembleAndDeliver env (d\<lparr>dg_multicastLoop := None\<rparr>) (s\<lparr>ip_rt := t\<rparr>)"
proof -
  obtain t where t: "isLocalAddress (ip_ift s) ALLONES_ADDRESS (ip_rt s) = Inr (False, t)"
    using isLocalAddress_ok[OF assms(1,2), of ALLONES_ADDRESS] assms(3) by auto
  show ?thesis
    using assms(4-10) t
    by (intro exI[of _ t])
      (simp add: ip_handleMessage_def endService_def handleIncomingDatagram_def preroutingFinish_def Let_def
        del: bind_res_eq_Inr)
qed

text \<open>
  A node answers a ping that was sent to the broadcast address from that very address: IPv4 finds no
  interface with it and throws an error, so one broadcast ping stops the simulation, whatever node gets it.
\<close>

theorem broadcast_ping_aborts:
  assumes "rt_reachable (ip_ift s) (ip_rt s)" "all_ipv4data (interfaces (ip_ift s)) = Inr ds"
    and "ALLONES_ADDRESS \<notin> inetAddr ` set ds" "isUp s" "hooks s = []"
    and "getSourceInterfaceFrom d s = Some ie" "ipv4data ie = Some i" "\<not> if_loopback ie"
    and "dg_destAddress d = ALLONES_ADDRESS" "transportProtocol d = IP_PROT_ICMP" "\<not> bitError d"
    and "fragmentOffset d = 0" "\<not> moreFragments d" "encapsulatedPacket d = Some x" "env_length env x \<le> byteLength d"
    and "env_icmp env x = Some (ICMP_ECHO_REQUEST, None)" "findOutputGateForProtocol IP_PROT_ICMP (mapping s) = gate" "0 \<le> gate"
    and "im_type m = ICMP_ECHO_REQUEST"
  shows "\<exists>s' c d' b' reply bc. ip_handleMessage env (From_network d h) s = Inr s'
    \<and> ip_out s' = ip_out s @ [To_transport x (Some c) (Some d') gate]
    \<and> icmp_handleMessage (Local_in m (Some c)) b = Inr b' \<and> icmp_out b' = icmp_out b @ [ICMP_to_IP reply bc]
    \<and> (\<forall>y. ip_handleMessage env (From_HL (HL_packet y (Some bc))) s'
         = Inl (Runtime_error ''Wrong source address: no interface with such address''))"
proof -
  let ?d = "d\<lparr>dg_multicastLoop := None\<rparr>"
  obtain t where t: "ip_handleMessage env (From_network d h) s = reassembleAndDeliver env ?d (s\<lparr>ip_rt := t\<rparr>)"
    using broadcast_delivered[OF rt_reachable_ok[OF assms(1)] assms(2-7,11,9,8)] by blast
  obtain c d' where c: "decapsulate env ?d (s\<lparr>ip_rt := t\<rparr>) = Inr (x, c, d')" "ci_destAddr c = ALLONES_ADDRESS"
    using assms(9,14,15) by (simp add: decapsulate_def Let_def)
  let ?s = "(ip_emit (To_transport x (Some c) (Some d') gate) (s\<lparr>ip_rt := t\<rparr>))\<lparr>numLocalDeliver := numLocalDeliver s + 1\<rparr>"
  have s': "reassembleAndDeliver env ?d (s\<lparr>ip_rt := t\<rparr>) = Inr ?s"
    using assms(5,10,12,13,16-18) c(1)
    by (simp add: reassembleAndDeliver_def reassemble_def reassembleAndDeliverFinish_def handleIncomingICMP_def
        getOutputGateForProtocol_def ICMP_ECHO_REQUEST_def ICMP_REDIRECT_def ICMP_DESTINATION_UNREACHABLE_def
        ICMP_TIME_EXCEEDED_def ICMP_PARAMETER_PROBLEM_def ip_emit_def)
  let ?bc = "c\<lparr>ci_interfaceId := -1, ci_srcAddr := ALLONES_ADDRESS, ci_destAddr := ci_srcAddr c\<rparr>"
  let ?r = "m\<lparr>im_name := im_name m @ ''-reply'', im_type := ICMP_ECHO_REPLY\<rparr>"
  have b': "icmp_handleMessage (Local_in m (Some c)) b = Inr (b\<lparr>icmp_out := icmp_out b @ [ICMP_to_IP ?r ?bc]\<rparr>)"
    using assms(19) c(2)
    by (simp add: icmp_handleMessage_def processICMPMessage_def processEchoRequest_def icmp_sendToIP_def icmp_emit_def Let_def
        ICMP_DESTINATION_UNREACHABLE_def ICMP_REDIRECT_def ICMP_TIME_EXCEEDED_def ICMP_PARAMETER_PROBLEM_def
        ICMP_ECHO_REQUEST_def)
  have n: "getNumInterfaces (ip_ift s) \<noteq> 0"
    using assms(6) by (auto simp: getSourceInterfaceFrom_def getInterfaceByNetworkLayerGateIndex_def getNumInterfaces_def
        split: option.splits)
  have abort: "ip_handleMessage env (From_HL (HL_packet y (Some ?bc))) ?s
      = Inl (Runtime_error ''Wrong source address: no interface with such address'')" for y
    using n assms(4) no_interface_with[OF assms(2,3)]
    by (simp add: ip_handleMessage_def endService_def handlePacketFromHL_def ip_encapsulate_def Let_def ip_emit_def)
  show ?thesis
    using t s' b' abort
    by - (rule exI[of _ ?s], rule exI[of _ c], rule exI[of _ d'], rule exI[of _ "b\<lparr>icmp_out := icmp_out b @ [ICMP_to_IP ?r ?bc]\<rparr>"],
        rule exI[of _ ?r], rule exI[of _ ?bc], simp add: ip_emit_def)
qed

text \<open>
  A timestamp request is answered with an echo reply. A datagram without a source address, which the node
  itself has made, is never reported, although the code behind the tests handles it. After a million error
  messages the buffer of the name is too small.
\<close>

lemma timestamp_request_gets_echo_reply:
  "im_type m = ICMP_TIMESTAMP_REQUEST \<Longrightarrow> processICMPMessage m (Some c) s = processEchoRequest m (Some c) s
     \<and> (\<forall>s'. processEchoRequest m (Some c) s = Inr s' \<longrightarrow>
          (\<exists>r rc. icmp_out s' = icmp_out s @ [ICMP_to_IP r rc] \<and> im_type r = ICMP_ECHO_REPLY))"
  by (simp add: processICMPMessage_def processEchoRequest_def icmp_sendToIP_def icmp_emit_def Let_def
        ICMP_DESTINATION_UNREACHABLE_def ICMP_REDIRECT_def ICMP_TIME_EXCEEDED_def ICMP_PARAMETER_PROBLEM_def
        ICMP_ECHO_REQUEST_def ICMP_ECHO_REPLY_def ICMP_TIMESTAMP_REQUEST_def)

lemma own_datagram_not_reported:
  assumes "ip_isUnspecified (dg_srcAddress d)" "icmp_sendErrorMessage env ift d i ty cd (t, s) = Inr (t', s')"
  shows "s' = s"
  using assms by (auto simp: icmp_sendErrorMessage_def or_local_broadcast_def split: if_split_asm prod.split_asm)

lemma error_name_overflows:
  "error_name 1000000 ICMP_DESTINATION_UNREACHABLE ICMP_DU_PORT_UNREACHABLE = Inl Undefined_behaviour"
  by (simp add: error_name_def dec_int_def dec.simps ICMP_DESTINATION_UNREACHABLE_def ICMP_DU_PORT_UNREACHABLE_def)

section \<open>Examples\<close>

definition sample_icmp_env :: "nat icmp_env" where
  "sample_icmp_env = \<lparr>icmp_length = (\<lambda>p. 100), icmp_type_of = (\<lambda>p. if p = 5 then Some ICMP_DESTINATION_UNREACHABLE else None)\<rparr>"

definition sample_icmp :: "'p ICMP" where
  "sample_icmp = \<lparr>pingMap = [], icmp_ctr = 0, icmp_out = []\<rparr>"

definition sample_host :: InterfaceTable where
  "sample_host = [Some (sample_interface 0x0A000002 0xFF000000)]"

lemma sample_host_reachable: "rt_reachable sample_host (new_RoutingTable False False)"
  by (rule rt_reachable.init)

lemma sample_host_data:
  "all_ipv4data (interfaces sample_host) = Inr [new_IPv4InterfaceData\<lparr>inetAddr := 0x0A000002, if_netmask := 0xFF000000\<rparr>]"
  by (simp add: sample_host_def sample_interface_def)

lemma sample_host_single:
  "single_node sample_host [new_IPv4InterfaceData\<lparr>inetAddr := 0x0A000002, if_netmask := 0xFF000000\<rparr>] (-1) 0x0A000001"
  "single_node sample_host [new_IPv4InterfaceData\<lparr>inetAddr := 0x0A000002, if_netmask := 0xFF000000\<rparr>] (-1) 0x0A000002"
  by (simp_all add: single_node_def ip_isMulticast_def isLimitedBroadcastAddress_def getNetworkBroadcastAddress_def
      makeBroadcastAddress_def sample_host_def sample_interface_def is_configured_def ip_isUnspecified_def)

lemma sample_not_icmp: "transportProtocol (sample_datagram 7) = 17" "dg_srcAddress (sample_datagram 7) = 0x0A000001"
  "dg_destAddress (sample_datagram 7) = 0x0A000002"
  by (simp_all add: sample_datagram_def)


theorem no_error_storm_witness:
  "\<exists>t s t2 s2. icmp_sendErrorMessage sample_icmp_env sample_host (sample_datagram 7) (-1) 13 1
      (new_RoutingTable False False, sample_icmp) = Inr (t, s) \<and> icmp_out s \<noteq> []
    \<and> icmp_sendErrorMessage sample_icmp_env sample_host
        ((sample_datagram 7)\<lparr>transportProtocol := 1, encapsulatedPacket := Some 5\<rparr>) (-1) 11 0
        (new_RoutingTable False False, sample_icmp) = Inr (t2, s2) \<and> s2 = sample_icmp"
proof -
  let ?e = "(sample_datagram 7)\<lparr>transportProtocol := 1, encapsulatedPacket := Some 5\<rparr>"
  have e: "transportProtocol (sample_datagram 7) = IP_PROT_ICMP \<longrightarrow> carried_type sample_icmp_env (sample_datagram 7) \<noteq> None"
    "\<not> is_error sample_icmp_env (sample_datagram 7)"
    by (simp_all add: is_error_def sample_not_icmp IP_PROT_ICMP_def)
  obtain t s n where s: "icmp_sendErrorMessage sample_icmp_env sample_host (sample_datagram 7) (-1) 13 1
      (new_RoutingTable False False, sample_icmp) = Inr (t, s)"
    "icmp_out s = [ICMP_to_IP (error_message n 13 1 (sample_datagram 7))
        (new_IPv4ControlInfo\<lparr>ci_destAddr := 0x0A000001, ci_protocol := IP_PROT_ICMP\<rparr>)]"
    using error_sent[OF sample_host_reachable sample_host_data disjI1[OF refl] e(1), of sample_icmp 13 1]
      sample_host_single e(2) by (auto simp: sample_not_icmp sample_icmp_def ip_isUnspecified_def)
  have c: "transportProtocol ?e = IP_PROT_ICMP \<longrightarrow> carried_type sample_icmp_env ?e \<noteq> None"
    by (simp add: carried_type_def sample_icmp_env_def)
  obtain t2 s2 where s2: "icmp_sendErrorMessage sample_icmp_env sample_host ?e (-1) 11 0
      (new_RoutingTable False False, sample_icmp) = Inr (t2, s2)"
    using error_sent[OF sample_host_reachable sample_host_data disjI1[OF refl] c, of sample_icmp 11 0]
    by (auto simp: sample_icmp_def)
  have "s2 = sample_icmp"
    using no_error_storm[OF s(1) _ _ _ _ _ _ s2, of "error_message n 13 1 (sample_datagram 7)"
        "new_IPv4ControlInfo\<lparr>ci_destAddr := 0x0A000001, ci_protocol := IP_PROT_ICMP\<rparr>" 5] s(2)
    by (simp add: sample_icmp_def sample_icmp_env_def error_message_def IP_PROT_ICMP_def ICMP_DESTINATION_UNREACHABLE_def)
  then show ?thesis using s s2 by auto
qed

definition sample_ping :: PingPayload where
  "sample_ping = \<lparr>pp_name = ''ping'', pp_byteLength = 56, originatorId = 9, pp_seqNo = 1, pp_data = []\<rparr>"

theorem ping_returns_witness:
  "\<exists>(s1' :: nat ICMP) request rc reply. icmp_handleMessage (Ping_in 4 sample_ping (Some new_IPv4ControlInfo)) sample_icmp = Inr s1'
    \<and> icmp_out s1' = [ICMP_to_IP request rc]
    \<and> icmp_handleMessage (Local_in request (Some rc)) sample_icmp = Inr (sample_icmp\<lparr>icmp_out := [ICMP_to_IP reply
          (rc\<lparr>ci_interfaceId := -1, ci_srcAddr := ci_destAddr rc, ci_destAddr := ci_srcAddr rc\<rparr>)]\<rparr>)
    \<and> icmp_handleMessage (Local_in reply (Some rc)) s1' = Inr (s1'\<lparr>icmp_out := icmp_out s1' @ [Ping_out sample_ping rc 4]\<rparr>)"
proof -
  obtain s1' :: "nat ICMP" where 1: "icmp_handleMessage (Ping_in 4 sample_ping (Some new_IPv4ControlInfo)) sample_icmp = Inr s1'"
    by (simp add: icmp_handleMessage_def sendEchoRequest_def Let_def)
  have e: "icmp_out (sample_icmp :: nat ICMP) = []" "0 \<le> pp_byteLength sample_ping"
    by (simp_all add: sample_icmp_def sample_ping_def)
  from ping_returns[OF 1 e(2)] obtain request rc reply where r: "icmp_out s1' = [ICMP_to_IP request rc]"
    and a: "\<forall>cb s2. icmp_handleMessage (Local_in request (Some cb)) s2 = Inr (s2\<lparr>icmp_out := icmp_out s2 @ [ICMP_to_IP reply
          (cb\<lparr>ci_interfaceId := -1, ci_srcAddr := ci_destAddr cb, ci_destAddr := ci_srcAddr cb\<rparr>)]\<rparr>)"
    and b: "\<forall>others s ca. fold_res (\<lambda>(g, p, c). icmp_handleMessage (Ping_in g p c)) others s1' = Inr s
         \<and> (\<forall>(g, q, c) \<in> set others. originatorId q \<noteq> originatorId sample_ping) \<longrightarrow>
         icmp_handleMessage (Local_in reply (Some ca)) s = Inr (s\<lparr>icmp_out := icmp_out s @ [Ping_out sample_ping ca 4]\<rparr>)"
    unfolding e append_Nil by blast
  from b[rule_format, of "[]" s1' rc] a[rule_format, of rc sample_icmp] 1 r e(1) show ?thesis
    by - (rule exI[of _ s1'], rule exI[of _ request], rule exI[of _ rc], rule exI[of _ reply], simp)
qed

text \<open>The packet of the sample socket, to a node where no socket has the port.\<close>

definition sample_arrived :: IPv4ControlInfo where
  "sample_arrived = new_IPv4ControlInfo\<lparr>ci_srcAddr := 0x0A000001, ci_destAddr := 0x0A000002\<rparr>"

theorem unreachable_port_reported_witness:
  "\<exists>s2 pk s3. udp_handleMessage sample_udp_env (Packet_from_app 0 10 sample_command) (sample_udp2 sample_connected) = Inr s2
    \<and> udp_handleMessage sample_udp_env (Error_from_network (ICMP4 (Some (0x0A000001, 0x0A000002, Some pk)))) s2 = Inr s3
    \<and> udp_out s3 = udp_out s2 @ [Error_up 0 \<lparr>err_sockId = 8, err_srcAddr = IPv4 0x0A000001, err_destAddr = IPv4 0x0A000002,
          err_srcPort = uint (sourcePort pk), err_destPort = 53\<rparr>]"
proof -
  let ?d = "(sample_datagram 7)\<lparr>encapsulatedPacket := None\<rparr>"
  obtain s2 where s2: "udp_handleMessage sample_udp_env (Packet_from_app 0 10 sample_command) (sample_udp2 sample_connected) = Inr s2"
    using sample_sent by blast
  have u: "isOperational (new_UDP [] True)" "port_list 53 (new_UDP [] True) = []"
    by (simp_all add: new_UDP_def port_list_def)
  have c: "ci_srcAddr sample_arrived = 0x0A000001" "ci_destAddr sample_arrived = 0x0A000002"
    "dg_srcAddress ?d = 0x0A000001" "dg_destAddress ?d = 0x0A000002"
    "encapsulatedPacket ?d = None" "transportProtocol ?d = IP_PROT_UDP" "ci_interfaceId sample_arrived = -1"
    "\<not> ip_isUnspecified 0x0A000001" "0 \<le> icmp_ctr (sample_icmp :: nat ICMP)" "icmp_ctr (sample_icmp :: nat ICMP) + 1 < 100000"
    by (simp_all add: sample_arrived_def new_IPv4ControlInfo_def sample_datagram_def IP_PROT_UDP_def sample_icmp_def
        ip_isUnspecified_def)
  note single = sample_host_single[folded c(7)]
  from unreachable_port_reported[OF sample_udp_reachable sample_old(2) sample_connect s2[unfolded sample_command_def]
      udp_reachable.start u c(1-6) sample_host_reachable sample_host_data disjI1[OF c(7)] single(2,1) c(8-10),
      where ienv = sample_icmp_env and packed = "\<lambda>_. 5" and ?env2.0 = sample_udp_env]
  obtain pk s3 where "udp_handleMessage sample_udp_env (Error_from_network (ICMP4 (Some (0x0A000001, 0x0A000002, Some pk)))) s2 = Inr s3"
    "udp_out s3 = udp_out s2 @ [Error_up 0 \<lparr>err_sockId = 8, err_srcAddr = IPv4 0x0A000001, err_destAddr = IPv4 0x0A000002,
          err_srcPort = uint (sourcePort pk), err_destPort = 53\<rparr>]" by (elim exE conjE) (rule that)
  with s2 show ?thesis by (intro exI[of _ s2] exI[of _ pk] exI[of _ s3] conjI)
qed

text \<open>A ping to the broadcast address.\<close>

definition sample_broadcast :: "nat IPv4Datagram" where
  "sample_broadcast = (sample_datagram 7)\<lparr>dg_destAddress := ALLONES_ADDRESS, transportProtocol := 1\<rparr>"

definition sample_ping_env :: "nat ip_env" where
  "sample_ping_env = sample_env\<lparr>env_icmp := (\<lambda>p. Some (ICMP_ECHO_REQUEST, None))\<rparr>"

theorem broadcast_ping_aborts_witness:
  "\<exists>s' bc. ip_handleMessage sample_ping_env (From_network sample_broadcast False)
      ((sample_ip sample_host (new_RoutingTable False False))\<lparr>mapping := [(1, 0)]\<rparr>) = Inr s'
    \<and> (\<forall>y. ip_handleMessage sample_ping_env (From_HL (HL_packet y (Some bc))) s'
         = Inl (Runtime_error ''Wrong source address: no interface with such address''))"
proof -
  let ?s = "(sample_ip sample_host (new_RoutingTable False False))\<lparr>mapping := [(1, 0)]\<rparr> :: nat IPv4"
  let ?m = "(new_ICMPMessage [])\<lparr>im_type := ICMP_ECHO_REQUEST\<rparr> :: nat ICMPMessage"
  let ?ie = "sample_interface 0x0A000002 0xFF000000"
  have s: "rt_reachable (ip_ift ?s) (ip_rt ?s)" "isUp ?s" "hooks ?s = []" "getSourceInterfaceFrom sample_broadcast ?s = Some ?ie"
    "all_ipv4data (interfaces (ip_ift ?s)) = Inr [new_IPv4InterfaceData\<lparr>inetAddr := 0x0A000002, if_netmask := 0xFF000000\<rparr>]"
    "0 = findOutputGateForProtocol IP_PROT_ICMP (mapping ?s)" "ip_out ?s = []"
    using sample_host_reachable sample_host_data
    by (simp_all add: sample_ip_def getSourceInterfaceFrom_def sample_broadcast_def sample_datagram_def IP_PROT_ICMP_def
        getInterfaceByNetworkLayerGateIndex_def sample_host_def sample_interface_def)
  have d: "ALLONES_ADDRESS \<notin> inetAddr ` set [new_IPv4InterfaceData\<lparr>inetAddr := 0x0A000002, if_netmask := 0xFF000000\<rparr>]"
    "ipv4data ?ie = Some (new_IPv4InterfaceData\<lparr>inetAddr := 0x0A000002, if_netmask := 0xFF000000\<rparr>)" "\<not> if_loopback ?ie"
    "dg_destAddress sample_broadcast = ALLONES_ADDRESS" "transportProtocol sample_broadcast = IP_PROT_ICMP"
    "\<not> bitError sample_broadcast" "fragmentOffset sample_broadcast = 0" "\<not> moreFragments sample_broadcast"
    "encapsulatedPacket sample_broadcast = Some 1" "env_length sample_ping_env 1 \<le> byteLength sample_broadcast"
    "env_icmp sample_ping_env 1 = Some (ICMP_ECHO_REQUEST, None)" "im_type ?m = ICMP_ECHO_REQUEST"
    by (simp_all add: ALLONES_ADDRESS_def ip_set4_def sample_interface_def sample_broadcast_def sample_datagram_def IP_PROT_ICMP_def
        sample_ping_env_def sample_env_def)
  from broadcast_ping_aborts[OF s(1,5) d(1) s(2,3,4) d(2-11) s(6)[symmetric] order_refl d(12), of False sample_icmp]
  show ?thesis by blast
qed

end
