(* ===== verification/IGMP_Module.thy ===== *)
theory IGMP_Module
  imports IPv4_Module
begin

text \<open>
  The IGMP module (\<^verbatim>\<open>networklayer/ipv4/IGMPv2.h\<close>, \<^verbatim>\<open>IGMPv2.cc\<close>,
  \<^verbatim>\<open>IGMPMessage.msg\<close>): for every interface, what a host knows of the groups that it has
  joined, and what a multicast router knows of the groups that have members.

  Pointers to interfaces are their ids, and the interface table of the node is a part of the state,
  because a router writes the listeners of an interface into it. A timer is null, idle or scheduled; it
  is found by its interface and its group, as the context pointers of the code do. Messages to IPv4,
  messages to an external router and notifications are appended to \<open>igmp_out\<close>. The intervals, which the
  code has as floating point seconds, are times of the simulation, and the random delays are drawn from
  \<open>igmp_uniform\<close>, whose first argument is the number of the draw.
\<close>

section \<open>State\<close>

datatype RouterState = IGMP_RS_INITIAL | IGMP_RS_QUERIER | IGMP_RS_NON_QUERIER

datatype RouterGroupState =
    IGMP_RGS_NO_MEMBERS_PRESENT | IGMP_RGS_MEMBERS_PRESENT | IGMP_RGS_V1_MEMBERS_PRESENT
  | IGMP_RGS_CHECKING_MEMBERSHIP

datatype HostGroupState = IGMP_HGS_NON_MEMBER | IGMP_HGS_DELAYING_MEMBER | IGMP_HGS_IDLE_MEMBER

record IGMPMessage =
  ig_type :: int
  ig_maxRespTime :: int
  ig_groupAddress :: IPv4Address

definition IGMP_MEMBERSHIP_QUERY :: int where "IGMP_MEMBERSHIP_QUERY = 0x11"
definition IGMPV1_MEMBERSHIP_REPORT :: int where "IGMPV1_MEMBERSHIP_REPORT = 0x12"
definition IGMPV2_MEMBERSHIP_REPORT :: int where "IGMPV2_MEMBERSHIP_REPORT = 0x16"
definition IGMPV2_LEAVE_GROUP :: int where "IGMPV2_LEAVE_GROUP = 0x17"

lemmas igmp_type_defs = IGMP_MEMBERSHIP_QUERY_def IGMPV1_MEMBERSHIP_REPORT_def
  IGMPV2_MEMBERSHIP_REPORT_def IGMPV2_LEAVE_GROUP_def

definition new_IGMPMessage :: IGMPMessage where
  "new_IGMPMessage = \<lparr>ig_type = 0, ig_maxRespTime = 0, ig_groupAddress = 0\<rparr>"

record HostGroupData =
  hg_groupAddr :: IPv4Address
  hg_state :: HostGroupState
  hg_flag :: bool
  hg_timer :: timer

record RouterGroupData =
  rg_groupAddr :: IPv4Address
  rg_state :: RouterGroupState
  rg_timer :: timer
  rg_rexmtTimer :: timer

type_synonym HostInterfaceData = "(IPv4Address \<times> HostGroupData) list"

record RouterInterfaceData =
  ri_groups :: "(IPv4Address \<times> RouterGroupData) list"
  igmpRouterState :: RouterState
  igmpQueryTimer :: timer

record IGMP_par =
  igmp_enabled :: bool
  externalRouter :: bool
  igmp_forwarding :: bool
  queryInterval :: simtime
  queryResponseInterval :: simtime
  groupMembershipInterval :: simtime
  otherQuerierPresentInterval :: simtime
  startupQueryInterval :: simtime
  lastMemberQueryInterval :: simtime
  lastMemberQueryCount :: int
  unsolicitedReportInterval :: simtime
  igmp_uniform :: "nat \<Rightarrow> simtime \<Rightarrow> simtime"

datatype igmp_event =
    IGMP_to_IP IGMPMessage IPv4ControlInfo
  | IGMP_to_router IGMPMessage
  | IGMP_forward_to_IP IGMPMessage
  | IGMP_if_event int if_event
  | NF_IPv4_MCAST_REGISTERED int IPv4Address
  | NF_IPv4_MCAST_UNREGISTERED int IPv4Address

record IGMP =
  igmp_par :: IGMP_par
  igmp_ift :: InterfaceTable
  igmp_hostData :: "(int \<times> HostInterfaceData) list"
  igmp_routerData :: "(int \<times> RouterInterfaceData) list"
  numGroups :: int
  numHostGroups :: int
  numRouterGroups :: int
  numQueriesSent :: int
  numQueriesRecv :: int
  numGeneralQueriesSent :: int
  numGeneralQueriesRecv :: int
  numGroupSpecificQueriesSent :: int
  numGroupSpecificQueriesRecv :: int
  numReportsSent :: int
  numReportsRecv :: int
  numLeavesSent :: int
  numLeavesRecv :: int
  igmp_draws :: nat
  igmp_out :: "igmp_event list"

definition igmp_emit :: "igmp_event \<Rightarrow> IGMP \<Rightarrow> IGMP" where
  "igmp_emit e s = s\<lparr>igmp_out := igmp_out s @ [e]\<rparr>"

definition igmp_interface :: "int \<Rightarrow> IGMP \<Rightarrow> InterfaceEntry res" where
  "igmp_interface i s = deref (getInterfaceById i (igmp_ift s))"

section \<open>Data per interface and group\<close>

definition new_HostGroupData :: "IPv4Address \<Rightarrow> HostGroupData res" where
  "new_HostGroupData grp =
     ASSERT (ip_isMulticast grp)
       (Inr \<lparr>hg_groupAddr = grp, hg_state = IGMP_HGS_NON_MEMBER, hg_flag = False, hg_timer = Timer_null\<rparr>)"

definition new_RouterGroupData :: "IPv4Address \<Rightarrow> RouterGroupData res" where
  "new_RouterGroupData grp =
     ASSERT (ip_isMulticast grp)
       (Inr \<lparr>rg_groupAddr = grp, rg_state = IGMP_RGS_NO_MEMBERS_PRESENT, rg_timer = Timer_null,
             rg_rexmtTimer = Timer_null\<rparr>)"

definition new_RouterInterfaceData :: RouterInterfaceData where
  "new_RouterInterfaceData =
     \<lparr>ri_groups = [], igmpRouterState = IGMP_RS_INITIAL, igmpQueryTimer = Timer_null\<rparr>"

text \<open>Both kinds of interface data are made when they are first asked for.\<close>

definition getHostInterfaceData :: "int \<Rightarrow> IGMP \<Rightarrow> HostInterfaceData \<times> IGMP" where
  "getHostInterfaceData i s =
     (case map_of (igmp_hostData s) i of
        Some data \<Rightarrow> (data, s)
      | None \<Rightarrow> ([], s\<lparr>igmp_hostData := put i [] (igmp_hostData s)\<rparr>))"

definition getRouterInterfaceData :: "int \<Rightarrow> IGMP \<Rightarrow> RouterInterfaceData \<times> IGMP" where
  "getRouterInterfaceData i s =
     (case map_of (igmp_routerData s) i of
        Some data \<Rightarrow> (data, s)
      | None \<Rightarrow> (new_RouterInterfaceData, s\<lparr>igmp_routerData := put i new_RouterInterfaceData (igmp_routerData s)\<rparr>))"

text \<open>Writing through the pointers that the lookups return.\<close>

definition put_host_group :: "int \<Rightarrow> HostGroupData \<Rightarrow> IGMP \<Rightarrow> IGMP" where
  "put_host_group i g s =
     (let (data, s) = getHostInterfaceData i s
      in s\<lparr>igmp_hostData := put i (put (hg_groupAddr g) g data) (igmp_hostData s)\<rparr>)"

definition put_router_data :: "int \<Rightarrow> RouterInterfaceData \<Rightarrow> IGMP \<Rightarrow> IGMP" where
  "put_router_data i data s = s\<lparr>igmp_routerData := put i data (igmp_routerData s)\<rparr>"

definition put_router_group :: "int \<Rightarrow> RouterGroupData \<Rightarrow> IGMP \<Rightarrow> IGMP" where
  "put_router_group i g s =
     (let (data, s) = getRouterInterfaceData i s
      in put_router_data i (data\<lparr>ri_groups := put (rg_groupAddr g) g (ri_groups data)\<rparr>) s)"

definition getHostGroupData :: "int \<Rightarrow> IPv4Address \<Rightarrow> IGMP \<Rightarrow> HostGroupData option \<times> IGMP" where
  "getHostGroupData i grp s = (let (data, s) = getHostInterfaceData i s in (map_of data grp, s))"

definition getRouterGroupData :: "int \<Rightarrow> IPv4Address \<Rightarrow> IGMP \<Rightarrow> RouterGroupData option \<times> IGMP" where
  "getRouterGroupData i grp s =
     (let (data, s) = getRouterInterfaceData i s in (map_of (ri_groups data) grp, s))"

definition createHostGroupData :: "int \<Rightarrow> IPv4Address \<Rightarrow> IGMP \<Rightarrow> (HostGroupData \<times> IGMP) res" where
  "createHostGroupData i grp s =
     (let (data, s) = getHostInterfaceData i s
      in ASSERT (map_of data grp = None)
           (bind_res (new_HostGroupData grp) (\<lambda>g. Inr (g, put_host_group i g s))))"

definition createRouterGroupData :: "int \<Rightarrow> IPv4Address \<Rightarrow> IGMP \<Rightarrow> (RouterGroupData \<times> IGMP) res" where
  "createRouterGroupData i grp s =
     (let (data, s) = getRouterInterfaceData i s
      in ASSERT (map_of (ri_groups data) grp = None)
           (bind_res (new_RouterGroupData grp) (\<lambda>g. Inr (g, put_router_group i g s))))"

definition deleteHostInterfaceData :: "int \<Rightarrow> IGMP \<Rightarrow> IGMP" where
  "deleteHostInterfaceData i s = s\<lparr>igmp_hostData := erase i (igmp_hostData s)\<rparr>"

definition deleteRouterInterfaceData :: "int \<Rightarrow> IGMP \<Rightarrow> IGMP" where
  "deleteRouterInterfaceData i s = s\<lparr>igmp_routerData := erase i (igmp_routerData s)\<rparr>"

text \<open>The destructors cancel the timers of a group.\<close>

definition deleteHostGroupData :: "int \<Rightarrow> IPv4Address \<Rightarrow> IGMP \<Rightarrow> IGMP" where
  "deleteHostGroupData i grp s =
     (let (data, s) = getHostInterfaceData i s
      in s\<lparr>igmp_hostData := put i (erase grp data) (igmp_hostData s)\<rparr>)"

definition deleteRouterGroupData :: "int \<Rightarrow> IPv4Address \<Rightarrow> IGMP \<Rightarrow> IGMP" where
  "deleteRouterGroupData i grp s =
     (let (data, s) = getRouterInterfaceData i s
      in put_router_data i (data\<lparr>ri_groups := erase grp (ri_groups data)\<rparr>) s)"

section \<open>Timers\<close>

text \<open>\<^verbatim>\<open>cancelEvent\<close> of a null pointer has no defined behaviour.\<close>

definition igmp_cancelEvent :: "timer \<Rightarrow> timer res" where
  "igmp_cancelEvent t = (case t of Timer_null \<Rightarrow> Inl Undefined_behaviour | _ \<Rightarrow> Inr Timer_idle)"

definition igmp_startTimer :: "simtime \<Rightarrow> timer \<Rightarrow> simtime \<Rightarrow> timer res" where
  "igmp_startTimer now t interval =
     ASSERT (t \<noteq> Timer_null)
       (if interval < 0 then Inl (Runtime_error ''scheduleAt(): cannot schedule message to the past'')
        else Inr (Timer_at (now + interval)))"

definition startHostTimer ::
  "simtime \<Rightarrow> HostGroupData \<Rightarrow> simtime \<Rightarrow> IGMP \<Rightarrow> (HostGroupData \<times> IGMP) res" where
  "startHostTimer now grp maxRespTime s =
     (let t = (if hg_timer grp = Timer_null then Timer_idle else hg_timer grp);
          delay = igmp_uniform (igmp_par s) (igmp_draws s) maxRespTime
      in bind_res (igmp_startTimer now t delay) (\<lambda>t.
           Inr (grp\<lparr>hg_timer := t\<rparr>, s\<lparr>igmp_draws := igmp_draws s + 1\<rparr>)))"

section \<open>Messages\<close>

definition igmp_sendToIP :: "IGMPMessage \<Rightarrow> InterfaceEntry \<Rightarrow> IPv4Address \<Rightarrow> IGMP \<Rightarrow> IGMP res" where
  "igmp_sendToIP msg ie dest s =
     ASSERT (if_multicast ie)
       (Inr (igmp_emit (IGMP_to_IP msg (new_IPv4ControlInfo
          \<lparr>ci_protocol := IP_PROT_IGMP, ci_interfaceId := interfaceId ie, ci_timeToLive := 1,
           ci_destAddr := dest\<rparr>)) s))"

text \<open>The field for the response time has tenths of a second.\<close>

definition resp_code :: "simtime \<Rightarrow> int" where
  "resp_code t = t * 10 sdiv seconds 1"

definition of_resp_code :: "int \<Rightarrow> simtime" where
  "of_resp_code n = n * 100000000000"

definition sendQuery :: "InterfaceEntry \<Rightarrow> IPv4Address \<Rightarrow> simtime \<Rightarrow> IGMP \<Rightarrow> IGMP res" where
  "sendQuery ie groupAddr maxRespTime s =
     ASSERT (ip_isUnspecified groupAddr \<or> ip_isMulticast groupAddr \<and> \<not> isLinkLocalMulticast groupAddr)
       (let (data, s) = getRouterInterfaceData (interfaceId ie) s
        in if igmpRouterState data = IGMP_RS_QUERIER then
             bind_res (igmp_sendToIP
               \<lparr>ig_type = IGMP_MEMBERSHIP_QUERY, ig_maxRespTime = resp_code maxRespTime, ig_groupAddress = groupAddr\<rparr>
               ie (if ip_isUnspecified groupAddr then ALL_HOSTS_MCAST else groupAddr) s) (\<lambda>s.
             let s = s\<lparr>numQueriesSent := numQueriesSent s + 1\<rparr>
             in Inr (if ip_isUnspecified groupAddr then s\<lparr>numGeneralQueriesSent := numGeneralQueriesSent s + 1\<rparr>
                     else s\<lparr>numGroupSpecificQueriesSent := numGroupSpecificQueriesSent s + 1\<rparr>))
           else Inr s)"

definition sendReport :: "InterfaceEntry \<Rightarrow> HostGroupData \<Rightarrow> IGMP \<Rightarrow> IGMP res" where
  "sendReport ie grp s =
     ASSERT (ip_isMulticast (hg_groupAddr grp) \<and> \<not> isLinkLocalMulticast (hg_groupAddr grp))
       (bind_res (igmp_sendToIP
          (new_IGMPMessage\<lparr>ig_type := IGMPV2_MEMBERSHIP_REPORT, ig_groupAddress := hg_groupAddr grp\<rparr>)
          ie (hg_groupAddr grp) s) (\<lambda>s.
        Inr (s\<lparr>numReportsSent := numReportsSent s + 1\<rparr>)))"

definition sendLeave :: "InterfaceEntry \<Rightarrow> HostGroupData \<Rightarrow> IGMP \<Rightarrow> IGMP res" where
  "sendLeave ie grp s =
     ASSERT (ip_isMulticast (hg_groupAddr grp) \<and> \<not> isLinkLocalMulticast (hg_groupAddr grp))
       (bind_res (igmp_sendToIP
          (new_IGMPMessage\<lparr>ig_type := IGMPV2_LEAVE_GROUP, ig_groupAddress := hg_groupAddr grp\<rparr>)
          ie ALL_ROUTERS_MCAST s) (\<lambda>s.
        Inr (s\<lparr>numLeavesSent := numLeavesSent s + 1\<rparr>)))"

section \<open>Notifications\<close>

definition configureInterface :: "simtime \<Rightarrow> InterfaceEntry \<Rightarrow> IGMP \<Rightarrow> IGMP res" where
  "configureInterface now ie s =
     (if igmp_enabled (igmp_par s) \<and> igmp_forwarding (igmp_par s) \<and> \<not> externalRouter (igmp_par s) then
        let i = interfaceId ie; (data, s) = getRouterInterfaceData i s;
            s = put_router_data i (data\<lparr>igmpQueryTimer := Timer_idle, igmpRouterState := IGMP_RS_QUERIER\<rparr>) s
        in bind_res (sendQuery ie 0 (queryResponseInterval (igmp_par s)) s) (\<lambda>s.
           bind_res (igmp_startTimer now Timer_idle (startupQueryInterval (igmp_par s))) (\<lambda>t.
             let (data, s) = getRouterInterfaceData i s
             in Inr (put_router_data i (data\<lparr>igmpQueryTimer := t\<rparr>) s)))
      else Inr s)"

definition multicastGroupJoined :: "simtime \<Rightarrow> int \<Rightarrow> IPv4Address \<Rightarrow> IGMP \<Rightarrow> IGMP res" where
  "multicastGroupJoined now i groupAddr s =
     bind_res (igmp_interface i s) (\<lambda>ie.
     ASSERT (if_multicast ie) (ASSERT (ip_isMulticast groupAddr)
       (if igmp_enabled (igmp_par s) \<and> \<not> isLinkLocalMulticast groupAddr then
          bind_res (createHostGroupData i groupAddr s) (\<lambda>(grp, s).
            let s = s\<lparr>numGroups := numGroups s + 1, numHostGroups := numHostGroups s + 1\<rparr>
            in bind_res (sendReport ie grp s) (\<lambda>s.
               bind_res (startHostTimer now (grp\<lparr>hg_flag := True\<rparr>) (unsolicitedReportInterval (igmp_par s)) s)
                 (\<lambda>(grp, s). Inr (put_host_group i (grp\<lparr>hg_state := IGMP_HGS_DELAYING_MEMBER\<rparr>) s))))
        else Inr s)))"

definition multicastGroupLeft :: "int \<Rightarrow> IPv4Address \<Rightarrow> IGMP \<Rightarrow> IGMP res" where
  "multicastGroupLeft i groupAddr s =
     bind_res (igmp_interface i s) (\<lambda>ie.
     ASSERT (if_multicast ie) (ASSERT (ip_isMulticast groupAddr)
       (if igmp_enabled (igmp_par s) \<and> \<not> isLinkLocalMulticast groupAddr then
          let (found, s) = getHostGroupData i groupAddr s
          in bind_res
               (case found of
                  None \<Rightarrow> Inr s
                | Some grp \<Rightarrow>
                    bind_res (if hg_state grp = IGMP_HGS_DELAYING_MEMBER then
                                map_sum id (\<lambda>_. ()) (igmp_cancelEvent (hg_timer grp)) else Inr ()) (\<lambda>_.
                      if hg_flag grp then sendLeave ie grp s else Inr s)) (\<lambda>s.
             let s = deleteHostGroupData i groupAddr s
             in Inr (s\<lparr>numHostGroups := numHostGroups s - 1, numGroups := numGroups s - 1\<rparr>))
        else Inr s)))"

datatype igmp_notification =
    IGMP_interface_created InterfaceEntry
  | IGMP_interface_deleted InterfaceEntry
  | IGMP_joined int IPv4Address
  | IGMP_left int IPv4Address

definition igmp_receiveChangeNotification :: "simtime \<Rightarrow> igmp_notification \<Rightarrow> IGMP \<Rightarrow> IGMP res" where
  "igmp_receiveChangeNotification now n s =
     (case n of
        IGMP_interface_created ie \<Rightarrow> if if_multicast ie then configureInterface now ie s else Inr s
      | IGMP_interface_deleted ie \<Rightarrow>
          Inr (if if_multicast ie
               then deleteRouterInterfaceData (interfaceId ie) (deleteHostInterfaceData (interfaceId ie) s)
               else s)
      | IGMP_joined i grp \<Rightarrow> multicastGroupJoined now i grp s
      | IGMP_left i grp \<Rightarrow> multicastGroupLeft i grp s)"

text \<open>The second stage of \<^verbatim>\<open>initialize\<close>; the registration of the protocol is left to IPv4.\<close>

definition igmp_initialize :: "simtime \<Rightarrow> IGMP \<Rightarrow> IGMP res" where
  "igmp_initialize now s =
     fold_res (\<lambda>ie s. if if_multicast ie then configureInterface now ie s else Inr s)
       (interfaces (igmp_ift s)) s"

section \<open>Timers that expire\<close>

text \<open>A timer is idle when its message is handled.\<close>

definition processQueryTimer :: "simtime \<Rightarrow> int \<Rightarrow> IGMP \<Rightarrow> IGMP res" where
  "processQueryTimer now i s =
     bind_res (igmp_interface i s) (\<lambda>ie.
       let (data, s) = getRouterInterfaceData i s;
           s = put_router_data i (data\<lparr>igmpQueryTimer := Timer_idle\<rparr>) s
       in if igmpRouterState data = IGMP_RS_QUERIER \<or> igmpRouterState data = IGMP_RS_NON_QUERIER then
            let s = put_router_data i (data\<lparr>igmpQueryTimer := Timer_idle, igmpRouterState := IGMP_RS_QUERIER\<rparr>) s
            in bind_res (sendQuery ie 0 (queryResponseInterval (igmp_par s)) s) (\<lambda>s.
               bind_res (igmp_startTimer now Timer_idle (queryInterval (igmp_par s))) (\<lambda>t.
                 let (data, s) = getRouterInterfaceData i s
                 in Inr (put_router_data i (data\<lparr>igmpQueryTimer := t\<rparr>) s)))
          else Inr s)"

definition processHostGroupTimer :: "int \<Rightarrow> IPv4Address \<Rightarrow> IGMP \<Rightarrow> IGMP res" where
  "processHostGroupTimer i groupAddr s =
     bind_res (igmp_interface i s) (\<lambda>ie.
     let (found, s) = getHostGroupData i groupAddr s
     in bind_res (deref found) (\<lambda>grp.
        bind_res (sendReport ie grp s) (\<lambda>s.
          Inr (put_host_group i
            (grp\<lparr>hg_timer := Timer_idle, hg_flag := True, hg_state := IGMP_HGS_IDLE_MEMBER\<rparr>) s))))"

text \<open>Writing the listeners of an interface.\<close>

definition igmp_set_listeners :: "InterfaceEntry \<Rightarrow> if_event list \<times> IPv4InterfaceData \<Rightarrow> IGMP \<Rightarrow> IGMP" where
  "igmp_set_listeners ie = (\<lambda>(evs, d) s.
     s\<lparr>igmp_ift := set_interface (ie\<lparr>ipv4data := Some d\<rparr>) (igmp_ift s),
       igmp_out := igmp_out s @ map (IGMP_if_event (interfaceId ie)) evs\<rparr>)"

definition processLeaveTimer :: "int \<Rightarrow> IPv4Address \<Rightarrow> IGMP \<Rightarrow> IGMP res" where
  "processLeaveTimer i groupAddr s =
     bind_res (igmp_interface i s) (\<lambda>ie.
     let (found, s) = getRouterGroupData i groupAddr s
     in bind_res (deref found) (\<lambda>grp.
        bind_res (deref (ipv4data ie)) (\<lambda>d.
          let s = igmp_set_listeners ie (removeMulticastListener (rg_groupAddr grp) d) s;
              s = igmp_emit (NF_IPv4_MCAST_UNREGISTERED i (rg_groupAddr grp)) s;
              s = s\<lparr>numRouterGroups := numRouterGroups s - 1\<rparr>
          in bind_res (if rg_state grp = IGMP_RGS_CHECKING_MEMBERSHIP
                       then map_sum id (\<lambda>_. ()) (igmp_cancelEvent (rg_rexmtTimer grp)) else Inr ()) (\<lambda>_.
             let s = deleteRouterGroupData i (rg_groupAddr grp) s
             in Inr (s\<lparr>numGroups := numGroups s - 1\<rparr>)))))"

definition processRexmtTimer :: "simtime \<Rightarrow> int \<Rightarrow> IPv4Address \<Rightarrow> IGMP \<Rightarrow> IGMP res" where
  "processRexmtTimer now i groupAddr s =
     bind_res (igmp_interface i s) (\<lambda>ie.
     let (found, s) = getRouterGroupData i groupAddr s
     in bind_res (deref found) (\<lambda>grp.
        bind_res (sendQuery ie (rg_groupAddr grp) (lastMemberQueryInterval (igmp_par s)) s) (\<lambda>s.
        bind_res (igmp_startTimer now Timer_idle (lastMemberQueryInterval (igmp_par s))) (\<lambda>t.
          Inr (put_router_group i
            (grp\<lparr>rg_rexmtTimer := t, rg_state := IGMP_RGS_CHECKING_MEMBERSHIP\<rparr>) s)))))"

section \<open>Messages that arrive\<close>

text \<open>An alias of the group is changed in place; the result is the group as it is then.\<close>

definition processGroupQuery ::
  "simtime \<Rightarrow> int \<Rightarrow> HostGroupData \<Rightarrow> int \<Rightarrow> IGMP \<Rightarrow> IGMP res" where
  "processGroupQuery now i grp maxRespTime s =
     (let maxRespTimeSecs = of_resp_code maxRespTime
      in if hg_state grp = IGMP_HGS_DELAYING_MEMBER then
           (case hg_timer grp of
              Timer_null \<Rightarrow> Inl Undefined_behaviour
            | Timer_idle \<Rightarrow> Inr s
            | Timer_at arrival \<Rightarrow>
                if now + maxRespTimeSecs < arrival then
                  bind_res (startHostTimer now grp maxRespTimeSecs s) (\<lambda>(grp, s).
                    Inr (put_host_group i grp s))
                else Inr s)
         else if hg_state grp = IGMP_HGS_IDLE_MEMBER then
           bind_res (startHostTimer now grp maxRespTimeSecs s) (\<lambda>(grp, s).
             Inr (put_host_group i (grp\<lparr>hg_state := IGMP_HGS_DELAYING_MEMBER\<rparr>) s))
         else Inr s)"

text \<open>What a host does about a query, and then what a router does.\<close>

definition query_hosts :: "simtime \<Rightarrow> int \<Rightarrow> IGMPMessage \<Rightarrow> IGMP \<Rightarrow> IGMP res" where
  "query_hosts now i msg s =
     (let (hosts, s) = getHostInterfaceData i s;
          s = s\<lparr>numQueriesRecv := numQueriesRecv s + 1\<rparr>;
          groupAddr = ig_groupAddress msg
      in if ip_isUnspecified groupAddr then
           fold_res (\<lambda>(_, grp). processGroupQuery now i grp (ig_maxRespTime msg)) hosts
             (s\<lparr>numGeneralQueriesRecv := numGeneralQueriesRecv s + 1\<rparr>)
         else
           let s = s\<lparr>numGroupSpecificQueriesRecv := numGroupSpecificQueriesRecv s + 1\<rparr>
           in case map_of hosts groupAddr of
                None \<Rightarrow> Inr s
              | Some grp \<Rightarrow> processGroupQuery now i grp (ig_maxRespTime msg) s)"

definition query_router ::
  "simtime \<Rightarrow> InterfaceEntry \<Rightarrow> IPv4Address \<Rightarrow> IGMPMessage \<Rightarrow> IGMP \<Rightarrow> IGMP res" where
  "query_router now ie sender msg s =
     (let i = interfaceId ie; groupAddr = ig_groupAddress msg; (data, s) = getRouterInterfaceData i s
      in bind_res (deref (ipv4data ie)) (\<lambda>d.
         bind_res
           (if sender < inetAddr d then
              bind_res (igmp_startTimer now (igmpQueryTimer data)
                          (otherQuerierPresentInterval (igmp_par s))) (\<lambda>t.
                let data = data\<lparr>igmpQueryTimer := t, igmpRouterState := IGMP_RS_NON_QUERIER\<rparr>
                in Inr (data, put_router_data i data s))
            else Inr (data, s)) (\<lambda>(data, s).
         if \<not> ip_isUnspecified groupAddr \<and> igmpRouterState data = IGMP_RS_NON_QUERIER then
           bind_res (deref (map_of (ri_groups data) groupAddr)) (\<lambda>grp.
             if rg_state grp = IGMP_RGS_MEMBERS_PRESENT then
               bind_res (igmp_startTimer now (rg_timer grp)
                           (of_resp_code (ig_maxRespTime msg) * lastMemberQueryCount (igmp_par s))) (\<lambda>t.
                 Inr (put_router_group i
                   (grp\<lparr>rg_timer := t, rg_state := IGMP_RGS_CHECKING_MEMBERSHIP\<rparr>) s))
             else Inr s)
         else Inr s)))"

definition processQuery :: "simtime \<Rightarrow> InterfaceEntry \<Rightarrow> IPv4Address \<Rightarrow> IGMPMessage \<Rightarrow> IGMP \<Rightarrow> IGMP res" where
  "processQuery now ie sender msg s =
     ASSERT (if_multicast ie)
       (bind_res (query_hosts now (interfaceId ie) msg s) (\<lambda>s.
          if igmp_forwarding (igmp_par s) then
            if externalRouter (igmp_par s) then Inr (igmp_emit (IGMP_to_router msg) s)
            else query_router now ie sender msg s
          else Inr s))"

definition report_hosts :: "int \<Rightarrow> IGMPMessage \<Rightarrow> IGMP \<Rightarrow> IGMP res" where
  "report_hosts i msg s =
     (let s = s\<lparr>numReportsRecv := numReportsRecv s + 1\<rparr>;
          (host, s) = getHostGroupData i (ig_groupAddress msg) s
      in case host of
           None \<Rightarrow> Inr s
         | Some grp \<Rightarrow>
             if hg_state grp = IGMP_HGS_DELAYING_MEMBER then
               bind_res (igmp_cancelEvent (hg_timer grp)) (\<lambda>t.
                 Inr (put_host_group i
                   (grp\<lparr>hg_timer := t, hg_flag := False, hg_state := IGMP_HGS_IDLE_MEMBER\<rparr>) s))
             else Inr s)"

definition report_router :: "simtime \<Rightarrow> InterfaceEntry \<Rightarrow> IGMPMessage \<Rightarrow> IGMP \<Rightarrow> IGMP res" where
  "report_router now ie msg s =
     (let i = interfaceId ie; groupAddr = ig_groupAddress msg; (found, s) = getRouterGroupData i groupAddr s
      in bind_res
           (case found of
              Some grp \<Rightarrow> Inr (grp, s)
            | None \<Rightarrow>
                bind_res (createRouterGroupData i groupAddr s) (\<lambda>(grp, s).
                  Inr (grp, s\<lparr>numGroups := numGroups s + 1\<rparr>))) (\<lambda>(grp, s).
         let grp = (if rg_timer grp = Timer_null then grp\<lparr>rg_timer := Timer_idle\<rparr> else grp);
             grp = (if rg_rexmtTimer grp = Timer_null then grp\<lparr>rg_rexmtTimer := Timer_idle\<rparr> else grp)
         in bind_res
              (if rg_state grp = IGMP_RGS_NO_MEMBERS_PRESENT then
                 bind_res (deref (ipv4data ie)) (\<lambda>d.
                 bind_res (addMulticastListener groupAddr d) (\<lambda>r.
                   let s = igmp_set_listeners ie r s;
                       s = igmp_emit (NF_IPv4_MCAST_REGISTERED i (rg_groupAddr grp)) s
                   in Inr (grp, s\<lparr>numRouterGroups := numRouterGroups s + 1\<rparr>)))
               else if rg_state grp = IGMP_RGS_CHECKING_MEMBERSHIP then
                 bind_res (igmp_cancelEvent (rg_rexmtTimer grp)) (\<lambda>t.
                   Inr (grp\<lparr>rg_rexmtTimer := t\<rparr>, s))
               else Inr (grp, s)) (\<lambda>(grp, s).
            bind_res (igmp_startTimer now (rg_timer grp) (groupMembershipInterval (igmp_par s))) (\<lambda>t.
              Inr (put_router_group i
                (grp\<lparr>rg_timer := t, rg_state := IGMP_RGS_MEMBERS_PRESENT\<rparr>) s)))))"

definition processV2Report :: "simtime \<Rightarrow> InterfaceEntry \<Rightarrow> IGMPMessage \<Rightarrow> IGMP \<Rightarrow> IGMP res" where
  "processV2Report now ie msg s =
     ASSERT (if_multicast ie)
       (bind_res (report_hosts (interfaceId ie) msg s) (\<lambda>s.
          if igmp_forwarding (igmp_par s) then
            if externalRouter (igmp_par s) then Inr (igmp_emit (IGMP_to_router msg) s)
            else report_router now ie msg s
          else Inr s))"

definition processLeave :: "simtime \<Rightarrow> InterfaceEntry \<Rightarrow> IGMPMessage \<Rightarrow> IGMP \<Rightarrow> IGMP res" where
  "processLeave now ie msg s =
     ASSERT (if_multicast ie)
       (let s = s\<lparr>numLeavesRecv := numLeavesRecv s + 1\<rparr>
        in if igmp_forwarding (igmp_par s) then
             if externalRouter (igmp_par s) then Inr (igmp_emit (IGMP_to_router msg) s)
             else
               let i = interfaceId ie; groupAddr = ig_groupAddress msg;
                   (data, s) = getRouterInterfaceData i s
               in case map_of (ri_groups data) groupAddr of
                    None \<Rightarrow> Inr s
                  | Some grp \<Rightarrow>
                      if rg_state grp = IGMP_RGS_MEMBERS_PRESENT \<and> igmpRouterState data = IGMP_RS_QUERIER then
                        bind_res (igmp_startTimer now (rg_timer grp)
                          (lastMemberQueryInterval (igmp_par s) * lastMemberQueryCount (igmp_par s))) (\<lambda>t.
                        bind_res (igmp_startTimer now (rg_rexmtTimer grp) (lastMemberQueryInterval (igmp_par s))) (\<lambda>r.
                        let s = put_router_group i (grp\<lparr>rg_timer := t, rg_rexmtTimer := r\<rparr>) s
                        in bind_res (sendQuery ie groupAddr (lastMemberQueryInterval (igmp_par s)) s) (\<lambda>s.
                             Inr (put_router_group i (grp\<lparr>rg_timer := t, rg_rexmtTimer := r,
                                    rg_state := IGMP_RGS_CHECKING_MEMBERSHIP\<rparr>) s))))
                      else Inr s
           else Inr s)"

definition processIgmpMessage :: "simtime \<Rightarrow> IGMPMessage \<Rightarrow> IPv4ControlInfo \<Rightarrow> IGMP \<Rightarrow> IGMP res" where
  "processIgmpMessage now msg ci s =
     (if ig_type msg = IGMP_MEMBERSHIP_QUERY then
        bind_res (igmp_interface (ci_interfaceId ci) s) (\<lambda>ie. processQuery now ie (ci_srcAddr ci) msg s)
      else if ig_type msg = IGMPV2_MEMBERSHIP_REPORT then
        bind_res (igmp_interface (ci_interfaceId ci) s) (\<lambda>ie. processV2Report now ie msg s)
      else if ig_type msg = IGMPV2_LEAVE_GROUP then
        bind_res (igmp_interface (ci_interfaceId ci) s) (\<lambda>ie. processLeave now ie msg s)
      else if externalRouter (igmp_par s) then Inr (igmp_emit (IGMP_to_router msg) s)
      else Inl (Runtime_error ''IGMPv2: Unhandled message type''))"

datatype igmp_input =
    Query_timer int
  | Hostgroup_timer int IPv4Address
  | Leave_timer int IPv4Address
  | Rexmt_timer int IPv4Address
  | From_router IGMPMessage
  | From_IP IGMPMessage IPv4ControlInfo

definition igmp_handleMessage :: "simtime \<Rightarrow> igmp_input \<Rightarrow> IGMP \<Rightarrow> IGMP res" where
  "igmp_handleMessage now e s =
     (if \<not> igmp_enabled (igmp_par s) then Inr s
      else case e of
        Query_timer i \<Rightarrow> processQueryTimer now i s
      | Hostgroup_timer i grp \<Rightarrow> processHostGroupTimer i grp s
      | Leave_timer i grp \<Rightarrow> processLeaveTimer i grp s
      | Rexmt_timer i grp \<Rightarrow> processRexmtTimer now i grp s
      | From_router msg \<Rightarrow> Inr (igmp_emit (IGMP_forward_to_IP msg) s)
      | From_IP msg ci \<Rightarrow> processIgmpMessage now msg ci s)"

end
