(* ===== verification/IGMP_Laws.thy ===== *)
theory IGMP_Laws
  imports IGMP_Module
begin

text \<open>
  What the IGMP module promises. The data of an interface are seen through \<open>host_if\<close> and \<open>router_if\<close>,
  which do not tell an entry that was just made from one that is not there; what a handler does to
  them is an equation on \<open>igmp_view\<close>.
\<close>

section \<open>The state as the handlers see it\<close>

definition host_if :: "(int \<times> HostInterfaceData) list \<Rightarrow> int \<Rightarrow> HostInterfaceData" where
  "host_if m i = (case map_of m i of None \<Rightarrow> [] | Some data \<Rightarrow> data)"

definition router_if :: "(int \<times> RouterInterfaceData) list \<Rightarrow> int \<Rightarrow> RouterInterfaceData" where
  "router_if m i = (case map_of m i of None \<Rightarrow> new_RouterInterfaceData | Some data \<Rightarrow> data)"

definition touch_host :: "int \<Rightarrow> (int \<times> HostInterfaceData) list \<Rightarrow> (int \<times> HostInterfaceData) list" where
  "touch_host i m = (if map_of m i = None then put i [] m else m)"

definition touch_router :: "int \<Rightarrow> (int \<times> RouterInterfaceData) list \<Rightarrow> (int \<times> RouterInterfaceData) list" where
  "touch_router i m = (if map_of m i = None then put i new_RouterInterfaceData m else m)"

lemma host_if_simps [simp]:
  "host_if (put i d m) = (host_if m)(i := d)" "host_if (touch_host i m) = host_if m"
  "host_if (erase i m) = (host_if m)(i := [])"
  by (auto simp: host_if_def touch_host_def fun_eq_iff)

lemma router_if_simps [simp]:
  "router_if (put i r m) = (router_if m)(i := r)" "router_if (touch_router i m) = router_if m"
  "router_if (erase i m) = (router_if m)(i := new_RouterInterfaceData)"
  by (auto simp: router_if_def touch_router_def fun_eq_iff)

lemma getHostInterfaceData_eq:
  "getHostInterfaceData i s = (host_if (igmp_hostData s) i, s\<lparr>igmp_hostData := touch_host i (igmp_hostData s)\<rparr>)"
  by (auto simp: getHostInterfaceData_def host_if_def touch_host_def split: option.splits)

lemma getRouterInterfaceData_eq:
  "getRouterInterfaceData i s =
     (router_if (igmp_routerData s) i, s\<lparr>igmp_routerData := touch_router i (igmp_routerData s)\<rparr>)"
  by (auto simp: getRouterInterfaceData_def router_if_def touch_router_def split: option.splits)

definition igmp_view :: "IGMP \<Rightarrow> IGMP_par \<times> InterfaceTable \<times> (int \<Rightarrow> HostInterfaceData)
    \<times> (int \<Rightarrow> RouterInterfaceData) \<times> igmp_event list" where
  "igmp_view s = (igmp_par s, igmp_ift s, host_if (igmp_hostData s), router_if (igmp_routerData s), igmp_out s)"

lemmas igmp_access = getHostInterfaceData_eq getRouterInterfaceData_eq getHostGroupData_def
  getRouterGroupData_def put_host_group_def put_router_data_def put_router_group_def
  createHostGroupData_def createRouterGroupData_def new_HostGroupData_def new_RouterGroupData_def
  deleteHostGroupData_def deleteRouterGroupData_def deleteHostInterfaceData_def
  deleteRouterInterfaceData_def igmp_emit_def igmp_set_listeners_def igmp_interface_def Let_def

lemma igmp_par_put [simp]: "igmp_par (put_router_group i g s) = igmp_par s"
  by (simp add: igmp_access)

text \<open>Timers that are there can be cancelled and started.\<close>

lemma igmp_timer_simps [simp]:
  "t \<noteq> Timer_null \<Longrightarrow> igmp_cancelEvent t = Inr Timer_idle"
  "t \<noteq> Timer_null \<Longrightarrow> 0 \<le> d \<Longrightarrow> igmp_startTimer now t d = Inr (Timer_at (now + d))"
  by (auto simp: igmp_cancelEvent_def igmp_startTimer_def split: timer.splits)

lemma pending_not_null: "pending t \<Longrightarrow> t \<noteq> Timer_null"
  by auto

section \<open>Well-formed states\<close>

text \<open>The draws of random numbers stay in their range, and no interval is negative.\<close>

definition igmp_par_ok :: "IGMP_par \<Rightarrow> bool" where
  "igmp_par_ok p \<longleftrightarrow> igmp_enabled p \<and> (\<forall>n m. 0 \<le> m \<longrightarrow> 0 \<le> igmp_uniform p n m \<and> igmp_uniform p n m \<le> m)
     \<and> 0 \<le> queryInterval p \<and> 0 \<le> queryResponseInterval p \<and> 0 \<le> groupMembershipInterval p
     \<and> 0 \<le> otherQuerierPresentInterval p \<and> 0 \<le> startupQueryInterval p \<and> 0 \<le> lastMemberQueryInterval p
     \<and> 0 \<le> lastMemberQueryCount p \<and> 0 \<le> unsolicitedReportInterval p"

definition reportable :: "IPv4Address \<Rightarrow> bool" where
  "reportable g \<longleftrightarrow> ip_isMulticast g \<and> \<not> isLinkLocalMulticast g"

definition host_group_ok :: "IPv4Address \<Rightarrow> HostGroupData \<Rightarrow> bool" where
  "host_group_ok g grp \<longleftrightarrow> hg_groupAddr grp = g \<and>
     (hg_state grp = IGMP_HGS_DELAYING_MEMBER \<and> pending (hg_timer grp)
      \<or> hg_state grp = IGMP_HGS_IDLE_MEMBER \<and> hg_timer grp = Timer_idle)"

definition router_group_ok :: "IPv4Address \<Rightarrow> RouterGroupData \<Rightarrow> bool" where
  "router_group_ok g grp \<longleftrightarrow> rg_groupAddr grp = g \<and> reportable g \<and> pending (rg_timer grp)
     \<and> rg_rexmtTimer grp \<noteq> Timer_null
     \<and> (rg_state grp = IGMP_RGS_MEMBERS_PRESENT \<and> rg_rexmtTimer grp = Timer_idle
        \<or> rg_state grp = IGMP_RGS_CHECKING_MEMBERSHIP)"

text \<open>A host knows the groups that its interface has joined, a router lists those that it knows.\<close>

definition host_part_ok :: "IPv4InterfaceData \<Rightarrow> HostInterfaceData \<Rightarrow> bool" where
  "host_part_ok d data \<longleftrightarrow> is_map data \<and> (\<forall>g grp. map_of data g = Some grp \<longrightarrow> host_group_ok g grp)
     \<and> (\<forall>g. map_of data g \<noteq> None \<longleftrightarrow> isMemberOfMulticastGroup g d \<and> reportable g)"

definition querying :: "IGMP_par \<Rightarrow> bool" where
  "querying p \<longleftrightarrow> igmp_forwarding p \<and> \<not> externalRouter p"

definition router_part_ok :: "IGMP_par \<Rightarrow> IPv4InterfaceData \<Rightarrow> RouterInterfaceData \<Rightarrow> bool" where
  "router_part_ok p d data \<longleftrightarrow> is_map (ri_groups data)
     \<and> (\<forall>g grp. map_of (ri_groups data) g = Some grp \<longrightarrow> router_group_ok g grp)
     \<and> (\<forall>g. hasMulticastListener g d \<longleftrightarrow> map_of (ri_groups data) g \<noteq> None)
     \<and> distinct (reportedMulticastGroups (getRouterData d))
     \<and> (if querying p then igmpRouterState data \<noteq> IGMP_RS_INITIAL \<and> pending (igmpQueryTimer data)
        else data = new_RouterInterfaceData)"

definition iface_ok :: "IGMP_par \<Rightarrow> InterfaceEntry \<Rightarrow> HostInterfaceData \<Rightarrow> RouterInterfaceData \<Rightarrow> bool" where
  "iface_ok p ie hs ri \<longleftrightarrow>
     (if if_multicast ie then
        \<exists>d. ipv4data ie = Some d \<and> host_ok d \<and> host_part_ok d hs \<and> router_part_ok p d ri
      else hs = [] \<and> ri = new_RouterInterfaceData)"

definition igmp_ok :: "IGMP \<Rightarrow> bool" where
  "igmp_ok s \<longleftrightarrow> igmp_par_ok (igmp_par s) \<and> (\<forall>i.
     case getInterfaceById i (igmp_ift s) of
       None \<Rightarrow> host_if (igmp_hostData s) i = [] \<and> router_if (igmp_routerData s) i = new_RouterInterfaceData
     | Some ie \<Rightarrow> interfaceId ie = i
         \<and> iface_ok (igmp_par s) ie (host_if (igmp_hostData s) i) (router_if (igmp_routerData s) i))"

lemma getInterfaceById_set:
  assumes "getInterfaceById (interfaceId ie) ift = Some x"
  shows "getInterfaceById j (set_interface ie ift) = (if j = interfaceId ie then Some ie else getInterfaceById j ift)"
  using assms by (auto simp: getInterfaceById_def set_interface_def Let_def nth_list_update split: if_splits)

lemma igmp_okD:
  assumes "igmp_ok s" "getInterfaceById i (igmp_ift s) = Some ie"
  shows "igmp_par_ok (igmp_par s)" "interfaceId ie = i"
    "iface_ok (igmp_par s) ie (host_if (igmp_hostData s) i) (router_if (igmp_routerData s) i)"
  using assms by (auto simp: igmp_ok_def dest: spec[of _ i])

text \<open>A handler that changes the data of one interface and keeps them in order.\<close>

lemma igmp_ok_update:
  assumes "igmp_ok s" "getInterfaceById i (igmp_ift s) = Some ie"
    and "igmp_view s' = (igmp_par s, ift, (host_if (igmp_hostData s))(i := hs), (router_if (igmp_routerData s))(i := ri), out)"
    and "ift = igmp_ift s \<and> ie' = ie \<or> ift = set_interface ie' (igmp_ift s) \<and> interfaceId ie' = i"
    and "iface_ok (igmp_par s) ie' hs ri"
  shows "igmp_ok s'"
proof -
  have v: "igmp_par s' = igmp_par s" "igmp_ift s' = ift" "host_if (igmp_hostData s') = (host_if (igmp_hostData s))(i := hs)"
    "router_if (igmp_routerData s') = (router_if (igmp_routerData s))(i := ri)"
    using assms(3) by (simp_all add: igmp_view_def)
  have id: "interfaceId ie = i" by (rule igmp_okD(2)[OF assms(1,2)])
  have look: "getInterfaceById j ift = (if j = i then Some ie' else getInterfaceById j (igmp_ift s))" for j
    using assms(2,4) getInterfaceById_set[of ie' "igmp_ift s" ie j] by auto
  have "interfaceId ie' = i" using assms(4) id by auto
  then show ?thesis using assms(1,5) unfolding igmp_ok_def v look by (simp cong: option.case_cong)
qed

lemma reportable_not_unspecified: "reportable g \<Longrightarrow> \<not> ip_isUnspecified g"
  by (auto simp: reportable_def ip_isMulticast_def ip_isUnspecified_def)

section \<open>What the host side does\<close>

definition report :: "int \<Rightarrow> IPv4Address \<Rightarrow> igmp_event" where
  "report i g = IGMP_to_IP (new_IGMPMessage\<lparr>ig_type := IGMPV2_MEMBERSHIP_REPORT, ig_groupAddress := g\<rparr>)
     (new_IPv4ControlInfo\<lparr>ci_protocol := IP_PROT_IGMP, ci_interfaceId := i, ci_timeToLive := 1, ci_destAddr := g\<rparr>)"

definition leave_msg :: "int \<Rightarrow> IPv4Address \<Rightarrow> igmp_event" where
  "leave_msg i g = IGMP_to_IP (new_IGMPMessage\<lparr>ig_type := IGMPV2_LEAVE_GROUP, ig_groupAddress := g\<rparr>)
     (new_IPv4ControlInfo\<lparr>ci_protocol := IP_PROT_IGMP, ci_interfaceId := i, ci_timeToLive := 1,
        ci_destAddr := ALL_ROUTERS_MCAST\<rparr>)"

lemma sendReport_eq:
  "if_multicast ie \<Longrightarrow> reportable (hg_groupAddr grp) \<Longrightarrow> sendReport ie grp s =
     Inr (s\<lparr>igmp_out := igmp_out s @ [report (interfaceId ie) (hg_groupAddr grp)],
            numReportsSent := numReportsSent s + 1\<rparr>)"
  by (simp add: sendReport_def igmp_sendToIP_def reportable_def igmp_emit_def report_def)

lemma sendLeave_eq:
  "if_multicast ie \<Longrightarrow> reportable (hg_groupAddr grp) \<Longrightarrow> sendLeave ie grp s =
     Inr (s\<lparr>igmp_out := igmp_out s @ [leave_msg (interfaceId ie) (hg_groupAddr grp)],
            numLeavesSent := numLeavesSent s + 1\<rparr>)"
  by (simp add: sendLeave_def igmp_sendToIP_def reportable_def igmp_emit_def leave_msg_def)

lemma startHostTimer_eq:
  assumes "igmp_par_ok (igmp_par s)" "0 \<le> m"
  shows "\<exists>t. startHostTimer now grp m s = Inr (grp\<lparr>hg_timer := Timer_at t\<rparr>, s\<lparr>igmp_draws := igmp_draws s + 1\<rparr>)
    \<and> now \<le> t \<and> t \<le> now + m"
  using assms by (auto simp: startHostTimer_def igmp_par_ok_def Let_def)

text \<open>A handler succeeds, and what it leaves is seen as \<open>v\<close>.\<close>

definition gives :: "IGMP res \<Rightarrow> IGMP_par \<times> InterfaceTable \<times> (int \<Rightarrow> HostInterfaceData)
    \<times> (int \<Rightarrow> RouterInterfaceData) \<times> igmp_event list \<Rightarrow> bool" where
  "gives m v \<longleftrightarrow> (\<exists>s. m = Inr s \<and> igmp_view s = v)"

lemma gives_Inr [simp]: "gives (Inr s) v \<longleftrightarrow> igmp_view s = v"
  by (simp add: gives_def)

text \<open>The module works on a multicast interface of the table.\<close>

definition attached :: "int \<Rightarrow> InterfaceEntry \<Rightarrow> IGMP \<Rightarrow> bool" where
  "attached i ie s \<longleftrightarrow> igmp_par_ok (igmp_par s) \<and> getInterfaceById i (igmp_ift s) = Some ie
     \<and> interfaceId ie = i \<and> if_multicast ie"

lemma attachedI:
  "igmp_ok s \<Longrightarrow> getInterfaceById i (igmp_ift s) = Some ie \<Longrightarrow> if_multicast ie \<Longrightarrow> attached i ie s"
  using igmp_okD by (simp add: attached_def)

lemma joined_view:
  assumes at: "attached i ie s" and g: "reportable g" "map_of (host_if (igmp_hostData s) i) g = None"
  shows "\<exists>t. now \<le> t \<and> t \<le> now + unsolicitedReportInterval (igmp_par s)
    \<and> gives (multicastGroupJoined now i g s) (igmp_par s, igmp_ift s, (host_if (igmp_hostData s))(i := put g
        \<lparr>hg_groupAddr = g, hg_state = IGMP_HGS_DELAYING_MEMBER, hg_flag = True, hg_timer = Timer_at t\<rparr>
        (host_if (igmp_hostData s) i)),
        router_if (igmp_routerData s), igmp_out s @ [report i g])"
proof -
  have p: "igmp_par_ok (igmp_par s)" "getInterfaceById i (igmp_ift s) = Some ie" "interfaceId ie = i" "if_multicast ie"
    using at by (simp_all add: attached_def)
  then have e: "igmp_enabled (igmp_par s)" "0 \<le> unsolicitedReportInterval (igmp_par s)"
    by (simp_all add: igmp_par_ok_def)
  let ?grp = "\<lparr>hg_groupAddr = g, hg_state = IGMP_HGS_NON_MEMBER, hg_flag = False, hg_timer = Timer_null\<rparr>"
  let ?s = "s\<lparr>igmp_hostData := put i (put g ?grp (host_if (igmp_hostData s) i)) (touch_host i (touch_host i (igmp_hostData s))),
      numGroups := numGroups s + 1, numHostGroups := numHostGroups s + 1,
      igmp_out := igmp_out s @ [report i g], numReportsSent := numReportsSent s + 1\<rparr>"
  obtain t where t: "startHostTimer now (?grp\<lparr>hg_flag := True\<rparr>) (unsolicitedReportInterval (igmp_par s)) ?s
      = Inr (?grp\<lparr>hg_flag := True, hg_timer := Timer_at t\<rparr>, ?s\<lparr>igmp_draws := igmp_draws s + 1\<rparr>)"
    "now \<le> t" "t \<le> now + unsolicitedReportInterval (igmp_par s)"
    using startHostTimer_eq[of ?s "unsolicitedReportInterval (igmp_par s)" now "?grp\<lparr>hg_flag := True\<rparr>"] p(1) e(2)
    by auto
  have "multicastGroupJoined now i g s =
      Inr (put_host_group i (?grp\<lparr>hg_flag := True, hg_timer := Timer_at t, hg_state := IGMP_HGS_DELAYING_MEMBER\<rparr>)
        (?s\<lparr>igmp_draws := igmp_draws s + 1\<rparr>))"
    using p(2-4) g e(1) t(1) by (simp add: multicastGroupJoined_def igmp_access reportable_def sendReport_eq)
  then show ?thesis using t(2,3) by (intro exI[of _ t]) (simp add: igmp_access igmp_view_def)
qed

lemma left_view:
  assumes "attached i ie s" "reportable g" "map_of (host_if (igmp_hostData s) i) g = Some grp" "host_group_ok g grp"
  shows "gives (multicastGroupLeft i g s) (igmp_par s, igmp_ift s,
    (host_if (igmp_hostData s))(i := erase g (host_if (igmp_hostData s) i)), router_if (igmp_routerData s),
    igmp_out s @ (if hg_flag grp then [leave_msg i g] else []))"
  using assms pending_not_null
  by (auto simp: multicastGroupLeft_def igmp_access attached_def reportable_def sendLeave_eq host_group_ok_def
      igmp_par_ok_def igmp_view_def)

lemma host_timer_view:
  assumes "attached i ie s" "reportable g" "map_of (host_if (igmp_hostData s) i) g = Some grp" "host_group_ok g grp"
  shows "gives (processHostGroupTimer i g s) (igmp_par s, igmp_ift s,
    (host_if (igmp_hostData s))(i := put g (grp\<lparr>hg_timer := Timer_idle, hg_flag := True,
       hg_state := IGMP_HGS_IDLE_MEMBER\<rparr>) (host_if (igmp_hostData s) i)), router_if (igmp_routerData s),
    igmp_out s @ [report i g])"
  using assms
  by (simp add: processHostGroupTimer_def igmp_access attached_def sendReport_eq host_group_ok_def igmp_view_def)

text \<open>
  A host that is asked reports within the time it is given: its timer then runs, and ends by then,
  because it was started or because it was running; and no later than it would have.
\<close>

definition asked :: "simtime \<Rightarrow> simtime \<Rightarrow> HostGroupData \<Rightarrow> HostGroupData \<Rightarrow> bool" where
  "asked now m a b \<longleftrightarrow> hg_groupAddr b = hg_groupAddr a \<and> hg_flag b = hg_flag a
     \<and> hg_state b = IGMP_HGS_DELAYING_MEMBER
     \<and> (\<exists>t. hg_timer b = Timer_at t \<and> t \<le> now + m \<and> (now \<le> t \<or> hg_timer a = Timer_at t)
            \<and> (\<forall>t'. hg_timer a = Timer_at t' \<longrightarrow> t \<le> t'))"

definition maybe_asked :: "bool \<Rightarrow> simtime \<Rightarrow> simtime \<Rightarrow> HostGroupData option \<Rightarrow> HostGroupData option \<Rightarrow> bool" where
  "maybe_asked c now m x y \<longleftrightarrow>
     (case x of
        None \<Rightarrow> y = None
      | Some grp \<Rightarrow> \<exists>grp'. y = Some grp' \<and> (if c then asked now m grp grp' else grp' = grp))"

definition asked_about :: "(IPv4Address \<Rightarrow> bool) \<Rightarrow> simtime \<Rightarrow> simtime \<Rightarrow> HostInterfaceData \<Rightarrow> HostInterfaceData \<Rightarrow> bool" where
  "asked_about G now m a b \<longleftrightarrow> is_map b \<and> (\<forall>g. maybe_asked (G g) now m (map_of a g) (map_of b g))"

lemma maybe_asked_simps [simp]:
  "maybe_asked c now m None y \<longleftrightarrow> y = None"
  "maybe_asked True now m (Some grp) y \<longleftrightarrow> (\<exists>grp'. y = Some grp' \<and> asked now m grp grp')"
  "maybe_asked False now m x y \<longleftrightarrow> y = x"
  by (auto simp: maybe_asked_def split: option.splits)

lemma put_same: "is_map m \<Longrightarrow> map_of m k = Some v \<Longrightarrow> put k v m = m"
  by (rule is_map_eqI) (auto simp: is_map_put fun_eq_iff)

lemma group_query_view:
  assumes at: "attached i ie s" and h: "is_map (host_if (igmp_hostData s) i)"
    "map_of (host_if (igmp_hostData s) i) g = Some grp" "host_group_ok g grp" and m: "0 \<le> m"
  shows "\<exists>grp'. asked now (of_resp_code m) grp grp' \<and> gives (processGroupQuery now i grp m s)
    (igmp_par s, igmp_ift s, (host_if (igmp_hostData s))(i := put g grp' (host_if (igmp_hostData s) i)),
     router_if (igmp_routerData s), igmp_out s)"
proof -
  have p: "igmp_par_ok (igmp_par s)" "0 \<le> of_resp_code m" using at m by (simp_all add: attached_def of_resp_code_def)
  obtain t where t: "startHostTimer now grp (of_resp_code m) s = Inr (grp\<lparr>hg_timer := Timer_at t\<rparr>, s\<lparr>igmp_draws := igmp_draws s + 1\<rparr>)"
    "now \<le> t" "t \<le> now + of_resp_code m"
    using startHostTimer_eq[OF p] by blast
  consider a where "hg_state grp = IGMP_HGS_DELAYING_MEMBER" "hg_timer grp = Timer_at a" "a \<le> now + of_resp_code m"
    | a where "hg_state grp = IGMP_HGS_DELAYING_MEMBER" "hg_timer grp = Timer_at a" "now + of_resp_code m < a"
    | "hg_state grp = IGMP_HGS_IDLE_MEMBER"
    using h(3) by (cases "hg_timer grp") (auto simp: host_group_ok_def not_less dest: leI)
  then show ?thesis
  proof cases
    case 1
    then show ?thesis using put_same[OF h(1,2)]
      by (intro exI[of _ grp]) (simp add: asked_def processGroupQuery_def Let_def igmp_view_def)
  next
    case 2
    then show ?thesis using t h(3)
      by (intro exI[of _ "grp\<lparr>hg_timer := Timer_at t\<rparr>"])
        (simp add: asked_def processGroupQuery_def igmp_access igmp_view_def host_group_ok_def)
  next
    case 3
    then show ?thesis using t h(3)
      by (intro exI[of _ "grp\<lparr>hg_timer := Timer_at t, hg_state := IGMP_HGS_DELAYING_MEMBER\<rparr>"])
        (simp add: asked_def processGroupQuery_def igmp_access igmp_view_def host_group_ok_def)
  qed
qed

lemma asked_about_refl: "is_map a \<Longrightarrow> \<forall>g. G g \<longrightarrow> map_of a g = None \<Longrightarrow> asked_about G now m a a"
  unfolding asked_about_def by (metis maybe_asked_simps(1,3))

lemma asked_about_cong:
  assumes "asked_about G now m a b" "\<And>g. map_of a g \<noteq> None \<Longrightarrow> G g = H g"
  shows "asked_about H now m a b"
proof -
  have "maybe_asked (H g) now m (map_of a g) (map_of b g)" for g
    using assms by (cases "map_of a g") (auto simp: asked_about_def dest: spec[of _ g])
  then show ?thesis using assms(1) by (simp add: asked_about_def)
qed

lemma asked_about_put:
  assumes "is_map a" "map_of a g = Some grp" "asked now m grp grp'"
    and "asked_about G now m (put g grp' a) b" "\<not> G g"
  shows "asked_about (\<lambda>h. h = g \<or> G h) now m a b"
proof -
  have "maybe_asked (h = g \<or> G h) now m (map_of a h) (map_of b h)" for h
    using assms(2-5) by (cases "h = g") (auto simp: asked_about_def dest: spec[of _ h])
  then show ?thesis using assms(4) by (simp add: asked_about_def)
qed

text \<open>The loop over all groups of an interface.\<close>

lemma general_query_view:
  assumes "attached i ie s" "is_map (host_if (igmp_hostData s) i)" "0 \<le> m"
    and "distinct (map fst xs)"
    and "\<forall>(g, grp) \<in> set xs. map_of (host_if (igmp_hostData s) i) g = Some grp \<and> host_group_ok g grp"
  shows "\<exists>hs. asked_about (\<lambda>g. g \<in> fst ` set xs) now (of_resp_code m) (host_if (igmp_hostData s) i) hs
    \<and> gives (fold_res (\<lambda>(_, grp). processGroupQuery now i grp m) xs s)
      (igmp_par s, igmp_ift s, (host_if (igmp_hostData s))(i := hs), router_if (igmp_routerData s), igmp_out s)"
  using assms
proof (induction xs arbitrary: s)
  case Nil
  then show ?case
    by (intro exI[of _ "host_if (igmp_hostData s) i"]) (auto simp: asked_about_refl igmp_view_def)
next
  case (Cons x xs)
  obtain g grp where x: "x = (g, grp)" by (cases x)
  let ?h = "host_if (igmp_hostData s) i"
  have g: "map_of ?h g = Some grp" "host_group_ok g grp" "g \<notin> fst ` set xs" "distinct (map fst xs)"
    using Cons.prems(4,5) by (auto simp: x)
  obtain grp' s1 where 1: "asked now (of_resp_code m) grp grp'" "processGroupQuery now i grp m s = Inr s1"
    "igmp_view s1 = (igmp_par s, igmp_ift s, (host_if (igmp_hostData s))(i := put g grp' ?h),
       router_if (igmp_routerData s), igmp_out s)"
    using group_query_view[OF Cons.prems(1,2) g(1,2) Cons.prems(3), of now] by (auto simp: gives_def)
  have v: "igmp_par s1 = igmp_par s" "igmp_ift s1 = igmp_ift s" "igmp_out s1 = igmp_out s"
    "host_if (igmp_hostData s1) = (host_if (igmp_hostData s))(i := put g grp' ?h)"
    "router_if (igmp_routerData s1) = router_if (igmp_routerData s)"
    using 1(3) by (simp_all add: igmp_view_def)
  have "\<exists>hs. asked_about (\<lambda>g. g \<in> fst ` set xs) now (of_resp_code m) (host_if (igmp_hostData s1) i) hs
    \<and> gives (fold_res (\<lambda>(_, grp). processGroupQuery now i grp m) xs s1)
      (igmp_par s1, igmp_ift s1, (host_if (igmp_hostData s1))(i := hs), router_if (igmp_routerData s1), igmp_out s1)"
  proof (rule Cons.IH)
    show "attached i ie s1" using Cons.prems(1) by (simp add: attached_def v)
    show "is_map (host_if (igmp_hostData s1) i)" using Cons.prems(2) by (simp add: v is_map_put)
    show "\<forall>(g, grp) \<in> set xs. map_of (host_if (igmp_hostData s1) i) g = Some grp \<and> host_group_ok g grp"
      using Cons.prems(5) g(3) by (force simp: v x)
  qed (use Cons.prems(3) g(4) in simp_all)
  then obtain hs where 2: "asked_about (\<lambda>g. g \<in> fst ` set xs) now (of_resp_code m) (put g grp' ?h) hs"
    "gives (fold_res (\<lambda>(_, grp). processGroupQuery now i grp m) xs s1)
      (igmp_par s, igmp_ift s, (host_if (igmp_hostData s))(i := hs), router_if (igmp_routerData s), igmp_out s)"
    by (auto simp: v)
  have "asked_about (\<lambda>h. h \<in> fst ` set (x # xs)) now (of_resp_code m) ?h hs"
    using asked_about_put[OF Cons.prems(2) g(1) 1(1) 2(1) g(3)] by (simp add: x)
  then show ?case using 2(2)
    by (intro exI[of _ hs]) (simp only: x fold_res.simps prod.case 1(2) bind_res_Inr simp_thms)
qed

section \<open>What the router side does\<close>

definition query :: "int \<Rightarrow> IPv4Address \<Rightarrow> simtime \<Rightarrow> igmp_event" where
  "query i g m = IGMP_to_IP
     \<lparr>ig_type = IGMP_MEMBERSHIP_QUERY, ig_maxRespTime = resp_code m, ig_groupAddress = g\<rparr>
     (new_IPv4ControlInfo\<lparr>ci_protocol := IP_PROT_IGMP, ci_interfaceId := i, ci_timeToLive := 1,
        ci_destAddr := (if g = 0 then ALL_HOSTS_MCAST else g)\<rparr>)"

lemma sendQuery_view:
  assumes "if_multicast ie" "interfaceId ie = i" "g = 0 \<or> reportable g"
  shows "\<exists>s'. sendQuery ie g m s = Inr s' \<and> igmp_par s' = igmp_par s \<and> igmp_ift s' = igmp_ift s
    \<and> igmp_hostData s' = igmp_hostData s \<and> router_if (igmp_routerData s') = router_if (igmp_routerData s)
    \<and> igmp_out s' = igmp_out s @ (if igmpRouterState (router_if (igmp_routerData s) i) = IGMP_RS_QUERIER
         then [query i g m] else [])"
  using assms
  by (auto simp: sendQuery_def igmp_sendToIP_def igmp_access reportable_def query_def ip_isUnspecified_def)

text \<open>The effect of a query on the router part of an interface with address \<open>own\<close>.\<close>

definition heard_query :: "simtime \<Rightarrow> IGMP_par \<Rightarrow> IPv4Address \<Rightarrow> IPv4Address \<Rightarrow> IGMPMessage
    \<Rightarrow> RouterInterfaceData \<Rightarrow> RouterInterfaceData" where
  "heard_query now p own sender msg ri =
     (let ri = (if sender < own then ri\<lparr>igmpQueryTimer := Timer_at (now + otherQuerierPresentInterval p),
                  igmpRouterState := IGMP_RS_NON_QUERIER\<rparr> else ri)
      in if ig_groupAddress msg \<noteq> 0 \<and> igmpRouterState ri = IGMP_RS_NON_QUERIER then
           (case map_of (ri_groups ri) (ig_groupAddress msg) of
              Some grp \<Rightarrow>
                if rg_state grp = IGMP_RGS_MEMBERS_PRESENT then
                  ri\<lparr>ri_groups := put (ig_groupAddress msg)
                       (grp\<lparr>rg_timer := Timer_at (now + of_resp_code (ig_maxRespTime msg) * lastMemberQueryCount p),
                            rg_state := IGMP_RGS_CHECKING_MEMBERSHIP\<rparr>) (ri_groups ri)\<rparr>
                else ri
            | None \<Rightarrow> ri)
         else ri)"

text \<open>The query that the code cannot handle: it is for a group that a router, not the querier, does not know.\<close>

definition fatal_query :: "IPv4Address \<Rightarrow> IPv4Address \<Rightarrow> IGMPMessage \<Rightarrow> RouterInterfaceData \<Rightarrow> bool" where
  "fatal_query own sender msg ri \<longleftrightarrow> ig_groupAddress msg \<noteq> 0
     \<and> (sender < own \<or> igmpRouterState ri = IGMP_RS_NON_QUERIER) \<and> map_of (ri_groups ri) (ig_groupAddress msg) = None"

definition about :: "IGMPMessage \<Rightarrow> IPv4Address \<Rightarrow> bool" where
  "about msg g \<longleftrightarrow> ig_groupAddress msg = 0 \<or> g = ig_groupAddress msg"

lemma query_hosts_view:
  assumes "attached i ie s" "is_map (host_if (igmp_hostData s) i)" "0 \<le> ig_maxRespTime msg"
    and "\<forall>g grp. map_of (host_if (igmp_hostData s) i) g = Some grp \<longrightarrow> host_group_ok g grp"
  shows "\<exists>hs. asked_about (about msg) now (of_resp_code (ig_maxRespTime msg)) (host_if (igmp_hostData s) i) hs
    \<and> gives (query_hosts now i msg s)
      (igmp_par s, igmp_ift s, (host_if (igmp_hostData s))(i := hs), router_if (igmp_routerData s), igmp_out s)"
proof (cases "ig_groupAddress msg = 0")
  case True
  let ?h = "host_if (igmp_hostData s) i"
  let ?s = "s\<lparr>igmp_hostData := touch_host i (igmp_hostData s), numQueriesRecv := numQueriesRecv s + 1,
    numGeneralQueriesRecv := numGeneralQueriesRecv s + 1\<rparr>"
  have d: "distinct (map fst ?h)" using assms(2) strict_sorted_iff by (auto simp: is_map_def)
  have "\<forall>(g, grp) \<in> set ?h. map_of (host_if (igmp_hostData ?s) i) g = Some grp \<and> host_group_ok g grp"
    using assms(4) d by auto
  then obtain hs where "asked_about (\<lambda>g. g \<in> fst ` set ?h) now (of_resp_code (ig_maxRespTime msg)) ?h hs"
    "gives (fold_res (\<lambda>(_, grp). processGroupQuery now i grp (ig_maxRespTime msg)) ?h ?s)
      (igmp_par s, igmp_ift s, (host_if (igmp_hostData s))(i := hs), router_if (igmp_routerData s), igmp_out s)"
    using general_query_view[of i ie ?s "ig_maxRespTime msg" ?h now] assms(1-3) d by (auto simp: attached_def)
  moreover have "asked_about (about msg) now (of_resp_code (ig_maxRespTime msg)) ?h hs"
    by (rule asked_about_cong[OF calculation(1)]) (use True in \<open>simp add: about_def map_of_eq_None_iff\<close>)
  ultimately show ?thesis using True by (auto simp: query_hosts_def igmp_access ip_isUnspecified_def)
next
  case False
  let ?h = "host_if (igmp_hostData s) i" and ?g = "ig_groupAddress msg"
  let ?s = "s\<lparr>igmp_hostData := touch_host i (igmp_hostData s), numQueriesRecv := numQueriesRecv s + 1,
    numGroupSpecificQueriesRecv := numGroupSpecificQueriesRecv s + 1\<rparr>"
  show ?thesis
  proof (cases "map_of ?h ?g")
    case None
    then show ?thesis using assms(2) False
      by (intro exI[of _ ?h])
        (simp add: query_hosts_def igmp_access ip_isUnspecified_def igmp_view_def asked_about_refl about_def)
  next
    case (Some grp)
    then obtain grp' where g: "asked now (of_resp_code (ig_maxRespTime msg)) grp grp'"
      "gives (processGroupQuery now i grp (ig_maxRespTime msg) ?s)
        (igmp_par s, igmp_ift s, (host_if (igmp_hostData s))(i := put ?g grp' ?h), router_if (igmp_routerData s), igmp_out s)"
      using group_query_view[of i ie ?s ?g grp "ig_maxRespTime msg" now] assms by (auto simp: attached_def)
    have "asked_about (about msg) now (of_resp_code (ig_maxRespTime msg)) ?h (put ?g grp' ?h)"
      using g(1) assms(2) Some False by (auto simp: asked_about_def about_def is_map_put)
    then show ?thesis using g(2) Some False
      by (auto simp: query_hosts_def igmp_access ip_isUnspecified_def)
  qed
qed

lemma igmp_ok_iface:
  assumes "igmp_ok s" "getInterfaceById i (igmp_ift s) = Some ie" "if_multicast ie"
  obtains d where "ipv4data ie = Some d" "host_ok d" "host_part_ok d (host_if (igmp_hostData s) i)"
    "router_part_ok (igmp_par s) d (router_if (igmp_routerData s) i)"
  using igmp_okD(3)[OF assms(1,2)] assms(3) by (auto simp: iface_ok_def)

lemma query_router_view:
  assumes at: "attached i ie s" and d: "ipv4data ie = Some d" "router_part_ok (igmp_par s) d' (router_if (igmp_routerData s) i)"
    and q: "querying (igmp_par s)" "0 \<le> ig_maxRespTime msg"
    and nf: "\<not> fatal_query (inetAddr d) sender msg (router_if (igmp_routerData s) i)"
  shows "gives (query_router now ie sender msg s) (igmp_par s, igmp_ift s, host_if (igmp_hostData s),
    (router_if (igmp_routerData s))(i :=
      heard_query now (igmp_par s) (inetAddr d) sender msg (router_if (igmp_routerData s) i)), igmp_out s)"
proof -
  let ?ri = "router_if (igmp_routerData s) i"
  have p: "igmp_par_ok (igmp_par s)" "interfaceId ie = i" using at by (simp_all add: attached_def)
  have t: "igmpQueryTimer ?ri \<noteq> Timer_null" "0 \<le> otherQuerierPresentInterval (igmp_par s)"
    "0 \<le> of_resp_code (ig_maxRespTime msg) * lastMemberQueryCount (igmp_par s)"
    and g: "\<And>g grp. map_of (ri_groups ?ri) g = Some grp \<Longrightarrow> rg_timer grp \<noteq> Timer_null \<and> rg_groupAddr grp = g"
    using d(2) q p(1) pending_not_null
    by (auto simp: router_part_ok_def igmp_par_ok_def of_resp_code_def router_group_ok_def)
  show ?thesis
    using nf t g p(2) d(1)
    by (auto simp: query_router_def igmp_access heard_query_def fatal_query_def igmp_view_def ip_isUnspecified_def
        split: option.splits)
qed

lemma query_view:
  assumes ok: "igmp_ok s" and ie: "getInterfaceById i (igmp_ift s) = Some ie" "if_multicast ie" "ipv4data ie = Some d"
    and m: "0 \<le> ig_maxRespTime msg"
    and nf: "querying (igmp_par s) \<Longrightarrow> \<not> fatal_query (inetAddr d) sender msg (router_if (igmp_routerData s) i)"
  shows "\<exists>hs. asked_about (about msg) now (of_resp_code (ig_maxRespTime msg)) (host_if (igmp_hostData s) i) hs
    \<and> gives (processQuery now ie sender msg s) (igmp_par s, igmp_ift s, (host_if (igmp_hostData s))(i := hs),
        (router_if (igmp_routerData s))(i := if querying (igmp_par s)
          then heard_query now (igmp_par s) (inetAddr d) sender msg (router_if (igmp_routerData s) i)
          else router_if (igmp_routerData s) i),
        igmp_out s @ (if igmp_forwarding (igmp_par s) \<and> externalRouter (igmp_par s) then [IGMP_to_router msg] else []))"
proof -
  have at: "attached i ie s" by (rule attachedI[OF ok ie(1,2)])
  have p: "interfaceId ie = i" using at by (simp add: attached_def)
  obtain d' where d': "host_part_ok d' (host_if (igmp_hostData s) i)"
    "router_part_ok (igmp_par s) d' (router_if (igmp_routerData s) i)" using igmp_ok_iface[OF ok ie(1,2)] by blast
  obtain hs s2 where h: "asked_about (about msg) now (of_resp_code (ig_maxRespTime msg)) (host_if (igmp_hostData s) i) hs"
    "query_hosts now i msg s = Inr s2"
    "igmp_view s2 = (igmp_par s, igmp_ift s, (host_if (igmp_hostData s))(i := hs), router_if (igmp_routerData s), igmp_out s)"
    using query_hosts_view[OF at _ m, of now] d'(1) unfolding gives_def by (auto simp: host_part_ok_def)
  have v: "igmp_par s2 = igmp_par s" "igmp_ift s2 = igmp_ift s" "igmp_out s2 = igmp_out s"
    "host_if (igmp_hostData s2) = (host_if (igmp_hostData s))(i := hs)"
    "router_if (igmp_routerData s2) = router_if (igmp_routerData s)"
    using h(3) by (simp_all add: igmp_view_def)
  show ?thesis
  proof (cases "querying (igmp_par s)")
    case False
    then show ?thesis using h(1) ie(2)
      by (intro exI[of _ hs]) (auto simp: processQuery_def p h(2,3) querying_def igmp_view_def igmp_emit_def v)
  next
    case True
    have "attached i ie s2" using at by (simp add: attached_def v)
    then have "gives (query_router now ie sender msg s2) (igmp_par s, igmp_ift s, (host_if (igmp_hostData s))(i := hs),
        (router_if (igmp_routerData s))(i := heard_query now (igmp_par s) (inetAddr d) sender msg
          (router_if (igmp_routerData s) i)), igmp_out s)"
      using query_router_view[of i ie s2 d d' msg sender now] ie(3) d'(2) True m nf by (simp add: v)
    then show ?thesis using h(1) True ie(2)
      by (intro exI[of _ hs]) (simp add: processQuery_def p h(2) v querying_def)
  qed
qed

text \<open>A query that is fatal: the router looks for a group and does not find it.\<close>

lemma query_crash:
  assumes ok: "igmp_ok s" and ie: "getInterfaceById i (igmp_ift s) = Some ie" "if_multicast ie" "ipv4data ie = Some d"
    and m: "0 \<le> ig_maxRespTime msg" and q: "querying (igmp_par s)"
    and f: "fatal_query (inetAddr d) sender msg (router_if (igmp_routerData s) i)"
  shows "processQuery now ie sender msg s = Inl Undefined_behaviour"
proof -
  have at: "attached i ie s" by (rule attachedI[OF ok ie(1,2)])
  have p: "interfaceId ie = i" "0 \<le> otherQuerierPresentInterval (igmp_par s)"
    using at by (simp_all add: attached_def igmp_par_ok_def)
  obtain d' where d': "host_part_ok d' (host_if (igmp_hostData s) i)"
    "router_part_ok (igmp_par s) d' (router_if (igmp_routerData s) i)" using igmp_ok_iface[OF ok ie(1,2)] by blast
  obtain hs s2 where h: "query_hosts now i msg s = Inr s2"
    "igmp_view s2 = (igmp_par s, igmp_ift s, (host_if (igmp_hostData s))(i := hs), router_if (igmp_routerData s), igmp_out s)"
    using query_hosts_view[OF at _ m, of now] d'(1) unfolding gives_def by (auto simp: host_part_ok_def)
  have v: "igmp_par s2 = igmp_par s" "router_if (igmp_routerData s2) = router_if (igmp_routerData s)"
    using h(2) by (simp_all add: igmp_view_def)
  have t: "igmpQueryTimer (router_if (igmp_routerData s) i) \<noteq> Timer_null"
    using d'(2) q pending_not_null by (auto simp: router_part_ok_def)
  then have "query_router now ie sender msg s2 = Inl Undefined_behaviour"
    using f p ie(3) by (auto simp: query_router_def igmp_access v fatal_query_def ip_isUnspecified_def)
  then show ?thesis using h(1) p(1) ie(2) q v(1) by (simp add: processQuery_def querying_def)
qed

text \<open>A member that hears the report of another one need not report any more.\<close>

definition heard_report :: "IPv4Address \<Rightarrow> HostInterfaceData \<Rightarrow> HostInterfaceData" where
  "heard_report g data =
     (case map_of data g of
        None \<Rightarrow> data
      | Some grp \<Rightarrow>
          if hg_state grp = IGMP_HGS_DELAYING_MEMBER then
            put g (grp\<lparr>hg_timer := Timer_idle, hg_flag := False, hg_state := IGMP_HGS_IDLE_MEMBER\<rparr>) data
          else data)"

text \<open>A group that a router knows to have members until a time.\<close>

definition present :: "simtime \<Rightarrow> IPv4Address \<Rightarrow> RouterGroupData" where
  "present t g = \<lparr>rg_groupAddr = g, rg_state = IGMP_RGS_MEMBERS_PRESENT, rg_timer = Timer_at t, rg_rexmtTimer = Timer_idle\<rparr>"

definition listen :: "IPv4Address \<Rightarrow> IPv4InterfaceData \<Rightarrow> IPv4InterfaceData" where
  "listen g d =
     (if hasMulticastListener g d then d
      else d\<lparr>routerData := Some ((getRouterData d)\<lparr>reportedMulticastGroups := reportedMulticastGroups (getRouterData d) @ [g]\<rparr>)\<rparr>)"

definition registered :: "int \<Rightarrow> IPv4Address \<Rightarrow> igmp_event list" where
  "registered i g = [IGMP_if_event i (NF_INTERFACE_IPv4CONFIG_CHANGED F_MULTICAST_LISTENERS), NF_IPv4_MCAST_REGISTERED i g]"

lemma report_hosts_view:
  assumes "\<forall>g grp. map_of (host_if (igmp_hostData s) i) g = Some grp \<longrightarrow> host_group_ok g grp"
  shows "gives (report_hosts i msg s) (igmp_par s, igmp_ift s,
    (host_if (igmp_hostData s))(i := heard_report (ig_groupAddress msg) (host_if (igmp_hostData s) i)),
    router_if (igmp_routerData s), igmp_out s)"
proof (cases "map_of (host_if (igmp_hostData s) i) (ig_groupAddress msg)")
  case None
  then show ?thesis by (simp add: report_hosts_def igmp_access heard_report_def igmp_view_def)
next
  case (Some grp)
  then have "host_group_ok (ig_groupAddress msg) grp" using assms by blast
  then show ?thesis using Some pending_not_null
    by (auto simp: report_hosts_def igmp_access heard_report_def igmp_view_def host_group_ok_def)
qed

lemma report_router_view:
  assumes at: "attached i ie s" and d: "ipv4data ie = Some d" "router_part_ok (igmp_par s) d (router_if (igmp_routerData s) i)"
    and g: "ig_groupAddress msg = g" "reportable g"
    and ri: "ri = router_if (igmp_routerData s) i"
  shows "gives (report_router now ie msg s) (igmp_par s,
    if hasMulticastListener g d then igmp_ift s else set_interface (ie\<lparr>ipv4data := Some (listen g d)\<rparr>) (igmp_ift s),
    host_if (igmp_hostData s),
    (router_if (igmp_routerData s))(i := ri\<lparr>ri_groups := put g (present (now + groupMembershipInterval (igmp_par s)) g) (ri_groups ri)\<rparr>),
    igmp_out s @ (if hasMulticastListener g d then [] else registered i g))"
proof -
  have p: "interfaceId ie = i" "0 \<le> groupMembershipInterval (igmp_par s)"
    using at by (simp_all add: attached_def igmp_par_ok_def)
  show ?thesis
  proof (cases "map_of (ri_groups ri) g")
    case None
    then have "\<not> hasMulticastListener g d" using d(2) ri by (simp add: router_part_ok_def)
    then show ?thesis using None g p d(1)
      by (simp add: report_router_def igmp_access ri reportable_def addMulticastListener_def listen_def
          registered_def present_def igmp_view_def)
  next
    case (Some grp)
    then have ok: "router_group_ok g grp" "hasMulticastListener g d" using d(2) ri by (simp_all add: router_part_ok_def)
    then show ?thesis using Some g(1) p pending_not_null[of "rg_timer grp"]
      by (cases grp) (auto simp: report_router_def igmp_access ri present_def igmp_view_def router_group_ok_def)
  qed
qed

lemma report_view:
  assumes ok: "igmp_ok s" and ie: "getInterfaceById i (igmp_ift s) = Some ie" "if_multicast ie" "ipv4data ie = Some d"
    and g: "ig_groupAddress msg = g" "reportable g"
    and ri: "ri = router_if (igmp_routerData s) i"
  shows "gives (processV2Report now ie msg s) (igmp_par s,
    if querying (igmp_par s) \<and> \<not> hasMulticastListener g d
    then set_interface (ie\<lparr>ipv4data := Some (listen g d)\<rparr>) (igmp_ift s) else igmp_ift s,
    (host_if (igmp_hostData s))(i := heard_report g (host_if (igmp_hostData s) i)),
    (router_if (igmp_routerData s))(i := if querying (igmp_par s)
      then ri\<lparr>ri_groups := put g (present (now + groupMembershipInterval (igmp_par s)) g) (ri_groups ri)\<rparr> else ri),
    igmp_out s @ (if querying (igmp_par s) then if hasMulticastListener g d then [] else registered i g
      else if igmp_forwarding (igmp_par s) then [IGMP_to_router msg] else []))"
proof -
  have at: "attached i ie s" by (rule attachedI[OF ok ie(1,2)])
  have p: "interfaceId ie = i" using at by (simp add: attached_def)
  have d': "host_part_ok d (host_if (igmp_hostData s) i)" "router_part_ok (igmp_par s) d (router_if (igmp_routerData s) i)"
    using igmp_ok_iface[OF ok ie(1,2)] ie(3) by (metis option.inject)+
  obtain s2 where h: "report_hosts i msg s = Inr s2"
    "igmp_view s2 = (igmp_par s, igmp_ift s, (host_if (igmp_hostData s))(i := heard_report g (host_if (igmp_hostData s) i)),
       router_if (igmp_routerData s), igmp_out s)"
    using report_hosts_view[of s i msg] d'(1) g(1) unfolding gives_def by (auto simp: host_part_ok_def)
  have v: "igmp_par s2 = igmp_par s" "igmp_ift s2 = igmp_ift s" "igmp_out s2 = igmp_out s"
    "host_if (igmp_hostData s2) = (host_if (igmp_hostData s))(i := heard_report g (host_if (igmp_hostData s) i))"
    "router_if (igmp_routerData s2) = router_if (igmp_routerData s)"
    using h(2) by (simp_all add: igmp_view_def)
  show ?thesis
  proof (cases "querying (igmp_par s)")
    case False
    then show ?thesis using ie(2)
      by (auto simp: processV2Report_def p h querying_def igmp_view_def igmp_emit_def v ri)
  next
    case True
    have "attached i ie s2" using at by (simp add: attached_def v)
    then show ?thesis using report_router_view[of i ie s2 d msg g ri now] ie(2,3) d'(2) g ri True
      by (cases "hasMulticastListener g d") (simp_all add: v processV2Report_def p h(1) querying_def)
  qed
qed

definition heard_leave :: "simtime \<Rightarrow> IGMP_par \<Rightarrow> IPv4Address \<Rightarrow> RouterInterfaceData \<Rightarrow> RouterInterfaceData" where
  "heard_leave now p g ri =
     (case map_of (ri_groups ri) g of
        Some grp \<Rightarrow>
          if rg_state grp = IGMP_RGS_MEMBERS_PRESENT \<and> igmpRouterState ri = IGMP_RS_QUERIER then
            ri\<lparr>ri_groups := put g \<lparr>rg_groupAddr = g, rg_state = IGMP_RGS_CHECKING_MEMBERSHIP,
                 rg_timer = Timer_at (now + lastMemberQueryInterval p * lastMemberQueryCount p),
                 rg_rexmtTimer = Timer_at (now + lastMemberQueryInterval p)\<rparr> (ri_groups ri)\<rparr>
          else ri
      | None \<Rightarrow> ri)"

definition checks :: "IPv4Address \<Rightarrow> RouterInterfaceData \<Rightarrow> bool" where
  "checks g ri \<longleftrightarrow> igmpRouterState ri = IGMP_RS_QUERIER
     \<and> (\<exists>grp. map_of (ri_groups ri) g = Some grp \<and> rg_state grp = IGMP_RGS_MEMBERS_PRESENT)"

lemma leave_view:
  assumes ok: "igmp_ok s" and ie: "getInterfaceById i (igmp_ift s) = Some ie" "if_multicast ie"
    and g: "ig_groupAddress msg = g" "reportable g"
    and ri: "ri = router_if (igmp_routerData s) i"
  shows "gives (processLeave now ie msg s) (igmp_par s, igmp_ift s, host_if (igmp_hostData s),
    (router_if (igmp_routerData s))(i := if querying (igmp_par s) then heard_leave now (igmp_par s) g ri else ri),
    igmp_out s @ (if querying (igmp_par s)
      then if checks g ri then [query i g (lastMemberQueryInterval (igmp_par s))] else []
      else if igmp_forwarding (igmp_par s) then [IGMP_to_router msg] else []))"
proof -
  have at: "attached i ie s" by (rule attachedI[OF ok ie(1,2)])
  have p: "interfaceId ie = i" "0 \<le> lastMemberQueryInterval (igmp_par s)"
    "0 \<le> lastMemberQueryInterval (igmp_par s) * lastMemberQueryCount (igmp_par s)"
    using at by (simp_all add: attached_def igmp_par_ok_def)
  obtain d where "router_part_ok (igmp_par s) d ri" using igmp_ok_iface[OF ok ie(1,2)] ri by blast
  then have r: "router_group_ok g grp" if "map_of (ri_groups ri) g = Some grp" for grp
    using that by (simp add: router_part_ok_def)
  show ?thesis
  proof (cases "querying (igmp_par s) \<and> checks g ri")
    case False
    then show ?thesis using ie(2) g(1)
      by (auto simp: processLeave_def igmp_access p(1) querying_def checks_def heard_leave_def igmp_view_def ri
          split: option.splits)
  next
    case True
    then obtain grp where c: "igmp_forwarding (igmp_par s)" "\<not> externalRouter (igmp_par s)"
      "igmpRouterState ri = IGMP_RS_QUERIER" "map_of (ri_groups ri) g = Some grp" "rg_state grp = IGMP_RGS_MEMBERS_PRESENT"
      by (auto simp: querying_def checks_def)
    have t: "rg_timer grp \<noteq> Timer_null" "rg_rexmtTimer grp \<noteq> Timer_null" "rg_groupAddr grp = g"
      using r[OF c(4)] by (auto simp: router_group_ok_def)
    let ?grp = "grp\<lparr>rg_timer := Timer_at (now + lastMemberQueryInterval (igmp_par s) * lastMemberQueryCount (igmp_par s)),
      rg_rexmtTimer := Timer_at (now + lastMemberQueryInterval (igmp_par s))\<rparr>"
    let ?s1 = "put_router_group i ?grp (s\<lparr>numLeavesRecv := numLeavesRecv s + 1,
      igmp_routerData := touch_router i (igmp_routerData s)\<rparr>)"
    obtain s2 where s2: "sendQuery ie g (lastMemberQueryInterval (igmp_par s)) ?s1 = Inr s2"
      "igmp_par s2 = igmp_par s" "igmp_ift s2 = igmp_ift s" "igmp_hostData s2 = igmp_hostData s"
      "router_if (igmp_routerData s2) = (router_if (igmp_routerData s))(i := ri\<lparr>ri_groups := put g ?grp (ri_groups ri)\<rparr>)"
      "igmp_out s2 = igmp_out s @ [query i g (lastMemberQueryInterval (igmp_par s))]"
      using sendQuery_view[OF ie(2) p(1), of g "lastMemberQueryInterval (igmp_par s)" ?s1] g(2) c(3) ri t(3)
      by (auto simp: igmp_access)
    have "processLeave now ie msg s = Inr (put_router_group i (?grp\<lparr>rg_state := IGMP_RGS_CHECKING_MEMBERSHIP\<rparr>) s2)"
      using ie(2) g(1) c t p s2(1) ri by (simp add: processLeave_def getRouterInterfaceData_eq Let_def)
    then show ?thesis using s2(2-) c True t(3)
      by (cases grp) (simp add: igmp_view_def igmp_access heard_leave_def)
  qed
qed

lemma query_timer_view:
  assumes at: "attached i ie s" and ri: "ri = router_if (igmp_routerData s) i" "igmpRouterState ri \<noteq> IGMP_RS_INITIAL"
  shows "gives (processQueryTimer now i s) (igmp_par s, igmp_ift s, host_if (igmp_hostData s),
    (router_if (igmp_routerData s))(i := ri\<lparr>igmpRouterState := IGMP_RS_QUERIER,
       igmpQueryTimer := Timer_at (now + queryInterval (igmp_par s))\<rparr>),
    igmp_out s @ [query i 0 (queryResponseInterval (igmp_par s))])"
proof -
  have p: "interfaceId ie = i" "if_multicast ie" "getInterfaceById i (igmp_ift s) = Some ie" "0 \<le> queryInterval (igmp_par s)"
    using at by (simp_all add: attached_def igmp_par_ok_def)
  have st: "igmpRouterState ri = IGMP_RS_QUERIER \<or> igmpRouterState ri = IGMP_RS_NON_QUERIER"
    using ri(2) by (cases "igmpRouterState ri") simp_all
  let ?s1 = "put_router_data i (ri\<lparr>igmpQueryTimer := Timer_idle, igmpRouterState := IGMP_RS_QUERIER\<rparr>)
    (put_router_data i (ri\<lparr>igmpQueryTimer := Timer_idle\<rparr>) (s\<lparr>igmp_routerData := touch_router i (igmp_routerData s)\<rparr>))"
  obtain s2 where s2: "sendQuery ie 0 (queryResponseInterval (igmp_par s)) ?s1 = Inr s2" "igmp_par s2 = igmp_par s"
    "igmp_ift s2 = igmp_ift s" "igmp_hostData s2 = igmp_hostData s"
    "router_if (igmp_routerData s2) = (router_if (igmp_routerData s))(i := ri\<lparr>igmpQueryTimer := Timer_idle,
       igmpRouterState := IGMP_RS_QUERIER\<rparr>)"
    "igmp_out s2 = igmp_out s @ [query i 0 (queryResponseInterval (igmp_par s))]"
    using sendQuery_view[OF p(2,1), of 0 "queryResponseInterval (igmp_par s)" ?s1] by (auto simp: put_router_data_def)
  have "processQueryTimer now i s = Inr (put_router_data i
      (ri\<lparr>igmpRouterState := IGMP_RS_QUERIER, igmpQueryTimer := Timer_at (now + queryInterval (igmp_par s))\<rparr>)
      (s2\<lparr>igmp_routerData := touch_router i (igmp_routerData s2)\<rparr>))"
    using p st s2 ri(1)
    by (auto simp: processQueryTimer_def igmp_interface_def getRouterInterfaceData_eq Let_def put_router_data_def)
  then show ?thesis using s2(2-) by (simp add: igmp_view_def put_router_data_def)
qed

lemma rexmt_timer_view:
  assumes at: "attached i ie s" and ri: "ri = router_if (igmp_routerData s) i" "map_of (ri_groups ri) g = Some grp"
    and g: "router_group_ok g grp"
  shows "gives (processRexmtTimer now i g s) (igmp_par s, igmp_ift s, host_if (igmp_hostData s),
    (router_if (igmp_routerData s))(i := ri\<lparr>ri_groups := put g (grp\<lparr>rg_rexmtTimer := Timer_at (now +
       lastMemberQueryInterval (igmp_par s)), rg_state := IGMP_RGS_CHECKING_MEMBERSHIP\<rparr>) (ri_groups ri)\<rparr>),
    igmp_out s @ (if igmpRouterState ri = IGMP_RS_QUERIER then [query i g (lastMemberQueryInterval (igmp_par s))] else []))"
proof -
  have p: "interfaceId ie = i" "if_multicast ie" "getInterfaceById i (igmp_ift s) = Some ie"
    "0 \<le> lastMemberQueryInterval (igmp_par s)"
    using at by (simp_all add: attached_def igmp_par_ok_def)
  let ?s1 = "s\<lparr>igmp_routerData := touch_router i (igmp_routerData s)\<rparr>"
  obtain s2 where s2: "sendQuery ie g (lastMemberQueryInterval (igmp_par s)) ?s1 = Inr s2" "igmp_par s2 = igmp_par s"
    "igmp_ift s2 = igmp_ift s" "igmp_hostData s2 = igmp_hostData s"
    "router_if (igmp_routerData s2) = router_if (igmp_routerData s)"
    "igmp_out s2 = igmp_out s @ (if igmpRouterState ri = IGMP_RS_QUERIER then [query i g (lastMemberQueryInterval (igmp_par s))] else [])"
    using sendQuery_view[OF p(2,1), of g "lastMemberQueryInterval (igmp_par s)" ?s1] g ri(1)
    by (auto simp: router_group_ok_def)
  have "processRexmtTimer now i g s = Inr (put_router_group i (grp\<lparr>rg_rexmtTimer := Timer_at (now +
      lastMemberQueryInterval (igmp_par s)), rg_state := IGMP_RGS_CHECKING_MEMBERSHIP\<rparr>) s2)"
    using p s2(1,2) ri g by (simp add: processRexmtTimer_def igmp_interface_def getRouterGroupData_def
        getRouterInterfaceData_eq Let_def router_group_ok_def)
  then show ?thesis using s2(2-) ri g by (simp add: igmp_view_def igmp_access router_group_ok_def)
qed

text \<open>A group that nobody reports any more.\<close>

definition unlisten :: "IPv4Address \<Rightarrow> IPv4InterfaceData \<Rightarrow> IPv4InterfaceData" where
  "unlisten g d = d\<lparr>routerData := Some ((getRouterData d)\<lparr>reportedMulticastGroups :=
     remove1 g (reportedMulticastGroups (getRouterData d))\<rparr>)\<rparr>"

definition unregistered :: "int \<Rightarrow> IPv4Address \<Rightarrow> igmp_event list" where
  "unregistered i g = [IGMP_if_event i (NF_INTERFACE_IPv4CONFIG_CHANGED F_MULTICAST_LISTENERS), NF_IPv4_MCAST_UNREGISTERED i g]"

lemma leave_timer_view:
  assumes at: "attached i ie s" "ipv4data ie = Some d" "hasMulticastListener g d"
    and ri: "ri = router_if (igmp_routerData s) i" "map_of (ri_groups ri) g = Some grp"
    and g: "router_group_ok g grp"
  shows "gives (processLeaveTimer i g s) (igmp_par s, set_interface (ie\<lparr>ipv4data := Some (unlisten g d)\<rparr>) (igmp_ift s),
    host_if (igmp_hostData s), (router_if (igmp_routerData s))(i := ri\<lparr>ri_groups := erase g (ri_groups ri)\<rparr>),
    igmp_out s @ unregistered i g)"
  using assms
  by (auto simp: processLeaveTimer_def igmp_access attached_def removeMulticastListener_def hasMulticastListener_def
      router_group_ok_def igmp_view_def unlisten_def unregistered_def)

lemma configure_view:
  assumes ie: "interfaceId ie = i" "if_multicast ie" and p: "igmp_par_ok (igmp_par s)" "querying (igmp_par s)"
    and ri: "ri = router_if (igmp_routerData s) i"
  shows "gives (configureInterface now ie s) (igmp_par s, igmp_ift s, host_if (igmp_hostData s),
    (router_if (igmp_routerData s))(i := ri\<lparr>igmpRouterState := IGMP_RS_QUERIER,
       igmpQueryTimer := Timer_at (now + startupQueryInterval (igmp_par s))\<rparr>),
    igmp_out s @ [query i 0 (queryResponseInterval (igmp_par s))])"
proof -
  have q: "igmp_enabled (igmp_par s)" "igmp_forwarding (igmp_par s)" "\<not> externalRouter (igmp_par s)"
    "0 \<le> startupQueryInterval (igmp_par s)" using p by (simp_all add: querying_def igmp_par_ok_def)
  let ?s1 = "put_router_data i (ri\<lparr>igmpQueryTimer := Timer_idle, igmpRouterState := IGMP_RS_QUERIER\<rparr>)
    (s\<lparr>igmp_routerData := touch_router i (igmp_routerData s)\<rparr>)"
  obtain s2 where s2: "sendQuery ie 0 (queryResponseInterval (igmp_par s)) ?s1 = Inr s2" "igmp_par s2 = igmp_par s"
    "igmp_ift s2 = igmp_ift s" "igmp_hostData s2 = igmp_hostData s"
    "router_if (igmp_routerData s2) = (router_if (igmp_routerData s))(i := ri\<lparr>igmpQueryTimer := Timer_idle,
       igmpRouterState := IGMP_RS_QUERIER\<rparr>)"
    "igmp_out s2 = igmp_out s @ [query i 0 (queryResponseInterval (igmp_par s))]"
    using sendQuery_view[OF ie(2,1), of 0 "queryResponseInterval (igmp_par s)" ?s1] by (auto simp: put_router_data_def)
  have "configureInterface now ie s = Inr (put_router_data i
      (ri\<lparr>igmpRouterState := IGMP_RS_QUERIER, igmpQueryTimer := Timer_at (now + startupQueryInterval (igmp_par s))\<rparr>)
      (s2\<lparr>igmp_routerData := touch_router i (igmp_routerData s2)\<rparr>))"
    using ie q s2 ri
    by (auto simp: configureInterface_def getRouterInterfaceData_eq Let_def put_router_data_def)
  then show ?thesis using s2(2-) by (simp add: igmp_view_def put_router_data_def)
qed

end
