(* ===== verification/IGMP_Node.thy ===== *)
theory IGMP_Node
  imports IGMP_Laws
begin

text \<open>
  IGMP on one node, with the interfaces whose groups it follows: an application that joins or leaves a
  group changes the reference counts of the interface (\<^verbatim>\<open>IPv4InterfaceData\<close>), and the first join
  and the last leave are announced to the module. The theory shows that what the module knows always
  agrees with the interfaces, and which single message its handlers cannot survive.
\<close>

section \<open>Joining and leaving\<close>

text \<open>What the interface announces reaches the module through the notification board.\<close>

definition igmp_notified :: "simtime \<Rightarrow> int \<Rightarrow> if_event \<Rightarrow> IGMP \<Rightarrow> IGMP res" where
  "igmp_notified now i ev s =
     (case ev of
        NF_IPv4_MCAST_JOIN g \<Rightarrow> igmp_receiveChangeNotification now (IGMP_joined i g) s
      | NF_IPv4_MCAST_LEAVE g \<Rightarrow> igmp_receiveChangeNotification now (IGMP_left i g) s
      | NF_INTERFACE_IPv4CONFIG_CHANGED _ \<Rightarrow> Inr s)"

definition change_membership :: "simtime \<Rightarrow> int \<Rightarrow> mcast_op \<Rightarrow> IGMP \<Rightarrow> IGMP res" where
  "change_membership now i x s =
     bind_res (igmp_interface i s) (\<lambda>ie.
     bind_res (deref (ipv4data ie)) (\<lambda>d.
     bind_res (mcast_step x d) (\<lambda>(evs, d').
       fold_res (igmp_notified now i) evs
         (s\<lparr>igmp_ift := set_interface (ie\<lparr>ipv4data := Some d'\<rparr>) (igmp_ift s)\<rparr>))))"

text \<open>The part of the data of an interface that groups do not touch.\<close>

lemma join_keeps: "joinMulticastGroup g d = Inr (evs, d') \<Longrightarrow>
    getRouterData d' = getRouterData d \<and> inetAddr d' = inetAddr d"
  by (auto simp: joinMulticastGroup_def Let_def getRouterData_def split: if_splits option.splits)

lemma leave_keeps: "leaveMulticastGroup g d = Inr (evs, d') \<Longrightarrow>
    getRouterData d' = getRouterData d \<and> inetAddr d' = inetAddr d"
  by (auto simp: leaveMulticastGroup_def Let_def getRouterData_def split: if_splits)

lemma set_interface_same:
  assumes "getInterfaceById i ift = Some ie" "interfaceId ie = i"
  shows "set_interface ie ift = ift"
  using assms by (auto simp: getInterfaceById_def set_interface_def Let_def split: if_splits intro!: list_update_same_conv[THEN iffD2])

text \<open>The groups of an interface as a set of members.\<close>

lemma join_members:
  assumes "host_ok d" "ip_isMulticast g"
  obtains d' where "joinMulticastGroup g d = Inr (if isMemberOfMulticastGroup g d then []
      else [NF_INTERFACE_IPv4CONFIG_CHANGED F_MULTICAST_ADDRESSES, NF_IPv4_MCAST_JOIN g], d')"
    "host_ok d'" "\<And>h. isMemberOfMulticastGroup h d' \<longleftrightarrow> isMemberOfMulticastGroup h d \<or> h = g"
    "getRouterData d' = getRouterData d" "inetAddr d' = inetAddr d"
proof -
  obtain d' where d': "joinMulticastGroup g d = Inr (if isMemberOfMulticastGroup g d then []
      else [NF_INTERFACE_IPv4CONFIG_CHANGED F_MULTICAST_ADDRESSES, NF_IPv4_MCAST_JOIN g], d')"
    "host_ok d'" "group_count d' = (group_count d)(g := group_count d g + 1)"
    using join_counts[OF assms] by blast
  then show ?thesis using that join_keeps[OF d'(1)] isMember_iff_count[OF assms(1)] isMember_iff_count[OF d'(2)]
    by auto
qed

lemma leave_members:
  assumes "host_ok d" "ip_isMulticast g"
  obtains d' where "leaveMulticastGroup g d = Inr (if group_count d g = 1
      then [NF_INTERFACE_IPv4CONFIG_CHANGED F_MULTICAST_ADDRESSES, NF_IPv4_MCAST_LEAVE g] else [], d')"
    "host_ok d'" "\<And>h. isMemberOfMulticastGroup h d' \<longleftrightarrow> isMemberOfMulticastGroup h d \<and> \<not> (h = g \<and> group_count d g = 1)"
    "getRouterData d' = getRouterData d" "inetAddr d' = inetAddr d"
proof -
  obtain d' where d': "leaveMulticastGroup g d = Inr (if group_count d g = 1
      then [NF_INTERFACE_IPv4CONFIG_CHANGED F_MULTICAST_ADDRESSES, NF_IPv4_MCAST_LEAVE g] else [], d')"
    "host_ok d'" "group_count d' = (group_count d)(g := group_count d g - 1)"
    using leave_counts[OF assms] by blast
  have "isMemberOfMulticastGroup h d' \<longleftrightarrow> isMemberOfMulticastGroup h d \<and> \<not> (h = g \<and> group_count d g = 1)" for h
    using isMember_iff_count[OF assms(1)] isMember_iff_count[OF d'(2)] d'(3) by auto
  then show ?thesis using that[OF d'(1,2)] leave_keeps[OF d'(1)] by blast
qed

text \<open>What a change of membership does to the module.\<close>

definition new_member :: "simtime \<Rightarrow> IPv4Address \<Rightarrow> HostGroupData" where
  "new_member t g =
     \<lparr>hg_groupAddr = g, hg_state = IGMP_HGS_DELAYING_MEMBER, hg_flag = True, hg_timer = Timer_at t\<rparr>"

lemma join_view:
  assumes ok: "igmp_ok s" and ie: "getInterfaceById i (igmp_ift s) = Some ie" "if_multicast ie" "ipv4data ie = Some d"
    and g: "ip_isMulticast g" and hs: "hs = host_if (igmp_hostData s) i"
  obtains d' t where "host_ok d'" "\<And>h. isMemberOfMulticastGroup h d' \<longleftrightarrow> isMemberOfMulticastGroup h d \<or> h = g"
    "getRouterData d' = getRouterData d" "inetAddr d' = inetAddr d"
    "now \<le> t" "t \<le> now + unsolicitedReportInterval (igmp_par s)"
    "gives (change_membership now i (Join g) s) (igmp_par s, set_interface (ie\<lparr>ipv4data := Some d'\<rparr>) (igmp_ift s),
      (host_if (igmp_hostData s))(i := if reportable g \<and> \<not> isMemberOfMulticastGroup g d then put g (new_member t g) hs else hs),
      router_if (igmp_routerData s),
      igmp_out s @ (if reportable g \<and> \<not> isMemberOfMulticastGroup g d then [report i g] else []))"
proof -
  have at: "attached i ie s" by (rule attachedI[OF ok ie(1,2)])
  have p: "interfaceId ie = i" "0 \<le> unsolicitedReportInterval (igmp_par s)" "igmp_enabled (igmp_par s)"
    using at by (simp_all add: attached_def igmp_par_ok_def)
  have d: "host_ok d" "host_part_ok d hs"
    using igmp_ok_iface[OF ok ie(1,2)] ie(3) hs by (metis option.inject)+
  obtain d' where d': "joinMulticastGroup g d = Inr (if isMemberOfMulticastGroup g d then []
      else [NF_INTERFACE_IPv4CONFIG_CHANGED F_MULTICAST_ADDRESSES, NF_IPv4_MCAST_JOIN g], d')"
    "host_ok d'" "\<And>h. isMemberOfMulticastGroup h d' \<longleftrightarrow> isMemberOfMulticastGroup h d \<or> h = g"
    "getRouterData d' = getRouterData d" "inetAddr d' = inetAddr d"
    using join_members[OF d(1) g] by blast
  let ?ie = "ie\<lparr>ipv4data := Some d'\<rparr>"
  let ?s = "s\<lparr>igmp_ift := set_interface ?ie (igmp_ift s)\<rparr>"
  have at': "attached i ?ie ?s" using at ie(1) by (simp add: attached_def getInterfaceById_set[of ?ie _ ie])
  have c: "change_membership now i (Join g) s =
      (if isMemberOfMulticastGroup g d then Inr ?s else multicastGroupJoined now i g ?s)"
    using ie d'(1) by (cases "multicastGroupJoined now i g ?s")
      (simp_all add: change_membership_def igmp_interface_def igmp_notified_def igmp_receiveChangeNotification_def)
  consider "isMemberOfMulticastGroup g d" | "\<not> isMemberOfMulticastGroup g d" "\<not> reportable g"
    | "\<not> isMemberOfMulticastGroup g d" "reportable g" by blast
  then show ?thesis
  proof cases
    case 1
    then show ?thesis using that[OF d'(2-5), of now] p(2) c hs by (simp add: igmp_view_def)
  next
    case 2
    then have "multicastGroupJoined now i g ?s = Inr ?s"
      using at' g by (simp add: multicastGroupJoined_def igmp_interface_def attached_def reportable_def)
    then show ?thesis using that[OF d'(2-5), of now] p(2) c hs 2 by (simp add: igmp_view_def)
  next
    case 3
    have "map_of (host_if (igmp_hostData ?s) i) g = None" using d(2) 3 hs by (auto simp: host_part_ok_def)
    then obtain t where "now \<le> t" "t \<le> now + unsolicitedReportInterval (igmp_par s)"
      "gives (multicastGroupJoined now i g ?s) (igmp_par s, igmp_ift ?s, (host_if (igmp_hostData s))(i :=
         put g (new_member t g) hs), router_if (igmp_routerData s), igmp_out s @ [report i g])"
      using joined_view[OF at' 3(2), of now] hs by (auto simp: new_member_def)
    then show ?thesis using that[OF d'(2-5), of t] c 3 by simp
  qed
qed

lemma leave_group_view:
  assumes ok: "igmp_ok s" and ie: "getInterfaceById i (igmp_ift s) = Some ie" "if_multicast ie" "ipv4data ie = Some d"
    and g: "ip_isMulticast g" and hs: "hs = host_if (igmp_hostData s) i"
    and gone: "gone \<longleftrightarrow> reportable g \<and> group_count d g = 1"
  obtains d' where "host_ok d'"
    "\<And>h. isMemberOfMulticastGroup h d' \<longleftrightarrow> isMemberOfMulticastGroup h d \<and> \<not> (h = g \<and> group_count d g = 1)"
    "getRouterData d' = getRouterData d" "inetAddr d' = inetAddr d"
    "gives (change_membership now i (Leave g) s) (igmp_par s, set_interface (ie\<lparr>ipv4data := Some d'\<rparr>) (igmp_ift s),
      (host_if (igmp_hostData s))(i := if gone then erase g hs else hs), router_if (igmp_routerData s),
      igmp_out s @ (if gone \<and> (\<exists>grp. map_of hs g = Some grp \<and> hg_flag grp) then [leave_msg i g] else []))"
proof -
  have at: "attached i ie s" by (rule attachedI[OF ok ie(1,2)])
  have p: "interfaceId ie = i" "igmp_enabled (igmp_par s)" using at by (simp_all add: attached_def igmp_par_ok_def)
  have d: "host_ok d" "host_part_ok d hs"
    using igmp_ok_iface[OF ok ie(1,2)] ie(3) hs by (metis option.inject)+
  obtain d' where d': "leaveMulticastGroup g d = Inr (if group_count d g = 1
      then [NF_INTERFACE_IPv4CONFIG_CHANGED F_MULTICAST_ADDRESSES, NF_IPv4_MCAST_LEAVE g] else [], d')"
    "host_ok d'" "\<And>h. isMemberOfMulticastGroup h d' \<longleftrightarrow> isMemberOfMulticastGroup h d \<and> \<not> (h = g \<and> group_count d g = 1)"
    "getRouterData d' = getRouterData d" "inetAddr d' = inetAddr d"
    using leave_members[OF d(1) g] by blast
  let ?ie = "ie\<lparr>ipv4data := Some d'\<rparr>"
  let ?s = "s\<lparr>igmp_ift := set_interface ?ie (igmp_ift s)\<rparr>"
  have at': "attached i ?ie ?s" using at ie(1) by (simp add: attached_def getInterfaceById_set[of ?ie _ ie])
  have c: "change_membership now i (Leave g) s =
      (if group_count d g = 1 then multicastGroupLeft i g ?s else Inr ?s)"
    using ie d'(1) by (cases "multicastGroupLeft i g ?s")
      (simp_all add: change_membership_def igmp_interface_def igmp_notified_def igmp_receiveChangeNotification_def)
  consider "group_count d g \<noteq> 1" | "group_count d g = 1" "\<not> reportable g" | "group_count d g = 1" "reportable g" by blast
  then show ?thesis
  proof cases
    case 1
    then show ?thesis using that[OF d'(2-5)] c hs gone by (simp add: igmp_view_def)
  next
    case 2
    then have "multicastGroupLeft i g ?s = Inr ?s"
      using at' g by (simp add: multicastGroupLeft_def igmp_interface_def attached_def reportable_def)
    then show ?thesis using that[OF d'(2-5)] c hs 2 gone by (simp add: igmp_view_def)
  next
    case 3
    then have "isMemberOfMulticastGroup g d" using isMember_iff_count[OF d(1), of g] by simp
    then have "map_of hs g \<noteq> None" using d(2) 3 unfolding host_part_ok_def by blast
    then obtain grp where grp: "map_of hs g = Some grp" by auto
    then have "host_group_ok g grp" using d(2) by (simp add: host_part_ok_def)
    note grp = grp this
    then have "gives (multicastGroupLeft i g ?s) (igmp_par s, igmp_ift ?s, (host_if (igmp_hostData s))(i := erase g hs),
        router_if (igmp_routerData s), igmp_out s @ (if hg_flag grp then [leave_msg i g] else []))"
      using left_view[OF at' 3(2), of grp] hs by simp
    then show ?thesis using that[OF d'(2-5)] c 3 gone grp(1) by simp
  qed
qed

section \<open>What the handlers keep\<close>

lemma host_part_cong:
  "(\<And>g. reportable g \<Longrightarrow> isMemberOfMulticastGroup g d' \<longleftrightarrow> isMemberOfMulticastGroup g d) \<Longrightarrow>
    host_part_ok d' hs \<longleftrightarrow> host_part_ok d hs"
  unfolding host_part_ok_def by (metis (full_types))

lemma router_part_cong: "getRouterData d' = getRouterData d \<Longrightarrow> router_part_ok p d' ri \<longleftrightarrow> router_part_ok p d ri"
  by (simp add: router_part_ok_def hasMulticastListener_def)

lemma listen_simps [simp]:
  "isMemberOfMulticastGroup h (listen g d) \<longleftrightarrow> isMemberOfMulticastGroup h d" "host_ok (listen g d) \<longleftrightarrow> host_ok d"
  "inetAddr (listen g d) = inetAddr d" "hasMulticastListener h (listen g d) \<longleftrightarrow> h = g \<or> hasMulticastListener h d"
  "isMemberOfMulticastGroup h (unlisten g d) \<longleftrightarrow> isMemberOfMulticastGroup h d" "host_ok (unlisten g d) \<longleftrightarrow> host_ok d"
  "inetAddr (unlisten g d) = inetAddr d"
  by (auto simp: listen_def unlisten_def isMemberOfMulticastGroup_def getHostData_def host_ok_def
      hasMulticastListener_def getRouterData_def)

lemma asked_ok: "asked now m a b \<Longrightarrow> host_group_ok g a \<Longrightarrow> host_group_ok g b"
  by (auto simp: asked_def host_group_ok_def)

lemma maybe_asked_ok:
  "maybe_asked c now m x y \<Longrightarrow> (\<And>a. x = Some a \<Longrightarrow> host_group_ok g a) \<Longrightarrow> y = Some b \<Longrightarrow> host_group_ok g b"
  by (auto simp: maybe_asked_def asked_ok split: option.splits if_splits)

lemma maybe_asked_None: "maybe_asked c now m x y \<Longrightarrow> y = None \<longleftrightarrow> x = None"
  by (auto simp: maybe_asked_def split: option.splits)

lemma host_part_asked:
  assumes "host_part_ok d hs" "asked_about G now m hs hs'"
  shows "host_part_ok d hs'"
proof -
  have m: "maybe_asked (G g) now m (map_of hs g) (map_of hs' g)" for g using assms(2) by (simp add: asked_about_def)
  have "host_group_ok g b" if "map_of hs' g = Some b" for g b
    using maybe_asked_ok[OF m _ that] assms(1) by (simp add: host_part_ok_def)
  moreover have "map_of hs' g = None \<longleftrightarrow> map_of hs g = None" for g by (rule maybe_asked_None[OF m])
  ultimately show ?thesis using assms by (simp add: host_part_ok_def asked_about_def)
qed

lemma host_part_put:
  assumes "host_part_ok d hs" "host_group_ok g grp"
    and "\<And>h. isMemberOfMulticastGroup h d' \<longleftrightarrow> isMemberOfMulticastGroup h d \<or> h = g" "reportable g"
  shows "host_part_ok d' (put g grp hs)"
  using assms by (auto simp: host_part_ok_def is_map_put)

lemma host_part_erase:
  assumes "host_part_ok d hs" "\<And>h. isMemberOfMulticastGroup h d' \<longleftrightarrow> isMemberOfMulticastGroup h d \<and> h \<noteq> g"
  shows "host_part_ok d' (erase g hs)"
  using assms by (auto simp: host_part_ok_def is_map_erase)

lemma host_part_member: "host_part_ok d hs \<Longrightarrow> map_of hs g = Some grp \<Longrightarrow>
    isMemberOfMulticastGroup g d \<and> reportable g \<and> host_group_ok g grp"
  by (auto simp: host_part_ok_def)

lemma host_part_report: "host_part_ok d hs \<Longrightarrow> host_part_ok d (heard_report g hs)"
  using host_part_member[of d hs g]
  by (auto simp: heard_report_def host_group_ok_def split: option.splits intro!: host_part_put)

text \<open>Changing a group that the router knows.\<close>

lemma router_part_put:
  assumes "router_part_ok p d ri" "router_group_ok g grp" "querying p"
    and "\<And>h. hasMulticastListener h d' \<longleftrightarrow> h = g \<or> hasMulticastListener h d"
    and "distinct (reportedMulticastGroups (getRouterData d'))"
  shows "router_part_ok p d' (ri\<lparr>ri_groups := put g grp (ri_groups ri)\<rparr>)"
  using assms by (auto simp: router_part_ok_def is_map_put)

lemma router_part_member: "router_part_ok p d ri \<Longrightarrow> map_of (ri_groups ri) g = Some grp \<Longrightarrow>
    hasMulticastListener g d \<and> router_group_ok g grp \<and> querying p \<and> distinct (reportedMulticastGroups (getRouterData d))"
  by (auto simp: router_part_ok_def new_RouterInterfaceData_def split: if_splits)

lemma router_part_change:
  assumes "router_part_ok p d ri" "map_of (ri_groups ri) g = Some grp" "router_group_ok g grp'"
  shows "router_part_ok p d (ri\<lparr>ri_groups := put g grp' (ri_groups ri)\<rparr>)"
  using router_part_put[OF assms(1,3)] router_part_member[OF assms(1,2)] by auto

lemma router_part_timer:
  assumes "router_part_ok p d ri" "querying p" "st \<noteq> IGMP_RS_INITIAL"
  shows "router_part_ok p d (ri\<lparr>igmpQueryTimer := Timer_at t, igmpRouterState := st\<rparr>)"
    "router_part_ok p d (ri\<lparr>igmpRouterState := st, igmpQueryTimer := Timer_at t\<rparr>)"
  using assms by (auto simp: router_part_ok_def)

lemma router_part_query:
  assumes "router_part_ok p d ri" "querying p"
  shows "router_part_ok p d (heard_query now p own sender msg ri)"
proof -
  define ri1 where "ri1 = (if sender < own then ri\<lparr>igmpQueryTimer := Timer_at (now + otherQuerierPresentInterval p),
    igmpRouterState := IGMP_RS_NON_QUERIER\<rparr> else ri)"
  have 1: "router_part_ok p d ri1" using assms by (simp add: ri1_def router_part_timer)
  have "router_group_ok g (grp\<lparr>rg_timer := Timer_at t, rg_state := IGMP_RGS_CHECKING_MEMBERSHIP\<rparr>)"
    if "map_of (ri_groups ri1) g = Some grp" for g grp t
    using router_part_member[OF 1 that] by (simp add: router_group_ok_def)
  then show ?thesis
    using 1 router_part_change[OF 1] unfolding heard_query_def ri1_def[symmetric] Let_def
    by (auto split: option.splits)
qed

lemma router_part_leave:
  assumes "router_part_ok p d ri"
  shows "router_part_ok p d (heard_leave now p g ri)"
  using assms router_part_member[OF assms, of g]
  by (auto simp: heard_leave_def router_group_ok_def split: option.splits intro!: router_part_change)

lemma router_part_report:
  assumes "router_part_ok p d ri" "querying p" "reportable g"
  shows "router_part_ok p (listen g d) (ri\<lparr>ri_groups := put g (present t g) (ri_groups ri)\<rparr>)"
proof (rule router_part_put[OF assms(1) _ assms(2)])
  show "router_group_ok g (present t g)" using assms(3) by (simp add: router_group_ok_def present_def)
  show "distinct (reportedMulticastGroups (getRouterData (listen g d)))"
    using assms(1) by (auto simp: listen_def router_part_ok_def hasMulticastListener_def getRouterData_def)
qed auto

lemma router_part_erase:
  assumes "router_part_ok p d ri" "querying p"
  shows "router_part_ok p (unlisten g d) (ri\<lparr>ri_groups := erase g (ri_groups ri)\<rparr>)"
proof -
  have l: "hasMulticastListener h (unlisten g d) \<longleftrightarrow> h \<noteq> g \<and> hasMulticastListener h d" for h
    using assms(1) by (auto simp: unlisten_def router_part_ok_def hasMulticastListener_def getRouterData_def)
  have "distinct (reportedMulticastGroups (getRouterData (unlisten g d)))"
    using assms(1) by (auto simp: unlisten_def router_part_ok_def getRouterData_def distinct_remove1)
  then show ?thesis using assms by (auto simp: router_part_ok_def l is_map_erase)
qed

section \<open>What can happen on a node\<close>

datatype igmp_occurrence = Membership int mcast_op | Input igmp_input

fun igmp_occurs :: "simtime \<Rightarrow> igmp_occurrence \<Rightarrow> IGMP \<Rightarrow> IGMP res" where
  "igmp_occurs now (Membership i x) s = change_membership now i x s"
| "igmp_occurs now (Input x) s = igmp_handleMessage now x s"

definition on_multicast :: "int \<Rightarrow> IGMP \<Rightarrow> bool" where
  "on_multicast i s \<longleftrightarrow> (case getInterfaceById i (igmp_ift s) of None \<Rightarrow> False | Some ie \<Rightarrow> if_multicast ie)"

text \<open>
  Timers expire when they are due. Messages arrive on multicast interfaces; they have a type that the
  module knows, no negative response time, and reports and leaves are for groups that hosts report.
\<close>

definition arrives :: "IGMPMessage \<Rightarrow> bool" where
  "arrives msg \<longleftrightarrow> 0 \<le> ig_maxRespTime msg
     \<and> (ig_type msg = IGMP_MEMBERSHIP_QUERY
        \<or> ig_type msg \<in> {IGMPV2_MEMBERSHIP_REPORT, IGMPV2_LEAVE_GROUP} \<and> reportable (ig_groupAddress msg))"

fun possible :: "simtime \<Rightarrow> igmp_occurrence \<Rightarrow> IGMP \<Rightarrow> bool" where
  "possible now (Membership i x) s \<longleftrightarrow> on_multicast i s \<and> ip_isMulticast (op_group x)"
| "possible now (Input (Query_timer i)) s \<longleftrightarrow> igmpQueryTimer (router_if (igmp_routerData s) i) = Timer_at now"
| "possible now (Input (Hostgroup_timer i g)) s \<longleftrightarrow>
     map_option hg_timer (map_of (host_if (igmp_hostData s) i) g) = Some (Timer_at now)"
| "possible now (Input (Leave_timer i g)) s \<longleftrightarrow>
     map_option rg_timer (map_of (ri_groups (router_if (igmp_routerData s) i)) g) = Some (Timer_at now)"
| "possible now (Input (Rexmt_timer i g)) s \<longleftrightarrow>
     map_option rg_rexmtTimer (map_of (ri_groups (router_if (igmp_routerData s) i)) g) = Some (Timer_at now)"
| "possible now (Input (From_router msg)) s \<longleftrightarrow> True"
| "possible now (Input (From_IP msg ci)) s \<longleftrightarrow> on_multicast (ci_interfaceId ci) s \<and> arrives msg"

definition own_address :: "int \<Rightarrow> IGMP \<Rightarrow> IPv4Address" where
  "own_address i s =
     (case getInterfaceById i (igmp_ift s) of
        None \<Rightarrow> 0
      | Some ie \<Rightarrow> (case ipv4data ie of None \<Rightarrow> 0 | Some d \<Rightarrow> inetAddr d))"

definition crashes :: "igmp_occurrence \<Rightarrow> IGMP \<Rightarrow> bool" where
  "crashes e s \<longleftrightarrow> (case e of
     Input (From_IP msg ci) \<Rightarrow> ig_type msg = IGMP_MEMBERSHIP_QUERY \<and> querying (igmp_par s)
       \<and> fatal_query (own_address (ci_interfaceId ci) s) (ci_srcAddr ci) msg
           (router_if (igmp_routerData s) (ci_interfaceId ci))
   | _ \<Rightarrow> False)"

lemma on_multicastE:
  assumes "on_multicast i s" "igmp_ok s"
  obtains ie d where "getInterfaceById i (igmp_ift s) = Some ie" "if_multicast ie" "interfaceId ie = i"
    "ipv4data ie = Some d" "host_ok d" "host_part_ok d (host_if (igmp_hostData s) i)"
    "router_part_ok (igmp_par s) d (router_if (igmp_routerData s) i)" "own_address i s = inetAddr d"
proof -
  obtain ie where ie: "getInterfaceById i (igmp_ift s) = Some ie" "if_multicast ie"
    using assms(1) by (auto simp: on_multicast_def split: option.splits)
  obtain d where "ipv4data ie = Some d" "host_ok d" "host_part_ok d (host_if (igmp_hostData s) i)"
    "router_part_ok (igmp_par s) d (router_if (igmp_routerData s) i)" using igmp_ok_iface[OF assms(2) ie] by blast
  then show ?thesis using that ie igmp_okD(2)[OF assms(2) ie(1)] by (simp add: own_address_def)
qed

text \<open>Data belong to multicast interfaces.\<close>

lemma data_on_multicast:
  assumes "igmp_ok s" "host_if (igmp_hostData s) i \<noteq> [] \<or> router_if (igmp_routerData s) i \<noteq> new_RouterInterfaceData"
  shows "on_multicast i s"
  using assms by (auto simp: igmp_ok_def on_multicast_def iface_ok_def split: option.splits if_splits dest!: spec[of _ i])

text \<open>A handler that gives the data of one interface new contents.\<close>

lemma gives_ok:
  assumes ok: "igmp_ok s" and ie: "getInterfaceById i (igmp_ift s) = Some ie"
    and "gives m (igmp_par s, ift, (host_if (igmp_hostData s))(i := hs), (router_if (igmp_routerData s))(i := ri), out)"
    and "ift = igmp_ift s \<and> ie' = ie \<or> ift = set_interface ie' (igmp_ift s) \<and> interfaceId ie' = i"
    and "ipv4data ie' = Some d" "if_multicast ie'" "host_ok d" "host_part_ok d hs" "router_part_ok (igmp_par s) d ri"
  shows "\<exists>s'. m = Inr s' \<and> igmp_ok s'"
proof -
  obtain s' where s': "m = Inr s'" "igmp_view s' = (igmp_par s, ift, (host_if (igmp_hostData s))(i := hs),
      (router_if (igmp_routerData s))(i := ri), out)" using assms(3) by (auto simp: gives_def)
  have "iface_ok (igmp_par s) ie' hs ri" using assms(5-9) by (simp add: iface_ok_def)
  then show ?thesis using igmp_ok_update[OF ok ie s'(2) assms(4)] s'(1) by blast
qed

lemma gives_ok_host:
  assumes "igmp_ok s" "getInterfaceById i (igmp_ift s) = Some ie"
    and "gives m (igmp_par s, ift, (host_if (igmp_hostData s))(i := hs), router_if (igmp_routerData s), out)"
    and "ift = igmp_ift s \<and> ie' = ie \<or> ift = set_interface ie' (igmp_ift s) \<and> interfaceId ie' = i"
    and "ipv4data ie' = Some d" "if_multicast ie'" "host_ok d" "host_part_ok d hs"
    and "router_part_ok (igmp_par s) d (router_if (igmp_routerData s) i)"
  shows "\<exists>s'. m = Inr s' \<and> igmp_ok s'"
proof -
  have "gives m (igmp_par s, ift, (host_if (igmp_hostData s))(i := hs),
      (router_if (igmp_routerData s))(i := router_if (igmp_routerData s) i), out)"
    using assms(3) by (simp only: fun_upd_triv)
  from gives_ok[OF assms(1,2) this assms(4-9)] show ?thesis .
qed

lemma igmp_message_ok:
  assumes ok: "igmp_ok s" and at: "on_multicast (ci_interfaceId ci) s" and msg: "arrives msg"
  shows "if crashes (Input (From_IP msg ci)) s then processIgmpMessage now msg ci s = Inl Undefined_behaviour
    else \<exists>s'. processIgmpMessage now msg ci s = Inr s' \<and> igmp_ok s'"
proof -
  let ?i = "ci_interfaceId ci" and ?g = "ig_groupAddress msg"
  obtain ie d where ie: "getInterfaceById ?i (igmp_ift s) = Some ie" "if_multicast ie" "interfaceId ie = ?i"
    "ipv4data ie = Some d" and d: "host_ok d" "host_part_ok d (host_if (igmp_hostData s) ?i)"
    "router_part_ok (igmp_par s) d (router_if (igmp_routerData s) ?i)" and own: "own_address ?i s = inetAddr d"
    using on_multicastE[OF at ok] by metis
  have lk: "igmp_interface ?i s = Inr ie" using ie(1) by (simp add: igmp_interface_def)
  have m: "0 \<le> ig_maxRespTime msg" using msg by (simp add: arrives_def)
  consider (q) "ig_type msg = IGMP_MEMBERSHIP_QUERY" | (r) "ig_type msg = IGMPV2_MEMBERSHIP_REPORT" "reportable ?g"
    | (l) "ig_type msg = IGMPV2_LEAVE_GROUP" "reportable ?g" using msg by (auto simp: arrives_def)
  then show ?thesis
  proof cases
    case q
    then have c: "crashes (Input (From_IP msg ci)) s \<longleftrightarrow> querying (igmp_par s)
        \<and> fatal_query (inetAddr d) (ci_srcAddr ci) msg (router_if (igmp_routerData s) ?i)"
      using own by (simp add: crashes_def)
    have e: "processIgmpMessage now msg ci s = processQuery now ie (ci_srcAddr ci) msg s"
      using q lk by (simp add: processIgmpMessage_def)
    show ?thesis
    proof (cases "crashes (Input (From_IP msg ci)) s")
      case False
      with c obtain hs where
        h: "asked_about (about msg) now (of_resp_code (ig_maxRespTime msg)) (host_if (igmp_hostData s) ?i) hs"
        and v: "gives (processQuery now ie (ci_srcAddr ci) msg s) (igmp_par s, igmp_ift s, (host_if (igmp_hostData s))(?i := hs),
          (router_if (igmp_routerData s))(?i := if querying (igmp_par s)
            then heard_query now (igmp_par s) (inetAddr d) (ci_srcAddr ci) msg (router_if (igmp_routerData s) ?i)
            else router_if (igmp_routerData s) ?i),
          igmp_out s @ (if igmp_forwarding (igmp_par s) \<and> externalRouter (igmp_par s) then [IGMP_to_router msg] else []))"
        using query_view[OF ok ie(1,2,4) m, of "ci_srcAddr ci" now] by blast
      show ?thesis using gives_ok[OF ok ie(1) v _ ie(4,2) d(1) host_part_asked[OF d(2) h]] d(3) False e
        by (simp add: router_part_query)
    qed (use c e query_crash[OF ok ie(1,2,4) m, of "ci_srcAddr ci" now] in simp)
  next
    case r
    let ?ie = "if querying (igmp_par s) then ie\<lparr>ipv4data := Some (listen ?g d)\<rparr> else ie"
    let ?d = "if querying (igmp_par s) then listen ?g d else d"
    have l: "hasMulticastListener ?g d \<Longrightarrow> ie\<lparr>ipv4data := Some (listen ?g d)\<rparr> = ie"
      using ie(4) by (cases ie) (simp add: listen_def)
    have p: "router_part_ok (igmp_par s) ?d (if querying (igmp_par s)
        then router_if (igmp_routerData s) ?i\<lparr>ri_groups := put ?g (present (now + groupMembershipInterval (igmp_par s)) ?g)
          (ri_groups (router_if (igmp_routerData s) ?i))\<rparr> else router_if (igmp_routerData s) ?i)"
      using d(3) r(2) by (simp add: router_part_report)
    have hp: "host_part_ok ?d (heard_report ?g (host_if (igmp_hostData s) ?i))" "host_ok ?d"
      using host_part_report[OF d(2)] d(1) by (simp_all add: host_part_cong[of d "listen ?g d"])
    have "\<exists>s'. processV2Report now ie msg s = Inr s' \<and> igmp_ok s'"
      by (rule gives_ok[OF ok ie(1) report_view[OF ok ie(1,2,4) refl r(2) refl] _ _ _ hp(2,1) p, of ?ie])
        (use ie l in auto)
    then show ?thesis using r lk by (simp add: processIgmpMessage_def crashes_def igmp_type_defs)
  next
    case l
    define out where "out = igmp_out s @ (if querying (igmp_par s)
      then if checks ?g (router_if (igmp_routerData s) ?i) then [query ?i ?g (lastMemberQueryInterval (igmp_par s))] else []
      else if igmp_forwarding (igmp_par s) then [IGMP_to_router msg] else [])"
    have v: "gives (processLeave now ie msg s) (igmp_par s, igmp_ift s,
        (host_if (igmp_hostData s))(?i := host_if (igmp_hostData s) ?i),
        (router_if (igmp_routerData s))(?i := if querying (igmp_par s)
          then heard_leave now (igmp_par s) ?g (router_if (igmp_routerData s) ?i) else router_if (igmp_routerData s) ?i), out)"
      using leave_view[OF ok ie(1,2) refl l(2) refl, of now] by (simp add: out_def)
    have "\<exists>s'. processLeave now ie msg s = Inr s' \<and> igmp_ok s'"
      by (rule gives_ok[OF ok ie(1) v _ ie(4,2) d(1,2)]) (use d(3) in \<open>simp_all add: router_part_leave\<close>)
    then show ?thesis using l lk by (simp add: processIgmpMessage_def crashes_def igmp_type_defs)
  qed
qed

lemma igmp_timer_ok:
  assumes ok: "igmp_ok s" and p: "possible now (Input x) s" and x: "\<nexists>msg ci. x = From_IP msg ci"
  shows "\<exists>s'. igmp_handleMessage now x s = Inr s' \<and> igmp_ok s'"
proof -
  have en: "igmp_enabled (igmp_par s)" using ok by (simp add: igmp_ok_def igmp_par_ok_def)
  show ?thesis
  proof (cases x)
    case (Query_timer i)
    then have t: "igmpQueryTimer (router_if (igmp_routerData s) i) = Timer_at now" using p by simp
    then have "router_if (igmp_routerData s) i \<noteq> new_RouterInterfaceData" by (auto simp: new_RouterInterfaceData_def)
    then have "on_multicast i s" using data_on_multicast[OF ok, of i] by simp
    then obtain ie d where ie: "getInterfaceById i (igmp_ift s) = Some ie" "if_multicast ie" "ipv4data ie = Some d"
      and d: "host_ok d" "host_part_ok d (host_if (igmp_hostData s) i)"
      "router_part_ok (igmp_par s) d (router_if (igmp_routerData s) i)" using on_multicastE[OF _ ok] by metis
    have q: "querying (igmp_par s)" "igmpRouterState (router_if (igmp_routerData s) i) \<noteq> IGMP_RS_INITIAL"
      using d(3) t by (auto simp: router_part_ok_def new_RouterInterfaceData_def split: if_splits)
    define out where "out = igmp_out s @ [query i 0 (queryResponseInterval (igmp_par s))]"
    have "gives (processQueryTimer now i s) (igmp_par s, igmp_ift s,
        (host_if (igmp_hostData s))(i := host_if (igmp_hostData s) i), (router_if (igmp_routerData s))(i :=
          router_if (igmp_routerData s) i\<lparr>igmpRouterState := IGMP_RS_QUERIER,
            igmpQueryTimer := Timer_at (now + queryInterval (igmp_par s))\<rparr>), out)"
      using query_timer_view[OF attachedI[OF ok ie(1,2)] refl q(2), of now] by (simp add: out_def)
    from gives_ok[OF ok ie(1) this _ ie(3,2) d(1,2)] show ?thesis
      using router_part_timer(2)[OF d(3) q(1), of IGMP_RS_QUERIER] en Query_timer
      by (simp add: igmp_handleMessage_def)
  next
    case (Hostgroup_timer i g)
    then obtain grp where g: "map_of (host_if (igmp_hostData s) i) g = Some grp" using p by auto
    then have "host_if (igmp_hostData s) i \<noteq> []" by auto
    then have "on_multicast i s" using data_on_multicast[OF ok, of i] by simp
    then obtain ie d where ie: "getInterfaceById i (igmp_ift s) = Some ie" "if_multicast ie" "ipv4data ie = Some d"
      and d: "host_ok d" "host_part_ok d (host_if (igmp_hostData s) i)"
      "router_part_ok (igmp_par s) d (router_if (igmp_routerData s) i)" using on_multicastE[OF _ ok] by metis
    have r: "reportable g" "host_group_ok g grp" "isMemberOfMulticastGroup g d" using host_part_member[OF d(2) g] by simp_all
    let ?grp = "grp\<lparr>hg_timer := Timer_idle, hg_flag := True, hg_state := IGMP_HGS_IDLE_MEMBER\<rparr>"
    have "gives (processHostGroupTimer i g s) (igmp_par s, igmp_ift s,
        (host_if (igmp_hostData s))(i := put g ?grp (host_if (igmp_hostData s) i)), (router_if (igmp_routerData s))(i :=
          router_if (igmp_routerData s) i), igmp_out s @ [report i g])"
      using host_timer_view[OF attachedI[OF ok ie(1,2)] r(1) g r(2)] by simp
    from gives_ok[OF ok ie(1) this _ ie(3,2) d(1) _ d(3)] show ?thesis
      using host_part_put[OF d(2), of g ?grp d] r en Hostgroup_timer
      by (auto simp: igmp_handleMessage_def host_group_ok_def)
  next
    case (Leave_timer i g)
    then obtain grp where g: "map_of (ri_groups (router_if (igmp_routerData s) i)) g = Some grp" using p by auto
    then have "router_if (igmp_routerData s) i \<noteq> new_RouterInterfaceData" by (auto simp: new_RouterInterfaceData_def)
    then have "on_multicast i s" using data_on_multicast[OF ok, of i] by simp
    then obtain ie d where ie: "getInterfaceById i (igmp_ift s) = Some ie" "if_multicast ie" "ipv4data ie = Some d" "interfaceId ie = i"
      and d: "host_ok d" "host_part_ok d (host_if (igmp_hostData s) i)"
      "router_part_ok (igmp_par s) d (router_if (igmp_routerData s) i)" using on_multicastE[OF _ ok] by metis
    have r: "router_group_ok g grp" "hasMulticastListener g d" "querying (igmp_par s)" using router_part_member[OF d(3) g] by simp_all
    define out where "out = igmp_out s @ unregistered i g"
    have v: "gives (processLeaveTimer i g s) (igmp_par s, set_interface (ie\<lparr>ipv4data := Some (unlisten g d)\<rparr>) (igmp_ift s),
        (host_if (igmp_hostData s))(i := host_if (igmp_hostData s) i), (router_if (igmp_routerData s))(i :=
          router_if (igmp_routerData s) i\<lparr>ri_groups := erase g (ri_groups (router_if (igmp_routerData s) i))\<rparr>), out)"
      using leave_timer_view[OF attachedI[OF ok ie(1,2)] ie(3) r(2) refl g r(1)] by (simp add: out_def)
    have "\<exists>s'. processLeaveTimer i g s = Inr s' \<and> igmp_ok s'"
      by (rule gives_ok[OF ok ie(1) v, of "ie\<lparr>ipv4data := Some (unlisten g d)\<rparr>" "unlisten g d"])
        (use ie d r in \<open>simp_all add: router_part_erase host_part_cong[of "unlisten g d" d]\<close>)
    then show ?thesis using en Leave_timer by (simp add: igmp_handleMessage_def)
  next
    case (Rexmt_timer i g)
    then obtain grp where g: "map_of (ri_groups (router_if (igmp_routerData s) i)) g = Some grp" using p by auto
    then have "router_if (igmp_routerData s) i \<noteq> new_RouterInterfaceData" by (auto simp: new_RouterInterfaceData_def)
    then have "on_multicast i s" using data_on_multicast[OF ok, of i] by simp
    then obtain ie d where ie: "getInterfaceById i (igmp_ift s) = Some ie" "if_multicast ie" "ipv4data ie = Some d"
      and d: "host_ok d" "host_part_ok d (host_if (igmp_hostData s) i)"
      "router_part_ok (igmp_par s) d (router_if (igmp_routerData s) i)" using on_multicastE[OF _ ok] by metis
    have r: "router_group_ok g grp" using router_part_member[OF d(3) g] by simp
    let ?grp = "grp\<lparr>rg_rexmtTimer := Timer_at (now + lastMemberQueryInterval (igmp_par s)), rg_state := IGMP_RGS_CHECKING_MEMBERSHIP\<rparr>"
    define out where "out = igmp_out s @ (if igmpRouterState (router_if (igmp_routerData s) i) = IGMP_RS_QUERIER
      then [query i g (lastMemberQueryInterval (igmp_par s))] else [])"
    have "gives (processRexmtTimer now i g s) (igmp_par s, igmp_ift s,
        (host_if (igmp_hostData s))(i := host_if (igmp_hostData s) i), (router_if (igmp_routerData s))(i :=
          router_if (igmp_routerData s) i\<lparr>ri_groups := put g ?grp (ri_groups (router_if (igmp_routerData s) i))\<rparr>), out)"
      using rexmt_timer_view[OF attachedI[OF ok ie(1,2)] refl g r, of now] by (simp add: out_def)
    from gives_ok[OF ok ie(1) this _ ie(3,2) d(1,2)] show ?thesis
      using router_part_change[OF d(3) g, of ?grp] r en Rexmt_timer by (simp add: igmp_handleMessage_def router_group_ok_def)
  next
    case (From_router msg)
    have "igmp_ok (igmp_emit (IGMP_forward_to_IP msg) s)"
      using ok by (simp add: igmp_ok_def igmp_emit_def cong: option.case_cong)
    then show ?thesis using en From_router by (simp add: igmp_handleMessage_def)
  next
    case (From_IP msg ci)
    then show ?thesis using x by blast
  qed
qed

lemma igmp_membership_ok:
  assumes ok: "igmp_ok s" and p: "on_multicast i s" "ip_isMulticast (op_group x)"
  shows "\<exists>s'. change_membership now i x s = Inr s' \<and> igmp_ok s'"
proof -
  obtain ie d where ie: "getInterfaceById i (igmp_ift s) = Some ie" "if_multicast ie" "ipv4data ie = Some d" "interfaceId ie = i"
    and d: "host_ok d" "host_part_ok d (host_if (igmp_hostData s) i)"
    "router_part_ok (igmp_par s) d (router_if (igmp_routerData s) i)" using on_multicastE[OF p(1) ok] by metis
  let ?hs = "host_if (igmp_hostData s) i"
  show ?thesis
  proof (cases x)
    case (Join g)
    then have g: "ip_isMulticast g" using p(2) by simp
    obtain d' t where d': "host_ok d'" "\<And>h. isMemberOfMulticastGroup h d' \<longleftrightarrow> isMemberOfMulticastGroup h d \<or> h = g"
      "getRouterData d' = getRouterData d" "inetAddr d' = inetAddr d"
      and v: "gives (change_membership now i (Join g) s) (igmp_par s, set_interface (ie\<lparr>ipv4data := Some d'\<rparr>) (igmp_ift s),
        (host_if (igmp_hostData s))(i := if reportable g \<and> \<not> isMemberOfMulticastGroup g d then put g (new_member t g) ?hs else ?hs),
        router_if (igmp_routerData s),
        igmp_out s @ (if reportable g \<and> \<not> isMemberOfMulticastGroup g d then [report i g] else []))"
      by (rule join_view[OF ok ie(1,2,3) g refl, of now], rule that)
    have h: "host_part_ok d' (if reportable g \<and> \<not> isMemberOfMulticastGroup g d then put g (new_member t g) ?hs else ?hs)"
    proof (cases "reportable g \<and> \<not> isMemberOfMulticastGroup g d")
      case True
      then show ?thesis using host_part_put[OF d(2) _ d'(2), of "new_member t g"] by (simp add: new_member_def host_group_ok_def)
    next
      case False
      then have "host_part_ok d' ?hs \<longleftrightarrow> host_part_ok d ?hs" by (intro host_part_cong) (auto simp: d'(2))
      then show ?thesis using d(2) False by auto
    qed
    have "router_part_ok (igmp_par s) d' (router_if (igmp_routerData s) i)" using d(3) router_part_cong[OF d'(3)] by simp
    from gives_ok_host[OF ok ie(1) v _ _ _ d'(1) h this, of "ie\<lparr>ipv4data := Some d'\<rparr>"]
    show ?thesis using ie(2,4) Join by simp
  next
    case (Leave g)
    then have g: "ip_isMulticast g" using p(2) by simp
    define gone where "gone \<longleftrightarrow> reportable g \<and> group_count d g = 1"
    obtain d' where d': "host_ok d'"
      "\<And>h. isMemberOfMulticastGroup h d' \<longleftrightarrow> isMemberOfMulticastGroup h d \<and> \<not> (h = g \<and> group_count d g = 1)"
      "getRouterData d' = getRouterData d" "inetAddr d' = inetAddr d"
      and v: "gives (change_membership now i (Leave g) s) (igmp_par s, set_interface (ie\<lparr>ipv4data := Some d'\<rparr>) (igmp_ift s),
        (host_if (igmp_hostData s))(i := if gone then erase g ?hs else ?hs), router_if (igmp_routerData s),
        igmp_out s @ (if gone \<and> (\<exists>grp. map_of ?hs g = Some grp \<and> hg_flag grp) then [leave_msg i g] else []))"
      by (rule leave_group_view[OF ok ie(1,2,3) g refl gone_def, of now], rule that)
    have h: "host_part_ok d' (if gone then erase g ?hs else ?hs)"
    proof (cases gone)
      case True
      then have "isMemberOfMulticastGroup h d' \<longleftrightarrow> isMemberOfMulticastGroup h d \<and> h \<noteq> g" for h
        using d'(2)[of h] by (auto simp: gone_def)
      from host_part_erase[OF d(2) this] show ?thesis using True by simp
    next
      case False
      then have "host_part_ok d' ?hs \<longleftrightarrow> host_part_ok d ?hs" by (intro host_part_cong) (auto simp: d'(2) gone_def)
      then show ?thesis using d(2) False by simp
    qed
    have "router_part_ok (igmp_par s) d' (router_if (igmp_routerData s) i)" using d(3) router_part_cong[OF d'(3)] by simp
    from gives_ok_host[OF ok ie(1) v _ _ _ d'(1) h this, of "ie\<lparr>ipv4data := Some d'\<rparr>"]
    show ?thesis using ie(2,4) Leave by simp
  qed
qed

lemma igmp_occurs_ok:
  assumes "igmp_ok s" "possible now e s"
  shows "if crashes e s then igmp_occurs now e s = Inl Undefined_behaviour
    else \<exists>s'. igmp_occurs now e s = Inr s' \<and> igmp_ok s'"
proof (cases e)
  case (Membership i x)
  then show ?thesis using igmp_membership_ok[OF assms(1), of i x now] assms(2) by (simp add: crashes_def)
next
  case (Input x)
  show ?thesis
  proof (cases "\<exists>msg ci. x = From_IP msg ci")
    case True
    then obtain msg ci where x: "x = From_IP msg ci" by blast
    have "igmp_enabled (igmp_par s)" using assms(1) by (simp add: igmp_ok_def igmp_par_ok_def)
    then show ?thesis using igmp_message_ok[OF assms(1), of ci msg now] assms(2) Input x
      by (simp add: igmp_handleMessage_def)
  next
    case False
    then have "\<not> crashes e s" using Input by (auto simp: crashes_def split: igmp_input.splits)
    then show ?thesis using igmp_timer_ok[OF assms(1), of now x] assms(2) False Input by simp
  qed
qed

section \<open>Every history\<close>

text \<open>A module before its initialization; the interfaces are in no group that a host reports.\<close>

definition igmp_fresh :: "IGMP \<Rightarrow> bool" where
  "igmp_fresh s \<longleftrightarrow> igmp_par_ok (igmp_par s) \<and> igmp_hostData s = [] \<and> igmp_routerData s = []
     \<and> (\<forall>i ie. getInterfaceById i (igmp_ift s) = Some ie \<longrightarrow> interfaceId ie = i \<and> (if_multicast ie \<longrightarrow>
          (\<exists>d. ipv4data ie = Some d \<and> host_ok d \<and> reportedMulticastGroups (getRouterData d) = []
             \<and> (\<forall>g. isMemberOfMulticastGroup g d \<longrightarrow> \<not> reportable g))))"

inductive igmp_reachable :: "IGMP \<Rightarrow> bool" where
  start: "igmp_fresh s \<Longrightarrow> igmp_initialize now s = Inr s' \<Longrightarrow> igmp_reachable s'"
| occurs: "igmp_reachable s \<Longrightarrow> possible now e s \<Longrightarrow> igmp_occurs now e s = Inr s' \<Longrightarrow> igmp_reachable s'"

lemma set_interfaces: "set (interfaces ift) = {ie. Some ie \<in> set ift}"
  by (induction ift rule: interfaces.induct) auto

lemma in_interfaces: "ie \<in> set (interfaces ift) \<longleftrightarrow> (\<exists>i. getInterfaceById i ift = Some ie)"
proof
  assume "ie \<in> set (interfaces ift)"
  then obtain k where "k < length ift" "ift ! k = Some ie" by (auto simp: set_interfaces in_set_conv_nth)
  then show "\<exists>i. getInterfaceById i ift = Some ie"
    by (intro exI[of _ "INTERFACEIDS_START + int k"]) (simp add: getInterfaceById_def)
next
  assume "\<exists>i. getInterfaceById i ift = Some ie"
  then obtain i where "getInterfaceById i ift = Some ie" by blast
  then have "nat (i - INTERFACEIDS_START) < length ift" "ift ! nat (i - INTERFACEIDS_START) = Some ie"
    by (auto simp: getInterfaceById_def Let_def split: if_splits)
  then show "ie \<in> set (interfaces ift)" by (auto simp: set_interfaces in_set_conv_nth)
qed

definition first_querier :: "simtime \<Rightarrow> IGMP_par \<Rightarrow> RouterInterfaceData" where
  "first_querier now p = new_RouterInterfaceData\<lparr>igmpRouterState := IGMP_RS_QUERIER,
     igmpQueryTimer := Timer_at (now + startupQueryInterval p)\<rparr>"

lemma initialize_loop:
  assumes "igmp_par_ok (igmp_par s)" "querying (igmp_par s)"
    and "\<forall>i. router_if (igmp_routerData s) i \<in> {new_RouterInterfaceData, first_querier now (igmp_par s)}"
  shows "gives (fold_res (\<lambda>ie s. if if_multicast ie then configureInterface now ie s else Inr s) xs s)
    (igmp_par s, igmp_ift s, host_if (igmp_hostData s),
     \<lambda>i. if \<exists>ie\<in>set xs. if_multicast ie \<and> interfaceId ie = i then first_querier now (igmp_par s)
         else router_if (igmp_routerData s) i,
     igmp_out s @ map (\<lambda>ie. query (interfaceId ie) 0 (queryResponseInterval (igmp_par s))) (filter if_multicast xs))"
  using assms
proof (induction xs arbitrary: s)
  case Nil
  then show ?case by (simp add: igmp_view_def)
next
  case (Cons ie xs)
  show ?case
  proof (cases "if_multicast ie")
    case False
    then show ?thesis using Cons.IH[OF Cons.prems] by simp
  next
    case True
    have f: "router_if (igmp_routerData s) (interfaceId ie)\<lparr>igmpRouterState := IGMP_RS_QUERIER,
        igmpQueryTimer := Timer_at (now + startupQueryInterval (igmp_par s))\<rparr> = first_querier now (igmp_par s)"
      using Cons.prems(3)[rule_format, of "interfaceId ie"] by (auto simp: first_querier_def)
    obtain s1 where s1: "configureInterface now ie s = Inr s1" and v: "igmp_view s1 = (igmp_par s, igmp_ift s, host_if (igmp_hostData s),
        (router_if (igmp_routerData s))(interfaceId ie := first_querier now (igmp_par s)),
        igmp_out s @ [query (interfaceId ie) 0 (queryResponseInterval (igmp_par s))])"
      using configure_view[OF refl True Cons.prems(1,2) refl, of now] unfolding f by (auto simp: gives_def)
    have e: "igmp_par s1 = igmp_par s" "igmp_ift s1 = igmp_ift s" "host_if (igmp_hostData s1) = host_if (igmp_hostData s)"
      "router_if (igmp_routerData s1) = (router_if (igmp_routerData s))(interfaceId ie := first_querier now (igmp_par s))"
      using v by (simp_all add: igmp_view_def)
    have "gives (fold_res (\<lambda>ie s. if if_multicast ie then configureInterface now ie s else Inr s) xs s1)
      (igmp_par s1, igmp_ift s1, host_if (igmp_hostData s1),
       \<lambda>i. if \<exists>ie\<in>set xs. if_multicast ie \<and> interfaceId ie = i then first_querier now (igmp_par s1)
           else router_if (igmp_routerData s1) i,
       igmp_out s1 @ map (\<lambda>ie. query (interfaceId ie) 0 (queryResponseInterval (igmp_par s1))) (filter if_multicast xs))"
      by (rule Cons.IH) (use Cons.prems in \<open>auto simp: e\<close>)
    moreover have "igmp_out s1 = igmp_out s @ [query (interfaceId ie) 0 (queryResponseInterval (igmp_par s))]"
      using v by (simp add: igmp_view_def)
    ultimately show ?thesis using s1 True by (auto simp: gives_def e fun_eq_iff)
  qed
qed

lemma initialize_view:
  assumes "igmp_fresh s" "igmp_initialize now s = Inr s'"
  shows "igmp_view s' = (igmp_par s, igmp_ift s, (\<lambda>_. []),
    \<lambda>i. if querying (igmp_par s) \<and> on_multicast i s then first_querier now (igmp_par s) else new_RouterInterfaceData,
    igmp_out s @ (if querying (igmp_par s) then map (\<lambda>ie. query (interfaceId ie) 0 (queryResponseInterval (igmp_par s)))
      (filter if_multicast (interfaces (igmp_ift s))) else []))"
proof -
  have e: "host_if (igmp_hostData s) = (\<lambda>_. [])" "router_if (igmp_routerData s) = (\<lambda>_. new_RouterInterfaceData)"
    using assms(1) by (auto simp: igmp_fresh_def host_if_def router_if_def)
  have p: "igmp_par_ok (igmp_par s)" using assms(1) by (simp add: igmp_fresh_def)
  have ids: "interfaceId ie = i" if "getInterfaceById i (igmp_ift s) = Some ie" for i ie
    using assms(1) that by (auto simp: igmp_fresh_def)
  show ?thesis
  proof (cases "querying (igmp_par s)")
    case True
    have "(\<exists>ie\<in>set (interfaces (igmp_ift s)). if_multicast ie \<and> interfaceId ie = i) \<longleftrightarrow> on_multicast i s" for i
      using ids by (force simp: in_interfaces on_multicast_def split: option.splits)
    then show ?thesis using initialize_loop[OF p True, of now "interfaces (igmp_ift s)"] assms(2) True
      by (simp add: e igmp_initialize_def cong: if_cong)
  next
    case False
    have c: "configureInterface now ie s = Inr s" for ie using False by (auto simp: configureInterface_def querying_def)
    have "fold_res (\<lambda>ie s. if if_multicast ie then configureInterface now ie s else Inr s) xs s = Inr s" for xs
      using c by (induction xs) simp_all
    then have "s' = s" using assms(2) by (simp add: igmp_initialize_def)
    then show ?thesis using e False by (simp add: igmp_view_def fun_eq_iff)
  qed
qed

lemma initialize_ok:
  assumes "igmp_fresh s" "igmp_initialize now s = Inr s'"
  shows "igmp_ok s'"
proof -
  have p: "igmp_par_ok (igmp_par s)" using assms(1) by (simp add: igmp_fresh_def)
  have ids: "interfaceId ie = i" if "getInterfaceById i (igmp_ift s) = Some ie" for i ie
    using assms(1) that by (auto simp: igmp_fresh_def)
  define r where "r i = (if querying (igmp_par s) \<and> on_multicast i s then first_querier now (igmp_par s)
    else new_RouterInterfaceData)" for i
  have r: "(\<lambda>i. if querying (igmp_par s) \<and> on_multicast i s then first_querier now (igmp_par s)
    else new_RouterInterfaceData) = r" by (rule ext) (simp add: r_def)
  have v: "igmp_par s' = igmp_par s" "igmp_ift s' = igmp_ift s" "host_if (igmp_hostData s') = (\<lambda>_. [])"
    "router_if (igmp_routerData s') = r" using initialize_view[OF assms] unfolding r by (auto simp: igmp_view_def)
  have "iface_ok (igmp_par s) ie [] (r i)" if i: "getInterfaceById i (igmp_ift s) = Some ie" for i ie
  proof (cases "if_multicast ie")
    case False
    then show ?thesis using i by (simp add: iface_ok_def r_def on_multicast_def)
  next
    case True
    then obtain d where d: "ipv4data ie = Some d" "host_ok d" "reportedMulticastGroups (getRouterData d) = []"
      "\<forall>g. isMemberOfMulticastGroup g d \<longrightarrow> \<not> reportable g" using assms(1) i unfolding igmp_fresh_def by blast
    then have "host_part_ok d []" "router_part_ok (igmp_par s) d (r i)"
      using True i by (auto simp: host_part_ok_def router_part_ok_def r_def on_multicast_def first_querier_def
          new_RouterInterfaceData_def hasMulticastListener_def)
    then show ?thesis using d(1,2) True by (auto simp: iface_ok_def)
  qed
  moreover have "r i = new_RouterInterfaceData" if "getInterfaceById i (igmp_ift s) = None" for i
    using that by (simp add: r_def on_multicast_def)
  ultimately show ?thesis using p ids by (simp add: igmp_ok_def v split: option.split)
qed

lemma igmp_reachable_ok: "igmp_reachable s \<Longrightarrow> igmp_ok s"
proof (induction rule: igmp_reachable.induct)
  case (start s now s')
  then show ?case by (rule initialize_ok)
next
  case (occurs s now e s')
  then show ?case using igmp_occurs_ok[OF occurs(4,2)] by (auto split: if_splits)
qed


text \<open>A router with one interface, and a query of a router with a lower address for a group it does not know.\<close>

definition sample_igmp_par :: IGMP_par where
  "sample_igmp_par = \<lparr>igmp_enabled = True, externalRouter = False, igmp_forwarding = True, queryInterval = seconds 125,
     queryResponseInterval = seconds 10, groupMembershipInterval = seconds 260,
     otherQuerierPresentInterval = seconds 255, startupQueryInterval = seconds 31, lastMemberQueryInterval = seconds 1,
     lastMemberQueryCount = 2, unsolicitedReportInterval = seconds 10, igmp_uniform = \<lambda>_ m. m\<rparr>"

definition sample_igmp_if :: InterfaceEntry where
  "sample_igmp_if = \<lparr>if_name = ''eth0'', interfaceId = 100, nwLayerGateIndex = 0, mtu = 1500, if_broadcast = True,
     if_multicast = True, if_loopback = False, macAddr = 5,
     ipv4data = Some (new_IPv4InterfaceData\<lparr>inetAddr := 0x0A000005\<rparr>)\<rparr>"

definition sample_igmp :: IGMP where
  "sample_igmp = \<lparr>igmp_par = sample_igmp_par, igmp_ift = [Some sample_igmp_if], igmp_hostData = [], igmp_routerData = [],
     numGroups = 0, numHostGroups = 0, numRouterGroups = 0, numQueriesSent = 0, numQueriesRecv = 0,
     numGeneralQueriesSent = 0, numGeneralQueriesRecv = 0, numGroupSpecificQueriesSent = 0,
     numGroupSpecificQueriesRecv = 0, numReportsSent = 0, numReportsRecv = 0, numLeavesSent = 0, numLeavesRecv = 0,
     igmp_draws = 0, igmp_out = []\<rparr>"

definition sample_query :: igmp_occurrence where
  "sample_query = Input (From_IP \<lparr>ig_type = IGMP_MEMBERSHIP_QUERY, ig_maxRespTime = 10, ig_groupAddress = 0xE1000001\<rparr>
     (new_IPv4ControlInfo\<lparr>ci_srcAddr := 0x0A000001, ci_interfaceId := 100\<rparr>))"

lemma sample_igmp_fresh: "igmp_fresh sample_igmp"
  by (auto simp: igmp_fresh_def sample_igmp_def sample_igmp_par_def igmp_par_ok_def seconds_def sample_igmp_if_def
      new_IPv4InterfaceData_def host_ok_def getHostData_def getRouterData_def isMemberOfMulticastGroup_def
      getInterfaceById_def INTERFACEIDS_START_def Let_def nth_Cons split: if_splits nat.splits)

lemma sample_crash:
  "case igmp_initialize 0 sample_igmp of Inl _ \<Rightarrow> False
   | Inr s \<Rightarrow> possible (seconds 1) sample_query s \<and> crashes sample_query s"
  by code_simp


end
