(* ===== verification/IGMP_Link.thy ===== *)
theory IGMP_Link
  imports IGMP_Node
begin

text \<open>
  IGMP between nodes: one multicast router and any number of hosts on one link. What a node sends is in
  the air until every other node that listens has handled it; the air has no delay and loses nothing.
  Applications join and leave, timers expire, in any order that time allows. The theory shows what the
  protocol is for: as long as a host on the link is a member of a group, the router forwards the group
  to the link, in spite of reports that are suppressed and of members that leave.

  The steps are those that concern the link: of a node with more interfaces, what happens on the others
  is left out.
\<close>

section \<open>The link\<close>

record igmp_link =
  lk_now :: simtime
  lk_nodes :: "IGMP list"
  lk_air :: "(nat \<times> IGMPMessage \<times> IPv4ControlInfo) list"

text \<open>Node 0 is the router; \<open>ifc k\<close> is the interface of node k to the link.\<close>

text \<open>What an operation has sent on an interface.\<close>

fun on_link :: "int \<Rightarrow> igmp_event \<Rightarrow> (IGMPMessage \<times> IPv4ControlInfo) option" where
  "on_link i (IGMP_to_IP msg ci) = (if ci_interfaceId ci = i then Some (msg, ci) else None)"
| "on_link i _ = None"

definition sent_since :: "int \<Rightarrow> IGMP \<Rightarrow> IGMP \<Rightarrow> (IGMPMessage \<times> IPv4ControlInfo) list" where
  "sent_since i s s' = List.map_filter (on_link i) (drop (length (igmp_out s)) (igmp_out s'))"

text \<open>The test of \<^verbatim>\<open>IPv4::preroutingFinish\<close>: a multicast datagram that arrives is delivered to
  members of its group, and IGMP datagrams also to multicast routers.\<close>

definition hears :: "int \<Rightarrow> IPv4Address \<Rightarrow> IGMP \<Rightarrow> bool" where
  "hears i dest s \<longleftrightarrow>
     (case getInterfaceById i (igmp_ift s) of
        None \<Rightarrow> False
      | Some ie \<Rightarrow> (case ipv4data ie of
          None \<Rightarrow> False
        | Some d \<Rightarrow> isMemberOfMulticastGroup dest d \<or> igmp_forwarding (igmp_par s)))"

lemma same_interfaces:
  "igmp_ift s' = igmp_ift s \<Longrightarrow> on_multicast i s' \<longleftrightarrow> on_multicast i s"
  "igmp_ift s' = igmp_ift s \<Longrightarrow> igmp_par s' = igmp_par s \<Longrightarrow> hears i dest s' \<longleftrightarrow> hears i dest s"
  by (simp_all add: on_multicast_def hears_def cong: option.case_cong)

definition hear :: "simtime \<Rightarrow> int \<Rightarrow> IPv4Address \<Rightarrow> IGMPMessage \<Rightarrow> IPv4ControlInfo \<Rightarrow> IGMP \<Rightarrow> IGMP res" where
  "hear now i src msg ci s =
     (if hears i (ci_destAddr ci) s
      then igmp_handleMessage now (From_IP msg (ci\<lparr>ci_srcAddr := src, ci_interfaceId := i\<rparr>)) s
      else Inr s)"

text \<open>Time passes only up to the next timer of an interface.\<close>

definition igmp_timers :: "int \<Rightarrow> IGMP \<Rightarrow> timer list" where
  "igmp_timers i s = igmpQueryTimer (router_if (igmp_routerData s) i)
     # map (hg_timer \<circ> snd) (host_if (igmp_hostData s) i)
     @ concat (map (\<lambda>(_, grp). [rg_timer grp, rg_rexmtTimer grp]) (ri_groups (router_if (igmp_routerData s) i)))"

definition nothing_before :: "simtime \<Rightarrow> int \<Rightarrow> IGMP \<Rightarrow> bool" where
  "nothing_before t i s \<longleftrightarrow> (\<forall>x\<in>set (igmp_timers i s). case x of Timer_at a \<Rightarrow> t \<le> a | _ \<Rightarrow> True)"

text \<open>Applications of hosts join and leave groups that are reported; the router has no applications.\<close>

fun local_to :: "nat \<Rightarrow> int \<Rightarrow> igmp_occurrence \<Rightarrow> bool" where
  "local_to k i (Membership j x) \<longleftrightarrow> j = i \<and> k \<noteq> 0 \<and> reportable (op_group x)"
| "local_to k i (Input (Query_timer j)) \<longleftrightarrow> j = i"
| "local_to k i (Input (Hostgroup_timer j g)) \<longleftrightarrow> j = i"
| "local_to k i (Input (Leave_timer j g)) \<longleftrightarrow> j = i"
| "local_to k i (Input (Rexmt_timer j g)) \<longleftrightarrow> j = i"
| "local_to k i (Input (From_router msg)) \<longleftrightarrow> False"
| "local_to k i (Input (From_IP msg ci)) \<longleftrightarrow> False"

text \<open>Every other node hears what is first in the air; what the nodes send then follows what is already there.\<close>

definition delivered :: "(nat \<Rightarrow> int) \<Rightarrow> igmp_link \<Rightarrow> nat \<Rightarrow> IGMPMessage \<Rightarrow> IPv4ControlInfo \<Rightarrow> IGMP list \<Rightarrow> bool" where
  "delivered ifc L k msg ci ns \<longleftrightarrow> length ns = length (lk_nodes L) \<and> (\<forall>j < length ns. if j = k then ns ! j = lk_nodes L ! j
     else hear (lk_now L) (ifc j) (own_address (ifc k) (lk_nodes L ! k)) msg ci (lk_nodes L ! j) = Inr (ns ! j))"

definition after_delivery :: "(nat \<Rightarrow> int) \<Rightarrow> igmp_link \<Rightarrow> (nat \<times> IGMPMessage \<times> IPv4ControlInfo) list \<Rightarrow> IGMP list \<Rightarrow> igmp_link" where
  "after_delivery ifc L rest ns = L\<lparr>lk_nodes := ns, lk_air := rest @
      concat (map (\<lambda>j. map (Pair j) (sent_since (ifc j) (lk_nodes L ! j) (ns ! j))) [0..<length ns])\<rparr>"

inductive link_step :: "(nat \<Rightarrow> int) \<Rightarrow> igmp_link \<Rightarrow> igmp_link \<Rightarrow> bool" for ifc where
  tick: "lk_air L = [] \<Longrightarrow> lk_now L \<le> t \<Longrightarrow>
    (\<And>k. k < length (lk_nodes L) \<Longrightarrow> nothing_before t (ifc k) (lk_nodes L ! k)) \<Longrightarrow>
    link_step ifc L (L\<lparr>lk_now := t\<rparr>)"
| happens: "lk_air L = [] \<Longrightarrow> k < length (lk_nodes L) \<Longrightarrow> local_to k (ifc k) e \<Longrightarrow>
    possible (lk_now L) e (lk_nodes L ! k) \<Longrightarrow> igmp_occurs (lk_now L) e (lk_nodes L ! k) = Inr s \<Longrightarrow>
    link_step ifc L (L\<lparr>lk_nodes := (lk_nodes L)[k := s],
      lk_air := map (Pair k) (sent_since (ifc k) (lk_nodes L ! k) s)\<rparr>)"
| delivers: "lk_air L = (k, msg, ci) # rest \<Longrightarrow> k < length (lk_nodes L) \<Longrightarrow> delivered ifc L k msg ci ns \<Longrightarrow>
    link_step ifc L (after_delivery ifc L rest ns)"

section \<open>What a host does with what it hears\<close>

text \<open>The parts of a node that hearing leaves alone, and what it sends.\<close>

lemma hear_host:
  assumes ok: "igmp_ok s" and at: "on_multicast i s" and nf: "\<not> igmp_forwarding (igmp_par s)" and msg: "arrives msg"
  obtains s' where "hear now i src msg ci s = Inr s'" "igmp_ok s'" "igmp_par s' = igmp_par s" "igmp_ift s' = igmp_ift s"
    "router_if (igmp_routerData s') = router_if (igmp_routerData s)" "igmp_out s' = igmp_out s"
    "\<not> hears i (ci_destAddr ci) s \<Longrightarrow> s' = s"
    "hears i (ci_destAddr ci) s \<Longrightarrow> ig_type msg = IGMP_MEMBERSHIP_QUERY \<Longrightarrow>
       asked_about (about msg) now (of_resp_code (ig_maxRespTime msg)) (host_if (igmp_hostData s) i) (host_if (igmp_hostData s') i)"
    "hears i (ci_destAddr ci) s \<Longrightarrow> ig_type msg = IGMPV2_MEMBERSHIP_REPORT \<Longrightarrow>
       host_if (igmp_hostData s') i = heard_report (ig_groupAddress msg) (host_if (igmp_hostData s) i)"
    "ig_type msg = IGMPV2_LEAVE_GROUP \<Longrightarrow> host_if (igmp_hostData s') i = host_if (igmp_hostData s) i"
proof (cases "hears i (ci_destAddr ci) s")
  case False
  then show ?thesis using that[of s] ok by (simp add: hear_def)
next
  case True
  let ?ci = "ci\<lparr>ci_srcAddr := src, ci_interfaceId := i\<rparr>" and ?g = "ig_groupAddress msg"
  have en: "igmp_enabled (igmp_par s)" using ok by (simp add: igmp_ok_def igmp_par_ok_def)
  have nq: "\<not> querying (igmp_par s)" using nf by (simp add: querying_def)
  obtain ie d where ie: "getInterfaceById i (igmp_ift s) = Some ie" "if_multicast ie" "ipv4data ie = Some d"
    using on_multicastE[OF at ok] by metis
  have lk: "igmp_interface i s = Inr ie" using ie(1) by (simp add: igmp_interface_def)
  have m: "0 \<le> ig_maxRespTime msg" using msg by (simp add: arrives_def)
  have "\<not> crashes (Input (From_IP msg ?ci)) s" using nq by (simp add: crashes_def)
  then obtain s' where s': "processIgmpMessage now msg ?ci s = Inr s'" "igmp_ok s'"
    using igmp_message_ok[OF ok, of ?ci msg now] at msg by auto
  have h: "hear now i src msg ci s = Inr s'" using s'(1) True en by (simp add: hear_def igmp_handleMessage_def)
  consider (q) "ig_type msg = IGMP_MEMBERSHIP_QUERY" | (r) "ig_type msg = IGMPV2_MEMBERSHIP_REPORT" "reportable ?g"
    | (l) "ig_type msg = IGMPV2_LEAVE_GROUP" "reportable ?g" using msg by (auto simp: arrives_def)
  then show ?thesis
  proof cases
    case q
    then have "processQuery now ie src msg s = Inr s'" using s'(1) lk by (simp add: processIgmpMessage_def)
    with query_view[OF ok ie m, of src now] obtain hs where
      "asked_about (about msg) now (of_resp_code (ig_maxRespTime msg)) (host_if (igmp_hostData s) i) hs"
      "igmp_view s' = (igmp_par s, igmp_ift s, (host_if (igmp_hostData s))(i := hs), router_if (igmp_routerData s), igmp_out s)"
      using nq nf by auto
    then show ?thesis using that[OF h s'(2)] True q by (simp add: igmp_view_def igmp_type_defs)
  next
    case r
    then have "processV2Report now ie msg s = Inr s'" using s'(1) lk by (simp add: processIgmpMessage_def igmp_type_defs)
    with report_view[OF ok ie refl r(2) refl, of now] show ?thesis
      using that[OF h s'(2)] True r nq nf by (simp add: igmp_view_def igmp_type_defs)
  next
    case l
    then have "processLeave now ie msg s = Inr s'" using s'(1) lk by (simp add: processIgmpMessage_def igmp_type_defs)
    with leave_view[OF ok ie(1,2) refl l(2) refl, of now] show ?thesis
      using that[OF h s'(2)] True l nq nf by (simp add: igmp_view_def igmp_type_defs)
  qed
qed

lemma nothing_beforeD:
  assumes "nothing_before t i s"
  shows "igmpQueryTimer (router_if (igmp_routerData s) i) = Timer_at a \<Longrightarrow> t \<le> a"
    "map_of (host_if (igmp_hostData s) i) g = Some grp \<Longrightarrow> hg_timer grp = Timer_at a \<Longrightarrow> t \<le> a"
    "map_of (ri_groups (router_if (igmp_routerData s) i)) g = Some rg \<Longrightarrow> rg_timer rg = Timer_at a \<Longrightarrow> t \<le> a"
  using assms by (force simp: nothing_before_def igmp_timers_def dest: map_of_SomeD)+

section \<open>Messages\<close>

definition report_pair :: "int \<Rightarrow> IPv4Address \<Rightarrow> IGMPMessage \<times> IPv4ControlInfo" where
  "report_pair i g = the (on_link i (report i g))"

definition leave_pair :: "int \<Rightarrow> IPv4Address \<Rightarrow> IGMPMessage \<times> IPv4ControlInfo" where
  "leave_pair i g = the (on_link i (leave_msg i g))"

definition query_pair :: "int \<Rightarrow> IPv4Address \<Rightarrow> simtime \<Rightarrow> IGMPMessage \<times> IPv4ControlInfo" where
  "query_pair i g m = the (on_link i (query i g m))"

lemmas pair_defs = report_pair_def leave_pair_def query_pair_def report_def leave_msg_def query_def

lemma on_link_simps [simp]:
  "on_link i (report i g) = Some (report_pair i g)" "on_link i (leave_msg i g) = Some (leave_pair i g)"
  "on_link i (query i g m) = Some (query_pair i g m)"
  by (simp_all add: pair_defs)

lemma sent_since_append: "igmp_out s' = igmp_out s @ evs \<Longrightarrow> sent_since i s s' = List.map_filter (on_link i) evs"
  by (simp add: sent_since_def)

lemma silent [simp]:
  "List.map_filter (on_link i) (registered j g) = []" "List.map_filter (on_link i) (unregistered j g) = []"
  by (simp_all add: registered_def unregistered_def List.map_filter_simps)

text \<open>The response time that a query carries is never more than the interval it stands for.\<close>

lemma resp_code_le:
  assumes "0 \<le> t"
  shows "0 \<le> resp_code t" "of_resp_code (resp_code t) \<le> t"
proof -
  have "resp_code t = t * 10 div 1000000000000"
    using assms by (cases "t = 0") (simp_all add: resp_code_def seconds_def signed_divide_int_def)
  then show "0 \<le> resp_code t" "of_resp_code (resp_code t) \<le> t"
    using assms by (simp_all add: of_resp_code_def)
qed

section \<open>The router\<close>

definition link_par_ok :: "IGMP_par \<Rightarrow> bool" where
  "link_par_ok p \<longleftrightarrow> querying p \<and> 0 < lastMemberQueryInterval p \<and> 2 \<le> lastMemberQueryCount p
     \<and> lastMemberQueryInterval p \<le> queryResponseInterval p \<and> startupQueryInterval p \<le> queryInterval p
     \<and> queryInterval p + queryResponseInterval p < groupMembershipInterval p"

definition router_node :: "simtime \<Rightarrow> int \<Rightarrow> IGMP \<Rightarrow> bool" where
  "router_node now i s \<longleftrightarrow> igmp_ok s \<and> on_multicast i s \<and> link_par_ok (igmp_par s)
     \<and> host_if (igmp_hostData s) i = [] \<and> igmpRouterState (router_if (igmp_routerData s) i) = IGMP_RS_QUERIER
     \<and> (\<exists>t. igmpQueryTimer (router_if (igmp_routerData s) i) = Timer_at t \<and> now \<le> t \<and> t \<le> now + queryInterval (igmp_par s))"

lemma on_multicast_set:
  assumes "getInterfaceById i (igmp_ift s) = Some ie" "interfaceId ie' = i" "if_multicast ie'" "igmp_ift s' = set_interface ie' (igmp_ift s)"
  shows "on_multicast i s'"
  using assms getInterfaceById_set[of ie' "igmp_ift s" ie] by (simp add: on_multicast_def)

lemma own_address_set:
  assumes "getInterfaceById i (igmp_ift s) = Some ie" "interfaceId ie' = i" "ipv4data ie' = Some d" "igmp_ift s' = set_interface ie' (igmp_ift s)"
  shows "own_address i s' = inetAddr d"
  using assms getInterfaceById_set[of ie' "igmp_ift s" ie] by (simp add: own_address_def)

lemma router_hears:
  assumes "router_node now i s"
  shows "hears i dest s"
proof -
  have ok: "igmp_ok s" "on_multicast i s" "igmp_forwarding (igmp_par s)"
    using assms by (auto simp: router_node_def link_par_ok_def querying_def)
  obtain ie d where "getInterfaceById i (igmp_ift s) = Some ie" "ipv4data ie = Some d"
    using on_multicastE[OF ok(2,1)] by metis
  then show ?thesis using ok(3) by (simp add: hears_def)
qed

lemma hear_router:
  assumes r: "router_node now i s" and msg: "arrives msg" "ig_type msg \<noteq> IGMP_MEMBERSHIP_QUERY"
    and g: "g = ig_groupAddress msg" and ri: "ri = router_if (igmp_routerData s) i"
  obtains s' where "hear now i src msg ci s = Inr s'" "router_node now i s'" "igmp_par s' = igmp_par s"
    "ig_type msg = IGMPV2_MEMBERSHIP_REPORT \<Longrightarrow> router_if (igmp_routerData s') i =
       ri\<lparr>ri_groups := put g (present (now + groupMembershipInterval (igmp_par s)) g) (ri_groups ri)\<rparr>
       \<and> sent_since i s s' = []"
    "ig_type msg = IGMPV2_LEAVE_GROUP \<Longrightarrow> router_if (igmp_routerData s') i = heard_leave now (igmp_par s) g ri
       \<and> sent_since i s s' = (if checks g ri then [query_pair i g (lastMemberQueryInterval (igmp_par s))] else [])"
proof -
  have ok: "igmp_ok s" "on_multicast i s" "link_par_ok (igmp_par s)" "querying (igmp_par s)" "host_if (igmp_hostData s) i = []"
    "igmpRouterState ri = IGMP_RS_QUERIER"
    "\<exists>t. igmpQueryTimer ri = Timer_at t \<and> now \<le> t \<and> t \<le> now + queryInterval (igmp_par s)"
    using r ri by (simp_all add: router_node_def link_par_ok_def)
  have en: "igmp_enabled (igmp_par s)" using ok by (simp add: igmp_ok_def igmp_par_ok_def)
  let ?ci = "ci\<lparr>ci_srcAddr := src, ci_interfaceId := i\<rparr>"
  obtain ie d where ie: "getInterfaceById i (igmp_ift s) = Some ie" "if_multicast ie" "ipv4data ie = Some d" "interfaceId ie = i"
    using on_multicastE[OF ok(2,1)] by metis
  have lk: "igmp_interface i s = Inr ie" using ie(1) by (simp add: igmp_interface_def)
  have "\<not> crashes (Input (From_IP msg ?ci)) s" using msg(2) by (simp add: crashes_def)
  then obtain s' where s': "processIgmpMessage now msg ?ci s = Inr s'" "igmp_ok s'"
    using igmp_message_ok[OF ok(1), of ?ci msg now] ok(2) msg by auto
  have h: "hear now i src msg ci s = Inr s'"
    using s'(1) router_hears[OF r] en by (simp add: hear_def igmp_handleMessage_def)
  consider (r) "ig_type msg = IGMPV2_MEMBERSHIP_REPORT" "reportable g" | (l) "ig_type msg = IGMPV2_LEAVE_GROUP" "reportable g"
    using msg g by (auto simp: arrives_def)
  then show ?thesis
  proof cases
    case r
    then have "processV2Report now ie msg s = Inr s'" using s'(1) lk by (simp add: processIgmpMessage_def igmp_type_defs)
    with report_view[OF ok(1) ie(1-3) g[symmetric] r(2) ri, of now] have v: "igmp_view s' = (igmp_par s,
        if \<not> hasMulticastListener g d then set_interface (ie\<lparr>ipv4data := Some (listen g d)\<rparr>) (igmp_ift s) else igmp_ift s,
        (host_if (igmp_hostData s))(i := heard_report g []),
        (router_if (igmp_routerData s))(i := ri\<lparr>ri_groups := put g (present (now + groupMembershipInterval (igmp_par s)) g) (ri_groups ri)\<rparr>),
        igmp_out s @ (if hasMulticastListener g d then [] else registered i g))"
      using ok(4,5) by simp
    have "on_multicast i s'"
      using v on_multicast_set[OF ie(1), of "ie\<lparr>ipv4data := Some (listen g d)\<rparr>" s'] ie ok(2)
      by (cases "hasMulticastListener g d") (simp_all add: igmp_view_def on_multicast_def)
    moreover have "sent_since i s s' = []" using v by (simp add: igmp_view_def sent_since_append List.map_filter_simps)
    ultimately show ?thesis
      using that[OF h] s'(2) v ok r by (simp add: router_node_def igmp_view_def heard_report_def igmp_type_defs)
  next
    case l
    then have "processLeave now ie msg s = Inr s'" using s'(1) lk by (simp add: processIgmpMessage_def igmp_type_defs)
    with leave_view[OF ok(1) ie(1,2) g[symmetric] l(2) ri, of now] have v: "igmp_view s' = (igmp_par s, igmp_ift s,
        host_if (igmp_hostData s), (router_if (igmp_routerData s))(i := heard_leave now (igmp_par s) g ri),
        igmp_out s @ (if checks g ri then [query i g (lastMemberQueryInterval (igmp_par s))] else []))"
      using ok(4) by simp
    have "igmpRouterState (heard_leave now (igmp_par s) g ri) = igmpRouterState ri
        \<and> igmpQueryTimer (heard_leave now (igmp_par s) g ri) = igmpQueryTimer ri"
      by (simp add: heard_leave_def split: option.split)
    then show ?thesis
      using that[OF h] s'(2) v ok l
      by (simp add: router_node_def igmp_view_def igmp_type_defs on_multicast_def sent_since_append List.map_filter_simps)
  qed
qed

section \<open>The hosts\<close>

definition host_node :: "simtime \<Rightarrow> simtime \<Rightarrow> int \<Rightarrow> IGMP \<Rightarrow> bool" where
  "host_node gmi now i s \<longleftrightarrow> igmp_ok s \<and> on_multicast i s \<and> \<not> igmp_forwarding (igmp_par s)
     \<and> unsolicitedReportInterval (igmp_par s) < gmi \<and> hears i ALL_HOSTS_MCAST s
     \<and> (\<forall>g grp t. map_of (host_if (igmp_hostData s) i) g = Some grp \<longrightarrow> hg_timer grp = Timer_at t \<longrightarrow> now \<le> t)"

lemma not_querying: "\<not> igmp_forwarding p \<Longrightarrow> \<not> querying p"
  by (simp add: querying_def)

lemma host_router_if:
  assumes "igmp_ok s" "\<not> igmp_forwarding (igmp_par s)" "on_multicast i s"
  shows "router_if (igmp_routerData s) i = new_RouterInterfaceData"
  using on_multicastE[OF assms(3,1)] not_querying[OF assms(2)] by (auto simp: router_part_ok_def)

lemma hears_member:
  assumes "igmp_ok s" "on_multicast i s" "map_of (host_if (igmp_hostData s) i) g = Some grp"
  shows "hears i g s" "reportable g" "host_group_ok g grp"
proof -
  obtain ie d where d: "getInterfaceById i (igmp_ift s) = Some ie" "ipv4data ie = Some d" "host_part_ok d (host_if (igmp_hostData s) i)"
    using on_multicastE[OF assms(2,1)] by metis
  show "hears i g s" "reportable g" "host_group_ok g grp"
    using host_part_member[OF d(3) assms(3)] d(1,2) by (simp_all add: hears_def)
qed

text \<open>A group of a host after the host heard a message.\<close>

lemma heard_timer:
  assumes "map_of (heard_report g hs) h = Some grp" "hg_timer grp = Timer_at t"
  shows "map_of hs h = Some grp"
  using assms by (auto simp: heard_report_def split: option.splits if_splits)

lemma asked_aboutD:
  assumes "asked_about G now m a b" "map_of b g = Some grp'"
  obtains grp where "map_of a g = Some grp" "if G g then asked now m grp grp' else grp' = grp"
  using assms by (auto simp: asked_about_def maybe_asked_def dest!: spec[of _ g] split: option.splits)

lemma hear_host_node:
  assumes h: "host_node gmi now i s" and msg: "arrives msg" and r: "hear now i src msg ci s = Inr s'"
  shows "host_node gmi now i s'" "igmp_par s' = igmp_par s" "sent_since i s s' = []"
    "\<not> hears i (ci_destAddr ci) s \<Longrightarrow> s' = s"
    "hears i (ci_destAddr ci) s \<Longrightarrow> ig_type msg = IGMP_MEMBERSHIP_QUERY \<Longrightarrow>
       asked_about (about msg) now (of_resp_code (ig_maxRespTime msg)) (host_if (igmp_hostData s) i) (host_if (igmp_hostData s') i)"
    "hears i (ci_destAddr ci) s \<Longrightarrow> ig_type msg = IGMPV2_MEMBERSHIP_REPORT \<Longrightarrow>
       host_if (igmp_hostData s') i = heard_report (ig_groupAddress msg) (host_if (igmp_hostData s) i)"
    "ig_type msg = IGMPV2_LEAVE_GROUP \<Longrightarrow> host_if (igmp_hostData s') i = host_if (igmp_hostData s) i"
proof -
  have ok: "igmp_ok s" "on_multicast i s" "\<not> igmp_forwarding (igmp_par s)" using h by (simp_all add: host_node_def)
  obtain s1 where s1: "hear now i src msg ci s = Inr s1" "igmp_ok s1" "igmp_par s1 = igmp_par s" "igmp_ift s1 = igmp_ift s"
    "igmp_out s1 = igmp_out s" "\<not> hears i (ci_destAddr ci) s \<Longrightarrow> s1 = s"
    "hears i (ci_destAddr ci) s \<Longrightarrow> ig_type msg = IGMP_MEMBERSHIP_QUERY \<Longrightarrow>
       asked_about (about msg) now (of_resp_code (ig_maxRespTime msg)) (host_if (igmp_hostData s) i) (host_if (igmp_hostData s1) i)"
    "hears i (ci_destAddr ci) s \<Longrightarrow> ig_type msg = IGMPV2_MEMBERSHIP_REPORT \<Longrightarrow>
       host_if (igmp_hostData s1) i = heard_report (ig_groupAddress msg) (host_if (igmp_hostData s) i)"
    "ig_type msg = IGMPV2_LEAVE_GROUP \<Longrightarrow> host_if (igmp_hostData s1) i = host_if (igmp_hostData s) i"
    by (rule hear_host[OF ok msg, of now src ci]) (rule that; assumption)
  have e: "s1 = s'" using s1(1) r by simp
  have t: "now \<le> t" if m: "map_of (host_if (igmp_hostData s') i) g = Some grp" "hg_timer grp = Timer_at t" for g grp t
  proof -
    have old: "now \<le> t'" if "map_of (host_if (igmp_hostData s) i) g = Some grp'" "hg_timer grp' = Timer_at t'" for grp' t'
      using h that by (auto simp: host_node_def)
    show ?thesis
    proof (cases "hears i (ci_destAddr ci) s")
      case False
      then show ?thesis using old m s1(6) e by simp
    next
      case True
      consider "ig_type msg = IGMP_MEMBERSHIP_QUERY" | "ig_type msg = IGMPV2_MEMBERSHIP_REPORT" | "ig_type msg = IGMPV2_LEAVE_GROUP"
        using msg by (auto simp: arrives_def)
      then show ?thesis
      proof cases
        case 1
        obtain grp0 where "map_of (host_if (igmp_hostData s) i) g = Some grp0"
          "if about msg g then asked now (of_resp_code (ig_maxRespTime msg)) grp0 grp else grp = grp0"
          by (rule asked_aboutD[OF s1(7)[OF True 1, unfolded e] m(1)])
        then show ?thesis using old m(2) by (auto simp: asked_def split: if_splits)
      next
        case 2
        then show ?thesis using heard_timer[OF _ m(2)] old m s1(8)[OF True 2, unfolded e] by simp
      next
        case 3
        then show ?thesis using old m s1(9)[OF 3] e by simp
      qed
    qed
  qed
  have "on_multicast i s'" "hears i ALL_HOSTS_MCAST s'"
    using h s1(3,4)[unfolded e] same_interfaces[of s' s] by (simp_all add: host_node_def)
  then show "host_node gmi now i s'" using h s1(2,3) t e by (simp add: host_node_def)
  show "igmp_par s' = igmp_par s" "sent_since i s s' = []" using s1(3,5) e by (simp_all add: sent_since_def List.map_filter_simps)
  show "\<not> hears i (ci_destAddr ci) s \<Longrightarrow> s' = s" using s1(6) e by simp
  show "hears i (ci_destAddr ci) s \<Longrightarrow> ig_type msg = IGMP_MEMBERSHIP_QUERY \<Longrightarrow>
       asked_about (about msg) now (of_resp_code (ig_maxRespTime msg)) (host_if (igmp_hostData s) i) (host_if (igmp_hostData s') i)"
    using s1(7) e by simp
  show "hears i (ci_destAddr ci) s \<Longrightarrow> ig_type msg = IGMPV2_MEMBERSHIP_REPORT \<Longrightarrow>
       host_if (igmp_hostData s') i = heard_report (ig_groupAddress msg) (host_if (igmp_hostData s) i)" using s1(8) e by simp
  show "ig_type msg = IGMPV2_LEAVE_GROUP \<Longrightarrow> host_if (igmp_hostData s') i = host_if (igmp_hostData s) i" using s1(9) e by simp
qed

section \<open>What happens on a node\<close>

lemma router_event:
  assumes r: "router_node now i s" and e: "local_to 0 i e" "possible now e s" "igmp_occurs now e s = Inr s'"
    and ri: "ri = router_if (igmp_routerData s) i" "ri' = router_if (igmp_routerData s') i"
  shows "router_node now i s'" "igmp_par s' = igmp_par s"
    "igmpQueryTimer ri = Timer_at now \<and> sent_since i s s' = [query_pair i 0 (queryResponseInterval (igmp_par s))]
       \<and> ri_groups ri' = ri_groups ri
     \<or> (\<exists>g grp. map_of (ri_groups ri) g = Some grp \<and> rg_timer grp = Timer_at now \<and> sent_since i s s' = []
          \<and> ri' = ri\<lparr>ri_groups := erase g (ri_groups ri)\<rparr>)
     \<or> (\<exists>g grp grp'. reportable g \<and> map_of (ri_groups ri) g = Some grp \<and> rg_timer grp' = rg_timer grp
          \<and> sent_since i s s' = [query_pair i g (lastMemberQueryInterval (igmp_par s))]
          \<and> ri' = ri\<lparr>ri_groups := put g grp' (ri_groups ri)\<rparr>)"
proof -
  have ok: "igmp_ok s" "on_multicast i s" "link_par_ok (igmp_par s)" "host_if (igmp_hostData s) i = []"
    "igmpRouterState ri = IGMP_RS_QUERIER"
    "\<exists>t. igmpQueryTimer ri = Timer_at t \<and> now \<le> t \<and> t \<le> now + queryInterval (igmp_par s)"
    using r ri by (simp_all add: router_node_def)
  have en: "igmp_enabled (igmp_par s)" "0 \<le> queryInterval (igmp_par s)" using ok(1) by (simp_all add: igmp_ok_def igmp_par_ok_def)
  obtain ie d where ie: "getInterfaceById i (igmp_ift s) = Some ie" "if_multicast ie" "ipv4data ie = Some d" "interfaceId ie = i"
    and d: "router_part_ok (igmp_par s) d ri"
    using on_multicastE[OF ok(2,1)] ri by metis
  have at: "attached i ie s" by (rule attachedI[OF ok(1) ie(1,2)])
  have ok': "igmp_ok s'" using igmp_occurs_ok[OF ok(1) e(2)] e(3) by (auto split: if_splits)
  consider "e = Input (Query_timer i)" | g where "e = Input (Leave_timer i g)" | g where "e = Input (Rexmt_timer i g)"
    using e(1,2) ok(4) by (cases "(0::nat, i, e)" rule: local_to.cases) auto
  then have "router_node now i s' \<and> igmp_par s' = igmp_par s \<and> (igmpQueryTimer ri = Timer_at now
       \<and> sent_since i s s' = [query_pair i 0 (queryResponseInterval (igmp_par s))] \<and> ri_groups ri' = ri_groups ri
     \<or> (\<exists>g grp. map_of (ri_groups ri) g = Some grp \<and> rg_timer grp = Timer_at now \<and> sent_since i s s' = []
          \<and> ri' = ri\<lparr>ri_groups := erase g (ri_groups ri)\<rparr>)
     \<or> (\<exists>g grp grp'. reportable g \<and> map_of (ri_groups ri) g = Some grp \<and> rg_timer grp' = rg_timer grp
          \<and> sent_since i s s' = [query_pair i g (lastMemberQueryInterval (igmp_par s))]
          \<and> ri' = ri\<lparr>ri_groups := put g grp' (ri_groups ri)\<rparr>))"
  proof cases
    case 1
    then have v: "igmp_view s' = (igmp_par s, igmp_ift s, host_if (igmp_hostData s), (router_if (igmp_routerData s))(i :=
        ri\<lparr>igmpRouterState := IGMP_RS_QUERIER, igmpQueryTimer := Timer_at (now + queryInterval (igmp_par s))\<rparr>),
        igmp_out s @ [query i 0 (queryResponseInterval (igmp_par s))])"
      using query_timer_view[OF at ri(1), of now] ok(5) e(3) en by (simp add: igmp_handleMessage_def)
    have q: "igmpQueryTimer ri = Timer_at now" using e(2) 1 ri by simp
    have "router_node now i s'" using v ok ok' en by (simp add: router_node_def igmp_view_def same_interfaces(1)[of s' s])
    moreover have "igmp_par s' = igmp_par s" "ri_groups ri' = ri_groups ri"
      "sent_since i s s' = [query_pair i 0 (queryResponseInterval (igmp_par s))]"
      using v ri by (simp_all add: igmp_view_def sent_since_append List.map_filter_simps)
    ultimately show ?thesis using q by blast
  next
    case (2 g)
    then obtain grp where g: "map_of (ri_groups ri) g = Some grp" "rg_timer grp = Timer_at now" using e(2) ri by auto
    have m: "router_group_ok g grp" "hasMulticastListener g d" using router_part_member[OF d g(1)] by simp_all
    have v: "igmp_view s' = (igmp_par s, set_interface (ie\<lparr>ipv4data := Some (unlisten g d)\<rparr>) (igmp_ift s),
        host_if (igmp_hostData s), (router_if (igmp_routerData s))(i := ri\<lparr>ri_groups := erase g (ri_groups ri)\<rparr>),
        igmp_out s @ unregistered i g)"
      using leave_timer_view[OF at ie(3) m(2) ri(1) g(1) m(1)] 2 e(3) en by (simp add: igmp_handleMessage_def)
    have "on_multicast i s'" by (rule on_multicast_set[OF ie(1)]) (use v ie in \<open>simp_all add: igmp_view_def\<close>)
    then have "router_node now i s'" using v ok ok' by (simp add: router_node_def igmp_view_def)
    moreover have "igmp_par s' = igmp_par s" "sent_since i s s' = []" "ri' = ri\<lparr>ri_groups := erase g (ri_groups ri)\<rparr>"
      using v ri by (simp_all add: igmp_view_def sent_since_append)
    ultimately show ?thesis using g by blast
  next
    case (3 g)
    then obtain grp where g: "map_of (ri_groups ri) g = Some grp" using e(2) ri by auto
    have m: "router_group_ok g grp" using router_part_member[OF d g] by simp
    let ?grp = "grp\<lparr>rg_rexmtTimer := Timer_at (now + lastMemberQueryInterval (igmp_par s)), rg_state := IGMP_RGS_CHECKING_MEMBERSHIP\<rparr>"
    have v: "igmp_view s' = (igmp_par s, igmp_ift s, host_if (igmp_hostData s),
        (router_if (igmp_routerData s))(i := ri\<lparr>ri_groups := put g ?grp (ri_groups ri)\<rparr>),
        igmp_out s @ [query i g (lastMemberQueryInterval (igmp_par s))])"
      using rexmt_timer_view[OF at ri(1) g m, of now] ok(5) 3 e(3) en by (simp add: igmp_handleMessage_def)
    have "router_node now i s'" using v ok ok' by (simp add: router_node_def igmp_view_def same_interfaces(1)[of s' s])
    moreover have "igmp_par s' = igmp_par s" "ri' = ri\<lparr>ri_groups := put g ?grp (ri_groups ri)\<rparr>"
      "sent_since i s s' = [query_pair i g (lastMemberQueryInterval (igmp_par s))]"
      using v ri by (simp_all add: igmp_view_def sent_since_append List.map_filter_simps)
    moreover have "reportable g" "rg_timer ?grp = rg_timer grp" using m by (simp_all add: router_group_ok_def)
    ultimately show ?thesis using g by blast
  qed
  then show "router_node now i s'" "igmp_par s' = igmp_par s"
    "igmpQueryTimer ri = Timer_at now \<and> sent_since i s s' = [query_pair i 0 (queryResponseInterval (igmp_par s))]
       \<and> ri_groups ri' = ri_groups ri
     \<or> (\<exists>g grp. map_of (ri_groups ri) g = Some grp \<and> rg_timer grp = Timer_at now \<and> sent_since i s s' = []
          \<and> ri' = ri\<lparr>ri_groups := erase g (ri_groups ri)\<rparr>)
     \<or> (\<exists>g grp grp'. reportable g \<and> map_of (ri_groups ri) g = Some grp \<and> rg_timer grp' = rg_timer grp
          \<and> sent_since i s s' = [query_pair i g (lastMemberQueryInterval (igmp_par s))]
          \<and> ri' = ri\<lparr>ri_groups := put g grp' (ri_groups ri)\<rparr>)"
    by blast+
qed

lemma hears_set:
  assumes "getInterfaceById i (igmp_ift s) = Some ie" "interfaceId ie' = i" "ipv4data ie' = Some d"
    "igmp_ift s' = set_interface ie' (igmp_ift s)"
  shows "hears i g s' \<longleftrightarrow> isMemberOfMulticastGroup g d \<or> igmp_forwarding (igmp_par s')"
  using assms getInterfaceById_set[of ie' "igmp_ift s" ie] by (simp add: hears_def)

lemma all_hosts_not_reportable: "\<not> reportable ALL_HOSTS_MCAST"
  by code_simp

lemma host_event:
  assumes h: "host_node gmi now i s" and k: "0 < k" and e: "local_to k i e" "possible now e s" "igmp_occurs now e s = Inr s'"
    and hs: "hs = host_if (igmp_hostData s) i" "hs' = host_if (igmp_hostData s') i"
  shows "host_node gmi now i s'"
    "sent_since i s s' = [] \<and> hs' = hs
     \<or> (\<exists>g grp. reportable g \<and> sent_since i s s' = [report_pair i g] \<and> hs' = put g grp hs
          \<and> (\<forall>a. hg_timer grp = Timer_at a \<longrightarrow> a < now + gmi))
     \<or> (\<exists>g. reportable g \<and> (sent_since i s s' = [] \<or> sent_since i s s' = [leave_pair i g]) \<and> hs' = erase g hs)"
proof -
  have ok: "igmp_ok s" "on_multicast i s" "\<not> igmp_forwarding (igmp_par s)" "hears i ALL_HOSTS_MCAST s"
    "unsolicitedReportInterval (igmp_par s) < gmi"
    and old: "\<And>g grp t. map_of hs g = Some grp \<Longrightarrow> hg_timer grp = Timer_at t \<Longrightarrow> now \<le> t"
    using h hs(1) by (auto simp: host_node_def)
  have en: "igmp_enabled (igmp_par s)" using ok(1) by (simp add: igmp_ok_def igmp_par_ok_def)
  obtain ie d where ie: "getInterfaceById i (igmp_ift s) = Some ie" "if_multicast ie" "ipv4data ie = Some d" "interfaceId ie = i"
    and d: "host_part_ok d hs"
    using on_multicastE[OF ok(2,1)] hs(1) by metis
  have at: "attached i ie s" by (rule attachedI[OF ok(1) ie(1,2)])
  have all: "isMemberOfMulticastGroup ALL_HOSTS_MCAST d" using ok(3,4) ie by (simp add: hears_def)
  have ok': "igmp_ok s'" using igmp_occurs_ok[OF ok(1) e(2)] e(3) by (auto split: if_splits)
  have quiet: "router_if (igmp_routerData s) i = new_RouterInterfaceData" by (rule host_router_if[OF ok(1,3,2)])
  have node: "host_node gmi now i s'" if "igmp_par s' = igmp_par s" "igmp_ift s' = set_interface (ie\<lparr>ipv4data := Some d'\<rparr>) (igmp_ift s)"
    "isMemberOfMulticastGroup ALL_HOSTS_MCAST d'"
    "\<And>g grp t. map_of hs' g = Some grp \<Longrightarrow> hg_timer grp = Timer_at t \<Longrightarrow> now \<le> t" for d'
  proof -
    have "on_multicast i s'" by (rule on_multicast_set[OF ie(1) _ _ that(2)]) (simp_all add: ie)
    moreover have "hears i ALL_HOSTS_MCAST s'" using hears_set[OF ie(1) _ _ that(2)] that(3) ie(4) by simp
    ultimately show ?thesis using ok' ok(3,5) that(1,4) hs(2) by (auto simp: host_node_def)
  qed
  consider g where "e = Membership i (Join g)" "reportable g" | g where "e = Membership i (Leave g)" "reportable g"
    | g where "e = Input (Hostgroup_timer i g)"
  proof (cases e)
    case (Membership j x)
    then show thesis using that e(1) by (cases x) auto
  next
    case (Input x)
    then show thesis using that e(1,2) quiet by (cases x) (auto simp: new_RouterInterfaceData_def)
  qed
  then have "host_node gmi now i s' \<and> (sent_since i s s' = [] \<and> hs' = hs
     \<or> (\<exists>g grp. reportable g \<and> sent_since i s s' = [report_pair i g] \<and> hs' = put g grp hs
          \<and> (\<forall>a. hg_timer grp = Timer_at a \<longrightarrow> a < now + gmi))
     \<or> (\<exists>g. reportable g \<and> (sent_since i s s' = [] \<or> sent_since i s s' = [leave_pair i g]) \<and> hs' = erase g hs))"
  proof cases
    case (1 g)
    have g: "ip_isMulticast g" using 1(2) by (simp add: reportable_def)
    obtain d' t where d': "host_ok d'" "\<And>h. isMemberOfMulticastGroup h d' \<longleftrightarrow> isMemberOfMulticastGroup h d \<or> h = g"
      "getRouterData d' = getRouterData d" "inetAddr d' = inetAddr d"
      and t: "now \<le> t" "t \<le> now + unsolicitedReportInterval (igmp_par s)"
      and "gives (change_membership now i (Join g) s) (igmp_par s, set_interface (ie\<lparr>ipv4data := Some d'\<rparr>) (igmp_ift s),
        (host_if (igmp_hostData s))(i := if reportable g \<and> \<not> isMemberOfMulticastGroup g d then put g (new_member t g) hs else hs),
        router_if (igmp_routerData s),
        igmp_out s @ (if reportable g \<and> \<not> isMemberOfMulticastGroup g d then [report i g] else []))"
      by (rule join_view[OF ok(1) ie(1,2,3) g hs(1), of now], rule that)
    then have v: "igmp_view s' = (igmp_par s, set_interface (ie\<lparr>ipv4data := Some d'\<rparr>) (igmp_ift s),
        (host_if (igmp_hostData s))(i := if \<not> isMemberOfMulticastGroup g d then put g (new_member t g) hs else hs),
        router_if (igmp_routerData s), igmp_out s @ (if \<not> isMemberOfMulticastGroup g d then [report i g] else []))"
      using 1 e(3) by simp
    then have hs': "hs' = (if \<not> isMemberOfMulticastGroup g d then put g (new_member t g) hs else hs)"
      "sent_since i s s' = (if \<not> isMemberOfMulticastGroup g d then [report_pair i g] else [])"
      "igmp_par s' = igmp_par s" "igmp_ift s' = set_interface (ie\<lparr>ipv4data := Some d'\<rparr>) (igmp_ift s)"
      using hs(2) by (simp_all add: igmp_view_def sent_since_append List.map_filter_simps)
    have "now \<le> a" if "map_of hs' h = Some grp" "hg_timer grp = Timer_at a" for h grp a
      using that hs'(1) old t(1) by (auto simp: new_member_def split: if_splits)
    then have "host_node gmi now i s'" using node[OF hs'(3,4)] d'(2) all by blast
    moreover have "\<forall>a. hg_timer (new_member t g) = Timer_at a \<longrightarrow> a < now + gmi" using t(2) ok(5) by (simp add: new_member_def)
    ultimately show ?thesis using hs'(1,2) 1(2) by (cases "isMemberOfMulticastGroup g d") auto
  next
    case (2 g)
    have g: "ip_isMulticast g" using 2(2) by (simp add: reportable_def)
    define gone where "gone \<longleftrightarrow> reportable g \<and> group_count d g = 1"
    obtain d' where d': "host_ok d'"
      "\<And>h. isMemberOfMulticastGroup h d' \<longleftrightarrow> isMemberOfMulticastGroup h d \<and> \<not> (h = g \<and> group_count d g = 1)"
      "getRouterData d' = getRouterData d" "inetAddr d' = inetAddr d"
      and "gives (change_membership now i (Leave g) s) (igmp_par s, set_interface (ie\<lparr>ipv4data := Some d'\<rparr>) (igmp_ift s),
        (host_if (igmp_hostData s))(i := if gone then erase g hs else hs), router_if (igmp_routerData s),
        igmp_out s @ (if gone \<and> (\<exists>grp. map_of hs g = Some grp \<and> hg_flag grp) then [leave_msg i g] else []))"
      by (rule leave_group_view[OF ok(1) ie(1,2,3) g hs(1) gone_def, of now], rule that)
    then have v: "igmp_view s' = (igmp_par s, set_interface (ie\<lparr>ipv4data := Some d'\<rparr>) (igmp_ift s),
        (host_if (igmp_hostData s))(i := if gone then erase g hs else hs), router_if (igmp_routerData s),
        igmp_out s @ (if gone \<and> (\<exists>grp. map_of hs g = Some grp \<and> hg_flag grp) then [leave_msg i g] else []))"
      using 2 e(3) by simp
    then have hs': "hs' = (if gone then erase g hs else hs)" "igmp_par s' = igmp_par s"
      "sent_since i s s' = (if gone \<and> (\<exists>grp. map_of hs g = Some grp \<and> hg_flag grp) then [leave_pair i g] else [])"
      "igmp_ift s' = set_interface (ie\<lparr>ipv4data := Some d'\<rparr>) (igmp_ift s)"
      using hs(2) by (simp_all add: igmp_view_def sent_since_append List.map_filter_simps)
    have "now \<le> a" if "map_of hs' h = Some grp" "hg_timer grp = Timer_at a" for h grp a
      using that hs'(1) old by (auto split: if_splits)
    moreover have "isMemberOfMulticastGroup ALL_HOSTS_MCAST d'"
      using d'(2) all all_hosts_not_reportable 2(2) by auto
    ultimately have "host_node gmi now i s'" using node[OF hs'(2,4)] by blast
    then show ?thesis using hs'(1,3) 2(2) by (cases gone) auto
  next
    case (3 g)
    then obtain grp where g: "map_of hs g = Some grp" using e(2) hs(1) by auto
    have r: "reportable g" "host_group_ok g grp" using host_part_member[OF d g] by simp_all
    let ?grp = "grp\<lparr>hg_timer := Timer_idle, hg_flag := True, hg_state := IGMP_HGS_IDLE_MEMBER\<rparr>"
    have "igmp_view s' = (igmp_par s, igmp_ift s, (host_if (igmp_hostData s))(i := put g ?grp hs),
        router_if (igmp_routerData s), igmp_out s @ [report i g])"
      using host_timer_view[OF at r(1) g[unfolded hs(1)] r(2)] 3 e(3) en hs(1) by (simp add: igmp_handleMessage_def)
    then have hs': "hs' = put g ?grp hs" "igmp_par s' = igmp_par s" "sent_since i s s' = [report_pair i g]" "igmp_ift s' = igmp_ift s"
      using hs(2) by (simp_all add: igmp_view_def sent_since_append List.map_filter_simps)
    have "now \<le> a" if "map_of hs' h = Some grp" "hg_timer grp = Timer_at a" for h grp a
      using that hs'(1) old by (auto split: if_splits)
    moreover have "igmp_ift s' = set_interface (ie\<lparr>ipv4data := Some d\<rparr>) (igmp_ift s)"
      using set_interface_same[OF ie(1,4)] ie(3) hs'(4) by (cases ie) simp
    ultimately have "host_node gmi now i s'" using node[OF hs'(2)] all by blast
    moreover have "\<forall>a. hg_timer ?grp = Timer_at a \<longrightarrow> a < now + gmi" by simp
    ultimately show ?thesis using hs'(1,3) r(1) by blast
  qed
  then show "host_node gmi now i s'" "sent_since i s s' = [] \<and> hs' = hs
     \<or> (\<exists>g grp. reportable g \<and> sent_since i s s' = [report_pair i g] \<and> hs' = put g grp hs
          \<and> (\<forall>a. hg_timer grp = Timer_at a \<longrightarrow> a < now + gmi))
     \<or> (\<exists>g. reportable g \<and> (sent_since i s s' = [] \<or> sent_since i s s' = [leave_pair i g]) \<and> hs' = erase g hs)"
    by blast+
qed

end
