(* ===== verification/IGMP_Service.thy ===== *)
theory IGMP_Service
  imports IGMP_Link
begin

text \<open>
  Why a router serves the members on its link: whatever has happened, every member either reports its
  group, or answers the next query, before the router forgets the group.
\<close>

section \<open>The invariant of the link\<close>

definition next_query :: "RouterInterfaceData \<Rightarrow> simtime" where
  "next_query ri = (case igmpQueryTimer ri of Timer_at t \<Rightarrow> t | _ \<Rightarrow> 0)"

text \<open>
  An entry of a host is covered when the router will hear a report of the group before it forgets the
  group: the host reports in time, or answers a query that is sent at \<open>x\<close>.
\<close>

definition covered :: "simtime \<Rightarrow> simtime \<Rightarrow> RouterInterfaceData \<Rightarrow> IPv4Address \<Rightarrow> HostGroupData \<Rightarrow> bool" where
  "covered x m ri g grp \<longleftrightarrow> (\<exists>rg t. map_of (ri_groups ri) g = Some rg \<and> rg_timer rg = Timer_at t
     \<and> (case hg_timer grp of Timer_at a \<Rightarrow> a < t | _ \<Rightarrow> x + m < t))"

definition host_groups :: "(nat \<Rightarrow> int) \<Rightarrow> igmp_link \<Rightarrow> nat \<Rightarrow> HostInterfaceData" where
  "host_groups ifc L k = host_if (igmp_hostData (lk_nodes L ! k)) (ifc k)"

definition link_router :: "(nat \<Rightarrow> int) \<Rightarrow> igmp_link \<Rightarrow> RouterInterfaceData" where
  "link_router ifc L = router_if (igmp_routerData (lk_nodes L ! 0)) (ifc 0)"

definition link_par :: "igmp_link \<Rightarrow> IGMP_par" where
  "link_par L = igmp_par (lk_nodes L ! 0)"

definition all_covered :: "(nat \<Rightarrow> int) \<Rightarrow> simtime \<Rightarrow> (IPv4Address \<Rightarrow> bool) \<Rightarrow> igmp_link \<Rightarrow> bool" where
  "all_covered ifc x G L \<longleftrightarrow> (\<forall>k g grp. 0 < k \<longrightarrow> k < length (lk_nodes L) \<longrightarrow> G g \<longrightarrow> map_of (host_groups ifc L k) g = Some grp \<longrightarrow>
     covered x (queryResponseInterval (link_par L)) (link_router ifc L) g grp)"

text \<open>What is in the air, and what it will repair.\<close>

inductive air_ok :: "(nat \<Rightarrow> int) \<Rightarrow> igmp_link \<Rightarrow> bool" for ifc L where
  calm: "lk_air L = [] \<Longrightarrow> all_covered ifc (next_query (link_router ifc L)) (\<lambda>_. True) L \<Longrightarrow> air_ok ifc L"
| asking: "lk_air L = replicate (Suc n) (0, query_pair (ifc 0) 0 (queryResponseInterval (link_par L))) \<Longrightarrow>
    all_covered ifc (lk_now L) (\<lambda>_. True) L \<Longrightarrow> air_ok ifc L"
| reporting: "lk_air L = [(k, report_pair (ifc k) g)] \<Longrightarrow> 0 < k \<Longrightarrow> k < length (lk_nodes L) \<Longrightarrow> reportable g \<Longrightarrow>
    all_covered ifc (next_query (link_router ifc L)) (\<lambda>h. h \<noteq> g) L \<Longrightarrow>
    (\<And>grp a. map_of (host_groups ifc L k) g = Some grp \<Longrightarrow> hg_timer grp = Timer_at a \<Longrightarrow>
       a < lk_now L + groupMembershipInterval (link_par L)) \<Longrightarrow> air_ok ifc L"
| leaving: "lk_air L = [(k, leave_pair (ifc k) g)] \<Longrightarrow> 0 < k \<Longrightarrow> k < length (lk_nodes L) \<Longrightarrow> reportable g \<Longrightarrow>
    all_covered ifc (next_query (link_router ifc L)) (\<lambda>_. True) L \<Longrightarrow> air_ok ifc L"
| verifying: "lk_air L = [(0, query_pair (ifc 0) g (lastMemberQueryInterval (link_par L)))] \<Longrightarrow> reportable g \<Longrightarrow>
    all_covered ifc (next_query (link_router ifc L)) (\<lambda>h. h \<noteq> g) L \<Longrightarrow>
    all_covered ifc (next_query (link_router ifc L)) (\<lambda>_. True) L
    \<or> (\<exists>rg t. map_of (ri_groups (link_router ifc L)) g = Some rg \<and> rg_timer rg = Timer_at t
         \<and> lk_now L + lastMemberQueryInterval (link_par L) < t) \<Longrightarrow> air_ok ifc L"

definition link_ok :: "(nat \<Rightarrow> int) \<Rightarrow> igmp_link \<Rightarrow> bool" where
  "link_ok ifc L \<longleftrightarrow> lk_nodes L \<noteq> [] \<and> router_node (lk_now L) (ifc 0) (lk_nodes L ! 0)
     \<and> (\<forall>k. 0 < k \<longrightarrow> k < length (lk_nodes L) \<longrightarrow>
          host_node (groupMembershipInterval (link_par L)) (lk_now L) (ifc k) (lk_nodes L ! k))
     \<and> air_ok ifc L"

lemma covered_asked:
  assumes "asked now m' grp grp'" "covered x m ri g grp" "now \<le> x" "m' \<le> m"
  shows "covered y m ri g grp'"
  using assms by (cases "hg_timer grp") (auto simp: covered_def asked_def)

lemma covered_asked_now:
  assumes "asked now m' grp grp'" "map_of (ri_groups ri) g = Some rg" "rg_timer rg = Timer_at t" "now + m < t" "m' \<le> m"
  shows "covered y n ri g grp'"
  using assms by (auto simp: covered_def asked_def)

lemma covered_heard:
  assumes "map_of (heard_report h hs) g = Some grp'" "h \<noteq> g"
  shows "map_of hs g = Some grp'"
  using assms by (auto simp: heard_report_def split: option.splits if_splits)

lemma heard_idle:
  assumes "map_of (heard_report g hs) g = Some grp" "\<And>x. map_of hs g = Some x \<Longrightarrow> host_group_ok g x"
  shows "hg_timer grp = Timer_idle"
  using assms by (auto simp: heard_report_def host_group_ok_def split: option.splits if_splits)

lemma link_okD:
  assumes "link_ok ifc L"
  shows "router_node (lk_now L) (ifc 0) (lk_nodes L ! 0)" "0 < length (lk_nodes L)" "link_par_ok (link_par L)"
    "0 < k \<Longrightarrow> k < length (lk_nodes L) \<Longrightarrow> host_node (groupMembershipInterval (link_par L)) (lk_now L) (ifc k) (lk_nodes L ! k)"
    "lk_now L \<le> next_query (link_router ifc L)" "next_query (link_router ifc L) \<le> lk_now L + queryInterval (link_par L)"
    "igmp_par_ok (link_par L)"
  using assms by (auto simp: next_query_def link_ok_def router_node_def link_par_def link_router_def igmp_ok_def)

lemma calm_covered: "air_ok ifc L \<Longrightarrow> lk_air L = [] \<Longrightarrow> all_covered ifc (next_query (link_router ifc L)) (\<lambda>_. True) L"
  by (auto elim: air_ok.cases)

lemma all_coveredD:
  "all_covered ifc x G L \<Longrightarrow> 0 < k \<Longrightarrow> k < length (lk_nodes L) \<Longrightarrow> G g \<Longrightarrow> map_of (host_groups ifc L k) g = Some grp \<Longrightarrow>
     covered x (queryResponseInterval (link_par L)) (link_router ifc L) g grp"
  by (simp add: all_covered_def)

lemma covered_cong:
  "covered x m ri g grp \<Longrightarrow> map_of (ri_groups ri) g = Some rg \<Longrightarrow> map_of (ri_groups ri') g = Some rg' \<Longrightarrow>
     rg_timer rg' = rg_timer rg \<Longrightarrow> covered x m ri' g grp"
  by (auto simp: covered_def)

lemma covered_other: "covered x m ri g grp \<Longrightarrow> map_of (ri_groups ri') g = map_of (ri_groups ri) g \<Longrightarrow> covered x m ri' g grp"
  by (auto simp: covered_def)

text \<open>A timer of the router, and what then is in the air.\<close>

lemma router_happens_ok:
  assumes L: "link_ok ifc L" "lk_air L = []" and e: "local_to 0 (ifc 0) e" "possible (lk_now L) e (lk_nodes L ! 0)"
    "igmp_occurs (lk_now L) e (lk_nodes L ! 0) = Inr s"
    and L': "L' = L\<lparr>lk_nodes := (lk_nodes L)[0 := s], lk_air := map (Pair 0) (sent_since (ifc 0) (lk_nodes L ! 0) s)\<rparr>"
  shows "link_ok ifc L'"
proof -
  note D = link_okD[OF L(1)]
  let ?ri = "link_router ifc L" and ?ri' = "link_router ifc L'" and ?m = "queryResponseInterval (link_par L)"
  have ri: "?ri = router_if (igmp_routerData (lk_nodes L ! 0)) (ifc 0)" by (simp add: link_router_def)
  have ri': "?ri' = router_if (igmp_routerData s) (ifc 0)" using D(2) L' by (simp add: link_router_def)
  note E = router_event[OF D(1) e ri ri']
  have same: "link_par L' = link_par L" "length (lk_nodes L') = length (lk_nodes L)" "lk_now L' = lk_now L"
    "\<And>k. 0 < k \<Longrightarrow> host_groups ifc L' k = host_groups ifc L k" "\<And>k. 0 < k \<Longrightarrow> lk_nodes L' ! k = lk_nodes L ! k"
    "lk_nodes L' ! 0 = s"
    using D(2) E(2) L' by (simp_all add: link_par_def host_groups_def)
  have cov: "covered (next_query ?ri) ?m ?ri g grp" if "0 < k" "k < length (lk_nodes L)" "map_of (host_groups ifc L k) g = Some grp" for k g grp
    using all_coveredD[OF calm_covered that(1,2) _ that(3)] L by (auto simp: link_ok_def)
  have "air_ok ifc L'" using E(3)
  proof (elim disjE exE conjE)
    assume a: "igmpQueryTimer ?ri = Timer_at (lk_now L)"
      "sent_since (ifc 0) (lk_nodes L ! 0) s = [query_pair (ifc 0) 0 (queryResponseInterval (igmp_par (lk_nodes L ! 0)))]"
      "ri_groups ?ri' = ri_groups ?ri"
    show ?thesis
    proof (rule air_ok.asking[of _ 0])
      show "lk_air L' = replicate (Suc 0) (0, query_pair (ifc 0) 0 (queryResponseInterval (link_par L')))"
        using a(2) L' same(1) by (simp add: link_par_def)
      show "all_covered ifc (lk_now L') (\<lambda>_. True) L'"
        using cov a(1,3) by (simp add: all_covered_def same next_query_def covered_def)
    qed
  next
    fix g rg
    assume a: "map_of (ri_groups ?ri) g = Some rg" "rg_timer rg = Timer_at (lk_now L)"
      "sent_since (ifc 0) (lk_nodes L ! 0) s = []" "?ri' = ?ri\<lparr>ri_groups := erase g (ri_groups ?ri)\<rparr>"
    have ne: "h \<noteq> g" if h: "0 < k" "k < length (lk_nodes L)" "map_of (host_groups ifc L k) h = Some grp" for k h grp
    proof
      assume "h = g"
      then have "covered (next_query ?ri) ?m ?ri g grp" using cov[OF h] by simp
      moreover have "lk_now L \<le> x" if "hg_timer grp = Timer_at x" for x
        using D(4)[OF h(1,2)] h(3) that by (auto simp: host_node_def host_groups_def)
      moreover have "0 \<le> ?m" using D(7) by (simp add: igmp_par_ok_def)
      ultimately show False using a(1,2) D(5) by (force simp: covered_def split: timer.splits)
    qed
    show ?thesis
    proof (rule air_ok.calm)
      have "covered (next_query ?ri) ?m ?ri' h grp"
        if h: "0 < k" "k < length (lk_nodes L)" "map_of (host_groups ifc L k) h = Some grp" for k h grp
        by (rule covered_other[OF cov[OF h]]) (use ne[OF h] a(4) in simp)
      moreover have "next_query ?ri' = next_query ?ri" using a(4) by (simp add: next_query_def)
      ultimately show "all_covered ifc (next_query ?ri') (\<lambda>_. True) L'" by (simp add: all_covered_def same)
    qed (use a(3) L' in simp)
  next
    fix g rg rg'
    assume a: "reportable g" "map_of (ri_groups ?ri) g = Some rg" "rg_timer rg' = rg_timer rg"
      "sent_since (ifc 0) (lk_nodes L ! 0) s = [query_pair (ifc 0) g (lastMemberQueryInterval (igmp_par (lk_nodes L ! 0)))]"
      "?ri' = ?ri\<lparr>ri_groups := put g rg' (ri_groups ?ri)\<rparr>"
    have "covered (next_query ?ri) ?m ?ri' h grp"
      if h: "0 < k" "k < length (lk_nodes L)" "map_of (host_groups ifc L k) h = Some grp" for k h grp
    proof (cases "h = g")
      case True
      then show ?thesis using cov[OF h] a(2) by (intro covered_cong[OF cov[OF h], of rg _ rg']) (simp_all add: a(3,5))
    next
      case False
      then show ?thesis by (intro covered_other[OF cov[OF h]]) (simp add: a(5))
    qed
    moreover have "next_query ?ri' = next_query ?ri" using a(5) by (simp add: next_query_def)
    ultimately have all: "all_covered ifc (next_query ?ri') G L'" for G by (simp add: all_covered_def same)
    have "lk_air L' = [(0, query_pair (ifc 0) g (lastMemberQueryInterval (link_par L')))]"
      using a(4) L' same(1) by (simp add: link_par_def)
    then show ?thesis by (rule air_ok.verifying[OF _ a(1) all disjI1[OF all]])
  qed
  moreover have "router_node (lk_now L') (ifc 0) (lk_nodes L' ! 0)" using E(1) same by simp
  moreover have "host_node (groupMembershipInterval (link_par L')) (lk_now L') (ifc k) (lk_nodes L' ! k)"
    if "0 < k" "k < length (lk_nodes L')" for k
    using D(4) that same by simp
  ultimately show ?thesis using D(2) same(2) by (auto simp: link_ok_def)
qed

text \<open>Something happens on a host.\<close>

lemma host_happens_ok:
  assumes L: "link_ok ifc L" "lk_air L = []" and k: "0 < k" "k < length (lk_nodes L)"
    and e: "local_to k (ifc k) e" "possible (lk_now L) e (lk_nodes L ! k)" "igmp_occurs (lk_now L) e (lk_nodes L ! k) = Inr s"
    and L': "L' = L\<lparr>lk_nodes := (lk_nodes L)[k := s], lk_air := map (Pair k) (sent_since (ifc k) (lk_nodes L ! k) s)\<rparr>"
  shows "link_ok ifc L'"
proof -
  note D = link_okD[OF L(1)]
  let ?ri = "link_router ifc L" and ?m = "queryResponseInterval (link_par L)" and ?hs = "host_groups ifc L k"
  have hs: "?hs = host_if (igmp_hostData (lk_nodes L ! k)) (ifc k)" by (simp add: host_groups_def)
  have hs': "host_groups ifc L' k = host_if (igmp_hostData s) (ifc k)" using k L' by (simp add: host_groups_def)
  note E = host_event[OF D(4)[OF k] k(1) e hs hs']
  have same: "link_par L' = link_par L" "length (lk_nodes L') = length (lk_nodes L)" "lk_now L' = lk_now L"
    "link_router ifc L' = ?ri" "\<And>j. j \<noteq> k \<Longrightarrow> host_groups ifc L' j = host_groups ifc L j" "\<And>j. j \<noteq> k \<Longrightarrow> lk_nodes L' ! j = lk_nodes L ! j"
    "lk_nodes L' ! k = s"
    using k L' by (simp_all add: link_par_def link_router_def host_groups_def)
  have cov: "covered (next_query ?ri) ?m ?ri g grp" if "0 < j" "j < length (lk_nodes L)" "map_of (host_groups ifc L j) g = Some grp" for j g grp
    using all_coveredD[OF calm_covered that(1,2) _ that(3)] L by (auto simp: link_ok_def)
  have keep: "all_covered ifc (next_query (link_router ifc L')) G L'"
    if "\<And>g grp. G g \<Longrightarrow> map_of (host_groups ifc L' k) g = Some grp \<Longrightarrow> map_of ?hs g = Some grp" for G
    unfolding all_covered_def
  proof (intro allI impI)
    fix j g grp
    assume j: "0 < j" "j < length (lk_nodes L')" "G g" "map_of (host_groups ifc L' j) g = Some grp"
    then have "map_of (host_groups ifc L j) g = Some grp" using that same(5) by (cases "j = k") auto
    then show "covered (next_query (link_router ifc L')) (queryResponseInterval (link_par L')) (link_router ifc L') g grp"
      using cov j(1,2) same by simp
  qed
  have "air_ok ifc L'" using E(2)
  proof (elim disjE exE conjE)
    assume "sent_since (ifc k) (lk_nodes L ! k) s = []" "host_groups ifc L' k = ?hs"
    then show ?thesis using keep L' by (intro air_ok.calm) simp_all
  next
    fix g grp
    assume a: "reportable g" "sent_since (ifc k) (lk_nodes L ! k) s = [report_pair (ifc k) g]" "host_groups ifc L' k = put g grp ?hs"
      "\<forall>a. hg_timer grp = Timer_at a \<longrightarrow> a < lk_now L + groupMembershipInterval (link_par L)"
    have "all_covered ifc (next_query (link_router ifc L')) (\<lambda>h. h \<noteq> g) L'" by (rule keep) (use a(3) in simp)
    moreover have "a' < lk_now L' + groupMembershipInterval (link_par L')"
      if "map_of (host_groups ifc L' k) g = Some grp'" "hg_timer grp' = Timer_at a'" for grp' a'
      using that a(3,4) same by simp
    ultimately show ?thesis using a(1,2) k L' same by (intro air_ok.reporting[of _ k _ g]) simp_all
  next
    fix g
    assume a: "reportable g" "sent_since (ifc k) (lk_nodes L ! k) s = []" "host_groups ifc L' k = erase g ?hs"
    then have "all_covered ifc (next_query (link_router ifc L')) (\<lambda>_. True) L'" by (intro keep) (auto split: if_splits)
    then show ?thesis using a(2) L' by (intro air_ok.calm) simp_all
  next
    fix g
    assume a: "reportable g" "sent_since (ifc k) (lk_nodes L ! k) s = [leave_pair (ifc k) g]" "host_groups ifc L' k = erase g ?hs"
    then have "all_covered ifc (next_query (link_router ifc L')) (\<lambda>_. True) L'" by (intro keep) (auto split: if_splits)
    then show ?thesis using a(1,2) k L' same by (intro air_ok.leaving[of _ k _ g]) simp_all
  qed
  moreover have "host_node (groupMembershipInterval (link_par L')) (lk_now L') (ifc j) (lk_nodes L' ! j)"
    if "0 < j" "j < length (lk_nodes L')" for j
    using D(4)[of j] E(1) that same by (cases "j = k") simp_all
  moreover have "router_node (lk_now L') (ifc 0) (lk_nodes L' ! 0)" using D(1) same k(1) by simp
  ultimately show ?thesis using D(2) same(2) by (auto simp: link_ok_def)
qed

section \<open>What is heard on the link\<close>

lemma air_out:
  assumes "0 < n" "\<And>j. 0 < j \<Longrightarrow> j < n \<Longrightarrow> f j = []"
  shows "concat (map (\<lambda>j. map (Pair j) (f j)) [0..<n]) = map (Pair (0::nat)) (f 0)"
proof -
  have "concat (map (\<lambda>j. map (Pair j) (f j)) [Suc 0..<n]) = []" using assms(2) by auto
  then show ?thesis using assms(1) by (simp add: upt_conv_Cons)
qed

lemma deliver_hosts:
  assumes L: "link_ok ifc L" and d: "delivered ifc L k msg ci ns" and m: "arrives msg" and j: "0 < j" "j < length (lk_nodes L)"
  shows "host_node (groupMembershipInterval (link_par L)) (lk_now L) (ifc j) (ns ! j)"
    "sent_since (ifc j) (lk_nodes L ! j) (ns ! j) = []"
proof -
  note H = link_okD(4)[OF L j]
  have "host_node (groupMembershipInterval (link_par L)) (lk_now L) (ifc j) (ns ! j) \<and> sent_since (ifc j) (lk_nodes L ! j) (ns ! j) = []"
  proof (cases "j = k")
    case True
    then have "ns ! j = lk_nodes L ! j" using d j by (simp add: delivered_def)
    then show ?thesis using H by (simp add: sent_since_def List.map_filter_simps)
  next
    case False
    then have "hear (lk_now L) (ifc j) (own_address (ifc k) (lk_nodes L ! k)) msg ci (lk_nodes L ! j) = Inr (ns ! j)"
      using d j by (auto simp: delivered_def)
    from hear_host_node(1,3)[OF H m this] show ?thesis by blast
  qed
  then show "host_node (groupMembershipInterval (link_par L)) (lk_now L) (ifc j) (ns ! j)"
    "sent_since (ifc j) (lk_nodes L ! j) (ns ! j) = []" by simp_all
qed

lemma after_delivery_simps:
  assumes L: "link_ok ifc L" and d: "delivered ifc L k msg ci ns" and m: "arrives msg"
  shows "lk_now (after_delivery ifc L rest ns) = lk_now L" "lk_nodes (after_delivery ifc L rest ns) = ns"
    "lk_air (after_delivery ifc L rest ns) = rest @ map (Pair 0) (sent_since (ifc 0) (lk_nodes L ! 0) (ns ! 0))"
proof -
  have "length ns = length (lk_nodes L)" "0 < length ns" using d link_okD(2)[OF L] by (simp_all add: delivered_def)
  then show "lk_air (after_delivery ifc L rest ns) = rest @ map (Pair 0) (sent_since (ifc 0) (lk_nodes L ! 0) (ns ! 0))"
    using deliver_hosts(2)[OF L d m] by (simp add: after_delivery_def air_out)
qed (simp_all add: after_delivery_def)

text \<open>The nodes after a delivery, when the router and what is in the air are known.\<close>

lemma link_ok_delivered:
  assumes L: "link_ok ifc L" and d: "delivered ifc L k msg ci ns" and m: "arrives msg"
    and r: "router_node (lk_now L) (ifc 0) (ns ! 0)" "igmp_par (ns ! 0) = link_par L" and a: "air_ok ifc (after_delivery ifc L rest ns)"
  shows "link_ok ifc (after_delivery ifc L rest ns)"
proof -
  have "length ns = length (lk_nodes L)" using d by (simp add: delivered_def)
  moreover have "ns \<noteq> []" using link_okD(2)[OF L] calculation by auto
  ultimately show ?thesis
    using deliver_hosts(1)[OF L d m] r a by (simp add: link_ok_def after_delivery_simps(1,2)[OF L d m] link_par_def)
qed

lemma pair_simps [simp]:
  "ig_type (fst (report_pair i g)) = IGMPV2_MEMBERSHIP_REPORT" "ig_groupAddress (fst (report_pair i g)) = g"
  "ci_destAddr (snd (report_pair i g)) = g"
  "ig_type (fst (leave_pair i g)) = IGMPV2_LEAVE_GROUP" "ig_groupAddress (fst (leave_pair i g)) = g"
  "ig_type (fst (query_pair i g m)) = IGMP_MEMBERSHIP_QUERY" "ig_groupAddress (fst (query_pair i g m)) = g"
  "ig_maxRespTime (fst (query_pair i g m)) = resp_code m"
  "ci_destAddr (snd (query_pair i g m)) = (if g = 0 then ALL_HOSTS_MCAST else g)"
  by (simp_all add: pair_defs new_IGMPMessage_def)

lemma pair_arrives:
  "reportable g \<Longrightarrow> arrives (fst (report_pair i g))" "reportable g \<Longrightarrow> arrives (fst (leave_pair i g))"
  "0 \<le> m \<Longrightarrow> arrives (fst (query_pair i g m))"
  using resp_code_le(1)[of m] by (simp_all add: arrives_def pair_defs new_IGMPMessage_def)

text \<open>A query of the router, heard by the members of the groups that it is about.\<close>

lemma query_heard:
  assumes L: "link_ok ifc L" and m: "0 \<le> m"
    and d: "delivered ifc L 0 (fst (query_pair i q m)) (snd (query_pair i q m)) ns"
    and j: "0 < j" "j < length (lk_nodes L)" and g: "map_of (host_if (igmp_hostData (ns ! j)) (ifc j)) g = Some grp'"
  obtains grp where "map_of (host_groups ifc L j) g = Some grp"
    "if q = 0 \<or> g = q then asked (lk_now L) (of_resp_code (resp_code m)) grp grp' else grp' = grp"
proof -
  note H = link_okD(4)[OF L j]
  let ?msg = "fst (query_pair i q m)" and ?ci = "snd (query_pair i q m)" and ?s = "lk_nodes L ! j"
  have h: "hear (lk_now L) (ifc j) (own_address (ifc 0) (lk_nodes L ! 0)) ?msg ?ci ?s = Inr (ns ! j)"
    using d j by (auto simp: delivered_def)
  note A = hear_host_node[OF H pair_arrives(3)[OF m] h]
  show thesis
  proof (cases "hears (ifc j) (ci_destAddr ?ci) ?s")
    case False
    then have e: "ns ! j = ?s" by (rule A(4))
    have "q \<noteq> 0 \<and> g \<noteq> q"
      using False hears_member(1)[of ?s "ifc j" g grp'] g H by (auto simp: e host_node_def split: if_splits)
    then show ?thesis using that[of grp'] g by (simp add: e host_groups_def)
  next
    case True
    have "asked_about (about ?msg) (lk_now L) (of_resp_code (resp_code m)) (host_groups ifc L j) (host_if (igmp_hostData (ns ! j)) (ifc j))"
      using A(5)[OF True] by (simp add: host_groups_def)
    then obtain grp where "map_of (host_groups ifc L j) g = Some grp"
      "if about ?msg g then asked (lk_now L) (of_resp_code (resp_code m)) grp grp' else grp' = grp"
      using g by (rule asked_aboutD)
    then show ?thesis using that[of grp] by (simp add: about_def)
  qed
qed

lemma query_delivered:
  assumes L: "link_ok ifc L" and m: "0 \<le> m" and d: "delivered ifc L 0 (fst (query_pair i q m)) (snd (query_pair i q m)) ns"
    and L': "L' = after_delivery ifc L rest ns"
  shows "lk_air L' = rest" "lk_now L' = lk_now L" "link_par L' = link_par L" "link_router ifc L' = link_router ifc L"
    "length (lk_nodes L') = length (lk_nodes L)" "air_ok ifc L' \<Longrightarrow> link_ok ifc L'"
    "\<And>j g grp'. 0 < j \<Longrightarrow> j < length (lk_nodes L) \<Longrightarrow> map_of (host_groups ifc L' j) g = Some grp' \<Longrightarrow>
       \<exists>grp. map_of (host_groups ifc L j) g = Some grp \<and>
         (if q = 0 \<or> g = q then asked (lk_now L) (of_resp_code (resp_code m)) grp grp' else grp' = grp)"
proof -
  have n: "ns ! 0 = lk_nodes L ! 0" "length ns = length (lk_nodes L)" using d link_okD(2)[OF L] by (auto simp: delivered_def)
  note S = after_delivery_simps[OF L d pair_arrives(3)[OF m], where rest = rest]
  show "lk_air L' = rest" "lk_now L' = lk_now L" "link_par L' = link_par L" "link_router ifc L' = link_router ifc L"
    "length (lk_nodes L') = length (lk_nodes L)"
    by (simp_all add: L' S n link_par_def link_router_def sent_since_def List.map_filter_simps)
  show "air_ok ifc L' \<Longrightarrow> link_ok ifc L'" unfolding L'
    by (rule link_ok_delivered[OF L d pair_arrives(3)[OF m]]) (use link_okD(1)[OF L] n in \<open>simp_all add: link_par_def\<close>)
  fix j g grp' assume j: "0 < j" "j < length (lk_nodes L)" "map_of (host_groups ifc L' j) g = Some grp'"
  then have "map_of (host_if (igmp_hostData (ns ! j)) (ifc j)) g = Some grp'" by (simp add: host_groups_def L' S)
  from query_heard[OF L m d j(1,2) this] show "\<exists>grp. map_of (host_groups ifc L j) g = Some grp \<and>
      (if q = 0 \<or> g = q then asked (lk_now L) (of_resp_code (resp_code m)) grp grp' else grp' = grp)" by blast
qed

lemma deliver_general:
  assumes L: "link_ok ifc L" and q: "q = query_pair (ifc 0) 0 (queryResponseInterval (link_par L))"
    and c: "all_covered ifc (lk_now L) (\<lambda>_. True) L" and d: "delivered ifc L 0 (fst q) (snd q) ns"
  shows "link_ok ifc (after_delivery ifc L (replicate n (0, q)) ns)"
proof -
  let ?m = "queryResponseInterval (link_par L)" and ?L = "after_delivery ifc L (replicate n (0, q)) ns"
  have m: "0 \<le> ?m" using link_okD(7)[OF L] by (simp add: igmp_par_ok_def)
  note Q = query_delivered[OF L m d[unfolded q] refl, where rest = "replicate n (0, q)"]
  have all: "all_covered ifc x (\<lambda>_. True) ?L" for x
    unfolding all_covered_def
  proof (intro allI impI)
    fix j g grp' assume j: "0 < j" "j < length (lk_nodes ?L)" "map_of (host_groups ifc ?L j) g = Some grp'"
    then have j': "j < length (lk_nodes L)" using Q(5) by simp
    obtain grp where g: "map_of (host_groups ifc L j) g = Some grp" "asked (lk_now L) (of_resp_code (resp_code ?m)) grp grp'"
      using Q(7)[OF j(1) j' j(3)] by auto
    show "covered x (queryResponseInterval (link_par ?L)) (link_router ifc ?L) g grp'"
      unfolding Q(3,4) using covered_asked[OF g(2) all_coveredD[OF c j(1) j' TrueI g(1)] order_refl resp_code_le(2)[OF m]] .
  qed
  have "air_ok ifc ?L"
  proof (cases n)
    case 0
    then have "lk_air ?L = []" using Q(1) by simp
    then show ?thesis using all by (rule air_ok.calm)
  next
    case (Suc k)
    then have "lk_air ?L = replicate (Suc k) (0, query_pair (ifc 0) 0 (queryResponseInterval (link_par ?L)))"
      using Q(1,3) q by simp
    then show ?thesis using all by (rule air_ok.asking)
  qed
  then show ?thesis by (rule Q(6))
qed

lemma deliver_check:
  assumes L: "link_ok ifc L" and q: "q = query_pair (ifc 0) g (lastMemberQueryInterval (link_par L))" and g: "reportable g"
    and c: "all_covered ifc (next_query (link_router ifc L)) (\<lambda>h. h \<noteq> g) L"
    "all_covered ifc (next_query (link_router ifc L)) (\<lambda>_. True) L
      \<or> (\<exists>rg t. map_of (ri_groups (link_router ifc L)) g = Some rg \<and> rg_timer rg = Timer_at t
           \<and> lk_now L + lastMemberQueryInterval (link_par L) < t)"
    and d: "delivered ifc L 0 (fst q) (snd q) ns"
  shows "link_ok ifc (after_delivery ifc L [] ns)"
proof -
  let ?m = "lastMemberQueryInterval (link_par L)" and ?L = "after_delivery ifc L [] ns"
  let ?x = "next_query (link_router ifc L)" and ?r = "queryResponseInterval (link_par L)"
  have m: "0 \<le> ?m" using link_okD(7)[OF L] by (simp add: igmp_par_ok_def)
  have mr: "of_resp_code (resp_code ?m) \<le> ?m" "?m \<le> ?r"
    using resp_code_le(2)[OF m] link_okD(3)[OF L] by (simp_all add: link_par_ok_def)
  have g0: "g \<noteq> 0" using g by (auto simp: reportable_def ip_isMulticast_def)
  note Q = query_delivered[OF L m d[unfolded q] refl, where rest = "[]"]
  have "all_covered ifc ?x (\<lambda>_. True) ?L"
    unfolding all_covered_def
  proof (intro allI impI)
    fix j h grp' assume j: "0 < j" "j < length (lk_nodes ?L)" "map_of (host_groups ifc ?L j) h = Some grp'"
    then have j': "j < length (lk_nodes L)" using Q(5) by simp
    obtain grp where h: "map_of (host_groups ifc L j) h = Some grp"
      "if h = g then asked (lk_now L) (of_resp_code (resp_code ?m)) grp grp' else grp' = grp"
      using Q(7)[OF j(1) j' j(3)] g0 by auto
    show "covered ?x (queryResponseInterval (link_par ?L)) (link_router ifc ?L) h grp'"
      unfolding Q(3,4)
    proof (cases "h = g")
      case False
      then show "covered ?x ?r (link_router ifc L) h grp'" using all_coveredD[OF c(1) j(1) j' _ h(1)] h(2) by simp
    next
      case True
      then have a: "asked (lk_now L) (of_resp_code (resp_code ?m)) grp grp'" using h(2) by simp
      from c(2) show "covered ?x ?r (link_router ifc L) h grp'"
      proof
        assume all: "all_covered ifc ?x (\<lambda>_. True) L"
        show ?thesis
          by (rule covered_asked[OF a all_coveredD[OF all j(1) j' TrueI h(1)] link_okD(5)[OF L] order_trans[OF mr]])
      next
        assume "\<exists>rg t. map_of (ri_groups (link_router ifc L)) g = Some rg \<and> rg_timer rg = Timer_at t
          \<and> lk_now L + lastMemberQueryInterval (link_par L) < t"
        then show ?thesis using covered_asked_now[OF a _ _ _ mr(1)] True by blast
      qed
    qed
  qed
  then have "air_ok ifc ?L" using Q(1,4) by (intro air_ok.calm) simp_all
  then show ?thesis by (rule Q(6))
qed

text \<open>What a host sends is heard by the router.\<close>

lemma router_heard:
  assumes L: "link_ok ifc L" and d: "delivered ifc L k msg ci ns" and k: "0 < k"
    and m: "arrives msg" "ig_type msg \<noteq> IGMP_MEMBERSHIP_QUERY" and L': "L' = after_delivery ifc L rest ns"
  shows "lk_now L' = lk_now L" "link_par L' = link_par L" "length (lk_nodes L') = length (lk_nodes L)" "air_ok ifc L' \<Longrightarrow> link_ok ifc L'"
    "ig_type msg = IGMPV2_MEMBERSHIP_REPORT \<Longrightarrow> lk_air L' = rest \<and> link_router ifc L' = (link_router ifc L)\<lparr>ri_groups :=
       put (ig_groupAddress msg) (present (lk_now L + groupMembershipInterval (link_par L)) (ig_groupAddress msg)) (ri_groups (link_router ifc L))\<rparr>"
    "ig_type msg = IGMPV2_LEAVE_GROUP \<Longrightarrow> link_router ifc L' = heard_leave (lk_now L) (link_par L) (ig_groupAddress msg) (link_router ifc L)
       \<and> lk_air L' = rest @ (if checks (ig_groupAddress msg) (link_router ifc L)
           then [(0, query_pair (ifc 0) (ig_groupAddress msg) (lastMemberQueryInterval (link_par L)))] else [])"
proof -
  have n: "length ns = length (lk_nodes L)"
    "hear (lk_now L) (ifc 0) (own_address (ifc k) (lk_nodes L ! k)) msg ci (lk_nodes L ! 0) = Inr (ns ! 0)"
    using d k link_okD(2)[OF L] by (auto simp: delivered_def)
  have ri: "link_router ifc L = router_if (igmp_routerData (lk_nodes L ! 0)) (ifc 0)" by (simp add: link_router_def)
  note S = after_delivery_simps[OF L d m(1), where rest = rest]
  obtain s' where "hear (lk_now L) (ifc 0) (own_address (ifc k) (lk_nodes L ! k)) msg ci (lk_nodes L ! 0) = Inr s'"
    and s': "router_node (lk_now L) (ifc 0) s'" "igmp_par s' = igmp_par (lk_nodes L ! 0)"
    "ig_type msg = IGMPV2_MEMBERSHIP_REPORT \<Longrightarrow> router_if (igmp_routerData s') (ifc 0) = (link_router ifc L)\<lparr>ri_groups :=
       put (ig_groupAddress msg) (present (lk_now L + groupMembershipInterval (igmp_par (lk_nodes L ! 0))) (ig_groupAddress msg))
         (ri_groups (link_router ifc L))\<rparr> \<and> sent_since (ifc 0) (lk_nodes L ! 0) s' = []"
    "ig_type msg = IGMPV2_LEAVE_GROUP \<Longrightarrow> router_if (igmp_routerData s') (ifc 0)
         = heard_leave (lk_now L) (igmp_par (lk_nodes L ! 0)) (ig_groupAddress msg) (link_router ifc L)
       \<and> sent_since (ifc 0) (lk_nodes L ! 0) s' = (if checks (ig_groupAddress msg) (link_router ifc L)
           then [query_pair (ifc 0) (ig_groupAddress msg) (lastMemberQueryInterval (igmp_par (lk_nodes L ! 0)))] else [])"
    by (rule hear_router[OF link_okD(1)[OF L] m refl ri, of "own_address (ifc k) (lk_nodes L ! k)" ci]) (rule that)
  then have e: "s' = ns ! 0" using n(2) by simp
  show "lk_now L' = lk_now L" "link_par L' = link_par L" "length (lk_nodes L') = length (lk_nodes L)"
    using s'(2) n(1) by (simp_all add: L' S link_par_def e)
  show "air_ok ifc L' \<Longrightarrow> link_ok ifc L'" unfolding L'
    by (rule link_ok_delivered[OF L d m(1)]) (use s'(1,2) in \<open>simp_all add: link_par_def e\<close>)
  show "ig_type msg = IGMPV2_MEMBERSHIP_REPORT \<Longrightarrow> lk_air L' = rest \<and> link_router ifc L' = (link_router ifc L)\<lparr>ri_groups :=
       put (ig_groupAddress msg) (present (lk_now L + groupMembershipInterval (link_par L)) (ig_groupAddress msg)) (ri_groups (link_router ifc L))\<rparr>"
    using s'(3) by (simp add: L' S e link_par_def link_router_def)
  show "ig_type msg = IGMPV2_LEAVE_GROUP \<Longrightarrow> link_router ifc L' = heard_leave (lk_now L) (link_par L) (ig_groupAddress msg) (link_router ifc L)
       \<and> lk_air L' = rest @ (if checks (ig_groupAddress msg) (link_router ifc L)
           then [(0, query_pair (ifc 0) (ig_groupAddress msg) (lastMemberQueryInterval (link_par L)))] else [])"
    using s'(4) by (simp add: L' S e link_par_def link_router_def)
qed

lemma next_query_simps [simp]:
  "next_query (ri\<lparr>ri_groups := x\<rparr>) = next_query ri" "next_query (heard_leave now p g ri) = next_query ri"
  by (simp_all add: next_query_def heard_leave_def split: option.split)

lemma deliver_report:
  assumes L: "link_ok ifc L" and g: "reportable g" and k: "0 < k" "k < length (lk_nodes L)"
    and c: "all_covered ifc (next_query (link_router ifc L)) (\<lambda>h. h \<noteq> g) L"
    and t: "\<And>grp a. map_of (host_groups ifc L k) g = Some grp \<Longrightarrow> hg_timer grp = Timer_at a \<Longrightarrow>
       a < lk_now L + groupMembershipInterval (link_par L)"
    and d: "delivered ifc L k (fst (report_pair (ifc k) g)) (snd (report_pair (ifc k) g)) ns"
  shows "link_ok ifc (after_delivery ifc L [] ns)"
proof -
  let ?L = "after_delivery ifc L [] ns" and ?ri = "link_router ifc L" and ?msg = "fst (report_pair (ifc k) g)"
  let ?x = "next_query ?ri" and ?m = "queryResponseInterval (link_par L)" and ?T = "lk_now L + groupMembershipInterval (link_par L)"
  note A = pair_arrives(1)[OF g, of "ifc k"]
  note R = router_heard[OF L d k(1) A _ refl, of "[]", simplified pair_simps igmp_type_defs, simplified]
  have ri: "lk_air ?L = []" "link_router ifc ?L = ?ri\<lparr>ri_groups := put g (present ?T g) (ri_groups ?ri)\<rparr>" using R(5) by simp_all
  have in_time: "?x + ?m < ?T" using link_okD(3,6)[OF L] by (simp add: link_par_ok_def)
  have "covered ?x ?m (link_router ifc ?L) h grp'"
    if j: "0 < j" "j < length (lk_nodes L)" and h: "map_of (host_groups ifc ?L j) h = Some grp'" for j h grp'
  proof -
    note H = link_okD(4)[OF L j]
    have h': "map_of (host_if (igmp_hostData (ns ! j)) (ifc j)) h = Some grp'"
      using h by (simp add: host_groups_def after_delivery_simps[OF L d A])
    have old: "(h \<noteq> g \<longrightarrow> map_of (host_groups ifc L j) h = Some grp')
      \<and> (h = g \<longrightarrow> (case hg_timer grp' of Timer_at a \<Rightarrow> a < ?T | _ \<Rightarrow> True))"
    proof (cases "j = k")
      case True
      then have "ns ! j = lk_nodes L ! j" using d j by (simp add: delivered_def)
      then show ?thesis using h' t True by (auto simp: host_groups_def split: timer.split)
    next
      case False
      have hr: "hear (lk_now L) (ifc j) (own_address (ifc k) (lk_nodes L ! k)) ?msg (snd (report_pair (ifc k) g)) (lk_nodes L ! j) = Inr (ns ! j)"
        using d j False by (auto simp: delivered_def)
      note N = hear_host_node[OF H A hr, simplified pair_simps]
      have ok: "igmp_ok (lk_nodes L ! j)" "on_multicast (ifc j) (lk_nodes L ! j)" using H by (simp_all add: host_node_def)
      show ?thesis
      proof (cases "hears (ifc j) g (lk_nodes L ! j)")
        case True
        have e: "host_if (igmp_hostData (ns ! j)) (ifc j) = heard_report g (host_groups ifc L j)"
          using N(6)[OF True] by (simp add: host_groups_def)
        have "hg_timer grp' = Timer_idle" if "h = g"
          by (rule heard_idle[of g "host_groups ifc L j"]) (use h' that e hears_member(3)[OF ok] in \<open>auto simp: host_groups_def\<close>)
        then show ?thesis using covered_heard[of g "host_groups ifc L j" h grp'] h' e by auto
      next
        case False
        then have "ns ! j = lk_nodes L ! j" by (rule N(4))
        then show ?thesis using h' hears_member(1)[OF ok, of h grp'] False by (auto simp: host_groups_def)
      qed
    qed
    show ?thesis
    proof (cases "h = g")
      case True
      then show ?thesis using old in_time by (auto simp: covered_def ri(2) present_def split: timer.splits)
    next
      case False
      then have "map_of (host_groups ifc L j) h = Some grp'" using old by blast
      with False have "covered ?x ?m ?ri h grp'" by (intro all_coveredD[OF c j])
      then show ?thesis by (rule covered_other) (use False in \<open>simp add: ri(2)\<close>)
    qed
  qed
  then have "all_covered ifc ?x (\<lambda>_. True) ?L" using R(2,3) by (simp add: all_covered_def)
  then have "air_ok ifc ?L" by (intro air_ok.calm) (simp_all add: ri)
  then show ?thesis by (rule R(4))
qed

lemma deliver_leave:
  assumes L: "link_ok ifc L" and g: "reportable g" and k: "0 < k" "k < length (lk_nodes L)"
    and c: "all_covered ifc (next_query (link_router ifc L)) (\<lambda>_. True) L"
    and d: "delivered ifc L k (fst (leave_pair (ifc k) g)) (snd (leave_pair (ifc k) g)) ns"
  shows "link_ok ifc (after_delivery ifc L [] ns)"
proof -
  let ?L = "after_delivery ifc L [] ns" and ?ri = "link_router ifc L" and ?msg = "fst (leave_pair (ifc k) g)"
  let ?x = "next_query ?ri" and ?m = "queryResponseInterval (link_par L)" and ?l = "lastMemberQueryInterval (link_par L)"
  note A = pair_arrives(2)[OF g, of "ifc k"]
  note R = router_heard[OF L d k(1) A _ refl, of "[]", simplified pair_simps igmp_type_defs, simplified]
  have ri: "link_router ifc ?L = heard_leave (lk_now L) (link_par L) g ?ri"
    "lk_air ?L = (if checks g ?ri then [(0, query_pair (ifc 0) g ?l)] else [])" using R(6) by simp_all
  have hosts: "host_groups ifc ?L j = host_groups ifc L j" if j: "0 < j" "j < length (lk_nodes L)" for j
  proof (cases "j = k")
    case True
    then show ?thesis using d j by (simp add: host_groups_def after_delivery_simps[OF L d A] delivered_def)
  next
    case False
    then have "hear (lk_now L) (ifc j) (own_address (ifc k) (lk_nodes L ! k)) ?msg (snd (leave_pair (ifc k) g)) (lk_nodes L ! j) = Inr (ns ! j)"
      using d j by (auto simp: delivered_def)
    from hear_host_node(7)[OF link_okD(4)[OF L j] A this] show ?thesis
      by (simp add: host_groups_def after_delivery_simps[OF L d A])
  qed
  have "air_ok ifc ?L"
  proof (cases "checks g ?ri")
    case False
    then have "link_router ifc ?L = ?ri" by (auto simp: ri(1) heard_leave_def checks_def split: option.split)
    moreover have "all_covered ifc ?x (\<lambda>_. True) ?L"
      using all_coveredD[OF c] hosts calculation R(2,3) by (simp add: all_covered_def)
    ultimately show ?thesis using False ri(2) by (intro air_ok.calm) simp_all
  next
    case True
    let ?rg = "\<lparr>rg_groupAddr = g, rg_state = IGMP_RGS_CHECKING_MEMBERSHIP, rg_timer = Timer_at (lk_now L + ?l * lastMemberQueryCount (link_par L)),
      rg_rexmtTimer = Timer_at (lk_now L + ?l)\<rparr>"
    have r: "link_router ifc ?L = ?ri\<lparr>ri_groups := put g ?rg (ri_groups ?ri)\<rparr>"
      using True by (auto simp: ri(1) heard_leave_def checks_def)
    have l: "0 < ?l" "2 \<le> lastMemberQueryCount (link_par L)" using link_okD(3)[OF L] by (simp_all add: link_par_ok_def)
    have "?l * 1 < ?l * lastMemberQueryCount (link_par L)" by (rule mult_strict_left_mono) (use l in simp_all)
    then have later: "\<exists>rg t. map_of (ri_groups (link_router ifc ?L)) g = Some rg \<and> rg_timer rg = Timer_at t
        \<and> lk_now ?L + lastMemberQueryInterval (link_par ?L) < t"
      using R(1,2) by (simp add: r)
    have "covered ?x ?m (link_router ifc ?L) h grp"
      if "0 < j" "j < length (lk_nodes L)" "h \<noteq> g" "map_of (host_groups ifc L j) h = Some grp" for j h grp
      by (rule covered_other[OF all_coveredD[OF c that(1,2) TrueI that(4)]]) (use that(3) in \<open>simp add: r\<close>)
    then have "all_covered ifc (next_query (link_router ifc ?L)) (\<lambda>h. h \<noteq> g) ?L"
      using hosts R(2,3) by (simp add: all_covered_def r)
    moreover have "lk_air ?L = [(0, query_pair (ifc 0) g (lastMemberQueryInterval (link_par ?L)))]" using True ri(2) R(2) by simp
    ultimately show ?thesis using g later by (intro air_ok.verifying[of _ _ g]) simp_all
  qed
  then show ?thesis by (rule R(4))
qed

section \<open>Steps\<close>

text \<open>What the messages in the air still cost; a leave is answered by a query.\<close>

definition air_work :: "(nat \<times> IGMPMessage \<times> IPv4ControlInfo) list \<Rightarrow> nat" where
  "air_work air = sum_list (map (\<lambda>(k, msg, ci). if ig_type msg = IGMPV2_LEAVE_GROUP then 2 else 1) air)"

lemma air_work_pairs [simp]:
  "air_work [] = 0" "air_work ((k, m) # rest) = (if ig_type (fst m) = IGMPV2_LEAVE_GROUP then 2 else 1) + air_work rest"
  by (simp_all add: air_work_def split_beta)

lemma igmp_types_differ [simp]:
  "IGMP_MEMBERSHIP_QUERY \<noteq> IGMPV2_LEAVE_GROUP" "IGMPV2_MEMBERSHIP_REPORT \<noteq> IGMPV2_LEAVE_GROUP"
  "IGMPV2_LEAVE_GROUP \<noteq> IGMP_MEMBERSHIP_QUERY" "IGMPV2_MEMBERSHIP_REPORT \<noteq> IGMP_MEMBERSHIP_QUERY"
  by (simp_all add: igmp_type_defs)

lemma delivery_ok:
  assumes L: "link_ok ifc L" and a: "lk_air L = (k, msg, ci) # rest" and d: "delivered ifc L k msg ci ns"
  shows "link_ok ifc (after_delivery ifc L rest ns)" "air_work (lk_air (after_delivery ifc L rest ns)) < air_work (lk_air L)"
proof -
  have p: "0 \<le> queryResponseInterval (link_par L)" "0 \<le> lastMemberQueryInterval (link_par L)"
    using link_okD(7)[OF L] by (simp_all add: igmp_par_ok_def)
  have "air_ok ifc L" using L by (simp add: link_ok_def)
  then have "link_ok ifc (after_delivery ifc L rest ns) \<and> air_work (lk_air (after_delivery ifc L rest ns)) < air_work (lk_air L)"
  proof cases
    case calm
    then show ?thesis using a by simp
  next
    case (asking n)
    let ?q = "query_pair (ifc 0) 0 (queryResponseInterval (link_par L))"
    have e: "k = 0" "msg = fst ?q" "ci = snd ?q" "rest = replicate n (0, ?q)" using asking(1) a by (auto simp: prod_eq_iff)
    have d': "delivered ifc L 0 (fst ?q) (snd ?q) ns" using d by (simp only: e)
    show ?thesis unfolding e(4)
      using deliver_general[OF L refl asking(2) d'] query_delivered(1)[OF L p(1) d' refl] asking(1) by simp
  next
    case (reporting j g)
    let ?r = "report_pair (ifc j) g"
    have e: "k = j" "msg = fst ?r" "ci = snd ?r" "rest = []" using reporting(1) a by (auto simp: prod_eq_iff)
    have d': "delivered ifc L j (fst ?r) (snd ?r) ns" using d by (simp only: e)
    show ?thesis unfolding e(4)
      using deliver_report[OF L reporting(4,2,3,5,6) d'] router_heard(5)[OF L d' reporting(2) pair_arrives(1)[OF reporting(4)] _ refl]
        reporting(1) by simp
  next
    case (leaving j g)
    let ?r = "leave_pair (ifc j) g"
    have e: "k = j" "msg = fst ?r" "ci = snd ?r" "rest = []" using leaving(1) a by (auto simp: prod_eq_iff)
    have d': "delivered ifc L j (fst ?r) (snd ?r) ns" using d by (simp only: e)
    show ?thesis unfolding e(4)
      using deliver_leave[OF L leaving(4,2,3,5) d'] router_heard(6)[OF L d' leaving(2) pair_arrives(2)[OF leaving(4)] _ refl]
        leaving(1) by simp
  next
    case (verifying g)
    let ?q = "query_pair (ifc 0) g (lastMemberQueryInterval (link_par L))"
    have e: "k = 0" "msg = fst ?q" "ci = snd ?q" "rest = []" using verifying(1) a by (auto simp: prod_eq_iff)
    have d': "delivered ifc L 0 (fst ?q) (snd ?q) ns" using d by (simp only: e)
    show ?thesis unfolding e(4)
      using deliver_check[OF L refl verifying(2,3,4) d'] query_delivered(1)[OF L p(2) d' refl] verifying(1) by simp
  qed
  then show "link_ok ifc (after_delivery ifc L rest ns)" "air_work (lk_air (after_delivery ifc L rest ns)) < air_work (lk_air L)"
    by simp_all
qed

lemma tick_ok:
  assumes L: "link_ok ifc L" "lk_air L = []" and t: "lk_now L \<le> t"
    and n: "\<And>k. k < length (lk_nodes L) \<Longrightarrow> nothing_before t (ifc k) (lk_nodes L ! k)"
  shows "link_ok ifc (L\<lparr>lk_now := t\<rparr>)"
proof -
  note D = link_okD[OF L(1)]
  let ?L = "L\<lparr>lk_now := t\<rparr>"
  have "router_node t (ifc 0) (lk_nodes L ! 0)"
    using D(1) nothing_beforeD(1)[OF n[OF D(2)]] t by (force simp: router_node_def)
  moreover have "host_node (groupMembershipInterval (link_par L)) t (ifc k) (lk_nodes L ! k)"
    if "0 < k" "k < length (lk_nodes L)" for k
    using D(4)[OF that] nothing_beforeD(2)[OF n[OF that(2)]] by (auto simp: host_node_def)
  moreover have "air_ok ifc ?L"
    using calm_covered[of ifc L] L
    by (intro air_ok.calm) (simp_all add: link_ok_def all_covered_def link_router_def link_par_def host_groups_def)
  ultimately show ?thesis using D(2) by (auto simp: link_ok_def link_par_def)
qed

lemma link_step_ok: "link_step ifc L L' \<Longrightarrow> link_ok ifc L \<Longrightarrow> link_ok ifc L'"
proof (induction rule: link_step.induct)
  case (tick L t)
  then show ?case by (intro tick_ok)
next
  case (happens L k e s)
  show ?case
  proof (cases "k = 0")
    case True
    show ?thesis unfolding True by (rule router_happens_ok[OF happens(6,1) happens(3-5)[unfolded True] refl])
  next
    case False
    then show ?thesis by (intro host_happens_ok[OF happens(6,1) _ happens(2-5) refl]) simp
  qed
next
  case (delivers L k msg ci rest ns)
  then show ?case using delivery_ok(1) by blast
qed

section \<open>From the start\<close>

definition link_starts :: "(nat \<Rightarrow> int) \<Rightarrow> IGMP list \<Rightarrow> bool" where
  "link_starts ifc ss \<longleftrightarrow> ss \<noteq> [] \<and> link_par_ok (igmp_par (ss ! 0)) \<and> (\<forall>k < length ss. igmp_fresh (ss ! k) \<and> on_multicast (ifc k) (ss ! k)
     \<and> (0 < k \<longrightarrow> \<not> igmp_forwarding (igmp_par (ss ! k)) \<and> hears (ifc k) ALL_HOSTS_MCAST (ss ! k)
          \<and> unsolicitedReportInterval (igmp_par (ss ! k)) < groupMembershipInterval (igmp_par (ss ! 0))))"

inductive link_reachable :: "(nat \<Rightarrow> int) \<Rightarrow> igmp_link \<Rightarrow> bool" for ifc where
  begins: "link_starts ifc ss \<Longrightarrow> length ns = length ss \<Longrightarrow> (\<And>k. k < length ss \<Longrightarrow> igmp_initialize now (ss ! k) = Inr (ns ! k)) \<Longrightarrow>
    link_reachable ifc \<lparr>lk_now = now, lk_nodes = ns,
      lk_air = concat (map (\<lambda>k. map (Pair k) (sent_since (ifc k) (ss ! k) (ns ! k))) [0..<length ns])\<rparr>"
| goes_on: "link_reachable ifc L \<Longrightarrow> link_step ifc L L' \<Longrightarrow> link_reachable ifc L'"

lemma first_queries: "\<exists>n. List.map_filter (on_link i) (map (\<lambda>ie. query (interfaceId ie) 0 m) xs) = replicate n (query_pair i 0 m)"
proof (induction xs)
  case Nil
  then show ?case by (intro exI[of _ 0]) (simp add: List.map_filter_simps)
next
  case (Cons ie xs)
  then obtain n where n: "List.map_filter (on_link i) (map (\<lambda>ie. query (interfaceId ie) 0 m) xs) = replicate n (query_pair i 0 m)" by blast
  show ?case
  proof (cases "interfaceId ie = i")
    case True
    then show ?thesis using n by (intro exI[of _ "Suc n"]) (simp add: List.map_filter_simps)
  next
    case False
    then show ?thesis using n by (intro exI[of _ n]) (simp add: List.map_filter_simps query_def)
  qed
qed

lemma begins_ok:
  assumes s: "link_starts ifc ss" "length ns = length ss" and i: "\<And>k. k < length ss \<Longrightarrow> igmp_initialize now (ss ! k) = Inr (ns ! k)"
  shows "link_ok ifc \<lparr>lk_now = now, lk_nodes = ns,
      lk_air = concat (map (\<lambda>k. map (Pair k) (sent_since (ifc k) (ss ! k) (ns ! k))) [0..<length ns])\<rparr>" (is "link_ok ifc ?L")
proof -
  have n: "0 < length ns" using s by (auto simp: link_starts_def)
  have f: "igmp_fresh (ss ! k)" "on_multicast (ifc k) (ss ! k)" if "k < length ss" for k using s(1) that by (simp_all add: link_starts_def)
  have p: "link_par_ok (igmp_par (ss ! 0))" "querying (igmp_par (ss ! 0))" using s(1) by (simp_all add: link_starts_def link_par_ok_def)
  note v = initialize_view[OF f(1) i]
  have keep: "igmp_par (ns ! k) = igmp_par (ss ! k)" "igmp_ift (ns ! k) = igmp_ift (ss ! k)" "host_if (igmp_hostData (ns ! k)) = (\<lambda>_. [])"
    "igmp_ok (ns ! k)" if "k < length ss" for k
    using v[OF that that] initialize_ok[OF f(1) i, OF that that] by (simp_all add: igmp_view_def)
  let ?m = "queryResponseInterval (igmp_par (ss ! 0))"
  have z: "0 < length ss" using n s(2) by simp
  have pos: "0 \<le> startupQueryInterval (igmp_par (ss ! 0))" using f(1)[OF z] by (simp add: igmp_fresh_def igmp_par_ok_def)
  have r0: "router_if (igmp_routerData (ns ! 0)) (ifc 0) = first_querier now (igmp_par (ss ! 0))"
    "igmp_out (ns ! 0) = igmp_out (ss ! 0) @ map (\<lambda>ie. query (interfaceId ie) 0 ?m) (filter if_multicast (interfaces (igmp_ift (ss ! 0))))"
    using v[OF z z] f(2)[OF z] p(2) by (simp_all add: igmp_view_def)
  have router: "router_node now (ifc 0) (ns ! 0)"
    using keep[OF z] r0(1) f(2)[OF z] p(1) pos same_interfaces(1)[of "ns ! 0" "ss ! 0"]
    by (simp add: router_node_def first_querier_def link_par_ok_def)
  have host: "host_node (groupMembershipInterval (igmp_par (ns ! 0))) now (ifc k) (ns ! k) \<and> sent_since (ifc k) (ss ! k) (ns ! k) = []"
    if k: "0 < k" "k < length ns" for k
  proof -
    have k': "k < length ss" using k s(2) by simp
    have h: "\<not> igmp_forwarding (igmp_par (ss ! k))" "hears (ifc k) ALL_HOSTS_MCAST (ss ! k)"
      "unsolicitedReportInterval (igmp_par (ss ! k)) < groupMembershipInterval (igmp_par (ss ! 0))"
      using s(1) k(1) k' by (simp_all add: link_starts_def)
    have "igmp_out (ns ! k) = igmp_out (ss ! k)" using v[OF k' k'] not_querying[OF h(1)] by (simp add: igmp_view_def)
    then show ?thesis using keep[OF k'] keep(1)[OF z] f(2)[OF k'] h same_interfaces[of "ns ! k" "ss ! k"]
      by (simp add: host_node_def sent_since_def List.map_filter_simps)
  qed
  obtain c where c: "sent_since (ifc 0) (ss ! 0) (ns ! 0) = replicate c (query_pair (ifc 0) 0 ?m)"
    using first_queries sent_since_append[OF r0(2)] by metis
  have air: "lk_air ?L = replicate c (0, query_pair (ifc 0) 0 (queryResponseInterval (link_par ?L)))"
    using air_out[OF n, of "\<lambda>k. sent_since (ifc k) (ss ! k) (ns ! k)"] host c keep(1)[OF z] by (simp add: link_par_def)
  have all: "all_covered ifc x (\<lambda>_. True) ?L" for x
    using keep(3) s(2) by (simp add: all_covered_def host_groups_def)
  have "air_ok ifc ?L"
  proof (cases c)
    case 0
    then show ?thesis using air all by (intro air_ok.calm) simp_all
  next
    case (Suc b)
    then show ?thesis using air all by (intro air_ok.asking[of _ b]) simp_all
  qed
  then show ?thesis using n router host by (simp add: link_ok_def link_par_def)
qed

lemma link_reachable_ok: "link_reachable ifc L \<Longrightarrow> link_ok ifc L"
proof (induction rule: link_reachable.induct)
  case (begins ss ns now)
  then show ?case by (rule begins_ok)
next
  case (goes_on L L')
  then show ?case by (intro link_step_ok[of ifc L L'])
qed

section \<open>Members are served\<close>

text \<open>Whatever is in the air can be heard by everyone.\<close>

lemma can_deliver:
  assumes L: "link_ok ifc L" and a: "lk_air L = (k, msg, ci) # rest"
  shows "k < length (lk_nodes L)" "\<exists>ns. delivered ifc L k msg ci ns"
proof -
  have p: "0 \<le> queryResponseInterval (link_par L)" "0 \<le> lastMemberQueryInterval (link_par L)"
    using link_okD(7)[OF L] by (simp_all add: igmp_par_ok_def)
  have "air_ok ifc L" using L by (simp add: link_ok_def)
  moreover have e: "k = fst (hd (lk_air L))" "msg = fst (snd (hd (lk_air L)))" "lk_air L \<noteq> []" using a by simp_all
  ultimately have m: "arrives msg \<and> k < length (lk_nodes L) \<and> (0 < k \<longrightarrow> ig_type msg \<noteq> IGMP_MEMBERSHIP_QUERY)"
    using link_okD(2)[OF L] by cases (simp_all add: e pair_arrives p)
  let ?hear = "\<lambda>j. hear (lk_now L) (ifc j) (own_address (ifc k) (lk_nodes L ! k)) msg ci (lk_nodes L ! j)"
  have "\<exists>s. if j = k then s = lk_nodes L ! j else ?hear j = Inr s" if j: "j < length (lk_nodes L)" for j
  proof (cases "j = 0 \<and> 0 < k")
    case True
    then obtain s' where "?hear j = Inr s'"
      using hear_router[OF link_okD(1)[OF L] _ _ refl refl, of msg "own_address (ifc k) (lk_nodes L ! k)" ci] m by metis
    then show ?thesis by auto
  next
    case False
    then show ?thesis
    proof (cases "j = k")
      case ne: False
      then have "0 < j" using False by auto
      then have "host_node (groupMembershipInterval (link_par L)) (lk_now L) (ifc j) (lk_nodes L ! j)" using link_okD(4)[OF L] j by simp
      then have h: "igmp_ok (lk_nodes L ! j)" "on_multicast (ifc j) (lk_nodes L ! j)" "\<not> igmp_forwarding (igmp_par (lk_nodes L ! j))"
        by (simp_all add: host_node_def)
      obtain s' where "?hear j = Inr s'" by (rule hear_host[OF h conjunct1[OF m]])
      then show ?thesis using ne by auto
    qed auto
  qed
  then obtain f where f: "\<And>j. j < length (lk_nodes L) \<Longrightarrow> if j = k then f j = lk_nodes L ! j else ?hear j = Inr (f j)" by metis
  have "delivered ifc L k msg ci (map f [0..<length (lk_nodes L)])" using f by (simp add: delivered_def)
  then show "\<exists>ns. delivered ifc L k msg ci ns" by blast
  show "k < length (lk_nodes L)" using m by simp
qed

lemma settles:
  assumes "link_ok ifc L"
  shows "\<exists>L'. (link_step ifc)\<^sup>*\<^sup>* L L' \<and> lk_now L' = lk_now L \<and> lk_air L' = []"
  using assms
proof (induction "air_work (lk_air L)" arbitrary: L rule: less_induct)
  case less
  show ?case
  proof (cases "lk_air L")
    case Nil
    then show ?thesis by blast
  next
    case (Cons x rest)
    obtain k msg ci where x: "x = (k, msg, ci)" by (cases x)
    note a = Cons[unfolded x]
    obtain ns where d: "delivered ifc L k msg ci ns" using can_deliver(2)[OF less.prems a] by blast
    let ?L = "after_delivery ifc L rest ns"
    have s: "link_step ifc L ?L" by (rule link_step.delivers[OF a can_deliver(1)[OF less.prems a] d])
    obtain L' where "(link_step ifc)\<^sup>*\<^sup>* ?L L'" "lk_now L' = lk_now ?L" "lk_air L' = []"
      using less.hyps[OF delivery_ok(2)[OF less.prems a d] delivery_ok(1)[OF less.prems a d]] by blast
    then show ?thesis using s by (intro exI[of _ L']) (auto simp: after_delivery_def intro: converse_rtranclp_into_rtranclp)
  qed
qed

definition joined :: "int \<Rightarrow> IPv4Address \<Rightarrow> IGMP \<Rightarrow> bool" where
  "joined i g s \<longleftrightarrow> (case getInterfaceById i (igmp_ift s) of
     Some ie \<Rightarrow> (case ipv4data ie of Some d \<Rightarrow> isMemberOfMulticastGroup g d | None \<Rightarrow> False) | None \<Rightarrow> False)"

definition forwards_to :: "int \<Rightarrow> IPv4Address \<Rightarrow> IGMP \<Rightarrow> bool" where
  "forwards_to i g s \<longleftrightarrow> (case getInterfaceById i (igmp_ift s) of
     Some ie \<Rightarrow> (case ipv4data ie of Some d \<Rightarrow> hasMulticastListener g d | None \<Rightarrow> False) | None \<Rightarrow> False)"

lemma calm_serves:
  assumes L: "link_ok ifc L" "lk_air L = []" and k: "0 < k" "k < length (lk_nodes L)"
    and g: "reportable g" "joined (ifc k) g (lk_nodes L ! k)"
  shows "forwards_to (ifc 0) g (lk_nodes L ! 0)"
proof -
  have h: "igmp_ok (lk_nodes L ! k)" "on_multicast (ifc k) (lk_nodes L ! k)" "igmp_ok (lk_nodes L ! 0)" "on_multicast (ifc 0) (lk_nodes L ! 0)"
    using link_okD(4)[OF L(1) k] link_okD(1)[OF L(1)] by (simp_all add: host_node_def router_node_def)
  obtain ie d where d: "getInterfaceById (ifc k) (igmp_ift (lk_nodes L ! k)) = Some ie" "ipv4data ie = Some d"
    "host_part_ok d (host_groups ifc L k)" using on_multicastE[OF h(2,1)] unfolding host_groups_def by metis
  have "isMemberOfMulticastGroup g d" using g(2) d(1,2) by (simp add: joined_def)
  then have "map_of (host_groups ifc L k) g \<noteq> None" using d(3) g(1) unfolding host_part_ok_def by blast
  then obtain grp where "map_of (host_groups ifc L k) g = Some grp" by blast
  from all_coveredD[OF calm_covered[OF _ L(2)] k TrueI this] obtain rg where rg: "map_of (ri_groups (link_router ifc L)) g = Some rg"
    using L(1) by (auto simp: covered_def link_ok_def)
  obtain ie' d' where d': "getInterfaceById (ifc 0) (igmp_ift (lk_nodes L ! 0)) = Some ie'" "ipv4data ie' = Some d'"
    "router_part_ok (igmp_par (lk_nodes L ! 0)) d' (link_router ifc L)" using on_multicastE[OF h(4,3)] unfolding link_router_def by metis
  show ?thesis using router_part_member[OF d'(3) rg] d'(1,2) by (simp add: forwards_to_def)
qed

text \<open>
  C8: However nodes join and leave groups and timers expire on a link, what is in the air settles within
  the same instant; and whenever nothing is in the air, the router forwards every group to the link that
  the interface of some host there has joined. Reports are suppressed and members leave, but no
  member is ever forgotten.
\<close>

theorem members_are_served:
  assumes "link_reachable ifc L"
  shows "(\<exists>L'. (link_step ifc)\<^sup>*\<^sup>* L L' \<and> lk_now L' = lk_now L \<and> lk_air L' = [])
    \<and> (lk_air L = [] \<longrightarrow> (\<forall>k g. 0 < k \<and> k < length (lk_nodes L) \<and> reportable g \<and> joined (ifc k) g (lk_nodes L ! k) \<longrightarrow>
         forwards_to (ifc 0) g (lk_nodes L ! 0)))"
  using settles[OF link_reachable_ok[OF assms]] calm_serves[OF link_reachable_ok[OF assms]] by blast

text \<open>A router and a host: the first query is heard, the host joins a group and its report is heard.\<close>

definition hear_each :: "(nat \<Rightarrow> int) \<Rightarrow> igmp_link \<Rightarrow> nat \<Rightarrow> IGMPMessage \<Rightarrow> IPv4ControlInfo \<Rightarrow> IGMP res list" where
  "hear_each ifc L k msg ci = map (\<lambda>j. if j = k then Inr (lk_nodes L ! j)
     else hear (lk_now L) (ifc j) (own_address (ifc k) (lk_nodes L ! k)) msg ci (lk_nodes L ! j)) [0..<length (lk_nodes L)]"

definition deliver_now :: "(nat \<Rightarrow> int) \<Rightarrow> igmp_link \<Rightarrow> igmp_link option" where
  "deliver_now ifc L = (case lk_air L of
     [] \<Rightarrow> None
   | (k, msg, ci) # rest \<Rightarrow>
       if k < length (lk_nodes L) \<and> list_all (\<lambda>r. \<not> isl r) (hear_each ifc L k msg ci)
       then Some (after_delivery ifc L rest (map projr (hear_each ifc L k msg ci))) else None)"

definition happen_now :: "(nat \<Rightarrow> int) \<Rightarrow> nat \<Rightarrow> igmp_occurrence \<Rightarrow> igmp_link \<Rightarrow> igmp_link option" where
  "happen_now ifc k e L =
     (if lk_air L = [] \<and> k < length (lk_nodes L) \<and> local_to k (ifc k) e \<and> possible (lk_now L) e (lk_nodes L ! k)
      then case igmp_occurs (lk_now L) e (lk_nodes L ! k) of
             Inl _ \<Rightarrow> None
           | Inr s \<Rightarrow> Some (L\<lparr>lk_nodes := (lk_nodes L)[k := s], lk_air := map (Pair k) (sent_since (ifc k) (lk_nodes L ! k) s)\<rparr>)
      else None)"

lemma deliver_now_step:
  assumes "deliver_now ifc L = Some L'"
  shows "link_step ifc L L'"
proof -
  obtain k msg ci rest where a: "lk_air L = (k, msg, ci) # rest" "k < length (lk_nodes L)" "list_all (\<lambda>r. \<not> isl r) (hear_each ifc L k msg ci)"
    "L' = after_delivery ifc L rest (map projr (hear_each ifc L k msg ci))"
    using assms by (auto simp: deliver_now_def split: list.splits prod.splits if_splits)
  have "delivered ifc L k msg ci (map projr (hear_each ifc L k msg ci))"
    using a(3) by (auto simp: delivered_def hear_each_def list_all_iff isl_def split: if_splits)
  then show ?thesis unfolding a(4) by (rule link_step.delivers[OF a(1,2)])
qed

lemma happen_now_step: "happen_now ifc k e L = Some L' \<Longrightarrow> link_step ifc L L'"
  by (auto simp: happen_now_def split: if_splits sum.splits intro: link_step.happens)

definition igmp_sample_host :: IGMP where
  "igmp_sample_host = sample_igmp\<lparr>igmp_par := sample_igmp_par\<lparr>igmp_forwarding := False\<rparr>,
     igmp_ift := [Some (sample_igmp_if\<lparr>ipv4data := Some (new_IPv4InterfaceData\<lparr>inetAddr := 0x0A000006,
       hostData := Some \<lparr>joinedMulticastGroups = [ALL_HOSTS_MCAST], refCounts = [1]\<rparr>\<rparr>)\<rparr>)]\<rparr>"

definition sample_ifc :: "nat \<Rightarrow> int" where
  "sample_ifc _ = 100"

lemma igmp_sample_host_fresh: "igmp_fresh igmp_sample_host"
proof -
  have "\<not> reportable g" if "g = ALL_HOSTS_MCAST" for g using all_hosts_not_reportable that by simp
  then show ?thesis
    by (auto simp: igmp_fresh_def igmp_sample_host_def sample_igmp_def sample_igmp_par_def igmp_par_ok_def seconds_def sample_igmp_if_def
        new_IPv4InterfaceData_def host_ok_def getHostData_def getRouterData_def isMemberOfMulticastGroup_def
        getInterfaceById_def INTERFACEIDS_START_def Let_def nth_Cons split: if_splits nat.splits)
qed

lemma igmp_sample_starts: "link_starts sample_ifc [sample_igmp, igmp_sample_host]"
proof -
  have "on_multicast 100 sample_igmp" "on_multicast 100 igmp_sample_host" "hears 100 ALL_HOSTS_MCAST igmp_sample_host" by code_simp+
  moreover have "\<not> igmp_forwarding (igmp_par igmp_sample_host)" "link_par_ok (igmp_par sample_igmp)"
    "unsolicitedReportInterval (igmp_par igmp_sample_host) < groupMembershipInterval (igmp_par sample_igmp)" by code_simp+
  ultimately show ?thesis using sample_igmp_fresh igmp_sample_host_fresh by (simp add: link_starts_def sample_ifc_def less_Suc_eq all_conj_distrib)
qed

definition igmp_sample_link :: "IGMP \<Rightarrow> IGMP \<Rightarrow> igmp_link" where
  "igmp_sample_link r h = \<lparr>lk_now = 0, lk_nodes = [r, h], lk_air = concat (map (\<lambda>k. map (Pair k)
     (sent_since (sample_ifc k) ([sample_igmp, igmp_sample_host] ! k) ([r, h] ! k))) [0..<length [r, h]])\<rparr>"

lemma igmp_sample_run:
  "case igmp_initialize 0 sample_igmp of Inl _ \<Rightarrow> False | Inr r \<Rightarrow>
   (case igmp_initialize 0 igmp_sample_host of Inl _ \<Rightarrow> False | Inr h \<Rightarrow>
   (case deliver_now sample_ifc (igmp_sample_link r h) of None \<Rightarrow> False | Some L1 \<Rightarrow>
   (case happen_now sample_ifc 1 (Membership 100 (Join 0xE1000001)) L1 of None \<Rightarrow> False | Some L2 \<Rightarrow>
   (case deliver_now sample_ifc L2 of None \<Rightarrow> False | Some L \<Rightarrow>
     lk_air L = [] \<and> length (lk_nodes L) = 2 \<and> reportable 0xE1000001 \<and> joined 100 0xE1000001 (lk_nodes L ! 1)))))"
  by code_simp

theorem members_are_served_witness:
  "\<exists>L. link_reachable sample_ifc L \<and> length (lk_nodes L) = 2 \<and> joined 100 0xE1000001 (lk_nodes L ! 1)
     \<and> forwards_to 100 0xE1000001 (lk_nodes L ! 0)"
proof -
  obtain r h L1 L2 L where i: "igmp_initialize 0 sample_igmp = Inr r" "igmp_initialize 0 igmp_sample_host = Inr h"
    and s: "deliver_now sample_ifc (igmp_sample_link r h) = Some L1"
    "happen_now sample_ifc 1 (Membership 100 (Join 0xE1000001)) L1 = Some L2" "deliver_now sample_ifc L2 = Some L"
    and L: "lk_air L = []" "length (lk_nodes L) = 2" "reportable 0xE1000001" "joined 100 0xE1000001 (lk_nodes L ! 1)"
    using igmp_sample_run by (auto split: sum.splits option.splits)
  have "link_reachable sample_ifc (igmp_sample_link r h)" unfolding igmp_sample_link_def
    by (rule link_reachable.begins[OF igmp_sample_starts]) (use i in \<open>auto simp: less_Suc_eq\<close>)
  note R1 = link_reachable.goes_on[OF this deliver_now_step[OF s(1)]]
  have R: "link_reachable sample_ifc L"
    by (rule link_reachable.goes_on[OF link_reachable.goes_on[OF R1 happen_now_step[OF s(2)]] deliver_now_step[OF s(3)]])
  have "forwards_to (sample_ifc 0) 0xE1000001 (lk_nodes L ! 0)"
    using conjunct2[OF members_are_served[OF R], rule_format, OF L(1), of 1 "0xE1000001"] L by (simp add: sample_ifc_def)
  then show ?thesis using R L(2,4) by (auto simp: sample_ifc_def)
qed

end
