(* ===== verification/Wire_Memory.thy ===== *)
theory Wire_Memory
  imports IPvX_Address
begin

text \<open>
  Memory as the serializers of \<^verbatim>\<open>util/headerserializers\<close> write and read it: a buffer is the list
  of its bytes, a pointer into it an offset, and an access outside of it has no defined behaviour. The
  machine is little endian; \<^verbatim>\<open>htons\<close> and \<^verbatim>\<open>htonl\<close> swap the bytes, so that what is stored
  through them stands in network byte order. The checksum of \<^verbatim>\<open>TCPIPchecksum.cc\<close> is here too.
\<close>

unbundle bit_operations_syntax

section \<open>Bytes\<close>

type_synonym memory = "u8 list"

definition store :: "nat \<Rightarrow> u8 list \<Rightarrow> memory \<Rightarrow> memory res" where
  "store i bs m =
     (if i + length bs \<le> length m then Inr (take i m @ bs @ drop (i + length bs) m)
      else Inl Undefined_behaviour)"

definition load :: "nat \<Rightarrow> nat \<Rightarrow> memory \<Rightarrow> u8 list res" where
  "load i n m = (if i + n \<le> length m then Inr (take n (drop i m)) else Inl Undefined_behaviour)"

definition load8 :: "nat \<Rightarrow> memory \<Rightarrow> u8 res" where
  "load8 i m = (if i < length m then Inr (m ! i) else Inl Undefined_behaviour)"

text \<open>Words as the machine stores them; those of 32 bits are the \<open>le_bytes\<close> of \<open>IPvX_Address\<close>.\<close>

definition bytes16 :: "u16 \<Rightarrow> u8 list" where
  "bytes16 w = [ucast w, ucast (drop_bit 8 w)]"

fun of_bytes16 :: "u8 list \<Rightarrow> u16" where
  "of_bytes16 [a, b] = ucast a + push_bit 8 (ucast b)"
| "of_bytes16 _ = 0"

fun of_bytes32 :: "u8 list \<Rightarrow> u32" where
  "of_bytes32 [a, b, c, d] = ucast a + push_bit 8 (ucast b) + push_bit 16 (ucast c) + push_bit 24 (ucast d)"
| "of_bytes32 _ = 0"

definition load16 :: "nat \<Rightarrow> memory \<Rightarrow> u16 res" where
  "load16 i m = map_sum id of_bytes16 (load i 2 m)"

definition load32 :: "nat \<Rightarrow> memory \<Rightarrow> u32 res" where
  "load32 i m = map_sum id of_bytes32 (load i 4 m)"

definition htons :: "u16 \<Rightarrow> u16" where
  "htons w = push_bit 8 w + drop_bit 8 w"

definition htonl :: "u32 \<Rightarrow> u32" where
  "htonl w = of_bytes32 (rev (le_bytes w))"

section \<open>The checksum\<close>

text \<open>The carries are added to the sum until none is left.\<close>

function fold_carries :: "u32 \<Rightarrow> u32" where
  "fold_carries s = (if drop_bit 16 s \<noteq> 0 then fold_carries (take_bit 16 s + drop_bit 16 s) else s)"
  by pat_completeness auto

lemma unat_halves:
  "unat (take_bit 16 (s::u32)) = unat s mod 65536" "unat (drop_bit 16 (s::u32)) = unat s div 65536"
  by (simp_all add: take_bit_eq_mod drop_bit_eq_div unat_mod_distrib unat_div_distrib)

lemma unat_fold_step: "unat (take_bit 16 s + drop_bit 16 (s::u32)) = unat s mod 65536 + unat s div 65536"
proof -
  have "unat s div 65536 < 65536" using unat_u32_bound[of s] by (simp add: less_mult_imp_div_less del: unat_u32_bound)
  then show ?thesis by (subst unat_add_u32) (simp_all add: unat_halves)
qed

termination fold_carries
proof (relation "measure unat")
  fix s :: u32 assume "drop_bit 16 s \<noteq> 0"
  then have "0 < unat s div 65536" using unat_halves(2)[of s] by (metis neq0_conv unat_eq_zero)
  then have "unat s mod 65536 + unat s div 65536 < unat s"
    using div_mult_mod_eq[of "unat s" 65536] by linarith
  then show "(take_bit 16 s + drop_bit 16 s, s) \<in> measure unat" by (simp only: in_measure unat_fold_step)
qed simp

declare fold_carries.simps [simp del]

text \<open>The sum is kept below 2^31 while words are added; a last odd byte counts as a word.\<close>

fun add_words :: "u32 \<Rightarrow> u8 list \<Rightarrow> u32" where
  "add_words s (a # b # bs) =
     (let s = s + ucast (of_bytes16 [a, b])
      in add_words (if bit s 31 then take_bit 16 s + drop_bit 16 s else s) bs)"
| "add_words s [a] = s + ucast a"
| "add_words s [] = s"

text \<open>\<^verbatim>\<open>_checksum\<close> of \<open>n\<close> bytes, and \<^verbatim>\<open>checksum\<close>, its complement.\<close>

definition raw_checksum :: "u8 list \<Rightarrow> u16" where
  "raw_checksum bs = ucast (fold_carries (add_words 0 bs))"

definition raw_checksum_at :: "nat \<Rightarrow> nat \<Rightarrow> memory \<Rightarrow> u16 res" where
  "raw_checksum_at i n m = map_sum id raw_checksum (load i n m)"

definition checksum_at :: "nat \<Rightarrow> nat \<Rightarrow> memory \<Rightarrow> u16 res" where
  "checksum_at i n m = map_sum id NOT (raw_checksum_at i n m)"

section \<open>The checksum as a ones' complement sum\<close>

fun words_sum :: "u8 list \<Rightarrow> nat" where
  "words_sum (a # b # bs) = unat a + 256 * unat b + words_sum bs"
| "words_sum [a] = unat a"
| "words_sum [] = 0"

text \<open>The representative of a sum: 0 only for 0.\<close>

definition ones_sum :: "nat \<Rightarrow> nat" where
  "ones_sum n = (if n = 0 then 0 else (n - 1) mod 65535 + 1)"

lemma ones_sum_le: "ones_sum n \<le> 65535"
  by (cases "n = 0") (simp_all add: ones_sum_def Suc_le_eq)

lemma ones_sum_mod: "ones_sum n mod 65535 = n mod 65535"
  by (cases n) (simp_all add: ones_sum_def mod_Suc)

lemma ones_sum_eqI: "a mod 65535 = b mod 65535 \<Longrightarrow> (a = 0 \<longleftrightarrow> b = 0) \<Longrightarrow> ones_sum a = ones_sum b"
proof -
  assume m: "a mod 65535 = b mod 65535" and z: "a = 0 \<longleftrightarrow> b = 0"
  show ?thesis
  proof (cases "a = 0")
    case False
    then have "(a - 1) mod 65535 = (b - 1) mod 65535"
      using m z by (cases a; cases b) (auto simp: mod_Suc split: if_splits)
    then show ?thesis using False z by (simp add: ones_sum_def)
  qed (use z in \<open>simp add: ones_sum_def\<close>)
qed

lemma ones_sum_add: "ones_sum (ones_sum a + b) = ones_sum (a + b)"
proof (rule ones_sum_eqI)
  show "(ones_sum a + b) mod 65535 = (a + b) mod 65535" by (rule mod_add_cong[OF ones_sum_mod refl])
qed (simp add: ones_sum_def)

lemma ones_sum_add_right: "ones_sum (a + ones_sum b) = ones_sum (a + b)"
  using ones_sum_add[of b a] by (simp add: add.commute)

lemma ones_sum_small: "n < 65536 \<Longrightarrow> ones_sum n = n"
  by (cases n) (simp_all add: ones_sum_def)

lemma ones_sum_fold: "ones_sum (n mod 65536 + n div 65536) = ones_sum n"
proof (rule ones_sum_eqI)
  have e: "n = (n mod 65536 + n div 65536) + 65535 * (n div 65536)" using div_mult_mod_eq[of n 65536] by linarith
  have "n mod 65535 = (n mod 65536 + n div 65536 + 65535 * (n div 65536)) mod 65535" using e by (rule arg_cong)
  then show "(n mod 65536 + n div 65536) mod 65535 = n mod 65535" by (simp only: mod_mult_self2)
  show "n mod 65536 + n div 65536 = 0 \<longleftrightarrow> n = 0" using e by auto
qed

lemma unat_ucast_up [simp]:
  "unat (ucast (a::u8) :: u16) = unat a" "unat (ucast (a::u8) :: u32) = unat a" "unat (ucast (w::u16) :: u32) = unat w"
  using unsigned_less[of a, where 'a = nat] unsigned_less[of w, where 'a = nat]
  by (simp_all add: unsigned_ucast_eq take_bit_eq_mod)

lemma unat_u8_u16_bound: "unat (a::u8) < 256" "unat (w::u16) < 65536"
  using unsigned_less[of a, where 'a = nat] unsigned_less[of w, where 'a = nat] by simp_all

lemma unat_fold_carries: "unat (fold_carries s) = ones_sum (unat s)"
proof (induction s rule: fold_carries.induct)
  case (1 s)
  show ?case
  proof (cases "drop_bit 16 s = 0")
    case True
    then have "unat s < 65536" using unat_halves(2)[of s] by (simp add: div_eq_0_iff)
    then show ?thesis using True by (simp add: fold_carries.simps[of s] ones_sum_small)
  next
    case False
    then have "unat (fold_carries s) = ones_sum (unat (take_bit 16 s + drop_bit 16 s))"
      using 1 by (simp add: fold_carries.simps[of s])
    then show ?thesis by (simp only: unat_fold_step ones_sum_fold)
  qed
qed

lemma unat_of_bytes16: "unat (of_bytes16 [a, b]) = unat a + 256 * unat b"
proof -
  have "unat (push_bit 8 (ucast b :: u16)) = 256 * unat b"
    using unat_u8_u16_bound(1)[of b] by (simp add: push_bit_eq_mult unat_word_ariths)
  then show ?thesis using unat_u8_u16_bound(1)[of a] unat_u8_u16_bound(1)[of b] by (simp add: unat_word_ariths)
qed

lemma add_words_sum:
  "unat s < 2147483648 \<Longrightarrow> ones_sum (unat (add_words s bs)) = ones_sum (unat s + words_sum bs)"
proof (induction s bs rule: add_words.induct)
  case (1 s a b bs)
  define w where "w = of_bytes16 [a, b]"
  define s1 where "s1 = s + ucast w"
  define s2 where "s2 = (if bit s1 31 then take_bit 16 s1 + drop_bit 16 s1 else s1)"
  have w: "unat (ucast w :: u32) = unat a + 256 * unat b" "unat a + 256 * unat b < 65536"
    using unat_of_bytes16[of a b] unat_u8_u16_bound(2)[of w] by (simp_all add: w_def)
  have s1: "unat s1 = unat s + (unat a + 256 * unat b)"
    unfolding s1_def using w 1(2) by (subst unat_add_u32) simp_all
  have low: "unat s2 < 2147483648"
  proof (cases "bit s1 31")
    case True
    have "unat s1 mod 65536 < 65536" "unat s1 div 65536 < 65536"
      using unat_u32_bound[of s1] by (simp_all add: less_mult_imp_div_less del: unat_u32_bound)
    then show ?thesis using True by (simp add: s2_def unat_fold_step)
  next
    case False
    then have "\<not> bit (unat s1) 31" by (simp add: bit_unsigned_iff)
    then have "even (unat s1 div 2147483648)" by (simp add: bit_iff_odd)
    moreover have "unat s1 div 2147483648 < 2"
      using unat_u32_bound[of s1] by (simp add: less_mult_imp_div_less del: unat_u32_bound)
    ultimately have "unat s1 div 2147483648 = 0" by (cases "unat s1 div 2147483648") auto
    then show ?thesis using False by (simp add: s2_def div_eq_0_iff)
  qed
  have "ones_sum (unat s2) = ones_sum (unat s1)" using ones_sum_fold[of "unat s1"] by (simp add: s2_def unat_fold_step)
  then have e: "ones_sum (unat s2 + words_sum bs) = ones_sum (unat s1 + words_sum bs)"
    by (metis ones_sum_add)
  have "add_words s (a # b # bs) = add_words s2 bs" by (simp add: Let_def s2_def s1_def w_def)
  moreover have "ones_sum (unat (add_words s2 bs)) = ones_sum (unat s2 + words_sum bs)"
    using 1(1)[OF refl] low unfolding s2_def s1_def w_def by simp
  ultimately show ?case using e s1 by (simp add: add.assoc)
next
  case (2 s a)
  then show ?case using unat_u8_u16_bound(1)[of a] by (simp add: unat_add_u32)
qed simp

lemma unat_raw_checksum: "unat (raw_checksum bs) = ones_sum (words_sum bs)"
proof -
  have "unat (fold_carries (add_words 0 bs)) = ones_sum (words_sum bs)"
    by (simp add: unat_fold_carries add_words_sum)
  moreover have "ones_sum (words_sum bs) < 65536" using ones_sum_le[of "words_sum bs"] by simp
  ultimately show ?thesis by (simp add: raw_checksum_def unsigned_ucast_eq take_bit_eq_mod)
qed

lemma words_sum_append: "even (length xs) \<Longrightarrow> words_sum (xs @ ys) = words_sum xs + words_sum ys"
  by (induction xs rule: words_sum.induct) auto

text \<open>A field that holds the complement of the rest makes the sum all ones.\<close>

lemma ones_sum_complement: "ones_sum (n + (65535 - ones_sum n)) = 65535"
proof -
  have "(n + (65535 - ones_sum n)) mod 65535 = (ones_sum n + (65535 - ones_sum n)) mod 65535"
    by (rule mod_add_cong[OF ones_sum_mod[symmetric] refl])
  then have "(n + (65535 - ones_sum n)) mod 65535 = 65535 mod 65535" using ones_sum_le[of n] by simp
  moreover have "n + (65535 - ones_sum n) \<noteq> 0" using ones_sum_le[of n] by (cases n) (auto simp: ones_sum_def)
  ultimately have "ones_sum (n + (65535 - ones_sum n)) = ones_sum 65535" by (intro ones_sum_eqI) simp_all
  then show ?thesis by (simp add: ones_sum_def)
qed

section \<open>Byte order\<close>

lemma unat_bytes:
  "unat (ucast (w::u16) :: u8) = unat w mod 256" "unat (ucast (v::u32) :: u8) = unat v mod 256"
  "unat (drop_bit n w) = unat w div 2 ^ n" "unat (drop_bit n v) = unat v div 2 ^ n"
proof -
  have "take_bit LENGTH(16) (unat w) = unat w" "take_bit LENGTH(32) (unat v) = unat v"
    by (rule take_bit_nat_eq_self; simp add: unat_u8_u16_bound)+
  then show "unat (drop_bit n w) = unat w div 2 ^ n" "unat (drop_bit n v) = unat v div 2 ^ n"
    by (subst unsigned_drop_bit_eq, simp only: drop_bit_eq_div)+
qed (simp_all add: unsigned_ucast_eq take_bit_eq_mod)

lemma high_byte: "unat (w::u16) div 256 mod 256 = unat w div 256"
  using unat_u8_u16_bound(2)[of w] by (simp add: less_mult_imp_div_less)

lemma words_sum_bytes16 [simp]: "words_sum (bytes16 w) = unat w"
  using div_mult_mod_eq[of "unat w" 256] by (simp add: bytes16_def unat_bytes high_byte)

lemma of_bytes16_bytes16 [simp]: "of_bytes16 (bytes16 w) = w"
  using div_mult_mod_eq[of "unat w" 256]
  by (simp add: bytes16_def word_unat_eq_iff unat_of_bytes16 unat_bytes high_byte del: of_bytes16.simps)

lemma bytes16_of_bytes16: "bytes16 (of_bytes16 [a, b]) = [a, b]"
  using unat_u8_u16_bound(1)[of a] unat_u8_u16_bound(1)[of b]
  by (simp add: bytes16_def word_unat_eq_iff unat_of_bytes16 unat_bytes high_byte del: of_bytes16.simps)

lemma unat_htons: "unat (htons w) = 256 * (unat w mod 256) + unat w div 256"
proof -
  have "unat (push_bit 8 w) = 256 * (unat w mod 256)"
    by (simp add: push_bit_eq_mult unat_word_ariths mult_mod_right mult.commute)
  moreover have "unat w div 256 < 256" using unat_u8_u16_bound(2)[of w] by (simp add: less_mult_imp_div_less)
  moreover have "unat w mod 256 < 256" by simp
  ultimately show ?thesis unfolding htons_def by (subst unat_word_ariths(1)) (simp add: unat_bytes)
qed

lemma bytes16_htons [simp]: "bytes16 (htons w) = rev (bytes16 w)"
proof -
  have "unat w div 256 < 256" using unat_u8_u16_bound(2)[of w] by (simp add: less_mult_imp_div_less)
  then show ?thesis by (simp add: bytes16_def word_unat_eq_iff unat_bytes unat_htons)
qed

lemma htons_htons [simp]: "htons (htons w) = w"
  by (metis bytes16_htons of_bytes16_bytes16 rev_rev_ident)

lemma of_bytes16_rev [simp]: "of_bytes16 (rev (bytes16 w)) = htons w"
  by (metis bytes16_htons of_bytes16_bytes16)

lemma unat_of_bytes32: "unat (of_bytes32 [a, b, c, d]) = unat a + 256 * unat b + 65536 * unat c + 16777216 * unat d"
proof -
  have "unat (push_bit 8 (ucast b :: u32)) = 256 * unat b" "unat (push_bit 16 (ucast c :: u32)) = 65536 * unat c"
    "unat (push_bit 24 (ucast d :: u32)) = 16777216 * unat d"
    using unat_u8_u16_bound(1)[of b] unat_u8_u16_bound(1)[of c] unat_u8_u16_bound(1)[of d]
    by (simp_all add: push_bit_eq_mult unat_word_ariths)
  then show ?thesis
    using unat_u8_u16_bound(1)[of a] unat_u8_u16_bound(1)[of b] unat_u8_u16_bound(1)[of c] unat_u8_u16_bound(1)[of d]
    by (simp add: unat_word_ariths)
qed

text \<open>The bytes of a word as the digits of a number.\<close>

lemma digits: "(a::nat) < 256 \<Longrightarrow> (a + 256 * x) div 256 = x \<and> (a + 256 * x) mod 256 = a"
  by simp

lemma nested: "a + 256 * b + 65536 * c + 16777216 * d = a + 256 * (b + 256 * (c + 256 * (d::nat)))"
  by simp

lemma div_powers: "(n::nat) div 65536 = n div 256 div 256" "n div 16777216 = n div 256 div 256 div 256"
  by (simp_all add: div_mult2_eq [symmetric])

lemma of_bytes32_le_bytes [simp]: "of_bytes32 (le_bytes w) = w"
proof -
  have "unat w div 256 div 256 div 256 < 256"
    using unat_u32_bound[of w] by (simp add: div_mult2_eq [symmetric] less_mult_imp_div_less del: unat_u32_bound)
  then have "unat w mod 256 + 256 * (unat w div 256 mod 256 + 256 * (unat w div 256 div 256 mod 256
      + 256 * (unat w div 256 div 256 div 256 mod 256))) = unat w"
    by (simp only: mod_less mod_mult_div_eq)
  then show ?thesis unfolding word_unat_eq_iff le_bytes_def unat_of_bytes32 nested unat_bytes
    by (simp add: div_powers)
qed

lemma le_bytes_of_bytes32: "le_bytes (of_bytes32 [a, b, c, d]) = [a, b, c, d]"
proof -
  let ?n = "unat a + 256 * (unat b + 256 * (unat c + 256 * unat d))"
  note B = unat_u8_u16_bound(1)
  have "?n mod 256 = unat a" "?n div 256 = unat b + 256 * (unat c + 256 * unat d)"
    using digits[OF B[of a], of "unat b + 256 * (unat c + 256 * unat d)"] by (simp_all only:)
  moreover have "(unat b + 256 * (unat c + 256 * unat d)) mod 256 = unat b"
    "(unat b + 256 * (unat c + 256 * unat d)) div 256 = unat c + 256 * unat d"
    using digits[OF B[of b], of "unat c + 256 * unat d"] by (simp_all only:)
  moreover have "(unat c + 256 * unat d) mod 256 = unat c" "(unat c + 256 * unat d) div 256 = unat d"
    using digits[OF B[of c], of "unat d"] by (simp_all only:)
  moreover have "unat d mod 256 = unat d" using B[of d] by simp
  moreover have "(2::nat) ^ 8 = 256" "(2::nat) ^ 16 = 65536" "(2::nat) ^ 24 = 16777216" by simp_all
  ultimately show ?thesis
    unfolding le_bytes_def list.inject word_unat_eq_iff unat_bytes unat_of_bytes32 nested
    by (simp only: div_powers simp_thms)
qed

lemma le_bytes_htonl [simp]: "le_bytes (htonl w) = rev (le_bytes w)"
  by (simp add: htonl_def le_bytes_def le_bytes_of_bytes32 [unfolded le_bytes_def] del: of_bytes32.simps)

lemma of_bytes32_rev [simp]: "of_bytes32 (rev (le_bytes w)) = htonl w"
  by (metis le_bytes_htonl of_bytes32_le_bytes)

lemma htonl_htonl [simp]: "htonl (htonl w) = w"
  by (metis le_bytes_htonl of_bytes32_le_bytes rev_rev_ident)

end
