(* ===== verification/Wire_TCP.thy ===== *)
theory Wire_TCP
  imports Wire_Memory TCP_Segment
begin

text \<open>
  The wire format of TCP segments (\<^verbatim>\<open>util/headerserializers/tcp/TCPSerializer.cc\<close> with
  \<^verbatim>\<open>headers/tcp.h\<close>): writing a segment into a buffer, its checksum, and reading it back. A
  segment starts at offset 0 of the memory; the fields of \<^verbatim>\<open>struct tcphdr\<close> stand at the offsets
  0, 2, 4, 8, 12, 13, 14, 16 and 18, the options at 20. The size of the buffer that the functions take is
  not looked at by the code when it writes: an access outside of the memory is undefined.
\<close>

unbundle bit_operations_syntax

section \<open>Writing\<close>

definition TH_FIN :: u8 where "TH_FIN = 0x01"
definition TH_SYN :: u8 where "TH_SYN = 0x02"
definition TH_RST :: u8 where "TH_RST = 0x04"
definition TH_PUSH :: u8 where "TH_PUSH = 0x08"
definition TH_ACK :: u8 where "TH_ACK = 0x10"
definition TH_URG :: u8 where "TH_URG = 0x20"
definition TH_FLAGS :: u8 where "TH_FLAGS = 0x3F"

lemmas th_defs = TH_FIN_def TH_SYN_def TH_RST_def TH_PUSH_def TH_ACK_def TH_URG_def TH_FLAGS_def

definition th_flags :: "TCPSegment \<Rightarrow> u8" where
  "th_flags seg = TH_FLAGS AND
     ((if finBit seg then TH_FIN else 0) OR (if synBit seg then TH_SYN else 0) OR
      (if rstBit seg then TH_RST else 0) OR (if pshBit seg then TH_PUSH else 0) OR
      (if ackBit seg then TH_ACK else 0) OR (if urgBit seg then TH_URG else 0))"

text \<open>The data offset is the high half of a byte whose low half stays as it is.\<close>

definition store_th_offs :: "u32 \<Rightarrow> memory \<Rightarrow> memory res" where
  "store_th_offs n m = bind_res (load8 12 m) (\<lambda>b.
     store 12 [take_bit 4 b OR push_bit 4 (ucast n)] m)"

text \<open>The bytes of one value, from the last one at position \<open>p\<close> back to \<open>p0\<close>; the loop is entered with \<open>Suc p\<close>.\<close>

fun put_value :: "nat \<Rightarrow> nat \<Rightarrow> nat \<Rightarrow> u32 \<Rightarrow> memory \<Rightarrow> memory res" where
  "put_value opt p0 0 v m = Inr m"
| "put_value opt p0 (Suc p) v m =
     (if p0 \<le> p then bind_res (store (opt + p) [ucast v] m) (put_value opt p0 p (drop_bit 8 v)) else Inr m)"

definition write_option :: "u32 \<Rightarrow> TCPOption \<Rightarrow> u32 \<times> memory \<Rightarrow> (u32 \<times> memory) res" where
  "write_option maxOptLength opt s = (case s of (lengthCounter, m) \<Rightarrow>
     let base = 20 + unat lengthCounter;
         len = (ucast (opt_length opt) :: u32);
         lengthCounter = lengthCounter + len
     in ASSERT (lengthCounter \<le> maxOptLength)
          (bind_res (store base [ucast (opt_kind opt)] m) (\<lambda>m.
           bind_res (if opt_length opt > 1 then store (base + 1) [ucast (opt_length opt)] m else Inr m) (\<lambda>m.
           bind_res (fold_res (\<lambda>(k, v). put_value base (unat (2 + 4 * of_nat k :: u32))
                                 (Suc (unat (min (len - 1) (5 + 4 * of_nat k)))) v)
                       (enumerate 0 (opt_values opt)) m) (\<lambda>m.
           Inr (lengthCounter, m))))))"

text \<open>Zeros up to a multiple of four.\<close>

function put_padding :: "u32 \<Rightarrow> memory \<Rightarrow> (u32 \<times> memory) res" where
  "put_padding lengthCounter m =
     (if lengthCounter mod 4 \<noteq> 0
      then bind_res (store (20 + unat lengthCounter) [0] m) (put_padding (lengthCounter + 1))
      else Inr (lengthCounter, m))"
  by pat_completeness auto

lemma unat_mod4: "unat ((n::u32) mod 4) = unat n mod 4"
  by (simp add: unat_mod_distrib)

lemma unat_next_mod4: "unat ((n::u32) + 1) mod 4 = (unat n + 1) mod 4"
  by (simp add: unat_add_mod_u32 mod_mod_cancel)

lemma mod4_next: "(n::u32) mod 4 \<noteq> 0 \<Longrightarrow> (4 - unat (n + 1) mod 4) mod 4 < (4 - unat n mod 4) mod 4"
proof -
  assume "n mod 4 \<noteq> 0"
  then have "unat n mod 4 \<noteq> 0" using unat_mod4[of n] by (metis unat_eq_zero)
  moreover have "unat n mod 4 < 4" by simp
  ultimately consider "unat n mod 4 = 1" | "unat n mod 4 = 2" | "unat n mod 4 = 3" by linarith
  then show ?thesis by cases (simp_all add: unat_next_mod4 mod_Suc)
qed

termination put_padding
  by (relation "measure (\<lambda>(n, m). (4 - unat n mod 4) mod 4)") (auto dest: mod4_next)

declare put_padding.simps [simp del]

text \<open>The fields of the header, the options with their padding, and the data.\<close>

definition put_header :: "TCPSegment \<Rightarrow> memory \<Rightarrow> memory res" where
  "put_header seg m =
     bind_res (fold_res (\<lambda>(i, bs). store i bs)
       [(16, bytes16 0), (0, bytes16 (htons (srcPort seg))), (2, bytes16 (htons (destPort seg))),
        (4, le_bytes (htonl (sequenceNo seg))), (8, le_bytes (htonl (ackNo seg)))] m) (\<lambda>m.
     bind_res (store_th_offs (ucast TCP_HEADER_OCTETS div 4) m) (\<lambda>m.
     fold_res (\<lambda>(i, bs). store i bs)
       [(13, [th_flags seg]), (14, bytes16 (htons (window seg))), (18, bytes16 (htons (urgentPointer seg)))] m))"

definition put_options :: "TCPSegment \<Rightarrow> memory \<Rightarrow> (u32 \<times> memory) res" where
  "put_options seg m =
     (let numOptions = (of_nat (length (options seg)) :: u16)
      in if numOptions > 0
         then bind_res (fold_res (write_option (ucast (headerLength seg) - ucast TCP_HEADER_OCTETS))
                          (take (unat numOptions) (options seg)) (0, m)) (\<lambda>(lengthCounter, m).
              bind_res (put_padding lengthCounter m) (\<lambda>(lengthCounter, m).
              ASSERT (ucast TCP_HEADER_OCTETS + lengthCounter \<le> ucast TCP_MAX_HEADER_OCTETS)
                (bind_res (store_th_offs ((ucast TCP_HEADER_OCTETS + lengthCounter) div 4) m) (\<lambda>m.
                 Inr (lengthCounter, m)))))
         else Inr (0, m))"

definition put_data :: "TCPSegment \<Rightarrow> int \<Rightarrow> u32 \<times> memory \<Rightarrow> memory res" where
  "put_data seg byteLength s = (case s of (lengthCounter, m) \<Rightarrow>
     if byteLength > uint (headerLength seg)
     then let dataLength = (of_int (byteLength - uint (headerLength seg)) :: u32);
              tcpData = 20 + unat lengthCounter
          in if getDataArraySize (byteArray seg) > 0
             then ASSERT (getDataArraySize (byteArray seg) = dataLength)
                    (store tcpData (copyDataToBuffer (byteArray seg) dataLength 0) m)
             else store tcpData (replicate (unat dataLength) 0x74) m
     else Inr m)"

definition tcp_serialize :: "TCPSegment \<Rightarrow> int \<Rightarrow> memory \<Rightarrow> memory res" where
  "tcp_serialize seg byteLength m =
     bind_res (put_header seg m) (\<lambda>m. bind_res (put_options seg m) (put_data seg byteLength))"

section \<open>The checksum\<close>

fun ipx_words :: "IPvXAddress \<Rightarrow> u32 list" where
  "ipx_words (IPv4 d) = [d]"
| "ipx_words (IPv6 a b c d) = [a, b, c, d]"

definition IP_PROT_TCP :: u16 where "IP_PROT_TCP = 6"

definition tcp_checksum :: "u32 \<Rightarrow> IPvXAddress \<Rightarrow> IPvXAddress \<Rightarrow> memory \<Rightarrow> u16 res" where
  "tcp_checksum count' src dest m =
     bind_res (raw_checksum_at 0 (unat count') m) (\<lambda>sum.
     ASSERT (length (ipx_words src) = length (ipx_words dest))
       (let address_sum = (\<lambda>a. ucast (htons (raw_checksum (concat (map le_bytes (ipx_words a))))) :: u32);
            sum = ucast sum + address_sum src + address_sum dest + ucast (htons (ucast count')) + ucast (htons IP_PROT_TCP)
        in Inr (NOT (ucast (fold_carries sum)))))"

text \<open>The segment with its checksum: the number of bytes written is the length of the packet.\<close>

definition tcp_serialize_checksum :: "TCPSegment \<Rightarrow> int \<Rightarrow> IPvXAddress \<Rightarrow> IPvXAddress \<Rightarrow> memory \<Rightarrow> memory res" where
  "tcp_serialize_checksum seg byteLength src dest m =
     bind_res (tcp_serialize seg byteLength m) (\<lambda>m.
     bind_res (tcp_checksum (of_int byteLength) src dest m) (\<lambda>c. store 16 (bytes16 c) m))"

section \<open>Reading\<close>

definition new_TCPOption :: TCPOption where
  "new_TCPOption = \<lparr>opt_kind = 0, opt_length = 1, opt_values = []\<rparr>"

text \<open>The \<open>k\<close>-th value of an option of \<open>len\<close> bytes at \<open>opt\<close>: up to four bytes, the high one first.\<close>

definition get_value :: "nat \<Rightarrow> nat \<Rightarrow> nat \<Rightarrow> memory \<Rightarrow> u32 res" where
  "get_value opt len k m =
     map_sum id (foldl (\<lambda>value b. push_bit 8 value + ucast b) 0)
       (load (opt + 2 + 4 * k) (min len (6 + 4 * k) - (2 + 4 * k)) m)"

definition get_option :: "u16 \<Rightarrow> memory \<Rightarrow> TCPOption res" where
  "get_option j m =
     (let opt = 20 + unat j in
      bind_res (load8 opt m) (\<lambda>kind.
      bind_res (load8 (opt + 1) m) (\<lambda>len.
      let kind = (ucast kind :: u16);
          len = (if kind = TCPOPTION_END_OF_OPTION_LIST \<or> kind = TCPOPTION_NO_OPERATION then 1 else ucast len :: u16)
      in map_sum id (\<lambda>vs. \<lparr>opt_kind = kind, opt_length = len, opt_values = vs\<rparr>)
           (fold_res (\<lambda>k vs. map_sum id (\<lambda>v. vs @ [v]) (get_value opt (unat len) k m))
              [0..<(unat len + 1) div 4] []))))"

text \<open>The options of the segment grow by one, and the slot counted by \<open>optionsCounter\<close> is set.\<close>

partial_function (option) get_options ::
  "u16 \<Rightarrow> u16 \<Rightarrow> u16 \<Rightarrow> memory \<Rightarrow> TCPOption list \<Rightarrow> TCPOption list res option" where
  "get_options optionBytes j optionsCounter m opts =
     (if j < optionBytes
      then (case get_option j m of
              Inl e \<Rightarrow> Some (Inl e)
            | Inr opt \<Rightarrow> get_options optionBytes (j + opt_length opt) (optionsCounter + 1) m
                          ((opts @ [new_TCPOption])[unat optionsCounter := opt]))
      else Some (Inr opts))"

definition tcp_parse :: "u32 \<Rightarrow> bool \<Rightarrow> memory \<Rightarrow> TCPSegment \<Rightarrow> TCPSegment res" where
  "tcp_parse bufsize withBytes m seg =
     bind_res (load16 0 m) (\<lambda>sport. bind_res (load16 2 m) (\<lambda>dport.
     bind_res (load32 4 m) (\<lambda>seq. bind_res (load32 8 m) (\<lambda>ack.
     bind_res (load8 12 m) (\<lambda>offs. bind_res (load8 13 m) (\<lambda>flags.
     bind_res (load16 14 m) (\<lambda>win. bind_res (load16 18 m) (\<lambda>urp.
     let hdrLength = (ucast (drop_bit 4 offs) * 4 :: u16);
         payload = bufsize - ucast hdrLength;
         is_set = (\<lambda>f. flags AND f = f)
     in bind_res
          (if hdrLength > TCP_HEADER_OCTETS
           then of_loop (get_options (hdrLength - TCP_HEADER_OCTETS) 0 0 m (options seg))
           else Inr (options seg)) (\<lambda>opts.
        bind_res (if withBytes then load (unat hdrLength) (unat payload) m else Inr (byteArray seg)) (\<lambda>bytes.
        Inr (seg\<lparr>srcPort := htons sport, destPort := htons dport, sequenceNo := htonl seq, ackNo := htonl ack,
                 headerLength := hdrLength, finBit := is_set TH_FIN, synBit := is_set TH_SYN,
                 rstBit := is_set TH_RST, pshBit := is_set TH_PUSH, ackBit := is_set TH_ACK,
                 urgBit := is_set TH_URG, window := htons win, urgentPointer := htons urp,
                 options := opts, payloadLength := payload, byteArray := bytes\<rparr>)))))))))))"

end
