(* ===== verification/Wire_TCP_Laws.thy ===== *)
theory Wire_TCP_Laws
  imports Wire_TCP
begin

text \<open>
  What the TCP serializer writes, byte for byte, and that reading it back gives the segment again; when
  the loop over the options of a received segment ends; and the checksum against the definition of
  RFC 1071 over the pseudo header in network byte order.
\<close>

unbundle bit_operations_syntax

section \<open>Bytes of an option\<close>

text \<open>The low \<open>n\<close> bytes of a value, the high one first.\<close>

fun be_bytes :: "nat \<Rightarrow> u32 \<Rightarrow> u8 list" where
  "be_bytes 0 v = []"
| "be_bytes (Suc n) v = be_bytes n (drop_bit 8 v) @ [ucast v]"

fun value_bytes :: "nat \<Rightarrow> u32 list \<Rightarrow> u8 list" where
  "value_bytes n [] = []"
| "value_bytes n (v # vs) = be_bytes (min 4 n) v @ value_bytes (n - 4) vs"

fun values_fit :: "nat \<Rightarrow> u32 list \<Rightarrow> bool" where
  "values_fit n [] \<longleftrightarrow> n = 0"
| "values_fit n (v # vs) \<longleftrightarrow> 0 < n \<and> unat v < 256 ^ min 4 n \<and> values_fit (n - 4) vs"

definition option_bytes :: "TCPOption \<Rightarrow> u8 list" where
  "option_bytes opt = (if opt_length opt = 1 then [ucast (opt_kind opt)]
     else ucast (opt_kind opt) # ucast (opt_length opt) # value_bytes (unat (opt_length opt) - 2) (opt_values opt))"

text \<open>An option as it can stand on the wire: one byte for the two kinds without a length, otherwise a
  length of one byte and values that fill the rest.\<close>

definition wire_option :: "TCPOption \<Rightarrow> bool" where
  "wire_option opt \<longleftrightarrow> unat (opt_kind opt) < 256 \<and>
     (if opt_kind opt = TCPOPTION_END_OF_OPTION_LIST \<or> opt_kind opt = TCPOPTION_NO_OPERATION
      then opt_length opt = 1 \<and> opt_values opt = []
      else 2 \<le> unat (opt_length opt) \<and> unat (opt_length opt) < 256
           \<and> values_fit (unat (opt_length opt) - 2) (opt_values opt))"

definition options_length :: "TCPOption list \<Rightarrow> nat" where
  "options_length opts = (\<Sum>opt\<leftarrow>opts. unat (opt_length opt))"

lemma options_length_simps [simp]:
  "options_length [] = 0" "options_length (opt # opts) = unat (opt_length opt) + options_length opts"
  by (simp_all add: options_length_def)

lemma length_be_bytes [simp]: "length (be_bytes n v) = n"
  by (induction n arbitrary: v) simp_all

lemma length_value_bytes: "values_fit n vs \<Longrightarrow> length (value_bytes n vs) = n"
  by (induction n vs rule: value_bytes.induct) auto

lemma values_fit_length: "values_fit n vs \<Longrightarrow> length vs = (n + 3) div 4"
proof (induction n vs rule: value_bytes.induct)
  case (2 n v vs)
  then have "Suc (length vs) = Suc ((n - 4 + 3) div 4)" "0 < n" by simp_all
  moreover have "Suc ((n - 4 + 3) div 4) = (n + 3) div 4"
  proof (cases "n \<le> 4")
    case True
    then have "(n + 3) div 4 = 1" using \<open>0 < n\<close> by linarith
    then show ?thesis using True by simp
  qed simp
  ultimately show ?case by simp
qed simp

lemma wire_option_pos: "wire_option opt \<Longrightarrow> 0 < unat (opt_length opt) \<and> unat (opt_length opt) < 256"
  by (auto simp: wire_option_def split: if_splits)

lemma length_option_bytes: "wire_option opt \<Longrightarrow> length (option_bytes opt) = unat (opt_length opt)"
  by (auto simp: wire_option_def option_bytes_def length_value_bytes split: if_splits)

lemma length_options_bytes:
  "\<forall>opt\<in>set opts. wire_option opt \<Longrightarrow> length (concat (map option_bytes opts)) = options_length opts"
  by (induction opts) (simp_all add: length_option_bytes)

section \<open>Writing the options\<close>

lemma store_slice:
  "length pre = i \<Longrightarrow> length mid = length bs \<Longrightarrow> store i bs (pre @ mid @ post) = Inr (pre @ bs @ post)"
  by (simp add: store_def)

lemma load_slice: "length pre = i \<Longrightarrow> length mid = n \<Longrightarrow> load i n (pre @ mid @ post) = Inr mid"
  by (simp add: load_def)

lemma put_value_bytes:
  "length pre = opt + p0 \<Longrightarrow> length mid = n \<Longrightarrow>
   put_value opt p0 (p0 + n) v (pre @ mid @ post) = Inr (pre @ be_bytes n v @ post)"
proof (induction n arbitrary: v mid post)
  case 0
  then show ?case by (cases p0) simp_all
next
  case (Suc n)
  obtain ys y where mid: "mid = ys @ [y]" "length ys = n"
    using Suc.prems(2) by (cases mid rule: rev_cases) simp_all
  have "store (opt + (p0 + n)) [ucast v] ((pre @ ys) @ [y] @ post) = Inr ((pre @ ys) @ [ucast v] @ post)"
    using Suc.prems(1) mid by (intro store_slice) simp_all
  then show ?case using Suc.IH[OF Suc.prems(1) mid(2), of "drop_bit 8 v" "[ucast v] @ post"] mid
    by simp
qed

text \<open>The indices of the loop as numbers.\<close>

lemma value_bounds:
  assumes "unat (len::u16) = 2 + 4 * k + n" "0 < n"
  shows "unat (2 + 4 * of_nat k :: u32) = 2 + 4 * k"
    "Suc (unat (min (ucast len - 1) (5 + 4 * of_nat k) :: u32)) = 2 + 4 * k + min 4 n"
proof -
  have k: "4 * k < 65536" using assms(1) unat_u8_u16_bound(2)[of len] by linarith
  then have k4: "unat (4 * of_nat k :: u32) = 4 * k" by (simp add: unat_word_ariths unat_of_nat_u32)
  show "unat (2 + 4 * of_nat k :: u32) = 2 + 4 * k" using k k4 by (subst unat_add_u32) simp_all
  have "unat (5 + 4 * of_nat k :: u32) = 5 + 4 * k" using k k4 by (subst unat_add_u32) simp_all
  moreover have "unat (ucast len - 1 :: u32) = 1 + 4 * k + n"
    using assms by (subst unat_sub_u32) simp_all
  ultimately show "Suc (unat (min (ucast len - 1) (5 + 4 * of_nat k) :: u32)) = 2 + 4 * k + min 4 n"
    by (simp add: min_def word_le_nat_alt)
qed

lemma put_values_bytes:
  assumes "unat (len::u16) = 2 + 4 * k + n" "values_fit n vs" "length pre = base + 2 + 4 * k" "length mid = n"
  shows "fold_res (\<lambda>(k, v). put_value base (unat (2 + 4 * of_nat k :: u32))
             (Suc (unat (min (ucast len - 1) (5 + 4 * of_nat k) :: u32))) v) (enumerate k vs) (pre @ mid @ post)
         = Inr (pre @ value_bytes n vs @ post)"
  using assms
proof (induction vs arbitrary: k n pre mid)
  case (Cons v vs)
  let ?b = "min 4 n"
  have n: "0 < n" "values_fit (n - 4) vs" using Cons.prems(2) by simp_all
  have len: "length (take ?b mid) = ?b" "length (drop ?b mid) = n - 4" using Cons.prems(4) by simp_all
  have "put_value base (2 + 4 * k) (2 + 4 * k + ?b) v (pre @ take ?b mid @ drop ?b mid @ post)
      = Inr (pre @ be_bytes ?b v @ drop ?b mid @ post)"
    using len Cons.prems(3) by (intro put_value_bytes) simp_all
  then have step: "put_value base (2 + 4 * k) (2 + 4 * k + ?b) v (pre @ mid @ post)
      = Inr ((pre @ be_bytes ?b v) @ drop ?b mid @ post)"
    by (metis append.assoc append_take_drop_id)
  show ?case
  proof (cases vs)
    case Nil
    then have "n - 4 = 0" using n(2) by simp
    then show ?thesis using step len(2) Nil n(1) by (simp add: value_bounds[OF Cons.prems(1)] del: put_value.simps)
  next
    case (Cons w ws)
    then have "4 < n" using n(2) by simp
    then have "unat len = 2 + 4 * Suc k + (n - 4)" "length (pre @ be_bytes ?b v) = base + 2 + 4 * Suc k"
      using Cons.prems by simp_all
    then show ?thesis
      using Cons.IH[of "Suc k" "n - 4" "pre @ be_bytes ?b v" "drop ?b mid"] n len step
      by (simp add: value_bounds[OF Cons.prems(1)] del: of_nat_Suc put_value.simps)
  qed
qed (simp_all add: Cons_eq_append_conv)

lemma unat_ucast_u16_u32_add:
  "unat (a::u32) + unat (b::u16) < 4294967296 \<Longrightarrow> unat (a + ucast b) = unat a + unat b"
  by (subst unat_add_u32) simp_all

lemma wire_values:
  assumes "wire_option opt" "opt_length opt \<noteq> 1"
  shows "unat (opt_length opt) = 2 + 4 * 0 + (unat (opt_length opt) - 2)" "1 < opt_length opt"
    "values_fit (unat (opt_length opt) - 2) (opt_values opt)"
  using assms by (auto simp: wire_option_def word_less_nat_alt split: if_splits)

lemma wire_no_values: "wire_option opt \<Longrightarrow> opt_length opt = 1 \<Longrightarrow> opt_values opt = []"
  by (auto simp: wire_option_def split: if_splits)

lemma write_option_bytes:
  assumes "wire_option opt" "length pre = 20 + unat lc" "length mid = unat (opt_length opt)"
    "unat lc + unat (opt_length opt) \<le> unat maxLen"
  shows "write_option maxLen opt (lc, pre @ mid @ post) = Inr (lc + ucast (opt_length opt), pre @ option_bytes opt @ post)"
proof -
  have "unat lc + unat (opt_length opt) < 4294967296" using assms(4) unat_u32_bound[of maxLen] by linarith
  then have lim: "lc + ucast (opt_length opt) \<le> maxLen" using assms(4) by (simp add: word_le_nat_alt unat_ucast_u16_u32_add)
  show ?thesis
  proof (cases "opt_length opt = 1")
    case True
    then obtain x where "mid = [x]" using assms(3) by (auto simp: length_Suc_conv)
    then have "store (20 + unat lc) [ucast (opt_kind opt)] (pre @ mid @ post) = Inr (pre @ [ucast (opt_kind opt)] @ post)"
      using assms(2) by (intro store_slice) simp_all
    then show ?thesis using True lim wire_no_values[OF assms(1)]
      by (simp add: write_option_def Let_def option_bytes_def)
  next
    case False
    note V = wire_values[OF assms(1) False]
    obtain x y vs where mid: "mid = x # y # vs" "length vs = unat (opt_length opt) - 2"
      using assms(3) V(1) by (cases mid; cases "tl mid") auto
    let ?k = "ucast (opt_kind opt) :: u8" and ?l = "ucast (opt_length opt) :: u8"
    have s1: "store (20 + unat lc) [?k] (pre @ [x] @ y # vs @ post) = Inr (pre @ [?k] @ y # vs @ post)"
      using assms(2) by (intro store_slice) simp_all
    have s2: "store (20 + unat lc + 1) [?l] ((pre @ [?k]) @ [y] @ vs @ post) = Inr ((pre @ [?k]) @ [?l] @ vs @ post)"
      using assms(2) by (intro store_slice) simp_all
    have s3: "fold_res (\<lambda>(k, v). put_value (20 + unat lc) (unat (2 + 4 * of_nat k :: u32))
             (Suc (unat (min (ucast (opt_length opt) - 1) (5 + 4 * of_nat k) :: u32))) v) (enumerate 0 (opt_values opt))
             ((pre @ [?k, ?l]) @ vs @ post)
        = Inr ((pre @ [?k, ?l]) @ value_bytes (unat (opt_length opt) - 2) (opt_values opt) @ post)"
      using assms(2) mid(2) V by (intro put_values_bytes) simp_all
    show ?thesis using s1 s2 s3 lim V(2) False mid(1)
      by (simp add: write_option_def Let_def option_bytes_def)
  qed
qed

lemma put_option_list_bytes:
  assumes "\<forall>opt\<in>set opts. wire_option opt" "length pre = 20 + unat lc" "length mid = options_length opts"
    "unat lc + options_length opts \<le> unat maxLen"
  shows "fold_res (write_option maxLen) opts (lc, pre @ mid @ post)
    = Inr (lc + of_nat (options_length opts), pre @ concat (map option_bytes opts) @ post)"
  using assms
proof (induction opts arbitrary: lc pre mid)
  case (Cons opt opts)
  let ?n = "unat (opt_length opt)"
  have "unat lc + ?n < 4294967296" using Cons.prems(4) unat_u32_bound[of maxLen] unfolding options_length_simps by linarith
  then have lc: "unat (lc + ucast (opt_length opt)) = unat lc + ?n" by (rule unat_ucast_u16_u32_add)
  have "write_option maxLen opt (lc, pre @ take ?n mid @ drop ?n mid @ post)
      = Inr (lc + ucast (opt_length opt), pre @ option_bytes opt @ drop ?n mid @ post)"
    using Cons.prems by (intro write_option_bytes) simp_all
  moreover have "pre @ take ?n mid @ drop ?n mid @ post = pre @ mid @ post" by simp
  moreover have "fold_res (write_option maxLen) opts (lc + ucast (opt_length opt), (pre @ option_bytes opt) @ drop ?n mid @ post)
      = Inr (lc + ucast (opt_length opt) + of_nat (options_length opts),
             (pre @ option_bytes opt) @ concat (map option_bytes opts) @ post)"
    using Cons.prems lc by (intro Cons.IH) (simp_all add: length_option_bytes)
  moreover have "(of_nat ?n :: u32) = ucast (opt_length opt)" by (simp add: unsigned_of_nat word_unat_eq_iff)
  ultimately show ?case by (simp add: add.assoc)
qed simp

text \<open>The bytes that pad \<open>n\<close> to a multiple of four.\<close>

definition padding :: "nat \<Rightarrow> nat" where
  "padding n = (4 - n mod 4) mod 4"

lemma padding_0 [simp]: "n mod 4 = 0 \<Longrightarrow> padding n = 0"
  by (simp add: padding_def)

lemma padding_Suc: "n mod 4 \<noteq> 0 \<Longrightarrow> padding n = Suc (padding (Suc n))"
proof -
  assume "n mod 4 \<noteq> 0"
  moreover have "n mod 4 < 4" by simp
  ultimately consider "n mod 4 = 1" | "n mod 4 = 2" | "n mod 4 = 3" by linarith
  then show ?thesis by cases (simp_all add: padding_def mod_Suc)
qed

lemma padding_less: "padding n < 4"
  by (simp add: padding_def)

lemma padded: "(n + padding n) mod 4 = 0"
proof -
  have "n mod 4 < 4" by simp
  then consider "n mod 4 = 0" | "n mod 4 = 1" | "n mod 4 = 2" | "n mod 4 = 3" by linarith
  then show ?thesis by cases (simp_all add: padding_def, presburger+)
qed

lemma put_padding_bytes:
  assumes "length pre = 20 + unat lc" "length mid = padding (unat lc)" "unat lc + padding (unat lc) < 4294967296"
  shows "put_padding lc (pre @ mid @ post)
    = Inr (lc + of_nat (padding (unat lc)), pre @ replicate (padding (unat lc)) 0 @ post)"
  using assms
proof (induction lc "pre @ mid @ post" arbitrary: pre mid rule: put_padding.induct)
  case (1 lc)
  show ?case
  proof (cases "unat lc mod 4 = 0")
    case True
    then have "lc mod 4 = 0" by (simp add: word_unat_eq_iff unat_mod4)
    then show ?thesis using True 1(3) by (subst put_padding.simps) simp
  next
    case False
    then have m: "lc mod 4 \<noteq> 0" using unat_mod4[of lc] by (metis unat_0)
    have p0: "padding (unat lc) = Suc (padding (Suc (unat lc)))" using False by (rule padding_Suc)
    then have u: "unat (lc + 1) = Suc (unat lc)" using 1(4) by (subst unat_add_u32) simp_all
    note p = p0 [folded u]
    then obtain x xs where mid: "mid = x # xs" "length xs = padding (unat (lc + 1))"
      using 1(3) by (cases mid) simp_all
    have st: "store (20 + unat lc) [0] (pre @ [x] @ xs @ post) = Inr (pre @ [0] @ xs @ post)"
      using 1(2) by (intro store_slice) simp_all
    have "put_padding (lc + 1) ((pre @ [0]) @ xs @ post)
        = Inr (lc + 1 + of_nat (padding (unat (lc + 1))), (pre @ [0]) @ replicate (padding (unat (lc + 1))) 0 @ post)"
      using 1(2,4) u mid m p st by (intro 1(1)) simp_all
    then show ?thesis using m st mid(1) p by (subst put_padding.simps) (simp add: add.assoc)
  qed
qed

section \<open>Writing a segment\<close>

definition tcp_header :: "TCPSegment \<Rightarrow> u8 \<Rightarrow> u16 \<Rightarrow> u8 list" where
  "tcp_header seg offs c =
     rev (bytes16 (srcPort seg)) @ rev (bytes16 (destPort seg)) @ rev (le_bytes (sequenceNo seg)) @
     rev (le_bytes (ackNo seg)) @ [offs, th_flags seg] @ rev (bytes16 (window seg)) @ bytes16 c @
     rev (bytes16 (urgentPointer seg))"

definition th_offs :: "u8 \<Rightarrow> nat \<Rightarrow> u8" where
  "th_offs x n = take_bit 4 x OR push_bit 4 (of_nat n)"

text \<open>The length of the header with its padded options, which is the length that is announced in it.\<close>

definition written_length :: "TCPSegment \<Rightarrow> nat" where
  "written_length seg = 20 + (options_length (options seg) + padding (options_length (options seg)))"

definition segment_bytes :: "TCPSegment \<Rightarrow> u8 \<Rightarrow> u16 \<Rightarrow> u8 list" where
  "segment_bytes seg x c = tcp_header seg (th_offs x (written_length seg div 4)) c @
     concat (map option_bytes (options seg)) @ replicate (padding (options_length (options seg))) 0 @ byteArray seg"

text \<open>Options that fit the header, and a header length that leaves them room.\<close>

definition wire_options :: "TCPSegment \<Rightarrow> bool" where
  "wire_options seg \<longleftrightarrow> (\<forall>opt\<in>set (options seg). wire_option opt) \<and> written_length seg \<le> 60 \<and>
     20 + options_length (options seg) \<le> unat (headerLength seg) \<and>
     unat (headerLength seg) + length (byteArray seg) < 4294967296"

text \<open>The length of the packet in bytes.\<close>

definition segment_length :: "TCPSegment \<Rightarrow> nat" where
  "segment_length seg = unat (headerLength seg) + length (byteArray seg)"

lemma length_tcp_header [simp]: "length (tcp_header seg x c) = 20"
  by (simp add: tcp_header_def bytes16_def le_bytes_def)

lemma length_segment_bytes:
  "wire_options seg \<Longrightarrow> length (segment_bytes seg x c) = written_length seg + length (byteArray seg)"
  by (simp add: wire_options_def segment_bytes_def written_length_def length_options_bytes del: length_concat length_map)

lemma low_th_offs [simp]: "take_bit 4 (th_offs x n) = take_bit 4 x"
  by (rule bit_word_eqI) (auto simp: th_offs_def bit_simps)

lemma th_offs_again [simp]: "th_offs (th_offs x k) n = th_offs x n"
  by (simp add: th_offs_def [of "th_offs x k"]) (simp add: th_offs_def)

lemma high_th_offs: "n < 16 \<Longrightarrow> drop_bit 4 (th_offs x n) = of_nat n"
proof -
  assume n: "n < 16"
  have "drop_bit 4 (th_offs x n) = take_bit 4 (of_nat n)"
    unfolding th_offs_def by (rule bit_word_eqI) (auto simp: bit_simps)
  also have "\<dots> = of_nat (take_bit 4 n)" by (rule of_nat_take_bit [symmetric])
  finally show ?thesis using n by (simp add: take_bit_nat_eq_self)
qed

lemma store_th_offs_header:
  "store_th_offs w (tcp_header seg x c @ m) = Inr (tcp_header seg (th_offs x (unat w)) c @ m)"
proof -
  have "(of_nat (unat w) :: u8) = ucast w" by (simp add: unsigned_of_nat word_unat_eq_iff unsigned_ucast_eq)
  then show ?thesis
    by (simp add: store_th_offs_def load8_def store_def tcp_header_def bytes16_def le_bytes_def nth_append th_offs_def)
qed

lemma network_bytes:
  "bytes16 (htons w) = [ucast (drop_bit 8 w), ucast w]" "rev (bytes16 w) = [ucast (drop_bit 8 w), ucast w]"
  "le_bytes (htonl v) = [ucast (drop_bit 24 v), ucast (drop_bit 16 v), ucast (drop_bit 8 v), ucast v]"
  "rev (le_bytes v) = [ucast (drop_bit 24 v), ucast (drop_bit 16 v), ucast (drop_bit 8 v), ucast v]"
  by (simp_all, simp_all add: bytes16_def le_bytes_def)

lemma put_header_bytes:
  assumes "length h = 20"
  shows "put_header seg (h @ m) = Inr (tcp_header seg (th_offs (h ! 12) 5) 0 @ m)"
proof -
  obtain a b c d e f g i j k l n p q r s t u v w where h: "h = [a, b, c, d, e, f, g, i, j, k, l, n, p, q, r, s, t, u, v, w]"
    using assms by (auto simp: numeral_eq_Suc length_Suc_conv)
  have "(ucast (ucast TCP_HEADER_OCTETS div 4 :: u32) :: u8) = 5"
    by (simp add: TCP_HEADER_OCTETS_def word_unat_eq_iff unat_bytes unat_div_distrib)
  then show ?thesis
    by (simp add: put_header_def h store_def load8_def store_th_offs_def tcp_header_def bytes16_def [of 0] network_bytes th_offs_def)
qed

text \<open>Every option takes a byte, so that their number fits the counter of the loop.\<close>

lemma options_count: "\<forall>opt\<in>set opts. wire_option opt \<Longrightarrow> length opts \<le> options_length opts"
proof (induction opts)
  case (Cons opt opts)
  then show ?case using wire_option_pos[of opt] by force
qed simp

lemma put_options_bytes:
  assumes "wire_options seg" "length mid = written_length seg - 20"
  shows "put_options seg (tcp_header seg (th_offs x 5) 0 @ mid @ post)
    = Inr (of_nat (written_length seg - 20),
           tcp_header seg (th_offs x (written_length seg div 4)) 0 @ concat (map option_bytes (options seg)) @
           replicate (padding (options_length (options seg))) 0 @ post)"
proof (cases "options seg = []")
  case True
  then show ?thesis using assms by (simp add: put_options_def written_length_def)
next
  case False
  let ?opts = "options seg" and ?L = "options_length (options seg)"
  let ?p = "padding ?L"
  have W: "\<forall>opt\<in>set ?opts. wire_option opt" "written_length seg = 20 + (?L + ?p)" "?L + ?p \<le> 40"
    "20 + ?L \<le> unat (headerLength seg)"
    using assms(1) by (simp_all add: wire_options_def written_length_def)
  have n: "unat (of_nat (length ?opts) :: u16) = length ?opts"
    using options_count[OF W(1)] W(3) by (simp add: unsigned_of_nat take_bit_eq_mod)
  have L: "unat (of_nat ?L :: u32) = ?L" "unat (of_nat ?p :: u32) = ?p" "unat (of_nat (?L + ?p) :: u32) = ?L + ?p"
    using W(3) by (simp_all only: unat_of_nat_u32)
  have pos: "(of_nat (length ?opts) :: u16) > 0" using n False by (simp add: word_less_nat_alt)
  have room: "?L \<le> unat (ucast (headerLength seg) - ucast TCP_HEADER_OCTETS :: u32)"
    using W(4) by (simp add: TCP_HEADER_OCTETS_def unat_sub_u32)
  have lim: "unat (ucast TCP_HEADER_OCTETS + of_nat (?L + ?p) :: u32) = 20 + (?L + ?p)"
    using W(3) L(3) by (subst unat_add_u32) (simp_all add: TCP_HEADER_OCTETS_def del: of_nat_add)
  define rest where "rest = drop ?L mid"
  have mid: "mid = take ?L mid @ rest" "length (take ?L mid) = ?L" "length rest = ?p"
    using assms(2) W(2) by (simp_all add: rest_def)
  have s1: "fold_res (write_option (ucast (headerLength seg) - ucast TCP_HEADER_OCTETS)) ?opts
      (0, tcp_header seg (th_offs x 5) 0 @ take ?L mid @ rest @ post)
    = Inr (0 + of_nat ?L, tcp_header seg (th_offs x 5) 0 @ concat (map option_bytes ?opts) @ rest @ post)"
    using W(1) mid(2) room by (intro put_option_list_bytes) simp_all
  have s2: "put_padding (of_nat ?L) ((tcp_header seg (th_offs x 5) 0 @ concat (map option_bytes ?opts)) @ rest @ post)
    = Inr (of_nat ?L + of_nat (padding (unat (of_nat ?L :: u32))),
           (tcp_header seg (th_offs x 5) 0 @ concat (map option_bytes ?opts)) @ replicate (padding (unat (of_nat ?L :: u32))) 0 @ post)"
    using mid(3) L(1) W(3) by (intro put_padding_bytes) (simp_all add: length_options_bytes[OF W(1)] del: length_concat length_map)
  have s3: "unat ((ucast TCP_HEADER_OCTETS + of_nat (?L + ?p)) div 4 :: u32) = written_length seg div 4"
    by (simp only: unat_div_distrib lim W(2)) simp
  have lim': "ucast TCP_HEADER_OCTETS + of_nat (?L + ?p) \<le> (ucast TCP_MAX_HEADER_OCTETS :: u32)"
    using lim W(3) by (simp add: word_le_nat_alt TCP_MAX_HEADER_OCTETS_def del: of_nat_add)
  have m: "mid @ post = take ?L mid @ rest @ post" by (simp add: rest_def)
  show ?thesis unfolding m
    using s1 s2 s3 lim' L(1) pos n W(2)
    by (simp add: put_options_def store_th_offs_header flip: of_nat_add)
qed

lemma split_memory: "m = take a m @ take b (drop a m) @ take c (drop (a + b) m) @ drop (a + b + c) m"
proof -
  have "drop a m = take b (drop a m) @ drop b (drop a m)" "drop (a + b) m = take c (drop (a + b) m) @ drop c (drop (a + b) m)"
    by (simp_all only: append_take_drop_id)
  then have "drop a m = take b (drop a m) @ take c (drop (a + b) m) @ drop (a + b + c) m"
    by (simp only: drop_drop add.commute)
  then show ?thesis by (metis append_take_drop_id)
qed

lemma tcp_serialize_bytes:
  assumes "wire_options seg" "length m \<ge> written_length seg + length (byteArray seg)"
  shows "tcp_serialize seg (int (segment_length seg)) m
    = Inr (segment_bytes seg (m ! 12) 0 @ drop (written_length seg + length (byteArray seg)) m)"
proof -
  let ?n = "written_length seg" and ?d = "byteArray seg"
  have W: "20 \<le> ?n" "?n \<le> 60" "unat (headerLength seg) + length ?d < 4294967296"
    using assms(1) by (simp_all add: wire_options_def written_length_def)
  define h where "h = take 20 m"
  define mid where "mid = take (?n - 20) (drop 20 m)"
  define dat where "dat = take (length ?d) (drop ?n m)"
  define post where "post = drop (?n + length ?d) m"
  have m: "m = h @ mid @ dat @ post"
    using W(1) by (subst split_memory [of m 20 "?n - 20" "length ?d"]) (simp add: h_def mid_def dat_def post_def)
  have len: "length h = 20" "length mid = ?n - 20" "length dat = length ?d"
    using assms(2) W(1) by (simp_all add: h_def mid_def dat_def)
  have x: "m ! 12 = h ! 12" using len(1) by (simp add: m nth_append)
  note s1 = put_header_bytes[OF len(1), of seg "mid @ dat @ post"]
  note s2 = put_options_bytes[OF assms(1) len(2), of "h ! 12" "dat @ post"]
  let ?pre = "tcp_header seg (th_offs (h ! 12) (?n div 4)) 0 @ concat (map option_bytes (options seg)) @
           replicate (padding (options_length (options seg))) 0"
  have pre: "length ?pre = ?n"
    using assms(1) by (simp add: wire_options_def written_length_def length_options_bytes del: length_concat length_map)
  have u: "unat (of_nat (?n - 20) :: u32) = ?n - 20" using W(2) by (intro unat_of_nat_u32) simp
  have s3: "store ?n ?d (?pre @ dat @ post) = Inr (?pre @ ?d @ post)"
    using pre len(3) by (intro store_slice)
  have data: "unat (of_int (int (segment_length seg) - uint (headerLength seg)) :: u32) = length ?d"
  proof -
    have "int (segment_length seg) - uint (headerLength seg) = int (length ?d)"
      by (simp add: segment_length_def)
    then show ?thesis using W(3) by (simp add: unat_of_nat_u32)
  qed
  have "fits32 ?d" using W(3) by simp
  then have size: "getDataArraySize ?d = of_int (int (segment_length seg) - uint (headerLength seg))"
    "copyDataToBuffer ?d (of_int (int (segment_length seg) - uint (headerLength seg))) 0 = ?d"
    using data by (simp_all add: word_unat_eq_iff copyDataToBuffer_eq)
  have "tcp_serialize seg (int (segment_length seg)) m = put_data seg (int (segment_length seg))
      (of_nat (?n - 20), ?pre @ dat @ post)"
    unfolding tcp_serialize_def m using s1 s2 by simp
  also have "\<dots> = Inr (?pre @ ?d @ post)"
  proof (cases "?d = []")
    case True
    then show ?thesis using len(3) by (simp add: put_data_def segment_length_def)
  next
    case False
    then have "getDataArraySize ?d > 0" using \<open>fits32 ?d\<close> by (simp add: word_less_nat_alt)
    moreover have "int (segment_length seg) > uint (headerLength seg)" using False by (simp add: segment_length_def)
    ultimately show ?thesis using s3 u W(1) size by (simp add: put_data_def Let_def)
  qed
  finally show ?thesis by (simp add: segment_bytes_def x post_def)
qed

end
