(* ===== verification/Wire_TCP_Round_Trip.thy ===== *)
theory Wire_TCP_Round_Trip
  imports Wire_TCP_Laws
begin

text \<open>
  Reading a TCP segment off the wire: the options and the whole segment that the serializer wrote, and
  when the loop over the options ends; and the checksum against the definition of RFC 1071, over the
  pseudo header in network byte order.
\<close>

unbundle bit_operations_syntax

section \<open>Reading the options\<close>

lemma foldl_be_bytes:
  "foldl (\<lambda>value b. push_bit 8 value + ucast b) a (be_bytes n v) = push_bit (8 * n) a + take_bit (8 * n) (v :: u32)"
proof (induction n arbitrary: v)
  case (Suc n)
  have low: "(ucast (ucast v :: u8) :: u32) = take_bit 8 v"
    by (rule bit_word_eqI) (auto simp: bit_simps)
  have "push_bit 8 (take_bit (8 * n) (drop_bit 8 v)) + take_bit 8 v = take_bit (8 * Suc n) v"
  proof -
    have "push_bit 8 (take_bit (8 * n) (drop_bit 8 v)) AND take_bit 8 v = 0"
      by (rule bit_word_eqI) (auto simp: bit_simps)
    then have "push_bit 8 (take_bit (8 * n) (drop_bit 8 v)) + take_bit 8 v
        = push_bit 8 (take_bit (8 * n) (drop_bit 8 v)) OR take_bit 8 v"
      by (simp add: disjunctive_add_eq_or)
    also have "\<dots> = take_bit (8 * Suc n) v" by (rule bit_word_eqI) (auto simp: bit_simps)
    finally show ?thesis .
  qed
  then show ?case by (simp add: Suc.IH low push_bit_add add.assoc)
qed simp

lemma be_value: "unat v < 256 ^ n \<Longrightarrow> foldl (\<lambda>value b. push_bit 8 value + ucast b) 0 (be_bytes n v) = (v :: u32)"
proof -
  assume "unat v < 256 ^ n"
  then have "unat v < 2 ^ (8 * n)" by (simp add: power_mult)
  then have "take_bit (8 * n) v = v"
    by (simp add: word_unat_eq_iff unsigned_take_bit_eq take_bit_nat_eq_self)
  then show ?thesis by (simp add: foldl_be_bytes)
qed

lemma value_slice:
  "values_fit n vs \<Longrightarrow> k < length vs \<Longrightarrow>
   take (min 4 (n - 4 * k)) (drop (4 * k) (value_bytes n vs)) = be_bytes (min 4 (n - 4 * k)) (vs ! k)
   \<and> unat (vs ! k) < 256 ^ min 4 (n - 4 * k) \<and> 4 * k < n"
proof (induction n vs arbitrary: k rule: value_bytes.induct)
  case (2 n v vs)
  show ?case
  proof (cases k)
    case 0
    then show ?thesis using 2(2) by simp
  next
    case (Suc j)
    then have "4 < n" using 2(2,3) by (cases vs) simp_all
    then have "drop (4 * k) (value_bytes n (v # vs)) = drop (4 * j) (value_bytes (n - 4) vs)" using Suc by simp
    moreover have "n - 4 * k = n - 4 - 4 * j" "4 * k < n \<longleftrightarrow> 4 * j < n - 4" using Suc by auto
    ultimately show ?thesis using 2(1)[of j] 2(2,3) Suc by simp
  qed
qed simp

lemma collect_results:
  "(\<And>k. k < n \<Longrightarrow> g k = Inr (f k)) \<Longrightarrow>
   fold_res (\<lambda>k vs. map_sum id (\<lambda>v. vs @ [v]) (g k)) [0..<n] [] = (Inr (map f [0..<n]) :: 'a list res)"
  by (induction n) (simp_all add: fold_res_append)

lemma get_value_bytes:
  assumes "values_fit n vs" "k < length vs" "length pre = opt + 2"
  shows "get_value opt (2 + n) k (pre @ value_bytes n vs @ post) = Inr (vs ! k)"
proof -
  note V = value_slice[OF assms(1,2)]
  have len: "min (2 + n) (6 + 4 * k) - (2 + 4 * k) = min 4 (n - 4 * k)" using V by linarith
  have n: "length (value_bytes n vs) = n" using assms(1) by (rule length_value_bytes)
  have "4 * k + min 4 (n - 4 * k) \<le> n" using V by linarith
  then have "load (opt + 2 + 4 * k) (min 4 (n - 4 * k)) (pre @ value_bytes n vs @ post)
      = Inr (take (min 4 (n - 4 * k)) (drop (4 * k) (value_bytes n vs)))"
    using assms(3) n V by (simp add: load_def)
  then show ?thesis using V be_value unfolding get_value_def len by simp
qed

lemma get_option_bytes:
  assumes "wire_option opt" "length pre = 20 + unat j" "tail \<noteq> []"
  shows "get_option j (pre @ option_bytes opt @ tail) = Inr opt"
proof -
  let ?m = "pre @ option_bytes opt @ tail" and ?len = "unat (opt_length opt)"
  have kind: "(ucast (ucast (opt_kind opt) :: u8) :: u16) = opt_kind opt"
    using assms(1) by (auto simp: wire_option_def word_unat_eq_iff unat_bytes)
  show ?thesis
  proof (cases "opt_kind opt = TCPOPTION_END_OF_OPTION_LIST \<or> opt_kind opt = TCPOPTION_NO_OPERATION")
    case True
    then have o: "opt_length opt = 1" "opt_values opt = []" using assms(1) by (auto simp: wire_option_def)
    obtain t ts where "tail = t # ts" using assms(3) by (cases tail) simp_all
    then have "load8 (20 + unat j) ?m = Inr (ucast (opt_kind opt))" "load8 (20 + unat j + 1) ?m = Inr t"
      using assms(2) o(1) by (simp_all add: load8_def option_bytes_def nth_append)
    then show ?thesis using True o kind by (cases opt) (auto simp: get_option_def Let_def)
  next
    case False
    then have o: "2 \<le> ?len" "?len < 256" "values_fit (?len - 2) (opt_values opt)" "opt_length opt \<noteq> 1"
      using assms(1) by (auto simp: wire_option_def)
    have len: "(ucast (ucast (opt_length opt) :: u8) :: u16) = opt_length opt"
      using o(2) by (simp add: word_unat_eq_iff unat_bytes)
    have m: "?m = (pre @ [ucast (opt_kind opt), ucast (opt_length opt)]) @ value_bytes (?len - 2) (opt_values opt) @ tail"
      using o(4) by (simp add: option_bytes_def)
    have b: "load8 (20 + unat j) ?m = Inr (ucast (opt_kind opt))" "load8 (20 + unat j + 1) ?m = Inr (ucast (opt_length opt))"
      using assms(2) unfolding m by (simp_all add: load8_def nth_append)
    have n: "(?len + 1) div 4 = length (opt_values opt)"
      using values_fit_length[OF o(3)] o(1) by simp
    have "get_value (20 + unat j) ?len k ?m = Inr (opt_values opt ! k)" if "k < length (opt_values opt)" for k
      using get_value_bytes[OF o(3) that, of "pre @ [ucast (opt_kind opt), ucast (opt_length opt)]" "20 + unat j" tail]
        assms(2) le_add_diff_inverse[OF o(1)] unfolding m by (simp del: add_2_eq_Suc)
    then have "fold_res (\<lambda>k vs. map_sum id (\<lambda>v. vs @ [v]) (get_value (20 + unat j) ?len k ?m)) [0..<(?len + 1) div 4] []
        = Inr (map ((!) (opt_values opt)) [0..<length (opt_values opt)])"
      unfolding n by (rule collect_results)
    then show ?thesis using b kind len False by (cases opt) (simp add: get_option_def Let_def map_nth)
  qed
qed

lemma get_options_bytes:
  assumes "\<forall>opt\<in>set opts. wire_option opt" "length pre = 20 + unat j"
    "unat n = unat j + options_length opts" "tail \<noteq> []" "length acc + length opts < 65536"
  shows "get_options n j (of_nat (length acc)) (pre @ concat (map option_bytes opts) @ tail) acc = Some (Inr (acc @ opts))"
  using assms
proof (induction opts arbitrary: pre j acc)
  case Nil
  then have "n = j" by (simp add: word_unat_eq_iff)
  then show ?case by (subst get_options.simps) simp
next
  case (Cons opt opts)
  let ?m = "pre @ concat (map option_bytes (opt # opts)) @ tail"
  have w: "wire_option opt" "0 < unat (opt_length opt)" using Cons.prems(1) wire_option_pos[of opt] by simp_all
  have jn: "j < n" using Cons.prems(3) w(2) by (simp add: word_less_nat_alt)
  have next_j: "unat (j + opt_length opt) = unat j + unat (opt_length opt)"
    using Cons.prems(3) unat_u8_u16_bound(2)[of n] by (subst unat_word_ariths(1)) simp
  have o: "get_option j ?m = Inr opt"
    using get_option_bytes[OF w(1) Cons.prems(2), of "concat (map option_bytes opts) @ tail"] Cons.prems(4) by simp
  have acc: "unat (of_nat (length acc) :: u16) = length acc"
    using Cons.prems(5) by (simp add: unsigned_of_nat take_bit_eq_mod)
  have "get_options n (j + opt_length opt) (of_nat (length (acc @ [opt])))
      ((pre @ option_bytes opt) @ concat (map option_bytes opts) @ tail) (acc @ [opt]) = Some (Inr ((acc @ [opt]) @ opts))"
    using Cons.prems w(1) next_j by (intro Cons.IH) (simp_all add: length_option_bytes)
  then have "get_options n (j + opt_length opt) (of_nat (length acc) + 1) ?m (acc @ [opt]) = Some (Inr (acc @ opt # opts))"
    by (simp add: add.commute)
  then show ?case using jn o acc by (subst get_options.simps) simp
qed

text \<open>Padding is read as options that end the list.\<close>

lemma padding_bytes: "replicate n 0 = concat (map option_bytes (replicate n new_TCPOption))"
  by (induction n) (simp_all add: option_bytes_def new_TCPOption_def)

section \<open>Reading a segment\<close>

lemma flags_set:
  "th_flags seg AND TH_FIN = TH_FIN \<longleftrightarrow> finBit seg" "th_flags seg AND TH_SYN = TH_SYN \<longleftrightarrow> synBit seg"
  "th_flags seg AND TH_RST = TH_RST \<longleftrightarrow> rstBit seg" "th_flags seg AND TH_PUSH = TH_PUSH \<longleftrightarrow> pshBit seg"
  "th_flags seg AND TH_ACK = TH_ACK \<longleftrightarrow> ackBit seg" "th_flags seg AND TH_URG = TH_URG \<longleftrightarrow> urgBit seg"
  by (simp_all add: th_flags_def th_defs)

lemma header_loads:
  "load16 0 (tcp_header seg x c @ m) = Inr (htons (srcPort seg))"
  "load16 2 (tcp_header seg x c @ m) = Inr (htons (destPort seg))"
  "load32 4 (tcp_header seg x c @ m) = Inr (htonl (sequenceNo seg))"
  "load32 8 (tcp_header seg x c @ m) = Inr (htonl (ackNo seg))"
  "load8 12 (tcp_header seg x c @ m) = Inr x"
  "load8 13 (tcp_header seg x c @ m) = Inr (th_flags seg)"
  "load16 14 (tcp_header seg x c @ m) = Inr (htons (window seg))"
  "load16 18 (tcp_header seg x c @ m) = Inr (htons (urgentPointer seg))"
proof -
  have b: "[ucast (drop_bit 8 w), ucast w] = rev (bytes16 w)" for w :: u16 by (simp only: network_bytes)
  have l: "[ucast (drop_bit 24 v), ucast (drop_bit 16 v), ucast (drop_bit 8 v), ucast v] = rev (le_bytes v)" for v :: u32
    by (simp only: network_bytes)
  note L = load16_def load32_def load_def tcp_header_def network_bytes bytes16_def [of c]
  have o: "of_bytes16 [ucast (drop_bit 8 w), ucast w] = htons w" for w unfolding b by simp
  have ol: "of_bytes32 [ucast (drop_bit 24 v), ucast (drop_bit 16 v), ucast (drop_bit 8 v), ucast v] = htonl v" for v
    unfolding l by simp
  show "load16 0 (tcp_header seg x c @ m) = Inr (htons (srcPort seg))"
    "load16 2 (tcp_header seg x c @ m) = Inr (htons (destPort seg))"
    "load16 14 (tcp_header seg x c @ m) = Inr (htons (window seg))"
    "load16 18 (tcp_header seg x c @ m) = Inr (htons (urgentPointer seg))"
    by (simp_all add: L o del: of_bytes16.simps)
  show "load32 4 (tcp_header seg x c @ m) = Inr (htonl (sequenceNo seg))"
    "load32 8 (tcp_header seg x c @ m) = Inr (htonl (ackNo seg))"
    by (simp_all add: L ol del: of_bytes32.simps)
  show "load8 12 (tcp_header seg x c @ m) = Inr x" "load8 13 (tcp_header seg x c @ m) = Inr (th_flags seg)"
    by (simp_all add: load8_def L)
qed

text \<open>A segment as the receiver has it: the padding has become options, objects do not travel on the wire.\<close>

definition arrived_segment :: "TCPSegment \<Rightarrow> u32 \<Rightarrow> ByteArray \<Rightarrow> TCPSegment" where
  "arrived_segment seg n bytes = seg\<lparr>headerLength := of_nat (written_length seg),
     options := options seg @ replicate (padding (options_length (options seg))) new_TCPOption,
     payloadLength := n - of_nat (written_length seg), byteArray := bytes, payloadList := []\<rparr>"

lemma arrived_fields:
  "arrived_segment seg n bytes = \<lparr>srcPort = srcPort seg, destPort = destPort seg, sequenceNo = sequenceNo seg,
     ackNo = ackNo seg, headerLength = of_nat (written_length seg), urgBit = urgBit seg, ackBit = ackBit seg,
     pshBit = pshBit seg, rstBit = rstBit seg, synBit = synBit seg, finBit = finBit seg, window = window seg,
     urgentPointer = urgentPointer seg,
     options = options seg @ replicate (padding (options_length (options seg))) new_TCPOption,
     payloadLength = n - of_nat (written_length seg), payloadList = [], byteArray = bytes\<rparr>"
  by (cases seg) (simp add: arrived_segment_def written_length_def)

lemma wire_padding: "wire_option new_TCPOption" "options_length (replicate n new_TCPOption) = n"
proof -
  show "options_length (replicate n new_TCPOption) = n" by (induction n) (simp_all add: new_TCPOption_def)
qed (simp add: wire_option_def new_TCPOption_def TCPOPTION_END_OF_OPTION_LIST_def)

lemma options_length_append: "options_length (xs @ ys) = options_length xs + options_length ys"
  by (simp add: options_length_def)

lemma tcp_parse_bytes:
  assumes "wire_options seg" "byteArray seg @ tail \<noteq> []"
  shows "tcp_parse n withBytes (segment_bytes seg x c @ tail) new_TCPSegment =
    map_sum id (arrived_segment seg n) (if withBytes
      then load (written_length seg) (unat (n - of_nat (written_length seg))) (segment_bytes seg x c @ tail) else Inr [])"
proof -
  let ?w = "written_length seg" and ?d = "byteArray seg" and ?m = "segment_bytes seg x c @ tail"
  let ?opts = "options seg @ replicate (padding (options_length (options seg))) new_TCPOption"
  define hl :: u16 where "hl = of_nat ?w"
  have W: "\<forall>opt\<in>set (options seg). wire_option opt" "?w = 20 + options_length ?opts" "?w \<le> 60"
    using assms(1) by (simp_all add: wire_options_def written_length_def options_length_append wire_padding)
  have all: "\<forall>opt\<in>set ?opts. wire_option opt" using W(1) wire_padding(1) by auto
  have m: "?m = tcp_header seg (th_offs x (?w div 4)) c @ concat (map option_bytes ?opts) @ ?d @ tail"
    by (simp add: segment_bytes_def padding_bytes)
  have four: "?w div 4 < 16" "?w mod 4 = 0" "4 * (?w div 4) = ?w"
  proof -
    show "?w mod 4 = 0" using padded[of "options_length (options seg)"] W(2)
      unfolding W(2) options_length_append wire_padding by presburger
    then show "4 * (?w div 4) = ?w" by presburger
  qed (use W(3) in linarith)
  have hl: "unat hl = ?w" using W(3) by (simp add: hl_def unsigned_of_nat take_bit_eq_mod)
  have "unat (of_nat (?w div 4) :: u8) = ?w div 4" using four(1) by (simp add: unsigned_of_nat take_bit_eq_mod)
  then have hdr: "ucast (drop_bit 4 (th_offs x (?w div 4))) * 4 = hl"
    using four hl W(3) by (simp add: high_th_offs word_unat_eq_iff unat_word_ariths mult.commute)
  have w: "(ucast hl :: u32) = of_nat ?w" using hl W(3) by (simp add: word_unat_eq_iff unat_of_nat_u32)
  have opts: "(if TCP_HEADER_OCTETS < hl then of_loop (get_options (hl - TCP_HEADER_OCTETS) 0 0 ?m []) else Inr []) = Inr ?opts"
  proof (cases "TCP_HEADER_OCTETS < hl")
    case True
    have "unat (hl - TCP_HEADER_OCTETS) = unat (0::u16) + options_length ?opts"
      using True W(2) hl by (simp add: TCP_HEADER_OCTETS_def word_less_nat_alt word_le_nat_alt unat_sub)
    moreover have "length ?opts < 65536" using options_count[OF all] W(2,3) by linarith
    ultimately have "get_options (hl - TCP_HEADER_OCTETS) 0 (of_nat (length ([] :: TCPOption list))) ?m [] = Some (Inr ([] @ ?opts))"
      unfolding m using all assms(2) by (intro get_options_bytes) simp_all
    then show ?thesis using True by simp
  next
    case False
    then have "options_length ?opts = 0" using W(2) hl by (simp add: TCP_HEADER_OCTETS_def word_less_nat_alt)
    then have "?opts = []" using options_count[OF all] by simp
    then show ?thesis using False by simp
  qed
  have new: "options new_TCPSegment = []" "byteArray new_TCPSegment = []" by (simp_all add: new_TCPSegment_def)
  have "tcp_parse n withBytes ?m new_TCPSegment =
    bind_res (if withBytes then load ?w (unat (n - of_nat ?w)) ?m else Inr []) (\<lambda>bytes. Inr (arrived_segment seg n bytes))"
    using opts unfolding m
    unfolding tcp_parse_def header_loads bind_res_Inr Let_def hdr w new hl
    by (simp add: new_TCPSegment_def arrived_fields flags_set hl_def del: map_append concat_append)
  then show ?thesis by (cases "if withBytes then load ?w (unat (n - of_nat ?w)) ?m else Inr []") auto
qed

text \<open>Two ways for a segment to arrive: whole, or with a header longer than the packet.\<close>

lemma wire_round_trip:
  assumes "wire_options seg" "unat (headerLength seg) = written_length seg" "segment_length seg < length m"
  shows "\<exists>m'. tcp_serialize seg (int (segment_length seg)) m = Inr m' \<and>
    tcp_parse (of_nat (segment_length seg)) True m' new_TCPSegment
      = Inr (arrived_segment seg (of_nat (segment_length seg)) (byteArray seg))"
proof -
  let ?d = "byteArray seg" and ?m = "segment_bytes seg (m ! 12) 0 @ drop (segment_length seg) m"
  have n: "segment_length seg = written_length seg + length ?d" using assms(2) by (simp add: segment_length_def)
  have "length ?d < 4294967296" using assms(1) by (simp add: wire_options_def)
  then have "unat (of_nat (segment_length seg) - of_nat (written_length seg) :: u32) = length ?d"
    by (simp add: n unat_of_nat_u32)
  moreover have "load (written_length seg) (length ?d) ?m = Inr ?d"
  proof -
    have "length (segment_bytes seg (m ! 12) 0) = written_length seg + length ?d"
      using assms(1) by (rule length_segment_bytes)
    then show ?thesis by (simp add: load_def segment_bytes_def)
  qed
  ultimately have "tcp_parse (of_nat (segment_length seg)) True ?m new_TCPSegment
      = Inr (arrived_segment seg (of_nat (segment_length seg)) ?d)"
    using assms(3) by (subst tcp_parse_bytes[OF assms(1)]) simp_all
  moreover have "tcp_serialize seg (int (segment_length seg)) m = Inr ?m"
    using tcp_serialize_bytes[OF assms(1)] assms(3) by (simp add: n)
  ultimately show ?thesis by blast
qed

section \<open>Termination of the loop over the options\<close>

text \<open>The positions where the loop over the \<open>n\<close> option bytes of a segment looks for an option.\<close>

inductive option_start :: "memory \<Rightarrow> u16 \<Rightarrow> u16 \<Rightarrow> bool" for m n where
  option_start_0: "option_start m n 0"
| option_start_next: "option_start m n j \<Longrightarrow> j < n \<Longrightarrow> get_option j m = Inr opt \<Longrightarrow> option_start m n (j + opt_length opt)"

lemma map_sum_id_Inl: "map_sum id f (x :: 'a res) = Inl e \<longleftrightarrow> x = Inl e"
  by (cases x) auto

lemma map_sum_InrE: "map_sum id f (x :: 'a res) = Inr y \<Longrightarrow> (\<And>z. x = Inr z \<Longrightarrow> y = f z \<Longrightarrow> P) \<Longrightarrow> P"
  by (cases x) auto

lemma get_option_length: "get_option j m = Inr opt \<Longrightarrow> unat (opt_length opt) < 256"
proof -
  assume o: "get_option j m = Inr opt"
  from o obtain kind len vs where "opt = \<lparr>opt_kind = ucast (kind :: u8),
      opt_length = (if ucast kind = TCPOPTION_END_OF_OPTION_LIST \<or> ucast kind = TCPOPTION_NO_OPERATION then 1 else ucast (len :: u8)),
      opt_values = vs\<rparr>"
    unfolding get_option_def Let_def by (auto elim!: map_sum_InrE)
  then show ?thesis using unat_u8_u16_bound(1)[of len] by simp
qed

lemma get_options_stuck:
  assumes "get_options n j k m opts = Some r"
  shows "\<not> (j < n \<and> get_option j m = Inr opt \<and> opt_length opt = 0)"
proof -
  have "\<forall>opt. \<not> (j < n \<and> get_option j m = Inr opt \<and> opt_length opt = 0)"
  proof (rule get_options.raw_induct[where P = "\<lambda>n j k m opts r. \<forall>opt. \<not> (j < n \<and> get_option j m = Inr opt \<and> opt_length opt = 0)",
        OF _ assms], intro allI notI)
    fix f n j k m opts r opt
    assume IH: "\<And>n j k m opts r. f n j k m opts = Some r \<Longrightarrow> \<forall>opt. \<not> (j < n \<and> get_option j m = Inr opt \<and> opt_length opt = 0)"
      and body: "(if j < n then case get_option j m of Inl e \<Rightarrow> Some (Inl e)
          | Inr opt \<Rightarrow> f n (j + opt_length opt) (k + 1) m ((opts @ [new_TCPOption])[unat k := opt])
        else Some (Inr opts)) = Some r"
      and s: "j < n \<and> get_option j m = Inr opt \<and> opt_length opt = 0"
    then have "f n j (k + 1) m ((opts @ [new_TCPOption])[unat k := opt]) = Some r" by simp
    from IH[OF this] s show False by blast
  qed
  then show ?thesis by blast
qed

lemma get_options_reach:
  "option_start m n j \<Longrightarrow> \<exists>k' opts'. get_options n 0 k m opts = get_options n j k' m opts'"
proof (induction rule: option_start.induct)
  case (option_start_next j opt)
  then obtain k' opts' where "get_options n 0 k m opts = get_options n j k' m opts'" by blast
  also have "\<dots> = get_options n (j + opt_length opt) (k' + 1) m ((opts' @ [new_TCPOption])[unat k' := opt])"
    using option_start_next.hyps by (subst get_options.simps) simp
  finally show ?case by blast
qed blast

lemma get_options_ends:
  assumes "\<And>j opt. option_start m n j \<Longrightarrow> j < n \<Longrightarrow> get_option j m = Inr opt \<Longrightarrow> opt_length opt \<noteq> 0"
    and "unat n < 65280" "option_start m n j"
  shows "get_options n j k m opts \<noteq> None"
  using assms(3)
proof (induction "unat n - unat j" arbitrary: j k opts rule: less_induct)
  case less
  show ?case
  proof (cases "j < n")
    case True
    show ?thesis
    proof (cases "get_option j m")
      case (Inr opt)
      have pos: "0 < unat (opt_length opt)" using assms(1)[OF less.prems True Inr] by (simp add: unat_gt_0)
      have lt: "unat j < unat n" using True by (simp add: word_less_nat_alt)
      have "unat (j + opt_length opt) = unat j + unat (opt_length opt)"
        using lt assms(2) get_option_length[OF Inr] by (subst unat_word_ariths(1)) simp
      then have "unat n - unat (j + opt_length opt) < unat n - unat j" using pos lt by linarith
      then have "get_options n (j + opt_length opt) (k + 1) m ((opts @ [new_TCPOption])[unat k := opt]) \<noteq> None"
        using option_start_next[OF less.prems True Inr] less.hyps by blast
      then show ?thesis using True Inr by (subst get_options.simps) simp
    qed (use True in \<open>subst get_options.simps, simp\<close>)
  qed (subst get_options.simps, simp)
qed

lemma get_options_none_iff:
  assumes "unat n < 65280"
  shows "get_options n 0 k m opts = None \<longleftrightarrow>
    (\<exists>j opt. option_start m n j \<and> j < n \<and> get_option j m = Inr opt \<and> opt_length opt = 0)"
proof
  assume "get_options n 0 k m opts = None"
  then show "\<exists>j opt. option_start m n j \<and> j < n \<and> get_option j m = Inr opt \<and> opt_length opt = 0"
    using get_options_ends[of m n 0 k opts] assms option_start_0 by blast
next
  assume "\<exists>j opt. option_start m n j \<and> j < n \<and> get_option j m = Inr opt \<and> opt_length opt = 0"
  then obtain j opt where j: "option_start m n j" "j < n" "get_option j m = Inr opt" "opt_length opt = 0" by blast
  then obtain k' opts' where "get_options n 0 k m opts = get_options n j k' m opts'"
    using get_options_reach by blast
  then show "get_options n 0 k m opts = None" using get_options_stuck[of n j k' m opts'] j by fastforce
qed

lemma get_option_error: "get_option j m \<noteq> Inl Non_termination"
proof -
  have v: "fold_res (\<lambda>k vs. map_sum id (\<lambda>v. vs @ [v]) (get_value i n k m)) ks vs \<noteq> Inl Non_termination" for i n ks vs
    by (induction ks arbitrary: vs) (auto simp: get_value_def load_def bind_res_def split: sum.splits if_splits)
  show ?thesis
    using v by (auto simp: get_option_def Let_def load8_def bind_res_def map_sum_id_Inl split: sum.splits if_splits)
qed

lemma get_options_error:
  assumes "get_options n j k m opts = Some r"
  shows "r \<noteq> Inl Non_termination"
proof (rule get_options.raw_induct[where P = "\<lambda>n j k m opts r. r \<noteq> Inl Non_termination", OF _ assms])
  fix f n j k m opts r
  assume IH: "\<And>n j k m opts r. f n j k m opts = Some r \<Longrightarrow> r \<noteq> Inl Non_termination"
    and body: "(if j < n then case get_option j m of Inl e \<Rightarrow> Some (Inl e)
        | Inr opt \<Rightarrow> f n (j + opt_length opt) (k + 1) m ((opts @ [new_TCPOption])[unat k := opt])
      else Some (Inr opts)) = Some r"
  then show "r \<noteq> Inl Non_termination"
    using get_option_error[of j m] by (auto split: if_splits sum.splits dest: IH)
qed

text \<open>The number of option bytes that a header announces.\<close>

definition announced_options :: "memory \<Rightarrow> u16" where
  "announced_options m = (let hdrLength = (ucast (drop_bit 4 (m ! 12)) * 4 :: u16)
     in if hdrLength > TCP_HEADER_OCTETS then hdrLength - TCP_HEADER_OCTETS else 0)"

lemma load_fields:
  "i + 2 \<le> length m \<Longrightarrow> \<exists>w. load16 i m = Inr w" "i + 4 \<le> length m \<Longrightarrow> \<exists>v. load32 i m = Inr v"
  by (simp_all add: load16_def load32_def load_def)

lemma tcp_parse_loop:
  assumes "20 \<le> length m"
  shows "tcp_parse bufsize withBytes m seg = Inl Non_termination \<longleftrightarrow>
    get_options (announced_options m) 0 0 m (options seg) = None"
proof -
  let ?r = "get_options (announced_options m) 0 0 m (options seg)"
  obtain sport dport seq ack win urp where h: "load16 0 m = Inr sport" "load16 2 m = Inr dport" "load32 4 m = Inr seq"
    "load32 8 m = Inr ack" "load16 14 m = Inr win" "load16 18 m = Inr urp" "load8 12 m = Inr (m ! 12)" "load8 13 m = Inr (m ! 13)"
    using load_fields[of 0 m] load_fields[of 2 m] load_fields(2)[of 4 m] load_fields(2)[of 8 m] load_fields(1)[of 14 m]
      load_fields(1)[of 18 m] assms by (auto simp: load8_def)
  have o: "(if ucast (drop_bit 4 (m ! 12)) * 4 > TCP_HEADER_OCTETS
      then of_loop (get_options (ucast (drop_bit 4 (m ! 12)) * 4 - TCP_HEADER_OCTETS) 0 0 m (options seg))
      else Inr (options seg)) = of_loop ?r"
  proof (cases "ucast (drop_bit 4 (m ! 12)) * 4 > TCP_HEADER_OCTETS")
    case False
    then have "?r = Some (Inr (options seg))" by (subst get_options.simps) (simp add: announced_options_def)
    then show ?thesis using False by simp
  qed (simp add: announced_options_def)
  show ?thesis
  proof (cases ?r)
    case None
    then show ?thesis by (simp add: tcp_parse_def h o Let_def)
  next
    case (Some x)
    then have "x \<noteq> Inl Non_termination" by (rule get_options_error)
    then show ?thesis using Some
      by (cases x) (auto simp: tcp_parse_def h o Let_def bind_res_eq_Inl load_def split: if_splits)
  qed
qed

lemma announced_bound: "unat (announced_options m) < 65280"
proof -
  have "unat (drop_bit 4 (m ! 12)) < 16" using unat_u8_u16_bound(1)[of "m ! 12"]
    by (simp add: drop_bit_eq_div unat_div_distrib less_mult_imp_div_less)
  then have "unat (ucast (drop_bit 4 (m ! 12)) * 4 :: u16) < 64" by (simp add: unat_word_ariths)
  then have "unat (ucast (drop_bit 4 (m ! 12)) * 4 :: u16) - 20 < 65280" by linarith
  then show ?thesis
    by (simp add: announced_options_def Let_def unat_sub word_less_nat_alt word_le_nat_alt TCP_HEADER_OCTETS_def)
qed

end
