(* ===== verification/Wire_Checksum.thy ===== *)
theory Wire_Checksum
  imports Wire_TCP_Laws
begin

text \<open>
  The checksum of the TCP serializer, which adds the words of the segment as the machine reads them and
  the words of the addresses in host order, against the definition of RFC 1071 over the bytes of the
  pseudo header and the segment in network order; and what the receiver of a segment computes.
\<close>

unbundle bit_operations_syntax

section \<open>The definition of RFC 1071\<close>

fun network_sum :: "u8 list \<Rightarrow> nat" where
  "network_sum (a # b # bs) = 256 * unat a + unat b + network_sum bs"
| "network_sum [a] = 256 * unat a"
| "network_sum [] = 0"

definition rfc1071 :: "u8 list \<Rightarrow> u16" where
  "rfc1071 bs = NOT (of_nat (ones_sum (network_sum bs)))"

definition network_address :: "IPvXAddress \<Rightarrow> u8 list" where
  "network_address a = concat (map (\<lambda>w. rev (le_bytes w)) (ipx_words a))"

text \<open>The pseudo headers of IPv4 (RFC 793) and of IPv6 (RFC 2460), for a segment of \<open>n\<close> bytes.\<close>

definition pseudo_header :: "IPvXAddress \<Rightarrow> IPvXAddress \<Rightarrow> nat \<Rightarrow> u8 list" where
  "pseudo_header src dest n = network_address src @ network_address dest @
     (if isIPv6 src then rev (le_bytes (of_nat n)) @ [0, 0, 0, 6] else [0, 6] @ rev (bytes16 (of_nat n)))"

section \<open>Byte order independence\<close>

lemma network_sum_mod: "network_sum bs mod 65535 = (256 * words_sum bs) mod 65535"
proof (induction bs rule: words_sum.induct)
  case (1 a b bs)
  have "256 * words_sum (a # b # bs) = 65535 * unat b + (256 * unat a + unat b + 256 * words_sum bs)" by simp
  then have "(256 * words_sum (a # b # bs)) mod 65535 = (256 * unat a + unat b + 256 * words_sum bs) mod 65535"
    by (simp only: mod_mult_self4)
  also have "\<dots> = (256 * unat a + unat b + network_sum bs) mod 65535"
    using 1 by (metis mod_add_right_eq)
  finally show ?case by simp
qed simp_all

lemma network_sum_0: "network_sum bs = 0 \<longleftrightarrow> words_sum bs = 0"
  by (induction bs rule: words_sum.induct) simp_all

lemma unat_htons_mod: "unat (htons w) mod 65535 = (256 * unat w) mod 65535"
proof -
  have "256 * unat w = 65535 * (unat w div 256) + unat (htons w)"
    using div_mult_mod_eq[of "unat w" 256] unfolding unat_htons by linarith
  then show ?thesis by (simp only: mod_mult_self4)
qed

lemma htons_0: "unat (htons w) = 0 \<longleftrightarrow> unat w = 0"
proof
  assume "unat (htons w) = 0"
  then show "unat w = 0" using div_mult_mod_eq[of "unat w" 256] unfolding unat_htons by linarith
qed (simp add: unat_htons)

lemma ones_sum_htons: "ones_sum (256 * unat w) = unat (htons w)"
proof -
  have "ones_sum (256 * unat w) = ones_sum (unat (htons w))"
    using unat_htons_mod[of w] htons_0[of w] by (intro ones_sum_eqI) auto
  then show ?thesis using unat_u8_u16_bound(2) by (simp add: ones_sum_small)
qed

lemma ones_sum_256: "ones_sum (256 * ones_sum n) = ones_sum (256 * n)"
proof (rule ones_sum_eqI)
  show "256 * ones_sum n mod 65535 = 256 * n mod 65535" using ones_sum_mod[of n] by (metis mod_mult_right_eq)
qed (simp add: ones_sum_def)

lemma ones_sum_idem [simp]: "ones_sum (ones_sum n) = ones_sum n"
  using ones_sum_add[of n 0] by simp

lemma ones_sum_cong: "ones_sum a = ones_sum a' \<Longrightarrow> ones_sum b = ones_sum b' \<Longrightarrow> ones_sum (a + b) = ones_sum (a' + b')"
  by (metis ones_sum_add ones_sum_add_right)

lemma ones_sum_network: "ones_sum (network_sum bs) = unat (htons (raw_checksum bs))"
proof -
  have "ones_sum (network_sum bs) = ones_sum (256 * words_sum bs)"
    using network_sum_mod network_sum_0 by (intro ones_sum_eqI) auto
  also have "\<dots> = ones_sum (256 * ones_sum (words_sum bs))" by (rule ones_sum_256 [symmetric])
  finally show ?thesis by (simp add: unat_raw_checksum [symmetric] ones_sum_htons)
qed

lemma rfc1071_raw: "rfc1071 bs = NOT (htons (raw_checksum bs))"
  by (simp add: rfc1071_def ones_sum_network)

lemma htons_or: "htons w = push_bit 8 w OR drop_bit 8 w"
proof -
  have "push_bit 8 w AND drop_bit 8 w = 0" by (rule bit_word_eqI) (auto simp: bit_simps dest: bit_imp_le_length)
  then show ?thesis unfolding htons_def by (rule disjunctive_add_eq_or)
qed

lemma htons_NOT: "htons (NOT w) = NOT (htons w)"
  unfolding htons_or by (rule bit_word_eqI) (auto simp: bit_simps dest: bit_imp_le_length)

lemma unat_NOT: "unat (NOT w) = 65535 - unat (w::u16)"
proof -
  have "NOT w = - 1 - w" by (simp add: not_eq_complement)
  moreover have "unat (- 1 - w) = unat (- 1 :: u16) - unat w" by (rule unat_sub) (rule word_order.extremum)
  ultimately show ?thesis by (simp add: unsigned_minus_1_eq_mask mask_eq_exp_minus_1)
qed

lemma rfc1071_stored: "bytes16 (NOT (raw_checksum bs)) = rev (bytes16 (rfc1071 bs))"
  by (simp add: rfc1071_raw htons_NOT [symmetric])

section \<open>The checksum of a segment\<close>

lemma network_sum_append: "even (length xs) \<Longrightarrow> network_sum (xs @ ys) = network_sum xs + network_sum ys"
  by (induction xs rule: network_sum.induct) auto

lemma network_sum_bytes16 [simp]: "network_sum (rev (bytes16 w)) = unat w"
  using words_sum_bytes16[of w] by (simp add: bytes16_def)

lemma words_sum_network: "ones_sum (words_sum bs) = ones_sum (256 * network_sum bs)"
proof (rule ones_sum_eqI)
  have "256 * (256 * words_sum bs) = 65535 * words_sum bs + words_sum bs" by simp
  then have "256 * (256 * words_sum bs) mod 65535 = words_sum bs mod 65535" by (simp only: mod_mult_self4)
  moreover have "256 * network_sum bs mod 65535 = 256 * (256 * words_sum bs) mod 65535"
    using network_sum_mod[of bs] by (metis mod_mult_right_eq)
  ultimately show "words_sum bs mod 65535 = 256 * network_sum bs mod 65535" by simp
qed (simp add: network_sum_0)

lemma even_words: "even (length (concat (map (\<lambda>w. rev (le_bytes w)) ws)))"
  by (induction ws) (simp_all add: le_bytes_def)

text \<open>Reversing the bytes of a whole word swaps its halves and the bytes of each.\<close>

lemma network_sum_word: "network_sum (rev (le_bytes w)) = words_sum (le_bytes w)"
  by (simp add: le_bytes_def)

lemma network_address_sum: "network_sum (network_address a) = words_sum (concat (map le_bytes (ipx_words a)))"
proof -
  have "network_sum (concat (map (\<lambda>w. rev (le_bytes w)) ws)) = words_sum (concat (map le_bytes ws))" for ws
  proof (induction ws)
    case (Cons w ws)
    have "even (length (rev (le_bytes w)))" "even (length (le_bytes w))" by (simp_all add: le_bytes_def)
    then show ?case using Cons.IH by (simp add: network_sum_append words_sum_append network_sum_word)
  qed simp
  then show ?thesis by (simp add: network_address_def)
qed

lemma even_network_address: "even (length (network_address a))"
  by (simp only: network_address_def even_words)

text \<open>The words that the code adds up for the pseudo header.\<close>

definition pseudo_words :: "IPvXAddress \<Rightarrow> IPvXAddress \<Rightarrow> nat \<Rightarrow> nat" where
  "pseudo_words src dest n = network_sum (network_address src) + network_sum (network_address dest) + n + 6"

lemma pseudo_header_sum: "n < 65536 \<Longrightarrow> network_sum (pseudo_header src dest n) = pseudo_words src dest n"
proof -
  assume n: "n < 65536"
  then have u: "unat (of_nat n :: u16) = n" "unat (of_nat n :: u32) = n"
    by (simp_all add: unat_of_nat_u32 unsigned_of_nat take_bit_eq_mod)
  have "network_sum (rev (le_bytes (of_nat n))) = n"
    using n u(2) by (simp add: network_bytes unat_bytes high_byte)
  moreover have "even (length (rev (le_bytes (of_nat n :: u32))))" by (simp add: le_bytes_def)
  ultimately show ?thesis
    using u(1) by (simp add: pseudo_header_def pseudo_words_def network_sum_append even_network_address)
qed

lemma even_pseudo_header: "even (length (pseudo_header src dest n))"
  using even_network_address[of src] even_network_address[of dest] by (simp add: pseudo_header_def le_bytes_def bytes16_def)

lemma tcp_checksum_raw:
  assumes "n \<le> length m" "n < 65536" "isIPv6 src = isIPv6 dest"
  shows "tcp_checksum (of_nat n) src dest m = Inr (NOT (raw_checksum (pseudo_header src dest n @ take n m)))"
proof -
  have n: "unat (of_nat n :: u32) = n" "unat (of_nat n :: u16) = n"
    using assms(2) by (simp_all add: unat_of_nat_u32 unsigned_of_nat take_bit_eq_mod)
  let ?h = "\<lambda>a. htons (raw_checksum (concat (map le_bytes (ipx_words a))))"
  let ?sum = "ucast (raw_checksum (take n m)) + ucast (?h src) + ucast (?h dest) + ucast (htons (of_nat n)) + ucast (htons IP_PROT_TCP) :: u32"
  have h: "unat (?h a) = ones_sum (256 * network_sum (network_address a))" for a
    by (simp add: ones_sum_htons [symmetric] unat_raw_checksum network_address_sum ones_sum_256)
  have sum: "unat ?sum = unat (raw_checksum (take n m)) + unat (?h src) + unat (?h dest) + unat (htons (of_nat n)) + unat (htons IP_PROT_TCP)"
    using unat_u8_u16_bound(2)[of "raw_checksum (take n m)"] unat_u8_u16_bound(2)[of "?h src"] unat_u8_u16_bound(2)[of "?h dest"]
      unat_u8_u16_bound(2)[of "htons (of_nat n)"] unat_u8_u16_bound(2)[of "htons IP_PROT_TCP"]
    by (simp add: unat_add_u32)
  let ?A = "\<lambda>a. network_sum (network_address a)"
  have l: "unat (htons (of_nat n)) = ones_sum (256 * n)" "unat (htons IP_PROT_TCP) = ones_sum (256 * 6)"
    using n(2) by (simp_all add: ones_sum_htons [symmetric] IP_PROT_TCP_def)
  have "ones_sum (unat ?sum) = ones_sum (words_sum (take n m) + 256 * ?A src + 256 * ?A dest + 256 * n + 256 * 6)"
    unfolding sum h l unat_raw_checksum by (intro ones_sum_cong ones_sum_idem)
  also have "\<dots> = ones_sum (256 * pseudo_words src dest n + words_sum (take n m))"
    by (simp add: pseudo_words_def algebra_simps)
  also have "\<dots> = ones_sum (words_sum (pseudo_header src dest n @ take n m))"
    unfolding words_sum_append[OF even_pseudo_header] pseudo_header_sum[OF assms(2), symmetric]
    by (intro ones_sum_cong words_sum_network [symmetric] refl)
  finally have "unat (fold_carries ?sum) = unat (raw_checksum (pseudo_header src dest n @ take n m))"
    by (simp add: unat_fold_carries unat_raw_checksum)
  then have f: "ucast (fold_carries ?sum) = raw_checksum (pseudo_header src dest n @ take n m)"
    using unat_u8_u16_bound(2) by (simp add: word_unat_eq_iff unsigned_ucast_eq take_bit_eq_mod)
  have "length (ipx_words src) = length (ipx_words dest)" using assms(3) by (cases src; cases dest) simp_all
  moreover have "(ucast (of_nat n :: u32) :: u16) = of_nat n" using n assms(2) by (simp add: word_unat_eq_iff unsigned_ucast_eq take_bit_eq_mod)
  ultimately show ?thesis
    using assms(1) n f by (simp add: tcp_checksum_def raw_checksum_at_def load_def)
qed

text \<open>What is sent and what the receiver computes over it.\<close>

lemma take_segment: "k = length (segment_bytes seg x c) \<Longrightarrow> take k (segment_bytes seg x c @ m) = segment_bytes seg x c"
  by simp

lemma store_checksum:
  "store 16 (bytes16 c) (segment_bytes seg x c0 @ m) = Inr (segment_bytes seg x c @ m)"
  by (simp add: store_def segment_bytes_def tcp_header_def bytes16_def le_bytes_def)

lemma segment_words: "words_sum (segment_bytes seg x c) = words_sum (segment_bytes seg x 0) + unat c"
proof -
  let ?h = "rev (bytes16 (srcPort seg)) @ rev (bytes16 (destPort seg)) @ rev (le_bytes (sequenceNo seg)) @
     rev (le_bytes (ackNo seg)) @ [th_offs x (written_length seg div 4), th_flags seg] @ rev (bytes16 (window seg))"
  obtain t where t: "\<And>c. segment_bytes seg x c = ?h @ bytes16 c @ t" by (simp add: segment_bytes_def tcp_header_def)
  have e: "even (length ?h)" "even (length (bytes16 c))" for c by (simp_all add: bytes16_def le_bytes_def)
  show ?thesis unfolding t words_sum_append[OF e(1)] words_sum_append[OF e(2)] by simp
qed

end
