(* ===== verification/Wire_TCP_Service.thy ===== *)
theory Wire_TCP_Service
  imports Wire_TCP_Round_Trip Wire_Checksum TCP_Option_Laws
begin

text \<open>
  The properties of the TCP wire format: round trips, also of the segments that a connection sends first,
  what becomes of a header that is not aligned, the checksum, and the end of the loop over the options.
\<close>

section \<open>The options of a SYN on the wire\<close>

lemma wire_syn_options:
  assumes "unat (snd_mss (state c)) < 65536"
  shows "\<forall>opt\<in>set (syn_options (syn_scale rq s) seg c). wire_option opt"
    "options_length (syn_options (syn_scale rq s) seg c) = unat (sum_list (map opt_length (syn_options (syn_scale rq s) seg c)))"
proof -
  have "unat (syn_scale rq s) \<le> unat (14 :: u32)" using syn_scale_le[of rq s] by (simp add: word_le_nat_alt)
  then have ws: "unat (syn_scale rq s) < 256" by simp
  have ts: "wire_option (TS_option seg c)"
    by (simp add: TS_option_def wire_option_def option_kind_defs)
  have "wire_option (MSS_option (snd_mss (state c)))" "wire_option (WS_option (syn_scale rq s))"
    "wire_option NOP_option" "wire_option SACK_PERMITTED_option"
    using assms ws by (simp_all add: MSS_option_def WS_option_def NOP_option_def SACK_PERMITTED_option_def wire_option_def option_kind_defs)
  with ts show "\<forall>opt\<in>set (syn_options (syn_scale rq s) seg c). wire_option opt"
    by (auto simp: syn_options_def mss_part_def ws_part_def sack_part_def ts_part_def)
  show "options_length (syn_options (syn_scale rq s) seg c) = unat (sum_list (map opt_length (syn_options (syn_scale rq s) seg c)))"
    unfolding syn_options_length by (simp add: options_length_def syn_options_def part_defs)
qed

lemma wire_syn:
  assumes "synBit seg" "syn_options_state c" "options seg = []" "receiveQueue c = Some rq"
    and "headerLength seg = TCP_HEADER_OCTETS" "byteArray seg = []" "unat (snd_mss (state c)) < 65536"
  obtains seg' c' where "writeHeaderOptions seg c = Inr (seg', c')" "wire_options seg'" "byteArray seg' = []"
    "options seg' = syn_options (syn_scale rq (state c)) seg c" "unat (headerLength seg') = 20 + options_length (options seg')"
    "options_length (options seg') \<le> 24" "first_syn_state c \<Longrightarrow> 4 dvd unat (headerLength seg')"
proof -
  obtain seg' c' where w: "writeHeaderOptions seg c = Inr (seg', c')"
    "options seg' = syn_options (syn_scale rq (state c)) seg c"
    "unat (headerLength seg') = 20 + unat (getOptionsArrayLength seg')"
    "unat (headerLength seg') \<le> 44" "first_syn_state c \<longrightarrow> 4 dvd unat (headerLength seg')"
    using syn_header_lengths[OF assms(1-5)] by blast
  have b: "byteArray seg' = []" using w(1) unfolding write_syn_options[OF assms(1-4) refl]
    using assms(6) by (auto simp: close_options_def Let_def)
  have n: "unat (headerLength seg') = 20 + options_length (options seg')"
    using w(2,3) wire_syn_options(2)[OF assms(7), of rq "state c" seg] by (simp add: getOptionsArrayLength_sum)
  have all: "\<forall>opt\<in>set (options seg'). wire_option opt" using wire_syn_options(1)[OF assms(7)] w(2) by simp
  have "wire_options seg'"
    using all n w(4) b padding_less[of "options_length (options seg')"] by (simp add: wire_options_def written_length_def)
  then show thesis using that w n b by simp
qed

section \<open>Properties\<close>

lemma arrived_whole:
  assumes "wire_options seg" "unat (headerLength seg) = written_length seg"
  shows "arrived_segment seg (of_nat (segment_length seg)) (byteArray seg) =
    seg\<lparr>options := options seg @ replicate (padding (options_length (options seg))) new_TCPOption,
        payloadLength := of_nat (length (byteArray seg)), payloadList := []\<rparr>"
proof -
  have "of_nat (unat (headerLength seg)) = headerLength seg" by simp
  then have "headerLength seg = of_nat (written_length seg)" unfolding assms(2) by (rule sym)
  then have h: "seg\<lparr>headerLength := of_nat (written_length seg)\<rparr> = seg" by (cases seg) simp
  have "of_nat (segment_length seg) - of_nat (written_length seg) = (of_nat (length (byteArray seg)) :: u32)"
    by (simp add: segment_length_def assms(2))
  then show ?thesis unfolding arrived_segment_def h by (cases seg) simp
qed

text \<open>
  C19: A segment whose options have the form of the wire and whose header length is that of its padded
  options is read back as it was written, from a buffer that is longer than the segment: its fields,
  flags, options and data. The padding appears as options that end the list, and the message objects of
  the payload do not travel.
\<close>

theorem segment_wire_round_trip:
  assumes "wire_options seg" "unat (headerLength seg) = written_length seg" "segment_length seg < length m"
  shows "\<exists>m'. tcp_serialize seg (int (segment_length seg)) m = Inr m' \<and>
    tcp_parse (of_nat (segment_length seg)) True m' new_TCPSegment = Inr
      (seg\<lparr>options := options seg @ replicate (padding (options_length (options seg))) new_TCPOption,
           payloadLength := of_nat (length (byteArray seg)), payloadList := []\<rparr>)"
  using wire_round_trip[OF assms] arrived_whole[OF assms(1,2)] by simp

definition wire_example :: TCPSegment where
  "wire_example = new_TCPSegment\<lparr>srcPort := 1000, destPort := 80, sequenceNo := 0x01020304, ackBit := True,
     headerLength := 32, window := 4096, byteArray := [1, 2, 3],
     options := [\<lparr>opt_kind = 3, opt_length = 3, opt_values = [7]\<rparr>, \<lparr>opt_kind = 5, opt_length = 6, opt_values = [0xA0B0C0D0]\<rparr>]\<rparr>"

lemma wire_example_facts:
  "wire_options wire_example" "unat (headerLength wire_example) = written_length wire_example"
  "segment_length wire_example = 35" "padding (options_length (options wire_example)) = 3"
  by (simp_all add: wire_example_def new_TCPSegment_def wire_options_def written_length_def wire_option_def
      segment_length_def padding_def option_kind_defs)

theorem segment_wire_round_trip_witness:
  "\<exists>m'. tcp_serialize wire_example 35 (replicate 36 0) = Inr m' \<and>
    tcp_parse 35 True m' new_TCPSegment = Inr
      (wire_example\<lparr>options := options wire_example @ [new_TCPOption, new_TCPOption, new_TCPOption], payloadLength := 3\<rparr>)"
proof -
  have "payloadList wire_example = []" "length (byteArray wire_example) = 3"
    by (simp_all add: wire_example_def new_TCPSegment_def)
  moreover have "wire_example\<lparr>payloadList := []\<rparr> = wire_example" by (simp add: wire_example_def new_TCPSegment_def)
  ultimately show ?thesis
    using segment_wire_round_trip[of wire_example "replicate 36 0"]
    by (simp add: wire_example_facts numeral_3_eq_3) (simp add: wire_example_def new_TCPSegment_def)
qed

text \<open>
  The first SYN of a connection, with the options that the connection writes, arrives with exactly
  these options, and without a payload.
\<close>

theorem first_syn_on_the_wire:
  assumes "synBit seg" "syn_options_state c" "options seg = []" "receiveQueue c = Some rq"
    and "headerLength seg = TCP_HEADER_OCTETS" "byteArray seg = []" "unat (snd_mss (state c)) < 65536"
    and "first_syn_state c" "60 < length m"
  shows "\<exists>seg' c' m'. writeHeaderOptions seg c = Inr (seg', c') \<and>
    options seg' = syn_options (syn_scale rq (state c)) seg c \<and>
    tcp_serialize seg' (int (unat (headerLength seg'))) m = Inr m' \<and>
    tcp_parse (ucast (headerLength seg')) True m' new_TCPSegment = Inr (seg'\<lparr>payloadLength := 0, payloadList := []\<rparr>)"
proof -
  obtain seg' c' where w: "writeHeaderOptions seg c = Inr (seg', c')" "wire_options seg'" "byteArray seg' = []"
    "options seg' = syn_options (syn_scale rq (state c)) seg c" "unat (headerLength seg') = 20 + options_length (options seg')"
    "options_length (options seg') \<le> 24" "4 dvd unat (headerLength seg')"
    using wire_syn[OF assms(1-7)] assms(8) by metis
  have "4 dvd options_length (options seg')" using w(5,7) by presburger
  then have p: "padding (options_length (options seg')) = 0" by (simp add: padding_def)
  then have h: "unat (headerLength seg') = written_length seg'" using w(5) by (simp add: written_length_def)
  have n: "segment_length seg' = unat (headerLength seg')" "segment_length seg' < length m"
    using w(3,5,6) assms(9) by (simp_all add: segment_length_def)
  have u: "of_nat (unat (headerLength seg')) = (ucast (headerLength seg') :: u32)"
    by (simp add: word_unat_eq_iff unat_of_nat_u32 order.strict_trans[OF unat_u8_u16_bound(2)])
  show ?thesis
    using wire_round_trip[OF w(2) h n(2)] arrived_whole[OF w(2) h] p w(1,3,4) u unfolding n(1) by auto
qed

theorem first_syn_on_the_wire_witness:
  "\<exists>seg' c' m'. writeHeaderOptions (new_TCPSegment\<lparr>synBit := True\<rparr>) hs_client = Inr (seg', c') \<and>
    tcp_serialize seg' (int (unat (headerLength seg'))) (replicate 61 0) = Inr m' \<and>
    tcp_parse (ucast (headerLength seg')) True m' new_TCPSegment = Inr (seg'\<lparr>payloadLength := 0, payloadList := []\<rparr>)"
proof -
  define seg where "seg = new_TCPSegment\<lparr>synBit := True\<rparr>"
  have "\<exists>rq. receiveQueue hs_client = Some rq" by (simp add: hs_client_def wnd_example_def)
  then obtain rq where rq: "receiveQueue hs_client = Some rq" by blast
  have n: "synBit seg" "options seg = []" "headerLength seg = TCP_HEADER_OCTETS" "byteArray seg = []"
    by (simp_all add: seg_def new_TCPSegment_def)
  have f: "syn_options_state hs_client" "first_syn_state hs_client" "unat (snd_mss (state hs_client)) < 65536"
    by (simp_all add: hs_client_def wnd_example_def new_TCPConnection_def syn_options_state_def
        first_syn_state_def new_TCPStateVariables_def)
  have m: "60 < length (replicate 61 (0 :: u8))" by simp
  show ?thesis using first_syn_on_the_wire[OF n(1) f(1) n(2) rq n(3,4) f(3,2) m] unfolding seg_def by blast
qed

text \<open>
  C39: The SYN+ACK that is not padded, because the connection has timestamps but its peer sent none, is a
  packet whose header announces two bytes more than there are: the payload length that the receiver
  computes wraps around, and copying the payload reads outside of the buffer.
\<close>

theorem unaligned_synack_on_the_wire:
  assumes "synBit seg" "syn_options_state c" "options seg = []" "receiveQueue c = Some rq"
    and "headerLength seg = TCP_HEADER_OCTETS" "byteArray seg = []" "unat (snd_mss (state c)) < 65536"
    and "\<not> first_syn_state c" "sack_support (state c)" "rcv_sack_perm (state c)"
    and "ts_support (state c)" "\<not> rcv_initial_ts (state c)" "60 < length m" "length m < 4294967294"
  shows "\<exists>seg' c' m' r. writeHeaderOptions seg c = Inr (seg', c') \<and>
    tcp_serialize seg' (int (unat (headerLength seg'))) m = Inr m' \<and>
    tcp_parse (ucast (headerLength seg')) False m' new_TCPSegment = Inr r \<and> payloadLength r = 4294967294 \<and>
    tcp_parse (ucast (headerLength seg')) True m' new_TCPSegment = Inl Undefined_behaviour"
proof -
  obtain seg' c' where w: "writeHeaderOptions seg c = Inr (seg', c')" "wire_options seg'" "byteArray seg' = []"
    "options seg' = syn_options (syn_scale rq (state c)) seg c" "unat (headerLength seg') = 20 + options_length (options seg')"
    "options_length (options seg') \<le> 24"
    using wire_syn[OF assms(1-7)] by metis
  have o: "offers_sack c" "\<not> offers_ts c"
    using assms(8-12) by (simp_all add: offers_sack_def offers_ts_def)
  have "options_length (options seg') mod 4 = 2"
    unfolding w(4) wire_syn_options(2)[OF assms(7)] syn_options_length using o assms(11) by simp
  then have "padding (options_length (options seg')) = 2" by (simp add: padding_def)
  then have wl: "written_length seg' = unat (headerLength seg') + 2" using w(5) by (simp add: written_length_def)
  have n: "segment_length seg' = unat (headerLength seg')" using w(3) by (simp add: segment_length_def)
  let ?h = "ucast (headerLength seg') :: u32"
  let ?m = "segment_bytes seg' (m ! 12) 0 @ drop (written_length seg') m"
  have u: "of_nat (unat (headerLength seg')) = ?h"
    by (simp add: word_unat_eq_iff unat_of_nat_u32 order.strict_trans[OF unat_u8_u16_bound(2)])
  have wrap: "?h - of_nat (written_length seg') = 4294967294"
  proof -
    have "(of_nat (written_length seg') :: u32) = ?h + 2" unfolding wl using u by simp
    then show ?thesis by simp
  qed
  have short: "written_length seg' < length m" using wl w(5,6) assms(13) by simp
  have ser: "tcp_serialize seg' (int (unat (headerLength seg'))) m = Inr ?m"
    using tcp_serialize_bytes[OF w(2), of m] short w(3) by (simp add: n)
  have len: "length ?m = length m"
    using length_segment_bytes[OF w(2), of "m ! 12" 0] w(3) short by simp
  have rest: "byteArray seg' @ drop (written_length seg') m \<noteq> []" using short by simp
  have "tcp_parse ?h False ?m new_TCPSegment = Inr (arrived_segment seg' ?h [])"
    "tcp_parse ?h True ?m new_TCPSegment = Inl Undefined_behaviour"
    using assms(14) len by (simp_all add: tcp_parse_bytes[OF w(2) rest] wrap load_def)
  moreover have "payloadLength (arrived_segment seg' ?h []) = 4294967294" using wrap by (simp add: arrived_segment_def)
  ultimately show ?thesis using w(1) ser by blast
qed

theorem unaligned_synack_on_the_wire_witness:
  "\<exists>seg' c' m' r. writeHeaderOptions (new_TCPSegment\<lparr>synBit := True, ackBit := True\<rparr>)
       (hs_server\<lparr>state := (state hs_server)\<lparr>sack_support := True, rcv_sack_perm := True\<rparr>\<rparr>) = Inr (seg', c') \<and>
    tcp_serialize seg' (int (unat (headerLength seg'))) (replicate 64 0) = Inr m' \<and>
    tcp_parse (ucast (headerLength seg')) False m' new_TCPSegment = Inr r \<and> payloadLength r = 4294967294"
proof -
  define c where "c = hs_server\<lparr>state := (state hs_server)\<lparr>sack_support := True, rcv_sack_perm := True\<rparr>\<rparr>"
  define seg where "seg = new_TCPSegment\<lparr>synBit := True, ackBit := True\<rparr>"
  have "\<exists>rq. receiveQueue c = Some rq" by (simp add: c_def hs_server_def wnd_example_def)
  then obtain rq where rq: "receiveQueue c = Some rq" by blast
  have n: "synBit seg" "options seg = []" "headerLength seg = TCP_HEADER_OCTETS" "byteArray seg = []"
    by (simp_all add: seg_def new_TCPSegment_def)
  have f: "syn_options_state c" "\<not> first_syn_state c" "sack_support (state c)" "rcv_sack_perm (state c)"
    "ts_support (state c)" "\<not> rcv_initial_ts (state c)" "unat (snd_mss (state c)) < 65536"
    by (simp_all add: c_def hs_server_def wnd_example_def new_TCPConnection_def syn_options_state_def
        first_syn_state_def new_TCPStateVariables_def)
  have m: "60 < length (replicate 64 (0 :: u8))" "length (replicate 64 (0 :: u8)) < 4294967294" by simp_all
  show ?thesis
    using unaligned_synack_on_the_wire[OF n(1) f(1) n(2) rq n(3,4) f(7) f(2-6) m] unfolding c_def seg_def by blast
qed

text \<open>
  C20: The checksum that the serializer stores is that of RFC 1071 over the pseudo header and the segment
  in network byte order, although the code adds words in host order; and the receiver of the segment,
  who computes it over the segment with its checksum, gets 0.
\<close>

theorem segment_checksum_rfc1071:
  assumes "wire_options seg" "unat (headerLength seg) = written_length seg"
    and "segment_length seg \<le> length m" "segment_length seg < 65536" "isIPv6 src = isIPv6 dest"
  shows "\<exists>m0 m'. tcp_serialize seg (int (segment_length seg)) m = Inr m0 \<and>
    tcp_serialize_checksum seg (int (segment_length seg)) src dest m = Inr m' \<and>
    load 16 2 m' = Inr (rev (bytes16 (rfc1071 (pseudo_header src dest (segment_length seg) @ take (segment_length seg) m0)))) \<and>
    tcp_checksum (of_nat (segment_length seg)) src dest m' = Inr 0"
proof -
  let ?n = "segment_length seg" and ?x = "m ! 12"
  let ?rest = "drop ?n m"
  have n: "?n = written_length seg + length (byteArray seg)" using assms(2) by (simp add: segment_length_def)
  have len: "length (segment_bytes seg ?x c) = ?n" for c using length_segment_bytes[OF assms(1)] n by simp
  define c where "c = NOT (raw_checksum (pseudo_header src dest ?n @ segment_bytes seg ?x 0))"
  have ser: "tcp_serialize seg (int ?n) m = Inr (segment_bytes seg ?x 0 @ ?rest)"
    using tcp_serialize_bytes[OF assms(1), of m] assms(3) n by simp
  have sum: "tcp_checksum (of_nat ?n) src dest (segment_bytes seg ?x d @ ?rest)
      = Inr (NOT (raw_checksum (pseudo_header src dest ?n @ segment_bytes seg ?x d)))" for d
    using tcp_checksum_raw[of ?n "segment_bytes seg ?x d @ ?rest" src dest] len[of d] assms(4,5) by simp
  have full: "tcp_serialize_checksum seg (int ?n) src dest m = Inr (segment_bytes seg ?x c @ ?rest)"
    using sum[of 0] by (simp add: tcp_serialize_checksum_def ser store_checksum c_def)
  have field: "load 16 2 (segment_bytes seg ?x c @ ?rest) = Inr (bytes16 c)"
    by (simp add: load_def segment_bytes_def tcp_header_def bytes16_def le_bytes_def)
  have "ones_sum (words_sum (pseudo_header src dest ?n @ segment_bytes seg ?x c)) = 65535"
  proof -
    let ?w = "words_sum (pseudo_header src dest ?n @ segment_bytes seg ?x 0)"
    have "words_sum (pseudo_header src dest ?n @ segment_bytes seg ?x c) = ?w + unat c"
      by (simp add: words_sum_append even_pseudo_header segment_words[of seg ?x c])
    moreover have "unat c = 65535 - ones_sum ?w" by (simp add: c_def unat_NOT unat_raw_checksum)
    ultimately show ?thesis using ones_sum_complement[of ?w] by simp
  qed
  then have "NOT (raw_checksum (pseudo_header src dest ?n @ segment_bytes seg ?x c)) = 0"
    by (simp add: word_unat_eq_iff unat_NOT unat_raw_checksum)
  then show ?thesis
    using ser full field sum[of c] len[of 0] by (simp add: c_def rfc1071_stored)
qed

theorem segment_checksum_rfc1071_witness:
  "\<exists>m0 m'. tcp_serialize wire_example 35 (replicate 36 0) = Inr m0 \<and>
    tcp_serialize_checksum wire_example 35 (IPv4 0x0A000001) (IPv4 0x0A000002) (replicate 36 0) = Inr m' \<and>
    tcp_checksum 35 (IPv4 0x0A000001) (IPv4 0x0A000002) m' = Inr 0"
  using segment_checksum_rfc1071[of wire_example "replicate 36 0" "IPv4 0x0A000001" "IPv4 0x0A000002"]
  by (fastforce simp: wire_example_facts)

text \<open>
  C38: Reading a segment does not end exactly when the loop over its options comes to an option of length
  0, which a received segment may contain; otherwise it ends.
\<close>

theorem options_loop_stuck_iff:
  assumes "20 \<le> length m"
  shows "tcp_parse bufsize withBytes m seg = Inl Non_termination \<longleftrightarrow>
    (\<exists>j opt. option_start m (announced_options m) j \<and> j < announced_options m \<and>
             get_option j m = Inr opt \<and> opt_length opt = 0)"
  using tcp_parse_loop[OF assms] get_options_none_iff[OF announced_bound] by simp

text \<open>A header of 24 bytes whose options are a no-operation, an unknown option of length 0, and zeros.\<close>

definition stuck_memory :: memory where
  "stuck_memory = replicate 12 0 @ [0x60] @ replicate 7 0 @ [1, 30, 0, 0, 0]"

theorem options_loop_stuck_iff_witness:
  "tcp_parse 24 False stuck_memory new_TCPSegment = Inl Non_termination"
proof -
  have o: "get_option 0 stuck_memory = Inr \<lparr>opt_kind = 1, opt_length = 1, opt_values = []\<rparr>"
    "get_option 1 stuck_memory = Inr \<lparr>opt_kind = 30, opt_length = 0, opt_values = []\<rparr>"
    by (simp_all add: get_option_def load8_def stuck_memory_def option_kind_defs nth_append Let_def)
  have n: "announced_options stuck_memory = 4"
    by (simp add: announced_options_def stuck_memory_def TCP_HEADER_OCTETS_def nth_append Let_def)
  have "option_start stuck_memory 4 1"
    using option_start_next[OF option_start_0 _ o(1), of 4] by simp
  moreover have "20 \<le> length stuck_memory" by (simp add: stuck_memory_def)
  ultimately show ?thesis using options_loop_stuck_iff[of stuck_memory 24 False new_TCPSegment] o(2) n by fastforce
qed

end
