(* ===== verification/Spec2Isabelle.thy ===== *)
theory Spec2Isabelle
  imports TCP_SACK_Scoreboard TCP_Flavours TCP_Transmit_List TCP_Windows TCP_Option_Laws TCP_Alg_Laws
    TCP_Send_Laws TCP_Rcv_Laws IPv4_Delivery UDP_Laws IPv4_ARP ICMP_Laws IGMP_Service Wire_TCP_Service
begin

text \<open>
  This development models the protocols of the INET framework (\<^verbatim>\<open>src/Hiwis/src/inet\<close>, C++) that carry
  packets from one application to another: TCP, UDP, IPv4 with fragmentation and routing, ARP, ICMP and
  IGMP.
  INET runs on the OMNeT++ simulation kernel: a module handles one event at a time, a message that
  arrives, a timer or a notification, and answers with messages and new timers. So every module here
  is a record of its state, every operation a function from a state to a state, the messages that it
  hands over are collected in a list of the state in the order in which the code sends them, and the
  modules of one node are composed the way the code connects them, by gates, by calls and by signals.

  An operation of the code that can throw, read through a null pointer or run forever has a result of
  type \<open>res\<close>: \<open>Inl\<close> the error, or \<open>Inr\<close> the result (\<open>TCP_Prelude\<close>). So every \<^verbatim>\<open>ASSERT\<close>, every
  \<^verbatim>\<open>throw cRuntimeError\<close> and every early return is a branch of the definition. Sequence numbers, ports,
  windows and addresses are words of their width, with the wrap-around of the code; \<open>int\<close> fields are
  integers, and the bound under which they stay is stated where a claim depends on it; simulation time
  is an integer number of picoseconds. A \<^verbatim>\<open>std::map\<close> is a list sorted by its key (\<open>Std_Map\<close>), a vector a
  list, and a shared object, such as a socket or a route that two containers point to, lives in a heap
  with the pointer as its key.

  \<^bold>\<open>The parts and how they interact.\<close>

  An application gives commands to \<open>TCP_Module\<close> or \<open>UDP_Module\<close>. Segments and packets go to
  \<open>IPv4_Module\<close>, which asks \<open>IPv4_Routing_Table\<close> for the way, cuts what is too long for the interface,
  and asks ARP for the address of the next hop; what arrives is put together again by \<open>IPv4_FragBuf\<close> and
  handed to the protocol, or forwarded. \<open>IPv4_ARP\<close> is the node of IPv4 and ARP: the calls of IPv4 to ARP
  return its answer, and the signals of ARP release the datagrams that wait. \<open>ICMP_Laws\<close> connects ICMP,
  IPv4 and UDP. A connection of TCP (\<open>TCP_Main\<close>, \<open>TCP_State\<close>, \<open>TCP_FSM\<close>) owns a send queue, a receive
  queue, a SACK scoreboard and an algorithm; the algorithm is a record of functions (\<open>TCPAlgNotify\<close>),
  as the virtual methods of the code are, and the laws that the connection needs of it are locales.

  \<^bold>\<open>Data structures of TCP.\<close>

  \<open>TCP_Prelude\<close>, \<open>Std_Map\<close>: types, errors, timers, sequencing of fallible steps, and the facts on words
  and lists that the components share.

  \<open>TCP_Seq\<close>, \<open>TCP_Segment\<close> (\<^verbatim>\<open>transport/tcp_common/TCPSegment.*\<close>): comparison of sequence numbers modulo
  2^32, and \<open>off x s\<close>, the distance of s from x, by which the proofs turn it into a comparison of
  natural numbers; segments, options, SACK blocks, truncation.

  \<open>Byte_Array\<close> (\<^verbatim>\<open>base/ByteArray.*\<close>, \<^verbatim>\<open>base/ByteArrayBuffer.*\<close>).

  \<open>TCP_Send_Queue\<close> (\<^verbatim>\<open>transport/tcp/queues/*SendQueue.cc\<close>): the three kinds of send queue. The locale
  \<open>send_queue\<close> has what the connection needs of one; the interpretations \<open>virtual_send\<close>, \<open>msg_send\<close>
  and \<open>byte_send\<close> prove it of each kind and \<open>any_send\<close> of the dispatch over them. For the byte stream
  the bytes travel unchanged.

  \<open>TCP_Rcv_Queue\<close> (\<^verbatim>\<open>transport/tcp/queues/*RcvQueue.cc\<close>): regions, their merging and splitting, and the
  three kinds of receive queue. The locale \<open>region_methods\<close> (interpreted for plain and for byte regions)
  carries the proofs about lists of regions, \<open>receive_queue\<close> (for each kind and the dispatch) those
  about inserting and draining: whatever arrives, rcv_nxt moves exactly over the contiguous data.

  \<open>TCP_SACK_Rexmit_Queue\<close>, \<open>TCP_SACK_Scoreboard\<close> (\<^verbatim>\<open>TCPSACKRexmitQueue.cc\<close>): the sender's scoreboard, and
  its refinement of a map from sequence numbers to flags.

  \<^bold>\<open>TCP.\<close>

  \<open>IPvX_Address\<close>, \<open>Ephemeral_Ports\<close>: addresses of either version; the search for a free port, which
  TCP.cc and UDP.cc both have, as the locale \<open>port_allocator\<close> (\<open>tcp_ports\<close>, \<open>udp_ports\<close>).

  \<open>TCP_Main\<close> (\<^verbatim>\<open>TCP.cc\<close>): the tables of the module, demultiplexing, forking and removal of connections.
  \<open>TCP_State\<close> (\<^verbatim>\<open>TCPConnection.h\<close>): the state variables. \<open>TCP_FSM\<close> (\<^verbatim>\<open>TCPConnectionBase.cc\<close>): the state
  machine and its actions; the locale \<open>closing_algorithm\<close> has what they need of an algorithm.
  \<open>TCP_Conn_Options\<close> and \<open>TCP_Conn_Send\<close> (\<^verbatim>\<open>TCPConnectionUtil.cc\<close>), \<open>TCP_Conn_Sack\<close>
  (\<^verbatim>\<open>TCPConnectionSackUtil.cc\<close>), \<open>TCP_Conn_Rcv\<close> (\<^verbatim>\<open>TCPConnectionRcvSegment.cc\<close>) and \<open>TCP_Module\<close>
  (\<^verbatim>\<open>TCPConnectionEventProc.cc\<close> and the dispatch of events) are the handlers.
  \<open>TCP_Base_Alg\<close> (\<^verbatim>\<open>flavours/DumbTCP.cc\<close>, \<^verbatim>\<open>TCPBaseAlg.cc\<close>) and \<open>TCP_Flavours\<close> (Tahoe, Reno, NewReno, no
  congestion control) are the algorithms; \<open>TCP_Transmit_List\<close> is the list that Vegas and Westwood keep.

  Laws: \<open>TCP_FSM\<close> (TIME_WAIT only after both FINs), \<open>TCP_Windows\<close> (the receive window),
  \<open>TCP_Option_Laws\<close> (options as written and read, and the handshake), \<open>TCP_Alg_Laws\<close> (timeouts,
  congestion windows, giving up), \<open>TCP_Send_Laws\<close> (what sendData sends; the locale \<open>sending_algorithm\<close>,
  interpreted for \<open>DumbTCP\<close> and the \<open>TCPBaseAlg\<close> family) and \<open>TCP_Rcv_Laws\<close> (a refused connection).

  \<^bold>\<open>IPv4, ARP, UDP, ICMP, IGMP.\<close>

  \<open>IPv4_Address\<close>, \<open>MAC_Address\<close>, \<open>IPv4_Interface\<close> (\<^verbatim>\<open>networklayer/contract/IPv4Address.*\<close>,
  \<^verbatim>\<open>linklayer/contract/MACAddress.*\<close>, \<^verbatim>\<open>InterfaceTable.cc\<close>, \<^verbatim>\<open>IPv4InterfaceData.cc\<close>): addresses, netmasks,
  printing and parsing, interfaces and their multicast groups.

  \<open>IP_Reassembly\<close>, \<open>IPv4_FragBuf\<close> (\<^verbatim>\<open>ReassemblyBuffer.cc\<close>, \<^verbatim>\<open>IPv4FragBuf.cc\<close>, the loop of
  \<^verbatim>\<open>IPv4::fragmentAndSend\<close>): fragments in any order, repeated, and mixed with those of other datagrams.

  \<open>IPv4_Routing_Table\<close>, \<open>IPv4_Routing_Laws\<close> (\<^verbatim>\<open>RoutingTable.cc\<close>, \<^verbatim>\<open>IPv4Route.cc\<close>): both vectors of routes are
  kept sorted by the same operations, so the locale \<open>route_order\<close> is interpreted for unicast and for
  multicast routes; the longest prefix is found, and the caches never change an answer.

  \<open>IPv4_Module\<close>, \<open>IPv4_Laws\<close>, \<open>IPv4_Delivery\<close> (\<^verbatim>\<open>IPv4.cc\<close>): the paths of a datagram through the module, and
  what they promise: MTU, routing, no forwarding by hosts, delivery of fragments on the other node.

  \<open>ARP_Module\<close>, \<open>ARP_Laws\<close> (\<^verbatim>\<open>ARP.cc\<close>) and \<open>IPv4_ARP\<close>: the cache and its timers, the exchange between two
  nodes, and the datagrams that wait for it: they leave in order when the answer comes, and are dropped
  when it does not.

  \<open>UDP_Module\<close>, \<open>UDP_Laws\<close> (\<^verbatim>\<open>UDP.cc\<close>): sockets, their two maps, unicast and multicast demultiplexing.

  \<open>ICMP_Module\<close>, \<open>ICMP_Laws\<close> (\<^verbatim>\<open>ICMP.cc\<close>): when an error is sent and to whom, echo, and the way of an error
  back to the socket that sent the packet.

  \<open>IGMP_Module\<close>, \<open>IGMP_Laws\<close>, \<open>IGMP_Node\<close> (\<^verbatim>\<open>IGMPv2.cc\<close>): the host and the router part with their timers, what
  each handler does to the data of an interface, and the agreement of these data with the interfaces of
  the node. \<open>IGMP_Link\<close>, \<open>IGMP_Service\<close>: one router and any number of hosts on a link without delay and
  loss; what each message in the air will repair is the invariant by which the router forwards every
  group that has a member.

  \<^bold>\<open>The wire format of TCP.\<close>

  \<open>Wire_Memory\<close> (\<^verbatim>\<open>util/headerserializers/TCPIPchecksum.*\<close>): memory as a list of bytes, loads and stores
  with the byte order of the machine, the checksum of the code as a ones' complement sum.
  \<open>Wire_TCP\<close> (\<^verbatim>\<open>util/headerserializers/tcp/TCPSerializer.cc\<close>): a segment written into a buffer, its
  checksum, and a segment parsed from one. \<open>Wire_TCP_Laws\<close> says byte for byte what is written,
  \<open>Wire_TCP_Round_Trip\<close> that it is read back and when the loop over the options ends, \<open>Wire_Checksum\<close> that
  the sum in host order is that of RFC 1071 in network order; \<open>Wire_TCP_Service\<close> has the properties, with
  the options that a connection writes.

  \<^bold>\<open>Loops, bounds and fuel.\<close>

  Loops over a container are structural recursions. Loops whose end depends on the state are
  \<open>partial_function\<close>s into an option, where \<open>None\<close> means that the loop does not end, and \<open>of_loop\<close> makes
  the error \<open>Non_termination\<close> of it: \<open>ephemeral_loop\<close> (ends after at most 3976 ports),
  \<open>frag_offsets\<close> (ends when a fragment carries at least 8 octets), \<open>drain\<close> (ends because each round
  removes bytes), \<open>send_full_segments\<close> (ends because each round moves snd_nxt), \<open>get_options\<close> (the options of a segment
  on the wire; ends unless one of them has length 0), and \<open>pipe_loop\<close>, \<open>unsacked_loop\<close>, \<open>recovery_loop\<close>, \<open>retransmit_loop\<close> of the SACK code. No definition has fuel.
  Theorems that such a code returns state the result itself (\<^verbatim>\<open>= Some (Inr ...)\<close>).

  Claims about comparisons of sequence numbers need their distance to be below 2^31 (\<open>in_half\<close>); the
  receive queues and the send queues keep it. Claims that speak of many messages bound the counter that
  the code writes into names: less than 100000 ICMP errors (\<open>icmp_ctr\<close>), because the buffer overflows
  after a million.

  \<^bold>\<open>What modelling showed.\<close>

  Behaviour of the code that differs from what it, a comment or an RFC intends; the model has it as the
  code does it.
  TCP: a byte region that overlaps the end of another is merged with the wrong bytes;
  a cloned listening connection is not configured; PAWS is inverted; a
  deferred CLOSE overwrites a FIN; the FIN_WAIT_2 timer is never started; the bounds of the persist
  timer are applied to another variable; NewReno compares sequence numbers as integers; updateSockPair
  may overwrite an entry; the window scale is recomputed for every segment; an exhausted window can
  wrap around to a full one; a SYN+ACK with SACK but no timestamps is not padded; init() of some queues
  does not flush; the parser of segments never leaves an option of length 0, reads a byte behind the
  options, and wraps around on the unpadded SYN+ACK.
  IPv4: a datagram with a time to live of 1 is forwarded with 0; changing the administrative distance of
  a route does not re-sort the table; the address of a deleted interface
  may stay local; addFragment may erase through end().
  UDP: bind keeps onlyLocalPortIsSet, takes -1 for port 65535, and leaks the ephemeral port.
  ARP: an address that is in use elsewhere stops the simulation.
  IGMP: a query for an unknown group follows a null pointer in a router that is not the querier;
  startupQueryCount is not used; a deleted interface leaves the counters as they are.
  ICMP: a broadcast ping stops the simulation; a timestamp request gets an echo
  reply; unroutable packets without source are never reported; the name of an error overflows.

  \<^bold>\<open>Not modelled.\<close>

  Vegas and Westwood compute with floating point estimates of rates, for which a model over exact
  numbers would be another program. The lwIP and NSC based TCP wrap third-party stacks that are not
  under src. The serializers of the other protocols serve packet capture and external interfaces. IPv6, SCTP, RTP, the routing protocols, the link layer, the
  applications and mobility are programs of their own, which meet these models only through messages.
  The OMNeT++ headers and the JNI glue carry no protocol logic. Of the modelled components, statistics
  signals, output vectors, display strings, logging, the reading of parameters and of the routing file,
  and IPv4 options are left out. What the modules call but do not define are arguments: netfilter
  hooks, listeners of notifications, random numbers, and the answers of modules that are connected
  later.
\<close>

end
